(* ===== verification/Prelude.thy ===== *)
theory Prelude
  imports Main "HOL-Library.Word" "HOL-Library.Monad_Syntax"
begin

text \<open>
  Shared vocabulary of the development.

  A Rust function that may panic is a HOL function into \<open>option\<close>: \<open>None\<close> is the
  panic (\<open>panic!\<close>, a failed \<open>assert\<close>, \<open>unwrap\<close> of \<open>None\<close>, an index out of range, a
  division by zero, an arithmetic overflow in a profile with overflow checks).
  The checked operations below make every overflow explicit, so a theorem that a
  call returns \<open>Some\<close> also says that no operation overflowed, and the result is the
  one both build profiles compute.

  \<open>usize\<close> values that are sizes, counts, indices or physical addresses of the
  allocators are natural numbers handled by the checked operations; values whose bit
  pattern matters (page table entries, ring indices, device registers) are words of
  their width.
\<close>

unbundle bit_operations_syntax

type_synonym usize = nat
type_synonym u8 = "8 word"
type_synonym u16 = "16 word"
type_synonym u32 = "32 word"
type_synonym u64 = "64 word"

named_theorems panic_simps \<open>unfolding the option monad and the checked operations\<close>

section \<open>Checked arithmetic on usize\<close>

abbreviation usize_bound :: nat where
  "usize_bound \<equiv> 2 ^ 64"

definition uadd :: "usize \<Rightarrow> usize \<Rightarrow> usize option" where
  "uadd a b = (if a + b < usize_bound then Some (a + b) else None)"

definition usub :: "usize \<Rightarrow> usize \<Rightarrow> usize option" where
  "usub a b = (if b \<le> a then Some (a - b) else None)"

definition umul :: "usize \<Rightarrow> usize \<Rightarrow> usize option" where
  "umul a b = (if a * b < usize_bound then Some (a * b) else None)"

definition udiv :: "usize \<Rightarrow> usize \<Rightarrow> usize option" where
  "udiv a b = (if b = 0 then None else Some (a div b))"

definition umod :: "usize \<Rightarrow> usize \<Rightarrow> usize option" where
  "umod a b = (if b = 0 then None else Some (a mod b))"

text \<open>\<open>assert!\<close>, and the branches that end in \<open>panic!\<close>.\<close>

definition assert_that :: "bool \<Rightarrow> unit option" where
  "assert_that b = (if b then Some () else None)"

text \<open>Indexing of arrays and vectors.\<close>

definition vec_get :: "'a list \<Rightarrow> usize \<Rightarrow> 'a option" where
  "vec_get xs i = (if i < length xs then Some (xs ! i) else None)"

definition vec_set :: "'a list \<Rightarrow> usize \<Rightarrow> 'a \<Rightarrow> 'a list option" where
  "vec_set xs i v = (if i < length xs then Some (xs[i := v]) else None)"

text \<open>\<open>Vec::remove\<close> and \<open>VecDeque::remove\<close>.\<close>

definition remove_nth :: "nat \<Rightarrow> 'a list \<Rightarrow> 'a list" where
  "remove_nth i xs = take i xs @ drop (Suc i) xs"

lemma uadd_Some_iff [panic_simps]: "uadd a b = Some c \<longleftrightarrow> c = a + b \<and> a + b < usize_bound"
  by (auto simp: uadd_def)

lemma usub_Some_iff [panic_simps]: "usub a b = Some c \<longleftrightarrow> b \<le> a \<and> c = a - b"
  by (auto simp: usub_def)

lemma umul_Some_iff [panic_simps]: "umul a b = Some c \<longleftrightarrow> c = a * b \<and> a * b < usize_bound"
  by (auto simp: umul_def)

lemma udiv_Some_iff [panic_simps]: "udiv a b = Some c \<longleftrightarrow> b \<noteq> 0 \<and> c = a div b"
  by (auto simp: udiv_def)

lemma umod_Some_iff [panic_simps]: "umod a b = Some c \<longleftrightarrow> b \<noteq> 0 \<and> c = a mod b"
  by (auto simp: umod_def)

lemma assert_that_Some_iff [panic_simps]: "assert_that b = Some u \<longleftrightarrow> b"
  by (simp add: assert_that_def)

lemma vec_get_Some_iff [panic_simps]: "vec_get xs i = Some x \<longleftrightarrow> i < length xs \<and> x = xs ! i"
  by (auto simp: vec_get_def)

lemma vec_set_Some_iff [panic_simps]: "vec_set xs i v = Some ys \<longleftrightarrow> i < length xs \<and> ys = xs[i := v]"
  by (auto simp: vec_set_def)

lemma checked_simps [simp]:
  "a + b < usize_bound \<Longrightarrow> uadd a b = Some (a + b)"
  "b \<le> a \<Longrightarrow> usub a b = Some (a - b)"
  "a * b < usize_bound \<Longrightarrow> umul a b = Some (a * b)"
  "b \<noteq> 0 \<Longrightarrow> udiv a b = Some (a div b)"
  "b \<noteq> 0 \<Longrightarrow> umod a b = Some (a mod b)"
  "i < length xs \<Longrightarrow> vec_get xs i = Some (xs ! i)"
  "i < length xs \<Longrightarrow> vec_set xs i v = Some (xs[i := v])"
  "assert_that True = Some ()"
  by (simp_all add: uadd_def usub_def umul_def udiv_def umod_def vec_get_def vec_set_def assert_that_def)

declare Option.bind_eq_Some_conv [panic_simps]

lemma set_remove_nth: "set (remove_nth i xs) \<subseteq> set xs"
  by (auto simp: remove_nth_def dest: in_set_takeD in_set_dropD)

lemma set_remove_nth_distinct:
  assumes "distinct xs" "k < length xs"
  shows "set (remove_nth k xs) = set xs - {xs ! k}"
proof -
  have "xs = take k xs @ xs ! k # drop (Suc k) xs" using assms(2) by (rule id_take_nth_drop)
  with assms(1) show ?thesis
    by (metis Un_insert_right distinct_append distinct.simps(2) insert_Diff1 remove_nth_def set_append list.simps(15)
        Diff_insert_absorb Un_iff singletonI Diff_insert0 disjoint_iff insertCI)
qed

lemma nth_remove_before: "idx < a \<Longrightarrow> a < length xs \<Longrightarrow> remove_nth idx xs ! (a - 1) = xs ! a"
  by (cases a) (auto simp: remove_nth_def nth_append min_def)

lemma nth_remove_after: "a < idx \<Longrightarrow> idx < length xs \<Longrightarrow> remove_nth idx xs ! a = xs ! a"
  by (simp add: remove_nth_def nth_append)

lemma length_remove_nth: "i < length xs \<Longrightarrow> length (remove_nth i xs) = length xs - 1"
  by (simp add: remove_nth_def)

lemma distinct_remove_nth: "distinct xs \<Longrightarrow> distinct (remove_nth i xs)"
proof -
  assume d: "distinct xs"
  then have "set (take i xs) \<inter> set (drop (Suc i) xs) = {}"
    by (intro set_take_disj_set_drop_if_distinct) simp_all
  with d show ?thesis by (simp add: remove_nth_def)
qed

lemma nth_remove_nth:
  "i < length xs \<Longrightarrow> j < length xs - 1 \<Longrightarrow> remove_nth i xs ! j = xs ! (if j < i then j else Suc j)"
  by (auto simp: remove_nth_def nth_append min_def)

section \<open>Loops that may panic\<close>

text \<open>\<open>for x in xs { body }\<close> over a state, without an early exit.\<close>

primrec fold_opt :: "('a \<Rightarrow> 's \<Rightarrow> 's option) \<Rightarrow> 'a list \<Rightarrow> 's \<Rightarrow> 's option" where
  "fold_opt f [] s = Some s"
| "fold_opt f (x # xs) s = do { s' \<leftarrow> f x s; fold_opt f xs s' }"

text \<open>\<open>for i in a..b { body }\<close>.\<close>

definition for_range :: "nat \<Rightarrow> nat \<Rightarrow> (nat \<Rightarrow> 's \<Rightarrow> 's option) \<Rightarrow> 's \<Rightarrow> 's option" where
  "for_range a b f s = fold_opt f [a..<b] s"

text \<open>A loop that returns from the function at the first hit; the inner \<open>option\<close> is the value returned.\<close>

primrec find_loop :: "('a \<Rightarrow> 'b option option) \<Rightarrow> 'a list \<Rightarrow> 'b option option" where
  "find_loop f [] = Some None"
| "find_loop f (x # xs) = do { r \<leftarrow> f x; case r of Some y \<Rightarrow> Some (Some y) | None \<Rightarrow> find_loop f xs }"

lemma find_loop_in: "find_loop f xs = Some (Some r) \<Longrightarrow> \<exists>x \<in> set xs. f x = Some (Some r)"
  by (induction xs) (auto simp: panic_simps split: option.splits)

lemma fold_opt_append:
  "fold_opt f (xs @ ys) s = do { s' \<leftarrow> fold_opt f xs s; fold_opt f ys s' }"
  by (induction xs arbitrary: s) (auto split: bind_splits)

lemma fold_opt_invariant:
  assumes "fold_opt f xs s = Some t" and "I s"
    and "\<And>x s s'. x \<in> set xs \<Longrightarrow> I s \<Longrightarrow> f x s = Some s' \<Longrightarrow> I s'"
  shows "I t"
  using assms by (induction xs arbitrary: s) (auto simp: panic_simps)

lemma fold_opt_total:
  assumes "I s" and "\<And>x s. x \<in> set xs \<Longrightarrow> I s \<Longrightarrow> \<exists>s'. f x s = Some s' \<and> I s'"
  shows "\<exists>t. fold_opt f xs s = Some t \<and> I t"
  using assms
proof (induction xs arbitrary: s)
  case Nil
  then show ?case by simp
next
  case (Cons x xs)
  then obtain s' where "f x s = Some s'" "I s'" by (meson list.set_intros(1))
  with Cons show ?case by (auto simp: panic_simps)
qed

lemma for_range_empty [simp]: "b \<le> a \<Longrightarrow> for_range a b f s = Some s"
  by (simp add: for_range_def)

lemma for_range_step:
  "a < b \<Longrightarrow> for_range a b f s = do { s' \<leftarrow> f a s; for_range (Suc a) b f s' }"
  by (simp add: for_range_def upt_conv_Cons)

lemma for_range_Suc:
  "a \<le> b \<Longrightarrow> for_range a (Suc b) f s = do { s' \<leftarrow> for_range a b f s; f b s' }"
  by (simp add: for_range_def fold_opt_append)

text \<open>An invariant indexed by the loop counter, for partial and total correctness.\<close>

lemma for_range_invariant:
  assumes "for_range a b f s = Some t" and "I a s" and "a \<le> b"
    and "\<And>i s s'. a \<le> i \<Longrightarrow> i < b \<Longrightarrow> I i s \<Longrightarrow> f i s = Some s' \<Longrightarrow> I (Suc i) s'"
  shows "I b t"
  using \<open>a \<le> b\<close> assms(1,2,4)
proof (induction b arbitrary: t rule: dec_induct)
  case base
  then show ?case by simp
next
  case (step n)
  then obtain u where u: "for_range a n f s = Some u" "f n u = Some t"
    by (auto simp: for_range_Suc panic_simps)
  then have "I n u" using step by simp
  then show ?case using u step by blast
qed

lemma for_range_total:
  assumes "I a s" and "a \<le> b"
    and "\<And>i s. a \<le> i \<Longrightarrow> i < b \<Longrightarrow> I i s \<Longrightarrow> \<exists>s'. f i s = Some s' \<and> I (Suc i) s'"
  shows "\<exists>t. for_range a b f s = Some t \<and> I b t"
  using \<open>a \<le> b\<close> assms(1,3)
proof (induction b rule: dec_induct)
  case base
  then show ?case by auto
next
  case (step n)
  then obtain u where "for_range a n f s = Some u" "I n u" by fastforce
  moreover from this step obtain t where "f n u = Some t" "I (Suc n) t" by blast
  ultimately show ?case using step by (auto simp: for_range_Suc panic_simps)
qed

end
