(* ===== verification/Util.thy ===== *)
theory Util
  imports Prelude
begin

text \<open>
  \<open>src/src/lib/util.rs\<close>: rounding, ranges, bit fields and the search for the n-th set or
  clear bit of a word, with the reference definitions they implement.
\<close>

section \<open>Rounding and ranges\<close>

definition PAGE_SIZE :: usize where
  "PAGE_SIZE = 4096"

definition round_up :: "usize \<Rightarrow> usize \<Rightarrow> usize option" where
  "round_up value to = do {
     s \<leftarrow> uadd value to;
     d \<leftarrow> usub s 1;
     q \<leftarrow> udiv d to;
     umul q to }"

definition round_down :: "u64 \<Rightarrow> u64 \<Rightarrow> u64" where
  "round_down value to = value AND NOT (to - 1)"

definition byte2page :: "usize \<Rightarrow> usize option" where
  "byte2page byte = do { r \<leftarrow> round_up byte PAGE_SIZE; udiv r PAGE_SIZE }"

definition range_in_range :: "usize \<Rightarrow> usize \<Rightarrow> usize \<Rightarrow> usize \<Rightarrow> bool option" where
  "range_in_range base1 size1 base2 size2 =
     (if \<not> base2 \<le> base1 then Some False
      else do { e1 \<leftarrow> uadd base1 size1; e2 \<leftarrow> uadd base2 size2; Some (e1 \<le> e2) })"

definition in_range :: "usize \<Rightarrow> usize \<Rightarrow> usize \<Rightarrow> bool option" where
  "in_range addr base sz = range_in_range addr 0 base sz"

lemma PAGE_SIZE_pos [simp]: "0 < PAGE_SIZE" "PAGE_SIZE \<noteq> 0"
  by (simp_all add: PAGE_SIZE_def)

lemma round_up_Some:
  assumes "0 < to" and "value + to < usize_bound"
  shows "round_up value to = Some ((value + to - 1) div to * to)"
proof -
  have "(value + to - 1) div to * to \<le> value + to - 1" by (rule div_times_less_eq_dividend)
  with assms have "(value + to - 1) div to * to < usize_bound" by linarith
  with assms show ?thesis by (simp add: round_up_def)
qed

text \<open>\<open>round_up\<close> is the least multiple of \<open>to\<close> that is not below \<open>value\<close>.\<close>

lemma round_up_least:
  assumes "0 < to" and "round_up value to = Some r"
  shows "to dvd r \<and> value \<le> r \<and> r < value + to \<and> (\<forall>m. to dvd m \<longrightarrow> value \<le> m \<longrightarrow> r \<le> m)"
proof -
  from assms have r: "r = (value + to - 1) div to * to"
    by (auto simp: round_up_def panic_simps)
  have "(value + to - 1) div to * to + (value + to - 1) mod to = value + to - 1" by simp
  moreover have "(value + to - 1) mod to < to" using assms(1) by simp
  ultimately have b: "value \<le> r" "r < value + to" using assms(1) r by linarith+
  have "r \<le> m" if "to dvd m" "value \<le> m" for m
  proof -
    from \<open>to dvd m\<close> obtain k where k: "m = to * k" ..
    have "to * (r div to) < to * Suc k" using b(2) that(2) k r assms(1) by (simp add: mult.commute)
    then have "r div to < Suc k" by (simp only: mult_less_cancel1)
    then have "to * (r div to) \<le> to * k" by (intro mult_le_mono2) simp
    then show ?thesis using k r assms(1) by (simp add: mult.commute)
  qed
  with b r show ?thesis by simp
qed

lemma byte2page_Some:
  "byte + PAGE_SIZE < usize_bound \<Longrightarrow> byte2page byte = Some ((byte + PAGE_SIZE - 1) div PAGE_SIZE)"
  by (simp add: byte2page_def round_up_Some)

lemma range_in_range_True:
  "range_in_range b1 s1 b2 s2 = Some True \<Longrightarrow> {b1..<b1 + s1} \<subseteq> {b2..<b2 + s2}"
  by (auto simp: range_in_range_def panic_simps split: if_splits)

section \<open>Bit fields\<close>

text \<open>A shift by 64 or more is a panic of the overflow-checked profile.\<close>

definition bit_extract :: "u64 \<Rightarrow> usize \<Rightarrow> usize \<Rightarrow> u64 option" where
  "bit_extract bits off len =
     (if off < 64 \<and> len < 64 then Some (drop_bit off bits AND (push_bit len 1 - 1)) else None)"

definition bit_get :: "u64 \<Rightarrow> usize \<Rightarrow> u64 option" where
  "bit_get bits off = (if off < 64 then Some (drop_bit off bits AND 1) else None)"

definition bit_set :: "u64 \<Rightarrow> usize \<Rightarrow> u64 option" where
  "bit_set bits off = (if off < 64 then Some (bits OR push_bit off 1) else None)"

lemma bit_extract_take_bit:
  "off < 64 \<Longrightarrow> len < 64 \<Longrightarrow> bit_extract bits off len = Some (take_bit len (drop_bit off bits))"
  by (simp add: bit_extract_def take_bit_eq_mask mask_eq_exp_minus_1 push_bit_eq_mult)

lemma bit_get_eq: "off < 64 \<Longrightarrow> bit_get bits off = Some (of_bool (bit bits off))"
  by (simp add: bit_get_def bit_iff_odd_drop_bit and_one_eq mod_2_eq_odd)

lemma bit_extract_1: "off < 64 \<Longrightarrow> bit_extract bits off 1 = Some (of_bool (bit bits off))"
  by (simp add: bit_extract_def bit_iff_odd_drop_bit and_one_eq mod_2_eq_odd)

lemma bit_get_bit_set:
  "off < 64 \<Longrightarrow> off' < 64 \<Longrightarrow>
     (bit_set bits off \<bind> (\<lambda>b. bit_get b off')) = Some (if off = off' then 1 else of_bool (bit bits off'))"
  by (auto simp: bit_set_def bit_get_eq bit_simps)

section \<open>The n-th bit of a bitmap\<close>

text \<open>
  The loop counts the bits equal to \<open>set\<close> in \<open>start..end\<close> and stops at the n-th;
  the inner \<open>option\<close> is Rust's result, the outer one the panic.
\<close>

function bitmap_find_nth_loop :: "u64 \<Rightarrow> usize \<Rightarrow> usize \<Rightarrow> usize \<Rightarrow> usize \<Rightarrow> u64 \<Rightarrow> usize option option" where
  "bitmap_find_nth_loop bitmap i fin count n bitv =
     (if fin \<le> i then Some None
      else do {
        b \<leftarrow> bit_extract bitmap i 1;
        if b = bitv then
          (if count + 1 = n then Some (Some i)
           else bitmap_find_nth_loop bitmap (i + 1) fin (count + 1) n bitv)
        else bitmap_find_nth_loop bitmap (i + 1) fin count n bitv })"
  by pat_completeness auto
termination
  by (relation "measure (\<lambda>(bitmap, i, fin, count, n, bitv). fin - i)") auto

declare bitmap_find_nth_loop.simps [simp del]

definition bitmap_find_nth :: "u64 \<Rightarrow> usize \<Rightarrow> usize \<Rightarrow> usize \<Rightarrow> bool \<Rightarrow> usize option option" where
  "bitmap_find_nth bitmap start sz n st = do {
     e \<leftarrow> uadd sz start;
     if e > 64 then Some None
     else bitmap_find_nth_loop bitmap start e 0 n (if st then 1 else 0) }"

text \<open>Reference: the n-th element (from 1) of the list of matching positions.\<close>

definition nth_matching :: "u64 \<Rightarrow> nat list \<Rightarrow> nat \<Rightarrow> bool \<Rightarrow> nat option" where
  "nth_matching bitmap is n st =
     (let ms = filter (\<lambda>i. bit bitmap i = st) is
      in if 0 < n \<and> n \<le> length ms then Some (ms ! (n - 1)) else None)"

lemma bitmap_find_nth_loop_eq:
  assumes "fin \<le> 64"
  shows "count < n \<or> n = 0 \<Longrightarrow>
    bitmap_find_nth_loop bitmap i fin count n (if st then 1 else 0) =
    Some (if n = 0 then None else nth_matching bitmap [i..<fin] (n - count) st)"
proof (induction "fin - i" arbitrary: i count)
  case 0
  then show ?case
    by (subst bitmap_find_nth_loop.simps) (simp add: nth_matching_def)
next
  case (Suc k)
  then have i: "i < fin" "i < 64" using assms by simp_all
  note IH = Suc.hyps(1)[of "Suc i"]
  have upt: "[i..<fin] = i # [Suc i..<fin]" using i by (simp add: upt_conv_Cons)
  have e: "bit_extract bitmap i 1 = Some (of_bool (bit bitmap i))" using i by (rule_tac bit_extract_1)
  show ?case
  proof (cases "bit bitmap i = st")
    case True
    then have "of_bool (bit bitmap i) = (if st then 1 else 0 :: u64)" by simp
    moreover have "nth_matching bitmap [i..<fin] (n - count) st =
        (if count + 1 = n then Some i else nth_matching bitmap [Suc i..<fin] (n - Suc count) st)"
      if "n \<noteq> 0"
      using True Suc.prems that unfolding upt
      by (auto simp: nth_matching_def Let_def nth_Cons' Suc_diff_Suc)
    ultimately show ?thesis
      using IH[of "Suc count"] Suc.hyps(2) Suc.prems i e
      by (subst bitmap_find_nth_loop.simps) auto
  next
    case False
    then have "of_bool (bit bitmap i) \<noteq> (if st then 1 else 0 :: u64)" by auto
    moreover have "nth_matching bitmap [i..<fin] (n - count) st =
        nth_matching bitmap [Suc i..<fin] (n - count) st"
      using False unfolding upt by (simp add: nth_matching_def)
    ultimately show ?thesis
      using IH[of count] Suc.hyps(2) Suc.prems i e
      by (subst bitmap_find_nth_loop.simps) auto
  qed
qed

lemma bitmap_find_nth_eq:
  assumes "start + sz \<le> 64"
  shows "bitmap_find_nth bitmap start sz n st = Some (nth_matching bitmap [start..<start + sz] n st)"
proof -
  have "bitmap_find_nth bitmap start sz n st =
      bitmap_find_nth_loop bitmap start (start + sz) 0 n (if st then 1 else 0)"
    using assms by (simp add: bitmap_find_nth_def add.commute)
  also have "\<dots> = Some (if n = 0 then None else nth_matching bitmap [start..<start + sz] n st)"
    using bitmap_find_nth_loop_eq[OF assms, of 0 n bitmap start st] by auto
  finally show ?thesis by (simp add: nth_matching_def)
qed

end
