(* ===== verification/Bitmap.thy ===== *)
theory Bitmap
  imports Util
begin

text \<open>
  \<open>src/src/lib/bitmap.rs\<close>: the 16-ary bitmaps behind the trait \<open>BitAlloc\<close> and the flexible
  bitmap \<open>FlexBitmap\<close> used for dirty pages.

  The trait is the locale \<open>bit_alloc\<close>: capacity, default value, the three operations and the
  laws clients rely on.  \<open>BitAlloc16\<close> is one provider; \<open>BitMap\<close> builds a provider of 16 times
  the capacity from another one, and the type aliases of the source are its iterations.
\<close>

section \<open>The interface of the trait BitAlloc\<close>

definition bits_view :: "nat \<Rightarrow> ('t \<Rightarrow> nat \<Rightarrow> nat option) \<Rightarrow> 't \<Rightarrow> nat set" where
  "bits_view cap get m = {i. i < cap \<and> get m i = Some 1}"

locale bit_alloc =
  fixes CAP :: nat
    and DEFAULT :: 't
    and bset :: "'t \<Rightarrow> nat \<Rightarrow> 't option"
    and bclear :: "'t \<Rightarrow> nat \<Rightarrow> 't option"
    and bget :: "'t \<Rightarrow> nat \<Rightarrow> nat option"
    and invar :: "'t \<Rightarrow> bool"
  assumes cap_pos: "0 < CAP"
    and invar_default: "invar DEFAULT"
    and get_default: "i < CAP \<Longrightarrow> bget DEFAULT i = Some 0"
    and get_bit: "invar m \<Longrightarrow> i < CAP \<Longrightarrow> bget m i = Some 0 \<or> bget m i = Some 1"
    and get_overrun: "invar m \<Longrightarrow> CAP \<le> i \<Longrightarrow> bget m i = None"
    and set_ok: "invar m \<Longrightarrow> i < CAP \<Longrightarrow> \<exists>m'. bset m i = Some m' \<and> invar m' \<and>
      (\<forall>j < CAP. bget m' j = (if j = i then Some 1 else bget m j))"
    and set_overrun: "invar m \<Longrightarrow> CAP \<le> i \<Longrightarrow> bset m i = None"
    and clear_ok: "invar m \<Longrightarrow> i < CAP \<Longrightarrow> \<exists>m'. bclear m i = Some m' \<and> invar m' \<and>
      (\<forall>j < CAP. bget m' j = (if j = i then Some 0 else bget m j))"
    and clear_overrun: "invar m \<Longrightarrow> CAP \<le> i \<Longrightarrow> bclear m i = None"
begin

abbreviation "bits \<equiv> bits_view CAP bget"

lemma get_view: "invar m \<Longrightarrow> i < CAP \<Longrightarrow> bget m i = Some (if i \<in> bits m then 1 else 0)"
  using get_bit by (auto simp: bits_view_def)

lemma get_iff: "invar m \<Longrightarrow> bget m i = Some v \<longleftrightarrow> i < CAP \<and> v = (if i \<in> bits m then 1 else 0)"
  using get_overrun[of m i] get_view[of m i] by (cases "i < CAP") auto

lemma bits_bounded: "bits m \<subseteq> {..<CAP}"
  by (auto simp: bits_view_def)

lemma bits_default: "bits DEFAULT = {}"
  by (auto simp: bits_view_def get_default)

lemma set_view: "invar m \<Longrightarrow> i < CAP \<Longrightarrow> \<exists>m'. bset m i = Some m' \<and> invar m' \<and> bits m' = insert i (bits m)"
  using set_ok[of m i] by (fastforce simp: bits_view_def)

lemma clear_view: "invar m \<Longrightarrow> i < CAP \<Longrightarrow> \<exists>m'. bclear m i = Some m' \<and> invar m' \<and> bits m' = bits m - {i}"
proof -
  assume "invar m" "i < CAP"
  then obtain m' where "bclear m i = Some m'" "invar m'"
      "\<forall>j < CAP. bget m' j = (if j = i then Some 0 else bget m j)"
    using clear_ok by blast
  moreover from this(3) have "bits m' = bits m - {i}" by (auto simp: bits_view_def split: if_splits)
  ultimately show ?thesis by blast
qed

lemma set_Some: "invar m \<Longrightarrow> bset m i = Some m' \<Longrightarrow> i < CAP \<and> invar m' \<and> bits m' = insert i (bits m)"
  using set_view[of m i] set_overrun[of m i] by (cases "i < CAP") auto

lemma clear_Some: "invar m \<Longrightarrow> bclear m i = Some m' \<Longrightarrow> i < CAP \<and> invar m' \<and> bits m' = bits m - {i}"
  using clear_view[of m i] clear_overrun[of m i] by (cases "i < CAP") auto

text \<open>Setting and clearing a run of bits, as the page allocators do.\<close>

lemma set_range:
  assumes "invar m" and "a \<le> b" and "b \<le> CAP"
  shows "\<exists>m'. for_range a b (\<lambda>i m. bset m i) m = Some m' \<and> invar m' \<and> bits m' = bits m \<union> {a..<b}"
proof -
  have "\<exists>m'. for_range a b (\<lambda>i m. bset m i) m = Some m' \<and> (invar m' \<and> bits m' = bits m \<union> {a..<b})"
  proof (rule for_range_total[where I = "\<lambda>i m'. invar m' \<and> bits m' = bits m \<union> {a..<i}"])
    fix i s assume "a \<le> i" "i < b" "invar s \<and> bits s = bits m \<union> {a..<i}"
    with assms set_view[of s i]
    show "\<exists>s'. bset s i = Some s' \<and> invar s' \<and> bits s' = bits m \<union> {a..<Suc i}"
      by (auto simp: atLeastLessThanSuc)
  qed (use assms in auto)
  then show ?thesis .
qed

lemma clear_range:
  assumes "invar m" and "a \<le> b" and "b \<le> CAP"
  shows "\<exists>m'. for_range a b (\<lambda>i m. bclear m i) m = Some m' \<and> invar m' \<and> bits m' = bits m - {a..<b}"
proof -
  have "\<exists>m'. for_range a b (\<lambda>i m. bclear m i) m = Some m' \<and> (invar m' \<and> bits m' = bits m - {a..<b})"
  proof (rule for_range_total[where I = "\<lambda>i m'. invar m' \<and> bits m' = bits m - {a..<i}"])
    fix i s assume "a \<le> i" "i < b" "invar s \<and> bits s = bits m - {a..<i}"
    with assms clear_view[of s i]
    show "\<exists>s'. bclear s i = Some s' \<and> invar s' \<and> bits s' = bits m - {a..<Suc i}"
      by (auto simp: atLeastLessThanSuc)
  qed (use assms in auto)
  then show ?thesis .
qed

end

section \<open>BitAlloc16\<close>

text \<open>A shift by 16 or more overflows.\<close>

definition BitAlloc16_set :: "u16 \<Rightarrow> nat \<Rightarrow> u16 option" where
  "BitAlloc16_set w idx = (if idx < 16 then Some (w OR push_bit idx 1) else None)"

definition BitAlloc16_clear :: "u16 \<Rightarrow> nat \<Rightarrow> u16 option" where
  "BitAlloc16_clear w idx = (if idx < 16 then Some (w AND (NOT (push_bit idx 1) AND 0xffff)) else None)"

definition BitAlloc16_get :: "u16 \<Rightarrow> nat \<Rightarrow> nat option" where
  "BitAlloc16_get w idx =
     (if idx < 16 then Some (if w AND push_bit idx 1 \<noteq> 0 then 1 else 0) else None)"

definition BitAlloc16_default :: u16 where
  "BitAlloc16_default = 0"

lemma u16_mask: "(w :: u16) AND 0xffff = w"
  by (rule bit_word_eqI) (auto simp: bit_simps less_Suc_eq numeral_eq_Suc)

lemma BitAlloc16_get_bit: "idx < 16 \<Longrightarrow> BitAlloc16_get w idx = Some (of_bool (bit w idx))"
  by (simp add: BitAlloc16_get_def and_exp_eq_0_iff_not_bit)

interpretation ba16: bit_alloc 16 BitAlloc16_default BitAlloc16_set BitAlloc16_clear BitAlloc16_get "\<lambda>_. True"
proof unfold_locales
  fix m :: u16 and i :: nat assume i: "i < 16"
  show "\<exists>m'. BitAlloc16_set m i = Some m' \<and> True \<and>
      (\<forall>j<16. BitAlloc16_get m' j = (if j = i then Some 1 else BitAlloc16_get m j))"
    using i by (auto simp: BitAlloc16_set_def BitAlloc16_get_bit bit_simps)
  show "\<exists>m'. BitAlloc16_clear m i = Some m' \<and> True \<and>
      (\<forall>j<16. BitAlloc16_get m' j = (if j = i then Some 0 else BitAlloc16_get m j))"
    using i by (auto simp: BitAlloc16_clear_def u16_mask BitAlloc16_get_bit bit_simps)
qed (auto simp: BitAlloc16_get_def BitAlloc16_set_def BitAlloc16_clear_def BitAlloc16_default_def)

section \<open>BitMap: sixteen sub-maps\<close>

datatype 't BitMap = BitMap (cells: "'t list")

definition BitMap_default :: "'t \<Rightarrow> 't BitMap" where
  "BitMap_default d = BitMap (replicate 16 d)"

definition BitMap_set :: "nat \<Rightarrow> ('t \<Rightarrow> nat \<Rightarrow> 't option) \<Rightarrow> 't BitMap \<Rightarrow> nat \<Rightarrow> 't BitMap option" where
  "BitMap_set cap tset m idx = do {
     i \<leftarrow> udiv idx cap;
     c \<leftarrow> vec_get (cells m) i;
     c' \<leftarrow> tset c (idx mod cap);
     cs \<leftarrow> vec_set (cells m) i c';
     Some (BitMap cs) }"

definition BitMap_clear :: "nat \<Rightarrow> ('t \<Rightarrow> nat \<Rightarrow> 't option) \<Rightarrow> 't BitMap \<Rightarrow> nat \<Rightarrow> 't BitMap option" where
  "BitMap_clear cap tclear m idx = do {
     i \<leftarrow> udiv idx cap;
     c \<leftarrow> vec_get (cells m) i;
     c' \<leftarrow> tclear c (idx mod cap);
     cs \<leftarrow> vec_set (cells m) i c';
     Some (BitMap cs) }"

definition BitMap_get :: "nat \<Rightarrow> ('t \<Rightarrow> nat \<Rightarrow> nat option) \<Rightarrow> 't BitMap \<Rightarrow> nat \<Rightarrow> nat option" where
  "BitMap_get cap tget m idx = do {
     i \<leftarrow> udiv idx cap;
     c \<leftarrow> vec_get (cells m) i;
     tget c (idx mod cap) }"

definition BitMap_invar :: "('t \<Rightarrow> bool) \<Rightarrow> 't BitMap \<Rightarrow> bool" where
  "BitMap_invar iv m \<longleftrightarrow> length (cells m) = 16 \<and> (\<forall>c \<in> set (cells m). iv c)"

lemma div_less_16: "0 < cap \<Longrightarrow> i div cap < 16 \<longleftrightarrow> i < cap * (16::nat)"
  by (simp add: div_less_iff_less_mult mult.commute)

lemma BitMap_get_overrun:
  assumes "0 < cap" and "length (cells m) = 16" and "cap * 16 \<le> i"
  shows "BitMap_get cap g m i = None" "BitMap_set cap s m i = None" "BitMap_clear cap c m i = None"
proof -
  have "\<not> i div cap < 16" using assms div_less_16[of cap i] by simp
  then show "BitMap_get cap g m i = None" "BitMap_set cap s m i = None" "BitMap_clear cap c m i = None"
    using assms by (auto simp: BitMap_get_def BitMap_set_def BitMap_clear_def vec_get_def)
qed

lemma BitMap_get_in:
  assumes "0 < cap" and "length (cells m) = 16" and "i < cap * 16"
  shows "BitMap_get cap g m i = g (cells m ! (i div cap)) (i mod cap)"
proof -
  have "i div cap < 16" using assms div_less_16[of cap i] by simp
  then show ?thesis using assms by (simp add: BitMap_get_def)
qed

text \<open>Sixteen sub-maps that keep the laws of the trait keep them together.\<close>

context bit_alloc begin

lemma nested_update:
  assumes inv: "BitMap_invar invar m" and i: "i < CAP * 16"
    and upd: "invar c'" "\<forall>j < CAP. bget c' j = (if j = i mod CAP then Some v else bget (cells m ! (i div CAP)) j)"
  shows "BitMap_invar invar (BitMap ((cells m)[i div CAP := c']))"
    and "\<forall>j < CAP * 16. BitMap_get CAP bget (BitMap ((cells m)[i div CAP := c'])) j =
      (if j = i then Some v else BitMap_get CAP bget m j)"
proof -
  have len: "length (cells m) = 16" using inv by (simp add: BitMap_invar_def)
  show "BitMap_invar invar (BitMap ((cells m)[i div CAP := c']))"
    using inv upd(1) set_update_subset_insert[of "cells m" "i div CAP" c']
    by (auto simp: BitMap_invar_def)
  show "\<forall>j < CAP * 16. BitMap_get CAP bget (BitMap ((cells m)[i div CAP := c'])) j =
      (if j = i then Some v else BitMap_get CAP bget m j)"
  proof (intro allI impI)
    fix j assume j: "j < CAP * 16"
    have d: "i div CAP < 16" "j div CAP < 16" using i j div_less_16[OF cap_pos] by simp_all
    have "j = i \<longleftrightarrow> j div CAP = i div CAP \<and> j mod CAP = i mod CAP"
      by (metis div_mult_mod_eq)
    then show "BitMap_get CAP bget (BitMap ((cells m)[i div CAP := c'])) j =
        (if j = i then Some v else BitMap_get CAP bget m j)"
      using upd(2) d j len cap_pos by (auto simp: BitMap_get_in nth_list_update)
  qed
qed

lemma nested:
  "bit_alloc (CAP * 16) (BitMap_default DEFAULT) (BitMap_set CAP bset) (BitMap_clear CAP bclear)
     (BitMap_get CAP bget) (BitMap_invar invar)"
proof unfold_locales
  show "0 < CAP * 16" using cap_pos by simp
  show "BitMap_invar invar (BitMap_default DEFAULT)"
    by (simp add: BitMap_invar_def BitMap_default_def invar_default)
  fix i
  show "BitMap_get CAP bget (BitMap_default DEFAULT) i = Some 0" if "i < CAP * 16"
    using that cap_pos div_less_16[OF cap_pos, of i]
    by (simp add: BitMap_get_in BitMap_default_def get_default)
  fix m assume inv: "BitMap_invar invar m"
  then have len: "length (cells m) = 16" by (simp add: BitMap_invar_def)
  show "BitMap_get CAP bget m i = None" "BitMap_set CAP bset m i = None" "BitMap_clear CAP bclear m i = None"
    if "CAP * 16 \<le> i"
    using BitMap_get_overrun[OF cap_pos len that] by simp_all
  have cell: "invar (cells m ! (i div CAP))" "i div CAP < 16" "i mod CAP < CAP" if "i < CAP * 16"
    using that inv len div_less_16[OF cap_pos, of i] cap_pos by (auto simp: BitMap_invar_def)
  show "BitMap_get CAP bget m i = Some 0 \<or> BitMap_get CAP bget m i = Some 1" if "i < CAP * 16"
    using get_bit[OF cell(1)[OF that] cell(3)[OF that]] that len cap_pos by (simp add: BitMap_get_in)
  show "\<exists>m'. BitMap_set CAP bset m i = Some m' \<and> BitMap_invar invar m' \<and>
      (\<forall>j<CAP * 16. BitMap_get CAP bget m' j = (if j = i then Some 1 else BitMap_get CAP bget m j))"
    if i: "i < CAP * 16"
    using set_ok[OF cell(1)[OF i] cell(3)[OF i]] nested_update[OF inv i] len cell(2)[OF i] cap_pos
    by (auto simp: BitMap_set_def)
  show "\<exists>m'. BitMap_clear CAP bclear m i = Some m' \<and> BitMap_invar invar m' \<and>
      (\<forall>j<CAP * 16. BitMap_get CAP bget m' j = (if j = i then Some 0 else BitMap_get CAP bget m j))"
    if i: "i < CAP * 16"
    using clear_ok[OF cell(1)[OF i] cell(3)[OF i]] nested_update[OF inv i] len cell(2)[OF i] cap_pos
    by (auto simp: BitMap_clear_def)
qed

end

text \<open>The iterations the source names: \<open>BitAlloc256\<close>, \<open>BitAlloc4K\<close> and \<open>BitAlloc64K\<close>.\<close>

type_synonym BitAlloc256 = "u16 BitMap"
type_synonym BitAlloc4K = "BitAlloc256 BitMap"
type_synonym BitAlloc64K = "BitAlloc4K BitMap"

definition BitAlloc256_set :: "BitAlloc256 \<Rightarrow> nat \<Rightarrow> BitAlloc256 option" where
  "BitAlloc256_set = BitMap_set 16 BitAlloc16_set"

definition BitAlloc256_clear :: "BitAlloc256 \<Rightarrow> nat \<Rightarrow> BitAlloc256 option" where
  "BitAlloc256_clear = BitMap_clear 16 BitAlloc16_clear"

definition BitAlloc256_get :: "BitAlloc256 \<Rightarrow> nat \<Rightarrow> nat option" where
  "BitAlloc256_get = BitMap_get 16 BitAlloc16_get"

definition BitAlloc256_default :: BitAlloc256 where
  "BitAlloc256_default = BitMap_default BitAlloc16_default"

definition BitAlloc4K_set :: "BitAlloc4K \<Rightarrow> nat \<Rightarrow> BitAlloc4K option" where
  "BitAlloc4K_set = BitMap_set 256 BitAlloc256_set"

definition BitAlloc4K_clear :: "BitAlloc4K \<Rightarrow> nat \<Rightarrow> BitAlloc4K option" where
  "BitAlloc4K_clear = BitMap_clear 256 BitAlloc256_clear"

definition BitAlloc4K_get :: "BitAlloc4K \<Rightarrow> nat \<Rightarrow> nat option" where
  "BitAlloc4K_get = BitMap_get 256 BitAlloc256_get"

definition BitAlloc4K_default :: BitAlloc4K where
  "BitAlloc4K_default = BitMap_default BitAlloc256_default"

definition BitAlloc64K_set :: "BitAlloc64K \<Rightarrow> nat \<Rightarrow> BitAlloc64K option" where
  "BitAlloc64K_set = BitMap_set 4096 BitAlloc4K_set"

definition BitAlloc64K_clear :: "BitAlloc64K \<Rightarrow> nat \<Rightarrow> BitAlloc64K option" where
  "BitAlloc64K_clear = BitMap_clear 4096 BitAlloc4K_clear"

definition BitAlloc64K_get :: "BitAlloc64K \<Rightarrow> nat \<Rightarrow> nat option" where
  "BitAlloc64K_get = BitMap_get 4096 BitAlloc4K_get"

definition BitAlloc64K_default :: BitAlloc64K where
  "BitAlloc64K_default = BitMap_default BitAlloc4K_default"

definition BitAlloc256_wf :: "BitAlloc256 \<Rightarrow> bool" where
  "BitAlloc256_wf = BitMap_invar (\<lambda>_. True)"

definition BitAlloc4K_wf :: "BitAlloc4K \<Rightarrow> bool" where
  "BitAlloc4K_wf = BitMap_invar BitAlloc256_wf"

definition BitAlloc64K_wf :: "BitAlloc64K \<Rightarrow> bool" where
  "BitAlloc64K_wf = BitMap_invar BitAlloc4K_wf"

interpretation ba256: bit_alloc 256 BitAlloc256_default BitAlloc256_set BitAlloc256_clear BitAlloc256_get
  BitAlloc256_wf
  using ba16.nested unfolding BitAlloc256_default_def BitAlloc256_set_def BitAlloc256_clear_def
    BitAlloc256_get_def BitAlloc256_wf_def by simp

interpretation ba4k: bit_alloc 4096 BitAlloc4K_default BitAlloc4K_set BitAlloc4K_clear BitAlloc4K_get
  BitAlloc4K_wf
  using ba256.nested unfolding BitAlloc4K_default_def BitAlloc4K_set_def BitAlloc4K_clear_def
    BitAlloc4K_get_def BitAlloc4K_wf_def by simp

interpretation ba64k: bit_alloc 65536 BitAlloc64K_default BitAlloc64K_set BitAlloc64K_clear BitAlloc64K_get
  BitAlloc64K_wf
  using ba4k.nested unfolding BitAlloc64K_default_def BitAlloc64K_set_def BitAlloc64K_clear_def
    BitAlloc64K_get_def BitAlloc64K_wf_def by simp

section \<open>FlexBitmap\<close>

record FlexBitmap =
  flex_len :: usize
  flex_map :: "u64 list"

definition FlexBitmap_new :: "usize \<Rightarrow> FlexBitmap option" where
  "FlexBitmap_new len = do {
     a \<leftarrow> uadd len 64;
     n \<leftarrow> udiv (a - 1) 64;
     Some \<lparr>flex_len = len, flex_map = replicate n 0\<rparr> }"

definition FlexBitmap_init_dirty :: "FlexBitmap \<Rightarrow> FlexBitmap" where
  "FlexBitmap_init_dirty m = m\<lparr>flex_map := map (\<lambda>_. -1) (flex_map m)\<rparr>"

definition FlexBitmap_clear :: "FlexBitmap \<Rightarrow> FlexBitmap" where
  "FlexBitmap_clear m = m\<lparr>flex_map := map (\<lambda>_. 0) (flex_map m)\<rparr>"

definition FlexBitmap_get :: "FlexBitmap \<Rightarrow> usize \<Rightarrow> u64 option" where
  "FlexBitmap_get m idx = do {
     assert_that (\<not> idx > flex_len m);
     val \<leftarrow> vec_get (flex_map m) (idx div 64);
     bit_get val (idx mod 64) }"

definition FlexBitmap_set :: "FlexBitmap \<Rightarrow> usize \<Rightarrow> bool \<Rightarrow> FlexBitmap option" where
  "FlexBitmap_set m b val = do {
     assert_that (\<not> b > flex_len m);
     w \<leftarrow> vec_get (flex_map m) (b div 64);
     ws \<leftarrow> vec_set (flex_map m) (b div 64)
       (if val then w OR push_bit (b mod 64) 1 else w AND NOT (push_bit (b mod 64) 1));
     Some (m\<lparr>flex_map := ws\<rparr>) }"

text \<open>The \<open>while\<close> loop of \<open>set_bits\<close> writes one whole word per iteration.\<close>

function set_bits_loop :: "usize \<Rightarrow> usize \<Rightarrow> bool \<Rightarrow> u64 list \<Rightarrow> u64 list option" where
  "set_bits_loop head fin val ws =
     (if head < fin then do {
        ws' \<leftarrow> vec_set ws (head div 64) (if val then -1 else 0);
        set_bits_loop (head + 64) fin val ws' }
      else Some ws)"
  by pat_completeness auto
termination
  by (relation "measure (\<lambda>(head, fin, val, ws). fin - head)") auto

declare set_bits_loop.simps [simp del]

definition FlexBitmap_set_bits :: "FlexBitmap \<Rightarrow> usize \<Rightarrow> usize \<Rightarrow> bool \<Rightarrow> FlexBitmap option" where
  "FlexBitmap_set_bits m b len val = do {
     e \<leftarrow> uadd b len;
     assert_that (\<not> e > flex_len m);
     if len = 1 then FlexBitmap_set m b val
     else do {
       assert_that (\<not> (b mod 64 \<noteq> 0 \<or> e mod 64 \<noteq> 0));
       ws \<leftarrow> set_bits_loop b e val (flex_map m);
       Some (m\<lparr>flex_map := ws\<rparr>) } }"

definition FlexBitmap_vec_len :: "FlexBitmap \<Rightarrow> usize" where
  "FlexBitmap_vec_len m = length (flex_map m)"

definition count_ones :: "u64 \<Rightarrow> nat" where
  "count_ones w = length (filter (bit w) [0..<64])"

definition FlexBitmap_sum :: "FlexBitmap \<Rightarrow> usize" where
  "FlexBitmap_sum m = foldl (\<lambda>s val. s + count_ones val) 0 (flex_map m)"

text \<open>
  The inner \<open>while (tmp & 1) == 0\<close> of \<open>first\<close>; it does not end on zero, which the caller
  excludes.
\<close>

partial_function (option) first_bit_loop :: "u64 \<Rightarrow> usize \<Rightarrow> usize option" where
  "first_bit_loop tmp first =
     (if tmp AND 1 = 0 then first_bit_loop (drop_bit 1 tmp) (first + 1) else Some first)"

fun first_loop :: "u64 list \<Rightarrow> usize \<Rightarrow> usize option" where
  "first_loop [] first = Some first"
| "first_loop (val # vals) first =
     (if val = 0 then first_loop vals (first + 64) else first_bit_loop val first)"

definition FlexBitmap_first :: "FlexBitmap \<Rightarrow> usize option" where
  "FlexBitmap_first m = first_loop (flex_map m) 0"

subsection \<open>The set of positions a bitmap denotes\<close>

definition word_bits :: "u64 list \<Rightarrow> nat set" where
  "word_bits ws = {i. i < 64 * length ws \<and> bit (ws ! (i div 64)) (i mod 64)}"

definition flex_bits :: "FlexBitmap \<Rightarrow> nat set" where
  "flex_bits m = word_bits (flex_map m)"

definition flex_wf :: "FlexBitmap \<Rightarrow> bool" where
  "flex_wf m \<longleftrightarrow> length (flex_map m) = (flex_len m + 63) div 64"

lemma flex_wf_word: "flex_wf m \<Longrightarrow> i < flex_len m \<Longrightarrow> i div 64 < length (flex_map m)"
  by (simp add: flex_wf_def)

lemma word_bits_Cons: "word_bits (w # ws) = {i. i < 64 \<and> bit w i} \<union> (+) 64 ` word_bits ws"
proof (rule set_eqI)
  fix i :: nat
  show "i \<in> word_bits (w # ws) \<longleftrightarrow> i \<in> {i. i < 64 \<and> bit w i} \<union> (+) 64 ` word_bits ws"
  proof (cases "i < 64")
    case True
    then show ?thesis by (auto simp: word_bits_def)
  next
    case False
    then obtain k where k: "i = 64 + k" by (metis le_Suc_ex not_less)
    have "(64 + k) div 64 = Suc (k div 64)" "(64 + k) mod 64 = k mod 64" by simp_all
    moreover have "64 + k \<in> (+) 64 ` word_bits ws \<longleftrightarrow> k \<in> word_bits ws" by auto
    ultimately show ?thesis unfolding k by (simp add: word_bits_def)
  qed
qed

lemma finite_word_bits [simp]: "finite (word_bits ws)"
  by (simp add: word_bits_def)

lemma word_bits_Nil [simp]: "word_bits [] = {}"
  by (simp add: word_bits_def)

lemma div_64_iff: "(i::nat) div 64 = k \<longleftrightarrow> i \<in> {64 * k..<64 * k + 64}"
  by (auto intro: div_nat_eqI)

lemma word_bits_update:
  assumes "k < length ws"
  shows "word_bits (ws[k := w]) = (word_bits ws - {64 * k..<64 * k + 64}) \<union> {i \<in> {64 * k..<64 * k + 64}. bit w (i mod 64)}"
proof (rule set_eqI)
  fix i :: nat
  show "i \<in> word_bits (ws[k := w]) \<longleftrightarrow>
      i \<in> (word_bits ws - {64 * k..<64 * k + 64}) \<union> {i \<in> {64 * k..<64 * k + 64}. bit w (i mod 64)}"
  proof (cases "i div 64 = k")
    case True
    then have "i < 64 * length ws" using assms by (simp add: div_64_iff)
    moreover have "i \<in> {64 * k..<64 * k + 64}" using True by (simp only: div_64_iff)
    ultimately show ?thesis using True assms by (simp add: word_bits_def)
  next
    case False
    then have "i \<notin> {64 * k..<64 * k + 64}" by (simp add: div_64_iff)
    with False show ?thesis by (auto simp: word_bits_def)
  qed
qed

lemma FlexBitmap_new_view:
  assumes "FlexBitmap_new len = Some m"
  shows "flex_wf m \<and> flex_len m = len \<and> flex_bits m = {}"
proof -
  have "bit (replicate n 0 ! (i div 64)) (i mod 64) = False" if "i < 64 * n" for n i :: nat
    using that by (simp add: div_less_iff_less_mult mult.commute)
  then show ?thesis using assms
    by (auto simp: FlexBitmap_new_def panic_simps flex_wf_def flex_bits_def word_bits_def)
qed

lemma FlexBitmap_get_view:
  "flex_wf m \<Longrightarrow> i < flex_len m \<Longrightarrow> FlexBitmap_get m i = Some (of_bool (i \<in> flex_bits m))"
  using flex_wf_word[of m i]
  by (auto simp: FlexBitmap_get_def bit_get_eq flex_bits_def word_bits_def)

lemma FlexBitmap_set_view:
  assumes "flex_wf m" and "i < flex_len m"
  shows "\<exists>m'. FlexBitmap_set m i v = Some m' \<and> flex_wf m' \<and> flex_len m' = flex_len m \<and>
    flex_bits m' = (if v then insert i (flex_bits m) else flex_bits m - {i})"
proof -
  let ?k = "i div 64" and ?w = "flex_map m ! (i div 64)"
  let ?w' = "if v then ?w OR push_bit (i mod 64) 1 else ?w AND NOT (push_bit (i mod 64) 1)"
  have k: "?k < length (flex_map m)" using assms by (rule flex_wf_word)
  have in_k: "j div 64 = ?k" if "j \<in> {64 * ?k..<64 * ?k + 64}" for j using that by (simp only: div_64_iff)
  have old: "j \<in> flex_bits m \<longleftrightarrow> bit ?w (j mod 64)" if "j \<in> {64 * ?k..<64 * ?k + 64}" for j
    using that in_k[OF that] k by (auto simp: flex_bits_def word_bits_def)
  have new: "bit ?w' (j mod 64) \<longleftrightarrow> (if j = i then v else bit ?w (j mod 64))"
    if "j \<in> {64 * ?k..<64 * ?k + 64}" for j
  proof -
    have "j mod 64 = i mod 64 \<longleftrightarrow> j = i" using in_k[OF that] by (metis div_mult_mod_eq)
    then show ?thesis by (auto simp: bit_simps)
  qed
  have i: "i \<in> {64 * ?k..<64 * ?k + 64}" by auto
  have "word_bits ((flex_map m)[?k := ?w']) = (if v then insert i (flex_bits m) else flex_bits m - {i})"
    unfolding word_bits_update[OF k] flex_bits_def[symmetric] using old new i by (auto split: if_splits)
  with assms k show ?thesis
    by (auto simp: FlexBitmap_set_def flex_wf_def flex_bits_def)
qed

lemma set_bits_loop_view:
  assumes "head mod 64 = 0" and "fin mod 64 = 0" and "fin div 64 \<le> length ws" and "head \<le> fin"
  shows "\<exists>ws'. set_bits_loop head fin v ws = Some ws' \<and> length ws' = length ws \<and>
    word_bits ws' = (if v then word_bits ws \<union> {head..<fin} else word_bits ws - {head..<fin})"
  using assms
proof (induction head fin v ws rule: set_bits_loop.induct)
  case (1 head fin v ws)
  show ?case
  proof (cases "head < fin")
    case True
    let ?k = "head div 64" and ?w = "if v then - 1 else 0 :: u64"
    have h: "64 * ?k = head" using "1.prems"(1) by auto
    have le: "head + 64 \<le> fin" using True "1.prems"(1,2) by presburger
    then have k: "?k < length ws" using "1.prems"(3) by linarith
    have bw: "bit ?w (i mod 64) = v" for i :: nat by simp
    have upd: "word_bits (ws[?k := ?w]) = (if v then word_bits ws \<union> {head..<head + 64} else word_bits ws - {head..<head + 64})"
      unfolding word_bits_update[OF k] h using bw by auto
    have "vec_set ws ?k ?w = Some (ws[?k := ?w])" using k by simp
    from "1.IH"[OF True this] "1.prems" le obtain ws' where
      "set_bits_loop (head + 64) fin v (ws[?k := ?w]) = Some ws'" "length ws' = length ws"
      "word_bits ws' = (if v then word_bits (ws[?k := ?w]) \<union> {head + 64..<fin} else word_bits (ws[?k := ?w]) - {head + 64..<fin})"
      by auto
    then show ?thesis
      using True k le upd by (subst set_bits_loop.simps) auto
  next
    case False
    with "1.prems" show ?thesis by (subst set_bits_loop.simps) auto
  qed
qed

lemma FlexBitmap_set_bits_view:
  assumes "flex_wf m" and "b mod 64 = 0" and "(b + len) mod 64 = 0" and "b + len \<le> flex_len m"
    and "flex_len m < usize_bound"
  shows "\<exists>m'. FlexBitmap_set_bits m b len v = Some m' \<and> flex_wf m' \<and> flex_len m' = flex_len m \<and>
    flex_bits m' = (if v then flex_bits m \<union> {b..<b + len} else flex_bits m - {b..<b + len})"
proof -
  have "len \<noteq> 1" using assms(2,3) by presburger
  moreover have "(b + len) div 64 \<le> length (flex_map m)" using assms(1,4) by (simp add: flex_wf_def)
  ultimately show ?thesis
    using assms set_bits_loop_view[of b "b + len" "flex_map m" v]
    by (auto simp: FlexBitmap_set_bits_def flex_wf_def flex_bits_def)
qed

subsection \<open>Counting and searching\<close>

lemma count_ones_card: "count_ones w = card {i. i < 64 \<and> bit w i}"
proof -
  have "count_ones w = card (set (filter (bit w) [0..<64]))"
    unfolding count_ones_def by (rule distinct_card[symmetric]) simp
  also have "set (filter (bit w) [0..<64]) = {i. i < 64 \<and> bit w i}" by auto
  finally show ?thesis .
qed

lemma sum_foldl: "foldl (\<lambda>s val. s + count_ones val) a ws = a + card (word_bits ws)"
proof (induction ws arbitrary: a)
  case Nil
  then show ?case by simp
next
  case (Cons w ws)
  have "card (word_bits (w # ws)) = card {i. i < 64 \<and> bit w i} + card ((+) 64 ` word_bits ws)"
    unfolding word_bits_Cons by (rule card_Un_disjoint) auto
  also have "card ((+) 64 ` word_bits ws) = card (word_bits ws)" by (rule card_image) simp
  finally show ?case using Cons.IH by (simp add: count_ones_card)
qed

lemma FlexBitmap_sum_card: "FlexBitmap_sum m = card (flex_bits m)"
  by (simp add: FlexBitmap_sum_def flex_bits_def sum_foldl)

lemma first_bit_loop_eq:
  "bit tmp n \<Longrightarrow> (\<And>j. j < n \<Longrightarrow> \<not> bit tmp j) \<Longrightarrow> first_bit_loop tmp first = Some (first + n)"
proof (induction n arbitrary: tmp first)
  case 0
  then show ?case by (subst first_bit_loop.simps) (simp add: and_one_eq bit_0 mod_2_eq_odd)
next
  case (Suc n)
  have "\<not> bit tmp 0" using Suc.prems(2) by blast
  moreover have "first_bit_loop (drop_bit 1 tmp) (first + 1) = Some (first + 1 + n)"
    using Suc.prems by (intro Suc.IH) (auto simp: bit_simps)
  ultimately show ?case by (subst first_bit_loop.simps) (simp add: and_one_eq bit_0 mod_2_eq_odd)
qed

lemma first_loop_empty: "word_bits ws = {} \<Longrightarrow> first_loop ws first = Some (first + 64 * length ws)"
proof (induction ws arbitrary: first)
  case (Cons w ws)
  then have "w = 0" "word_bits ws = {}" by (auto simp: word_bits_Cons intro!: bit_word_eqI)
  with Cons.IH show ?case by simp
qed simp

lemma first_loop_least:
  "i \<in> word_bits ws \<Longrightarrow> (\<And>j. j < i \<Longrightarrow> j \<notin> word_bits ws) \<Longrightarrow> first_loop ws first = Some (first + i)"
proof (induction ws arbitrary: first i)
  case (Cons w ws)
  show ?case
  proof (cases "w = 0")
    case True
    then obtain k where k: "i = 64 + k" "k \<in> word_bits ws" using Cons.prems(1) by (auto simp: word_bits_Cons)
    have "j \<notin> word_bits ws" if "j < k" for j using Cons.prems(2)[of "64 + j"] that k by (auto simp: word_bits_Cons)
    with Cons.IH[OF k(2)] k(1) True show ?thesis by simp
  next
    case False
    then obtain n where n: "n < 64" "bit w n" using bit_word_eqI[of w 0] by auto
    then have "n \<in> word_bits (w # ws)" by (simp add: word_bits_Cons)
    then have "i \<le> n" using Cons.prems(2)[of n] by (cases "n < i") simp_all
    then have "i < 64" using n by simp
    then have "bit w i" using Cons.prems(1) by (auto simp: word_bits_Cons)
    moreover have "\<not> bit w j" if "j < i" for j
      using Cons.prems(2)[OF that] that \<open>i < 64\<close> by (simp add: word_bits_Cons)
    ultimately have "first_bit_loop w first = Some (first + i)" by (rule first_bit_loop_eq)
    with False show ?thesis by simp
  qed
qed simp

end
