(* ===== verification/Heap.thy ===== *)
theory Heap
  imports Bitmap
begin

text \<open>
  The page heap of the hypervisor: \<open>MemRegion\<close> and \<open>HeapRegion\<close> of
  \<open>src/src/kernel/mem_region.rs\<close>, the heap functions of \<open>src/src/kernel/mem.rs\<close> and the page
  frames of \<open>src/src/mm/page_frame.rs\<close>.

  The global \<open>HEAP_REGION\<close> and the physical memory it hands out form the record
  \<open>phys\<close>.  Memory is a map from addresses to 64-bit cells: the accesses of the modelled
  code to memory it got from this heap are page fills and aligned 64-bit loads and stores.
\<close>

section \<open>State\<close>

record MemRegion =
  mr_base :: usize
  mr_size :: usize
  mr_free :: usize
  mr_last :: usize

definition MemRegion_new :: MemRegion where
  "MemRegion_new = \<lparr>mr_base = 0, mr_size = 0, mr_free = 0, mr_last = 0\<rparr>"

definition MemRegion_init :: "MemRegion \<Rightarrow> usize \<Rightarrow> usize \<Rightarrow> usize \<Rightarrow> usize \<Rightarrow> MemRegion" where
  "MemRegion_init r base sz free lst =
     r\<lparr>mr_base := base, mr_size := sz, mr_free := free, mr_last := lst\<rparr>"

record HeapRegion =
  heap_map :: BitAlloc64K
  heap_region :: MemRegion

record phys =
  heap :: HeapRegion
  memory :: "usize \<Rightarrow> u64"

datatype AllocError = AllocZeroPage | OutOfFrame

text \<open>\<open>memset_safe(addr, 0, len)\<close>.\<close>

definition memset_zero :: "usize \<Rightarrow> usize \<Rightarrow> (usize \<Rightarrow> u64) \<Rightarrow> (usize \<Rightarrow> u64)" where
  "memset_zero addr len m = (\<lambda>a. if addr \<le> a \<and> a < addr + len then 0 else m a)"

section \<open>Operations of HeapRegion\<close>

definition HeapRegion_new :: HeapRegion where
  "HeapRegion_new = \<lparr>heap_map = BitAlloc64K_default, heap_region = MemRegion_new\<rparr>"

definition region_init :: "HeapRegion \<Rightarrow> usize \<Rightarrow> usize \<Rightarrow> usize \<Rightarrow> usize \<Rightarrow> HeapRegion" where
  "region_init h base sz free lst = h\<lparr>heap_region := MemRegion_init (heap_region h) base sz free lst\<rparr>"

definition reserve_pages :: "HeapRegion \<Rightarrow> usize \<Rightarrow> usize \<Rightarrow> HeapRegion option" where
  "reserve_pages h base sz = do {
     d \<leftarrow> usub base (mr_base (heap_region h));
     offset \<leftarrow> udiv d PAGE_SIZE;
     m \<leftarrow> for_range 0 sz (\<lambda>i m. do {
        idx \<leftarrow> uadd offset i;
        b \<leftarrow> BitAlloc64K_get m idx;
        assert_that (\<not> b \<noteq> 0);
        BitAlloc64K_set m idx }) (heap_map h);
     Some (h\<lparr>heap_map := m\<rparr>) }"

function first_fit_loop :: "BitAlloc64K \<Rightarrow> usize \<Rightarrow> usize \<Rightarrow> usize \<Rightarrow> usize \<Rightarrow> usize option option" where
  "first_fit_loop m i n count sz =
     (if n \<le> i then Some None
      else do {
        b \<leftarrow> BitAlloc64K_get m i;
        if b = 0 then
          (if count + 1 \<ge> sz then Some (Some (i + 1 - (count + 1)))
           else first_fit_loop m (i + 1) n (count + 1) sz)
        else first_fit_loop m (i + 1) n 0 sz })"
  by pat_completeness auto
termination
  by (relation "measure (\<lambda>(m, i, n, count, sz). n - i)") auto

declare first_fit_loop.simps [simp del]

definition first_fit :: "HeapRegion \<Rightarrow> usize \<Rightarrow> usize option option" where
  "first_fit h sz = do {
     hit \<leftarrow> (if sz \<le> 1 then do {
               b \<leftarrow> BitAlloc64K_get (heap_map h) (mr_last (heap_region h));
               Some (b = 0) }
             else Some False);
     if hit then Some (Some (mr_last (heap_region h)))
     else first_fit_loop (heap_map h) 0 (mr_size (heap_region h)) 0 sz }"

definition alloc_pages :: "phys \<Rightarrow> usize \<Rightarrow> ((AllocError + usize) \<times> phys) option" where
  "alloc_pages s sz = do {
     let h = heap s;
     res \<leftarrow> first_fit h sz;
     case res of
       None \<Rightarrow> Some (Inl OutOfFrame, s)
     | Some b \<Rightarrow> do {
         e \<leftarrow> uadd b sz;
         m \<leftarrow> for_range b e (\<lambda>i m. BitAlloc64K_set m i) (heap_map h);
         free \<leftarrow> usub (mr_free (heap_region h)) sz;
         let last = (if e < mr_size (heap_region h) then e else 0);
         off \<leftarrow> umul b PAGE_SIZE;
         addr \<leftarrow> uadd (mr_base (heap_region h)) off;
         len \<leftarrow> umul sz PAGE_SIZE;
         Some (Inr addr,
           s\<lparr>heap := h\<lparr>heap_map := m, heap_region := (heap_region h)\<lparr>mr_free := free, mr_last := last\<rparr>\<rparr>,
             memory := memset_zero addr len (memory s)\<rparr>) } }"

definition free_pages :: "HeapRegion \<Rightarrow> usize \<Rightarrow> usize \<Rightarrow> (bool \<times> HeapRegion) option" where
  "free_pages h base sz = do {
     len \<leftarrow> umul sz PAGE_SIZE;
     rlen \<leftarrow> umul (mr_size (heap_region h)) PAGE_SIZE;
     ok \<leftarrow> range_in_range base len (mr_base (heap_region h)) rlen;
     assert_that ok;
     d \<leftarrow> usub base (mr_base (heap_region h));
     page_idx \<leftarrow> udiv d PAGE_SIZE;
     e \<leftarrow> uadd page_idx sz;
     m \<leftarrow> for_range page_idx e (\<lambda>i m. BitAlloc64K_clear m i) (heap_map h);
     free \<leftarrow> uadd (mr_free (heap_region h)) sz;
     Some (True, h\<lparr>heap_map := m, heap_region := (heap_region h)\<lparr>mr_free := free, mr_last := page_idx\<rparr>\<rparr>) }"

text \<open>\<open>pa_in_heap_region\<close>, with the expression the source has.\<close>

definition pa_in_heap_region :: "HeapRegion \<Rightarrow> usize \<Rightarrow> bool option" where
  "pa_in_heap_region h pa =
     (if \<not> pa > mr_base (heap_region h) then Some False
      else do {
        b \<leftarrow> umul (mr_base (heap_region h)) PAGE_SIZE;
        e \<leftarrow> uadd b (mr_size (heap_region h));
        Some (pa < e) })"

section \<open>The heap functions of mem.rs\<close>

text \<open>
  \<open>_image_end\<close> is a linker symbol and the platform description belongs to the board
  configuration: both are parameters (\<open>plat_regions\<close> is the list of region sizes).
\<close>

definition mem_heap_region_init :: "usize \<Rightarrow> usize \<Rightarrow> usize list \<Rightarrow> phys \<Rightarrow> phys option" where
  "mem_heap_region_init image_end plat_base plat_regions s = do {
     base \<leftarrow> round_up image_end PAGE_SIZE;
     r0 \<leftarrow> vec_get plat_regions 0;
     d \<leftarrow> usub base plat_base;
     avail \<leftarrow> usub r0 d;
     r \<leftarrow> round_up avail PAGE_SIZE;
     sz \<leftarrow> udiv r PAGE_SIZE;
     len \<leftarrow> umul sz PAGE_SIZE;
     Some (s\<lparr>heap := region_init (heap s) base sz sz 0, memory := memset_zero base len (memory s)\<rparr>) }"

definition mem_heap_region_reserve :: "phys \<Rightarrow> usize \<Rightarrow> usize \<Rightarrow> phys option" where
  "mem_heap_region_reserve s base_addr sz = do {
     r \<leftarrow> round_up sz PAGE_SIZE;
     n \<leftarrow> udiv r PAGE_SIZE;
     h \<leftarrow> reserve_pages (heap s) base_addr n;
     Some (s\<lparr>heap := h\<rparr>) }"

definition mem_heap_reset :: "phys \<Rightarrow> phys option" where
  "mem_heap_reset s = do {
     len \<leftarrow> umul (mr_size (heap_region (heap s))) PAGE_SIZE;
     Some (s\<lparr>memory := memset_zero (mr_base (heap_region (heap s))) len (memory s)\<rparr>) }"

definition mem_heap_alloc :: "phys \<Rightarrow> usize \<Rightarrow> ((AllocError + usize) \<times> phys) option" where
  "mem_heap_alloc s page_num =
     (if page_num = 0 then Some (Inl AllocZeroPage, s)
      else if page_num > mr_free (heap_region (heap s)) then Some (Inl OutOfFrame, s)
      else alloc_pages s page_num)"

definition mem_heap_free :: "phys \<Rightarrow> usize \<Rightarrow> usize \<Rightarrow> (bool \<times> phys) option" where
  "mem_heap_free s addr page_num = do {
     (r, h) \<leftarrow> free_pages (heap s) addr page_num;
     Some (r, s\<lparr>heap := h\<rparr>) }"

section \<open>Page frames\<close>

record PageFrame =
  pf_pa :: usize
  pf_page_num :: usize

definition PageFrame_new :: "usize \<Rightarrow> usize \<Rightarrow> PageFrame option" where
  "PageFrame_new pa page_num = do {
     assert_that (pa mod PAGE_SIZE = 0);
     Some \<lparr>pf_pa = pa, pf_page_num = page_num\<rparr> }"

definition PageFrame_alloc_pages :: "phys \<Rightarrow> usize \<Rightarrow> ((AllocError + PageFrame) \<times> phys) option" where
  "PageFrame_alloc_pages s page_num = do {
     (r, s') \<leftarrow> mem_heap_alloc s page_num;
     case r of
       Inl err \<Rightarrow> Some (Inl err, s')
     | Inr pa \<Rightarrow> do { pf \<leftarrow> PageFrame_new pa page_num; Some (Inr pf, s') } }"

definition PageFrame_zero :: "PageFrame \<Rightarrow> phys \<Rightarrow> phys" where
  "PageFrame_zero pf s = s\<lparr>memory := memset_zero (pf_pa pf) PAGE_SIZE (memory s)\<rparr>"

text \<open>\<open>Drop for PageFrame\<close>: the source frees one page, whatever \<open>page_num\<close> is.\<close>

definition PageFrame_drop :: "PageFrame \<Rightarrow> phys \<Rightarrow> phys option" where
  "PageFrame_drop pf s = do { (_, s') \<leftarrow> mem_heap_free s (pf_pa pf) 1; Some s' }"

definition mem_page_alloc :: "phys \<Rightarrow> ((AllocError + PageFrame) \<times> phys) option" where
  "mem_page_alloc s = PageFrame_alloc_pages s 1"

definition mem_pages_alloc :: "phys \<Rightarrow> usize \<Rightarrow> ((AllocError + PageFrame) \<times> phys) option" where
  "mem_pages_alloc s page_num = PageFrame_alloc_pages s page_num"

lemma PageFrame_alloc_pages_Inr:
  "PageFrame_alloc_pages s n = Some (Inr pf, s') \<longleftrightarrow>
     (\<exists>pa. mem_heap_alloc s n = Some (Inr pa, s') \<and> pa mod PAGE_SIZE = 0 \<and> pf = \<lparr>pf_pa = pa, pf_page_num = n\<rparr>)"
proof (cases "mem_heap_alloc s n")
  case (Some r)
  then show ?thesis
    by (cases r; cases "fst r") (auto simp: PageFrame_alloc_pages_def PageFrame_new_def panic_simps)
qed (simp add: PageFrame_alloc_pages_def)

lemma PageFrame_alloc_pages_Inl:
  "PageFrame_alloc_pages s n = Some (Inl err, s') \<longleftrightarrow> mem_heap_alloc s n = Some (Inl err, s')"
proof (cases "mem_heap_alloc s n")
  case (Some r)
  then show ?thesis
    by (cases r; cases "fst r") (auto simp: PageFrame_alloc_pages_def PageFrame_new_def panic_simps)
qed (simp add: PageFrame_alloc_pages_def)

section \<open>Well-formed heaps\<close>

abbreviation heap_bits :: "HeapRegion \<Rightarrow> nat set" where
  "heap_bits h \<equiv> bits_view 65536 BitAlloc64K_get (heap_map h)"

text \<open>
  \<open>mr_free\<close> never under-reports: reservations leave it untouched and a second free of a page
  raises it again, so it is an upper bound of the number of clear bits and no more.
\<close>

definition heap_wf :: "HeapRegion \<Rightarrow> bool" where
  "heap_wf h \<longleftrightarrow> BitAlloc64K_wf (heap_map h) \<and>
     0 < mr_size (heap_region h) \<and> mr_size (heap_region h) \<le> 65536 \<and>
     mr_last (heap_region h) < mr_size (heap_region h) \<and>
     mr_base (heap_region h) mod PAGE_SIZE = 0 \<and>
     mr_base (heap_region h) + mr_size (heap_region h) * PAGE_SIZE < usize_bound \<and>
     heap_bits h \<subseteq> {..<mr_size (heap_region h)} \<and>
     mr_size (heap_region h) \<le> mr_free (heap_region h) + card (heap_bits h)"

definition free_run :: "HeapRegion \<Rightarrow> nat \<Rightarrow> nat \<Rightarrow> bool" where
  "free_run h p n \<longleftrightarrow> p + n \<le> mr_size (heap_region h) \<and> {p..<p + n} \<inter> heap_bits h = {}"

lemma heap_wf_bits_finite: "finite (heap_bits h)"
  by (rule finite_subset[OF ba64k.bits_bounded]) simp

lemma card_Un_range:
  assumes "finite A" and "{p..<p + n} \<inter> A = {}"
  shows "card (A \<union> {p..<p + n}) = card A + (n::nat)"
proof -
  have "card (A \<union> {p..<p + n}) = card A + card {p..<p + n}"
    using assms by (intro card_Un_disjoint) auto
  then show ?thesis by simp
qed

subsection \<open>First fit\<close>

lemma first_fit_loop_spec:
  assumes "BitAlloc64K_wf m" and "n \<le> 65536" and "0 < sz"
    and "i \<le> n" and "count < sz" and "count \<le> i"
    and "{i - count..<i} \<inter> bits_view 65536 BitAlloc64K_get m = {}"
    and "\<forall>q. q + sz \<le> i \<longrightarrow> \<not> {q..<q + sz} \<inter> bits_view 65536 BitAlloc64K_get m = {}"
    and "\<forall>q. q < i - count \<longrightarrow> i < q + sz \<longrightarrow> \<not> {q..<i} \<inter> bits_view 65536 BitAlloc64K_get m = {}"
  shows "\<exists>r. first_fit_loop m i n count sz = Some r \<and>
    (case r of
       None \<Rightarrow> \<forall>q. q + sz \<le> n \<longrightarrow> \<not> {q..<q + sz} \<inter> bits_view 65536 BitAlloc64K_get m = {}
     | Some p \<Rightarrow> p + sz \<le> n \<and> {p..<p + sz} \<inter> bits_view 65536 BitAlloc64K_get m = {} \<and>
         (\<forall>q < p. \<not> {q..<q + sz} \<inter> bits_view 65536 BitAlloc64K_get m = {}))"
  using assms(4-)
proof (induction "n - i" arbitrary: i count)
  case 0
  then show ?case by (subst first_fit_loop.simps) auto
next
  case (Suc k)
  let ?B = "bits_view 65536 BitAlloc64K_get m"
  from Suc have i: "i < n" by simp
  have get: "BitAlloc64K_get m i = Some (if i \<in> ?B then 1 else 0)"
    using assms(1,2) i by (intro ba64k.get_view) auto
  show ?case
  proof (cases "i \<in> ?B")
    case True
    have "\<exists>r. first_fit_loop m (Suc i) n 0 sz = Some r \<and> (case r of
       None \<Rightarrow> \<forall>q. q + sz \<le> n \<longrightarrow> \<not> {q..<q + sz} \<inter> ?B = {}
     | Some p \<Rightarrow> p + sz \<le> n \<and> {p..<p + sz} \<inter> ?B = {} \<and> (\<forall>q < p. \<not> {q..<q + sz} \<inter> ?B = {}))"
    proof (rule Suc.hyps(1))
      show "\<forall>q. q + sz \<le> Suc i \<longrightarrow> {q..<q + sz} \<inter> ?B \<noteq> {}"
      proof (intro allI impI)
        fix q assume q: "q + sz \<le> Suc i"
        show "{q..<q + sz} \<inter> ?B \<noteq> {}"
        proof (cases "q + sz = Suc i")
          case True
          then have "i \<in> {q..<q + sz}" using assms(3) by simp
          with \<open>i \<in> ?B\<close> show ?thesis by blast
        qed (use q Suc.prems(5) in auto)
      qed
      show "\<forall>q. q < Suc i - 0 \<longrightarrow> Suc i < q + sz \<longrightarrow> {q..<Suc i} \<inter> ?B \<noteq> {}"
        using True by (auto simp: less_Suc_eq_le)
    qed (use Suc.hyps(2) i True assms(3) in auto)
    with get True i show ?thesis by (subst first_fit_loop.simps) simp
  next
    case False
    have run: "{Suc i - Suc count..<Suc i} \<inter> ?B = {}"
      using False Suc.prems(3,4) by (auto simp: disjoint_iff less_Suc_eq)
    have before: "\<not> {q..<Suc i} \<inter> ?B = {}" if "q < i - count" "Suc i \<le> q + sz" for q
      using Suc.prems(5,6) that by (cases "q + sz = i") (force simp: disjoint_iff)+
    show ?thesis
    proof (cases "sz \<le> count + 1")
      case True
      then have sz: "sz = Suc count" using Suc.prems(2) by simp
      have "first_fit_loop m i n count sz = Some (Some (i - count))"
        using get False i True Suc.prems(3) by (subst first_fit_loop.simps) simp
      moreover have "\<not> {q..<q + sz} \<inter> ?B = {}" if "q < i - count" for q
        using Suc.prems(5)[rule_format, of q] that sz by simp
      ultimately show ?thesis using run sz i Suc.prems(3) by auto
    next
      case False
      have "\<exists>r. first_fit_loop m (Suc i) n (Suc count) sz = Some r \<and> (case r of
         None \<Rightarrow> \<forall>q. q + sz \<le> n \<longrightarrow> \<not> {q..<q + sz} \<inter> ?B = {}
       | Some p \<Rightarrow> p + sz \<le> n \<and> {p..<p + sz} \<inter> ?B = {} \<and> (\<forall>q < p. \<not> {q..<q + sz} \<inter> ?B = {}))"
      proof (rule Suc.hyps(1))
        show "\<forall>q. q + sz \<le> Suc i \<longrightarrow> \<not> {q..<q + sz} \<inter> ?B = {}"
          using Suc.prems(5) before False by (auto simp: le_Suc_eq)
        show "\<forall>q. q < Suc i - Suc count \<longrightarrow> Suc i < q + sz \<longrightarrow> \<not> {q..<Suc i} \<inter> ?B = {}"
          using before by auto
      qed (use Suc.hyps(2) Suc.prems(3) i run False in auto)
      with get \<open>i \<notin> ?B\<close> i False show ?thesis by (subst first_fit_loop.simps) simp
    qed
  qed
qed

lemma first_fit_spec:
  assumes "heap_wf h" and "0 < n"
  shows "\<exists>r. first_fit h n = Some r \<and>
    (case r of None \<Rightarrow> \<forall>q. \<not> free_run h q n | Some p \<Rightarrow> free_run h p n)"
proof -
  let ?n = "mr_size (heap_region h)" and ?l = "mr_last (heap_region h)"
  have wf: "BitAlloc64K_wf (heap_map h)" "?n \<le> 65536" "?l < ?n"
    using assms(1) by (auto simp: heap_wf_def)
  have get: "BitAlloc64K_get (heap_map h) ?l = Some (if ?l \<in> heap_bits h then 1 else 0)"
    using wf by (intro ba64k.get_view) auto
  obtain r where r: "first_fit_loop (heap_map h) 0 ?n 0 n = Some r"
    "case r of None \<Rightarrow> \<forall>q. q + n \<le> ?n \<longrightarrow> \<not> {q..<q + n} \<inter> heap_bits h = {}
     | Some p \<Rightarrow> p + n \<le> ?n \<and> {p..<p + n} \<inter> heap_bits h = {} \<and> (\<forall>q < p. \<not> {q..<q + n} \<inter> heap_bits h = {})"
    using first_fit_loop_spec[OF wf(1,2) assms(2), of 0 0] assms(2) by auto
  show ?thesis
  proof (cases "n \<le> 1 \<and> ?l \<notin> heap_bits h")
    case True
    then have "first_fit h n = Some (Some ?l)" using get by (simp add: first_fit_def)
    moreover have "n = 1" using True assms(2) by simp
    then have "free_run h ?l n" using True wf by (simp add: free_run_def)
    ultimately show ?thesis by auto
  next
    case False
    then have "first_fit h n = Some r" using get r(1) by (auto simp: first_fit_def)
    with r(2) show ?thesis by (auto simp: free_run_def split: option.splits)
  qed
qed

subsection \<open>Allocation\<close>

lemma memset_zero_in: "addr \<le> a \<Longrightarrow> a < addr + len \<Longrightarrow> memset_zero addr len m a = 0"
  by (simp add: memset_zero_def)

lemma memset_zero_out: "a < addr \<or> addr + len \<le> a \<Longrightarrow> memset_zero addr len m a = m a"
  by (auto simp: memset_zero_def)

text \<open>What a successful allocation of \<open>n\<close> pages at page \<open>p\<close> does to the state.\<close>

definition heap_taken :: "phys \<Rightarrow> phys \<Rightarrow> nat \<Rightarrow> nat \<Rightarrow> bool" where
  "heap_taken s s' p n \<longleftrightarrow> free_run (heap s) p n \<and> heap_wf (heap s') \<and>
     heap_bits (heap s') = heap_bits (heap s) \<union> {p..<p + n} \<and>
     mr_base (heap_region (heap s')) = mr_base (heap_region (heap s)) \<and>
     mr_size (heap_region (heap s')) = mr_size (heap_region (heap s)) \<and>
     mr_free (heap_region (heap s')) + n = mr_free (heap_region (heap s)) \<and>
     memory s' = memset_zero (mr_base (heap_region (heap s)) + p * PAGE_SIZE) (n * PAGE_SIZE) (memory s)"

lemma region_page_bound:
  assumes "heap_wf h" and "p + n \<le> mr_size (heap_region h)"
  shows "mr_base (heap_region h) + (p + n) * PAGE_SIZE < usize_bound"
    and "p * PAGE_SIZE < usize_bound" and "n * PAGE_SIZE < usize_bound"
    and "mr_base (heap_region h) + p * PAGE_SIZE < usize_bound"
proof -
  have "(p + n) * PAGE_SIZE \<le> mr_size (heap_region h) * PAGE_SIZE" using assms(2) by simp
  moreover have "(p + n) * PAGE_SIZE = p * PAGE_SIZE + n * PAGE_SIZE" by (simp add: add_mult_distrib)
  ultimately show "mr_base (heap_region h) + (p + n) * PAGE_SIZE < usize_bound"
    "p * PAGE_SIZE < usize_bound" "n * PAGE_SIZE < usize_bound"
    "mr_base (heap_region h) + p * PAGE_SIZE < usize_bound"
    using assms(1) by (auto simp: heap_wf_def)
qed

lemma alloc_pages_at:
  assumes wf: "heap_wf (heap s)" and n: "0 < n" "n \<le> mr_free (heap_region (heap s))"
    and fit: "first_fit (heap s) n = Some (Some p)" and run: "free_run (heap s) p n"
  shows "\<exists>s'. alloc_pages s n = Some (Inr (mr_base (heap_region (heap s)) + p * PAGE_SIZE), s') \<and> heap_taken s s' p n"
proof -
  let ?h = "heap s"
  have le: "p + n \<le> mr_size (heap_region ?h)" and dis: "{p..<p + n} \<inter> heap_bits ?h = {}"
    using run by (auto simp: free_run_def)
  have mwf: "BitAlloc64K_wf (heap_map ?h)" and sz: "mr_size (heap_region ?h) \<le> 65536"
    using wf by (auto simp: heap_wf_def)
  obtain m where m: "for_range p (p + n) (\<lambda>i m. BitAlloc64K_set m i) (heap_map ?h) = Some m"
    "BitAlloc64K_wf m" "bits_view 65536 BitAlloc64K_get m = heap_bits ?h \<union> {p..<p + n}"
    using ba64k.set_range[OF mwf, of p "p + n"] le sz by auto
  have bound: "p + n < usize_bound" using le sz by simp
  note b = region_page_bound[OF wf le]
  let ?h' = "?h\<lparr>heap_map := m, heap_region := (heap_region ?h)\<lparr>mr_free := mr_free (heap_region ?h) - n,
    mr_last := (if p + n < mr_size (heap_region ?h) then p + n else 0)\<rparr>\<rparr>"
  have "alloc_pages s n = Some (Inr (mr_base (heap_region ?h) + p * PAGE_SIZE),
      s\<lparr>heap := ?h', memory := memset_zero (mr_base (heap_region ?h) + p * PAGE_SIZE) (n * PAGE_SIZE) (memory s)\<rparr>)"
    using fit m(1) n b bound by (simp add: alloc_pages_def Let_def)
  moreover have "heap_wf ?h'"
    using wf m(2,3) n le dis card_Un_range[OF heap_wf_bits_finite, of p n ?h]
    by (auto simp: heap_wf_def)
  ultimately show ?thesis
    using m(3) n run by (auto simp: heap_taken_def)
qed

lemma free_run_le_free:
  assumes "heap_wf h" and "free_run h p n"
  shows "n \<le> mr_free (heap_region h)"
proof -
  have "card (heap_bits h) + n = card (heap_bits h \<union> {p..<p + n})"
    using assms by (intro card_Un_range[symmetric] heap_wf_bits_finite) (auto simp: free_run_def)
  also have "\<dots> \<le> card {..<mr_size (heap_region h)}"
    using assms by (intro card_mono) (auto simp: free_run_def heap_wf_def)
  finally show ?thesis using assms(1) by (auto simp: heap_wf_def)
qed

text \<open>
  The allocator never panics on a well-formed heap: it takes a free run, or it reports
  \<open>OutOfFrame\<close> and changes nothing; and it reports that only when no free run exists.
\<close>

lemma mem_heap_alloc_cases:
  assumes "heap_wf (heap s)" and "0 < n"
  obtains (ok) p s' where "mem_heap_alloc s n = Some (Inr (mr_base (heap_region (heap s)) + p * PAGE_SIZE), s')"
      "heap_taken s s' p n"
  | (full) "mem_heap_alloc s n = Some (Inl OutOfFrame, s)" "\<And>q. \<not> free_run (heap s) q n"
proof (cases "n \<le> mr_free (heap_region (heap s))")
  case False
  then have "mem_heap_alloc s n = Some (Inl OutOfFrame, s)" using assms(2) by (simp add: mem_heap_alloc_def)
  moreover have "\<not> free_run (heap s) q n" for q using free_run_le_free[OF assms(1)] False by blast
  ultimately show ?thesis by (rule full)
next
  case True
  then have alloc: "mem_heap_alloc s n = alloc_pages s n" using assms(2) by (simp add: mem_heap_alloc_def)
  from first_fit_spec[OF assms] obtain r where r: "first_fit (heap s) n = Some r"
    "case r of None \<Rightarrow> \<forall>q. \<not> free_run (heap s) q n | Some p \<Rightarrow> free_run (heap s) p n" by blast
  show ?thesis
  proof (cases r)
    case None
    then have "alloc_pages s n = Some (Inl OutOfFrame, s)" using r(1) by (simp add: alloc_pages_def)
    with alloc r(2) None show ?thesis by (intro full) auto
  next
    case (Some p)
    with r alloc_pages_at[OF assms(1,2) True, of p] obtain s' where
      "alloc_pages s n = Some (Inr (mr_base (heap_region (heap s)) + p * PAGE_SIZE), s')" "heap_taken s s' p n"
      by auto
    with alloc show ?thesis by (intro ok) auto
  qed
qed

subsection \<open>Freeing\<close>

lemma free_pages_at:
  assumes wf: "heap_wf h" and base: "base = mr_base (heap_region h) + p * PAGE_SIZE"
    and le: "p + n \<le> mr_size (heap_region h)" "0 < n" and fr: "mr_free (heap_region h) + n < usize_bound"
  shows "\<exists>h'. free_pages h base n = Some (True, h') \<and> heap_wf h' \<and> heap_bits h' = heap_bits h - {p..<p + n} \<and>
    mr_base (heap_region h') = mr_base (heap_region h) \<and> mr_size (heap_region h') = mr_size (heap_region h) \<and>
    mr_free (heap_region h') = mr_free (heap_region h) + n"
proof -
  have mwf: "BitAlloc64K_wf (heap_map h)" and sz: "mr_size (heap_region h) \<le> 65536"
    using wf by (auto simp: heap_wf_def)
  note b = region_page_bound[OF wf le(1)] and b' = region_page_bound[OF wf, of 0 "mr_size (heap_region h)"]
  have "(p + n) * PAGE_SIZE \<le> mr_size (heap_region h) * PAGE_SIZE" using le(1) by simp
  then have rng: "range_in_range base (n * PAGE_SIZE) (mr_base (heap_region h)) (mr_size (heap_region h) * PAGE_SIZE) = Some True"
    using b b' base by (simp add: range_in_range_def add_mult_distrib)
  obtain m where m: "for_range p (p + n) (\<lambda>i m. BitAlloc64K_clear m i) (heap_map h) = Some m"
    "BitAlloc64K_wf m" "bits_view 65536 BitAlloc64K_get m = heap_bits h - {p..<p + n}"
    using ba64k.clear_range[OF mwf, of p "p + n"] le sz by auto
  have pidx: "(base - mr_base (heap_region h)) div PAGE_SIZE = p" by (simp add: base)
  let ?h' = "h\<lparr>heap_map := m, heap_region := (heap_region h)\<lparr>mr_free := mr_free (heap_region h) + n, mr_last := p\<rparr>\<rparr>"
  have "free_pages h base n = Some (True, ?h')"
    using rng m(1) b(3) b'(1,3) pidx le sz fr base by (simp add: free_pages_def)
  moreover have "card (heap_bits h) \<le> card (heap_bits h - {p..<p + n}) + n"
    using diff_card_le_card_Diff[of "{p..<p + n}" "heap_bits h"] by simp
  then have "heap_wf ?h'" using wf m(2,3) le by (auto simp: heap_wf_def)
  ultimately show ?thesis using m(3) by auto
qed

lemma reserve_pages_at:
  assumes wf: "heap_wf h" and base: "base = mr_base (heap_region h) + p * PAGE_SIZE"
    and run: "free_run h p n"
  shows "\<exists>h'. reserve_pages h base n = Some h' \<and> heap_wf h' \<and> heap_bits h' = heap_bits h \<union> {p..<p + n} \<and>
    heap_region h' = heap_region h"
proof -
  have le: "p + n \<le> 65536" "{p..<p + n} \<inter> heap_bits h = {}" and mwf: "BitAlloc64K_wf (heap_map h)"
    using wf run by (auto simp: heap_wf_def free_run_def)
  let ?f = "\<lambda>i m. do { idx \<leftarrow> uadd p i; b \<leftarrow> BitAlloc64K_get m idx; assert_that (\<not> b \<noteq> 0); BitAlloc64K_set m idx }"
  let ?I = "\<lambda>i m. BitAlloc64K_wf m \<and> bits_view 65536 BitAlloc64K_get m = heap_bits h \<union> {p..<p + i}"
  have "\<exists>m. for_range 0 n ?f (heap_map h) = Some m \<and> ?I n m"
  proof (rule for_range_total[where I = ?I])
    fix i m assume i: "i < n" and I: "?I i m"
    have "p + i \<in> {p..<p + n}" using i by simp
    with le(2) have "p + i \<notin> heap_bits h" by blast
    with I i le(1) have pi: "p + i < 65536" "p + i \<notin> bits_view 65536 BitAlloc64K_get m" by auto
    then have "BitAlloc64K_get m (p + i) = Some 0" using ba64k.get_view[of m "p + i"] I by simp
    moreover from pi(1) I obtain m' where "BitAlloc64K_set m (p + i) = Some m'" "BitAlloc64K_wf m'"
      "bits_view 65536 BitAlloc64K_get m' = insert (p + i) (bits_view 65536 BitAlloc64K_get m)"
      using ba64k.set_view[of m "p + i"] by blast
    ultimately show "\<exists>m'. ?f i m = Some m' \<and> ?I (Suc i) m'"
      using I pi(1) by (simp add: atLeastLessThanSuc)
  qed (use mwf in auto)
  then obtain m where m: "for_range 0 n ?f (heap_map h) = Some m" "?I n m" by blast
  have "reserve_pages h base n = Some (h\<lparr>heap_map := m\<rparr>)"
    using m(1) base by (simp add: reserve_pages_def)
  moreover have "heap_wf (h\<lparr>heap_map := m\<rparr>)"
    using wf run m(2) card_Un_range[OF heap_wf_bits_finite le(2)] by (auto simp: heap_wf_def free_run_def)
  ultimately show ?thesis using m(2) by auto
qed

subsection \<open>Boot\<close>

lemma heap_wf_boot:
  assumes "base mod PAGE_SIZE = 0" and "0 < sz" and "sz \<le> 65536" and "base + sz * PAGE_SIZE < usize_bound"
  shows "heap_wf (region_init HeapRegion_new base sz sz 0)" "heap_bits (region_init HeapRegion_new base sz sz 0) = {}"
  using assms ba64k.invar_default ba64k.bits_default
  by (simp_all add: heap_wf_def region_init_def HeapRegion_new_def MemRegion_init_def MemRegion_new_def)

definition heap_example :: phys where
  "heap_example = \<lparr>heap = region_init HeapRegion_new 0x80000000 4 4 0, memory = (\<lambda>_. 7)\<rparr>"

lemma heap_example_wf:
  "heap_wf (heap heap_example)" "heap_bits (heap heap_example) = {}"
  "mr_base (heap_region (heap heap_example)) = 0x80000000" "mr_size (heap_region (heap heap_example)) = 4"
  "mr_free (heap_region (heap heap_example)) = 4"
  using heap_wf_boot[of "0x80000000" 4]
  by (simp_all add: heap_example_def PAGE_SIZE_def region_init_def MemRegion_init_def)

section \<open>Correctness of the page heap\<close>

text \<open>C1: on a well-formed heap a request for \<open>n > 0\<close> pages never panics.  Either it returns the
  address of \<open>n\<close> consecutive pages that were free, marks exactly these as taken, zeroes exactly
  their memory and leaves the heap well-formed, or it returns \<open>OutOfFrame\<close>, changes nothing, and
  there is no run of \<open>n\<close> free pages.\<close>

theorem mem_heap_alloc_correct:
  assumes "heap_wf (heap s)" and "0 < n"
  shows "(\<exists>p s'. mem_heap_alloc s n = Some (Inr (mr_base (heap_region (heap s)) + p * PAGE_SIZE), s') \<and>
            heap_taken s s' p n) \<or>
         (mem_heap_alloc s n = Some (Inl OutOfFrame, s) \<and> (\<forall>q. \<not> free_run (heap s) q n))"
  using assms by (rule mem_heap_alloc_cases) blast+

theorem mem_heap_alloc_correct_witness:
  "\<exists>p s'. mem_heap_alloc heap_example 3 = Some (Inr (0x80000000 + p * PAGE_SIZE), s') \<and> heap_taken heap_example s' p 3"
proof -
  have "free_run (heap heap_example) 0 3" by (simp add: free_run_def heap_example_wf)
  then show ?thesis
    using mem_heap_alloc_correct[of heap_example 3] heap_example_wf by auto
qed

text \<open>
  Clients of the heap: \<open>live\<close> is the set of allocations that were handed out and not given
  back yet.
\<close>

inductive heap_run :: "phys \<Rightarrow> (usize \<times> usize) set \<Rightarrow> bool" where
  boot: "heap_wf (heap s) \<Longrightarrow> heap_bits (heap s) = {} \<Longrightarrow>
     mr_free (heap_region (heap s)) = mr_size (heap_region (heap s)) \<Longrightarrow> heap_run s {}"
| alloc: "heap_run s live \<Longrightarrow> mem_heap_alloc s n = Some (Inr addr, s') \<Longrightarrow>
     heap_run s' (insert (addr, n) live)"
| refused: "heap_run s live \<Longrightarrow> mem_heap_alloc s n = Some (Inl err, s') \<Longrightarrow> heap_run s' live"
| free: "heap_run s live \<Longrightarrow> (addr, n) \<in> live \<Longrightarrow> mem_heap_free s addr n = Some (r, s') \<Longrightarrow>
     heap_run s' (live - {(addr, n)})"

definition pages_of :: "phys \<Rightarrow> usize \<times> usize \<Rightarrow> nat set" where
  "pages_of s = (\<lambda>(addr, n). {p. \<exists>k < n. addr + k * PAGE_SIZE = mr_base (heap_region (heap s)) + p * PAGE_SIZE})"

definition live_wf :: "phys \<Rightarrow> (usize \<times> usize) set \<Rightarrow> bool" where
  "live_wf s live \<longleftrightarrow> finite live \<and>
     (\<forall>(addr, n) \<in> live. 0 < n \<and> (\<exists>p. addr = mr_base (heap_region (heap s)) + p * PAGE_SIZE \<and>
        p + n \<le> mr_size (heap_region (heap s)) \<and> pages_of s (addr, n) = {p..<p + n})) \<and>
     (\<forall>a \<in> live. \<forall>b \<in> live. a \<noteq> b \<longrightarrow> pages_of s a \<inter> pages_of s b = {}) \<and>
     heap_bits (heap s) = (\<Union>a \<in> live. pages_of s a) \<and>
     mr_free (heap_region (heap s)) + card (heap_bits (heap s)) = mr_size (heap_region (heap s))"

lemma pages_of_at: "pages_of s (mr_base (heap_region (heap s)) + p * PAGE_SIZE, n) = {p..<p + n}"
proof -
  have "(\<exists>k < n. mr_base (heap_region (heap s)) + p * PAGE_SIZE + k * PAGE_SIZE =
      mr_base (heap_region (heap s)) + q * PAGE_SIZE) \<longleftrightarrow> q \<in> {p..<p + n}" for q
  proof -
    have "p * PAGE_SIZE + k * PAGE_SIZE = q * PAGE_SIZE \<longleftrightarrow> p + k = q" for k
      by (metis add_mult_distrib mult_cancel2 PAGE_SIZE_pos(2))
    then have "(\<exists>k < n. mr_base (heap_region (heap s)) + p * PAGE_SIZE + k * PAGE_SIZE =
      mr_base (heap_region (heap s)) + q * PAGE_SIZE) \<longleftrightarrow> (\<exists>k < n. p + k = q)" by (simp add: add.assoc)
    also have "\<dots> \<longleftrightarrow> q \<in> {p..<p + n}" by (auto intro: exI[of _ "q - p"])
    finally show ?thesis .
  qed
  then show ?thesis by (auto simp: pages_of_def)
qed

lemma pages_of_same_base:
  "mr_base (heap_region (heap s')) = mr_base (heap_region (heap s)) \<Longrightarrow> pages_of s' = pages_of s"
  by (simp add: pages_of_def)

lemma live_wf_alloc:
  assumes wf: "live_wf s live" and t: "heap_taken s s' p n" and n: "0 < n"
  shows "live_wf s' (insert (mr_base (heap_region (heap s)) + p * PAGE_SIZE, n) live)"
proof -
  let ?new = "(mr_base (heap_region (heap s)) + p * PAGE_SIZE, n)"
  have eqs: "mr_base (heap_region (heap s')) = mr_base (heap_region (heap s))"
    "mr_size (heap_region (heap s')) = mr_size (heap_region (heap s))"
    "heap_bits (heap s') = heap_bits (heap s) \<union> {p..<p + n}"
    "mr_free (heap_region (heap s')) + n = mr_free (heap_region (heap s))"
    "{p..<p + n} \<inter> heap_bits (heap s) = {}" "p + n \<le> mr_size (heap_region (heap s))"
    using t by (auto simp: heap_taken_def free_run_def)
  note pg = pages_of_same_base[OF eqs(1)]
  have bits: "heap_bits (heap s) = (\<Union>a \<in> live. pages_of s a)" using wf by (simp add: live_wf_def)
  then have fresh: "pages_of s a \<inter> {p..<p + n} = {}" if "a \<in> live" for a using eqs(5) that by blast
  show ?thesis unfolding live_wf_def pg
  proof (intro conjI)
    show "\<forall>a \<in> insert ?new live. \<forall>b \<in> insert ?new live. a \<noteq> b \<longrightarrow> pages_of s a \<inter> pages_of s b = {}"
      using wf fresh pages_of_at[of s p n] by (auto simp: live_wf_def)
    show "heap_bits (heap s') = (\<Union>a \<in> insert ?new live. pages_of s a)"
      using bits eqs(3) pages_of_at[of s p n] by auto
    show "mr_free (heap_region (heap s')) + card (heap_bits (heap s')) = mr_size (heap_region (heap s'))"
      using wf card_Un_range[OF heap_wf_bits_finite eqs(5)] unfolding eqs(2,3) live_wf_def using eqs(4) by linarith
  qed (use wf eqs n pages_of_at[of s p n] in \<open>auto simp: live_wf_def\<close>)
qed

lemma live_wf_free:
  assumes wf: "heap_wf (heap s)" and lw: "live_wf s live" and "(addr, n) \<in> live"
  shows "\<exists>s'. mem_heap_free s addr n = Some (True, s') \<and> heap_wf (heap s') \<and> live_wf s' (live - {(addr, n)})"
proof -
  from lw assms(3) obtain p where p: "0 < n" "addr = mr_base (heap_region (heap s)) + p * PAGE_SIZE"
    "p + n \<le> mr_size (heap_region (heap s))" "pages_of s (addr, n) = {p..<p + n}"
    by (auto simp: live_wf_def)
  have "mr_size (heap_region (heap s)) \<le> 65536" using wf by (simp add: heap_wf_def)
  with lw p(3) have fr: "mr_free (heap_region (heap s)) + n < usize_bound" by (auto simp: live_wf_def)
  obtain h' where h': "free_pages (heap s) addr n = Some (True, h')" "heap_wf h'"
    "heap_bits h' = heap_bits (heap s) - {p..<p + n}"
    "mr_base (heap_region h') = mr_base (heap_region (heap s))" "mr_size (heap_region h') = mr_size (heap_region (heap s))"
    "mr_free (heap_region h') = mr_free (heap_region (heap s)) + n"
    using free_pages_at[OF wf p(2,3,1) fr] by blast
  let ?s' = "s\<lparr>heap := h'\<rparr>"
  have pg: "pages_of ?s' = pages_of s" by (rule pages_of_same_base) (simp add: h'(4))
  have sub: "{p..<p + n} \<subseteq> heap_bits (heap s)" using lw assms(3) p(4) by (force simp: live_wf_def)
  have "live_wf ?s' (live - {(addr, n)})"
    unfolding live_wf_def pg
  proof (intro conjI)
    have "pages_of s a \<inter> {p..<p + n} = {}" if "a \<in> live - {(addr, n)}" for a
      using lw assms(3) p(4) that unfolding live_wf_def by (metis DiffD1 DiffD2 singletonI)
    then show "heap_bits (heap ?s') = (\<Union>a \<in> live - {(addr, n)}. pages_of s a)"
      using lw h'(3) p(4) assms(3) by (auto simp: live_wf_def)
    have "card (heap_bits (heap s)) = card (heap_bits (heap s) - {p..<p + n}) + n"
      using card_Diff_subset[OF _ sub] card_mono[OF heap_wf_bits_finite sub] by simp
    moreover have "mr_free (heap_region (heap s)) + card (heap_bits (heap s)) = mr_size (heap_region (heap s))"
      using lw unfolding live_wf_def by blast
    ultimately show "mr_free (heap_region (heap ?s')) + card (heap_bits (heap ?s')) = mr_size (heap_region (heap ?s'))"
      by (simp add: h')
  qed (use lw h' in \<open>auto simp: live_wf_def\<close>)
  with h' show ?thesis by (auto simp: mem_heap_free_def)
qed

lemma mem_heap_alloc_Inr:
  assumes "heap_wf (heap s)" and "mem_heap_alloc s n = Some (Inr addr, s')"
  obtains p where "0 < n" "addr = mr_base (heap_region (heap s)) + p * PAGE_SIZE" "heap_taken s s' p n"
proof -
  have "0 < n" using assms(2) by (auto simp: mem_heap_alloc_def split: if_splits)
  from assms(1) this show ?thesis
    by (rule mem_heap_alloc_cases) (use assms(2) \<open>0 < n\<close> that in auto)
qed

lemma mem_heap_alloc_Inl:
  assumes "heap_wf (heap s)" and "mem_heap_alloc s n = Some (Inl err, s')"
  shows "s' = s"
proof (cases "n = 0")
  case True
  then show ?thesis using assms(2) by (simp add: mem_heap_alloc_def)
next
  case False
  then have "0 < n" by simp
  with assms(1) show ?thesis by (rule mem_heap_alloc_cases) (use assms(2) in auto)
qed

lemma heap_run_invariant: "heap_run s live \<Longrightarrow> heap_wf (heap s) \<and> live_wf s live"
proof (induction rule: heap_run.induct)
  case (boot s)
  then show ?case by (simp add: live_wf_def)
next
  case (alloc s live n addr s')
  then obtain p where "0 < n" "addr = mr_base (heap_region (heap s)) + p * PAGE_SIZE" "heap_taken s s' p n"
    using mem_heap_alloc_Inr by blast
  with alloc.IH show ?case by (simp add: live_wf_alloc) (simp add: heap_taken_def)
next
  case (refused s live n err s')
  then show ?case using mem_heap_alloc_Inl by blast
next
  case (free s live addr n r s')
  then show ?case using live_wf_free[of s live addr n] by auto
qed

lemma mem_heap_alloc_ok:
  assumes "heap_wf (heap s)" and "0 < n" and "free_run (heap s) q n"
  obtains p s' where "mem_heap_alloc s n = Some (Inr (mr_base (heap_region (heap s)) + p * PAGE_SIZE), s')"
    "heap_taken s s' p n"
  using assms(1,2) by (rule mem_heap_alloc_cases) (use assms(3) that in blast)+

lemma heap_run_example:
  "\<exists>s p q. heap_run s {(0x80000000 + p * PAGE_SIZE, 1), (0x80000000 + q * PAGE_SIZE, 1)} \<and> p \<noteq> q"
proof -
  have run0: "heap_run heap_example {}" by (rule heap_run.boot) (simp_all add: heap_example_wf)
  have "free_run (heap heap_example) 0 1" by (simp add: free_run_def heap_example_wf)
  then obtain p s1 where s1: "mem_heap_alloc heap_example 1 = Some (Inr (0x80000000 + p * PAGE_SIZE), s1)"
    "heap_taken heap_example s1 p 1"
    using mem_heap_alloc_ok[OF heap_example_wf(1), of 1 0] unfolding heap_example_wf(3) by (metis zero_less_one)
  from run0 s1(1) have run1: "heap_run s1 {(0x80000000 + p * PAGE_SIZE, 1)}" by (rule heap_run.alloc)
  have wf1: "heap_wf (heap s1)" "heap_bits (heap s1) = {p}" "mr_base (heap_region (heap s1)) = 0x80000000"
    "mr_size (heap_region (heap s1)) = 4"
    using s1(2) by (simp_all add: heap_taken_def heap_example_wf)
  have "free_run (heap s1) (if p = 0 then 1 else 0) 1" using wf1 by (simp add: free_run_def)
  with wf1(1,3) obtain q s2 where s2: "mem_heap_alloc s1 1 = Some (Inr (0x80000000 + q * PAGE_SIZE), s2)"
    "heap_taken s1 s2 q 1"
    using mem_heap_alloc_ok[OF wf1(1), of 1] by (metis zero_less_one)
  from run1 s2(1) have "heap_run s2 {(0x80000000 + q * PAGE_SIZE, 1), (0x80000000 + p * PAGE_SIZE, 1)}"
    by (rule heap_run.alloc)
  moreover have "p \<noteq> q" using s2(2) wf1(2) by (auto simp: heap_taken_def free_run_def)
  ultimately show ?thesis by blast
qed

text \<open>C2: whatever sequence of allocations and frees the clients perform, two live allocations
  never share a byte, and every live allocation lies inside the heap region.\<close>

theorem heap_isolation:
  assumes "heap_run s live" and "(a, n) \<in> live" and "(b, m) \<in> live" and "(a, n) \<noteq> (b, m)"
  shows "{a..<a + n * PAGE_SIZE} \<inter> {b..<b + m * PAGE_SIZE} = {} \<and>
    mr_base (heap_region (heap s)) \<le> a \<and>
    a + n * PAGE_SIZE \<le> mr_base (heap_region (heap s)) + mr_size (heap_region (heap s)) * PAGE_SIZE"
proof -
  let ?base = "mr_base (heap_region (heap s))"
  have lw: "live_wf s live" using heap_run_invariant[OF assms(1)] by simp
  from lw assms(2) obtain p where p: "a = ?base + p * PAGE_SIZE" "p + n \<le> mr_size (heap_region (heap s))"
    "pages_of s (a, n) = {p..<p + n}" by (auto simp: live_wf_def)
  from lw assms(3) obtain q where q: "b = ?base + q * PAGE_SIZE" "pages_of s (b, m) = {q..<q + m}" "0 < m"
    by (auto simp: live_wf_def)
  from lw assms(2) have "0 < n" by (auto simp: live_wf_def)
  have "pages_of s (a, n) \<inter> pages_of s (b, m) = {}" using lw assms(2-4) unfolding live_wf_def by blast
  then have "{p..<p + n} \<inter> {q..<q + m} = {}" using p(3) q(2) by simp
  then have "p + n \<le> q \<or> q + m \<le> p"
    using \<open>0 < n\<close> q(3) by (metis IntI add.commute atLeastLessThan_iff empty_iff le_add2 less_add_same_cancel2 not_le nle_le order.strict_trans2)
  then have "(p + n) * PAGE_SIZE \<le> q * PAGE_SIZE \<or> (q + m) * PAGE_SIZE \<le> p * PAGE_SIZE" by auto
  moreover have "(p + n) * PAGE_SIZE \<le> mr_size (heap_region (heap s)) * PAGE_SIZE" using p(2) by simp
  ultimately show ?thesis using p(1) q(1) by (auto simp: add_mult_distrib)
qed

theorem heap_isolation_witness:
  "\<exists>s p q. heap_run s {(0x80000000 + p * PAGE_SIZE, 1), (0x80000000 + q * PAGE_SIZE, 1)} \<and>
     {0x80000000 + p * PAGE_SIZE..<0x80000000 + p * PAGE_SIZE + 1 * PAGE_SIZE} \<inter>
     {0x80000000 + q * PAGE_SIZE..<0x80000000 + q * PAGE_SIZE + 1 * PAGE_SIZE} = {}"
proof -
  obtain s p q where r: "heap_run s {(0x80000000 + p * PAGE_SIZE, 1), (0x80000000 + q * PAGE_SIZE, 1)}" "p \<noteq> q"
    using heap_run_example by blast
  then have "(0x80000000 + p * PAGE_SIZE, 1) \<noteq> (0x80000000 + q * PAGE_SIZE, 1 :: nat)" by simp
  with heap_isolation[OF r(1) _ _ this] r(1) show ?thesis by blast
qed

text \<open>C3: giving a live allocation back always succeeds; afterwards the heap is well-formed and the
  freed pages are available again.\<close>

theorem heap_free_live:
  assumes "heap_run s live" and "(addr, n) \<in> live"
  shows "\<exists>s' p. mem_heap_free s addr n = Some (True, s') \<and> addr = mr_base (heap_region (heap s)) + p * PAGE_SIZE \<and>
    heap_wf (heap s') \<and> free_run (heap s') p n \<and> heap_run s' (live - {(addr, n)})"
proof -
  have inv: "heap_wf (heap s)" "live_wf s live" using heap_run_invariant[OF assms(1)] by simp_all
  from inv(2) assms(2) obtain p where p: "0 < n" "addr = mr_base (heap_region (heap s)) + p * PAGE_SIZE"
    "p + n \<le> mr_size (heap_region (heap s))" by (auto simp: live_wf_def)
  have "mr_size (heap_region (heap s)) \<le> 65536" using inv(1) by (simp add: heap_wf_def)
  with inv(2) p(3) have "mr_free (heap_region (heap s)) + n < usize_bound" by (auto simp: live_wf_def)
  from free_pages_at[OF inv(1) p(2,3,1) this] obtain h' where h': "free_pages (heap s) addr n = Some (True, h')"
    "heap_wf h'" "heap_bits h' = heap_bits (heap s) - {p..<p + n}" "mr_size (heap_region h') = mr_size (heap_region (heap s))"
    by blast
  then have "mem_heap_free s addr n = Some (True, s\<lparr>heap := h'\<rparr>)" by (simp add: mem_heap_free_def)
  with h' p assms heap_run.free[OF assms] show ?thesis by (auto simp: free_run_def)
qed

theorem heap_free_live_witness:
  "\<exists>s p q s'. heap_run s {(0x80000000 + p * PAGE_SIZE, 1), (0x80000000 + q * PAGE_SIZE, 1)} \<and>
     mem_heap_free s (0x80000000 + p * PAGE_SIZE) 1 = Some (True, s') \<and> heap_wf (heap s')"
proof -
  obtain s p q where r: "heap_run s {(0x80000000 + p * PAGE_SIZE, 1), (0x80000000 + q * PAGE_SIZE, 1)}"
    using heap_run_example by blast
  with heap_free_live[OF r, of "0x80000000 + p * PAGE_SIZE" 1] show ?thesis by blast
qed

text \<open>dropping a page frame gives back its first page only.  A frame of \<open>n\<close> pages that is
  allocated and dropped leaves \<open>n - 1\<close> pages taken for good, although \<open>page_num\<close> records the
  size of the frame.\<close>

theorem PageFrame_drop_leaks:
  assumes "heap_wf (heap s)" and "PageFrame_alloc_pages s n = Some (Inr pf, s')"
    and "mr_free (heap_region (heap s)) < usize_bound"
  shows "\<exists>p s''. PageFrame_drop pf s' = Some s'' \<and> pf_page_num pf = n \<and> free_run (heap s) p n \<and>
    heap_bits (heap s'') = heap_bits (heap s) \<union> {Suc p..<p + n}"
proof -
  from assms(2) obtain pa where pa: "mem_heap_alloc s n = Some (Inr pa, s')" "pf = \<lparr>pf_pa = pa, pf_page_num = n\<rparr>"
    by (auto simp: PageFrame_alloc_pages_Inr)
  from mem_heap_alloc_Inr[OF assms(1) pa(1)] obtain p where p: "0 < n"
    "pa = mr_base (heap_region (heap s)) + p * PAGE_SIZE" "heap_taken s s' p n" .
  then have t: "heap_wf (heap s')" "free_run (heap s) p n" "heap_bits (heap s') = heap_bits (heap s) \<union> {p..<p + n}"
    "mr_base (heap_region (heap s')) = mr_base (heap_region (heap s))"
    "mr_size (heap_region (heap s')) = mr_size (heap_region (heap s))"
    "mr_free (heap_region (heap s')) + n = mr_free (heap_region (heap s))"
    by (auto simp: heap_taken_def)
  have le: "p + 1 \<le> mr_size (heap_region (heap s'))" using t(2,5) p(1) by (auto simp: free_run_def)
  have "mr_free (heap_region (heap s')) + 1 < usize_bound" using t(6) p(1) assms(3) by linarith
  from free_pages_at[OF t(1) _ le _ this, of pa] p(2) t(4) obtain h' where
    "free_pages (heap s') pa 1 = Some (True, h')" "heap_bits h' = heap_bits (heap s') - {p..<p + 1}" by auto
  moreover have "p \<notin> heap_bits (heap s)" using t(2) p(1) by (auto simp: free_run_def disjoint_iff)
  then have "heap_bits (heap s) \<union> {p..<p + n} - {p..<p + 1} = heap_bits (heap s) \<union> {Suc p..<p + n}" by auto
  ultimately show ?thesis
    using pa(2) t(2,3) by (auto simp: PageFrame_drop_def mem_heap_free_def)
qed

theorem PageFrame_drop_leaks_witness:
  "\<exists>pf s' p s''. PageFrame_alloc_pages heap_example 3 = Some (Inr pf, s') \<and> PageFrame_drop pf s' = Some s'' \<and>
     heap_bits (heap s'') = {Suc p..<p + 3}"
proof -
  have "free_run (heap heap_example) 0 3" by (simp add: free_run_def heap_example_wf)
  then obtain p s' where s': "mem_heap_alloc heap_example 3 = Some (Inr (0x80000000 + p * PAGE_SIZE), s')"
    using mem_heap_alloc_ok[OF heap_example_wf(1), of 3 0] unfolding heap_example_wf(3) by (metis zero_less_numeral)
  then have "PageFrame_alloc_pages heap_example 3 = Some (Inr \<lparr>pf_pa = 0x80000000 + p * PAGE_SIZE, pf_page_num = 3\<rparr>, s')"
    by (simp add: PageFrame_alloc_pages_def PageFrame_new_def PAGE_SIZE_def mod_add_eq)
  with PageFrame_drop_leaks[OF heap_example_wf(1) this] show ?thesis
    by (auto simp: heap_example_wf)
qed

end
