(* ===== verification/VmRegion.thy ===== *)
theory VmRegion
  imports Heap
begin

text \<open>
  The memory regions handed to guests: \<open>VmRegion\<close> of \<open>src/src/kernel/mem_region.rs\<close> and
  \<open>mem_vm_region_init\<close>, \<open>mem_vm_region_alloc\<close>, \<open>mem_vm_region_free\<close> of
  \<open>src/src/kernel/mem.rs\<close>.  The global \<open>VM_REGION\<close> is a list of regions; a region is free
  (\<open>free\<close> equals its size) or allocated (\<open>free\<close> is 0).
\<close>

section \<open>Operations\<close>

type_synonym VmRegion = "MemRegion list"

definition VmRegion_push :: "VmRegion \<Rightarrow> MemRegion \<Rightarrow> VmRegion" where
  "VmRegion_push regs r = regs @ [r]"

text \<open>The platform's memory description is a parameter: pairs of base and size in bytes.\<close>

definition mem_vm_region_init :: "(usize \<times> usize) list \<Rightarrow> VmRegion \<Rightarrow> VmRegion option" where
  "mem_vm_region_init plat regs = do {
     assert_that (plat \<noteq> []);
     assert_that (\<not> length plat \<le> 1);
     for_range 0 (length plat - 1) (\<lambda>i regs. do {
       (base, bytes) \<leftarrow> vec_get plat (i + 1);
       let pages = bytes div PAGE_SIZE;
       Some (VmRegion_push regs (MemRegion_init MemRegion_new base pages pages 0)) }) regs }"

function mem_vm_region_alloc_loop :: "VmRegion \<Rightarrow> nat \<Rightarrow> usize \<Rightarrow> (usize \<times> VmRegion) option" where
  "mem_vm_region_alloc_loop regs i sz =
     (if length regs \<le> i then Some (0, regs)
      else if mr_free (regs ! i) \<ge> sz div PAGE_SIZE then do {
        let start_addr = mr_base (regs ! i);
        let region_size = mr_size (regs ! i);
        regs' \<leftarrow>
          (if mr_size (regs ! i) > sz div PAGE_SIZE then do {
             b \<leftarrow> uadd start_addr sz;
             let rest = region_size - sz div PAGE_SIZE;
             let regs1 = VmRegion_push regs \<lparr>mr_base = b, mr_size = rest, mr_free = rest, mr_last = 0\<rparr>;
             vec_set regs1 i ((regs1 ! i)\<lparr>mr_size := sz div PAGE_SIZE\<rparr>) }
           else Some regs);
        regs'' \<leftarrow> vec_set regs' i ((regs' ! i)\<lparr>mr_free := 0\<rparr>);
        Some (start_addr, regs'') }
      else mem_vm_region_alloc_loop regs (i + 1) sz)"
  by pat_completeness auto
termination
  by (relation "measure (\<lambda>(regs, i, sz). length regs - i)") auto

declare mem_vm_region_alloc_loop.simps [simp del]

definition mem_vm_region_alloc :: "VmRegion \<Rightarrow> usize \<Rightarrow> (usize \<times> VmRegion) option" where
  "mem_vm_region_alloc regs sz = mem_vm_region_alloc_loop regs 0 sz"

text \<open>The first loop of \<open>mem_vm_region_free\<close>: the position of the region to give back.\<close>

fun find_allocated :: "VmRegion \<Rightarrow> nat \<Rightarrow> usize \<Rightarrow> nat option" where
  "find_allocated [] idx start = None"
| "find_allocated (r # rs) idx start =
     (if start = mr_base r \<and> mr_free r = 0 then Some idx else find_allocated rs (idx + 1) start)"

text \<open>
  The scan of the merge loop: the first free neighbour of the region at \<open>base\<close> with \<open>sz\<close>
  pages, and whether it ends where that region starts (\<open>True\<close>) or starts where it ends.
\<close>

fun merge_scan :: "VmRegion \<Rightarrow> nat \<Rightarrow> usize \<Rightarrow> usize \<Rightarrow> (nat \<times> bool) option option" where
  "merge_scan [] idx base sz = Some None"
| "merge_scan (r # rs) idx base sz =
     (if mr_free r \<noteq> 0 then do {
        a \<leftarrow> umul (mr_size r) PAGE_SIZE;
        e \<leftarrow> uadd (mr_base r) a;
        if base = e then Some (Some (idx, True))
        else do {
          c \<leftarrow> umul sz PAGE_SIZE;
          f \<leftarrow> uadd base c;
          if f = mr_base r then Some (Some (idx, False)) else merge_scan rs (idx + 1) base sz } }
      else merge_scan rs (idx + 1) base sz)"

text \<open>One iteration of \<open>while free_idx.is_some()\<close>: the new list and the new \<open>free_idx\<close>.\<close>

definition merge_step :: "VmRegion \<Rightarrow> nat \<Rightarrow> (VmRegion \<times> nat option) option" where
  "merge_step regs merge_idx = do {
     cur \<leftarrow> vec_get regs merge_idx;
     hit \<leftarrow> merge_scan regs 0 (mr_base cur) (mr_size cur);
     case hit of
       None \<Rightarrow> Some (regs, None)
     | Some (idx, left) \<Rightarrow> if left then do {
         r \<leftarrow> vec_get regs idx;
         sz \<leftarrow> uadd (mr_size r) (mr_size cur);
         free \<leftarrow> uadd (mr_free r) (mr_size cur);
         nxt \<leftarrow> (if idx < merge_idx then Some idx else usub idx 1);
         regs1 \<leftarrow> vec_set regs idx (r\<lparr>mr_size := sz, mr_free := free\<rparr>);
         Some (remove_nth merge_idx regs1, Some nxt) }
       else do {
         r \<leftarrow> vec_get regs idx;
         sz \<leftarrow> uadd (mr_size cur) (mr_size r);
         free \<leftarrow> uadd (mr_free cur) (mr_size r);
         nxt \<leftarrow> (if merge_idx < idx then Some merge_idx else usub merge_idx 1);
         regs1 \<leftarrow> vec_set regs merge_idx (cur\<lparr>mr_size := sz, mr_free := free\<rparr>);
         Some (remove_nth idx regs1, Some nxt) } }"

text \<open>Every iteration that goes on removes a region, so the loop ends.\<close>

lemma merge_step_cases:
  assumes "merge_step regs m = Some (regs', nxt)"
  obtains (stop) "m < length regs" "merge_scan regs 0 (mr_base (regs ! m)) (mr_size (regs ! m)) = Some None"
      "regs' = regs" "nxt = None"
  | (left) idx j where "m < length regs" "idx < length regs"
      "merge_scan regs 0 (mr_base (regs ! m)) (mr_size (regs ! m)) = Some (Some (idx, True))"
      "regs' = remove_nth m (regs[idx := (regs ! idx)\<lparr>mr_size := mr_size (regs ! idx) + mr_size (regs ! m),
         mr_free := mr_free (regs ! idx) + mr_size (regs ! m)\<rparr>])"
      "nxt = Some j" "if idx < m then j = idx else 1 \<le> idx \<and> j = idx - 1"
  | (right) idx j where "m < length regs" "idx < length regs"
      "merge_scan regs 0 (mr_base (regs ! m)) (mr_size (regs ! m)) = Some (Some (idx, False))"
      "regs' = remove_nth idx (regs[m := (regs ! m)\<lparr>mr_size := mr_size (regs ! m) + mr_size (regs ! idx),
         mr_free := mr_free (regs ! m) + mr_size (regs ! idx)\<rparr>])"
      "nxt = Some j" "if m < idx then j = m else 1 \<le> m \<and> j = m - 1"
proof -
  from assms obtain hit where m: "m < length regs"
    and hit: "merge_scan regs 0 (mr_base (regs ! m)) (mr_size (regs ! m)) = Some hit"
    by (auto simp: merge_step_def panic_simps)
  show ?thesis
  proof (cases hit)
    case None
    with assms m hit show ?thesis by (intro stop) (auto simp: merge_step_def)
  next
    case (Some x)
    obtain idx l where x: "x = (idx, l)" by (cases x)
    show ?thesis
    proof (cases l)
      case True
      with assms m hit Some x have "idx < length regs"
        "regs' = remove_nth m (regs[idx := (regs ! idx)\<lparr>mr_size := mr_size (regs ! idx) + mr_size (regs ! m),
         mr_free := mr_free (regs ! idx) + mr_size (regs ! m)\<rparr>])"
        "\<exists>j. nxt = Some j \<and> (if idx < m then j = idx else 1 \<le> idx \<and> j = idx - 1)"
        by (auto simp: merge_step_def panic_simps split: if_split_asm)
      then show ?thesis using left[OF m, of idx] hit Some x True by force
    next
      case False
      with assms m hit Some x have "idx < length regs"
        "regs' = remove_nth idx (regs[m := (regs ! m)\<lparr>mr_size := mr_size (regs ! m) + mr_size (regs ! idx),
         mr_free := mr_free (regs ! m) + mr_size (regs ! idx)\<rparr>])"
        "\<exists>j. nxt = Some j \<and> (if m < idx then j = m else 1 \<le> m \<and> j = m - 1)"
        by (auto simp: merge_step_def panic_simps split: if_split_asm)
      then show ?thesis using right[OF m, of idx] hit Some x False by force
    qed
  qed
qed

lemma merge_step_shrinks: "merge_step regs i = Some (regs', Some j) \<Longrightarrow> length regs' < length regs"
  by (erule merge_step_cases) (simp_all add: length_remove_nth)

function merge_loop :: "VmRegion \<Rightarrow> nat \<Rightarrow> VmRegion option" where
  "merge_loop regs merge_idx = do {
     (regs', nxt) \<leftarrow> merge_step regs merge_idx;
     case nxt of None \<Rightarrow> Some regs' | Some j \<Rightarrow> merge_loop regs' j }"
  by pat_completeness auto
termination
  by (relation "measure (\<lambda>(regs, i). length regs)") (auto dest: merge_step_shrinks)

declare merge_loop.simps [simp del]

definition mem_vm_region_free :: "VmRegion \<Rightarrow> usize \<Rightarrow> usize \<Rightarrow> VmRegion option" where
  "mem_vm_region_free regs start sz = do {
     regs' \<leftarrow>
       (case find_allocated regs 0 start of
          None \<Rightarrow> Some regs
        | Some idx \<Rightarrow> do {
            r \<leftarrow> vec_get regs idx;
            free \<leftarrow> uadd (mr_free r) (sz div PAGE_SIZE);
            regs1 \<leftarrow> vec_set regs idx (r\<lparr>mr_free := free\<rparr>);
            merge_loop regs1 idx });
     _ \<leftarrow> uadd start sz;
     Some regs' }"

section \<open>Well-formed region lists\<close>

definition span :: "MemRegion \<Rightarrow> nat set" where
  "span r = {mr_base r..<mr_base r + mr_size r * PAGE_SIZE}"

definition region_ok :: "MemRegion \<Rightarrow> bool" where
  "region_ok r \<longleftrightarrow> 0 < mr_size r \<and> (mr_free r = 0 \<or> mr_free r = mr_size r) \<and>
     mr_base r + mr_size r * PAGE_SIZE < usize_bound"

definition vm_regions_wf :: "VmRegion \<Rightarrow> bool" where
  "vm_regions_wf regs \<longleftrightarrow> distinct regs \<and> (\<forall>r \<in> set regs. region_ok r) \<and>
     (\<forall>r \<in> set regs. \<forall>q \<in> set regs. r \<noteq> q \<longrightarrow> span r \<inter> span q = {})"

definition free_area :: "VmRegion \<Rightarrow> nat set" where
  "free_area regs = (\<Union>r \<in> {r \<in> set regs. mr_free r \<noteq> 0}. span r)"

definition used_area :: "VmRegion \<Rightarrow> nat set" where
  "used_area regs = (\<Union>r \<in> {r \<in> set regs. mr_free r = 0}. span r)"

definition adjacent :: "MemRegion \<Rightarrow> MemRegion \<Rightarrow> bool" where
  "adjacent r q \<longleftrightarrow> mr_base r + mr_size r * PAGE_SIZE = mr_base q"

text \<open>No two free regions touch: everything that can be merged is merged.\<close>

definition coalesced :: "VmRegion \<Rightarrow> bool" where
  "coalesced regs \<longleftrightarrow> (\<forall>r \<in> set regs. \<forall>q \<in> set regs. mr_free r \<noteq> 0 \<longrightarrow> mr_free q \<noteq> 0 \<longrightarrow> \<not> adjacent r q)"

lemma span_nonempty: "region_ok r \<Longrightarrow> mr_base r \<in> span r"
  by (simp add: span_def region_ok_def)

text \<open>
  Replacing the members \<open>A\<close> of a region set by regions \<open>B\<close> that tile the same addresses: both the
  split of a region by an allocation and the merge of two neighbours are instances.
\<close>

definition spans_disjoint :: "MemRegion set \<Rightarrow> bool" where
  "spans_disjoint S \<longleftrightarrow> (\<forall>r \<in> S. \<forall>q \<in> S. r \<noteq> q \<longrightarrow> span r \<inter> span q = {})"

lemma spans_disjointD:
  "spans_disjoint S \<Longrightarrow> r \<in> S \<Longrightarrow> q \<in> S \<Longrightarrow> x \<in> span r \<Longrightarrow> x \<in> span q \<Longrightarrow> r = q"
  unfolding spans_disjoint_def by blast

lemma vm_regions_wf_iff:
  "vm_regions_wf regs \<longleftrightarrow> distinct regs \<and> (\<forall>r \<in> set regs. region_ok r) \<and> spans_disjoint (set regs)"
  by (simp add: vm_regions_wf_def spans_disjoint_def)

lemma retile_disjoint:
  assumes S: "spans_disjoint S" and A: "A \<subseteq> S" and B: "spans_disjoint B"
    and cover: "(\<Union>b \<in> B. span b) = (\<Union>a \<in> A. span a)"
  shows "spans_disjoint ((S - A) \<union> B)"
proof -
  have cross: "span r \<inter> span b = {}" if r: "r \<in> S - A" and b: "b \<in> B" for r b
  proof (rule ccontr)
    assume "span r \<inter> span b \<noteq> {}"
    then obtain x where x: "x \<in> span r" "x \<in> span b" by blast
    then obtain a where "a \<in> A" "x \<in> span a" using cover b by blast
    with x r A have "r = a" using spans_disjointD[OF S] by blast
    with r \<open>a \<in> A\<close> show False by simp
  qed
  show ?thesis
    unfolding spans_disjoint_def
  proof (intro ballI impI)
    fix r q assume rq: "r \<in> (S - A) \<union> B" "q \<in> (S - A) \<union> B" "r \<noteq> q"
    consider "r \<in> S" "q \<in> S" | "r \<in> B" "q \<in> B" | "r \<in> S - A" "q \<in> B" | "q \<in> S - A" "r \<in> B"
      using rq by blast
    then show "span r \<inter> span q = {}"
      using rq(3) S B cross[of r q] cross[of q r] by cases (simp_all add: spans_disjoint_def Int_commute)
  qed
qed

lemma retile_area:
  assumes S: "spans_disjoint S" and A: "A \<subseteq> S" and T: "T = (S - A) \<union> B"
  shows "(\<Union>r \<in> {r \<in> T. P r}. span r) =
    ((\<Union>r \<in> {r \<in> S. P r}. span r) - (\<Union>a \<in> A. span a)) \<union> (\<Union>r \<in> {r \<in> B. P r}. span r)"
proof -
  have "(\<Union>r \<in> {r \<in> S - A. P r}. span r) = (\<Union>r \<in> {r \<in> S. P r}. span r) - (\<Union>a \<in> A. span a)"
    using spans_disjointD[OF S] A by blast
  then show ?thesis unfolding T by blast
qed

lemma used_free_disjoint: "vm_regions_wf regs \<Longrightarrow> used_area regs \<inter> free_area regs = {}"
proof (rule ccontr)
  assume wf: "vm_regions_wf regs" and "used_area regs \<inter> free_area regs \<noteq> {}"
  then obtain x r q where "r \<in> set regs" "mr_free r = 0" "x \<in> span r" "q \<in> set regs" "mr_free q \<noteq> 0" "x \<in> span q"
    by (auto simp: used_area_def free_area_def)
  moreover from this have "r \<noteq> q" by auto
  ultimately show False using wf unfolding vm_regions_wf_def by blast
qed

subsection \<open>Allocation\<close>

lemma alloc_loop_skip:
  assumes "\<forall>j < i. j < length regs \<longrightarrow> mr_free (regs ! j) < sz div PAGE_SIZE" and "i \<le> length regs"
  shows "mem_vm_region_alloc_loop regs 0 sz = mem_vm_region_alloc_loop regs i sz"
  using assms
proof (induction i)
  case (Suc i)
  then have "mem_vm_region_alloc_loop regs i sz = mem_vm_region_alloc_loop regs (i + 1) sz"
    by (subst mem_vm_region_alloc_loop.simps) auto
  with Suc show ?case by simp
qed simp

text \<open>The list after region \<open>r\<close> at position \<open>i\<close> gives its first \<open>n\<close> pages away.\<close>

definition split_region :: "VmRegion \<Rightarrow> nat \<Rightarrow> nat \<Rightarrow> VmRegion" where
  "split_region regs i n =
     (let r = regs ! i in
      regs[i := r\<lparr>mr_size := n, mr_free := 0\<rparr>] @
      (if n < mr_size r
       then [\<lparr>mr_base = mr_base r + n * PAGE_SIZE, mr_size = mr_size r - n, mr_free = mr_size r - n, mr_last = 0\<rparr>]
       else []))"

lemma alloc_loop_hit:
  assumes "i < length regs" and "n \<le> mr_free (regs ! i)" and "region_ok (regs ! i)" and "0 < n"
    and sz: "sz = n * PAGE_SIZE"
  shows "mem_vm_region_alloc_loop regs i sz = Some (mr_base (regs ! i), split_region regs i n)"
proof -
  have n: "sz div PAGE_SIZE = n" by (simp add: sz)
  have fr: "mr_free (regs ! i) = mr_size (regs ! i)" using assms(2-4) by (auto simp: region_ok_def)
  have "n * PAGE_SIZE \<le> mr_size (regs ! i) * PAGE_SIZE" using assms(2) fr by simp
  then have "mr_base (regs ! i) + sz < usize_bound" using assms(3) unfolding region_ok_def sz by linarith
  moreover have "mr_size (regs ! i) = n" if "\<not> n < mr_size (regs ! i)" using that assms(2) fr by simp
  then have "(regs ! i)\<lparr>mr_free := 0\<rparr> = (regs ! i)\<lparr>mr_size := n, mr_free := 0\<rparr>" if "\<not> n < mr_size (regs ! i)"
    using that by (cases "regs ! i") simp
  ultimately show ?thesis
    using assms(1,2) n by (subst mem_vm_region_alloc_loop.simps)
      (auto simp: Let_def VmRegion_push_def nth_append list_update_append split_region_def sz)
qed

lemma span_split:
  assumes "n \<le> mr_size r"
  shows "span r = {mr_base r..<mr_base r + n * PAGE_SIZE} \<union> {mr_base r + n * PAGE_SIZE..<mr_base r + mr_size r * PAGE_SIZE}"
  using ivl_disj_un_two(3)[of "mr_base r" "mr_base r + n * PAGE_SIZE" "mr_base r + mr_size r * PAGE_SIZE"]
    mult_le_mono1[OF assms, of PAGE_SIZE] by (simp add: span_def)

lemma split_region_wf:
  assumes wf: "vm_regions_wf regs" and i: "i < length regs" and n: "0 < n" "n \<le> mr_free (regs ! i)"
  defines "r \<equiv> regs ! i"
  shows "vm_regions_wf (split_region regs i n)"
    and "span r \<subseteq> free_area regs"
    and "used_area (split_region regs i n) = used_area regs \<union> {mr_base r..<mr_base r + n * PAGE_SIZE}"
    and "free_area (split_region regs i n) = free_area regs - {mr_base r..<mr_base r + n * PAGE_SIZE}"
    and "coalesced regs \<Longrightarrow> coalesced (split_region regs i n)"
proof -
  define a where "a = r\<lparr>mr_size := n, mr_free := 0\<rparr>"
  define b where "b = \<lparr>mr_base = mr_base r + n * PAGE_SIZE, mr_size = mr_size r - n, mr_free = mr_size r - n, mr_last = 0\<rparr>"
  define B where "B = insert a (if n < mr_size r then {b} else {})"
  have d: "distinct regs" and ok: "region_ok r" and r: "{r} \<subseteq> set regs" and S: "spans_disjoint (set regs)"
    and oks: "\<And>q. q \<in> set regs \<Longrightarrow> region_ok q"
    using wf i by (auto simp: vm_regions_wf_iff r_def)
  have fr: "mr_free r = mr_size r" "n \<le> mr_size r" using ok n by (auto simp: region_ok_def r_def)
  then have le: "n * PAGE_SIZE \<le> mr_size r * PAGE_SIZE" by simp
  have fab: "mr_free a = 0" "mr_free b = mr_size r - n" by (simp_all add: a_def b_def)
  have spa: "span a = {mr_base r..<mr_base r + n * PAGE_SIZE}" by (simp add: span_def a_def)
  have spb: "span b = {mr_base r + n * PAGE_SIZE..<mr_base r + mr_size r * PAGE_SIZE}"
    using le by (simp add: span_def diff_mult_distrib b_def)
  have spr: "span r = span a \<union> span b" "span a \<inter> span b = {}" using span_split[OF fr(2)] spa spb by auto
  have full: "span b = {}" if "\<not> n < mr_size r" using that fr(2) spb by simp
  have cover: "(\<Union>b \<in> B. span b) = (\<Union>a \<in> {r}. span a)" using spr full by (simp add: B_def)
  have B: "spans_disjoint B" unfolding spans_disjoint_def B_def using spr by auto
  have "mr_base r + n * PAGE_SIZE < usize_bound" using ok le unfolding region_ok_def by linarith
  then have oka: "region_ok a" using n(1) by (simp add: region_ok_def a_def)
  have okb: "region_ok b" if "n < mr_size r"
    using that ok add_diff_inverse_nat[of "n * PAGE_SIZE" "mr_size r * PAGE_SIZE"] le
    by (simp add: region_ok_def diff_mult_distrib b_def)
  have set: "set (split_region regs i n) = (set regs - {r}) \<union> B"
    using set_update_distinct[OF d i] by (auto simp: split_region_def Let_def r_def B_def a_def b_def)
  have out: "B \<inter> (set regs - {r}) = {}"
  proof (rule ccontr)
    assume "B \<inter> (set regs - {r}) \<noteq> {}"
    then obtain q where q: "q \<in> B" "q \<in> set regs" "q \<noteq> r" by blast
    then have "mr_base q \<in> span q" using oks span_nonempty by blast
    moreover from this q(1) cover have "mr_base q \<in> span r" by blast
    ultimately show False using spans_disjointD[OF S] q r by blast
  qed
  have na: "a \<noteq> b" using n(1) PAGE_SIZE_pos by (auto simp: a_def b_def dest!: arg_cong[of _ _ mr_base])
  show sub: "span r \<subseteq> free_area regs" using r fr n ok by (auto simp: free_area_def region_ok_def)
  have "split_region regs i n = regs[i := a] @ (if n < mr_size r then [b] else [])"
    by (simp add: split_region_def Let_def r_def a_def b_def)
  then have "distinct (split_region regs i n)"
    using d out na i by (auto simp: B_def r_def distinct_list_update set_update_distinct)
  then show "vm_regions_wf (split_region regs i n)"
    unfolding vm_regions_wf_iff set using retile_disjoint[OF S r B cover] oka okb oks by (auto simp: B_def)
  have Ba: "(\<Union>q \<in> {q \<in> B. mr_free q = 0}. span q) = span a" using fab by (auto simp: B_def)
  have Bf: "(\<Union>q \<in> {q \<in> B. mr_free q \<noteq> 0}. span q) = span b" using fab full by (auto simp: B_def)
  have "used_area (split_region regs i n) = (used_area regs - span r) \<union> span a"
    using retile_area[OF S r set, of "\<lambda>q. mr_free q = 0"] unfolding used_area_def Ba by simp
  then show "used_area (split_region regs i n) = used_area regs \<union> {mr_base r..<mr_base r + n * PAGE_SIZE}"
    unfolding spa[symmetric] using used_free_disjoint[OF wf] sub by blast
  have "free_area (split_region regs i n) = (free_area regs - span r) \<union> span b"
    using retile_area[OF S r set, of "\<lambda>q. mr_free q \<noteq> 0"] unfolding free_area_def Bf by simp
  then show "free_area (split_region regs i n) = free_area regs - {mr_base r..<mr_base r + n * PAGE_SIZE}"
    unfolding spa[symmetric] using sub spr by blast
  have mem: "x \<in> set regs - {r} \<or> x = b \<and> n < mr_size r" if "x \<in> set (split_region regs i n)" "mr_free x \<noteq> 0" for x
    using that fab(1) unfolding set B_def by (cases "n < mr_size r") auto
  show "coalesced (split_region regs i n)" if co: "coalesced regs"
    unfolding coalesced_def
  proof (intro ballI impI)
    fix p q assume "p \<in> set (split_region regs i n)" "q \<in> set (split_region regs i n)" "mr_free p \<noteq> 0" "mr_free q \<noteq> 0"
    then have pq: "p \<in> set regs - {r} \<or> p = b \<and> n < mr_size r" "q \<in> set regs - {r} \<or> q = b \<and> n < mr_size r"
      "mr_free p \<noteq> 0" "mr_free q \<noteq> 0" using mem by blast+
    have "adjacent b q = adjacent r q" for q using le by (simp add: adjacent_def diff_mult_distrib b_def)
    moreover have "\<not> adjacent p b" if p: "p \<in> set regs - {r}" for p
    proof
      assume "adjacent p b"
      then have e: "mr_base p + mr_size p * PAGE_SIZE = mr_base r + n * PAGE_SIZE" by (simp add: adjacent_def b_def)
      have "0 < mr_size p * PAGE_SIZE" "0 < n * PAGE_SIZE" using oks[of p] p n(1) by (simp_all add: region_ok_def)
      with e have "mr_base p \<in> span a \<or> mr_base r \<in> span p"
        unfolding spa span_def[of p] atLeastLessThan_iff by linarith
      then show False using spans_disjointD[OF S] p r spr span_nonempty[OF ok] span_nonempty[OF oks, of p] by blast
    qed
    moreover have "\<not> adjacent b b" if "n < mr_size r" using that by (simp add: adjacent_def b_def)
    ultimately show "\<not> adjacent p q"
      using pq co r fr n unfolding coalesced_def by auto
  qed
qed

subsection \<open>Merging\<close>

lemma merge_scan_total:
  assumes "\<forall>r \<in> set rs. region_ok r" and "base + sz * PAGE_SIZE < usize_bound"
  shows "\<exists>hit. merge_scan rs k base sz = Some hit \<and>
    (case hit of
       None \<Rightarrow> \<forall>r \<in> set rs. mr_free r \<noteq> 0 \<longrightarrow>
         base \<noteq> mr_base r + mr_size r * PAGE_SIZE \<and> base + sz * PAGE_SIZE \<noteq> mr_base r
     | Some (idx, l) \<Rightarrow> k \<le> idx \<and> idx < k + length rs \<and> mr_free (rs ! (idx - k)) \<noteq> 0 \<and>
         (if l then base = mr_base (rs ! (idx - k)) + mr_size (rs ! (idx - k)) * PAGE_SIZE
          else base + sz * PAGE_SIZE = mr_base (rs ! (idx - k))))"
  using assms
proof (induction rs arbitrary: k)
  case (Cons r rs)
  then obtain hit where hit: "merge_scan rs (k + 1) base sz = Some hit" and
    P: "case hit of
       None \<Rightarrow> \<forall>r \<in> set rs. mr_free r \<noteq> 0 \<longrightarrow>
         base \<noteq> mr_base r + mr_size r * PAGE_SIZE \<and> base + sz * PAGE_SIZE \<noteq> mr_base r
     | Some (idx, l) \<Rightarrow> k + 1 \<le> idx \<and> idx < k + 1 + length rs \<and> mr_free (rs ! (idx - (k + 1))) \<noteq> 0 \<and>
         (if l then base = mr_base (rs ! (idx - (k + 1))) + mr_size (rs ! (idx - (k + 1))) * PAGE_SIZE
          else base + sz * PAGE_SIZE = mr_base (rs ! (idx - (k + 1))))" by fastforce
  have b: "mr_base r + mr_size r * PAGE_SIZE < usize_bound" using Cons.prems by (simp add: region_ok_def)
  then have ok: "umul (mr_size r) PAGE_SIZE = Some (mr_size r * PAGE_SIZE)"
    "uadd (mr_base r) (mr_size r * PAGE_SIZE) = Some (mr_base r + mr_size r * PAGE_SIZE)"
    "umul sz PAGE_SIZE = Some (sz * PAGE_SIZE)" "uadd base (sz * PAGE_SIZE) = Some (base + sz * PAGE_SIZE)"
    using Cons.prems(2) by simp_all
  have shift: "(r # rs) ! (idx - k) = rs ! (idx - (k + 1))" if "k + 1 \<le> idx" for idx
    using that by (simp add: nth_Cons')
  have tail: "case hit of
       None \<Rightarrow> True
     | Some (idx, l) \<Rightarrow> k \<le> idx \<and> idx < k + length (r # rs) \<and> mr_free ((r # rs) ! (idx - k)) \<noteq> 0 \<and>
         (if l then base = mr_base ((r # rs) ! (idx - k)) + mr_size ((r # rs) ! (idx - k)) * PAGE_SIZE
          else base + sz * PAGE_SIZE = mr_base ((r # rs) ! (idx - k)))"
    using P shift by (auto split: option.splits)
  show ?case
  proof (cases "mr_free r \<noteq> 0 \<and> (base = mr_base r + mr_size r * PAGE_SIZE \<or> base + sz * PAGE_SIZE = mr_base r)")
    case True
    then show ?thesis using ok by auto
  next
    case False
    then have "merge_scan (r # rs) k base sz = Some hit" using ok hit by auto
    then show ?thesis using False P tail by (cases hit) auto
  qed
qed simp

text \<open>The merge of a free region \<open>i\<close> with the free region \<open>j\<close> that starts where it ends.\<close>

definition merge_pair :: "VmRegion \<Rightarrow> nat \<Rightarrow> nat \<Rightarrow> VmRegion" where
  "merge_pair regs i j = remove_nth j (regs[i := (regs ! i)\<lparr>mr_size := mr_size (regs ! i) + mr_size (regs ! j),
     mr_free := mr_free (regs ! i) + mr_size (regs ! j)\<rparr>])"

lemma remove_nth_update:
  assumes "i < length xs" "j < length xs" "i \<noteq> j"
  shows "remove_nth j (xs[i := z]) ! (if i < j then i else i - 1) = z"
    and "distinct xs \<Longrightarrow> set (remove_nth j (xs[i := z])) = insert z (set xs - {xs ! i, xs ! j})"
    and "distinct xs \<Longrightarrow> z \<notin> set xs - {xs ! i} \<Longrightarrow> distinct (remove_nth j (xs[i := z]))"
proof -
  show "remove_nth j (xs[i := z]) ! (if i < j then i else i - 1) = z"
    using assms by (auto simp: remove_nth_def nth_append min_def)
  assume d: "distinct xs"
  have "remove_nth j (xs[i := z]) = (if i < j then (remove_nth j xs)[i := z] else (remove_nth j xs)[i - 1 := z])"
    using assms by (auto simp: remove_nth_def take_update_swap drop_update_swap list_update_append min_def
      list_update_beyond drop_update_cancel take_update_cancel)
  moreover have "remove_nth j xs ! (if i < j then i else i - 1) = xs ! i"
    using assms by (auto simp: remove_nth_def nth_append min_def)
  moreover have "(if i < j then i else i - 1) < length (remove_nth j xs)"
    using assms by (auto simp: length_remove_nth)
  ultimately show "set (remove_nth j (xs[i := z])) = insert z (set xs - {xs ! i, xs ! j})"
    using d assms set_update_distinct[OF distinct_remove_nth[OF d, of j]] set_remove_nth_distinct[OF d assms(2)]
    by (auto split: if_splits)
  show "distinct (remove_nth j (xs[i := z]))" if "z \<notin> set xs - {xs ! i}"
    using that d by (intro distinct_remove_nth distinct_list_update)
qed

lemma merge_pair_wf:
  assumes wf: "vm_regions_wf regs" and i: "i < length regs" and j: "j < length regs"
    and free: "mr_free (regs ! i) \<noteq> 0" "mr_free (regs ! j) \<noteq> 0" and adj: "adjacent (regs ! i) (regs ! j)"
  shows "i \<noteq> j" and "vm_regions_wf (merge_pair regs i j)"
    and "used_area (merge_pair regs i j) = used_area regs"
    and "free_area (merge_pair regs i j) = free_area regs"
    and "set (merge_pair regs i j) - {merge_pair regs i j ! (if i < j then i else i - 1)} \<subseteq> set regs - {regs ! i, regs ! j}"
    and "mr_free (merge_pair regs i j ! (if i < j then i else i - 1)) \<noteq> 0"
proof -
  define p q where "p = regs ! i" and "q = regs ! j"
  define z where "z = p\<lparr>mr_size := mr_size p + mr_size q, mr_free := mr_free p + mr_size q\<rparr>"
  have d: "distinct regs" and okp: "region_ok p" and okq: "region_ok q" and pq: "{p, q} \<subseteq> set regs"
    and S: "spans_disjoint (set regs)" and oks: "\<And>r. r \<in> set regs \<Longrightarrow> region_ok r"
    using wf i j by (auto simp: vm_regions_wf_iff p_def q_def)
  show ij: "i \<noteq> j" using adj okp by (auto simp: adjacent_def region_ok_def p_def)
  have base: "mr_base q = mr_base p + mr_size p * PAGE_SIZE" using adj by (simp add: adjacent_def p_def q_def)
  have fr: "mr_free p = mr_size p" "mr_free q = mr_size q"
    using okp okq free by (auto simp: region_ok_def p_def q_def)
  have spz: "span z = span p \<union> span q"
    using base by (auto simp: span_def z_def distrib_right)
  have okz: "region_ok z" using okp okq base fr by (auto simp: region_ok_def z_def distrib_right)
  have eq: "merge_pair regs i j = remove_nth j (regs[i := z])" by (simp add: merge_pair_def z_def p_def q_def)
  have set: "set (merge_pair regs i j) = (set regs - {p, q}) \<union> {z}"
    using remove_nth_update(2)[OF i j ij d] by (auto simp: eq p_def q_def)
  have notin: "z \<notin> set regs - {p}"
  proof
    assume "z \<in> set regs - {p}"
    moreover from this have "mr_base p \<in> span z" using spz span_nonempty[OF okp] by blast
    ultimately show False using spans_disjointD[OF S] pq span_nonempty[OF okp] by blast
  qed
  have B: "spans_disjoint {z}" by (simp add: spans_disjoint_def)
  have cover: "(\<Union>b \<in> {z}. span b) = (\<Union>a \<in> {p, q}. span a)" using spz by simp
  have dis: "distinct (merge_pair regs i j)"
    using remove_nth_update(3)[OF i j ij d] notin by (simp add: eq p_def)
  show "vm_regions_wf (merge_pair regs i j)"
    unfolding vm_regions_wf_iff set using dis retile_disjoint[OF S pq B cover] okz oks by (simp add: set)
  have z: "mr_free z \<noteq> 0" using free by (simp add: z_def p_def)
  have sub: "span p \<union> span q \<subseteq> free_area regs" using pq free by (auto simp: free_area_def p_def q_def)
  have "used_area (merge_pair regs i j) = used_area regs - (span p \<union> span q)"
    using retile_area[OF S pq set, of "\<lambda>r. mr_free r = 0"] z by (simp add: used_area_def conj_commute cong: conj_cong)
  then show "used_area (merge_pair regs i j) = used_area regs" using sub used_free_disjoint[OF wf] by blast
  have "free_area (merge_pair regs i j) = (free_area regs - (span p \<union> span q)) \<union> span z"
    using retile_area[OF S pq set, of "\<lambda>r. mr_free r \<noteq> 0"] z by (simp add: free_area_def cong: conj_cong)
  then show "free_area (merge_pair regs i j) = free_area regs" using sub spz by blast
  have at: "merge_pair regs i j ! (if i < j then i else i - 1) = z"
    using remove_nth_update(1)[OF i j ij] by (simp add: eq)
  show "set (merge_pair regs i j) - {merge_pair regs i j ! (if i < j then i else i - 1)} \<subseteq> set regs - {regs ! i, regs ! j}"
    unfolding at set p_def q_def by blast
  show "mr_free (merge_pair regs i j ! (if i < j then i else i - 1)) \<noteq> 0" unfolding at by (rule z)
qed

text \<open>What the merge loop keeps: only the region it works on may touch a free neighbour.\<close>

definition coalesced_except :: "VmRegion \<Rightarrow> nat \<Rightarrow> bool" where
  "coalesced_except regs m \<longleftrightarrow> (\<forall>r \<in> set regs - {regs ! m}. \<forall>q \<in> set regs - {regs ! m}.
     mr_free r \<noteq> 0 \<longrightarrow> mr_free q \<noteq> 0 \<longrightarrow> \<not> adjacent r q)"

lemma merge_step_total:
  assumes wf: "vm_regions_wf regs" and m: "m < length regs" and free: "mr_free (regs ! m) \<noteq> 0"
    and co: "coalesced_except regs m"
  shows "merge_step regs m = Some (regs, None) \<and> coalesced regs \<or>
    (\<exists>regs' k. merge_step regs m = Some (regs', Some k) \<and> vm_regions_wf regs' \<and> k < length regs' \<and>
      mr_free (regs' ! k) \<noteq> 0 \<and> coalesced_except regs' k \<and>
      used_area regs' = used_area regs \<and> free_area regs' = free_area regs)"
proof -
  define cur where "cur = regs ! m"
  have oks: "\<forall>r \<in> set regs. region_ok r" and okm: "region_ok cur" using wf m by (auto simp: vm_regions_wf_def cur_def)
  have pair: "vm_regions_wf (merge_pair regs i j) \<and> (if i < j then i else i - 1) < length (merge_pair regs i j) \<and>
      mr_free (merge_pair regs i j ! (if i < j then i else i - 1)) \<noteq> 0 \<and>
      coalesced_except (merge_pair regs i j) (if i < j then i else i - 1) \<and>
      used_area (merge_pair regs i j) = used_area regs \<and> free_area (merge_pair regs i j) = free_area regs"
    if "i < length regs" "j < length regs" "mr_free (regs ! i) \<noteq> 0" "mr_free (regs ! j) \<noteq> 0"
      "adjacent (regs ! i) (regs ! j)" "m = i \<or> m = j" for i j
  proof -
    note mp = merge_pair_wf[OF wf that(1-5)]
    have "coalesced_except (merge_pair regs i j) (if i < j then i else i - 1)"
      using mp(5) that(6) co unfolding coalesced_except_def by blast
    moreover have "(if i < j then i else i - 1) < length (merge_pair regs i j)"
      using that(1,2) mp(1) by (auto simp: merge_pair_def length_remove_nth)
    ultimately show ?thesis using mp(2-4,6) by blast
  qed
  have sum: "mr_size (regs ! i) + mr_size (regs ! j) < usize_bound" "mr_free (regs ! i) + mr_size (regs ! j) < usize_bound"
    if "i < length regs" "j < length regs" "adjacent (regs ! i) (regs ! j)" for i j
  proof -
    have "region_ok (regs ! i)" "region_ok (regs ! j)" using oks that by simp_all
    moreover have "x \<le> x * PAGE_SIZE" for x by (simp add: PAGE_SIZE_def)
    from this[of "mr_size (regs ! i)"] this[of "mr_size (regs ! j)"]
    have "mr_size (regs ! i) + mr_size (regs ! j) \<le> mr_size (regs ! i) * PAGE_SIZE + mr_size (regs ! j) * PAGE_SIZE"
      by (rule add_mono)
    ultimately show "mr_size (regs ! i) + mr_size (regs ! j) < usize_bound"
      "mr_free (regs ! i) + mr_size (regs ! j) < usize_bound"
      using that(3) unfolding region_ok_def adjacent_def by linarith+
  qed
  have bound: "mr_base cur + mr_size cur * PAGE_SIZE < usize_bound" using okm by (simp add: region_ok_def)
  obtain hit where hit: "merge_scan regs 0 (mr_base cur) (mr_size cur) = Some hit" and hit2: "case hit of
       None \<Rightarrow> \<forall>r \<in> set regs. mr_free r \<noteq> 0 \<longrightarrow>
         mr_base cur \<noteq> mr_base r + mr_size r * PAGE_SIZE \<and> mr_base cur + mr_size cur * PAGE_SIZE \<noteq> mr_base r
     | Some (idx, l) \<Rightarrow> 0 \<le> idx \<and> idx < 0 + length regs \<and> mr_free (regs ! (idx - 0)) \<noteq> 0 \<and>
         (if l then mr_base cur = mr_base (regs ! (idx - 0)) + mr_size (regs ! (idx - 0)) * PAGE_SIZE
          else mr_base cur + mr_size cur * PAGE_SIZE = mr_base (regs ! (idx - 0)))"
    using merge_scan_total[OF oks bound, of 0] by blast
  have P: "case hit of
       None \<Rightarrow> \<forall>r \<in> set regs. mr_free r \<noteq> 0 \<longrightarrow> \<not> adjacent r cur \<and> \<not> adjacent cur r
     | Some (idx, l) \<Rightarrow> idx < length regs \<and> mr_free (regs ! idx) \<noteq> 0 \<and>
         (if l then adjacent (regs ! idx) cur else adjacent cur (regs ! idx))"
    using hit2 by (cases hit) (auto simp: adjacent_def split: if_splits)
  show ?thesis
  proof (cases hit)
    case None
    have "merge_step regs m = Some (regs, None)" using hit None m by (simp add: merge_step_def cur_def)
    moreover have "coalesced regs"
      using P None co unfolding coalesced_def coalesced_except_def cur_def by auto
    ultimately show ?thesis by simp
  next
    case (Some x)
    obtain idx l where x: "x = (idx, l)" by (cases x)
    show ?thesis
    proof (cases l)
      case True
      with P Some x have idx: "idx < length regs" "mr_free (regs ! idx) \<noteq> 0" "adjacent (regs ! idx) (regs ! m)"
        by (simp_all add: cur_def)
      have "merge_step regs m = Some (merge_pair regs idx m, Some (if idx < m then idx else idx - 1))"
        using hit Some x True m idx sum[OF idx(1) m idx(3)] merge_pair_wf(1)[OF wf idx(1) m idx(2) free idx(3)]
        by (simp add: merge_step_def cur_def merge_pair_def)
      then show ?thesis using pair[OF idx(1) m idx(2) free idx(3)] by blast
    next
      case False
      with P Some x have idx: "idx < length regs" "mr_free (regs ! idx) \<noteq> 0" "adjacent (regs ! m) (regs ! idx)"
        by (simp_all add: cur_def)
      have "merge_step regs m = Some (merge_pair regs m idx, Some (if m < idx then m else m - 1))"
        using hit Some x False m idx sum[OF m idx(1) idx(3)] merge_pair_wf(1)[OF wf m idx(1) free idx(2) idx(3)]
        by (simp add: merge_step_def cur_def merge_pair_def)
      then show ?thesis using pair[OF m idx(1) free idx(2) idx(3)] by blast
    qed
  qed
qed

lemma merge_loop_total:
  assumes "vm_regions_wf regs" and "m < length regs" and "mr_free (regs ! m) \<noteq> 0" and "coalesced_except regs m"
  shows "\<exists>regs'. merge_loop regs m = Some regs' \<and> vm_regions_wf regs' \<and> coalesced regs' \<and>
    used_area regs' = used_area regs \<and> free_area regs' = free_area regs"
  using assms
proof (induction regs m rule: merge_loop.induct)
  case (1 regs m)
  from merge_step_total[OF "1.prems"] show ?case
  proof
    assume "merge_step regs m = Some (regs, None) \<and> coalesced regs"
    then show ?thesis using "1.prems"(1) by (subst merge_loop.simps) simp
  next
    assume "\<exists>regs' k. merge_step regs m = Some (regs', Some k) \<and> vm_regions_wf regs' \<and> k < length regs' \<and>
      mr_free (regs' ! k) \<noteq> 0 \<and> coalesced_except regs' k \<and>
      used_area regs' = used_area regs \<and> free_area regs' = free_area regs"
    then obtain regs' k where st: "merge_step regs m = Some (regs', Some k)" and "vm_regions_wf regs'" "k < length regs'"
      "mr_free (regs' ! k) \<noteq> 0" "coalesced_except regs' k" and eq: "used_area regs' = used_area regs" "free_area regs' = free_area regs"
      by blast
    from "1.IH"[OF st refl refl this(2-5)] show ?thesis using st eq by (subst merge_loop.simps) simp
  qed
qed

subsection \<open>Freeing\<close>

lemma find_allocated_hit:
  assumes "distinct rs" and "i < length rs" and "mr_free (rs ! i) = 0"
    and "\<forall>r \<in> set rs. mr_base r = mr_base (rs ! i) \<longrightarrow> r = rs ! i"
  shows "find_allocated rs k (mr_base (rs ! i)) = Some (k + i)"
  using assms
proof (induction rs arbitrary: k i)
  case (Cons r rs)
  show ?case
  proof (cases i)
    case 0
    with Cons.prems show ?thesis by simp
  next
    case (Suc n)
    with Cons.prems have "rs ! n \<in> set rs" by simp
    with Suc Cons.prems have "mr_base r \<noteq> mr_base (rs ! n)" by auto
    with Suc Cons show ?thesis by simp
  qed
qed simp

lemma region_base_unique:
  assumes "vm_regions_wf regs" and "r \<in> set regs" and "q \<in> set regs" and "mr_base r = mr_base q"
  shows "r = q"
proof -
  have "region_ok r" "region_ok q" using assms by (auto simp: vm_regions_wf_def)
  then have "mr_base r \<in> span r" "mr_base r \<in> span q" using assms(4) span_nonempty by force+
  then show ?thesis using assms spans_disjointD[of "set regs"] by (auto simp: vm_regions_wf_iff)
qed

text \<open>The list right after \<open>free\<close> has been raised, before merging.\<close>

lemma release_wf:
  assumes wf: "vm_regions_wf regs" and i: "i < length regs" and used: "mr_free (regs ! i) = 0"
  defines "z \<equiv> (regs ! i)\<lparr>mr_free := mr_size (regs ! i)\<rparr>"
  shows "vm_regions_wf (regs[i := z])"
    and "used_area (regs[i := z]) = used_area regs - span (regs ! i)"
    and "free_area (regs[i := z]) = free_area regs \<union> span (regs ! i)"
    and "coalesced regs \<Longrightarrow> coalesced_except (regs[i := z]) i"
proof -
  define r where "r = regs ! i"
  have d: "distinct regs" and ok: "region_ok r" and r: "{r} \<subseteq> set regs" and S: "spans_disjoint (set regs)"
    and oks: "\<And>q. q \<in> set regs \<Longrightarrow> region_ok q"
    using wf i by (auto simp: vm_regions_wf_iff r_def)
  have spz: "span z = span r" by (simp add: z_def span_def r_def)
  have fz: "mr_free z \<noteq> 0" and okz: "region_ok z" using ok by (auto simp: z_def r_def region_ok_def)
  have set: "set (regs[i := z]) = (set regs - {r}) \<union> {z}" using set_update_distinct[OF d i] by (simp add: r_def)
  have base: "mr_base z = mr_base r" by (simp add: z_def r_def)
  have notin: "z \<notin> set regs"
    using region_base_unique[OF wf, of z r] base r fz used by (auto simp: r_def)
  have B: "spans_disjoint {z}" and cover: "(\<Union>b \<in> {z}. span b) = (\<Union>a \<in> {r}. span a)"
    using spz by (simp_all add: spans_disjoint_def)
  have "distinct (regs[i := z])" using d notin by (simp add: distinct_list_update)
  then show wf': "vm_regions_wf (regs[i := z])"
    unfolding vm_regions_wf_iff using retile_disjoint[OF S r B cover] okz oks by (simp add: set)
  have "used_area (regs[i := z]) = used_area regs - span r"
    using retile_area[OF S r set, of "\<lambda>q. mr_free q = 0"] fz by (simp add: used_area_def cong: conj_cong)
  then show "used_area (regs[i := z]) = used_area regs - span (regs ! i)" by (simp add: r_def)
  have "free_area (regs[i := z]) = (free_area regs - span r) \<union> span r"
    using retile_area[OF S r set, of "\<lambda>q. mr_free q \<noteq> 0"] fz spz by (simp add: free_area_def cong: conj_cong)
  then show "free_area (regs[i := z]) = free_area regs \<union> span (regs ! i)" by (auto simp: r_def)
  show "coalesced_except (regs[i := z]) i" if "coalesced regs"
    using that i unfolding coalesced_except_def coalesced_def set by auto
qed

section \<open>Properties\<close>

definition region_at :: "VmRegion \<Rightarrow> usize \<Rightarrow> nat \<Rightarrow> bool" where
  "region_at regs start n \<longleftrightarrow> (\<exists>r \<in> set regs. mr_base r = start \<and> mr_size r = n \<and> mr_free r = 0)"

lemma vm_region_alloc_spec:
  assumes wf: "vm_regions_wf regs" and n: "0 < n"
  shows "\<exists>start regs'. mem_vm_region_alloc regs (n * PAGE_SIZE) = Some (start, regs') \<and>
    (if \<exists>r \<in> set regs. n \<le> mr_free r
     then {start..<start + n * PAGE_SIZE} \<subseteq> free_area regs \<and> vm_regions_wf regs' \<and>
       used_area regs' = used_area regs \<union> {start..<start + n * PAGE_SIZE} \<and>
       free_area regs' = free_area regs - {start..<start + n * PAGE_SIZE} \<and>
       region_at regs' start n \<and> (coalesced regs \<longrightarrow> coalesced regs')
     else start = 0 \<and> regs' = regs)"
proof (cases "\<exists>r \<in> set regs. n \<le> mr_free r")
  case True
  then have "\<exists>i. i < length regs \<and> n \<le> mr_free (regs ! i)" by (auto simp: in_set_conv_nth)
  then obtain i where i: "i < length regs" "n \<le> mr_free (regs ! i)" and least: "\<forall>j < i. \<not> (j < length regs \<and> n \<le> mr_free (regs ! j))"
    using exists_least_iff[of "\<lambda>i. i < length regs \<and> n \<le> mr_free (regs ! i)"] by blast
  have ok: "region_ok (regs ! i)" using wf i by (simp add: vm_regions_wf_def)
  have "mem_vm_region_alloc regs (n * PAGE_SIZE) = mem_vm_region_alloc_loop regs i (n * PAGE_SIZE)"
    unfolding mem_vm_region_alloc_def using least i by (intro alloc_loop_skip) auto
  also have "\<dots> = Some (mr_base (regs ! i), split_region regs i n)" using i ok n by (intro alloc_loop_hit) auto
  finally have res: "mem_vm_region_alloc regs (n * PAGE_SIZE) = \<dots>" .
  have "n \<le> mr_size (regs ! i)" using ok i(2) n by (auto simp: region_ok_def)
  then have "{mr_base (regs ! i)..<mr_base (regs ! i) + n * PAGE_SIZE} \<subseteq> free_area regs"
    using split_region_wf(2)[OF wf i(1) n i(2)] span_split by blast
  moreover have "region_at (split_region regs i n) (mr_base (regs ! i)) n"
    using set_update_memI[OF i(1), of "(regs ! i)\<lparr>mr_size := n, mr_free := 0\<rparr>"]
    unfolding region_at_def split_region_def Let_def by (intro bexI[of _ "(regs ! i)\<lparr>mr_size := n, mr_free := 0\<rparr>"]) auto
  ultimately show ?thesis using split_region_wf[OF wf i(1) n i(2)] res True by auto
next
  case False
  then have "mem_vm_region_alloc regs (n * PAGE_SIZE) = mem_vm_region_alloc_loop regs (length regs) (n * PAGE_SIZE)"
    unfolding mem_vm_region_alloc_def by (intro alloc_loop_skip) (auto simp: not_le)
  then have "mem_vm_region_alloc regs (n * PAGE_SIZE) = Some (0, regs)"
    by (simp add: mem_vm_region_alloc_loop.simps[of regs "length regs"])
  with False show ?thesis by simp
qed

definition two_regions :: VmRegion where
  "two_regions = [\<lparr>mr_base = 0x10000, mr_size = 4, mr_free = 0, mr_last = 0\<rparr>,
                  \<lparr>mr_base = 0x20000, mr_size = 8, mr_free = 8, mr_last = 0\<rparr>]"

lemma two_regions_wf: "vm_regions_wf two_regions \<and> coalesced two_regions"
  by (simp add: two_regions_def vm_regions_wf_def region_ok_def span_def coalesced_def adjacent_def PAGE_SIZE_def)

text \<open>
  C4.  The allocator of guest memory.  On a well-formed list, a request for \<open>n > 0\<close> pages always
  returns.  When some free region has \<open>n\<close> pages the result is the base of a range that was free;
  that range, and only it, moves from the free to the used area, the list stays well formed, an
  allocated region of exactly \<open>n\<close> pages starts there, and a list with no two mergeable free
  regions keeps that.  Otherwise the result is 0 and nothing changes.
\<close>
theorem mem_vm_region_alloc_correct:
  assumes wf: "vm_regions_wf regs" and n: "0 < n"
  shows "\<exists>start regs'. mem_vm_region_alloc regs (n * PAGE_SIZE) = Some (start, regs') \<and>
    (if \<exists>r \<in> set regs. n \<le> mr_free r
     then {start..<start + n * PAGE_SIZE} \<subseteq> free_area regs \<and> vm_regions_wf regs' \<and>
       used_area regs' = used_area regs \<union> {start..<start + n * PAGE_SIZE} \<and>
       free_area regs' = free_area regs - {start..<start + n * PAGE_SIZE} \<and>
       region_at regs' start n \<and> (coalesced regs \<longrightarrow> coalesced regs')
     else start = 0 \<and> regs' = regs)"
  using vm_region_alloc_spec[OF assms] .

theorem mem_vm_region_alloc_correct_witness:
  "\<exists>start regs'. mem_vm_region_alloc two_regions (3 * PAGE_SIZE) = Some (start, regs') \<and>
    {start..<start + 3 * PAGE_SIZE} \<subseteq> free_area two_regions \<and> coalesced regs'"
proof -
  have "\<exists>r \<in> set two_regions. 3 \<le> mr_free r" by (simp add: two_regions_def)
  then show ?thesis
    using mem_vm_region_alloc_correct[of two_regions 3] two_regions_wf by auto
qed

lemma vm_region_free_spec:
  assumes wf: "vm_regions_wf regs" and at: "region_at regs start n" and co: "coalesced regs"
  shows "\<exists>regs'. mem_vm_region_free regs start (n * PAGE_SIZE) = Some regs' \<and>
    vm_regions_wf regs' \<and> coalesced regs' \<and>
    used_area regs' = used_area regs - {start..<start + n * PAGE_SIZE} \<and>
    free_area regs' = free_area regs \<union> {start..<start + n * PAGE_SIZE}"
proof -
  from at obtain i where i: "i < length regs" and r: "mr_base (regs ! i) = start" "mr_size (regs ! i) = n" "mr_free (regs ! i) = 0"
    by (auto simp: region_at_def in_set_conv_nth)
  have ok: "region_ok (regs ! i)" and d: "distinct regs" using wf i by (simp_all add: vm_regions_wf_def)
  have uniq: "\<forall>q \<in> set regs. mr_base q = mr_base (regs ! i) \<longrightarrow> q = regs ! i"
    using region_base_unique[OF wf] i nth_mem by blast
  have find: "find_allocated regs 0 start = Some i" using find_allocated_hit[OF d i r(3) uniq, of 0] r by simp
  let ?z = "(regs ! i)\<lparr>mr_free := mr_size (regs ! i)\<rparr>"
  note rel = release_wf[OF wf i r(3)]
  have "mr_free (regs[i := ?z] ! i) \<noteq> 0" using i ok by (simp add: region_ok_def)
  then obtain regs' where regs': "merge_loop (regs[i := ?z]) i = Some regs'" "vm_regions_wf regs'" "coalesced regs'"
    "used_area regs' = used_area regs - span (regs ! i)" "free_area regs' = free_area regs \<union> span (regs ! i)"
    using merge_loop_total[OF rel(1), of i] rel i co by auto
  have bound: "start + n * PAGE_SIZE < usize_bound" using ok r by (auto simp: region_ok_def)
  then have "uadd start (n * PAGE_SIZE) = Some (start + n * PAGE_SIZE)" by simp
  moreover have "n < usize_bound" using bound by (auto simp: PAGE_SIZE_def)
  ultimately have "mem_vm_region_free regs start (n * PAGE_SIZE) = Some regs'"
    using find i r regs'(1) by (simp add: mem_vm_region_free_def)
  then show ?thesis using regs' r by (auto simp: span_def)
qed

text \<open>
  C5.  Giving a guest's region back.  For an allocated region of \<open>n\<close> pages at \<open>start\<close>, freeing it
  with its size always returns: its addresses, and only they, move from the used to the free area
  and the list stays well formed.  If no two free regions were mergeable before, none are after:
  the loop merges until nothing is left to merge.
\<close>
theorem mem_vm_region_free_correct:
  assumes wf: "vm_regions_wf regs" and at: "region_at regs start n" and co: "coalesced regs"
  shows "\<exists>regs'. mem_vm_region_free regs start (n * PAGE_SIZE) = Some regs' \<and>
    vm_regions_wf regs' \<and> coalesced regs' \<and>
    used_area regs' = used_area regs - {start..<start + n * PAGE_SIZE} \<and>
    free_area regs' = free_area regs \<union> {start..<start + n * PAGE_SIZE}"
  using vm_region_free_spec[OF assms] .

theorem mem_vm_region_free_correct_witness:
  "\<exists>regs'. mem_vm_region_free two_regions 0x10000 (4 * PAGE_SIZE) = Some regs' \<and> coalesced regs'"
  using mem_vm_region_free_correct[of two_regions "0x10000" 4] two_regions_wf
  by (auto simp: region_at_def two_regions_def)

text \<open>
  A request below one page.  The code compares page counts after rounding down, so a request
  for fewer than \<open>PAGE_SIZE\<close> bytes is answered with the base of the first region of the list even
  when that region is already allocated to another guest.
\<close>
theorem mem_vm_region_alloc_small:
  assumes "regs \<noteq> []" and "sz < PAGE_SIZE" and "mr_base (regs ! 0) + sz < usize_bound"
  shows "\<exists>regs'. mem_vm_region_alloc regs sz = Some (mr_base (regs ! 0), regs')"
  using assms unfolding mem_vm_region_alloc_def
  by (subst mem_vm_region_alloc_loop.simps) (simp add: Let_def VmRegion_push_def nth_append)

theorem mem_vm_region_alloc_small_witness:
  "mr_free (two_regions ! 0) = 0 \<and> (\<exists>regs'. mem_vm_region_alloc two_regions 100 = Some (0x10000, regs'))"
  using mem_vm_region_alloc_small[of two_regions 100] by (simp add: two_regions_def PAGE_SIZE_def)

end
