(* ===== verification/PageTable.thy ===== *)
theory PageTable
  imports Heap
begin

text \<open>
  The three-level page tables of \<open>src/src/arch/aarch64/page_table.rs\<close>: entries, the walks and
  updates of \<open>PageTable\<close>, and the banked mapping of a CPU.

  Entries are 64-bit words, tables live in the physical memory of \<open>phys\<close>.  The functions that
  take or give back table frames have \<open>mem_page_alloc\<close> and the \<open>Drop\<close> of \<open>PageFrame\<close> as
  arguments \<open>alloc\<close> and \<open>free_frame\<close>: the locale \<open>page_source\<close> states what they promise and the page
  heap is shown to keep it.
\<close>

section \<open>Constants and entries\<close>

definition WORD_SIZE :: usize where "WORD_SIZE = 8"
definition PTE_PER_PAGE :: usize where "PTE_PER_PAGE = PAGE_SIZE div WORD_SIZE"
definition LVL1_SHIFT :: nat where "LVL1_SHIFT = 30"
definition LVL2_SHIFT :: nat where "LVL2_SHIFT = 21"
definition LVL3_SHIFT :: nat where "LVL3_SHIFT = 12"
definition PTE_TABLE :: u64 where "PTE_TABLE = 0b11"
definition PTE_PAGE :: u64 where "PTE_PAGE = 0b11"
definition PTE_BLOCK :: u64 where "PTE_BLOCK = 0b01"

definition pte_s1_field_attr_indx :: "u64 \<Rightarrow> u64" where
  "pte_s1_field_attr_indx idx = push_bit 2 idx"

definition PTE_S1_NORMAL :: u64 where
  "PTE_S1_NORMAL = pte_s1_field_attr_indx 1 OR push_bit 6 0 OR push_bit 8 0b10 OR push_bit 10 1"

definition PTE_S2_DEVICE :: u64 where
  "PTE_S2_DEVICE = 0 OR push_bit 6 0b11 OR push_bit 8 0b10 OR push_bit 10 1"

definition PTE_S2_NORMAL :: u64 where
  "PTE_S2_NORMAL = push_bit 2 0b11 OR push_bit 4 0b11 OR push_bit 6 0b11 OR push_bit 8 0b10 OR push_bit 10 1"

definition PTE_S2_RO :: u64 where
  "PTE_S2_RO = push_bit 2 0b11 OR push_bit 4 0b11 OR push_bit 6 0b01 OR push_bit 8 0b10 OR push_bit 10 1"

definition pt_lvl1_idx :: "usize \<Rightarrow> usize" where
  "pt_lvl1_idx va = drop_bit LVL1_SHIFT va AND (PTE_PER_PAGE - 1)"

definition pt_lvl2_idx :: "usize \<Rightarrow> usize" where
  "pt_lvl2_idx va = drop_bit LVL2_SHIFT va AND (PTE_PER_PAGE - 1)"

definition pt_lvl3_idx :: "usize \<Rightarrow> usize" where
  "pt_lvl3_idx va = drop_bit LVL3_SHIFT va AND (PTE_PER_PAGE - 1)"

definition from_pa :: "usize \<Rightarrow> u64" where
  "from_pa pa = word_of_nat pa"

definition to_pa :: "u64 \<Rightarrow> usize" where
  "to_pa e = unat (e AND 0x0000FFFFFFFFF000)"

definition pte_valid :: "u64 \<Rightarrow> bool" where
  "pte_valid e \<longleftrightarrow> e AND 0b11 \<noteq> 0"

definition pte_entry :: "u64 \<Rightarrow> usize \<Rightarrow> phys \<Rightarrow> u64" where
  "pte_entry e index s = memory s (to_pa e + index * WORD_SIZE)"

definition set_entry :: "u64 \<Rightarrow> usize \<Rightarrow> u64 \<Rightarrow> phys \<Rightarrow> phys" where
  "set_entry e index v s = s\<lparr>memory := (memory s)(to_pa e + index * WORD_SIZE := v)\<rparr>"

definition make_table :: "usize \<Rightarrow> u64" where
  "make_table frame_pa = from_pa frame_pa OR PTE_TABLE"

section \<open>Operations of PageTable\<close>

record PageTable =
  pt_directory :: PageFrame
  pt_pages :: "PageFrame list"

type_synonym allocator = "phys \<Rightarrow> ((AllocError + PageFrame) \<times> phys) option"
type_synonym dropper = "PageFrame \<Rightarrow> phys \<Rightarrow> phys option"

definition PageTable_new :: "PageFrame \<Rightarrow> PageTable" where
  "PageTable_new directory = \<lparr>pt_directory = directory, pt_pages = []\<rparr>"

definition base_pa :: "PageTable \<Rightarrow> usize" where
  "base_pa pt = pf_pa (pt_directory pt)"

definition empty_page :: "usize \<Rightarrow> phys \<Rightarrow> bool" where
  "empty_page addr s = (\<forall>i \<in> set [0..<PAGE_SIZE div 8]. memory s (addr + i * 8) = 0)"

text \<open>
  The block that \<open>map\<close> and \<open>map_2mb\<close> share: read the entry at \<open>idx\<close>; if it is not valid, put a
  fresh table there and remember its frame.  No entry comes back when no page is left.
\<close>

definition table_or_alloc ::
  "allocator \<Rightarrow> PageTable \<Rightarrow> phys \<Rightarrow> u64 \<Rightarrow> usize \<Rightarrow> (u64 option \<times> PageTable \<times> phys) option" where
  "table_or_alloc alloc pt s parent idx =
     (if pte_valid (pte_entry parent idx s) then Some (Some (pte_entry parent idx s), pt, s)
      else do {
        (res, s1) \<leftarrow> alloc s;
        case res of
          Inl err \<Rightarrow> Some (None, pt, s1)
        | Inr frame \<Rightarrow>
            let e = make_table (pf_pa frame) in
            Some (Some e, pt\<lparr>pt_pages := pt_pages pt @ [frame]\<rparr>, set_entry parent idx e s1) })"

definition map_2mb ::
  "allocator \<Rightarrow> PageTable \<Rightarrow> phys \<Rightarrow> usize \<Rightarrow> usize \<Rightarrow> u64 \<Rightarrow> (PageTable \<times> phys) option" where
  "map_2mb alloc pt s ipa pa pte = do {
     let directory = from_pa (base_pa pt);
     (r1, pt, s) \<leftarrow> table_or_alloc alloc pt s directory (pt_lvl1_idx ipa);
     case r1 of
       None \<Rightarrow> Some (pt, s)
     | Some l1e \<Rightarrow>
         if pte_valid (pte_entry l1e (pt_lvl2_idx ipa) s) then Some (pt, s)
         else Some (pt, set_entry l1e (pt_lvl2_idx ipa) (from_pa pa OR pte OR PTE_BLOCK) s) }"

text \<open>\<open>pages.retain(|pf| pf.pa != pa)\<close>: the removed frames are dropped.\<close>

fun retain_frames :: "dropper \<Rightarrow> usize \<Rightarrow> PageFrame list \<Rightarrow> phys \<Rightarrow> (PageFrame list \<times> phys) option" where
  "retain_frames free_frame pa [] s = Some ([], s)"
| "retain_frames free_frame pa (pf # pfs) s =
     (if pf_pa pf \<noteq> pa then do { (pfs', s') \<leftarrow> retain_frames free_frame pa pfs s; Some (pf # pfs', s') }
      else do { s1 \<leftarrow> free_frame pf s; retain_frames free_frame pa pfs s1 })"

text \<open>The block that \<open>unmap\<close> and \<open>unmap_2mb\<close> share: cut an empty table off its parent.\<close>

definition cut_table ::
  "dropper \<Rightarrow> PageTable \<Rightarrow> phys \<Rightarrow> u64 \<Rightarrow> usize \<Rightarrow> usize \<Rightarrow> (PageTable \<times> phys) option" where
  "cut_table free_frame pt s parent idx pa = do {
     let s1 = set_entry parent idx 0 s;
     (pages, s2) \<leftarrow> retain_frames free_frame pa (pt_pages pt) s1;
     Some (pt\<lparr>pt_pages := pages\<rparr>, s2) }"

definition unmap_2mb :: "dropper \<Rightarrow> PageTable \<Rightarrow> phys \<Rightarrow> usize \<Rightarrow> (PageTable \<times> phys) option" where
  "unmap_2mb free_frame pt s ipa =
     (let directory = from_pa (base_pa pt);
          l1e = pte_entry directory (pt_lvl1_idx ipa) s in
      if pte_valid l1e \<and> pte_valid (pte_entry l1e (pt_lvl2_idx ipa) s) then
        (let s1 = set_entry l1e (pt_lvl2_idx ipa) 0 s in
         if empty_page (to_pa l1e) s1 then cut_table free_frame pt s1 directory (pt_lvl1_idx ipa) (to_pa l1e)
         else Some (pt, s1))
      else Some (pt, s))"

definition PageTable_map ::
  "allocator \<Rightarrow> PageTable \<Rightarrow> phys \<Rightarrow> usize \<Rightarrow> usize \<Rightarrow> u64 \<Rightarrow> (PageTable \<times> phys) option" where
  "PageTable_map alloc pt s ipa pa pte = do {
     let directory = from_pa (base_pa pt);
     (r1, pt, s) \<leftarrow> table_or_alloc alloc pt s directory (pt_lvl1_idx ipa);
     case r1 of
       None \<Rightarrow> Some (pt, s)
     | Some l1e \<Rightarrow> do {
         (r2, pt, s) \<leftarrow> table_or_alloc alloc pt s l1e (pt_lvl2_idx ipa);
         case r2 of
           None \<Rightarrow> Some (pt, s)
         | Some l2e \<Rightarrow>
             if pte_valid (pte_entry l2e (pt_lvl3_idx ipa) s) then Some (pt, s)
             else Some (pt, set_entry l2e (pt_lvl3_idx ipa) (from_pa pa OR PTE_TABLE OR pte) s) } }"

definition PageTable_unmap :: "dropper \<Rightarrow> PageTable \<Rightarrow> phys \<Rightarrow> usize \<Rightarrow> (PageTable \<times> phys) option" where
  "PageTable_unmap free_frame pt s ipa =
     (let directory = from_pa (base_pa pt);
          l1e = pte_entry directory (pt_lvl1_idx ipa) s;
          l2e = pte_entry l1e (pt_lvl2_idx ipa) s in
      if pte_valid l1e \<and> pte_valid l2e \<and> pte_valid (pte_entry l2e (pt_lvl3_idx ipa) s) then
        (let s1 = set_entry l2e (pt_lvl3_idx ipa) (from_pa 0) s in
         if empty_page (to_pa l2e) s1 then do {
           (pt, s2) \<leftarrow> cut_table free_frame pt s1 l1e (pt_lvl2_idx ipa) (to_pa l2e);
           if empty_page (to_pa l1e) s2 then cut_table free_frame pt s2 directory (pt_lvl1_idx ipa) (to_pa l1e)
           else Some (pt, s2) }
         else Some (pt, s1))
      else Some (pt, s))"

definition size_2mb :: usize where
  "size_2mb = push_bit LVL2_SHIFT 1"

definition map_range_2mb ::
  "allocator \<Rightarrow> PageTable \<Rightarrow> phys \<Rightarrow> usize \<Rightarrow> usize \<Rightarrow> usize \<Rightarrow> u64 \<Rightarrow> (PageTable \<times> phys) option" where
  "map_range_2mb alloc pt s ipa len pa pte = do {
     r \<leftarrow> round_up len size_2mb;
     for_range 0 (r div size_2mb) (\<lambda>i (pt, s). do {
       off \<leftarrow> umul i size_2mb;
       a \<leftarrow> uadd ipa off;
       b \<leftarrow> uadd pa off;
       map_2mb alloc pt s a b pte }) (pt, s) }"

definition unmap_range_2mb :: "dropper \<Rightarrow> PageTable \<Rightarrow> phys \<Rightarrow> usize \<Rightarrow> usize \<Rightarrow> (PageTable \<times> phys) option" where
  "unmap_range_2mb free_frame pt s ipa len = do {
     r \<leftarrow> round_up len size_2mb;
     for_range 0 (r div size_2mb) (\<lambda>i (pt, s). do {
       off \<leftarrow> umul i size_2mb;
       a \<leftarrow> uadd ipa off;
       unmap_2mb free_frame pt s a }) (pt, s) }"

definition map_range ::
  "allocator \<Rightarrow> PageTable \<Rightarrow> phys \<Rightarrow> usize \<Rightarrow> usize \<Rightarrow> usize \<Rightarrow> u64 \<Rightarrow> (PageTable \<times> phys) option" where
  "map_range alloc pt s ipa len pa pte = do {
     r \<leftarrow> round_up len PAGE_SIZE;
     for_range 0 (r div PAGE_SIZE) (\<lambda>i (pt, s). do {
       off \<leftarrow> umul i PAGE_SIZE;
       a \<leftarrow> uadd ipa off;
       b \<leftarrow> uadd pa off;
       PageTable_map alloc pt s a b pte }) (pt, s) }"

definition unmap_range :: "dropper \<Rightarrow> PageTable \<Rightarrow> phys \<Rightarrow> usize \<Rightarrow> usize \<Rightarrow> (PageTable \<times> phys) option" where
  "unmap_range free_frame pt s ipa len = do {
     r \<leftarrow> round_up len PAGE_SIZE;
     for_range 0 (r div PAGE_SIZE) (\<lambda>i (pt, s). do {
       off \<leftarrow> umul i PAGE_SIZE;
       a \<leftarrow> uadd ipa off;
       PageTable_unmap free_frame pt s a }) (pt, s) }"

definition pt_map_range ::
  "allocator \<Rightarrow> PageTable \<Rightarrow> phys \<Rightarrow> usize \<Rightarrow> usize \<Rightarrow> usize \<Rightarrow> u64 \<Rightarrow> bool \<Rightarrow> (PageTable \<times> phys) option" where
  "pt_map_range alloc pt s ipa len pa pte map_block =
     (if ipa mod size_2mb = 0 \<and> len mod size_2mb = 0 \<and> pa mod size_2mb = 0 \<and> map_block
      then map_range_2mb alloc pt s ipa len pa pte
      else map_range alloc pt s ipa len pa pte)"

definition pt_unmap_range ::
  "dropper \<Rightarrow> PageTable \<Rightarrow> phys \<Rightarrow> usize \<Rightarrow> usize \<Rightarrow> bool \<Rightarrow> (PageTable \<times> phys) option" where
  "pt_unmap_range free_frame pt s ipa len map_block =
     (if ipa mod size_2mb = 0 \<and> len mod size_2mb = 0 \<and> map_block
      then unmap_range_2mb free_frame pt s ipa len
      else unmap_range free_frame pt s ipa len)"

text \<open>The loop of \<open>access_permission\<close>: \<open>stop\<close> is \<open>start_ipa + len\<close>, the accumulators \<open>pa\<close> and \<open>sz\<close>.\<close>

function access_permission_loop ::
  "PageTable \<Rightarrow> u64 \<Rightarrow> usize \<Rightarrow> phys \<Rightarrow> usize \<Rightarrow> usize \<Rightarrow> usize \<Rightarrow> (usize \<times> usize \<times> phys) option" where
  "access_permission_loop pt ap stop s ipa pa sz =
     (if \<not> ipa < stop then Some (pa, sz, s)
      else
        let l1e = pte_entry (from_pa (base_pa pt)) (pt_lvl1_idx ipa) s in
        if \<not> pte_valid l1e then do {
          ipa' \<leftarrow> uadd ipa (512 * 512 * 4096);
          access_permission_loop pt ap stop s ipa' pa sz }
        else
          let l2e = pte_entry l1e (pt_lvl2_idx ipa) s in
          if \<not> pte_valid l2e then do {
            ipa' \<leftarrow> uadd ipa (512 * 4096);
            access_permission_loop pt ap stop s ipa' pa sz }
          else if l2e AND 0b11 = PTE_BLOCK then do {
            ipa' \<leftarrow> uadd ipa (512 * 4096);
            sz' \<leftarrow> uadd sz (512 * 4096);
            access_permission_loop pt ap stop
              (set_entry l1e (pt_lvl2_idx ipa) (l2e AND NOT (push_bit 6 0b11) OR ap) s) ipa' (to_pa l2e) sz' }
          else
            let l3e = pte_entry l2e (pt_lvl3_idx ipa) s in
            do {
              (s', pa', sz') \<leftarrow>
                (if pte_valid l3e then do {
                   sz' \<leftarrow> uadd sz 4096;
                   Some (set_entry l2e (pt_lvl3_idx ipa) (l3e AND NOT (push_bit 6 0b11) OR ap) s, to_pa l3e, sz') }
                 else Some (s, pa, sz));
              ipa' \<leftarrow> uadd ipa 4096;
              access_permission_loop pt ap stop s' ipa' pa' sz' })"
  by pat_completeness auto
termination
  by (relation "measure (\<lambda>(pt, ap, stop, s, ipa, pa, sz). stop - ipa)") (auto simp: panic_simps)

declare access_permission_loop.simps [simp del]

definition access_permission :: "PageTable \<Rightarrow> phys \<Rightarrow> usize \<Rightarrow> usize \<Rightarrow> u64 \<Rightarrow> (usize \<times> usize \<times> phys) option" where
  "access_permission pt s start_ipa len ap = do {
     stop \<leftarrow> uadd start_ipa len;
     access_permission_loop pt ap stop s start_ipa 0 0 }"

section \<open>The banked mapping of a CPU\<close>

record CpuPt =
  cpu_lvl1 :: "u64 list"
  cpu_lvl2 :: "u64 list"
  cpu_lvl3 :: "u64 list"

definition CPU_BANKED_ADDRESS :: usize where "CPU_BANKED_ADDRESS = 0x400000000"

text \<open>
  The linker symbol \<open>lvl1_page_table\<close> is the argument \<open>boot_lvl1\<close> (its entries), the addresses of
  the CPU structure and of its tables and \<open>size_of::<Cpu>()\<close> are arguments.  The returned
  address of \<open>cpu_pt.lvl1\<close> is the caller's.
\<close>

definition pt_map_banked_cpu :: "u64 list \<Rightarrow> usize \<Rightarrow> usize \<Rightarrow> usize \<Rightarrow> usize \<Rightarrow> CpuPt option" where
  "pt_map_banked_cpu boot_lvl1 cpu_addr lvl2_addr lvl3_addr cpu_size = do {
     let lvl1 = take PTE_PER_PAGE boot_lvl1;
     let lvl2 = replicate PTE_PER_PAGE 0;
     let lvl3 = replicate PTE_PER_PAGE 0;
     lvl1 \<leftarrow> vec_set lvl1 (pt_lvl1_idx CPU_BANKED_ADDRESS) (from_pa lvl2_addr OR PTE_S1_NORMAL OR PTE_TABLE);
     lvl2 \<leftarrow> vec_set lvl2 (pt_lvl2_idx CPU_BANKED_ADDRESS) (from_pa lvl3_addr OR PTE_S1_NORMAL OR PTE_TABLE);
     r \<leftarrow> round_up cpu_size PAGE_SIZE;
     lvl3 \<leftarrow> for_range 0 (r div PAGE_SIZE) (\<lambda>i lvl3. do {
       off \<leftarrow> umul i PAGE_SIZE;
       a \<leftarrow> uadd cpu_addr off;
       vec_set lvl3 (pt_lvl3_idx CPU_BANKED_ADDRESS + i) (from_pa a OR PTE_S1_NORMAL OR PTE_PAGE) }) lvl3;
     Some \<lparr>cpu_lvl1 = lvl1, cpu_lvl2 = lvl2, cpu_lvl3 = lvl3\<rparr> }"

section \<open>Entries and indices\<close>

lemma PTE_PER_PAGE_eq: "PTE_PER_PAGE = 512"
  by (simp add: PTE_PER_PAGE_def PAGE_SIZE_def WORD_SIZE_def)

lemma and_511: "(x::nat) AND (PTE_PER_PAGE - 1) = x mod 512"
proof -
  have "x AND mask 9 = x mod 2 ^ 9" by (simp add: take_bit_eq_mask[symmetric] take_bit_eq_mod)
  moreover have "mask 9 = (511::nat)" by (simp add: mask_eq_exp_minus_1)
  ultimately show ?thesis by (simp add: PTE_PER_PAGE_eq)
qed

lemma pt_idx_div:
  "pt_lvl1_idx va = va div 2 ^ 30 mod 512" "pt_lvl2_idx va = va div 2 ^ 21 mod 512" "pt_lvl3_idx va = va div 2 ^ 12 mod 512"
  unfolding pt_lvl1_idx_def pt_lvl2_idx_def pt_lvl3_idx_def and_511 drop_bit_eq_div LVL1_SHIFT_def LVL2_SHIFT_def LVL3_SHIFT_def
  by (rule refl)+

lemma pt_idx_bound [simp]: "pt_lvl1_idx va < 512" "pt_lvl2_idx va < 512" "pt_lvl3_idx va < 512"
  by (simp_all add: pt_idx_div)

definition frame_addr :: "usize \<Rightarrow> bool" where
  "frame_addr a \<longleftrightarrow> a mod PAGE_SIZE = 0 \<and> a < 2 ^ 48"

lemma bit_frame_addr:
  assumes "frame_addr a" and "bit a n"
  shows "12 \<le> n" "n < 48"
proof -
  have "a mod 2 ^ 12 = 0" "a < 2 ^ 48" using assms(1) by (simp_all add: frame_addr_def PAGE_SIZE_def)
  then have "take_bit 12 a = 0" "take_bit 48 a = a" by (simp_all add: take_bit_eq_mod)
  then show "12 \<le> n" "n < 48" using assms(2)
    by (metis bit_take_bit_iff bit_0_eq bot_apply bot_bool_def not_le, metis bit_take_bit_iff)
qed

lemma pa_mask: "(0x0000FFFFFFFFF000 :: u64) = push_bit 12 (mask 36)"
  by (simp add: mask_eq_exp_minus_1 push_bit_eq_mult)

lemma low_mask: "(0b11 :: u64) = mask 2"
  by (simp add: mask_eq_exp_minus_1)

lemma to_pa_bits:
  assumes "frame_addr a" and "\<And>n. bit e n \<Longrightarrow> n < 12 \<or> 48 \<le> n"
  shows "to_pa (from_pa a OR e) = a"
proof -
  have "(from_pa a OR e) AND 0x0000FFFFFFFFF000 = from_pa a"
    unfolding pa_mask
  proof (rule bit_word_eqI)
    fix n assume n: "n < LENGTH(64)"
    show "bit ((from_pa a OR e) AND push_bit 12 (mask 36)) n = bit (from_pa a :: u64) n"
      using n assms(2)[of n] bit_frame_addr[OF assms(1), of n]
      by (auto simp: bit_and_iff bit_or_iff bit_push_bit_iff bit_mask_iff from_pa_def bit_of_nat_iff)
  qed
  moreover have "unat (from_pa a) = a"
    using assms(1) by (simp add: from_pa_def frame_addr_def unat_of_nat take_bit_nat_eq_self)
  ultimately show ?thesis by (simp add: to_pa_def)
qed

lemma to_pa_from_pa [simp]: "frame_addr a \<Longrightarrow> to_pa (from_pa a) = a"
  using to_pa_bits[of a 0] by simp

lemma bit_PTE_TABLE: "bit PTE_TABLE n \<longleftrightarrow> n < 2"
  unfolding PTE_TABLE_def low_mask by (auto simp: bit_mask_iff)

lemma bit_PTE_BLOCK: "bit PTE_BLOCK n \<longleftrightarrow> n = 0"
  unfolding PTE_BLOCK_def by (simp add: bit_1_iff)

lemma make_table_simps [simp]:
  "pte_valid (make_table a)" "make_table a AND 0b11 \<noteq> PTE_BLOCK"
  "frame_addr a \<Longrightarrow> to_pa (make_table a) = a"
proof -
  have b: "bit (make_table a AND 0b11) 1" unfolding low_mask
    by (simp add: make_table_def bit_and_iff bit_or_iff bit_PTE_TABLE bit_mask_iff)
  show "pte_valid (make_table a)" unfolding pte_valid_def using b by (metis bit_0_eq bot_apply bot_bool_def)
  show "make_table a AND 0b11 \<noteq> PTE_BLOCK" using b bit_PTE_BLOCK[of 1] by auto
  show "to_pa (make_table a) = a" if "frame_addr a"
    unfolding make_table_def using that by (rule to_pa_bits) (auto simp: bit_PTE_TABLE)
qed

lemma pte_valid_0 [simp]: "\<not> pte_valid 0"
  by (simp add: pte_valid_def)

lemma page_entry_valid [simp]: "pte_valid (from_pa pa OR PTE_TABLE OR pte)"
proof -
  have "bit ((from_pa pa OR PTE_TABLE OR pte) AND 0b11) 1" unfolding low_mask
    by (simp add: bit_and_iff bit_or_iff bit_PTE_TABLE bit_mask_iff)
  then show ?thesis unfolding pte_valid_def by (metis bit_0_eq bot_apply bot_bool_def)
qed

lemma block_entry:
  assumes "frame_addr pa" and "pte AND 0b11 = 0"
  shows "(from_pa pa OR pte OR PTE_BLOCK) AND 0b11 = PTE_BLOCK" "pte_valid (from_pa pa OR pte OR PTE_BLOCK)"
proof -
  have p: "\<not> bit pte n" if "n < 2" for n
  proof -
    have "\<not> bit (pte AND mask 2) n" using assms(2) unfolding low_mask by simp
    with that show ?thesis by (simp add: bit_and_iff bit_mask_iff)
  qed
  have a: "\<not> bit (from_pa pa) n" if "n < 2" for n
    using bit_frame_addr(1)[OF assms(1), of n] that by (auto simp: from_pa_def bit_of_nat_iff)
  show eq: "(from_pa pa OR pte OR PTE_BLOCK) AND 0b11 = PTE_BLOCK" unfolding low_mask
    using p a by (intro bit_word_eqI) (auto simp: bit_and_iff bit_or_iff bit_PTE_BLOCK bit_mask_iff)
  show "pte_valid (from_pa pa OR pte OR PTE_BLOCK)" unfolding pte_valid_def eq by (simp add: PTE_BLOCK_def)
qed

end
