(* ===== verification/PageTree.thy ===== *)
theory PageTree
  imports PageTable
begin

text \<open>
  Page tables as trees in memory: the tables reachable from a directory, the lookup that the MMU
  performs, and the invariant of a \<open>PageTable\<close>.  The correctness of the operations of
  \<open>src/src/arch/aarch64/page_table.rs\<close> is proved against the lookup, for every page source.
\<close>

section \<open>Tables in memory\<close>

text \<open>A table is the directory, the table of a first-level entry, or that of a second-level entry.\<close>

datatype node = Root | Mid nat | Leaf nat nat

definition mid_at :: "(usize \<Rightarrow> u64) \<Rightarrow> usize \<Rightarrow> nat \<Rightarrow> usize option" where
  "mid_at m d i = (if i < 512 \<and> pte_valid (m (d + i * 8)) then Some (to_pa (m (d + i * 8))) else None)"

fun table_at :: "(usize \<Rightarrow> u64) \<Rightarrow> usize \<Rightarrow> node \<Rightarrow> usize option" where
  "table_at m d Root = Some d"
| "table_at m d (Mid i) = mid_at m d i"
| "table_at m d (Leaf i j) =
     (case mid_at m d i of
        None \<Rightarrow> None
      | Some t \<Rightarrow> if j < 512 \<and> pte_valid (m (t + j * 8)) \<and> m (t + j * 8) AND 0b11 \<noteq> PTE_BLOCK
                 then Some (to_pa (m (t + j * 8))) else None)"

text \<open>The descriptor the MMU ends at: that of a block, or that of a page.\<close>

definition pt_lookup :: "(usize \<Rightarrow> u64) \<Rightarrow> usize \<Rightarrow> nat \<Rightarrow> nat \<Rightarrow> nat \<Rightarrow> u64 option" where
  "pt_lookup m d i j k =
     (let l1e = m (d + i * 8); l2e = m (to_pa l1e + j * 8); l3e = m (to_pa l2e + k * 8) in
      if \<not> pte_valid l1e then None
      else if \<not> pte_valid l2e then None
      else if l2e AND 0b11 = PTE_BLOCK then Some l2e
      else if pte_valid l3e then Some l3e else None)"

definition is_block :: "(usize \<Rightarrow> u64) \<Rightarrow> usize \<Rightarrow> nat \<Rightarrow> nat \<Rightarrow> bool" where
  "is_block m d i j \<longleftrightarrow> (\<exists>t. table_at m d (Mid i) = Some t \<and> j < 512 \<and> pte_valid (m (t + j * 8)) \<and>
     m (t + j * 8) AND 0b11 = PTE_BLOCK)"

text \<open>Distinct nodes have distinct tables, all of them page frames.\<close>

definition tree_ok :: "(usize \<Rightarrow> u64) \<Rightarrow> usize \<Rightarrow> bool" where
  "tree_ok m d \<longleftrightarrow> (\<forall>n a. table_at m d n = Some a \<longrightarrow> frame_addr a) \<and>
     (\<forall>n n' a. table_at m d n = Some a \<longrightarrow> table_at m d n' = Some a \<longrightarrow> n = n')"

lemma tree_okD:
  assumes "tree_ok m d"
  shows "table_at m d n = Some a \<Longrightarrow> frame_addr a"
    and "table_at m d n = Some a \<Longrightarrow> table_at m d n' = Some a \<Longrightarrow> n = n'"
  using assms unfolding tree_ok_def by blast+

lemma slots_differ:
  assumes "frame_addr a" and "frame_addr b" and "k < 512" and "l < 512" and "a + k * 8 = b + l * 8"
  shows "a = b \<and> k = l"
proof -
  obtain x y where x: "a = 4096 * x" and y: "b = 4096 * y"
    using assms(1,2) by (auto simp: frame_addr_def PAGE_SIZE_def mod_eq_0_iff_dvd elim!: dvdE)
  have "512 * x + k = 512 * y + l" using assms(5) by (simp add: x y)
  moreover have "(512 * x + k) div 512 = x" "(512 * y + l) div 512 = y" using assms(3,4) by simp_all
  ultimately have "x = y" by metis
  with assms(5) show ?thesis by (simp add: x y)
qed

lemma pt_lookup_table_at:
  "i < 512 \<Longrightarrow> j < 512 \<Longrightarrow> pt_lookup m d i j k =
    (case table_at m d (Mid i) of None \<Rightarrow> None
     | Some t \<Rightarrow> if is_block m d i j then Some (m (t + j * 8))
       else (case table_at m d (Leaf i j) of None \<Rightarrow> None
         | Some u \<Rightarrow> if pte_valid (m (u + k * 8)) then Some (m (u + k * 8)) else None))"
  by (auto simp: pt_lookup_def is_block_def mid_at_def Let_def split: option.splits)

text \<open>The tables are a function of the entries they hold.\<close>

definition tables_agree :: "(usize \<Rightarrow> u64) \<Rightarrow> (usize \<Rightarrow> u64) \<Rightarrow> usize \<Rightarrow> bool" where
  "tables_agree m m' d \<longleftrightarrow> (\<forall>n a k. table_at m d n = Some a \<longrightarrow> k < 512 \<longrightarrow> m' (a + k * 8) = m (a + k * 8))"

lemma tables_agreeD:
  "tables_agree m m' d \<Longrightarrow> table_at m d n = Some a \<Longrightarrow> k < 512 \<Longrightarrow> m' (a + k * 8) = m (a + k * 8)"
  by (simp add: tables_agree_def)

lemma table_at_agree:
  assumes ag: "tables_agree m m' d"
  shows "table_at m' d n = table_at m d n"
proof -
  note assms = tables_agreeD[OF ag]
  have r: "m' (d + i * 8) = m (d + i * 8)" if "i < 512" for i using assms[of Root d i] that by simp
  have mid: "table_at m' d (Mid i) = table_at m d (Mid i)" for i using r[of i] by (auto simp: mid_at_def)
  show ?thesis
  proof (cases n)
    case (Leaf i j)
    show ?thesis
    proof (cases "table_at m d (Mid i)")
      case None
      then show ?thesis using mid[of i] Leaf by simp
    next
      case (Some t)
      then have "m' (t + j * 8) = m (t + j * 8)" if "j < 512" using assms[OF _ that, of "Mid i"] by simp
      then show ?thesis using mid[of i] Leaf Some by (simp cong: conj_cong)
    qed
  qed (use mid in simp_all)
qed

lemma is_block_agree: "tables_agree m m' d \<Longrightarrow> is_block m' d i j = is_block m d i j"
  unfolding is_block_def using table_at_agree[of m m' d "Mid i"] tables_agreeD[of m m' d "Mid i"] by auto

lemma pt_lookup_agree:
  assumes "tables_agree m m' d" and "i < 512" and "j < 512" and "k < 512"
  shows "pt_lookup m' d i j k = pt_lookup m d i j k"
  unfolding pt_lookup_table_at[OF assms(2,3)] table_at_agree[OF assms(1)] is_block_agree[OF assms(1)]
  using tables_agreeD[OF assms(1), of "Mid i" _ j] tables_agreeD[OF assms(1), of "Leaf i j" _ k] assms(3,4)
  by (auto split: option.splits)

section \<open>Stores into tables\<close>

text \<open>A store at an entry of one table leaves the entries of all others alone.\<close>

lemma store_other:
  assumes "tree_ok m d" and "table_at m d n = Some a" and "table_at m d n' = Some b" and "k < 512" and "l < 512"
  shows "(m(a + k * 8 := v)) (b + l * 8) = (if n' = n \<and> l = k then v else m (b + l * 8))"
proof (cases "b + l * 8 = a + k * 8")
  case True
  then have "b = a" "l = k" using slots_differ[of b a l k] tree_okD(1)[OF assms(1)] assms by blast+
  then show ?thesis using tree_okD(2)[OF assms(1,2)] assms(3) by auto
next
  case False
  then show ?thesis using assms(2,3) by auto
qed

lemma store_leaf:
  fixes v :: u64
  assumes ok: "tree_ok m d" and a: "table_at m d (Leaf i j) = Some a" and k: "k < 512"
  defines "m' \<equiv> m(a + k * 8 := v)"
  shows "table_at m' d = table_at m d" and "tree_ok m' d" and "is_block m' d = is_block m d"
    and "i' < 512 \<Longrightarrow> j' < 512 \<Longrightarrow> k' < 512 \<Longrightarrow> pt_lookup m' d i' j' k' =
      (if (i', j', k') = (i, j, k) then (if pte_valid v then Some v else None) else pt_lookup m d i' j' k')"
proof -
  note so = store_other[OF ok a _ k, of _ _ _ v, folded m'_def]
  have root: "m' (d + l * 8) = m (d + l * 8)" if "l < 512" for l using so[of Root d l] that by simp
  have mid: "m' (t + l * 8) = m (t + l * 8)" if "l < 512" "table_at m d (Mid p) = Some t" for l p t
    using so[OF that(2,1)] by simp
  have tmid: "table_at m' d (Mid p) = table_at m d (Mid p)" for p using root[of p] by (auto simp: mid_at_def)
  show ta: "table_at m' d = table_at m d"
  proof
    fix n show "table_at m' d n = table_at m d n"
    proof (cases n)
      case (Leaf p q)
      then show ?thesis using tmid[of p] mid[of q p]
        by (auto split: option.splits)
    qed (use tmid in simp_all)
  qed
  then show "tree_ok m' d" using ok by (simp add: tree_ok_def)
  show ib: "is_block m' d = is_block m d"
    unfolding is_block_def ta using mid by (auto intro!: ext)
  show "pt_lookup m' d i' j' k' =
      (if (i', j', k') = (i, j, k) then (if pte_valid v then Some v else None) else pt_lookup m d i' j' k')"
    if "i' < 512" "j' < 512" "k' < 512"
  proof -
    have nb: "\<not> is_block m d i j" "\<exists>t. table_at m d (Mid i) = Some t"
      using a by (auto simp: is_block_def split: option.splits if_splits)
    have lf: "m' (u + k' * 8) = (if (i', j', k') = (i, j, k) then v else m (u + k' * 8))"
      if "table_at m d (Leaf i' j') = Some u" for u using so[OF that \<open>k' < 512\<close>] by simp
    show ?thesis
      unfolding pt_lookup_table_at[OF that(1,2)] ta ib
      using nb a lf mid[of j' i'] that by (auto split: option.splits)
  qed
qed

text \<open>
  A store into a second-level table: only the leaf table below that entry changes.  The new entry
  must not point at a table that is already in the tree.
\<close>

definition leaf_of :: "u64 \<Rightarrow> usize option" where
  "leaf_of v = (if pte_valid v \<and> v AND 0b11 \<noteq> PTE_BLOCK then Some (to_pa v) else None)"

lemma store_mid:
  fixes v :: u64
  assumes ok: "tree_ok m d" and a: "mid_at m d i = Some a" and j: "j < 512"
    and fresh: "\<forall>u. leaf_of v = Some u \<longrightarrow> frame_addr u \<and> (\<forall>n. table_at m d n \<noteq> Some u)"
  defines "m' \<equiv> m(a + j * 8 := v)"
  shows "table_at m' d = (table_at m d)(Leaf i j := leaf_of v)" and "tree_ok m' d"
    and "is_block m' d i' j' = (if (i', j') = (i, j) then pte_valid v \<and> v AND 0b11 = PTE_BLOCK else is_block m d i' j')"
    and "i' < 512 \<Longrightarrow> j' < 512 \<Longrightarrow> k' < 512 \<Longrightarrow> (i', j') \<noteq> (i, j) \<Longrightarrow> pt_lookup m' d i' j' k' = pt_lookup m d i' j' k'"
proof -
  have a': "table_at m d (Mid i) = Some a" using a by simp
  note so = store_other[OF ok a' _ j, of _ _ _ v, folded m'_def]
  have root: "m' (d + l * 8) = m (d + l * 8)" if "l < 512" for l using so[of Root d l] that by simp
  have mid: "m' (t + l * 8) = (if p = i \<and> l = j then v else m (t + l * 8))" if "l < 512" "mid_at m d p = Some t" for l p t
    using so[of "Mid p" t l] that by simp
  have tmid: "mid_at m' d p = mid_at m d p" for p using root[of p] by (auto simp: mid_at_def)
  show ta: "table_at m' d = (table_at m d)(Leaf i j := leaf_of v)"
  proof
    fix n show "table_at m' d n = ((table_at m d)(Leaf i j := leaf_of v)) n"
    proof (cases n)
      case (Leaf p q)
      then show ?thesis using tmid[of p] mid[of q p] a j by (auto simp: leaf_of_def split: option.splits)
    qed (simp_all add: tmid)
  qed
  show "tree_ok m' d" unfolding tree_ok_def ta using tree_okD[OF ok] fresh by (auto split: if_splits)
  show ib: "is_block m' d i' j' = (if (i', j') = (i, j) then pte_valid v \<and> v AND 0b11 = PTE_BLOCK else is_block m d i' j')" for i' j'
    unfolding is_block_def table_at.simps tmid using mid[of j'] a j by auto
  show "pt_lookup m' d i' j' k' = pt_lookup m d i' j' k'" if "i' < 512" "j' < 512" "k' < 512" "(i', j') \<noteq> (i, j)"
  proof -
    have ib': "is_block m' d i' j' = is_block m d i' j'" using that(4) by (subst ib) auto
    have lf: "m' (u + k' * 8) = m (u + k' * 8)" if "table_at m d (Leaf i' j') = Some u" for u
      using so[OF that \<open>k' < 512\<close>] by simp
    have "table_at m' d (Leaf i' j') = table_at m d (Leaf i' j')" using that(4) by (simp only: ta) auto
    then show ?thesis
      unfolding pt_lookup_table_at[OF that(1,2)] ib' table_at.simps(2) tmid
      using mid[of j' i'] that lf by (auto split: option.splits simp del: table_at.simps(3))
  qed
qed

text \<open>A store into the directory: only the second-level table below that entry and its leaves change.\<close>

lemma store_root:
  fixes v :: u64
  assumes ok: "tree_ok m d" and i: "i < 512"
    and fresh: "pte_valid v \<longrightarrow> frame_addr (to_pa v) \<and> (\<forall>n. table_at m d n \<noteq> Some (to_pa v)) \<and>
      (\<forall>k < 512. m (to_pa v + k * 8) = 0)"
  defines "m' \<equiv> m(d + i * 8 := v)"
  shows "table_at m' d n = (case n of Mid p \<Rightarrow> if p = i then (if pte_valid v then Some (to_pa v) else None) else table_at m d n
       | Leaf p q \<Rightarrow> if p = i then None else table_at m d n | Root \<Rightarrow> Some d)"
    and "tree_ok m' d"
    and "is_block m' d i' j' \<longleftrightarrow> i' \<noteq> i \<and> is_block m d i' j'"
    and "i' < 512 \<Longrightarrow> j' < 512 \<Longrightarrow> k' < 512 \<Longrightarrow> pt_lookup m' d i' j' k' = (if i' = i then None else pt_lookup m d i' j' k')"
proof -
  have d: "table_at m d Root = Some d" by simp
  note so = store_other[OF ok d _ i, of _ _ _ v, folded m'_def]
  have root: "m' (d + l * 8) = (if l = i then v else m (d + l * 8))" if "l < 512" for l using so[of Root d l] that by simp
  have mid: "m' (t + l * 8) = m (t + l * 8)" if "l < 512" "mid_at m d p = Some t" for l p t
    using so[of "Mid p" t l] that by simp
  have new: "m' (to_pa v + l * 8) = 0" if "pte_valid v" "l < 512" for l
  proof -
    have "to_pa v + l * 8 \<noteq> d + i * 8"
      using slots_differ[of "to_pa v" d l i] fresh that i tree_okD(1)[OF ok d] d by metis
    then show ?thesis using fresh that by (simp add: m'_def)
  qed
  have tmid: "mid_at m' d p = (if p = i then (if pte_valid v then Some (to_pa v) else None) else mid_at m d p)" for p
    using root[of p] i by (auto simp: mid_at_def)
  show ta: "table_at m' d n = (case n of Mid p \<Rightarrow> if p = i then (if pte_valid v then Some (to_pa v) else None) else table_at m d n
       | Leaf p q \<Rightarrow> if p = i then None else table_at m d n | Root \<Rightarrow> Some d)" for n
  proof (cases n)
    case (Leaf p q)
    then show ?thesis using tmid[of p] mid[of q p] new[of q] by (auto split: option.splits)
  qed (simp_all add: tmid)
  have src: "(if n = Mid i then pte_valid v \<and> a = to_pa v else table_at m d n = Some a)"
    if "table_at m' d n = Some a" for n a using that unfolding ta by (auto split: node.splits if_splits)
  have "frame_addr a" if "table_at m' d n = Some a" for n a
    using src[OF that] fresh tree_okD(1)[OF ok] by (auto split: if_splits)
  moreover have "n = n'" if "table_at m' d n = Some a" "table_at m' d n' = Some a" for n n' a
    using src[OF that(1)] src[OF that(2)] fresh tree_okD(2)[OF ok] by (auto split: if_splits)
  ultimately show "tree_ok m' d" unfolding tree_ok_def by blast
  show ib: "is_block m' d i' j' \<longleftrightarrow> i' \<noteq> i \<and> is_block m d i' j'" for i' j'
    unfolding is_block_def table_at.simps tmid using mid[of j'] new[of j'] by auto
  show "pt_lookup m' d i' j' k' = (if i' = i then None else pt_lookup m d i' j' k')" if "i' < 512" "j' < 512" "k' < 512"
  proof -
    have lf: "m' (u + k' * 8) = m (u + k' * 8)" if "table_at m d (Leaf i' j') = Some u" for u
      using so[OF that \<open>k' < 512\<close>] by simp
    have "table_at m' d (Leaf i' j') = (if i' = i then None else table_at m d (Leaf i' j'))" by (simp only: ta) simp
    then show ?thesis
      unfolding pt_lookup_table_at[OF that(1,2)] ib table_at.simps(2) tmid
      using mid[of j' i'] that lf by (auto split: option.splits simp del: table_at.simps(3))
  qed
qed

section \<open>Page sources\<close>

text \<open>
  What \<open>PageTable\<close> relies on: \<open>alloc\<close> returns a zeroed page frame nobody owns and touches no other
  memory, or refuses and changes nothing; \<open>free_frame\<close> gives an owned page back.  \<open>room\<close> counts the
  pages left.
\<close>

text \<open>The frames a page table holds are exactly the tables below its directory, each once.\<close>

definition pt_inv :: "(phys \<Rightarrow> bool) \<Rightarrow> (phys \<Rightarrow> usize set) \<Rightarrow> PageTable \<Rightarrow> phys \<Rightarrow> bool" where
  "pt_inv src_ok owned pt s \<longleftrightarrow> src_ok s \<and> tree_ok (memory s) (base_pa pt) \<and> distinct (map pf_pa (pt_pages pt)) \<and>
     pf_pa ` set (pt_pages pt) = {a. \<exists>n. n \<noteq> Root \<and> table_at (memory s) (base_pa pt) n = Some a} \<and>
     insert (base_pa pt) (pf_pa ` set (pt_pages pt)) \<subseteq> owned s"

text \<open>The bytes of the tables.\<close>

definition footprint :: "PageTable \<Rightarrow> usize set" where
  "footprint pt = (\<Union>f \<in> insert (base_pa pt) (pf_pa ` set (pt_pages pt)). {f..<f + PAGE_SIZE})"

text \<open>Two memories the MMU cannot tell apart.\<close>

definition same_view :: "usize \<Rightarrow> (usize \<Rightarrow> u64) \<Rightarrow> (usize \<Rightarrow> u64) \<Rightarrow> bool" where
  "same_view d m m' \<longleftrightarrow> (\<forall>i < 512. \<forall>j < 512. \<forall>k < 512. pt_lookup m' d i j k = pt_lookup m d i j k)"

text \<open>The memory after the lookup of one page, or of one block, has changed to \<open>v\<close>.\<close>

definition view_upd :: "usize \<Rightarrow> (usize \<Rightarrow> u64) \<Rightarrow> (usize \<Rightarrow> u64) \<Rightarrow> nat \<Rightarrow> nat \<Rightarrow> nat \<Rightarrow> u64 option \<Rightarrow> bool" where
  "view_upd d m m' i j k v \<longleftrightarrow> (\<forall>i' < 512. \<forall>j' < 512. \<forall>k' < 512.
     pt_lookup m' d i' j' k' = (if (i', j', k') = (i, j, k) then v else pt_lookup m d i' j' k'))"

definition view_upd_block :: "usize \<Rightarrow> (usize \<Rightarrow> u64) \<Rightarrow> (usize \<Rightarrow> u64) \<Rightarrow> nat \<Rightarrow> nat \<Rightarrow> u64 option \<Rightarrow> bool" where
  "view_upd_block d m m' i j v \<longleftrightarrow> (\<forall>i' < 512. \<forall>j' < 512. \<forall>k' < 512.
     pt_lookup m' d i' j' k' = (if (i', j') = (i, j) then v else pt_lookup m d i' j' k'))"

lemma slot_in_page: "k < 512 \<Longrightarrow> f + k * 8 \<in> {f..<f + PAGE_SIZE}"
  by (simp add: PAGE_SIZE_def)

lemma slot_in_footprint: "{f..<f + PAGE_SIZE} \<subseteq> footprint pt \<Longrightarrow> k < 512 \<Longrightarrow> f + k * 8 \<in> footprint pt"
  using slot_in_page[of k f] by blast

lemma footprint_add:
  "footprint (pt\<lparr>pt_pages := pt_pages pt @ [f]\<rparr>) = footprint pt \<union> {pf_pa f..<pf_pa f + PAGE_SIZE}"
  by (auto simp: footprint_def base_pa_def)

lemma base_in_footprint: "{base_pa pt..<base_pa pt + PAGE_SIZE} \<subseteq> footprint pt"
  by (auto simp: footprint_def)

lemma base_pa_pages [simp]: "base_pa (pt\<lparr>pt_pages := ps\<rparr>) = base_pa pt"
  by (simp add: base_pa_def)

text \<open>The frames a page table holds.\<close>

definition pt_frames :: "PageTable \<Rightarrow> usize set" where
  "pt_frames pt = insert (base_pa pt) (pf_pa ` set (pt_pages pt))"

text \<open>
  A page table without empty tables, all of whose entries are valid or zero.  The tables of such a page
  table are those its descriptors need.
\<close>

definition empty_table :: "(usize \<Rightarrow> u64) \<Rightarrow> usize \<Rightarrow> bool" where
  "empty_table m a \<longleftrightarrow> (\<forall>k < 512. m (a + k * 8) = 0)"

definition tidy_but :: "node set \<Rightarrow> (usize \<Rightarrow> u64) \<Rightarrow> usize \<Rightarrow> bool" where
  "tidy_but N m d \<longleftrightarrow> (\<forall>n a. n \<noteq> Root \<longrightarrow> table_at m d n = Some a \<longrightarrow>
     (n \<notin> N \<longrightarrow> \<not> empty_table m a) \<and> (\<forall>k < 512. m (a + k * 8) = 0 \<or> pte_valid (m (a + k * 8))))"

abbreviation tidy :: "(usize \<Rightarrow> u64) \<Rightarrow> usize \<Rightarrow> bool" where
  "tidy \<equiv> tidy_but {}"

lemma tidy_butD:
  assumes "tidy_but N m d" "table_at m d n = Some a" "n \<noteq> Root"
  shows "n \<notin> N \<Longrightarrow> \<not> empty_table m a" "k < 512 \<Longrightarrow> m (a + k * 8) \<noteq> 0 \<Longrightarrow> pte_valid (m (a + k * 8))"
  using assms unfolding tidy_but_def by blast+

lemma tidy_but_full:
  assumes "tidy_but N m d" "\<And>n a. n \<in> N \<Longrightarrow> table_at m d n = Some a \<Longrightarrow> \<not> empty_table m a"
  shows "tidy m d"
  using assms unfolding tidy_but_def by blast

text \<open>A tidy page table has a table exactly where a descriptor lies below it.\<close>

lemma tidy_tables:
  assumes "tidy m d"
  shows "table_at m d (Leaf i j) \<noteq> None \<longleftrightarrow> i < 512 \<and> j < 512 \<and> \<not> is_block m d i j \<and> (\<exists>k < 512. pt_lookup m d i j k \<noteq> None)" (is ?leaf)
    and "table_at m d (Mid i) \<noteq> None \<longleftrightarrow> i < 512 \<and> (\<exists>j < 512. \<exists>k < 512. pt_lookup m d i j k \<noteq> None)"
proof -
  have leaf: "table_at m d (Leaf i j) \<noteq> None \<longleftrightarrow> i < 512 \<and> j < 512 \<and> \<not> is_block m d i j \<and> (\<exists>k < 512. pt_lookup m d i j k \<noteq> None)" for i j
  proof
    assume "table_at m d (Leaf i j) \<noteq> None"
    then obtain u where u: "table_at m d (Leaf i j) = Some u" by blast
    then obtain t where t: "mid_at m d i = Some t" and ij: "i < 512" "j < 512" and nb: "\<not> is_block m d i j"
      by (auto simp: mid_at_def is_block_def split: option.splits if_splits)
    obtain k where k: "k < 512" "m (u + k * 8) \<noteq> 0" using tidy_butD(1)[OF assms u] by (auto simp: empty_table_def)
    have "pte_valid (m (u + k * 8))" using tidy_butD(2)[OF assms u _ k] by simp
    then have "pt_lookup m d i j k \<noteq> None"
      unfolding pt_lookup_table_at[OF ij] using t u nb by (simp del: table_at.simps(3))
    then show "i < 512 \<and> j < 512 \<and> \<not> is_block m d i j \<and> (\<exists>k < 512. pt_lookup m d i j k \<noteq> None)" using ij nb k(1) by blast
  next
    assume "i < 512 \<and> j < 512 \<and> \<not> is_block m d i j \<and> (\<exists>k < 512. pt_lookup m d i j k \<noteq> None)"
    then show "table_at m d (Leaf i j) \<noteq> None"
      by (auto simp: pt_lookup_table_at simp del: table_at.simps(3) split: option.splits)
  qed
  show ?leaf by (rule leaf)
  show "table_at m d (Mid i) \<noteq> None \<longleftrightarrow> i < 512 \<and> (\<exists>j < 512. \<exists>k < 512. pt_lookup m d i j k \<noteq> None)"
  proof
    assume "table_at m d (Mid i) \<noteq> None"
    then obtain t where t: "table_at m d (Mid i) = Some t" by blast
    then have i: "i < 512" by (auto simp: mid_at_def split: if_splits)
    obtain j where j: "j < 512" "m (t + j * 8) \<noteq> 0" using tidy_butD(1)[OF assms t] by (auto simp: empty_table_def)
    have v: "pte_valid (m (t + j * 8))" using tidy_butD(2)[OF assms t _ j] by simp
    show "i < 512 \<and> (\<exists>j < 512. \<exists>k < 512. pt_lookup m d i j k \<noteq> None)"
    proof (cases "is_block m d i j")
      case True
      then have "pt_lookup m d i j 0 \<noteq> None" unfolding pt_lookup_table_at[OF i j(1)] using t by simp
      then show ?thesis using i j(1) by (intro conjI exI[of _ j] exI[of _ 0]) simp_all
    next
      case False
      then have "table_at m d (Leaf i j) \<noteq> None" using t v j(1) by (auto simp: is_block_def)
      then show ?thesis using leaf[of i j] i j(1) by blast
    qed
  next
    assume "i < 512 \<and> (\<exists>j < 512. \<exists>k < 512. pt_lookup m d i j k \<noteq> None)"
    then show "table_at m d (Mid i) \<noteq> None" by (auto simp: pt_lookup_table_at split: option.splits)
  qed
qed

text \<open>Tables that stay put while entries only become valid; and the effect of adding the table of one node.\<close>

definition adds_table :: "usize \<Rightarrow> node \<Rightarrow> (usize \<Rightarrow> u64) \<Rightarrow> (usize \<Rightarrow> u64) \<Rightarrow> bool" where
  "adds_table d n m m' \<longleftrightarrow> (\<exists>a. table_at m' d = (table_at m d)(n := Some a) \<and>
     (case table_at m d n of None \<Rightarrow> empty_table m' a | Some b \<Rightarrow> b = a)) \<and>
     (\<forall>n' b k. table_at m d n' = Some b \<longrightarrow> k < 512 \<longrightarrow> m' (b + k * 8) = m (b + k * 8) \<or> pte_valid (m' (b + k * 8)))"

lemma adds_table_present: "table_at m d n = Some a \<Longrightarrow> adds_table d n m m"
  by (auto simp: adds_table_def intro!: exI[of _ a])

lemma adds_table_valid_store:
  assumes "tree_ok m d" "table_at m d (Leaf i j) = Some a" "k < 512" "pte_valid v"
  shows "adds_table d (Leaf i j) m (m(a + k * 8 := v))"
  using store_leaf(1)[OF assms(1-3), of v] assms(2,4) unfolding adds_table_def
  by (intro conjI exI[of _ a]) (auto simp del: table_at.simps)

lemma adds_table_tidy:
  assumes "adds_table d n m m'" "tidy_but N m d"
  shows "tidy_but (insert n N) m' d"
  unfolding tidy_but_def
proof (intro allI impI)
  fix p b assume p: "p \<noteq> Root" "table_at m' d p = Some b"
  from assms(1) obtain a where a: "table_at m' d = (table_at m d)(n := Some a)" "case table_at m d n of None \<Rightarrow> empty_table m' a | Some b \<Rightarrow> b = a"
    and e: "\<And>n' b k. table_at m d n' = Some b \<Longrightarrow> k < 512 \<Longrightarrow> m' (b + k * 8) = m (b + k * 8) \<or> pte_valid (m' (b + k * 8))"
    unfolding adds_table_def by blast
  show "(p \<notin> insert n N \<longrightarrow> \<not> empty_table m' b) \<and> (\<forall>k < 512. m' (b + k * 8) = 0 \<or> pte_valid (m' (b + k * 8)))"
  proof (cases "table_at m d p")
    case None
    then have "p = n" using p(2) a(1) by (auto split: if_splits)
    then show ?thesis using None a p(2) by (auto simp: empty_table_def)
  next
    case (Some c)
    then have pb: "table_at m d p = Some b" using p(2) a by (auto split: if_splits)
    note old = tidy_butD[OF assms(2) pb p(1)]
    have "\<not> empty_table m' b" if "p \<notin> insert n N"
    proof -
      have "\<not> empty_table m b" using old(1) that by simp
      then obtain k where k: "k < 512" "m (b + k * 8) \<noteq> 0" by (auto simp: empty_table_def)
      then have "m' (b + k * 8) \<noteq> 0" using e[OF pb k(1)] by auto
      then show ?thesis using k(1) by (auto simp: empty_table_def)
    qed
    then show ?thesis using old(2) e[OF pb] by metis
  qed
qed

lemma adds_table_le: "adds_table d n m m' \<Longrightarrow> table_at m d \<subseteq>\<^sub>m table_at m' d"
  by (auto simp: adds_table_def map_le_def split: option.splits)

lemma adds_table_dom: "adds_table d n m m' \<Longrightarrow> dom (table_at m' d) = insert n (dom (table_at m d))"
  by (auto simp: adds_table_def)

text \<open>The tables that a page with the indices \<open>i\<close> and \<open>j\<close> still needs, and what mapping it does to the tables.\<close>

definition missing :: "(usize \<Rightarrow> u64) \<Rightarrow> usize \<Rightarrow> nat \<Rightarrow> nat \<Rightarrow> node set" where
  "missing m d i j = {n \<in> {Mid i, Leaf i j}. table_at m d n = None}"

definition maps_tables :: "usize \<Rightarrow> nat \<Rightarrow> nat \<Rightarrow> (usize \<Rightarrow> u64) \<Rightarrow> (usize \<Rightarrow> u64) \<Rightarrow> bool" where
  "maps_tables d i j m m' \<longleftrightarrow> table_at m d \<subseteq>\<^sub>m table_at m' d \<and> dom (table_at m' d) = dom (table_at m d) \<union> {Mid i, Leaf i j} \<and>
     (tidy m d \<longrightarrow> tidy m' d)"

lemma card_missing:
  "card (missing m d i j) = (if table_at m d (Mid i) = None then 1 else 0) + (if table_at m d (Leaf i j) = None then 1 else 0)"
proof -
  have "missing m d i j = (if table_at m d (Mid i) = None then {Mid i} else {}) \<union> (if table_at m d (Leaf i j) = None then {Leaf i j} else {})"
    by (auto simp: missing_def simp del: table_at.simps)
  then show ?thesis by (simp del: table_at.simps)
qed

lemma not_empty_table: "k < 512 \<Longrightarrow> m (a + k * 8) \<noteq> 0 \<Longrightarrow> \<not> empty_table m a"
  by (auto simp: empty_table_def)

text \<open>A leaf table of which some entry is valid: adding it and its parent leaves the page table tidy.\<close>

lemma tidy_after_leaf:
  assumes "tidy_but {Leaf i j, Mid i} m d" "table_at m d (Leaf i j) = Some u" "k < 512" "m (u + k * 8) \<noteq> 0"
  shows "tidy m d"
proof (rule tidy_but_full[OF assms(1)])
  obtain t where t: "mid_at m d i = Some t" "j < 512" "pte_valid (m (t + j * 8))"
    using assms(2) by (auto split: option.splits if_splits)
  then have "m (t + j * 8) \<noteq> 0" by auto
  then have "\<not> empty_table m t" using t(2) by (rule not_empty_table[rotated])
  then show "\<not> empty_table m a" if "n \<in> {Leaf i j, Mid i}" "table_at m d n = Some a" for n a
    using that assms(2) not_empty_table[of k m u] assms(3,4) t(1) by (auto simp del: table_at.simps(3))
qed

text \<open>Zeroing an entry leaves only the table that holds it, if any, in need of a look.\<close>

lemma tidy_zero_store:
  assumes "tree_ok m d" "table_at m d n = Some a" "k < 512" "tidy_but N m d"
    and le: "table_at (m(a + k * 8 := 0)) d \<subseteq>\<^sub>m table_at m d"
  shows "tidy_but (insert n N) (m(a + k * 8 := 0)) d"
  unfolding tidy_but_def
proof (intro allI impI)
  fix p b assume p: "p \<noteq> Root" and "table_at (m(a + k * 8 := 0)) d p = Some b"
  then have b: "table_at m d p = Some b" using le by (auto simp: map_le_def dom_def)
  note so = store_other[OF assms(1,2) b assms(3), where v = 0] and old = tidy_butD[OF assms(4) b p]
  have "\<not> empty_table (m(a + k * 8 := 0)) b" if "p \<notin> insert n N"
    using old(1) that so unfolding empty_table_def by auto
  moreover have "(m(a + k * 8 := 0)) (b + l * 8) = 0 \<or> pte_valid ((m(a + k * 8 := 0)) (b + l * 8))" if "l < 512" for l
    using so[OF that] old(2)[OF that] by auto
  ultimately show "(p \<notin> insert n N \<longrightarrow> \<not> empty_table (m(a + k * 8 := 0)) b) \<and>
      (\<forall>l < 512. (m(a + k * 8 := 0)) (b + l * 8) = 0 \<or> pte_valid ((m(a + k * 8 := 0)) (b + l * 8)))" by blast
qed

text \<open>Two tidy page tables through which the MMU sees the same, one of them with more tables: they are the same.\<close>

lemma tidy_tables_eq:
  assumes t: "tidy m d" "tidy m' d" and v: "\<forall>i < 512. \<forall>j < 512. \<forall>k < 512. pt_lookup m' d i j k = pt_lookup m d i j k"
    and b: "is_block m' d = is_block m d" and le: "table_at m d \<subseteq>\<^sub>m m1" "table_at m' d \<subseteq>\<^sub>m m1"
  shows "table_at m' d = table_at m d"
proof
  fix n
  have v': "(\<exists>k < 512. pt_lookup m' d i j k \<noteq> None) = (\<exists>k < 512. pt_lookup m d i j k \<noteq> None)" if "i < 512" "j < 512" for i j
    using v that by metis
  have "(table_at m' d n \<noteq> None) = (table_at m d n \<noteq> None)"
  proof (cases n)
    case (Mid i)
    show ?thesis unfolding Mid tidy_tables(2)[OF t(1)] tidy_tables(2)[OF t(2)] using v' by blast
  next
    case (Leaf i j)
    show ?thesis unfolding Leaf tidy_tables(1)[OF t(1)] tidy_tables(1)[OF t(2)] b using v' by blast
  qed simp
  then show "table_at m' d n = table_at m d n" using le by (cases "table_at m d n") (auto simp: map_le_def dom_def)
qed

locale page_source =
  fixes alloc :: allocator and free_frame :: dropper
    and src_ok :: "phys \<Rightarrow> bool" and owned :: "phys \<Rightarrow> usize set" and room :: "phys \<Rightarrow> nat"
  assumes alloc_Inr: "src_ok s \<Longrightarrow> alloc s = Some (Inr f, s') \<Longrightarrow>
      src_ok s' \<and> pf_pa f \<notin> owned s \<and> owned s' = insert (pf_pa f) (owned s) \<and> room s = Suc (room s') \<and>
      memory s' = memset_zero (pf_pa f) PAGE_SIZE (memory s)"
    and alloc_Inl: "src_ok s \<Longrightarrow> alloc s = Some (Inl err, s') \<Longrightarrow> s' = s \<and> room s = 0"
    and alloc_total: "src_ok s \<Longrightarrow> alloc s \<noteq> None"
    and free_owned: "src_ok s \<Longrightarrow> pf_pa f \<in> owned s \<Longrightarrow>
      \<exists>s'. free_frame f s = Some s' \<and> src_ok s' \<and> owned s' = owned s - {pf_pa f} \<and> memory s' = memory s \<and> room s' = Suc (room s)"
    and owned_frames: "src_ok s \<Longrightarrow> a \<in> owned s \<Longrightarrow> frame_addr a"
    and store: "src_ok (s\<lparr>memory := m\<rparr>) = src_ok s" "owned (s\<lparr>memory := m\<rparr>) = owned s" "room (s\<lparr>memory := m\<rparr>) = room s"
begin

lemma pt_inv_table_owned:
  "pt_inv src_ok owned pt s \<Longrightarrow> table_at (memory s) (base_pa pt) n = Some a \<Longrightarrow> a \<in> owned s"
  by (cases "n = Root") (auto simp: pt_inv_def)

lemma pt_inv_frame: "pt_inv src_ok owned pt s \<Longrightarrow> frame_addr (base_pa pt)"
  using owned_frames by (auto simp: pt_inv_def)

lemma table_in_footprint:
  "pt_inv src_ok owned pt s \<Longrightarrow> table_at (memory s) (base_pa pt) n = Some a \<Longrightarrow> {a..<a + PAGE_SIZE} \<subseteq> footprint pt"
  by (cases "n = Root") (auto simp: pt_inv_def footprint_def)

text \<open>A fresh page: zeroing it keeps the tree, and it is no table yet.\<close>

lemma alloc_step:
  assumes inv: "pt_inv src_ok owned pt s" and al: "alloc s = Some (Inr f, s1)"
  shows "tables_agree (memory s) (memory s1) (base_pa pt)" and "frame_addr (pf_pa f)"
    and "table_at (memory s) (base_pa pt) n \<noteq> Some (pf_pa f)" and "k < 512 \<Longrightarrow> memory s1 (pf_pa f + k * 8) = 0"
    and "src_ok s1" and "owned s1 = insert (pf_pa f) (owned s)" and "room s = Suc (room s1)" and "pf_pa f \<notin> owned s"
    and "a \<notin> {pf_pa f..<pf_pa f + PAGE_SIZE} \<Longrightarrow> memory s1 a = memory s a"
proof -
  have src_ok: "src_ok s" using inv by (simp add: pt_inv_def)
  note c = alloc_Inr[OF src_ok al]
  show "src_ok s1" "owned s1 = insert (pf_pa f) (owned s)" "room s = Suc (room s1)" and nf: "pf_pa f \<notin> owned s" using c by auto
  show fa: "frame_addr (pf_pa f)" using c owned_frames by blast
  show "table_at (memory s) (base_pa pt) n \<noteq> Some (pf_pa f)" using pt_inv_table_owned[OF inv] nf by blast
  show "memory s1 (pf_pa f + k * 8) = 0" if "k < 512"
    using c slot_in_page[OF that, of "pf_pa f"] by (simp add: memset_zero_in)
  show "memory s1 a = memory s a" if "a \<notin> {pf_pa f..<pf_pa f + PAGE_SIZE}"
    using c that by (auto simp: memset_zero_def)
  show "tables_agree (memory s) (memory s1) (base_pa pt)"
    unfolding tables_agree_def
  proof (intro allI impI)
    fix n a k assume a: "table_at (memory s) (base_pa pt) n = Some a" and k: "(k::nat) < 512"
    have "a \<in> owned s" using pt_inv_table_owned[OF inv a] .
    with nf src_ok have "a \<noteq> pf_pa f" "frame_addr a" using owned_frames by auto
    then obtain x y where "a = 4096 * x" "pf_pa f = 4096 * y" "x \<noteq> y"
      using fa by (auto simp: frame_addr_def PAGE_SIZE_def mod_eq_0_iff_dvd elim!: dvdE)
    then show "memory s1 (a + k * 8) = memory s (a + k * 8)"
      using k c by (auto simp: memset_zero_def PAGE_SIZE_def)
  qed
qed

lemma tables_insert:
  "n0 \<noteq> Root \<Longrightarrow> F n0 = None \<Longrightarrow>
    {a. \<exists>n. n \<noteq> Root \<and> (F(n0 := Some f)) n = Some a} = insert f {a. \<exists>n. n \<noteq> Root \<and> F n = Some a}"
  by (rule set_eqI) (auto split: if_splits, metis option.distinct(1))

lemma pt_inv_add:
  assumes inv: "pt_inv src_ok owned pt s" and al: "alloc s = Some (Inr f, s1)"
    and ta: "table_at m' (base_pa pt) = (table_at (memory s) (base_pa pt))(n0 := Some (pf_pa f))"
    and n0: "n0 \<noteq> Root" "table_at (memory s) (base_pa pt) n0 = None" and tok: "tree_ok m' (base_pa pt)"
  shows "pt_inv src_ok owned (pt\<lparr>pt_pages := pt_pages pt @ [f]\<rparr>) (s1\<lparr>memory := m'\<rparr>)"
proof -
  note st = alloc_step[OF inv al]
  have "pf_pa ` set (pt_pages pt @ [f]) = {a. \<exists>n. n \<noteq> Root \<and> table_at m' (base_pa pt) n = Some a}"
    unfolding ta tables_insert[of n0 "table_at (memory s) (base_pa pt)", OF n0] using inv by (simp add: pt_inv_def)
  moreover have "distinct (map pf_pa (pt_pages pt @ [f]))" using inv st(8) by (auto simp: pt_inv_def)
  moreover have "insert (base_pa pt) (pf_pa ` set (pt_pages pt @ [f])) \<subseteq> owned s1"
    using inv st(6) by (auto simp: pt_inv_def)
  ultimately show ?thesis using st(5) tok unfolding pt_inv_def base_pa_pages store by simp
qed

lemma pt_inv_store:
  assumes "pt_inv src_ok owned pt s" and "table_at m' (base_pa pt) = table_at (memory s) (base_pa pt)"
    and "tree_ok m' (base_pa pt)"
  shows "pt_inv src_ok owned pt (s\<lparr>memory := m'\<rparr>)"
proof -
  have m: "memory (s\<lparr>memory := m'\<rparr>) = m'" by simp
  show ?thesis using assms unfolding pt_inv_def store m by metis
qed

lemma agree_same:
  assumes "tables_agree m m' d"
  shows "table_at m' d = table_at m d" "mid_at m' d = mid_at m d" "is_block m' d = is_block m d" "same_view d m m'"
    "tree_ok m' d = tree_ok m d"
proof -
  show ta: "table_at m' d = table_at m d" using table_at_agree[OF assms] by blast
  then show "mid_at m' d = mid_at m d" by (metis ext table_at.simps(2))
  show "is_block m' d = is_block m d" using is_block_agree[OF assms] by blast
  show "same_view d m m'" using pt_lookup_agree[OF assms] by (simp add: same_view_def)
  show "tree_ok m' d = tree_ok m d" by (simp add: tree_ok_def ta)
qed

lemma adds_table_store:
  assumes inv: "pt_inv src_ok owned pt s" and al: "alloc s = Some (Inr f, s1)"
  defines "d \<equiv> base_pa pt"
  assumes par: "table_at (memory s) d p = Some b" and k: "k < 512" and v: "pte_valid v"
    and ta: "table_at ((memory s1)(b + k * 8 := v)) d = (table_at (memory s) d)(n := Some (pf_pa f))" and none: "table_at (memory s) d n = None"
  shows "adds_table d n (memory s) ((memory s1)(b + k * 8 := v))"
proof -
  note st = alloc_step[OF inv al, folded d_def]
  have tok: "tree_ok (memory s) d" using inv by (simp add: pt_inv_def d_def)
  have "pf_pa f + c * 8 \<noteq> b + k * 8" if "c < 512" for c
    using slots_differ[OF tree_okD(1)[OF tok par] st(2) k that] st(3)[of p] par by metis
  then have "empty_table ((memory s1)(b + k * 8 := v)) (pf_pa f)" using st(4) by (simp add: empty_table_def)
  then show ?thesis using ta none v tables_agreeD[OF st(1)]
    unfolding adds_table_def by (intro conjI exI[of _ "pf_pa f"]) simp_all
qed

lemma table_or_alloc_mid:
  assumes inv: "pt_inv src_ok owned pt s" and i: "i < 512"
  defines "d \<equiv> base_pa pt"
  obtains (full) "table_or_alloc alloc pt s (from_pa d) i = Some (None, pt, s)" "room s = 0" "table_at (memory s) d (Mid i) = None"
  | (ok) e pt' s' where "table_or_alloc alloc pt s (from_pa d) i = Some (Some e, pt', s')"
      "pt_inv src_ok owned pt' s'" "base_pa pt' = d" "set (pt_pages pt) \<subseteq> set (pt_pages pt')"
      "mid_at (memory s') d i = Some (to_pa e)" "same_view d (memory s) (memory s')"
      "is_block (memory s') d = is_block (memory s) d" "room s = room s' + (if table_at (memory s) d (Mid i) = None then 1 else 0)"
      "\<forall>a. a \<notin> footprint pt' \<longrightarrow> memory s' a = memory s a"
      "adds_table d (Mid i) (memory s) (memory s')" "owned s' - pt_frames pt' = owned s - pt_frames pt"
      "\<forall>p q. table_at (memory s') d (Leaf p q) = table_at (memory s) d (Leaf p q)"
proof -
  let ?m = "memory s"
  have d: "to_pa (from_pa d) = d" using pt_inv_frame[OF inv] by (simp add: d_def)
  have ent: "pte_entry (from_pa d) i s = ?m (d + i * 8)" by (simp add: pte_entry_def d WORD_SIZE_def)
  have tok: "tree_ok ?m d" and wfs: "src_ok s" using inv by (simp_all add: pt_inv_def d_def)
  show thesis
  proof (cases "pte_valid (?m (d + i * 8))")
    case True
    then have "table_at ?m d (Mid i) = Some (to_pa (?m (d + i * 8)))" using i by (simp add: mid_at_def)
    with True show thesis
      by (intro ok[of "?m (d + i * 8)" pt s])
        (use inv ent i in \<open>simp_all add: table_or_alloc_def mid_at_def same_view_def d_def adds_table_present\<close>)
  next
    case False
    obtain res s1 where al: "alloc s = Some (res, s1)" using alloc_total[OF wfs] by auto
    show thesis
    proof (cases res)
      case (Inl err)
      then show thesis using full alloc_Inl[OF wfs] al ent False by (simp add: table_or_alloc_def mid_at_def)
    next
      case (Inr f)
      note st = alloc_step[OF inv al[unfolded Inr], folded d_def]
      note ag = agree_same[OF st(1)]
      let ?e = "make_table (pf_pa f)"
      let ?pt = "pt\<lparr>pt_pages := pt_pages pt @ [f]\<rparr>"
      let ?m' = "(memory s1)(d + i * 8 := ?e)"
      have tok1: "tree_ok (memory s1) d" using tok ag by simp
      have fresh: "pte_valid ?e \<longrightarrow> frame_addr (to_pa ?e) \<and> (\<forall>n. table_at (memory s1) d n \<noteq> Some (to_pa ?e)) \<and> (\<forall>k < 512. memory s1 (to_pa ?e + k * 8) = 0)"
        using st(2-4) ag by simp
      note sr = store_root[OF tok1 i fresh]
      have none: "mid_at ?m d i = None" using False by (simp add: mid_at_def)
      have ta: "table_at ?m' d = (table_at ?m d)(Mid i := Some (pf_pa f))"
      proof
        fix n show "table_at ?m' d n = ((table_at ?m d)(Mid i := Some (pf_pa f))) n"
          unfolding sr(1) ag using none st(2) by (auto split: node.splits)
      qed
      have inv': "pt_inv src_ok owned ?pt (s1\<lparr>memory := ?m'\<rparr>)"
        using ta none sr(2) by (intro pt_inv_add[OF inv al[unfolded Inr], of _ "Mid i"]) (simp_all add: d_def)
      have lk: "same_view d ?m ?m'"
        unfolding same_view_def
      proof (intro allI impI)
        fix a b c :: nat assume "a < 512" "b < 512" "c < 512"
        then show "pt_lookup ?m' d a b c = pt_lookup ?m d a b c"
          using sr(4)[of a b c] ag(4) False by (auto simp: same_view_def pt_lookup_def[of ?m d i])
      qed
      have ib: "is_block ?m' d = is_block ?m d"
        using sr(3) ag none by (auto simp: is_block_def intro!: ext)
      have out: "\<forall>a. a \<notin> footprint ?pt \<longrightarrow> ?m' a = ?m a"
        using st(9) slot_in_footprint[OF base_in_footprint i, of pt] by (auto simp: footprint_add d_def)
      have add: "adds_table d (Mid i) ?m ?m'"
        by (rule adds_table_store[OF inv al[unfolded Inr], of Root, folded d_def]) (use i ta none st(2) in simp_all)
      have own: "owned s1 - pt_frames ?pt = owned s - pt_frames pt" using st(6,8) by (auto simp: pt_frames_def base_pa_def)
      have res: "table_or_alloc alloc pt s (from_pa d) i = Some (Some ?e, ?pt, s1\<lparr>memory := ?m'\<rparr>)"
        using al Inr ent False d by (simp add: table_or_alloc_def set_entry_def WORD_SIZE_def Let_def)
      show thesis
      proof (rule ok[OF res])
        show "mid_at (memory (s1\<lparr>memory := ?m'\<rparr>)) d i = Some (to_pa ?e)" using fun_cong[OF ta, of "Mid i"] st(2) by simp
        show "room s = room (s1\<lparr>memory := ?m'\<rparr>) + (if table_at (memory s) d (Mid i) = None then 1 else 0)"
          using st(7) none by (simp add: store)
        show "\<forall>p q. table_at (memory (s1\<lparr>memory := ?m'\<rparr>)) d (Leaf p q) = table_at (memory s) d (Leaf p q)"
          using fun_cong[OF ta] by (simp del: table_at.simps)
      qed (use inv' lk ib out add own in \<open>auto simp: base_pa_def d_def store\<close>)
    qed
  qed
qed

lemma table_or_alloc_leaf:
  assumes inv: "pt_inv src_ok owned pt s" and j: "j < 512"
    and mid: "mid_at (memory s) (base_pa pt) i = Some (to_pa l1e)" and nb: "\<not> is_block (memory s) (base_pa pt) i j"
  defines "d \<equiv> base_pa pt"
  obtains (full) "table_or_alloc alloc pt s l1e j = Some (None, pt, s)" "room s = 0" "table_at (memory s) d (Leaf i j) = None"
  | (ok) e pt' s' where "table_or_alloc alloc pt s l1e j = Some (Some e, pt', s')"
      "pt_inv src_ok owned pt' s'" "base_pa pt' = d" "set (pt_pages pt) \<subseteq> set (pt_pages pt')"
      "table_at (memory s') d (Leaf i j) = Some (to_pa e)" "same_view d (memory s) (memory s')"
      "is_block (memory s') d = is_block (memory s) d" "room s = room s' + (if table_at (memory s) d (Leaf i j) = None then 1 else 0)"
      "\<forall>a. a \<notin> footprint pt' \<longrightarrow> memory s' a = memory s a"
      "adds_table d (Leaf i j) (memory s) (memory s')" "owned s' - pt_frames pt' = owned s - pt_frames pt"
proof -
  let ?m = "memory s"
  let ?t = "to_pa l1e"
  have ent: "pte_entry l1e j s = ?m (?t + j * 8)" by (simp add: pte_entry_def WORD_SIZE_def)
  have tok: "tree_ok ?m d" and wfs: "src_ok s" using inv by (simp_all add: pt_inv_def d_def)
  have midd: "mid_at ?m d i = Some ?t" using mid by (simp add: d_def)
  have i: "i < 512" using mid by (auto simp: mid_at_def split: if_splits)
  show thesis
  proof (cases "pte_valid (?m (?t + j * 8))")
    case True
    then have "?m (?t + j * 8) AND 0b11 \<noteq> PTE_BLOCK" using nb mid j by (auto simp: is_block_def)
    then have "table_at ?m d (Leaf i j) = Some (to_pa (?m (?t + j * 8)))" using True j midd by simp
    with True show thesis
      by (intro ok[of "?m (?t + j * 8)" pt s])
        (use inv ent j midd in \<open>simp_all add: table_or_alloc_def same_view_def d_def adds_table_present del: table_at.simps(3)\<close>)
  next
    case False
    obtain res s1 where al: "alloc s = Some (res, s1)" using alloc_total[OF wfs] by auto
    show thesis
    proof (cases res)
      case (Inl err)
      then show thesis using full alloc_Inl[OF wfs] al ent False midd by (simp add: table_or_alloc_def)
    next
      case (Inr f)
      note st = alloc_step[OF inv al[unfolded Inr], folded d_def]
      note ag = agree_same[OF st(1)]
      let ?e = "make_table (pf_pa f)"
      let ?pt = "pt\<lparr>pt_pages := pt_pages pt @ [f]\<rparr>"
      let ?m' = "(memory s1)(?t + j * 8 := ?e)"
      have tok1: "tree_ok (memory s1) d" and mid1: "mid_at (memory s1) d i = Some ?t" using tok ag midd by simp_all
      have lv: "leaf_of ?e = Some (pf_pa f)" using st(2) by (simp add: leaf_of_def)
      have fresh: "\<forall>u. leaf_of ?e = Some u \<longrightarrow> frame_addr u \<and> (\<forall>n. table_at (memory s1) d n \<noteq> Some u)"
        using st(2,3) ag lv by simp
      note sm = store_mid[OF tok1 mid1 j fresh]
      have none: "table_at ?m d (Leaf i j) = None" using False midd by simp
      have ta: "table_at ?m' d = (table_at ?m d)(Leaf i j := Some (pf_pa f))" using sm(1) lv ag by simp
      have inv': "pt_inv src_ok owned ?pt (s1\<lparr>memory := ?m'\<rparr>)"
        using ta none sm(2) by (intro pt_inv_add[OF inv al[unfolded Inr], of _ "Leaf i j"]) (simp_all add: d_def)
      have "\<not> is_block ?m d i j" using nb by (simp add: d_def)
      then have ib: "is_block ?m' d = is_block ?m d" unfolding fun_eq_iff sm(3) ag(3) by simp
      have "pf_pa f + c * 8 \<noteq> ?t + j * 8" if "c < 512" for c
        using slots_differ[of ?t "pf_pa f" j c] j that st(2,3) tree_okD(1)[OF tok, of "Mid i"] midd
        by (metis table_at.simps(2))
      then have z: "?m' (pf_pa f + c * 8) = 0" if "c < 512" for c using st(4) that by simp
      have lk: "same_view d ?m ?m'"
        unfolding same_view_def
      proof (intro allI impI)
        fix a b c :: nat assume abc: "a < 512" "b < 512" "c < 512"
        show "pt_lookup ?m' d a b c = pt_lookup ?m d a b c"
        proof (cases "(a, b) = (i, j)")
          case True
          have "pt_lookup ?m d i j c = None" using False midd i by (auto simp: pt_lookup_def mid_at_def Let_def split: if_splits)
          moreover have "pt_lookup ?m' d i j c = None"
            unfolding pt_lookup_table_at[OF i j] ib ta using \<open>\<not> is_block ?m d i j\<close> z[OF abc(3)] by (auto split: option.splits)
          ultimately show ?thesis using True by simp
        next
          case False
          then show ?thesis using sm(4)[OF abc] ag(4) abc by (simp add: same_view_def)
        qed
      qed
      have tfp: "{?t..<?t + PAGE_SIZE} \<subseteq> footprint pt" using table_in_footprint[OF inv, of "Mid i"] mid by simp
      have out: "\<forall>a. a \<notin> footprint ?pt \<longrightarrow> ?m' a = ?m a"
        using st(9) slot_in_footprint[OF tfp j] by (auto simp: footprint_add)
      have add: "adds_table d (Leaf i j) ?m ?m'"
        by (rule adds_table_store[OF inv al[unfolded Inr], of "Mid i", folded d_def]) (use j ta none st(2) midd in \<open>simp_all del: table_at.simps(3)\<close>)
      have own: "owned s1 - pt_frames ?pt = owned s - pt_frames pt" using st(6,8) by (auto simp: pt_frames_def base_pa_def)
      have res: "table_or_alloc alloc pt s l1e j = Some (Some ?e, ?pt, s1\<lparr>memory := ?m'\<rparr>)"
        using al Inr ent False by (simp add: table_or_alloc_def set_entry_def WORD_SIZE_def Let_def)
      show thesis
      proof (rule ok[OF res])
        show "table_at (memory (s1\<lparr>memory := ?m'\<rparr>)) d (Leaf i j) = Some (to_pa ?e)" using fun_cong[OF ta, of "Leaf i j"] st(2) by simp
        show "room s = room (s1\<lparr>memory := ?m'\<rparr>) + (if table_at (memory s) d (Leaf i j) = None then 1 else 0)"
          using st(7) none by (simp add: store)
      qed (use inv' lk ib out add own in \<open>auto simp: d_def store\<close>)
    qed
  qed
qed

lemma map_correct:
  assumes inv: "pt_inv src_ok owned pt s"
    and nb: "\<not> is_block (memory s) (base_pa pt) (pt_lvl1_idx ipa) (pt_lvl2_idx ipa)"
  defines "d \<equiv> base_pa pt" and "old \<equiv> pt_lookup (memory s) (base_pa pt) (pt_lvl1_idx ipa) (pt_lvl2_idx ipa) (pt_lvl3_idx ipa)"
    and "need \<equiv> card (missing (memory s) (base_pa pt) (pt_lvl1_idx ipa) (pt_lvl2_idx ipa))"
  shows "\<exists>pt' s'. PageTable_map alloc pt s ipa pa pte = Some (pt', s') \<and>
    pt_inv src_ok owned pt' s' \<and> base_pa pt' = d \<and> is_block (memory s') d = is_block (memory s) d \<and>
    (\<forall>a. a \<notin> footprint pt' \<longrightarrow> memory s' a = memory s a) \<and> owned s' - pt_frames pt' = owned s - pt_frames pt \<and>
    (view_upd d (memory s) (memory s') (pt_lvl1_idx ipa) (pt_lvl2_idx ipa) (pt_lvl3_idx ipa)
       (if old = None then Some (from_pa pa OR PTE_TABLE OR pte) else old) \<and>
       room s = room s' + need \<and> maps_tables d (pt_lvl1_idx ipa) (pt_lvl2_idx ipa) (memory s) (memory s') \<or>
     room s < need \<and> same_view d (memory s) (memory s'))"
proof (rule table_or_alloc_mid[OF inv pt_idx_bound(1)[of ipa]])
  assume "table_or_alloc alloc pt s (from_pa (base_pa pt)) (pt_lvl1_idx ipa) = Some (None, pt, s)" "room s = 0"
    "table_at (memory s) (base_pa pt) (Mid (pt_lvl1_idx ipa)) = None"
  then show ?thesis using inv by (simp add: PageTable_map_def same_view_def d_def need_def card_missing)
next
  let ?i = "pt_lvl1_idx ipa" and ?j = "pt_lvl2_idx ipa" and ?k = "pt_lvl3_idx ipa"
  fix l1e pt1 s1
  assume 1: "table_or_alloc alloc pt s (from_pa (base_pa pt)) ?i = Some (Some l1e, pt1, s1)"
    "pt_inv src_ok owned pt1 s1" "base_pa pt1 = base_pa pt" "set (pt_pages pt) \<subseteq> set (pt_pages pt1)"
    "mid_at (memory s1) (base_pa pt) ?i = Some (to_pa l1e)" "same_view (base_pa pt) (memory s) (memory s1)"
    "is_block (memory s1) (base_pa pt) = is_block (memory s) (base_pa pt)"
    "room s = room s1 + (if table_at (memory s) (base_pa pt) (Mid ?i) = None then 1 else 0)"
    "\<forall>a. a \<notin> footprint pt1 \<longrightarrow> memory s1 a = memory s a"
    "adds_table (base_pa pt) (Mid ?i) (memory s) (memory s1)" "owned s1 - pt_frames pt1 = owned s - pt_frames pt"
    "\<forall>p q. table_at (memory s1) (base_pa pt) (Leaf p q) = table_at (memory s) (base_pa pt) (Leaf p q)"
  have mid1: "mid_at (memory s1) (base_pa pt1) ?i = Some (to_pa l1e)" and nb1: "\<not> is_block (memory s1) (base_pa pt1) ?i ?j"
    using 1(3,5,7) nb by simp_all
  have leaf1: "table_at (memory s1) d (Leaf ?i ?j) = table_at (memory s) d (Leaf ?i ?j)" using 1(12) by (simp add: d_def del: table_at.simps)
  show ?thesis
  proof (rule table_or_alloc_leaf[OF 1(2) pt_idx_bound(2) mid1 nb1])
    assume "table_or_alloc alloc pt1 s1 l1e ?j = Some (None, pt1, s1)" "room s1 = 0"
      and "table_at (memory s1) (base_pa pt1) (Leaf ?i ?j) = None"
    then have "PageTable_map alloc pt s ipa pa pte = Some (pt1, s1)" "room s < need"
      using 1(1,3,8) leaf1 by (simp_all add: PageTable_map_def need_def card_missing d_def del: table_at.simps)
    with 1 show ?thesis by (intro exI[of _ pt1] exI[of _ s1]) (simp add: d_def del: table_at.simps)
  next
    fix l2e pt2 s2
    assume 2: "table_or_alloc alloc pt1 s1 l1e ?j = Some (Some l2e, pt2, s2)"
      "pt_inv src_ok owned pt2 s2" "base_pa pt2 = base_pa pt1" "set (pt_pages pt1) \<subseteq> set (pt_pages pt2)"
      "table_at (memory s2) (base_pa pt1) (Leaf ?i ?j) = Some (to_pa l2e)" "same_view (base_pa pt1) (memory s1) (memory s2)"
      "is_block (memory s2) (base_pa pt1) = is_block (memory s1) (base_pa pt1)"
      "room s1 = room s2 + (if table_at (memory s1) (base_pa pt1) (Leaf ?i ?j) = None then 1 else 0)"
      "\<forall>a. a \<notin> footprint pt2 \<longrightarrow> memory s2 a = memory s1 a"
      "adds_table (base_pa pt1) (Leaf ?i ?j) (memory s1) (memory s2)" "owned s2 - pt_frames pt2 = owned s1 - pt_frames pt1"
    have d: "base_pa pt1 = d" "base_pa pt2 = d" using 1(3) 2(3) by (simp_all add: d_def)
    have ad: "adds_table d (Mid ?i) (memory s) (memory s1)" "adds_table d (Leaf ?i ?j) (memory s1) (memory s2)"
      using 1(10) 2(10) d by (simp_all add: d_def)
    have own: "owned s2 - pt_frames pt2 = owned s - pt_frames pt" using 1(11) 2(11) by simp
    have rm: "room s = room s2 + need" using 1(8) 2(8) leaf1 unfolding need_def card_missing d(1) d_def[symmetric] by simp
    have le: "table_at (memory s) d \<subseteq>\<^sub>m table_at (memory s2) d"
      using adds_table_le[OF ad(1)] adds_table_le[OF ad(2)] by (rule map_le_trans)
    have dm: "dom (table_at (memory s2) d) = dom (table_at (memory s) d) \<union> {Mid ?i, Leaf ?i ?j}"
      using adds_table_dom[OF ad(1)] adds_table_dom[OF ad(2)] by auto
    have td: "tidy_but {Leaf ?i ?j, Mid ?i} (memory s2) d" if "tidy (memory s) d"
      using adds_table_tidy[OF ad(2) adds_table_tidy[OF ad(1) that]] .
    have out: "memory s2 a = memory s a" if "a \<notin> footprint pt2" for a
    proof -
      have "footprint pt1 \<subseteq> footprint pt2" using 2(3,4) by (auto simp: footprint_def)
      then show ?thesis using 1(9) 2(9) that by auto
    qed
    have view: "pt_lookup (memory s2) d a b c = pt_lookup (memory s) d a b c" if "a < 512" "b < 512" "c < 512" for a b c
      using 1(6) 2(6) that d by (simp add: same_view_def d_def)
    have ent: "pte_entry l2e ?k s2 = memory s2 (to_pa l2e + ?k * 8)" by (simp add: pte_entry_def WORD_SIZE_def)
    have leaf: "table_at (memory s2) d (Leaf ?i ?j) = Some (to_pa l2e)" using 2(5) d by simp
    have nb2: "is_block (memory s2) d = is_block (memory s) d" using 1(7) 2(7) d by (simp add: d_def)
    have old: "old = (if pte_valid (memory s2 (to_pa l2e + ?k * 8)) then Some (memory s2 (to_pa l2e + ?k * 8)) else None)"
    proof -
      have "old = pt_lookup (memory s2) d ?i ?j ?k" using view by (simp add: old_def d_def)
      moreover obtain t where "mid_at (memory s2) d ?i = Some t" using leaf by (auto split: option.splits)
      ultimately show ?thesis
        using leaf nb nb2 unfolding pt_lookup_table_at[OF pt_idx_bound(1,2)] by (simp add: d_def del: table_at.simps(3))
    qed
    show ?thesis
    proof (cases "pte_valid (memory s2 (to_pa l2e + ?k * 8))")
      case True
      then have "PageTable_map alloc pt s ipa pa pte = Some (pt2, s2)" using 1(1) 2(1) ent by (simp add: PageTable_map_def)
      moreover have "view_upd d (memory s) (memory s2) ?i ?j ?k old"
        using view by (auto simp: view_upd_def old_def d_def)
      moreover have "old \<noteq> None" using old True by simp
      moreover have "tidy (memory s2) d" if "tidy (memory s) d"
        by (rule tidy_after_leaf[OF td[OF that] leaf pt_idx_bound(3)[of ipa]]) (use True in auto)
      then have "maps_tables d ?i ?j (memory s) (memory s2)" using le dm by (simp add: maps_tables_def)
      ultimately show ?thesis using 2(2) d out nb2 own rm by auto
    next
      case False
      let ?v = "from_pa pa OR PTE_TABLE OR pte"
      let ?m' = "(memory s2)(to_pa l2e + ?k * 8 := ?v)"
      have tok: "tree_ok (memory s2) d" using 2(2) d by (simp add: pt_inv_def)
      note sl = store_leaf[where v = ?v, OF tok leaf pt_idx_bound(3)[of ipa]]
      have "PageTable_map alloc pt s ipa pa pte = Some (pt2, s2\<lparr>memory := ?m'\<rparr>)"
        using 1(1) 2(1) ent False by (simp add: PageTable_map_def set_entry_def WORD_SIZE_def)
      moreover have "pt_inv src_ok owned pt2 (s2\<lparr>memory := ?m'\<rparr>)"
        using sl(1,2) d by (intro pt_inv_store[OF 2(2)]) simp_all
      moreover have "view_upd d (memory s) ?m' ?i ?j ?k (Some ?v)"
        using sl(4) view by (simp add: view_upd_def)
      moreover have "to_pa l2e + ?k * 8 \<in> footprint pt2"
        using slot_in_footprint[OF table_in_footprint[OF 2(2), of "Leaf ?i ?j"] pt_idx_bound(3)] leaf d(2) by (simp del: table_at.simps)
      then have "\<forall>a. a \<notin> footprint pt2 \<longrightarrow> ?m' a = memory s a" using out by auto
      moreover have "maps_tables d ?i ?j (memory s) ?m'"
      proof -
        have nz: "?v \<noteq> 0" by (metis page_entry_valid pte_valid_0)
        have "tidy ?m' d" if "tidy (memory s) d"
        proof (rule tidy_after_leaf[where k = ?k and u = "to_pa l2e"])
          show "tidy_but {Leaf ?i ?j, Mid ?i} ?m' d"
            using adds_table_tidy[OF adds_table_valid_store[OF tok leaf pt_idx_bound(3)[of ipa], of ?v] td[OF that]] by simp
          show "table_at ?m' d (Leaf ?i ?j) = Some (to_pa l2e)" unfolding sl(1) by (rule leaf)
        qed (use pt_idx_bound(3)[of ipa] nz in simp_all)
        then show ?thesis using le dm unfolding maps_tables_def sl(1) by simp
      qed
      ultimately show ?thesis using old False 2(2) d sl(3) nb2 store own rm by auto
    qed
  qed
qed

text \<open>Cutting a table off: its frame, and only it, goes back to the page source.\<close>

lemma retain_frames_absent:
  "pa \<notin> pf_pa ` set pfs \<Longrightarrow> retain_frames free_frame pa pfs s = Some (pfs, s)"
  by (induction pfs) auto

lemma retain_frames_one:
  assumes "distinct (map pf_pa pfs)" and "pa \<in> pf_pa ` set pfs" and "src_ok s" and "pa \<in> owned s"
  shows "\<exists>s'. retain_frames free_frame pa pfs s = Some (filter (\<lambda>pf. pf_pa pf \<noteq> pa) pfs, s') \<and>
    src_ok s' \<and> owned s' = owned s - {pa} \<and> memory s' = memory s \<and> room s' = Suc (room s)"
  using assms(1,2)
proof (induction pfs)
  case (Cons pf pfs)
  show ?case
  proof (cases "pf_pa pf = pa")
    case True
    with Cons.prems have no: "pa \<notin> pf_pa ` set pfs" by auto
    then have "filter (\<lambda>pf. pf_pa pf \<noteq> pa) pfs = pfs" by (auto simp: filter_id_conv)
    then show ?thesis using True free_owned[OF assms(3), of pf] assms(4) retain_frames_absent[OF no] by auto
  next
    case False
    with Cons show ?thesis by auto
  qed
qed simp

lemma tables_remove:
  "n0 \<noteq> Root \<Longrightarrow> F n0 = Some f \<Longrightarrow> (\<And>n. F n = Some f \<Longrightarrow> n = n0) \<Longrightarrow>
    {a. \<exists>n. n \<noteq> Root \<and> (F(n0 := None)) n = Some a} = {a. \<exists>n. n \<noteq> Root \<and> F n = Some a} - {f}"
proof (intro set_eqI iffI)
  fix a assume 1: "n0 \<noteq> Root" "F n0 = Some f" "\<And>n. F n = Some f \<Longrightarrow> n = n0"
  show "a \<in> {a. \<exists>n. n \<noteq> Root \<and> F n = Some a} - {f}" if "a \<in> {a. \<exists>n. n \<noteq> Root \<and> (F(n0 := None)) n = Some a}"
  proof -
    from that obtain n where n: "n \<noteq> Root" "n \<noteq> n0" "F n = Some a" by (auto split: if_splits)
    with 1(3)[of n] show ?thesis by blast
  qed
  assume "a \<in> {a. \<exists>n. n \<noteq> Root \<and> F n = Some a} - {f}"
  then obtain n where "n \<noteq> Root" "F n = Some a" "a \<noteq> f" by blast
  with 1(2) have "n \<noteq> Root \<and> (F(n0 := None)) n = Some a" by auto
  then show "a \<in> {a. \<exists>n. n \<noteq> Root \<and> (F(n0 := None)) n = Some a}" by blast
qed

lemma cut_table_correct:
  assumes inv: "pt_inv src_ok owned pt s" and parent: "table_at (memory s) (base_pa pt) np = Some (to_pa parent)"
    and idx: "idx < 512" and n0: "n0 \<noteq> Root" "table_at (memory s) (base_pa pt) n0 = Some pa"
  defines "m' \<equiv> (memory s)(to_pa parent + idx * 8 := 0)"
  assumes ta: "table_at m' (base_pa pt) = (table_at (memory s) (base_pa pt))(n0 := None)"
  shows "\<exists>pt' s'. cut_table free_frame pt s parent idx pa = Some (pt', s') \<and> pt_inv src_ok owned pt' s' \<and>
    base_pa pt' = base_pa pt \<and> memory s' = m' \<and> set (pt_pages pt') \<subseteq> set (pt_pages pt) \<and> room s \<le> room s' \<and>
    owned s' - pt_frames pt' = owned s - pt_frames pt"
proof -
  let ?s1 = "s\<lparr>memory := m'\<rparr>" and ?pfs = "filter (\<lambda>pf. pf_pa pf \<noteq> pa) (pt_pages pt)"
  have tok: "tree_ok (memory s) (base_pa pt)" using inv by (simp add: pt_inv_def)
  have pa: "pa \<in> pf_pa ` set (pt_pages pt)" using inv n0 by (auto simp: pt_inv_def)
  moreover have "pa \<in> owned ?s1" "src_ok ?s1" "distinct (map pf_pa (pt_pages pt))"
    using pt_inv_table_owned[OF inv n0(2)] inv by (auto simp: store pt_inv_def)
  ultimately obtain s' where s': "retain_frames free_frame pa (pt_pages pt) ?s1 = Some (?pfs, s')"
    "src_ok s'" "owned s' = owned s - {pa}" "memory s' = m'" "room s' = Suc (room s)"
    using retain_frames_one[of "pt_pages pt" pa ?s1] by (auto simp: store)
  have tok': "tree_ok m' (base_pa pt)" using tree_okD[OF tok] unfolding tree_ok_def ta by (auto split: if_splits)
  have "{a. \<exists>n. n \<noteq> Root \<and> ((table_at (memory s) (base_pa pt))(n0 := None)) n = Some a} =
      {a. \<exists>n. n \<noteq> Root \<and> table_at (memory s) (base_pa pt) n = Some a} - {pa}"
    using tree_okD(2)[OF tok _ n0(2)] by (rule tables_remove[where F = "table_at (memory s) (base_pa pt)", OF n0])
  moreover have "pf_pa ` set (pt_pages pt) = {a. \<exists>n. n \<noteq> Root \<and> table_at (memory s) (base_pa pt) n = Some a}"
    using inv by (simp add: pt_inv_def)
  ultimately have "pf_pa ` set ?pfs = {a. \<exists>n. n \<noteq> Root \<and> table_at m' (base_pa pt) n = Some a}"
    unfolding ta by auto
  moreover have "distinct (map pf_pa ?pfs)" using inv by (simp add: pt_inv_def distinct_map_filter)
  moreover have "base_pa pt \<noteq> pa" using tree_okD(2)[OF tok n0(2), of Root] n0(1) by auto
  then have "insert (base_pa pt) (pf_pa ` set ?pfs) \<subseteq> owned s'" using inv s'(3) by (auto simp: pt_inv_def)
  ultimately have "pt_inv src_ok owned (pt\<lparr>pt_pages := ?pfs\<rparr>) s'"
    using s'(2,4) tok' unfolding pt_inv_def base_pa_pages by simp
  moreover have "cut_table free_frame pt s parent idx pa = Some (pt\<lparr>pt_pages := ?pfs\<rparr>, s')"
    using s'(1) by (simp add: cut_table_def set_entry_def WORD_SIZE_def m'_def)
  moreover have "owned s' - pt_frames (pt\<lparr>pt_pages := ?pfs\<rparr>) = owned s - pt_frames pt"
    using s'(3) pa by (auto simp: pt_frames_def)
  ultimately show ?thesis using s'(4,5) by auto
qed

lemma empty_page_iff: "empty_page a s \<longleftrightarrow> (\<forall>k < 512. memory s (a + k * 8) = 0)"
  by (auto simp: empty_page_def PAGE_SIZE_def)

lemma empty_page_table: "empty_page a s = empty_table (memory s) a"
  by (simp add: empty_page_iff empty_table_def)

lemma cut_leaf:
  assumes inv: "pt_inv src_ok owned pt s" and leaf: "table_at (memory s) (base_pa pt) (Leaf i j) = Some pa"
    and mid: "mid_at (memory s) (base_pa pt) i = Some (to_pa l1e)" and j: "j < 512" and empty: "empty_page pa s"
  shows "\<exists>pt' s'. cut_table free_frame pt s l1e j pa = Some (pt', s') \<and> pt_inv src_ok owned pt' s' \<and>
    base_pa pt' = base_pa pt \<and> set (pt_pages pt') \<subseteq> set (pt_pages pt) \<and> room s \<le> room s' \<and>
    memory s' = (memory s)(to_pa l1e + j * 8 := 0) \<and> mid_at (memory s') (base_pa pt) i = Some (to_pa l1e) \<and>
    same_view (base_pa pt) (memory s) (memory s') \<and> is_block (memory s') (base_pa pt) = is_block (memory s) (base_pa pt) \<and>
    table_at (memory s') (base_pa pt) = (table_at (memory s) (base_pa pt))(Leaf i j := None) \<and>
    owned s' - pt_frames pt' = owned s - pt_frames pt"
proof -
  let ?d = "base_pa pt" and ?m = "memory s"
  let ?m' = "?m(to_pa l1e + j * 8 := 0)"
  have tok: "tree_ok ?m ?d" using inv by (simp add: pt_inv_def)
  have fresh: "\<forall>u. leaf_of 0 = Some u \<longrightarrow> frame_addr u \<and> (\<forall>n. table_at ?m ?d n \<noteq> Some u)" by (simp add: leaf_of_def)
  note sm = store_mid[OF tok mid j fresh]
  have ta: "table_at ?m' ?d = (table_at ?m ?d)(Leaf i j := None)" using sm(1) by (simp add: leaf_of_def)
  have nb: "\<not> is_block ?m ?d i j" using leaf mid by (auto simp: is_block_def split: if_splits)
  have i: "i < 512" using mid by (auto simp: mid_at_def split: if_splits)
  have view: "same_view ?d ?m ?m'"
    unfolding same_view_def
  proof (intro allI impI)
    fix a b c :: nat assume abc: "a < 512" "b < 512" "c < 512"
    show "pt_lookup ?m' ?d a b c = pt_lookup ?m ?d a b c"
    proof (cases "(a, b) = (i, j)")
      case True
      have "pt_lookup ?m' ?d i j c = None"
        unfolding pt_lookup_table_at[OF i j] sm(3) ta using mid by (simp split: option.split)
      moreover have "pt_lookup ?m ?d i j c = None"
        unfolding pt_lookup_table_at[OF i j] using nb mid leaf empty abc(3)
        by (simp add: empty_page_iff del: table_at.simps(3))
      ultimately show ?thesis using True by simp
    qed (use sm(4)[OF abc] in simp)
  qed
  have ib: "is_block ?m' ?d = is_block ?m ?d" unfolding fun_eq_iff sm(3) using nb by simp
  have tm: "mid_at ?m' ?d i = Some (to_pa l1e)" using fun_cong[OF ta, of "Mid i"] mid by simp
  have "table_at ?m ?d (Mid i) = Some (to_pa l1e)" "Leaf i j \<noteq> Root" using mid by simp_all
  from cut_table_correct[OF inv this(1) j this(2) leaf ta] show ?thesis
    using view ib mid tm ta by (auto simp del: table_at.simps)
qed

lemma cut_mid:
  assumes inv: "pt_inv src_ok owned pt s" and mid: "mid_at (memory s) (base_pa pt) i = Some pa" and empty: "empty_page pa s"
  shows "\<exists>pt' s'. cut_table free_frame pt s (from_pa (base_pa pt)) i pa = Some (pt', s') \<and> pt_inv src_ok owned pt' s' \<and>
    base_pa pt' = base_pa pt \<and> set (pt_pages pt') \<subseteq> set (pt_pages pt) \<and> room s \<le> room s' \<and>
    memory s' = (memory s)(base_pa pt + i * 8 := 0) \<and>
    same_view (base_pa pt) (memory s) (memory s') \<and> is_block (memory s') (base_pa pt) = is_block (memory s) (base_pa pt) \<and>
    table_at (memory s') (base_pa pt) = (table_at (memory s) (base_pa pt))(Mid i := None) \<and>
    owned s' - pt_frames pt' = owned s - pt_frames pt"
proof -
  let ?d = "base_pa pt" and ?m = "memory s"
  let ?m' = "?m(?d + i * 8 := 0)"
  have tok: "tree_ok ?m ?d" using inv by (simp add: pt_inv_def)
  have i: "i < 512" using mid by (auto simp: mid_at_def split: if_splits)
  have d: "to_pa (from_pa ?d) = ?d" using pt_inv_frame[OF inv] by simp
  have "pte_valid 0 \<longrightarrow> frame_addr (to_pa 0) \<and> (\<forall>n. table_at ?m ?d n \<noteq> Some (to_pa 0)) \<and> (\<forall>k < 512. ?m (to_pa 0 + k * 8) = 0)"
    by simp
  note sr = store_root[OF tok i this]
  have noleaf: "table_at ?m ?d (Leaf i q) = None" for q using mid empty by (simp add: empty_page_iff cong: conj_cong)
  have nb: "\<not> is_block ?m ?d i q" for q using mid empty by (auto simp: is_block_def empty_page_iff)
  have ta: "table_at ?m' ?d = (table_at ?m ?d)(Mid i := None)"
  proof
    fix n show "table_at ?m' ?d n = ((table_at ?m ?d)(Mid i := None)) n"
      unfolding sr(1) using noleaf by (auto split: node.splits simp del: table_at.simps(3))
  qed
  have none: "pt_lookup ?m ?d i b c = None" if "b < 512" for b c
    unfolding pt_lookup_table_at[OF i that] using nb noleaf by (simp split: option.split del: table_at.simps(3))
  have view: "same_view ?d ?m ?m'" unfolding same_view_def using sr(4) none by simp
  have ib: "is_block ?m' ?d = is_block ?m ?d" unfolding fun_eq_iff sr(3) using nb by auto
  have "table_at ?m ?d (Mid i) = Some pa" "table_at ?m ?d Root = Some (to_pa (from_pa ?d))" using mid d by simp_all
  from cut_table_correct[OF inv this(2) i _ this(1)] show ?thesis
    using view ib ta d by auto
qed

lemma footprint_mono: "base_pa pt' = base_pa pt \<Longrightarrow> set (pt_pages pt') \<subseteq> set (pt_pages pt) \<Longrightarrow> footprint pt' \<subseteq> footprint pt"
  by (auto simp: footprint_def)

lemma unmap_correct:
  assumes inv: "pt_inv src_ok owned pt s"
    and nb: "\<not> is_block (memory s) (base_pa pt) (pt_lvl1_idx ipa) (pt_lvl2_idx ipa)"
  defines "d \<equiv> base_pa pt"
  shows "\<exists>pt' s'. PageTable_unmap free_frame pt s ipa = Some (pt', s') \<and>
    pt_inv src_ok owned pt' s' \<and> base_pa pt' = d \<and> footprint pt' \<subseteq> footprint pt \<and>
    (\<forall>a. a \<notin> footprint pt \<longrightarrow> memory s' a = memory s a) \<and> is_block (memory s') d = is_block (memory s) d \<and> room s \<le> room s' \<and>
    owned s' - pt_frames pt' = owned s - pt_frames pt \<and>
    table_at (memory s') d \<subseteq>\<^sub>m table_at (memory s) d \<and> (tidy (memory s) d \<longrightarrow> tidy (memory s') d) \<and>
    view_upd d (memory s) (memory s') (pt_lvl1_idx ipa) (pt_lvl2_idx ipa) (pt_lvl3_idx ipa) None"
proof -
  let ?i = "pt_lvl1_idx ipa" and ?j = "pt_lvl2_idx ipa" and ?k = "pt_lvl3_idx ipa" and ?m = "memory s"
  let ?l1e = "?m (d + ?i * 8)"
  let ?l2e = "?m (to_pa ?l1e + ?j * 8)"
  let ?l3e = "?m (to_pa ?l2e + ?k * 8)"
  have d: "to_pa (from_pa d) = d" using pt_inv_frame[OF inv] by (simp add: d_def)
  have ent: "pte_entry (from_pa d) ?i s = ?l1e" "pte_entry ?l1e ?j s = ?l2e" "pte_entry ?l2e ?k s = ?l3e"
    by (simp_all add: pte_entry_def WORD_SIZE_def d)
  show ?thesis
  proof (cases "pte_valid ?l1e \<and> pte_valid ?l2e \<and> pte_valid ?l3e")
    case False
    then have res: "PageTable_unmap free_frame pt s ipa = Some (pt, s)"
      using ent unfolding PageTable_unmap_def Let_def d_def[symmetric] by auto
    have "?l2e AND 0b11 \<noteq> PTE_BLOCK" if "pte_valid ?l1e" "pte_valid ?l2e"
      using nb that by (auto simp: is_block_def mid_at_def d_def)
    with False have "pt_lookup ?m d ?i ?j ?k = None" by (auto simp: pt_lookup_def Let_def)
    then show ?thesis using res inv by (auto simp: view_upd_def d_def)
  next
    case True
    have mid: "mid_at ?m d ?i = Some (to_pa ?l1e)" using True by (simp add: mid_at_def)
    have nbl: "?l2e AND 0b11 \<noteq> PTE_BLOCK" using nb True mid by (auto simp: is_block_def d_def)
    have leaf: "table_at ?m d (Leaf ?i ?j) = Some (to_pa ?l2e)" using True mid nbl by simp
    have tok: "tree_ok ?m d" using inv by (simp add: pt_inv_def d_def)
    define m1 where "m1 = ?m(to_pa ?l2e + ?k * 8 := 0)"
    note sl = store_leaf[where v = 0, OF tok leaf pt_idx_bound(3)[of ipa], folded m1_def]
    define s1 where "s1 = s\<lparr>memory := m1\<rparr>"
    have ms1: "memory s1 = m1" by (simp add: s1_def)
    have se: "set_entry ?l2e ?k (from_pa 0) s = s1" by (simp add: set_entry_def WORD_SIZE_def s1_def m1_def from_pa_def)
    have inv1: "pt_inv src_ok owned pt s1" unfolding s1_def using sl(1,2) by (intro pt_inv_store[OF inv]) (simp_all add: d_def)
    have room1: "room s1 = room s" "owned s1 = owned s" by (simp_all add: s1_def store)
    have td1: "tidy_but {Leaf ?i ?j} m1 d" if "tidy ?m d"
      using tidy_zero_store[OF tok leaf pt_idx_bound(3)[of ipa] that] sl(1) by (simp add: m1_def)
    have view1: "view_upd d ?m m1 ?i ?j ?k None" using sl(4) by (simp add: view_upd_def)
    have mid1: "mid_at m1 d ?i = Some (to_pa ?l1e)" using fun_cong[OF sl(1), of "Mid ?i"] mid by simp
    have leaf1: "table_at m1 d (Leaf ?i ?j) = Some (to_pa ?l2e)" using sl(1) leaf by simp
    have inl2: "{to_pa ?l2e..<to_pa ?l2e + PAGE_SIZE} \<subseteq> footprint pt"
      using table_in_footprint[OF inv, of "Leaf ?i ?j"] leaf by (simp add: d_def del: table_at.simps)
    have inl1: "{to_pa ?l1e..<to_pa ?l1e + PAGE_SIZE} \<subseteq> footprint pt"
      using table_in_footprint[OF inv, of "Mid ?i"] mid by (simp add: d_def)
    have out1: "m1 a = ?m a" if "a \<notin> footprint pt" for a
      using that slot_in_footprint[OF inl2 pt_idx_bound(3)] by (auto simp: m1_def)
    have res: "PageTable_unmap free_frame pt s ipa =
        (if empty_page (to_pa ?l2e) s1 then do {
           (pt, s2) \<leftarrow> cut_table free_frame pt s1 ?l1e ?j (to_pa ?l2e);
           if empty_page (to_pa ?l1e) s2 then cut_table free_frame pt s2 (from_pa d) ?i (to_pa ?l1e)
           else Some (pt, s2) }
         else Some (pt, s1))"
      unfolding PageTable_unmap_def Let_def d_def[symmetric] ent se using True by simp
    show ?thesis
    proof (cases "empty_page (to_pa ?l2e) s1")
      case False
      then have "PageTable_unmap free_frame pt s ipa = Some (pt, s1)" using res by simp
      moreover have "tidy m1 d" if "tidy ?m d"
        using tidy_but_full[OF td1[OF that]] leaf1 False by (auto simp: empty_page_table ms1 simp del: table_at.simps)
      ultimately show ?thesis using inv1 view1 out1 sl(1,3) room1 ms1 by (auto simp: d_def)
    next
      case True
      obtain pt2 s2 where 2: "cut_table free_frame pt s1 ?l1e ?j (to_pa ?l2e) = Some (pt2, s2)" "pt_inv src_ok owned pt2 s2"
        "base_pa pt2 = d" "set (pt_pages pt2) \<subseteq> set (pt_pages pt)" "room s1 \<le> room s2"
        "memory s2 = m1(to_pa ?l1e + ?j * 8 := 0)" "mid_at (memory s2) d ?i = Some (to_pa ?l1e)"
        "same_view d m1 (memory s2)" "is_block (memory s2) d = is_block m1 d"
        "table_at (memory s2) d = (table_at m1 d)(Leaf ?i ?j := None)" "owned s2 - pt_frames pt2 = owned s - pt_frames pt"
        using cut_leaf[OF inv1, of ?i ?j "to_pa ?l2e" ?l1e] leaf1 mid1 True unfolding ms1 d_def room1(2) by (auto simp del: table_at.simps(3))
      have out2: "memory s2 a = ?m a" if "a \<notin> footprint pt" for a
        using that slot_in_footprint[OF inl1 pt_idx_bound(2)] out1 by (auto simp: 2(6))
      have le2: "table_at (memory s2) d \<subseteq>\<^sub>m table_at ?m d" unfolding 2(10) sl(1) by (simp add: map_le_def)
      have td2: "tidy_but {Mid ?i} (memory s2) d" if "tidy ?m d"
      proof -
        have tk: "tree_ok m1 d" and tm: "table_at m1 d (Mid ?i) = Some (to_pa ?l1e)" using sl(2) mid1 by simp_all
        have le: "table_at (memory s2) d \<subseteq>\<^sub>m table_at m1 d" unfolding 2(10) by (simp add: map_le_def)
        have "tidy_but {Mid ?i, Leaf ?i ?j} (memory s2) d"
          using tidy_zero_store[OF tk tm pt_idx_bound(2)[of ipa] td1[OF that]] le unfolding 2(6) .
        then show ?thesis using 2(10) unfolding tidy_but_def by (auto simp del: table_at.simps split: if_splits)
      qed
      have view2: "view_upd d ?m (memory s2) ?i ?j ?k None" using view1 2(8) by (simp add: view_upd_def same_view_def)
      show ?thesis
      proof (cases "empty_page (to_pa ?l1e) s2")
        case False
        then have "PageTable_unmap free_frame pt s ipa = Some (pt2, s2)" using res True 2(1) by simp
        moreover have "tidy (memory s2) d" if "tidy ?m d"
          using tidy_but_full[OF td2[OF that]] 2(7) False by (auto simp: empty_page_table)
        ultimately show ?thesis using 2(2,3,5,9,11) footprint_mono[OF _ 2(4)] out2 view2 sl(3) room1 le2 by (simp add: d_def)
      next
        case e2: True
        obtain pt3 s3 where 3: "cut_table free_frame pt2 s2 (from_pa d) ?i (to_pa ?l1e) = Some (pt3, s3)" "pt_inv src_ok owned pt3 s3"
          "base_pa pt3 = d" "set (pt_pages pt3) \<subseteq> set (pt_pages pt2)" "room s2 \<le> room s3"
          "memory s3 = (memory s2)(d + ?i * 8 := 0)"
          "same_view d (memory s2) (memory s3)" "is_block (memory s3) d = is_block (memory s2) d"
          "table_at (memory s3) d = (table_at (memory s2) d)(Mid ?i := None)" "owned s3 - pt_frames pt3 = owned s2 - pt_frames pt2"
          using cut_mid[OF 2(2), of ?i "to_pa ?l1e"] 2(7) e2 unfolding 2(3) by auto
        have "PageTable_unmap free_frame pt s ipa = Some (pt3, s3)" using res True 2(1) e2 3(1) by simp
        moreover have "memory s3 a = ?m a" if "a \<notin> footprint pt" for a
          using that slot_in_footprint[OF base_in_footprint pt_idx_bound(1), of pt ipa] out2 by (auto simp: 3(6) d_def)
        moreover have "view_upd d ?m (memory s3) ?i ?j ?k None" using view2 3(7) by (simp add: view_upd_def same_view_def)
        moreover have "table_at (memory s3) d \<subseteq>\<^sub>m table_at ?m d" using le2 unfolding 3(9) by (auto simp: map_le_def)
        moreover have "tidy (memory s3) d" if "tidy ?m d"
        proof -
          have tk: "tree_ok (memory s2) d" using 2(2,3) by (simp add: pt_inv_def)
          have rt: "table_at (memory s2) d Root = Some d" by simp
          have le: "table_at ((memory s2)(d + ?i * 8 := 0)) d \<subseteq>\<^sub>m table_at (memory s2) d"
            unfolding 3(6)[symmetric] 3(9) by (simp add: map_le_def)
          have "tidy_but {Root, Mid ?i} (memory s3) d"
            using tidy_zero_store[OF tk rt pt_idx_bound(1)[of ipa] td2[OF that] le] unfolding 3(6) .
          then show ?thesis using 3(9) unfolding tidy_but_def by (auto simp del: table_at.simps split: if_splits)
        qed
        ultimately show ?thesis using 2(5,9,11) 3(2,3,5,8,10) footprint_mono[OF _ subset_trans[OF 3(4) 2(4)]] sl(3) room1 by (simp add: d_def)
      qed
    qed
  qed
qed

lemma map_2mb_correct:
  assumes inv: "pt_inv src_ok owned pt s" and pa: "frame_addr pa" "pte AND 0b11 = 0"
    and none: "\<forall>k < 512. pt_lookup (memory s) (base_pa pt) (pt_lvl1_idx ipa) (pt_lvl2_idx ipa) k = None"
    and nl: "table_at (memory s) (base_pa pt) (Leaf (pt_lvl1_idx ipa) (pt_lvl2_idx ipa)) = None"
  defines "d \<equiv> base_pa pt"
  shows "\<exists>pt' s'. map_2mb alloc pt s ipa pa pte = Some (pt', s') \<and>
    pt_inv src_ok owned pt' s' \<and> base_pa pt' = d \<and>
    (\<forall>a. a \<notin> footprint pt' \<longrightarrow> memory s' a = memory s a) \<and> room s \<le> room s' + 1 \<and>
    (view_upd_block d (memory s) (memory s') (pt_lvl1_idx ipa) (pt_lvl2_idx ipa) (Some (from_pa pa OR pte OR PTE_BLOCK)) \<and>
       is_block (memory s') d (pt_lvl1_idx ipa) (pt_lvl2_idx ipa) \<or>
     room s = 0 \<and> same_view d (memory s) (memory s'))"
proof (rule table_or_alloc_mid[OF inv pt_idx_bound(1)[of ipa]])
  assume "table_or_alloc alloc pt s (from_pa (base_pa pt)) (pt_lvl1_idx ipa) = Some (None, pt, s)" "room s = 0"
    "table_at (memory s) (base_pa pt) (Mid (pt_lvl1_idx ipa)) = None"
  then show ?thesis using inv by (simp add: map_2mb_def same_view_def d_def)
next
  let ?i = "pt_lvl1_idx ipa" and ?j = "pt_lvl2_idx ipa"
  fix l1e pt1 s1
  assume 1: "table_or_alloc alloc pt s (from_pa (base_pa pt)) ?i = Some (Some l1e, pt1, s1)"
    "pt_inv src_ok owned pt1 s1" "base_pa pt1 = base_pa pt" "set (pt_pages pt) \<subseteq> set (pt_pages pt1)"
    "mid_at (memory s1) (base_pa pt) ?i = Some (to_pa l1e)" "same_view (base_pa pt) (memory s) (memory s1)"
    "is_block (memory s1) (base_pa pt) = is_block (memory s) (base_pa pt)"
    "room s = room s1 + (if table_at (memory s) (base_pa pt) (Mid ?i) = None then 1 else 0)"
    "\<forall>a. a \<notin> footprint pt1 \<longrightarrow> memory s1 a = memory s a"
    "adds_table (base_pa pt) (Mid ?i) (memory s) (memory s1)" "owned s1 - pt_frames pt1 = owned s - pt_frames pt"
    "\<forall>p q. table_at (memory s1) (base_pa pt) (Leaf p q) = table_at (memory s) (base_pa pt) (Leaf p q)"
  let ?v = "from_pa pa OR pte OR PTE_BLOCK"
  let ?m' = "(memory s1)(to_pa l1e + ?j * 8 := ?v)"
  have ent: "pte_entry l1e ?j s1 = memory s1 (to_pa l1e + ?j * 8)" by (simp add: pte_entry_def WORD_SIZE_def)
  have mid: "mid_at (memory s1) d ?i = Some (to_pa l1e)" and tok: "tree_ok (memory s1) d" and d1: "base_pa pt1 = d"
    using 1(2,3,5) by (simp_all add: pt_inv_def d_def)
  have nb: "\<not> is_block (memory s1) d ?i ?j"
  proof
    assume "is_block (memory s1) d ?i ?j"
    moreover have "pt_lookup (memory s1) d ?i ?j 0 = None" using none 1(6) by (simp add: same_view_def d_def)
    ultimately show False using mid unfolding pt_lookup_table_at[OF pt_idx_bound(1,2)] by simp
  qed
  have "table_at (memory s1) d (Leaf ?i ?j) = None" using 1(12) nl by (simp add: d_def del: table_at.simps)
  with mid nb have inval: "\<not> pte_valid (memory s1 (to_pa l1e + ?j * 8))" by (auto simp: is_block_def split: if_splits)
  have lv: "leaf_of ?v = None" using block_entry[OF pa] by (simp add: leaf_of_def)
  then have fresh: "\<forall>u. leaf_of ?v = Some u \<longrightarrow> frame_addr u \<and> (\<forall>n. table_at (memory s1) d n \<noteq> Some u)" by simp
  note sm = store_mid[OF tok mid pt_idx_bound(2)[of ipa] fresh]
  have ta: "table_at ?m' d = table_at (memory s1) d"
    using sm(1) lv \<open>table_at (memory s1) d (Leaf ?i ?j) = None\<close> by (metis fun_upd_triv)
  have inv': "pt_inv src_ok owned pt1 (s1\<lparr>memory := ?m'\<rparr>)"
    using ta sm(2) d1 by (intro pt_inv_store[OF 1(2)]) simp_all
  have res: "map_2mb alloc pt s ipa pa pte = Some (pt1, s1\<lparr>memory := ?m'\<rparr>)"
    using 1(1) ent inval by (simp add: map_2mb_def set_entry_def WORD_SIZE_def)
  have blk: "is_block ?m' d ?i ?j" using sm(3) block_entry[OF pa] by simp
  have view: "view_upd_block d (memory s) ?m' ?i ?j (Some ?v)"
    unfolding view_upd_block_def
  proof (intro allI impI)
    fix a b c :: nat assume abc: "a < 512" "b < 512" "c < 512"
    have "mid_at ?m' d ?i = Some (to_pa l1e)" using fun_cong[OF ta, of "Mid ?i"] mid by simp
    then have "pt_lookup ?m' d ?i ?j c = Some ?v" using blk unfolding pt_lookup_table_at[OF pt_idx_bound(1,2)] by simp
    then show "pt_lookup ?m' d a b c = (if (a, b) = (?i, ?j) then Some ?v else pt_lookup (memory s) d a b c)"
      using sm(4)[OF abc] 1(6) abc by (auto simp: same_view_def d_def)
  qed
  have "to_pa l1e + ?j * 8 \<in> footprint pt1"
    using slot_in_footprint[OF table_in_footprint[OF 1(2), of "Mid ?i"] pt_idx_bound(2)] mid d1 by simp
  then have "\<forall>a. a \<notin> footprint pt1 \<longrightarrow> ?m' a = memory s a" using 1(9) by auto
  then show ?thesis using res inv' d1 1(8) view blk by (auto simp: store)
qed

lemma unmap_2mb_correct:
  assumes inv: "pt_inv src_ok owned pt s"
    and blk: "is_block (memory s) (base_pa pt) (pt_lvl1_idx ipa) (pt_lvl2_idx ipa)"
  defines "d \<equiv> base_pa pt"
  shows "\<exists>pt' s'. unmap_2mb free_frame pt s ipa = Some (pt', s') \<and>
    pt_inv src_ok owned pt' s' \<and> base_pa pt' = d \<and> footprint pt' \<subseteq> footprint pt \<and>
    (\<forall>a. a \<notin> footprint pt \<longrightarrow> memory s' a = memory s a) \<and> room s \<le> room s' \<and>
    view_upd_block d (memory s) (memory s') (pt_lvl1_idx ipa) (pt_lvl2_idx ipa) None"
proof -
  let ?i = "pt_lvl1_idx ipa" and ?j = "pt_lvl2_idx ipa" and ?m = "memory s"
  let ?l1e = "?m (d + ?i * 8)"
  let ?l2e = "?m (to_pa ?l1e + ?j * 8)"
  have d: "to_pa (from_pa d) = d" using pt_inv_frame[OF inv] by (simp add: d_def)
  have mid: "mid_at ?m d ?i = Some (to_pa ?l1e)" and v: "pte_valid ?l1e" "pte_valid ?l2e" "?l2e AND 0b11 = PTE_BLOCK"
    using blk by (auto simp: is_block_def mid_at_def d_def split: if_splits)
  have ent: "pte_entry (from_pa d) ?i s = ?l1e" "pte_entry ?l1e ?j s = ?l2e"
    by (simp_all add: pte_entry_def WORD_SIZE_def d)
  define s1 where "s1 = s\<lparr>memory := ?m(to_pa ?l1e + ?j * 8 := 0)\<rparr>"
  have se: "set_entry ?l1e ?j 0 s = s1" by (simp add: set_entry_def WORD_SIZE_def s1_def)
  have ms1: "memory s1 = ?m(to_pa ?l1e + ?j * 8 := 0)" by (simp add: s1_def)
  have tok: "tree_ok ?m d" using inv by (simp add: pt_inv_def d_def)
  have fresh: "\<forall>u. leaf_of 0 = Some u \<longrightarrow> frame_addr u \<and> (\<forall>n. table_at ?m d n \<noteq> Some u)" by (simp add: leaf_of_def)
  note sm = store_mid[OF tok mid pt_idx_bound(2)[of ipa] fresh, folded ms1]
  have "table_at ?m d (Leaf ?i ?j) = None" using mid v by simp
  then have ta: "table_at (memory s1) d = table_at ?m d" using sm(1) by (metis fun_upd_triv leaf_of_def pte_valid_0)
  have inv1: "pt_inv src_ok owned pt s1" unfolding s1_def using ta sm(2) ms1 by (intro pt_inv_store[OF inv]) (simp_all add: d_def)
  have mid1: "mid_at (memory s1) d ?i = Some (to_pa ?l1e)" using fun_cong[OF ta, of "Mid ?i"] mid by simp
  have view1: "view_upd_block d ?m (memory s1) ?i ?j None"
    unfolding view_upd_block_def
  proof (intro allI impI)
    fix a b c :: nat assume abc: "a < 512" "b < 512" "c < 512"
    have "table_at (memory s1) d (Leaf ?i ?j) = None" using ta \<open>table_at ?m d (Leaf ?i ?j) = None\<close> by simp
    then have "pt_lookup (memory s1) d ?i ?j c = None"
      using mid1 sm(3)[of ?i ?j] unfolding pt_lookup_table_at[OF pt_idx_bound(1,2)] by (simp del: table_at.simps(3))
    then show "pt_lookup (memory s1) d a b c = (if (a, b) = (?i, ?j) then None else pt_lookup ?m d a b c)"
      using sm(4)[OF abc] by auto
  qed
  have "{to_pa ?l1e..<to_pa ?l1e + PAGE_SIZE} \<subseteq> footprint pt"
    using table_in_footprint[OF inv, of "Mid ?i"] mid by (simp add: d_def)
  from slot_in_footprint[OF this pt_idx_bound(2)] have out1: "memory s1 a = ?m a" if "a \<notin> footprint pt" for a
    using that by (auto simp: ms1)
  have res: "unmap_2mb free_frame pt s ipa =
      (if empty_page (to_pa ?l1e) s1 then cut_table free_frame pt s1 (from_pa d) ?i (to_pa ?l1e) else Some (pt, s1))"
    unfolding unmap_2mb_def Let_def d_def[symmetric] ent se using v by simp
  show ?thesis
  proof (cases "empty_page (to_pa ?l1e) s1")
    case False
    then show ?thesis using res inv1 view1 out1 by (auto simp: d_def s1_def store)
  next
    case True
    obtain pt3 s3 where 3: "cut_table free_frame pt s1 (from_pa d) ?i (to_pa ?l1e) = Some (pt3, s3)" "pt_inv src_ok owned pt3 s3"
      "base_pa pt3 = d" "set (pt_pages pt3) \<subseteq> set (pt_pages pt)" "room s1 \<le> room s3"
      "memory s3 = (memory s1)(d + ?i * 8 := 0)" "same_view d (memory s1) (memory s3)"
      using cut_mid[OF inv1, of ?i "to_pa ?l1e"] mid1 True by (auto simp: d_def)
    have "memory s3 a = ?m a" if "a \<notin> footprint pt" for a
      using that slot_in_footprint[OF base_in_footprint pt_idx_bound(1), of pt ipa] out1 by (auto simp: 3(6) d_def)
    moreover have "view_upd_block d ?m (memory s3) ?i ?j None" using view1 3(7) by (simp add: view_upd_block_def same_view_def)
    moreover have "room s \<le> room s3" using 3(5) by (simp add: s1_def store)
    ultimately show ?thesis using res True 3(1-3) footprint_mono[OF _ 3(4)] by (simp add: d_def)
  qed
qed

text \<open>A page table on a fresh directory maps nothing.\<close>

lemma pt_new_inv:
  assumes ok: "src_ok s" and al: "alloc s = Some (Inr f, s')"
  shows "pt_inv src_ok owned (PageTable_new f) s'" and "pt_lookup (memory s') (pf_pa f) i j k = None \<or> 512 \<le> i"
    and "\<not> is_block (memory s') (pf_pa f) i j" and "room s = Suc (room s')"
proof -
  note c = alloc_Inr[OF ok al]
  have z: "memory s' (pf_pa f + i * 8) = 0" if "i < 512" for i
    using c slot_in_page[OF that, of "pf_pa f"] by (simp add: memset_zero_in)
  have mid: "mid_at (memory s') (pf_pa f) i = None" for i using z[of i] by (auto simp: mid_at_def)
  have ta: "table_at (memory s') (pf_pa f) n = (if n = Root then Some (pf_pa f) else None)" for n
    using mid by (cases n) auto
  have fa: "frame_addr (pf_pa f)" using c owned_frames by blast
  have "tree_ok (memory s') (pf_pa f)" unfolding tree_ok_def ta using fa by auto
  then show "pt_inv src_ok owned (PageTable_new f) s'"
    using c ta by (simp add: pt_inv_def PageTable_new_def base_pa_def)
  show "pt_lookup (memory s') (pf_pa f) i j k = None \<or> 512 \<le> i"
    using z[of i] by (cases "i < 512") (simp_all add: pt_lookup_def)
  show "\<not> is_block (memory s') (pf_pa f) i j" using mid by (simp add: is_block_def)
  show "room s = Suc (room s')" using c by simp
qed

end

end
