(* ===== verification/Stage2.thy ===== *)
theory Stage2
  imports PageTree
begin

text \<open>
  Page tables over the page heap: the heap is a page source, and the operations of
  \<open>src/src/arch/aarch64/page_table.rs\<close> called with it map, unmap and leave alone exactly the guest
  addresses they should.  Addresses are below \<open>2 ^ 39\<close>, what a three-level table of 4 KiB pages spans.
\<close>

section \<open>The heap as a page source\<close>

definition heap_src_ok :: "phys \<Rightarrow> bool" where
  "heap_src_ok s \<longleftrightarrow> heap_wf (heap s) \<and>
     mr_base (heap_region (heap s)) + mr_size (heap_region (heap s)) * PAGE_SIZE \<le> 2 ^ 48 \<and>
     mr_free (heap_region (heap s)) + card (heap_bits (heap s)) < usize_bound"

definition heap_owned :: "phys \<Rightarrow> usize set" where
  "heap_owned s = (\<lambda>p. mr_base (heap_region (heap s)) + p * PAGE_SIZE) ` heap_bits (heap s)"

definition heap_room :: "phys \<Rightarrow> nat" where
  "heap_room s = mr_size (heap_region (heap s)) - card (heap_bits (heap s))"

lemma heap_wf_card: "heap_wf h \<Longrightarrow> card (heap_bits h) \<le> mr_size (heap_region h)"
  using card_mono[of "{..<mr_size (heap_region h)}" "heap_bits h"] by (simp add: heap_wf_def)

lemma heap_alloc_one:
  assumes ok: "heap_src_ok s" and al: "mem_page_alloc s = Some (Inr f, s')"
  shows "heap_src_ok s' \<and> pf_pa f \<notin> heap_owned s \<and> heap_owned s' = insert (pf_pa f) (heap_owned s) \<and>
    heap_room s = Suc (heap_room s') \<and> memory s' = memset_zero (pf_pa f) PAGE_SIZE (memory s)"
proof -
  have wf: "heap_wf (heap s)" using ok by (simp add: heap_src_ok_def)
  obtain pa where al': "mem_heap_alloc s 1 = Some (Inr pa, s')" and f: "f = \<lparr>pf_pa = pa, pf_page_num = 1\<rparr>"
    using al by (auto simp: mem_page_alloc_def PageFrame_alloc_pages_Inr)
  obtain p where pa: "pa = mr_base (heap_region (heap s)) + p * PAGE_SIZE" and t: "heap_taken s s' p 1"
    using mem_heap_alloc_Inr[OF wf al'] by blast
  have t': "p \<notin> heap_bits (heap s)" "p < mr_size (heap_region (heap s))" "heap_wf (heap s')" "heap_bits (heap s') = insert p (heap_bits (heap s))"
    "mr_base (heap_region (heap s')) = mr_base (heap_region (heap s))"
    "mr_size (heap_region (heap s')) = mr_size (heap_region (heap s))"
    "Suc (mr_free (heap_region (heap s'))) = mr_free (heap_region (heap s))"
    "memory s' = memset_zero pa PAGE_SIZE (memory s)"
    using t by (auto simp: heap_taken_def free_run_def pa)
  have c: "card (heap_bits (heap s')) = Suc (card (heap_bits (heap s)))"
    using t'(1,4) heap_wf_bits_finite by simp
  have "heap_src_ok s'" using ok t' c by (simp add: heap_src_ok_def)
  moreover have "heap_room s = Suc (heap_room s')"
    using c heap_wf_card[OF t'(3)] t'(6) by (simp add: heap_room_def)
  ultimately show ?thesis using t' f pa by (auto simp: heap_owned_def)
qed

lemma heap_alloc_full:
  assumes ok: "heap_src_ok s" and al: "mem_page_alloc s = Some (Inl err, s')"
  shows "s' = s \<and> heap_room s = 0"
proof -
  have wf: "heap_wf (heap s)" using ok by (simp add: heap_src_ok_def)
  have al': "mem_heap_alloc s 1 = Some (Inl err, s')"
    using al by (simp add: mem_page_alloc_def PageFrame_alloc_pages_Inl)
  have no: "\<not> free_run (heap s) q 1" for q
    by (rule mem_heap_alloc_cases[OF wf, of 1]) (use al' in auto)
  have "{..<mr_size (heap_region (heap s))} \<subseteq> heap_bits (heap s)"
  proof
    fix q assume "q \<in> {..<mr_size (heap_region (heap s))}"
    then show "q \<in> heap_bits (heap s)" using no[of q] by (simp add: free_run_def)
  qed
  then have "mr_size (heap_region (heap s)) \<le> card (heap_bits (heap s))"
    using card_mono[OF heap_wf_bits_finite, of "{..<mr_size (heap_region (heap s))}" "heap s"] by simp
  then show ?thesis using mem_heap_alloc_Inl[OF wf al'] by (simp add: heap_room_def)
qed

lemma heap_alloc_total: "heap_src_ok s \<Longrightarrow> mem_page_alloc s \<noteq> None"
proof -
  assume "heap_src_ok s"
  then have wf: "heap_wf (heap s)" by (simp add: heap_src_ok_def)
  have al: "mr_base (heap_region (heap s)) mod PAGE_SIZE = 0" using wf by (simp add: heap_wf_def)
  show ?thesis
    by (rule mem_heap_alloc_cases[OF wf, of 1])
      (auto simp: mem_page_alloc_def PageFrame_alloc_pages_def PageFrame_new_def al)
qed

lemma heap_free_one:
  assumes ok: "heap_src_ok s" and own: "pf_pa f \<in> heap_owned s"
  shows "\<exists>s'. PageFrame_drop f s = Some s' \<and> heap_src_ok s' \<and> heap_owned s' = heap_owned s - {pf_pa f} \<and>
    memory s' = memory s \<and> heap_room s' = Suc (heap_room s)"
proof -
  have wf: "heap_wf (heap s)" using ok by (simp add: heap_src_ok_def)
  obtain p where p: "pf_pa f = mr_base (heap_region (heap s)) + p * PAGE_SIZE" "p \<in> heap_bits (heap s)"
    using own by (auto simp: heap_owned_def)
  then have lt: "p < mr_size (heap_region (heap s))" using wf by (auto simp: heap_wf_def)
  have "card (heap_bits (heap s)) \<noteq> 0" using p(2) heap_wf_bits_finite by auto
  then have "mr_free (heap_region (heap s)) + 1 < usize_bound" using ok by (simp add: heap_src_ok_def)
  with free_pages_at[OF wf p(1), of 1] lt obtain h' where h': "free_pages (heap s) (pf_pa f) 1 = Some (True, h')" "heap_wf h'"
    "heap_bits h' = heap_bits (heap s) - {p}" "mr_base (heap_region h') = mr_base (heap_region (heap s))"
    "mr_size (heap_region h') = mr_size (heap_region (heap s))" "mr_free (heap_region h') = mr_free (heap_region (heap s)) + 1"
    by auto
  let ?s' = "s\<lparr>heap := h'\<rparr>"
  have c: "Suc (card (heap_bits h')) = card (heap_bits (heap s))"
    unfolding h'(3) using p(2) heap_wf_bits_finite by (intro card_Suc_Diff1)
  have "inj (\<lambda>p. mr_base (heap_region (heap s)) + p * PAGE_SIZE)" by (auto simp: inj_on_def)
  then have "heap_owned ?s' = heap_owned s - {pf_pa f}"
    by (simp add: heap_owned_def h' p(1) image_set_diff)
  moreover have "heap_src_ok ?s'" using ok h' c by (simp add: heap_src_ok_def)
  moreover have "heap_room ?s' = Suc (heap_room s)"
    using c heap_wf_card[OF wf] by (simp add: heap_room_def h')
  moreover have "PageFrame_drop f s = Some ?s'" using h'(1) by (simp add: PageFrame_drop_def mem_heap_free_def)
  ultimately show ?thesis by auto
qed

lemma heap_owned_frames:
  assumes "heap_src_ok s" and "a \<in> heap_owned s"
  shows "frame_addr a"
proof -
  from assms obtain p where p: "a = mr_base (heap_region (heap s)) + p * PAGE_SIZE" "p < mr_size (heap_region (heap s))"
    by (auto simp: heap_owned_def heap_src_ok_def heap_wf_def)
  have "p * PAGE_SIZE < mr_size (heap_region (heap s)) * PAGE_SIZE" using p(2) by simp
  then have "a < 2 ^ 48" using assms(1) p(1) unfolding heap_src_ok_def by linarith
  moreover have "a mod PAGE_SIZE = 0" using assms(1) p(1) by (simp add: heap_src_ok_def heap_wf_def)
  ultimately show ?thesis by (simp add: frame_addr_def)
qed

interpretation pages: page_source mem_page_alloc PageFrame_drop heap_src_ok heap_owned heap_room
proof
  fix s :: phys and f s' err a m
  show "heap_src_ok s \<Longrightarrow> mem_page_alloc s = Some (Inr f, s') \<Longrightarrow>
      heap_src_ok s' \<and> pf_pa f \<notin> heap_owned s \<and> heap_owned s' = insert (pf_pa f) (heap_owned s) \<and>
      heap_room s = Suc (heap_room s') \<and> memory s' = memset_zero (pf_pa f) PAGE_SIZE (memory s)"
    by (rule heap_alloc_one)
  show "heap_src_ok s \<Longrightarrow> mem_page_alloc s = Some (Inl err, s') \<Longrightarrow> s' = s \<and> heap_room s = 0"
    by (rule heap_alloc_full)
  show "heap_src_ok s \<Longrightarrow> mem_page_alloc s \<noteq> None" by (rule heap_alloc_total)
  show "heap_src_ok s \<Longrightarrow> pf_pa f \<in> heap_owned s \<Longrightarrow> \<exists>s'. PageFrame_drop f s = Some s' \<and> heap_src_ok s' \<and>
      heap_owned s' = heap_owned s - {pf_pa f} \<and> memory s' = memory s \<and> heap_room s' = Suc (heap_room s)"
    by (rule heap_free_one)
  show "heap_src_ok s \<Longrightarrow> a \<in> heap_owned s \<Longrightarrow> frame_addr a" by (rule heap_owned_frames)
qed (simp_all add: heap_src_ok_def heap_owned_def heap_room_def)

section \<open>Addresses\<close>

definition translate :: "(usize \<Rightarrow> u64) \<Rightarrow> usize \<Rightarrow> usize \<Rightarrow> u64 option" where
  "translate m d a = pt_lookup m d (pt_lvl1_idx a) (pt_lvl2_idx a) (pt_lvl3_idx a)"

definition in_block :: "(usize \<Rightarrow> u64) \<Rightarrow> usize \<Rightarrow> usize \<Rightarrow> bool" where
  "in_block m d a = is_block m d (pt_lvl1_idx a) (pt_lvl2_idx a)"

abbreviation heap_pt :: "PageTable \<Rightarrow> phys \<Rightarrow> bool" where
  "heap_pt \<equiv> pt_inv heap_src_ok heap_owned"

lemma page_digits:
  assumes "a < 2 ^ 39"
  shows "a div PAGE_SIZE = (pt_lvl1_idx a * 512 + pt_lvl2_idx a) * 512 + pt_lvl3_idx a"
    and "a div 2 ^ 21 = pt_lvl1_idx a * 512 + pt_lvl2_idx a"
proof -
  define x where "x = a div 2 ^ 12"
  have e: "a div 2 ^ 21 = x div 512" "a div 2 ^ 30 = x div 512 div 512"
    unfolding x_def div_mult2_eq[symmetric] by simp_all
  have "a div 2 ^ 30 < 512" using assms by (simp add: less_mult_imp_div_less)
  then have i: "pt_lvl1_idx a = x div 512 div 512" "pt_lvl2_idx a = x div 512 mod 512" "pt_lvl3_idx a = x mod 512"
    unfolding pt_idx_div e by (simp_all add: x_def)
  show "a div PAGE_SIZE = (pt_lvl1_idx a * 512 + pt_lvl2_idx a) * 512 + pt_lvl3_idx a"
    unfolding i div_mult_mod_eq by (simp add: x_def PAGE_SIZE_def)
  show "a div 2 ^ 21 = pt_lvl1_idx a * 512 + pt_lvl2_idx a" unfolding i div_mult_mod_eq e by simp
qed

lemma digits_inj:
  "(j::nat) < n \<Longrightarrow> j' < n \<Longrightarrow> i * n + j = i' * n + j' \<longleftrightarrow> i = i' \<and> j = j'"
  by (metis add.commute div_mult_self_is_m div_mult_self3 div_less add_0_right mod_mult_self3 mod_less less_zeroE neq0_conv)

lemma same_page_iff:
  assumes "a < 2 ^ 39" and "b < 2 ^ 39"
  shows "(pt_lvl1_idx a, pt_lvl2_idx a, pt_lvl3_idx a) = (pt_lvl1_idx b, pt_lvl2_idx b, pt_lvl3_idx b) \<longleftrightarrow>
      a div PAGE_SIZE = b div PAGE_SIZE"
    and "(pt_lvl1_idx a, pt_lvl2_idx a) = (pt_lvl1_idx b, pt_lvl2_idx b) \<longleftrightarrow> a div 2 ^ 21 = b div 2 ^ 21"
  unfolding page_digits[OF assms(1)] page_digits[OF assms(2)] digits_inj[OF pt_idx_bound(3) pt_idx_bound(3)]
    digits_inj[OF pt_idx_bound(2) pt_idx_bound(2)] by simp_all

lemma view_upd_translate:
  assumes "view_upd d m m' (pt_lvl1_idx ipa) (pt_lvl2_idx ipa) (pt_lvl3_idx ipa) v" and "ipa < 2 ^ 39" and "a < 2 ^ 39"
  shows "translate m' d a = (if a div PAGE_SIZE = ipa div PAGE_SIZE then v else translate m d a)"
  using assms(1) same_page_iff(1)[OF assms(3,2)] by (simp add: view_upd_def translate_def)

lemma view_upd_block_translate:
  assumes "view_upd_block d m m' (pt_lvl1_idx ipa) (pt_lvl2_idx ipa) v" and "ipa < 2 ^ 39" and "a < 2 ^ 39"
  shows "translate m' d a = (if a div 2 ^ 21 = ipa div 2 ^ 21 then v else translate m d a)"
  using assms(1) same_page_iff(2)[OF assms(3,2)] by (simp add: view_upd_block_def translate_def)

lemma map_translate:
  assumes inv: "heap_pt pt s" and ipa: "ipa < 2 ^ 39" and nb: "\<not> in_block (memory s) (base_pa pt) ipa"
    and room: "card (missing (memory s) (base_pa pt) (pt_lvl1_idx ipa) (pt_lvl2_idx ipa)) \<le> heap_room s"
    and free: "translate (memory s) (base_pa pt) ipa = None"
  shows "\<exists>pt' s'. PageTable_map mem_page_alloc pt s ipa pa pte = Some (pt', s') \<and> heap_pt pt' s' \<and> base_pa pt' = base_pa pt \<and>
    in_block (memory s') (base_pa pt) = in_block (memory s) (base_pa pt) \<and>
    heap_room s = heap_room s' + card (missing (memory s) (base_pa pt) (pt_lvl1_idx ipa) (pt_lvl2_idx ipa)) \<and>
    maps_tables (base_pa pt) (pt_lvl1_idx ipa) (pt_lvl2_idx ipa) (memory s) (memory s') \<and>
    heap_owned s' - pt_frames pt' = heap_owned s - pt_frames pt \<and>
    (\<forall>a. a \<notin> footprint pt' \<longrightarrow> memory s' a = memory s a) \<and>
    (\<forall>a < 2 ^ 39. translate (memory s') (base_pa pt) a =
      (if a div PAGE_SIZE = ipa div PAGE_SIZE then Some (from_pa pa OR PTE_TABLE OR pte) else translate (memory s) (base_pa pt) a))"
proof -
  let ?d = "base_pa pt"
  obtain pt' s' where r: "PageTable_map mem_page_alloc pt s ipa pa pte = Some (pt', s')" "heap_pt pt' s'" "base_pa pt' = ?d"
    "is_block (memory s') ?d = is_block (memory s) ?d" "\<forall>a. a \<notin> footprint pt' \<longrightarrow> memory s' a = memory s a"
    "heap_room s = heap_room s' + card (missing (memory s) ?d (pt_lvl1_idx ipa) (pt_lvl2_idx ipa))"
    "view_upd ?d (memory s) (memory s') (pt_lvl1_idx ipa) (pt_lvl2_idx ipa) (pt_lvl3_idx ipa) (Some (from_pa pa OR PTE_TABLE OR pte))"
    "maps_tables ?d (pt_lvl1_idx ipa) (pt_lvl2_idx ipa) (memory s) (memory s')" "heap_owned s' - pt_frames pt' = heap_owned s - pt_frames pt"
    using pages.map_correct[OF inv nb[unfolded in_block_def], of pa pte] room free unfolding translate_def by auto
  have "in_block (memory s') ?d = in_block (memory s) ?d" by (rule ext) (simp add: in_block_def r(4))
  then show ?thesis using r view_upd_translate[OF r(7) ipa] by auto
qed

lemma heap_pt_example:
  "\<exists>pt s. heap_pt pt s \<and> heap_room s = 3 \<and> (\<forall>a. translate (memory s) (base_pa pt) a = None \<and> \<not> in_block (memory s) (base_pa pt) a) \<and>
    (\<forall>i < 512. \<forall>j k. pt_lookup (memory s) (base_pa pt) i j k = None) \<and> (\<forall>i j. table_at (memory s) (base_pa pt) (Leaf i j) = None) \<and>
    tidy (memory s) (base_pa pt)"
proof -
  have ok: "heap_src_ok heap_example" using heap_example_wf by (simp add: heap_src_ok_def PAGE_SIZE_def)
  have rm: "heap_room heap_example = 4" using heap_example_wf by (simp add: heap_room_def)
  obtain res s where al: "mem_page_alloc heap_example = Some (res, s)" using heap_alloc_total[OF ok] by auto
  obtain f where f: "res = Inr f" using heap_alloc_full[OF ok, of _ s] al rm by (cases res) auto
  note new = pages.pt_new_inv[OF ok al[unfolded f]]
  have b: "base_pa (PageTable_new f) = pf_pa f" by (simp add: PageTable_new_def base_pa_def)
  have lk: "pt_lookup (memory s) (pf_pa f) i j k = None" if "i < 512" for i j k
    using new(2)[of i j k] that by (meson not_less)
  have "{a. \<exists>n. n \<noteq> Root \<and> table_at (memory s) (pf_pa f) n = Some a} = {}"
    using new(1) unfolding pt_inv_def b by (simp add: PageTable_new_def)
  then have "\<forall>n a. n \<noteq> Root \<longrightarrow> table_at (memory s) (pf_pa f) n \<noteq> Some a" by blast
  moreover from this have "table_at (memory s) (pf_pa f) (Leaf i j) = None" for i j
    by (metis node.distinct(3) not_None_eq)
  ultimately show ?thesis using new rm lk
    by (intro exI[of _ "PageTable_new f"] exI[of _ s]) (simp add: b in_block_def translate_def tidy_but_def del: table_at.simps)
qed

lemma missing_le_two: "card (missing m d i j) \<le> 2"
  unfolding card_missing by simp

lemma block_pte_example: "frame_addr 0x50000000" "PTE_S2_NORMAL AND 0b11 = 0"
  by (simp_all add: frame_addr_def PAGE_SIZE_def PTE_S2_NORMAL_def)

lemma heap_block_example: "\<exists>pt s. heap_pt pt s \<and> in_block (memory s) (base_pa pt) 0x40200000"
proof -
  obtain pt s where ex: "heap_pt pt s" "heap_room s = 3" "\<forall>i < 512. \<forall>j k. pt_lookup (memory s) (base_pa pt) i j k = None"
    "\<forall>i j. table_at (memory s) (base_pa pt) (Leaf i j) = None"
    using heap_pt_example by blast
  have n1: "\<forall>k < 512. pt_lookup (memory s) (base_pa pt) (pt_lvl1_idx 0x40200000) (pt_lvl2_idx 0x40200000) k = None"
    and n2: "table_at (memory s) (base_pa pt) (Leaf (pt_lvl1_idx 0x40200000) (pt_lvl2_idx 0x40200000)) = None"
    using ex(3,4) pt_idx_bound(1) by blast+
  from pages.map_2mb_correct[OF ex(1) block_pte_example n1 n2] show ?thesis
    using ex(2) unfolding in_block_def by (metis zero_neq_numeral)
qed

section \<open>Properties\<close>

text \<open>
  C6.  Mapping a page.  On a well-formed page table over the heap, with room for two more tables and
  nothing mapped at \<open>ipa\<close>, \<open>map\<close> returns and afterwards the page of \<open>ipa\<close> translates to the
  descriptor of \<open>pa\<close>, every other address below \<open>2 ^ 39\<close> translates as before, the table is well
  formed, and no byte outside the table's own frames has changed.
\<close>
theorem PageTable_map_correct:
  assumes "heap_pt pt s" and "ipa < 2 ^ 39" and "\<not> in_block (memory s) (base_pa pt) ipa"
    and "2 \<le> heap_room s" and "translate (memory s) (base_pa pt) ipa = None"
  shows "\<exists>pt' s'. PageTable_map mem_page_alloc pt s ipa pa pte = Some (pt', s') \<and> heap_pt pt' s' \<and> base_pa pt' = base_pa pt \<and>
    (\<forall>a. a \<notin> footprint pt' \<longrightarrow> memory s' a = memory s a) \<and>
    (\<forall>a < 2 ^ 39. translate (memory s') (base_pa pt) a =
      (if a div PAGE_SIZE = ipa div PAGE_SIZE then Some (from_pa pa OR PTE_TABLE OR pte) else translate (memory s) (base_pa pt) a))"
  using map_translate[OF assms(1-3) order_trans[OF missing_le_two assms(4)] assms(5), of pa pte] by blast

theorem PageTable_map_correct_witness:
  "\<exists>pt s pt' s'. PageTable_map mem_page_alloc pt s 0x40001000 0x50000000 PTE_S2_NORMAL = Some (pt', s') \<and>
    translate (memory s') (base_pa pt) 0x40001234 = Some (from_pa 0x50000000 OR PTE_TABLE OR PTE_S2_NORMAL)"
proof -
  obtain pt s where ex: "heap_pt pt s" "heap_room s = 3"
    "\<And>a. translate (memory s) (base_pa pt) a = None \<and> \<not> in_block (memory s) (base_pa pt) a"
    using heap_pt_example by blast
  then obtain pt' s' where r: "PageTable_map mem_page_alloc pt s 0x40001000 0x50000000 PTE_S2_NORMAL = Some (pt', s')"
    "\<forall>a < 2 ^ 39. translate (memory s') (base_pa pt) a =
      (if a div PAGE_SIZE = 0x40001000 div PAGE_SIZE then Some (from_pa 0x50000000 OR PTE_TABLE OR PTE_S2_NORMAL)
       else translate (memory s) (base_pa pt) a)"
    using PageTable_map_correct[of pt s "0x40001000" "0x50000000" PTE_S2_NORMAL] by auto
  from r(2)[rule_format, of "0x40001234"] r(1) show ?thesis by (auto simp: PAGE_SIZE_def)
qed

text \<open>
  C7.  Unmapping undoes mapping, the tables included.  The page table is well formed and has no empty
  table: so it is when it is new, and \<open>map\<close> and \<open>unmap\<close> keep it so.  Mapping a page that was not
  mapped takes from the heap exactly the tables that its first- and second-level entries lack, and
  makes the page translate to its descriptor.  Unmapping it again returns, every address translates as
  at the start, the directory has exactly the tables it had, none of them empty, the page table holds
  exactly the frames it held, and the pages that the heap counts as given out are those of the start:
  what \<open>map\<close> took for tables has gone back, and nothing else has.
\<close>
theorem PageTable_map_unmap:
  assumes "heap_pt pt s" and "ipa < 2 ^ 39" and "\<not> in_block (memory s) (base_pa pt) ipa"
    and "2 \<le> heap_room s" and "translate (memory s) (base_pa pt) ipa = None" and "tidy (memory s) (base_pa pt)"
  shows "\<exists>pt1 s1 pt2 s2. PageTable_map mem_page_alloc pt s ipa pa pte = Some (pt1, s1) \<and>
    translate (memory s1) (base_pa pt) ipa = Some (from_pa pa OR PTE_TABLE OR pte) \<and>
    heap_room s = heap_room s1 + card (missing (memory s) (base_pa pt) (pt_lvl1_idx ipa) (pt_lvl2_idx ipa)) \<and>
    PageTable_unmap PageFrame_drop pt1 s1 ipa = Some (pt2, s2) \<and> heap_pt pt2 s2 \<and> base_pa pt2 = base_pa pt \<and>
    (\<forall>a < 2 ^ 39. translate (memory s2) (base_pa pt) a = translate (memory s) (base_pa pt) a) \<and>
    table_at (memory s2) (base_pa pt) = table_at (memory s) (base_pa pt) \<and> tidy (memory s2) (base_pa pt) \<and>
    pt_frames pt2 = pt_frames pt \<and> heap_owned s2 = heap_owned s"
proof -
  let ?d = "base_pa pt"
  obtain pt1 s1 where 1: "PageTable_map mem_page_alloc pt s ipa pa pte = Some (pt1, s1)" "heap_pt pt1 s1" "base_pa pt1 = ?d"
    "is_block (memory s1) ?d = is_block (memory s) ?d"
    "view_upd ?d (memory s) (memory s1) (pt_lvl1_idx ipa) (pt_lvl2_idx ipa) (pt_lvl3_idx ipa) (Some (from_pa pa OR PTE_TABLE OR pte))"
    "heap_room s = heap_room s1 + card (missing (memory s) ?d (pt_lvl1_idx ipa) (pt_lvl2_idx ipa))"
    "maps_tables ?d (pt_lvl1_idx ipa) (pt_lvl2_idx ipa) (memory s) (memory s1)" "heap_owned s1 - pt_frames pt1 = heap_owned s - pt_frames pt"
    using pages.map_correct[OF assms(1) assms(3)[unfolded in_block_def], of pa pte] order_trans[OF missing_le_two assms(4)] assms(5)
    unfolding translate_def by (auto simp: not_less[symmetric])
  have "\<not> is_block (memory s1) (base_pa pt1) (pt_lvl1_idx ipa) (pt_lvl2_idx ipa)"
    using assms(3) 1(3,4) by (simp add: in_block_def)
  from pages.unmap_correct[OF 1(2) this, unfolded 1(3)] obtain pt2 s2 where 2: "PageTable_unmap PageFrame_drop pt1 s1 ipa = Some (pt2, s2)"
    "heap_pt pt2 s2" "base_pa pt2 = ?d" "is_block (memory s2) ?d = is_block (memory s1) ?d"
    "heap_owned s2 - pt_frames pt2 = heap_owned s1 - pt_frames pt1" "table_at (memory s2) ?d \<subseteq>\<^sub>m table_at (memory s1) ?d"
    "tidy (memory s1) ?d \<longrightarrow> tidy (memory s2) ?d"
    "view_upd ?d (memory s1) (memory s2) (pt_lvl1_idx ipa) (pt_lvl2_idx ipa) (pt_lvl3_idx ipa) None" by blast
  have view: "\<forall>i < 512. \<forall>j < 512. \<forall>k < 512. pt_lookup (memory s2) ?d i j k = pt_lookup (memory s) ?d i j k"
    using 1(5) 2(8) assms(5) by (auto simp: view_upd_def translate_def)
  have td: "tidy (memory s2) ?d" and le: "table_at (memory s) ?d \<subseteq>\<^sub>m table_at (memory s1) ?d"
    using 1(7) 2(7) assms(6) by (simp_all add: maps_tables_def)
  have "is_block (memory s2) ?d = is_block (memory s) ?d" using 1(4) 2(4) by simp
  from tidy_tables_eq[OF assms(6) td view this le 2(6)] have ta: "table_at (memory s2) ?d = table_at (memory s) ?d" .
  have fr: "pt_frames pt2 = pt_frames pt" using assms(1) 2(2,3) ta by (simp add: pt_inv_def pt_frames_def)
  have own: "heap_owned s2 = heap_owned s"
  proof -
    have "pt_frames pt \<subseteq> heap_owned s" "pt_frames pt2 \<subseteq> heap_owned s2"
      using assms(1) 2(2) unfolding pt_inv_def pt_frames_def by blast+
    moreover have "heap_owned s2 - pt_frames pt = heap_owned s - pt_frames pt" using 2(5) 1(8) fr by simp
    ultimately show ?thesis unfolding fr by (metis Diff_partition)
  qed
  have "\<forall>a < 2 ^ 39. translate (memory s2) ?d a = translate (memory s) ?d a" using view by (simp add: translate_def)
  moreover have "translate (memory s1) ?d ipa = Some (from_pa pa OR PTE_TABLE OR pte)" using view_upd_translate[OF 1(5) assms(2,2)] by simp
  ultimately show ?thesis
    by (intro exI[of _ pt1] exI[of _ s1] exI[of _ pt2] exI[of _ s2] conjI 1(1,6) 2(1-3) ta td fr own)
qed

theorem PageTable_map_unmap_witness:
  "\<exists>pt s pt1 s1 pt2 s2. PageTable_map mem_page_alloc pt s 0x40001000 0x50000000 PTE_S2_NORMAL = Some (pt1, s1) \<and>
    heap_room s = 3 \<and> heap_room s1 = 1 \<and>
    PageTable_unmap PageFrame_drop pt1 s1 0x40001000 = Some (pt2, s2) \<and> heap_pt pt2 s2 \<and> heap_owned s2 = heap_owned s"
proof -
  obtain pt s where ex: "heap_pt pt s" "heap_room s = 3"
    "\<And>a. translate (memory s) (base_pa pt) a = None \<and> \<not> in_block (memory s) (base_pa pt) a"
    "\<forall>i < 512. \<forall>j k. pt_lookup (memory s) (base_pa pt) i j k = None" "tidy (memory s) (base_pa pt)"
    using heap_pt_example by blast
  let ?d = "base_pa pt" and ?i = "pt_lvl1_idx 0x40001000" and ?j = "pt_lvl2_idx 0x40001000"
  have "table_at (memory s) ?d (Mid ?i) = None" "table_at (memory s) ?d (Leaf ?i ?j) = None"
    using tidy_tables(2)[OF ex(5), of ?i] tidy_tables(1)[OF ex(5), of ?i ?j] ex(4)[rule_format, OF pt_idx_bound(1)] by metis+
  then have need: "card (missing (memory s) ?d ?i ?j) = 2" unfolding card_missing by simp
  have "\<not> in_block (memory s) (base_pa pt) 0x40001000" "translate (memory s) (base_pa pt) 0x40001000 = None"
    "2 \<le> heap_room s" "(0x40001000::usize) < 2 ^ 39" using ex(2,3) by auto
  from PageTable_map_unmap[OF ex(1) this(4,1,3,2) ex(5), of "0x50000000" PTE_S2_NORMAL, unfolded need] obtain pt1 s1 pt2 s2 where
    "PageTable_map mem_page_alloc pt s 0x40001000 0x50000000 PTE_S2_NORMAL = Some (pt1, s1)" "heap_room s = heap_room s1 + 2"
    "PageTable_unmap PageFrame_drop pt1 s1 0x40001000 = Some (pt2, s2)" "heap_pt pt2 s2" "heap_owned s2 = heap_owned s"
    by (elim exE conjE)
  then show ?thesis using ex(2) by (intro exI[of _ pt] exI[of _ s] exI[of _ pt1] exI[of _ s1] exI[of _ pt2] exI[of _ s2]) simp
qed

text \<open>
  A table only takes frames nobody owned, and only its own frames change: the tables of other guests stay.
\<close>

definition table_grows :: "PageTable \<Rightarrow> phys \<Rightarrow> PageTable \<Rightarrow> phys \<Rightarrow> bool" where
  "table_grows pt s pt' s' \<longleftrightarrow> heap_owned s \<subseteq> heap_owned s' \<and> pt_frames pt \<subseteq> pt_frames pt' \<and>
     pt_frames pt' \<subseteq> pt_frames pt \<union> (heap_owned s' - heap_owned s) \<and> (\<forall>a. a \<notin> footprint pt' \<longrightarrow> memory s' a = memory s a)"

lemma footprint_frames: "footprint pt = (\<Union>f \<in> pt_frames pt. {f..<f + PAGE_SIZE})"
  by (simp add: footprint_def pt_frames_def)

lemma table_grows_refl [simp]: "table_grows pt s pt s"
  by (simp add: table_grows_def)

lemma table_grows_trans:
  assumes "table_grows pt s pt1 s1" "table_grows pt1 s1 pt2 s2"
  shows "table_grows pt s pt2 s2"
  using assms unfolding table_grows_def footprint_frames by (auto 4 3)

lemma heap_owned_set_entry [simp]:
  "heap_owned (set_entry e i v s) = heap_owned s" "heap_src_ok (set_entry e i v s) = heap_src_ok s"
  by (simp_all add: set_entry_def heap_owned_def heap_src_ok_def)

lemma table_or_alloc_frames:
  assumes "table_or_alloc mem_page_alloc pt s parent idx = Some (e, pt', s')" "heap_src_ok s"
  shows "heap_src_ok s' \<and> heap_owned s \<subseteq> heap_owned s' \<and> pt_frames pt \<subseteq> pt_frames pt' \<and>
    pt_frames pt' \<subseteq> pt_frames pt \<union> (heap_owned s' - heap_owned s)"
proof (cases "pte_valid (pte_entry parent idx s)")
  case True
  then show ?thesis using assms by (simp add: table_or_alloc_def)
next
  case False
  then obtain res s1 where al: "mem_page_alloc s = Some (res, s1)" using assms(1) by (auto simp: table_or_alloc_def panic_simps)
  show ?thesis
  proof (cases res)
    case (Inl err)
    then show ?thesis using assms False al heap_alloc_full[OF assms(2)] by (auto simp: table_or_alloc_def)
  next
    case (Inr f)
    then show ?thesis using assms False al heap_alloc_one[OF assms(2) al[unfolded Inr]]
      by (auto simp: table_or_alloc_def Let_def pt_frames_def base_pa_def)
  qed
qed

lemma PageTable_map_grows:
  assumes "PageTable_map mem_page_alloc pt s ipa pa pte = Some (pt', s')" "heap_src_ok s"
  shows "heap_owned s \<subseteq> heap_owned s' \<and> pt_frames pt \<subseteq> pt_frames pt' \<and> pt_frames pt' \<subseteq> pt_frames pt \<union> (heap_owned s' - heap_owned s)"
proof -
  obtain r1 pt1 s1 where 1: "table_or_alloc mem_page_alloc pt s (from_pa (base_pa pt)) (pt_lvl1_idx ipa) = Some (r1, pt1, s1)"
    using assms(1) by (auto simp: PageTable_map_def panic_simps)
  note g1 = table_or_alloc_frames[OF 1 assms(2)]
  show ?thesis
  proof (cases r1)
    case None
    then show ?thesis using assms(1) 1 g1 by (simp add: PageTable_map_def)
  next
    case (Some l1e)
    then obtain r2 pt2 s2 where 2: "table_or_alloc mem_page_alloc pt1 s1 l1e (pt_lvl2_idx ipa) = Some (r2, pt2, s2)"
      using assms(1) 1 by (auto simp: PageTable_map_def panic_simps)
    note g2 = table_or_alloc_frames[OF 2] 
    have "heap_owned s' = heap_owned s2 \<and> pt' = pt2"
      using assms(1) 1 2 Some by (cases r2) (auto simp: PageTable_map_def split: if_splits)
    then show ?thesis using g1 g2 by blast
  qed
qed

text \<open>
  The tables that the \<open>n\<close> pages from \<open>ipa\<close> on lie in, below the directory, and a bound on how many they
  are: one for every 2 MB and one for every 1 GB the range touches.
\<close>

definition range_nodes :: "usize \<Rightarrow> nat \<Rightarrow> node set" where
  "range_nodes ipa n = (\<Union>q < n. {Mid (pt_lvl1_idx (ipa + q * PAGE_SIZE)),
     Leaf (pt_lvl1_idx (ipa + q * PAGE_SIZE)) (pt_lvl2_idx (ipa + q * PAGE_SIZE))})"

definition range_tables :: "usize \<Rightarrow> nat \<Rightarrow> nat" where
  "range_tables ipa n = (let last = ipa + n * PAGE_SIZE - 1 in
     (last div 2 ^ 21 - ipa div 2 ^ 21 + 1) + (last div 2 ^ 30 - ipa div 2 ^ 30 + 1))"

lemma range_nodes_0 [simp]: "range_nodes ipa 0 = {}"
  by (simp add: range_nodes_def)

lemma range_nodes_Suc: "range_nodes ipa (Suc n) = range_nodes ipa n \<union>
    {Mid (pt_lvl1_idx (ipa + n * PAGE_SIZE)), Leaf (pt_lvl1_idx (ipa + n * PAGE_SIZE)) (pt_lvl2_idx (ipa + n * PAGE_SIZE))}"
  by (auto simp: range_nodes_def less_Suc_eq)

lemma range_nodes_finite [simp]: "finite (range_nodes ipa n)"
  by (simp add: range_nodes_def)

lemma range_nodes_mono: "m \<le> n \<Longrightarrow> range_nodes ipa m \<subseteq> range_nodes ipa n"
  unfolding range_nodes_def by (intro UN_mono) auto

lemma range_nodes_card: "card (range_nodes ipa n) \<le> range_tables ipa n"
proof -
  let ?last = "ipa + n * PAGE_SIZE - 1"
  let ?M = "(\<lambda>x. Mid (x mod 512)) ` {ipa div 2 ^ 30..?last div 2 ^ 30}"
    and ?L = "(\<lambda>x. Leaf (x div 512 mod 512) (x mod 512)) ` {ipa div 2 ^ 21..?last div 2 ^ 21}"
  have "range_nodes ipa n \<subseteq> ?M \<union> ?L"
    unfolding range_nodes_def
  proof (rule UN_least)
    fix q assume "q \<in> {..<n}"
    then have "Suc q * PAGE_SIZE \<le> n * PAGE_SIZE" by (intro mult_le_mono1) simp
    then have a: "ipa \<le> ipa + q * PAGE_SIZE" "ipa + q * PAGE_SIZE \<le> ?last" by (simp_all add: PAGE_SIZE_def)
    let ?a = "ipa + q * PAGE_SIZE"
    have "?a div 2 ^ 30 \<in> {ipa div 2 ^ 30..?last div 2 ^ 30}" "?a div 2 ^ 21 \<in> {ipa div 2 ^ 21..?last div 2 ^ 21}"
      using div_le_mono[OF a(1)] div_le_mono[OF a(2)] by simp_all
    then have "Mid (?a div 2 ^ 30 mod 512) \<in> ?M" "Leaf (?a div 2 ^ 21 div 512 mod 512) (?a div 2 ^ 21 mod 512) \<in> ?L" by blast+
    moreover have "?a div 2 ^ 21 div 512 = ?a div 2 ^ 30" by (simp add: div_mult2_eq[symmetric])
    ultimately show "{Mid (pt_lvl1_idx ?a), Leaf (pt_lvl1_idx ?a) (pt_lvl2_idx ?a)} \<subseteq> ?M \<union> ?L"
      unfolding pt_idx_div by simp
  qed
  then have "card (range_nodes ipa n) \<le> card (?M \<union> ?L)" by (rule card_mono[rotated]) simp
  also have "\<dots> \<le> card ?M + card ?L" by (rule card_Un_le)
  also have "\<dots> \<le> card {ipa div 2 ^ 30..?last div 2 ^ 30} + card {ipa div 2 ^ 21..?last div 2 ^ 21}"
    by (intro add_mono card_image_le) simp_all
  also have "\<dots> \<le> (?last div 2 ^ 30 - ipa div 2 ^ 30 + 1) + (?last div 2 ^ 21 - ipa div 2 ^ 21 + 1)"
    unfolding card_atLeastAtMost by (intro add_mono) linarith+
  also have "\<dots> = range_tables ipa n" unfolding range_tables_def Let_def by (rule add.commute)
  finally show ?thesis .
qed

lemma missing_step:
  assumes "dom (table_at m d) = D \<union> range_nodes ipa n"
  shows "card (range_nodes ipa (Suc n) - D) =
    card (range_nodes ipa n - D) + card (missing m d (pt_lvl1_idx (ipa + n * PAGE_SIZE)) (pt_lvl2_idx (ipa + n * PAGE_SIZE)))"
proof -
  let ?a = "ipa + n * PAGE_SIZE"
  have "missing m d (pt_lvl1_idx ?a) (pt_lvl2_idx ?a) = {Mid (pt_lvl1_idx ?a), Leaf (pt_lvl1_idx ?a) (pt_lvl2_idx ?a)} - (D \<union> range_nodes ipa n)"
    unfolding assms(1)[symmetric] missing_def by (auto simp del: table_at.simps)
  then have "range_nodes ipa (Suc n) - D = (range_nodes ipa n - D) \<union> missing m d (pt_lvl1_idx ?a) (pt_lvl2_idx ?a)"
    and "(range_nodes ipa n - D) \<inter> missing m d (pt_lvl1_idx ?a) (pt_lvl2_idx ?a) = {}"
    and "finite (missing m d (pt_lvl1_idx ?a) (pt_lvl2_idx ?a))"
    unfolding range_nodes_Suc by (auto intro: finite_subset)
  then show ?thesis by (simp add: card_Un_disjoint)
qed

text \<open>The state of \<open>map_range\<close> after \<open>i\<close> pages.\<close>

definition range_mapped :: "PageTable \<Rightarrow> phys \<Rightarrow> usize \<Rightarrow> usize \<Rightarrow> u64 \<Rightarrow> nat \<Rightarrow> PageTable \<Rightarrow> phys \<Rightarrow> bool" where
  "range_mapped pt s ipa pa pte i pt' s' \<longleftrightarrow> heap_pt pt' s' \<and> base_pa pt' = base_pa pt \<and>
     (\<forall>a < 2 ^ 39. translate (memory s') (base_pa pt) a =
       (if ipa div PAGE_SIZE \<le> a div PAGE_SIZE \<and> a div PAGE_SIZE < ipa div PAGE_SIZE + i
        then Some (from_pa (pa + (a div PAGE_SIZE - ipa div PAGE_SIZE) * PAGE_SIZE) OR PTE_TABLE OR pte)
        else translate (memory s) (base_pa pt) a))"

lemma range_mapped_step:
  assumes rm: "range_mapped pt s ipa pa pte i pt' s'" and bl: "in_block (memory s') (base_pa pt) = in_block (memory s) (base_pa pt)"
    and tabs: "dom (table_at (memory s') (base_pa pt)) = dom (table_at (memory s) (base_pa pt)) \<union> range_nodes ipa i"
    and room: "range_tables ipa n \<le> heap_room s" "heap_room s = heap_room s' + card (range_nodes ipa i - dom (table_at (memory s) (base_pa pt)))"
    and i: "i < n" and hi: "ipa + n * PAGE_SIZE \<le> 2 ^ 39"
    and free: "translate (memory s) (base_pa pt) (ipa + i * PAGE_SIZE) = None" "\<not> in_block (memory s) (base_pa pt) (ipa + i * PAGE_SIZE)"
    and grows: "table_grows pt s pt' s'"
  shows "\<exists>pt'' s''. PageTable_map mem_page_alloc pt' s' (ipa + i * PAGE_SIZE) (pa + i * PAGE_SIZE) pte = Some (pt'', s'') \<and>
    range_mapped pt s ipa pa pte (Suc i) pt'' s'' \<and> in_block (memory s'') (base_pa pt) = in_block (memory s) (base_pa pt) \<and>
    dom (table_at (memory s'') (base_pa pt)) = dom (table_at (memory s) (base_pa pt)) \<union> range_nodes ipa (Suc i) \<and>
    heap_room s = heap_room s'' + card (range_nodes ipa (Suc i) - dom (table_at (memory s) (base_pa pt))) \<and> table_grows pt s pt'' s''"
proof -
  let ?a = "ipa + i * PAGE_SIZE" and ?d = "base_pa pt"
  have "i * PAGE_SIZE < n * PAGE_SIZE" using i by simp
  then have a: "?a < 2 ^ 39" using hi by linarith
  have pg: "?a div PAGE_SIZE = ipa div PAGE_SIZE + i" by simp
  have inv: "heap_pt pt' s'" "base_pa pt' = ?d" using rm by (auto simp: range_mapped_def)
  have nm: "translate (memory s') (base_pa pt') ?a = None"
    using rm a free(1) pg inv(2) by (simp add: range_mapped_def)
  let ?D = "dom (table_at (memory s) ?d)"
  note ms = missing_step[OF tabs]
  have "card (range_nodes ipa (Suc i) - ?D) \<le> card (range_nodes ipa (Suc i))" by (intro card_mono) auto
  also have "\<dots> \<le> card (range_nodes ipa n)" using range_nodes_mono[of "Suc i" n] i by (intro card_mono) auto
  also have "\<dots> \<le> heap_room s" using range_nodes_card room(1) by (rule order_trans)
  finally have "card (missing (memory s') (base_pa pt') (pt_lvl1_idx ?a) (pt_lvl2_idx ?a)) \<le> heap_room s'"
    using ms room(2) inv(2) by simp
  moreover have "\<not> in_block (memory s') (base_pa pt') ?a" using bl free(2) inv(2) by simp
  ultimately obtain pt'' s'' where r: "PageTable_map mem_page_alloc pt' s' ?a (pa + i * PAGE_SIZE) pte = Some (pt'', s'')" "heap_pt pt'' s''"
    "base_pa pt'' = ?d" "in_block (memory s'') ?d = in_block (memory s') ?d"
    "heap_room s' = heap_room s'' + card (missing (memory s') ?d (pt_lvl1_idx ?a) (pt_lvl2_idx ?a))"
    "\<forall>a. a \<notin> footprint pt'' \<longrightarrow> memory s'' a = memory s' a"
    "\<forall>b < 2 ^ 39. translate (memory s'') ?d b = (if b div PAGE_SIZE = ?a div PAGE_SIZE
       then Some (from_pa (pa + i * PAGE_SIZE) OR PTE_TABLE OR pte) else translate (memory s') ?d b)"
    "maps_tables ?d (pt_lvl1_idx ?a) (pt_lvl2_idx ?a) (memory s') (memory s'')"
    using map_translate[OF inv(1) a _ _ nm, of "pa + i * PAGE_SIZE" pte, unfolded inv(2)] inv(2) by auto
  have "range_mapped pt s ipa pa pte (Suc i) pt'' s''"
    unfolding range_mapped_def
  proof (intro conjI allI impI)
    fix b assume b: "b < (2::nat) ^ 39"
    let ?r = "\<lambda>i. if ipa div PAGE_SIZE \<le> b div PAGE_SIZE \<and> b div PAGE_SIZE < ipa div PAGE_SIZE + i
        then Some (from_pa (pa + (b div PAGE_SIZE - ipa div PAGE_SIZE) * PAGE_SIZE) OR PTE_TABLE OR pte)
        else translate (memory s) ?d b"
    have "translate (memory s') ?d b = ?r i" using rm b by (simp add: range_mapped_def)
    then show "translate (memory s'') ?d b = ?r (Suc i)"
      using r(7) b unfolding pg by (cases "b div PAGE_SIZE = ipa div PAGE_SIZE + i") auto
  qed (use r in simp_all)
  moreover have "heap_src_ok s'" using inv(1) by (simp add: pt_inv_def)
  from PageTable_map_grows[OF r(1) this] r(6) have "table_grows pt' s' pt'' s''" by (simp add: table_grows_def)
  from table_grows_trans[OF grows this] have "table_grows pt s pt'' s''" .
  moreover have "dom (table_at (memory s'') ?d) = ?D \<union> range_nodes ipa (Suc i)"
    using r(8) tabs unfolding maps_tables_def range_nodes_Suc by auto
  moreover have "heap_room s = heap_room s'' + card (range_nodes ipa (Suc i) - ?D)" using r(5) room(2) ms by simp
  ultimately show ?thesis using r(1,4) bl by auto
qed

lemma map_range_total:
  assumes inv: "heap_pt pt s" and n: "n = (len + PAGE_SIZE - 1) div PAGE_SIZE"
    and hi: "ipa + n * PAGE_SIZE \<le> 2 ^ 39" and pa: "pa + n * PAGE_SIZE < usize_bound" and room: "range_tables ipa n \<le> heap_room s"
    and free: "\<forall>a < 2 ^ 39. ipa div PAGE_SIZE \<le> a div PAGE_SIZE \<longrightarrow> a div PAGE_SIZE < ipa div PAGE_SIZE + n \<longrightarrow>
      translate (memory s) (base_pa pt) a = None \<and> \<not> in_block (memory s) (base_pa pt) a"
  shows "\<exists>pt' s'. map_range mem_page_alloc pt s ipa len pa pte = Some (pt', s') \<and> range_mapped pt s ipa pa pte n pt' s' \<and>
    in_block (memory s') (base_pa pt) = in_block (memory s) (base_pa pt) \<and> heap_room s \<le> heap_room s' + range_tables ipa n \<and>
    table_grows pt s pt' s'"
proof -
  have nP: "n * PAGE_SIZE \<le> 2 ^ 39" using hi by linarith
  then have "len \<le> 2 ^ 39" unfolding n by (simp add: PAGE_SIZE_def)
  then have ru: "round_up len PAGE_SIZE = Some (n * PAGE_SIZE)" unfolding n by (subst round_up_Some) (simp_all add: PAGE_SIZE_def)
  let ?f = "\<lambda>i (pt, s). do {
       off \<leftarrow> umul i PAGE_SIZE;
       a \<leftarrow> uadd ipa off;
       b \<leftarrow> uadd pa off;
       PageTable_map mem_page_alloc pt s a b pte }"
  let ?I = "\<lambda>i (pt', s'). range_mapped pt s ipa pa pte i pt' s' \<and>
    in_block (memory s') (base_pa pt) = in_block (memory s) (base_pa pt) \<and>
    dom (table_at (memory s') (base_pa pt)) = dom (table_at (memory s) (base_pa pt)) \<union> range_nodes ipa i \<and>
    heap_room s = heap_room s' + card (range_nodes ipa i - dom (table_at (memory s) (base_pa pt))) \<and> table_grows pt s pt' s'"
  have "\<exists>t. for_range 0 n ?f (pt, s) = Some t \<and> ?I n t"
  proof (rule for_range_total[where I = ?I])
    show "?I 0 (pt, s)" using inv room by (auto simp: range_mapped_def)
  next
    fix i t assume i: "i < n" and I: "?I i t"
    obtain pt' s' where t: "t = (pt', s')" by (cases t)
    have le: "i * PAGE_SIZE < n * PAGE_SIZE" using i by simp
    moreover have "(2::nat) ^ 39 < usize_bound" by simp
    ultimately have b: "i * PAGE_SIZE < usize_bound" "ipa + i * PAGE_SIZE < usize_bound" "pa + i * PAGE_SIZE < usize_bound" "ipa + i * PAGE_SIZE < 2 ^ 39"
      using hi pa by linarith+
    have "translate (memory s) (base_pa pt) (ipa + i * PAGE_SIZE) = None" "\<not> in_block (memory s) (base_pa pt) (ipa + i * PAGE_SIZE)"
      using free b(4) i by simp_all
    from range_mapped_step[OF _ _ _ room _ i hi this, of pa pte pt' s'] I t
    obtain pt'' s'' where "PageTable_map mem_page_alloc pt' s' (ipa + i * PAGE_SIZE) (pa + i * PAGE_SIZE) pte = Some (pt'', s'')"
      "?I (Suc i) (pt'', s'')" by auto
    then show "\<exists>t'. ?f i t = Some t' \<and> ?I (Suc i) t'" using b t by (intro exI[of _ "(pt'', s'')"]) simp
  qed simp
  moreover have "card (range_nodes ipa n - dom (table_at (memory s) (base_pa pt))) \<le> range_tables ipa n"
    using card_mono[of "range_nodes ipa n"] range_nodes_card by (meson Diff_subset order_trans range_nodes_finite)
  ultimately show ?thesis using ru by (fastforce simp: map_range_def)
qed

text \<open>
  Mapping a range.  For a range below \<open>2 ^ 39\<close> in which nothing is mapped, with room for the
  tables (one for every 2 MB and one for every 1 GB it touches), \<open>map_range\<close> returns; page \<open>q\<close> of the range then translates to page \<open>q\<close> of the physical
  range and every address outside the range as before.
\<close>
theorem map_range_correct:
  assumes inv: "heap_pt pt s" and n: "n = (len + PAGE_SIZE - 1) div PAGE_SIZE"
    and hi: "ipa + n * PAGE_SIZE \<le> 2 ^ 39" and pa: "pa + n * PAGE_SIZE < usize_bound" and room: "range_tables ipa n \<le> heap_room s"
    and free: "\<forall>a < 2 ^ 39. ipa div PAGE_SIZE \<le> a div PAGE_SIZE \<longrightarrow> a div PAGE_SIZE < ipa div PAGE_SIZE + n \<longrightarrow>
      translate (memory s) (base_pa pt) a = None \<and> \<not> in_block (memory s) (base_pa pt) a"
  shows "\<exists>pt' s'. map_range mem_page_alloc pt s ipa len pa pte = Some (pt', s') \<and> range_mapped pt s ipa pa pte n pt' s'"
  using map_range_total[OF assms] by blast

theorem map_range_correct_witness:
  "\<exists>pt s pt' s'. map_range mem_page_alloc pt s 0x40000000 0x1000 0x50000000 PTE_S2_NORMAL = Some (pt', s') \<and>
    range_mapped pt s 0x40000000 0x50000000 PTE_S2_NORMAL 1 pt' s'"
proof -
  obtain pt s where ex: "heap_pt pt s" "heap_room s = 3"
    "\<And>a. translate (memory s) (base_pa pt) a = None \<and> \<not> in_block (memory s) (base_pa pt) a"
    using heap_pt_example by blast
  have "\<exists>pt' s'. map_range mem_page_alloc pt s 0x40000000 0x1000 0x50000000 PTE_S2_NORMAL = Some (pt', s') \<and>
    range_mapped pt s 0x40000000 0x50000000 PTE_S2_NORMAL 1 pt' s'"
    using ex by (intro map_range_correct) (simp_all add: PAGE_SIZE_def range_tables_def)
  then show ?thesis by blast
qed

text \<open>
  Two-megabyte blocks.  With nothing at or below the second-level entry of \<open>ipa\<close> and one page
  left, \<open>map_2mb\<close> makes every address of the block translate to the block descriptor and leaves
  the others; \<open>unmap_2mb\<close> then takes it back.
\<close>
theorem map_2mb_unmap_2mb:
  assumes inv: "heap_pt pt s" and ipa: "ipa < 2 ^ 39" and pa: "frame_addr pa" "pte AND 0b11 = 0" and room: "1 \<le> heap_room s"
    and none: "\<forall>k < 512. pt_lookup (memory s) (base_pa pt) (pt_lvl1_idx ipa) (pt_lvl2_idx ipa) k = None"
    and nl: "table_at (memory s) (base_pa pt) (Leaf (pt_lvl1_idx ipa) (pt_lvl2_idx ipa)) = None"
  shows "\<exists>pt1 s1 pt2 s2. map_2mb mem_page_alloc pt s ipa pa pte = Some (pt1, s1) \<and> heap_pt pt1 s1 \<and>
    (\<forall>a < 2 ^ 39. translate (memory s1) (base_pa pt) a =
      (if a div 2 ^ 21 = ipa div 2 ^ 21 then Some (from_pa pa OR pte OR PTE_BLOCK) else translate (memory s) (base_pa pt) a)) \<and>
    unmap_2mb PageFrame_drop pt1 s1 ipa = Some (pt2, s2) \<and> heap_pt pt2 s2 \<and>
    (\<forall>a < 2 ^ 39. translate (memory s2) (base_pa pt) a = translate (memory s) (base_pa pt) a)"
proof -
  let ?d = "base_pa pt"
  from pages.map_2mb_correct[OF inv pa none nl] room obtain pt1 s1 where 1: "map_2mb mem_page_alloc pt s ipa pa pte = Some (pt1, s1)"
    "heap_pt pt1 s1" "base_pa pt1 = ?d" "is_block (memory s1) ?d (pt_lvl1_idx ipa) (pt_lvl2_idx ipa)"
    "view_upd_block ?d (memory s) (memory s1) (pt_lvl1_idx ipa) (pt_lvl2_idx ipa) (Some (from_pa pa OR pte OR PTE_BLOCK))"
    by auto
  from pages.unmap_2mb_correct[OF 1(2), unfolded 1(3), OF 1(4)] obtain pt2 s2 where 2: "unmap_2mb PageFrame_drop pt1 s1 ipa = Some (pt2, s2)"
    "heap_pt pt2 s2" "view_upd_block ?d (memory s1) (memory s2) (pt_lvl1_idx ipa) (pt_lvl2_idx ipa) None" by blast
  have "translate (memory s2) ?d a = translate (memory s) ?d a" if a: "a < 2 ^ 39" for a
  proof (cases "a div 2 ^ 21 = ipa div 2 ^ 21")
    case True
    then have "translate (memory s) ?d a = None"
      using same_page_iff(2)[OF a ipa] none by (simp add: translate_def)
    then show ?thesis using view_upd_block_translate[OF 2(3) ipa a] True by simp
  next
    case False
    then show ?thesis using view_upd_block_translate[OF 2(3) ipa a] view_upd_block_translate[OF 1(5) ipa a] by simp
  qed
  then show ?thesis using 1(1,2) 2(1,2) view_upd_block_translate[OF 1(5) ipa] by blast
qed

theorem map_2mb_unmap_2mb_witness:
  "\<exists>pt s pt1 s1 pt2 s2. map_2mb mem_page_alloc pt s 0x40200000 0x50000000 PTE_S2_NORMAL = Some (pt1, s1) \<and>
    unmap_2mb PageFrame_drop pt1 s1 0x40200000 = Some (pt2, s2) \<and> heap_pt pt2 s2"
proof -
  obtain pt s where ex: "heap_pt pt s" "heap_room s = 3" "\<forall>i < 512. \<forall>j k. pt_lookup (memory s) (base_pa pt) i j k = None"
    "\<forall>i j. table_at (memory s) (base_pa pt) (Leaf i j) = None"
    using heap_pt_example by blast
  have "(0x40200000::usize) < 2 ^ 39" "1 \<le> heap_room s" using ex(2) by simp_all
  moreover have "\<forall>k < 512. pt_lookup (memory s) (base_pa pt) (pt_lvl1_idx 0x40200000) (pt_lvl2_idx 0x40200000) k = None"
    "table_at (memory s) (base_pa pt) (Leaf (pt_lvl1_idx 0x40200000) (pt_lvl2_idx 0x40200000)) = None"
    using ex(3,4) pt_idx_bound(1) by blast+
  ultimately show ?thesis using map_2mb_unmap_2mb[OF ex(1) _ block_pte_example] by blast
qed

text \<open>
  Mapping a page inside an existing block.  \<open>map\<close> only prints that the second-level entry is
  a block and goes on: it takes the block's physical address for the address of a table, reads the
  guest's own memory there as a page entry, and unless that looks valid overwrites it.
\<close>
theorem PageTable_map_in_block:
  assumes inv: "heap_pt pt s" and "in_block (memory s) (base_pa pt) ipa"
  defines "blk \<equiv> to_pa (memory s (to_pa (memory s (base_pa pt + pt_lvl1_idx ipa * 8)) + pt_lvl2_idx ipa * 8))"
  shows "PageTable_map mem_page_alloc pt s ipa pa pte = Some (pt,
     if pte_valid (memory s (blk + pt_lvl3_idx ipa * 8)) then s
     else s\<lparr>memory := (memory s)(blk + pt_lvl3_idx ipa * 8 := from_pa pa OR PTE_TABLE OR pte)\<rparr>)"
proof -
  have d: "to_pa (from_pa (base_pa pt)) = base_pa pt" using pages.pt_inv_frame[OF inv] by simp
  have "pte_valid (memory s (base_pa pt + pt_lvl1_idx ipa * 8))"
    "pte_valid (memory s (to_pa (memory s (base_pa pt + pt_lvl1_idx ipa * 8)) + pt_lvl2_idx ipa * 8))"
    using assms(2) by (auto simp: in_block_def is_block_def mid_at_def split: if_splits)
  then show ?thesis
    by (simp add: PageTable_map_def table_or_alloc_def pte_entry_def set_entry_def WORD_SIZE_def d blk_def)
qed

theorem PageTable_map_in_block_witness:
  "\<exists>pt s s'. in_block (memory s) (base_pa pt) 0x40200000 \<and>
    PageTable_map mem_page_alloc pt s 0x40200000 0x60000000 PTE_S2_NORMAL = Some (pt, s')"
proof -
  obtain pt s where ex: "heap_pt pt s" "in_block (memory s) (base_pa pt) 0x40200000" using heap_block_example by blast
  from PageTable_map_in_block[OF this] ex(2) show ?thesis by blast
qed

end
