(* ===== verification/Gic.thy ===== *)
theory Gic
  imports Util
begin

text \<open>
  The GICv2 driver of \<open>src/src/arch/aarch64/gic.rs\<close>: the distributor (GICD), the CPU interface
  (GICC) and the virtual interface control (GICH).

  A register block is a record of its registers.  A register that is written with ones to set
  and read back through its twin (\<open>ISENABLER\<close>/\<open>ICENABLER\<close>, \<open>ISPENDR\<close>/\<open>ICPENDR\<close>,
  \<open>ISACTIVER\<close>/\<open>ICACTIVER\<close>, \<open>SPENDSGIR\<close>/\<open>CPENDSGIR\<close>) is one array of state bits; the other
  readable registers hold what was written.  Write-only registers (\<open>SGIR\<close>, \<open>EOIR\<close>, \<open>DIR\<close>) are
  the list of the values written.  The registers that the hardware computes (\<open>ELRSR\<close>, \<open>EISR\<close>,
  \<open>MISR\<close>) are functions of the list registers, kept as parameters in the record, and the value
  read from \<open>IAR\<close> is a field.  The record is the view of one core, so the banked registers of
  the private interrupts appear once.
\<close>

section \<open>Constants and interrupt states\<close>

definition GICD_CTLR_EN_BIT :: u32 where "GICD_CTLR_EN_BIT = 1"
definition GICC_CTLR_EN_BIT :: u32 where "GICC_CTLR_EN_BIT = 1"
definition GICC_CTLR_EOIMODENS_BIT :: u32 where "GICC_CTLR_EOIMODENS_BIT = push_bit 9 1"
definition GICH_HCR_LRENPIE_BIT :: u32 where "GICH_HCR_LRENPIE_BIT = push_bit 2 1"
definition INTERRUPT_NUM_MAX :: usize where "INTERRUPT_NUM_MAX = 1024"
definition GIC_SGIS_NUM :: usize where "GIC_SGIS_NUM = 16"
definition GIC_PPIS_NUM :: usize where "GIC_PPIS_NUM = 16"
definition GIC_INTS_MAX :: usize where "GIC_INTS_MAX = INTERRUPT_NUM_MAX"
definition GIC_PRIVINT_NUM :: usize where "GIC_PRIVINT_NUM = GIC_SGIS_NUM + GIC_PPIS_NUM"
definition GIC_SPI_MAX :: usize where "GIC_SPI_MAX = INTERRUPT_NUM_MAX - GIC_PRIVINT_NUM"
definition GIC_PRIO_BITS :: usize where "GIC_PRIO_BITS = 8"
definition GIC_TARGET_BITS :: usize where "GIC_TARGET_BITS = 8"
definition GIC_TARGETS_MAX :: usize where "GIC_TARGETS_MAX = GIC_TARGET_BITS"
definition GIC_CONFIG_BITS :: usize where "GIC_CONFIG_BITS = 2"
definition GIC_LIST_REGS_NUM :: usize where "GIC_LIST_REGS_NUM = 64"
definition GIC_INT_REGS_NUM :: usize where "GIC_INT_REGS_NUM = GIC_INTS_MAX div 32"
definition GIC_PRIO_REGS_NUM :: usize where "GIC_PRIO_REGS_NUM = GIC_INTS_MAX * 8 div 32"
definition GIC_TARGET_REGS_NUM :: usize where "GIC_TARGET_REGS_NUM = GIC_INTS_MAX * 8 div 32"
definition GIC_CONFIG_REGS_NUM :: usize where "GIC_CONFIG_REGS_NUM = GIC_INTS_MAX * 2 div 32"
definition GIC_SGI_REGS_NUM :: usize where "GIC_SGI_REGS_NUM = GIC_SGIS_NUM * 8 div 32"

lemmas gic_consts = GICD_CTLR_EN_BIT_def GICC_CTLR_EN_BIT_def GICC_CTLR_EOIMODENS_BIT_def
  GICH_HCR_LRENPIE_BIT_def INTERRUPT_NUM_MAX_def GIC_SGIS_NUM_def GIC_PPIS_NUM_def GIC_INTS_MAX_def
  GIC_PRIVINT_NUM_def GIC_SPI_MAX_def GIC_PRIO_BITS_def GIC_TARGET_BITS_def GIC_TARGETS_MAX_def
  GIC_CONFIG_BITS_def GIC_LIST_REGS_NUM_def GIC_INT_REGS_NUM_def GIC_PRIO_REGS_NUM_def
  GIC_TARGET_REGS_NUM_def GIC_CONFIG_REGS_NUM_def GIC_SGI_REGS_NUM_def

datatype IrqState = IrqSInactive | IrqSPend | IrqSActive | IrqSPendActive

fun num_to_state :: "usize \<Rightarrow> IrqState option" where
  "num_to_state n =
     (if n = 0 then Some IrqSInactive
      else if n = 1 then Some IrqSPend
      else if n = 2 then Some IrqSActive
      else if n = 3 then Some IrqSPendActive
      else None)"

fun to_num :: "IrqState \<Rightarrow> usize" where
  "to_num IrqSInactive = 0"
| "to_num IrqSPend = 1"
| "to_num IrqSActive = 2"
| "to_num IrqSPendActive = 3"

lemma num_to_state_to_num [simp]: "num_to_state (to_num s) = Some s"
  by (cases s) simp_all

lemma to_num_less [simp]: "to_num s < 4"
  by (cases s) simp_all

lemma num_to_state_Some: "num_to_state n = Some s \<longleftrightarrow> n = to_num s"
  by (cases s) (auto split: if_splits)

section \<open>Register blocks\<close>

record GicDistributorBlock =
  gd_ctlr :: u32
  gd_typer :: u32
  gd_iidr :: u32
  gd_enable :: "u32 list"
  gd_pend :: "u32 list"
  gd_active :: "u32 list"
  gd_prio :: "u32 list"
  gd_trgt :: "u32 list"
  gd_cfg :: "u32 list"
  gd_sgipend :: "u32 list"
  gd_sgir :: "u32 list"
  gd_en_set :: "usize set"

record GicCpuInterfaceBlock =
  gc_ctlr :: u32
  gc_pmr :: u32
  gc_iar :: u32
  gc_eoir :: "u32 list"
  gc_dir :: "u32 list"

record GicHypervisorInterfaceBlock =
  gh_hcr :: u32
  gh_vtr :: u32
  gh_apr :: u32
  gh_lr :: "u32 list"
  gh_elrsr :: "u32 list \<Rightarrow> usize \<Rightarrow> u32"
  gh_eisr :: "u32 list \<Rightarrow> usize \<Rightarrow> u32"
  gh_misr :: "u32 \<Rightarrow> u32 list \<Rightarrow> u32"

definition gicd_wf :: "GicDistributorBlock \<Rightarrow> bool" where
  "gicd_wf d \<longleftrightarrow> length (gd_enable d) = 32 \<and> length (gd_pend d) = 32 \<and> length (gd_active d) = 32 \<and>
     length (gd_prio d) = 256 \<and> length (gd_trgt d) = 256 \<and> length (gd_cfg d) = 64 \<and> length (gd_sgipend d) = 4"

definition gich_wf :: "GicHypervisorInterfaceBlock \<Rightarrow> bool" where
  "gich_wf h \<longleftrightarrow> length (gh_lr h) = 64"

section \<open>Distributor operations\<close>

definition gic_is_priv :: "usize \<Rightarrow> bool" where
  "gic_is_priv int_id \<longleftrightarrow> int_id < GIC_PRIVINT_NUM"

definition gic_is_sgi :: "usize \<Rightarrow> bool" where
  "gic_is_sgi int_id \<longleftrightarrow> int_id < GIC_SGIS_NUM"

definition add_en_interrupt :: "usize \<Rightarrow> GicDistributorBlock \<Rightarrow> GicDistributorBlock" where
  "add_en_interrupt int_id d =
     (if int_id < GIC_PRIVINT_NUM then d else d\<lparr>gd_en_set := insert int_id (gd_en_set d)\<rparr>)"

text \<open>A write to a set register or to a clear register of one array of state bits.\<close>

definition set_ones :: "u32 list \<Rightarrow> usize \<Rightarrow> u32 \<Rightarrow> u32 list option" where
  "set_ones rs i v = do { r \<leftarrow> vec_get rs i; vec_set rs i (r OR v) }"

definition clear_ones :: "u32 list \<Rightarrow> usize \<Rightarrow> u32 \<Rightarrow> u32 list option" where
  "clear_ones rs i v = do { r \<leftarrow> vec_get rs i; vec_set rs i (r AND NOT v) }"

definition is_enabler :: "GicDistributorBlock \<Rightarrow> usize \<Rightarrow> u32 option" where
  "is_enabler d idx = vec_get (gd_enable d) idx"

definition send_sgi :: "usize \<Rightarrow> usize \<Rightarrow> GicDistributorBlock \<Rightarrow> GicDistributorBlock option" where
  "send_sgi cpu_if sgi_num d = do {
     assert_that (16 + cpu_if < 64);
     Some (d\<lparr>gd_sgir := gd_sgir d @ [ucast (push_bit (16 + cpu_if) (1 :: u64) OR (of_nat sgi_num AND 0b1111))]\<rparr>) }"

definition gicd_prio :: "GicDistributorBlock \<Rightarrow> usize \<Rightarrow> usize option" where
  "gicd_prio d int_id = do {
     let idx = (int_id * 8) div 32;
     let off = (int_id * 8) mod 32;
     r \<leftarrow> vec_get (gd_prio d) idx;
     Some (unat (drop_bit off r AND 0xff)) }"

text \<open>The read-modify-write of one field, shared by \<open>set_prio\<close>, \<open>set_trgt\<close> and \<open>set_icfgr\<close>.\<close>

definition put_field :: "u32 \<Rightarrow> usize \<Rightarrow> u8 \<Rightarrow> u32 \<Rightarrow> u32" where
  "put_field field off v prev =
     (let mask = push_bit off field in (prev AND NOT mask) OR (push_bit off (ucast v) AND mask))"

definition gicd_set_prio :: "usize \<Rightarrow> u8 \<Rightarrow> GicDistributorBlock \<Rightarrow> GicDistributorBlock option" where
  "gicd_set_prio int_id p d = do {
     let idx = (int_id * 8) div 32;
     let off = (int_id * 8) mod 32;
     prev \<leftarrow> vec_get (gd_prio d) idx;
     rs \<leftarrow> vec_set (gd_prio d) idx (put_field 0b11111111 off p prev);
     Some (d\<lparr>gd_prio := rs\<rparr>) }"

definition gicd_trgt :: "GicDistributorBlock \<Rightarrow> usize \<Rightarrow> usize option" where
  "gicd_trgt d int_id = do {
     let idx = (int_id * 8) div 32;
     let off = (int_id * 8) mod 32;
     r \<leftarrow> vec_get (gd_trgt d) idx;
     Some (unat (drop_bit off r AND 0xff)) }"

definition gicd_set_trgt :: "usize \<Rightarrow> u8 \<Rightarrow> GicDistributorBlock \<Rightarrow> GicDistributorBlock option" where
  "gicd_set_trgt int_id t d = do {
     let idx = (int_id * 8) div 32;
     let off = (int_id * 8) mod 32;
     prev \<leftarrow> vec_get (gd_trgt d) idx;
     rs \<leftarrow> vec_set (gd_trgt d) idx (put_field 0b11111111 off t prev);
     Some (d\<lparr>gd_trgt := rs\<rparr>) }"

definition gicd_set_enable :: "usize \<Rightarrow> bool \<Rightarrow> GicDistributorBlock \<Rightarrow> GicDistributorBlock option" where
  "gicd_set_enable int_id en d = do {
     let idx = int_id div 32;
     let b = push_bit (int_id mod 32) 1;
     if en then do {
       let d = add_en_interrupt int_id d;
       rs \<leftarrow> set_ones (gd_enable d) idx b;
       Some (d\<lparr>gd_enable := rs\<rparr>) }
     else do {
       rs \<leftarrow> clear_ones (gd_enable d) idx b;
       Some (d\<lparr>gd_enable := rs\<rparr>) } }"

definition gicd_set_pend :: "usize \<Rightarrow> usize \<Rightarrow> bool \<Rightarrow> GicDistributorBlock \<Rightarrow> GicDistributorBlock option" where
  "gicd_set_pend cpu_id int_id pend d =
     (if gic_is_sgi int_id then
        (let reg_ind = int_id div 4; off = (int_id mod 4) * 8 in
         if pend then do {
           assert_that (off + cpu_id < 32);
           rs \<leftarrow> set_ones (gd_sgipend d) reg_ind (push_bit (off + cpu_id) 1);
           Some (d\<lparr>gd_sgipend := rs\<rparr>) }
         else do {
           rs \<leftarrow> clear_ones (gd_sgipend d) reg_ind (push_bit off 0b11111111);
           Some (d\<lparr>gd_sgipend := rs\<rparr>) })
      else
        (let reg_ind = int_id div 32; mask = push_bit (int_id mod 32) 1 in
         if pend then do {
           rs \<leftarrow> set_ones (gd_pend d) reg_ind mask;
           Some (d\<lparr>gd_pend := rs\<rparr>) }
         else do {
           rs \<leftarrow> clear_ones (gd_pend d) reg_ind mask;
           Some (d\<lparr>gd_pend := rs\<rparr>) }))"

definition gicd_set_act :: "usize \<Rightarrow> bool \<Rightarrow> GicDistributorBlock \<Rightarrow> GicDistributorBlock option" where
  "gicd_set_act int_id act d =
     (let reg_ind = int_id div 32; mask = push_bit (int_id mod 32) 1 in
      if act then do {
        rs \<leftarrow> set_ones (gd_active d) reg_ind mask;
        Some (d\<lparr>gd_active := rs\<rparr>) }
      else do {
        rs \<leftarrow> clear_ones (gd_active d) reg_ind mask;
        Some (d\<lparr>gd_active := rs\<rparr>) })"

definition gicd_set_state :: "usize \<Rightarrow> usize \<Rightarrow> usize \<Rightarrow> GicDistributorBlock \<Rightarrow> GicDistributorBlock option" where
  "gicd_set_state cpu_id int_id st d = do {
     d \<leftarrow> gicd_set_act int_id (bit st 1) d;
     gicd_set_pend cpu_id int_id (bit st 0) d }"

definition gicd_set_icfgr :: "usize \<Rightarrow> u8 \<Rightarrow> GicDistributorBlock \<Rightarrow> GicDistributorBlock option" where
  "gicd_set_icfgr int_id cfg d = do {
     let reg_ind = (int_id * GIC_CONFIG_BITS) div 32;
     let off = (int_id * GIC_CONFIG_BITS) mod 32;
     icfgr \<leftarrow> vec_get (gd_cfg d) reg_ind;
     rs \<leftarrow> vec_set (gd_cfg d) reg_ind (put_field 0b11 off cfg icfgr);
     Some (d\<lparr>gd_cfg := rs\<rparr>) }"

definition gicd_state :: "GicDistributorBlock \<Rightarrow> usize \<Rightarrow> usize option" where
  "gicd_state d int_id = do {
     let reg_ind = int_id div 32;
     let mask = push_bit (int_id mod 32) (1 :: u32);
     p \<leftarrow> vec_get (gd_pend d) reg_ind;
     let pend = (if p AND mask \<noteq> 0 then 1 else 0 :: nat);
     a \<leftarrow> vec_get (gd_active d) reg_ind;
     let act = (if a AND mask \<noteq> 0 then 2 else 0);
     Some (pend OR act) }"

definition gic_max_spi :: "GicDistributorBlock \<Rightarrow> usize" where
  "gic_max_spi d = unat (32 * ((gd_typer d AND 0b11111) + 1))"

definition global_init :: "GicDistributorBlock \<Rightarrow> GicDistributorBlock option" where
  "global_init d = do {
     let int_num = gic_max_spi d;
     d \<leftarrow> for_range (GIC_PRIVINT_NUM div 32) (int_num div 32) (\<lambda>i d. do {
       e \<leftarrow> clear_ones (gd_enable d) i (- 1);
       p \<leftarrow> clear_ones (gd_pend d) i (- 1);
       a \<leftarrow> clear_ones (gd_active d) i (- 1);
       Some (d\<lparr>gd_enable := e, gd_pend := p, gd_active := a\<rparr>) }) d;
     d \<leftarrow> for_range (GIC_PRIVINT_NUM div 4) (int_num * 8 div 32) (\<lambda>i d. do {
       p \<leftarrow> vec_set (gd_prio d) i (- 1);
       t \<leftarrow> vec_set (gd_trgt d) i 0;
       Some (d\<lparr>gd_prio := p, gd_trgt := t\<rparr>) }) d;
     Some (d\<lparr>gd_ctlr := gd_ctlr d OR GICD_CTLR_EN_BIT\<rparr>) }"

definition gicd_cpu_init :: "GicDistributorBlock \<Rightarrow> GicDistributorBlock option" where
  "gicd_cpu_init d = do {
     d \<leftarrow> for_range 0 (GIC_PRIVINT_NUM div 32) (\<lambda>i d. do {
       e \<leftarrow> clear_ones (gd_enable d) i (- 1);
       p \<leftarrow> clear_ones (gd_pend d) i (- 1);
       a \<leftarrow> clear_ones (gd_active d) i (- 1);
       Some (d\<lparr>gd_enable := e, gd_pend := p, gd_active := a\<rparr>) }) d;
     d \<leftarrow> for_range 0 ((GIC_SGIS_NUM * 8) div 32) (\<lambda>i d. do {
       s \<leftarrow> clear_ones (gd_sgipend d) i (- 1);
       Some (d\<lparr>gd_sgipend := s\<rparr>) }) d;
     for_range 0 ((GIC_PRIVINT_NUM * 8) div 32) (\<lambda>i d. do {
       p \<leftarrow> vec_set (gd_prio d) i (- 1);
       Some (d\<lparr>gd_prio := p\<rparr>) }) d }"

section \<open>CPU interface and virtual interface control\<close>

definition gich_lrs_num :: "GicHypervisorInterfaceBlock \<Rightarrow> usize" where
  "gich_lrs_num h = unat ((gh_vtr h AND 0b11111) + 1)"

definition gich_lr :: "GicHypervisorInterfaceBlock \<Rightarrow> usize \<Rightarrow> u32 option" where
  "gich_lr h lr_idx = vec_get (gh_lr h) lr_idx"

definition gich_set_lr :: "usize \<Rightarrow> u32 \<Rightarrow> GicHypervisorInterfaceBlock \<Rightarrow> GicHypervisorInterfaceBlock option" where
  "gich_set_lr lr_idx v h = do { rs \<leftarrow> vec_set (gh_lr h) lr_idx v; Some (h\<lparr>gh_lr := rs\<rparr>) }"

definition gich_elrsr :: "GicHypervisorInterfaceBlock \<Rightarrow> usize \<Rightarrow> u32" where
  "gich_elrsr h i = gh_elrsr h (gh_lr h) i"

definition gich_eisr :: "GicHypervisorInterfaceBlock \<Rightarrow> usize \<Rightarrow> u32" where
  "gich_eisr h i = gh_eisr h (gh_lr h) i"

definition gich_misr :: "GicHypervisorInterfaceBlock \<Rightarrow> u32" where
  "gich_misr h = gh_misr h (gh_hcr h) (gh_lr h)"

definition gicc_init :: "GicCpuInterfaceBlock \<Rightarrow> GicHypervisorInterfaceBlock \<Rightarrow>
    (GicCpuInterfaceBlock \<times> GicHypervisorInterfaceBlock) option" where
  "gicc_init c h = do {
     h \<leftarrow> for_range 0 (gich_lrs_num h) (\<lambda>i. gich_set_lr i 0) h;
     let c = c\<lparr>gc_pmr := - 1\<rparr>;
     let c = c\<lparr>gc_ctlr := gc_ctlr c OR GICC_CTLR_EN_BIT OR GICC_CTLR_EOIMODENS_BIT\<rparr>;
     Some (c, h\<lparr>gh_hcr := gh_hcr h OR GICH_HCR_LRENPIE_BIT\<rparr>) }"

text \<open>The current interrupt is the field \<open>current_irq\<close> of the core.\<close>

definition gicc_clear_current_irq :: "bool \<Rightarrow> usize \<Rightarrow> GicCpuInterfaceBlock \<Rightarrow> usize \<times> GicCpuInterfaceBlock" where
  "gicc_clear_current_irq for_hypervisor current_irq c =
     (let irq = (of_nat current_irq :: u32) in
      if irq = 0 then (current_irq, c)
      else
        let c = c\<lparr>gc_eoir := gc_eoir c @ [irq]\<rparr>;
            c = (if for_hypervisor then c\<lparr>gc_dir := gc_dir c @ [irq]\<rparr> else c)
        in (0, c))"

definition gicc_get_current_irq :: "GicCpuInterfaceBlock \<Rightarrow> ((usize \<times> usize) \<times> usize) option" where
  "gicc_get_current_irq c = do {
     let iar = gc_iar c;
     ident \<leftarrow> bit_extract (ucast iar) 0 10;
     src \<leftarrow> bit_extract (ucast iar) 10 3;
     Some ((unat ident, unat src), unat iar) }"

section \<open>Fields of a register array\<close>

text \<open>
  The contract of an array of per-interrupt fields: writing the field of one interrupt
  succeeds, is read back, and changes no field of another.
\<close>

locale field_bank =
  fixes ok :: "'s \<Rightarrow> bool" and fget :: "'s \<Rightarrow> nat \<Rightarrow> 'v option" and fput :: "nat \<Rightarrow> 'w \<Rightarrow> 's \<Rightarrow> 's option"
    and val :: "'w \<Rightarrow> 'v"
  assumes put_total: "ok s \<Longrightarrow> i < 1024 \<Longrightarrow> \<exists>s'. fput i v s = Some s' \<and> ok s'"
    and get_put: "ok s \<Longrightarrow> i < 1024 \<Longrightarrow> fput i v s = Some s' \<Longrightarrow> fget s' i = Some (val v)"
    and get_put_other: "ok s \<Longrightarrow> i < 1024 \<Longrightarrow> j < 1024 \<Longrightarrow> i \<noteq> j \<Longrightarrow> fput i v s = Some s' \<Longrightarrow> fget s' j = fget s j"
begin

text \<open>A sequence of writes to distinct interrupts is read back entirely.\<close>

lemma put_all:
  assumes "ok s" and "distinct (map fst xs)" and "\<forall>x \<in> set xs. fst x < 1024"
  shows "\<exists>s'. fold_opt (\<lambda>(i, v). fput i v) xs s = Some s' \<and> ok s' \<and>
    (\<forall>(i, v) \<in> set xs. fget s' i = Some (val v)) \<and>
    (\<forall>j < 1024. j \<notin> fst ` set xs \<longrightarrow> fget s' j = fget s j)"
  using assms
proof (induction xs arbitrary: s)
  case Nil
  then show ?case by simp
next
  case (Cons x xs)
  obtain i v where x: "x = (i, v)" by (cases x)
  with Cons.prems have i: "i < 1024" "i \<notin> fst ` set xs" by auto
  then obtain s1 where s1: "fput i v s = Some s1" "ok s1" using put_total[OF Cons.prems(1)] by blast
  have "distinct (map fst xs)" "\<forall>x \<in> set xs. fst x < 1024" using Cons.prems by simp_all
  from Cons.IH[OF s1(2) this] obtain s' where s': "fold_opt (\<lambda>(i, v). fput i v) xs s1 = Some s'" "ok s'"
    "\<forall>(i, v) \<in> set xs. fget s' i = Some (val v)" "\<forall>j < 1024. j \<notin> fst ` set xs \<longrightarrow> fget s' j = fget s1 j"
    by blast
  have "fget s' i = Some (val v)" using s'(4) i get_put[OF Cons.prems(1) i(1) s1(1)] by simp
  moreover have "fget s' j = fget s j" if "j < 1024" "j \<notin> fst ` set (x # xs)" for j
    using s'(4) that get_put_other[OF Cons.prems(1) i(1) that(1) _ s1(1)] x by auto
  ultimately show ?case using s1 s' x by auto
qed

end

lemma bit_int_ff: "bit (0xff :: int) k \<longleftrightarrow> k < 8"
proof -
  have "(0xff :: int) = mask 8" by (simp add: mask_eq_exp_minus_1)
  then show ?thesis by (simp only: bit_mask_iff) (simp add: possible_bit_def)
qed

lemma bit_u8_bound: "bit (v :: u8) k \<Longrightarrow> k < 8"
  using bit_imp_le_length[of v k] by simp

lemma drop_put_field_same:
  assumes "off + 8 \<le> 32"
  shows "drop_bit off (put_field 0xff off v prev) AND 0xff = ucast v"
proof (rule bit_word_eqI)
  fix n assume "n < LENGTH(32)"
  then show "bit (drop_bit off (put_field 0xff off v prev) AND 0xff) n \<longleftrightarrow> bit (ucast v :: u32) n"
    using assms bit_u8_bound[of v n]
    by (simp add: put_field_def Let_def bit_drop_bit_eq bit_and_iff bit_or_iff bit_not_iff bit_push_bit_iff
        bit_int_ff bit_unsigned_iff possible_bit_def) auto
qed

lemma drop_put_field_other:
  assumes "off + 8 \<le> 32" "off' + 8 \<le> 32" "off + 8 \<le> off' \<or> off' + 8 \<le> off"
  shows "drop_bit off' (put_field 0xff off v prev) AND 0xff = drop_bit off' prev AND 0xff"
proof (rule bit_word_eqI)
  fix n assume "n < LENGTH(32)"
  then show "bit (drop_bit off' (put_field 0xff off v prev) AND 0xff) n \<longleftrightarrow> bit (drop_bit off' prev AND 0xff) n"
    using assms
    by (simp add: put_field_def Let_def bit_drop_bit_eq bit_and_iff bit_or_iff bit_not_iff bit_push_bit_iff
        bit_int_ff bit_unsigned_iff possible_bit_def) auto
qed

text \<open>The index arithmetic of 8-bit fields: four interrupts per register.\<close>

lemma field8_index:
  fixes i :: nat
  shows "i * 8 div 32 = i div 4" "i * 8 mod 32 = (i mod 4) * 8"
proof -
  show "i * 8 div 32 = i div 4" by simp
  have "i * 8 mod (4 * 8) = i mod 4 * 8" by (rule mult_mod_left[symmetric])
  then show "i * 8 mod 32 = (i mod 4) * 8" by simp
qed

lemma field8_offset: "(i mod 4) * 8 + 8 \<le> (32 :: nat)"
proof -
  have "i mod 4 < 4" by simp
  then show ?thesis by linarith
qed

lemma field8_apart:
  fixes i j :: nat
  assumes "i \<noteq> j" "i div 4 = j div 4"
  shows "(i mod 4) * 8 + 8 \<le> (j mod 4) * 8 \<or> (j mod 4) * 8 + 8 \<le> (i mod 4) * 8"
proof -
  from assms have "i mod 4 \<noteq> j mod 4" by (metis div_mod_decomp)
  then show ?thesis by linarith
qed

lemma unat_ucast_u8_u32: "unat (ucast (v :: u8) :: u32) = unat v"
  by (simp add: unsigned_ucast_eq take_bit_nat_eq_self unsigned_less[THEN less_le_trans])

interpretation prio_bank: field_bank gicd_wf gicd_prio gicd_set_prio unat
proof
  fix s v s' and i :: nat
  assume ok: "gicd_wf s" "i < 1024"
  then have l: "i div 4 < length (gd_prio s)" by (simp add: gicd_wf_def)
  then show "\<exists>s'. gicd_set_prio i v s = Some s' \<and> gicd_wf s'" using ok by (simp add: gicd_set_prio_def gicd_wf_def Let_def)
  assume "gicd_set_prio i v s = Some s'"
  then show "gicd_prio s' i = Some (unat v)"
    using l drop_put_field_same[OF field8_offset, of i v]
    by (auto simp: gicd_set_prio_def gicd_prio_def unat_ucast_u8_u32 field8_index Let_def)
next
  fix s v s' and i j :: nat
  assume "gicd_wf s" "i < 1024" "j < 1024" "i \<noteq> j" and s': "gicd_set_prio i v s = Some s'"
  then have l: "i div 4 < length (gd_prio s)" "j div 4 < length (gd_prio s)" by (simp_all add: gicd_wf_def)
  show "gicd_prio s' j = gicd_prio s j"
    using s' l drop_put_field_other[OF field8_offset field8_offset field8_apart[OF \<open>i \<noteq> j\<close>], of v]
    by (auto simp: gicd_set_prio_def gicd_prio_def nth_list_update field8_index Let_def)
qed

interpretation trgt_bank: field_bank gicd_wf gicd_trgt gicd_set_trgt unat
proof
  fix s v s' and i :: nat
  assume ok: "gicd_wf s" "i < 1024"
  then have l: "i div 4 < length (gd_trgt s)" by (simp add: gicd_wf_def)
  then show "\<exists>s'. gicd_set_trgt i v s = Some s' \<and> gicd_wf s'" using ok by (simp add: gicd_set_trgt_def gicd_wf_def Let_def)
  assume "gicd_set_trgt i v s = Some s'"
  then show "gicd_trgt s' i = Some (unat v)"
    using l drop_put_field_same[OF field8_offset, of i v]
    by (auto simp: gicd_set_trgt_def gicd_trgt_def unat_ucast_u8_u32 field8_index Let_def)
next
  fix s v s' and i j :: nat
  assume "gicd_wf s" "i < 1024" "j < 1024" "i \<noteq> j" and s': "gicd_set_trgt i v s = Some s'"
  then have l: "i div 4 < length (gd_trgt s)" "j div 4 < length (gd_trgt s)" by (simp_all add: gicd_wf_def)
  show "gicd_trgt s' j = gicd_trgt s j"
    using s' l drop_put_field_other[OF field8_offset field8_offset field8_apart[OF \<open>i \<noteq> j\<close>], of v]
    by (auto simp: gicd_set_trgt_def gicd_trgt_def nth_list_update field8_index Let_def)
qed

section \<open>State bits\<close>

text \<open>One bit per interrupt, written through a set and a clear register.\<close>

definition state_bit :: "u32 list \<Rightarrow> usize \<Rightarrow> bool option" where
  "state_bit rs i = do { r \<leftarrow> vec_get rs (i div 32); Some (bit r (i mod 32)) }"

definition gicd_enabled :: "GicDistributorBlock \<Rightarrow> usize \<Rightarrow> bool option" where
  "gicd_enabled d i = state_bit (gd_enable d) i"

lemma bit_single: "bit ((2 :: u32) ^ k) n \<longleftrightarrow> n = k \<and> k < 32"
  by (auto simp: bit_exp_iff possible_bit_def)

lemma state_bit_index:
  fixes i j :: nat
  shows "i div 32 = j div 32 \<Longrightarrow> i mod 32 = j mod 32 \<Longrightarrow> i = j"
  by (metis div_mod_decomp)

lemma set_ones_state_bit:
  assumes "set_ones rs (i div 32) (push_bit (i mod 32) 1) = Some rs'" and "j div 32 < length rs"
  shows "state_bit rs' j = (if i = j then Some True else state_bit rs j) \<and> length rs' = length rs"
proof -
  from assms(1) have i: "i div 32 < length rs" and rs': "rs' = rs[i div 32 := rs ! (i div 32) OR push_bit (i mod 32) 1]"
    by (simp_all add: set_ones_def panic_simps)
  show ?thesis
  proof (cases "i div 32 = j div 32")
    case True
    then show ?thesis using i state_bit_index[of i j]
      by (auto simp: rs' state_bit_def bit_or_iff bit_single)
  qed (use assms(2) in \<open>auto simp: rs' state_bit_def\<close>)
qed

lemma clear_ones_state_bit:
  assumes "clear_ones rs (i div 32) (push_bit (i mod 32) 1) = Some rs'" and "j div 32 < length rs"
  shows "state_bit rs' j = (if i = j then Some False else state_bit rs j) \<and> length rs' = length rs"
proof -
  from assms(1) have i: "i div 32 < length rs" and rs': "rs' = rs[i div 32 := rs ! (i div 32) AND NOT (push_bit (i mod 32) 1)]"
    by (simp_all add: clear_ones_def panic_simps)
  have b: "bit (NOT (push_bit (i mod 32) (1 :: u32))) n \<longleftrightarrow> n < 32 \<and> n \<noteq> i mod 32" for n
    by (auto simp: bit_not_iff bit_single possible_bit_def)
  show ?thesis
  proof (cases "i div 32 = j div 32")
    case True
    then show ?thesis using i state_bit_index[of i j] b[of "j mod 32"]
      by (auto simp: rs' state_bit_def bit_and_iff)
  qed (use assms(2) in \<open>auto simp: rs' state_bit_def\<close>)
qed

lemma ones_total:
  assumes "i div 32 < length rs"
  shows "\<exists>rs'. set_ones rs (i div 32) v = Some rs'" "\<exists>rs'. clear_ones rs (i div 32) v = Some rs'"
  using assms by (simp_all add: set_ones_def clear_ones_def)

lemma gicd_set_enable_eq:
  assumes "gicd_wf d" "i < 1024" "gicd_set_enable i en d = Some d'"
  shows "gicd_wf d' \<and> (\<forall>j < 1024. gicd_enabled d' j = (if i = j then Some en else gicd_enabled d j)) \<and>
    d' = d\<lparr>gd_enable := gd_enable d', gd_en_set := gd_en_set d'\<rparr>"
proof -
  from assms(3) have "\<exists>rs'. (if en then set_ones (gd_enable d) (i div 32) (push_bit (i mod 32) 1) = Some rs'
      else clear_ones (gd_enable d) (i div 32) (push_bit (i mod 32) 1) = Some rs') \<and>
      (d' = d\<lparr>gd_enable := rs'\<rparr> \<or> (\<exists>S. d' = d\<lparr>gd_en_set := S, gd_enable := rs'\<rparr>))"
    by (auto simp: gicd_set_enable_def add_en_interrupt_def panic_simps Let_def split: if_splits)
  then obtain rs' where rs': "if en then set_ones (gd_enable d) (i div 32) (push_bit (i mod 32) 1) = Some rs'
      else clear_ones (gd_enable d) (i div 32) (push_bit (i mod 32) 1) = Some rs'"
    and d': "d' = d\<lparr>gd_enable := rs'\<rparr> \<or> (\<exists>S. d' = d\<lparr>gd_en_set := S, gd_enable := rs'\<rparr>)" by blast
  have b: "state_bit rs' j = (if i = j then Some en else state_bit (gd_enable d) j) \<and> length rs' = 32" if "j < 1024" for j
    using that assms(1) rs' set_ones_state_bit[of "gd_enable d" i rs' j] clear_ones_state_bit[of "gd_enable d" i rs' j]
    by (auto simp: gicd_wf_def split: if_splits)
  then have "length rs' = 32" by (metis zero_less_numeral)
  with b show ?thesis using d' assms(1) by (auto simp: gicd_enabled_def gicd_wf_def)
qed

interpretation enable_bank: field_bank gicd_wf gicd_enabled gicd_set_enable "\<lambda>b. b"
proof
  fix s v s' and i :: nat
  assume ok: "gicd_wf s" "i < 1024"
  then have l: "i div 32 < length (gd_enable s)" by (simp add: gicd_wf_def)
  have "\<exists>s'. gicd_set_enable i v s = Some s'"
    using ones_total[OF l, of "push_bit (i mod 32) 1"]
    by (auto simp: gicd_set_enable_def add_en_interrupt_def Let_def)
  then show "\<exists>s'. gicd_set_enable i v s = Some s' \<and> gicd_wf s'" using gicd_set_enable_eq[OF ok] by blast
  assume "gicd_set_enable i v s = Some s'"
  from gicd_set_enable_eq[OF ok this] ok show "gicd_enabled s' i = Some v" by simp
next
  fix s v s' and i j :: nat
  assume "gicd_wf s" "i < 1024" "j < 1024" "i \<noteq> j" "gicd_set_enable i v s = Some s'"
  then show "gicd_enabled s' j = gicd_enabled s j" using gicd_set_enable_eq[of s i v s'] by simp
qed

lemma gicd_state_bits:
  assumes "gicd_wf d" "i < 1024" "state_bit (gd_pend d) i = Some p" "state_bit (gd_active d) i = Some a"
  shows "gicd_state d i = Some (of_bool p + 2 * of_bool a)"
proof -
  have nz: "r AND 2 ^ k = 0 \<longleftrightarrow> \<not> bit r k" for r :: u32 and k
    by (rule and_exp_eq_0_iff_not_bit)
  have "i div 32 < 32" "i mod 32 < 32" using assms(2) by simp_all
  with assms show ?thesis
    by (auto simp: gicd_state_def state_bit_def gicd_wf_def Let_def nz)
qed

text \<open>
  For a shared or private peripheral interrupt, \<open>set_state\<close> succeeds and \<open>state\<close> reads
  the two state bits back; no other peripheral interrupt changes state, and no priority,
  target, enable bit or configuration changes.
\<close>

theorem gicd_set_state_state:
  assumes "gicd_wf d" and "16 \<le> i" and "i < 1024" and "st < 4"
  shows "\<exists>d'. gicd_set_state cpu i st d = Some d' \<and> gicd_wf d' \<and> gicd_state d' i = Some st \<and>
    (\<forall>j. 16 \<le> j \<longrightarrow> j < 1024 \<longrightarrow> j \<noteq> i \<longrightarrow> gicd_state d' j = gicd_state d j) \<and>
    d' = d\<lparr>gd_active := gd_active d', gd_pend := gd_pend d'\<rparr>"
proof -
  let ?m = "push_bit (i mod 32) (1 :: u32)"
  let ?act = "\<lambda>rs. if bit st 1 then set_ones rs (i div 32) ?m else clear_ones rs (i div 32) ?m"
  let ?pend = "\<lambda>rs. if bit st 0 then set_ones rs (i div 32) ?m else clear_ones rs (i div 32) ?m"
  have l: "i div 32 < length (gd_active d)" "i div 32 < length (gd_pend d)" using assms by (simp_all add: gicd_wf_def)
  obtain as ps where as: "?act (gd_active d) = Some as" and ps: "?pend (gd_pend d) = Some ps"
    using ones_total[OF l(1), of ?m] ones_total[OF l(2), of ?m] by (metis (full_types))
  define d' where "d' = d\<lparr>gd_active := as, gd_pend := ps\<rparr>"
  have run: "gicd_set_state cpu i st d = Some d'"
    using as ps assms(2)
    by (simp add: gicd_set_state_def gicd_set_act_def gicd_set_pend_def gic_is_sgi_def GIC_SGIS_NUM_def Let_def d'_def split: if_splits)
  have bits: "state_bit as j = (if i = j then Some (bit st 1) else state_bit (gd_active d) j) \<and> length as = 32"
    "state_bit ps j = (if i = j then Some (bit st 0) else state_bit (gd_pend d) j) \<and> length ps = 32" if "j < 1024" for j
    using that assms(1) as ps set_ones_state_bit[of "gd_active d" i as j] clear_ones_state_bit[of "gd_active d" i as j]
      set_ones_state_bit[of "gd_pend d" i ps j] clear_ones_state_bit[of "gd_pend d" i ps j]
    by (auto simp: gicd_wf_def split: if_splits)
  have wf: "gicd_wf d'" using bits[of 0] assms(1) by (simp add: gicd_wf_def d'_def)
  have "st \<in> {0, 1, 2, 3}" using assms(4) by auto
  then have st: "of_bool (bit st 0) + 2 * of_bool (bit st 1) = st" by (auto simp: bit_iff_odd)
  have "gicd_state d' i = Some st"
    using gicd_state_bits[OF wf assms(3), of "bit st 0" "bit st 1"] bits[OF assms(3)] st by (simp add: d'_def)
  moreover have "gicd_state d' j = gicd_state d j" if "j < 1024" "j \<noteq> i" for j
  proof -
    obtain p a where "state_bit (gd_pend d) j = Some p" "state_bit (gd_active d) j = Some a"
      using assms(1) \<open>j < 1024\<close> by (auto simp: state_bit_def gicd_wf_def vec_get_def less_mult_imp_div_less)
    with gicd_state_bits[OF wf that(1)] gicd_state_bits[OF assms(1) that(1)] bits[OF that(1)] that(2) show ?thesis
      by (simp add: d'_def)
  qed
  ultimately show ?thesis using run wf by (auto simp: d'_def)
qed

definition gicd_reset :: GicDistributorBlock where
  "gicd_reset = \<lparr>gd_ctlr = 0, gd_typer = 0b01000, gd_iidr = 0, gd_enable = replicate 32 0, gd_pend = replicate 32 0,
     gd_active = replicate 32 0, gd_prio = replicate 256 0, gd_trgt = replicate 256 0, gd_cfg = replicate 64 0,
     gd_sgipend = replicate 4 0, gd_sgir = [], gd_en_set = {}\<rparr>"

lemma gicd_reset_wf: "gicd_wf gicd_reset"
  by (simp add: gicd_wf_def gicd_reset_def)

theorem gicd_set_state_state_witness:
  "\<exists>d'. gicd_set_state 0 48 3 gicd_reset = Some d' \<and> gicd_state d' 48 = Some 3 \<and> gicd_state d' 49 = Some 0"
proof -
  have "gicd_state gicd_reset 49 = Some 0" by (simp add: gicd_state_def gicd_reset_def Let_def)
  with gicd_set_state_state[OF gicd_reset_wf, of 48 3 0] show ?thesis by force
qed

end
