(* ===== verification/Context.thy ===== *)
theory Context
  imports Gic
begin

text \<open>
  \<open>src/src/arch/aarch64/context_frame.rs\<close> and the \<open>GicState\<close> of \<open>gic.rs\<close>: what the hypervisor
  saves of a virtual CPU when it is descheduled and writes back when it runs again.

  The system registers of the core are a function of their names.  An \<open>mrs\<close> into a 32-bit
  field keeps the low half.  An \<open>msr\<close> from a 32-bit operand leaves the upper half of the
  source register to the compiler, so the halves are a parameter (\<open>hw_upper\<close>).
\<close>

section \<open>General purpose registers\<close>

definition CONTEXT_GPR_NUM :: usize where "CONTEXT_GPR_NUM = 31"

record Aarch64ContextFrame =
  cf_gpr :: "u64 list"
  cf_spsr :: u64
  cf_elr :: u64
  cf_sp :: u64

text \<open>\<open>EL1h\<close> with debug, SError, IRQ and FIQ masked.\<close>

definition SPSR_EL1h_masked :: u64 where
  "SPSR_EL1h_masked = 0b0101 OR push_bit 7 1 OR push_bit 6 1 OR push_bit 8 1 OR push_bit 9 1"

definition frame_default :: Aarch64ContextFrame where
  "frame_default = \<lparr>cf_gpr = replicate 31 0, cf_spsr = SPSR_EL1h_masked, cf_elr = 0, cf_sp = 0\<rparr>"

definition frame_set_gpr :: "usize \<Rightarrow> u64 \<Rightarrow> Aarch64ContextFrame \<Rightarrow> Aarch64ContextFrame option" where
  "frame_set_gpr index v f = do { g \<leftarrow> vec_set (cf_gpr f) index v; Some (f\<lparr>cf_gpr := g\<rparr>) }"

definition frame_gpr :: "Aarch64ContextFrame \<Rightarrow> usize \<Rightarrow> u64 option" where
  "frame_gpr f index = vec_get (cf_gpr f) index"

definition set_argument :: "u64 \<Rightarrow> Aarch64ContextFrame \<Rightarrow> Aarch64ContextFrame option" where
  "set_argument arg f = frame_set_gpr 0 arg f"

definition set_exception_pc :: "u64 \<Rightarrow> Aarch64ContextFrame \<Rightarrow> Aarch64ContextFrame" where
  "set_exception_pc pc f = f\<lparr>cf_elr := pc\<rparr>"

definition set_stack_pointer :: "u64 \<Rightarrow> Aarch64ContextFrame \<Rightarrow> Aarch64ContextFrame" where
  "set_stack_pointer sp f = f\<lparr>cf_sp := sp\<rparr>"

definition frame_new :: "u64 \<Rightarrow> u64 \<Rightarrow> u64 \<Rightarrow> Aarch64ContextFrame option" where
  "frame_new pc sp arg =
     set_argument arg \<lparr>cf_gpr = replicate 31 0, cf_spsr = SPSR_EL1h_masked, cf_elr = pc, cf_sp = sp\<rparr>"

section \<open>Floating point, interrupt and system register context\<close>

record VmCtxFpsimd =
  fp_regs :: "u64 list"
  fp_sr :: u32
  fp_cr :: u32

definition VmCtxFpsimd_default :: VmCtxFpsimd where
  "VmCtxFpsimd_default = \<lparr>fp_regs = replicate 64 0, fp_sr = 0, fp_cr = 0\<rparr>"

definition VmCtxFpsimd_reset :: "VmCtxFpsimd \<Rightarrow> VmCtxFpsimd" where
  "VmCtxFpsimd_reset c = c\<lparr>fp_sr := 0, fp_cr := 0, fp_regs := map (\<lambda>x. 0) (fp_regs c)\<rparr>"

record GicState =
  gs_hcr :: u32
  gs_eisr :: "u32 list"
  gs_elrsr :: "u32 list"
  gs_apr :: u32
  gs_lr :: "u32 list"
  gs_ctlr :: u32

definition GicState_default :: GicState where
  "GicState_default = \<lparr>gs_hcr = 0, gs_eisr = replicate 2 0, gs_elrsr = replicate 2 0, gs_apr = 0,
     gs_lr = replicate 64 0, gs_ctlr = 0\<rparr>"

definition save_state :: "GicCpuInterfaceBlock \<Rightarrow> GicHypervisorInterfaceBlock \<Rightarrow> GicState \<Rightarrow> GicState option" where
  "save_state c h s = do {
     let s = s\<lparr>gs_hcr := gh_hcr h, gs_apr := gh_apr h\<rparr>;
     s \<leftarrow> for_range 0 (GIC_LIST_REGS_NUM div 32) (\<lambda>i s. do {
       e \<leftarrow> vec_set (gs_eisr s) i (gich_eisr h i);
       l \<leftarrow> vec_set (gs_elrsr s) i (gich_elrsr h i);
       Some (s\<lparr>gs_eisr := e, gs_elrsr := l\<rparr>) }) s;
     s \<leftarrow> for_range 0 (gich_lrs_num h) (\<lambda>i s. do {
       e \<leftarrow> vec_get (gs_elrsr s) 0;
       v \<leftarrow> (if e AND push_bit i 1 = 0 then gich_lr h i else Some 0);
       l \<leftarrow> vec_set (gs_lr s) i v;
       Some (s\<lparr>gs_lr := l\<rparr>) }) s;
     Some (s\<lparr>gs_ctlr := gc_ctlr c\<rparr>) }"

definition restore_state :: "GicState \<Rightarrow> GicCpuInterfaceBlock \<Rightarrow> GicHypervisorInterfaceBlock \<Rightarrow>
    (GicCpuInterfaceBlock \<times> GicHypervisorInterfaceBlock) option" where
  "restore_state s c h = do {
     let h = h\<lparr>gh_hcr := gs_hcr s, gh_apr := gs_apr s\<rparr>;
     h \<leftarrow> for_range 0 (gich_lrs_num h) (\<lambda>i h. do { v \<leftarrow> vec_get (gs_lr s) i; gich_set_lr i v h }) h;
     Some (c\<lparr>gc_ctlr := gs_ctlr s\<rparr>, h) }"

datatype SysReg =
    CNTVOFF_EL2
  | CNTV_CVAL_EL0
  | CNTKCTL_EL1
  | CNTP_CTL_EL0
  | CNTV_CTL_EL0
  | CNTP_TVAL_EL0
  | CNTV_TVAL_EL0
  | CNTVCT_EL0
  | VMPIDR_EL2
  | SP_EL0
  | SP_EL1
  | ELR_EL1
  | SPSR_EL1
  | SCTLR_EL1
  | CPACR_EL1
  | TTBR0_EL1
  | TTBR1_EL1
  | TCR_EL1
  | ESR_EL1
  | FAR_EL1
  | PAR_EL1
  | MAIR_EL1
  | AMAIR_EL1
  | VBAR_EL1
  | CONTEXTIDR_EL1
  | TPIDR_EL0
  | TPIDR_EL1
  | TPIDRRO_EL0
  | PMCR_EL0
  | VTCR_EL2
  | HCR_EL2
  | ACTLR_EL1
  | VTTBR_EL2
  | CNTHP_CTL_EL2
  | CNTHP_TVAL_EL2

record VmContext =
  cntvoff_el2 :: u64
  cntp_cval_el0 :: u64
  cntv_cval_el0 :: u64
  cntkctl_el1 :: u32
  cntvct_el0 :: u64
  cntp_ctl_el0 :: u32
  cntv_ctl_el0 :: u32
  cntp_tval_el0 :: u32
  cntv_tval_el0 :: u32
  vpidr_el2 :: u32
  vmpidr_el2 :: u64
  sp_el0 :: u64
  sp_el1 :: u64
  elr_el1 :: u64
  spsr_el1 :: u32
  sctlr_el1 :: u32
  actlr_el1 :: u64
  cpacr_el1 :: u32
  ttbr0_el1 :: u64
  ttbr1_el1 :: u64
  tcr_el1 :: u64
  esr_el1 :: u32
  far_el1 :: u64
  par_el1 :: u64
  mair_el1 :: u64
  amair_el1 :: u64
  vbar_el1 :: u64
  contextidr_el1 :: u32
  tpidr_el0 :: u64
  tpidr_el1 :: u64
  tpidrro_el0 :: u64
  hcr_el2 :: u64
  cptr_el2 :: u64
  hstr_el2 :: u64
  pmcr_el0 :: u64
  vtcr_el2 :: u64
  far_el2 :: u64
  hpfar_el2 :: u64
  fpsimd :: VmCtxFpsimd
  gic_state :: GicState

definition VmContext_default :: VmContext where
  "VmContext_default = \<lparr>
     cntvoff_el2 = 0,
     cntp_cval_el0 = 0,
     cntv_cval_el0 = 0,
     cntkctl_el1 = 0,
     cntvct_el0 = 0,
     cntp_ctl_el0 = 0,
     cntv_ctl_el0 = 0,
     cntp_tval_el0 = 0,
     cntv_tval_el0 = 0,
     vpidr_el2 = 0,
     vmpidr_el2 = 0,
     sp_el0 = 0,
     sp_el1 = 0,
     elr_el1 = 0,
     spsr_el1 = 0,
     sctlr_el1 = 0,
     actlr_el1 = 0,
     cpacr_el1 = 0,
     ttbr0_el1 = 0,
     ttbr1_el1 = 0,
     tcr_el1 = 0,
     esr_el1 = 0,
     far_el1 = 0,
     par_el1 = 0,
     mair_el1 = 0,
     amair_el1 = 0,
     vbar_el1 = 0,
     contextidr_el1 = 0,
     tpidr_el0 = 0,
     tpidr_el1 = 0,
     tpidrro_el0 = 0,
     hcr_el2 = 0,
     cptr_el2 = 0,
     hstr_el2 = 0,
     pmcr_el0 = 0,
     vtcr_el2 = 0,
     far_el2 = 0,
     hpfar_el2 = 0,
     fpsimd = VmCtxFpsimd_default,
     gic_state = GicState_default\<rparr>"

definition VmContext_reset :: "VmContext \<Rightarrow> VmContext" where
  "VmContext_reset c = c\<lparr>
     cntvoff_el2 := 0,
     cntp_cval_el0 := 0,
     cntv_cval_el0 := 0,
     cntp_tval_el0 := 0,
     cntv_tval_el0 := 0,
     cntkctl_el1 := 0,
     cntvct_el0 := 0,
     cntp_ctl_el0 := 0,
     vpidr_el2 := 0,
     vmpidr_el2 := 0,
     sp_el0 := 0,
     sp_el1 := 0,
     elr_el1 := 0,
     spsr_el1 := 0,
     sctlr_el1 := 0,
     actlr_el1 := 0,
     cpacr_el1 := 0,
     ttbr0_el1 := 0,
     ttbr1_el1 := 0,
     tcr_el1 := 0,
     esr_el1 := 0,
     far_el1 := 0,
     par_el1 := 0,
     mair_el1 := 0,
     amair_el1 := 0,
     vbar_el1 := 0,
     contextidr_el1 := 0,
     tpidr_el0 := 0,
     tpidr_el1 := 0,
     tpidrro_el0 := 0,
     hcr_el2 := 0,
     cptr_el2 := 0,
     hstr_el2 := 0,
     far_el2 := 0,
     hpfar_el2 := 0,
     fpsimd := VmCtxFpsimd_reset (fpsimd c)\<rparr>"

definition ext_regs_store :: "(SysReg \<Rightarrow> u64) \<Rightarrow> VmContext \<Rightarrow> VmContext" where
  "ext_regs_store regs c = c\<lparr>
     cntvoff_el2 := regs CNTVOFF_EL2,
     cntv_cval_el0 := regs CNTV_CVAL_EL0,
     cntkctl_el1 := ucast (regs CNTKCTL_EL1),
     cntp_ctl_el0 := ucast (regs CNTP_CTL_EL0),
     cntv_ctl_el0 := ucast (regs CNTV_CTL_EL0),
     cntp_tval_el0 := ucast (regs CNTP_TVAL_EL0),
     cntv_tval_el0 := ucast (regs CNTV_TVAL_EL0),
     cntvct_el0 := regs CNTVCT_EL0,
     vmpidr_el2 := regs VMPIDR_EL2,
     sp_el0 := regs SP_EL0,
     sp_el1 := regs SP_EL1,
     elr_el1 := regs ELR_EL1,
     spsr_el1 := ucast (regs SPSR_EL1),
     sctlr_el1 := ucast (regs SCTLR_EL1),
     cpacr_el1 := ucast (regs CPACR_EL1),
     ttbr0_el1 := regs TTBR0_EL1,
     ttbr1_el1 := regs TTBR1_EL1,
     tcr_el1 := regs TCR_EL1,
     esr_el1 := ucast (regs ESR_EL1),
     far_el1 := regs FAR_EL1,
     par_el1 := regs PAR_EL1,
     mair_el1 := regs MAIR_EL1,
     amair_el1 := regs AMAIR_EL1,
     vbar_el1 := regs VBAR_EL1,
     contextidr_el1 := ucast (regs CONTEXTIDR_EL1),
     tpidr_el0 := regs TPIDR_EL0,
     tpidr_el1 := regs TPIDR_EL1,
     tpidrro_el0 := regs TPIDRRO_EL0,
     pmcr_el0 := regs PMCR_EL0,
     vtcr_el2 := regs VTCR_EL2,
     hcr_el2 := regs HCR_EL2,
     actlr_el1 := regs ACTLR_EL1\<rparr>"

definition msr32 :: "u32 \<Rightarrow> u32 \<Rightarrow> u64" where
  "msr32 upper v = push_bit 32 (ucast upper) OR ucast v"

definition ext_regs_restore :: "(SysReg \<Rightarrow> u32) \<Rightarrow> VmContext \<Rightarrow> (SysReg \<Rightarrow> u64) \<Rightarrow> (SysReg \<Rightarrow> u64)" where
  "ext_regs_restore up c regs = regs(
     CNTVOFF_EL2 := cntvoff_el2 c,
     CNTV_CVAL_EL0 := cntv_cval_el0 c,
     CNTKCTL_EL1 := msr32 (up CNTKCTL_EL1) (cntkctl_el1 c),
     CNTV_CTL_EL0 := msr32 (up CNTV_CTL_EL0) (cntv_ctl_el0 c),
     VMPIDR_EL2 := vmpidr_el2 c,
     SP_EL0 := sp_el0 c,
     SP_EL1 := sp_el1 c,
     ELR_EL1 := elr_el1 c,
     SPSR_EL1 := msr32 (up SPSR_EL1) (spsr_el1 c),
     SCTLR_EL1 := msr32 (up SCTLR_EL1) (sctlr_el1 c),
     CPACR_EL1 := msr32 (up CPACR_EL1) (cpacr_el1 c),
     TTBR0_EL1 := ttbr0_el1 c,
     TTBR1_EL1 := ttbr1_el1 c,
     TCR_EL1 := tcr_el1 c,
     ESR_EL1 := msr32 (up ESR_EL1) (esr_el1 c),
     FAR_EL1 := far_el1 c,
     PAR_EL1 := par_el1 c,
     MAIR_EL1 := mair_el1 c,
     AMAIR_EL1 := amair_el1 c,
     VBAR_EL1 := vbar_el1 c,
     CONTEXTIDR_EL1 := msr32 (up CONTEXTIDR_EL1) (contextidr_el1 c),
     TPIDR_EL0 := tpidr_el0 c,
     TPIDR_EL1 := tpidr_el1 c,
     TPIDRRO_EL0 := tpidrro_el0 c,
     PMCR_EL0 := pmcr_el0 c,
     VTCR_EL2 := vtcr_el2 c,
     HCR_EL2 := hcr_el2 c,
     ACTLR_EL1 := actlr_el1 c)"

section \<open>The hardware of a core\<close>

record CpuHw =
  hw_regs :: "SysReg \<Rightarrow> u64"
  hw_upper :: "SysReg \<Rightarrow> u32"
  hw_fpsimd :: VmCtxFpsimd
  hw_gicd :: GicDistributorBlock
  hw_gicc :: GicCpuInterfaceBlock
  hw_gich :: GicHypervisorInterfaceBlock
  hw_gicv_ctlr :: u32
  hw_gicv_pmr :: u32

definition fpsimd_save_context :: "CpuHw \<Rightarrow> VmContext \<Rightarrow> VmContext" where
  "fpsimd_save_context hw c = c\<lparr>fpsimd := hw_fpsimd hw\<rparr>"

definition fpsimd_restore_context :: "VmContext \<Rightarrow> CpuHw \<Rightarrow> CpuHw" where
  "fpsimd_restore_context c hw = hw\<lparr>hw_fpsimd := fpsimd c\<rparr>"

definition gic_save_state :: "CpuHw \<Rightarrow> VmContext \<Rightarrow> VmContext option" where
  "gic_save_state hw c = do { s \<leftarrow> save_state (hw_gicc hw) (hw_gich hw) (gic_state c); Some (c\<lparr>gic_state := s\<rparr>) }"

definition gic_restore_state :: "VmContext \<Rightarrow> CpuHw \<Rightarrow> CpuHw option" where
  "gic_restore_state c hw = do {
     (cc, h) \<leftarrow> restore_state (gic_state c) (hw_gicc hw) (hw_gich hw);
     Some (hw\<lparr>hw_gicc := cc, hw_gich := h\<rparr>) }"

section \<open>Distributor state of a migrated virtual CPU\<close>

record GicIrqState =
  is_id :: u64
  is_enable :: u8
  is_pend :: u8
  is_active :: u8
  is_priority :: u8
  is_target :: u8

record GicContext =
  gx_irq_num :: usize
  gx_irq_state :: "GicIrqState list"
  gx_gicv_ctlr :: u32
  gx_gicv_pmr :: u32

definition GicIrqState_default :: GicIrqState where
  "GicIrqState_default = \<lparr>is_id = 0, is_enable = 0, is_pend = 0, is_active = 0, is_priority = 0, is_target = 0\<rparr>"

definition GicContext_default :: GicContext where
  "GicContext_default = \<lparr>gx_irq_num = 0, gx_irq_state = replicate 10 GicIrqState_default, gx_gicv_ctlr = 0, gx_gicv_pmr = 0\<rparr>"

text \<open>The shift amount is \<open>id & 32\<close>, as in the source; a shift by 32 of a 32-bit value panics.\<close>

definition add_irq :: "GicDistributorBlock \<Rightarrow> u64 \<Rightarrow> GicContext \<Rightarrow> GicContext option" where
  "add_irq d ident g = do {
     let idx = gx_irq_num g;
     s \<leftarrow> vec_get (gx_irq_state g) idx;
     let s = s\<lparr>is_id := ident\<rparr>;
     e \<leftarrow> is_enabler d (unat ident div 32);
     assert_that (unat (ident AND 32) < 32);
     let s = s\<lparr>is_enable := ucast (drop_bit (unat (ident AND 32)) e AND 1)\<rparr>;
     p \<leftarrow> gicd_prio d (unat ident);
     let s = s\<lparr>is_priority := of_nat p\<rparr>;
     t \<leftarrow> gicd_trgt d (unat ident);
     let s = s\<lparr>is_target := of_nat t\<rparr>;
     xs \<leftarrow> vec_set (gx_irq_state g) idx s;
     Some (g\<lparr>gx_irq_state := xs, gx_irq_num := gx_irq_num g + 1\<rparr>) }"

definition set_gicv_ctlr :: "u32 \<Rightarrow> GicContext \<Rightarrow> GicContext" where
  "set_gicv_ctlr v g = g\<lparr>gx_gicv_ctlr := v\<rparr>"

definition set_gicv_pmr :: "u32 \<Rightarrow> GicContext \<Rightarrow> GicContext" where
  "set_gicv_pmr v g = g\<lparr>gx_gicv_pmr := v\<rparr>"

section \<open>Round trip of the system registers\<close>

text \<open>The registers that belong to the guest, saved and restored in full and by their low half.\<close>

definition guest_regs64 :: "SysReg set" where
  "guest_regs64 = {CNTVOFF_EL2, CNTV_CVAL_EL0, VMPIDR_EL2, SP_EL0, SP_EL1, ELR_EL1, TTBR0_EL1, TTBR1_EL1, 
     TCR_EL1, FAR_EL1, PAR_EL1, MAIR_EL1, AMAIR_EL1, VBAR_EL1, TPIDR_EL0, TPIDR_EL1, 
     TPIDRRO_EL0, PMCR_EL0, VTCR_EL2, HCR_EL2, ACTLR_EL1}"

definition guest_regs32 :: "SysReg set" where
  "guest_regs32 = {CNTKCTL_EL1, CNTV_CTL_EL0, SPSR_EL1, SCTLR_EL1, CPACR_EL1, ESR_EL1, CONTEXTIDR_EL1}"

lemma ucast_msr32 [simp]: "ucast (msr32 upper v) = v"
proof (rule bit_word_eqI)
  fix n assume "n < LENGTH(32)"
  then show "bit (ucast (msr32 upper v) :: u32) n \<longleftrightarrow> bit v n"
    by (simp add: msr32_def bit_simps)
qed

lemma ext_regs_restore_lookup:
  "ext_regs_restore up c regs CNTVOFF_EL2 = cntvoff_el2 c"
  "ext_regs_restore up c regs CNTV_CVAL_EL0 = cntv_cval_el0 c"
  "ext_regs_restore up c regs CNTKCTL_EL1 = msr32 (up CNTKCTL_EL1) (cntkctl_el1 c)"
  "ext_regs_restore up c regs CNTV_CTL_EL0 = msr32 (up CNTV_CTL_EL0) (cntv_ctl_el0 c)"
  "ext_regs_restore up c regs VMPIDR_EL2 = vmpidr_el2 c"
  "ext_regs_restore up c regs SP_EL0 = sp_el0 c"
  "ext_regs_restore up c regs SP_EL1 = sp_el1 c"
  "ext_regs_restore up c regs ELR_EL1 = elr_el1 c"
  "ext_regs_restore up c regs SPSR_EL1 = msr32 (up SPSR_EL1) (spsr_el1 c)"
  "ext_regs_restore up c regs SCTLR_EL1 = msr32 (up SCTLR_EL1) (sctlr_el1 c)"
  "ext_regs_restore up c regs CPACR_EL1 = msr32 (up CPACR_EL1) (cpacr_el1 c)"
  "ext_regs_restore up c regs TTBR0_EL1 = ttbr0_el1 c"
  "ext_regs_restore up c regs TTBR1_EL1 = ttbr1_el1 c"
  "ext_regs_restore up c regs TCR_EL1 = tcr_el1 c"
  "ext_regs_restore up c regs ESR_EL1 = msr32 (up ESR_EL1) (esr_el1 c)"
  "ext_regs_restore up c regs FAR_EL1 = far_el1 c"
  "ext_regs_restore up c regs PAR_EL1 = par_el1 c"
  "ext_regs_restore up c regs MAIR_EL1 = mair_el1 c"
  "ext_regs_restore up c regs AMAIR_EL1 = amair_el1 c"
  "ext_regs_restore up c regs VBAR_EL1 = vbar_el1 c"
  "ext_regs_restore up c regs CONTEXTIDR_EL1 = msr32 (up CONTEXTIDR_EL1) (contextidr_el1 c)"
  "ext_regs_restore up c regs TPIDR_EL0 = tpidr_el0 c"
  "ext_regs_restore up c regs TPIDR_EL1 = tpidr_el1 c"
  "ext_regs_restore up c regs TPIDRRO_EL0 = tpidrro_el0 c"
  "ext_regs_restore up c regs PMCR_EL0 = pmcr_el0 c"
  "ext_regs_restore up c regs VTCR_EL2 = vtcr_el2 c"
  "ext_regs_restore up c regs HCR_EL2 = hcr_el2 c"
  "ext_regs_restore up c regs ACTLR_EL1 = actlr_el1 c"
  by (simp_all add: ext_regs_restore_def)

lemma ext_regs_store_lookup:
  "cntvoff_el2 (ext_regs_store regs c) = regs CNTVOFF_EL2"
  "cntv_cval_el0 (ext_regs_store regs c) = regs CNTV_CVAL_EL0"
  "cntkctl_el1 (ext_regs_store regs c) = ucast (regs CNTKCTL_EL1)"
  "cntp_ctl_el0 (ext_regs_store regs c) = ucast (regs CNTP_CTL_EL0)"
  "cntv_ctl_el0 (ext_regs_store regs c) = ucast (regs CNTV_CTL_EL0)"
  "cntp_tval_el0 (ext_regs_store regs c) = ucast (regs CNTP_TVAL_EL0)"
  "cntv_tval_el0 (ext_regs_store regs c) = ucast (regs CNTV_TVAL_EL0)"
  "cntvct_el0 (ext_regs_store regs c) = regs CNTVCT_EL0"
  "vmpidr_el2 (ext_regs_store regs c) = regs VMPIDR_EL2"
  "sp_el0 (ext_regs_store regs c) = regs SP_EL0"
  "sp_el1 (ext_regs_store regs c) = regs SP_EL1"
  "elr_el1 (ext_regs_store regs c) = regs ELR_EL1"
  "spsr_el1 (ext_regs_store regs c) = ucast (regs SPSR_EL1)"
  "sctlr_el1 (ext_regs_store regs c) = ucast (regs SCTLR_EL1)"
  "cpacr_el1 (ext_regs_store regs c) = ucast (regs CPACR_EL1)"
  "ttbr0_el1 (ext_regs_store regs c) = regs TTBR0_EL1"
  "ttbr1_el1 (ext_regs_store regs c) = regs TTBR1_EL1"
  "tcr_el1 (ext_regs_store regs c) = regs TCR_EL1"
  "esr_el1 (ext_regs_store regs c) = ucast (regs ESR_EL1)"
  "far_el1 (ext_regs_store regs c) = regs FAR_EL1"
  "par_el1 (ext_regs_store regs c) = regs PAR_EL1"
  "mair_el1 (ext_regs_store regs c) = regs MAIR_EL1"
  "amair_el1 (ext_regs_store regs c) = regs AMAIR_EL1"
  "vbar_el1 (ext_regs_store regs c) = regs VBAR_EL1"
  "contextidr_el1 (ext_regs_store regs c) = ucast (regs CONTEXTIDR_EL1)"
  "tpidr_el0 (ext_regs_store regs c) = regs TPIDR_EL0"
  "tpidr_el1 (ext_regs_store regs c) = regs TPIDR_EL1"
  "tpidrro_el0 (ext_regs_store regs c) = regs TPIDRRO_EL0"
  "pmcr_el0 (ext_regs_store regs c) = regs PMCR_EL0"
  "vtcr_el2 (ext_regs_store regs c) = regs VTCR_EL2"
  "hcr_el2 (ext_regs_store regs c) = regs HCR_EL2"
  "actlr_el1 (ext_regs_store regs c) = regs ACTLR_EL1"
  by (simp_all add: ext_regs_store_def)

lemma ext_regs_restore_other:
  "r \<notin> guest_regs64 \<union> guest_regs32 \<Longrightarrow> ext_regs_restore up c regs r = regs r"
  by (cases r; simp add: guest_regs64_def guest_regs32_def ext_regs_restore_def)

lemma ext_regs_store_restore:
  shows "r \<in> guest_regs64 \<Longrightarrow> ext_regs_restore up (ext_regs_store regs c) regs' r = regs r"
    and "r \<in> guest_regs32 \<Longrightarrow> (ucast (ext_regs_restore up (ext_regs_store regs c) regs' r) :: u32) = ucast (regs r)"
    and "r \<notin> guest_regs64 \<union> guest_regs32 \<Longrightarrow> ext_regs_restore up (ext_regs_store regs c) regs' r = regs' r"
proof -
  show "ext_regs_restore up (ext_regs_store regs c) regs' r = regs r" if "r \<in> guest_regs64"
    using that by (auto simp: guest_regs64_def ext_regs_restore_lookup ext_regs_store_lookup)
  show "(ucast (ext_regs_restore up (ext_regs_store regs c) regs' r) :: u32) = ucast (regs r)" if "r \<in> guest_regs32"
    using that by (auto simp: guest_regs32_def ext_regs_restore_lookup ext_regs_store_lookup)
  show "ext_regs_restore up (ext_regs_store regs c) regs' r = regs' r" if "r \<notin> guest_regs64 \<union> guest_regs32"
    using that by (rule ext_regs_restore_other)
qed

lemma ext_regs_store_keeps [simp]:
  "fpsimd (ext_regs_store regs c) = fpsimd c" "gic_state (ext_regs_store regs c) = gic_state c"
  by (simp_all add: ext_regs_store_def)

section \<open>Round trip of the virtual interface\<close>

lemma gich_lrs_num_le: "gich_lrs_num h \<le> 32"
proof -
  have "gh_vtr h AND 0b11111 = take_bit 5 (gh_vtr h)"
    by (simp add: take_bit_eq_mask mask_eq_exp_minus_1)
  moreover have l: "unat (take_bit 5 (gh_vtr h)) < 32"
    using take_bit_nat_less_exp[of 5 "unat (gh_vtr h)"] by (simp add: unsigned_take_bit_eq)
  moreover have "unat (1 + take_bit 5 (gh_vtr h)) = Suc (unat (take_bit 5 (gh_vtr h)))"
  proof (rule unatSuc)
    show "1 + take_bit 5 (gh_vtr h) \<noteq> 0"
    proof
      assume "1 + take_bit 5 (gh_vtr h) = 0"
      then have "take_bit 5 (gh_vtr h) = - 1" by (simp add: eq_neg_iff_add_eq_0 add.commute)
      then have "unat (take_bit 5 (gh_vtr h)) = unat (- 1 :: u32)" by simp
      also have "\<dots> = 2 ^ 32 - 1" by (simp add: unsigned_minus_1_eq_mask mask_eq_exp_minus_1)
      finally show False using l by simp
    qed
  qed
  ultimately show ?thesis by (simp add: gich_lrs_num_def add.commute)
qed

definition gs_wf :: "GicState \<Rightarrow> bool" where
  "gs_wf s \<longleftrightarrow> length (gs_eisr s) = 2 \<and> length (gs_elrsr s) = 2 \<and> length (gs_lr s) = 64"

text \<open>What a saved list register holds: zero when the hardware reported it empty.\<close>

definition saved_lr :: "GicHypervisorInterfaceBlock \<Rightarrow> usize \<Rightarrow> u32" where
  "saved_lr h i = (if bit (gich_elrsr h 0) i then 0 else gh_lr h ! i)"

lemma save_state_eq:
  assumes "gs_wf s" and "gich_wf h"
  shows "\<exists>s'. save_state c h s = Some s' \<and> gs_wf s' \<and> gs_hcr s' = gh_hcr h \<and> gs_apr s' = gh_apr h \<and>
    gs_ctlr s' = gc_ctlr c \<and> (\<forall>i < gich_lrs_num h. gs_lr s' ! i = saved_lr h i)"
proof -
  let ?I1 = "\<lambda>(i :: nat) s1. gs_wf s1 \<and> gs_hcr s1 = gh_hcr h \<and> gs_apr s1 = gh_apr h \<and> (0 < i \<longrightarrow> gs_elrsr s1 ! 0 = gich_elrsr h 0)"
  let ?f1 = "\<lambda>i s. do { e \<leftarrow> vec_set (gs_eisr s) i (gich_eisr h i); l \<leftarrow> vec_set (gs_elrsr s) i (gich_elrsr h i);
       Some (s\<lparr>gs_eisr := e, gs_elrsr := l\<rparr>) }"
  have "\<exists>t. for_range 0 2 ?f1 (s\<lparr>gs_hcr := gh_hcr h, gs_apr := gh_apr h\<rparr>) = Some t \<and> ?I1 2 t"
  proof (rule for_range_total[where I = ?I1])
    show "\<exists>t. ?f1 i u = Some t \<and> ?I1 (Suc i) t" if "i < 2" "?I1 i u" for i u
      using that by (cases i) (simp_all add: gs_wf_def)
  qed (use assms in \<open>simp_all add: gs_wf_def\<close>)
  then obtain s1 where s1: "for_range 0 2 ?f1 (s\<lparr>gs_hcr := gh_hcr h, gs_apr := gh_apr h\<rparr>) = Some s1 \<and> ?I1 2 s1" ..
  note s1a = conjunct1[OF s1] and s1b = conjunct2[OF s1]
  let ?I2 = "\<lambda>(i :: nat) s2. ?I1 2 s2 \<and> (\<forall>k < i. gs_lr s2 ! k = saved_lr h k)"
  let ?f2 = "\<lambda>i s. do { e \<leftarrow> vec_get (gs_elrsr s) 0; v \<leftarrow> (if e AND push_bit i 1 = 0 then gich_lr h i else Some 0);
       l \<leftarrow> vec_set (gs_lr s) i v; Some (s\<lparr>gs_lr := l\<rparr>) }"
  have "\<exists>t. for_range 0 (gich_lrs_num h) ?f2 s1 = Some t \<and> ?I2 (gich_lrs_num h) t"
  proof (rule for_range_total[where I = ?I2])
    fix i s2
    assume i: "i < gich_lrs_num h" and inv2: "?I2 i s2"
    have z: "r AND 2 ^ i = 0 \<longleftrightarrow> \<not> bit r i" for r :: u32 by (rule and_exp_eq_0_iff_not_bit)
    have "i < 64" using i gich_lrs_num_le[of h] by simp
    then show "\<exists>s'. ?f2 i s2 = Some s' \<and> ?I2 (Suc i) s'"
      using inv2 assms(2)
      by (auto simp: gs_wf_def gich_wf_def gich_lr_def z nth_list_update saved_lr_def less_Suc_eq)
  qed (use s1b in auto)
  with s1a show ?thesis
    by (auto simp: save_state_def Let_def GIC_LIST_REGS_NUM_def gs_wf_def)
qed

lemma restore_state_eq:
  assumes "gs_wf s" and "gich_wf h"
  shows "\<exists>h'. restore_state s c h = Some (c\<lparr>gc_ctlr := gs_ctlr s\<rparr>, h') \<and> gich_wf h' \<and>
    h' = h\<lparr>gh_hcr := gs_hcr s, gh_apr := gs_apr s, gh_lr := gh_lr h'\<rparr> \<and>
    (\<forall>i < gich_lrs_num h. gh_lr h' ! i = gs_lr s ! i) \<and> (\<forall>i \<ge> gich_lrs_num h. gh_lr h' ! i = gh_lr h ! i)"
proof -
  define h0 where "h0 = h\<lparr>gh_hcr := gs_hcr s, gh_apr := gs_apr s\<rparr>"
  have n: "gich_lrs_num h0 = gich_lrs_num h" by (simp add: h0_def gich_lrs_num_def)
  let ?I = "\<lambda>i h1. length (gh_lr h1) = 64 \<and> h1 = h0\<lparr>gh_lr := gh_lr h1\<rparr> \<and> (\<forall>k < i. gh_lr h1 ! k = gs_lr s ! k) \<and>
     (\<forall>k \<ge> i. gh_lr h1 ! k = gh_lr h ! k)"
  have "\<exists>t. for_range 0 (gich_lrs_num h) (\<lambda>i h. do { v \<leftarrow> vec_get (gs_lr s) i; gich_set_lr i v h }) h0 = Some t \<and>
      ?I (gich_lrs_num h) t"
  proof (rule for_range_total[where I = ?I])
    fix i h1
    assume i: "i < gich_lrs_num h" and inv2: "?I i h1"
    have "i < 64" using i gich_lrs_num_le[of h] by simp
    with inv2 assms(1) show "\<exists>s'. (do { v \<leftarrow> vec_get (gs_lr s) i; gich_set_lr i v h1 }) = Some s' \<and> ?I (Suc i) s'"
      by (auto simp: gs_wf_def gich_set_lr_def nth_list_update less_Suc_eq)
        (metis GicHypervisorInterfaceBlock.select_convs GicHypervisorInterfaceBlock.surjective GicHypervisorInterfaceBlock.update_convs(4))
  qed (use assms(2) in \<open>auto simp: h0_def gich_wf_def\<close>)
  then obtain h' where h': "for_range 0 (gich_lrs_num h) (\<lambda>i h. do { v \<leftarrow> vec_get (gs_lr s) i; gich_set_lr i v h }) h0 = Some h'"
    "?I (gich_lrs_num h) h'" by blast
  then have "restore_state s c h = Some (c\<lparr>gc_ctlr := gs_ctlr s\<rparr>, h')"
    by (simp add: restore_state_def Let_def h0_def[symmetric] n)
  moreover have "h' = h\<lparr>gh_hcr := gs_hcr s, gh_apr := gs_apr s, gh_lr := gh_lr h'\<rparr>" using h'(2) h0_def by simp
  ultimately show ?thesis using h'(2) by (auto simp: gich_wf_def)
qed

lemma gic_save_state_eq:
  assumes "gs_wf (gic_state c)" and "gich_wf (hw_gich hw)"
  shows "\<exists>s'. gic_save_state hw c = Some (c\<lparr>gic_state := s'\<rparr>) \<and> gs_wf s' \<and> gs_hcr s' = gh_hcr (hw_gich hw) \<and>
    gs_apr s' = gh_apr (hw_gich hw) \<and> gs_ctlr s' = gc_ctlr (hw_gicc hw) \<and>
    (\<forall>i < gich_lrs_num (hw_gich hw). gs_lr s' ! i = saved_lr (hw_gich hw) i)"
  using save_state_eq[OF assms, of "hw_gicc hw"] by (auto simp: gic_save_state_def)

lemma gic_restore_state_eq:
  assumes "gs_wf (gic_state c)" and "gich_wf (hw_gich hw)"
  shows "\<exists>h'. gic_restore_state c hw = Some (hw\<lparr>hw_gicc := hw_gicc hw\<lparr>gc_ctlr := gs_ctlr (gic_state c)\<rparr>, hw_gich := h'\<rparr>) \<and> gich_wf h' \<and>
    h' = hw_gich hw\<lparr>gh_hcr := gs_hcr (gic_state c), gh_apr := gs_apr (gic_state c), gh_lr := gh_lr h'\<rparr> \<and>
    (\<forall>i < gich_lrs_num (hw_gich hw). gh_lr h' ! i = gs_lr (gic_state c) ! i) \<and>
    (\<forall>i \<ge> gich_lrs_num (hw_gich hw). gh_lr h' ! i = gh_lr (hw_gich hw) ! i)"
proof -
  obtain h' where "restore_state (gic_state c) (hw_gicc hw) (hw_gich hw) = Some (hw_gicc hw\<lparr>gc_ctlr := gs_ctlr (gic_state c)\<rparr>, h')"
    "gich_wf h'" "h' = hw_gich hw\<lparr>gh_hcr := gs_hcr (gic_state c), gh_apr := gs_apr (gic_state c), gh_lr := gh_lr h'\<rparr>"
    "\<forall>i < gich_lrs_num (hw_gich hw). gh_lr h' ! i = gs_lr (gic_state c) ! i"
    "\<forall>i \<ge> gich_lrs_num (hw_gich hw). gh_lr h' ! i = gh_lr (hw_gich hw) ! i"
    using restore_state_eq[OF assms, of "hw_gicc hw"] by blast
  then show ?thesis by (intro exI[of _ h']) (simp add: gic_restore_state_def)
qed

end
