(* ===== verification/GuestMem.thy ===== *)
theory GuestMem
  imports Util
begin

text \<open>
  Translation between guest (intermediate) physical and host physical addresses: \<open>VmPa\<close>,
  \<open>ipa2pa\<close> and \<open>pa2ipa\<close> of \<open>src/src/kernel/vm.rs\<close>.  The signed arithmetic on \<open>isize\<close> is written
  out: a cast from \<open>usize\<close> wraps, a sum or difference outside the range panics.
\<close>

section \<open>Signed machine arithmetic\<close>

definition as_isize :: "usize \<Rightarrow> int" where
  "as_isize n = (if n < 2 ^ 63 then int n else int n - 2 ^ 64)"

definition as_usize :: "int \<Rightarrow> usize" where
  "as_usize i = nat (i mod 2 ^ 64)"

definition isub :: "int \<Rightarrow> int \<Rightarrow> int option" where
  "isub a b = (if - (2 ^ 63) \<le> a - b \<and> a - b < 2 ^ 63 then Some (a - b) else None)"

definition iadd :: "int \<Rightarrow> int \<Rightarrow> int option" where
  "iadd a b = (if - (2 ^ 63) \<le> a + b \<and> a + b < 2 ^ 63 then Some (a + b) else None)"

lemma as_usize_int [simp]: "n < usize_bound \<Longrightarrow> as_usize (int n) = n"
  by (simp add: as_usize_def nat_mod_as_int[symmetric] zmod_int[symmetric])

section \<open>Regions\<close>

record VmPa =
  pa_start :: usize
  pa_length :: usize
  pa_offset :: int

definition VmPa_default :: VmPa where
  "VmPa_default = \<lparr>pa_start = 0, pa_length = 0, pa_offset = 0\<rparr>"

fun ipa2pa_loop :: "VmPa list \<Rightarrow> usize \<Rightarrow> usize option" where
  "ipa2pa_loop [] ipa = Some 0"
| "ipa2pa_loop (region # rs) ipa = do {
     x \<leftarrow> isub (as_isize ipa) (pa_offset region);
     hit \<leftarrow> in_range (as_usize x) (pa_start region) (pa_length region);
     if hit then Some (as_usize x) else ipa2pa_loop rs ipa }"

definition ipa2pa :: "VmPa list \<Rightarrow> usize \<Rightarrow> usize option" where
  "ipa2pa pa_region ipa = (if ipa = 0 then Some 0 else ipa2pa_loop pa_region ipa)"

fun pa2ipa_loop :: "VmPa list \<Rightarrow> usize \<Rightarrow> usize option" where
  "pa2ipa_loop [] pa = Some 0"
| "pa2ipa_loop (region # rs) pa = do {
     hit \<leftarrow> in_range pa (pa_start region) (pa_length region);
     if hit then do { x \<leftarrow> iadd (as_isize pa) (pa_offset region); Some (as_usize x) }
     else pa2ipa_loop rs pa }"

definition pa2ipa :: "VmPa list \<Rightarrow> usize \<Rightarrow> usize option" where
  "pa2ipa pa_region pa = (if pa = 0 then Some 0 else pa2ipa_loop pa_region pa)"

section \<open>Correctness\<close>

text \<open>
  \<open>in_range\<close> includes the end of the range, so what a region answers for is the closed interval.
  A configuration is usable when the closed intervals of its regions are apart, as physical and as
  guest addresses, and lie below \<open>2 ^ 62\<close>.
\<close>

definition pa_span :: "VmPa \<Rightarrow> usize set" where
  "pa_span r = {pa_start r..pa_start r + pa_length r}"

definition ipa_of :: "VmPa \<Rightarrow> usize \<Rightarrow> int" where
  "ipa_of r pa = int pa + pa_offset r"

definition region_sane :: "VmPa \<Rightarrow> bool" where
  "region_sane r \<longleftrightarrow> 0 < pa_start r \<and> pa_start r + pa_length r < 2 ^ 62 \<and>
     0 < ipa_of r (pa_start r) \<and> ipa_of r (pa_start r + pa_length r) < 2 ^ 62"

definition regions_apart :: "VmPa list \<Rightarrow> bool" where
  "regions_apart rs \<longleftrightarrow> (\<forall>r \<in> set rs. region_sane r) \<and>
     (\<forall>i < length rs. \<forall>j < length rs. i \<noteq> j \<longrightarrow> pa_span (rs ! i) \<inter> pa_span (rs ! j) = {} \<and>
        ipa_of (rs ! i) ` pa_span (rs ! i) \<inter> ipa_of (rs ! j) ` pa_span (rs ! j) = {})"

lemma in_range_eq:
  assumes "addr < usize_bound" and "base + sz < usize_bound"
  shows "in_range addr base sz = Some (addr \<in> {base..base + sz})"
  using assms by (auto simp: in_range_def range_in_range_def)

lemma sane_isub:
  assumes "region_sane r" and "ipa < 2 ^ 62"
  shows "isub (as_isize ipa) (pa_offset r) = Some (int ipa - pa_offset r)"
    and "as_usize (int ipa - pa_offset r) \<in> pa_span r \<longleftrightarrow> int ipa \<in> ipa_of r ` pa_span r"
    and "as_usize (int ipa - pa_offset r) < usize_bound"
    and "int ipa = ipa_of r pa \<Longrightarrow> pa \<in> pa_span r \<Longrightarrow> as_usize (int ipa - pa_offset r) = pa"
proof -
  have b: "- (2 ^ 62) < pa_offset r" "pa_offset r < 2 ^ 62"
    using assms(1) by (auto simp: region_sane_def ipa_of_def)
  show "isub (as_isize ipa) (pa_offset r) = Some (int ipa - pa_offset r)"
    using assms(2) b by (simp add: isub_def as_isize_def)
  show "as_usize (int ipa - pa_offset r) < usize_bound"
    unfolding as_usize_def by (simp add: nat_less_iff)
  show eq: "as_usize (int ipa - pa_offset r) = pa" if "int ipa = ipa_of r pa" "pa \<in> pa_span r" for pa
    using that assms(1) by (simp add: ipa_of_def pa_span_def region_sane_def)
  show "as_usize (int ipa - pa_offset r) \<in> pa_span r \<longleftrightarrow> int ipa \<in> ipa_of r ` pa_span r"
  proof
    assume "int ipa \<in> ipa_of r ` pa_span r"
    then show "as_usize (int ipa - pa_offset r) \<in> pa_span r" using eq by auto
  next
    assume h: "as_usize (int ipa - pa_offset r) \<in> pa_span r"
    have "int ipa - pa_offset r < 2 ^ 63" using assms(2) b(1) by simp
    moreover have "0 \<le> int ipa - pa_offset r"
    proof (rule ccontr)
      assume neg: "\<not> 0 \<le> int ipa - pa_offset r"
      have "(int ipa - pa_offset r) mod 2 ^ 64 = int ipa - pa_offset r + 2 ^ 64"
        by (rule int_mod_pos_eq[of _ _ "-1"]) (use neg b assms(2) in simp_all)
      then have "2 ^ 63 \<le> (int ipa - pa_offset r) mod 2 ^ 64" using b by simp
      then have "2 ^ 63 \<le> as_usize (int ipa - pa_offset r)" unfolding as_usize_def by simp
      then show False using h assms(1) by (simp add: pa_span_def region_sane_def)
    qed
    ultimately have "int (as_usize (int ipa - pa_offset r)) = int ipa - pa_offset r"
      unfolding as_usize_def by simp
    then show "int ipa \<in> ipa_of r ` pa_span r" using h by (auto simp: ipa_of_def intro!: image_eqI)
  qed
qed

lemma ipa2pa_hit:
  assumes "\<forall>r \<in> set rs. region_sane r" and ipa: "ipa < 2 ^ 62" and i: "i < length rs"
    and pa: "int ipa = ipa_of (rs ! i) pa" "pa \<in> pa_span (rs ! i)"
    and other: "\<forall>j < i. int ipa \<notin> ipa_of (rs ! j) ` pa_span (rs ! j)"
  shows "ipa2pa_loop rs ipa = Some pa"
  using assms(1) i pa other
proof (induction rs arbitrary: i)
  case (Cons r rs)
  have ok: "region_sane r" using Cons.prems by simp
  note s = sane_isub[OF ok ipa]
  have rng: "in_range (as_usize (int ipa - pa_offset r)) (pa_start r) (pa_length r) =
      Some (int ipa \<in> ipa_of r ` pa_span r)"
    using in_range_eq[OF s(3), of "pa_start r" "pa_length r"] ok s(2) by (simp add: region_sane_def pa_span_def)
  show ?case
  proof (cases i)
    case 0
    then have "int ipa \<in> ipa_of r ` pa_span r" using Cons.prems by auto
    then show ?thesis using s(1,4) rng Cons.prems 0 by simp
  next
    case (Suc n)
    then have "int ipa \<notin> ipa_of r ` pa_span r" using Cons.prems(5) by force
    moreover have "ipa2pa_loop rs ipa = Some pa"
      using Cons.prems Suc by (intro Cons.IH[of n]) (auto dest: spec[of _ "Suc _"])
    ultimately show ?thesis using s(1) rng by simp
  qed
qed simp

lemma pa2ipa_hit:
  assumes "\<forall>r \<in> set rs. region_sane r" and i: "i < length rs" and pa: "pa \<in> pa_span (rs ! i)"
    and other: "\<forall>j < i. pa \<notin> pa_span (rs ! j)"
  shows "pa2ipa_loop rs pa = Some (nat (ipa_of (rs ! i) pa))"
  using assms
proof (induction rs arbitrary: i)
  case (Cons r rs)
  have ok: "region_sane r" "region_sane ((r # rs) ! i)"
    using Cons.prems(1) bspec[OF Cons.prems(1) nth_mem[OF Cons.prems(2)]] by simp_all
  have lt: "pa < 2 ^ 62" using ok(2) Cons.prems(3) by (simp add: pa_span_def region_sane_def)
  have rng: "in_range pa (pa_start r) (pa_length r) = Some (pa \<in> pa_span r)"
    using in_range_eq[of pa "pa_start r" "pa_length r"] ok(1) lt by (simp add: region_sane_def pa_span_def)
  show ?case
  proof (cases i)
    case 0
    have b: "0 < ipa_of r pa" "ipa_of r pa < 2 ^ 62"
      using ok(1) Cons.prems(3) 0 by (auto simp: region_sane_def ipa_of_def pa_span_def)
    then have "as_usize (int pa + pa_offset r) = nat (ipa_of r pa)" by (simp add: as_usize_def ipa_of_def)
    then show ?thesis using rng 0 Cons.prems(3) lt b by (simp add: iadd_def as_isize_def ipa_of_def)
  next
    case (Suc n)
    then have "pa \<notin> pa_span r" using Cons.prems(4) by force
    moreover have "pa2ipa_loop rs pa = Some (nat (ipa_of (rs ! n) pa))"
      using Cons.prems Suc by (intro Cons.IH[of n]) (auto dest: spec[of _ "Suc _"])
    ultimately show ?thesis using rng Suc by simp
  qed
qed simp

text \<open>
  C8.  Address translation is a bijection between the guest and the physical side of the regions:
  for regions that are apart, \<open>ipa2pa\<close> and \<open>pa2ipa\<close> never panic on an address of a region, and each
  undoes the other.
\<close>
theorem ipa2pa_pa2ipa_inverse:
  assumes apart: "regions_apart rs" and r: "r \<in> set rs" and pa: "pa \<in> pa_span r"
  shows "pa2ipa rs pa = Some (nat (ipa_of r pa)) \<and> ipa2pa rs (nat (ipa_of r pa)) = Some pa"
proof -
  obtain i where i: "i < length rs" "rs ! i = r" using r by (auto simp: in_set_conv_nth)
  have sane: "\<forall>r \<in> set rs. region_sane r" using apart by (simp add: regions_apart_def)
  then have b: "0 < ipa_of r pa" "ipa_of r pa < 2 ^ 62" "0 < pa"
    using r pa by (force simp: region_sane_def ipa_of_def pa_span_def)+
  have dis: "pa \<notin> pa_span (rs ! j)" "ipa_of r pa \<notin> ipa_of (rs ! j) ` pa_span (rs ! j)" if "j < i" for j
  proof -
    have "j < length rs" "i \<noteq> j" using that i by simp_all
    then have "pa_span r \<inter> pa_span (rs ! j) = {}" "ipa_of r ` pa_span r \<inter> ipa_of (rs ! j) ` pa_span (rs ! j) = {}"
      using apart i unfolding regions_apart_def by blast+
    then show "pa \<notin> pa_span (rs ! j)" "ipa_of r pa \<notin> ipa_of (rs ! j) ` pa_span (rs ! j)" using pa by blast+
  qed
  have "pa2ipa_loop rs pa = Some (nat (ipa_of (rs ! i) pa))"
    using pa i dis by (intro pa2ipa_hit[OF sane]) auto
  moreover have "ipa2pa_loop rs (nat (ipa_of r pa)) = Some pa"
    using pa i dis b by (intro ipa2pa_hit[OF sane, of _ i]) auto
  ultimately show ?thesis using b i by (simp add: pa2ipa_def ipa2pa_def)
qed

definition guest_regions :: "VmPa list" where
  "guest_regions = [\<lparr>pa_start = 0x50000000, pa_length = 0x10000000, pa_offset = -0x10000000\<rparr>,
     \<lparr>pa_start = 0x70000000, pa_length = 0x10000000, pa_offset = 0x10000000\<rparr>]"

theorem ipa2pa_pa2ipa_inverse_witness:
  "pa2ipa guest_regions 0x50001000 = Some 0x40001000 \<and> ipa2pa guest_regions 0x40001000 = Some 0x50001000"
proof -
  have "regions_apart guest_regions"
    by (auto simp: regions_apart_def guest_regions_def region_sane_def ipa_of_def pa_span_def less_Suc_eq)
  from ipa2pa_pa2ipa_inverse[OF this, of "guest_regions ! 0" "0x50001000"] show ?thesis
    by (simp add: guest_regions_def pa_span_def ipa_of_def)
qed

text \<open>
  The end of a region.  \<open>in_range\<close> accepts the address one past the end, so when a second
  region starts exactly there, \<open>pa2ipa\<close> translates its first address with the offset of the first
  region.
\<close>
theorem pa2ipa_adjacent_regions:
  assumes "region_sane r" and "pa_start q = pa_start r + pa_length r"
  shows "pa2ipa [r, q] (pa_start q) = Some (nat (ipa_of r (pa_start q)))"
proof -
  have "pa2ipa_loop [r] (pa_start q) = Some (nat (ipa_of ([r] ! 0) (pa_start q)))"
    using assms by (intro pa2ipa_hit) (auto simp: pa_span_def)
  moreover have "in_range (pa_start q) (pa_start r) (pa_length r) = Some True"
    using in_range_eq[of "pa_start q" "pa_start r" "pa_length r"] assms by (simp add: region_sane_def)
  ultimately show ?thesis using assms by (simp add: pa2ipa_def region_sane_def)
qed

theorem pa2ipa_adjacent_regions_witness:
  "pa2ipa [\<lparr>pa_start = 0x50000000, pa_length = 0x1000, pa_offset = 0\<rparr>,
           \<lparr>pa_start = 0x50001000, pa_length = 0x1000, pa_offset = 0x1000000\<rparr>] 0x50001000 = Some 0x50001000"
  using pa2ipa_adjacent_regions[of "\<lparr>pa_start = 0x50000000, pa_length = 0x1000, pa_offset = 0\<rparr>"
    "\<lparr>pa_start = 0x50001000, pa_length = 0x1000, pa_offset = 0x1000000\<rparr>"]
  by (simp add: region_sane_def ipa_of_def)

end
