(* ===== verification/Config.thy ===== *)
theory Config
  imports Bitmap GuestMem
begin

text \<open>
  \<open>src/src/config/config.rs\<close>: the table of guest configurations and the hypercalls that fill it,
  with the block device slots of \<open>src/src/device/virtio/mediated.rs\<close> they request and free.

  A \<open>VmConfigEntry\<close> holds six \<open>Arc\<close>s that are always cloned together; they are one reference
  (\<open>ce_body\<close>) into the store \<open>cfg_bodies\<close>, so a change made through the clone that
  \<open>vm_cfg_entry\<close> returns is seen by every holder of the entry, as in the source.  A Rust string
  is its list of bytes.  The memory the hypercalls read is a function from physical addresses to
  bytes; \<open>regions\<close> and \<open>num\<close> are the region table of the calling guest and its length field.
\<close>

section \<open>Address translation of a guest by region number\<close>

definition vm_ipa2pa :: "usize \<Rightarrow> VmPa list \<Rightarrow> usize \<Rightarrow> usize option" where
  "vm_ipa2pa num regions ipa =
     (if ipa = 0 then Some 0
      else do {
        r \<leftarrow> find_loop (\<lambda>i. do {
          region \<leftarrow> vec_get regions i;
          x \<leftarrow> isub (as_isize ipa) (pa_offset region);
          hit \<leftarrow> in_range (as_usize x) (pa_start region) (pa_length region);
          Some (if hit then Some (as_usize x) else None) }) [0..<num];
        Some (case r of Some pa \<Rightarrow> pa | None \<Rightarrow> 0) })"

definition vm_pa2ipa :: "usize \<Rightarrow> VmPa list \<Rightarrow> usize \<Rightarrow> usize option" where
  "vm_pa2ipa num regions pa =
     (if pa = 0 then Some 0
      else do {
        r \<leftarrow> find_loop (\<lambda>i. do {
          region \<leftarrow> vec_get regions i;
          hit \<leftarrow> in_range pa (pa_start region) (pa_length region);
          if hit then do { x \<leftarrow> iadd (as_isize pa) (pa_offset region); Some (Some (as_usize x)) }
          else Some None }) [0..<num];
        Some (case r of Some ipa \<Rightarrow> ipa | None \<Rightarrow> 0) })"

section \<open>Configuration data\<close>

definition VM_NUM_MAX :: usize where "VM_NUM_MAX = 8"
definition NAME_MAX_LEN :: usize where "NAME_MAX_LEN = 32"
definition CFG_MAX_NUM :: usize where "CFG_MAX_NUM = 0x10"

type_synonym rust_string = "u8 list"

datatype VmType = VmTOs | VmTBma

definition VmType_from_usize :: "usize \<Rightarrow> VmType option" where
  "VmType_from_usize v = (if v = 0 then Some VmTOs else if v = 1 then Some VmTBma else None)"

datatype DtbDevType = DevSerial | DevGicd | DevGicc

definition DtbDevType_from_usize :: "usize \<Rightarrow> DtbDevType option" where
  "DtbDevType_from_usize v =
     (if v = 0 then Some DevSerial else if v = 1 then Some DevGicd else if v = 2 then Some DevGicc else None)"

datatype EmuDeviceType =
    EmuDeviceTConsole | EmuDeviceTGicd | EmuDeviceTGPPT | EmuDeviceTVirtioBlk | EmuDeviceTVirtioNet
  | EmuDeviceTVirtioConsole | EmuDeviceTShyper | EmuDeviceTVirtioBlkMediated | EmuDeviceTIOMMU

definition EmuDeviceType_from_usize :: "usize \<Rightarrow> EmuDeviceType option" where
  "EmuDeviceType_from_usize v = vec_get [EmuDeviceTConsole, EmuDeviceTGicd, EmuDeviceTGPPT, EmuDeviceTVirtioBlk,
     EmuDeviceTVirtioNet, EmuDeviceTVirtioConsole, EmuDeviceTShyper, EmuDeviceTVirtioBlkMediated, EmuDeviceTIOMMU] v"

definition removable :: "EmuDeviceType \<Rightarrow> bool" where
  "removable t = (case t of
       EmuDeviceTGicd \<Rightarrow> True | EmuDeviceTGPPT \<Rightarrow> True | EmuDeviceTVirtioBlk \<Rightarrow> True
     | EmuDeviceTVirtioNet \<Rightarrow> True | EmuDeviceTVirtioConsole \<Rightarrow> True | _ \<Rightarrow> False)"

record VmEmulatedDeviceConfig =
  ed_name :: "rust_string option"
  ed_base_ipa :: usize
  ed_length :: usize
  ed_irq_id :: usize
  ed_cfg_list :: "usize list"
  ed_emu_type :: EmuDeviceType
  ed_mediated :: bool

record PassthroughRegion =
  pr_ipa :: usize
  pr_pa :: usize
  pr_length :: usize
  pr_dev_property :: bool

record VmPassthroughDeviceConfig =
  pt_regions :: "PassthroughRegion list"
  pt_irqs :: "usize list"
  pt_streams_ids :: "usize list"

record VmRegionCfg =
  rg_ipa_start :: usize
  rg_length :: usize

record VmImageConfig =
  im_kernel_img_name :: "rust_string option"
  im_kernel_load_ipa :: usize
  im_kernel_load_pa :: usize
  im_kernel_entry_point :: usize
  im_device_tree_load_ipa :: usize
  im_ramdisk_load_ipa :: usize
  im_mediated_block_index :: "usize option"

definition VmImageConfig_default :: VmImageConfig where
  "VmImageConfig_default = \<lparr>im_kernel_img_name = None, im_kernel_load_ipa = 0, im_kernel_load_pa = 0,
     im_kernel_entry_point = 0, im_device_tree_load_ipa = 0, im_ramdisk_load_ipa = 0, im_mediated_block_index = None\<rparr>"

definition VmImageConfig_new :: "usize \<Rightarrow> usize \<Rightarrow> usize \<Rightarrow> VmImageConfig" where
  "VmImageConfig_new kernel_load_ipa device_tree_load_ipa ramdisk_load_ipa =
     \<lparr>im_kernel_img_name = None, im_kernel_load_ipa = kernel_load_ipa, im_kernel_load_pa = 0,
      im_kernel_entry_point = kernel_load_ipa, im_device_tree_load_ipa = device_tree_load_ipa,
      im_ramdisk_load_ipa = ramdisk_load_ipa, im_mediated_block_index = None\<rparr>"

record VmCpuConfig =
  cc_num :: usize
  cc_allocate_bitmap :: u32
  cc_master :: u32

definition VmCpuConfig_default :: VmCpuConfig where
  "VmCpuConfig_default = \<lparr>cc_num = 0, cc_allocate_bitmap = 0, cc_master = 0\<rparr>"

record VmDtbDevConfig =
  dd_name :: rust_string
  dd_dev_type :: DtbDevType
  dd_irqs :: "usize list"
  dd_ipa :: usize
  dd_length :: usize

record VmConfigBody =
  cb_image :: VmImageConfig
  cb_memory :: "VmRegionCfg list"
  cb_cpu :: VmCpuConfig
  cb_emu :: "VmEmulatedDeviceConfig list"
  cb_pt :: VmPassthroughDeviceConfig
  cb_dtb :: "VmDtbDevConfig list"

record VmConfigEntry =
  ce_id :: usize
  ce_name :: "rust_string option"
  ce_os_type :: VmType
  ce_cmdline :: rust_string
  ce_body :: nat

record VmConfigTable =
  ct_name :: "rust_string option"
  ct_vm_bitmap :: u16
  ct_vm_num :: usize
  ct_entries :: "VmConfigEntry list"

definition VmConfigTable_default :: VmConfigTable where
  "VmConfigTable_default = \<lparr>ct_name = None, ct_vm_bitmap = BitAlloc16_default, ct_vm_num = 0, ct_entries = []\<rparr>"

record MediatedBlk =
  mb_base_addr :: usize
  mb_avail :: bool

record Config =
  cfg_table :: VmConfigTable
  cfg_bodies :: "nat \<Rightarrow> VmConfigBody"
  cfg_next :: nat
  cfg_blks :: "MediatedBlk list"

section \<open>Entries\<close>

definition VmConfigBody_new :: "VmImageConfig \<Rightarrow> VmConfigBody" where
  "VmConfigBody_new img = \<lparr>cb_image = img, cb_memory = [], cb_cpu = VmCpuConfig_default, cb_emu = [],
     cb_pt = \<lparr>pt_regions = [], pt_irqs = [], pt_streams_ids = []\<rparr>, cb_dtb = []\<rparr>"

text \<open>A new entry allocates its \<open>Arc\<close>s.\<close>

definition VmConfigEntry_new :: "rust_string \<Rightarrow> rust_string \<Rightarrow> usize \<Rightarrow> usize \<Rightarrow> usize \<Rightarrow> usize \<Rightarrow> Config \<Rightarrow>
    (VmConfigEntry \<times> Config) option" where
  "VmConfigEntry_new name cmdline vm_type kernel_load_ipa device_tree_load_ipa ramdisk_load_ipa c = do {
     ty \<leftarrow> VmType_from_usize vm_type;
     Some (\<lparr>ce_id = 0, ce_name = Some name, ce_os_type = ty, ce_cmdline = cmdline, ce_body = cfg_next c\<rparr>,
       c\<lparr>cfg_bodies := (cfg_bodies c)(cfg_next c :=
            VmConfigBody_new (VmImageConfig_new kernel_load_ipa device_tree_load_ipa ramdisk_load_ipa)),
         cfg_next := cfg_next c + 1\<rparr>) }"

definition upd_body :: "VmConfigEntry \<Rightarrow> (VmConfigBody \<Rightarrow> VmConfigBody) \<Rightarrow> Config \<Rightarrow> Config" where
  "upd_body e f c = c\<lparr>cfg_bodies := (cfg_bodies c)(ce_body e := f (cfg_bodies c (ce_body e)))\<rparr>"

definition vm_name :: "VmConfigEntry \<Rightarrow> rust_string" where
  "vm_name e = (case ce_name e of Some n \<Rightarrow> n | None \<Rightarrow> [0x75, 0x6e, 0x6b, 0x6e, 0x6f, 0x77, 0x6e])"

definition mediated_block_index :: "Config \<Rightarrow> VmConfigEntry \<Rightarrow> usize option" where
  "mediated_block_index c e = im_mediated_block_index (cb_image (cfg_bodies c (ce_body e)))"

definition set_mediated_block_index :: "VmConfigEntry \<Rightarrow> usize \<Rightarrow> Config \<Rightarrow> Config" where
  "set_mediated_block_index e med_blk_id =
     upd_body e (\<lambda>b. b\<lparr>cb_image := cb_image b\<lparr>im_mediated_block_index := Some med_blk_id\<rparr>\<rparr>)"

definition kernel_load_ipa :: "Config \<Rightarrow> VmConfigEntry \<Rightarrow> usize" where
  "kernel_load_ipa c e = im_kernel_load_ipa (cb_image (cfg_bodies c (ce_body e)))"

definition set_kernel_load_pa :: "VmConfigEntry \<Rightarrow> usize \<Rightarrow> Config \<Rightarrow> Config" where
  "set_kernel_load_pa e pa = upd_body e (\<lambda>b. b\<lparr>cb_image := cb_image b\<lparr>im_kernel_load_pa := pa\<rparr>\<rparr>)"

definition kernel_load_pa :: "Config \<Rightarrow> VmConfigEntry \<Rightarrow> usize" where
  "kernel_load_pa c e = im_kernel_load_pa (cb_image (cfg_bodies c (ce_body e)))"

definition kernel_entry_point :: "Config \<Rightarrow> VmConfigEntry \<Rightarrow> usize" where
  "kernel_entry_point c e = im_kernel_entry_point (cb_image (cfg_bodies c (ce_body e)))"

definition device_tree_load_ipa :: "Config \<Rightarrow> VmConfigEntry \<Rightarrow> usize" where
  "device_tree_load_ipa c e = im_device_tree_load_ipa (cb_image (cfg_bodies c (ce_body e)))"

definition ramdisk_load_ipa :: "Config \<Rightarrow> VmConfigEntry \<Rightarrow> usize" where
  "ramdisk_load_ipa c e = im_ramdisk_load_ipa (cb_image (cfg_bodies c (ce_body e)))"

definition memory_region :: "Config \<Rightarrow> VmConfigEntry \<Rightarrow> VmRegionCfg list" where
  "memory_region c e = cb_memory (cfg_bodies c (ce_body e))"

definition add_memory_cfg :: "VmConfigEntry \<Rightarrow> usize \<Rightarrow> usize \<Rightarrow> Config \<Rightarrow> Config" where
  "add_memory_cfg e ipa_start len =
     upd_body e (\<lambda>b. b\<lparr>cb_memory := cb_memory b @ [\<lparr>rg_ipa_start = ipa_start, rg_length = len\<rparr>]\<rparr>)"

definition cfg_cpu_num :: "Config \<Rightarrow> VmConfigEntry \<Rightarrow> usize" where
  "cfg_cpu_num c e = cc_num (cb_cpu (cfg_bodies c (ce_body e)))"

definition cpu_allocated_bitmap :: "Config \<Rightarrow> VmConfigEntry \<Rightarrow> u32" where
  "cpu_allocated_bitmap c e = cc_allocate_bitmap (cb_cpu (cfg_bodies c (ce_body e)))"

text \<open>\<open>master\<close> is an \<open>i32\<close>; \<open>as usize\<close> extends its sign.\<close>

definition cpu_master :: "Config \<Rightarrow> VmConfigEntry \<Rightarrow> usize" where
  "cpu_master c e = unat (scast (cc_master (cb_cpu (cfg_bodies c (ce_body e)))) :: u64)"

definition set_cpu_cfg :: "VmConfigEntry \<Rightarrow> usize \<Rightarrow> u64 \<Rightarrow> usize \<Rightarrow> Config \<Rightarrow> Config" where
  "set_cpu_cfg e num allocate_bitmap master =
     upd_body e (\<lambda>b. b\<lparr>cb_cpu := \<lparr>cc_num = min num (count_ones allocate_bitmap),
       cc_allocate_bitmap = ucast allocate_bitmap, cc_master = of_nat master\<rparr>\<rparr>)"

definition emulated_device_list :: "Config \<Rightarrow> VmConfigEntry \<Rightarrow> VmEmulatedDeviceConfig list" where
  "emulated_device_list c e = cb_emu (cfg_bodies c (ce_body e))"

definition add_emulated_device_cfg :: "VmConfigEntry \<Rightarrow> VmEmulatedDeviceConfig \<Rightarrow> Config \<Rightarrow> Config" where
  "add_emulated_device_cfg e d = upd_body e (\<lambda>b. b\<lparr>cb_emu := cb_emu b @ [d]\<rparr>)"

definition passthrough_device_regions :: "Config \<Rightarrow> VmConfigEntry \<Rightarrow> PassthroughRegion list" where
  "passthrough_device_regions c e = pt_regions (cb_pt (cfg_bodies c (ce_body e)))"

definition passthrough_device_irqs :: "Config \<Rightarrow> VmConfigEntry \<Rightarrow> usize list" where
  "passthrough_device_irqs c e = pt_irqs (cb_pt (cfg_bodies c (ce_body e)))"

definition passthrough_device_stread_ids :: "Config \<Rightarrow> VmConfigEntry \<Rightarrow> usize list" where
  "passthrough_device_stread_ids c e = pt_streams_ids (cb_pt (cfg_bodies c (ce_body e)))"

definition add_passthrough_device_region :: "VmConfigEntry \<Rightarrow> usize \<Rightarrow> usize \<Rightarrow> usize \<Rightarrow> Config \<Rightarrow> Config" where
  "add_passthrough_device_region e base_ipa base_pa len = upd_body e (\<lambda>b. b\<lparr>cb_pt := (cb_pt b)\<lparr>pt_regions :=
     pt_regions (cb_pt b) @ [\<lparr>pr_ipa = base_ipa, pr_pa = base_pa, pr_length = len, pr_dev_property = True\<rparr>]\<rparr>\<rparr>)"

definition add_passthrough_device_irqs :: "VmConfigEntry \<Rightarrow> usize list \<Rightarrow> Config \<Rightarrow> Config" where
  "add_passthrough_device_irqs e irqs =
     upd_body e (\<lambda>b. b\<lparr>cb_pt := (cb_pt b)\<lparr>pt_irqs := pt_irqs (cb_pt b) @ irqs\<rparr>\<rparr>)"

definition add_passthrough_device_streams_ids :: "VmConfigEntry \<Rightarrow> usize list \<Rightarrow> Config \<Rightarrow> Config" where
  "add_passthrough_device_streams_ids e ids =
     upd_body e (\<lambda>b. b\<lparr>cb_pt := (cb_pt b)\<lparr>pt_streams_ids := pt_streams_ids (cb_pt b) @ ids\<rparr>\<rparr>)"

definition dtb_device_list :: "Config \<Rightarrow> VmConfigEntry \<Rightarrow> VmDtbDevConfig list" where
  "dtb_device_list c e = cb_dtb (cfg_bodies c (ce_body e))"

definition add_dtb_device :: "VmConfigEntry \<Rightarrow> VmDtbDevConfig \<Rightarrow> Config \<Rightarrow> Config" where
  "add_dtb_device e d = upd_body e (\<lambda>b. b\<lparr>cb_dtb := cb_dtb b @ [d]\<rparr>)"

fun first_of_type :: "DtbDevType \<Rightarrow> VmDtbDevConfig list \<Rightarrow> usize" where
  "first_of_type t [] = 0"
| "first_of_type t (d # ds) = (if dd_dev_type d = t then dd_ipa d else first_of_type t ds)"

definition gicc_addr :: "Config \<Rightarrow> VmConfigEntry \<Rightarrow> usize" where
  "gicc_addr c e = first_of_type DevGicc (cb_dtb (cfg_bodies c (ce_body e)))"

definition gicd_addr :: "Config \<Rightarrow> VmConfigEntry \<Rightarrow> usize" where
  "gicd_addr c e = first_of_type DevGicd (cb_dtb (cfg_bodies c (ce_body e)))"

section \<open>The table\<close>

fun generate_vm_id_loop :: "usize list \<Rightarrow> VmConfigTable \<Rightarrow> ((unit + usize) \<times> VmConfigTable) option" where
  "generate_vm_id_loop [] t = Some (Inl (), t)"
| "generate_vm_id_loop (i # is) t = do {
     b \<leftarrow> BitAlloc16_get (ct_vm_bitmap t) i;
     if b = 0 then do {
       m \<leftarrow> BitAlloc16_set (ct_vm_bitmap t) i;
       Some (Inr i, t\<lparr>ct_vm_bitmap := m\<rparr>) }
     else generate_vm_id_loop is t }"

definition generate_vm_id :: "VmConfigTable \<Rightarrow> ((unit + usize) \<times> VmConfigTable) option" where
  "generate_vm_id t = generate_vm_id_loop [0..<VM_NUM_MAX] t"

definition remove_vm_id :: "usize \<Rightarrow> VmConfigTable \<Rightarrow> VmConfigTable option" where
  "remove_vm_id vm_id t = do {
     m \<leftarrow> BitAlloc16_clear (ct_vm_bitmap t) vm_id;
     Some (t\<lparr>ct_vm_bitmap := m\<rparr>) }"

definition vm_cfg_set_config_name :: "rust_string \<Rightarrow> Config \<Rightarrow> Config" where
  "vm_cfg_set_config_name name c = c\<lparr>cfg_table := cfg_table c\<lparr>ct_name := Some name\<rparr>\<rparr>"

definition vm_num :: "Config \<Rightarrow> usize" where
  "vm_num c = length (ct_entries (cfg_table c))"

fun find_entry :: "usize \<Rightarrow> VmConfigEntry list \<Rightarrow> VmConfigEntry option" where
  "find_entry vmid [] = None"
| "find_entry vmid (e # es) = (if ce_id e = vmid then Some e else find_entry vmid es)"

definition vm_type :: "Config \<Rightarrow> usize \<Rightarrow> VmType" where
  "vm_type c vmid = (case find_entry vmid (ct_entries (cfg_table c)) of Some e \<Rightarrow> ce_os_type e | None \<Rightarrow> VmTOs)"

definition vm_id_list :: "Config \<Rightarrow> usize list" where
  "vm_id_list c = map ce_id (ct_entries (cfg_table c))"

definition vm_cfg_entry :: "Config \<Rightarrow> usize \<Rightarrow> VmConfigEntry option" where
  "vm_cfg_entry c vmid = find_entry vmid (ct_entries (cfg_table c))"

definition vm_cfg_add_vm_entry :: "VmConfigEntry \<Rightarrow> Config \<Rightarrow> ((unit + usize) \<times> Config) option" where
  "vm_cfg_add_vm_entry e c = do {
     (r, t) \<leftarrow> generate_vm_id (cfg_table c);
     case r of
       Inl _ \<Rightarrow> Some (Inl (), c\<lparr>cfg_table := t\<rparr>)
     | Inr vm_id \<Rightarrow> do {
         assert_that (\<not> (vm_id = 0 \<and> (length (ct_entries t) > 0 \<or> ct_vm_num t > 0)));
         let e = e\<lparr>ce_id := vm_id\<rparr>;
         n \<leftarrow> uadd (ct_vm_num t) 1;
         let t = t\<lparr>ct_vm_num := n, ct_entries := ct_entries t @ [e]\<rparr>;
         assert_that (ce_name e \<noteq> None);
         Some (Inr vm_id, c\<lparr>cfg_table := t\<rparr>) } }"

section \<open>Block device slots\<close>

fun blk_request_loop :: "MediatedBlk list \<Rightarrow> (usize \<times> MediatedBlk list) option" where
  "blk_request_loop [] = None"
| "blk_request_loop (b # bs) =
     (if mb_avail b then Some (0, b\<lparr>mb_avail := False\<rparr> # bs)
      else case blk_request_loop bs of None \<Rightarrow> None | Some (i, bs') \<Rightarrow> Some (Suc i, b # bs'))"

definition mediated_blk_request :: "Config \<Rightarrow> (unit + usize) \<times> Config" where
  "mediated_blk_request c =
     (case blk_request_loop (cfg_blks c) of
        None \<Rightarrow> (Inl (), c)
      | Some (idx, bs) \<Rightarrow> (Inr idx, c\<lparr>cfg_blks := bs\<rparr>))"

definition mediated_blk_free :: "usize \<Rightarrow> Config \<Rightarrow> Config option" where
  "mediated_blk_free idx c = do {
     b \<leftarrow> vec_get (cfg_blks c) idx;
     bs \<leftarrow> vec_set (cfg_blks c) idx (b\<lparr>mb_avail := True\<rparr>);
     Some (c\<lparr>cfg_blks := bs\<rparr>) }"

definition mediated_blk_list_get :: "Config \<Rightarrow> usize \<Rightarrow> MediatedBlk option" where
  "mediated_blk_list_get c idx = vec_get (cfg_blks c) idx"

definition mediated_blk_list_get_from_pa :: "Config \<Rightarrow> usize \<Rightarrow> MediatedBlk option" where
  "mediated_blk_list_get_from_pa c pa = find (\<lambda>b. mb_base_addr b = pa) (cfg_blks c)"

fun entry_position :: "usize \<Rightarrow> VmConfigEntry list \<Rightarrow> nat option" where
  "entry_position vmid [] = None"
| "entry_position vmid (e # es) = (if ce_id e = vmid then Some 0 else map_option Suc (entry_position vmid es))"

definition vm_cfg_remove_vm_entry :: "usize \<Rightarrow> Config \<Rightarrow> Config option" where
  "vm_cfg_remove_vm_entry vm_id c =
     (case entry_position vm_id (ct_entries (cfg_table c)) of
        None \<Rightarrow> Some c
      | Some idx \<Rightarrow> do {
          n \<leftarrow> usub (ct_vm_num (cfg_table c)) 1;
          t \<leftarrow> remove_vm_id vm_id (cfg_table c\<lparr>ct_vm_num := n\<rparr>);
          e \<leftarrow> vec_get (ct_entries t) idx;
          c \<leftarrow> (case mediated_block_index c e of None \<Rightarrow> Some c | Some block_idx \<Rightarrow> mediated_blk_free block_idx c);
          Some (c\<lparr>cfg_table := t\<lparr>ct_entries := remove_nth idx (ct_entries t)\<rparr>\<rparr>) })"

definition vm_cfg_del_vm :: "usize \<Rightarrow> Config \<Rightarrow> ((unit + usize) \<times> Config) option" where
  "vm_cfg_del_vm vmid c = do { c \<leftarrow> vm_cfg_remove_vm_entry vmid c; Some (Inr 0, c) }"

section \<open>Configuration hypercalls\<close>

text \<open>\<open>memcpy_safe\<close> panics when an address is below 0x1000; the destinations here are heap buffers.\<close>

definition copy_bytes :: "(usize \<Rightarrow> u8) \<Rightarrow> usize \<Rightarrow> usize \<Rightarrow> u8 list option" where
  "copy_bytes mem pa n = (if pa < 0x1000 then None else Some (map (\<lambda>i. mem (pa + i)) [0..<n]))"

definition read_usize :: "(usize \<Rightarrow> u8) \<Rightarrow> usize \<Rightarrow> usize" where
  "read_usize mem pa = foldr (\<lambda>i v. unat (mem (pa + i)) + 256 * v) [0..<8] 0"

definition copy_words :: "(usize \<Rightarrow> u8) \<Rightarrow> usize \<Rightarrow> usize \<Rightarrow> usize list option" where
  "copy_words mem pa n = (if pa < 0x1000 then None else Some (map (\<lambda>i. read_usize mem (pa + 8 * i)) [0..<n]))"

text \<open>Validity of UTF-8, as \<open>String::from_utf8\<close> checks it.\<close>

definition cont_byte :: "u8 \<Rightarrow> bool" where
  "cont_byte b \<longleftrightarrow> 0x80 \<le> b \<and> b \<le> 0xBF"

fun utf8_valid :: "u8 list \<Rightarrow> bool" where
  "utf8_valid [] = True"
| "utf8_valid (a # bs) =
     (if a \<le> 0x7F then utf8_valid bs
      else if 0xC2 \<le> a \<and> a \<le> 0xDF then
        (case bs of b # r \<Rightarrow> cont_byte b \<and> utf8_valid r | _ \<Rightarrow> False)
      else if 0xE0 \<le> a \<and> a \<le> 0xEF then
        (case bs of b # c # r \<Rightarrow> cont_byte b \<and> cont_byte c \<and> (a = 0xE0 \<longrightarrow> 0xA0 \<le> b) \<and> (a = 0xED \<longrightarrow> b \<le> 0x9F) \<and> utf8_valid r
         | _ \<Rightarrow> False)
      else if 0xF0 \<le> a \<and> a \<le> 0xF4 then
        (case bs of b # c # d # r \<Rightarrow> cont_byte b \<and> cont_byte c \<and> cont_byte d \<and> (a = 0xF0 \<longrightarrow> 0x90 \<le> b) \<and>
            (a = 0xF4 \<longrightarrow> b \<le> 0x8F) \<and> utf8_valid r
         | _ \<Rightarrow> False)
      else False)"

definition string_or_unknown :: "u8 list \<Rightarrow> rust_string" where
  "string_or_unknown bs = (if utf8_valid bs then bs else [0x75, 0x6e, 0x6b, 0x6e, 0x6f, 0x77, 0x6e])"

definition trim_zeros :: "rust_string \<Rightarrow> rust_string" where
  "trim_zeros s = rev (dropWhile (\<lambda>b. b = 0) (rev s))"

text \<open>\<open>vec![0u8; n]\<close> panics when the capacity exceeds \<open>isize::MAX\<close>; nothing is copied for length 0.\<close>

definition copy_string :: "(usize \<Rightarrow> u8) \<Rightarrow> usize \<Rightarrow> usize \<Rightarrow> rust_string option" where
  "copy_string mem pa n = do {
     assert_that (n < 2 ^ 63);
     bs \<leftarrow> (if n > 0 then copy_bytes mem pa n else Some []);
     Some (string_or_unknown bs) }"

definition vm_cfg_add_vm :: "(usize \<Rightarrow> u8) \<Rightarrow> usize \<Rightarrow> VmPa list \<Rightarrow> usize \<Rightarrow> Config \<Rightarrow> ((unit + usize) \<times> Config) option" where
  "vm_cfg_add_vm mem num regions config_ipa c = do {
     config_pa \<leftarrow> vm_ipa2pa num regions config_ipa;
     assert_that (config_pa \<noteq> 0);
     let field = (\<lambda>i. read_usize mem (config_pa + 8 * i));
     vm_name_pa \<leftarrow> vm_ipa2pa num regions (field 0);
     if vm_name_pa = 0 then Some (Inl (), c)
     else do {
       vm_name_str \<leftarrow> copy_string mem vm_name_pa (field 1);
       cmdline_pa \<leftarrow> vm_ipa2pa num regions (field 3);
       if cmdline_pa = 0 then Some (Inl (), c)
       else do {
         cmdline_str \<leftarrow> copy_string mem cmdline_pa (field 4);
         (e, c) \<leftarrow> VmConfigEntry_new vm_name_str cmdline_str (field 2) (field 5) (field 6) (field 7) c;
         vm_cfg_add_vm_entry e c } } }"

definition vm_cfg_add_mem_region :: "usize \<Rightarrow> usize \<Rightarrow> usize \<Rightarrow> Config \<Rightarrow> (unit + usize) \<times> Config" where
  "vm_cfg_add_mem_region vmid ipa_start len c =
     (case vm_cfg_entry c vmid of
        Some e \<Rightarrow> (Inr 0, add_memory_cfg e ipa_start len c)
      | None \<Rightarrow> (Inl (), c))"

definition vm_cfg_set_cpu :: "usize \<Rightarrow> usize \<Rightarrow> u64 \<Rightarrow> usize \<Rightarrow> Config \<Rightarrow> (unit + usize) \<times> Config" where
  "vm_cfg_set_cpu vmid num allocate_bitmap master c =
     (case vm_cfg_entry c vmid of
        Some e \<Rightarrow> (Inr 0, set_cpu_cfg e num allocate_bitmap master c)
      | None \<Rightarrow> (Inl (), c))"

definition vm_cfg_add_emu_dev :: "(usize \<Rightarrow> u8) \<Rightarrow> usize \<Rightarrow> VmPa list \<Rightarrow> usize \<Rightarrow> usize \<Rightarrow> usize \<Rightarrow> usize \<Rightarrow> usize \<Rightarrow>
    usize \<Rightarrow> usize \<Rightarrow> Config \<Rightarrow> ((unit + usize) \<times> Config) option" where
  "vm_cfg_add_emu_dev mem num regions vmid name_ipa base_ipa len irq_id cfg_list_ipa emu_type c =
     (case vm_cfg_entry c vmid of
        None \<Rightarrow> Some (Inl (), c)
      | Some e \<Rightarrow> do {
          name_pa \<leftarrow> vm_ipa2pa num regions name_ipa;
          if name_pa = 0 then Some (Inl (), c)
          else do {
            name_u8 \<leftarrow> copy_bytes mem name_pa NAME_MAX_LEN;
            let name_str = string_or_unknown name_u8;
            cfg_list_pa \<leftarrow> vm_ipa2pa num regions cfg_list_ipa;
            if cfg_list_pa = 0 then Some (Inl (), c)
            else do {
              cfg_list \<leftarrow> copy_words mem cfg_list_pa CFG_MAX_NUM;
              emu_dev_type \<leftarrow> EmuDeviceType_from_usize emu_type;
              let emu_dev_cfg = \<lparr>ed_name = Some (trim_zeros name_str), ed_base_ipa = base_ipa, ed_length = len,
                ed_irq_id = irq_id, ed_cfg_list = cfg_list,
                ed_emu_type = (if emu_dev_type = EmuDeviceTVirtioBlkMediated then EmuDeviceTVirtioBlk else emu_dev_type),
                ed_mediated = (emu_dev_type = EmuDeviceTVirtioBlkMediated)\<rparr>;
              let c = add_emulated_device_cfg e emu_dev_cfg c;
              if emu_dev_type = EmuDeviceTVirtioBlkMediated then
                (case mediated_blk_request c of
                   (Inl _, c) \<Rightarrow> Some (Inl (), c)
                 | (Inr idx, c) \<Rightarrow> Some (Inr 0, set_mediated_block_index e idx c))
              else Some (Inr 0, c) } } })"

definition vm_cfg_add_passthrough_device_region :: "usize \<Rightarrow> usize \<Rightarrow> usize \<Rightarrow> usize \<Rightarrow> Config \<Rightarrow> (unit + usize) \<times> Config" where
  "vm_cfg_add_passthrough_device_region vmid base_ipa base_pa len c =
     (case vm_cfg_entry c vmid of
        Some e \<Rightarrow> (Inr 0, add_passthrough_device_region e base_ipa base_pa len c)
      | None \<Rightarrow> (Inl (), c))"

text \<open>
  The source writes \<open>vec![0 as usize, irqs_length]\<close>: a vector of the two elements 0 and
  \<open>irqs_length\<close>.  The copy overwrites its first \<open>irqs_length\<close> elements; a length above 2
  writes past the buffer, which is a failure of the model.
\<close>

definition copy_irqs :: "(usize \<Rightarrow> u8) \<Rightarrow> usize \<Rightarrow> usize \<Rightarrow> usize list option" where
  "copy_irqs mem pa n = do {
     let buf = [0, n];
     if n > 0 then do {
       umul n 8;
       ws \<leftarrow> copy_words mem pa n;
       assert_that (n \<le> length buf);
       Some (ws @ drop n buf) }
     else Some buf }"

definition vm_cfg_add_passthrough_device_irqs :: "(usize \<Rightarrow> u8) \<Rightarrow> usize \<Rightarrow> VmPa list \<Rightarrow> usize \<Rightarrow> usize \<Rightarrow> usize \<Rightarrow>
    Config \<Rightarrow> ((unit + usize) \<times> Config) option" where
  "vm_cfg_add_passthrough_device_irqs mem num regions vmid irqs_base_ipa irqs_length c = do {
     irqs_base_pa \<leftarrow> vm_ipa2pa num regions irqs_base_ipa;
     if irqs_base_pa = 0 then Some (Inl (), c)
     else do {
       irqs \<leftarrow> copy_irqs mem irqs_base_pa irqs_length;
       case vm_cfg_entry c vmid of
         Some e \<Rightarrow> Some (Inr 0, add_passthrough_device_irqs e irqs c)
       | None \<Rightarrow> Some (Inl (), c) } }"

definition vm_cfg_add_passthrough_device_streams_ids :: "(usize \<Rightarrow> u8) \<Rightarrow> usize \<Rightarrow> VmPa list \<Rightarrow> usize \<Rightarrow> usize \<Rightarrow> usize \<Rightarrow>
    Config \<Rightarrow> ((unit + usize) \<times> Config) option" where
  "vm_cfg_add_passthrough_device_streams_ids mem num regions vmid base_ipa len c = do {
     pa \<leftarrow> vm_ipa2pa num regions base_ipa;
     if pa = 0 then Some (Inl (), c)
     else do {
       ids \<leftarrow> copy_irqs mem pa len;
       case vm_cfg_entry c vmid of
         Some e \<Rightarrow> Some (Inr 0, add_passthrough_device_streams_ids e ids c)
       | None \<Rightarrow> Some (Inl (), c) } }"

definition vm_cfg_add_dtb_dev :: "(usize \<Rightarrow> u8) \<Rightarrow> usize \<Rightarrow> VmPa list \<Rightarrow> usize \<Rightarrow> usize \<Rightarrow> usize \<Rightarrow> usize \<Rightarrow> usize \<Rightarrow>
    usize \<Rightarrow> usize \<Rightarrow> Config \<Rightarrow> ((unit + usize) \<times> Config) option" where
  "vm_cfg_add_dtb_dev mem num regions vmid name_ipa dev_type irq_list_ipa irq_list_length addr_region_ipa addr_region_length c = do {
     name_pa \<leftarrow> vm_ipa2pa num regions name_ipa;
     if name_pa = 0 then Some (Inl (), c)
     else do {
       name_u8 \<leftarrow> copy_bytes mem name_pa NAME_MAX_LEN;
       let name_str = string_or_unknown name_u8;
       irq_list_pa \<leftarrow> vm_ipa2pa num regions irq_list_ipa;
       if irq_list_pa = 0 then Some (Inl (), c)
       else do {
         irqs \<leftarrow> (if irq_list_length > 0 then do {
             tmp \<leftarrow> copy_irqs mem irq_list_pa irq_list_length;
             Some (take irq_list_length tmp) }
           else Some []);
         case vm_cfg_entry c vmid of
           None \<Rightarrow> Some (Inl (), c)
         | Some e \<Rightarrow> do {
             ty \<leftarrow> DtbDevType_from_usize dev_type;
             Some (Inr 0, add_dtb_device e \<lparr>dd_name = trim_zeros name_str, dd_dev_type = ty, dd_irqs = irqs,
               dd_ipa = addr_region_ipa, dd_length = addr_region_length\<rparr> c) } } } }"

section \<open>Translation by region number\<close>

lemma upt_Cons_shift: "[k..<k + length (q # qs)] = k # [Suc k..<Suc k + length qs]"
  by (subst upt_conv_Cons) simp_all

lemma find_loop_suffix:
  assumes "k + length qs \<le> length rs" "\<forall>j < length qs. rs ! (k + j) = qs ! j"
  shows "find_loop (\<lambda>i. do { r \<leftarrow> vec_get rs i; f r }) [k..<k + length qs] = find_loop f qs"
  using assms
proof (induction qs arbitrary: k)
  case Nil
  then show ?case by simp
next
  case (Cons q qs)
  have "rs ! k = q" using Cons.prems(2)[rule_format, of 0] by simp
  moreover have "\<forall>j < length qs. rs ! (Suc k + j) = qs ! j"
  proof (intro allI impI)
    fix j assume "j < length qs"
    then show "rs ! (Suc k + j) = qs ! j" using Cons.prems(2)[rule_format, of "Suc j"] by simp
  qed
  ultimately show ?case
    using Cons.IH[of "Suc k"] Cons.prems(1) unfolding upt_Cons_shift
    by (simp del: upt_Suc split: option.splits bind_splits)
qed

lemma ipa2pa_loop_find:
  "ipa2pa_loop qs ipa = do {
     r \<leftarrow> find_loop (\<lambda>region. do {
       x \<leftarrow> isub (as_isize ipa) (pa_offset region);
       hit \<leftarrow> in_range (as_usize x) (pa_start region) (pa_length region);
       Some (if hit then Some (as_usize x) else None) }) qs;
     Some (case r of Some pa \<Rightarrow> pa | None \<Rightarrow> 0) }"
  by (induction qs) (auto split: bind_splits)

text \<open>
  Translating by region number is translating by the region list: for a guest whose region
  count does not exceed its table, \<open>vm_ipa2pa\<close> is \<open>ipa2pa\<close> on the counted regions, panics included.
\<close>

theorem vm_ipa2pa_ipa2pa:
  assumes "num \<le> length rs"
  shows "vm_ipa2pa num rs ipa = ipa2pa (take num rs) ipa"
proof -
  have "find_loop (\<lambda>i. do { r \<leftarrow> vec_get rs i; f r }) [0..<num] = find_loop f (take num rs)" for f :: "VmPa \<Rightarrow> usize option option"
  proof -
    have "length (take num rs) = num" using assms by simp
    then show ?thesis using find_loop_suffix[of 0 "take num rs" rs f] assms by simp
  qed
  then show ?thesis by (simp add: vm_ipa2pa_def ipa2pa_def ipa2pa_loop_find)
qed

theorem vm_ipa2pa_ipa2pa_witness:
  "vm_ipa2pa 1 guest_regions 0x80000010 = ipa2pa (take 1 guest_regions) 0x80000010"
  by (rule vm_ipa2pa_ipa2pa) (simp add: guest_regions_def)

section \<open>Identifiers\<close>

definition cfg_ids :: "Config \<Rightarrow> usize set" where
  "cfg_ids c = ce_id ` set (ct_entries (cfg_table c))"

text \<open>The table is consistent: identifiers and bodies are unique and match the bitmap and the counters.\<close>

definition cfg_wf :: "Config \<Rightarrow> bool" where
  "cfg_wf c \<longleftrightarrow> distinct (map ce_id (ct_entries (cfg_table c))) \<and> distinct (map ce_body (ct_entries (cfg_table c))) \<and>
     (\<forall>e \<in> set (ct_entries (cfg_table c)). ce_body e < cfg_next c) \<and>
     bits_view 16 BitAlloc16_get (ct_vm_bitmap (cfg_table c)) = cfg_ids c \<and> cfg_ids c \<subseteq> {..<VM_NUM_MAX} \<and>
     ct_vm_num (cfg_table c) = length (ct_entries (cfg_table c))"

lemma find_entry_Some: "distinct (map ce_id es) \<Longrightarrow> find_entry i es = Some e \<longleftrightarrow> e \<in> set es \<and> ce_id e = i"
  by (induction es) (auto simp: rev_image_eqI)

lemma find_entry_None: "find_entry i es = None \<longleftrightarrow> i \<notin> ce_id ` set es"
  by (induction es) auto

lemma find_entry_append: "find_entry i (es @ fs) = (case find_entry i es of Some e \<Rightarrow> Some e | None \<Rightarrow> find_entry i fs)"
  by (induction es) auto

lemma generate_vm_id_loop_eq:
  assumes "set is \<subseteq> {..<16}"
  shows "generate_vm_id_loop is t =
    (case find (\<lambda>i. i \<notin> bits_view 16 BitAlloc16_get (ct_vm_bitmap t)) is of
       None \<Rightarrow> Some (Inl (), t)
     | Some i \<Rightarrow> map_option (\<lambda>m. (Inr i, t\<lparr>ct_vm_bitmap := m\<rparr>)) (BitAlloc16_set (ct_vm_bitmap t) i))"
  using assms
proof (induction "is")
  case Nil
  then show ?case by simp
next
  case (Cons i "is")
  then have "BitAlloc16_get (ct_vm_bitmap t) i = Some (if i \<in> bits_view 16 BitAlloc16_get (ct_vm_bitmap t) then 1 else 0)"
    by (simp add: ba16.get_view)
  then show ?case using Cons by (auto split: bind_splits)
qed

lemma cfg_wf_card:
  assumes "cfg_wf c"
  shows "ct_vm_num (cfg_table c) = card (cfg_ids c)" "card (cfg_ids c) \<le> VM_NUM_MAX"
proof -
  from assms have "card (cfg_ids c) = length (ct_entries (cfg_table c))"
    by (metis cfg_ids_def cfg_wf_def distinct_card length_map set_map)
  with assms show "ct_vm_num (cfg_table c) = card (cfg_ids c)" by (simp add: cfg_wf_def)
  from assms show "card (cfg_ids c) \<le> VM_NUM_MAX"
    by (metis card_lessThan card_mono cfg_wf_def finite_lessThan)
qed

lemma find_least:
  "find P [a..<b] = Some i \<longleftrightarrow> a \<le> i \<and> i < b \<and> P i \<and> (\<forall>j. a \<le> j \<longrightarrow> j < i \<longrightarrow> \<not> P j)" for i :: nat
proof (induction "b - a" arbitrary: a)
  case 0
  then show ?case by auto
next
  case (Suc n)
  then have upt: "[a..<b] = a # [Suc a..<b]" and ab: "a < b" by (auto simp: upt_conv_Cons)
  show ?case
  proof (cases "P a")
    case True
    then show ?thesis using ab unfolding upt by (auto simp: not_less le_antisym)
  next
    case False
    have "find P [a..<b] = Some i \<longleftrightarrow> Suc a \<le> i \<and> i < b \<and> P i \<and> (\<forall>j. Suc a \<le> j \<longrightarrow> j < i \<longrightarrow> \<not> P j)"
      using Suc.hyps(1)[of "Suc a"] Suc.hyps(2) False unfolding upt by simp
    then show ?thesis using False by (metis Suc_le_eq le_eq_less_or_eq)
  qed
qed

lemma remove_nth_map: "map f (remove_nth i xs) = remove_nth i (map f xs)"
  by (simp add: remove_nth_def take_map drop_map)

lemma entry_position_Some:
  "entry_position i es = Some k \<Longrightarrow> k < length es \<and> ce_id (es ! k) = i"
  by (induction es arbitrary: k) (auto split: if_splits)

lemma entry_position_None: "entry_position i es = None \<longleftrightarrow> i \<notin> ce_id ` set es"
  by (induction es) auto

text \<open>
  A configuration is added under the least free identifier; every other configuration keeps its
  identifier and entry, and the table stays consistent.  With eight configurations the call fails
  and changes nothing.
\<close>

theorem vm_cfg_add_vm_entry_correct:
  assumes wf: "cfg_wf c" and name: "ce_name e \<noteq> None" and body: "ce_body e < cfg_next c"
    and fresh: "ce_body e \<notin> ce_body ` set (ct_entries (cfg_table c))" and mvm: "cfg_ids c = {} \<or> 0 \<in> cfg_ids c"
  shows "\<exists>r c'. vm_cfg_add_vm_entry e c = Some (r, c') \<and> cfg_wf c' \<and>
    (if card (cfg_ids c) = VM_NUM_MAX then r = Inl () \<and> c' = c
     else \<exists>i. r = Inr i \<and> i \<notin> cfg_ids c \<and> (\<forall>j < i. j \<in> cfg_ids c) \<and> cfg_ids c' = insert i (cfg_ids c) \<and>
       vm_cfg_entry c' i = Some (e\<lparr>ce_id := i\<rparr>) \<and> (\<forall>j. j \<noteq> i \<longrightarrow> vm_cfg_entry c' j = vm_cfg_entry c j))"
proof -
  let ?t = "cfg_table c" and ?B = "bits_view 16 BitAlloc16_get (ct_vm_bitmap (cfg_table c))"
  have B: "?B = cfg_ids c" using wf by (simp add: cfg_wf_def)
  have gen: "generate_vm_id ?t = (case find (\<lambda>i. i \<notin> ?B) [0..<VM_NUM_MAX] of None \<Rightarrow> Some (Inl (), ?t)
      | Some i \<Rightarrow> map_option (\<lambda>m. (Inr i, ?t\<lparr>ct_vm_bitmap := m\<rparr>)) (BitAlloc16_set (ct_vm_bitmap ?t) i))"
    unfolding generate_vm_id_def by (rule generate_vm_id_loop_eq) (auto simp: VM_NUM_MAX_def)
  show ?thesis
  proof (cases "find (\<lambda>i. i \<notin> ?B) [0..<VM_NUM_MAX]")
    case None
    then have "cfg_ids c = {..<VM_NUM_MAX}" using wf B by (auto simp: find_None_iff cfg_wf_def)
    then have "card (cfg_ids c) = VM_NUM_MAX" by simp
    then show ?thesis using None gen wf by (simp add: vm_cfg_add_vm_entry_def)
  next
    case (Some i)
    then have i: "i < VM_NUM_MAX" "i \<notin> cfg_ids c" "\<forall>j < i. j \<in> cfg_ids c" using B by (auto simp: find_least)
    have "cfg_ids c \<noteq> {..<VM_NUM_MAX}" using i by auto
    then have notfull: "card (cfg_ids c) \<noteq> VM_NUM_MAX"
      using wf by (metis card_lessThan card_subset_eq cfg_wf_def finite_lessThan)
    obtain m where m: "BitAlloc16_set (ct_vm_bitmap ?t) i = Some m" "bits_view 16 BitAlloc16_get m = insert i ?B"
      using ba16.set_view[of i "ct_vm_bitmap ?t"] i(1) by (auto simp: VM_NUM_MAX_def)
    have zero: "\<not> (i = 0 \<and> (0 < length (ct_entries ?t) \<or> 0 < ct_vm_num ?t))"
      using mvm i(2) wf by (auto simp: cfg_wf_def cfg_ids_def)
    have n: "ct_vm_num ?t + 1 < usize_bound"
      using cfg_wf_card[OF wf] by (simp add: VM_NUM_MAX_def)
    define c' where "c' = c\<lparr>cfg_table := ?t\<lparr>ct_vm_bitmap := m, ct_vm_num := ct_vm_num ?t + 1,
        ct_entries := ct_entries ?t @ [e\<lparr>ce_id := i\<rparr>]\<rparr>\<rparr>"
    have run: "vm_cfg_add_vm_entry e c = Some (Inr i, c')"
      using Some gen m(1) zero n name by (simp add: vm_cfg_add_vm_entry_def Let_def c'_def)
    have ids: "cfg_ids c' = insert i (cfg_ids c)" by (auto simp: cfg_ids_def c'_def)
    have "cfg_wf c'" using wf i m(2) B body fresh ids by (auto simp: cfg_wf_def c'_def cfg_ids_def)
    moreover have "vm_cfg_entry c' i = Some (e\<lparr>ce_id := i\<rparr>)" "\<forall>j. j \<noteq> i \<longrightarrow> vm_cfg_entry c' j = vm_cfg_entry c j"
      using i(2) find_entry_None[of i "ct_entries ?t"]
      by (auto simp: vm_cfg_entry_def c'_def find_entry_append cfg_ids_def split: option.splits)
    ultimately show ?thesis using run notfull i ids by auto
  qed
qed

definition cfg_empty :: Config where
  "cfg_empty = \<lparr>cfg_table = VmConfigTable_default, cfg_bodies = (\<lambda>_. VmConfigBody_new VmImageConfig_default),
     cfg_next = 1, cfg_blks = []\<rparr>"

definition entry_example :: VmConfigEntry where
  "entry_example = \<lparr>ce_id = 5, ce_name = Some [0x76], ce_os_type = VmTOs, ce_cmdline = [], ce_body = 0\<rparr>"

lemma cfg_empty_wf: "cfg_wf cfg_empty"
  by (simp add: cfg_wf_def cfg_empty_def VmConfigTable_default_def cfg_ids_def ba16.bits_default)

theorem vm_cfg_add_vm_entry_correct_witness:
  "\<exists>c'. vm_cfg_add_vm_entry entry_example cfg_empty = Some (Inr 0, c') \<and> cfg_ids c' = {0}"
proof -
  have ids: "cfg_ids cfg_empty = {}" by (simp add: cfg_ids_def cfg_empty_def VmConfigTable_default_def)
  have "ce_name entry_example \<noteq> None" "ce_body entry_example < cfg_next cfg_empty"
    "ce_body entry_example \<notin> ce_body ` set (ct_entries (cfg_table cfg_empty))"
    by (simp_all add: entry_example_def cfg_empty_def VmConfigTable_default_def)
  from vm_cfg_add_vm_entry_correct[OF cfg_empty_wf this disjI1[OF ids]] ids
  obtain i c' where "vm_cfg_add_vm_entry entry_example cfg_empty = Some (Inr i, c')" "cfg_ids c' = {i}" "\<forall>j < i. False"
    by (auto simp: VM_NUM_MAX_def)
  then show ?thesis by (cases i) auto
qed

lemma find_entry_remove_nth:
  assumes "distinct (map ce_id es)" "k < length es"
  shows "find_entry j (remove_nth k es) = (if j = ce_id (es ! k) then None else find_entry j es)"
proof -
  have d: "distinct es" using assms(1) by (simp add: distinct_map)
  have set': "set (remove_nth k es) = set es - {es ! k}" using d assms(2) by (rule set_remove_nth_distinct)
  have d': "distinct (map ce_id (remove_nth k es))"
    using assms(1) by (simp add: remove_nth_map distinct_remove_nth)
  have inj: "inj_on ce_id (set es)" using assms(1) by (simp add: distinct_map)
  show ?thesis
  proof (cases "j = ce_id (es ! k)")
    case True
    have "find_entry j (remove_nth k es) = None"
      unfolding find_entry_None set' True using inj assms(2) by (auto dest: inj_onD)
    with True show ?thesis by simp
  next
    case False
    have "find_entry j (remove_nth k es) = Some e \<longleftrightarrow> find_entry j es = Some e" for e
      using False by (auto simp: find_entry_Some[OF assms(1)] find_entry_Some[OF d'] set')
    then show ?thesis using False by (metis option.exhaust)
  qed
qed

lemma remove_entry_run:
  assumes wf: "cfg_wf c" and e: "vm_cfg_entry c i = Some e"
    and slot: "\<forall>k. mediated_block_index c e = Some k \<longrightarrow> k < length (cfg_blks c)"
  shows "\<exists>c'. vm_cfg_remove_vm_entry i c = Some c' \<and> cfg_wf c' \<and> cfg_ids c' = cfg_ids c - {i} \<and>
    (\<forall>j. vm_cfg_entry c' j = (if j = i then None else vm_cfg_entry c j)) \<and> cfg_bodies c' = cfg_bodies c \<and>
    cfg_blks c' = (case mediated_block_index c e of None \<Rightarrow> cfg_blks c
      | Some k \<Rightarrow> (cfg_blks c)[k := (cfg_blks c ! k)\<lparr>mb_avail := True\<rparr>])"
proof -
  let ?t = "cfg_table c" and ?es = "ct_entries (cfg_table c)"
  have dist: "distinct (map ce_id ?es)" "distinct (map ce_body ?es)" using wf by (simp_all add: cfg_wf_def)
  have ein: "e \<in> set ?es" "ce_id e = i" using e find_entry_Some[OF dist(1)] by (auto simp: vm_cfg_entry_def)
  then have "entry_position i ?es \<noteq> None" by (auto simp: entry_position_None)
  then obtain k where k: "entry_position i ?es = Some k" by blast
  then have kl: "k < length ?es" "ce_id (?es ! k) = i" using entry_position_Some by blast+
  then have ek: "?es ! k = e" using ein dist(1) by (metis distinct_map inj_onD nth_mem)
  have i16: "i < 16" using wf ein by (auto simp: cfg_wf_def cfg_ids_def VM_NUM_MAX_def)
  obtain m where m: "BitAlloc16_clear (ct_vm_bitmap ?t) i = Some m" "bits_view 16 BitAlloc16_get m = cfg_ids c - {i}"
    using ba16.clear_view[of i "ct_vm_bitmap ?t"] i16 wf by (auto simp: cfg_wf_def)
  have num: "1 \<le> ct_vm_num ?t" using wf kl by (auto simp: cfg_wf_def)
  define blks where "blks = (case mediated_block_index c e of None \<Rightarrow> cfg_blks c
      | Some k \<Rightarrow> (cfg_blks c)[k := (cfg_blks c ! k)\<lparr>mb_avail := True\<rparr>])"
  define c' where "c' = c\<lparr>cfg_table := ?t\<lparr>ct_vm_num := ct_vm_num ?t - 1, ct_vm_bitmap := m,
      ct_entries := remove_nth k ?es\<rparr>, cfg_blks := blks\<rparr>"
  have free: "(case mediated_block_index c e of None \<Rightarrow> Some c | Some block_idx \<Rightarrow> mediated_blk_free block_idx c) =
      Some (c\<lparr>cfg_blks := blks\<rparr>)"
    using slot by (auto simp: blks_def mediated_blk_free_def split: option.splits)
  have run: "vm_cfg_remove_vm_entry i c = Some c'"
    using k num m(1) kl(1) free ek by (simp add: vm_cfg_remove_vm_entry_def remove_vm_id_def c'_def)
  have set': "set (remove_nth k ?es) = set ?es - {e}"
    using set_remove_nth_distinct[of ?es k] dist(1) kl(1) ek by (simp add: distinct_map)
  have inj: "inj_on ce_id (set ?es)" using dist(1) by (simp add: distinct_map)
  have ids: "cfg_ids c' = cfg_ids c - {i}"
    using inj ein set' by (auto simp: cfg_ids_def c'_def dest: inj_onD)
  have "length (remove_nth k ?es) = length ?es - 1" using kl(1) by (rule length_remove_nth)
  then have "cfg_wf c'" using wf m(2) ids set' dist
    by (auto simp: cfg_wf_def c'_def cfg_ids_def remove_nth_map distinct_remove_nth)
  moreover have "vm_cfg_entry c' j = (if j = i then None else vm_cfg_entry c j)" for j
    using find_entry_remove_nth[OF dist(1) kl(1), of j] kl(2) by (simp add: vm_cfg_entry_def c'_def)
  ultimately show ?thesis using run ids by (intro exI[of _ c']) (simp add: blks_def c'_def)
qed

text \<open>
  Removing a configuration frees its identifier and its block device slot, and keeps every
  other configuration; the table stays consistent.
\<close>

theorem vm_cfg_remove_vm_entry_correct:
  assumes wf: "cfg_wf c" and e: "vm_cfg_entry c i = Some e"
    and slot: "\<forall>k. mediated_block_index c e = Some k \<longrightarrow> k < length (cfg_blks c)"
  shows "\<exists>c'. vm_cfg_remove_vm_entry i c = Some c' \<and> cfg_wf c' \<and> cfg_ids c' = cfg_ids c - {i} \<and>
    (\<forall>j. vm_cfg_entry c' j = (if j = i then None else vm_cfg_entry c j)) \<and> cfg_bodies c' = cfg_bodies c \<and>
    cfg_blks c' = (case mediated_block_index c e of None \<Rightarrow> cfg_blks c
      | Some k \<Rightarrow> (cfg_blks c)[k := (cfg_blks c ! k)\<lparr>mb_avail := True\<rparr>])"
  using assms by (rule remove_entry_run)

text \<open>One configured guest with a mediated block device in slot 0.\<close>

definition cfg_one :: Config where
  "cfg_one = \<lparr>cfg_table = \<lparr>ct_name = None, ct_vm_bitmap = 1, ct_vm_num = 1, ct_entries = [entry_example\<lparr>ce_id := 0\<rparr>]\<rparr>,
     cfg_bodies = (\<lambda>_. VmConfigBody_new (VmImageConfig_default\<lparr>im_mediated_block_index := Some 0\<rparr>)), cfg_next = 1,
     cfg_blks = [\<lparr>mb_base_addr = 0x80000000, mb_avail = False\<rparr>]\<rparr>"

lemma cfg_one_wf: "cfg_wf cfg_one"
proof -
  have "bits_view 16 BitAlloc16_get 1 = {0}"
    by (auto simp: bits_view_def BitAlloc16_get_bit bit_1_iff of_bool_def split: if_splits)
  then show ?thesis by (simp add: cfg_wf_def cfg_one_def cfg_ids_def entry_example_def VM_NUM_MAX_def)
qed

theorem vm_cfg_remove_vm_entry_correct_witness:
  "\<exists>c'. vm_cfg_remove_vm_entry 0 cfg_one = Some c' \<and> cfg_ids c' = {} \<and>
    cfg_blks c' = [\<lparr>mb_base_addr = 0x80000000, mb_avail = True\<rparr>]"
proof -
  let ?e = "entry_example\<lparr>ce_id := 0\<rparr>"
  have e: "vm_cfg_entry cfg_one 0 = Some ?e" by (simp add: vm_cfg_entry_def cfg_one_def)
  have idx: "mediated_block_index cfg_one ?e = Some 0"
    by (simp add: mediated_block_index_def cfg_one_def VmConfigBody_new_def)
  then have "\<forall>k. mediated_block_index cfg_one ?e = Some k \<longrightarrow> k < length (cfg_blks cfg_one)" by (simp add: cfg_one_def)
  from vm_cfg_remove_vm_entry_correct[OF cfg_one_wf e this] idx show ?thesis
    by (auto simp: cfg_one_def cfg_ids_def entry_example_def)
qed

section \<open>Block device slots are exclusive\<close>

definition slots_ok :: "Config \<Rightarrow> bool" where
  "slots_ok c \<longleftrightarrow> (\<forall>e1 \<in> set (ct_entries (cfg_table c)). \<forall>k. mediated_block_index c e1 = Some k \<longrightarrow>
     k < length (cfg_blks c) \<and> \<not> mb_avail (cfg_blks c ! k) \<and>
     (\<forall>e2 \<in> set (ct_entries (cfg_table c)). mediated_block_index c e2 = Some k \<longrightarrow> e1 = e2))"

lemma blk_request_loop_Some:
  "blk_request_loop bs = Some (i, bs') \<Longrightarrow>
     i < length bs \<and> mb_avail (bs ! i) \<and> bs' = bs[i := (bs ! i)\<lparr>mb_avail := False\<rparr>]"
  by (induction bs arbitrary: i bs') (auto split: if_splits option.splits)

lemma mediated_block_index_upd:
  assumes "cfg_wf c" "e \<in> set (ct_entries (cfg_table c))" "e' \<in> set (ct_entries (cfg_table c))"
  shows "mediated_block_index (upd_body e f c) e' =
    (if e' = e then im_mediated_block_index (cb_image (f (cfg_bodies c (ce_body e)))) else mediated_block_index c e')"
proof -
  have "inj_on ce_body (set (ct_entries (cfg_table c)))" using assms(1) by (simp add: cfg_wf_def distinct_map)
  with assms(2,3) have "e' \<noteq> e \<Longrightarrow> ce_body e' \<noteq> ce_body e" by (auto dest: inj_onD)
  then show ?thesis by (auto simp: mediated_block_index_def upd_body_def)
qed

lemma upd_body_fields [simp]:
  "cfg_table (upd_body e f c) = cfg_table c" "cfg_blks (upd_body e f c) = cfg_blks c" "cfg_next (upd_body e f c) = cfg_next c"
  by (simp_all add: upd_body_def)

lemma cfg_wf_cong:
  "cfg_table c' = cfg_table c \<Longrightarrow> cfg_next c' = cfg_next c \<Longrightarrow> cfg_wf c' = cfg_wf c"
  by (simp add: cfg_wf_def cfg_ids_def)

lemma slots_ok_add_device:
  assumes "cfg_wf c" "slots_ok c" "e \<in> set (ct_entries (cfg_table c))"
  shows "slots_ok (add_emulated_device_cfg e d c)"
proof -
  have "mediated_block_index (add_emulated_device_cfg e d c) e' = mediated_block_index c e'"
    if "e' \<in> set (ct_entries (cfg_table c))" for e'
    using mediated_block_index_upd[OF assms(1,3) that] by (auto simp: add_emulated_device_cfg_def mediated_block_index_def)
  then show ?thesis using assms(2) by (auto simp: slots_ok_def add_emulated_device_cfg_def)
qed

lemma slots_ok_request:
  assumes "cfg_wf c" "slots_ok c" "e \<in> set (ct_entries (cfg_table c))" "mediated_blk_request c = (Inr i, c1)"
  shows "slots_ok (set_mediated_block_index e i c1)" "cfg_wf (set_mediated_block_index e i c1)"
proof -
  from assms(4) obtain bs where c1: "c1 = c\<lparr>cfg_blks := bs\<rparr>" and loop: "blk_request_loop (cfg_blks c) = Some (i, bs)"
    by (auto simp: mediated_blk_request_def split: option.splits)
  note i = blk_request_loop_Some[OF loop]
  have wf1: "cfg_wf c1" using assms(1) cfg_wf_cong[of c1 c] c1 by simp
  then show "cfg_wf (set_mediated_block_index e i c1)"
    using cfg_wf_cong[of "set_mediated_block_index e i c1" c1] by (simp add: set_mediated_block_index_def)
  have idx: "mediated_block_index (set_mediated_block_index e i c1) e' = (if e' = e then Some i else mediated_block_index c e')"
    if "e' \<in> set (ct_entries (cfg_table c))" for e'
    using mediated_block_index_upd[OF wf1, of e e'] that assms(3) c1
    by (simp add: set_mediated_block_index_def mediated_block_index_def)
  have other: "k \<noteq> i" if "e' \<in> set (ct_entries (cfg_table c))" "mediated_block_index c e' = Some k" for e' k
    using that assms(2) i by (auto simp: slots_ok_def)
  have blks: "cfg_blks (set_mediated_block_index e i c1) = bs" "cfg_table (set_mediated_block_index e i c1) = cfg_table c"
    by (simp_all add: set_mediated_block_index_def c1)
  show "slots_ok (set_mediated_block_index e i c1)"
    unfolding slots_ok_def blks using idx other i assms(2)
    by (auto simp: slots_ok_def nth_list_update split: if_splits)
qed

lemma slots_ok_add_emu_dev:
  assumes "cfg_wf c" and "slots_ok c"
    and run: "vm_cfg_add_emu_dev mem num rs vmid name base len irq cfgs ty c = Some (r, c')"
  shows "slots_ok c' \<and> cfg_wf c'"
proof -
  have dist: "distinct (map ce_id (ct_entries (cfg_table c)))" using assms(1) by (simp add: cfg_wf_def)
  show ?thesis
  proof (cases "vm_cfg_entry c vmid")
    case None
    with run assms show ?thesis by (simp add: vm_cfg_add_emu_dev_def)
  next
    case (Some e)
    then have e: "e \<in> set (ct_entries (cfg_table c))" using find_entry_Some[OF dist] by (simp add: vm_cfg_entry_def)
    from run Some consider "c' = c"
      | d where "c' = add_emulated_device_cfg e d c"
      | d where "mediated_blk_request (add_emulated_device_cfg e d c) = (Inl (), c')"
      | d i c1 where "mediated_blk_request (add_emulated_device_cfg e d c) = (Inr i, c1)" "c' = set_mediated_block_index e i c1"
      by (auto simp: vm_cfg_add_emu_dev_def Let_def panic_simps split: if_splits prod.splits sum.splits)
    then show ?thesis
    proof cases
      case (3 d)
      then have "c' = add_emulated_device_cfg e d c"
        by (auto simp: mediated_blk_request_def split: option.splits)
      then show ?thesis using slots_ok_add_device[OF assms(1,2) e] assms cfg_wf_cong[of c' c] by (simp add: add_emulated_device_cfg_def)
    next
      case (4 d i c1)
      have "cfg_wf (add_emulated_device_cfg e d c)"
        using assms cfg_wf_cong[of "add_emulated_device_cfg e d c" c] by (simp add: add_emulated_device_cfg_def)
      from slots_ok_request[OF this slots_ok_add_device[OF assms(1,2) e]] 4 e show ?thesis
        by (simp add: add_emulated_device_cfg_def)
    qed (use assms(1,2) slots_ok_add_device[OF assms(1,2) e] cfg_wf_cong[of c' c] in \<open>auto simp: add_emulated_device_cfg_def\<close>)
  qed
qed

lemma slots_ok_remove:
  assumes "cfg_wf c" and "slots_ok c" and run: "vm_cfg_remove_vm_entry vmid c = Some c'"
  shows "slots_ok c' \<and> cfg_wf c'"
proof -
  have dist: "distinct (map ce_id (ct_entries (cfg_table c)))" using assms(1) by (simp add: cfg_wf_def)
  show ?thesis
  proof (cases "vm_cfg_entry c vmid")
    case None
    then have "entry_position vmid (ct_entries (cfg_table c)) = None"
      by (simp add: vm_cfg_entry_def find_entry_None entry_position_None)
    with run assms show ?thesis by (simp add: vm_cfg_remove_vm_entry_def)
  next
    case (Some e)
    then have e: "e \<in> set (ct_entries (cfg_table c))" using find_entry_Some[OF dist] by (simp add: vm_cfg_entry_def)
    then have "\<forall>k. mediated_block_index c e = Some k \<longrightarrow> k < length (cfg_blks c)" using assms(2) by (auto simp: slots_ok_def)
    from remove_entry_run[OF assms(1) Some this] run
    have c': "cfg_wf c'" "\<forall>j. vm_cfg_entry c' j = (if j = vmid then None else vm_cfg_entry c j)" "cfg_bodies c' = cfg_bodies c"
      "cfg_blks c' = (case mediated_block_index c e of None \<Rightarrow> cfg_blks c
        | Some k \<Rightarrow> (cfg_blks c)[k := (cfg_blks c ! k)\<lparr>mb_avail := True\<rparr>])" by auto
    have sub: "e' \<in> set (ct_entries (cfg_table c)) \<and> e' \<noteq> e" if "e' \<in> set (ct_entries (cfg_table c'))" for e'
    proof -
      have "distinct (map ce_id (ct_entries (cfg_table c')))" using c'(1) by (simp add: cfg_wf_def)
      then have "vm_cfg_entry c' (ce_id e') = Some e'" using that by (simp add: vm_cfg_entry_def find_entry_Some)
      with c'(2) have "vm_cfg_entry c (ce_id e') = Some e'" "ce_id e' \<noteq> vmid" by (auto split: if_splits)
      then show ?thesis using Some find_entry_Some[OF dist] by (auto simp: vm_cfg_entry_def)
    qed
    have "mediated_block_index c' e' = mediated_block_index c e'" for e' by (simp add: mediated_block_index_def c'(3))
    note idx = this
    have "slots_ok c'"
      unfolding slots_ok_def idx
    proof (intro ballI allI impI)
      fix e1 k
      assume e1: "e1 \<in> set (ct_entries (cfg_table c'))" and k: "mediated_block_index c e1 = Some k"
      have in1: "e1 \<in> set (ct_entries (cfg_table c))" "e1 \<noteq> e" using sub[OF e1] by simp_all
      then have old: "k < length (cfg_blks c)" "\<not> mb_avail (cfg_blks c ! k)" "mediated_block_index c e \<noteq> Some k"
        "\<forall>e2 \<in> set (ct_entries (cfg_table c)). mediated_block_index c e2 = Some k \<longrightarrow> e1 = e2"
        using assms(2) k e by (auto simp: slots_ok_def)
      have "length (cfg_blks c') = length (cfg_blks c)" "cfg_blks c' ! k = cfg_blks c ! k"
        using c'(4) old(3) by (auto split: option.splits)
      then show "k < length (cfg_blks c') \<and> \<not> mb_avail (cfg_blks c' ! k) \<and>
          (\<forall>e2 \<in> set (ct_entries (cfg_table c')). mediated_block_index c e2 = Some k \<longrightarrow> e1 = e2)"
        using old sub by auto
    qed
    with c'(1) show ?thesis by simp
  qed
qed

text \<open>
  C11. No two guests share a mediated block device: configuring an emulated device and removing a
  guest keep every assigned slot unavailable and assigned to one guest only.
\<close>

theorem mediated_slots_exclusive:
  assumes "cfg_wf c" and "slots_ok c"
  shows "(\<forall>r c'. vm_cfg_add_emu_dev mem num rs vmid name base len irq cfgs ty c = Some (r, c') \<longrightarrow> slots_ok c' \<and> cfg_wf c') \<and>
    (\<forall>c'. vm_cfg_remove_vm_entry vmid c = Some c' \<longrightarrow> slots_ok c' \<and> cfg_wf c')"
  using slots_ok_add_emu_dev[OF assms] slots_ok_remove[OF assms] by blast

theorem mediated_slots_exclusive_witness:
  "\<exists>c'. vm_cfg_remove_vm_entry 0 cfg_one = Some c' \<and> slots_ok c'"
proof -
  have "slots_ok cfg_one"
    by (simp add: slots_ok_def cfg_one_def mediated_block_index_def VmConfigBody_new_def)
  moreover have "\<exists>c'. vm_cfg_remove_vm_entry 0 cfg_one = Some c'"
    by (simp add: vm_cfg_remove_vm_entry_def cfg_one_def remove_vm_id_def BitAlloc16_clear_def mediated_block_index_def
        VmConfigBody_new_def mediated_blk_free_def)
  ultimately show ?thesis using mediated_slots_exclusive[OF cfg_one_wf] by blast
qed

section \<open>Passthrough interrupts\<close>

text \<open>
  The hypercall that registers passthrough interrupts reads a list of one interrupt as two,
  the interrupt and the number 1, and fails for a list of more than two.
\<close>

theorem passthrough_irqs_misread:
  assumes "vm_ipa2pa num rs ipa = Some pa" and "0x1000 \<le> pa" and "vm_cfg_entry c vmid = Some e"
  shows "vm_cfg_add_passthrough_device_irqs mem num rs vmid ipa 1 c =
      Some (Inr 0, add_passthrough_device_irqs e [read_usize mem pa, 1] c) \<and>
    (\<forall>n > 2. vm_cfg_add_passthrough_device_irqs mem num rs vmid ipa n c = None)"
proof -
  have "pa \<noteq> 0" using assms(2) by auto
  moreover have "copy_irqs mem pa 1 = Some [read_usize mem pa, 1]" using assms(2) by (simp add: copy_irqs_def copy_words_def)
  moreover have "copy_irqs mem pa n = None" if "n > 2" for n
    using that by (auto simp: copy_irqs_def assert_that_def split: bind_splits)
  ultimately show ?thesis using assms by (simp add: vm_cfg_add_passthrough_device_irqs_def)
qed

theorem passthrough_irqs_misread_witness:
  "passthrough_device_irqs (snd (the (vm_cfg_add_passthrough_device_irqs (\<lambda>a. if a = 0x80001000 then 48 else 0) 1
      [\<lparr>pa_start = 0x80000000, pa_length = 0x100000, pa_offset = 0\<rparr>] 0 0x80001000 1 cfg_one))) (entry_example\<lparr>ce_id := 0\<rparr>)
    = [48, 1]"
proof -
  let ?rs = "[\<lparr>pa_start = 0x80000000, pa_length = 0x100000, pa_offset = 0\<rparr>]"
  let ?mem = "\<lambda>a. if a = (0x80001000 :: nat) then 48 else 0 :: u8"
  have "vm_ipa2pa 1 ?rs 0x80001000 = Some 0x80001000"
    by (simp add: vm_ipa2pa_def as_isize_def as_usize_def isub_def in_range_def range_in_range_def)
  moreover have "vm_cfg_entry cfg_one 0 = Some (entry_example\<lparr>ce_id := 0\<rparr>)" by (simp add: vm_cfg_entry_def cfg_one_def)
  ultimately have "vm_cfg_add_passthrough_device_irqs ?mem 1 ?rs 0 0x80001000 1 cfg_one =
      Some (Inr 0, add_passthrough_device_irqs (entry_example\<lparr>ce_id := 0\<rparr>) [read_usize ?mem 0x80001000, 1] cfg_one)"
    using passthrough_irqs_misread[of 1 ?rs "0x80001000" "0x80001000" cfg_one 0 "entry_example\<lparr>ce_id := 0\<rparr>" ?mem] by simp
  moreover have "read_usize ?mem 0x80001000 = 48" by (simp add: read_usize_def upt_rec)
  ultimately show ?thesis
    by (simp add: passthrough_device_irqs_def add_passthrough_device_irqs_def upd_body_def cfg_one_def entry_example_def
        VmConfigBody_new_def)
qed

end
