(* ===== verification/Machine.thy ===== *)
theory Machine
  imports Context Config PageTable
begin

text \<open>
  The state of the hypervisor as one core sees it: its \<open>Cpu\<close>, its hardware, and the objects all
  cores share (virtual CPUs, guests, virtual interrupt controllers, message queues).

  A Rust \<open>Arc\<close> is an index into a store of the machine: \<open>VcpuRef\<close>, \<open>VmRef\<close>, \<open>VgicRef\<close> and
  \<open>IntRef\<close> name the objects behind \<open>Vcpu\<close>, \<open>Vm\<close>, \<open>Arc<Vgic>\<close> and \<open>VgicInt\<close>, so two holders of a
  clone see each other's writes.  Locks are left out: every operation runs alone, and what another
  core does is seen as the messages it queued.  The context a core saves on exception entry lies at
  the address \<open>cpu_ctx\<close> in \<open>m_frames\<close>.
\<close>

type_synonym VcpuRef = nat
type_synonym VmRef = nat
type_synonym VgicRef = nat
type_synonym IntRef = nat

section \<open>Virtual interrupt controller data\<close>

record VgicInt =
  vi_owner :: "VcpuRef option"
  vi_id :: u16
  vi_hw :: bool
  vi_in_lr :: bool
  vi_lr :: u16
  vi_enabled :: bool
  vi_state :: IrqState
  vi_prio :: u8
  vi_targets :: u8
  vi_cfg :: u8
  vi_in_pend :: bool
  vi_in_act :: bool

record Vgicd =
  vd_ctlr :: u32
  vd_typer :: u32
  vd_iidr :: u32
  vd_interrupts :: "IntRef list"

record Sgis =
  sg_pend :: u8
  sg_act :: u8

record VgicCpuPriv =
  cp_curr_lrs :: "u16 list"
  cp_sgis :: "Sgis list"
  cp_interrupts :: "IntRef list"
  cp_pend_list :: "IntRef list"
  cp_act_list :: "IntRef list"

record Vgic =
  vg_vgicd :: Vgicd
  vg_cpu_priv :: "VgicCpuPriv list"

datatype EmuDevs =
    EmuVgic VgicRef
  | EmuVirtioBlk nat
  | EmuVirtioNet nat
  | EmuVirtioConsole nat
  | EmuNone

section \<open>Virtual CPUs, guests and cores\<close>

definition PLATFORM_CPU_NUM_MAX :: usize where "PLATFORM_CPU_NUM_MAX = 8"
definition PLATFORM_VCPU_NUM_MAX :: usize where "PLATFORM_VCPU_NUM_MAX = 8"

datatype VcpuState = VcpuInv | VcpuPend | VcpuAct

record VcpuInner =
  vc_id :: usize
  vc_phys_id :: usize
  vc_state :: VcpuState
  vc_vm :: "VmRef option"
  vc_int_list :: "usize list"
  vc_vcpu_ctx :: Aarch64ContextFrame
  vc_vm_ctx :: VmContext
  vc_gic_ctx :: GicContext

definition VcpuInner_default :: VcpuInner where
  "VcpuInner_default = \<lparr>vc_id = 0, vc_phys_id = 0, vc_state = VcpuInv, vc_vm = None, vc_int_list = [],
     vc_vcpu_ctx = frame_default, vc_vm_ctx = VmContext_default, vc_gic_ctx = GicContext_default\<rparr>"

record VmInner =
  vm_id :: usize
  vm_ready :: bool
  vm_config :: "VmConfigEntry option"
  vm_dtb :: "usize option"
  vm_pt :: "PageTable option"
  vm_mem_region_num :: usize
  vm_pa_region :: "VmPa list"
  vm_entry_point :: usize
  vm_has_master :: bool
  vm_vcpu_list :: "VcpuRef list"
  vm_cpu_num :: usize
  vm_ncpu :: u64
  vm_intc_dev_id :: usize
  vm_int_bitmap :: "BitAlloc4K option"
  vm_share_mem_base :: usize
  vm_migrate_save_pf :: "PageFrame list"
  vm_migrate_restore_pf :: "PageFrame list"
  vm_iommu_ctx_id :: "usize option"
  vm_emu_devs :: "EmuDevs list"
  vm_med_blk_id :: "usize option"
  vm_priority :: usize

datatype VmState = VmInv | VmPending | VmActive

record VmInterface =
  if_master_cpu_id :: usize
  if_state :: VmState
  if_vm_type :: VmType
  if_mac :: "u8 list"
  if_ivc_arg :: usize
  if_ivc_arg_ptr :: usize
  if_mem_map :: "FlexBitmap option"
  if_mem_map_cache :: "PageFrame option"

definition VmInterface_default :: VmInterface where
  "VmInterface_default = \<lparr>if_master_cpu_id = 0, if_state = VmPending, if_vm_type = VmTBma, if_mac = replicate 6 0,
     if_ivc_arg = 0, if_ivc_arg_ptr = 0, if_mem_map = None, if_mem_map_cache = None\<rparr>"

record SchedulerRR =
  rr_queue :: "VcpuRef list"
  rr_active_idx :: usize
  rr_base_slice :: usize

datatype SchedType = SchedRR SchedulerRR | SchedNone

record VcpuArray =
  va_array :: "VcpuRef option list"
  va_len :: usize

datatype CpuState = CpuInv | CpuIdle | CpuRun

record Cpu =
  cpu_id :: usize
  cpu_state :: CpuState
  cpu_active_vcpu :: "VcpuRef option"
  cpu_ctx :: "usize option"
  cpu_sched :: SchedType
  cpu_vcpu_array :: VcpuArray
  cpu_current_irq :: usize

section \<open>Calls that may not return\<close>

text \<open>
  A function that may end in the idle loop, in a guest or in a reset of the board says how it ended; what
  follows a call that does not return is not executed.
\<close>

datatype Control = Returns | Idles | Enters | Resets

definition and_then :: "(Control \<times> 's) option \<Rightarrow> ('s \<Rightarrow> (Control \<times> 's) option) \<Rightarrow> (Control \<times> 's) option" where
  "and_then f g = do { (ctl, s) \<leftarrow> f; if ctl = Returns then g s else Some (ctl, s) }"

definition returning :: "('s \<Rightarrow> 's option) \<Rightarrow> 's \<Rightarrow> (Control \<times> 's) option" where
  "returning f s = do { s \<leftarrow> f s; Some (Returns, s) }"

primrec for_each :: "('a \<Rightarrow> 's \<Rightarrow> (Control \<times> 's) option) \<Rightarrow> 'a list \<Rightarrow> 's \<Rightarrow> (Control \<times> 's) option" where
  "for_each f [] s = Some (Returns, s)"
| "for_each f (x # xs) s = and_then (f x s) (for_each f xs)"

section \<open>Messages between cores\<close>

datatype InitcEvent =
    VgicdGichEn | VgicdSetEn | VgicdSetAct | VgicdSetPend | VgicdSetPrio | VgicdSetTrgt | VgicdSetCfg | VgicdRoute | InitcNone

datatype PowerEvent = PsciIpiCpuOn | PsciIpiCpuOff | PsciIpiCpuReset

datatype VmmEvent = VmmBoot | VmmReboot | VmmShutdown | VmmAssignCpu | VmmRemoveCpu

record IpiInitcMessage =
  im_event :: InitcEvent
  im_vm_id :: usize
  im_int_id :: u16
  im_val :: u8

record IpiPowerMessage =
  pm_src :: usize
  pm_event :: PowerEvent
  pm_entry :: usize
  pm_context :: usize

datatype IpiInnerMsg =
    Initc IpiInitcMessage
  | Power IpiPowerMessage
  | EnternetMsg (em_src_vmid: usize) (em_trgt_vmid: usize)
  | VmmMsg (vmm_vmid: usize) (vmm_event: VmmEvent)
  | MediatedMsg (mm_src_id: usize) (mm_vq: nat) (mm_blk: nat)
  | MediatedNotifyMsg (mn_vm_id: usize)
  | HvcMsg (hm_src_vmid: usize) (hm_trgt_vmid: usize) (hm_fid: usize) (hm_event: usize)
  | IntInjectMsg (ii_vm_id: usize) (ii_int_id: usize)
  | HyperFreshMsg
  | InnerNone

datatype IpiType =
    IpiTIntc | IpiTPower | IpiTEthernetMsg | IpiTHyperFresh | IpiTHvc | IpiTVMM | IpiTMediatedDev | IpiTIntInject

fun ipi_type_num :: "IpiType \<Rightarrow> usize" where
  "ipi_type_num IpiTIntc = 0"
| "ipi_type_num IpiTPower = 1"
| "ipi_type_num IpiTEthernetMsg = 2"
| "ipi_type_num IpiTHyperFresh = 3"
| "ipi_type_num IpiTHvc = 4"
| "ipi_type_num IpiTVMM = 5"
| "ipi_type_num IpiTMediatedDev = 6"
| "ipi_type_num IpiTIntInject = 8"

record IpiMessage =
  ipi_type :: IpiType
  ipi_message :: IpiInnerMsg

text \<open>A function pointer is the name of the function it points to.\<close>

datatype IpiHandlerFunc =
    vgic_ipi_handler_fn | psci_ipi_handler_fn | ethernet_ipi_rev_handler_fn | hyper_fresh_ipi_handler_fn
  | hvc_ipi_handler_fn | vmm_ipi_handler_fn | mediated_ipi_handler_fn | interrupt_inject_ipi_handler_fn

record IpiHandler =
  ih_handler :: IpiHandlerFunc
  ih_ipi_type :: IpiType

datatype InterruptHandler = IpiIrqHandler | GicMaintenanceHandler | TimeIrqHandler | NoHandler

datatype EmuDevHandler = emu_intc_handler_fn | partial_passthrough_intc_handler_fn | emu_virtio_mmio_handler_fn | emu_smmu_handler_fn

record EmuContext =
  ec_address :: usize
  ec_width :: usize
  ec_write :: bool
  ec_sign_ext :: bool
  ec_reg :: usize
  ec_reg_width :: usize

record EmuDevEntry =
  ee_emu_type :: EmuDeviceType
  ee_vm_id :: usize
  ee_id :: usize
  ee_ipa :: usize
  ee_size :: usize
  ee_handler :: EmuDevHandler

section \<open>The machine\<close>

datatype Board = Pi4 | Qemu | Tx2

record Machine =
  m_board :: Board
  m_trace :: bool
  m_cpu :: Cpu
  m_hw :: CpuHw
  m_frames :: "usize \<Rightarrow> Aarch64ContextFrame"
  m_vcpus :: "VcpuRef \<Rightarrow> VcpuInner"
  m_next_vcpu :: nat
  m_vcpu_list :: "VcpuRef list"
  m_vms :: "VmRef \<Rightarrow> VmInner"
  m_next_vm :: nat
  m_vm_list :: "VmRef list"
  m_vm_if_list :: "VmInterface list"
  m_vgics :: "VgicRef \<Rightarrow> Vgic"
  m_next_vgic :: nat
  m_ints :: "IntRef \<Rightarrow> VgicInt"
  m_next_int :: nat
  m_gic_lrs :: usize
  m_config :: Config
  m_cpu_if_list :: "IpiMessage list list"
  m_ipi_handlers :: "IpiHandler list"
  m_int_handlers :: "usize \<rightharpoonup> InterruptHandler"
  m_hyper_bitmap :: BitAlloc4K
  m_glb_bitmap :: BitAlloc4K
  m_emu_devs :: "EmuDevEntry list"
  m_timer_freq :: usize
  m_timer_slice :: usize

abbreviation gich :: "Machine \<Rightarrow> GicHypervisorInterfaceBlock" where "gich m \<equiv> hw_gich (m_hw m)"
abbreviation gicd :: "Machine \<Rightarrow> GicDistributorBlock" where "gicd m \<equiv> hw_gicd (m_hw m)"
abbreviation gicc :: "Machine \<Rightarrow> GicCpuInterfaceBlock" where "gicc m \<equiv> hw_gicc (m_hw m)"
abbreviation this_cpu :: "Machine \<Rightarrow> usize" where "this_cpu m \<equiv> cpu_id (m_cpu m)"
abbreviation active_vcpu :: "Machine \<Rightarrow> VcpuRef option" where "active_vcpu m \<equiv> cpu_active_vcpu (m_cpu m)"

definition upd_vcpu :: "VcpuRef \<Rightarrow> (VcpuInner \<Rightarrow> VcpuInner) \<Rightarrow> Machine \<Rightarrow> Machine" where
  "upd_vcpu v f m = m\<lparr>m_vcpus := (m_vcpus m)(v := f (m_vcpus m v))\<rparr>"

definition upd_vm :: "VmRef \<Rightarrow> (VmInner \<Rightarrow> VmInner) \<Rightarrow> Machine \<Rightarrow> Machine" where
  "upd_vm r f m = m\<lparr>m_vms := (m_vms m)(r := f (m_vms m r))\<rparr>"

definition upd_int :: "IntRef \<Rightarrow> (VgicInt \<Rightarrow> VgicInt) \<Rightarrow> Machine \<Rightarrow> Machine" where
  "upd_int i f m = m\<lparr>m_ints := (m_ints m)(i := f (m_ints m i))\<rparr>"

definition upd_vgic :: "VgicRef \<Rightarrow> (Vgic \<Rightarrow> Vgic) \<Rightarrow> Machine \<Rightarrow> Machine" where
  "upd_vgic g f m = m\<lparr>m_vgics := (m_vgics m)(g := f (m_vgics m g))\<rparr>"

definition upd_cpu :: "(Cpu \<Rightarrow> Cpu) \<Rightarrow> Machine \<Rightarrow> Machine" where
  "upd_cpu f m = m\<lparr>m_cpu := f (m_cpu m)\<rparr>"

definition upd_hw :: "(CpuHw \<Rightarrow> CpuHw) \<Rightarrow> Machine \<Rightarrow> Machine" where
  "upd_hw f m = m\<lparr>m_hw := f (m_hw m)\<rparr>"

definition set_gich :: "GicHypervisorInterfaceBlock \<Rightarrow> Machine \<Rightarrow> Machine" where
  "set_gich h = upd_hw (\<lambda>hw. hw\<lparr>hw_gich := h\<rparr>)"

definition set_gicd :: "GicDistributorBlock \<Rightarrow> Machine \<Rightarrow> Machine" where
  "set_gicd d = upd_hw (\<lambda>hw. hw\<lparr>hw_gicd := d\<rparr>)"

text \<open>A call of a distributor operation that may panic.\<close>

definition on_gicd :: "(GicDistributorBlock \<Rightarrow> GicDistributorBlock option) \<Rightarrow> Machine \<Rightarrow> Machine option" where
  "on_gicd f m = do { d \<leftarrow> f (gicd m); Some (set_gicd d m) }"

definition on_lr :: "usize \<Rightarrow> u32 \<Rightarrow> Machine \<Rightarrow> Machine option" where
  "on_lr i v m = do { h \<leftarrow> gich_set_lr i v (gich m); Some (set_gich h m) }"

definition or_hcr :: "u32 \<Rightarrow> Machine \<Rightarrow> Machine" where
  "or_hcr b m = set_gich (gich m\<lparr>gh_hcr := gh_hcr (gich m) OR b\<rparr>) m"

definition clear_hcr :: "u32 \<Rightarrow> Machine \<Rightarrow> Machine" where
  "clear_hcr b m = set_gich (gich m\<lparr>gh_hcr := gh_hcr (gich m) AND NOT b\<rparr>) m"

definition cpuid_to_cpuif :: "Board \<Rightarrow> usize \<Rightarrow> usize" where
  "cpuid_to_cpuif b cpuid = (case b of Tx2 \<Rightarrow> cpuid + 4 | _ \<Rightarrow> cpuid)"

definition cpuif_to_cpuid :: "Board \<Rightarrow> usize \<Rightarrow> usize option" where
  "cpuif_to_cpuid b cpuif = (case b of Tx2 \<Rightarrow> usub cpuif 4 | _ \<Rightarrow> Some cpuif)"

definition GICD_BASE :: "Board \<Rightarrow> usize" where
  "GICD_BASE b = (case b of Pi4 \<Rightarrow> 0xFF841000 | Qemu \<Rightarrow> 0x08000000 | Tx2 \<Rightarrow> 0x3881000)"

definition plat_cpu_num :: usize where "plat_cpu_num = 4"

definition SHARE_MEM_BASE :: "Board \<Rightarrow> usize" where
  "SHARE_MEM_BASE b = (case b of Tx2 \<Rightarrow> 0xd00000000 | _ \<Rightarrow> 0x700000000)"

definition VmInner_new :: "Board \<Rightarrow> usize \<Rightarrow> VmInner" where
  "VmInner_new b ident = \<lparr>vm_id = ident, vm_ready = False, vm_config = None, vm_dtb = None, vm_pt = None,
     vm_mem_region_num = 0, vm_pa_region = [], vm_entry_point = 0, vm_has_master = False, vm_vcpu_list = [],
     vm_cpu_num = 0, vm_ncpu = 0, vm_intc_dev_id = 0, vm_int_bitmap = Some BitAlloc4K_default,
     vm_share_mem_base = SHARE_MEM_BASE b, vm_migrate_save_pf = [], vm_migrate_restore_pf = [],
     vm_iommu_ctx_id = None, vm_emu_devs = [], vm_med_blk_id = None, vm_priority = 0\<rparr>"

section \<open>Guests of virtual CPUs\<close>

definition vcpu_vm_id :: "Machine \<Rightarrow> VcpuRef \<Rightarrow> usize option" where
  "vcpu_vm_id m v = do { r \<leftarrow> vc_vm (m_vcpus m v); Some (vm_id (m_vms m r)) }"

definition vm_pt_dir :: "Machine \<Rightarrow> VcpuRef \<Rightarrow> usize option" where
  "vm_pt_dir m v = do { r \<leftarrow> vc_vm (m_vcpus m v); pt \<leftarrow> vm_pt (m_vms m r); Some (base_pa pt) }"

definition active_vm :: "Machine \<Rightarrow> VmRef option" where
  "active_vm m = (case active_vcpu m of None \<Rightarrow> None | Some v \<Rightarrow> vc_vm (m_vcpus m v))"

definition active_vm_id :: "Machine \<Rightarrow> usize option" where
  "active_vm_id m = do { r \<leftarrow> active_vm m; Some (vm_id (m_vms m r)) }"

definition active_vcpu_id :: "Machine \<Rightarrow> usize option" where
  "active_vcpu_id m = do { v \<leftarrow> active_vcpu m; Some (vc_id (m_vcpus m v)) }"

definition active_vm_ncpu :: "Machine \<Rightarrow> u64" where
  "active_vm_ncpu m = (case active_vm m of Some r \<Rightarrow> vm_ncpu (m_vms m r) | None \<Rightarrow> 0)"

definition vm_vgic :: "Machine \<Rightarrow> VmRef \<Rightarrow> VgicRef option" where
  "vm_vgic m r = do {
     d \<leftarrow> vec_get (vm_emu_devs (m_vms m r)) (vm_intc_dev_id (m_vms m r));
     case d of EmuVgic g \<Rightarrow> Some g | _ \<Rightarrow> None }"

definition has_vgic :: "Machine \<Rightarrow> VmRef \<Rightarrow> bool" where
  "has_vgic m r =
     (if vm_intc_dev_id (m_vms m r) \<ge> length (vm_emu_devs (m_vms m r)) then False
      else case vm_emu_devs (m_vms m r) ! vm_intc_dev_id (m_vms m r) of EmuVgic _ \<Rightarrow> True | _ \<Rightarrow> False)"

definition has_interrupt :: "Machine \<Rightarrow> VmRef \<Rightarrow> usize \<Rightarrow> bool option" where
  "has_interrupt m r int_id = do {
     b \<leftarrow> vm_int_bitmap (m_vms m r);
     x \<leftarrow> BitAlloc4K_get b int_id;
     Some (x \<noteq> 0) }"

definition emu_has_interrupt :: "Machine \<Rightarrow> VmRef \<Rightarrow> usize \<Rightarrow> bool option" where
  "emu_has_interrupt m r int_id = do {
     e \<leftarrow> vm_config (m_vms m r);
     Some (\<exists>d \<in> set (emulated_device_list (m_config m) e). int_id = ed_irq_id d) }"

section \<open>General purpose registers of the running context\<close>

definition ctx_addr_ok :: "Machine \<Rightarrow> usize \<Rightarrow> unit option" where
  "ctx_addr_ok m a = assert_that (\<not> (m_trace m \<and> a < 0x1000))"

definition set_gpr :: "usize \<Rightarrow> u64 \<Rightarrow> Machine \<Rightarrow> Machine option" where
  "set_gpr idx v m =
     (if idx \<ge> CONTEXT_GPR_NUM then Some m
      else case cpu_ctx (m_cpu m) of
        Some a \<Rightarrow> do {
          ctx_addr_ok m a;
          f \<leftarrow> frame_set_gpr idx v (m_frames m a);
          Some (m\<lparr>m_frames := (m_frames m)(a := f)\<rparr>) }
      | None \<Rightarrow> Some m)"

definition get_gpr :: "Machine \<Rightarrow> usize \<Rightarrow> u64 option" where
  "get_gpr m idx =
     (if idx \<ge> CONTEXT_GPR_NUM then Some 0
      else case cpu_ctx (m_cpu m) of
        Some a \<Rightarrow> do { ctx_addr_ok m a; frame_gpr (m_frames m a) idx }
      | None \<Rightarrow> Some 0)"

definition get_elr :: "Machine \<Rightarrow> u64 option" where
  "get_elr m = (case cpu_ctx (m_cpu m) of
       Some a \<Rightarrow> do { ctx_addr_ok m a; Some (cf_elr (m_frames m a)) }
     | None \<Rightarrow> Some 0)"

definition get_spsr :: "Machine \<Rightarrow> u64 option" where
  "get_spsr m = (case cpu_ctx (m_cpu m) of
       Some a \<Rightarrow> do { ctx_addr_ok m a; Some (cf_spsr (m_frames m a)) }
     | None \<Rightarrow> Some 0)"

definition set_elr :: "u64 \<Rightarrow> Machine \<Rightarrow> Machine option" where
  "set_elr v m = (case cpu_ctx (m_cpu m) of
       Some a \<Rightarrow> do { ctx_addr_ok m a; Some (m\<lparr>m_frames := (m_frames m)(a := set_exception_pc v (m_frames m a))\<rparr>) }
     | None \<Rightarrow> Some m)"

section \<open>A machine after reset\<close>

text \<open>
  A concrete machine to evaluate the model on: one core with four list registers whose status
  registers follow the GICv2 architecture, no guest, and empty tables.
\<close>

definition lr_bits :: "(u32 \<Rightarrow> bool) \<Rightarrow> u32 list \<Rightarrow> usize \<Rightarrow> u32" where
  "lr_bits P lrs k = horner_sum of_bool 2 (map (\<lambda>i. i < length lrs \<and> P (lrs ! i)) [32 * k..<32 * k + 32])"

definition lr_is_empty :: "u32 \<Rightarrow> bool" where
  "lr_is_empty lr \<longleftrightarrow> drop_bit 28 lr AND 3 = 0 \<and> (bit lr 31 \<or> \<not> bit lr 19)"

definition lr_is_eoi :: "u32 \<Rightarrow> bool" where
  "lr_is_eoi lr \<longleftrightarrow> drop_bit 28 lr AND 3 = 0 \<and> \<not> bit lr 31 \<and> bit lr 19"

definition gich_reset :: GicHypervisorInterfaceBlock where
  "gich_reset = \<lparr>gh_hcr = 0, gh_vtr = 3, gh_apr = 0, gh_lr = replicate 64 0, gh_elrsr = lr_bits lr_is_empty,
     gh_eisr = lr_bits lr_is_eoi, gh_misr = (\<lambda>_ _. 0)\<rparr>"

definition hw_reset :: CpuHw where
  "hw_reset = \<lparr>hw_regs = (\<lambda>_. 0), hw_upper = (\<lambda>_. 0), hw_fpsimd = VmCtxFpsimd_default, hw_gicd = gicd_reset,
     hw_gicc = \<lparr>gc_ctlr = 0, gc_pmr = 0, gc_iar = 0, gc_eoir = [], gc_dir = []\<rparr>, hw_gich = gich_reset,
     hw_gicv_ctlr = 0, hw_gicv_pmr = 0\<rparr>"

definition VgicInt_none :: VgicInt where
  "VgicInt_none = \<lparr>vi_owner = None, vi_id = 0, vi_hw = False, vi_in_lr = False, vi_lr = 0, vi_enabled = False,
     vi_state = IrqSInactive, vi_prio = 0, vi_targets = 0, vi_cfg = 0, vi_in_pend = False, vi_in_act = False\<rparr>"

definition Vgic_none :: Vgic where
  "Vgic_none = \<lparr>vg_vgicd = \<lparr>vd_ctlr = 0, vd_typer = 0, vd_iidr = 0, vd_interrupts = []\<rparr>, vg_cpu_priv = []\<rparr>"

definition machine_reset :: Machine where
  "machine_reset = \<lparr>m_board = Qemu, m_trace = False,
     m_cpu = \<lparr>cpu_id = 0, cpu_state = CpuInv, cpu_active_vcpu = None, cpu_ctx = None, cpu_sched = SchedNone,
       cpu_vcpu_array = \<lparr>va_array = replicate VM_NUM_MAX None, va_len = 0\<rparr>, cpu_current_irq = 0\<rparr>,
     m_hw = hw_reset, m_frames = (\<lambda>_. frame_default), m_vcpus = (\<lambda>_. VcpuInner_default), m_next_vcpu = 0,
     m_vcpu_list = [], m_vms = (\<lambda>_. VmInner_new Qemu 0), m_next_vm = 0, m_vm_list = [],
     m_vm_if_list = replicate VM_NUM_MAX VmInterface_default, m_vgics = (\<lambda>_. Vgic_none), m_next_vgic = 0,
     m_ints = (\<lambda>_. VgicInt_none), m_next_int = 0, m_gic_lrs = 4, m_config = cfg_empty,
     m_cpu_if_list = replicate PLATFORM_CPU_NUM_MAX [], m_ipi_handlers = [], m_int_handlers = Map.empty,
     m_hyper_bitmap = BitAlloc4K_default, m_glb_bitmap = BitAlloc4K_default, m_emu_devs = [],
     m_timer_freq = 62500000, m_timer_slice = 62500\<rparr>"

end
