(* ===== verification/Ipi.thy ===== *)
theory Ipi
  imports Machine
begin

text \<open>
  Messages between cores: \<open>src/src/kernel/ipi.rs\<close>, the queues of \<open>src/src/kernel/cpu.rs\<close> and the
  software interrupt that announces a message (\<open>src/src/arch/aarch64/interrupt.rs\<close>).
\<close>

section \<open>Sending messages\<close>

definition INTERRUPT_IRQ_IPI :: usize where "INTERRUPT_IRQ_IPI = 1"

definition interrupt_arch_ipi_send :: "usize \<Rightarrow> usize \<Rightarrow> Machine \<Rightarrow> Machine option" where
  "interrupt_arch_ipi_send cpu ipi_id m =
     (if ipi_id < GIC_SGIS_NUM then on_gicd (send_sgi (cpuid_to_cpuif (m_board m) cpu) ipi_id) m else Some m)"

definition interrupt_cpu_ipi_send :: "usize \<Rightarrow> usize \<Rightarrow> Machine \<Rightarrow> Machine option" where
  "interrupt_cpu_ipi_send target_cpu ipi_id m = interrupt_arch_ipi_send target_cpu ipi_id m"

definition ipi_send :: "usize \<Rightarrow> IpiMessage \<Rightarrow> Machine \<Rightarrow> (bool \<times> Machine) option" where
  "ipi_send target_id msg m =
     (if target_id \<ge> plat_cpu_num then Some (False, m)
      else do {
        q \<leftarrow> vec_get (m_cpu_if_list m) target_id;
        qs \<leftarrow> vec_set (m_cpu_if_list m) target_id (q @ [msg]);
        m \<leftarrow> interrupt_cpu_ipi_send target_id INTERRUPT_IRQ_IPI (m\<lparr>m_cpu_if_list := qs\<rparr>);
        Some (True, m) })"

definition ipi_send_msg :: "usize \<Rightarrow> IpiType \<Rightarrow> IpiInnerMsg \<Rightarrow> Machine \<Rightarrow> (bool \<times> Machine) option" where
  "ipi_send_msg target_id ty inner m = ipi_send target_id \<lparr>ipi_type = ty, ipi_message = inner\<rparr> m"

text \<open>The loop tests \<open>1 << i\<close>, which panics when \<open>i\<close> reaches 64.\<close>

function broadcast_loop :: "usize \<Rightarrow> usize \<Rightarrow> usize \<Rightarrow> u64 \<Rightarrow> IpiType \<Rightarrow> IpiInnerMsg \<Rightarrow> Machine \<Rightarrow> (bool \<times> Machine) option" where
  "broadcast_loop i n lim ncpu ty msg m =
     (if \<not> n < lim then Some (True, m)
      else if i \<ge> 64 then None
      else if bit ncpu i \<and> i \<noteq> this_cpu m then do {
        (ok, m) \<leftarrow> ipi_send_msg i ty msg m;
        if \<not> ok then Some (False, m) else broadcast_loop (i + 1) (n + 1) lim ncpu ty msg m }
      else broadcast_loop (i + 1) n lim ncpu ty msg m)"
  by pat_completeness auto
termination
  by (relation "measure (\<lambda>(i, n, lim, ncpu, ty, msg, m). 64 - i)") auto

declare broadcast_loop.simps [simp del]

definition ipi_intra_broadcast_msg :: "VmRef \<Rightarrow> IpiType \<Rightarrow> IpiInnerMsg \<Rightarrow> Machine \<Rightarrow> (bool \<times> Machine) option" where
  "ipi_intra_broadcast_msg r ty msg m = do {
     lim \<leftarrow> usub (vm_cpu_num (m_vms m r)) 1;
     broadcast_loop 0 0 lim (vm_ncpu (m_vms m r)) ty msg m }"

definition ipi_register :: "IpiType \<Rightarrow> IpiHandlerFunc \<Rightarrow> IpiHandler list \<Rightarrow> (bool \<times> IpiHandler list)" where
  "ipi_register ty h hs =
     (if \<exists>x \<in> set hs. ipi_type_num ty = ipi_type_num (ih_ipi_type x) then (False, hs)
      else
        let new = \<lparr>ih_handler = h, ih_ipi_type = ty\<rparr>;
            hs = hs @ replicate (ipi_type_num ty + 1 - length hs) new
        in (True, hs[ipi_type_num ty := new]))"

section \<open>Receiving messages\<close>

text \<open>\<open>CpuIf::pop\<close> takes the message at the end of the vector.\<close>

definition cpu_if_pop :: "usize \<Rightarrow> Machine \<Rightarrow> (IpiMessage option \<times> Machine) option" where
  "cpu_if_pop c m = do {
     q \<leftarrow> vec_get (m_cpu_if_list m) c;
     if q = [] then Some (None, m)
     else do {
       qs \<leftarrow> vec_set (m_cpu_if_list m) c (butlast q);
       Some (Some (last q), m\<lparr>m_cpu_if_list := qs\<rparr>) } }"

text \<open>
  The handlers are function pointers of the table; \<open>run\<close> is what calling one of them does.  The
  table is indexed before its length is compared, so an unknown type panics.  Handlers act on the whole
  hypervisor, whose machine \<open>get\<close> reads and \<open>put\<close> replaces.
\<close>

partial_function (option) ipi_irq_loop :: "('s \<Rightarrow> Machine) \<Rightarrow> (Machine \<Rightarrow> 's \<Rightarrow> 's) \<Rightarrow>
    (IpiHandlerFunc \<Rightarrow> IpiMessage \<Rightarrow> 's \<Rightarrow> (Control \<times> 's) option) \<Rightarrow> 's \<Rightarrow> (Control \<times> 's) option" where
  "ipi_irq_loop get put run s = do {
     (msg, m) \<leftarrow> cpu_if_pop (this_cpu (get s)) (get s);
     case msg of
       None \<Rightarrow> Some (Returns, put m s)
     | Some x \<Rightarrow> do {
         h \<leftarrow> vec_get (m_ipi_handlers m) (ipi_type_num (ipi_type x));
         (ctl, s) \<leftarrow> run (ih_handler h) x (put m s);
         if ctl = Returns then ipi_irq_loop get put run s else Some (ctl, s) } }"

definition ipi_irq_handler :: "('s \<Rightarrow> Machine) \<Rightarrow> (Machine \<Rightarrow> 's \<Rightarrow> 's) \<Rightarrow>
    (IpiHandlerFunc \<Rightarrow> IpiMessage \<Rightarrow> 's \<Rightarrow> (Control \<times> 's) option) \<Rightarrow> 's \<Rightarrow> (Control \<times> 's) option" where
  "ipi_irq_handler get put run s = ipi_irq_loop get put run s"

section \<open>Every other core of a guest gets a broadcast\<close>

lemma ipi_send_msg_eq:
  assumes "c < plat_cpu_num" "length (m_cpu_if_list m) = PLATFORM_CPU_NUM_MAX"
  shows "\<exists>hw. ipi_send_msg c ty msg m = Some (True,
    m\<lparr>m_cpu_if_list := (m_cpu_if_list m)[c := m_cpu_if_list m ! c @ [\<lparr>ipi_type = ty, ipi_message = msg\<rparr>]], m_hw := hw\<rparr>) \<and>
    (\<exists>d. hw = (m_hw m)\<lparr>hw_gicd := (gicd m)\<lparr>gd_sgir := d\<rparr>\<rparr>)"
proof -
  have "cpuid_to_cpuif (m_board m) c < 48" using assms(1) by (auto simp: cpuid_to_cpuif_def plat_cpu_num_def split: Board.split)
  then show ?thesis using assms
    by (auto simp: ipi_send_msg_def ipi_send_def interrupt_cpu_ipi_send_def interrupt_arch_ipi_send_def on_gicd_def
        send_sgi_def set_gicd_def upd_hw_def plat_cpu_num_def PLATFORM_CPU_NUM_MAX_def INTERRUPT_IRQ_IPI_def gic_consts)
qed

text \<open>The cores from \<open>i\<close> on that are still to be told.\<close>

definition rest_cpus :: "u64 \<Rightarrow> usize \<Rightarrow> usize \<Rightarrow> nat set" where
  "rest_cpus ncpu self i = {j. i \<le> j \<and> j < 64 \<and> bit ncpu j \<and> j \<noteq> self}"

lemma rest_cpus_step:
  assumes "i < 64"
  shows "rest_cpus ncpu self i = (if bit ncpu i \<and> i \<noteq> self then insert i (rest_cpus ncpu self (i + 1)) else rest_cpus ncpu self (i + 1))"
    and "i \<notin> rest_cpus ncpu self (i + 1)" and "finite (rest_cpus ncpu self i)"
proof -
  show "rest_cpus ncpu self i = (if bit ncpu i \<and> i \<noteq> self then insert i (rest_cpus ncpu self (i + 1)) else rest_cpus ncpu self (i + 1))"
    using assms by (auto simp: rest_cpus_def le_eq_less_or_eq Suc_le_eq)
qed (simp_all add: rest_cpus_def)

definition same_but_ipi :: "Machine \<Rightarrow> Machine \<Rightarrow> bool" where
  "same_but_ipi m m' \<longleftrightarrow> (\<exists>d qs. m' = m\<lparr>m_cpu_if_list := qs, m_hw := (m_hw m)\<lparr>hw_gicd := (gicd m)\<lparr>gd_sgir := d\<rparr>\<rparr>\<rparr>)"

lemma same_but_ipi_trans: "same_but_ipi m m' \<Longrightarrow> same_but_ipi m' m'' \<Longrightarrow> same_but_ipi m m''"
  unfolding same_but_ipi_def by (elim exE, intro exI) simp

lemma broadcast_loop_eq:
  assumes "length (m_cpu_if_list m) = PLATFORM_CPU_NUM_MAX" "\<forall>j \<in> rest_cpus ncpu (this_cpu m) i. j < plat_cpu_num"
    and "n + card (rest_cpus ncpu (this_cpu m) i) = lim" "i \<le> 64"
  shows "\<exists>m'. broadcast_loop i n lim ncpu ty msg m = Some (True, m') \<and> same_but_ipi m m' \<and>
    length (m_cpu_if_list m') = PLATFORM_CPU_NUM_MAX \<and>
    (\<forall>c < PLATFORM_CPU_NUM_MAX. m_cpu_if_list m' ! c = m_cpu_if_list m ! c @
      (if c \<in> rest_cpus ncpu (this_cpu m) i then [\<lparr>ipi_type = ty, ipi_message = msg\<rparr>] else []))"
  using assms
proof (induction i n lim ncpu ty msg m rule: broadcast_loop.induct)
  case (1 i n lim ncpu ty msg m)
  note IH = 1(1,2)
  note prems = 1(3-)
  let ?S = "rest_cpus ncpu (this_cpu m)"
  show ?case
  proof (cases "n < lim")
    case False
    then have "card (?S i) = 0" using prems(3) by simp
    then have "?S i = {}" by (simp add: rest_cpus_def)
    then show ?thesis using False prems(1) by (subst broadcast_loop.simps) (auto simp: same_but_ipi_def intro!: exI[of _ "gd_sgir (gicd m)"] exI[of _ "m_cpu_if_list m"])
  next
    case True
    have i: "i < 64"
    proof (rule ccontr)
      assume "\<not> i < 64"
      then have "?S i = {}" by (auto simp: rest_cpus_def)
      with prems(3) True show False by simp
    qed
    show ?thesis
    proof (cases "bit ncpu i \<and> i \<noteq> this_cpu m")
      case send: True
      then have S: "?S i = insert i (?S (i + 1))" using rest_cpus_step(1)[OF i] by simp
      then have ic: "i < plat_cpu_num" using prems(2) by simp
      from ipi_send_msg_eq[OF ic prems(1)] obtain m1 where m1: "ipi_send_msg i ty msg m = Some (True, m1)" "same_but_ipi m m1"
        "m_cpu_if_list m1 = (m_cpu_if_list m)[i := m_cpu_if_list m ! i @ [\<lparr>ipi_type = ty, ipi_message = msg\<rparr>]]" "this_cpu m1 = this_cpu m"
        by (force simp: same_but_ipi_def)
      have "card (?S i) = Suc (card (?S (i + 1)))" using S rest_cpus_step[OF i] by (simp add: rest_cpus_def)
      then have "\<exists>m'. broadcast_loop (i + 1) (n + 1) lim ncpu ty msg m1 = Some (True, m') \<and> same_but_ipi m1 m' \<and>
          length (m_cpu_if_list m') = PLATFORM_CPU_NUM_MAX \<and> (\<forall>c < PLATFORM_CPU_NUM_MAX. m_cpu_if_list m' ! c = m_cpu_if_list m1 ! c @
          (if c \<in> ?S (i + 1) then [\<lparr>ipi_type = ty, ipi_message = msg\<rparr>] else []))"
        using IH(1)[of "(True, m1)" True m1] True i send m1 prems S by simp
      then obtain m' where "broadcast_loop (i + 1) (n + 1) lim ncpu ty msg m1 = Some (True, m')" "same_but_ipi m1 m'"
          "length (m_cpu_if_list m') = PLATFORM_CPU_NUM_MAX" "\<forall>c < PLATFORM_CPU_NUM_MAX. m_cpu_if_list m' ! c = m_cpu_if_list m1 ! c @
          (if c \<in> ?S (i + 1) then [\<lparr>ipi_type = ty, ipi_message = msg\<rparr>] else [])" by blast
      moreover have "m_cpu_if_list m1 ! c = m_cpu_if_list m ! c @ (if c = i then [\<lparr>ipi_type = ty, ipi_message = msg\<rparr>] else [])" for c
        using m1(3) prems(1) ic by (auto simp: PLATFORM_CPU_NUM_MAX_def plat_cpu_num_def)
      ultimately show ?thesis using True i send m1(1) S rest_cpus_step(2)[OF i, of ncpu "this_cpu m"] same_but_ipi_trans[OF m1(2)]
        by (subst broadcast_loop.simps) auto
    next
      case skip: False
      then have "?S i = ?S (i + 1)" using rest_cpus_step(1)[OF i] by auto
      then show ?thesis using IH(2) True i skip prems by (subst broadcast_loop.simps) auto
    qed
  qed
qed

text \<open>
  C14. A broadcast inside a guest returns, and it puts the message into the queue of every other core
  of the guest exactly once and into no other queue, when the sending core is one of the guest's
  cores and the guest counts its cores correctly; apart from the queues and the software
  interrupt register nothing changes.
\<close>

theorem ipi_intra_broadcast_delivers:
  assumes "length (m_cpu_if_list m) = PLATFORM_CPU_NUM_MAX"
    and "\<forall>j < 64. bit (vm_ncpu (m_vms m r)) j \<longrightarrow> j < plat_cpu_num"
    and "bit (vm_ncpu (m_vms m r)) (this_cpu m)" "vm_cpu_num (m_vms m r) = card {j. j < 64 \<and> bit (vm_ncpu (m_vms m r)) j}"
  shows "\<exists>m'. ipi_intra_broadcast_msg r ty msg m = Some (True, m') \<and> same_but_ipi m m' \<and>
    (\<forall>c < PLATFORM_CPU_NUM_MAX. m_cpu_if_list m' ! c = m_cpu_if_list m ! c @
      (if bit (vm_ncpu (m_vms m r)) c \<and> c \<noteq> this_cpu m then [\<lparr>ipi_type = ty, ipi_message = msg\<rparr>] else []))"
proof -
  let ?n = "vm_ncpu (m_vms m r)"
  have "this_cpu m < 64" using assms(3) bit_imp_le_length[of ?n "this_cpu m"] by simp
  then have "{j. j < 64 \<and> bit ?n j} = insert (this_cpu m) (rest_cpus ?n (this_cpu m) 0)" using assms(3) by (auto simp: rest_cpus_def)
  then have card: "vm_cpu_num (m_vms m r) = Suc (card (rest_cpus ?n (this_cpu m) 0))" using assms(4) by (simp add: rest_cpus_def)
  have "\<forall>j \<in> rest_cpus ?n (this_cpu m) 0. j < plat_cpu_num" using assms(2) by (auto simp: rest_cpus_def)
  from broadcast_loop_eq[OF assms(1) this, of 0 "card (rest_cpus ?n (this_cpu m) 0)" ty msg] card show ?thesis
    by (force simp: ipi_intra_broadcast_msg_def rest_cpus_def PLATFORM_CPU_NUM_MAX_def)
qed

definition ipi_example :: Machine where
  "ipi_example = machine_reset\<lparr>m_vms := (\<lambda>_. (VmInner_new Qemu 1)\<lparr>vm_ncpu := 0b1011, vm_cpu_num := 3\<rparr>)\<rparr>"

lemma bits_1011: "{j. j < (64 :: nat) \<and> bit (0b1011 :: u64) j} = {0, 1, 3}"
proof -
  have "bit (0b1011 :: u64) j \<longleftrightarrow> j \<in> {0, 1, 3}" if "j < 64" for j
  proof -
    have e: "(0b1011 :: u64) = set_bit 0 (set_bit 1 (set_bit 3 0))" by (simp add: set_bit_eq_or)
    show ?thesis unfolding e bit_set_bit_iff bit_0_eq bot_apply using that by (auto simp: possible_bit_def)
  qed
  then show ?thesis by auto
qed

theorem ipi_intra_broadcast_delivers_witness:
  "\<exists>m'. ipi_intra_broadcast_msg 0 IpiTIntc InnerNone ipi_example = Some (True, m') \<and>
    m_cpu_if_list m' ! 3 = [\<lparr>ipi_type = IpiTIntc, ipi_message = InnerNone\<rparr>] \<and> m_cpu_if_list m' ! 2 = []"
proof -
  have n: "vm_ncpu (m_vms ipi_example 0) = 0b1011" "vm_cpu_num (m_vms ipi_example 0) = 3" "this_cpu ipi_example = 0"
    and q: "m_cpu_if_list ipi_example = replicate 8 []"
    by (simp_all add: ipi_example_def machine_reset_def PLATFORM_CPU_NUM_MAX_def)
  have b: "bit (0b1011 :: u64) j \<longleftrightarrow> j \<in> {0, 1, 3}" if "j < 64" for j using bits_1011 that by blast
  have "length (m_cpu_if_list ipi_example) = PLATFORM_CPU_NUM_MAX" by (simp add: q PLATFORM_CPU_NUM_MAX_def)
  moreover have "\<forall>j < 64. bit (vm_ncpu (m_vms ipi_example 0)) j \<longrightarrow> j < plat_cpu_num"
    unfolding n using b by (auto simp: plat_cpu_num_def)
  moreover have "bit (vm_ncpu (m_vms ipi_example 0)) (this_cpu ipi_example)" unfolding n using b[of 0] by simp
  moreover have "vm_cpu_num (m_vms ipi_example 0) = card {j. j < 64 \<and> bit (vm_ncpu (m_vms ipi_example 0)) j}"
    unfolding n bits_1011 by simp
  ultimately obtain m' where m': "ipi_intra_broadcast_msg 0 IpiTIntc InnerNone ipi_example = Some (True, m')"
    "\<forall>c < PLATFORM_CPU_NUM_MAX. m_cpu_if_list m' ! c = m_cpu_if_list ipi_example ! c @
      (if bit (0b1011 :: u64) c \<and> c \<noteq> 0 then [\<lparr>ipi_type = IpiTIntc, ipi_message = InnerNone\<rparr>] else [])"
    using ipi_intra_broadcast_delivers[of ipi_example 0 IpiTIntc InnerNone] unfolding n by blast
  have "m_cpu_if_list m' ! 3 = [\<lparr>ipi_type = IpiTIntc, ipi_message = InnerNone\<rparr>]" "m_cpu_if_list m' ! 2 = []"
    using m'(2) b[of 3] b[of 2] by (simp_all add: q PLATFORM_CPU_NUM_MAX_def)
  with m'(1) show ?thesis by blast
qed

section \<open>The table of handlers\<close>

lemma ipi_type_num_inj: "ipi_type_num a = ipi_type_num b \<longleftrightarrow> a = b"
  by (cases a; cases b) simp_all

text \<open>The types of the table are the registered ones, and each has its handler in its own slot.\<close>

definition table_ok :: "(IpiType \<rightharpoonup> IpiHandlerFunc) \<Rightarrow> IpiHandler list \<Rightarrow> bool" where
  "table_ok reg hs \<longleftrightarrow> ih_ipi_type ` set hs = dom reg \<and>
     (\<forall>ty h. reg ty = Some h \<longrightarrow> ipi_type_num ty < length hs \<and> hs ! ipi_type_num ty = \<lparr>ih_handler = h, ih_ipi_type = ty\<rparr>)"

lemma ipi_register_ok:
  assumes "table_ok reg hs"
  shows "ty \<in> dom reg \<Longrightarrow> ipi_register ty h hs = (False, hs)"
    and "ty \<notin> dom reg \<Longrightarrow> \<exists>hs'. ipi_register ty h hs = (True, hs') \<and> table_ok (reg(ty \<mapsto> h)) hs'"
proof -
  have ex: "(\<exists>x \<in> set hs. ipi_type_num ty = ipi_type_num (ih_ipi_type x)) \<longleftrightarrow> ty \<in> dom reg"
    using assms by (force simp: table_ok_def ipi_type_num_inj)
  then show "ty \<in> dom reg \<Longrightarrow> ipi_register ty h hs = (False, hs)" by (simp add: ipi_register_def)
  assume new: "ty \<notin> dom reg"
  let ?n = "ipi_type_num ty" and ?new = "\<lparr>ih_handler = h, ih_ipi_type = ty\<rparr>"
  let ?hs = "hs @ replicate (?n + 1 - length hs) ?new"
  let ?hs' = "?hs[?n := ?new]"
  have len: "?n < length ?hs" by simp
  have run: "ipi_register ty h hs = (True, ?hs')" using new ex by (simp add: ipi_register_def Let_def)
  have slot: "ipi_type_num ty' < length ?hs' \<and> ?hs' ! ipi_type_num ty' = \<lparr>ih_handler = h', ih_ipi_type = ty'\<rparr>"
    if "(reg(ty \<mapsto> h)) ty' = Some h'" for ty' h'
  proof (cases "ty' = ty")
    case True
    then show ?thesis using that len by simp
  next
    case False
    then have "reg ty' = Some h'" using that by simp
    then have "ipi_type_num ty' < length hs" "hs ! ipi_type_num ty' = \<lparr>ih_handler = h', ih_ipi_type = ty'\<rparr>"
      using assms by (simp_all add: table_ok_def)
    then show ?thesis using False ipi_type_num_inj[of ty ty'] by (simp add: nth_append)
  qed
  have "ih_ipi_type ` set ?hs' \<subseteq> dom (reg(ty \<mapsto> h))"
  proof -
    have "set ?hs' \<subseteq> insert ?new (set ?hs)" by (rule set_update_subset_insert)
    also have "\<dots> \<subseteq> insert ?new (set hs)" by auto
    finally show ?thesis using assms by (fastforce simp: table_ok_def)
  qed
  moreover have "dom (reg(ty \<mapsto> h)) \<subseteq> ih_ipi_type ` set ?hs'"
  proof
    fix ty' assume "ty' \<in> dom (reg(ty \<mapsto> h))"
    then obtain h' where "(reg(ty \<mapsto> h)) ty' = Some h'" by (meson domD)
    note slot[OF this]
    then have "\<lparr>ih_handler = h', ih_ipi_type = ty'\<rparr> \<in> set ?hs'" by (metis nth_mem)
    then show "ty' \<in> ih_ipi_type ` set ?hs'" by force
  qed
  ultimately have "table_ok (reg(ty \<mapsto> h)) ?hs'" using slot unfolding table_ok_def by blast
  with run show "\<exists>hs'. ipi_register ty h hs = (True, hs') \<and> table_ok (reg(ty \<mapsto> h)) hs'" by blast
qed

text \<open>The registrations of the start-up code, one after the other.\<close>

primrec register_all :: "(IpiType \<times> IpiHandlerFunc) list \<Rightarrow> IpiHandler list \<Rightarrow> (bool list \<times> IpiHandler list)" where
  "register_all [] hs = ([], hs)"
| "register_all (x # xs) hs =
     (let (ok, hs) = ipi_register (fst x) (snd x) hs; (oks, hs) = register_all xs hs in (ok # oks, hs))"

lemma register_all_ok:
  assumes "table_ok reg hs" "distinct (map fst xs)" "dom reg \<inter> fst ` set xs = {}"
  shows "\<exists>hs'. register_all xs hs = (replicate (length xs) True, hs') \<and> table_ok (reg ++ map_of (rev xs)) hs'"
  using assms
proof (induction xs arbitrary: reg hs)
  case Nil
  then show ?case by simp
next
  case (Cons x xs)
  then obtain hs1 where hs1: "ipi_register (fst x) (snd x) hs = (True, hs1)" "table_ok (reg(fst x \<mapsto> snd x)) hs1"
    using ipi_register_ok(2)[of reg hs "fst x" "snd x"] by auto
  have "dom (reg(fst x \<mapsto> snd x)) \<inter> fst ` set xs = {}" using Cons.prems by auto
  moreover have "distinct (map fst xs)" using Cons.prems by simp
  ultimately obtain hs' where hs': "register_all xs hs1 = (replicate (length xs) True, hs')"
    and tab: "table_ok (reg(fst x \<mapsto> snd x) ++ map_of (rev xs)) hs'" using Cons.IH[OF hs1(2)] by blast
  have "reg(fst x \<mapsto> snd x) ++ map_of (rev xs) = reg ++ map_of (rev (x # xs))"
    by (rule ext) (simp add: map_add_def split: option.split)
  with tab have "table_ok (reg ++ map_of (rev (x # xs))) hs'" by (simp only:)
  moreover have "register_all (x # xs) hs = (replicate (length (x # xs)) True, hs')" using hs1(1) hs' by simp
  ultimately show ?case by blast
qed

text \<open>
  Handlers of different message types can be registered in any order: every registration
  succeeds, afterwards each type finds its own handler at its index of the table, and a second
  registration of a type is refused without a change.
\<close>

theorem ipi_register_lookup:
  assumes "distinct (map fst xs)"
  shows "\<exists>hs. register_all xs [] = (replicate (length xs) True, hs) \<and>
    (\<forall>(ty, h) \<in> set xs. vec_get hs (ipi_type_num ty) = Some \<lparr>ih_handler = h, ih_ipi_type = ty\<rparr> \<and>
      (\<forall>h'. ipi_register ty h' hs = (False, hs)))"
proof -
  have "table_ok Map.empty []" by (simp add: table_ok_def)
  from register_all_ok[OF this assms] obtain hs where hs: "register_all xs [] = (replicate (length xs) True, hs)"
    "table_ok (map_of (rev xs)) hs" by auto
  have "map_of (rev xs) ty = Some h" if "(ty, h) \<in> set xs" for ty h
    using that assms by (simp add: map_of_eq_Some_iff rev_map[symmetric])
  with hs show ?thesis using ipi_register_ok(1)[OF hs(2)] by (fastforce simp: table_ok_def vec_get_def)
qed

theorem ipi_register_lookup_witness:
  "\<exists>hs. register_all [(IpiTIntInject, interrupt_inject_ipi_handler_fn), (IpiTIntc, vgic_ipi_handler_fn)] [] = ([True, True], hs) \<and>
    vec_get hs 0 = Some \<lparr>ih_handler = vgic_ipi_handler_fn, ih_ipi_type = IpiTIntc\<rparr>"
proof -
  have "distinct (map fst [(IpiTIntInject, interrupt_inject_ipi_handler_fn), (IpiTIntc, vgic_ipi_handler_fn)])" by simp
  from ipi_register_lookup[OF this] show ?thesis by (auto simp: numeral_2_eq_2)
qed

section \<open>The queue of a core is drained\<close>

text \<open>A run of handlers over messages.\<close>

definition run_msg :: "(IpiHandlerFunc \<Rightarrow> IpiMessage \<Rightarrow> Machine \<Rightarrow> Machine option) \<Rightarrow> IpiHandler list \<Rightarrow>
    IpiMessage \<Rightarrow> Machine \<Rightarrow> Machine option" where
  "run_msg run hs x m = do { h \<leftarrow> vec_get hs (ipi_type_num (ipi_type x)); run (ih_handler h) x m }"

definition set_queue :: "usize \<Rightarrow> IpiMessage list \<Rightarrow> Machine \<Rightarrow> Machine" where
  "set_queue c q m = m\<lparr>m_cpu_if_list := (m_cpu_if_list m)[c := q]\<rparr>"

lemma ipi_irq_loop_drains:
  assumes "length (m_cpu_if_list m) = PLATFORM_CPU_NUM_MAX" "this_cpu m < PLATFORM_CPU_NUM_MAX"
    and quiet: "\<And>h x m m'. run h x m = Some m' \<Longrightarrow> m_cpu_if_list m' = m_cpu_if_list m \<and> this_cpu m' = this_cpu m \<and>
        m_ipi_handlers m' = m_ipi_handlers m"
    and q: "m_cpu_if_list m ! this_cpu m = q"
    and ok: "fold_opt (\<lambda>x m. do { m \<leftarrow> run_msg run (m_ipi_handlers m) x
         (set_queue (this_cpu m) (butlast (m_cpu_if_list m ! this_cpu m)) m); Some m }) (rev q) m = Some m'"
  shows "ipi_irq_loop id (\<lambda>m _. m) (\<lambda>h x. returning (run h x)) m = Some (Returns, m') \<and> m_cpu_if_list m' = (m_cpu_if_list m)[this_cpu m := []]"
  using assms(1,2) q ok
proof (induction q arbitrary: m rule: rev_induct)
  case Nil
  moreover from Nil have "m_cpu_if_list m = (m_cpu_if_list m)[this_cpu m := []]" by (metis list_update_id)
  ultimately show ?case by (subst ipi_irq_loop.simps) (simp add: cpu_if_pop_def)
next
  case (snoc x q)
  let ?m1 = "set_queue (this_cpu m) q m"
  from snoc.prems obtain m2 where m2: "run_msg run (m_ipi_handlers m) x ?m1 = Some m2"
    and rest: "fold_opt (\<lambda>x m. do { m \<leftarrow> run_msg run (m_ipi_handlers m) x
         (set_queue (this_cpu m) (butlast (m_cpu_if_list m ! this_cpu m)) m); Some m }) (rev q) m2 = Some m'"
    by (auto simp: panic_simps)
  from m2 quiet have keep: "m_cpu_if_list m2 = (m_cpu_if_list m)[this_cpu m := q]" "this_cpu m2 = this_cpu m"
    "m_ipi_handlers m2 = m_ipi_handlers m"
    by (fastforce simp: run_msg_def set_queue_def panic_simps)+
  have "ipi_irq_loop id (\<lambda>m _. m) (\<lambda>h x. returning (run h x)) m2 = Some (Returns, m') \<and> m_cpu_if_list m' = (m_cpu_if_list m2)[this_cpu m2 := []]"
    by (rule snoc.IH) (use snoc.prems keep rest in simp_all)
  then show ?case using snoc.prems m2 keep
    by (subst ipi_irq_loop.simps) (auto simp: cpu_if_pop_def run_msg_def set_queue_def returning_def panic_simps)
qed

end
