(* ===== verification/Vm.thy ===== *)
theory Vm
  imports Machine
begin

text \<open>
  \<open>src/src/kernel/vm.rs\<close>: the table of guest interfaces, the list of guests, the assignment of
  virtual CPUs to cores and the translation between guest and physical CPU numbers.
\<close>

section \<open>Guest interfaces\<close>

definition upd_vm_if :: "usize \<Rightarrow> (VmInterface \<Rightarrow> VmInterface) \<Rightarrow> Machine \<Rightarrow> Machine option" where
  "upd_vm_if vmid f m = do {
     x \<leftarrow> vec_get (m_vm_if_list m) vmid;
     xs \<leftarrow> vec_set (m_vm_if_list m) vmid (f x);
     Some (m\<lparr>m_vm_if_list := xs\<rparr>) }"

definition VmInterface_reset :: "VmInterface \<Rightarrow> VmInterface" where
  "VmInterface_reset x = x\<lparr>if_master_cpu_id := 0, if_state := VmPending, if_vm_type := VmTBma, if_mac := replicate 6 0,
     if_ivc_arg := 0, if_ivc_arg_ptr := 0, if_mem_map := None, if_mem_map_cache := None\<rparr>"

definition vm_if_reset :: "usize \<Rightarrow> Machine \<Rightarrow> Machine option" where
  "vm_if_reset vmid = upd_vm_if vmid VmInterface_reset"

definition vm_if_set_state :: "usize \<Rightarrow> VmState \<Rightarrow> Machine \<Rightarrow> Machine option" where
  "vm_if_set_state vmid st = upd_vm_if vmid (\<lambda>x. x\<lparr>if_state := st\<rparr>)"

definition vm_if_get_state :: "Machine \<Rightarrow> usize \<Rightarrow> VmState option" where
  "vm_if_get_state m vmid = do { x \<leftarrow> vec_get (m_vm_if_list m) vmid; Some (if_state x) }"

definition vm_if_set_type :: "usize \<Rightarrow> VmType \<Rightarrow> Machine \<Rightarrow> Machine option" where
  "vm_if_set_type vmid ty = upd_vm_if vmid (\<lambda>x. x\<lparr>if_vm_type := ty\<rparr>)"

definition vm_if_get_type :: "Machine \<Rightarrow> usize \<Rightarrow> VmType option" where
  "vm_if_get_type m vmid = do { x \<leftarrow> vec_get (m_vm_if_list m) vmid; Some (if_vm_type x) }"

definition vm_if_set_cpu_id :: "usize \<Rightarrow> usize \<Rightarrow> Machine \<Rightarrow> Machine option" where
  "vm_if_set_cpu_id vmid c = upd_vm_if vmid (\<lambda>x. x\<lparr>if_master_cpu_id := c\<rparr>)"

definition vm_if_get_cpu_id :: "Machine \<Rightarrow> usize \<Rightarrow> usize option" where
  "vm_if_get_cpu_id m vmid = do { x \<leftarrow> vec_get (m_vm_if_list m) vmid; Some (if_master_cpu_id x) }"

definition vm_if_cmp_mac :: "Machine \<Rightarrow> usize \<Rightarrow> u8 list \<Rightarrow> bool option" where
  "vm_if_cmp_mac m vmid frame = do {
     x \<leftarrow> vec_get (m_vm_if_list m) vmid;
     r \<leftarrow> find_loop (\<lambda>i. do { a \<leftarrow> vec_get (if_mac x) i; b \<leftarrow> vec_get frame i; Some (if a \<noteq> b then Some False else None) }) [0..<6];
     Some (case r of Some b \<Rightarrow> b | None \<Rightarrow> True) }"

definition vm_if_set_ivc_arg :: "usize \<Rightarrow> usize \<Rightarrow> Machine \<Rightarrow> Machine option" where
  "vm_if_set_ivc_arg vmid a = upd_vm_if vmid (\<lambda>x. x\<lparr>if_ivc_arg := a\<rparr>)"

definition vm_if_ivc_arg :: "Machine \<Rightarrow> usize \<Rightarrow> usize option" where
  "vm_if_ivc_arg m vmid = do { x \<leftarrow> vec_get (m_vm_if_list m) vmid; Some (if_ivc_arg x) }"

definition vm_if_set_ivc_arg_ptr :: "usize \<Rightarrow> usize \<Rightarrow> Machine \<Rightarrow> Machine option" where
  "vm_if_set_ivc_arg_ptr vmid a = upd_vm_if vmid (\<lambda>x. x\<lparr>if_ivc_arg_ptr := a\<rparr>)"

definition vm_if_ivc_arg_ptr :: "Machine \<Rightarrow> usize \<Rightarrow> usize option" where
  "vm_if_ivc_arg_ptr m vmid = do { x \<leftarrow> vec_get (m_vm_if_list m) vmid; Some (if_ivc_arg_ptr x) }"

subsection \<open>The dirty map of a migrating guest\<close>

definition vm_if_init_mem_map :: "usize \<Rightarrow> usize \<Rightarrow> Machine \<Rightarrow> Machine option" where
  "vm_if_init_mem_map vmid len m = do { b \<leftarrow> FlexBitmap_new len; upd_vm_if vmid (\<lambda>x. x\<lparr>if_mem_map := Some b\<rparr>) m }"

definition vm_if_set_mem_map_cache :: "usize \<Rightarrow> PageFrame \<Rightarrow> Machine \<Rightarrow> Machine option" where
  "vm_if_set_mem_map_cache vmid pf = upd_vm_if vmid (\<lambda>x. x\<lparr>if_mem_map_cache := Some pf\<rparr>)"

definition vm_if_mem_map_cache :: "Machine \<Rightarrow> usize \<Rightarrow> PageFrame option option" where
  "vm_if_mem_map_cache m vmid = do { x \<leftarrow> vec_get (m_vm_if_list m) vmid; Some (if_mem_map_cache x) }"

text \<open>A call on the map; it is an error when the map was not created.\<close>

definition on_mem_map :: "(FlexBitmap \<Rightarrow> FlexBitmap option) \<Rightarrow> usize \<Rightarrow> Machine \<Rightarrow> Machine option" where
  "on_mem_map f vmid m = do {
     x \<leftarrow> vec_get (m_vm_if_list m) vmid;
     b \<leftarrow> if_mem_map x;
     b' \<leftarrow> f b;
     upd_vm_if vmid (\<lambda>x. x\<lparr>if_mem_map := Some b'\<rparr>) m }"

definition vm_if_dirty_mem_map :: "usize \<Rightarrow> Machine \<Rightarrow> Machine option" where
  "vm_if_dirty_mem_map = on_mem_map (\<lambda>b. Some (FlexBitmap_init_dirty b))"

text \<open>
  The number of the page in the concatenation of the guest's regions.  The loop runs up to \<open>region_num()\<close>, the
  length of the list of regions.
\<close>

fun page_bit :: "VmPa list \<Rightarrow> usize \<Rightarrow> usize \<Rightarrow> usize option" where
  "page_bit [] pa b = None"
| "page_bit (reg # regs) pa b =
     (if pa \<ge> pa_start reg \<and> pa < pa_start reg + pa_length reg then Some (b + (pa - pa_start reg) div PAGE_SIZE)
      else page_bit regs pa (b + pa_length reg div PAGE_SIZE))"

definition vm_if_set_mem_map_bit :: "VmRef \<Rightarrow> usize \<Rightarrow> Machine \<Rightarrow> Machine option" where
  "vm_if_set_mem_map_bit r pa m = do {
     b \<leftarrow> page_bit (vm_pa_region (m_vms m r)) pa 0;
     on_mem_map (\<lambda>map. FlexBitmap_set map b True) (vm_id (m_vms m r)) m }"

definition vm_if_set_mem_map :: "usize \<Rightarrow> usize \<Rightarrow> usize \<Rightarrow> Machine \<Rightarrow> Machine option" where
  "vm_if_set_mem_map vmid b len = on_mem_map (\<lambda>map. FlexBitmap_set_bits map b len True) vmid"

definition vm_if_clear_mem_map :: "usize \<Rightarrow> Machine \<Rightarrow> Machine option" where
  "vm_if_clear_mem_map = on_mem_map (\<lambda>b. Some (FlexBitmap_clear b))"

definition vm_if_mem_map_page_num :: "Machine \<Rightarrow> usize \<Rightarrow> usize option" where
  "vm_if_mem_map_page_num m vmid = do {
     x \<leftarrow> vec_get (m_vm_if_list m) vmid; b \<leftarrow> if_mem_map x; Some (8 * FlexBitmap_vec_len b div PAGE_SIZE) }"

definition vm_if_mem_map_dirty_sum :: "Machine \<Rightarrow> usize \<Rightarrow> usize option" where
  "vm_if_mem_map_dirty_sum m vmid = do {
     x \<leftarrow> vec_get (m_vm_if_list m) vmid; b \<leftarrow> if_mem_map x; Some (FlexBitmap_sum b) }"

section \<open>Guests\<close>

definition vm_lookup :: "Machine \<Rightarrow> usize \<Rightarrow> VmRef option" where
  "vm_lookup m ident = find (\<lambda>r. vm_id (m_vms m r) = ident) (m_vm_list m)"

definition push_vm :: "usize \<Rightarrow> Machine \<Rightarrow> (unit + unit) \<times> Machine" where
  "push_vm ident m =
     (if \<exists>r \<in> set (m_vm_list m). vm_id (m_vms m r) = ident then (Inl (), m)
      else (Inr (), m\<lparr>m_vms := (m_vms m)(m_next_vm m := VmInner_new (m_board m) ident),
                     m_next_vm := m_next_vm m + 1, m_vm_list := m_vm_list m @ [m_next_vm m]\<rparr>))"

primrec position :: "('a \<Rightarrow> bool) \<Rightarrow> 'a list \<Rightarrow> nat option" where
  "position P [] = None"
| "position P (x # xs) = (if P x then Some 0 else map_option Suc (position P xs))"

definition remove_vm :: "usize \<Rightarrow> Machine \<Rightarrow> (VmRef \<times> Machine) option" where
  "remove_vm ident m = do {
     idx \<leftarrow> position (\<lambda>r. vm_id (m_vms m r) = ident) (m_vm_list m);
     Some (m_vm_list m ! idx, m\<lparr>m_vm_list := remove_nth idx (m_vm_list m)\<rparr>) }"

definition vm_list_size :: "Machine \<Rightarrow> usize" where
  "vm_list_size m = length (m_vm_list m)"

definition init_intc_mode :: "VmRef \<Rightarrow> bool \<Rightarrow> Machine \<Rightarrow> Machine" where
  "init_intc_mode r emu m = fold (\<lambda>v m.
     if \<not> emu then
       upd_vcpu v (\<lambda>x. x\<lparr>vc_vm_ctx := (vc_vm_ctx x)\<lparr>hcr_el2 := 0x80080001\<rparr>\<rparr>)
         (upd_vcpu v (\<lambda>x. x\<lparr>vc_vm_ctx := (vc_vm_ctx x)\<lparr>gic_state := (gic_state (vc_vm_ctx x))\<lparr>gs_ctlr := GICC_CTLR_EN_BIT\<rparr>\<rparr>\<rparr>) m)
     else
       upd_vcpu v (\<lambda>x. x\<lparr>vc_vm_ctx := (vc_vm_ctx x)\<lparr>hcr_el2 := 0x80080019\<rparr>\<rparr>)
         (upd_vcpu v (\<lambda>x. x\<lparr>vc_vm_ctx := (vc_vm_ctx x)\<lparr>gic_state :=
            (gic_state (vc_vm_ctx x))\<lparr>gs_ctlr := GICC_CTLR_EN_BIT OR GICC_CTLR_EOIMODENS_BIT\<rparr>\<rparr>\<rparr>) m))
     (vm_vcpu_list (m_vms m r)) m"

definition iommu_ctx_id :: "Machine \<Rightarrow> VmRef \<Rightarrow> usize option" where
  "iommu_ctx_id m r = vm_iommu_ctx_id (m_vms m r)"

definition med_blk_id :: "Machine \<Rightarrow> VmRef \<Rightarrow> usize option" where
  "med_blk_id m r = do { e \<leftarrow> vm_config (m_vms m r); mediated_block_index (m_config m) e }"

text \<open>\<open>Vm::vcpu\<close>: the inner \<open>option\<close> is the result, the assertion on the identifier may panic.\<close>

definition vm_vcpu :: "Machine \<Rightarrow> VmRef \<Rightarrow> usize \<Rightarrow> VcpuRef option option" where
  "vm_vcpu m r index =
     (if index < length (vm_vcpu_list (m_vms m r)) then do {
        let v = vm_vcpu_list (m_vms m r) ! index;
        assert_that (index = vc_id (m_vcpus m v));
        Some (Some v) }
      else Some None)"

definition push_vcpu :: "VmRef \<Rightarrow> VcpuRef \<Rightarrow> Machine \<Rightarrow> Machine" where
  "push_vcpu r v m = upd_vm r (\<lambda>x.
     let k = vc_id (m_vcpus m v) in
     if k \<ge> length (vm_vcpu_list x) then x\<lparr>vm_vcpu_list := vm_vcpu_list x @ [v]\<rparr>
     else x\<lparr>vm_vcpu_list := take k (vm_vcpu_list x) @ v # drop k (vm_vcpu_list x)\<rparr>) m"

definition clear_list :: "VmRef \<Rightarrow> Machine \<Rightarrow> Machine" where
  "clear_list r = upd_vm r (\<lambda>x. x\<lparr>vm_emu_devs := [], vm_vcpu_list := []\<rparr>)"

definition trgt_vcpu_id :: "usize \<Rightarrow> usize \<Rightarrow> bool \<Rightarrow> bool \<Rightarrow> usize" where
  "trgt_vcpu_id cpus cpu_num has_master is_master =
     (if is_master \<or> \<not> has_master \<and> cpu_num = cpus - 1 then 0
      else if has_master then cpus - cpu_num
      else cpus - cpu_num - 1)"

definition select_vcpu2assign :: "VmRef \<Rightarrow> usize \<Rightarrow> Machine \<Rightarrow> (VcpuRef option \<times> Machine) option" where
  "select_vcpu2assign r cid m = do {
     e \<leftarrow> vm_config (m_vms m r);
     let cfg_master = cpu_master (m_config m) e;
     let cpus = cfg_cpu_num (m_config m) e;
     let bitmap = cpu_allocated_bitmap (m_config m) e;
     let x = m_vms m r;
     assert_that (cid < 32);
     if bit bitmap cid \<and> vm_cpu_num x < cpus then do {
       let trgt_id = trgt_vcpu_id cpus (vm_cpu_num x) (vm_has_master x) (cid = cfg_master);
       if trgt_id < length (vm_vcpu_list x) then do {
         let v = vm_vcpu_list x ! trgt_id;
         m \<leftarrow> (if vc_id (m_vcpus m v) = 0 then do {
                  m \<leftarrow> vm_if_set_cpu_id (vm_id x) cid m;
                  Some (upd_vm r (\<lambda>x. x\<lparr>vm_has_master := True\<rparr>) m) }
                else Some m);
         Some (Some v, upd_vm r (\<lambda>x. x\<lparr>vm_cpu_num := vm_cpu_num x + 1, vm_ncpu := vm_ncpu x OR push_bit cid 1\<rparr>) m) }
       else Some (None, m) }
     else Some (None, m) }"

definition set_emu_devs :: "VmRef \<Rightarrow> usize \<Rightarrow> EmuDevs \<Rightarrow> Machine \<Rightarrow> Machine option" where
  "set_emu_devs r idx emu m =
     (let ds = vm_emu_devs (m_vms m r) in
      if idx < length ds then
        (if ds ! idx = EmuNone then Some (upd_vm r (\<lambda>x. x\<lparr>vm_emu_devs := ds[idx := emu]\<rparr>) m) else None)
      else Some (upd_vm r (\<lambda>x. x\<lparr>vm_emu_devs := (ds @ replicate (idx - length ds) EmuNone) @ [emu]\<rparr>) m))"

definition set_int_bit_map :: "VmRef \<Rightarrow> usize \<Rightarrow> Machine \<Rightarrow> Machine option" where
  "set_int_bit_map r ident m = do {
     b \<leftarrow> vm_int_bitmap (m_vms m r);
     b' \<leftarrow> BitAlloc4K_set b ident;
     Some (upd_vm r (\<lambda>x. x\<lparr>vm_int_bitmap := Some b'\<rparr>) m) }"

definition emu_dev :: "Machine \<Rightarrow> VmRef \<Rightarrow> usize \<Rightarrow> EmuDevs option" where
  "emu_dev m r dev_id = vec_get (vm_emu_devs (m_vms m r)) dev_id"

fun nth_net :: "EmuDevs list \<Rightarrow> usize \<Rightarrow> usize \<Rightarrow> EmuDevs" where
  "nth_net [] ident dev_num = EmuNone"
| "nth_net (d # ds) ident dev_num =
     (case d of EmuVirtioNet _ \<Rightarrow> if dev_num = ident then d else nth_net ds ident (dev_num + 1)
      | _ \<Rightarrow> nth_net ds ident dev_num)"

definition emu_net_dev :: "Machine \<Rightarrow> VmRef \<Rightarrow> usize \<Rightarrow> EmuDevs" where
  "emu_net_dev m r ident = nth_net (vm_emu_devs (m_vms m r)) ident 0"

definition is_blk :: "EmuDevs \<Rightarrow> bool" where
  "is_blk d \<longleftrightarrow> (case d of EmuVirtioBlk _ \<Rightarrow> True | _ \<Rightarrow> False)"

definition emu_blk_dev :: "Machine \<Rightarrow> VmRef \<Rightarrow> EmuDevs" where
  "emu_blk_dev m r = (case find is_blk (vm_emu_devs (m_vms m r)) of Some d \<Rightarrow> d | None \<Rightarrow> EmuNone)"

definition emu_console_dev :: "Machine \<Rightarrow> VmRef \<Rightarrow> usize \<Rightarrow> EmuDevs option" where
  "emu_console_dev m r ipa = do {
     e \<leftarrow> vm_config (m_vms m r);
     case position (\<lambda>d. ed_base_ipa d = ipa) (emulated_device_list (m_config m) e) of
       Some idx \<Rightarrow> vec_get (vm_emu_devs (m_vms m r)) idx
     | None \<Rightarrow> Some EmuNone }"

section \<open>CPU numbers\<close>

definition vcpuid_to_pcpuid :: "Machine \<Rightarrow> VmRef \<Rightarrow> usize \<Rightarrow> (unit + usize) option" where
  "vcpuid_to_pcpuid m r vcpuid =
     (if vcpuid < vm_cpu_num (m_vms m r) then do {
        v \<leftarrow> vec_get (vm_vcpu_list (m_vms m r)) vcpuid;
        Some (Inr (vc_phys_id (m_vcpus m v))) }
      else Some (Inl ()))"

definition pcpuid_to_vcpuid :: "Machine \<Rightarrow> VmRef \<Rightarrow> usize \<Rightarrow> (unit + usize) option" where
  "pcpuid_to_vcpuid m r pcpuid = do {
     x \<leftarrow> find_loop (\<lambda>vcpuid. do {
         v \<leftarrow> vec_get (vm_vcpu_list (m_vms m r)) vcpuid;
         Some (if vc_phys_id (m_vcpus m v) = pcpuid then Some vcpuid else None) }) [0..<vm_cpu_num (m_vms m r)];
     Some (case x of Some vcpuid \<Rightarrow> Inr vcpuid | None \<Rightarrow> Inl ()) }"

text \<open>The loop both masks share; a shift by 64 or more panics.\<close>

definition translate_mask :: "(usize \<Rightarrow> (unit + usize) option) \<Rightarrow> u64 \<Rightarrow> usize \<Rightarrow> u64 option" where
  "translate_mask tr msk len = for_range 0 len (\<lambda>i pmask. do {
     shift \<leftarrow> tr i;
     assert_that (i < 64);
     case shift of
       Inr s \<Rightarrow> if bit msk i then do { assert_that (s < 64); Some (pmask OR push_bit s 1) } else Some pmask
     | Inl _ \<Rightarrow> Some pmask }) 0"

definition vcpu_to_pcpu_mask :: "Machine \<Rightarrow> VmRef \<Rightarrow> u64 \<Rightarrow> usize \<Rightarrow> u64 option" where
  "vcpu_to_pcpu_mask m r msk len = translate_mask (vcpuid_to_pcpuid m r) msk len"

definition pcpu_to_vcpu_mask :: "Machine \<Rightarrow> VmRef \<Rightarrow> u64 \<Rightarrow> usize \<Rightarrow> u64 option" where
  "pcpu_to_vcpu_mask m r msk len = translate_mask (pcpuid_to_vcpuid m r) msk len"

subsection \<open>The masks are inverse to each other\<close>

text \<open>What a guest looks like once its virtual CPUs are placed: one core each, below the width of a mask.\<close>

definition cpus_placed :: "Machine \<Rightarrow> VmRef \<Rightarrow> bool" where
  "cpus_placed m r \<longleftrightarrow>
     vm_cpu_num (m_vms m r) \<le> 8 \<and> vm_cpu_num (m_vms m r) \<le> length (vm_vcpu_list (m_vms m r)) \<and>
     (\<forall>k < vm_cpu_num (m_vms m r). vc_phys_id (m_vcpus m (vm_vcpu_list (m_vms m r) ! k)) < 8) \<and>
     inj_on (\<lambda>k. vc_phys_id (m_vcpus m (vm_vcpu_list (m_vms m r) ! k))) {..<vm_cpu_num (m_vms m r)}"

abbreviation phys_of :: "Machine \<Rightarrow> VmRef \<Rightarrow> nat \<Rightarrow> nat" where
  "phys_of m r k \<equiv> vc_phys_id (m_vcpus m (vm_vcpu_list (m_vms m r) ! k))"

lemma find_loop_range:
  assumes "\<And>k. k < n \<Longrightarrow> f k = Some (if P k then Some (g k) else None)"
  shows "find_loop f [0..<n] = Some (map_option g (find P [0..<n]))"
proof -
  have "find_loop f [a..<n] = Some (map_option g (find P [a..<n]))" if "a \<le> n" for a
    using that assms by (induction rule: inc_induct) (simp_all add: upt_conv_Cons)
  then show ?thesis by simp
qed

lemma find_range_unique:
  assumes "k < n" "P k" "\<And>j. j < n \<Longrightarrow> P j \<Longrightarrow> j = k"
  shows "find P [0..<n] = Some k"
  unfolding find_Some_iff
proof (intro exI[of _ k] conjI allI impI)
  fix j assume "j < k"
  then show "\<not> P ([0..<n] ! j)" using assms(1) assms(3)[of j] by auto
qed (use assms(1,2) in simp_all)

lemma vcpuid_to_pcpuid_eq:
  "cpus_placed m r \<Longrightarrow>
     vcpuid_to_pcpuid m r k = Some (if k < vm_cpu_num (m_vms m r) then Inr (phys_of m r k) else Inl ())"
  by (simp add: cpus_placed_def vcpuid_to_pcpuid_def)

lemma pcpuid_to_vcpuid_eq:
  assumes "cpus_placed m r"
  shows "pcpuid_to_vcpuid m r p =
    Some (case find (\<lambda>k. phys_of m r k = p) [0..<vm_cpu_num (m_vms m r)] of Some k \<Rightarrow> Inr k | None \<Rightarrow> Inl ())"
  using assms
  by (simp add: pcpuid_to_vcpuid_def cpus_placed_def find_loop_range[where P = "\<lambda>k. phys_of m r k = p" and g = "\<lambda>k. k"]
      option.map_ident split: option.split)

lemma pcpuid_of_phys:
  assumes "cpus_placed m r" "k < vm_cpu_num (m_vms m r)"
  shows "pcpuid_to_vcpuid m r (phys_of m r k) = Some (Inr k)"
proof -
  have "find (\<lambda>j. phys_of m r j = phys_of m r k) [0..<vm_cpu_num (m_vms m r)] = Some k"
    using assms by (intro find_range_unique) (auto simp: cpus_placed_def inj_on_def)
  with assms show ?thesis by (simp add: pcpuid_to_vcpuid_eq)
qed

text \<open>A mask is translated bit by bit.\<close>

lemma translate_mask_eq:
  assumes "\<And>i. i < len \<Longrightarrow> \<exists>x. tr i = Some x" and "\<And>i s. i < len \<Longrightarrow> tr i = Some (Inr s) \<Longrightarrow> s < 64" and "len \<le> 64"
  shows "\<exists>p. translate_mask tr msk len = Some p \<and>
    (\<forall>s < 64. bit p s \<longleftrightarrow> (\<exists>i < len. bit msk i \<and> tr i = Some (Inr s)))"
  unfolding translate_mask_def
proof (rule for_range_total[where I = "\<lambda>k p. \<forall>s < 64. bit p s \<longleftrightarrow> (\<exists>i < k. bit msk i \<and> tr i = Some (Inr s))"])
  fix i :: nat and p :: u64
  assume i: "i < len" and p: "\<forall>s < 64. bit p s \<longleftrightarrow> (\<exists>i' < i. bit msk i' \<and> tr i' = Some (Inr s))"
  obtain x where x: "tr i = Some x" using assms(1)[OF i] by blast
  have i64: "i < 64" using i assms(3) by simp
  show "\<exists>p'. (do {
     shift \<leftarrow> tr i;
     assert_that (i < 64);
     case shift of
       Inr s \<Rightarrow> if bit msk i then do { assert_that (s < 64); Some (p OR push_bit s 1) } else Some p
     | Inl _ \<Rightarrow> Some p }) = Some p' \<and> (\<forall>s < 64. bit p' s \<longleftrightarrow> (\<exists>i' < Suc i. bit msk i' \<and> tr i' = Some (Inr s)))"
  proof (cases x)
    case (Inl u)
    then show ?thesis using x i64 p by (auto simp: less_Suc_eq)
  next
    case (Inr s)
    then have s: "s < 64" using assms(2)[OF i] x by blast
    show ?thesis
    proof (cases "bit msk i")
      case True
      then show ?thesis using x i64 p s Inr
        by (auto simp: less_Suc_eq bit_or_iff bit_exp_iff possible_bit_def)
    qed (use x i64 p Inr in \<open>auto simp: less_Suc_eq\<close>)
  qed
qed simp_all

text \<open>
  The masks of \<open>GICD_ITARGETSR\<close> and of a software interrupt are translated without loss: once
  every virtual CPU of the guest has a core of its own, the physical mask of a guest mask has
  exactly the cores of the virtual CPUs named, and it translates back to the guest mask,
  restricted to the virtual CPUs the guest has.
\<close>

theorem vcpu_pcpu_mask_inverse:
  assumes "cpus_placed m r"
  shows "\<exists>p. vcpu_to_pcpu_mask m r msk 8 = Some p \<and>
    (\<forall>s < 64. bit p s \<longleftrightarrow> (\<exists>k < vm_cpu_num (m_vms m r). bit msk k \<and> phys_of m r k = s)) \<and>
    pcpu_to_vcpu_mask m r p 8 = Some (take_bit (vm_cpu_num (m_vms m r)) msk)"
proof -
  let ?n = "vm_cpu_num (m_vms m r)"
  have n: "?n \<le> 8" and lt: "\<And>k. k < ?n \<Longrightarrow> phys_of m r k < 8" using assms by (auto simp: cpus_placed_def)
  obtain p where p: "vcpu_to_pcpu_mask m r msk 8 = Some p"
    "\<forall>s < 64. bit p s \<longleftrightarrow> (\<exists>i < 8. bit msk i \<and> vcpuid_to_pcpuid m r i = Some (Inr s))"
    using translate_mask_eq[of 8 "vcpuid_to_pcpuid m r" msk] lt unfolding vcpu_to_pcpu_mask_def
    by (force simp: vcpuid_to_pcpuid_eq[OF assms] split: if_splits)
  then have pb: "\<forall>s < 64. bit p s \<longleftrightarrow> (\<exists>k < ?n. bit msk k \<and> phys_of m r k = s)"
    using n by (auto simp: vcpuid_to_pcpuid_eq[OF assms])
  have inj: "inj_on (phys_of m r) {..<?n}" using assms by (simp add: cpus_placed_def)
  have inv: "pcpuid_to_vcpuid m r i = Some (Inr k) \<longleftrightarrow> k < ?n \<and> phys_of m r k = i" for i k
    using pcpuid_of_phys[OF assms, of k] inj
    by (auto simp: pcpuid_to_vcpuid_eq[OF assms] find_Some_iff dest: inj_onD split: option.splits)
  obtain q where q: "pcpu_to_vcpu_mask m r p 8 = Some q"
    "\<forall>k < 64. bit q k \<longleftrightarrow> (\<exists>i < 8. bit p i \<and> pcpuid_to_vcpuid m r i = Some (Inr k))"
    using translate_mask_eq[of 8 "pcpuid_to_vcpuid m r" p] inv n unfolding pcpu_to_vcpu_mask_def
    by (force simp: pcpuid_to_vcpuid_eq[OF assms])
  have "q = take_bit ?n msk"
  proof (rule bit_word_eqI)
    fix k assume "k < LENGTH(64)"
    then have "bit q k \<longleftrightarrow> k < ?n \<and> bit p (phys_of m r k)" using q(2) lt by (auto simp: inv)
    moreover have "bit p (phys_of m r k) \<longleftrightarrow> bit msk k" if "k < ?n"
    proof -
      have "phys_of m r k < 64" using lt[OF that] by simp
      with pb show ?thesis using that assms by (auto simp: cpus_placed_def inj_on_def)
    qed
    ultimately show "bit q k \<longleftrightarrow> bit (take_bit ?n msk) k" by (auto simp: bit_take_bit_iff)
  qed
  with p pb q show ?thesis by blast
qed

section \<open>Assignment of virtual CPUs to cores\<close>

text \<open>The calls the cores make one after the other, with the virtual CPU each was given.\<close>

primrec assign_all :: "VmRef \<Rightarrow> usize list \<Rightarrow> Machine \<Rightarrow> (VcpuRef option list \<times> Machine) option" where
  "assign_all r [] m = Some ([], m)"
| "assign_all r (c # cs) m = do {
     (v, m) \<leftarrow> select_vcpu2assign r c m;
     (vs, m) \<leftarrow> assign_all r cs m;
     Some (v # vs, m) }"

text \<open>The guest before any core asks: \<open>n\<close> virtual CPUs, listed by identifier.\<close>

definition assignable :: "Machine \<Rightarrow> VmRef \<Rightarrow> VmConfigEntry \<Rightarrow> nat \<Rightarrow> bool" where
  "assignable m r e n \<longleftrightarrow>
     vm_config (m_vms m r) = Some e \<and> cfg_cpu_num (m_config m) e = n \<and> vm_id (m_vms m r) < length (m_vm_if_list m) \<and>
     length (vm_vcpu_list (m_vms m r)) = n \<and> (\<forall>k < n. vc_id (m_vcpus m (vm_vcpu_list (m_vms m r) ! k)) = k)"

text \<open>The identifiers given away after \<open>k\<close> calls.\<close>

definition given :: "nat \<Rightarrow> nat \<Rightarrow> bool \<Rightarrow> nat set" where
  "given n k hm = (if hm then insert 0 {n - k + 1..<n} else {n - k..<n})"

definition assign_inv :: "Machine \<Rightarrow> VmRef \<Rightarrow> VmConfigEntry \<Rightarrow> nat \<Rightarrow> usize list \<Rightarrow> nat list \<Rightarrow> bool" where
  "assign_inv m r e n used ids \<longleftrightarrow> assignable m r e n \<and>
     (let x = m_vms m r; k = vm_cpu_num x; mst = cpu_master (m_config m) e in
      k = length used \<and> k \<le> n \<and> length ids = k \<and> distinct ids \<and> set ids = given n k (vm_has_master x) \<and>
      (if vm_has_master x then 0 < k \<and> (mst \<in> set used \<or> k = n) else k < n \<and> mst \<notin> set used) \<and>
      (\<forall>c < 64. bit (vm_ncpu x) c \<longleftrightarrow> c \<in> set used) \<and>
      (\<forall>j < k. ids ! j = 0 \<longrightarrow> vm_if_get_cpu_id m (vm_id x) = Some (used ! j)) \<and>
      (mst \<in> set used \<longrightarrow> (\<exists>j < k. used ! j = mst \<and> ids ! j = 0)))"

text \<open>The machine a successful call leaves.\<close>

definition assigned :: "VmRef \<Rightarrow> usize \<Rightarrow> nat \<Rightarrow> Machine \<Rightarrow> Machine" where
  "assigned r c t m =
     m\<lparr>m_vm_if_list := (if t = 0 then (m_vm_if_list m)[vm_id (m_vms m r) :=
          (m_vm_if_list m ! vm_id (m_vms m r))\<lparr>if_master_cpu_id := c\<rparr>] else m_vm_if_list m),
       m_vms := (m_vms m)(r := (m_vms m r)\<lparr>vm_has_master := vm_has_master (m_vms m r) \<or> t = 0,
          vm_cpu_num := vm_cpu_num (m_vms m r) + 1, vm_ncpu := vm_ncpu (m_vms m r) OR push_bit c 1\<rparr>)\<rparr>"

lemma select_vcpu2assign_eq:
  assumes "assignable m r e n" "c < 32" "bit (cpu_allocated_bitmap (m_config m) e) c" "vm_cpu_num (m_vms m r) < n"
    and t: "t = trgt_vcpu_id n (vm_cpu_num (m_vms m r)) (vm_has_master (m_vms m r)) (c = cpu_master (m_config m) e)" and "t < n"
  shows "select_vcpu2assign r c m = Some (Some (vm_vcpu_list (m_vms m r) ! t), assigned r c t m)"
proof -
  have "vc_id (m_vcpus m (vm_vcpu_list (m_vms m r) ! t)) = t" using assms by (simp add: assignable_def)
  with assms show ?thesis
    by (simp add: select_vcpu2assign_def assignable_def Let_def vm_if_set_cpu_id_def upd_vm_if_def upd_vm_def assigned_def t[symmetric])
qed

lemma trgt_vcpu_id_fresh:
  assumes "k < n" "hm \<Longrightarrow> 0 < k" "b \<Longrightarrow> \<not> hm" and t: "t = trgt_vcpu_id n k hm b"
  shows "t < n" "t \<notin> given n k hm" "insert t (given n k hm) = given n (Suc k) (hm \<or> t = 0)"
    "t = 0 \<longleftrightarrow> b \<or> \<not> hm \<and> Suc k = n"
  using assms by (auto simp: trgt_vcpu_id_def given_def)

lemma assign_inv_step:
  assumes inv: "assign_inv m r e n used ids" and c: "c \<notin> set used" "c < 32" "bit (cpu_allocated_bitmap (m_config m) e) c"
    and more: "length used < n"
  obtains t where "select_vcpu2assign r c m = Some (Some (vm_vcpu_list (m_vms m r) ! t), assigned r c t m)"
    and "assign_inv (assigned r c t m) r e n (used @ [c]) (ids @ [t])"
proof -
  let ?x = "m_vms m r" and ?mst = "cpu_master (m_config m) e"
  define hm where "hm = vm_has_master ?x"
  define t where "t = trgt_vcpu_id n (vm_cpu_num ?x) hm (c = ?mst)"
  have k: "vm_cpu_num ?x = length used" and asg: "assignable m r e n" and len: "length ids = length used" "distinct ids"
    and ids: "set ids = given n (length used) hm"
    and m1: "if hm then 0 < length used \<and> (?mst \<in> set used \<or> length used = n) else length used < n \<and> ?mst \<notin> set used"
    and nc: "\<forall>c < 64. bit (vm_ncpu ?x) c \<longleftrightarrow> c \<in> set used"
    and cp: "\<forall>j < length used. ids ! j = 0 \<longrightarrow> vm_if_get_cpu_id m (vm_id ?x) = Some (used ! j)"
    and mz: "?mst \<in> set used \<longrightarrow> (\<exists>j < length used. used ! j = ?mst \<and> ids ! j = 0)"
    using inv by (auto simp: assign_inv_def Let_def hm_def)
  have fresh: "t < n" "t \<notin> set ids" "insert t (set ids) = given n (Suc (length used)) (hm \<or> t = 0)"
    "t = 0 \<longleftrightarrow> c = ?mst \<or> \<not> hm \<and> Suc (length used) = n"
    using trgt_vcpu_id_fresh[OF more, of hm "c = ?mst" t] m1 c(1) more by (auto simp: t_def k ids split: if_splits)
  have sel: "select_vcpu2assign r c m = Some (Some (vm_vcpu_list ?x ! t), assigned r c t m)"
    by (rule select_vcpu2assign_eq[OF asg c(2,3)]) (use more k fresh t_def hm_def in simp_all)
  have id: "vm_id ?x < length (m_vm_if_list m)" using asg by (simp add: assignable_def)
  have "assignable (assigned r c t m) r e n" using asg by (simp add: assignable_def assigned_def)
  moreover have "\<forall>j < Suc (length used). (ids @ [t]) ! j = 0 \<longrightarrow>
      vm_if_get_cpu_id (assigned r c t m) (vm_id ?x) = Some ((used @ [c]) ! j)"
  proof (intro allI impI)
    fix j assume j: "j < Suc (length used)" "(ids @ [t]) ! j = 0"
    show "vm_if_get_cpu_id (assigned r c t m) (vm_id ?x) = Some ((used @ [c]) ! j)"
    proof (cases "t = 0")
      case True
      then have "j = length used" using j fresh(2) len(1) by (metis less_SucE nth_append nth_mem)
      then show ?thesis using True id by (simp add: vm_if_get_cpu_id_def assigned_def)
    next
      case False
      then have "j < length used" "ids ! j = 0" using j len(1) by (auto simp: nth_append split: if_splits)
      then show ?thesis using False cp by (simp add: vm_if_get_cpu_id_def assigned_def nth_append)
    qed
  qed
  moreover have "\<forall>c' < 64. bit (vm_ncpu (m_vms (assigned r c t m) r)) c' \<longleftrightarrow> c' \<in> set (used @ [c])"
    using nc by (auto simp: assigned_def bit_or_iff bit_exp_iff possible_bit_def)
  moreover have "?mst \<in> set (used @ [c]) \<longrightarrow> (\<exists>j < Suc (length used). (used @ [c]) ! j = ?mst \<and> (ids @ [t]) ! j = 0)"
  proof (cases "?mst \<in> set used")
    case True
    then obtain j where "j < length used" "used ! j = ?mst" "ids ! j = 0" using mz by blast
    then show ?thesis using len(1) by (intro impI exI[of _ j]) (simp add: nth_append)
  next
    case False
    then show ?thesis using fresh(4) len(1) by (auto simp: nth_append intro!: exI[of _ "length used"])
  qed
  ultimately have "assign_inv (assigned r c t m) r e n (used @ [c]) (ids @ [t])"
    using k len fresh m1 more c(1) unfolding assign_inv_def Let_def
    by (auto simp: assigned_def hm_def[symmetric] split: if_splits)
  with sel show ?thesis by (rule that)
qed

lemma assign_all_inv:
  assumes "assign_inv m r e n used ids" "distinct (used @ cs)" "length used + length cs \<le> n"
    and "\<forall>c \<in> set cs. c < 32 \<and> bit (cpu_allocated_bitmap (m_config m) e) c"
  shows "\<exists>ts m'. assign_all r cs m = Some (map (\<lambda>t. Some (vm_vcpu_list (m_vms m r) ! t)) ts, m') \<and>
    assign_inv m' r e n (used @ cs) (ids @ ts) \<and> m_config m' = m_config m \<and> vm_id (m_vms m' r) = vm_id (m_vms m r)"
  using assms
proof (induction cs arbitrary: m used ids)
  case Nil
  then show ?case by auto
next
  case (Cons c cs)
  have "c \<notin> set used" "c < 32" "bit (cpu_allocated_bitmap (m_config m) e) c" "length used < n" using Cons.prems(2-4) by auto
  from assign_inv_step[OF Cons.prems(1) this]
  obtain t where t: "select_vcpu2assign r c m = Some (Some (vm_vcpu_list (m_vms m r) ! t), assigned r c t m)"
    and inv: "assign_inv (assigned r c t m) r e n (used @ [c]) (ids @ [t])"
    by blast
  have "vm_vcpu_list (m_vms (assigned r c t m) r) = vm_vcpu_list (m_vms m r)" "m_config (assigned r c t m) = m_config m"
    "vm_id (m_vms (assigned r c t m) r) = vm_id (m_vms m r)"
    by (simp_all add: assigned_def)
  with Cons.IH[OF inv] Cons.prems t show ?case by (fastforce simp: panic_simps)
qed

lemma map_of_zip_bij:
  assumes "distinct xs" "distinct ys" "length xs = length ys"
  shows "bij_betw (\<lambda>x. the (map_of (zip xs ys) x)) (set xs) (set ys)"
    and "j < length xs \<Longrightarrow> the (map_of (zip xs ys) (xs ! j)) = ys ! j"
proof -
  have nth: "the (map_of (zip xs ys) (xs ! j)) = ys ! j" if "j < length xs" for j
    using that assms by (simp add: map_of_zip_nth)
  then show "j < length xs \<Longrightarrow> the (map_of (zip xs ys) (xs ! j)) = ys ! j" .
  show "bij_betw (\<lambda>x. the (map_of (zip xs ys) x)) (set xs) (set ys)"
    unfolding bij_betw_def
  proof
    show "inj_on (\<lambda>x. the (map_of (zip xs ys) x)) (set xs)"
    proof (rule inj_onI)
      fix x y
      assume "x \<in> set xs" "y \<in> set xs" "the (map_of (zip xs ys) x) = the (map_of (zip xs ys) y)"
      then show "x = y" using nth assms by (metis in_set_conv_nth nth_eq_iff_index_eq)
    qed
    have "(\<lambda>x. the (map_of (zip xs ys) x)) ` set xs = (\<lambda>j. the (map_of (zip xs ys) (xs ! j))) ` {..<length xs}"
      by (force simp: set_conv_nth)
    also have "\<dots> = (\<lambda>j. ys ! j) ` {..<length ys}" using nth assms(3) by simp
    also have "\<dots> = set ys" by (force simp: set_conv_nth)
    finally show "(\<lambda>x. the (map_of (zip xs ys) x)) ` set xs = set ys" .
  qed
qed

text \<open>
  C15. When the \<open>n\<close> cores a guest may use ask for a virtual CPU, in any order, every core gets one
  and no virtual CPU is given twice; the guest's core mask has exactly these cores; virtual
  CPU 0 goes to one core, which the interface table records as the master, and it is the
  configured master when that core is among them.
\<close>

theorem select_vcpu2assign_bijection:
  assumes "assignable m r e n" "0 < n" "vm_cpu_num (m_vms m r) = 0" "\<not> vm_has_master (m_vms m r)" "vm_ncpu (m_vms m r) = 0"
    and "distinct cs" "length cs = n" "\<forall>c \<in> set cs. c < 32 \<and> bit (cpu_allocated_bitmap (m_config m) e) c"
  shows "\<exists>f m'. assign_all r cs m = Some (map (\<lambda>c. Some (vm_vcpu_list (m_vms m r) ! f c)) cs, m') \<and>
    bij_betw f (set cs) {..<n} \<and>
    vm_cpu_num (m_vms m' r) = n \<and> (\<forall>c < 64. bit (vm_ncpu (m_vms m' r)) c \<longleftrightarrow> c \<in> set cs) \<and>
    (\<exists>c \<in> set cs. f c = 0 \<and> vm_if_get_cpu_id m' (vm_id (m_vms m r)) = Some c) \<and>
    (cpu_master (m_config m) e \<in> set cs \<longrightarrow> f (cpu_master (m_config m) e) = 0)"
proof -
  have "assign_inv m r e n [] []" using assms(1-5) by (simp add: assign_inv_def given_def)
  from assign_all_inv[OF this, of cs] assms(6-8) obtain ts m' where
    run: "assign_all r cs m = Some (map (\<lambda>t. Some (vm_vcpu_list (m_vms m r) ! t)) ts, m')"
    and inv: "assign_inv m' r e n cs ts" and cfg: "m_config m' = m_config m" "vm_id (m_vms m' r) = vm_id (m_vms m r)"
    by auto
  have ts: "length ts = n" "distinct ts" and set_ts: "set ts = {..<n}"
    using inv assms(2,7) by (auto simp: assign_inv_def given_def Let_def split: if_splits)
  define f where "f c = the (map_of (zip cs ts) c)" for c
  have f: "f (cs ! j) = ts ! j" if "j < n" for j
    using map_of_zip_bij(2)[OF assms(6) ts(2)] that assms(7) ts(1) by (simp add: f_def)
  have "map (\<lambda>t. Some (vm_vcpu_list (m_vms m r) ! t)) ts = map (\<lambda>c. Some (vm_vcpu_list (m_vms m r) ! f c)) cs"
    using f ts assms(7) by (simp add: list_eq_iff_nth_eq)
  moreover have "bij_betw f (set cs) {..<n}"
    using map_of_zip_bij(1)[OF assms(6) ts(2)] assms(7) ts(1) set_ts unfolding f_def by simp
  moreover obtain j where j: "j < n" "ts ! j = 0" using set_ts assms(2) ts(1) by (metis in_set_conv_nth lessThan_iff)
  then have "\<exists>c \<in> set cs. f c = 0 \<and> vm_if_get_cpu_id m' (vm_id (m_vms m r)) = Some c"
    using f inv assms(7) cfg by (intro bexI[of _ "cs ! j"]) (auto simp: assign_inv_def Let_def)
  moreover have "cpu_master (m_config m) e \<in> set cs \<longrightarrow> f (cpu_master (m_config m) e) = 0"
  proof
    assume "cpu_master (m_config m) e \<in> set cs"
    then obtain j where "j < n" "cs ! j = cpu_master (m_config m) e" "ts ! j = 0"
      using inv cfg assms(7) by (auto simp: assign_inv_def Let_def)
    with f show "f (cpu_master (m_config m) e) = 0" by metis
  qed
  ultimately show ?thesis using run inv assms(7) by (intro exI[of _ f] exI[of _ m']) (auto simp: assign_inv_def Let_def)
qed

section \<open>Concrete machines\<close>

text \<open>A guest with two virtual CPUs, on the cores 2 and 1.\<close>

definition vm_example :: Machine where
  "vm_example = machine_reset\<lparr>m_vms := (\<lambda>_. (VmInner_new Qemu 1)\<lparr>vm_vcpu_list := [0, 1], vm_cpu_num := 2, vm_ncpu := 6\<rparr>),
     m_vcpus := (\<lambda>v. VcpuInner_default\<lparr>vc_id := v, vc_phys_id := 2 - v, vc_vm := Some 0\<rparr>)\<rparr>"

theorem vcpu_pcpu_mask_inverse_witness:
  "\<exists>p. vcpu_to_pcpu_mask vm_example 0 0b101 8 = Some p \<and> bit p 2 \<and> \<not> bit p 1 \<and> pcpu_to_vcpu_mask vm_example 0 p 8 = Some 1"
proof -
  have n: "vm_cpu_num (m_vms vm_example 0) = 2" "vm_vcpu_list (m_vms vm_example 0) = [0, 1]" "vc_phys_id (m_vcpus vm_example k) = 2 - k" for k
    by (simp_all add: vm_example_def)
  have "cpus_placed vm_example 0" by (auto simp: cpus_placed_def n inj_on_def less_Suc_eq numeral_2_eq_2)
  from vcpu_pcpu_mask_inverse[OF this, of "0b101", unfolded n] obtain p where p: "vcpu_to_pcpu_mask vm_example 0 0b101 8 = Some p"
    "\<forall>s < 64. bit p s \<longleftrightarrow> (\<exists>k < 2. bit (0b101 :: u64) k \<and> 2 - [0, 1] ! k = s)" "pcpu_to_vcpu_mask vm_example 0 p 8 = Some (take_bit 2 0b101)"
    by blast
  have two: "(\<exists>k < 2. Q k) \<longleftrightarrow> Q 0 \<or> Q 1" for Q :: "nat \<Rightarrow> bool" by (auto simp: less_2_cases_iff)
  have "bit p 2" using p(2)[rule_format, of 2] unfolding two by simp
  moreover have "\<not> bit p 1" using p(2)[rule_format, of 1] unfolding two by simp
  ultimately show ?thesis using p by simp
qed

text \<open>A configuration with two cores, the second of them the master.\<close>

definition assign_example :: Machine where
  "assign_example = machine_reset\<lparr>
     m_vms := (\<lambda>_. (VmInner_new Qemu 1)\<lparr>vm_vcpu_list := [0, 1], vm_config := Some entry_example\<rparr>),
     m_vcpus := (\<lambda>v. VcpuInner_default\<lparr>vc_id := v\<rparr>),
     m_config := cfg_empty\<lparr>cfg_bodies := (\<lambda>_. (VmConfigBody_new VmImageConfig_default)\<lparr>cb_cpu := \<lparr>cc_num = 2, cc_allocate_bitmap = 6, cc_master = 2\<rparr>\<rparr>)\<rparr>\<rparr>"

theorem select_vcpu2assign_bijection_witness:
  "\<exists>f m'. assign_all 0 [1, 2] assign_example = Some (map (\<lambda>c :: usize. Some ([0, 1] ! f c)) [1, 2], m') \<and> f 2 = 0 \<and> f 1 = 1 \<and>
     vm_cpu_num (m_vms m' 0) = 2 \<and> vm_if_get_cpu_id m' 1 = Some 2"
proof -
  have d: "vm_vcpu_list (m_vms assign_example 0) = [0, 1]" "vm_config (m_vms assign_example 0) = Some entry_example"
    "vm_id (m_vms assign_example 0) = 1" "vm_cpu_num (m_vms assign_example 0) = 0" "\<not> vm_has_master (m_vms assign_example 0)"
    "vm_ncpu (m_vms assign_example 0) = 0" "length (m_vm_if_list assign_example) = 8" "vc_id (m_vcpus assign_example k) = k"
    "cpu_master (m_config assign_example) entry_example = 2" "cfg_cpu_num (m_config assign_example) entry_example = 2"
    "cpu_allocated_bitmap (m_config assign_example) entry_example = 6" for k
    by (simp_all add: assign_example_def VmInner_new_def machine_reset_def cpu_master_def cfg_cpu_num_def cpu_allocated_bitmap_def VM_NUM_MAX_def)
  have a: "assignable assign_example 0 entry_example 2"
    by (auto simp: assignable_def d less_Suc_eq numeral_2_eq_2)
  have "\<forall>c \<in> set [1, 2]. c < 32 \<and> bit (cpu_allocated_bitmap (m_config assign_example) entry_example) c"
    by (simp add: d)
  from select_vcpu2assign_bijection[OF a _ d(4,5,6) _ _ this] obtain f m' where
    f: "assign_all 0 [1, 2] assign_example = Some (map (\<lambda>c. Some ([0, 1] ! f c)) [1, 2], m')" "bij_betw f {1, 2} {..<2}"
      "vm_cpu_num (m_vms m' 0) = 2" "\<exists>c \<in> {1, 2}. f c = 0 \<and> vm_if_get_cpu_id m' 1 = Some c" "f 2 = 0"
    by (auto simp: d)
  have "f 1 \<in> {..<2}" "f 1 \<noteq> f 2" using f(2) by (auto simp: bij_betw_def inj_on_def)
  then have "f 1 = 1" using f(5) by auto
  with f show ?thesis by (intro exI[of _ f] exI[of _ m']) auto
qed

end
