(* ===== verification/Vcpu.thy ===== *)
theory Vcpu
  imports Vm
begin

text \<open>
  Virtual CPUs: \<open>src/src/kernel/vcpu.rs\<close> without the injection of queued interrupts (theory
  \<open>Sched\<close>), \<open>src/src/arch/aarch64/vcpu.rs\<close>, and the switching of the interrupt controller between
  two virtual CPUs from \<open>src/src/kernel/vcpu_array.rs\<close>.
\<close>

abbreviation vm_ctx :: "Machine \<Rightarrow> VcpuRef \<Rightarrow> VmContext" where "vm_ctx m v \<equiv> vc_vm_ctx (m_vcpus m v)"

definition upd_vm_ctx :: "VcpuRef \<Rightarrow> (VmContext \<Rightarrow> VmContext) \<Rightarrow> Machine \<Rightarrow> Machine" where
  "upd_vm_ctx v f = upd_vcpu v (\<lambda>x. x\<lparr>vc_vm_ctx := f (vc_vm_ctx x)\<rparr>)"

definition set_state :: "VcpuRef \<Rightarrow> VcpuState \<Rightarrow> Machine \<Rightarrow> Machine" where
  "set_state v st = upd_vcpu v (\<lambda>x. x\<lparr>vc_state := st\<rparr>)"

definition set_phys_id :: "VcpuRef \<Rightarrow> usize \<Rightarrow> Machine \<Rightarrow> Machine" where
  "set_phys_id v p = upd_vcpu v (\<lambda>x. x\<lparr>vc_phys_id := p\<rparr>)"

definition set_gich_ctlr :: "VcpuRef \<Rightarrow> u32 \<Rightarrow> Machine \<Rightarrow> Machine" where
  "set_gich_ctlr v c = upd_vm_ctx v (\<lambda>x. x\<lparr>gic_state := (gic_state x)\<lparr>gs_ctlr := c\<rparr>\<rparr>)"

definition set_hcr :: "VcpuRef \<Rightarrow> u64 \<Rightarrow> Machine \<Rightarrow> Machine" where
  "set_hcr v h = upd_vm_ctx v (\<lambda>x. x\<lparr>hcr_el2 := h\<rparr>)"

definition vcpu_set_elr :: "VcpuRef \<Rightarrow> u64 \<Rightarrow> Machine \<Rightarrow> Machine" where
  "vcpu_set_elr v e = upd_vcpu v (\<lambda>x. x\<lparr>vc_vcpu_ctx := set_exception_pc e (vc_vcpu_ctx x)\<rparr>)"

definition vcpu_set_gpr :: "VcpuRef \<Rightarrow> usize \<Rightarrow> u64 \<Rightarrow> Machine \<Rightarrow> Machine option" where
  "vcpu_set_gpr v idx val m = do {
     f \<leftarrow> frame_set_gpr idx val (vc_vcpu_ctx (m_vcpus m v));
     Some (upd_vcpu v (\<lambda>x. x\<lparr>vc_vcpu_ctx := f\<rparr>) m) }"

definition push_int :: "VcpuRef \<Rightarrow> usize \<Rightarrow> Machine \<Rightarrow> Machine" where
  "push_int v n = upd_vcpu v (\<lambda>x. if n \<in> set (vc_int_list x) then x else x\<lparr>vc_int_list := vc_int_list x @ [n]\<rparr>)"

section \<open>Storing and restoring the context\<close>

definition save_cpu_ctx :: "VcpuRef \<Rightarrow> Machine \<Rightarrow> Machine" where
  "save_cpu_ctx v m = (case cpu_ctx (m_cpu m) of
     None \<Rightarrow> m
   | Some a \<Rightarrow> upd_vcpu v (\<lambda>x. x\<lparr>vc_vcpu_ctx := m_frames m a\<rparr>) m)"

definition restore_cpu_ctx :: "VcpuRef \<Rightarrow> Machine \<Rightarrow> Machine" where
  "restore_cpu_ctx v m = (case cpu_ctx (m_cpu m) of
     None \<Rightarrow> m
   | Some a \<Rightarrow> m\<lparr>m_frames := (m_frames m)(a := vc_vcpu_ctx (m_vcpus m v))\<rparr>)"

definition gic_save_context :: "VcpuRef \<Rightarrow> Machine \<Rightarrow> Machine option" where
  "gic_save_context v m = do { c \<leftarrow> gic_save_state (m_hw m) (vm_ctx m v); Some (upd_vm_ctx v (\<lambda>_. c) m) }"

definition gic_restore_context :: "VcpuRef \<Rightarrow> Machine \<Rightarrow> Machine option" where
  "gic_restore_context v m = do { hw \<leftarrow> gic_restore_state (vm_ctx m v) (m_hw m); Some (m\<lparr>m_hw := hw\<rparr>) }"

definition context_vm_store :: "VcpuRef \<Rightarrow> Machine \<Rightarrow> Machine option" where
  "context_vm_store v m = do {
     let m = save_cpu_ctx v m;
     let m = upd_vm_ctx v (ext_regs_store (hw_regs (m_hw m))) m;
     let m = upd_vm_ctx v (fpsimd_save_context (m_hw m)) m;
     gic_save_context v m }"

text \<open>\<open>context_vm_restore\<close> up to the injection of the queued interrupts.\<close>

definition context_regs_restore :: "VcpuRef \<Rightarrow> Machine \<Rightarrow> Machine option" where
  "context_regs_restore v m = do {
     let m = restore_cpu_ctx v m;
     let m = m\<lparr>m_hw := fpsimd_restore_context (vm_ctx m v) (m_hw m)\<rparr>;
     m \<leftarrow> gic_restore_context v m;
     Some (upd_hw (\<lambda>hw. hw\<lparr>hw_regs := ext_regs_restore (hw_upper hw) (vm_ctx m v) (hw_regs hw)\<rparr>) m) }"

definition context_gic_irqs_store :: "VcpuRef \<Rightarrow> Machine \<Rightarrow> Machine option" where
  "context_gic_irqs_store v m = do {
     r \<leftarrow> vc_vm (m_vcpus m v);
     e \<leftarrow> vm_config (m_vms m r);
     g \<leftarrow> fold_opt (\<lambda>irq. add_irq (gicd m) (of_nat irq)) (passthrough_device_irqs (m_config m) e) (vc_gic_ctx (m_vcpus m v));
     g \<leftarrow> add_irq (gicd m) 25 g;
     let g = set_gicv_ctlr (hw_gicv_ctlr (m_hw m)) g;
     let g = set_gicv_pmr (hw_gicv_pmr (m_hw m)) g;
     Some (upd_vcpu v (\<lambda>x. x\<lparr>vc_gic_ctx := g\<rparr>) m) }"

definition context_gic_irqs_restore :: "VcpuRef \<Rightarrow> Machine \<Rightarrow> Machine option" where
  "context_gic_irqs_restore v m = do {
     let g = vc_gic_ctx (m_vcpus m v);
     m \<leftarrow> fold_opt (\<lambda>s m.
         if is_id s \<noteq> 0 then do {
           m \<leftarrow> on_gicd (gicd_set_enable (unat (is_id s)) (is_enable s \<noteq> 0)) m;
           m \<leftarrow> on_gicd (gicd_set_prio (unat (is_id s)) (is_priority s)) m;
           assert_that (cpuid_to_cpuif (m_board m) (this_cpu m) < 8);
           on_gicd (gicd_set_trgt (unat (is_id s)) (push_bit (cpuid_to_cpuif (m_board m) (this_cpu m)) 1)) m }
         else Some m) (gx_irq_state g) m;
     Some (upd_hw (\<lambda>hw. hw\<lparr>hw_gicv_pmr := gx_gicv_pmr g, hw_gicv_ctlr := gx_gicv_ctlr g\<rparr>) m) }"

definition restore_vcpu_gic :: "VcpuRef option \<Rightarrow> VcpuRef \<Rightarrow> Machine \<Rightarrow> Machine option" where
  "restore_vcpu_gic cur trgt m = (case cur of
     None \<Rightarrow> gic_restore_context trgt m
   | Some a \<Rightarrow> do {
       ti \<leftarrow> vcpu_vm_id m trgt;
       ai \<leftarrow> vcpu_vm_id m a;
       if ti \<noteq> ai then do { m \<leftarrow> gic_save_context a m; gic_restore_context trgt m } else Some m })"

definition save_vcpu_gic :: "VcpuRef option \<Rightarrow> VcpuRef \<Rightarrow> Machine \<Rightarrow> Machine option" where
  "save_vcpu_gic cur trgt m = (case cur of
     None \<Rightarrow> gic_save_context trgt m
   | Some a \<Rightarrow> do {
       ti \<leftarrow> vcpu_vm_id m trgt;
       ai \<leftarrow> vcpu_vm_id m a;
       if ti \<noteq> ai then do { m \<leftarrow> gic_save_context trgt m; gic_restore_context a m } else Some m })"

section \<open>Reset\<close>

definition vmpidr_value :: "Machine \<Rightarrow> VcpuRef \<Rightarrow> u64 option" where
  "vmpidr_value m v = do {
     let x = push_bit 31 1;
     x \<leftarrow> (if m_board m = Tx2 then do { i \<leftarrow> vcpu_vm_id m v; Some (if i = 0 then x OR 0x100 else x) } else Some x);
     Some (x OR of_nat (vc_id (m_vcpus m v))) }"

definition arch_ctx_reset :: "VcpuRef \<Rightarrow> Machine \<Rightarrow> Machine option" where
  "arch_ctx_reset v m = do {
     let m = upd_vm_ctx v (\<lambda>c. c\<lparr>cntvoff_el2 := 0, sctlr_el1 := 0x30C50830, cntkctl_el1 := 0, pmcr_el0 := 0,
                                 vtcr_el2 := 0x8001355c\<rparr>) m;
     x \<leftarrow> vmpidr_value m v;
     Some (upd_vm_ctx v (\<lambda>c. c\<lparr>vmpidr_el2 := x\<rparr>) m) }"

definition reset_vmpidr :: "VcpuRef \<Rightarrow> Machine \<Rightarrow> Machine option" where
  "reset_vmpidr v m = do { x \<leftarrow> vmpidr_value m v; Some (upd_vm_ctx v (\<lambda>c. c\<lparr>vmpidr_el2 := x\<rparr>) m) }"

text \<open>\<open>curpct\<close> is the value of the physical counter.\<close>

definition reset_vtimer_offset :: "u64 \<Rightarrow> VcpuRef \<Rightarrow> Machine \<Rightarrow> Machine option" where
  "reset_vtimer_offset curpct v m =
     (if cntvct_el0 (vm_ctx m v) \<le> curpct
      then Some (upd_vm_ctx v (\<lambda>c. c\<lparr>cntvoff_el2 := curpct - cntvct_el0 c\<rparr>) m) else None)"

definition gic_ctx_reset :: "VcpuRef \<Rightarrow> Machine \<Rightarrow> Machine option" where
  "gic_ctx_reset v m = do {
     lrs \<leftarrow> for_range 0 (gich_lrs_num (gich m)) (\<lambda>i xs. vec_set xs i 0) (gs_lr (gic_state (vm_ctx m v)));
     Some (upd_vm_ctx v (\<lambda>c. c\<lparr>gic_state := (gic_state c)\<lparr>gs_lr := lrs, gs_hcr := gs_hcr (gic_state c) OR push_bit 2 1\<rparr>\<rparr>) m) }"

definition context_ext_regs_store :: "VcpuRef \<Rightarrow> Machine \<Rightarrow> Machine" where
  "context_ext_regs_store v m = upd_vm_ctx v (ext_regs_store (hw_regs (m_hw m))) m"

definition reset_context :: "VcpuRef \<Rightarrow> Machine \<Rightarrow> Machine option" where
  "reset_context v m = do {
     m \<leftarrow> arch_ctx_reset v m;
     m \<leftarrow> gic_ctx_reset v m;
     i \<leftarrow> vcpu_vm_id m v;
     ty \<leftarrow> vm_if_get_type m i;
     case ty of
       VmTBma \<Rightarrow> Some (context_ext_regs_store v (upd_vm_ctx v VmContext_reset m))
     | VmTOs \<Rightarrow> Some m }"

definition vcpu_arch_init :: "VmRef \<Rightarrow> VcpuRef \<Rightarrow> Machine \<Rightarrow> Machine option" where
  "vcpu_arch_init r v m = do {
     e \<leftarrow> vm_config (m_vms m r);
     arg \<leftarrow> (case ce_os_type e of
         VmTOs \<Rightarrow> Some (device_tree_load_ipa (m_config m) e)
       | _ \<Rightarrow> do { reg \<leftarrow> vec_get (memory_region (m_config m) e) 0; uadd (rg_ipa_start reg) (rg_length reg) });
     f \<leftarrow> set_argument (of_nat arg) (vc_vcpu_ctx (m_vcpus m v));
     let f = set_exception_pc (of_nat (kernel_entry_point (m_config m) e)) f;
     let f = f\<lparr>cf_spsr := SPSR_EL1h_masked\<rparr>;
     Some (upd_vcpu v (\<lambda>x. x\<lparr>vc_vcpu_ctx := f\<rparr>) m) }"

definition vcpu_init :: "VmRef \<Rightarrow> VcpuRef \<Rightarrow> usize \<Rightarrow> Machine \<Rightarrow> Machine option" where
  "vcpu_init r v vcpu_id m = do {
     let m = upd_vcpu v (\<lambda>x. x\<lparr>vc_vm := Some r, vc_id := vcpu_id, vc_phys_id := 0\<rparr>) m;
     m \<leftarrow> vcpu_arch_init r v m;
     reset_context v m }"

section \<open>The list of virtual CPUs\<close>

definition vcpu_alloc :: "Machine \<Rightarrow> VcpuRef option \<times> Machine" where
  "vcpu_alloc m =
     (if length (m_vcpu_list m) \<ge> PLATFORM_VCPU_NUM_MAX then (None, m)
      else (Some (m_next_vcpu m),
            m\<lparr>m_vcpus := (m_vcpus m)(m_next_vcpu m := VcpuInner_default), m_next_vcpu := m_next_vcpu m + 1,
              m_vcpu_list := m_vcpu_list m @ [m_next_vcpu m]\<rparr>))"

definition same_vcpu :: "Machine \<Rightarrow> VcpuRef \<Rightarrow> VcpuRef \<Rightarrow> bool option" where
  "same_vcpu m w v =
     (if vc_id (m_vcpus m w) = vc_id (m_vcpus m v) then do {
        a \<leftarrow> vcpu_vm_id m w; b \<leftarrow> vcpu_vm_id m v; Some (a = b) }
      else Some False)"

definition vcpu_remove :: "VcpuRef \<Rightarrow> Machine \<Rightarrow> Machine option" where
  "vcpu_remove v m = do {
     hit \<leftarrow> find_loop (\<lambda>idx. do {
         b \<leftarrow> same_vcpu m (m_vcpu_list m ! idx) v;
         Some (if b then Some idx else None) }) [0..<length (m_vcpu_list m)];
     idx \<leftarrow> hit;
     Some (m\<lparr>m_vcpu_list := remove_nth idx (m_vcpu_list m)\<rparr>) }"

section \<open>The virtual CPUs of a core\<close>

definition pop_vcpu_through_vmid :: "Machine \<Rightarrow> usize \<Rightarrow> VcpuRef option option" where
  "pop_vcpu_through_vmid m vmid = vec_get (va_array (cpu_vcpu_array (m_cpu m))) vmid"

definition interrupt_arch_enable :: "usize \<Rightarrow> bool \<Rightarrow> Machine \<Rightarrow> Machine option" where
  "interrupt_arch_enable n en m =
     (if en then do {
        m \<leftarrow> on_gicd (gicd_set_prio n 0x7f) m;
        assert_that (cpuid_to_cpuif (m_board m) (this_cpu m) < 8);
        m \<leftarrow> on_gicd (gicd_set_trgt n (push_bit (cpuid_to_cpuif (m_board m) (this_cpu m)) 1)) m;
        on_gicd (gicd_set_enable n en) m }
      else on_gicd (gicd_set_enable n en) m)"

definition interrupt_cpu_enable :: "usize \<Rightarrow> bool \<Rightarrow> Machine \<Rightarrow> Machine option" where
  "interrupt_cpu_enable n en m = interrupt_arch_enable n en m"

definition append_vcpu :: "VcpuRef \<Rightarrow> Machine \<Rightarrow> Machine option" where
  "append_vcpu v m = do {
     vmid \<leftarrow> vcpu_vm_id m v;
     let a = cpu_vcpu_array (m_cpu m);
     x \<leftarrow> vec_get (va_array a) vmid;
     assert_that (x = None);
     let m = set_phys_id v (this_cpu m) m;
     Some (upd_cpu (\<lambda>c. c\<lparr>cpu_vcpu_array := \<lparr>va_array = (va_array a)[vmid := Some v], va_len = va_len a + 1\<rparr>\<rparr>) m) }"

definition remove_vcpu :: "usize \<Rightarrow> Machine \<Rightarrow> (VcpuRef \<times> Machine) option" where
  "remove_vcpu vmid m = do {
     let a = cpu_vcpu_array (m_cpu m);
     x \<leftarrow> vec_get (va_array a) vmid;
     v \<leftarrow> x;
     n \<leftarrow> usub (va_len a) 1;
     let m = upd_cpu (\<lambda>c. c\<lparr>cpu_vcpu_array := \<lparr>va_array = (va_array a)[vmid := None], va_len = n\<rparr>\<rparr>) m;
     m \<leftarrow> (if n = 0 then interrupt_cpu_enable 27 False m else Some m);
     Some (v, m) }"

definition cpu_assigned :: "Machine \<Rightarrow> bool" where
  "cpu_assigned m \<longleftrightarrow> va_len (cpu_vcpu_array (m_cpu m)) \<noteq> 0"

end
