(* ===== verification/Vgic.thy ===== *)
theory Vgic
  imports Ipi Vcpu
begin

text \<open>
  The virtual interrupt controller of \<open>src/src/arch/aarch64/vgic.rs\<close>: the interrupts a guest owns,
  their pending and active lists, and the list registers of the running core.

  \<open>g\<close> is the controller (\<open>self\<close>), \<open>v\<close> the virtual CPU and \<open>i\<close> the interrupt of a call; an
  interrupt that two holders share is one entry of \<open>m_ints\<close>.  The result of an operation is the
  machine after it, or \<open>None\<close> where the code panics.
\<close>

abbreviation vint :: "Machine \<Rightarrow> IntRef \<Rightarrow> VgicInt" where "vint m i \<equiv> m_ints m i"
abbreviation vcpu :: "Machine \<Rightarrow> VcpuRef \<Rightarrow> VcpuInner" where "vcpu m v \<equiv> m_vcpus m v"

section \<open>Interrupts and their owner\<close>

definition VgicInt_new :: "usize \<Rightarrow> VgicInt" where
  "VgicInt_new ident = \<lparr>vi_owner = None, vi_id = of_nat (ident + GIC_PRIVINT_NUM), vi_hw = False, vi_in_lr = False,
     vi_lr = 0, vi_enabled = False, vi_state = IrqSInactive, vi_prio = 0xff, vi_targets = 0, vi_cfg = 0,
     vi_in_pend = False, vi_in_act = False\<rparr>"

definition VgicInt_priv_new :: "usize \<Rightarrow> VcpuRef \<Rightarrow> u64 \<Rightarrow> bool \<Rightarrow> VgicInt" where
  "VgicInt_priv_new ident owner targets enabled = \<lparr>vi_owner = Some owner, vi_id = of_nat ident, vi_hw = False,
     vi_in_lr = False, vi_lr = 0, vi_enabled = enabled, vi_state = IrqSInactive, vi_prio = 0xff,
     vi_targets = ucast targets, vi_cfg = 0, vi_in_pend = False, vi_in_act = False\<rparr>"

definition owner_phys_id :: "Machine \<Rightarrow> IntRef \<Rightarrow> usize option" where
  "owner_phys_id m i = map_option (\<lambda>v. vc_phys_id (vcpu m v)) (vi_owner (vint m i))"

definition owner_id :: "Machine \<Rightarrow> IntRef \<Rightarrow> usize option" where
  "owner_id m i = map_option (\<lambda>v. vc_id (vcpu m v)) (vi_owner (vint m i))"

definition owner_vm :: "Machine \<Rightarrow> IntRef \<Rightarrow> VmRef option" where
  "owner_vm m i = do { v \<leftarrow> vi_owner (vint m i); vc_vm (vcpu m v) }"

abbreviation int_id :: "Machine \<Rightarrow> IntRef \<Rightarrow> usize" where "int_id m i \<equiv> unat (vi_id (vint m i))"

section \<open>Per-core data of a controller\<close>

definition cpu_priv :: "Machine \<Rightarrow> VgicRef \<Rightarrow> usize \<Rightarrow> VgicCpuPriv option" where
  "cpu_priv m g c = vec_get (vg_cpu_priv (m_vgics m g)) c"

definition upd_cpu_priv :: "VgicRef \<Rightarrow> usize \<Rightarrow> (VgicCpuPriv \<Rightarrow> VgicCpuPriv) \<Rightarrow> Machine \<Rightarrow> Machine option" where
  "upd_cpu_priv g c f m = do {
     p \<leftarrow> cpu_priv m g c;
     Some (upd_vgic g (\<lambda>vg. vg\<lparr>vg_cpu_priv := (vg_cpu_priv vg)[c := f p]\<rparr>) m) }"

definition cpu_priv_interrupt :: "Machine \<Rightarrow> VgicRef \<Rightarrow> usize \<Rightarrow> usize \<Rightarrow> IntRef option" where
  "cpu_priv_interrupt m g c idx = do { p \<leftarrow> cpu_priv m g c; vec_get (cp_interrupts p) idx }"

definition cpu_priv_curr_lrs :: "Machine \<Rightarrow> VgicRef \<Rightarrow> usize \<Rightarrow> usize \<Rightarrow> u16 option" where
  "cpu_priv_curr_lrs m g c idx = do { p \<leftarrow> cpu_priv m g c; vec_get (cp_curr_lrs p) idx }"

definition cpu_priv_sgis_pend :: "Machine \<Rightarrow> VgicRef \<Rightarrow> usize \<Rightarrow> usize \<Rightarrow> u8 option" where
  "cpu_priv_sgis_pend m g c idx = do { p \<leftarrow> cpu_priv m g c; s \<leftarrow> vec_get (cp_sgis p) idx; Some (sg_pend s) }"

definition cpu_priv_sgis_act :: "Machine \<Rightarrow> VgicRef \<Rightarrow> usize \<Rightarrow> usize \<Rightarrow> u8 option" where
  "cpu_priv_sgis_act m g c idx = do { p \<leftarrow> cpu_priv m g c; s \<leftarrow> vec_get (cp_sgis p) idx; Some (sg_act s) }"

definition set_cpu_priv_curr_lrs :: "VgicRef \<Rightarrow> usize \<Rightarrow> usize \<Rightarrow> u16 \<Rightarrow> Machine \<Rightarrow> Machine option" where
  "set_cpu_priv_curr_lrs g c idx val m = do {
     p \<leftarrow> cpu_priv m g c;
     xs \<leftarrow> vec_set (cp_curr_lrs p) idx val;
     upd_cpu_priv g c (\<lambda>p. p\<lparr>cp_curr_lrs := xs\<rparr>) m }"

definition set_cpu_priv_sgis_pend :: "VgicRef \<Rightarrow> usize \<Rightarrow> usize \<Rightarrow> u8 \<Rightarrow> Machine \<Rightarrow> Machine option" where
  "set_cpu_priv_sgis_pend g c idx pend m = do {
     p \<leftarrow> cpu_priv m g c;
     s \<leftarrow> vec_get (cp_sgis p) idx;
     xs \<leftarrow> vec_set (cp_sgis p) idx (s\<lparr>sg_pend := pend\<rparr>);
     upd_cpu_priv g c (\<lambda>p. p\<lparr>cp_sgis := xs\<rparr>) m }"

definition set_cpu_priv_sgis_act :: "VgicRef \<Rightarrow> usize \<Rightarrow> usize \<Rightarrow> u8 \<Rightarrow> Machine \<Rightarrow> Machine option" where
  "set_cpu_priv_sgis_act g c idx act m = do {
     p \<leftarrow> cpu_priv m g c;
     s \<leftarrow> vec_get (cp_sgis p) idx;
     xs \<leftarrow> vec_set (cp_sgis p) idx (s\<lparr>sg_act := act\<rparr>);
     upd_cpu_priv g c (\<lambda>p. p\<lparr>cp_sgis := xs\<rparr>) m }"

definition vgicd_interrupt :: "Machine \<Rightarrow> VgicRef \<Rightarrow> usize \<Rightarrow> IntRef option" where
  "vgicd_interrupt m g idx = vec_get (vd_interrupts (vg_vgicd (m_vgics m g))) idx"

text \<open>The outer \<open>option\<close> is a panic, the inner one the result: an identifier from 1024 on is no interrupt.\<close>

definition get_int :: "Machine \<Rightarrow> VgicRef \<Rightarrow> VcpuRef \<Rightarrow> usize \<Rightarrow> IntRef option option" where
  "get_int m g v ident =
     (if ident < GIC_PRIVINT_NUM then do { i \<leftarrow> cpu_priv_interrupt m g (vc_id (vcpu m v)) ident; Some (Some i) }
      else if ident < GIC_INTS_MAX then do { i \<leftarrow> vgicd_interrupt m g (ident - GIC_PRIVINT_NUM); Some (Some i) }
      else Some None)"

section \<open>Pending and active lists\<close>

primrec remove_first :: "('a \<Rightarrow> bool) \<Rightarrow> 'a list \<Rightarrow> 'a list" where
  "remove_first P [] = []"
| "remove_first P (x # xs) = (if P x then xs else x # remove_first P xs)"

definition set_in_pend_state :: "IntRef \<Rightarrow> bool \<Rightarrow> Machine \<Rightarrow> Machine" where
  "set_in_pend_state i b = upd_int i (\<lambda>n. n\<lparr>vi_in_pend := b\<rparr>)"

definition set_in_act_state :: "IntRef \<Rightarrow> bool \<Rightarrow> Machine \<Rightarrow> Machine" where
  "set_in_act_state i b = upd_int i (\<lambda>n. n\<lparr>vi_in_act := b\<rparr>)"

definition remove_int_list :: "VgicRef \<Rightarrow> VcpuRef \<Rightarrow> IntRef \<Rightarrow> bool \<Rightarrow> Machine \<Rightarrow> Machine option" where
  "remove_int_list g v i pnd m =
     (let vcpu_id = vc_id (vcpu m v); same = (\<lambda>x. vi_id (vint m x) = vi_id (vint m i)) in
      if pnd then
        (if \<not> vi_in_pend (vint m i) then Some m
         else do {
           m \<leftarrow> upd_cpu_priv g vcpu_id (\<lambda>p. p\<lparr>cp_pend_list := remove_first same (cp_pend_list p)\<rparr>) m;
           Some (set_in_pend_state i False m) })
      else
        (if \<not> vi_in_act (vint m i) then Some m
         else do {
           m \<leftarrow> upd_cpu_priv g vcpu_id (\<lambda>p. p\<lparr>cp_act_list := remove_first same (cp_act_list p)\<rparr>) m;
           Some (set_in_act_state i False m) }))"

definition add_int_list :: "VgicRef \<Rightarrow> VcpuRef \<Rightarrow> IntRef \<Rightarrow> bool \<Rightarrow> Machine \<Rightarrow> Machine option" where
  "add_int_list g v i pnd m =
     (let vcpu_id = vc_id (vcpu m v) in
      if pnd then
        upd_cpu_priv g vcpu_id (\<lambda>p. p\<lparr>cp_pend_list := cp_pend_list p @ [i]\<rparr>) (set_in_pend_state i True m)
      else
        upd_cpu_priv g vcpu_id (\<lambda>p. p\<lparr>cp_act_list := cp_act_list p @ [i]\<rparr>) (set_in_act_state i True m))"

definition update_int_list :: "VgicRef \<Rightarrow> VcpuRef \<Rightarrow> IntRef \<Rightarrow> Machine \<Rightarrow> Machine option" where
  "update_int_list g v i m = do {
     let st = to_num (vi_state (vint m i));
     m \<leftarrow> (if bit st 0 \<and> \<not> vi_in_pend (vint m i) then add_int_list g v i True m
           else if \<not> bit st 0 then remove_int_list g v i True m
           else Some m);
     m \<leftarrow> (if bit st 1 \<and> \<not> vi_in_act (vint m i) then add_int_list g v i False m
           else if \<not> bit st 1 then remove_int_list g v i False m
           else Some m);
     if int_id m i < GIC_SGIS_NUM then do {
       p \<leftarrow> cpu_priv_sgis_pend m g (vc_id (vcpu m v)) (int_id m i);
       if p \<noteq> 0 \<and> \<not> vi_in_pend (vint m i) then add_int_list g v i True m else Some m }
     else Some m }"

definition int_list_head :: "Machine \<Rightarrow> VgicRef \<Rightarrow> VcpuRef \<Rightarrow> bool \<Rightarrow> IntRef option option" where
  "int_list_head m g v pnd = do {
     p \<leftarrow> cpu_priv m g (vc_id (vcpu m v));
     let xs = (if pnd then cp_pend_list p else cp_act_list p);
     Some (if xs = [] then None else Some (xs ! 0)) }"

section \<open>Ownership and state\<close>

definition vgic_owns :: "Machine \<Rightarrow> VcpuRef \<Rightarrow> IntRef \<Rightarrow> bool" where
  "vgic_owns m v i =
     (if gic_is_priv (int_id m i) then True
      else case vi_owner (vint m i) of
        Some w \<Rightarrow> vc_id (vcpu m w) = vc_id (vcpu m v) \<and> vc_phys_id (vcpu m w) = vc_phys_id (vcpu m v)
      | None \<Rightarrow> False)"

definition lr_id :: "u32 \<Rightarrow> u32" where "lr_id lr = lr AND 0b1111111111"
definition lr_prio :: "u32 \<Rightarrow> u32" where "lr_prio lr = drop_bit 23 lr AND 0b11111"
definition lr_state :: "u32 \<Rightarrow> u32" where "lr_state lr = drop_bit 28 lr AND 0b11"

definition gich_get_lr :: "Machine \<Rightarrow> IntRef \<Rightarrow> u32 option option" where
  "gich_get_lr m i = do {
     phys_id \<leftarrow> owner_phys_id m i;
     if \<not> vi_in_lr (vint m i) \<or> phys_id \<noteq> this_cpu m then Some None
     else do {
       lr_val \<leftarrow> gich_lr (gich m) (unat (vi_lr (vint m i)));
       Some (if lr_id lr_val = ucast (vi_id (vint m i)) \<and> lr_state lr_val \<noteq> 0 then Some lr_val else None) } }"

definition vgic_get_state :: "Machine \<Rightarrow> IntRef \<Rightarrow> u64 option" where
  "vgic_get_state m i = do {
     let st = of_nat (to_num (vi_state (vint m i)));
     st \<leftarrow> (if vi_in_lr (vint m i) then do {
              phys_id \<leftarrow> owner_phys_id m i;
              if phys_id = this_cpu m then do {
                lr \<leftarrow> gich_get_lr m i;
                Some (case lr of Some lr_val \<Rightarrow> ucast lr_val | None \<Rightarrow> st) }
              else Some st }
            else Some st);
     if int_id m i \<ge> GIC_SGIS_NUM then Some st
     else if vi_owner (vint m i) = None then Some st
     else do {
       r \<leftarrow> owner_vm m i;
       g \<leftarrow> vm_vgic m r;
       vcpu_id \<leftarrow> owner_id m i;
       p \<leftarrow> cpu_priv_sgis_pend m g vcpu_id (int_id m i);
       Some (if p \<noteq> 0 then st OR 1 else st) } }"

definition vgic_int_yield_owner :: "VcpuRef \<Rightarrow> IntRef \<Rightarrow> Machine \<Rightarrow> Machine option" where
  "vgic_int_yield_owner v i m =
     (if \<not> vgic_owns m v i then Some m
      else if gic_is_priv (int_id m i) \<or> vi_in_lr (vint m i) then Some m
      else do {
        st \<leftarrow> vgic_get_state m i;
        Some (if st AND 2 = 0 then upd_int i (\<lambda>n. n\<lparr>vi_owner := None\<rparr>) m else m) })"

definition vgic_int_is_hw :: "Machine \<Rightarrow> IntRef \<Rightarrow> bool" where
  "vgic_int_is_hw m i \<longleftrightarrow> int_id m i \<ge> GIC_SGIS_NUM \<and> vi_hw (vint m i)"

definition vgic_int_get_owner :: "VcpuRef \<Rightarrow> IntRef \<Rightarrow> Machine \<Rightarrow> (bool \<times> Machine) option" where
  "vgic_int_get_owner v i m = do {
     vmid \<leftarrow> vcpu_vm_id m v;
     case vi_owner (vint m i) of
       Some w \<Rightarrow> do {
         owner_vm_id \<leftarrow> vcpu_vm_id m w;
         Some (owner_vm_id = vmid \<and> vc_id (vcpu m w) = vc_id (vcpu m v), m) }
     | None \<Rightarrow> Some (True, upd_int i (\<lambda>n. n\<lparr>vi_owner := Some v\<rparr>) m) }"

section \<open>List registers\<close>

definition set_in_lr :: "IntRef \<Rightarrow> bool \<Rightarrow> Machine \<Rightarrow> Machine" where
  "set_in_lr i b = upd_int i (\<lambda>n. n\<lparr>vi_in_lr := b\<rparr>)"

definition int_set_state :: "IntRef \<Rightarrow> IrqState \<Rightarrow> Machine \<Rightarrow> Machine" where
  "int_set_state i st = upd_int i (\<lambda>n. n\<lparr>vi_state := st\<rparr>)"

text \<open>What \<open>remove_lr\<close> does with the value \<open>lr_val\<close> the list register held.\<close>

definition lr_writeback :: "VgicRef \<Rightarrow> VcpuRef \<Rightarrow> IntRef \<Rightarrow> u32 \<Rightarrow> Machine \<Rightarrow> Machine option" where
  "lr_writeback g v i lr_val m = do {
     st \<leftarrow> num_to_state (unat (lr_state lr_val));
     let m = int_set_state i st m;
     let ident = int_id m i;
     let vcpu_id = vc_id (vcpu m v);
     m \<leftarrow> (if ident < GIC_SGIS_NUM then
             if bit (to_num st) 1 then set_cpu_priv_sgis_act g vcpu_id ident (ucast (drop_bit 10 lr_val AND 0b111)) m
             else if bit (to_num st) 0 then do {
               pend \<leftarrow> cpu_priv_sgis_pend m g vcpu_id ident;
               set_cpu_priv_sgis_pend g vcpu_id ident (pend OR push_bit (unat (drop_bit 10 lr_val AND 0b111)) 1) m }
             else Some m
           else Some m);
     m \<leftarrow> update_int_list g v i m;
     Some (if bit (to_num (vi_state (vint m i))) 0 \<and> vi_enabled (vint m i) then or_hcr (push_bit 3 1) m else m) }"

definition remove_lr :: "VgicRef \<Rightarrow> VcpuRef \<Rightarrow> IntRef \<Rightarrow> Machine \<Rightarrow> (bool \<times> Machine) option" where
  "remove_lr g v i m =
     (if \<not> vgic_owns m v i then Some (False, m)
      else if \<not> vi_in_lr (vint m i) then Some (False, m)
      else do {
        lr \<leftarrow> gich_get_lr m i;
        (lr_val, m) \<leftarrow> (case lr of
            Some l \<Rightarrow> do { m' \<leftarrow> on_lr (unat (vi_lr (vint m i))) 0 m; Some (l, m') }
          | None \<Rightarrow> Some (0, m));
        let m = set_in_lr i False m;
        if lr_state lr_val \<noteq> 0 then do { m \<leftarrow> lr_writeback g v i lr_val m; Some (True, m) }
        else Some (False, m) })"

text \<open>\<open>while idx as isize >= 0\<close> from 7 down: the decrement of 0 panics when no source is pending.\<close>

primrec sgi_source :: "u8 \<Rightarrow> usize \<Rightarrow> usize option" where
  "sgi_source pend 0 = (if bit pend 0 then Some 0 else None)"
| "sgi_source pend (Suc k) = (if bit pend (Suc k) then Some (Suc k) else sgi_source pend k)"

definition lr_base :: "usize \<Rightarrow> u8 \<Rightarrow> u64" where
  "lr_base ident prio = (of_nat ident AND 0b1111111111) OR push_bit 23 (drop_bit 3 (ucast prio) AND 0b11111)"

definition lr_sgi :: "VgicRef \<Rightarrow> usize \<Rightarrow> usize \<Rightarrow> u64 \<Rightarrow> u64 \<Rightarrow> Machine \<Rightarrow> (u64 \<times> Machine) option" where
  "lr_sgi g vcpu_id ident st lr m = do {
     (lr, m) \<leftarrow> (if st AND 2 \<noteq> 0 then do {
         act \<leftarrow> cpu_priv_sgis_act m g vcpu_id ident;
         Some (lr OR (push_bit 10 (ucast act) AND push_bit 10 0b111) OR push_bit 28 2, m) }
       else do {
         pend \<leftarrow> cpu_priv_sgis_pend m g vcpu_id ident;
         idx \<leftarrow> sgi_source pend (GIC_TARGETS_MAX - 1);
         m \<leftarrow> set_cpu_priv_sgis_pend g vcpu_id ident (pend AND NOT (push_bit idx 1)) m;
         Some (lr OR push_bit 10 (of_nat idx AND 0b111) OR push_bit 28 1, m) });
     pend \<leftarrow> cpu_priv_sgis_pend m g vcpu_id ident;
     Some (if pend \<noteq> 0 then lr OR push_bit 19 1 else lr, m) }"

definition lr_encode :: "VgicRef \<Rightarrow> VcpuRef \<Rightarrow> IntRef \<Rightarrow> u64 \<Rightarrow> Machine \<Rightarrow> (u64 \<times> Machine) option" where
  "lr_encode g v i st m = do {
     let ident = int_id m i;
     let vcpu_id = vc_id (vcpu m v);
     let lr = lr_base ident (vi_prio (vint m i));
     if vgic_int_is_hw m i then do {
       let lr = lr OR push_bit 31 1;
       let lr = lr OR push_bit 10 (0b1111111111 AND of_nat ident);
       let lr = (if st = 3 then lr OR push_bit 28 2 else lr OR push_bit 28 (st AND 0b11));
       s \<leftarrow> gicd_state (gicd m) ident;
       m \<leftarrow> (if s \<noteq> 2 then on_gicd (gicd_set_state (this_cpu m) ident 2) m else Some m);
       Some (lr, m) }
     else if ident < GIC_SGIS_NUM then lr_sgi g vcpu_id ident st lr m
     else do {
       let lr = (if \<not> gic_is_priv ident \<and> \<not> vgic_int_is_hw m i then lr OR push_bit 19 1 else lr);
       Some (lr OR push_bit 28 (st AND 0b11), m) } }"

text \<open>The interrupt that had the list register before gives it up.\<close>

definition evict_prev :: "VgicRef \<Rightarrow> VcpuRef \<Rightarrow> usize \<Rightarrow> usize \<Rightarrow> Machine \<Rightarrow> Machine option" where
  "evict_prev g v prev_int_id lr_ind m = do {
     po \<leftarrow> get_int m g v prev_int_id;
     case po of
       Some p \<Rightarrow>
         (if vgic_owns m v p \<and> vi_in_lr (vint m p) \<and> vi_lr (vint m p) = of_nat lr_ind then do {
            let m = set_in_lr p False m;
            if \<not> gic_is_priv (int_id m p) then vgic_int_yield_owner v p m else Some m }
          else Some m)
     | None \<Rightarrow> Some m }"

definition write_lr :: "VgicRef \<Rightarrow> VcpuRef \<Rightarrow> IntRef \<Rightarrow> usize \<Rightarrow> Machine \<Rightarrow> Machine option" where
  "write_lr g v i lr_ind m = do {
     let vcpu_id = vc_id (vcpu m v);
     let ident = int_id m i;
     prev \<leftarrow> cpu_priv_curr_lrs m g vcpu_id lr_ind;
     m \<leftarrow> (if unat prev \<noteq> ident then evict_prev g v (unat prev) lr_ind m else Some m);
     st \<leftarrow> vgic_get_state m i;
     (lr, m) \<leftarrow> lr_encode g v i st m;
     let m = upd_int i (\<lambda>n. n\<lparr>vi_state := IrqSInactive, vi_in_lr := True, vi_lr := of_nat lr_ind\<rparr>) m;
     m \<leftarrow> set_cpu_priv_curr_lrs g vcpu_id lr_ind (of_nat ident) m;
     m \<leftarrow> on_lr lr_ind (ucast lr) m;
     update_int_list g v i m }"

record LrScan =
  ls_pend_found :: nat
  ls_act_found :: nat
  ls_min_prio_act :: u32
  ls_min_prio_pend :: u32
  ls_act_ind :: "usize option"
  ls_pend_ind :: "usize option"

definition lr_scan :: "Machine \<Rightarrow> LrScan option" where
  "lr_scan m =
     for_range 0 (m_gic_lrs m) (\<lambda>i s. do {
       lr \<leftarrow> gich_lr (gich m) i;
       let prio = lr_prio lr;
       let st = lr_state lr;
       Some (if st AND 2 \<noteq> 0 then
               (let s = (if prio > ls_min_prio_act s then s\<lparr>ls_min_prio_act := prio, ls_act_ind := Some i\<rparr> else s)
                in s\<lparr>ls_act_found := ls_act_found s + 1\<rparr>)
             else if st AND 1 \<noteq> 0 then
               (let s = (if prio > ls_min_prio_pend s then s\<lparr>ls_min_prio_pend := prio, ls_pend_ind := Some i\<rparr> else s)
                in s\<lparr>ls_pend_found := ls_pend_found s + 1\<rparr>)
             else s) })
     \<lparr>ls_pend_found = 0, ls_act_found = 0, ls_min_prio_act = 0, ls_min_prio_pend = 0, ls_act_ind = None, ls_pend_ind = None\<rparr>"

definition lr_empty :: "Machine \<Rightarrow> usize \<Rightarrow> bool" where
  "lr_empty m i \<longleftrightarrow> bit (gich_elrsr (gich m) (i div 32)) (i mod 32)"

definition spill_lr :: "VgicRef \<Rightarrow> VcpuRef \<Rightarrow> Machine \<Rightarrow> (usize option \<times> Machine) option" where
  "spill_lr g v m = do {
     s \<leftarrow> lr_scan m;
     let lr_ind = (if ls_pend_found s > 1 then ls_pend_ind s else if ls_act_found s > 1 then ls_act_ind s else None);
     case lr_ind of
       Some idx \<Rightarrow> do {
         lr \<leftarrow> gich_lr (gich m) idx;
         so \<leftarrow> get_int m g v (unat (lr_id lr));
         spilled \<leftarrow> so;
         (_, m) \<leftarrow> remove_lr g v spilled m;
         m \<leftarrow> vgic_int_yield_owner v spilled m;
         Some (Some idx, m) }
     | None \<Rightarrow> Some (None, m) }"

definition add_lr :: "VgicRef \<Rightarrow> VcpuRef \<Rightarrow> IntRef \<Rightarrow> Machine \<Rightarrow> (bool \<times> Machine) option" where
  "add_lr g v i m =
     (if \<not> vi_enabled (vint m i) \<or> vi_in_lr (vint m i) then Some (False, m)
      else do {
        (lr_ind, m) \<leftarrow> (case find (lr_empty m) [0..<m_gic_lrs m] of
            Some idx \<Rightarrow> Some (Some idx, m)
          | None \<Rightarrow> spill_lr g v m);
        case lr_ind of
          Some idx \<Rightarrow> do { m \<leftarrow> write_lr g v i idx m; Some (True, m) }
        | None \<Rightarrow> do {
            st \<leftarrow> vgic_get_state m i;
            Some (False, if st AND 1 \<noteq> 0 then or_hcr (push_bit 3 1) m else m) } })"

definition Initc_msg :: "InitcEvent \<Rightarrow> usize \<Rightarrow> u16 \<Rightarrow> u8 \<Rightarrow> IpiInnerMsg" where
  "Initc_msg e vmid ident val = Initc \<lparr>im_event = e, im_vm_id = vmid, im_int_id = ident, im_val = val\<rparr>"

definition route :: "VgicRef \<Rightarrow> VcpuRef \<Rightarrow> IntRef \<Rightarrow> Machine \<Rightarrow> Machine option" where
  "route g v i m =
     (let cpu_id = this_cpu m in
      if vi_state (vint m i) = IrqSInactive then Some m
      else if \<not> vi_enabled (vint m i) then Some m
      else do {
        assert_that (cpu_id < 8);
        let int_targets = vi_targets (vint m i);
        (_, m) \<leftarrow> (if int_targets AND push_bit cpu_id 1 \<noteq> 0 then add_lr g v i m else Some (False, m));
        if \<not> vi_in_lr (vint m i) \<and> int_targets AND NOT (push_bit cpu_id 1) \<noteq> 0 then do {
          vmid \<leftarrow> vcpu_vm_id m v;
          let msg = Initc_msg VgicdRoute vmid (vi_id (vint m i)) 0;
          m \<leftarrow> vgic_int_yield_owner v i m;
          r \<leftarrow> active_vm m;
          (_, m) \<leftarrow> ipi_intra_broadcast_msg r IpiTIntc msg m;
          Some m }
        else Some m })"

section \<open>Operations of the distributor interface\<close>

text \<open>\<open>bit_extract(int_id, 0, 10)\<close> and \<open>bit_extract(int_id, 10, 5)\<close> on an interrupt number.\<close>

abbreviation int_number :: "usize \<Rightarrow> usize" where "int_number n \<equiv> take_bit 10 n"
abbreviation int_source :: "usize \<Rightarrow> usize" where "int_source n \<equiv> take_bit 5 (drop_bit 10 n)"

text \<open>The message to the core of the owner; a failure to send is only logged.\<close>

definition send_to_owner :: "InitcEvent \<Rightarrow> VcpuRef \<Rightarrow> IntRef \<Rightarrow> u8 \<Rightarrow> Machine \<Rightarrow> Machine option" where
  "send_to_owner e v i val m = do {
     phys_id \<leftarrow> owner_phys_id m i;
     vmid \<leftarrow> vcpu_vm_id m v;
     (_, m) \<leftarrow> ipi_send_msg phys_id IpiTIntc (Initc_msg e vmid (vi_id (vint m i)) val) m;
     Some m }"

text \<open>
  The shape the set operations share: the virtual CPU that owns the interrupt, or takes it when nobody
  does, changes it and gives it up again; otherwise the owner's core is told.
\<close>

definition with_owner :: "VcpuRef \<Rightarrow> IntRef \<Rightarrow> (Machine \<Rightarrow> Machine option) \<Rightarrow> InitcEvent \<Rightarrow> u8 \<Rightarrow> Machine \<Rightarrow> Machine option" where
  "with_owner v i body e val m = do {
     (own, m) \<leftarrow> vgic_int_get_owner v i m;
     if own then do { m \<leftarrow> body m; vgic_int_yield_owner v i m }
     else send_to_owner e v i val m }"

definition enable_owned :: "VgicRef \<Rightarrow> VcpuRef \<Rightarrow> IntRef \<Rightarrow> bool \<Rightarrow> Machine \<Rightarrow> Machine option" where
  "enable_owned g v i en m =
     (if vi_enabled (vint m i) \<noteq> en then do {
        let m = upd_int i (\<lambda>n. n\<lparr>vi_enabled := en\<rparr>) m;
        m \<leftarrow> (if \<not> vi_enabled (vint m i) then do { (_, m) \<leftarrow> remove_lr g v i m; Some m }
              else route g v i m);
        if vi_hw (vint m i) then on_gicd (gicd_set_enable (int_id m i) en) m else Some m }
      else Some m)"

definition vgic_set_enable :: "VgicRef \<Rightarrow> VcpuRef \<Rightarrow> usize \<Rightarrow> bool \<Rightarrow> Machine \<Rightarrow> Machine option" where
  "vgic_set_enable g v ident en m =
     (if ident < GIC_SGIS_NUM then Some m
      else do {
        io \<leftarrow> get_int m g v ident;
        case io of
          None \<Rightarrow> Some m
        | Some i \<Rightarrow> with_owner v i (enable_owned g v i en) VgicdSetEn (of_bool en) m })"

definition vgic_get_enable :: "Machine \<Rightarrow> VgicRef \<Rightarrow> VcpuRef \<Rightarrow> usize \<Rightarrow> bool option" where
  "vgic_get_enable m g v ident = do { io \<leftarrow> get_int m g v ident; i \<leftarrow> io; Some (vi_enabled (vint m i)) }"

definition sgi_set_pend :: "VgicRef \<Rightarrow> VcpuRef \<Rightarrow> usize \<Rightarrow> bool \<Rightarrow> Machine \<Rightarrow> Machine option" where
  "sgi_set_pend g v ident pend m =
     (if int_number ident > GIC_SGIS_NUM then Some m
      else do {
        io \<leftarrow> get_int m g v (int_number ident);
        case io of
          None \<Rightarrow> Some m
        | Some i \<Rightarrow> do {
            (_, m) \<leftarrow> remove_lr g v i m;
            let vcpu_id = vc_id (vcpu m v);
            let n = int_id m i;
            pendstate \<leftarrow> cpu_priv_sgis_pend m g vcpu_id n;
            let src = push_bit (int_source ident) (1 :: u8);
            let new_pendstate = (if pend then pendstate OR src else pendstate AND NOT src);
            if pendstate XOR new_pendstate \<noteq> 0 then do {
              m \<leftarrow> set_cpu_priv_sgis_pend g vcpu_id n new_pendstate m;
              let st = to_num (vi_state (vint m i));
              st' \<leftarrow> num_to_state (if new_pendstate \<noteq> 0 then st OR 1 else unset_bit 0 st);
              let m = int_set_state i st' m;
              m \<leftarrow> update_int_list g v i m;
              if vi_state (vint m i) = IrqSInactive then Some m
              else do { (_, m) \<leftarrow> add_lr g v i m; Some m } }
            else Some m } })"

text \<open>
  \<open>set_pend\<close> and \<open>set_active\<close> once the virtual CPU owns the interrupt: take it out of the list
  register, change bit \<open>b\<close> of its state, and route it again.
\<close>

definition change_state_bit :: "IntRef \<Rightarrow> nat \<Rightarrow> bool \<Rightarrow> Machine \<Rightarrow> Machine option" where
  "change_state_bit i b x m =
     (let st = to_num (vi_state (vint m i)) in
      if x \<and> \<not> bit st b then do { st' \<leftarrow> num_to_state (set_bit b st); Some (int_set_state i st' m) }
      else if \<not> x \<and> bit st b then do { st' \<leftarrow> num_to_state (unset_bit b st); Some (int_set_state i st' m) }
      else Some m)"

definition set_state_bit :: "VgicRef \<Rightarrow> VcpuRef \<Rightarrow> IntRef \<Rightarrow> nat \<Rightarrow> bool \<Rightarrow> Machine \<Rightarrow> Machine option" where
  "set_state_bit g v i b x m = do {
     (_, m) \<leftarrow> remove_lr g v i m;
     m \<leftarrow> change_state_bit i b x m;
     m \<leftarrow> update_int_list g v i m;
     let st = to_num (vi_state (vint m i));
     m \<leftarrow> (if vi_hw (vint m i) then on_gicd (gicd_set_state (this_cpu m) (int_id m i) (if st = 1 then 2 else st)) m
           else Some m);
     route g v i m }"

definition vgic_set_pend :: "VgicRef \<Rightarrow> VcpuRef \<Rightarrow> usize \<Rightarrow> bool \<Rightarrow> Machine \<Rightarrow> Machine option" where
  "vgic_set_pend g v ident pend m =
     (if int_number ident < GIC_SGIS_NUM then sgi_set_pend g v ident pend m
      else do {
        io \<leftarrow> get_int m g v (int_number ident);
        case io of
          None \<Rightarrow> Some m
        | Some i \<Rightarrow> with_owner v i (set_state_bit g v i 0 pend) VgicdSetPend (of_bool pend) m })"

definition vgic_set_active :: "VgicRef \<Rightarrow> VcpuRef \<Rightarrow> usize \<Rightarrow> bool \<Rightarrow> Machine \<Rightarrow> Machine option" where
  "vgic_set_active g v ident act m = do {
     io \<leftarrow> get_int m g v (int_number ident);
     case io of
       None \<Rightarrow> Some m
     | Some i \<Rightarrow> with_owner v i (set_state_bit g v i 1 act) VgicdSetPend (of_bool act) m }"

definition icfgr_owned :: "IntRef \<Rightarrow> u8 \<Rightarrow> Machine \<Rightarrow> Machine option" where
  "icfgr_owned i cfg m =
     (let m = upd_int i (\<lambda>n. n\<lparr>vi_cfg := cfg\<rparr>) m in
      if vi_hw (vint m i) then on_gicd (gicd_set_icfgr (int_id m i) cfg) m else Some m)"

definition vgic_set_icfgr :: "VgicRef \<Rightarrow> VcpuRef \<Rightarrow> usize \<Rightarrow> u8 \<Rightarrow> Machine \<Rightarrow> Machine option" where
  "vgic_set_icfgr g v ident cfg m = do {
     io \<leftarrow> get_int m g v ident;
     i \<leftarrow> io;
     with_owner v i (icfgr_owned i cfg) VgicdSetCfg cfg m }"

definition vgic_get_icfgr :: "Machine \<Rightarrow> VgicRef \<Rightarrow> VcpuRef \<Rightarrow> usize \<Rightarrow> u8 option" where
  "vgic_get_icfgr m g v ident = do { io \<leftarrow> get_int m g v ident; i \<leftarrow> io; Some (vi_cfg (vint m i)) }"

definition prio_owned :: "VgicRef \<Rightarrow> VcpuRef \<Rightarrow> IntRef \<Rightarrow> u8 \<Rightarrow> Machine \<Rightarrow> Machine option" where
  "prio_owned g v i prio m =
     (if vi_prio (vint m i) \<noteq> prio then do {
        (_, m) \<leftarrow> remove_lr g v i m;
        let prev_prio = vi_prio (vint m i);
        let m = upd_int i (\<lambda>n. n\<lparr>vi_prio := prio\<rparr>) m;
        m \<leftarrow> (if prio \<le> prev_prio then route g v i m else Some m);
        if vi_hw (vint m i) then on_gicd (gicd_set_prio (int_id m i) prio) m else Some m }
      else Some m)"

definition vgic_set_prio :: "VgicRef \<Rightarrow> VcpuRef \<Rightarrow> usize \<Rightarrow> u8 \<Rightarrow> Machine \<Rightarrow> Machine option" where
  "vgic_set_prio g v ident prio0 m = do {
     io \<leftarrow> get_int m g v ident;
     let prio = prio0 AND 0xf0;
     case io of
       None \<Rightarrow> Some m
     | Some i \<Rightarrow> with_owner v i (prio_owned g v i prio) VgicdSetPrio prio m }"

definition vgic_get_prio :: "Machine \<Rightarrow> VgicRef \<Rightarrow> VcpuRef \<Rightarrow> usize \<Rightarrow> u8 option" where
  "vgic_get_prio m g v ident = do { io \<leftarrow> get_int m g v ident; i \<leftarrow> io; Some (vi_prio (vint m i)) }"

text \<open>The targets of the guest's interrupt as CPU interfaces of the physical distributor.\<close>

definition phys_targets :: "Board \<Rightarrow> u8 \<Rightarrow> u64 option" where
  "phys_targets b trgt =
     for_range 0 8 (\<lambda>cpuid p. if bit trgt cpuid then bit_set p (cpuid_to_cpuif b cpuid) else Some p) 0"

definition trgt_owned :: "VgicRef \<Rightarrow> VcpuRef \<Rightarrow> IntRef \<Rightarrow> u8 \<Rightarrow> Machine \<Rightarrow> Machine option" where
  "trgt_owned g v i trgt m =
     (if vi_targets (vint m i) \<noteq> trgt then do {
        let m = upd_int i (\<lambda>n. n\<lparr>vi_targets := trgt\<rparr>) m;
        ptrgt \<leftarrow> phys_targets (m_board m) trgt;
        m \<leftarrow> (if vi_hw (vint m i) then on_gicd (gicd_set_trgt (int_id m i) (ucast ptrgt)) m else Some m);
        st \<leftarrow> vgic_get_state m i;
        if st \<noteq> 0 then route g v i m else Some m }
      else Some m)"

definition vgic_set_trgt :: "VgicRef \<Rightarrow> VcpuRef \<Rightarrow> usize \<Rightarrow> u8 \<Rightarrow> Machine \<Rightarrow> Machine option" where
  "vgic_set_trgt g v ident trgt m = do {
     io \<leftarrow> get_int m g v ident;
     case io of
       None \<Rightarrow> Some m
     | Some i \<Rightarrow> with_owner v i (trgt_owned g v i trgt) VgicdSetTrgt trgt m }"

definition vgic_get_trgt :: "Machine \<Rightarrow> VgicRef \<Rightarrow> VcpuRef \<Rightarrow> usize \<Rightarrow> u8 option" where
  "vgic_get_trgt m g v ident = do { io \<leftarrow> get_int m g v ident; i \<leftarrow> io; Some (vi_targets (vint m i)) }"

definition inject :: "VgicRef \<Rightarrow> VcpuRef \<Rightarrow> usize \<Rightarrow> Machine \<Rightarrow> Machine option" where
  "inject g v ident m = do {
     io \<leftarrow> get_int m g v (int_number ident);
     case io of
       None \<Rightarrow> Some m
     | Some i \<Rightarrow>
         if vi_hw (vint m i) then do {
           let m = upd_int i (\<lambda>n. n\<lparr>vi_owner := Some v\<rparr>) m;
           let m = int_set_state i IrqSPend m;
           m \<leftarrow> update_int_list g v i m;
           let m = set_in_lr i False m;
           route g v i m }
         else vgic_set_pend g v ident True m }"

section \<open>Maintenance interrupts\<close>

definition reg64 :: "(usize \<Rightarrow> u32) \<Rightarrow> u64" where
  "reg64 f = ucast (f 0) OR push_bit 32 (ucast (f 1))"

definition eoi_lr :: "Machine \<Rightarrow> usize option option" where
  "eoi_lr m = bitmap_find_nth (reg64 (gich_eisr (gich m))) 0 (m_gic_lrs m) 1 True"

definition free_lr :: "Machine \<Rightarrow> usize option option" where
  "free_lr m = bitmap_find_nth (reg64 (gich_elrsr (gich m))) 0 (m_gic_lrs m) 1 True"

definition trapped_eoir :: "VgicRef \<Rightarrow> VcpuRef \<Rightarrow> usize \<Rightarrow> Machine \<Rightarrow> Machine option" where
  "trapped_eoir g v lr_idx m = do {
     lr_val \<leftarrow> gich_lr (gich m) lr_idx;
     m \<leftarrow> on_lr lr_idx 0 m;
     io \<leftarrow> get_int m g v (unat (lr_id lr_val));
     i \<leftarrow> io;
     let m = set_in_lr i False m;
     if int_id m i < GIC_SGIS_NUM then do { (_, m) \<leftarrow> add_lr g v i m; Some m }
     else vgic_int_yield_owner v i m }"

text \<open>
  The two loops of the maintenance handler ask the hardware after every round whether a list register
  is left: a loop that does not end is \<open>None\<close>, as a panic is.
\<close>

partial_function (option) trapped_eoir_loop :: "VgicRef \<Rightarrow> VcpuRef \<Rightarrow> Machine \<Rightarrow> Machine option" where
  "trapped_eoir_loop g v m = do {
     lr_idx_opt \<leftarrow> eoi_lr m;
     case lr_idx_opt of
       None \<Rightarrow> Some m
     | Some lr_idx \<Rightarrow> do { m \<leftarrow> trapped_eoir g v lr_idx m; trapped_eoir_loop g v m } }"

definition handle_trapped_eoir :: "VgicRef \<Rightarrow> VcpuRef \<Rightarrow> Machine \<Rightarrow> Machine option" where
  "handle_trapped_eoir g v m = trapped_eoir_loop g v m"

definition refill_candidate :: "Machine \<Rightarrow> VgicRef \<Rightarrow> VcpuRef \<Rightarrow> bool \<Rightarrow> (IntRef \<times> bool) option option" where
  "refill_candidate m g v has_pending = do {
     act_head \<leftarrow> int_list_head m g v False;
     pend_head \<leftarrow> int_list_head m g v True;
     let from_act = (case act_head of
         Some a \<Rightarrow> if has_pending \<and> \<not> vi_in_lr (vint m a) then Some (a, False) else None
       | None \<Rightarrow> None);
     Some (case from_act of
         Some x \<Rightarrow> Some x
       | None \<Rightarrow> (case pend_head of
             Some p \<Rightarrow> if \<not> vi_in_lr (vint m p) then Some (p, True) else None
           | None \<Rightarrow> None)) }"

partial_function (option) refill_loop :: "VgicRef \<Rightarrow> VcpuRef \<Rightarrow> bool \<Rightarrow> Machine \<Rightarrow> Machine option" where
  "refill_loop g v has_pending m = do {
     lr_idx_opt \<leftarrow> free_lr m;
     case lr_idx_opt of
       None \<Rightarrow> Some m
     | Some lr_idx \<Rightarrow> do {
         c \<leftarrow> refill_candidate m g v has_pending;
         case c of
           None \<Rightarrow> Some (clear_hcr (push_bit 3 1) m)
         | Some ip \<Rightarrow> do {
             (_, m) \<leftarrow> vgic_int_get_owner v (fst ip) m;
             m \<leftarrow> write_lr g v (fst ip) lr_idx m;
             refill_loop g v (has_pending \<or> snd ip) m } } }"

definition lrs_pending :: "Machine \<Rightarrow> bool option" where
  "lrs_pending m = for_range 0 (m_gic_lrs m) (\<lambda>i b. do {
     lr \<leftarrow> gich_lr (gich m) i;
     Some (b \<or> lr_state lr AND 1 \<noteq> 0) }) False"

definition refill_lrs :: "VgicRef \<Rightarrow> VcpuRef \<Rightarrow> Machine \<Rightarrow> Machine option" where
  "refill_lrs g v m = do { p \<leftarrow> lrs_pending m; refill_loop g v p m }"

definition eoir_highest_spilled_active :: "VgicRef \<Rightarrow> VcpuRef \<Rightarrow> Machine \<Rightarrow> Machine option" where
  "eoir_highest_spilled_active g v m = do {
     io \<leftarrow> int_list_head m g v False;
     case io of
       None \<Rightarrow> Some m
     | Some i \<Rightarrow> do {
         (_, m) \<leftarrow> vgic_int_get_owner v i m;
         st \<leftarrow> num_to_state (unset_bit 1 (to_num (vi_state (vint m i))));
         let m = int_set_state i st m;
         m \<leftarrow> update_int_list g v i m;
         if vgic_int_is_hw m i then on_gicd (gicd_set_act (int_id m i) False) m
         else if bit (to_num (vi_state (vint m i))) 0 then do { (_, m) \<leftarrow> add_lr g v i m; Some m }
         else Some m } }"

lemma hcr_count_step:
  fixes hcr :: u32
  assumes "hcr AND push_bit 27 0b11111 \<noteq> 0"
  shows "unat (hcr - push_bit 27 1) = unat hcr - 2 ^ 27 \<and> 2 ^ 27 \<le> unat hcr"
proof -
  have "2 ^ 27 \<le> unat hcr"
  proof (rule ccontr)
    assume "\<not> 2 ^ 27 \<le> unat hcr"
    then have "take_bit 27 (unat hcr) = unat hcr" by (simp add: take_bit_nat_eq_self)
    then have "\<not> bit (unat hcr) n" if "27 \<le> n" for n using that by (metis bit_take_bit_iff linorder_not_less)
    then have "\<not> bit hcr n" if "27 \<le> n" for n using that by (auto simp: bit_unsigned_iff)
    then have "\<not> bit (hcr AND push_bit 27 0b11111) n" for n
      unfolding bit_and_iff bit_push_bit_iff by auto
    then have "hcr AND push_bit 27 0b11111 = 0" by (metis bit_eqI bit_0_eq bot_apply bot_bool_def)
    with assms show False ..
  qed
  then show ?thesis by (simp add: unat_sub word_le_nat_alt)
qed

function eoi_count_loop :: "VgicRef \<Rightarrow> u32 \<Rightarrow> Machine \<Rightarrow> Machine option" where
  "eoi_count_loop g hcr m =
     (if hcr AND push_bit 27 0b11111 = 0 then Some m
      else do {
        v \<leftarrow> active_vcpu m;
        m \<leftarrow> eoir_highest_spilled_active g v m;
        let m = set_gich (gich m\<lparr>gh_hcr := hcr - push_bit 27 1\<rparr>) m;
        eoi_count_loop g (gh_hcr (gich m)) m })"
  by pat_completeness auto

termination
  by (relation "measure (\<lambda>(g, hcr, m). unat hcr)") (auto simp: set_gich_def upd_hw_def dest!: hcr_count_step[simplified])

declare eoi_count_loop.simps [simp del]

definition gic_maintenance_handler :: "Machine \<Rightarrow> Machine option" where
  "gic_maintenance_handler m = do {
     let misr = gich_misr (gich m);
     r \<leftarrow> active_vm m;
     g \<leftarrow> vm_vgic m r;
     m \<leftarrow> (if bit misr 0 then do { v \<leftarrow> active_vcpu m; handle_trapped_eoir g v m } else Some m);
     m \<leftarrow> (if bit misr 3 then do { v \<leftarrow> active_vcpu m; refill_lrs g v m } else Some m);
     if bit misr 2 then eoi_count_loop g (gh_hcr (gich m)) m else Some m }"

end
