(* ===== verification/VgicEmu.thy ===== *)
theory VgicEmu
  imports Vgic
begin

text \<open>
  The register interface of the virtual distributor and the messages between the cores of a guest,
  from \<open>src/src/arch/aarch64/vgic.rs\<close>: the \<open>emu_*_access\<close> functions behind \<open>emu_intc_handler\<close>,
  \<open>vgic_ipi_handler\<close>, and the creation of a controller.
\<close>

section \<open>Access checks\<close>

definition reg_prefix :: "EmuContext \<Rightarrow> usize" where
  "reg_prefix c = drop_bit 7 ((ec_address c AND 0xfff) AND 0xf80)"

definition vgicd_emu_access_is_vaild :: "EmuContext \<Rightarrow> bool" where
  "vgicd_emu_access_is_vaild c =
     (let offset = ec_address c AND 0xfff; prefix = reg_prefix c in
      if prefix \<in> {0x0, 0x2, 0x4, 0x6, 0x3, 0x5, 0x7, 0x18} then
        \<not> (ec_width c \<noteq> 4 \<or> ec_address c AND 0x3 \<noteq> 0)
      else if prefix = 0x1e then
        \<not> (ec_width c = 4 \<and> ec_address c AND 0x3 \<noteq> 0 \<or> ec_width c = 2 \<and> ec_address c AND 0x1 \<noteq> 0)
      else if offset \<ge> 0x400 \<and> offset < 0xc00 then
        \<not> (ec_width c = 4 \<and> ec_address c AND 0x3 \<noteq> 0 \<or> ec_width c = 2 \<and> ec_address c AND 0x1 \<noteq> 0)
      else True)"

text \<open>The loop that looks for an interrupt of the guest among \<open>n\<close> numbers from \<open>first\<close> on.\<close>

definition vm_has_any :: "Machine \<Rightarrow> VmRef \<Rightarrow> usize \<Rightarrow> usize \<Rightarrow> bool option" where
  "vm_has_any m r first n = do {
     h \<leftarrow> find_loop (\<lambda>i. do {
         a \<leftarrow> has_interrupt m r (first + i);
         b \<leftarrow> (if a then Some True else emu_has_interrupt m r (first + i));
         Some (if b then Some () else None) }) [0..<n];
     Some (h \<noteq> None) }"

definition write_val :: "EmuContext \<Rightarrow> Machine \<Rightarrow> u64 option" where
  "write_val c m = (if ec_write c then get_gpr m (ec_reg c) else Some 0)"

section \<open>Registers of the distributor\<close>

definition emu_ctrl_access :: "VgicRef \<Rightarrow> EmuContext \<Rightarrow> Machine \<Rightarrow> Machine option" where
  "emu_ctrl_access g c m =
     (if ec_write c then do {
        let prev_ctlr = vd_ctlr (vg_vgicd (m_vgics m g));
        val \<leftarrow> get_gpr m (ec_reg c);
        let ctlr = (ucast val :: u32) AND 1;
        let m = upd_vgic g (\<lambda>x. x\<lparr>vg_vgicd := (vg_vgicd x)\<lparr>vd_ctlr := ctlr\<rparr>\<rparr>) m;
        if prev_ctlr XOR ctlr \<noteq> 0 then do {
          let enable = (ctlr \<noteq> 0);
          let m = (if enable then or_hcr 1 m else clear_hcr 1 m);
          r \<leftarrow> active_vm m;
          vmid \<leftarrow> active_vm_id m;
          (_, m) \<leftarrow> ipi_intra_broadcast_msg r IpiTIntc (Initc_msg VgicdGichEn vmid 0 (of_bool enable)) m;
          Some m }
        else Some m }
      else set_gpr (ec_reg c) (ucast (vd_ctlr (vg_vgicd (m_vgics m g)))) m)"

definition emu_typer_access :: "VgicRef \<Rightarrow> EmuContext \<Rightarrow> Machine \<Rightarrow> Machine option" where
  "emu_typer_access g c m =
     (if \<not> ec_write c then set_gpr (ec_reg c) (ucast (vd_typer (vg_vgicd (m_vgics m g)))) m else Some m)"

definition emu_iidr_access :: "VgicRef \<Rightarrow> EmuContext \<Rightarrow> Machine \<Rightarrow> Machine option" where
  "emu_iidr_access g c m =
     (if \<not> ec_write c then set_gpr (ec_reg c) (ucast (vd_iidr (vg_vgicd (m_vgics m g)))) m else Some m)"

text \<open>Writing a register of one bit per interrupt, and reading it.\<close>

definition write_bits :: "(VcpuRef \<Rightarrow> usize \<Rightarrow> Machine \<Rightarrow> Machine option) \<Rightarrow> usize \<Rightarrow> u64 \<Rightarrow> Machine \<Rightarrow> Machine option" where
  "write_bits f first val m = for_range 0 32 (\<lambda>i m. do {
     b \<leftarrow> bit_get val i;
     if b \<noteq> 0 then do { v \<leftarrow> active_vcpu m; f v (first + i) m } else Some m }) m"

definition read_bits :: "(VcpuRef \<Rightarrow> usize \<Rightarrow> bool option) \<Rightarrow> usize \<Rightarrow> Machine \<Rightarrow> u64 option" where
  "read_bits f first m = for_range 0 32 (\<lambda>i val. do {
     v \<leftarrow> active_vcpu m;
     b \<leftarrow> f v (first + i);
     Some (if b then val OR push_bit i 1 else val) }) 0"

definition first_int :: "EmuContext \<Rightarrow> usize" where
  "first_int c = (ec_address c AND 0b1111111) div 4 * 32"

definition emu_isenabler_access :: "VgicRef \<Rightarrow> EmuContext \<Rightarrow> Machine \<Rightarrow> Machine option" where
  "emu_isenabler_access g c m = do {
     val \<leftarrow> write_val c m;
     r \<leftarrow> active_vm m;
     has \<leftarrow> vm_has_any m r (first_int c) 32;
     if first_int c \<ge> 16 \<and> \<not> has then Some m
     else if ec_write c then write_bits (\<lambda>v n. vgic_set_enable g v n True) (first_int c) val m
     else do { val \<leftarrow> read_bits (vgic_get_enable m g) (first_int c) m; set_gpr (ec_reg c) val m } }"

definition emu_icenabler_access :: "VgicRef \<Rightarrow> EmuContext \<Rightarrow> Machine \<Rightarrow> Machine option" where
  "emu_icenabler_access g c m = do {
     val \<leftarrow> write_val c m;
     r \<leftarrow> active_vm m;
     if ec_write c then do {
       has \<leftarrow> vm_has_any m r (first_int c) 32;
       if first_int c \<ge> 16 \<and> \<not> has then Some m
       else write_bits (\<lambda>v n. vgic_set_enable g v n False) (first_int c) val m }
     else do { val \<leftarrow> read_bits (vgic_get_enable m g) (first_int c) m; set_gpr (ec_reg c) val m } }"

definition get_state_bit :: "Machine \<Rightarrow> VgicRef \<Rightarrow> nat \<Rightarrow> VcpuRef \<Rightarrow> usize \<Rightarrow> bool option" where
  "get_state_bit m g b v n = do {
     io \<leftarrow> get_int m g v n;
     i \<leftarrow> io;
     st \<leftarrow> vgic_get_state m i;
     Some (bit st b) }"

definition emu_pendr_access :: "VgicRef \<Rightarrow> EmuContext \<Rightarrow> bool \<Rightarrow> Machine \<Rightarrow> Machine option" where
  "emu_pendr_access g c x m = do {
     val \<leftarrow> write_val c m;
     r \<leftarrow> active_vm m;
     has \<leftarrow> vm_has_any m r (first_int c) (ec_width c);
     if first_int c \<ge> 16 \<and> \<not> has then Some m
     else if ec_write c then write_bits (\<lambda>v n. vgic_set_pend g v n x) (first_int c) val m
     else do { val \<leftarrow> read_bits (get_state_bit m g 0) (first_int c) m; set_gpr (ec_reg c) val m } }"

definition emu_activer_access :: "VgicRef \<Rightarrow> EmuContext \<Rightarrow> bool \<Rightarrow> Machine \<Rightarrow> Machine option" where
  "emu_activer_access g c x m = do {
     val \<leftarrow> write_val c m;
     r \<leftarrow> active_vm m;
     has \<leftarrow> vm_has_any m r (first_int c) 32;
     if first_int c \<ge> 16 \<and> \<not> has then Some m
     else if ec_write c then write_bits (\<lambda>v n. vgic_set_active g v n x) (first_int c) val m
     else do { val \<leftarrow> read_bits (get_state_bit m g 1) (first_int c) m; set_gpr (ec_reg c) val m } }"

text \<open>Two bits per interrupt; the loop counts the bits up by two and the interrupts by one.\<close>

definition emu_icfgr_access :: "VgicRef \<Rightarrow> EmuContext \<Rightarrow> Machine \<Rightarrow> Machine option" where
  "emu_icfgr_access g c m = do {
     let first = (32 div GIC_CONFIG_BITS) * (ec_address c AND 0x1ff) div 4;
     r \<leftarrow> active_vm m;
     has \<leftarrow> (if ec_write c then vm_has_any m r first (ec_width c * 8) else Some True);
     if ec_write c \<and> first \<ge> 16 \<and> \<not> has then Some m
     else if ec_write c then do {
       cfg \<leftarrow> get_gpr m (ec_reg c);
       for_range 0 (ec_width c * 4) (\<lambda>k m. do {
         v \<leftarrow> active_vcpu m;
         x \<leftarrow> bit_extract cfg (2 * k) 2;
         vgic_set_icfgr g v (first + k) (ucast x) m }) m }
     else do {
       cfg \<leftarrow> for_range 0 (ec_width c * 4) (\<lambda>k cfg. do {
         v \<leftarrow> active_vcpu m;
         x \<leftarrow> vgic_get_icfgr m g v (first + k);
         Some (cfg OR push_bit (2 * k) (ucast x)) }) 0;
       set_gpr (ec_reg c) cfg m } }"

text \<open>Each byte of \<open>trgt\<close> is a mask of CPUs.\<close>

definition vgic_target_translate :: "Machine \<Rightarrow> VmRef \<Rightarrow> u32 \<Rightarrow> bool \<Rightarrow> u32 option" where
  "vgic_target_translate m r trgt v2p = for_range 0 4 (\<lambda>idx result. do {
     let x = ucast (drop_bit (8 * idx) trgt AND 0xff);
     val \<leftarrow> (if v2p then vcpu_to_pcpu_mask m r x 8 else pcpu_to_vcpu_mask m r x 8);
     Some (result OR push_bit (8 * idx) (ucast val)) }) 0"

definition sgi_targets :: "Machine \<Rightarrow> VmRef \<Rightarrow> u64 \<Rightarrow> u64 option option" where
  "sgi_targets m r val = do {
     flt \<leftarrow> bit_extract val 24 2;
     if flt = 0 then do {
       l \<leftarrow> bit_extract val 16 8;
       t \<leftarrow> vgic_target_translate m r (ucast l) True;
       Some (Some (ucast t)) }
     else if flt = 1 then do {
       assert_that (this_cpu m < 64);
       Some (Some (active_vm_ncpu m AND NOT (push_bit (this_cpu m) 1))) }
     else if flt = 2 then do {
       assert_that (this_cpu m < 64);
       Some (Some (push_bit (this_cpu m) 1)) }
     else Some None }"

definition emu_sgiregs_access :: "VgicRef \<Rightarrow> EmuContext \<Rightarrow> Machine \<Rightarrow> Machine option" where
  "emu_sgiregs_access g c m = do {
     val \<leftarrow> write_val c m;
     r \<leftarrow> active_vm m;
     if ec_address c AND 0xfff = (GICD_BASE (m_board m) + 0x0f00) AND 0xfff \<and> ec_write c then do {
       to \<leftarrow> sgi_targets m r val;
       case to of
         None \<Rightarrow> Some m
       | Some trgtlist \<Rightarrow>
           for_range 0 8 (\<lambda>i m.
             if bit trgtlist i then do {
               vmid \<leftarrow> active_vm_id m;
               vcpuid \<leftarrow> active_vcpu_id m;
               n \<leftarrow> bit_extract val 0 8;
               (_, m) \<leftarrow> ipi_send_msg i IpiTIntc (Initc_msg VgicdSetPend vmid (ucast (n OR push_bit 10 (of_nat vcpuid))) 1) m;
               Some m }
             else Some m) m }
     else Some m }"

definition emu_ipriorityr_access :: "VgicRef \<Rightarrow> EmuContext \<Rightarrow> Machine \<Rightarrow> Machine option" where
  "emu_ipriorityr_access g c m = do {
     val \<leftarrow> write_val c m;
     let first = (8 div GIC_PRIO_BITS) * (ec_address c AND 0x1ff);
     r \<leftarrow> active_vm m;
     has \<leftarrow> (if ec_write c then vm_has_any m r first (ec_width c) else Some True);
     if ec_write c \<and> first \<ge> 16 \<and> \<not> has then Some m
     else if ec_write c then
       for_range 0 (ec_width c) (\<lambda>i m. do {
         v \<leftarrow> active_vcpu m;
         x \<leftarrow> bit_extract val (GIC_PRIO_BITS * i) GIC_PRIO_BITS;
         vgic_set_prio g v (first + i) (ucast x) m }) m
     else do {
       val \<leftarrow> for_range 0 (ec_width c) (\<lambda>i val. do {
         v \<leftarrow> active_vcpu m;
         x \<leftarrow> vgic_get_prio m g v (first + i);
         Some (val OR push_bit (GIC_PRIO_BITS * i) (ucast x)) }) val;
       set_gpr (ec_reg c) val m } }"

definition emu_itargetr_access :: "VgicRef \<Rightarrow> EmuContext \<Rightarrow> Machine \<Rightarrow> Machine option" where
  "emu_itargetr_access g c m = do {
     val \<leftarrow> write_val c m;
     let first = (8 div GIC_TARGET_BITS) * (ec_address c AND 0x1ff);
     r \<leftarrow> active_vm m;
     if ec_write c then do {
       t \<leftarrow> vgic_target_translate m r (ucast val) True;
       let val = (ucast t :: u64);
       for_range 0 (ec_width c) (\<lambda>i m. do {
         v \<leftarrow> active_vcpu m;
         x \<leftarrow> bit_extract val (GIC_TARGET_BITS * i) GIC_TARGET_BITS;
         vgic_set_trgt g v (first + i) (ucast x) m }) m }
     else do {
       val \<leftarrow> for_range 0 (ec_width c) (\<lambda>i val. do {
         v \<leftarrow> active_vcpu m;
         x \<leftarrow> vgic_get_trgt m g v (first + i);
         Some (val OR push_bit (GIC_TARGET_BITS * i) (ucast x)) }) val;
       t \<leftarrow> vgic_target_translate m r (ucast val) False;
       set_gpr (ec_reg c) (ucast t) m } }"

definition emu_intc_handler :: "EmuContext \<Rightarrow> Machine \<Rightarrow> (bool \<times> Machine) option" where
  "emu_intc_handler c m =
     (let offset = ec_address c AND 0xfff; prefix = reg_prefix c in
      if ec_width c > 4 then Some (False, m)
      else do {
        r \<leftarrow> active_vm m;
        g \<leftarrow> vm_vgic m r;
        if \<not> vgicd_emu_access_is_vaild c then Some (False, m)
        else do {
          m \<leftarrow> (if prefix = 0x2 then emu_isenabler_access g c m
                else if prefix = 0x4 then emu_pendr_access g c True m
                else if prefix = 0x6 then emu_activer_access g c True m
                else if prefix = 0x3 then emu_icenabler_access g c m
                else if prefix = 0x5 then emu_pendr_access g c False m
                else if prefix = 0x7 then emu_activer_access g c False m
                else if prefix = 0x18 then emu_icfgr_access g c m
                else if prefix = 0x1e then emu_sgiregs_access g c m
                else do {
                  m \<leftarrow> (if offset = 0 then emu_ctrl_access g c m
                        else if offset = 0x004 then emu_typer_access g c m
                        else if offset = 0x008 then emu_iidr_access g c m
                        else if \<not> ec_write c then set_gpr (ec_reg c) 0 m
                        else Some m);
                  if offset \<ge> 0x400 \<and> offset < 0x800 then emu_ipriorityr_access g c m
                  else if offset \<ge> 0x800 \<and> offset < 0xc00 then emu_itargetr_access g c m
                  else Some m });
          Some (True, m) } })"

section \<open>Messages from the other cores\<close>

definition vgic_route_event :: "VgicRef \<Rightarrow> VcpuRef \<Rightarrow> usize \<Rightarrow> Machine \<Rightarrow> Machine option" where
  "vgic_route_event g v n m = do {
     io \<leftarrow> get_int m g v (int_number n);
     case io of
       None \<Rightarrow> Some m
     | Some i \<Rightarrow> do {
         (own, m) \<leftarrow> vgic_int_get_owner v i m;
         if own then do {
           assert_that (this_cpu m < 8);
           m \<leftarrow> (if bit (vi_targets (vint m i)) (this_cpu m) then do { (_, m) \<leftarrow> add_lr g v i m; Some m } else Some m);
           vgic_int_yield_owner v i m }
         else Some m } }"

definition vgic_event :: "VgicRef \<Rightarrow> VcpuRef \<Rightarrow> IpiInitcMessage \<Rightarrow> Machine \<Rightarrow> Machine option" where
  "vgic_event g v x m =
     (let n = unat (im_int_id x); val = im_val x in
      case im_event x of
        VgicdGichEn \<Rightarrow> Some (if val \<noteq> 0 then or_hcr 1 m else clear_hcr 1 m)
      | VgicdSetEn \<Rightarrow> vgic_set_enable g v n (val \<noteq> 0) m
      | VgicdSetPend \<Rightarrow> vgic_set_pend g v n (val \<noteq> 0) m
      | VgicdSetPrio \<Rightarrow> vgic_set_prio g v n val m
      | VgicdSetTrgt \<Rightarrow> vgic_set_trgt g v n val m
      | VgicdRoute \<Rightarrow> vgic_route_event g v n m
      | _ \<Rightarrow> Some m)"

definition vgic_ipi_handler :: "IpiMessage \<Rightarrow> Machine \<Rightarrow> Machine option" where
  "vgic_ipi_handler msg m = (case ipi_message msg of
     Initc x \<Rightarrow> do {
       vo \<leftarrow> pop_vcpu_through_vmid m (im_vm_id x);
       case vo of
         None \<Rightarrow> Some m
       | Some v \<Rightarrow> do {
           m \<leftarrow> restore_vcpu_gic (active_vcpu m) v m;
           r \<leftarrow> vc_vm (vcpu m v);
           g \<leftarrow> vm_vgic m r;
           if im_vm_id x \<noteq> vm_id (m_vms m r) then Some m
           else do { m \<leftarrow> vgic_event g v x m; save_vcpu_gic (active_vcpu m) v m } } }
   | _ \<Rightarrow> Some m)"

section \<open>Creating a controller\<close>

definition GICD_TYPER_CPUNUM_OFF :: nat where "GICD_TYPER_CPUNUM_OFF = 5"
definition GICD_TYPER_CPUNUM_MSK :: u32 where "GICD_TYPER_CPUNUM_MSK = 0b11111"

text \<open>\<open>k\<close> fresh interrupts made by \<open>f\<close>; the references are consecutive.\<close>

definition alloc_ints :: "nat \<Rightarrow> (nat \<Rightarrow> VgicInt) \<Rightarrow> Machine \<Rightarrow> IntRef list \<times> Machine" where
  "alloc_ints k f m =
     ([m_next_int m..<m_next_int m + k],
      m\<lparr>m_ints := (\<lambda>i. if m_next_int m \<le> i \<and> i < m_next_int m + k then f (i - m_next_int m) else m_ints m i),
        m_next_int := m_next_int m + k\<rparr>)"

definition new_cpu_priv :: "VmRef \<Rightarrow> usize \<Rightarrow> Machine \<Rightarrow> (VgicCpuPriv \<times> Machine) option" where
  "new_cpu_priv r i m = do {
     vo \<leftarrow> vm_vcpu m r i;
     v \<leftarrow> vo;
     let phys_id = vc_phys_id (vcpu m v);
     assert_that (phys_id < 64);
     let (is, m) = alloc_ints GIC_PRIVINT_NUM (\<lambda>int_idx. VgicInt_priv_new int_idx v (push_bit phys_id 1) (int_idx < GIC_SGIS_NUM)) m;
     Some (\<lparr>cp_curr_lrs = replicate GIC_LIST_REGS_NUM 0, cp_sgis = replicate GIC_SGIS_NUM \<lparr>sg_pend = 0, sg_act = 0\<rparr>,
            cp_interrupts = is, cp_pend_list = [], cp_act_list = []\<rparr>, m) }"

definition emu_intc_init :: "VmRef \<Rightarrow> usize \<Rightarrow> Machine \<Rightarrow> Machine option" where
  "emu_intc_init r emu_dev_id m = do {
     e \<leftarrow> vm_config (m_vms m r);
     let vgic_cpu_num = cfg_cpu_num (m_config m) e;
     let m = init_intc_mode r True m;
     n \<leftarrow> usub (vm_cpu_num (m_vms m r)) 1;
     let typer = (gd_typer (gicd m) AND GICD_TYPER_CPUNUM_MSK) OR
                 (push_bit GICD_TYPER_CPUNUM_OFF (of_nat n) AND GICD_TYPER_CPUNUM_MSK);
     let (spis, m) = alloc_ints GIC_SPI_MAX VgicInt_new m;
     (ps, m) \<leftarrow> for_range 0 vgic_cpu_num (\<lambda>i (ps, m). do { (p, m) \<leftarrow> new_cpu_priv r i m; Some (ps @ [p], m) }) ([], m);
     let g = m_next_vgic m;
     let m = m\<lparr>m_vgics := (m_vgics m)(g := \<lparr>vg_vgicd = \<lparr>vd_ctlr = 0, vd_typer = typer, vd_iidr = gd_iidr (gicd m),
                                                    vd_interrupts = spis\<rparr>, vg_cpu_priv = ps\<rparr>),
               m_next_vgic := g + 1\<rparr>;
     set_emu_devs r emu_dev_id (EmuVgic g) m }"

definition partial_passthrough_intc_init :: "VmRef \<Rightarrow> Machine \<Rightarrow> Machine" where
  "partial_passthrough_intc_init r m = init_intc_mode r False m"

definition set_hw_of :: "VgicRef \<Rightarrow> VmRef \<Rightarrow> usize \<Rightarrow> usize \<Rightarrow> Machine \<Rightarrow> Machine option" where
  "set_hw_of g r i n m = do {
     vo \<leftarrow> vm_vcpu m r i;
     v \<leftarrow> vo;
     io \<leftarrow> get_int m g v n;
     Some (case io of Some x \<Rightarrow> upd_int x (\<lambda>y. y\<lparr>vi_hw := True\<rparr>) m | None \<Rightarrow> m) }"

definition vgic_set_hw_int :: "VmRef \<Rightarrow> usize \<Rightarrow> Machine \<Rightarrow> Machine option" where
  "vgic_set_hw_int r n m =
     (if n < GIC_SGIS_NUM then Some m
      else if \<not> has_vgic m r then Some m
      else do {
        g \<leftarrow> vm_vgic m r;
        if n < GIC_PRIVINT_NUM then for_range 0 (vm_cpu_num (m_vms m r)) (\<lambda>i. set_hw_of g r i n) m
        else set_hw_of g r 0 n m })"

end
