(* ===== verification/VgicProps.thy ===== *)
theory VgicProps
  imports VgicEmu
begin

text \<open>
  Properties of the virtual interrupt controller: what its operations leave alone, the list
  registers they write, and the consistency of the pending and active lists.
\<close>

section \<open>What the operations leave alone\<close>

text \<open>
  An operation of the controller changes interrupts, controllers, message queues, the distributor
  and the list registers.  \<open>vg_rest\<close> is everything else.
\<close>

definition vg_rest :: "Machine \<Rightarrow> Machine" where
  "vg_rest m = m\<lparr>m_ints := \<lambda>_. VgicInt_none, m_vgics := \<lambda>_. Vgic_none, m_cpu_if_list := [],
     m_hw := (m_hw m)\<lparr>hw_gicd := gicd_reset, hw_gich := (gich m)\<lparr>gh_hcr := 0, gh_lr := []\<rparr>\<rparr>\<rparr>"

text \<open>
  The operations below the register interface (lists, ownership, list registers, routing) also leave
  the configuration of every interrupt alone, and which interrupts a controller has.
\<close>

definition int_cfg :: "VgicInt \<Rightarrow> VgicInt" where
  "int_cfg n = n\<lparr>vi_owner := None, vi_in_lr := False, vi_lr := 0, vi_state := IrqSInactive, vi_in_pend := False, vi_in_act := False\<rparr>"

definition priv_cfg :: "VgicCpuPriv \<Rightarrow> VgicCpuPriv" where
  "priv_cfg p = p\<lparr>cp_curr_lrs := [], cp_sgis := [], cp_pend_list := [], cp_act_list := []\<rparr>"

definition vgic_cfg :: "Vgic \<Rightarrow> Vgic" where
  "vgic_cfg x = x\<lparr>vg_cpu_priv := map priv_cfg (vg_cpu_priv x)\<rparr>"

definition vg_low :: "Machine \<Rightarrow> Machine" where
  "vg_low m = m\<lparr>m_ints := \<lambda>i. int_cfg (m_ints m i), m_vgics := \<lambda>g. vgic_cfg (m_vgics m g), m_cpu_if_list := [],
     m_hw := (m_hw m)\<lparr>hw_gicd := gicd_reset, hw_gich := (gich m)\<lparr>gh_hcr := 0, gh_lr := []\<rparr>\<rparr>\<rparr>"

named_theorems low_frame \<open>operations below the register interface keep \<open>vg_low\<close>\<close>
named_theorems vg_frame \<open>operations of the controller keep \<open>vg_rest\<close>\<close>

lemma vg_low_rest: "vg_low m' = vg_low m \<Longrightarrow> vg_rest m' = vg_rest m"
proof -
  have e: "vg_rest m = (vg_low m)\<lparr>m_ints := \<lambda>_. VgicInt_none, m_vgics := \<lambda>_. Vgic_none\<rparr>" for m
    by (simp add: vg_rest_def vg_low_def)
  show "vg_low m' = vg_low m \<Longrightarrow> vg_rest m' = vg_rest m" by (simp only: e)
qed

lemma vg_rest_proj:
  assumes "vg_rest m' = vg_rest m"
  shows "m_cpu m' = m_cpu m" "m_vcpus m' = m_vcpus m" "m_vms m' = m_vms m" "m_vm_list m' = m_vm_list m"
    "m_config m' = m_config m" "m_board m' = m_board m" "m_frames m' = m_frames m" "m_gic_lrs m' = m_gic_lrs m"
    "m_vcpu_list m' = m_vcpu_list m" "m_vm_if_list m' = m_vm_if_list m" "m_emu_devs m' = m_emu_devs m"
    "m_int_handlers m' = m_int_handlers m" "m_hyper_bitmap m' = m_hyper_bitmap m" "m_ipi_handlers m' = m_ipi_handlers m"
    "hw_regs (m_hw m') = hw_regs (m_hw m)" "hw_upper (m_hw m') = hw_upper (m_hw m)" "hw_fpsimd (m_hw m') = hw_fpsimd (m_hw m)"
    "hw_gicc (m_hw m') = hw_gicc (m_hw m)" "gh_elrsr (gich m') = gh_elrsr (gich m)" "gh_eisr (gich m') = gh_eisr (gich m)"
    "gh_vtr (gich m') = gh_vtr (gich m)" "gh_apr (gich m') = gh_apr (gich m)" "m_trace m' = m_trace m"
    "m_glb_bitmap m' = m_glb_bitmap m"
  using assms[THEN arg_cong, of m_cpu] assms[THEN arg_cong, of m_vcpus] assms[THEN arg_cong, of m_vms]
    assms[THEN arg_cong, of m_vm_list] assms[THEN arg_cong, of m_config] assms[THEN arg_cong, of m_board]
    assms[THEN arg_cong, of m_frames] assms[THEN arg_cong, of m_gic_lrs] assms[THEN arg_cong, of m_vcpu_list]
    assms[THEN arg_cong, of m_vm_if_list] assms[THEN arg_cong, of m_emu_devs] assms[THEN arg_cong, of m_int_handlers]
    assms[THEN arg_cong, of m_hyper_bitmap] assms[THEN arg_cong, of m_ipi_handlers] assms[THEN arg_cong, of "\<lambda>m. hw_regs (m_hw m)"]
    assms[THEN arg_cong, of "\<lambda>m. hw_upper (m_hw m)"] assms[THEN arg_cong, of "\<lambda>m. hw_fpsimd (m_hw m)"]
    assms[THEN arg_cong, of gicc] assms[THEN arg_cong, of "\<lambda>m. gh_elrsr (gich m)"]
    assms[THEN arg_cong, of "\<lambda>m. gh_eisr (gich m)"] assms[THEN arg_cong, of "\<lambda>m. gh_vtr (gich m)"]
    assms[THEN arg_cong, of "\<lambda>m. gh_apr (gich m)"] assms[THEN arg_cong, of m_trace] assms[THEN arg_cong, of m_glb_bitmap]
  by (simp_all add: vg_rest_def)

lemma vg_rest_upd [simp]:
  "vg_rest (upd_int i f m) = vg_rest m" "vg_rest (upd_vgic g h m) = vg_rest m" "vg_rest (or_hcr w m) = vg_rest m"
  "vg_rest (clear_hcr w m) = vg_rest m"
  by (simp_all add: vg_rest_def upd_int_def upd_vgic_def or_hcr_def clear_hcr_def set_gich_def upd_hw_def)

lemma vg_low_int:
  assumes "int_cfg (f (m_ints m i)) = int_cfg (m_ints m i)"
  shows "vg_low (upd_int i f m) = vg_low m"
proof -
  have "(\<lambda>j. int_cfg (((m_ints m)(i := f (m_ints m i))) j)) = (\<lambda>j. int_cfg (m_ints m j))" using assms by auto
  then show ?thesis by (simp add: vg_low_def upd_int_def)
qed

lemma vg_low_upd [simp]:
  "vg_low (set_gicd d m) = vg_low m"
  "vg_low (set_in_pend_state i b m) = vg_low m" "vg_low (set_in_act_state i b m) = vg_low m"
  "vg_low (set_in_lr i b m) = vg_low m" "vg_low (int_set_state i st m) = vg_low m"
  "vg_low (upd_int i (\<lambda>n. n\<lparr>vi_owner := x\<rparr>) m) = vg_low m"
  "vg_low (upd_int i (\<lambda>n. n\<lparr>vi_state := st, vi_in_lr := b, vi_lr := k\<rparr>) m) = vg_low m"
  "vg_low (or_hcr w m) = vg_low m" "vg_low (clear_hcr w m) = vg_low m"
  "vg_low (set_gich ((gich m)\<lparr>gh_hcr := w\<rparr>) m) = vg_low m" "vg_low (set_gich ((gich m)\<lparr>gh_lr := lrs\<rparr>) m) = vg_low m"
  by (simp_all add: vg_low_int set_in_pend_state_def set_in_act_state_def set_in_lr_def int_set_state_def int_cfg_def)
    (simp_all add: vg_low_def set_gicd_def upd_hw_def or_hcr_def clear_hcr_def set_gich_def)

lemmas [simp] = vg_low_upd(2-5)[THEN vg_low_rest]

lemma upd_cpu_priv_low:
  assumes "upd_cpu_priv g c f m = Some m'" and "\<And>p. priv_cfg (f p) = priv_cfg p"
  shows "vg_low m' = vg_low m"
proof -
  let ?ps = "vg_cpu_priv (m_vgics m g)"
  from assms(1) have c: "c < length ?ps" and m': "m' = upd_vgic g (\<lambda>vg. vg\<lparr>vg_cpu_priv := (vg_cpu_priv vg)[c := f (?ps ! c)]\<rparr>) m"
    by (auto simp: upd_cpu_priv_def cpu_priv_def panic_simps)
  have "map priv_cfg (?ps[c := f (?ps ! c)]) = map priv_cfg ?ps" using c assms(2) by (simp add: map_update list_update_same_conv)
  then have "(\<lambda>h. vgic_cfg (m_vgics m' h)) = (\<lambda>h. vgic_cfg (m_vgics m h))" by (auto simp: m' upd_vgic_def vgic_cfg_def)
  then show ?thesis by (simp add: vg_low_def m' upd_vgic_def)
qed

lemma prim_frame [low_frame]:
  "set_cpu_priv_curr_lrs g c k w m = Some m' \<Longrightarrow> vg_low m' = vg_low m"
  "set_cpu_priv_sgis_pend g c k p m = Some m' \<Longrightarrow> vg_low m' = vg_low m"
  "set_cpu_priv_sgis_act g c k p m = Some m' \<Longrightarrow> vg_low m' = vg_low m"
  "on_gicd h m = Some m' \<Longrightarrow> vg_low m' = vg_low m"
  "on_lr k x m = Some m' \<Longrightarrow> vg_low m' = vg_low m"
  by (auto simp: set_cpu_priv_curr_lrs_def set_cpu_priv_sgis_pend_def set_cpu_priv_sgis_act_def
      on_gicd_def on_lr_def gich_set_lr_def panic_simps priv_cfg_def dest!: upd_cpu_priv_low)

lemma ipi_frame [low_frame]:
  "ipi_send_msg c ty msg m = Some (b, m') \<Longrightarrow> vg_low m' = vg_low m"
proof -
  have "vg_low (m\<lparr>m_cpu_if_list := qs\<rparr>) = vg_low m" for m qs by (simp add: vg_low_def)
  then show "ipi_send_msg c ty msg m = Some (b, m') \<Longrightarrow> vg_low m' = vg_low m"
    by (auto simp: ipi_send_msg_def ipi_send_def interrupt_cpu_ipi_send_def interrupt_arch_ipi_send_def panic_simps
        split: if_splits dest!: low_frame)
qed

lemma broadcast_loop_frame:
  "broadcast_loop i n lim ncpu ty msg m = Some (b, m') \<Longrightarrow> vg_low m' = vg_low m"
proof (induction i n lim ncpu ty msg m rule: broadcast_loop.induct)
  case (1 i n lim ncpu ty msg m)
  from 1(3) consider "m' = m"
    | ok m1 where "n < lim" "i < 64" "bit ncpu i" "i \<noteq> this_cpu m" "ipi_send_msg i ty msg m = Some (ok, m1)"
        "if ok then broadcast_loop (i + 1) (n + 1) lim ncpu ty msg m1 = Some (b, m') else m' = m1"
    | "n < lim" "i < 64" "\<not> (bit ncpu i \<and> i \<noteq> this_cpu m)" "broadcast_loop (i + 1) n lim ncpu ty msg m = Some (b, m')"
    by (subst (asm) broadcast_loop.simps) (auto simp: panic_simps split: if_splits)
  then show ?case
  proof cases
    case (2 ok m1)
    then have "vg_low m1 = vg_low m" by (auto dest: ipi_frame)
    with 2 1(1)[of "(ok, m1)" ok m1] show ?thesis by (cases ok) simp_all
  next
    case 3
    with 1(2) show ?thesis by auto
  qed simp
qed

lemma broadcast_frame [low_frame]:
  "ipi_intra_broadcast_msg r ty msg m = Some (b, m') \<Longrightarrow> vg_low m' = vg_low m"
  by (auto simp: ipi_intra_broadcast_msg_def panic_simps dest: broadcast_loop_frame)

lemma list_frame [low_frame]:
  "add_int_list g v i p m = Some m' \<Longrightarrow> vg_low m' = vg_low m"
  "remove_int_list g v i p m = Some m' \<Longrightarrow> vg_low m' = vg_low m"
  by (auto simp: add_int_list_def remove_int_list_def Let_def panic_simps priv_cfg_def split: if_splits dest!: upd_cpu_priv_low)

lemma update_int_list_frame [low_frame]:
  "update_int_list g v i m = Some m' \<Longrightarrow> vg_low m' = vg_low m"
  by (auto simp: update_int_list_def Let_def panic_simps split: if_splits dest!: low_frame)

lemma owner_frame [low_frame]:
  "vgic_int_yield_owner v i m = Some m' \<Longrightarrow> vg_low m' = vg_low m"
  "vgic_int_get_owner v i m = Some (b, m') \<Longrightarrow> vg_low m' = vg_low m"
  by (auto simp: vgic_int_yield_owner_def vgic_int_get_owner_def panic_simps split: if_splits option.splits)

lemma lr_writeback_frame [low_frame]:
  "lr_writeback g v i x m = Some m' \<Longrightarrow> vg_low m' = vg_low m"
  by (auto simp: lr_writeback_def Let_def panic_simps simp del: num_to_state.simps split: if_splits dest!: low_frame)

lemma remove_lr_frame [low_frame]:
  "remove_lr g v i m = Some (b, m') \<Longrightarrow> vg_low m' = vg_low m"
  by (auto simp: remove_lr_def Let_def panic_simps split: if_splits option.splits dest!: low_frame)

lemma lr_encode_frame [low_frame]:
  "lr_encode g v i st m = Some (x, m') \<Longrightarrow> vg_low m' = vg_low m"
  by (auto simp: lr_encode_def lr_sgi_def Let_def panic_simps split: if_splits dest!: low_frame)

lemma evict_prev_frame [low_frame]:
  "evict_prev g v p k m = Some m' \<Longrightarrow> vg_low m' = vg_low m"
  by (auto simp: evict_prev_def Let_def panic_simps split: if_splits option.splits dest!: low_frame)

lemma write_lr_frame [low_frame]:
  "write_lr g v i k m = Some m' \<Longrightarrow> vg_low m' = vg_low m"
  by (auto simp: write_lr_def Let_def panic_simps split: if_splits option.splits dest!: low_frame)

lemma spill_lr_frame [low_frame]:
  "spill_lr g v m = Some (k, m') \<Longrightarrow> vg_low m' = vg_low m"
  by (auto simp: spill_lr_def Let_def panic_simps split: if_splits option.splits dest!: low_frame)

lemma add_lr_frame [low_frame]:
  "add_lr g v i m = Some (b, m') \<Longrightarrow> vg_low m' = vg_low m"
  by (auto simp: add_lr_def Let_def panic_simps split: if_splits option.splits dest!: low_frame)

lemma route_frame [low_frame]:
  "route g v i m = Some m' \<Longrightarrow> vg_low m' = vg_low m"
  by (auto simp: route_def Let_def panic_simps split: if_splits dest!: low_frame)

lemma send_to_owner_frame [low_frame]:
  "send_to_owner e v i x m = Some m' \<Longrightarrow> vg_low m' = vg_low m"
  by (auto simp: send_to_owner_def panic_simps dest!: low_frame)

lemma change_state_bit_frame [low_frame]:
  "change_state_bit i b x m = Some m' \<Longrightarrow> vg_low m' = vg_low m"
  by (auto simp: change_state_bit_def Let_def panic_simps simp del: num_to_state.simps split: if_splits)

lemma set_state_bit_frame [low_frame]:
  "set_state_bit g v i b x m = Some m' \<Longrightarrow> vg_low m' = vg_low m"
  by (auto simp: set_state_bit_def Let_def panic_simps split: if_splits dest!: low_frame)

lemma sgi_set_pend_frame [low_frame]:
  "sgi_set_pend g v n x m = Some m' \<Longrightarrow> vg_low m' = vg_low m"
  by (auto simp: sgi_set_pend_def Let_def panic_simps simp del: num_to_state.simps split: if_splits option.splits dest!: low_frame)

lemmas [vg_frame] = low_frame[THEN vg_low_rest]

lemma with_owner_frame:
  assumes "with_owner v i body e x m = Some m'" and "\<And>m m'. body m = Some m' \<Longrightarrow> vg_rest m' = vg_rest m"
  shows "vg_rest m' = vg_rest m"
  using assms by (auto simp: with_owner_def panic_simps split: if_splits dest!: vg_frame)

lemma owned_frame [vg_frame]:
  "enable_owned g v i en m = Some m' \<Longrightarrow> vg_rest m' = vg_rest m"
  "icfgr_owned i c m = Some m' \<Longrightarrow> vg_rest m' = vg_rest m"
  "prio_owned g v i p m = Some m' \<Longrightarrow> vg_rest m' = vg_rest m"
  "trgt_owned g v i t m = Some m' \<Longrightarrow> vg_rest m' = vg_rest m"
  by (auto simp: enable_owned_def icfgr_owned_def prio_owned_def trgt_owned_def Let_def panic_simps split: if_splits dest!: vg_frame)

lemma set_enable_frame [vg_frame]: "vgic_set_enable g v n x m = Some m' \<Longrightarrow> vg_rest m' = vg_rest m"
  by (auto simp: vgic_set_enable_def Let_def panic_simps split: if_splits option.splits dest!: with_owner_frame vg_frame)

lemma set_pend_frame [vg_frame]: "vgic_set_pend g v n x m = Some m' \<Longrightarrow> vg_rest m' = vg_rest m"
  by (auto simp: vgic_set_pend_def Let_def panic_simps split: if_splits option.splits dest!: with_owner_frame vg_frame)

lemma set_active_frame [vg_frame]: "vgic_set_active g v n x m = Some m' \<Longrightarrow> vg_rest m' = vg_rest m"
  by (auto simp: vgic_set_active_def Let_def panic_simps split: if_splits option.splits dest!: with_owner_frame vg_frame)

lemma set_icfgr_frame [vg_frame]: "vgic_set_icfgr g v n x m = Some m' \<Longrightarrow> vg_rest m' = vg_rest m"
  by (auto simp: vgic_set_icfgr_def Let_def panic_simps split: if_splits option.splits dest!: with_owner_frame vg_frame)

lemma set_prio_frame [vg_frame]: "vgic_set_prio g v n x m = Some m' \<Longrightarrow> vg_rest m' = vg_rest m"
  by (auto simp: vgic_set_prio_def Let_def panic_simps split: if_splits option.splits dest!: with_owner_frame vg_frame)

lemma set_trgt_frame [vg_frame]: "vgic_set_trgt g v n x m = Some m' \<Longrightarrow> vg_rest m' = vg_rest m"
  by (auto simp: vgic_set_trgt_def Let_def panic_simps split: if_splits option.splits dest!: with_owner_frame vg_frame)

lemma inject_frame [vg_frame]:
  "inject g v n m = Some m' \<Longrightarrow> vg_rest m' = vg_rest m"
  by (auto simp: inject_def Let_def panic_simps split: if_splits option.splits dest!: vg_frame)

section \<open>Registers are read back\<close>

lemma int_cfg_proj [simp]:
  "vi_enabled (int_cfg n) = vi_enabled n" "vi_prio (int_cfg n) = vi_prio n" "vi_targets (int_cfg n) = vi_targets n"
  "vi_cfg (int_cfg n) = vi_cfg n" "vi_hw (int_cfg n) = vi_hw n" "vi_id (int_cfg n) = vi_id n"
  by (simp_all add: int_cfg_def)

lemma vg_low_ints [simp]: "m_ints (vg_low m) i = int_cfg (m_ints m i)"
  by (simp add: vg_low_def)

text \<open>Writing a configuration field \<open>f\<close> of one interrupt, seen below.\<close>

lemma vg_low_put:
  assumes "\<And>n. int_cfg (f n) = f (int_cfg n)" "vg_low m1 = vg_low m"
  shows "vg_low (upd_int i f m1) = upd_int i f (vg_low m)"
proof -
  have "(\<lambda>j. int_cfg (((m_ints m1)(i := f (m_ints m1 i))) j)) = (\<lambda>j. int_cfg (m_ints m1 j))(i := f (int_cfg (m_ints m1 i)))"
    using assms(1) by auto
  then have "vg_low (upd_int i f m1) = upd_int i f (vg_low m1)" by (simp add: vg_low_def upd_int_def)
  with assms(2) show ?thesis by simp
qed

lemma vg_low_put_same:
  assumes "f (int_cfg (vint m1 i)) = int_cfg (vint m1 i)" "vg_low m1 = vg_low m"
  shows "vg_low m1 = upd_int i f (vg_low m)"
proof -
  have "int_cfg (vint m1 i) = int_cfg (vint m i)" using assms(2) by (metis vg_low_ints)
  then have e: "(m_ints (vg_low m))(i := f (m_ints (vg_low m) i)) = m_ints (vg_low m)" using assms(1) by (simp add: fun_upd_idem_iff)
  have "M\<lparr>m_ints := m_ints M\<rparr> = M" for M :: Machine by (cases M) simp
  then show ?thesis unfolding upd_int_def e using assms(2) by simp
qed

lemma cpu_priv_interrupt_low: "cpu_priv_interrupt (vg_low m) g c k = cpu_priv_interrupt m g c k"
  by (auto simp: cpu_priv_interrupt_def cpu_priv_def vg_low_def vgic_cfg_def priv_cfg_def vec_get_def)

lemma get_int_low: "get_int (vg_low m) g v n = get_int m g v n"
  by (simp add: get_int_def cpu_priv_interrupt_low vgicd_interrupt_def) (simp add: vg_low_def vgic_cfg_def)

lemma get_int_upd_int [simp]: "get_int (upd_int i f m) = get_int m"
  by (intro ext) (simp add: get_int_def cpu_priv_interrupt_def cpu_priv_def vgicd_interrupt_def upd_int_def)

text \<open>The virtual CPU may change the interrupt itself: nobody owns it, or it is the owner.\<close>

definition held :: "Machine \<Rightarrow> VcpuRef \<Rightarrow> IntRef \<Rightarrow> bool" where
  "held m v i \<longleftrightarrow> (case vi_owner (vint m i) of
     None \<Rightarrow> True
   | Some w \<Rightarrow> vcpu_vm_id m w = vcpu_vm_id m v \<and> vc_id (vcpu m w) = vc_id (vcpu m v))"

lemma get_owner_held:
  "vgic_int_get_owner v i m = Some (b, m') \<Longrightarrow> held m v i \<Longrightarrow> b"
  by (auto simp: vgic_int_get_owner_def held_def panic_simps split: option.splits)

lemma with_owner_low:
  assumes "with_owner v i body e x m = Some m'" "held m v i"
    and "\<And>m1 m2. vg_low m1 = vg_low m \<Longrightarrow> body m1 = Some m2 \<Longrightarrow> vg_low m2 = X"
  shows "vg_low m' = X"
proof -
  from assms(1,2) obtain m1 m2 where "vgic_int_get_owner v i m = Some (True, m1)" "body m1 = Some m2"
    "vgic_int_yield_owner v i m2 = Some m'"
    by (auto simp: with_owner_def panic_simps dest: get_owner_held split: if_splits)
  then show ?thesis using assms(3)[of m1 m2] by (auto dest!: low_frame)
qed

lemma enable_owned_low:
  assumes "vg_low m1 = vg_low m" "enable_owned g v i en m1 = Some m2"
  shows "vg_low m2 = upd_int i (\<lambda>x. x\<lparr>vi_enabled := en\<rparr>) (vg_low m)"
proof (cases "vi_enabled (vint m1 i) = en")
  case True
  with assms vg_low_put_same[of "\<lambda>x. x\<lparr>vi_enabled := en\<rparr>" m1 i m] show ?thesis by (simp add: enable_owned_def int_cfg_def)
next
  case False
  with assms(2) have "vg_low m2 = vg_low (upd_int i (\<lambda>x. x\<lparr>vi_enabled := en\<rparr>) m1)"
    by (auto simp: enable_owned_def Let_def panic_simps split: if_splits dest!: low_frame)
  with vg_low_put[of "\<lambda>x. x\<lparr>vi_enabled := en\<rparr>" m1 m i] assms(1) show ?thesis by (simp add: int_cfg_def)
qed

lemma prio_owned_low:
  assumes "vg_low m1 = vg_low m" "prio_owned g v i p m1 = Some m2"
  shows "vg_low m2 = upd_int i (\<lambda>x. x\<lparr>vi_prio := p\<rparr>) (vg_low m)"
proof (cases "vi_prio (vint m1 i) = p")
  case True
  with assms vg_low_put_same[of "\<lambda>x. x\<lparr>vi_prio := p\<rparr>" m1 i m] show ?thesis by (simp add: prio_owned_def int_cfg_def)
next
  case False
  with assms(2) obtain m3 where "vg_low m3 = vg_low m1" "vg_low m2 = vg_low (upd_int i (\<lambda>x. x\<lparr>vi_prio := p\<rparr>) m3)"
    by (auto simp: prio_owned_def Let_def panic_simps split: if_splits dest!: low_frame)
  with vg_low_put[of "\<lambda>x. x\<lparr>vi_prio := p\<rparr>" m3 m i] assms(1) show ?thesis by (simp add: int_cfg_def)
qed

lemma trgt_owned_low:
  assumes "vg_low m1 = vg_low m" "trgt_owned g v i t m1 = Some m2"
  shows "vg_low m2 = upd_int i (\<lambda>x. x\<lparr>vi_targets := t\<rparr>) (vg_low m)"
proof (cases "vi_targets (vint m1 i) = t")
  case True
  with assms vg_low_put_same[of "\<lambda>x. x\<lparr>vi_targets := t\<rparr>" m1 i m] show ?thesis by (simp add: trgt_owned_def int_cfg_def)
next
  case False
  with assms(2) have "vg_low m2 = vg_low (upd_int i (\<lambda>x. x\<lparr>vi_targets := t\<rparr>) m1)"
    by (auto simp: trgt_owned_def Let_def panic_simps split: if_splits dest!: low_frame)
  with vg_low_put[of "\<lambda>x. x\<lparr>vi_targets := t\<rparr>" m1 m i] assms(1) show ?thesis by (simp add: int_cfg_def)
qed

lemma icfgr_owned_low:
  assumes "vg_low m1 = vg_low m" "icfgr_owned i c m1 = Some m2"
  shows "vg_low m2 = upd_int i (\<lambda>x. x\<lparr>vi_cfg := c\<rparr>) (vg_low m)"
proof -
  from assms(2) have "vg_low m2 = vg_low (upd_int i (\<lambda>x. x\<lparr>vi_cfg := c\<rparr>) m1)"
    by (auto simp: icfgr_owned_def Let_def split: if_splits dest!: low_frame)
  with vg_low_put[of "\<lambda>x. x\<lparr>vi_cfg := c\<rparr>" m1 m i] assms(1) show ?thesis by (simp add: int_cfg_def)
qed

subsection \<open>The contract of a register\<close>

text \<open>
  A register with one field per interrupt: writing the field of an interrupt the virtual CPU holds
  puts the value there and changes no other configuration.
\<close>

locale vgic_register =
  fixes wr :: "VgicRef \<Rightarrow> VcpuRef \<Rightarrow> usize \<Rightarrow> 'x \<Rightarrow> Machine \<Rightarrow> Machine option"
    and put :: "'x \<Rightarrow> VgicInt \<Rightarrow> VgicInt" and fld :: "VgicInt \<Rightarrow> 'y" and val :: "'x \<Rightarrow> 'y"
  assumes wr_low: "16 \<le> n \<Longrightarrow> get_int m g v n = Some (Some i) \<Longrightarrow> held m v i \<Longrightarrow> wr g v n x m = Some m' \<Longrightarrow>
      vg_low m' = upd_int i (put x) (vg_low m)"
    and fld_put: "fld (put x d) = val x"
    and fld_cfg: "fld (int_cfg d) = fld d"
begin

lemma write_read:
  assumes "16 \<le> n" "get_int m g v n = Some (Some i)" "held m v i" "wr g v n x m = Some m'"
  shows "fld (vint m' i) = val x" "j \<noteq> i \<Longrightarrow> int_cfg (vint m' j) = int_cfg (vint m j)" "get_int m' = get_int m"
proof -
  note low = wr_low[OF assms]
  have at: "int_cfg (vint m' k) = (if k = i then put x (int_cfg (vint m i)) else int_cfg (vint m k))" for k
    using low[THEN arg_cong, of "\<lambda>m. vint m k"] by (auto simp: upd_int_def)
  show "fld (vint m' i) = val x" using at[of i] by (metis fld_cfg fld_put)
  show "j \<noteq> i \<Longrightarrow> int_cfg (vint m' j) = int_cfg (vint m j)" using at[of j] by simp
  have "get_int (vg_low m') = get_int (vg_low m)" using low by simp
  then show "get_int m' = get_int m" by (intro ext) (metis get_int_low)
qed

end

text \<open>A run of writes that are carried out at once, none of them handed to another core.\<close>

inductive reg_run :: "(VgicRef \<Rightarrow> VcpuRef \<Rightarrow> usize \<Rightarrow> 'x \<Rightarrow> Machine \<Rightarrow> Machine option) \<Rightarrow> VgicRef \<Rightarrow> VcpuRef \<Rightarrow>
    Machine \<Rightarrow> (usize \<times> 'x) list \<Rightarrow> Machine \<Rightarrow> bool"
  for wr :: "VgicRef \<Rightarrow> VcpuRef \<Rightarrow> usize \<Rightarrow> 'x \<Rightarrow> Machine \<Rightarrow> Machine option" and g v m
  where
    reg_nil: "reg_run wr g v m [] m"
  | reg_step: "reg_run wr g v m ops m1 \<Longrightarrow> 16 \<le> n \<Longrightarrow> get_int m1 g v n = Some (Some i) \<Longrightarrow> held m1 v i \<Longrightarrow>
      wr g v n x m1 = Some m2 \<Longrightarrow> reg_run wr g v m (ops @ [(n, x)]) m2"

inductive_cases reg_run_nilE: "reg_run wr g v m [] m'"
inductive_cases reg_run_snocE: "reg_run wr g v m (ops @ [(n, x)]) m'"

text \<open>Different numbers are different interrupts.\<close>

definition ints_distinct :: "Machine \<Rightarrow> VgicRef \<Rightarrow> VcpuRef \<Rightarrow> bool" where
  "ints_distinct m g v \<longleftrightarrow> (\<forall>a b i. get_int m g v a = Some (Some i) \<longrightarrow> get_int m g v b = Some (Some i) \<longrightarrow> a = b)"

context vgic_register
begin

lemma run_last_write:
  assumes "reg_run wr g v m ops m'" "ints_distinct m g v" "get_int m g v n = Some (Some i)"
  shows "fld (vint m' i) = (case map_of (rev ops) n of Some x \<Rightarrow> val x | None \<Rightarrow> fld (vint m i)) \<and> get_int m' = get_int m"
  using assms(1)
proof induction
  case reg_nil
  then show ?case by simp
next
  case (reg_step ops m1 k j x m2)
  note wr = write_read[OF reg_step.hyps(2-5)]
  show ?case
  proof (cases "k = n")
    case True
    then have "j = i" using reg_step.hyps(3) reg_step.IH assms(3) by simp
    then show ?thesis using True wr(1,3) reg_step.IH by simp
  next
    case False
    then have "i \<noteq> j" using reg_step.hyps(3) reg_step.IH assms(2,3) by (auto simp: ints_distinct_def)
    then have "fld (vint m2 i) = fld (vint m1 i)" using wr(2)[of i] by (metis fld_cfg)
    then show ?thesis using False wr(3) reg_step.IH by simp
  qed
qed

end

interpretation enable_reg: vgic_register vgic_set_enable "\<lambda>en n. n\<lparr>vi_enabled := en\<rparr>" vi_enabled "\<lambda>b. b"
proof
  fix m g v n i x m'
  assume n: "16 \<le> n" "get_int m g v n = Some (Some i)" and h: "held m v i" and "vgic_set_enable g v n x m = Some m'"
  then have "with_owner v i (enable_owned g v i x) VgicdSetEn (of_bool x) m = Some m'" by (simp add: vgic_set_enable_def gic_consts)
  from with_owner_low[OF this h enable_owned_low] show "vg_low m' = upd_int i (\<lambda>n. n\<lparr>vi_enabled := x\<rparr>) (vg_low m)" .
qed simp_all

interpretation prio_reg: vgic_register vgic_set_prio "\<lambda>p n. n\<lparr>vi_prio := p AND 0xf0\<rparr>" vi_prio "\<lambda>p. p AND 0xf0"
proof
  fix m g v n i x m'
  assume n: "16 \<le> n" "get_int m g v n = Some (Some i)" and h: "held m v i" and "vgic_set_prio g v n x m = Some m'"
  then have "with_owner v i (prio_owned g v i (x AND 0xf0)) VgicdSetPrio (x AND 0xf0) m = Some m'" by (simp add: vgic_set_prio_def Let_def)
  from with_owner_low[OF this h prio_owned_low] show "vg_low m' = upd_int i (\<lambda>n. n\<lparr>vi_prio := x AND 0xf0\<rparr>) (vg_low m)" .
qed simp_all

interpretation trgt_reg: vgic_register vgic_set_trgt "\<lambda>t n. n\<lparr>vi_targets := t\<rparr>" vi_targets "\<lambda>t. t"
proof
  fix m g v n i x m'
  assume n: "16 \<le> n" "get_int m g v n = Some (Some i)" and h: "held m v i" and "vgic_set_trgt g v n x m = Some m'"
  then have "with_owner v i (trgt_owned g v i x) VgicdSetTrgt x m = Some m'" by (simp add: vgic_set_trgt_def)
  from with_owner_low[OF this h trgt_owned_low] show "vg_low m' = upd_int i (\<lambda>n. n\<lparr>vi_targets := x\<rparr>) (vg_low m)" .
qed simp_all

interpretation icfgr_reg: vgic_register vgic_set_icfgr "\<lambda>c n. n\<lparr>vi_cfg := c\<rparr>" vi_cfg "\<lambda>c. c"
proof
  fix m g v n i x m'
  assume n: "16 \<le> n" "get_int m g v n = Some (Some i)" and h: "held m v i" and "vgic_set_icfgr g v n x m = Some m'"
  then have "with_owner v i (icfgr_owned i x) VgicdSetCfg x m = Some m'" by (simp add: vgic_set_icfgr_def)
  from with_owner_low[OF this h icfgr_owned_low] show "vg_low m' = upd_int i (\<lambda>n. n\<lparr>vi_cfg := x\<rparr>) (vg_low m)" .
qed simp_all

text \<open>
  The enable bits a guest reads are those it wrote last: after any run of enable and disable
  writes by a virtual CPU that were carried out on its own core, reading the bit of an interrupt
  gives the value of the last write to it, or the old value when it was not written.
\<close>

theorem vgic_enable_last_write:
  assumes "reg_run vgic_set_enable g v m ops m'" "ints_distinct m g v" "get_int m g v n = Some (Some i)"
  shows "vgic_get_enable m' g v n = (case map_of (rev ops) n of Some en \<Rightarrow> Some en | None \<Rightarrow> vgic_get_enable m g v n)"
  using enable_reg.run_last_write[OF assms] assms(3) by (auto simp: vgic_get_enable_def split: option.splits)

text \<open>
  The same holds for the priorities, of which the controller keeps the upper four bits, as the
  GIC-400 does.
\<close>

theorem vgic_prio_last_write:
  assumes "reg_run vgic_set_prio g v m ops m'" "ints_distinct m g v" "get_int m g v n = Some (Some i)"
  shows "vgic_get_prio m' g v n = (case map_of (rev ops) n of Some p \<Rightarrow> Some (p AND 0xf0) | None \<Rightarrow> vgic_get_prio m g v n)"
  using prio_reg.run_last_write[OF assms] assms(3) by (auto simp: vgic_get_prio_def split: option.splits)

section \<open>Pending and active lists\<close>

lemma remove_first_remove1:
  assumes "inj_on k (insert i (set xs))"
  shows "remove_first (\<lambda>x. k x = k i) xs = remove1 i xs"
  using assms by (induction xs) (auto simp: inj_on_def)

text \<open>Two lists and two flags of the interrupt \<open>i\<close> put into the machine.\<close>

definition put_lists :: "VgicRef \<Rightarrow> usize \<Rightarrow> IntRef \<Rightarrow> Machine \<Rightarrow> IntRef list \<Rightarrow> IntRef list \<Rightarrow> bool \<Rightarrow> bool \<Rightarrow> Machine" where
  "put_lists g c i m P A fp fa =
     m\<lparr>m_ints := (m_ints m)(i := (vint m i)\<lparr>vi_in_pend := fp, vi_in_act := fa\<rparr>),
       m_vgics := (m_vgics m)(g := (m_vgics m g)\<lparr>vg_cpu_priv := (vg_cpu_priv (m_vgics m g))[c :=
         (vg_cpu_priv (m_vgics m g) ! c)\<lparr>cp_pend_list := P, cp_act_list := A\<rparr>]\<rparr>)\<rparr>"

lemma put_lists_reads [simp]:
  "m_vcpus (put_lists g c i m P A fp fa) = m_vcpus m"
  "vi_in_pend (vint (put_lists g c i m P A fp fa) i) = fp" "vi_in_act (vint (put_lists g c i m P A fp fa) i) = fa"
  "vi_id (vint (put_lists g c i m P A fp fa) x) = vi_id (vint m x)"
  "vi_state (vint (put_lists g c i m P A fp fa) x) = vi_state (vint m x)"
  by (auto simp: put_lists_def)

lemma put_lists_self:
  assumes "cpu_priv m g c = Some p"
  shows "put_lists g c i m (cp_pend_list p) (cp_act_list p) (vi_in_pend (vint m i)) (vi_in_act (vint m i)) = m"
proof -
  from assms have p: "vg_cpu_priv (m_vgics m g) ! c = p" by (simp add: cpu_priv_def panic_simps)
  have "n\<lparr>vi_in_pend := vi_in_pend n, vi_in_act := vi_in_act n\<rparr> = n" for n :: VgicInt by (cases n) simp
  moreover have "p\<lparr>cp_pend_list := cp_pend_list p, cp_act_list := cp_act_list p\<rparr> = p" by (cases p) simp
  moreover have "x\<lparr>vg_cpu_priv := vg_cpu_priv x\<rparr> = x" for x :: Vgic by (cases x) simp
  moreover have "M\<lparr>m_ints := m_ints M, m_vgics := m_vgics M\<rparr> = M" for M :: Machine by (cases M) simp
  ultimately show ?thesis by (simp add: put_lists_def p[symmetric])
qed

lemma put_lists_steps:
  assumes c: "c = vc_id (vcpu m v)" and p: "cpu_priv m g c = Some p" and inj: "inj_on (\<lambda>x. vi_id (vint m x)) (insert i (set P \<union> set A))"
  shows "add_int_list g v i True (put_lists g c i m P A fp fa) = Some (put_lists g c i m (P @ [i]) A True fa)"
    "add_int_list g v i False (put_lists g c i m P A fp fa) = Some (put_lists g c i m P (A @ [i]) fp True)"
    "remove_int_list g v i True (put_lists g c i m P A fp fa) = Some (put_lists g c i m (if fp then remove1 i P else P) A False fa)"
    "remove_int_list g v i False (put_lists g c i m P A fp fa) = Some (put_lists g c i m P (if fa then remove1 i A else A) fp False)"
proof -
  have len: "c < length (vg_cpu_priv (m_vgics m g))" using p by (simp add: cpu_priv_def panic_simps)
  have u: "upd_cpu_priv g c f (put_lists g c i m P A fp fa) = Some (put_lists g c i m P' A' fp fa)"
    if "\<And>q. f (q\<lparr>cp_pend_list := P, cp_act_list := A\<rparr>) = q\<lparr>cp_pend_list := P', cp_act_list := A'\<rparr>" for f P' A' fp fa
    using len that by (simp add: upd_cpu_priv_def cpu_priv_def put_lists_def upd_vgic_def)
  have f: "set_in_pend_state i b (put_lists g c i m P A fp fa) = put_lists g c i m P A b fa"
    "set_in_act_state i b (put_lists g c i m P A fp fa) = put_lists g c i m P A fp b" for b P A fp fa
    by (cases m; cases "m_ints m i"; simp add: set_in_pend_state_def set_in_act_state_def upd_int_def put_lists_def)+
  have r: "remove_first (\<lambda>x. vi_id (vint m x) = vi_id (vint m i)) P = remove1 i P"
    "remove_first (\<lambda>x. vi_id (vint m x) = vi_id (vint m i)) A = remove1 i A"
    using inj by (intro remove_first_remove1[of "\<lambda>x. vi_id (vint m x)"], auto intro: inj_on_subset)+
  have swap: "q\<lparr>cp_act_list := y, cp_pend_list := x\<rparr> = q\<lparr>cp_pend_list := x, cp_act_list := y\<rparr>" for q :: VgicCpuPriv and x y
    by (cases q) simp
  show "add_int_list g v i True (put_lists g c i m P A fp fa) = Some (put_lists g c i m (P @ [i]) A True fa)"
    "add_int_list g v i False (put_lists g c i m P A fp fa) = Some (put_lists g c i m P (A @ [i]) fp True)"
    by (simp_all add: add_int_list_def c[symmetric] f u swap)
  show "remove_int_list g v i True (put_lists g c i m P A fp fa) = Some (put_lists g c i m (if fp then remove1 i P else P) A False fa)"
  proof (cases fp)
    case True
    then show ?thesis using u[of "\<lambda>q. q\<lparr>cp_pend_list := remove_first (\<lambda>x. vi_id (vint m x) = vi_id (vint m i)) (cp_pend_list q)\<rparr>" A "remove1 i P" True fa]
      by (simp add: remove_int_list_def c[symmetric] f r swap)
  qed (simp add: remove_int_list_def)
  show "remove_int_list g v i False (put_lists g c i m P A fp fa) = Some (put_lists g c i m P (if fa then remove1 i A else A) fp False)"
  proof (cases fa)
    case True
    then show ?thesis using u[of "\<lambda>q. q\<lparr>cp_act_list := remove_first (\<lambda>x. vi_id (vint m x) = vi_id (vint m i)) (cp_act_list q)\<rparr>" "remove1 i A" P fp True]
      by (simp add: remove_int_list_def c[symmetric] f r swap)
  qed (simp add: remove_int_list_def)
qed

text \<open>What becomes of a list: the interrupt stays where it is, comes to the end, or leaves.\<close>

definition relist :: "bool \<Rightarrow> bool \<Rightarrow> bool \<Rightarrow> IntRef \<Rightarrow> IntRef list \<Rightarrow> IntRef list" where
  "relist flag keep again i xs =
     (if keep then (if flag then xs else xs @ [i])
      else (if flag then remove1 i xs else xs) @ (if again then [i] else []))"

lemma relist_others: "filter (\<lambda>x. x \<noteq> i) (relist flag keep again i xs) = filter (\<lambda>x. x \<noteq> i) xs"
proof -
  have "filter (\<lambda>x. x \<noteq> i) (remove1 i xs) = filter (\<lambda>x. x \<noteq> i) xs" by (induction xs) auto
  then show ?thesis by (simp add: relist_def)
qed

lemma relist_member:
  "flag = (i \<in> set xs) \<Longrightarrow> distinct xs \<Longrightarrow> i \<in> set (relist flag keep again i xs) \<longleftrightarrow> keep \<or> again"
  by (auto simp: relist_def)

lemma put_lists_sgis:
  assumes "cpu_priv m g c = Some p" "k < length (cp_sgis p)"
  shows "cpu_priv_sgis_pend (put_lists g c i m P A fp fa) g c k = Some (sg_pend (cp_sgis p ! k))"
  using assms by (auto simp: cpu_priv_sgis_pend_def cpu_priv_def put_lists_def panic_simps)

text \<open>
  C13. \<open>update_int_list\<close> brings the two lists of a virtual CPU in line with the state of an interrupt.
  Whatever the two flags say, the result is the one update \<open>put_lists\<close>: an interrupt that is pending (active)
  stays at its place when its flag is set and comes to the end when it is not; one that is not pending (active)
  leaves when its flag is set; a software interrupt that only its pending sources keep pending leaves and
  comes back at the end. Afterwards the flags say pending (from the state or the sources) and active,
  and nothing else changes: the order of the other interrupts stays. When the flags agreed with the
  lists and no list had the interrupt twice, it is on each list exactly when its flag now says so. No two interrupts of the lists
  have the same number, and there is an entry for each of the 16 software interrupts.
\<close>

theorem update_int_list_spec:
  assumes c: "c = vc_id (vcpu m v)" and p: "cpu_priv m g c = Some p"
    and inj: "inj_on (\<lambda>x. vi_id (vint m x)) (insert i (set (cp_pend_list p) \<union> set (cp_act_list p)))"
    and len: "length (cp_sgis p) = GIC_SGIS_NUM"
    and st: "st = to_num (vi_state (vint m i))" and sgi: "sgi \<longleftrightarrow> int_id m i < GIC_SGIS_NUM \<and> sg_pend (cp_sgis p ! int_id m i) \<noteq> 0"
    and P': "P' = relist (vi_in_pend (vint m i)) (bit st 0) sgi i (cp_pend_list p)"
    and A': "A' = relist (vi_in_act (vint m i)) (bit st 1) False i (cp_act_list p)"
  shows "update_int_list g v i m = Some (put_lists g c i m P' A' (bit st 0 \<or> sgi) (bit st 1)) \<and>
    filter (\<lambda>x. x \<noteq> i) P' = filter (\<lambda>x. x \<noteq> i) (cp_pend_list p) \<and> filter (\<lambda>x. x \<noteq> i) A' = filter (\<lambda>x. x \<noteq> i) (cp_act_list p) \<and>
    (vi_in_pend (vint m i) = (i \<in> set (cp_pend_list p)) \<longrightarrow> distinct (cp_pend_list p) \<longrightarrow> (i \<in> set P' \<longleftrightarrow> bit st 0 \<or> sgi)) \<and>
    (vi_in_act (vint m i) = (i \<in> set (cp_act_list p)) \<longrightarrow> distinct (cp_act_list p) \<longrightarrow> (i \<in> set A' \<longleftrightarrow> bit st 1))"
proof -
  let ?L = "put_lists g c i m" and ?P = "cp_pend_list p" and ?A = "cp_act_list p"
  let ?fp = "vi_in_pend (vint m i)" and ?fa = "vi_in_act (vint m i)"
  define P1 where "P1 = relist ?fp (bit st 0) False i ?P"
  have self: "?L ?P ?A ?fp ?fa = m" by (rule put_lists_self[OF p])
  have sub: "set P1 \<subseteq> insert i (set ?P)" "set A' \<subseteq> insert i (set ?A)"
    by (auto simp: P1_def A' relist_def dest: notin_set_remove1)
  have j: "inj_on (\<lambda>x. vi_id (vint m x)) (insert i (set P \<union> set A))" if "P \<in> {?P, P1}" "A \<in> {?A, A'}" for P A
    by (rule inj_on_subset[OF inj]) (use that sub in auto)
  note steps = put_lists_steps[OF c p j]
  have 1: "(if bit st 0 \<and> \<not> ?fp then add_int_list g v i True m
      else if \<not> bit st 0 then remove_int_list g v i True m else Some m) = Some (?L P1 ?A (bit st 0) ?fa)"
    using steps(1,3)[of ?P ?A ?fp ?fa] self by (auto simp: P1_def relist_def)
  have 2: "(if bit st 1 \<and> \<not> ?fa then add_int_list g v i False (?L P1 ?A (bit st 0) ?fa)
      else if \<not> bit st 1 then remove_int_list g v i False (?L P1 ?A (bit st 0) ?fa)
      else Some (?L P1 ?A (bit st 0) ?fa)) = Some (?L P1 A' (bit st 0) (bit st 1))"
    using steps(2,4)[of P1 ?A "bit st 0" ?fa] by (auto simp: A' relist_def)
  have 3: "(if int_id m i < GIC_SGIS_NUM then do {
       q \<leftarrow> cpu_priv_sgis_pend (?L P1 A' (bit st 0) (bit st 1)) g c (int_id m i);
       if q \<noteq> 0 \<and> \<not> bit st 0 then add_int_list g v i True (?L P1 A' (bit st 0) (bit st 1)) else Some (?L P1 A' (bit st 0) (bit st 1)) }
     else Some (?L P1 A' (bit st 0) (bit st 1))) = Some (?L P' A' (bit st 0 \<or> sgi) (bit st 1))"
  proof (cases "sgi \<and> \<not> bit st 0")
    case True
    then show ?thesis using sgi put_lists_sgis[OF p, of "int_id m i"] len steps(1)[of P1 A'] by (auto simp: P1_def P' relist_def)
  next
    case False
    then show ?thesis using sgi put_lists_sgis[OF p, of "int_id m i"] len by (auto simp: P1_def P' relist_def)
  qed
  have "update_int_list g v i m = Some (?L P' A' (bit st 0 \<or> sgi) (bit st 1))"
    unfolding update_int_list_def Let_def st[symmetric] 1 Option.bind.bind_lunit put_lists_reads 2 c[symmetric] 3 ..
  then show ?thesis unfolding P' A' using relist_others relist_member by auto
qed

text \<open>
  An interrupt that a virtual CPU put on its pending list and then released stays there when
  another virtual CPU takes it over and the state is cleared: \<open>update_int_list\<close> of the second one
  looks through its own list only, but clears the flag.  The entry left behind is stale; it can
  keep \<open>refill_lrs\<close> of the first virtual CPU from reaching the interrupts queued after it.
\<close>

theorem update_int_list_stale_entry:
  assumes "c \<noteq> vc_id (vcpu m v)" "cpu_priv m g c = Some p" "i \<in> set (cp_pend_list p)" "vi_in_pend (vint m i)"
    and "vi_state (vint m i) = IrqSInactive" "GIC_SGIS_NUM \<le> int_id m i" "update_int_list g v i m = Some m'"
  shows "\<not> vi_in_pend (vint m' i) \<and> (\<exists>p'. cpu_priv m' g c = Some p' \<and> i \<in> set (cp_pend_list p'))"
  using assms
  by (auto simp: update_int_list_def remove_int_list_def upd_cpu_priv_def cpu_priv_def upd_vgic_def upd_int_def
      set_in_pend_state_def set_in_act_state_def panic_simps Let_def split: if_splits)

section \<open>List registers\<close>

lemma and_masks:
  fixes x :: "'a::len word"
  shows "x AND 0b1111111111 = take_bit 10 x" "x AND 0b11111 = take_bit 5 x" "x AND 0b11 = take_bit 2 x" "x AND 0b111 = take_bit 3 x"
  by (simp_all add: take_bit_eq_mask mask_eq_exp_minus_1)

text \<open>The bits outside identifier and priority: physical identifier or source, end-of-interrupt request, state, hardware.\<close>

definition lr_rest_ok :: "u64 \<Rightarrow> bool" where
  "lr_rest_ok r \<longleftrightarrow> (\<forall>n. bit r n \<longrightarrow> 10 \<le> n \<and> n < 20 \<or> 28 \<le> n \<and> n < 32)"

lemma lr_base_fields:
  assumes "lr_rest_ok r"
  shows "lr_id (ucast (lr_base ident prio OR r)) = take_bit 10 (of_nat ident)"
    "lr_prio (ucast (lr_base ident prio OR r)) = drop_bit 3 (ucast prio)"
    "lr_state (ucast (lr_base ident prio OR r)) = ucast (take_bit 2 (drop_bit 28 r))"
    "bit (ucast (lr_base ident prio OR r) :: u32) 31 \<longleftrightarrow> bit r 31"
proof -
  have r: "bit r n \<Longrightarrow> 10 \<le> n \<and> n < 20 \<or> 28 \<le> n \<and> n < 32" for n using assms by (auto simp: lr_rest_ok_def)
  have p: "bit prio n \<Longrightarrow> n < 8" for n by (rule bit_u8_bound)
  have b: "bit (lr_base ident prio OR r) n \<longleftrightarrow> n < 64 \<and> (n < 10 \<and> bit (of_nat ident :: u64) n \<or> 23 \<le> n \<and> n < 28 \<and> bit prio (n - 20) \<or> bit r n)" for n
    unfolding lr_base_def and_masks
    by (auto simp: bit_or_iff bit_push_bit_iff bit_take_bit_iff bit_drop_bit_eq bit_unsigned_iff possible_bit_def dest: p r)
  have of: "bit (of_nat ident :: u64) n \<longleftrightarrow> bit (of_nat ident :: u32) n" if "n < 10" for n
    using that bit_word_of_int_iff[of "int ident" n, where 'a = 64] bit_word_of_int_iff[of "int ident" n, where 'a = 32] by simp
  show "lr_id (ucast (lr_base ident prio OR r)) = take_bit 10 (of_nat ident)"
    unfolding lr_id_def and_masks
    by (rule bit_word_eqI) (auto simp: bit_take_bit_iff bit_unsigned_iff b of dest: r)
  show "lr_prio (ucast (lr_base ident prio OR r)) = drop_bit 3 (ucast prio)"
    unfolding lr_prio_def and_masks
    by (rule bit_word_eqI) (auto simp: bit_take_bit_iff bit_drop_bit_eq bit_unsigned_iff b dest: r p)
  show "lr_state (ucast (lr_base ident prio OR r)) = ucast (take_bit 2 (drop_bit 28 r))"
    unfolding lr_state_def and_masks
    by (rule bit_word_eqI) (auto simp: bit_take_bit_iff bit_drop_bit_eq bit_unsigned_iff b dest: r p)
  show "bit (ucast (lr_base ident prio OR r) :: u32) 31 \<longleftrightarrow> bit r 31" by (auto simp: bit_unsigned_iff b)
qed

lemma lr_rest_or: "lr_rest_ok r \<Longrightarrow> lr_rest_ok s \<Longrightarrow> lr_rest_ok (r OR s)"
  by (auto simp: lr_rest_ok_def bit_or_iff)

lemma lr_rest_pieces:
  "lr_rest_ok (push_bit 31 1)" "lr_rest_ok (push_bit 19 1)" "lr_rest_ok (push_bit 28 (take_bit 2 x))"
  "lr_rest_ok (push_bit 10 (take_bit 10 x))" "lr_rest_ok (push_bit 10 y AND push_bit 10 0b111)" "lr_rest_ok (push_bit 10 (take_bit 3 x))"
proof -
  have "(0b111 :: u64) = mask 3" by (simp add: mask_eq_exp_minus_1)
  then have e: "push_bit 10 y AND push_bit 10 0b111 = push_bit 10 (take_bit 3 y)"
    by (simp only: push_bit_and[symmetric] take_bit_eq_mask)
  show "lr_rest_ok (push_bit 10 y AND push_bit 10 0b111)"
    unfolding e by (auto simp: lr_rest_ok_def bit_push_bit_iff bit_take_bit_iff)
  show "lr_rest_ok (push_bit 31 1)" "lr_rest_ok (push_bit 19 1)"
    unfolding lr_rest_ok_def bit_push_bit_iff bit_1_iff by auto
qed (auto simp: lr_rest_ok_def bit_push_bit_iff bit_take_bit_iff)

text \<open>A value built from such pieces and a state field.\<close>

lemma lr_state_piece:
  assumes "\<And>n. bit s n \<Longrightarrow> n < 28 \<or> n = 31"
  shows "take_bit 2 (drop_bit 28 (s OR push_bit 28 (take_bit 2 x))) = take_bit 2 (x :: u64)"
    "bit (s OR push_bit 28 (take_bit 2 x)) 31 \<longleftrightarrow> bit s 31"
proof -
  show "take_bit 2 (drop_bit 28 (s OR push_bit 28 (take_bit 2 x))) = take_bit 2 x"
    by (rule bit_word_eqI) (auto simp: bit_take_bit_iff bit_drop_bit_eq bit_or_iff bit_push_bit_iff dest: assms)
qed (auto simp: bit_or_iff bit_push_bit_iff bit_take_bit_iff)

lemma lr_sgi_shape:
  assumes "lr_sgi g c n st b m = Some (lr, m')"
  shows "\<exists>y pe. lr = (b OR push_bit 10 (take_bit 3 y) OR push_bit 28 2) OR (if pe then push_bit 19 1 else 0) \<or>
    lr = (b OR push_bit 10 (take_bit 3 y) OR push_bit 28 1) OR (if pe then push_bit 19 1 else 0)"
proof -
  have m3: "push_bit 10 y AND push_bit 10 (0b111 :: u64) = push_bit 10 (take_bit 3 y)" for y
    by (simp only: push_bit_and[symmetric] and_masks)
  let ?e = "push_bit 19 1 :: u64"
  have n: "(7168 :: u64) = push_bit 10 0b111" "(536870912 :: u64) = push_bit 28 2" "(268435456 :: u64) = push_bit 28 1" by simp_all
  have pe: "(if x \<noteq> 0 then l OR ?e else l) = l OR (if x \<noteq> 0 then ?e else 0)" for x :: u8 and l by simp
  show ?thesis
  proof (cases "st AND 2 \<noteq> 0")
    case True
    then obtain act :: u8 and q :: u8 where
      "lr = (if q \<noteq> 0 then (b OR push_bit 10 (ucast act) AND 7168 OR 536870912) OR ?e
             else b OR push_bit 10 (ucast act) AND 7168 OR 536870912)"
      using assms by (auto simp: lr_sgi_def panic_simps)
    then show ?thesis unfolding n m3 pe by blast
  next
    case False
    then obtain idx :: nat and q :: u8 where
      "lr = (if q \<noteq> 0 then (b OR push_bit 10 (of_nat idx) AND 7168 OR 268435456) OR ?e
             else b OR push_bit 10 (of_nat idx) AND 7168 OR 268435456)"
      using assms by (auto simp: lr_sgi_def panic_simps)
    then show ?thesis unfolding n m3 pe by blast
  qed
qed

lemma lr_encode_shape:
  assumes "lr_encode g v i st m = Some (lr, m')"
  shows "\<exists>s x. lr = lr_base (int_id m i) (vi_prio (vint m i)) OR (s OR push_bit 28 (take_bit 2 x)) \<and> lr_rest_ok s \<and>
    (\<forall>n. bit s n \<longrightarrow> n < 28 \<or> n = 31) \<and> (bit s 31 \<longleftrightarrow> vgic_int_is_hw m i) \<and>
    (GIC_SGIS_NUM \<le> int_id m i \<longrightarrow> x = (if vgic_int_is_hw m i \<and> st = 3 then 2 else st))"
proof -
  let ?b = "lr_base (int_id m i) (vi_prio (vint m i))" and ?e = "push_bit 19 1 :: u64"
  have e: "\<not> bit ?e 31" unfolding bit_push_bit_iff bit_1_iff by simp
  have h: "bit (push_bit 31 (1 :: u64)) n \<longleftrightarrow> n = 31" for n unfolding bit_push_bit_iff bit_1_iff by auto
  have t10: "\<not> bit (push_bit 10 (take_bit 10 y :: u64)) 31" "\<not> bit (push_bit 10 (take_bit 3 y :: u64)) 31"
    "bit (push_bit 10 (take_bit 10 y :: u64)) n \<Longrightarrow> n < 28" "bit (push_bit 10 (take_bit 3 y :: u64)) n \<Longrightarrow> n < 28" for y n
    by (auto simp: bit_push_bit_iff bit_take_bit_iff)
  have e28: "bit ?e n \<Longrightarrow> n < 28" for n unfolding bit_push_bit_iff bit_1_iff by auto
  consider "vgic_int_is_hw m i" | "\<not> vgic_int_is_hw m i" "int_id m i < GIC_SGIS_NUM" | "\<not> vgic_int_is_hw m i" "GIC_SGIS_NUM \<le> int_id m i"
    by linarith
  then show ?thesis
  proof cases
    case 1
    let ?s = "push_bit 31 1 OR push_bit 10 (take_bit 10 (of_nat (int_id m i))) :: u64"
    have "lr = ?b OR (?s OR push_bit 28 (take_bit 2 (if st = 3 then 2 else st)))"
      using assms 1 unfolding lr_encode_def Let_def and.commute[of "0b1111111111"] and_masks
      by (auto simp: panic_simps or.assoc split: if_splits)
    then show ?thesis using 1 lr_rest_or[OF lr_rest_pieces(1) lr_rest_pieces(4)] h t10
      by (intro exI[of _ ?s] exI[of _ "if st = 3 then 2 else st"]) (auto simp: bit_or_iff)
  next
    case 2
    from assms 2 have "lr_sgi g (vc_id (vcpu m v)) (int_id m i) st ?b m = Some (lr, m')" by (simp add: lr_encode_def Let_def)
    from lr_sgi_shape[OF this] obtain y pe where "lr = (?b OR push_bit 10 (take_bit 3 y) OR push_bit 28 2) OR (if pe then ?e else 0) \<or>
        lr = (?b OR push_bit 10 (take_bit 3 y) OR push_bit 28 1) OR (if pe then ?e else 0)" by blast
    then obtain x where lr: "lr = (?b OR push_bit 10 (take_bit 3 y) OR push_bit 28 (take_bit 2 x)) OR (if pe then ?e else 0)"
    proof
      assume "lr = (?b OR push_bit 10 (take_bit 3 y) OR push_bit 28 2) OR (if pe then ?e else 0)"
      then show ?thesis using that[of 2] by simp
    next
      assume "lr = (?b OR push_bit 10 (take_bit 3 y) OR push_bit 28 1) OR (if pe then ?e else 0)"
      then show ?thesis using that[of 1] by simp
    qed
    let ?s = "push_bit 10 (take_bit 3 y) OR (if pe then ?e else 0)"
    have "lr = ?b OR (?s OR push_bit 28 (take_bit 2 x))" unfolding lr by (simp only: or.assoc or.commute or.left_commute)
    moreover have "lr_rest_ok ?s" using lr_rest_pieces(6)[of y] lr_rest_or[OF lr_rest_pieces(6) lr_rest_pieces(2), of y] by (cases pe) simp_all
    moreover have "\<forall>n. bit ?s n \<longrightarrow> n < 28 \<or> n = 31" "\<not> bit ?s 31"
      using t10(2,4)[of y] e e28 by (cases pe; auto simp only: bit_or_iff if_True if_False or.right_neutral)+
    ultimately show ?thesis using 2 by (intro exI[of _ ?s] exI[of _ x]) simp
  next
    case 3
    let ?s = "if \<not> gic_is_priv (int_id m i) then ?e else 0"
    have "lr = ?b OR (?s OR push_bit 28 (take_bit 2 st))"
      using assms 3 unfolding lr_encode_def Let_def and_masks by (auto simp: or.assoc split: if_splits)
    moreover have "lr_rest_ok ?s" using lr_rest_pieces(2) by (cases "gic_is_priv (int_id m i)") (simp_all add: lr_rest_ok_def)
    moreover have "\<forall>n. bit ?s n \<longrightarrow> n < 28 \<or> n = 31" "\<not> bit ?s 31" using e e28 by (cases "gic_is_priv (int_id m i)"; auto)+
    ultimately show ?thesis using 3 by (intro exI[of _ ?s] exI[of _ st]) simp
  qed
qed

lemma lr_encode_fields:
  assumes "lr_encode g v i st m = Some (lr, m')"
  shows "lr_id (ucast lr) = take_bit 10 (ucast (vi_id (vint m i)))" "lr_prio (ucast lr) = drop_bit 3 (ucast (vi_prio (vint m i)))"
    "bit (ucast lr :: u32) 31 \<longleftrightarrow> vgic_int_is_hw m i"
    "GIC_SGIS_NUM \<le> int_id m i \<Longrightarrow> lr_state (ucast lr) = (if vgic_int_is_hw m i \<and> st = 3 then 2 else ucast (take_bit 2 st))"
proof -
  from lr_encode_shape[OF assms] obtain s x where sx: "lr = lr_base (int_id m i) (vi_prio (vint m i)) OR (s OR push_bit 28 (take_bit 2 x))"
    "lr_rest_ok s" "\<And>n. bit s n \<Longrightarrow> n < 28 \<or> n = 31" "bit s 31 \<longleftrightarrow> vgic_int_is_hw m i"
    "GIC_SGIS_NUM \<le> int_id m i \<longrightarrow> x = (if vgic_int_is_hw m i \<and> st = 3 then 2 else st)" by blast
  note f = lr_base_fields[OF lr_rest_or[OF sx(2) lr_rest_pieces(3)], of "int_id m i" "vi_prio (vint m i)" x, folded sx(1)]
  note p = lr_state_piece[of s x, OF sx(3)]
  have u: "of_nat (int_id m i) = (ucast (vi_id (vint m i)) :: u32)" by simp
  show "lr_id (ucast lr) = take_bit 10 (ucast (vi_id (vint m i)))" using f(1) u by simp
  show "lr_prio (ucast lr) = drop_bit 3 (ucast (vi_prio (vint m i)))" using f(2) .
  show "bit (ucast lr :: u32) 31 \<longleftrightarrow> vgic_int_is_hw m i" using f(4) p(2) sx(4) by simp
  show "GIC_SGIS_NUM \<le> int_id m i \<Longrightarrow> lr_state (ucast lr) = (if vgic_int_is_hw m i \<and> st = 3 then 2 else ucast (take_bit 2 st))"
    using f(3) p(1) sx(5) by simp
qed

text \<open>What moving an interrupt between the lists leaves alone.\<close>

definition lr_view :: "Machine \<Rightarrow> CpuHw \<times> (IntRef \<Rightarrow> IrqState \<times> bool \<times> u16 \<times> VcpuRef option) \<times> (VgicRef \<Rightarrow> u16 list list)" where
  "lr_view m = (m_hw m, \<lambda>i. (vi_state (vint m i), vi_in_lr (vint m i), vi_lr (vint m i), vi_owner (vint m i)),
     \<lambda>g. map cp_curr_lrs (vg_cpu_priv (m_vgics m g)))"

lemma lr_view_flags [simp]:
  "lr_view (set_in_pend_state i b m) = lr_view m" "lr_view (set_in_act_state i b m) = lr_view m"
  by (auto simp: lr_view_def set_in_pend_state_def set_in_act_state_def upd_int_def intro!: ext split: if_splits)

lemma upd_cpu_priv_lr_view:
  assumes "upd_cpu_priv g c f m = Some m'" and "\<And>p. cp_curr_lrs (f p) = cp_curr_lrs p"
  shows "lr_view m' = lr_view m"
proof -
  let ?ps = "vg_cpu_priv (m_vgics m g)"
  from assms(1) have c: "c < length ?ps" and m': "m' = upd_vgic g (\<lambda>vg. vg\<lparr>vg_cpu_priv := (vg_cpu_priv vg)[c := f (?ps ! c)]\<rparr>) m"
    by (auto simp: upd_cpu_priv_def cpu_priv_def panic_simps)
  have "map cp_curr_lrs (?ps[c := f (?ps ! c)]) = map cp_curr_lrs ?ps" using c assms(2) by (simp add: map_update list_update_same_conv)
  then show ?thesis by (auto simp: lr_view_def m' upd_vgic_def)
qed

lemma list_lr_view:
  "add_int_list g v i b m = Some m' \<Longrightarrow> lr_view m' = lr_view m"
  "remove_int_list g v i b m = Some m' \<Longrightarrow> lr_view m' = lr_view m"
  by (auto simp: add_int_list_def remove_int_list_def Let_def panic_simps split: if_splits dest!: upd_cpu_priv_lr_view)

lemma update_int_list_lr_view: "update_int_list g v i m = Some m' \<Longrightarrow> lr_view m' = lr_view m"
  by (auto simp: update_int_list_def Let_def panic_simps split: if_splits dest!: list_lr_view)

lemma lr_view_proj:
  assumes "lr_view m' = lr_view m"
  shows "m_hw m' = m_hw m" "vi_state (vint m' i) = vi_state (vint m i)" "vi_in_lr (vint m' i) = vi_in_lr (vint m i)"
    "vi_lr (vint m' i) = vi_lr (vint m i)" "vi_owner (vint m' i) = vi_owner (vint m i)"
    "cpu_priv_curr_lrs m' g c k = cpu_priv_curr_lrs m g c k"
proof -
  have e: "cpu_priv_curr_lrs M g c k = do { xs \<leftarrow> vec_get (map cp_curr_lrs (vg_cpu_priv (m_vgics M g))) c; vec_get xs k }" for M
    by (auto simp: cpu_priv_curr_lrs_def cpu_priv_def vec_get_def)
  have "map cp_curr_lrs (vg_cpu_priv (m_vgics m' g)) = map cp_curr_lrs (vg_cpu_priv (m_vgics m g))"
    using assms[THEN arg_cong, of "\<lambda>x. snd (snd x) g"] by (simp add: lr_view_def)
  then show "cpu_priv_curr_lrs m' g c k = cpu_priv_curr_lrs m g c k" by (simp only: e)
  show "vi_state (vint m' i) = vi_state (vint m i)" "vi_in_lr (vint m' i) = vi_in_lr (vint m i)"
    "vi_lr (vint m' i) = vi_lr (vint m i)" "vi_owner (vint m' i) = vi_owner (vint m i)"
    using assms[THEN arg_cong, of "\<lambda>x. fst (snd x) i"] by (simp_all add: lr_view_def)
qed (use assms in \<open>simp add: lr_view_def\<close>)

lemma yield_owner_keeps:
  assumes "vgic_int_yield_owner v p m = Some m'"
  shows "m_hw m' = m_hw m" "m_vgics m' = m_vgics m" "vi_state (vint m' i) = vi_state (vint m i)" "vi_in_lr (vint m' i) = vi_in_lr (vint m i)"
proof -
  from assms have "m' = m \<or> m' = upd_int p (\<lambda>n. n\<lparr>vi_owner := None\<rparr>) m"
    by (auto simp: vgic_int_yield_owner_def panic_simps split: if_splits)
  then show "m_hw m' = m_hw m" "m_vgics m' = m_vgics m" "vi_state (vint m' i) = vi_state (vint m i)" "vi_in_lr (vint m' i) = vi_in_lr (vint m i)"
    by (auto simp: upd_int_def split: if_splits)
qed

lemma evict_prev_cases:
  assumes "evict_prev g v q k m = Some m'"
  obtains "m' = m" | p where "m' = set_in_lr p False m" | p where "vgic_int_yield_owner v p (set_in_lr p False m) = Some m'"
  using assms by (auto simp: evict_prev_def panic_simps Let_def split: if_splits option.splits)

lemma evict_prev_keeps:
  assumes "evict_prev g v q k m = Some m'"
  shows "m_hw m' = m_hw m" "m_vgics m' = m_vgics m" "vi_state (vint m' i) = vi_state (vint m i)" "vi_in_lr (vint m' i) \<Longrightarrow> vi_in_lr (vint m i)"
proof -
  have s: "m_hw (set_in_lr p False m) = m_hw m" "m_vgics (set_in_lr p False m) = m_vgics m"
    "vi_state (vint (set_in_lr p False m) i) = vi_state (vint m i)" "vi_in_lr (vint (set_in_lr p False m) i) \<Longrightarrow> vi_in_lr (vint m i)" for p
    by (auto simp: set_in_lr_def upd_int_def split: if_splits)
  show "m_hw m' = m_hw m" "m_vgics m' = m_vgics m" "vi_state (vint m' i) = vi_state (vint m i)" "vi_in_lr (vint m' i) \<Longrightarrow> vi_in_lr (vint m i)"
    using assms by (cases rule: evict_prev_cases; auto simp: yield_owner_keeps s dest: s(4))+
qed

lemma lr_encode_keeps:
  assumes "lr_encode g v i st m = Some (lr, m')"
  shows "gich m' = gich m" "m_ints m' = m_ints m"
  using assms
  by (auto simp: lr_encode_def lr_sgi_def set_cpu_priv_sgis_pend_def upd_cpu_priv_def upd_vgic_def on_gicd_def set_gicd_def upd_hw_def
      panic_simps Let_def split: if_splits)

lemma get_state_idle:
  "GIC_SGIS_NUM \<le> int_id m i \<Longrightarrow> \<not> vi_in_lr (vint m i) \<Longrightarrow> vgic_get_state m i = Some (of_nat (to_num (vi_state (vint m i))))"
  by (simp add: vgic_get_state_def)

text \<open>The remaining fields of a list register.\<close>

definition lr_source :: "u32 \<Rightarrow> u32" where "lr_source lr = drop_bit 10 lr AND 0b111"
definition lr_phys :: "u32 \<Rightarrow> u32" where "lr_phys lr = drop_bit 10 lr AND 0b1111111111"

lemma bit_lr_base: "bit (lr_base n p) k \<longleftrightarrow> k < 10 \<and> bit (of_nat n :: u64) k \<or> 23 \<le> k \<and> k < 28 \<and> bit p (k - 20)"
proof -
  have m: "(0b1111111111 :: u64) = mask 10" "(0b11111 :: u64) = mask 5" by (simp_all add: mask_eq_exp_minus_1)
  show ?thesis unfolding lr_base_def m
    by (auto simp: bit_or_iff bit_and_iff bit_mask_iff bit_push_bit_iff bit_drop_bit_eq bit_ucast_iff bit_imp_le_length)
qed

lemma lr_source_eqI: "(\<And>k. k < 3 \<Longrightarrow> bit x (10 + k) = bit y k) \<Longrightarrow> lr_source x = take_bit 3 y"
proof (rule bit_eqI)
  fix k assume a: "\<And>k. k < 3 \<Longrightarrow> bit x (10 + k) = bit y k"
  have m: "(0b111 :: u32) = mask 3" by (simp add: mask_eq_exp_minus_1)
  show "bit (lr_source x) k = bit (take_bit 3 y) k"
    unfolding lr_source_def m using a by (auto simp: bit_and_iff bit_mask_iff bit_drop_bit_eq bit_take_bit_iff)
qed

lemma lr_phys_eqI: "(\<And>k. k < 10 \<Longrightarrow> bit x (10 + k) = bit y k) \<Longrightarrow> lr_phys x = take_bit 10 y"
proof (rule bit_eqI)
  fix k assume a: "\<And>k. k < 10 \<Longrightarrow> bit x (10 + k) = bit y k"
  have m: "(0b1111111111 :: u32) = mask 10" by (simp add: mask_eq_exp_minus_1)
  show "bit (lr_phys x) k = bit (take_bit 10 y) k"
    unfolding lr_phys_def m using a by (auto simp: bit_and_iff bit_mask_iff bit_drop_bit_eq bit_take_bit_iff)
qed

lemma lr_state_eqI: "bit x 28 = bit y 0 \<Longrightarrow> bit x 29 = bit y 1 \<Longrightarrow> lr_state x = take_bit 2 y"
proof (rule bit_eqI)
  fix k assume a: "bit x 28 = bit y 0" "bit x 29 = bit y 1"
  have m: "(0b11 :: u32) = mask 2" by (simp add: mask_eq_exp_minus_1)
  have "bit x (28 + k) = bit y k" if "k < 2"
  proof -
    from that consider "k = 0" | "k = 1" by linarith
    then show ?thesis using a by cases simp_all
  qed
  then show "bit (lr_state x) k = bit (take_bit 2 y) k"
    unfolding lr_state_def m by (auto simp: bit_and_iff bit_mask_iff bit_drop_bit_eq bit_take_bit_iff)
qed

lemma sgi_source_highest:
  "sgi_source pend n = Some k \<Longrightarrow> k \<le> n \<and> bit pend k \<and> (\<forall>j. k < j \<longrightarrow> j \<le> n \<longrightarrow> \<not> bit pend j)"
proof (induction n)
  case (Suc n)
  then show ?case by (auto split: if_splits simp: le_Suc_eq)
qed (auto split: if_splits)

lemma lr_sgi_fields:
  fixes x :: u32
  assumes "lr_sgi g c n st (lr_base nn p) m = Some (lr, m')"
  defines "x \<equiv> ucast lr"
  shows "\<exists>pend'. cpu_priv_sgis_pend m' g c n = Some pend' \<and> (bit x 19 \<longleftrightarrow> pend' \<noteq> 0) \<and>
    (if bit st 1
     then m' = m \<and> lr_state x = 2 \<and> (\<exists>act. cpu_priv_sgis_act m g c n = Some act \<and> lr_source x = take_bit 3 (ucast act))
     else lr_state x = 1 \<and> (\<exists>pend src. cpu_priv_sgis_pend m g c n = Some pend \<and> src < 8 \<and> bit pend src \<and> (\<forall>j > src. \<not> bit pend j) \<and>
       lr_source x = of_nat src \<and> set_cpu_priv_sgis_pend g c n (pend AND NOT (push_bit src 1)) m = Some m'))"
proof -
  have st: "st AND 2 \<noteq> 0 \<longleftrightarrow> bit st 1"
  proof -
    have "st AND 2 = (if bit st 1 then 2 else 0)"
      by (rule bit_eqI) (auto simp: bit_and_iff bit_2_iff)
    then show ?thesis by simp
  qed
  have len32: "LENGTH(32) = 32" by simp
  have m3: "bit (push_bit 10 (0b111 :: u64)) k \<longleftrightarrow> 10 \<le> k \<and> k < 13" for k
  proof -
    have m: "(0b111 :: u64) = mask 3" by (simp add: mask_eq_exp_minus_1)
    show ?thesis unfolding m by (auto simp: bit_push_bit_iff bit_mask_iff)
  qed
  have b28: "bit (push_bit 28 (2 :: u64)) k \<longleftrightarrow> k = 29" "bit (push_bit 28 (1 :: u64)) k \<longleftrightarrow> k = 28" "bit (push_bit 19 (1 :: u64)) k \<longleftrightarrow> k = 19" for k
    unfolding bit_push_bit_iff bit_2_iff bit_1_iff by auto
  show ?thesis
  proof (cases "bit st 1")
    case True
    with assms(1) obtain act pend' where a: "cpu_priv_sgis_act m g c n = Some act" "cpu_priv_sgis_pend m g c n = Some pend'" "m' = m"
      and lr: "lr = (let l = lr_base nn p OR (push_bit 10 (ucast act) AND push_bit 10 0b111) OR push_bit 28 2 in if pend' \<noteq> 0 then l OR push_bit 19 1 else l)"
      unfolding lr_sgi_def st by (auto simp only: if_True panic_simps Let_def split_paired_Ex prod.case)
    have bits: "bit x k \<longleftrightarrow> k < 32 \<and> (bit (lr_base nn p) k \<or> 10 \<le> k \<and> k < 13 \<and> bit act (k - 10) \<or> k = 29 \<or> pend' \<noteq> 0 \<and> k = 19)" for k
    proof -
      have "bit (push_bit 10 (ucast act) AND push_bit 10 (0b111 :: u64)) k \<longleftrightarrow> 10 \<le> k \<and> k < 13 \<and> bit act (k - 10)"
        unfolding bit_and_iff m3 by (auto simp: bit_push_bit_iff bit_ucast_iff)
      then show ?thesis unfolding x_def lr Let_def bit_ucast_iff
        by (cases "pend' = 0"; simp only: if_True if_False bit_or_iff b28 simp_thms len32) blast+
    qed
    have "lr_source x = take_bit 3 (ucast act)" by (rule lr_source_eqI) (auto simp: bits bit_lr_base bit_ucast_iff)
    moreover have "lr_state x = take_bit 2 2" by (rule lr_state_eqI) (simp_all add: bits bit_lr_base bit_2_iff)
    ultimately show ?thesis using a True by (simp add: bits bit_lr_base)
  next
    case False
    with assms(1) obtain pend src pend' where a: "cpu_priv_sgis_pend m g c n = Some pend" "sgi_source pend (GIC_TARGETS_MAX - 1) = Some src"
      "set_cpu_priv_sgis_pend g c n (pend AND NOT (push_bit src 1)) m = Some m'" "cpu_priv_sgis_pend m' g c n = Some pend'"
      and lr: "lr = (let l = lr_base nn p OR push_bit 10 (of_nat src AND 0b111) OR push_bit 28 1 in if pend' \<noteq> 0 then l OR push_bit 19 1 else l)"
      unfolding lr_sgi_def st by (auto simp only: if_False panic_simps Let_def split_paired_Ex prod.case)
    have "GIC_TARGETS_MAX - 1 = 7" by (simp add: GIC_TARGETS_MAX_def GIC_TARGET_BITS_def)
    note h = sgi_source_highest[OF a(2), unfolded this]
    have hi: "\<not> bit pend j" if "src < j" for j using h that bit_imp_le_length[of pend j] by fastforce
    have bits: "bit x k \<longleftrightarrow> k < 32 \<and> (bit (lr_base nn p) k \<or> 10 \<le> k \<and> k < 13 \<and> bit src (k - 10) \<or> k = 28 \<or> pend' \<noteq> 0 \<and> k = 19)" for k
    proof -
      have "bit (push_bit 10 (of_nat src AND 0b111 :: u64)) k \<longleftrightarrow> 10 \<le> k \<and> k < 13 \<and> bit src (k - 10)"
      proof -
        have m: "(0b111 :: u64) = mask 3" by (simp add: mask_eq_exp_minus_1)
        show ?thesis unfolding m by (auto simp: bit_push_bit_iff bit_and_iff bit_mask_iff bit_of_nat_iff)
      qed
      then show ?thesis unfolding x_def lr Let_def bit_ucast_iff
        by (cases "pend' = 0"; simp only: if_True if_False bit_or_iff b28 simp_thms len32) blast+
    qed
    have "lr_source x = take_bit 3 (of_nat src)" by (rule lr_source_eqI) (auto simp: bits bit_lr_base bit_of_nat_iff)
    moreover have "take_bit 3 (of_nat src) = (of_nat src :: u32)" using h
      by (simp add: take_bit_of_nat take_bit_nat_eq_self)
    moreover have "lr_state x = take_bit 2 1" by (rule lr_state_eqI) (simp_all add: bits bit_lr_base)
    moreover have "src < 8" using h by simp
    ultimately show ?thesis using a h hi False by (simp add: bits bit_lr_base) (rule exI[of _ src], simp)
  qed
qed

lemma lr_encode_more:
  fixes x :: u32
  assumes "lr_encode g v i st m = Some (lr, m')"
  defines "x \<equiv> ucast lr"
  shows "vgic_int_is_hw m i \<Longrightarrow> lr_phys x = take_bit 10 (ucast (vi_id (vint m i)))"
    "GIC_SGIS_NUM \<le> int_id m i \<Longrightarrow> \<not> vgic_int_is_hw m i \<Longrightarrow> lr_source x = 0 \<and> (bit x 19 \<longleftrightarrow> \<not> gic_is_priv (int_id m i))"
    "GIC_SGIS_NUM \<le> int_id m i \<Longrightarrow> m_vgics m' = m_vgics m"
proof -
  let ?b = "lr_base (int_id m i) (vi_prio (vint m i))"
  have len32: "LENGTH(32) = 32" by simp
  have m3: "push_bit 28 (st AND 0b11) = push_bit 28 (take_bit 2 st)" "(0b1111111111 :: u64) = mask 10"
    by (simp_all add: and_masks mask_eq_exp_minus_1)
  have b: "bit (push_bit 28 (take_bit 2 y) :: u64) k \<Longrightarrow> 28 \<le> k \<and> k < 30" "bit (push_bit 28 (2 :: u64)) k \<Longrightarrow> k = 29"
    "bit (push_bit 19 (1 :: u64)) k \<longleftrightarrow> k = 19" "bit (push_bit 31 (1 :: u64)) k \<longleftrightarrow> k = 31" for k y
    unfolding bit_push_bit_iff bit_take_bit_iff bit_2_iff bit_1_iff by auto
  show "lr_phys x = take_bit 10 (ucast (vi_id (vint m i)))" if hw: "vgic_int_is_hw m i"
  proof (rule lr_phys_eqI)
    fix k :: nat assume k: "k < 10"
    let ?i = "push_bit 10 (0b1111111111 AND of_nat (int_id m i)) :: u64"
    have "lr = (if st = 3 then ((?b OR push_bit 31 1) OR ?i) OR push_bit 28 2 else ((?b OR push_bit 31 1) OR ?i) OR push_bit 28 (take_bit 2 st))"
      using assms(1) hw unfolding lr_encode_def Let_def m3 by (auto simp only: if_True panic_simps split: if_splits)
    moreover have "\<not> bit ?b (10 + k)" using k by (simp add: bit_lr_base)
    moreover have "\<not> bit (push_bit 28 (take_bit 2 st)) (10 + k)" "\<not> bit (push_bit 28 (2 :: u64)) (10 + k)" "\<not> bit (push_bit 31 (1 :: u64)) (10 + k)"
      using k b(1)[of st "10 + k"] b(2)[of "10 + k"] b(4)[of "10 + k"] by auto
    moreover have "bit ?i (10 + k) \<longleftrightarrow> bit (vi_id (vint m i)) k"
      using k unfolding m3 by (simp add: bit_push_bit_iff bit_and_iff bit_mask_iff bit_ucast_iff)
    ultimately have "bit lr (10 + k) \<longleftrightarrow> bit (vi_id (vint m i)) k" by (auto simp: bit_or_iff split: if_splits)
    then show "bit x (10 + k) = bit (ucast (vi_id (vint m i)) :: u32) k" using k by (simp add: x_def bit_ucast_iff)
  qed
  show "m_vgics m' = m_vgics m" if "GIC_SGIS_NUM \<le> int_id m i"
    using assms(1) that by (auto simp: lr_encode_def on_gicd_def set_gicd_def upd_hw_def panic_simps Let_def split: if_splits)
  assume n: "GIC_SGIS_NUM \<le> int_id m i" "\<not> vgic_int_is_hw m i"
  then have lr: "lr = (if \<not> gic_is_priv (int_id m i) then ?b OR push_bit 19 1 else ?b) OR push_bit 28 (take_bit 2 st)"
    using assms(1) unfolding lr_encode_def Let_def m3 by (auto simp only: if_False panic_simps split: if_splits)
  have low: "bit x k \<longleftrightarrow> k = 19 \<and> \<not> gic_is_priv (int_id m i)" if "10 \<le> k" "k < 23" for k
  proof -
    have "\<not> bit ?b k" "\<not> bit (push_bit 28 (take_bit 2 st)) k" using that b(1)[of st k] by (auto simp: bit_lr_base)
    then have "bit lr k \<longleftrightarrow> k = 19 \<and> \<not> gic_is_priv (int_id m i)"
      unfolding lr by (cases "gic_is_priv (int_id m i)"; simp only: bit_or_iff b(3) if_True if_False simp_thms)
    then show ?thesis using that by (simp add: x_def bit_ucast_iff)
  qed
  have "lr_source x = take_bit 3 0" by (rule lr_source_eqI) (simp add: low)
  then show "lr_source x = 0 \<and> (bit x 19 \<longleftrightarrow> \<not> gic_is_priv (int_id m i))" by (simp add: low)
qed

text \<open>The pending sources of software interrupts are only changed by the encoding.\<close>

definition sgis_view :: "Machine \<Rightarrow> VgicRef \<Rightarrow> Sgis list list" where
  "sgis_view m g = map cp_sgis (vg_cpu_priv (m_vgics m g))"

lemma sgis_view_pend:
  assumes "sgis_view m' g = sgis_view m g"
  shows "cpu_priv_sgis_pend m' g c n = cpu_priv_sgis_pend m g c n"
proof -
  have e: "cpu_priv_sgis_pend M g c n = do { xs \<leftarrow> vec_get (sgis_view M g) c; s \<leftarrow> vec_get xs n; Some (sg_pend s) }" for M
    by (auto simp: sgis_view_def cpu_priv_sgis_pend_def cpu_priv_def vec_get_def)
  show ?thesis unfolding e assms ..
qed

lemma upd_cpu_priv_sgis:
  assumes "upd_cpu_priv g c f m = Some m'" and "\<And>p. cp_sgis (f p) = cp_sgis p"
  shows "sgis_view m' g = sgis_view m g"
proof -
  let ?ps = "vg_cpu_priv (m_vgics m g)"
  from assms(1) have c: "c < length ?ps" and m': "m' = upd_vgic g (\<lambda>vg. vg\<lparr>vg_cpu_priv := (vg_cpu_priv vg)[c := f (?ps ! c)]\<rparr>) m"
    by (auto simp: upd_cpu_priv_def cpu_priv_def panic_simps)
  have "map cp_sgis (?ps[c := f (?ps ! c)]) = map cp_sgis ?ps" using c assms(2) by (simp add: map_update list_update_same_conv)
  then show ?thesis by (simp add: sgis_view_def m' upd_vgic_def)
qed

lemma sgis_view_flags [simp]:
  "sgis_view (set_in_pend_state i b m) = sgis_view m" "sgis_view (set_in_act_state i b m) = sgis_view m"
  "sgis_view (upd_int i f m) = sgis_view m"
  by (auto simp: sgis_view_def set_in_pend_state_def set_in_act_state_def upd_int_def)

lemma list_sgis:
  "add_int_list g v i b m = Some m' \<Longrightarrow> sgis_view m' g = sgis_view m g"
  "remove_int_list g v i b m = Some m' \<Longrightarrow> sgis_view m' g = sgis_view m g"
  by (auto simp: add_int_list_def remove_int_list_def Let_def panic_simps split: if_splits dest!: upd_cpu_priv_sgis)

lemma update_int_list_sgis: "update_int_list g v i m = Some m' \<Longrightarrow> sgis_view m' g = sgis_view m g"
  by (auto simp: update_int_list_def Let_def panic_simps split: if_splits dest!: list_sgis)

text \<open>
  What the guest sees of a software interrupt \<open>n\<close>: an active one with the source it is active from,
  any other one as pending from its highest pending source, which is then no longer pending; the
  end-of-interrupt bit asks for a maintenance interrupt exactly when more sources are pending.
\<close>

definition sgi_shown :: "Machine \<Rightarrow> VgicRef \<Rightarrow> usize \<Rightarrow> usize \<Rightarrow> IrqState \<Rightarrow> u32 \<Rightarrow> Machine \<Rightarrow> bool" where
  "sgi_shown m g c n st x m' \<longleftrightarrow> (\<exists>rest. cpu_priv_sgis_pend m' g c n = Some rest \<and> (bit x 19 \<longleftrightarrow> rest \<noteq> 0) \<and>
     (if bit (to_num st) 1
      then lr_state x = 2 \<and> cpu_priv_sgis_pend m g c n = Some rest \<and>
        (\<exists>act. cpu_priv_sgis_act m g c n = Some act \<and> lr_source x = take_bit 3 (ucast act))
      else lr_state x = 1 \<and> (\<exists>pend src. cpu_priv_sgis_pend m g c n = Some pend \<and> src < 8 \<and> bit pend src \<and>
        (\<forall>j > src. \<not> bit pend j) \<and> lr_source x = of_nat src \<and> rest = pend AND NOT (push_bit src 1))))"

lemma set_sgis_pend_read:
  "set_cpu_priv_sgis_pend g c n x m = Some m' \<Longrightarrow> cpu_priv_sgis_pend m' g c n = Some x"
  by (auto simp: set_cpu_priv_sgis_pend_def upd_cpu_priv_def upd_vgic_def cpu_priv_sgis_pend_def cpu_priv_def panic_simps)

lemma get_state_active:
  assumes "vgic_get_state m i = Some st" "\<not> vi_in_lr (vint m i)"
  shows "bit st 1 \<longleftrightarrow> bit (to_num (vi_state (vint m i))) 1"
    "GIC_SGIS_NUM \<le> int_id m i \<Longrightarrow> st = of_nat (to_num (vi_state (vint m i)))"
proof -
  have "st = of_nat (to_num (vi_state (vint m i))) \<or> st = of_nat (to_num (vi_state (vint m i))) OR 1"
    using assms by (auto simp: vgic_get_state_def panic_simps Let_def split: if_splits)
  then show "bit st 1 \<longleftrightarrow> bit (to_num (vi_state (vint m i))) 1"
    by (cases "vi_state (vint m i)") (auto simp: bit_or_iff bit_Suc_0_iff)
  show "GIC_SGIS_NUM \<le> int_id m i \<Longrightarrow> st = of_nat (to_num (vi_state (vint m i)))"
    using assms by (simp add: vgic_get_state_def)
qed

text \<open>
  C12. Writing a list register presents an interrupt that was in no list register to the guest: exactly
  the chosen list register changes; it carries the identifier, the upper five bits of the priority
  (all a list register holds) and the hardware flag. A hardware interrupt has its state (active
  only, when it is pending and active) and its physical identifier; a software interrupt is shown
  active with the source it is active from, or pending from its highest pending source, which is then
  used up; any other interrupt has its state, no source, and asks for a maintenance interrupt
  exactly when it is shared. The interrupt records where it is.
\<close>

theorem write_lr_presents:
  assumes "write_lr g v i k m = Some m'" "\<not> vi_in_lr (vint m i)"
  shows "\<exists>x. k < length (gh_lr (gich m)) \<and> gh_lr (gich m') = (gh_lr (gich m))[k := x] \<and>
    lr_id x = take_bit 10 (ucast (vi_id (vint m i))) \<and> lr_prio x = drop_bit 3 (ucast (vi_prio (vint m i))) \<and>
    (bit x 31 \<longleftrightarrow> vgic_int_is_hw m i) \<and>
    (if vgic_int_is_hw m i
     then lr_state x = (if vi_state (vint m i) = IrqSPendActive then 2 else of_nat (to_num (vi_state (vint m i)))) \<and>
       lr_phys x = take_bit 10 (ucast (vi_id (vint m i)))
     else if int_id m i < GIC_SGIS_NUM then sgi_shown m g (vc_id (vcpu m v)) (int_id m i) (vi_state (vint m i)) x m'
     else lr_state x = of_nat (to_num (vi_state (vint m i))) \<and> lr_source x = 0 \<and> (bit x 19 \<longleftrightarrow> \<not> gic_is_priv (int_id m i))) \<and>
    vi_in_lr (vint m' i) \<and> vi_lr (vint m' i) = of_nat k \<and> vi_state (vint m' i) = IrqSInactive \<and>
    cpu_priv_curr_lrs m' g (vc_id (vcpu m v)) k = Some (vi_id (vint m i))"
proof -
  let ?c = "vc_id (vcpu m v)" and ?n = "int_id m i" and ?f = "\<lambda>n. n\<lparr>vi_state := IrqSInactive, vi_in_lr := True, vi_lr := of_nat k\<rparr>"
  from assms(1) obtain prev :: u16 and m1 st lr m2 m3 m4 where
    m1: "(if unat prev \<noteq> ?n then evict_prev g v (unat prev) k m else Some m) = Some m1"
    and st: "vgic_get_state m1 i = Some st" and m2: "lr_encode g v i st m1 = Some (lr, m2)"
    and m3: "set_cpu_priv_curr_lrs g ?c k (of_nat ?n) (upd_int i ?f m2) = Some m3"
    and m4: "on_lr k (ucast lr) m3 = Some m4" and m': "update_int_list g v i m4 = Some m'"
    by (simp only: write_lr_def Let_def bind_eq_Some_conv split_paired_Ex case_prod_conv, elim exE conjE) (rule that, assumption+)
  have low: "vg_low m1 = vg_low m" using m1 by (auto split: if_splits dest: low_frame)
  have k1: "m_hw m1 = m_hw m" "m_vgics m1 = m_vgics m" "vi_state (vint m1 i) = vi_state (vint m i)" "vi_in_lr (vint m1 i) \<Longrightarrow> vi_in_lr (vint m i)"
    using m1 evict_prev_keeps by (auto split: if_splits)
  have cfg: "int_cfg (vint m1 i) = int_cfg (vint m i)" using low by (metis vg_low_ints)
  have c1: "vi_id (vint m1 i) = vi_id (vint m i)" "vi_prio (vint m1 i) = vi_prio (vint m i)" "vi_hw (vint m1 i) = vi_hw (vint m i)"
    using arg_cong[OF cfg, of vi_id] arg_cong[OF cfg, of vi_prio] arg_cong[OF cfg, of vi_hw] by simp_all
  then have hw: "vgic_int_is_hw m1 i = vgic_int_is_hw m i" by (simp add: vgic_int_is_hw_def)
  have vc: "vcpu m1 v = vcpu m v" using arg_cong[OF low, of m_vcpus] by (simp add: vg_low_def)
  have free: "\<not> vi_in_lr (vint m1 i)" using k1(4) assms(2) by blast
  note f = lr_encode_fields[OF m2, unfolded c1 hw] and f2 = lr_encode_more[OF m2, unfolded c1 hw] and k2 = lr_encode_keeps[OF m2]
  note gs = get_state_active[OF st free, unfolded k1(3) c1(1)]
  have k3: "gich m3 = gich m" "vint m3 i = ?f (vint m2 i)" "cpu_priv_curr_lrs m3 g ?c k = Some (vi_id (vint m i))"
    using m3 k2 k1(1)
    by (auto simp: set_cpu_priv_curr_lrs_def upd_cpu_priv_def upd_vgic_def cpu_priv_def cpu_priv_curr_lrs_def upd_int_def panic_simps)
  have k4: "k < length (gh_lr (gich m))" "gh_lr (gich m4) = (gh_lr (gich m))[k := ucast lr]" "vint m4 i = vint m3 i"
    "cpu_priv_curr_lrs m4 g ?c k = cpu_priv_curr_lrs m3 g ?c k" "sgis_view m4 g = sgis_view m3 g"
    using m4 k3(1) by (auto simp: on_lr_def gich_set_lr_def set_gich_def upd_hw_def panic_simps cpu_priv_curr_lrs_def cpu_priv_def sgis_view_def)
  have "sgis_view m3 g = sgis_view m2 g"
    using m3 upd_cpu_priv_sgis by (fastforce simp: set_cpu_priv_curr_lrs_def panic_simps)
  then have pend: "cpu_priv_sgis_pend m' g c n = cpu_priv_sgis_pend m2 g c n" for c n
    using update_int_list_sgis[OF m'] k4(5) by (intro sgis_view_pend) simp
  have sgi: "sgi_shown m g ?c ?n (vi_state (vint m i)) (ucast lr) m'" if n: "?n < GIC_SGIS_NUM"
  proof -
    have "\<not> vgic_int_is_hw m1 i" using n c1(1) by (simp add: vgic_int_is_hw_def)
    then have "lr_sgi g ?c ?n st (lr_base ?n (vi_prio (vint m i))) m1 = Some (lr, m2)"
      using m2 n c1 vc by (simp add: lr_encode_def Let_def)
    note s = lr_sgi_fields[OF this]
    have r: "cpu_priv_sgis_pend m1 g c n = cpu_priv_sgis_pend m g c n" "cpu_priv_sgis_act m1 g c n = cpu_priv_sgis_act m g c n" for c n
      using k1(2) by (simp_all add: cpu_priv_sgis_pend_def cpu_priv_sgis_act_def cpu_priv_def)
    show ?thesis
    proof (cases "bit (to_num (vi_state (vint m i))) 1")
      case True
      then show ?thesis unfolding sgi_shown_def pend using s unfolding r gs(1) by (auto simp: r)
    next
      case False
      then obtain rest pend src where q: "cpu_priv_sgis_pend m2 g ?c ?n = Some rest" "bit (ucast lr :: u32) 19 \<longleftrightarrow> rest \<noteq> 0"
        "lr_state (ucast lr) = 1" "cpu_priv_sgis_pend m g ?c ?n = Some pend" "src < 8" "bit pend src" "\<forall>j > src. \<not> bit pend j"
        "lr_source (ucast lr) = of_nat src" "set_cpu_priv_sgis_pend g ?c ?n (pend AND NOT (push_bit src 1)) m1 = Some m2"
        using s unfolding r gs(1) by (simp only: if_False) blast
      have "rest = pend AND NOT (push_bit src 1)" using set_sgis_pend_read[OF q(9)] q(1) by simp
      then show ?thesis unfolding sgi_shown_def pend using False q(1-8) by (simp only: if_False) blast
    qed
  qed
  have state: "lr_state (ucast lr :: u32) = (if vgic_int_is_hw m i \<and> vi_state (vint m i) = IrqSPendActive then 2 else of_nat (to_num (vi_state (vint m i))))"
    if "GIC_SGIS_NUM \<le> ?n" using f(4) that gs(2)[OF that] c1(1) by (cases "vi_state (vint m i)") simp_all
  have "GIC_SGIS_NUM \<le> ?n" if "vgic_int_is_hw m i" using that by (simp add: vgic_int_is_hw_def)
  then have "if vgic_int_is_hw m i
     then lr_state (ucast lr) = (if vi_state (vint m i) = IrqSPendActive then 2 else of_nat (to_num (vi_state (vint m i)))) \<and>
       lr_phys (ucast lr) = take_bit 10 (ucast (vi_id (vint m i)))
     else if ?n < GIC_SGIS_NUM then sgi_shown m g ?c ?n (vi_state (vint m i)) (ucast lr) m'
     else lr_state (ucast lr) = of_nat (to_num (vi_state (vint m i))) \<and> lr_source (ucast lr) = 0 \<and> (bit (ucast lr :: u32) 19 \<longleftrightarrow> \<not> gic_is_priv ?n)"
    using sgi state f2(1,2) c1(1) by auto
  then show ?thesis using k4 f(1-3) lr_view_proj[OF update_int_list_lr_view[OF m']] k3 by (intro exI[of _ "ucast lr"]) simp
qed

section \<open>Concrete machines\<close>

text \<open>A guest with two virtual CPUs on the cores 0 and 1; the interrupt references are the interrupt numbers, except for those of the second virtual CPU.\<close>

definition refs :: "nat \<Rightarrow> nat \<Rightarrow> IntRef list" where
  "refs a n = [a..<a + n]"

lemma refs_simps: "length (refs a n) = n" "refs a n = [] \<longleftrightarrow> n = 0" "k < n \<Longrightarrow> refs a n ! k = a + k"
  by (auto simp: refs_def)

definition vgic_example :: Machine where
  "vgic_example = machine_reset\<lparr>m_vms := (\<lambda>_. (VmInner_new Qemu 1)\<lparr>vm_vcpu_list := [0, 1], vm_cpu_num := 2, vm_ncpu := 3,
       vm_emu_devs := [EmuVgic 0]\<rparr>),
     m_vcpus := (\<lambda>v. VcpuInner_default\<lparr>vc_id := v, vc_phys_id := v, vc_vm := Some 0\<rparr>),
     m_ints := (\<lambda>i. VgicInt_none\<lparr>vi_id := of_nat (if i < 1024 then i else i - 1024)\<rparr>),
     m_vgics := (\<lambda>_. Vgic_none\<lparr>vg_vgicd := \<lparr>vd_ctlr = 0, vd_typer = 0, vd_iidr = 0, vd_interrupts = refs 32 992\<rparr>,
       vg_cpu_priv := map (\<lambda>c. \<lparr>cp_curr_lrs = replicate 64 0, cp_sgis = replicate 16 \<lparr>sg_pend = 0, sg_act = 0\<rparr>,
         cp_interrupts = refs (1024 * c) 32, cp_pend_list = [], cp_act_list = []\<rparr>) [0, 1]\<rparr>)\<rparr>"

lemma vgic_example_int:
  "get_int vgic_example 0 0 n = Some (if n < 1024 then Some n else None)"
  by (auto simp: get_int_def vgic_example_def machine_reset_def Vgic_none_def cpu_priv_interrupt_def cpu_priv_def vgicd_interrupt_def vec_get_def
      GIC_PRIVINT_NUM_def GIC_INTS_MAX_def GIC_SGIS_NUM_def GIC_PPIS_NUM_def INTERRUPT_NUM_MAX_def refs_simps)

lemma vgic_example_distinct: "ints_distinct vgic_example 0 0"
  by (auto simp: ints_distinct_def vgic_example_int split: if_splits)

lemma vgic_example_held: "held vgic_example 0 n"
  by (simp add: held_def vgic_example_def VgicInt_none_def)

lemmas vgic_example_simps = vgic_example_def machine_reset_def Vgic_none_def VgicInt_none_def upd_int_def with_owner_def
  vgic_int_get_owner_def vcpu_vm_id_def VmInner_new_def vgic_int_yield_owner_def vgic_owns_def vgic_get_state_def Let_def

theorem vgic_enable_last_write_witness:
  "\<exists>m'. vgic_set_enable 0 0 40 True vgic_example = Some m' \<and> vgic_get_enable m' 0 0 40 = Some True \<and> vgic_get_enable m' 0 0 41 = Some False"
proof -
  obtain m' where m': "vgic_set_enable 0 0 40 True vgic_example = Some m'"
    unfolding vgic_set_enable_def vgic_example_int
    by (simp add: vgic_example_simps enable_owned_def route_def GIC_SGIS_NUM_def gic_is_priv_def GIC_PRIVINT_NUM_def GIC_PPIS_NUM_def)
  have "reg_run vgic_set_enable 0 0 vgic_example ([] @ [(40, True)]) m'"
    by (rule reg_step[of _ _ _ _ _ vgic_example _ 40]) (simp_all add: reg_nil vgic_example_int vgic_example_held m')
  note last = vgic_enable_last_write[OF this vgic_example_distinct]
  have "vgic_get_enable vgic_example 0 0 41 = Some False"
    unfolding vgic_get_enable_def vgic_example_int by (simp add: vgic_example_simps)
  with m' last[of 40 40] last[of 41 41] show ?thesis by (simp add: vgic_example_int)
qed

theorem vgic_prio_last_write_witness:
  "\<exists>m'. vgic_set_prio 0 0 40 0xa5 vgic_example = Some m' \<and> vgic_get_prio m' 0 0 40 = Some 0xa0 \<and> vgic_get_prio m' 0 0 41 = Some 0"
proof -
  obtain m' where m': "vgic_set_prio 0 0 40 0xa5 vgic_example = Some m'"
    unfolding vgic_set_prio_def vgic_example_int
    by (simp add: vgic_example_simps prio_owned_def route_def remove_lr_def GIC_SGIS_NUM_def gic_is_priv_def GIC_PRIVINT_NUM_def GIC_PPIS_NUM_def)
  have "reg_run vgic_set_prio 0 0 vgic_example ([] @ [(40, 0xa5)]) m'"
    by (rule reg_step[of _ _ _ _ _ vgic_example _ 40]) (simp_all add: reg_nil vgic_example_int vgic_example_held m')
  note last = vgic_prio_last_write[OF this vgic_example_distinct]
  have "vgic_get_prio vgic_example 0 0 41 = Some 0"
    unfolding vgic_get_prio_def vgic_example_int by (simp add: vgic_example_simps)
  with m' last[of 40 40] last[of 41 41] show ?thesis by (simp add: vgic_example_int)
qed

text \<open>The same guest with interrupt 40 pending at the first virtual CPU.\<close>

definition vgic_example_pend :: "IrqState \<Rightarrow> bool \<Rightarrow> Machine" where
  "vgic_example_pend st b = vgic_example\<lparr>m_ints := (m_ints vgic_example)(40 := (m_ints vgic_example 40)\<lparr>vi_state := st, vi_in_pend := b\<rparr>),
     m_vgics := (m_vgics vgic_example)(0 := (m_vgics vgic_example 0)\<lparr>vg_cpu_priv := (vg_cpu_priv (m_vgics vgic_example 0))
       [0 := (vg_cpu_priv (m_vgics vgic_example 0) ! 0)\<lparr>cp_pend_list := (if b then [40] else [])\<rparr>]\<rparr>)\<rparr>"

lemma vgic_example_pend_priv:
  "\<exists>p. cpu_priv (vgic_example_pend st b) 0 0 = Some p \<and> cp_pend_list p = (if b then [40] else []) \<and> cp_act_list p = [] \<and>
    length (cp_sgis p) = 16 \<and> vint (vgic_example_pend st b) 40 = VgicInt_none\<lparr>vi_id := 40, vi_state := st, vi_in_pend := b\<rparr> \<and>
    vc_id (vcpu (vgic_example_pend st b) v) = v \<and> cp_curr_lrs p = replicate 64 0"
  by (simp add: vgic_example_pend_def vgic_example_def machine_reset_def Vgic_none_def VgicInt_none_def cpu_priv_def vec_get_def)

theorem update_int_list_spec_witness:
  "\<exists>m' p'. update_int_list 0 0 40 (vgic_example_pend IrqSPend False) = Some m' \<and> cpu_priv m' 0 0 = Some p' \<and>
     cp_pend_list p' = [40] \<and> cp_act_list p' = [] \<and> vi_in_pend (vint m' 40)"
proof -
  let ?m = "vgic_example_pend IrqSPend False"
  obtain p where p: "cpu_priv ?m 0 0 = Some p" "cp_pend_list p = []" "cp_act_list p = []" "length (cp_sgis p) = 16"
    and i: "vint ?m 40 = VgicInt_none\<lparr>vi_id := 40, vi_state := IrqSPend, vi_in_pend := False\<rparr>" and v: "vc_id (vcpu ?m 0) = 0"
    using vgic_example_pend_priv[of IrqSPend False] by auto
  have "update_int_list 0 0 40 ?m = Some (put_lists 0 0 40 ?m (relist False True False 40 []) (relist False False False 40 []) True False)"
    using update_int_list_spec[of 0 ?m 0 0 p 40 1 False] p i v by (simp add: GIC_SGIS_NUM_def VgicInt_none_def bit_1_iff flip: One_nat_def)
  then show ?thesis using p by (auto simp: put_lists_def relist_def cpu_priv_def upd_vgic_def upd_int_def vec_get_def)
qed

theorem update_int_list_stale_entry_witness:
  "\<exists>m'. update_int_list 0 1 40 (vgic_example_pend IrqSInactive True) = Some m' \<and> \<not> vi_in_pend (vint m' 40) \<and>
     (\<exists>p'. cpu_priv m' 0 0 = Some p' \<and> 40 \<in> set (cp_pend_list p'))"
proof -
  let ?m = "vgic_example_pend IrqSInactive True"
  obtain p where p: "cpu_priv ?m 0 0 = Some p" "cp_pend_list p = [40]"
    and i: "vint ?m 40 = VgicInt_none\<lparr>vi_id := 40, vi_state := IrqSInactive, vi_in_pend := True\<rparr>" and v: "vc_id (vcpu ?m 1) = 1"
    using vgic_example_pend_priv[of IrqSInactive True] by auto
  obtain m' where m': "update_int_list 0 1 40 ?m = Some m'"
    unfolding update_int_list_def by (simp add: i v Let_def remove_int_list_def upd_cpu_priv_def VgicInt_none_def upd_vgic_def upd_int_def
      set_in_pend_state_def set_in_act_state_def
      vgic_example_pend_def vgic_example_def machine_reset_def Vgic_none_def cpu_priv_def vec_get_def GIC_SGIS_NUM_def)
  from update_int_list_stale_entry[OF _ p(1) _ _ _ _ m'] p(2) i v m' show ?thesis by (simp add: VgicInt_none_def GIC_SGIS_NUM_def)
qed

theorem write_lr_presents_witness:
  "\<exists>m' x. write_lr 0 0 40 1 (vgic_example_pend IrqSPend False) = Some m' \<and> gh_lr (gich m') = (replicate 64 0)[1 := x] \<and>
     lr_id x = 40 \<and> lr_state x = 1 \<and> vi_in_lr (vint m' 40) \<and> vi_lr (vint m' 40) = 1"
proof -
  let ?m = "vgic_example_pend IrqSPend False"
  have i: "vint ?m 40 = VgicInt_none\<lparr>vi_id := 40, vi_state := IrqSPend, vi_in_pend := False\<rparr>"
    using vgic_example_pend_priv[of IrqSPend False] by auto
  have l: "gh_lr (gich ?m) = replicate 64 0"
    by (simp add: vgic_example_pend_def vgic_example_def machine_reset_def hw_reset_def gich_reset_def)
  obtain m' where m': "write_lr 0 0 40 1 ?m = Some m'"
    unfolding write_lr_def vgic_example_pend_def
    by (simp add: vgic_example_simps evict_prev_def get_int_def cpu_priv_interrupt_def cpu_priv_curr_lrs_def cpu_priv_def vec_get_def refs_simps
      lr_encode_def lr_base_def vgic_int_is_hw_def on_lr_def gich_set_lr_def set_cpu_priv_curr_lrs_def upd_cpu_priv_def upd_vgic_def vec_set_def
      hw_reset_def gich_reset_def set_gich_def upd_hw_def update_int_list_def add_int_list_def set_in_pend_state_def set_in_act_state_def
      GIC_SGIS_NUM_def GIC_PRIVINT_NUM_def GIC_PPIS_NUM_def gic_is_priv_def remove_int_list_def)
  have "\<not> vi_in_lr (vint ?m 40)" by (simp add: i VgicInt_none_def)
  from write_lr_presents[OF m' this] m' i l show ?thesis
    by (auto simp: VgicInt_none_def vgic_int_is_hw_def GIC_SGIS_NUM_def take_bit_eq_mask mask_eq_exp_minus_1)
qed

end
