(* ===== verification/Interrupt.thy ===== *)
theory Interrupt
  imports VgicEmu
begin

text \<open>
  \<open>src/src/kernel/interrupt.rs\<close> and \<open>src/src/arch/aarch64/interrupt.rs\<close>: which interrupts belong to
  the hypervisor and to a guest, and how one is injected into a virtual CPU.
\<close>

definition interrupt_reserve_int :: "usize \<Rightarrow> InterruptHandler \<Rightarrow> Machine \<Rightarrow> Machine option" where
  "interrupt_reserve_int n h m =
     (if n < INTERRUPT_NUM_MAX then do {
        hb \<leftarrow> BitAlloc4K_set (m_hyper_bitmap m) n;
        gb \<leftarrow> BitAlloc4K_set (m_glb_bitmap m) n;
        Some (m\<lparr>m_int_handlers := (m_int_handlers m)(n \<mapsto> h), m_hyper_bitmap := hb, m_glb_bitmap := gb\<rparr>) }
      else Some m)"

definition interrupt_is_reserved :: "Machine \<Rightarrow> usize \<Rightarrow> bool option" where
  "interrupt_is_reserved m n = do { x \<leftarrow> BitAlloc4K_get (m_hyper_bitmap m) n; Some (x \<noteq> 0) }"

definition interrupt_arch_vm_register :: "VmRef \<Rightarrow> usize \<Rightarrow> Machine \<Rightarrow> Machine option" where
  "interrupt_arch_vm_register r n m = vgic_set_hw_int r n m"

definition interrupt_vm_register :: "VmRef \<Rightarrow> usize \<Rightarrow> Machine \<Rightarrow> (bool \<times> Machine) option" where
  "interrupt_vm_register r n m = do {
     x \<leftarrow> BitAlloc4K_get (m_glb_bitmap m) n;
     if x \<noteq> 0 \<and> n \<ge> GIC_PRIVINT_NUM then Some (False, m)
     else do {
       m \<leftarrow> interrupt_arch_vm_register r n m;
       m \<leftarrow> set_int_bit_map r n m;
       gb \<leftarrow> BitAlloc4K_set (m_glb_bitmap m) n;
       Some (True, m\<lparr>m_glb_bitmap := gb\<rparr>) } }"

definition interrupt_vm_remove :: "usize \<Rightarrow> Machine \<Rightarrow> Machine option" where
  "interrupt_vm_remove n m = do {
     gb \<leftarrow> BitAlloc4K_clear (m_glb_bitmap m) n;
     let m = m\<lparr>m_glb_bitmap := gb\<rparr>;
     if n \<ge> GIC_PRIVINT_NUM then interrupt_cpu_enable n False m else Some m }"

definition interrupt_arch_vm_inject :: "VmRef \<Rightarrow> VcpuRef \<Rightarrow> usize \<Rightarrow> Machine \<Rightarrow> Machine option" where
  "interrupt_arch_vm_inject r v n m = do {
     g \<leftarrow> vm_vgic m r;
     same \<leftarrow> (case active_vcpu m of
         Some w \<Rightarrow> do { a \<leftarrow> vcpu_vm_id m w; b \<leftarrow> vcpu_vm_id m v; Some (a = b) }
       | None \<Rightarrow> Some False);
     if same then inject g v n m else Some (push_int v n m) }"

definition interrupt_vm_inject :: "VmRef \<Rightarrow> VcpuRef \<Rightarrow> usize \<Rightarrow> Machine \<Rightarrow> Machine option" where
  "interrupt_vm_inject r v n m =
     (if vc_phys_id (vcpu m v) \<noteq> this_cpu m then Some m else interrupt_arch_vm_inject r v n m)"

definition interrupt_inject_ipi_handler :: "IpiMessage \<Rightarrow> Machine \<Rightarrow> Machine option" where
  "interrupt_inject_ipi_handler msg m = (case ipi_message msg of
     IntInjectMsg vmid n \<Rightarrow> do {
       vo \<leftarrow> pop_vcpu_through_vmid m vmid;
       v \<leftarrow> vo;
       r \<leftarrow> vc_vm (vcpu m v);
       interrupt_vm_inject r v n m }
   | _ \<Rightarrow> Some m)"

definition interrupt_arch_clear :: "Machine \<Rightarrow> Machine option" where
  "interrupt_arch_clear m = do {
     (cc, h) \<leftarrow> gicc_init (gicc m) (gich m);
     let m = upd_hw (\<lambda>hw. hw\<lparr>hw_gicc := cc, hw_gich := h\<rparr>) m;
     let (irq, cc) = gicc_clear_current_irq True (cpu_current_irq (m_cpu m)) (gicc m);
     Some (upd_cpu (\<lambda>c. c\<lparr>cpu_current_irq := irq\<rparr>) (upd_hw (\<lambda>hw. hw\<lparr>hw_gicc := cc\<rparr>) m)) }"

end
