(* ===== verification/Sched.thy ===== *)
theory Sched
  imports Interrupt
begin

text \<open>
  Running virtual CPUs: the context switch of \<open>src/src/kernel/cpu.rs\<close> and \<open>src/src/kernel/vcpu.rs\<close>, the
  round-robin scheduler of \<open>src/src/kernel/sched/sched_rr.rs\<close>, and the timer that drives it
  (\<open>src/src/kernel/timer.rs\<close>, \<open>src/src/arch/aarch64/timer.rs\<close>).
\<close>

section \<open>Context switch\<close>

definition inject_int_inlist :: "VcpuRef \<Rightarrow> Machine \<Rightarrow> Machine option" where
  "inject_int_inlist v m = (case vc_vm (m_vcpus m v) of
     None \<Rightarrow> Some m
   | Some r \<Rightarrow>
       let ns = vc_int_list (m_vcpus m v); m = upd_vcpu v (\<lambda>x. x\<lparr>vc_int_list := []\<rparr>) m in
       fold_opt (\<lambda>n. interrupt_vm_inject r v n) ns m)"

definition context_vm_restore :: "VcpuRef \<Rightarrow> Machine \<Rightarrow> Machine option" where
  "context_vm_restore v m = do { m \<leftarrow> context_regs_restore v m; inject_int_inlist v m }"

definition set_active_vcpu :: "VcpuRef option \<Rightarrow> Machine \<Rightarrow> Machine" where
  "set_active_vcpu vo m =
     (let m = upd_cpu (\<lambda>c. c\<lparr>cpu_active_vcpu := vo\<rparr>) m in
      case vo of None \<Rightarrow> m | Some v \<Rightarrow> set_state v VcpuAct m)"

definition schedule_to :: "VcpuRef \<Rightarrow> Machine \<Rightarrow> Machine option" where
  "schedule_to next_vcpu m = do {
     m \<leftarrow> (case active_vcpu m of
         Some prev \<Rightarrow> do {
           a \<leftarrow> vcpu_vm_id m prev;
           b \<leftarrow> vcpu_vm_id m next_vcpu;
           if a \<noteq> b then context_vm_store prev (set_state prev VcpuPend m) else Some m }
       | None \<Rightarrow> Some m);
     let m = set_active_vcpu (Some next_vcpu) m;
     m \<leftarrow> context_vm_restore next_vcpu m;
     i \<leftarrow> vcpu_vm_id m next_vcpu;
     dir \<leftarrow> vm_pt_dir m next_vcpu;
     let vttbr = push_bit 48 (of_nat i) OR of_nat dir;
     Some (upd_hw (\<lambda>hw. hw\<lparr>hw_regs := (hw_regs hw)(VTTBR_EL2 := vttbr)\<rparr>) m) }"

section \<open>Timer\<close>

definition INTERRUPT_IRQ_HYPERVISOR_TIMER :: usize where "INTERRUPT_IRQ_HYPERVISOR_TIMER = 26"

definition set_sysreg :: "SysReg \<Rightarrow> u64 \<Rightarrow> Machine \<Rightarrow> Machine" where
  "set_sysreg r x = upd_hw (\<lambda>hw. hw\<lparr>hw_regs := (hw_regs hw)(r := x)\<rparr>)"

definition timer_arch_set :: "usize \<Rightarrow> Machine \<Rightarrow> Machine option" where
  "timer_arch_set num m = do { x \<leftarrow> umul (m_timer_slice m) num; Some (set_sysreg CNTHP_TVAL_EL2 (of_nat x) m) }"

definition timer_arch_enable_irq :: "Machine \<Rightarrow> Machine" where
  "timer_arch_enable_irq = set_sysreg CNTHP_CTL_EL2 1"

definition timer_arch_disable_irq :: "Machine \<Rightarrow> Machine" where
  "timer_arch_disable_irq = set_sysreg CNTHP_CTL_EL2 2"

text \<open>\<open>freq\<close> is the value of \<open>CNTFRQ_EL0\<close>.\<close>

definition timer_arch_init :: "usize \<Rightarrow> Machine \<Rightarrow> Machine option" where
  "timer_arch_init freq m = do {
     let m = m\<lparr>m_timer_freq := freq, m_timer_slice := freq div 1000\<rparr>;
     let ctl = 0x3 AND (1 OR NOT (2 :: u64));
     tval \<leftarrow> umul (m_timer_slice m) 10;
     Some (set_sysreg CNTHP_TVAL_EL2 (of_nat tval) (set_sysreg CNTHP_CTL_EL2 ctl m)) }"

definition timer_enable :: "bool \<Rightarrow> Machine \<Rightarrow> Machine option" where
  "timer_enable val = interrupt_cpu_enable INTERRUPT_IRQ_HYPERVISOR_TIMER val"

definition timer_notify_after :: "usize \<Rightarrow> Machine \<Rightarrow> Machine option" where
  "timer_notify_after ms m =
     (if ms = 0 then Some m else do { m \<leftarrow> timer_arch_set ms m; Some (timer_arch_enable_irq m) })"

section \<open>Round robin\<close>

definition SchedulerRR_new :: "usize \<Rightarrow> SchedulerRR" where
  "SchedulerRR_new sl = \<lparr>rr_queue = [], rr_active_idx = 0, rr_base_slice = sl\<rparr>"

text \<open>The scheduler of the core; it is a panic to use it before \<open>cpu_sched_init\<close>.\<close>

definition scheduler :: "Machine \<Rightarrow> SchedulerRR option" where
  "scheduler m = (case cpu_sched (m_cpu m) of SchedRR s \<Rightarrow> Some s | SchedNone \<Rightarrow> None)"

definition set_scheduler :: "SchedulerRR \<Rightarrow> Machine \<Rightarrow> Machine" where
  "set_scheduler s = upd_cpu (\<lambda>c. c\<lparr>cpu_sched := SchedRR s\<rparr>)"

datatype SchedRule = RoundRobin | SchedRuleNone

definition cpu_sched_init :: "SchedRule \<Rightarrow> Machine \<Rightarrow> Machine option" where
  "cpu_sched_init rule m = (case rule of
     RoundRobin \<Rightarrow> Some (set_scheduler (SchedulerRR_new 1) m)
   | _ \<Rightarrow> None)"

definition rr_next :: "Machine \<Rightarrow> SchedulerRR \<Rightarrow> VcpuRef option \<times> SchedulerRR" where
  "rr_next m s =
     (let len = length (rr_queue s) in
      case find (\<lambda>i. vc_state (m_vcpus m (rr_queue s ! ((rr_active_idx s + i) mod len))) \<noteq> VcpuInv) [1..<len + 1] of
        None \<Rightarrow> (None, s)
      | Some i \<Rightarrow>
          let idx = (rr_active_idx s + i) mod len
          in (Some (rr_queue s ! idx), s\<lparr>rr_active_idx := idx\<rparr>))"

definition do_schedule :: "Machine \<Rightarrow> Machine option" where
  "do_schedule m = do {
     s \<leftarrow> scheduler m;
     let (v, s) = rr_next m s;
     v \<leftarrow> v;
     schedule_to v (set_scheduler s m) }"

definition position_vm :: "Machine \<Rightarrow> VcpuRef list \<Rightarrow> VcpuRef \<Rightarrow> nat option option" where
  "position_vm m q v = find_loop (\<lambda>idx. do {
     a \<leftarrow> vcpu_vm_id m (q ! idx);
     b \<leftarrow> vcpu_vm_id m v;
     Some (if a = b then Some idx else None) }) [0..<length q]"

definition sched_sleep :: "VcpuRef \<Rightarrow> Machine \<Rightarrow> Machine option" where
  "sched_sleep v m = do {
     s \<leftarrow> scheduler m;
     io \<leftarrow> position_vm m (rr_queue s) v;
     let (m, need_schedule) = (case io of
         None \<Rightarrow> (m, False)
       | Some idx \<Rightarrow>
           let q = remove_nth idx (rr_queue s) in
           if idx < rr_active_idx s then (set_scheduler (s\<lparr>rr_queue := q, rr_active_idx := rr_active_idx s - 1\<rparr>) m, False)
           else if idx = rr_active_idx s then (set_active_vcpu None (set_scheduler (s\<lparr>rr_queue := q\<rparr>) m), q \<noteq> [])
           else (set_scheduler (s\<lparr>rr_queue := q\<rparr>) m, False));
     s \<leftarrow> scheduler m;
     m \<leftarrow> (if length (rr_queue s) \<le> 1 then timer_enable False m else Some m);
     if need_schedule then do_schedule m else Some m }"

definition sched_wakeup :: "VcpuRef \<Rightarrow> Machine \<Rightarrow> Machine option" where
  "sched_wakeup v m = do {
     s \<leftarrow> scheduler m;
     let m = set_state v VcpuPend m;
     let q = rr_queue s @ [v];
     let m = set_scheduler (s\<lparr>rr_queue := q\<rparr>) m;
     m \<leftarrow> (if length q > 1 then timer_enable True m else Some m);
     if length q = 1 then do_schedule m else Some m }"

definition sched_yield_to :: "VcpuRef \<Rightarrow> Machine \<Rightarrow> Machine option" where
  "sched_yield_to v m = do {
     s \<leftarrow> scheduler m;
     let q = rr_queue s @ [v];
     let m = set_scheduler (s\<lparr>rr_queue := q, rr_active_idx := length q - 1\<rparr>) m;
     m \<leftarrow> schedule_to v m;
     if length q > 1 then timer_enable True m else Some m }"

text \<open>\<open>SchedulerUpdate::update\<close>: the queue rebuilt from the list of guests.\<close>

definition sched_update :: "SchedulerRR \<Rightarrow> Machine \<Rightarrow> (SchedulerRR \<times> Machine) option" where
  "sched_update src m = do {
     q \<leftarrow> fold_opt (\<lambda>v q. do {
         i \<leftarrow> vcpu_vm_id m v;
         r \<leftarrow> vm_lookup m i;
         wo \<leftarrow> vm_vcpu m r (vc_id (m_vcpus m v));
         w \<leftarrow> wo;
         Some (q @ [w]) }) (rr_queue src) [];
     let s = \<lparr>rr_queue = q, rr_active_idx = rr_active_idx src, rr_base_slice = rr_base_slice src\<rparr>;
     a \<leftarrow> (if rr_active_idx src < length (rr_queue src) then do { w \<leftarrow> vec_get q (rr_active_idx src); Some (Some w) } else Some None);
     Some (s, set_active_vcpu a m) }"

definition timer_irq_handler :: "Machine \<Rightarrow> Machine option" where
  "timer_irq_handler m = do {
     let m = timer_arch_disable_irq m;
     m \<leftarrow> do_schedule m;
     timer_notify_after 1 m }"

end
