(* ===== verification/SchedProps.thy ===== *)
theory SchedProps
  imports VgicProps Sched
begin

text \<open>
  Properties of running virtual CPUs: what a context switch saves and restores, the invariant of the
  round-robin queue over every sequence of scheduler operations, and that every queued guest runs.
\<close>

section \<open>What a context switch changes\<close>

lemma context_vm_store_eq:
  assumes "context_vm_store v m = Some m'"
  shows "\<exists>c s. gic_save_state (m_hw m) (fpsimd_save_context (m_hw m) (ext_regs_store (hw_regs (m_hw m)) (vm_ctx m v))) = Some c \<and>
    m' = upd_vcpu v (\<lambda>x. x\<lparr>vc_vcpu_ctx := s, vc_vm_ctx := c\<rparr>) m \<and>
    s = (case cpu_ctx (m_cpu m) of None \<Rightarrow> vc_vcpu_ctx (m_vcpus m v) | Some a \<Rightarrow> m_frames m a)"
  using assms
  by (auto simp: context_vm_store_def save_cpu_ctx_def upd_vm_ctx_def upd_vcpu_def gic_save_context_def panic_simps
      split: option.splits)

lemma context_regs_restore_eq:
  assumes "context_regs_restore v m = Some m'"
  shows "m_cpu m' = m_cpu m" "m_vcpus m' = m_vcpus m" "m_vms m' = m_vms m"
    "cpu_ctx (m_cpu m) = Some a \<Longrightarrow> m_frames m' a = vc_vcpu_ctx (m_vcpus m v)"
    "hw_regs (m_hw m') = ext_regs_restore (hw_upper (m_hw m)) (vm_ctx m v) (hw_regs (m_hw m))"
    "hw_fpsimd (m_hw m') = fpsimd (vm_ctx m v)"
    "\<exists>hw. gic_restore_state (vm_ctx m v) (fpsimd_restore_context (vm_ctx m v) (m_hw m)) = Some hw \<and> gich m' = hw_gich hw \<and> hw_gicc (m_hw m') = hw_gicc hw"
  using assms
  by (auto simp: context_regs_restore_def restore_cpu_ctx_def gic_restore_context_def gic_restore_state_def fpsimd_restore_context_def
      upd_hw_def panic_simps split: option.splits)

lemma upd_vcpu_same: "f (m_vcpus m v) = m_vcpus m v \<Longrightarrow> upd_vcpu v f m = m"
  by (simp add: upd_vcpu_def fun_upd_idem)

lemma int_list_same: "vc_int_list x = l \<Longrightarrow> x\<lparr>vc_int_list := l\<rparr> = x"
  by (cases x) simp

lemma interrupt_vm_inject_active:
  assumes "interrupt_vm_inject r v n m = Some m'" "active_vcpu m = Some v"
  shows "vg_rest m' = vg_rest m"
  using assms
  by (auto simp: interrupt_vm_inject_def interrupt_arch_vm_inject_def panic_simps split: if_splits dest: vg_frame)

lemma inject_list_active:
  assumes "fold_opt (\<lambda>n. interrupt_vm_inject r v n) ns m = Some m'" "active_vcpu m = Some v"
  shows "vg_rest m' = vg_rest m"
  using assms
proof (induction ns arbitrary: m)
  case (Cons n ns)
  then obtain m1 where m1: "interrupt_vm_inject r v n m = Some m1" "fold_opt (\<lambda>n. interrupt_vm_inject r v n) ns m1 = Some m'"
    by (auto simp: panic_simps)
  have e: "vg_rest m1 = vg_rest m" using m1(1) Cons.prems(2) by (rule interrupt_vm_inject_active)
  have "active_vcpu m1 = Some v" using vg_rest_proj(1)[OF e] Cons.prems(2) by simp
  with Cons.IH m1(2) e show ?case by simp
qed simp

lemma inject_int_inlist_active:
  assumes "inject_int_inlist v m = Some m'" "active_vcpu m = Some v"
  shows "\<exists>l. vg_rest m' = vg_rest (upd_vcpu v (\<lambda>x. x\<lparr>vc_int_list := l\<rparr>) m) \<and> (vc_int_list (m_vcpus m v) = [] \<longrightarrow> m' = m)"
proof (cases "vc_vm (m_vcpus m v)")
  case None
  then have "m' = m" using assms(1) by (simp add: inject_int_inlist_def)
  then have "vg_rest m' = vg_rest (upd_vcpu v (\<lambda>x. x\<lparr>vc_int_list := vc_int_list (m_vcpus m v)\<rparr>) m)"
    by (simp add: upd_vcpu_same int_list_same)
  then show ?thesis using \<open>m' = m\<close> by blast
next
  case (Some r)
  let ?m = "upd_vcpu v (\<lambda>x. x\<lparr>vc_int_list := []\<rparr>) m"
  have f: "fold_opt (\<lambda>n. interrupt_vm_inject r v n) (vc_int_list (m_vcpus m v)) ?m = Some m'"
    using assms(1) Some by (simp add: inject_int_inlist_def)
  have "active_vcpu ?m = Some v" using assms(2) by (simp add: upd_vcpu_def)
  from inject_list_active[OF f this] have "vg_rest m' = vg_rest ?m" .
  moreover have "m' = m" if "vc_int_list (m_vcpus m v) = []"
  proof -
    have "?m = m" using that by (intro upd_vcpu_same int_list_same)
    then show ?thesis using f that by simp
  qed
  ultimately show ?thesis by blast
qed

definition vttbr_of :: "usize \<Rightarrow> usize \<Rightarrow> u64" where
  "vttbr_of i dir = push_bit 48 (of_nat i) OR of_nat dir"

lemma schedule_to_parts:
  assumes "schedule_to v m = Some m'"
  obtains m0 m1 m2 l i dir where
    "(case active_vcpu m of
        Some p \<Rightarrow> if vcpu_vm_id m p \<noteq> vcpu_vm_id m v then context_vm_store p (set_state p VcpuPend m) else Some m
      | None \<Rightarrow> Some m) = Some m0"
    "context_regs_restore v (set_active_vcpu (Some v) m0) = Some m1"
    "vg_rest m2 = vg_rest (upd_vcpu v (\<lambda>x. x\<lparr>vc_int_list := l\<rparr>) m1)"
    "vc_int_list (m_vcpus m1 v) = [] \<longrightarrow> m2 = m1"
    "vcpu_vm_id m2 v = Some i" "vm_pt_dir m2 v = Some dir"
    "m' = set_sysreg VTTBR_EL2 (vttbr_of i dir) m2"
proof -
  from assms obtain m0 m1 m2 i dir where
    c: "(case active_vcpu m of
        Some p \<Rightarrow> do {
          a \<leftarrow> vcpu_vm_id m p;
          b \<leftarrow> vcpu_vm_id m v;
          if a \<noteq> b then context_vm_store p (set_state p VcpuPend m) else Some m }
      | None \<Rightarrow> Some m) = Some m0"
    and m1: "context_regs_restore v (set_active_vcpu (Some v) m0) = Some m1" and m2: "inject_int_inlist v m1 = Some m2"
    and i: "vcpu_vm_id m2 v = Some i" "vm_pt_dir m2 v = Some dir" and m': "m' = set_sysreg VTTBR_EL2 (vttbr_of i dir) m2"
    unfolding schedule_to_def context_vm_restore_def Let_def bind_eq_Some_conv option.inject set_sysreg_def vttbr_of_def by blast
  from c have m0: "(case active_vcpu m of
        Some p \<Rightarrow> if vcpu_vm_id m p \<noteq> vcpu_vm_id m v then context_vm_store p (set_state p VcpuPend m) else Some m
      | None \<Rightarrow> Some m) = Some m0"
    by (auto simp: panic_simps split: option.splits if_splits)
  have "active_vcpu m1 = Some v"
    using context_regs_restore_eq(1)[OF m1] by (simp add: set_active_vcpu_def upd_cpu_def set_state_def upd_vcpu_def)
  from inject_int_inlist_active[OF m2 this] that m0 m1 i m' show thesis by blast
qed

lemma vcpu_vm_id_cong:
  "m_vms m' = m_vms m \<Longrightarrow> vc_vm (m_vcpus m' v) = vc_vm (m_vcpus m v) \<Longrightarrow> vcpu_vm_id m' v = vcpu_vm_id m v"
  by (simp add: vcpu_vm_id_def)

text \<open>What the scheduler sees of a switch: the core runs \<open>v\<close>, the virtual CPU it left waits.\<close>

lemma schedule_to_view:
  assumes "schedule_to v m = Some m'"
  shows "m_cpu m' = (m_cpu m)\<lparr>cpu_active_vcpu := Some v\<rparr>" "m_vms m' = m_vms m"
    "vc_vm (m_vcpus m' w) = vc_vm (m_vcpus m w)"
    "vc_state (m_vcpus m' w) = (if w = v then VcpuAct
       else if active_vcpu m = Some w \<and> vcpu_vm_id m w \<noteq> vcpu_vm_id m v then VcpuPend else vc_state (m_vcpus m w))"
proof -
  from assms obtain m0 m1 m2 l i dir where
    m0: "(case active_vcpu m of
        Some p \<Rightarrow> if vcpu_vm_id m p \<noteq> vcpu_vm_id m v then context_vm_store p (set_state p VcpuPend m) else Some m
      | None \<Rightarrow> Some m) = Some m0"
    and m1: "context_regs_restore v (set_active_vcpu (Some v) m0) = Some m1"
    and m2: "vg_rest m2 = vg_rest (upd_vcpu v (\<lambda>x. x\<lparr>vc_int_list := l\<rparr>) m1)" and m': "m' = set_sysreg VTTBR_EL2 (vttbr_of i dir) m2"
    by (rule schedule_to_parts)
  have k0: "m_cpu m0 = m_cpu m" "m_vms m0 = m_vms m" "vc_vm (m_vcpus m0 w) = vc_vm (m_vcpus m w)"
    "vc_state (m_vcpus m0 w) =
      (if active_vcpu m = Some w \<and> vcpu_vm_id m w \<noteq> vcpu_vm_id m v then VcpuPend else vc_state (m_vcpus m w))"
    using m0 by (auto simp: set_state_def upd_vcpu_def dest!: context_vm_store_eq split: option.splits if_splits)
  note k1 = context_regs_restore_eq(1-3)[OF m1] and k2 = vg_rest_proj(1-3)[OF m2]
  show "m_cpu m' = (m_cpu m)\<lparr>cpu_active_vcpu := Some v\<rparr>" "m_vms m' = m_vms m"
    "vc_vm (m_vcpus m' w) = vc_vm (m_vcpus m w)"
    "vc_state (m_vcpus m' w) = (if w = v then VcpuAct
       else if active_vcpu m = Some w \<and> vcpu_vm_id m w \<noteq> vcpu_vm_id m v then VcpuPend else vc_state (m_vcpus m w))"
    using k0 k1 k2 by (auto simp: m' set_sysreg_def upd_hw_def upd_vcpu_def set_active_vcpu_def upd_cpu_def set_state_def)
qed

lemma schedule_to_saved:
  assumes "schedule_to v m = Some m'" "active_vcpu m = Some p" "vcpu_vm_id m p \<noteq> vcpu_vm_id m v"
  shows "\<exists>c s. gic_save_state (m_hw m) (fpsimd_save_context (m_hw m) (ext_regs_store (hw_regs (m_hw m)) (vm_ctx m p))) = Some c \<and>
    m_vcpus m' p = (m_vcpus m p)\<lparr>vc_state := VcpuPend, vc_vcpu_ctx := s, vc_vm_ctx := c\<rparr> \<and>
    s = (case cpu_ctx (m_cpu m) of None \<Rightarrow> vc_vcpu_ctx (m_vcpus m p) | Some a \<Rightarrow> m_frames m a)"
proof -
  from assms(1) obtain m0 m1 m2 l i dir where
    m0: "(case active_vcpu m of
        Some p \<Rightarrow> if vcpu_vm_id m p \<noteq> vcpu_vm_id m v then context_vm_store p (set_state p VcpuPend m) else Some m
      | None \<Rightarrow> Some m) = Some m0"
    and m1: "context_regs_restore v (set_active_vcpu (Some v) m0) = Some m1"
    and m2: "vg_rest m2 = vg_rest (upd_vcpu v (\<lambda>x. x\<lparr>vc_int_list := l\<rparr>) m1)" and m': "m' = set_sysreg VTTBR_EL2 (vttbr_of i dir) m2"
    by (rule schedule_to_parts)
  have "p \<noteq> v" using assms(3) by auto
  then have "m_vcpus m' p = m_vcpus m0 p"
    using context_regs_restore_eq(2)[OF m1] vg_rest_proj(2)[OF m2]
    by (simp add: m' set_sysreg_def upd_hw_def upd_vcpu_def set_active_vcpu_def upd_cpu_def set_state_def)
  moreover have "context_vm_store p (set_state p VcpuPend m) = Some m0" using m0 assms(2,3) by simp
  note context_vm_store_eq[OF this]
  ultimately show ?thesis by (cases "cpu_ctx (m_cpu m)") (auto simp: set_state_def upd_vcpu_def)
qed

lemma schedule_to_loaded:
  assumes "schedule_to v m = Some m'" "active_vcpu m \<noteq> Some v" "cpu_ctx (m_cpu m) = Some a"
  shows "m_frames m' a = vc_vcpu_ctx (m_vcpus m v)" "hw_fpsimd (m_hw m') = fpsimd (vm_ctx m v)"
    "\<exists>i dir. vcpu_vm_id m v = Some i \<and> vm_pt_dir m v = Some dir \<and> hw_regs (m_hw m') =
      (ext_regs_restore (hw_upper (m_hw m)) (vm_ctx m v) (hw_regs (m_hw m)))(VTTBR_EL2 := vttbr_of i dir)"
    "\<exists>hw. gic_restore_state (vm_ctx m v) (fpsimd_restore_context (vm_ctx m v) (m_hw m)) = Some hw \<and>
      hw_gicc (m_hw m') = hw_gicc hw \<and> gh_apr (gich m') = gh_apr (hw_gich hw) \<and> gh_vtr (gich m') = gh_vtr (hw_gich hw) \<and>
      (vc_int_list (m_vcpus m v) = [] \<longrightarrow> gich m' = hw_gich hw)"
proof -
  from assms(1) obtain m0 m1 m2 l i dir where
    m0: "(case active_vcpu m of
        Some p \<Rightarrow> if vcpu_vm_id m p \<noteq> vcpu_vm_id m v then context_vm_store p (set_state p VcpuPend m) else Some m
      | None \<Rightarrow> Some m) = Some m0"
    and m1: "context_regs_restore v (set_active_vcpu (Some v) m0) = Some m1"
    and m2: "vg_rest m2 = vg_rest (upd_vcpu v (\<lambda>x. x\<lparr>vc_int_list := l\<rparr>) m1)" "vc_int_list (m_vcpus m1 v) = [] \<longrightarrow> m2 = m1"
    and i: "vcpu_vm_id m2 v = Some i" "vm_pt_dir m2 v = Some dir" and m': "m' = set_sysreg VTTBR_EL2 (vttbr_of i dir) m2"
    by (rule schedule_to_parts)
  have k0: "m_cpu m0 = m_cpu m" "m_vms m0 = m_vms m" "m_vcpus m0 v = m_vcpus m v" "m_hw m0 = m_hw m" "m_frames m0 = m_frames m"
    using m0 assms(2) by (auto simp: set_state_def upd_vcpu_def dest!: context_vm_store_eq split: option.splits if_splits)
  have ac: "m_vcpus (set_active_vcpu (Some v) m0) v = (m_vcpus m v)\<lparr>vc_state := VcpuAct\<rparr>"
    "cpu_ctx (m_cpu (set_active_vcpu (Some v) m0)) = Some a" "m_hw (set_active_vcpu (Some v) m0) = m_hw m"
    "m_vms (set_active_vcpu (Some v) m0) = m_vms m"
    using k0 assms(3) by (simp_all add: set_active_vcpu_def upd_cpu_def set_state_def upd_vcpu_def)
  note k1 = context_regs_restore_eq[OF m1, unfolded ac] and k2 = vg_rest_proj[OF m2(1)]
  show "m_frames m' a = vc_vcpu_ctx (m_vcpus m v)" "hw_fpsimd (m_hw m') = fpsimd (vm_ctx m v)"
    using k1(4)[OF refl] k1(6) k2(7,17) ac by (simp_all add: m' set_sysreg_def upd_hw_def upd_vcpu_def)
  have v1: "m_vcpus m1 v = (m_vcpus m v)\<lparr>vc_state := VcpuAct\<rparr>" "m_vcpus m2 v = (m_vcpus m v)\<lparr>vc_state := VcpuAct, vc_int_list := l\<rparr>"
    "m_vms m2 = m_vms m"
    using k1(2,3) k2(2,3) ac by (simp_all add: upd_vcpu_def)
  then have "vcpu_vm_id m v = Some i" "vm_pt_dir m v = Some dir" using i by (simp_all add: vcpu_vm_id_def vm_pt_dir_def)
  moreover have "hw_regs (m_hw m2) = ext_regs_restore (hw_upper (m_hw m)) (vm_ctx m v) (hw_regs (m_hw m))"
    using k1(5) k2(15) by (simp add: upd_vcpu_def)
  ultimately show "\<exists>i dir. vcpu_vm_id m v = Some i \<and> vm_pt_dir m v = Some dir \<and> hw_regs (m_hw m') =
      (ext_regs_restore (hw_upper (m_hw m)) (vm_ctx m v) (hw_regs (m_hw m)))(VTTBR_EL2 := vttbr_of i dir)"
    by (simp add: m' set_sysreg_def upd_hw_def)
  from k1(7) obtain hw where hw: "gic_restore_state (vm_ctx m v) (fpsimd_restore_context (vm_ctx m v) (m_hw m)) = Some hw"
    "gich m1 = hw_gich hw" "hw_gicc (m_hw m1) = hw_gicc hw" by auto
  have same: "hw_gicc (m_hw m') = hw_gicc (m_hw m2)" "gich m' = gich m2" by (simp_all add: m' set_sysreg_def upd_hw_def)
  have "hw_gicc (m_hw m2) = hw_gicc hw" "gh_apr (gich m2) = gh_apr (hw_gich hw)" "gh_vtr (gich m2) = gh_vtr (hw_gich hw)"
    using k2(18,21,22) hw by (simp_all add: upd_vcpu_def)
  moreover have "gich m2 = hw_gich hw" if "vc_int_list (m_vcpus m v) = []" using m2(2) v1(1) that hw(2) by simp
  ultimately show "\<exists>hw. gic_restore_state (vm_ctx m v) (fpsimd_restore_context (vm_ctx m v) (m_hw m)) = Some hw \<and>
      hw_gicc (m_hw m') = hw_gicc hw \<and> gh_apr (gich m') = gh_apr (hw_gich hw) \<and> gh_vtr (gich m') = gh_vtr (hw_gich hw) \<and>
      (vc_int_list (m_vcpus m v) = [] \<longrightarrow> gich m' = hw_gich hw)"
    using hw(1) unfolding same by blast
qed

text \<open>
  What runs after a switch is what the record of the virtual CPU holds: its general registers,
  floating point state, system registers (the others stay as they are), the control register of the
  CPU interface, the active priorities, its guest's stage-2 table, and the list registers unless
  queued interrupts were injected on top.
\<close>

definition vcpu_loaded :: "Machine \<Rightarrow> VcpuRef \<Rightarrow> usize \<Rightarrow> Machine \<Rightarrow> bool" where
  "vcpu_loaded m v x m' \<longleftrightarrow> m_frames m' x = vc_vcpu_ctx (m_vcpus m v) \<and> hw_fpsimd (m_hw m') = fpsimd (vm_ctx m v) \<and>
     (\<exists>i dir. vcpu_vm_id m v = Some i \<and> vm_pt_dir m v = Some dir \<and> hw_regs (m_hw m') =
       (ext_regs_restore (hw_upper (m_hw m)) (vm_ctx m v) (hw_regs (m_hw m)))(VTTBR_EL2 := vttbr_of i dir)) \<and>
     hw_gicc (m_hw m') = (hw_gicc (m_hw m))\<lparr>gc_ctlr := gs_ctlr (gic_state (vm_ctx m v))\<rparr> \<and>
     gh_apr (gich m') = gs_apr (gic_state (vm_ctx m v)) \<and> gh_vtr (gich m') = gh_vtr (gich m) \<and>
     (vc_int_list (m_vcpus m v) = [] \<longrightarrow> gh_hcr (gich m') = gs_hcr (gic_state (vm_ctx m v)) \<and>
       (\<forall>i < gich_lrs_num (gich m). gh_lr (gich m') ! i = gs_lr (gic_state (vm_ctx m v)) ! i))"

lemma schedule_to_loads:
  assumes go: "schedule_to v m = Some m'" "active_vcpu m \<noteq> Some v" "cpu_ctx (m_cpu m) = Some x"
    and wf: "gs_wf (gic_state (vm_ctx m v))" "gich_wf (gich m)"
  shows "vcpu_loaded m v x m'"
proof -
  let ?hw = "fpsimd_restore_context (vm_ctx m v) (m_hw m)"
  have g: "hw_gich ?hw = gich m" "hw_gicc ?hw = hw_gicc (m_hw m)" by (simp_all add: fpsimd_restore_context_def)
  note ld = schedule_to_loaded[OF go]
  from gic_restore_state_eq[of "vm_ctx m v" ?hw] wf obtain h' where
    h': "gic_restore_state (vm_ctx m v) ?hw = Some (?hw\<lparr>hw_gicc := hw_gicc (m_hw m)\<lparr>gc_ctlr := gs_ctlr (gic_state (vm_ctx m v))\<rparr>, hw_gich := h'\<rparr>)"
    "h' = gich m\<lparr>gh_hcr := gs_hcr (gic_state (vm_ctx m v)), gh_apr := gs_apr (gic_state (vm_ctx m v)), gh_lr := gh_lr h'\<rparr>"
    "\<forall>i < gich_lrs_num (gich m). gh_lr h' ! i = gs_lr (gic_state (vm_ctx m v)) ! i" unfolding g by blast
  have "gh_hcr h' = gs_hcr (gic_state (vm_ctx m v))" "gh_apr h' = gs_apr (gic_state (vm_ctx m v))" "gh_vtr h' = gh_vtr (gich m)"
    using arg_cong[OF h'(2), of gh_hcr] arg_cong[OF h'(2), of gh_apr] arg_cong[OF h'(2), of gh_vtr] by simp_all
  then show ?thesis unfolding vcpu_loaded_def using ld h'(1,3) by auto
qed


section \<open>A guest does not notice that another one ran\<close>

text \<open>
  C16. The virtual CPU \<open>a\<close> runs, the core switches to \<open>b\<close> of another guest, anything happens that leaves
  the record of \<open>a\<close> alone, and the core switches back. The first switch loads what the record of \<open>b\<close> holds.
  After the second, \<open>a\<close> finds its general registers, its floating point state, the system registers
  of \<open>guest_regs64\<close> in full and those of \<open>guest_regs32\<close> in their architected half, the control register of the
  CPU interface and the active priorities as it left them, and its guest's stage-2 table is in
  place. No other system register is touched: the timer registers \<open>CNTP_CTL_EL0\<close>, \<open>CNTP_TVAL_EL0\<close>
  and \<open>CNTV_TVAL_EL0\<close>, though saved, are not restored. When no interrupt was queued for \<open>a\<close>
  meanwhile, the list registers hold what they held, except that one the hardware reported empty holds zero.
\<close>

theorem schedule_to_roundtrip:
  assumes go: "schedule_to b m = Some m1" "active_vcpu m = Some a" "vcpu_vm_id m a \<noteq> vcpu_vm_id m b" "cpu_ctx (m_cpu m) = Some x"
    and ret: "schedule_to a m2 = Some m3" "active_vcpu m2 \<noteq> Some a" "cpu_ctx (m_cpu m2) = Some y"
    and kept: "m_vcpus m2 a = m_vcpus m1 a"
    and gic: "gs_wf (gic_state (vm_ctx m a))" "gs_wf (gic_state (vm_ctx m b))" "gich_wf (gich m)" "gich_wf (gich m2)" "gh_vtr (gich m2) = gh_vtr (gich m)"
  shows "vcpu_loaded m b x m1 \<and>
    m_frames m3 y = m_frames m x \<and> hw_fpsimd (m_hw m3) = hw_fpsimd (m_hw m) \<and>
    (\<forall>r \<in> guest_regs64. hw_regs (m_hw m3) r = hw_regs (m_hw m) r) \<and>
    (\<forall>r \<in> guest_regs32. (ucast (hw_regs (m_hw m3) r) :: u32) = ucast (hw_regs (m_hw m) r)) \<and>
    (\<exists>i dir. vcpu_vm_id m2 a = Some i \<and> vm_pt_dir m2 a = Some dir \<and> hw_regs (m_hw m3) VTTBR_EL2 = vttbr_of i dir) \<and>
    (\<forall>r. r \<notin> insert VTTBR_EL2 (guest_regs64 \<union> guest_regs32) \<longrightarrow> hw_regs (m_hw m1) r = hw_regs (m_hw m) r \<and> hw_regs (m_hw m3) r = hw_regs (m_hw m2) r) \<and>
    hw_gicc (m_hw m3) = (hw_gicc (m_hw m2))\<lparr>gc_ctlr := gc_ctlr (hw_gicc (m_hw m))\<rparr> \<and> gh_apr (gich m3) = gh_apr (gich m) \<and>
    (vc_int_list (m_vcpus m a) = [] \<longrightarrow> gh_hcr (gich m3) = gh_hcr (gich m) \<and>
      (\<forall>i < gich_lrs_num (gich m). gh_lr (gich m3) ! i = saved_lr (gich m) i))"
proof -
  let ?c0 = "fpsimd_save_context (m_hw m) (ext_regs_store (hw_regs (m_hw m)) (vm_ctx m a))"
  from schedule_to_saved[OF go(1-3)] go(4) obtain c where
    c: "gic_save_state (m_hw m) ?c0 = Some c"
    and a1: "m_vcpus m1 a = (m_vcpus m a)\<lparr>vc_state := VcpuPend, vc_vcpu_ctx := m_frames m x, vc_vm_ctx := c\<rparr>"
    by auto
  have "gs_wf (gic_state ?c0)" using gic(1) by (simp add: fpsimd_save_context_def)
  from gic_save_state_eq[OF this gic(3)] c obtain s where s: "c = ?c0\<lparr>gic_state := s\<rparr>" "gs_wf s" "gs_hcr s = gh_hcr (gich m)"
    "gs_apr s = gh_apr (gich m)" "gs_ctlr s = gc_ctlr (hw_gicc (m_hw m))" "\<forall>i < gich_lrs_num (gich m). gs_lr s ! i = saved_lr (gich m) i" by auto
  have ctx: "vm_ctx m2 a = c" "vc_vcpu_ctx (m_vcpus m2 a) = m_frames m x" "vc_int_list (m_vcpus m2 a) = vc_int_list (m_vcpus m a)"
    using kept a1 by simp_all
  have cs: "gic_state c = s" "fpsimd c = hw_fpsimd (m_hw m)" by (simp_all add: s(1) fpsimd_save_context_def)
  have "gs_wf (gic_state (vm_ctx m2 a))" unfolding ctx cs by (rule s(2))
  note rtn = schedule_to_loads[OF ret this gic(4), unfolded vcpu_loaded_def ctx cs]
  from rtn obtain i dir where r: "vcpu_vm_id m2 a = Some i" "vm_pt_dir m2 a = Some dir"
    "hw_regs (m_hw m3) = (ext_regs_restore (hw_upper (m_hw m2)) c (hw_regs (m_hw m2)))(VTTBR_EL2 := vttbr_of i dir)" by auto
  have er: "ext_regs_restore u c rs = ext_regs_restore u (ext_regs_store (hw_regs (m_hw m)) (vm_ctx m a)) rs" for u rs
    by (simp add: s(1) fpsimd_save_context_def ext_regs_restore_def)
  have nv: "r \<noteq> VTTBR_EL2" if "r \<in> guest_regs64 \<union> guest_regs32" for r using that by (auto simp: guest_regs64_def guest_regs32_def)
  have "active_vcpu m \<noteq> Some b" using go(2,3) by auto
  from schedule_to_loads[OF go(1) this go(4) gic(2,3)] have ld: "vcpu_loaded m b x m1" .
  then have "hw_regs (m_hw m1) r = hw_regs (m_hw m) r" if "r \<notin> insert VTTBR_EL2 (guest_regs64 \<union> guest_regs32)" for r
    using that ext_regs_restore_other[of r] by (auto simp: vcpu_loaded_def)
  moreover have "hw_regs (m_hw m3) r = hw_regs (m_hw m2) r" if "r \<notin> insert VTTBR_EL2 (guest_regs64 \<union> guest_regs32)" for r
    using that ext_regs_restore_other[of r] by (simp add: r(3))
  moreover have "gich_lrs_num (gich m2) = gich_lrs_num (gich m)" using gic(5) by (simp add: gich_lrs_num_def)
  moreover have "hw_regs (m_hw m3) r = hw_regs (m_hw m) r" if "r \<in> guest_regs64" for r
    using that nv by (simp add: r(3) er ext_regs_store_restore)
  moreover have "(ucast (hw_regs (m_hw m3) r) :: u32) = ucast (hw_regs (m_hw m) r)" if "r \<in> guest_regs32" for r
    using that nv by (simp add: r(3) er ext_regs_store_restore)
  ultimately show ?thesis using rtn ld r(1,2) s(3-6) by (simp add: r(3))
qed

section \<open>Round robin\<close>

text \<open>A queue from which \<open>do_schedule\<close> may choose: every guest once, all of them waiting but the running one.\<close>

definition queue_ok :: "Machine \<Rightarrow> SchedulerRR \<Rightarrow> bool" where
  "queue_ok m s \<longleftrightarrow> scheduler m = Some s \<and> distinct (map (vcpu_vm_id m) (rr_queue s)) \<and> None \<notin> vcpu_vm_id m ` set (rr_queue s) \<and>
     (\<forall>v \<in> set (rr_queue s). vc_state (m_vcpus m v) = (if active_vcpu m = Some v then VcpuAct else VcpuPend))"

definition sched_ok :: "Machine \<Rightarrow> bool" where
  "sched_ok m \<longleftrightarrow> (\<exists>s. queue_ok m s \<and>
     (if rr_queue s = [] then active_vcpu m = None
      else rr_active_idx s < length (rr_queue s) \<and> active_vcpu m = Some (rr_queue s ! rr_active_idx s)))"

text \<open>What the core may do to its queue; a virtual CPU is queued only when its guest is not there yet.\<close>

inductive sched_step :: "Machine \<Rightarrow> Machine \<Rightarrow> bool" where
  step_wakeup: "scheduler m = Some s \<Longrightarrow> vcpu_vm_id m v = Some i \<Longrightarrow> Some i \<notin> vcpu_vm_id m ` set (rr_queue s) \<Longrightarrow>
    sched_wakeup v m = Some m' \<Longrightarrow> sched_step m m'"
| step_yield_to: "scheduler m = Some s \<Longrightarrow> vcpu_vm_id m v = Some i \<Longrightarrow> Some i \<notin> vcpu_vm_id m ` set (rr_queue s) \<Longrightarrow>
    sched_yield_to v m = Some m' \<Longrightarrow> sched_step m m'"
| step_sleep: "sched_sleep v m = Some m' \<Longrightarrow> sched_step m m'"
| step_tick: "timer_irq_handler m = Some m' \<Longrightarrow> sched_step m m'"

lemma timer_enable_frame: "timer_enable b m = Some m' \<Longrightarrow> vg_rest m' = vg_rest m"
  by (auto simp: timer_enable_def interrupt_cpu_enable_def interrupt_arch_enable_def Let_def panic_simps split: if_splits dest!: vg_frame)

text \<open>The scheduler's state is the core, the virtual CPUs and the guests.\<close>

definition same_sched :: "Machine \<Rightarrow> Machine \<Rightarrow> bool" where
  "same_sched m m' \<longleftrightarrow> m_cpu m' = m_cpu m \<and> m_vcpus m' = m_vcpus m \<and> m_vms m' = m_vms m"

lemma same_sched_vm_id: "same_sched m m' \<Longrightarrow> vcpu_vm_id m' = vcpu_vm_id m"
  by (auto simp: same_sched_def vcpu_vm_id_def)

lemma same_sched_ok: "same_sched m m' \<Longrightarrow> sched_ok m' \<longleftrightarrow> sched_ok m"
  by (simp add: sched_ok_def queue_ok_def same_sched_vm_id) (simp add: same_sched_def scheduler_def)

lemma timer_enable_same: "timer_enable b m = Some m' \<Longrightarrow> same_sched m m'"
  using vg_rest_proj(1-3)[OF timer_enable_frame] by (simp add: same_sched_def)

lemma timer_notify_same: "timer_notify_after n m = Some m' \<Longrightarrow> same_sched m m'"
  by (auto simp: timer_notify_after_def timer_arch_set_def timer_arch_enable_irq_def set_sysreg_def upd_hw_def same_sched_def panic_simps
      split: if_splits)

lemma timer_disable_same: "same_sched m (timer_arch_disable_irq m)"
  by (simp add: timer_arch_disable_irq_def set_sysreg_def upd_hw_def same_sched_def)

lemma set_scheduler_simps [simp]:
  "scheduler (set_scheduler s m) = Some s" "m_vcpus (set_scheduler s m) = m_vcpus m" "m_vms (set_scheduler s m) = m_vms m"
  "active_vcpu (set_scheduler s m) = active_vcpu m" "vcpu_vm_id (set_scheduler s m) = vcpu_vm_id m"
  by (auto simp: scheduler_def set_scheduler_def upd_cpu_def vcpu_vm_id_def)

lemma rr_next_runnable:
  assumes "rr_queue s \<noteq> []" "\<forall>v \<in> set (rr_queue s). vc_state (m_vcpus m v) \<noteq> VcpuInv"
  shows "rr_next m s = (let idx = (rr_active_idx s + 1) mod length (rr_queue s) in (Some (rr_queue s ! idx), s\<lparr>rr_active_idx := idx\<rparr>))"
proof -
  let ?n = "length (rr_queue s)"
  have "[1..<?n + 1] = 1 # [Suc 1..<?n + 1]" using assms(1) by (intro upt_conv_Cons) (simp add: Suc_le_eq)
  moreover have "rr_queue s ! ((rr_active_idx s + 1) mod ?n) \<in> set (rr_queue s)" using assms(1) by simp
  ultimately show ?thesis using assms(2) by (simp add: rr_next_def Let_def)
qed

lemma schedule_to_ok:
  assumes run: "schedule_to v m = Some m'" and s: "scheduler m = Some s" "rr_active_idx s < length (rr_queue s)" "v = rr_queue s ! rr_active_idx s"
    and q: "distinct (map (vcpu_vm_id m) (rr_queue s))" "None \<notin> vcpu_vm_id m ` set (rr_queue s)"
    and st: "\<forall>w \<in> set (rr_queue s). w \<noteq> v \<longrightarrow> active_vcpu m = Some w \<or> vc_state (m_vcpus m w) = VcpuPend"
  shows "sched_ok m' \<and> scheduler m' = Some s \<and> active_vcpu m' = Some v"
proof -
  note view = schedule_to_view[OF run]
  have id: "vcpu_vm_id m' = vcpu_vm_id m" using view(2,3) by (auto simp: vcpu_vm_id_def)
  have sc: "scheduler m' = Some s" "active_vcpu m' = Some v" using view(1) s(1) by (simp_all add: scheduler_def)
  have "vc_state (m_vcpus m' w) = (if v = w then VcpuAct else VcpuPend)" if w: "w \<in> set (rr_queue s)" for w
  proof (cases "w = v")
    case False
    then have "vcpu_vm_id m w \<noteq> vcpu_vm_id m v" using q(1) w s(2,3) by (auto simp: distinct_map inj_on_def)
    then show ?thesis using st w False by (auto simp: view(4))
  qed (simp add: view(4))
  with q s sc show ?thesis by (auto simp: sched_ok_def queue_ok_def id)
qed

lemma do_schedule_ok:
  assumes run: "do_schedule m = Some m'" and q: "queue_ok m s" "rr_queue s \<noteq> []"
  defines "idx \<equiv> (rr_active_idx s + 1) mod length (rr_queue s)"
  shows "sched_ok m' \<and> scheduler m' = Some (s\<lparr>rr_active_idx := idx\<rparr>) \<and> active_vcpu m' = Some (rr_queue s ! idx)"
proof -
  let ?s = "s\<lparr>rr_active_idx := idx\<rparr>" and ?v = "rr_queue s ! idx"
  have "rr_next m s = (Some ?v, ?s)"
    using rr_next_runnable[of s m] q by (auto simp: queue_ok_def idx_def Let_def split: if_splits)
  then have run': "schedule_to ?v (set_scheduler ?s m) = Some m'" using run q(1) by (simp add: do_schedule_def queue_ok_def)
  show ?thesis
    by (rule schedule_to_ok[OF run', of ?s]) (use q in \<open>auto simp: queue_ok_def idx_def split: if_splits\<close>)
qed

lemma do_schedule_sched_ok: "do_schedule m = Some m' \<Longrightarrow> queue_ok m s \<Longrightarrow> rr_queue s \<noteq> [] \<Longrightarrow> sched_ok m'"
  by (drule (2) do_schedule_ok) simp

lemma vcpu_vm_id_set_state [simp]: "vcpu_vm_id (set_state v st m) = vcpu_vm_id m"
  by (auto simp: vcpu_vm_id_def set_state_def upd_vcpu_def)

lemma set_state_simps [simp]:
  "m_cpu (set_state v st m) = m_cpu m" "scheduler (set_state v st m) = scheduler m" "m_vms (set_state v st m) = m_vms m"
  "vc_state (m_vcpus (set_state v st m) w) = (if w = v then st else vc_state (m_vcpus m w))"
  by (simp_all add: set_state_def upd_vcpu_def scheduler_def)

lemma wakeup_ok:
  assumes "sched_ok m" "scheduler m = Some s" "vcpu_vm_id m v = Some i" "Some i \<notin> vcpu_vm_id m ` set (rr_queue s)"
    and run: "sched_wakeup v m = Some m'"
  shows "sched_ok m'"
proof -
  let ?s = "s\<lparr>rr_queue := rr_queue s @ [v]\<rparr>" and ?m = "set_scheduler (s\<lparr>rr_queue := rr_queue s @ [v]\<rparr>) (set_state v VcpuPend m)"
  from assms(1,2) have q: "queue_ok m s" and a: "rr_queue s = [] \<longrightarrow> active_vcpu m = None"
    "rr_queue s \<noteq> [] \<longrightarrow> rr_active_idx s < length (rr_queue s) \<and> active_vcpu m = Some (rr_queue s ! rr_active_idx s)"
    by (auto simp: sched_ok_def queue_ok_def split: if_splits)
  have v: "v \<notin> set (rr_queue s)" using assms(3,4) by force
  then have na: "active_vcpu m \<noteq> Some v" using a by (metis nth_mem option.inject option.distinct(1))
  have q': "queue_ok ?m ?s" using q v na assms(3,4) by (auto simp: queue_ok_def)
  show ?thesis
  proof (cases "rr_queue s = []")
    case True
    then have "do_schedule ?m = Some m'" using run assms(2) by (simp add: sched_wakeup_def Let_def)
    then show ?thesis using q' by (rule do_schedule_sched_ok) simp
  next
    case False
    then have "timer_enable True ?m = Some m'" using run assms(2) by (simp add: sched_wakeup_def Let_def)
    moreover have "sched_ok ?m" unfolding sched_ok_def using q' False a by (intro exI[of _ ?s]) (auto simp: nth_append)
    ultimately show ?thesis using same_sched_ok[OF timer_enable_same] by blast
  qed
qed

lemma yield_to_ok:
  assumes "sched_ok m" "scheduler m = Some s" "vcpu_vm_id m v = Some i" "Some i \<notin> vcpu_vm_id m ` set (rr_queue s)"
    and run: "sched_yield_to v m = Some m'"
  shows "sched_ok m'"
proof -
  let ?s = "s\<lparr>rr_queue := rr_queue s @ [v], rr_active_idx := length (rr_queue s)\<rparr>"
  from assms(1,2) have q: "queue_ok m s" by (auto simp: sched_ok_def queue_ok_def)
  from run assms(2) obtain m1 where m1: "schedule_to v (set_scheduler ?s m) = Some m1"
    "(if length (rr_queue s @ [v]) > 1 then timer_enable True m1 else Some m1) = Some m'"
    by (auto simp: sched_yield_to_def Let_def panic_simps)
  have "sched_ok m1"
    using schedule_to_ok[OF m1(1), of ?s] q assms(3,4) by (auto simp: queue_ok_def split: if_splits)
  then show ?thesis using m1(2) same_sched_ok[OF timer_enable_same] by (auto split: if_splits)
qed

lemma tick_ok:
  assumes "timer_irq_handler m = Some m'" "queue_ok m s" "rr_queue s \<noteq> []"
  defines "idx \<equiv> (rr_active_idx s + 1) mod length (rr_queue s)"
  shows "sched_ok m' \<and> scheduler m' = Some (s\<lparr>rr_active_idx := idx\<rparr>) \<and> active_vcpu m' = Some (rr_queue s ! idx)"
proof -
  let ?m = "timer_arch_disable_irq m"
  from assms(1) obtain m1 where m1: "do_schedule ?m = Some m1" "timer_notify_after 1 m1 = Some m'"
    by (auto simp: timer_irq_handler_def Let_def panic_simps)
  have "queue_ok ?m s" using assms(2) timer_disable_same[of m] same_sched_vm_id[OF timer_disable_same[of m]]
    by (simp add: queue_ok_def same_sched_def scheduler_def)
  from do_schedule_ok[OF m1(1) this assms(3)] timer_notify_same[OF m1(2)] same_sched_ok[OF timer_notify_same[OF m1(2)]] show ?thesis
    by (simp add: idx_def same_sched_def scheduler_def)
qed

lemma position_vm_less: "position_vm m q v = Some (Some idx) \<Longrightarrow> idx < length q"
  by (auto simp: position_vm_def panic_simps dest!: find_loop_in split: if_splits)

lemma queue_ok_remove:
  assumes "queue_ok m s" "idx < length (rr_queue s)"
  defines "q \<equiv> remove_nth idx (rr_queue s)"
  shows "distinct (map (vcpu_vm_id m) q)" "None \<notin> vcpu_vm_id m ` set q" "rr_queue s ! idx \<notin> set q" "set q \<subseteq> set (rr_queue s)"
    "length q = length (rr_queue s) - 1"
proof -
  have d: "distinct (rr_queue s)" using assms(1) by (simp add: queue_ok_def distinct_map)
  have r: "set q = set (rr_queue s) - {rr_queue s ! idx}" unfolding q_def using d assms(2) by (rule set_remove_nth_distinct)
  show "rr_queue s ! idx \<notin> set q" "set q \<subseteq> set (rr_queue s)" using r by auto
  show "None \<notin> vcpu_vm_id m ` set q" using r assms(1) by (auto simp: queue_ok_def)
  show "distinct (map (vcpu_vm_id m) q)"
    using assms(1) r distinct_remove_nth[OF d, of idx] by (auto simp: queue_ok_def distinct_map q_def intro: inj_on_subset)
  show "length q = length (rr_queue s) - 1" using assms(2) by (simp add: q_def length_remove_nth)
qed

lemma set_active_None [simp]:
  "scheduler (set_active_vcpu None m) = scheduler m" "m_vcpus (set_active_vcpu None m) = m_vcpus m"
  "active_vcpu (set_active_vcpu None m) = None" "vcpu_vm_id (set_active_vcpu None m) = vcpu_vm_id m"
  by (auto simp: set_active_vcpu_def upd_cpu_def scheduler_def vcpu_vm_id_def)

lemma sleep_other_ok:
  assumes "queue_ok m s" "idx < length (rr_queue s)" "idx \<noteq> rr_active_idx s" "rr_active_idx s < length (rr_queue s)"
    "active_vcpu m = Some (rr_queue s ! rr_active_idx s)"
  shows "sched_ok (set_scheduler (s\<lparr>rr_queue := remove_nth idx (rr_queue s),
    rr_active_idx := (if idx < rr_active_idx s then rr_active_idx s - 1 else rr_active_idx s)\<rparr>) m)" (is "sched_ok (set_scheduler ?s m)")
proof -
  note r = queue_ok_remove[OF assms(1,2)]
  have "remove_nth idx (rr_queue s) ! rr_active_idx ?s = rr_queue s ! rr_active_idx s"
    using nth_remove_before[of idx "rr_active_idx s"] nth_remove_after[of "rr_active_idx s" idx] assms(2-4) by auto
  moreover have "rr_active_idx ?s < length (remove_nth idx (rr_queue s))" using assms(2-4) r(5) by auto
  ultimately show ?thesis unfolding sched_ok_def using assms r by (intro exI[of _ ?s]) (auto simp: queue_ok_def)
qed

lemma sleep_active_ok:
  assumes "queue_ok m s" "rr_active_idx s < length (rr_queue s)" "active_vcpu m = Some (rr_queue s ! rr_active_idx s)"
  shows "queue_ok (set_active_vcpu None (set_scheduler (s\<lparr>rr_queue := remove_nth (rr_active_idx s) (rr_queue s)\<rparr>) m))
    (s\<lparr>rr_queue := remove_nth (rr_active_idx s) (rr_queue s)\<rparr>)"
  using assms queue_ok_remove[OF assms(1,2)] by (fastforce simp: queue_ok_def)

lemma queue_ok_same: "same_sched m m' \<Longrightarrow> queue_ok m' s \<longleftrightarrow> queue_ok m s"
  by (simp add: queue_ok_def same_sched_vm_id) (simp add: same_sched_def scheduler_def)

lemma sleep_ok:
  assumes ok: "sched_ok m" and run: "sched_sleep v m = Some m'"
  shows "sched_ok m'"
proof -
  from ok obtain s where q: "queue_ok m s" and a: "rr_queue s \<noteq> [] \<longrightarrow>
      rr_active_idx s < length (rr_queue s) \<and> active_vcpu m = Some (rr_queue s ! rr_active_idx s)"
    by (auto simp: sched_ok_def split: if_splits)
  then have s: "scheduler m = Some s" by (simp add: queue_ok_def)
  from run s obtain io where io: "position_vm m (rr_queue s) v = Some io" by (auto simp: sched_sleep_def panic_simps)
  have timed: "sched_ok m'" if "(if b then timer_enable False m1 else Some m1) = Some m'" "sched_ok m1" for b m1
    using that same_sched_ok[OF timer_enable_same] by (auto split: if_splits)
  show ?thesis
  proof (cases io)
    case None
    with run s io have "(if length (rr_queue s) \<le> 1 then timer_enable False m else Some m) = Some m'" by (simp add: sched_sleep_def)
    with ok timed show ?thesis by blast
  next
    case (Some idx)
    let ?q = "remove_nth idx (rr_queue s)"
    have lt: "idx < length (rr_queue s)" using io Some position_vm_less by blast
    with a have act: "rr_active_idx s < length (rr_queue s)" "active_vcpu m = Some (rr_queue s ! rr_active_idx s)" by auto
    show ?thesis
    proof (cases "idx = rr_active_idx s")
      case False
      let ?m = "set_scheduler (s\<lparr>rr_queue := ?q,
        rr_active_idx := (if idx < rr_active_idx s then rr_active_idx s - 1 else rr_active_idx s)\<rparr>) m"
      have "(if length ?q \<le> 1 then timer_enable False ?m else Some ?m) = Some m'"
        using run s io Some False by (auto simp: sched_sleep_def Let_def split: if_splits)
      with sleep_other_ok[OF q lt False act] timed show ?thesis by blast
    next
      case True
      let ?s = "s\<lparr>rr_queue := ?q\<rparr>" and ?m = "set_active_vcpu None (set_scheduler (s\<lparr>rr_queue := ?q\<rparr>) m)"
      from run s io Some True obtain m1 where
        m1: "(if length ?q \<le> 1 then timer_enable False ?m else Some ?m) = Some m1" "(if ?q \<noteq> [] then do_schedule m1 else Some m1) = Some m'"
        by (auto simp: sched_sleep_def Let_def panic_simps)
      have same: "same_sched ?m m1" using m1(1) timer_enable_same by (auto simp: same_sched_def split: if_splits)
      have q1: "queue_ok m1 ?s" using sleep_active_ok[OF q act] True by (simp add: queue_ok_same[OF same])
      have "active_vcpu m1 = None" using same by (simp add: same_sched_def)
      with q1 have "sched_ok m1" if "?q = []" using that by (auto simp: sched_ok_def intro!: exI[of _ ?s])
      with q1 m1(2) show ?thesis by (auto intro: do_schedule_sched_ok split: if_splits)
    qed
  qed
qed

lemma sched_step_ok:
  assumes "sched_step m m'" "sched_ok m"
  shows "sched_ok m'"
  using assms
proof cases
  case step_tick
  from assms(2) obtain s where s: "queue_ok m s" by (auto simp: sched_ok_def)
  have "rr_queue s \<noteq> []"
    using step_tick s by (auto simp: timer_irq_handler_def do_schedule_def queue_ok_def scheduler_def rr_next_def timer_arch_disable_irq_def set_sysreg_def
        upd_hw_def panic_simps)
  with tick_ok[OF step_tick s] show ?thesis by simp
qed (blast intro: wakeup_ok yield_to_ok sleep_ok)+

text \<open>
  C17. From the moment the scheduler of a core is set up, whatever the core does to its queue (waking,
  yielding to, or putting to sleep a virtual CPU, or a timer tick), no guest is queued twice, and
  exactly the virtual CPU the core runs is active while all other queued ones are pending; the core
  runs none exactly when the queue is empty.
\<close>

theorem sched_reachable_ok:
  assumes "cpu_sched_init RoundRobin m0 = Some m" "active_vcpu m0 = None" "sched_step\<^sup>*\<^sup>* m m'"
  shows "sched_ok m'"
  using assms(3)
proof (induction rule: rtranclp_induct)
  case base
  from assms(1) have "m = set_scheduler (SchedulerRR_new 1) m0" by (simp add: cpu_sched_init_def)
  with assms(2) show ?case by (auto simp: sched_ok_def queue_ok_def SchedulerRR_new_def)
next
  case (step y z)
  then show ?case using sched_step_ok by blast
qed

section \<open>Every queued guest gets its turn\<close>

text \<open>
  The virtual CPUs of a queue the core can switch between: their saved controller state has the size of
  the hardware's, their guest has a stage-2 table, and no interrupt waits to be injected.
\<close>

definition vcpu_ready :: "Machine \<Rightarrow> VcpuRef \<Rightarrow> bool" where
  "vcpu_ready m v \<longleftrightarrow> gs_wf (gic_state (vm_ctx m v)) \<and> vc_int_list (m_vcpus m v) = [] \<and>
     (\<exists>r pt. vc_vm (m_vcpus m v) = Some r \<and> vm_pt (m_vms m r) = Some pt)"

definition switchable :: "Machine \<Rightarrow> VcpuRef set \<Rightarrow> bool" where
  "switchable m V \<longleftrightarrow> gich_wf (gich m) \<and> m_timer_slice m < usize_bound \<and> (\<forall>v \<in> V. vcpu_ready m v)"

lemma context_vm_store_total:
  assumes "gs_wf (gic_state (vm_ctx m p))" "gich_wf (gich m)"
  shows "\<exists>c s. context_vm_store p m = Some (upd_vcpu p (\<lambda>x. x\<lparr>vc_vcpu_ctx := s, vc_vm_ctx := c\<rparr>) m) \<and> gs_wf (gic_state c)"
proof -
  let ?c0 = "fpsimd_save_context (m_hw m) (ext_regs_store (hw_regs (m_hw m)) (vm_ctx m p))"
  have "gs_wf (gic_state ?c0)" using assms(1) by (simp add: fpsimd_save_context_def)
  from gic_save_state_eq[OF this assms(2)] obtain s' where s': "gic_save_state (m_hw m) ?c0 = Some (?c0\<lparr>gic_state := s'\<rparr>)" "gs_wf s'" by auto
  have "\<exists>m'. context_vm_store p m = Some m'"
    using s'(1) by (cases "cpu_ctx (m_cpu m)") (simp_all add: context_vm_store_def save_cpu_ctx_def upd_vm_ctx_def upd_vcpu_def gic_save_context_def)
  then obtain m' where m': "context_vm_store p m = Some m'" ..
  from context_vm_store_eq[OF this] s' m' show ?thesis by auto
qed

lemma context_regs_restore_total:
  assumes "gs_wf (gic_state (vm_ctx m v))" "gich_wf (gich m)"
  shows "\<exists>m'. context_regs_restore v m = Some m' \<and> gich_wf (gich m')"
proof -
  let ?hw = "fpsimd_restore_context (vm_ctx m v) (m_hw m)"
  have "gich_wf (hw_gich ?hw)" using assms(2) by (simp add: fpsimd_restore_context_def)
  from gic_restore_state_eq[OF assms(1) this] obtain hw where "gic_restore_state (vm_ctx m v) ?hw = Some hw" "gich_wf (hw_gich hw)" by auto
  then show ?thesis
    by (cases "cpu_ctx (m_cpu m)") (simp_all add: context_regs_restore_def restore_cpu_ctx_def gic_restore_context_def upd_hw_def)
qed

lemma inject_int_inlist_empty: "vc_int_list (m_vcpus m v) = [] \<Longrightarrow> inject_int_inlist v m = Some m"
  by (auto simp: inject_int_inlist_def upd_vcpu_same int_list_same split: option.splits)

lemma vcpu_ready_upd:
  assumes "vcpu_ready m w" "m_vms m' = m_vms m" "vc_vm (m_vcpus m' w) = vc_vm (m_vcpus m w)"
    "vc_int_list (m_vcpus m' w) = vc_int_list (m_vcpus m w)" "gs_wf (gic_state (vm_ctx m' w))"
  shows "vcpu_ready m' w"
  using assms by (simp add: vcpu_ready_def)

lemma vcpu_ready_vm_id: "vcpu_ready m v \<Longrightarrow> \<exists>i. vcpu_vm_id m v = Some i"
  by (auto simp: vcpu_ready_def vcpu_vm_id_def)

lemma schedule_to_total:
  assumes sw: "switchable m V" and v: "v \<in> V" and a: "active_vcpu m = None \<or> (\<exists>p \<in> V. active_vcpu m = Some p)"
  shows "\<exists>m'. schedule_to v m = Some m' \<and> switchable m' V"
proof -
  let ?st = "case active_vcpu m of
      Some p \<Rightarrow> do {
        a \<leftarrow> vcpu_vm_id m p;
        b \<leftarrow> vcpu_vm_id m v;
        if a \<noteq> b then context_vm_store p (set_state p VcpuPend m) else Some m }
    | None \<Rightarrow> Some m"
  have "\<exists>m0. ?st = Some m0 \<and> switchable m0 V \<and> m_hw m0 = m_hw m"
  proof (cases "active_vcpu m")
    case None
    then show ?thesis using sw by simp
  next
    case (Some p)
    then have p: "p \<in> V" using a by auto
    then have "vcpu_ready m p" "vcpu_ready m v" using sw v by (auto simp: switchable_def)
    then obtain i j where ij: "vcpu_vm_id m p = Some i" "vcpu_vm_id m v = Some j" using vcpu_ready_vm_id by blast
    have "gs_wf (gic_state (vm_ctx (set_state p VcpuPend m) p))" "gich_wf (gich (set_state p VcpuPend m))"
      using sw p by (auto simp: switchable_def vcpu_ready_def set_state_def upd_vcpu_def)
    from context_vm_store_total[OF this] obtain c s where
      cs: "context_vm_store p (set_state p VcpuPend m) = Some (upd_vcpu p (\<lambda>x. x\<lparr>vc_vcpu_ctx := s, vc_vm_ctx := c\<rparr>) (set_state p VcpuPend m))"
      "gs_wf (gic_state c)" by blast
    then show ?thesis using Some ij sw by (auto simp: switchable_def set_state_def upd_vcpu_def vcpu_ready_def)
  qed
  then obtain m0 where m0: "?st = Some m0" "switchable m0 V" by blast
  let ?m = "set_active_vcpu (Some v) m0"
  have sw1: "switchable ?m V" using m0(2) by (auto simp: switchable_def vcpu_ready_def set_active_vcpu_def upd_cpu_def set_state_def upd_vcpu_def)
  then have "gs_wf (gic_state (vm_ctx ?m v))" "gich_wf (gich ?m)" "vc_int_list (m_vcpus ?m v) = []" "vcpu_ready ?m v"
    using v by (auto simp: switchable_def vcpu_ready_def)
  with context_regs_restore_total[of ?m v] obtain m1 where m1: "context_regs_restore v ?m = Some m1" "gich_wf (gich m1)" by blast
  note k = context_regs_restore_eq(2,3)[OF m1(1)]
  have sl: "m_timer_slice m1 = m_timer_slice ?m"
    using m1(1) by (auto simp: context_regs_restore_def restore_cpu_ctx_def gic_restore_context_def upd_hw_def Let_def panic_simps split: option.splits)
  have "inject_int_inlist v m1 = Some m1" using \<open>vc_int_list (m_vcpus ?m v) = []\<close> k by (intro inject_int_inlist_empty) simp
  moreover obtain i dir where "vcpu_vm_id m1 v = Some i" "vm_pt_dir m1 v = Some dir"
    using \<open>vcpu_ready ?m v\<close> k by (auto simp: vcpu_ready_def vcpu_vm_id_def vm_pt_dir_def)
  moreover have "switchable m1 V" using sw1 m1(2) k sl by (simp add: switchable_def vcpu_ready_def)
  ultimately show ?thesis using m0(1) m1(1)
    by (simp add: schedule_to_def context_vm_restore_def Let_def switchable_def vcpu_ready_def upd_hw_def)
qed

lemma timer_notify_total:
  assumes "switchable m V"
  shows "\<exists>m'. timer_notify_after 1 m = Some m' \<and> switchable m' V"
proof -
  have "umul (m_timer_slice m) 1 = Some (m_timer_slice m)" using assms by (simp add: panic_simps switchable_def)
  then show ?thesis using assms
    by (simp add: timer_notify_after_def timer_arch_set_def timer_arch_enable_irq_def set_sysreg_def upd_hw_def switchable_def vcpu_ready_def)
qed

lemma tick_total:
  assumes ok: "sched_ok m" and s: "scheduler m = Some s" "rr_queue s \<noteq> []" and sw: "switchable m (set (rr_queue s))"
  shows "\<exists>m'. timer_irq_handler m = Some m' \<and> switchable m' (set (rr_queue s))"
proof -
  let ?m = "timer_arch_disable_irq m" and ?n = "length (rr_queue s)"
  let ?i = "(rr_active_idx s + 1) mod ?n"
  from ok s have q: "queue_ok m s" "active_vcpu m = Some (rr_queue s ! rr_active_idx s)" "rr_active_idx s < ?n"
    by (auto simp: sched_ok_def queue_ok_def split: if_splits)
  have d: "scheduler ?m = Some s" "m_vcpus ?m = m_vcpus m" "active_vcpu ?m = active_vcpu m"
    using s(1) timer_disable_same[of m] by (simp_all add: same_sched_def scheduler_def)
  have "rr_next ?m s = (Some (rr_queue s ! ?i), s\<lparr>rr_active_idx := ?i\<rparr>)"
    using rr_next_runnable[OF s(2), of ?m] q(1) by (auto simp: d queue_ok_def Let_def split: if_splits)
  moreover have "switchable (set_scheduler (s\<lparr>rr_active_idx := ?i\<rparr>) ?m) (set (rr_queue s))"
    using sw by (simp add: switchable_def vcpu_ready_def set_scheduler_def upd_cpu_def timer_arch_disable_irq_def set_sysreg_def upd_hw_def)
  from schedule_to_total[OF this, of "rr_queue s ! ?i"] q s(2) obtain m1 where
    "schedule_to (rr_queue s ! ?i) (set_scheduler (s\<lparr>rr_active_idx := ?i\<rparr>) ?m) = Some m1" "switchable m1 (set (rr_queue s))"
    by (auto simp: d)
  ultimately show ?thesis using timer_notify_total[of m1 "set (rr_queue s)"] d(1)
    by (auto simp: timer_irq_handler_def do_schedule_def Let_def)
qed

primrec timer_ticks :: "nat \<Rightarrow> Machine \<Rightarrow> Machine option" where
  "timer_ticks 0 m = Some m"
| "timer_ticks (Suc k) m = do { m \<leftarrow> timer_ticks k m; timer_irq_handler m }"

lemma timer_ticks_run:
  assumes "sched_ok m" "scheduler m = Some s" "rr_queue s \<noteq> []" "switchable m (set (rr_queue s))"
  shows "\<exists>m'. timer_ticks k m = Some m' \<and> sched_ok m' \<and> switchable m' (set (rr_queue s)) \<and>
    active_vcpu m' = Some (rr_queue s ! ((rr_active_idx s + k) mod length (rr_queue s))) \<and>
    scheduler m' = Some (s\<lparr>rr_active_idx := (rr_active_idx s + k) mod length (rr_queue s)\<rparr>)"
proof (induction k)
  case 0
  then show ?case using assms by (auto simp: sched_ok_def queue_ok_def split: if_splits)
next
  case (Suc k)
  let ?s = "s\<lparr>rr_active_idx := (rr_active_idx s + k) mod length (rr_queue s)\<rparr>"
  from Suc.IH obtain m1 where m1: "timer_ticks k m = Some m1" "sched_ok m1" "switchable m1 (set (rr_queue s))" "scheduler m1 = Some ?s" by auto
  from tick_total[OF m1(2,4)] m1(3) assms(3) obtain m' where m': "timer_irq_handler m1 = Some m'" "switchable m' (set (rr_queue s))" by auto
  from m1(2,4) have "queue_ok m1 ?s" by (auto simp: sched_ok_def queue_ok_def)
  from tick_ok[OF m'(1) this] m1(1) m' assms(3) show ?case by (simp add: mod_simps)
qed

text \<open>
  C18. No queued guest is starved: the timer tick returns, and after \<open>k\<close> ticks the core runs the virtual
  CPU \<open>k\<close> places further round the queue, so that each queued virtual CPU runs within one round.
\<close>

theorem timer_ticks_rotate:
  assumes "sched_ok m" "scheduler m = Some s" "rr_queue s \<noteq> []" "switchable m (set (rr_queue s))"
  shows "(\<forall>k. \<exists>m'. timer_ticks k m = Some m' \<and> sched_ok m' \<and>
      active_vcpu m' = Some (rr_queue s ! ((rr_active_idx s + k) mod length (rr_queue s)))) \<and>
    (\<forall>v \<in> set (rr_queue s). \<exists>k < length (rr_queue s). \<exists>m'. timer_ticks k m = Some m' \<and> active_vcpu m' = Some v)"
proof (intro conjI allI ballI)
  show run: "\<exists>m'. timer_ticks k m = Some m' \<and> sched_ok m' \<and>
      active_vcpu m' = Some (rr_queue s ! ((rr_active_idx s + k) mod length (rr_queue s)))" for k
    using timer_ticks_run[OF assms, of k] by blast
  fix v assume "v \<in> set (rr_queue s)"
  then obtain j where j: "j < length (rr_queue s)" "rr_queue s ! j = v" by (auto simp: in_set_conv_nth)
  let ?n = "length (rr_queue s)" and ?a = "rr_active_idx s"
  have a: "?a < ?n" using assms(1-3) by (auto simp: sched_ok_def queue_ok_def split: if_splits)
  define k where "k = (j + (?n - ?a)) mod ?n"
  have "(?a + k) mod ?n = (?a + (j + (?n - ?a))) mod ?n" by (simp add: k_def mod_simps)
  also have "\<dots> = j" using a j(1) by simp
  finally have "(?a + k) mod ?n = j" .
  moreover have "k < ?n" unfolding k_def using a by (intro mod_less_divisor) linarith
  ultimately show "\<exists>k < length (rr_queue s). \<exists>m'. timer_ticks k m = Some m' \<and> active_vcpu m' = Some v"
    using run[of k] j(2) by auto
qed

section \<open>Going to sleep\<close>

lemma position_vm_at:
  assumes "queue_ok m s" "k < length (rr_queue s)"
  shows "position_vm m (rr_queue s) (rr_queue s ! k) = Some (Some k)"
proof -
  let ?q = "rr_queue s" and ?P = "\<lambda>j. vcpu_vm_id m (rr_queue s ! j) = vcpu_vm_id m (rr_queue s ! k)"
  have some: "\<exists>i. vcpu_vm_id m (?q ! j) = Some i" if "j < length ?q" for j
    using assms(1) that by (metis image_eqI not_None_eq nth_mem queue_ok_def)
  have "position_vm m ?q (?q ! k) = Some (map_option (\<lambda>j. j) (find ?P [0..<length ?q]))"
    unfolding position_vm_def using some[OF assms(2)] by (intro find_loop_range) (auto dest!: some)
  moreover have "find ?P [0..<length ?q] = Some k"
    using assms by (intro find_range_unique) (auto simp: queue_ok_def distinct_conv_nth)
  ultimately show ?thesis by simp
qed

text \<open>
  When the running virtual CPU goes to sleep, its index stays, and the search for the next one starts
  behind that index: the virtual CPU that moved up into the free place is passed over.
\<close>

lemma sleep_skips_next:
  assumes "sched_ok m" "scheduler m = Some s" "rr_active_idx s + 2 < length (rr_queue s)"
    and run: "sched_sleep (rr_queue s ! rr_active_idx s) m = Some m'"
  shows "active_vcpu m' = Some (rr_queue s ! (rr_active_idx s + 2))"
proof -
  let ?a = "rr_active_idx s" and ?q = "remove_nth (rr_active_idx s) (rr_queue s)"
  let ?s = "s\<lparr>rr_queue := ?q\<rparr>" and ?m = "set_active_vcpu None (set_scheduler (s\<lparr>rr_queue := ?q\<rparr>) m)"
  from assms(1-3) have q: "queue_ok m s" "?a < length (rr_queue s)" "active_vcpu m = Some (rr_queue s ! ?a)"
    by (auto simp: sched_ok_def queue_ok_def split: if_splits)
  have len: "length ?q = length (rr_queue s) - 1" using q(2) by (rule length_remove_nth)
  have "do_schedule ?m = Some m'"
    using run assms(2,3) position_vm_at[OF q(1,2)] len by (auto simp: sched_sleep_def Let_def split: if_splits)
  moreover have "?q \<noteq> []" using len assms(3) by auto
  ultimately have "active_vcpu m' = Some (?q ! (?a + 1))"
    using do_schedule_ok[OF _ sleep_active_ok[OF q]] len assms(3) by auto
  also have "?q ! (?a + 1) = rr_queue s ! (?a + 2)" using assms(3) by (simp add: remove_nth_def nth_append min_def)
  finally show ?thesis .
qed

section \<open>Two guests on one core\<close>

text \<open>Two guests with one virtual CPU each; \<open>st\<close> gives the states and \<open>c\<close> the core.\<close>

definition two_guests :: "(VcpuRef \<Rightarrow> VcpuState) \<Rightarrow> Cpu \<Rightarrow> Machine" where
  "two_guests st c = machine_reset\<lparr>m_cpu := c,
     m_vms := (\<lambda>r. (VmInner_new Qemu (r + 1))\<lparr>vm_pt := Some (PageTable_new \<lparr>pf_pa = 0x1000 * r, pf_page_num = 1\<rparr>)\<rparr>),
     m_vcpus := (\<lambda>v. VcpuInner_default\<lparr>vc_vm := Some v, vc_state := st v\<rparr>)\<rparr>"

definition idle_core :: Cpu where
  "idle_core = (m_cpu machine_reset)\<lparr>cpu_ctx := Some 0x2000\<rparr>"

definition busy_core :: Cpu where
  "busy_core = idle_core\<lparr>cpu_active_vcpu := Some 0, cpu_sched := SchedRR \<lparr>rr_queue = [0, 1], rr_active_idx = 0, rr_base_slice = 1\<rparr>\<rparr>"

lemma two_guests_switchable: "switchable (two_guests st c) V"
  by (simp add: switchable_def vcpu_ready_def two_guests_def machine_reset_def hw_reset_def gich_reset_def gich_wf_def VcpuInner_default_def
      VmContext_default_def GicState_default_def gs_wf_def)

lemma two_guests_vm_id: "vcpu_vm_id (two_guests st c) v = Some (v + 1)"
  by (simp add: vcpu_vm_id_def two_guests_def VmInner_new_def)

lemma two_guests_core: "m_cpu (two_guests st c) = c"
  by (simp add: two_guests_def)

theorem sched_reachable_ok_witness:
  "\<exists>m m'. cpu_sched_init RoundRobin (two_guests (\<lambda>_. VcpuInv) idle_core) = Some m \<and> sched_wakeup 1 m = Some m' \<and>
     sched_ok m' \<and> scheduler m' \<noteq> None"
proof -
  let ?idle = "two_guests (\<lambda>_. VcpuInv) idle_core" and ?s = "\<lparr>rr_queue = [1], rr_active_idx = 0, rr_base_slice = 1\<rparr>"
  let ?m = "set_scheduler (SchedulerRR_new 1) ?idle"
  have init: "cpu_sched_init RoundRobin ?idle = Some ?m" by (simp add: cpu_sched_init_def)
  have a: "active_vcpu ?idle = None" by (simp add: two_guests_core idle_core_def machine_reset_def)
  have "switchable (set_scheduler ?s (set_state 1 VcpuPend ?m)) {1}"
    using two_guests_switchable[of "\<lambda>_. VcpuInv" idle_core "{1}"]
    by (simp add: switchable_def vcpu_ready_def set_scheduler_def upd_cpu_def set_state_def upd_vcpu_def)
  from schedule_to_total[OF this, of 1] a obtain m' where
    "schedule_to 1 (set_scheduler ?s (set_state 1 VcpuPend ?m)) = Some m'" by auto
  then have w: "sched_wakeup 1 ?m = Some m'"
    by (simp add: sched_wakeup_def SchedulerRR_new_def do_schedule_def rr_next_def Let_def upt_rec numeral_2_eq_2 
        set_scheduler_def upd_cpu_def set_state_def upd_vcpu_def scheduler_def)
  have "sched_step\<^sup>*\<^sup>* ?m m'"
    by (rule r_into_rtranclp, rule step_wakeup[of _ "SchedulerRR_new 1" _ 2, OF _ _ _ w])
      (simp_all add: two_guests_vm_id, simp add: SchedulerRR_new_def)
  from sched_reachable_ok[OF init a this] init w show ?thesis by (auto simp: sched_ok_def queue_ok_def)
qed

lemma busy_ok: "sched_ok (two_guests (\<lambda>v. if v = 0 then VcpuAct else VcpuPend) busy_core)"
  by (simp add: sched_ok_def queue_ok_def scheduler_def two_guests_core busy_core_def two_guests_vm_id) (simp add: two_guests_def)

theorem timer_ticks_rotate_witness:
  "\<exists>m'. timer_ticks 3 (two_guests (\<lambda>v. if v = 0 then VcpuAct else VcpuPend) busy_core) = Some m' \<and> active_vcpu m' = Some 1"
proof -
  let ?m = "two_guests (\<lambda>v. if v = 0 then VcpuAct else VcpuPend) busy_core" and ?s = "\<lparr>rr_queue = [0, 1], rr_active_idx = 0, rr_base_slice = 1\<rparr>"
  have s: "scheduler ?m = Some ?s" by (simp add: scheduler_def two_guests_core busy_core_def)
  note timer_ticks_rotate[OF busy_ok s _ two_guests_switchable]
  then have "\<exists>m'. timer_ticks 3 ?m = Some m' \<and> active_vcpu m' = Some (rr_queue ?s ! ((rr_active_idx ?s + 3) mod length (rr_queue ?s)))"
    by (auto simp del: timer_ticks.simps)
  then show ?thesis by (simp add: numeral_3_eq_3 mod_Suc)
qed

theorem schedule_to_roundtrip_witness:
  "\<exists>m1 m3. schedule_to 1 (two_guests (\<lambda>v. if v = 0 then VcpuAct else VcpuPend) busy_core) = Some m1 \<and> schedule_to 0 m1 = Some m3 \<and>
     m_frames m3 0x2000 = frame_default \<and> hw_regs (m_hw m3) SP_EL1 = 0"
proof -
  let ?m = "two_guests (\<lambda>v. if v = 0 then VcpuAct else VcpuPend) busy_core"
  have a: "active_vcpu ?m = Some 0" "cpu_ctx (m_cpu ?m) = Some 0x2000" by (simp_all add: two_guests_core busy_core_def idle_core_def)
  from schedule_to_total[OF two_guests_switchable, of 1 "{0, 1}"] a obtain m1 where
    m1: "schedule_to 1 ?m = Some m1" "switchable m1 {0, 1}" by auto
  note v1 = schedule_to_view[OF m1(1)]
  from schedule_to_total[OF m1(2), of 0] v1(1) obtain m3 where m3: "schedule_to 0 m1 = Some m3" by auto
  have wf: "gs_wf (gic_state (vm_ctx ?m 0))" "gich_wf (gich ?m)" "gich_wf (gich m1)"
    using two_guests_switchable[of _ busy_core "{0}"] m1(2) by (auto simp: switchable_def vcpu_ready_def)
  have "vc_int_list (m_vcpus ?m 1) = []" "gs_wf (gic_state (vm_ctx ?m 1))"
    using two_guests_switchable[of _ busy_core "{1}"] by (auto simp: switchable_def vcpu_ready_def)
  note b = this
  have vtr: "gh_vtr (gich m1) = gh_vtr (gich ?m)"
    using schedule_to_loads[OF m1(1) _ a(2) b(2) wf(2)] a(1) by (simp add: vcpu_loaded_def)
  have "vcpu_vm_id ?m 0 \<noteq> vcpu_vm_id ?m 1" by (simp add: two_guests_vm_id)
  from schedule_to_roundtrip[OF m1(1) a(1) this a(2) m3 _ _ refl wf(1) b(2) wf(2,3) vtr, of "0x2000"] v1(1) a(2)
  have "m_frames m3 0x2000 = m_frames ?m 0x2000" "hw_regs (m_hw m3) SP_EL1 = hw_regs (m_hw ?m) SP_EL1" by (auto simp: guest_regs64_def)
  with m1 m3 show ?thesis by (auto simp: two_guests_def machine_reset_def hw_reset_def)
qed

end
