(* ===== verification/Emu.thy ===== *)
theory Emu
  imports Vcpu
begin

text \<open>
  \<open>src/src/device/emu.rs\<close>: the table of emulated devices, and the dispatch of a data abort to the
  device whose address range it hits.
\<close>

section \<open>The table\<close>

definition EMU_DEV_NUM_MAX :: usize where "EMU_DEV_NUM_MAX = 32"

text \<open>\<open>in_range(a, ipa, size - 1)\<close>: the subtraction panics for a device of size 0.\<close>

definition emu_hit :: "usize \<Rightarrow> usize \<Rightarrow> usize \<Rightarrow> bool option" where
  "emu_hit a ipa sz = do { s \<leftarrow> usub sz 1; in_range a ipa s }"

text \<open>
  \<open>run\<close> calls the handler a function pointer names.  Handlers act on the whole hypervisor, whose machine
  \<open>get\<close> reads.
\<close>

definition emu_handler :: "('s \<Rightarrow> Machine) \<Rightarrow> (EmuDevHandler \<Rightarrow> usize \<Rightarrow> EmuContext \<Rightarrow> 's \<Rightarrow> (bool \<times> 's) option) \<Rightarrow>
    EmuContext \<Rightarrow> 's \<Rightarrow> (bool \<times> 's) option" where
  "emu_handler get run ctx s = do {
     r \<leftarrow> find_loop (\<lambda>d. do {
         v \<leftarrow> active_vcpu (get s);
         i \<leftarrow> vcpu_vm_id (get s) v;
         hit \<leftarrow> (if i = ee_vm_id d then emu_hit (ec_address ctx) (ee_ipa d) (ee_size d) else Some False);
         Some (if hit then Some d else None) }) (m_emu_devs (get s));
     case r of
       Some d \<Rightarrow> run (ee_handler d) (ee_id d) ctx s
     | None \<Rightarrow> Some (False, s) }"

definition emu_register_dev :: "EmuDeviceType \<Rightarrow> usize \<Rightarrow> usize \<Rightarrow> usize \<Rightarrow> usize \<Rightarrow> EmuDevHandler \<Rightarrow> Machine \<Rightarrow> Machine option" where
  "emu_register_dev ty vmid dev_id address sz h m = do {
     assert_that (\<not> length (m_emu_devs m) \<ge> EMU_DEV_NUM_MAX);
     fold_opt (\<lambda>d u.
         if vmid \<noteq> ee_vm_id d then Some u
         else do {
           a \<leftarrow> emu_hit address (ee_ipa d) (ee_size d);
           b \<leftarrow> (if a then Some True else emu_hit (ee_ipa d) address sz);
           assert_that (\<not> b) }) (m_emu_devs m) ();
     Some (m\<lparr>m_emu_devs := m_emu_devs m @
       [\<lparr>ee_emu_type = ty, ee_vm_id = vmid, ee_id = dev_id, ee_ipa = address, ee_size = sz, ee_handler = h\<rparr>]\<rparr>) }"

definition emu_remove_dev :: "usize \<Rightarrow> usize \<Rightarrow> usize \<Rightarrow> usize \<Rightarrow> Machine \<Rightarrow> Machine option" where
  "emu_remove_dev vmid dev_id address sz m = do {
     idx \<leftarrow> position (\<lambda>d. vmid = ee_vm_id d \<and> ee_ipa d = address \<and> ee_id d = dev_id \<and> ee_size d = sz) (m_emu_devs m);
     Some (m\<lparr>m_emu_devs := remove_nth idx (m_emu_devs m)\<rparr>) }"

section \<open>Devices of a guest do not overlap\<close>

definition emu_span :: "EmuDevEntry \<Rightarrow> nat set" where
  "emu_span d = {ee_ipa d..<ee_ipa d + ee_size d}"

definition emu_fits :: "EmuDevEntry \<Rightarrow> bool" where
  "emu_fits d \<longleftrightarrow> 0 < ee_size d \<and> ee_ipa d + ee_size d \<le> usize_bound"

definition emu_apart :: "EmuDevEntry \<Rightarrow> EmuDevEntry \<Rightarrow> bool" where
  "emu_apart d e \<longleftrightarrow> ee_vm_id d = ee_vm_id e \<longrightarrow> emu_span d \<inter> emu_span e = {}"

definition emu_ok :: "EmuDevEntry list \<Rightarrow> bool" where
  "emu_ok ds \<longleftrightarrow> (\<forall>d \<in> set ds. emu_fits d) \<and> sorted_wrt emu_apart ds \<and> length ds \<le> EMU_DEV_NUM_MAX"

lemma emu_hit_eq: "emu_fits d \<Longrightarrow> a < usize_bound \<Longrightarrow> emu_hit a (ee_ipa d) (ee_size d) = Some (a \<in> emu_span d)"
  by (auto simp: emu_hit_def in_range_def range_in_range_def emu_fits_def emu_span_def usub_def uadd_def)

text \<open>What the running guest reaches at an address.\<close>

definition emu_at :: "EmuDevEntry list \<Rightarrow> usize \<Rightarrow> usize \<Rightarrow> EmuDevEntry option" where
  "emu_at ds vmid a = find (\<lambda>d. vmid = ee_vm_id d \<and> a \<in> emu_span d) ds"

lemma find_loop_find:
  assumes "\<And>x. x \<in> set xs \<Longrightarrow> f x = Some (if P x then Some x else None)"
  shows "find_loop f xs = Some (find P xs)"
  using assms by (induction xs) auto

lemma emu_handler_at:
  assumes "get s = m" "emu_ok (m_emu_devs m)" "active_vcpu m = Some v" "vcpu_vm_id m v = Some i" "ec_address ctx < usize_bound"
  shows "emu_handler get run ctx s = (case emu_at (m_emu_devs m) i (ec_address ctx) of
     Some d \<Rightarrow> run (ee_handler d) (ee_id d) ctx s | None \<Rightarrow> Some (False, s))"
proof -
  have "find_loop (\<lambda>d. do {
         v \<leftarrow> active_vcpu m;
         i \<leftarrow> vcpu_vm_id m v;
         hit \<leftarrow> (if i = ee_vm_id d then emu_hit (ec_address ctx) (ee_ipa d) (ee_size d) else Some False);
         Some (if hit then Some d else None) }) (m_emu_devs m) = Some (emu_at (m_emu_devs m) i (ec_address ctx))"
    unfolding emu_at_def using assms(2-) by (intro find_loop_find) (simp add: emu_ok_def emu_hit_eq)
  then show ?thesis using assms(1) by (simp add: emu_handler_def)
qed

lemma emu_at_Some:
  assumes "emu_ok ds"
  shows "emu_at ds i a = Some d \<longleftrightarrow> d \<in> set ds \<and> i = ee_vm_id d \<and> a \<in> emu_span d"
proof
  assume r: "d \<in> set ds \<and> i = ee_vm_id d \<and> a \<in> emu_span d"
  then obtain e where e: "emu_at ds i a = Some e" by (cases "emu_at ds i a") (auto simp: emu_at_def find_None_iff)
  then have "e \<in> set ds" "i = ee_vm_id e" "a \<in> emu_span e" by (auto simp: emu_at_def find_Some_iff)
  with r assms have "e = d"
    by (auto simp: emu_ok_def emu_apart_def sorted_wrt_iff_nth_less in_set_conv_nth) (metis disjoint_iff linorder_neqE_nat)
  with e show "emu_at ds i a = Some d" by simp
qed (auto simp: emu_at_def find_Some_iff)

lemma fold_assert:
  assumes "\<And>x. x \<in> set xs \<Longrightarrow> f x () = (if P x then Some () else None)"
  shows "fold_opt f xs () = (if \<forall>x \<in> set xs. P x then Some () else None)"
  using assms by (induction xs) auto

lemma spans_meet:
  assumes "emu_fits d" "emu_fits e"
  shows "emu_span d \<inter> emu_span e = {} \<longleftrightarrow> ee_ipa d \<notin> emu_span e \<and> ee_ipa e \<notin> emu_span d"
  using assms by (auto simp: emu_span_def emu_fits_def)

lemma emu_register_eq:
  assumes "emu_ok (m_emu_devs m)" "emu_fits e"
  shows "emu_register_dev (ee_emu_type e) (ee_vm_id e) (ee_id e) (ee_ipa e) (ee_size e) (ee_handler e) m =
    (if length (m_emu_devs m) < EMU_DEV_NUM_MAX \<and> (\<forall>d \<in> set (m_emu_devs m). emu_apart d e)
     then Some (m\<lparr>m_emu_devs := m_emu_devs m @ [e]\<rparr>) else None)"
proof -
  have "fold_opt (\<lambda>d u.
         if ee_vm_id e \<noteq> ee_vm_id d then Some u
         else do {
           a \<leftarrow> emu_hit (ee_ipa e) (ee_ipa d) (ee_size d);
           b \<leftarrow> (if a then Some True else emu_hit (ee_ipa d) (ee_ipa e) (ee_size e));
           assert_that (\<not> b) }) (m_emu_devs m) () =
       (if \<forall>d \<in> set (m_emu_devs m). emu_apart d e then Some () else None)"
  proof (rule fold_assert)
    fix d assume "d \<in> set (m_emu_devs m)"
    then have d: "emu_fits d" using assms(1) by (simp add: emu_ok_def)
    then show "(if ee_vm_id e \<noteq> ee_vm_id d then Some ()
         else do {
           a \<leftarrow> emu_hit (ee_ipa e) (ee_ipa d) (ee_size d);
           b \<leftarrow> (if a then Some True else emu_hit (ee_ipa d) (ee_ipa e) (ee_size e));
           assert_that (\<not> b) }) = (if emu_apart d e then Some () else None)"
      using emu_hit_eq[OF d, of "ee_ipa e"] emu_hit_eq[OF assms(2), of "ee_ipa d"] spans_meet[OF d assms(2)] assms(2)
      by (auto simp: emu_apart_def emu_fits_def assert_that_def)
  qed
  then show ?thesis by (auto simp: emu_register_dev_def assert_that_def not_le)
qed

text \<open>
  The table after a sequence of registrations and removals.  The runs register ranges that are not empty and end
  within the address space, as those of the configurations are; the code itself checks neither.
\<close>

inductive emu_run :: "Machine \<Rightarrow> Machine \<Rightarrow> bool" for m where
  emu_start: "emu_run m m"
| emu_add: "emu_run m m1 \<Longrightarrow> 0 < sz \<Longrightarrow> a + sz \<le> usize_bound \<Longrightarrow> emu_register_dev ty i dev a sz h m1 = Some m2 \<Longrightarrow> emu_run m m2"
| emu_del: "emu_run m m1 \<Longrightarrow> emu_remove_dev i dev a sz m1 = Some m2 \<Longrightarrow> emu_run m m2"

lemma emu_register_ok:
  assumes "emu_ok (m_emu_devs m)" "0 < sz" "a + sz \<le> usize_bound" "emu_register_dev ty i dev a sz h m = Some m'"
  shows "m' = m\<lparr>m_emu_devs := m_emu_devs m @ [\<lparr>ee_emu_type = ty, ee_vm_id = i, ee_id = dev, ee_ipa = a, ee_size = sz, ee_handler = h\<rparr>]\<rparr> \<and>
    emu_ok (m_emu_devs m')"
proof -
  let ?e = "\<lparr>ee_emu_type = ty, ee_vm_id = i, ee_id = dev, ee_ipa = a, ee_size = sz, ee_handler = h\<rparr>"
  have "emu_fits ?e" using assms(2,3) by (simp add: emu_fits_def)
  from emu_register_eq[OF assms(1) this] assms this show ?thesis
    by (auto simp: emu_ok_def sorted_wrt_append split: if_splits)
qed

lemma sorted_wrt_remove_nth: "sorted_wrt P xs \<Longrightarrow> sorted_wrt P (remove_nth k xs)"
proof (induction xs arbitrary: k)
  case (Cons x xs)
  then show ?case by (cases k) (auto simp: remove_nth_def dest: in_set_takeD in_set_dropD)
qed (simp add: remove_nth_def)

lemma position_less: "position P xs = Some k \<Longrightarrow> k < length xs"
  by (induction xs arbitrary: k) (auto split: if_splits)

lemma emu_remove_ok:
  assumes "emu_ok (m_emu_devs m)" "emu_remove_dev i dev a sz m = Some m'"
  shows "emu_ok (m_emu_devs m')"
  using assms sorted_wrt_remove_nth[of emu_apart] set_remove_nth[of _ "m_emu_devs m"] length_remove_nth[of _ "m_emu_devs m"] position_less
  by (fastforce simp: emu_ok_def emu_remove_dev_def panic_simps)

lemma emu_run_ok: "emu_run m m' \<Longrightarrow> emu_ok (m_emu_devs m) \<Longrightarrow> emu_ok (m_emu_devs m')"
  by (induction rule: emu_run.induct) (auto dest: emu_register_ok emu_remove_ok)

text \<open>
  C19. An access of a guest reaches the one device of that guest whose range holds the address,
  whatever (non-empty, not wrapping) ranges were registered and removed before, and never a device of another guest; an address in
  no range of the guest reaches no handler.
\<close>

theorem emu_handler_unique:
  assumes "get s = m" "m_emu_devs m0 = []" "emu_run m0 m" "active_vcpu m = Some v" "vcpu_vm_id m v = Some i" "ec_address ctx < usize_bound"
  shows "(\<forall>d \<in> set (m_emu_devs m). i = ee_vm_id d \<and> ec_address ctx \<in> emu_span d \<longrightarrow> emu_handler get run ctx s = run (ee_handler d) (ee_id d) ctx s) \<and>
    ((\<forall>d \<in> set (m_emu_devs m). i = ee_vm_id d \<longrightarrow> ec_address ctx \<notin> emu_span d) \<longrightarrow> emu_handler get run ctx s = Some (False, s))"
proof -
  have ok: "emu_ok (m_emu_devs m)" using emu_run_ok[OF assms(3)] assms(2) by (simp add: emu_ok_def)
  note at = emu_handler_at[of get s m v i ctx run, OF assms(1) ok assms(4-6)]
  show ?thesis
  proof (intro conjI ballI impI)
    fix d assume "d \<in> set (m_emu_devs m)" "i = ee_vm_id d \<and> ec_address ctx \<in> emu_span d"
    then have "emu_at (m_emu_devs m) i (ec_address ctx) = Some d" using emu_at_Some[OF ok] by blast
    then show "emu_handler get run ctx s = run (ee_handler d) (ee_id d) ctx s" using at by simp
  next
    assume "\<forall>d \<in> set (m_emu_devs m). i = ee_vm_id d \<longrightarrow> ec_address ctx \<notin> emu_span d"
    then have "emu_at (m_emu_devs m) i (ec_address ctx) = None" by (auto simp: emu_at_def find_None_iff)
    then show "emu_handler get run ctx s = Some (False, s)" using at by simp
  qed
qed

definition emu_example :: Machine where
  "emu_example = machine_reset\<lparr>m_cpu := (m_cpu machine_reset)\<lparr>cpu_active_vcpu := Some 0\<rparr>,
     m_vcpus := (\<lambda>_. VcpuInner_default\<lparr>vc_vm := Some 0\<rparr>)\<rparr>"

theorem emu_handler_unique_witness:
  "\<exists>m. emu_register_dev EmuDeviceTGicd 0 0 0x8000000 0x1000 emu_intc_handler_fn emu_example = Some m \<and>
     emu_handler id (\<lambda>h dev ctx m. Some (h = emu_intc_handler_fn \<and> dev = 0, m)) \<lparr>ec_address = 0x8000fff, ec_width = 4, ec_write = False,
       ec_sign_ext = False, ec_reg = 0, ec_reg_width = 4\<rparr> m = Some (True, m)"
proof -
  let ?e = "\<lparr>ee_emu_type = EmuDeviceTGicd, ee_vm_id = 0, ee_id = 0, ee_ipa = 0x8000000, ee_size = 0x1000, ee_handler = emu_intc_handler_fn\<rparr>"
  let ?m = "emu_example\<lparr>m_emu_devs := [?e]\<rparr>"
  have e: "m_emu_devs emu_example = []" by (simp add: emu_example_def machine_reset_def)
  then have r: "emu_register_dev EmuDeviceTGicd 0 0 0x8000000 0x1000 emu_intc_handler_fn emu_example = Some ?m"
    by (simp add: emu_register_dev_def EMU_DEV_NUM_MAX_def assert_that_def)
  have run: "emu_run emu_example ?m" by (rule emu_add[OF emu_start _ _ r]) simp_all
  have "active_vcpu ?m = Some 0" "vcpu_vm_id ?m 0 = Some 0"
    by (simp_all add: emu_example_def machine_reset_def vcpu_vm_id_def VmInner_new_def)
  note u = emu_handler_unique[of id ?m ?m, OF id_apply e run this]
  show ?thesis using r conjunct1[OF u, of "\<lparr>ec_address = 0x8000fff, ec_width = 4, ec_write = False, ec_sign_ext = False, ec_reg = 0, ec_reg_width = 4\<rparr>"]
    by (simp add: emu_span_def)
qed

end
