(* ===== verification/Virtq.thy ===== *)
theory Virtq
  imports GuestMem
begin

text \<open>
  Split virtqueues: \<open>src/src/device/virtio/queue.rs\<close>.

  A \<open>Virtq\<close> holds references into guest memory to the descriptor table and to the two rings.
  Here a reference is the address it was made from, and the rings are objects of the guest memory
  at their addresses (\<open>VringMem\<close>): the device and the guest driver both read and write them.
\<close>

section \<open>Rings in guest memory\<close>

record VringDesc =
  vd_addr :: usize
  vd_len :: u32
  vd_flags :: u16
  vd_next :: u16

record VringAvail =
  va_flags :: u16
  va_idx :: u16
  va_ring :: "u16 list"

record VringUsedElem =
  ue_id :: u32
  ue_len :: u32

record VringUsed =
  vu_flags :: u16
  vu_idx :: u16
  vu_ring :: "VringUsedElem list"

record VringMem =
  mem_desc :: "usize \<Rightarrow> VringDesc list"
  mem_avail :: "usize \<Rightarrow> VringAvail"
  mem_used :: "usize \<Rightarrow> VringUsed"

definition VIRTQ_READY :: usize where "VIRTQ_READY = 1"
definition VIRTQ_DESC_F_NEXT :: u16 where "VIRTQ_DESC_F_NEXT = 1"
definition VIRTQ_DESC_F_WRITE :: u16 where "VIRTQ_DESC_F_WRITE = 2"
definition VRING_USED_F_NO_NOTIFY :: u64 where "VRING_USED_F_NO_NOTIFY = 1"
definition DESC_QUEUE_SIZE :: usize where "DESC_QUEUE_SIZE = 512"

section \<open>The queue\<close>

datatype NotifyHandler =
    virtio_mediated_blk_notify_handler
  | virtio_blk_notify_handler
  | virtio_net_notify_handler
  | virtio_net_handle_ctrl
  | virtio_console_notify_handler

record Virtq =
  vq_ready :: usize
  vq_index :: usize
  vq_num :: usize
  vq_desc_table :: "usize option"
  vq_avail :: "usize option"
  vq_used :: "usize option"
  vq_last_avail_idx :: u16
  vq_last_used_idx :: u16
  vq_used_flags :: u16
  vq_desc_table_addr :: u64
  vq_avail_addr :: u64
  vq_used_addr :: u64
  vq_notify_handler :: "NotifyHandler option"

definition Virtq_default :: Virtq where
  "Virtq_default = \<lparr>vq_ready = 0, vq_index = 0, vq_num = 0, vq_desc_table = None, vq_avail = None, vq_used = None,
     vq_last_avail_idx = 0, vq_last_used_idx = 0, vq_used_flags = 0,
     vq_desc_table_addr = 0, vq_avail_addr = 0, vq_used_addr = 0, vq_notify_handler = None\<rparr>"

definition Virtq_reset :: "Virtq \<Rightarrow> usize \<Rightarrow> Virtq" where
  "Virtq_reset vq index = vq\<lparr>vq_ready := 0, vq_index := index, vq_num := 0, vq_last_avail_idx := 0,
     vq_last_used_idx := 0, vq_used_flags := 0, vq_desc_table_addr := 0, vq_avail_addr := 0, vq_used_addr := 0,
     vq_desc_table := None, vq_avail := None, vq_used := None\<rparr>"

definition pop_avail_desc_idx :: "VringMem \<Rightarrow> Virtq \<Rightarrow> u16 \<Rightarrow> (u16 option \<times> Virtq) option" where
  "pop_avail_desc_idx g vq avail_idx =
     (case vq_avail vq of
        Some a \<Rightarrow>
          if avail_idx = vq_last_avail_idx vq then Some (None, vq)
          else do {
            idx \<leftarrow> umod (unat (vq_last_avail_idx vq)) (vq_num vq);
            avail_desc_idx \<leftarrow> vec_get (va_ring (mem_avail g a)) idx;
            Some (Some avail_desc_idx, vq\<lparr>vq_last_avail_idx := vq_last_avail_idx vq + 1\<rparr>) }
      | None \<Rightarrow> Some (None, vq))"

definition put_back_avail_desc_idx :: "Virtq \<Rightarrow> Virtq option" where
  "put_back_avail_desc_idx vq =
     (case vq_avail vq of
        Some _ \<Rightarrow> do {
          assert_that (vq_last_avail_idx vq \<noteq> 0);
          Some (vq\<lparr>vq_last_avail_idx := vq_last_avail_idx vq - 1\<rparr>) }
      | None \<Rightarrow> Some vq)"

definition avail_is_avail :: "Virtq \<Rightarrow> bool" where
  "avail_is_avail vq = (vq_avail vq \<noteq> None)"

definition disable_notify :: "Virtq \<Rightarrow> Virtq" where
  "disable_notify vq =
     (if vq_used_flags vq AND ucast VRING_USED_F_NO_NOTIFY \<noteq> 0 then vq
      else vq\<lparr>vq_used_flags := vq_used_flags vq OR ucast VRING_USED_F_NO_NOTIFY\<rparr>)"

definition enable_notify :: "Virtq \<Rightarrow> Virtq" where
  "enable_notify vq =
     (if vq_used_flags vq AND ucast VRING_USED_F_NO_NOTIFY = 0 then vq
      else vq\<lparr>vq_used_flags := vq_used_flags vq AND ucast (NOT VRING_USED_F_NO_NOTIFY)\<rparr>)"

definition check_avail_idx :: "Virtq \<Rightarrow> u16 \<Rightarrow> bool" where
  "check_avail_idx vq avail_idx = (vq_last_avail_idx vq = avail_idx)"

text \<open>\<open>inner.desc_table.as_ref().unwrap()[idx]\<close>.\<close>

definition desc_at :: "VringMem \<Rightarrow> Virtq \<Rightarrow> usize \<Rightarrow> VringDesc option" where
  "desc_at g vq idx = do { a \<leftarrow> vq_desc_table vq; vec_get (mem_desc g a) idx }"

definition desc_is_writable :: "VringMem \<Rightarrow> Virtq \<Rightarrow> usize \<Rightarrow> bool option" where
  "desc_is_writable g vq idx = do { x \<leftarrow> desc_at g vq idx; Some (vd_flags x AND VIRTQ_DESC_F_WRITE \<noteq> 0) }"

definition desc_has_next :: "VringMem \<Rightarrow> Virtq \<Rightarrow> usize \<Rightarrow> bool option" where
  "desc_has_next g vq idx = do { x \<leftarrow> desc_at g vq idx; Some (vd_flags x AND VIRTQ_DESC_F_NEXT \<noteq> 0) }"

definition update_used_ring :: "VringMem \<Rightarrow> Virtq \<Rightarrow> u32 \<Rightarrow> u32 \<Rightarrow> (bool \<times> VringMem) option" where
  "update_used_ring g vq len desc_chain_head_idx =
     (case vq_used vq of
        Some a \<Rightarrow> do {
          let used = (mem_used g a)\<lparr>vu_flags := vq_used_flags vq\<rparr>;
          i \<leftarrow> umod (unat (vu_idx used)) (vq_num vq);
          e \<leftarrow> vec_get (vu_ring used) i;
          ring \<leftarrow> vec_set (vu_ring used) i (e\<lparr>ue_id := desc_chain_head_idx, ue_len := len\<rparr>);
          Some (True, g\<lparr>mem_used := (mem_used g)(a := used\<lparr>vu_ring := ring, vu_idx := vu_idx used + 1\<rparr>)\<rparr>) }
      | None \<Rightarrow> Some (False, g))"

definition set_notify_handler :: "Virtq \<Rightarrow> NotifyHandler \<Rightarrow> Virtq" where
  "set_notify_handler vq handler = vq\<lparr>vq_notify_handler := Some handler\<rparr>"

text \<open>\<open>run\<close> performs the handler on the rest of the system; \<open>active_vm().unwrap()\<close> belongs to it.\<close>

definition call_notify_handler :: "(NotifyHandler \<Rightarrow> 's \<Rightarrow> (bool \<times> 's) option) \<Rightarrow> Virtq \<Rightarrow> 's \<Rightarrow> (bool \<times> 's) option" where
  "call_notify_handler run vq s =
     (case vq_notify_handler vq of Some handler \<Rightarrow> run handler s | None \<Rightarrow> Some (False, s))"

definition set_last_used_idx :: "Virtq \<Rightarrow> u16 \<Rightarrow> Virtq" where
  "set_last_used_idx vq v = vq\<lparr>vq_last_used_idx := v\<rparr>"

definition set_num :: "Virtq \<Rightarrow> usize \<Rightarrow> Virtq" where "set_num vq v = vq\<lparr>vq_num := v\<rparr>"
definition set_ready :: "Virtq \<Rightarrow> usize \<Rightarrow> Virtq" where "set_ready vq v = vq\<lparr>vq_ready := v\<rparr>"

definition or_desc_table_addr :: "Virtq \<Rightarrow> u64 \<Rightarrow> Virtq" where
  "or_desc_table_addr vq addr = vq\<lparr>vq_desc_table_addr := vq_desc_table_addr vq OR addr\<rparr>"

definition or_avail_addr :: "Virtq \<Rightarrow> u64 \<Rightarrow> Virtq" where
  "or_avail_addr vq addr = vq\<lparr>vq_avail_addr := vq_avail_addr vq OR addr\<rparr>"

definition or_used_addr :: "Virtq \<Rightarrow> u64 \<Rightarrow> Virtq" where
  "or_used_addr vq addr = vq\<lparr>vq_used_addr := vq_used_addr vq OR addr\<rparr>"

text \<open>\<open>trace\<close> is the global debugging flag that \<open>trace()\<close> reads.\<close>

definition set_desc_table :: "bool \<Rightarrow> Virtq \<Rightarrow> usize \<Rightarrow> Virtq option" where
  "set_desc_table trace vq addr = do {
     assert_that (\<not> (trace \<and> addr < 0x1000));
     Some (vq\<lparr>vq_desc_table := Some addr\<rparr>) }"

definition set_avail :: "bool \<Rightarrow> Virtq \<Rightarrow> usize \<Rightarrow> Virtq option" where
  "set_avail trace vq addr = do {
     assert_that (\<not> (trace \<and> addr < 0x1000));
     Some (vq\<lparr>vq_avail := Some addr\<rparr>) }"

definition set_used :: "bool \<Rightarrow> Virtq \<Rightarrow> usize \<Rightarrow> Virtq option" where
  "set_used trace vq addr = do {
     assert_that (\<not> (trace \<and> addr < 0x1000));
     Some (vq\<lparr>vq_used := Some addr\<rparr>) }"

text \<open>\<open>desc_table\<close>, \<open>avail\<close> and \<open>used\<close>: the address of the ring, 0 when there is none.\<close>

definition desc_table :: "Virtq \<Rightarrow> usize" where
  "desc_table vq = (case vq_desc_table vq of None \<Rightarrow> 0 | Some a \<Rightarrow> a)"

definition avail :: "Virtq \<Rightarrow> usize" where
  "avail vq = (case vq_avail vq of None \<Rightarrow> 0 | Some a \<Rightarrow> a)"

definition used :: "Virtq \<Rightarrow> usize" where
  "used vq = (case vq_used vq of None \<Rightarrow> 0 | Some a \<Rightarrow> a)"

definition desc_addr :: "VringMem \<Rightarrow> Virtq \<Rightarrow> usize \<Rightarrow> usize option" where
  "desc_addr g vq idx = map_option vd_addr (desc_at g vq idx)"

definition desc_flags :: "VringMem \<Rightarrow> Virtq \<Rightarrow> usize \<Rightarrow> u16 option" where
  "desc_flags g vq idx = map_option vd_flags (desc_at g vq idx)"

definition desc_next :: "VringMem \<Rightarrow> Virtq \<Rightarrow> usize \<Rightarrow> u16 option" where
  "desc_next g vq idx = map_option vd_next (desc_at g vq idx)"

definition desc_len :: "VringMem \<Rightarrow> Virtq \<Rightarrow> usize \<Rightarrow> u32 option" where
  "desc_len g vq idx = map_option vd_len (desc_at g vq idx)"

definition avail_flags :: "VringMem \<Rightarrow> Virtq \<Rightarrow> u16 option" where
  "avail_flags g vq = map_option (\<lambda>a. va_flags (mem_avail g a)) (vq_avail vq)"

definition avail_idx :: "VringMem \<Rightarrow> Virtq \<Rightarrow> u16 option" where
  "avail_idx g vq = map_option (\<lambda>a. va_idx (mem_avail g a)) (vq_avail vq)"

definition used_idx :: "VringMem \<Rightarrow> Virtq \<Rightarrow> u16 option" where
  "used_idx g vq = map_option (\<lambda>a. vu_idx (mem_used g a)) (vq_used vq)"

section \<open>Migration and live update\<close>

record VirtqData =
  vqd_ready :: usize
  vqd_vq_index :: usize
  vqd_num :: usize
  vqd_last_avail_idx :: u16
  vqd_last_used_idx :: u16
  vqd_used_flags :: u16
  vqd_desc_table_ipa :: u64
  vqd_avail_ipa :: u64
  vqd_used_ipa :: u64

definition VirtqData_default :: VirtqData where
  "VirtqData_default = \<lparr>vqd_ready = 0, vqd_vq_index = 0, vqd_num = 0, vqd_last_avail_idx = 0,
     vqd_last_used_idx = 0, vqd_used_flags = 0, vqd_desc_table_ipa = 0, vqd_avail_ipa = 0, vqd_used_ipa = 0\<rparr>"

definition restore_vq_data :: "Virtq \<Rightarrow> VirtqData \<Rightarrow> VmPa list \<Rightarrow> Virtq option" where
  "restore_vq_data vq data pa_region = do {
     let vq = vq\<lparr>vq_ready := vqd_ready data, vq_index := vqd_vq_index data, vq_num := vqd_num data,
       vq_last_avail_idx := vqd_last_avail_idx data, vq_last_used_idx := vqd_last_used_idx data,
       vq_used_flags := vqd_used_flags data, vq_desc_table_addr := vqd_desc_table_ipa data,
       vq_avail_addr := vqd_avail_ipa data, vq_used_addr := vqd_used_ipa data\<rparr>;
     desc_table_addr \<leftarrow> ipa2pa pa_region (unat (vqd_desc_table_ipa data));
     avail_addr \<leftarrow> ipa2pa pa_region (unat (vqd_avail_ipa data));
     used_addr \<leftarrow> ipa2pa pa_region (unat (vqd_used_ipa data));
     let vq = (if desc_table_addr \<noteq> 0 then vq\<lparr>vq_desc_table := Some desc_table_addr\<rparr> else vq);
     let vq = (if avail_addr \<noteq> 0 then vq\<lparr>vq_avail := Some avail_addr\<rparr> else vq);
     Some (if used_addr \<noteq> 0 then vq\<lparr>vq_used := Some used_addr\<rparr> else vq) }"

definition save_vq_data :: "Virtq \<Rightarrow> VirtqData \<Rightarrow> VirtqData" where
  "save_vq_data vq data = data\<lparr>vqd_ready := vq_ready vq, vqd_vq_index := vq_index vq, vqd_num := vq_num vq,
     vqd_last_avail_idx := vq_last_avail_idx vq, vqd_last_used_idx := vq_last_used_idx vq,
     vqd_used_flags := vq_used_flags vq, vqd_desc_table_ipa := vq_desc_table_addr vq,
     vqd_avail_ipa := vq_avail_addr vq, vqd_used_ipa := vq_used_addr vq\<rparr>"

definition save_vq :: "Virtq \<Rightarrow> Virtq \<Rightarrow> NotifyHandler option \<Rightarrow> Virtq" where
  "save_vq dst src notify_handler = dst\<lparr>vq_ready := vq_ready src, vq_index := vq_index src, vq_num := vq_num src,
     vq_desc_table := vq_desc_table src, vq_avail := vq_avail src, vq_used := vq_used src,
     vq_last_avail_idx := vq_last_avail_idx src, vq_last_used_idx := vq_last_used_idx src,
     vq_used_flags := vq_used_flags src, vq_desc_table_addr := vq_desc_table_addr src,
     vq_avail_addr := vq_avail_addr src, vq_used_addr := vq_used_addr src, vq_notify_handler := notify_handler\<rparr>"

section \<open>The available ring as a queue\<close>

definition vring_ok :: "VringMem \<Rightarrow> bool" where
  "vring_ok g \<longleftrightarrow> (\<forall>a. length (mem_desc g a) = 512 \<and> length (va_ring (mem_avail g a)) = 512 \<and>
     length (vu_ring (mem_used g a)) = 512)"

text \<open>
  Abstractly the available ring is the list of heads that the driver has published and the device
  has not taken: the entries from \<open>last_avail_idx\<close> up to the driver's index, which counts modulo
  \<open>2 ^ 16\<close>.
\<close>

definition pending :: "VringMem \<Rightarrow> Virtq \<Rightarrow> u16 \<Rightarrow> u16 list" where
  "pending g vq idx = (case vq_avail vq of None \<Rightarrow> []
     | Some a \<Rightarrow> map (\<lambda>i. va_ring (mem_avail g a) ! (unat (vq_last_avail_idx vq + of_nat i) mod vq_num vq))
         [0..<unat (idx - vq_last_avail_idx vq)])"

definition vq_usable :: "Virtq \<Rightarrow> bool" where
  "vq_usable vq \<longleftrightarrow> 0 < vq_num vq \<and> vq_num vq \<le> 512"

lemma pending_step:
  assumes "vq_avail vq = Some a" and "idx \<noteq> vq_last_avail_idx vq"
  shows "pending g vq idx = va_ring (mem_avail g a) ! (unat (vq_last_avail_idx vq) mod vq_num vq) #
    pending g (vq\<lparr>vq_last_avail_idx := vq_last_avail_idx vq + 1\<rparr>) idx"
proof -
  let ?l = "vq_last_avail_idx vq"
  have ne: "idx - ?l \<noteq> 0" using assms(2) by simp
  have "unat (idx - ?l) = Suc (unat (idx - (?l + 1)))"
  proof -
    have eq: "idx - (?l + 1) = (idx - ?l) - 1" by (simp add: diff_diff_add)
    have "unat (idx - ?l) \<noteq> 0" using ne by (simp add: unat_eq_zero)
    then show ?thesis unfolding eq using unat_minus_one[OF ne] by simp
  qed
  then show ?thesis
    using assms(1) by (simp add: pending_def upt_rec[of 0] map_Suc_upt[symmetric] add.assoc del: upt_Suc)
qed

lemma pending_nil: "vq_avail vq = Some a \<Longrightarrow> pending g vq idx = [] \<longleftrightarrow> idx = vq_last_avail_idx vq"
  by (auto simp: pending_def unat_eq_zero)

text \<open>
  C9.  The device takes buffers in the order the driver published them.  For a usable queue,
  \<open>pop_avail_desc_idx\<close> never panics; it returns nothing exactly when nothing is pending, otherwise
  the oldest pending head, and what is pending afterwards is the rest, also when the 16-bit index
  wraps around.
\<close>
theorem pop_avail_refines_queue:
  assumes "vring_ok g" and "vq_usable vq" and "vq_avail vq = Some a"
  shows "\<exists>r vq'. pop_avail_desc_idx g vq idx = Some (r, vq') \<and>
    (case pending g vq idx of [] \<Rightarrow> r = None \<and> vq' = vq
     | d # ds \<Rightarrow> r = Some d \<and> pending g vq' idx = ds \<and> vq' = vq\<lparr>vq_last_avail_idx := vq_last_avail_idx vq + 1\<rparr>)"
proof (cases "idx = vq_last_avail_idx vq")
  case True
  then show ?thesis using assms(3) pending_nil[OF assms(3), of g idx] by (simp add: pop_avail_desc_idx_def)
next
  case False
  have "unat (vq_last_avail_idx vq) mod vq_num vq < 512"
    using assms(2) mod_less_divisor[of "vq_num vq"] unfolding vq_usable_def by (meson less_le_trans)
  then show ?thesis
    using False assms pending_step[OF assms(3) False, of g]
    by (simp add: pop_avail_desc_idx_def vring_ok_def vq_usable_def)
qed

definition vring_example :: VringMem where
  "vring_example = \<lparr>mem_desc = (\<lambda>_. replicate 512 \<lparr>vd_addr = 0, vd_len = 0, vd_flags = 0, vd_next = 0\<rparr>),
     mem_avail = (\<lambda>_. \<lparr>va_flags = 0, va_idx = 1, va_ring = map of_nat [0..<512]\<rparr>),
     mem_used = (\<lambda>_. \<lparr>vu_flags = 0, vu_idx = 0xFFFE, vu_ring = replicate 512 \<lparr>ue_id = 0, ue_len = 0\<rparr>\<rparr>)\<rparr>"

definition vq_example :: Virtq where
  "vq_example = Virtq_default\<lparr>vq_num := 8, vq_avail := Some 0x40000000, vq_used := Some 0x40001000,
     vq_last_avail_idx := 0xFFFF\<rparr>"

lemma vring_example_ok: "vring_ok vring_example" "vq_usable vq_example"
  by (simp_all add: vring_ok_def vring_example_def vq_usable_def vq_example_def)

theorem pop_avail_refines_queue_witness:
  "pending vring_example vq_example 1 = [7, 0] \<and>
   (\<exists>vq'. pop_avail_desc_idx vring_example vq_example 1 = Some (Some 7, vq') \<and> pending vring_example vq' 1 = [0])"
proof -
  have p: "pending vring_example vq_example 1 = [7, 0]"
    by (simp add: pending_def vring_example_def vq_example_def Virtq_default_def upt_rec)
  show ?thesis
    using pop_avail_refines_queue[OF vring_example_ok, of "0x40000000" 1] p by (auto simp: vq_example_def)
qed

text \<open>
  Putting a head back.  After a successful pop, \<open>put_back_avail_desc_idx\<close> restores the queue
  as it was, except when the pop wrapped the index to 0: there the plain decrement of the source
  overflows.
\<close>
theorem put_back_undoes_pop:
  assumes "pop_avail_desc_idx g vq idx = Some (Some d, vq')"
  shows "put_back_avail_desc_idx vq' = (if vq_last_avail_idx vq = 0xFFFF then None else Some vq)"
proof -
  from assms have av: "vq_avail vq \<noteq> None" and vq': "vq' = vq\<lparr>vq_last_avail_idx := vq_last_avail_idx vq + 1\<rparr>"
    by (auto simp: pop_avail_desc_idx_def panic_simps split: option.splits if_splits)
  have "vq_last_avail_idx vq + 1 = 0 \<longleftrightarrow> vq_last_avail_idx vq = 0xFFFF"
  proof -
    have "(- 1 :: u16) = 0xFFFF" by simp
    then show ?thesis using add_eq_0_iff2[of "vq_last_avail_idx vq" 1] by metis
  qed
  then show ?thesis using av by (auto simp: put_back_avail_desc_idx_def vq' assert_that_def)
qed

theorem put_back_undoes_pop_witness:
  "\<exists>vq'. pop_avail_desc_idx vring_example vq_example 1 = Some (Some 7, vq') \<and> put_back_avail_desc_idx vq' = None"
proof -
  have "\<exists>vq'. pop_avail_desc_idx vring_example vq_example 1 = Some (Some 7, vq')"
    by (simp add: pop_avail_desc_idx_def vq_example_def vring_example_def Virtq_default_def)
  then obtain vq' where "pop_avail_desc_idx vring_example vq_example 1 = Some (Some 7, vq')" by blast
  with put_back_undoes_pop[OF this] show ?thesis by (auto simp: vq_example_def)
qed

section \<open>The used ring\<close>

lemma ring_slot:
  assumes "num dvd 65536"
  shows "unat ((u :: u16) + of_nat i) mod num = (unat u + i) mod num"
proof -
  have "unat (u + of_nat i) = (unat u + i) mod 65536"
    by (simp add: unat_word_ariths(1) unat_of_nat take_bit_eq_mod mod_add_right_eq)
  then show ?thesis using assms by (simp add: mod_mod_cancel)
qed

lemma ring_slots_distinct:
  assumes "(x + i) mod num = (x + j) mod num" and "i < num" and "j < (num :: nat)"
  shows "i = j"
proof -
  have "\<bar>int i - int j\<bar> < int num" using assms(2,3) by linarith
  moreover have "int num dvd int i - int j"
    using assms(1) by (metis add_diff_cancel_left mod_eq_dvd_iff of_nat_add zmod_int)
  ultimately show ?thesis using zdvd_imp_le[of "int num" "\<bar>int i - int j\<bar>"] by (cases "i = j") auto
qed

text \<open>Reporting a list of completed chains, given as pairs of head index and written length.\<close>

fun report_used :: "VringMem \<Rightarrow> Virtq \<Rightarrow> (u32 \<times> u32) list \<Rightarrow> VringMem option" where
  "report_used g vq [] = Some g"
| "report_used g vq ((head, len) # xs) = do { (ok, g') \<leftarrow> update_used_ring g vq len head; assert_that ok; report_used g' vq xs }"

lemma used_elem_eta: "(e :: VringUsedElem)\<lparr>ue_id := i, ue_len := l\<rparr> = \<lparr>ue_id = i, ue_len = l\<rparr>"
  by (cases e) simp

lemma update_used_ring_Some:
  assumes "vring_ok g" and "vq_usable vq" and "vq_used vq = Some a"
  shows "\<exists>g'. update_used_ring g vq len head = Some (True, g') \<and> vring_ok g' \<and> mem_desc g' = mem_desc g \<and>
    mem_avail g' = mem_avail g \<and> vu_idx (mem_used g' a) = vu_idx (mem_used g a) + 1 \<and>
    vu_flags (mem_used g' a) = vq_used_flags vq \<and>
    vu_ring (mem_used g' a) = (vu_ring (mem_used g a))[unat (vu_idx (mem_used g a)) mod vq_num vq := \<lparr>ue_id = head, ue_len = len\<rparr>]"
proof -
  have "unat (vu_idx (mem_used g a)) mod vq_num vq < 512"
    using assms(2) mod_less_divisor[of "vq_num vq"] unfolding vq_usable_def by (meson less_le_trans)
  then show ?thesis using assms by (auto simp: update_used_ring_def vring_ok_def vq_usable_def Let_def used_elem_eta)
qed

text \<open>
  C10.  The used ring keeps what is reported.  For a queue whose size divides \<open>2 ^ 16\<close>, as the
  device specification requires, and at most \<open>num\<close> completions in a row, every report succeeds, each
  completion stands in its own slot, in order from the old index, and the index advances by their
  number, modulo \<open>2 ^ 16\<close>.
\<close>
theorem report_used_all_kept:
  assumes "vring_ok g" and "vq_usable vq" and "vq_used vq = Some a" and "vq_num vq dvd 65536" and "length xs \<le> vq_num vq"
  shows "\<exists>g'. report_used g vq xs = Some g' \<and> vu_idx (mem_used g' a) = vu_idx (mem_used g a) + of_nat (length xs) \<and>
    (\<forall>i < length xs. vu_ring (mem_used g' a) ! ((unat (vu_idx (mem_used g a)) + i) mod vq_num vq) =
       \<lparr>ue_id = fst (xs ! i), ue_len = snd (xs ! i)\<rparr>) \<and> mem_desc g' = mem_desc g \<and> mem_avail g' = mem_avail g"
proof -
  let ?n = "vq_num vq"
  have "\<exists>g'. report_used g vq xs = Some g' \<and> vu_idx (mem_used g' a) = vu_idx (mem_used g a) + of_nat (length xs) \<and>
    (\<forall>i < length xs. vu_ring (mem_used g' a) ! ((unat (vu_idx (mem_used g a)) + i) mod ?n) =
       \<lparr>ue_id = fst (xs ! i), ue_len = snd (xs ! i)\<rparr>) \<and>
    (\<forall>j < 512. (\<forall>i < length xs. j \<noteq> (unat (vu_idx (mem_used g a)) + i) mod ?n) \<longrightarrow>
       vu_ring (mem_used g' a) ! j = vu_ring (mem_used g a) ! j) \<and>
    mem_desc g' = mem_desc g \<and> mem_avail g' = mem_avail g"
    using assms(1,5)
  proof (induction xs arbitrary: g)
    case Nil
    then show ?case by simp
  next
    case (Cons x xs)
    obtain head len where x: "x = (head, len)" by (cases x)
    let ?u = "vu_idx (mem_used g a)"
    obtain g1 where g1: "update_used_ring g vq len head = Some (True, g1)" "vring_ok g1" "mem_desc g1 = mem_desc g"
      "mem_avail g1 = mem_avail g" "vu_idx (mem_used g1 a) = ?u + 1"
      "vu_ring (mem_used g1 a) = (vu_ring (mem_used g a))[unat ?u mod ?n := \<lparr>ue_id = head, ue_len = len\<rparr>]"
      using update_used_ring_Some[OF Cons.prems(1) assms(2,3)] by blast
    have sl: "(unat (vu_idx (mem_used g1 a)) + i) mod ?n = (unat ?u + Suc i) mod ?n" for i
      using ring_slot[OF assms(4), of ?u 1] by (metis g1(5) add.assoc mod_add_left_eq of_nat_1 plus_1_eq_Suc)
    obtain g' where g': "report_used g1 vq xs = Some g'" "vu_idx (mem_used g' a) = vu_idx (mem_used g1 a) + of_nat (length xs)"
      "\<forall>i < length xs. vu_ring (mem_used g' a) ! ((unat ?u + Suc i) mod ?n) = \<lparr>ue_id = fst (xs ! i), ue_len = snd (xs ! i)\<rparr>"
      "\<forall>j < 512. (\<forall>i < length xs. j \<noteq> (unat ?u + Suc i) mod ?n) \<longrightarrow> vu_ring (mem_used g' a) ! j = vu_ring (mem_used g1 a) ! j"
      "mem_desc g' = mem_desc g1" "mem_avail g' = mem_avail g1"
      using Cons.IH[OF g1(2)] Cons.prems(2) unfolding sl by auto
    have lt: "unat ?u mod ?n < 512" using assms(2) mod_less_divisor[of ?n] unfolding vq_usable_def by (meson less_le_trans)
    have first: "vu_ring (mem_used g' a) ! (unat ?u mod ?n) = \<lparr>ue_id = head, ue_len = len\<rparr>"
    proof -
      have "unat ?u mod ?n \<noteq> (unat ?u + Suc i) mod ?n" if "i < length xs" for i
        using ring_slots_distinct[of "unat ?u" 0 ?n "Suc i"] that Cons.prems(2) assms(2) by (auto simp: vq_usable_def)
      then have "vu_ring (mem_used g' a) ! (unat ?u mod ?n) = vu_ring (mem_used g1 a) ! (unat ?u mod ?n)" using g'(4) lt by blast
      then show ?thesis using g1(6) lt Cons.prems(1) by (simp add: vring_ok_def)
    qed
    have "vu_ring (mem_used g' a) ! ((unat ?u + i) mod ?n) = \<lparr>ue_id = fst ((x # xs) ! i), ue_len = snd ((x # xs) ! i)\<rparr>"
      if "i < length (x # xs)" for i
      using that first g'(3) x by (cases i) auto
    moreover have "vu_ring (mem_used g' a) ! j = vu_ring (mem_used g a) ! j"
      if "j < 512" "\<forall>i < length (x # xs). j \<noteq> (unat ?u + i) mod ?n" for j
    proof -
      have "j \<noteq> unat ?u mod ?n" "\<forall>i < length xs. j \<noteq> (unat ?u + Suc i) mod ?n" using that(2) by force+
      then show ?thesis using g'(4) that(1) g1(6) by simp
    qed
    ultimately show ?case using g1(1,3,4,5) g'(1,2,5,6) x by (intro exI[of _ g']) (simp add: add.assoc)
  qed
  then show ?thesis by blast
qed

theorem report_used_all_kept_witness:
  "\<exists>g'. report_used vring_example vq_example [(3, 100), (5, 200), (1, 50)] = Some g' \<and> vu_idx (mem_used g' 0x40001000) = 1"
proof -
  have "vq_used vq_example = Some 0x40001000" "vq_num vq_example = 8" by (simp_all add: vq_example_def)
  moreover have "(8::nat) dvd 65536" by simp
  ultimately show ?thesis
    using report_used_all_kept[OF vring_example_ok, of "0x40001000" "[(3, 100), (5, 200), (1, 50)]"]
    by (auto simp: vring_example_def)
qed

section \<open>Migration\<close>

text \<open>The ring references of a queue come from its guest addresses.\<close>

definition refs_from_ipa :: "VmPa list \<Rightarrow> Virtq \<Rightarrow> bool" where
  "refs_from_ipa rs vq \<longleftrightarrow> (\<exists>x y z. x \<noteq> 0 \<and> y \<noteq> 0 \<and> z \<noteq> 0 \<and>
     ipa2pa rs (unat (vq_desc_table_addr vq)) = Some x \<and> vq_desc_table vq = Some x \<and>
     ipa2pa rs (unat (vq_avail_addr vq)) = Some y \<and> vq_avail vq = Some y \<and>
     ipa2pa rs (unat (vq_used_addr vq)) = Some z \<and> vq_used vq = Some z)"

text \<open>
  Migration of a queue.  Restoring saved queue data into any queue of the target gives back
  the saved queue, rings included, when the target translates the ring addresses to the same
  physical addresses; only the notification handler is the target's.
\<close>
theorem save_restore_vq_data:
  assumes "refs_from_ipa rs vq"
  shows "restore_vq_data vq' (save_vq_data vq data) rs = Some (vq\<lparr>vq_notify_handler := vq_notify_handler vq'\<rparr>)"
proof -
  from assms obtain x y z where "x \<noteq> 0" "y \<noteq> 0" "z \<noteq> 0" "ipa2pa rs (unat (vq_desc_table_addr vq)) = Some x"
    "vq_desc_table vq = Some x" "ipa2pa rs (unat (vq_avail_addr vq)) = Some y" "vq_avail vq = Some y"
    "ipa2pa rs (unat (vq_used_addr vq)) = Some z" "vq_used vq = Some z"
    unfolding refs_from_ipa_def by blast
  then show ?thesis by (cases vq) (simp add: restore_vq_data_def save_vq_data_def)
qed

theorem save_restore_vq_data_witness:
  "restore_vq_data Virtq_default (save_vq_data (vq_example\<lparr>vq_desc_table_addr := 0x40000000, vq_avail_addr := 0x40001000,
     vq_used_addr := 0x40002000, vq_desc_table := Some 0x50000000, vq_avail := Some 0x50001000, vq_used := Some 0x50002000\<rparr>) VirtqData_default)
     guest_regions =
   Some (vq_example\<lparr>vq_desc_table_addr := 0x40000000, vq_avail_addr := 0x40001000, vq_used_addr := 0x40002000,
     vq_desc_table := Some 0x50000000, vq_avail := Some 0x50001000, vq_used := Some 0x50002000\<rparr>)"
proof -
  let ?vq = "vq_example\<lparr>vq_desc_table_addr := 0x40000000, vq_avail_addr := 0x40001000,
     vq_used_addr := 0x40002000, vq_desc_table := Some 0x50000000, vq_avail := Some 0x50001000, vq_used := Some 0x50002000\<rparr>"
  have "refs_from_ipa guest_regions ?vq"
    by (simp add: refs_from_ipa_def guest_regions_def ipa2pa_def isub_def as_isize_def as_usize_def in_range_def range_in_range_def)
  from save_restore_vq_data[OF this, of Virtq_default VirtqData_default] show ?thesis
    by (simp add: vq_example_def Virtq_default_def)
qed

end
