(* ===== verification/FairQueue.thy ===== *)
theory FairQueue
  imports Prelude "HOL-Library.AList"
begin

text \<open>
  \<open>FairQueue\<close> of \<open>src/src/kernel/async_task.rs\<close>: a queue of tasks that serves the guests in turn.
  Each owner has a FIFO of its own, and \<open>queue\<close> holds the owners in the order they are served.  The
  \<open>BTreeMap\<close> is an association list with distinct keys; \<open>owner\<close> is the method of the trait
  \<open>TaskOwner\<close>.
\<close>

section \<open>The queue\<close>

record 'a FairQueue =
  fq_len :: usize
  fq_map :: "(usize \<times> 'a list) list"
  fq_queue :: "usize list"

definition FairQueue_new :: "'a FairQueue" where
  "FairQueue_new = \<lparr>fq_len = 0, fq_map = [], fq_queue = []\<rparr>"

definition fq_is_empty :: "'a FairQueue \<Rightarrow> bool" where
  "fq_is_empty q \<longleftrightarrow> fq_map q = []"

definition fq_push_back :: "('a \<Rightarrow> usize) \<Rightarrow> 'a \<Rightarrow> 'a FairQueue \<Rightarrow> 'a FairQueue option" where
  "fq_push_back owner t q = do {
     let key = owner t;
     let q = (case map_of (fq_map q) key of
         Some sub_queue \<Rightarrow> q\<lparr>fq_map := AList.update key (sub_queue @ [t]) (fq_map q)\<rparr>
       | None \<Rightarrow> q\<lparr>fq_map := AList.update key [t] (fq_map q), fq_queue := fq_queue q @ [key]\<rparr>);
     n \<leftarrow> uadd (fq_len q) 1;
     Some (q\<lparr>fq_len := n\<rparr>) }"

text \<open>\<open>LinkedList::pop_front\<close> and \<open>front\<close>.\<close>

definition list_front :: "'a list \<Rightarrow> 'a option" where
  "list_front xs = (case xs of [] \<Rightarrow> None | x # _ \<Rightarrow> Some x)"

definition fq_pop_front :: "'a FairQueue \<Rightarrow> ('a option \<times> 'a FairQueue) option" where
  "fq_pop_front q = (case fq_queue q of
     [] \<Rightarrow> None
   | own # rest \<Rightarrow> (case map_of (fq_map q) own of
       Some sub_queue \<Rightarrow> do {
         let q = (if tl sub_queue \<noteq> [] then q\<lparr>fq_map := AList.update own (tl sub_queue) (fq_map q), fq_queue := rest @ [own]\<rparr>
                  else q\<lparr>fq_map := AList.delete own (fq_map q), fq_queue := rest\<rparr>);
         n \<leftarrow> usub (fq_len q) 1;
         Some (list_front sub_queue, q\<lparr>fq_len := n\<rparr>) }
     | None \<Rightarrow> None))"

definition fq_front :: "'a FairQueue \<Rightarrow> 'a option option" where
  "fq_front q = (case fq_queue q of
     [] \<Rightarrow> None
   | own # rest \<Rightarrow> (case map_of (fq_map q) own of
       Some sub_queue \<Rightarrow> Some (list_front sub_queue)
     | None \<Rightarrow> None))"

text \<open>\<open>drain_filter(p).collect()\<close> yields the elements that satisfy \<open>p\<close>.\<close>

definition fq_remove :: "usize \<Rightarrow> 'a FairQueue \<Rightarrow> 'a FairQueue option" where
  "fq_remove own q = (case map_of (fq_map q) own of
     Some sub_queue \<Rightarrow> do {
       n \<leftarrow> usub (fq_len q) (length sub_queue);
       Some (q\<lparr>fq_map := AList.delete own (fq_map q), fq_len := n, fq_queue := filter (\<lambda>x. x = own) (fq_queue q)\<rparr>) }
   | None \<Rightarrow> Some q)"

section \<open>The invariant\<close>

definition fq_tasks :: "'a FairQueue \<Rightarrow> usize \<Rightarrow> 'a list" where
  "fq_tasks q own = (case map_of (fq_map q) own of Some ts \<Rightarrow> ts | None \<Rightarrow> [])"

definition fq_ok :: "('a \<Rightarrow> usize) \<Rightarrow> 'a FairQueue \<Rightarrow> bool" where
  "fq_ok owner q \<longleftrightarrow> distinct (fq_queue q) \<and> distinct (map fst (fq_map q)) \<and>
     set (fq_queue q) = fst ` set (fq_map q) \<and>
     (\<forall>(own, ts) \<in> set (fq_map q). ts \<noteq> [] \<and> (\<forall>t \<in> set ts. owner t = own)) \<and>
     fq_len q = sum_list (map (length \<circ> snd) (fq_map q))"

lemma fq_ok_new [simp]: "fq_ok owner FairQueue_new"
  by (simp add: fq_ok_def FairQueue_new_def)

lemma tasks_in:
  assumes "fq_ok owner q" "own \<in> set (fq_queue q)"
  obtains ts where "map_of (fq_map q) own = Some ts" "ts \<noteq> []" "\<forall>t \<in> set ts. owner t = own" "length ts \<le> fq_len q"
proof -
  from assms have "own \<in> fst ` set (fq_map q)" by (simp add: fq_ok_def)
  then obtain ts where ts: "map_of (fq_map q) own = Some ts"
    by (metis map_of_eq_None_iff not_None_eq)
  then have mem: "(own, ts) \<in> set (fq_map q)" by (rule map_of_SomeD)
  have "length ts \<in> set (map (length \<circ> snd) (fq_map q))" using mem by force
  then have "length ts \<le> fq_len q" using assms(1) member_le_sum_list[of "length ts"] by (simp add: fq_ok_def)
  with ts mem assms(1) that show ?thesis by (auto simp: fq_ok_def)
qed

lemma tasks_out: "fq_ok owner q \<Longrightarrow> own \<notin> set (fq_queue q) \<Longrightarrow> map_of (fq_map q) own = None"
  by (simp add: fq_ok_def map_of_eq_None_iff)

lemma sum_update:
  "distinct (map fst m) \<Longrightarrow> map_of m k = Some ts \<Longrightarrow>
    sum_list (map (length \<circ> snd) (AList.update k us m)) + length ts = sum_list (map (length \<circ> snd) m) + length us"
  by (induction m) (auto split: if_splits)

lemma sum_update_new:
  "map_of m k = None \<Longrightarrow> sum_list (map (length \<circ> snd) (AList.update k us m)) = sum_list (map (length \<circ> snd) m) + length us"
  by (induction m) (auto split: if_splits)

lemma set_delete_eq: "set (AList.delete k m) = {x \<in> set m. fst x \<noteq> k}"
  by (auto simp: AList.delete_eq)

lemma sum_delete:
  "distinct (map fst m) \<Longrightarrow> map_of m k = Some ts \<Longrightarrow>
    sum_list (map (length \<circ> snd) (AList.delete k m)) + length ts = sum_list (map (length \<circ> snd) m)"
proof (induction m)
  case (Cons a m)
  show ?case
  proof (cases "k = fst a")
    case True
    with Cons.prems have "AList.delete k m = m" by (auto simp: AList.delete_eq filter_id_conv image_iff)
    with True Cons.prems show ?thesis by (auto simp: AList.delete_eq)
  next
    case False
    with Cons show ?thesis by (auto simp: AList.delete_eq)
  qed
qed simp

lemma set_update_distinct:
  "distinct (map fst m) \<Longrightarrow> set (AList.update k us m) = insert (k, us) {x \<in> set m. fst x \<noteq> k}"
  by (induction m) (auto simp: image_iff)

lemma fq_ok_update:
  assumes "fq_ok owner q" "map_of (fq_map q) own = Some us" "ts \<noteq> []" "\<forall>t \<in> set ts. owner t = own"
    "distinct qs" "set qs = set (fq_queue q)" "n + length us = fq_len q + length ts"
  shows "fq_ok owner (q\<lparr>fq_map := AList.update own ts (fq_map q), fq_queue := qs, fq_len := n\<rparr>)"
proof -
  have d: "distinct (map fst (fq_map q))" using assms(1) by (simp add: fq_ok_def)
  have "own \<in> fst ` set (fq_map q)" using map_of_SomeD[OF assms(2)] by force
  then have "fst ` set (AList.update own ts (fq_map q)) = fst ` set (fq_map q)" by (auto simp: dom_update)
  moreover have "\<forall>(p, us) \<in> set (AList.update own ts (fq_map q)). us \<noteq> [] \<and> (\<forall>t \<in> set us. owner t = p)"
    using assms(1,3,4) by (auto simp: fq_ok_def set_update_distinct[OF d])
  moreover have "n = sum_list (map (length \<circ> snd) (AList.update own ts (fq_map q)))"
    using sum_update[OF d assms(2), of ts] assms(1,7) by (simp add: fq_ok_def)
  ultimately show ?thesis using assms(1,5,6) AList.distinct_update[OF d] by (simp add: fq_ok_def)
qed

lemma fq_push_back_spec:
  assumes "fq_ok owner q" "fq_push_back owner t q = Some q'"
  shows "fq_ok owner q'" "fq_tasks q' = (fq_tasks q)(owner t := fq_tasks q (owner t) @ [t])"
    "fq_queue q' = (if owner t \<in> set (fq_queue q) then fq_queue q else fq_queue q @ [owner t])"
    "fq_len q' = fq_len q + 1"
proof -
  let ?k = "owner t"
  have d: "distinct (map fst (fq_map q))" using assms(1) by (simp add: fq_ok_def)
  have all: "fq_ok owner q' \<and> fq_tasks q' = (fq_tasks q)(?k := fq_tasks q ?k @ [t]) \<and>
      fq_queue q' = (if ?k \<in> set (fq_queue q) then fq_queue q else fq_queue q @ [?k]) \<and> fq_len q' = fq_len q + 1"
  proof (cases "?k \<in> set (fq_queue q)")
    case True
    then obtain ts where ts: "map_of (fq_map q) ?k = Some ts" "ts \<noteq> []" "\<forall>t \<in> set ts. owner t = ?k"
      using tasks_in[OF assms(1)] by metis
    with assms(2) have q': "q' = q\<lparr>fq_map := AList.update ?k (ts @ [t]) (fq_map q), fq_len := fq_len q + 1\<rparr>"
      by (simp add: fq_push_back_def Let_def panic_simps)
    have "fq_ok owner q'" unfolding q'
      using fq_ok_update[OF assms(1) ts(1), of "ts @ [t]" "fq_queue q" "fq_len q + 1"] ts(3) assms(1) by (simp add: fq_ok_def)
    moreover have "fq_tasks q' = (fq_tasks q)(?k := fq_tasks q ?k @ [t])" using ts by (auto simp: fq_tasks_def q' update_conv' fun_eq_iff)
    ultimately show ?thesis using True by (simp add: q')
  next
    case False
    then have n: "map_of (fq_map q) ?k = None" using tasks_out[OF assms(1)] by simp
    with assms(2) have q': "q' = q\<lparr>fq_map := AList.update ?k [t] (fq_map q), fq_queue := fq_queue q @ [?k], fq_len := fq_len q + 1\<rparr>"
      by (simp add: fq_push_back_def Let_def panic_simps)
    have "fq_ok owner q'" using assms(1) sum_update_new[OF n, of "[t]"] False
      by (auto simp: fq_ok_def q' set_update_distinct[OF d] AList.distinct_update dom_update image_iff)
    moreover have "fq_tasks q' = (fq_tasks q)(?k := fq_tasks q ?k @ [t])" using n by (auto simp: fq_tasks_def q' update_conv' fun_eq_iff)
    ultimately show ?thesis using False by (simp add: q')
  qed
  then show "fq_ok owner q'" "fq_tasks q' = (fq_tasks q)(?k := fq_tasks q ?k @ [t])"
    "fq_queue q' = (if ?k \<in> set (fq_queue q) then fq_queue q else fq_queue q @ [?k])" "fq_len q' = fq_len q + 1" by blast+
qed

lemma fq_push_back_total: "fq_len q + 1 < usize_bound \<Longrightarrow> \<exists>q'. fq_push_back owner t q = Some q'"
  by (auto simp: fq_push_back_def Let_def split: option.splits)

lemma fq_pop_front_spec:
  assumes "fq_ok owner q" "fq_queue q = own # rest"
  obtains t ts q' where "fq_tasks q own = t # ts" "owner t = own" "fq_pop_front q = Some (Some t, q')" "fq_ok owner q'"
    "fq_tasks q' = (fq_tasks q)(own := ts)" "fq_queue q' = (if ts = [] then rest else rest @ [own])" "fq_len q = Suc (fq_len q')"
proof -
  have d: "distinct (map fst (fq_map q))" using assms(1) by (simp add: fq_ok_def)
  obtain us where us: "map_of (fq_map q) own = Some us" "us \<noteq> []" "\<forall>t \<in> set us. owner t = own" "length us \<le> fq_len q"
    using tasks_in[OF assms(1), of own] assms(2) by auto
  then obtain t ts where tt: "us = t # ts" by (cases us) auto
  have len: "1 \<le> fq_len q" using us(4) tt by simp
  show ?thesis
  proof (cases "ts = []")
    case True
    let ?q = "q\<lparr>fq_map := AList.delete own (fq_map q), fq_queue := rest, fq_len := fq_len q - 1\<rparr>"
    have p: "fq_pop_front q = Some (Some t, ?q)" using us tt True assms(2) len by (simp add: fq_pop_front_def list_front_def)
    have ok: "fq_ok owner ?q" using assms sum_delete[OF d us(1)] True tt len
      by (auto simp: fq_ok_def AList.distinct_delete set_delete_eq image_iff)
    show ?thesis by (rule that[OF _ _ p ok]) (use us tt True len in \<open>auto simp: fq_tasks_def AList.delete_conv' fun_eq_iff\<close>)
  next
    case False
    let ?q = "q\<lparr>fq_map := AList.update own ts (fq_map q), fq_queue := rest @ [own], fq_len := fq_len q - 1\<rparr>"
    have p: "fq_pop_front q = Some (Some t, ?q)" using us tt False assms(2) len by (simp add: fq_pop_front_def list_front_def)
    have "own \<notin> set rest" using assms by (auto simp: fq_ok_def)
    then have "distinct (rest @ [own])" "set (rest @ [own]) = set (fq_queue q)" using assms by (auto simp: fq_ok_def)
    from fq_ok_update[OF assms(1) us(1) False _ this, of "fq_len q - 1"] us(3) tt len have ok: "fq_ok owner ?q" by simp
    show ?thesis by (rule that[OF _ _ p ok]) (use us tt False len in \<open>auto simp: fq_tasks_def update_conv' fun_eq_iff\<close>)
  qed
qed

section \<open>Queues of tasks\<close>

text \<open>\<open>LinkedList\<close>, the plain queue of the tasks that ask the service guest.\<close>

definition list_push_back :: "'a \<Rightarrow> 'a list \<Rightarrow> 'a list option" where
  "list_push_back t ts = Some (ts @ [t])"

definition list_pop_front :: "'a list \<Rightarrow> ('a option \<times> 'a list) option" where
  "list_pop_front ts = Some (list_front ts, tl ts)"

text \<open>A run of a queue: the tasks it handed out, in order.\<close>

datatype 'a QueueOp = PushTask 'a | PopTask

primrec run_queue :: "('a \<Rightarrow> 'q \<Rightarrow> 'q option) \<Rightarrow> ('q \<Rightarrow> ('a option \<times> 'q) option) \<Rightarrow> 'a QueueOp list \<Rightarrow> 'q \<Rightarrow> ('a list \<times> 'q) option" where
  "run_queue push pop [] q = Some ([], q)"
| "run_queue push pop (x # xs) q = (case x of
     PushTask t \<Rightarrow> do { q \<leftarrow> push t q; run_queue push pop xs q }
   | PopTask \<Rightarrow> do { (r, q) \<leftarrow> pop q; t \<leftarrow> r; (outs, q) \<leftarrow> run_queue push pop xs q; Some (t # outs, q) })"

fun pushed :: "'a QueueOp list \<Rightarrow> 'a list" where
  "pushed [] = []"
| "pushed (PushTask t # xs) = t # pushed xs"
| "pushed (PopTask # xs) = pushed xs"

fun pops :: "'a QueueOp list \<Rightarrow> nat" where
  "pops [] = 0"
| "pops (PushTask t # xs) = pops xs"
| "pops (PopTask # xs) = Suc (pops xs)"

abbreviation of_owner :: "('a \<Rightarrow> usize) \<Rightarrow> usize \<Rightarrow> 'a list \<Rightarrow> 'a list" where
  "of_owner owner own \<equiv> filter (\<lambda>t. owner t = own)"

text \<open>What the executor relies on: the tasks of one guest come out in the order they went in.\<close>

locale task_queue =
  fixes owner :: "'a \<Rightarrow> usize"
    and push :: "'a \<Rightarrow> 'q \<Rightarrow> 'q option"
    and pop :: "'q \<Rightarrow> ('a option \<times> 'q) option"
    and ok :: "'q \<Rightarrow> bool"
    and tasks :: "'q \<Rightarrow> usize \<Rightarrow> 'a list"
  assumes push_law: "ok q \<Longrightarrow> push t q = Some q' \<Longrightarrow>
      ok q' \<and> (\<forall>own. tasks q' own = tasks q own @ of_owner owner own [t])"
    and pop_law: "ok q \<Longrightarrow> pop q = Some (Some t, q') \<Longrightarrow>
      ok q' \<and> (\<forall>own. tasks q own = of_owner owner own [t] @ tasks q' own)"
begin

lemma run_fifo:
  "run_queue push pop xs q = Some (outs, q') \<Longrightarrow> ok q \<Longrightarrow>
    ok q' \<and> of_owner owner own outs @ tasks q' own = tasks q own @ of_owner owner own (pushed xs)"
proof (induction xs arbitrary: q outs)
  case (Cons x xs)
  show ?case
  proof (cases x)
    case (PushTask t)
    then obtain p where p: "push t q = Some p" "run_queue push pop xs p = Some (outs, q')"
      using Cons.prems by (auto simp: panic_simps)
    note l = push_law[OF Cons.prems(2) p(1)]
    with Cons.IH[OF p(2)] PushTask show ?thesis by auto
  next
    case PopTask
    then obtain t p rest where p: "pop q = Some (Some t, p)" "run_queue push pop xs p = Some (rest, q')" "outs = t # rest"
      using Cons.prems by (auto simp: panic_simps)
    note l = pop_law[OF Cons.prems(2) p(1)]
    with Cons.IH[OF p(2)] PopTask p(3) show ?thesis by auto
  qed
qed simp

end

text \<open>A queue that also serves the owners in turn.\<close>

locale fair_queue = task_queue +
  fixes turn :: "'b \<Rightarrow> usize list"
  assumes push_turn: "ok q \<Longrightarrow> push t q = Some q' \<Longrightarrow> \<exists>later. turn q' = turn q @ later"
    and pop_turn: "ok q \<Longrightarrow> pop q = Some (Some t, q') \<Longrightarrow> \<exists>rest later. turn q = owner t # rest \<and> turn q' = rest @ later"
begin

lemma run_turn:
  "run_queue push pop xs q = Some (outs, q') \<Longrightarrow> ok q \<Longrightarrow> k < length (turn q) \<Longrightarrow> k < length outs \<Longrightarrow>
    owner (outs ! k) = turn q ! k"
proof (induction xs arbitrary: q outs k)
  case (Cons x xs)
  show ?case
  proof (cases x)
    case (PushTask t)
    then obtain p where p: "push t q = Some p" "run_queue push pop xs p = Some (outs, q')"
      using Cons.prems by (auto simp: panic_simps)
    from push_turn[OF Cons.prems(2) p(1)] obtain later where "turn p = turn q @ later" by blast
    with Cons.IH[OF p(2), of k] push_law[OF Cons.prems(2) p(1)] Cons.prems show ?thesis by (simp add: nth_append)
  next
    case PopTask
    then obtain t p rest where p: "pop q = Some (Some t, p)" "run_queue push pop xs p = Some (rest, q')" "outs = t # rest"
      using Cons.prems by (auto simp: panic_simps)
    from pop_turn[OF Cons.prems(2) p(1)] obtain r later where t: "turn q = owner t # r" "turn p = r @ later" by blast
    show ?thesis
    proof (cases k)
      case (Suc j)
      with Cons.IH[OF p(2), of j] pop_law[OF Cons.prems(2) p(1)] Cons.prems t p(3) show ?thesis by (simp add: nth_append)
    qed (simp add: t p(3))
  qed
qed simp

lemma run_first_served:
  assumes run: "run_queue push pop xs q = Some (outs, q')" and ok: "ok q" and dist: "distinct (turn q)"
    and k: "k < length (turn q)" "k < length outs" and ne: "tasks q (turn q ! k) \<noteq> []"
  shows "outs ! k = hd (tasks q (turn q ! k))"
proof -
  let ?o = "turn q ! k"
  have own: "owner (outs ! j) = turn q ! j" if "j \<le> k" for j
    using run_turn[OF run ok, of j] that k by simp
  have "of_owner owner ?o (take k outs) = []"
    using own dist k by (auto simp: filter_empty_conv in_set_conv_nth nth_eq_iff_index_eq)
  moreover have "outs = take k outs @ outs ! k # drop (Suc k) outs" using k(2) by (rule id_take_nth_drop)
  ultimately have "of_owner owner ?o outs = outs ! k # of_owner owner ?o (drop (Suc k) outs)"
    using own[of k] by (metis (mono_tags, lifting) append_Nil filter.simps(2) filter_append le_refl)
  with run_fifo[OF run ok, of ?o] ne show ?thesis by (cases "tasks q ?o") auto
qed

end

interpretation list_queue: task_queue owner list_push_back list_pop_front "\<lambda>_. True" "\<lambda>ts own. of_owner owner own ts" for owner
  by unfold_locales (auto simp: list_push_back_def list_pop_front_def list_front_def split: list.splits)

interpretation fq: fair_queue owner "fq_push_back owner" fq_pop_front "fq_ok owner" fq_tasks fq_queue for owner
proof unfold_locales
  fix q q' :: "'a FairQueue" and t
  assume ok: "fq_ok owner q" and push: "fq_push_back owner t q = Some q'"
  note s = fq_push_back_spec[OF ok push]
  show "fq_ok owner q' \<and> (\<forall>own. fq_tasks q' own = fq_tasks q own @ of_owner owner own [t])" using s(1,2) by auto
  show "\<exists>later. fq_queue q' = fq_queue q @ later" using s(3) by auto
next
  fix q q' :: "'a FairQueue" and t
  assume ok: "fq_ok owner q" and pop: "fq_pop_front q = Some (Some t, q')"
  from pop obtain own rest where r: "fq_queue q = own # rest" by (auto simp: fq_pop_front_def split: list.splits)
  from fq_pop_front_spec[OF ok r] obtain t2 ts q2 where s: "fq_tasks q own = t2 # ts" "owner t2 = own"
    "fq_pop_front q = Some (Some t2, q2)" "fq_ok owner q2" "fq_tasks q2 = (fq_tasks q)(own := ts)"
    "fq_queue q2 = (if ts = [] then rest else rest @ [own])" by metis
  with pop have e: "t2 = t" "q2 = q'" by simp_all
  show "fq_ok owner q' \<and> (\<forall>own. fq_tasks q own = of_owner owner own [t] @ fq_tasks q' own)" using s unfolding e by auto
  show "\<exists>rest later. fq_queue q = owner t # rest \<and> fq_queue q' = rest @ later" using s r unfolding e by auto
qed

lemma fq_run_total:
  "fq_ok owner q \<Longrightarrow> pops xs \<le> fq_len q \<Longrightarrow> fq_len q + length (pushed xs) < usize_bound \<Longrightarrow>
    \<exists>outs q'. run_queue (fq_push_back owner) fq_pop_front xs q = Some (outs, q') \<and> length outs = pops xs"
proof (induction xs arbitrary: q)
  case (Cons x xs)
  show ?case
  proof (cases x)
    case (PushTask t)
    then obtain p where p: "fq_push_back owner t q = Some p" using fq_push_back_total[of q] Cons.prems by auto
    note s = fq_push_back_spec[OF Cons.prems(1) p]
    from Cons.IH[OF s(1)] s(4) Cons.prems PushTask p show ?thesis by simp
  next
    case PopTask
    then have "fq_len q \<noteq> 0" using Cons.prems by simp
    then obtain own rest where r: "fq_queue q = own # rest"
      using Cons.prems(1) by (cases "fq_queue q") (auto simp: fq_ok_def)
    from fq_pop_front_spec[OF Cons.prems(1) r] obtain t q2 where
      "fq_pop_front q = Some (Some t, q2)" "fq_ok owner q2" "fq_len q = Suc (fq_len q2)" by metis
    with Cons.IH[of q2] Cons.prems PopTask show ?thesis by auto
  qed
qed simp

text \<open>
  C20. Tasks of one guest leave the fair queue in the order they entered it, whatever is pushed and
  popped in between: what came out for the guest, followed by what is still queued for it, is what
  was queued at first followed by what was pushed.
\<close>

theorem fq_fifo:
  assumes "fq_ok owner q" "run_queue (fq_push_back owner) fq_pop_front xs q = Some (outs, q')"
  shows "of_owner owner own outs @ fq_tasks q' own = fq_tasks q own @ of_owner owner own (pushed xs)"
  using fq.run_fifo[OF assms(2,1)] by blast

text \<open>
  No guest starves: the guest at place \<open>k\<close> of the queue gets its oldest task served by the pop
  number \<open>k + 1\<close>, however many tasks the other guests push meanwhile.  The run itself never
  panics.
\<close>

theorem fq_bounded_wait:
  assumes "fq_ok owner q" "k < length (fq_queue q)" "k < pops xs" "pops xs \<le> fq_len q" "fq_len q + length (pushed xs) < usize_bound"
  shows "\<exists>outs q'. run_queue (fq_push_back owner) fq_pop_front xs q = Some (outs, q') \<and>
    outs ! k = hd (fq_tasks q (fq_queue q ! k)) \<and> owner (outs ! k) = fq_queue q ! k"
proof -
  from fq_run_total[OF assms(1,4,5)] obtain outs q' where
    run: "run_queue (fq_push_back owner) fq_pop_front xs q = Some (outs, q')" "length outs = pops xs" by blast
  have d: "distinct (fq_queue q)" using assms(1) by (simp add: fq_ok_def)
  obtain ts where "map_of (fq_map q) (fq_queue q ! k) = Some ts" "ts \<noteq> []"
    by (rule tasks_in[OF assms(1) nth_mem[OF assms(2)]])
  then have "fq_tasks q (fq_queue q ! k) \<noteq> []" by (simp add: fq_tasks_def)
  note served = fq.run_first_served[OF run(1) assms(1) d assms(2) _ this] and turn = fq.run_turn[OF run(1) assms(1,2)]
  show ?thesis using run served turn assms(3) by (intro exI[of _ outs] exI[of _ q']) simp
qed

text \<open>After \<open>remove\<close> the queue names only the owner that is gone.\<close>

lemma fq_remove_queue:
  assumes "fq_ok owner q" "own \<in> set (fq_queue q)" "fq_remove own q = Some q'"
  shows "fq_queue q' = [own]" "map_of (fq_map q') own = None" "\<And>p. p \<noteq> own \<Longrightarrow> map_of (fq_map q') p = map_of (fq_map q) p"
proof -
  from tasks_in[OF assms(1,2)] obtain ts where "map_of (fq_map q) own = Some ts" "length ts \<le> fq_len q" by metis
  with assms(3) have q': "q' = q\<lparr>fq_map := AList.delete own (fq_map q), fq_len := fq_len q - length ts, fq_queue := filter (\<lambda>x. x = own) (fq_queue q)\<rparr>"
    by (simp add: fq_remove_def)
  have "distinct (fq_queue q)" using assms(1) by (simp add: fq_ok_def)
  then have "filter (\<lambda>x. x = own) (fq_queue q) = [own]" using assms(2)
  proof (induction "fq_queue q" arbitrary: q)
    case (Cons x xs)
    have "filter (\<lambda>y. y = own) xs = (if own \<in> set xs then [own] else [])"
      using Cons.hyps(1)[of "q\<lparr>fq_queue := xs\<rparr>"] Cons.hyps(2) Cons.prems by (auto simp: filter_empty_conv simp flip: Cons.hyps(2))
    then show ?case using Cons.prems by (auto simp flip: Cons.hyps(2))
  qed simp
  then show "fq_queue q' = [own]" "map_of (fq_map q') own = None" "\<And>p. p \<noteq> own \<Longrightarrow> map_of (fq_map q') p = map_of (fq_map q) p"
    by (simp_all add: q' AList.delete_conv')
qed

lemma push_others:
  assumes "fold_opt (fq_push_back owner) ts q = Some q'" "\<forall>t \<in> set ts. owner t \<noteq> own"
    "\<exists>rest. fq_queue q = own # rest" "map_of (fq_map q) own = None"
  shows "\<exists>rest. fq_queue q' = own # rest" "map_of (fq_map q') own = None"
proof -
  have "(\<exists>rest. fq_queue q' = own # rest) \<and> map_of (fq_map q') own = None"
  proof (rule fold_opt_invariant[OF assms(1), where I = "\<lambda>q. (\<exists>rest. fq_queue q = own # rest) \<and> map_of (fq_map q) own = None"])
    fix t p p' assume "t \<in> set ts" and i: "(\<exists>rest. fq_queue p = own # rest) \<and> map_of (fq_map p) own = None"
      and p: "fq_push_back owner t p = Some p'"
    then have "owner t \<noteq> own" using assms(2) by blast
    with i p show "(\<exists>rest. fq_queue p' = own # rest) \<and> map_of (fq_map p') own = None"
      by (auto simp: fq_push_back_def Let_def panic_simps update_conv' split: option.splits)
  qed (use assms(3,4) in blast)
  then show "\<exists>rest. fq_queue q' = own # rest" "map_of (fq_map q') own = None" by blast+
qed

text \<open>
  Removing a guest that has tasks breaks the fair queue: \<open>drain_filter\<close> hands over the entries of
  the removed guest, so the order of service keeps that guest and loses all others.  The tasks of
  the other guests stay in the map, and the next \<open>front\<close> or \<open>pop_front\<close> panics, whatever the
  other guests push before it.
\<close>

theorem fq_remove_breaks:
  assumes "fq_ok owner q" "own \<in> set (fq_queue q)" "other \<in> set (fq_queue q)" "other \<noteq> own"
    "fq_remove own q = Some q1" "\<forall>t \<in> set ts. owner t \<noteq> own" "fold_opt (fq_push_back owner) ts q1 = Some q2"
  shows "fq_tasks q1 other = fq_tasks q other \<and> fq_tasks q1 other \<noteq> [] \<and> \<not> fq_is_empty q1 \<and>
    fq_front q2 = None \<and> fq_pop_front q2 = None"
proof -
  note r = fq_remove_queue[OF assms(1,2,5)]
  obtain us where us: "map_of (fq_map q) other = Some us" "us \<noteq> []" by (rule tasks_in[OF assms(1,3)])
  then have "map_of (fq_map q1) other = Some us" using r(3)[OF assms(4)] by simp
  moreover from this have "fq_map q1 \<noteq> []" by auto
  moreover obtain rest where "fq_queue q2 = own # rest" "map_of (fq_map q2) own = None"
    using push_others[OF assms(7,6)] r(1,2) by auto
  ultimately show ?thesis using us by (simp add: fq_tasks_def fq_is_empty_def fq_front_def fq_pop_front_def)
qed

section \<open>Examples\<close>

text \<open>Tasks of guests 1 and 2: pairs of an owner and a number.\<close>

definition fq_example :: "(usize \<times> nat) FairQueue" where
  "fq_example = \<lparr>fq_len = 3, fq_map = [(1, [(1, 0), (1, 1)]), (2, [(2, 0)])], fq_queue = [1, 2]\<rparr>"

lemma fq_example_ok: "fq_ok fst fq_example"
  by (auto simp: fq_ok_def fq_example_def)

theorem fq_fifo_witness:
  "\<exists>outs q'. run_queue (fq_push_back fst) fq_pop_front [PushTask (1, 2), PopTask, PopTask, PopTask, PopTask] fq_example = Some (outs, q') \<and>
     of_owner fst 1 outs = [(1, 0), (1, 1), (1, 2)] \<and> outs = [(1, 0), (2, 0), (1, 1), (1, 2)]"
proof -
  let ?xs = "[PushTask (1, 2), PopTask, PopTask, PopTask, PopTask] :: (usize \<times> nat) QueueOp list"
  have run: "run_queue (fq_push_back fst) fq_pop_front ?xs fq_example =
    Some ([(1, 0), (2, 0), (1, 1), (1, 2)], FairQueue_new)"
    by (simp add: fq_example_def fq_push_back_def fq_pop_front_def list_front_def FairQueue_new_def)
  from fq_fifo[OF fq_example_ok run, of 1] run show ?thesis
    by (simp add: fq_tasks_def FairQueue_new_def fq_example_def)
qed

theorem fq_bounded_wait_witness:
  "\<exists>outs q'. run_queue (fq_push_back fst) fq_pop_front [PushTask (1, 2), PopTask, PushTask (1, 3), PopTask] fq_example = Some (outs, q') \<and>
     outs ! 1 = (2, 0)"
proof -
  let ?xs = "[PushTask (1, 2), PopTask, PushTask (1, 3), PopTask] :: (usize \<times> nat) QueueOp list"
  have "1 < length (fq_queue fq_example)" "1 < pops ?xs" "pops ?xs \<le> fq_len fq_example"
    "fq_len fq_example + length (pushed ?xs) < usize_bound" by (simp_all add: fq_example_def)
  from fq_bounded_wait[OF fq_example_ok this] have "\<exists>outs q'. run_queue (fq_push_back fst) fq_pop_front ?xs fq_example = Some (outs, q') \<and>
    outs ! 1 = hd (fq_tasks fq_example (fq_queue fq_example ! 1))" by blast
  moreover have "hd (fq_tasks fq_example (fq_queue fq_example ! 1)) = (2, 0)" by (simp add: fq_example_def fq_tasks_def)
  ultimately show ?thesis by simp
qed

theorem fq_remove_breaks_witness:
  "\<exists>q1 q2. fq_remove 1 fq_example = Some q1 \<and> fq_push_back fst (2, 1) q1 = Some q2 \<and>
     fq_tasks q1 2 = [(2, 0)] \<and> fq_pop_front q2 = None"
proof -
  let ?q1 = "\<lparr>fq_len = 1, fq_map = [(2, [(2, 0)])], fq_queue = [1]\<rparr> :: (usize \<times> nat) FairQueue"
  let ?q2 = "\<lparr>fq_len = 2, fq_map = [(2, [(2, 0), (2, 1)])], fq_queue = [1]\<rparr> :: (usize \<times> nat) FairQueue"
  have q1: "fq_remove 1 fq_example = Some ?q1" by (simp add: fq_remove_def fq_example_def AList.delete_eq)
  have q2: "fq_push_back fst (2, 1) ?q1 = Some ?q2" by (simp add: fq_push_back_def)
  then have "fold_opt (fq_push_back fst) [(2, 1)] ?q1 = Some ?q2" by simp
  from fq_remove_breaks[OF fq_example_ok _ _ _ q1 _ this, of 2] q1 q2 show ?thesis
    by (simp add: fq_example_def fq_tasks_def)
qed

end
