(* ===== verification/Iov.thy ===== *)
theory Iov
  imports Prelude
begin

text \<open>
  \<open>src/src/device/virtio/iov.rs\<close>: lists of buffers in guest memory, and the copies between them.
  Memory is a function from physical addresses to bytes.  A \<open>memcpy\<close> between overlapping areas is
  undefined in the source; here it reads everything before it writes.
\<close>

type_synonym Bytes = "usize \<Rightarrow> u8"

definition memcpy :: "usize \<Rightarrow> usize \<Rightarrow> usize \<Rightarrow> Bytes \<Rightarrow> Bytes" where
  "memcpy s1 s2 n m = (\<lambda>a. if s1 \<le> a \<and> a < s1 + n then m (s2 + (a - s1)) else m a)"

definition memcpy_safe :: "usize \<Rightarrow> usize \<Rightarrow> usize \<Rightarrow> Bytes \<Rightarrow> Bytes option" where
  "memcpy_safe s1 s2 n m = do {
     assert_that (\<not> (s1 < 0x1000 \<or> s2 < 0x1000));
     Some (memcpy s1 s2 n m) }"

section \<open>Buffers\<close>

record VirtioIovData =
  iov_buf :: usize
  iov_len :: usize

type_synonym VirtioIov = "VirtioIovData list"

definition iov_push_data :: "usize \<Rightarrow> usize \<Rightarrow> VirtioIov \<Rightarrow> VirtioIov" where
  "iov_push_data b n v = v @ [\<lparr>iov_buf = b, iov_len = n\<rparr>]"

definition iov_get_buf :: "VirtioIov \<Rightarrow> usize \<Rightarrow> usize option" where
  "iov_get_buf v idx = do { d \<leftarrow> vec_get v idx; Some (iov_buf d) }"

definition iov_get_len :: "VirtioIov \<Rightarrow> usize \<Rightarrow> usize option" where
  "iov_get_len v idx = do { d \<leftarrow> vec_get v idx; Some (iov_len d) }"

fun to_buf_loop :: "VirtioIov \<Rightarrow> usize \<Rightarrow> usize \<Rightarrow> usize \<Rightarrow> Bytes \<Rightarrow> Bytes option" where
  "to_buf_loop [] addr len sz m = Some m"
| "to_buf_loop (d # ds) addr len sz m = do {
     dst \<leftarrow> uadd addr (len - sz);
     if iov_len d \<ge> sz then memcpy_safe dst (iov_buf d) sz m
     else do { m \<leftarrow> memcpy_safe dst (iov_buf d) (iov_len d) m; to_buf_loop ds addr len (sz - iov_len d) m } }"

definition iov_to_buf :: "VirtioIov \<Rightarrow> usize \<Rightarrow> usize \<Rightarrow> Bytes \<Rightarrow> Bytes option" where
  "iov_to_buf v addr len m = to_buf_loop v addr len len m"

fun from_buf_loop :: "VirtioIov \<Rightarrow> usize \<Rightarrow> usize \<Rightarrow> usize \<Rightarrow> Bytes \<Rightarrow> Bytes option" where
  "from_buf_loop [] addr len sz m = Some m"
| "from_buf_loop (d # ds) addr len sz m = do {
     src \<leftarrow> uadd addr (len - sz);
     if iov_len d \<ge> sz then memcpy_safe (iov_buf d) src sz m
     else do { m \<leftarrow> memcpy_safe (iov_buf d) src (iov_len d) m; from_buf_loop ds addr len (sz - iov_len d) m } }"

definition iov_from_buf :: "VirtioIov \<Rightarrow> usize \<Rightarrow> usize \<Rightarrow> Bytes \<Rightarrow> Bytes option" where
  "iov_from_buf v addr len m = from_buf_loop v addr len len m"

text \<open>\<open>get_ptr\<close>: the 14 bytes at an offset, or the one-byte slice \<open>[0]\<close> when the offset is beyond the buffers.\<close>

fun get_ptr_loop :: "bool \<Rightarrow> Bytes \<Rightarrow> VirtioIov \<Rightarrow> usize \<Rightarrow> u8 list option" where
  "get_ptr_loop trace m [] idx = Some [0]"
| "get_ptr_loop trace m (d # ds) idx =
     (if iov_len d > idx then do {
        p \<leftarrow> uadd (iov_buf d) idx;
        assert_that (\<not> (trace \<and> p < 0x1000));
        Some (map (\<lambda>i. m (p + i)) [0..<14]) }
      else get_ptr_loop trace m ds (idx - iov_len d))"

definition iov_get_ptr :: "bool \<Rightarrow> Bytes \<Rightarrow> VirtioIov \<Rightarrow> usize \<Rightarrow> u8 list option" where
  "iov_get_ptr trace m v sz = get_ptr_loop trace m v sz"

section \<open>Copying from buffers to buffers\<close>

record IovCursor =
  ic_dst_iov_idx :: usize
  ic_src_iov_idx :: usize
  ic_dst_ptr :: usize
  ic_src_ptr :: usize
  ic_dst_vlen_remain :: usize
  ic_src_vlen_remain :: usize

text \<open>The branch that empties the current source buffer.\<close>

definition drain_src :: "VirtioIov \<Rightarrow> usize \<Rightarrow> IovCursor \<Rightarrow> IovCursor option" where
  "drain_src src written c = do {
     let c = c\<lparr>ic_src_iov_idx := ic_src_iov_idx c + 1\<rparr>;
     if ic_src_iov_idx c < length src then do {
       let d = src ! ic_src_iov_idx c;
       p \<leftarrow> uadd (ic_dst_ptr c) written;
       r \<leftarrow> usub (ic_dst_vlen_remain c) written;
       Some (c\<lparr>ic_src_ptr := iov_buf d, ic_src_vlen_remain := iov_len d, ic_dst_ptr := p, ic_dst_vlen_remain := r\<rparr>) }
     else Some c }"

text \<open>The branch that fills the current destination buffer.\<close>

definition fill_dst :: "VirtioIov \<Rightarrow> VirtioIov \<Rightarrow> usize \<Rightarrow> IovCursor \<Rightarrow> IovCursor option" where
  "fill_dst dst src written c = do {
     let c = c\<lparr>ic_dst_iov_idx := ic_dst_iov_idx c + 1\<rparr>;
     c \<leftarrow> (if ic_dst_iov_idx c < length dst then do {
         b \<leftarrow> iov_get_buf dst (ic_dst_iov_idx c);
         n \<leftarrow> iov_get_len dst (ic_dst_iov_idx c);
         p \<leftarrow> uadd (ic_src_ptr c) written;
         r \<leftarrow> usub (ic_src_vlen_remain c) written;
         Some (c\<lparr>ic_dst_ptr := b, ic_dst_vlen_remain := n, ic_src_ptr := p, ic_src_vlen_remain := r\<rparr>) }
       else Some c);
     d \<leftarrow> vec_get src (ic_src_iov_idx c);
     if iov_len d = 0 then do {
       let c = c\<lparr>ic_src_iov_idx := ic_src_iov_idx c + 1\<rparr>;
       Some (if ic_src_iov_idx c < length src
         then c\<lparr>ic_src_ptr := iov_buf (src ! ic_src_iov_idx c), ic_src_vlen_remain := iov_len (src ! ic_src_iov_idx c)\<rparr> else c) }
     else Some c }"

definition copy_step :: "bool \<Rightarrow> usize \<Rightarrow> IovCursor \<Rightarrow> Bytes \<Rightarrow> Bytes option" where
  "copy_step trace written c m = do {
     assert_that (\<not> (trace \<and> (ic_dst_ptr c < 0x1000 \<or> ic_src_ptr c < 0x1000)));
     memcpy_safe (ic_dst_ptr c) (ic_src_ptr c) written m }"

lemma drain_src_idx: "drain_src src w c = Some c' \<Longrightarrow> ic_src_iov_idx c' = ic_src_iov_idx c + 1 \<and> ic_dst_iov_idx c' = ic_dst_iov_idx c"
  by (auto simp: drain_src_def Let_def panic_simps split: if_splits)

lemma fill_dst_idx:
  "fill_dst dst src w c = Some c' \<Longrightarrow> ic_dst_iov_idx c' = ic_dst_iov_idx c + 1 \<and> ic_src_iov_idx c \<le> ic_src_iov_idx c' \<and>
    ic_src_iov_idx c' \<le> ic_src_iov_idx c + 1"
  by (cases c) (auto simp: fill_dst_def Let_def panic_simps split: if_splits)

text \<open>The indices grow by one at most, so \<open>idx == len\<close> of the source is \<open>\<not> idx < len\<close>.\<close>

function write_loop :: "bool \<Rightarrow> VirtioIov \<Rightarrow> VirtioIov \<Rightarrow> IovCursor \<Rightarrow> usize \<Rightarrow> Bytes \<Rightarrow> (usize \<times> Bytes) option" where
  "write_loop trace dst src c remain m =
     (if remain = 0 \<or> \<not> (ic_dst_iov_idx c < length dst \<and> ic_src_iov_idx c < length src) then Some (remain, m)
      else if ic_dst_vlen_remain c > ic_src_vlen_remain c then do {
        m \<leftarrow> copy_step trace (ic_src_vlen_remain c) c m;
        c' \<leftarrow> drain_src src (ic_src_vlen_remain c) c;
        remain \<leftarrow> usub remain (ic_src_vlen_remain c);
        write_loop trace dst src c' remain m }
      else do {
        m \<leftarrow> copy_step trace (ic_dst_vlen_remain c) c m;
        c' \<leftarrow> fill_dst dst src (ic_dst_vlen_remain c) c;
        remain \<leftarrow> usub remain (ic_dst_vlen_remain c);
        write_loop trace dst src c' remain m })"
  by pat_completeness auto

termination write_loop
proof (relation "measure (\<lambda>(trace, dst, src, c, remain, m). (length dst - ic_dst_iov_idx c) + (length src - ic_src_iov_idx c))", goal_cases)
  case (2 trace dst src c remain m)
  then show ?case by (auto dest: drain_src_idx)
next
  case (3 trace dst src c remain m)
  then show ?case by (auto dest!: fill_dst_idx)
qed simp

declare write_loop.simps [simp del]

definition write_through_iov :: "bool \<Rightarrow> VirtioIov \<Rightarrow> VirtioIov \<Rightarrow> usize \<Rightarrow> Bytes \<Rightarrow> (usize \<times> Bytes) option" where
  "write_through_iov trace src dst remain m = do {
     db \<leftarrow> iov_get_buf dst 0;
     s \<leftarrow> vec_get src 0;
     dn \<leftarrow> iov_get_len dst 0;
     write_loop trace dst src \<lparr>ic_dst_iov_idx = 0, ic_src_iov_idx = 0, ic_dst_ptr = db, ic_src_ptr = iov_buf s,
       ic_dst_vlen_remain = dn, ic_src_vlen_remain = iov_len s\<rparr> remain m }"

section \<open>What the copy does\<close>

definition seg :: "VirtioIovData \<Rightarrow> usize set" where
  "seg d = {iov_buf d..<iov_buf d + iov_len d}"

definition seg_bytes :: "Bytes \<Rightarrow> VirtioIovData \<Rightarrow> u8 list" where
  "seg_bytes m d = map m [iov_buf d..<iov_buf d + iov_len d]"

definition gather :: "Bytes \<Rightarrow> VirtioIov \<Rightarrow> u8 list" where
  "gather m v = concat (map (seg_bytes m) v)"

definition iov_area :: "VirtioIov \<Rightarrow> usize set" where
  "iov_area v = (\<Union>d \<in> set v. seg d)"

definition iov_total :: "VirtioIov \<Rightarrow> usize" where
  "iov_total v = sum_list (map iov_len v)"

definition iov_safe :: "VirtioIov \<Rightarrow> bool" where
  "iov_safe v \<longleftrightarrow> (\<forall>d \<in> set v. 0x1000 \<le> iov_buf d \<and> iov_buf d + iov_len d < usize_bound)"

definition iov_apart :: "VirtioIov \<Rightarrow> bool" where
  "iov_apart v \<longleftrightarrow> sorted_wrt (\<lambda>d e. seg d \<inter> seg e = {}) v"

lemma gather_simps [simp]: "gather m [] = []" "gather m (d # v) = seg_bytes m d @ gather m v"
  by (simp_all add: gather_def)

lemma iov_simps [simp]:
  "iov_area [] = {}" "iov_area (d # v) = seg d \<union> iov_area v" "iov_total [] = 0" "iov_total (d # v) = iov_len d + iov_total v"
  "iov_safe []" "iov_safe (d # v) \<longleftrightarrow> 0x1000 \<le> iov_buf d \<and> iov_buf d + iov_len d < usize_bound \<and> iov_safe v"
  "iov_apart []" "iov_apart (d # v) \<longleftrightarrow> seg d \<inter> iov_area v = {} \<and> iov_apart v"
  by (auto simp: iov_area_def iov_total_def iov_safe_def iov_apart_def)

lemma length_gather [simp]: "length (gather m v) = iov_total v"
  by (induction v) (simp_all add: seg_bytes_def)

lemma seg_bytes_cong: "(\<And>a. a \<in> seg d \<Longrightarrow> m a = m' a) \<Longrightarrow> seg_bytes m d = seg_bytes m' d"
  by (auto simp: seg_bytes_def seg_def)

lemma gather_cong: "(\<And>a. a \<in> iov_area v \<Longrightarrow> m a = m' a) \<Longrightarrow> gather m v = gather m' v"
  by (induction v) (auto simp: seg_bytes_def seg_def)

lemma seg_split:
  assumes "w \<le> iov_len d"
  shows "seg_bytes m d = seg_bytes m \<lparr>iov_buf = iov_buf d, iov_len = w\<rparr> @ seg_bytes m \<lparr>iov_buf = iov_buf d + w, iov_len = iov_len d - w\<rparr>"
proof -
  have "[iov_buf d..<iov_buf d + iov_len d] = [iov_buf d..<iov_buf d + w] @ [iov_buf d + w..<iov_buf d + iov_len d]"
    using assms upt_add_eq_append[of "iov_buf d" "iov_buf d + w" "iov_len d - w"] by simp
  with assms show ?thesis by (simp add: seg_bytes_def)
qed

lemma seg_parts:
  "w \<le> iov_len d \<Longrightarrow> seg \<lparr>iov_buf = iov_buf d, iov_len = w\<rparr> \<subseteq> seg d"
  "w \<le> iov_len d \<Longrightarrow> seg \<lparr>iov_buf = iov_buf d + w, iov_len = iov_len d - w\<rparr> \<subseteq> seg d"
  "w \<le> iov_len d \<Longrightarrow> seg \<lparr>iov_buf = iov_buf d, iov_len = w\<rparr> \<inter> seg \<lparr>iov_buf = iov_buf d + w, iov_len = iov_len d - w\<rparr> = {}"
  by (auto simp: seg_def)

lemma seg_bytes_memcpy:
  "seg_bytes (memcpy p q w m) \<lparr>iov_buf = p, iov_len = w\<rparr> = seg_bytes m \<lparr>iov_buf = q, iov_len = w\<rparr>"
  by (rule nth_equalityI) (simp_all add: seg_bytes_def memcpy_def)

lemma memcpy_outside: "a \<notin> seg \<lparr>iov_buf = p, iov_len = w\<rparr> \<Longrightarrow> memcpy p q w m a = m a"
  by (auto simp: memcpy_def seg_def)

text \<open>
  One copy of \<open>w\<close> bytes between the first buffers, followed by a copy of the rest that respects the
  areas, is a copy of the whole.
\<close>

lemma copy_cons:
  assumes "w \<le> iov_len d" "w \<le> iov_len s"
    and apart: "iov_apart (d # D)" "iov_area (d # D) \<inter> iov_area (s # S) = {}"
    and rest: "take n (gather m' (\<lparr>iov_buf = iov_buf d + w, iov_len = iov_len d - w\<rparr> # D)) =
       gather (memcpy (iov_buf d) (iov_buf s) w m) (\<lparr>iov_buf = iov_buf s + w, iov_len = iov_len s - w\<rparr> # S)"
    and frame: "\<And>a. a \<notin> iov_area (\<lparr>iov_buf = iov_buf d + w, iov_len = iov_len d - w\<rparr> # D) \<Longrightarrow> m' a = memcpy (iov_buf d) (iov_buf s) w m a"
  shows "take (w + n) (gather m' (d # D)) = gather m (s # S)" "\<And>a. a \<notin> iov_area (d # D) \<Longrightarrow> m' a = m a"
proof -
  let ?m = "memcpy (iov_buf d) (iov_buf s) w m" and ?d = "\<lparr>iov_buf = iov_buf d, iov_len = w\<rparr>" and ?s = "\<lparr>iov_buf = iov_buf s, iov_len = w\<rparr>"
  note dp = seg_parts[OF assms(1)] and sp = seg_parts[OF assms(2)]
  have "m' a = ?m a" if "a \<in> seg ?d" for a
    using that dp apart(1) by (intro frame) auto
  then have "seg_bytes m' ?d = seg_bytes ?m ?d" by (rule seg_bytes_cong)
  then have first: "seg_bytes m' ?d = seg_bytes m ?s" by (simp add: seg_bytes_memcpy)
  have "gather ?m (\<lparr>iov_buf = iov_buf s + w, iov_len = iov_len s - w\<rparr> # S) = gather m (\<lparr>iov_buf = iov_buf s + w, iov_len = iov_len s - w\<rparr> # S)"
    using apart(2) dp(1) sp(2) by (intro gather_cong memcpy_outside) auto
  then show "take (w + n) (gather m' (d # D)) = gather m (s # S)"
    using rest first seg_split[OF assms(1), of m'] seg_split[OF assms(2), of m] by (simp add: seg_bytes_def)
  show "m' a = m a" if "a \<notin> iov_area (d # D)" for a
  proof -
    have "a \<notin> seg ?d" "a \<notin> iov_area (\<lparr>iov_buf = iov_buf d + w, iov_len = iov_len d - w\<rparr> # D)" using that dp by auto
    then show ?thesis using frame[of a] memcpy_outside[of a "iov_buf d" w] by simp
  qed
qed

text \<open>The buffers still to be read and written.\<close>

definition rest_dst :: "VirtioIov \<Rightarrow> IovCursor \<Rightarrow> VirtioIov" where
  "rest_dst dst c = \<lparr>iov_buf = ic_dst_ptr c, iov_len = ic_dst_vlen_remain c\<rparr> # drop (Suc (ic_dst_iov_idx c)) dst"

definition rest_src :: "VirtioIov \<Rightarrow> IovCursor \<Rightarrow> VirtioIov" where
  "rest_src src c = \<lparr>iov_buf = ic_src_ptr c, iov_len = ic_src_vlen_remain c\<rparr> # drop (Suc (ic_src_iov_idx c)) src"

definition cursor_ok :: "VirtioIov \<Rightarrow> VirtioIov \<Rightarrow> IovCursor \<Rightarrow> bool" where
  "cursor_ok dst src c \<longleftrightarrow> ic_dst_iov_idx c < length dst \<and> ic_src_iov_idx c < length src \<and>
     ic_src_vlen_remain c \<le> iov_len (src ! ic_src_iov_idx c) \<and>
     iov_safe (rest_dst dst c) \<and> iov_safe (rest_src src c) \<and> iov_apart (rest_dst dst c) \<and>
     iov_area (rest_dst dst c) \<inter> iov_area (rest_src src c) = {}"

definition copied :: "VirtioIov \<Rightarrow> VirtioIov \<Rightarrow> usize \<Rightarrow> Bytes \<Rightarrow> Bytes \<Rightarrow> bool" where
  "copied D S n m m' \<longleftrightarrow> take n (gather m' D) = gather m S \<and> (\<forall>a. a \<notin> iov_area D \<longrightarrow> m' a = m a)"

lemma copied_nothing: "iov_total S = 0 \<Longrightarrow> copied D S 0 m m"
  using length_gather[of m S] by (simp add: copied_def del: length_gather)

lemma gather_zero: "iov_len d = 0 \<Longrightarrow> gather m (d # v) = gather m v" "iov_len d = 0 \<Longrightarrow> iov_area (d # v) = iov_area v"
  by (simp_all add: seg_bytes_def seg_def)

lemma copied_cons:
  assumes "w \<le> iov_len d" "w \<le> iov_len s" "iov_apart (d # D)" "iov_area (d # D) \<inter> iov_area (s # S) = {}"
    "copied (\<lparr>iov_buf = iov_buf d + w, iov_len = iov_len d - w\<rparr> # D) (\<lparr>iov_buf = iov_buf s + w, iov_len = iov_len s - w\<rparr> # S) n
       (memcpy (iov_buf d) (iov_buf s) w m) m'"
  shows "copied (d # D) (s # S) (w + n) m m'"
  using copy_cons[OF assms(1-4)] assms(5) unfolding copied_def by metis

abbreviation seg_after :: "usize \<Rightarrow> usize \<Rightarrow> usize \<Rightarrow> VirtioIovData" where
  "seg_after p n w \<equiv> \<lparr>iov_buf = p + w, iov_len = n - w\<rparr>"

lemma drop_head:
  "i < length v \<Longrightarrow> \<lparr>iov_buf = iov_buf (v ! i), iov_len = iov_len (v ! i)\<rparr> # drop (Suc i) v = drop i v" for v :: VirtioIov
  using Cons_nth_drop_Suc[of i v] by (cases "v ! i") simp

lemma copy_step_ok:
  "cursor_ok dst src c \<Longrightarrow> copy_step trace w c m = Some (memcpy (ic_dst_ptr c) (ic_src_ptr c) w m)"
  by (simp add: copy_step_def memcpy_safe_def cursor_ok_def rest_dst_def rest_src_def)

text \<open>One turn of the loop that leaves a source buffer and has another one.\<close>

lemma drain_next:
  assumes ok: "cursor_ok dst src c" and lt: "ic_src_vlen_remain c < ic_dst_vlen_remain c" "ic_src_vlen_remain c \<le> remain" "remain \<noteq> 0"
    and more: "Suc (ic_src_iov_idx c) < length src"
  obtains c' where
    "write_loop trace dst src c remain m =
       write_loop trace dst src c' (remain - ic_src_vlen_remain c) (memcpy (ic_dst_ptr c) (ic_src_ptr c) (ic_src_vlen_remain c) m)"
    "cursor_ok dst src c'" "rest_src src c' = drop (Suc (ic_src_iov_idx c)) src"
    "rest_dst dst c' = seg_after (ic_dst_ptr c) (ic_dst_vlen_remain c) (ic_src_vlen_remain c) # drop (Suc (ic_dst_iov_idx c)) dst"
    "ic_dst_iov_idx c' = ic_dst_iov_idx c" "ic_src_iov_idx c' = Suc (ic_src_iov_idx c)"
proof -
  let ?w = "ic_src_vlen_remain c"
  define c' where "c' = c\<lparr>ic_src_iov_idx := ic_src_iov_idx c + 1, ic_src_ptr := iov_buf (src ! Suc (ic_src_iov_idx c)),
    ic_src_vlen_remain := iov_len (src ! Suc (ic_src_iov_idx c)), ic_dst_ptr := ic_dst_ptr c + ?w, ic_dst_vlen_remain := ic_dst_vlen_remain c - ?w\<rparr>"
  note o = ok[unfolded cursor_ok_def]
  have dr: "drain_src src ?w c = Some c'" using more lt o by (simp add: drain_src_def c'_def rest_dst_def Let_def)
  have rs: "rest_src src c' = drop (Suc (ic_src_iov_idx c)) src" using more by (simp add: rest_src_def c'_def drop_head)
  have rd: "rest_dst dst c' = seg_after (ic_dst_ptr c) (ic_dst_vlen_remain c) ?w # drop (Suc (ic_dst_iov_idx c)) dst"
    by (simp add: rest_dst_def c'_def)
  have "cursor_ok dst src c'" using o lt more seg_parts(2)[of ?w "\<lparr>iov_buf = ic_dst_ptr c, iov_len = ic_dst_vlen_remain c\<rparr>"]
    unfolding cursor_ok_def rs rd by (auto simp: rest_dst_def rest_src_def) (auto simp: c'_def)
  moreover have "write_loop trace dst src c remain m = write_loop trace dst src c' (remain - ?w) (memcpy (ic_dst_ptr c) (ic_src_ptr c) ?w m)"
    using lt o dr copy_step_ok[OF ok] by (subst write_loop.simps) simp
  ultimately show ?thesis using that rs rd by (simp add: c'_def)
qed

text \<open>One turn of the loop that leaves a destination buffer and has another one.\<close>

lemma fill_next:
  assumes ok: "cursor_ok dst src c" and ge: "ic_dst_vlen_remain c \<le> ic_src_vlen_remain c" "ic_dst_vlen_remain c \<le> remain" "remain \<noteq> 0"
    and more: "Suc (ic_dst_iov_idx c) < length dst" and left: "remain = iov_total (rest_src src c)"
  obtains c' where
    "write_loop trace dst src c remain m =
       write_loop trace dst src c' (remain - ic_dst_vlen_remain c) (memcpy (ic_dst_ptr c) (ic_src_ptr c) (ic_dst_vlen_remain c) m)"
    "cursor_ok dst src c'" "rest_dst dst c' = drop (Suc (ic_dst_iov_idx c)) dst"
    "gather x (rest_src src c') = gather x (seg_after (ic_src_ptr c) (ic_src_vlen_remain c) (ic_dst_vlen_remain c) # drop (Suc (ic_src_iov_idx c)) src)"
    "iov_total (rest_src src c') = remain - ic_dst_vlen_remain c"
    "ic_dst_iov_idx c' = Suc (ic_dst_iov_idx c)" "ic_src_iov_idx c \<le> ic_src_iov_idx c'"
proof -
  let ?w = "ic_dst_vlen_remain c" and ?S = "drop (Suc (ic_src_iov_idx c)) src"
  define e where "e = c\<lparr>ic_dst_iov_idx := ic_dst_iov_idx c + 1, ic_dst_ptr := iov_buf (dst ! Suc (ic_dst_iov_idx c)),
    ic_dst_vlen_remain := iov_len (dst ! Suc (ic_dst_iov_idx c)), ic_src_ptr := ic_src_ptr c + ?w, ic_src_vlen_remain := ic_src_vlen_remain c - ?w\<rparr>"
  define z where "z = (iov_len (src ! ic_src_iov_idx c) = 0)"
  define c' where "c' = (if z then e\<lparr>ic_src_iov_idx := ic_src_iov_idx c + 1, ic_src_ptr := iov_buf (src ! Suc (ic_src_iov_idx c)),
    ic_src_vlen_remain := iov_len (src ! Suc (ic_src_iov_idx c))\<rparr> else e)"
  note o = ok[unfolded cursor_ok_def]
  have zs: "Suc (ic_src_iov_idx c) < length src" "ic_src_vlen_remain c = 0" if z
    using that o ge(3) left by (cases "Suc (ic_src_iov_idx c) < length src"; simp add: z_def rest_src_def)+
  have fi: "fill_dst dst src ?w c = Some c'" using more ge o zs
    by (auto simp: fill_dst_def e_def c'_def z_def rest_src_def Let_def iov_get_buf_def iov_get_len_def)
  have rd: "rest_dst dst c' = drop (Suc (ic_dst_iov_idx c)) dst" using more by (simp add: rest_dst_def c'_def e_def drop_head)
  have rs: "rest_src src c' = (if z then ?S else seg_after (ic_src_ptr c) (ic_src_vlen_remain c) ?w # ?S)"
    using zs by (simp add: rest_src_def c'_def e_def drop_head)
  have "cursor_ok dst src c'" using o ge more zs seg_parts(2)[of ?w "\<lparr>iov_buf = ic_src_ptr c, iov_len = ic_src_vlen_remain c\<rparr>"]
    unfolding cursor_ok_def rs rd by (auto simp: rest_dst_def rest_src_def split: if_splits) (auto simp: c'_def e_def)
  moreover have "write_loop trace dst src c remain m = write_loop trace dst src c' (remain - ?w) (memcpy (ic_dst_ptr c) (ic_src_ptr c) ?w m)"
    using ge o fi copy_step_ok[OF ok] by (subst write_loop.simps) simp
  moreover have "gather x (rest_src src c') = gather x (seg_after (ic_src_ptr c) (ic_src_vlen_remain c) ?w # ?S)"
    using zs unfolding rs by (simp add: seg_bytes_def)
  moreover have "iov_total (rest_src src c') = remain - ?w" using left zs ge unfolding rs by (auto simp: rest_src_def)
  ultimately show ?thesis using that rd by (simp add: c'_def e_def)
qed

lemma write_loop_last:
  assumes ok: "cursor_ok dst src c" and "remain = min (ic_dst_vlen_remain c) (ic_src_vlen_remain c)" "remain \<noteq> 0"
    and "ic_src_vlen_remain c < ic_dst_vlen_remain c \<Longrightarrow> \<not> Suc (ic_src_iov_idx c) < length src"
    and "\<not> ic_src_vlen_remain c < ic_dst_vlen_remain c \<Longrightarrow> \<not> Suc (ic_dst_iov_idx c) < length dst"
  shows "write_loop trace dst src c remain m = Some (0, memcpy (ic_dst_ptr c) (ic_src_ptr c) remain m)"
proof -
  note o = ok[unfolded cursor_ok_def]
  have "\<exists>c'. fill_dst dst src remain c = Some c'" if "\<not> ic_src_vlen_remain c < ic_dst_vlen_remain c"
    using o assms(5)[OF that] by (auto simp: fill_dst_def Let_def)
  moreover have "\<exists>c'. drain_src src remain c = Some c'" if "ic_src_vlen_remain c < ic_dst_vlen_remain c"
    using assms(4)[OF that] by (auto simp: drain_src_def Let_def)
  ultimately show ?thesis using o assms(2,3) copy_step_ok[OF ok]
    by (subst write_loop.simps) (auto simp: write_loop.simps[of _ _ _ _ 0] min_def split: if_splits)
qed

lemma write_loop_copies:
  "cursor_ok dst src c \<Longrightarrow> remain = iov_total (rest_src src c) \<Longrightarrow> remain \<le> iov_total (rest_dst dst c) \<Longrightarrow>
    \<exists>m'. write_loop trace dst src c remain m = Some (0, m') \<and> copied (rest_dst dst c) (rest_src src c) remain m m'"
proof (induction "(length dst - ic_dst_iov_idx c) + (length src - ic_src_iov_idx c)" arbitrary: c remain m rule: less_induct)
  case less
  let ?p = "ic_dst_ptr c" and ?q = "ic_src_ptr c" and ?dn = "ic_dst_vlen_remain c" and ?sn = "ic_src_vlen_remain c"
  let ?D = "drop (Suc (ic_dst_iov_idx c)) dst" and ?S = "drop (Suc (ic_src_iov_idx c)) src"
  note ok = less.prems(1) and o = less.prems(1)[unfolded cursor_ok_def]
  have join: "copied (rest_dst dst c) (rest_src src c) (w + n) m m'"
    if "w \<le> ?dn" "w \<le> ?sn" "copied (seg_after ?p ?dn w # ?D) (seg_after ?q ?sn w # ?S) n (memcpy ?p ?q w m) m'" for w n m'
    using copied_cons[of w "\<lparr>iov_buf = ?p, iov_len = ?dn\<rparr>" "\<lparr>iov_buf = ?q, iov_len = ?sn\<rparr>" ?D ?S n m m'] that o
    by (simp add: rest_dst_def rest_src_def)
  consider "remain = 0" | "remain \<noteq> 0" "?sn < ?dn" "Suc (ic_src_iov_idx c) < length src"
    | "remain \<noteq> 0" "\<not> ?sn < ?dn" "Suc (ic_dst_iov_idx c) < length dst"
    | "remain \<noteq> 0" "?sn < ?dn" "\<not> Suc (ic_src_iov_idx c) < length src"
    | "remain \<noteq> 0" "\<not> ?sn < ?dn" "\<not> Suc (ic_dst_iov_idx c) < length dst" by blast
  then show ?case
  proof cases
    case 1
    then show ?thesis using less.prems(2) copied_nothing by (simp add: write_loop.simps)
  next
    case 2
    have w: "?sn \<le> remain" using less.prems(2) by (simp add: rest_src_def)
    obtain c' where c': "write_loop trace dst src c remain m = write_loop trace dst src c' (remain - ?sn) (memcpy ?p ?q ?sn m)"
      "cursor_ok dst src c'" "rest_src src c' = ?S" "rest_dst dst c' = seg_after ?p ?dn ?sn # ?D"
      "ic_dst_iov_idx c' = ic_dst_iov_idx c" "ic_src_iov_idx c' = Suc (ic_src_iov_idx c)" by (rule drain_next[OF ok 2(2) w 2(1,3)])
    have "length dst - ic_dst_iov_idx c' + (length src - ic_src_iov_idx c') < length dst - ic_dst_iov_idx c + (length src - ic_src_iov_idx c)"
      using c'(5,6) 2(3) by simp
    moreover have "remain - ?sn = iov_total (rest_src src c')" unfolding c'(3) using less.prems(2) by (simp add: rest_src_def)
    moreover have "remain - ?sn \<le> iov_total (rest_dst dst c')" unfolding c'(4) using less.prems(3) 2(2) by (simp add: rest_dst_def)
    ultimately obtain m' where "write_loop trace dst src c' (remain - ?sn) (memcpy ?p ?q ?sn m) = Some (0, m')"
      "copied (rest_dst dst c') (rest_src src c') (remain - ?sn) (memcpy ?p ?q ?sn m) m'" using less.hyps[OF _ c'(2)] by blast
    with join[of ?sn "remain - ?sn" m'] c'(1,3,4) 2(2) w show ?thesis by (simp add: copied_def gather_zero del: gather_simps iov_simps)
  next
    case 3
    then have d: "?dn \<le> ?sn" by simp
    have w: "?dn \<le> remain" using less.prems(2) d by (simp add: rest_src_def)
    obtain c' where c': "write_loop trace dst src c remain m = write_loop trace dst src c' (remain - ?dn) (memcpy ?p ?q ?dn m)"
      "cursor_ok dst src c'" "rest_dst dst c' = ?D" "gather (memcpy ?p ?q ?dn m) (rest_src src c') = gather (memcpy ?p ?q ?dn m) (seg_after ?q ?sn ?dn # ?S)"
      "iov_total (rest_src src c') = remain - ?dn" "ic_dst_iov_idx c' = Suc (ic_dst_iov_idx c)" "ic_src_iov_idx c \<le> ic_src_iov_idx c'"
      by (rule fill_next[OF ok d w 3(1,3) less.prems(2)])
    have "length dst - ic_dst_iov_idx c' + (length src - ic_src_iov_idx c') < length dst - ic_dst_iov_idx c + (length src - ic_src_iov_idx c)"
      using c'(6,7) 3(3) by simp
    moreover have "remain - ?dn \<le> iov_total (rest_dst dst c')" unfolding c'(3) using less.prems(3) by (simp add: rest_dst_def)
    ultimately obtain m' where "write_loop trace dst src c' (remain - ?dn) (memcpy ?p ?q ?dn m) = Some (0, m')"
      "copied (rest_dst dst c') (rest_src src c') (remain - ?dn) (memcpy ?p ?q ?dn m) m'" using less.hyps[OF _ c'(2)] c'(5) by metis
    with join[of ?dn "remain - ?dn" m'] c'(1,3,4) d w show ?thesis by (simp add: copied_def gather_zero del: gather_simps iov_simps)
  next
    case 4
    then have "remain = ?sn" using less.prems(2) by (simp add: rest_src_def)
    with write_loop_last[OF ok, of remain trace m] join[of remain 0 "memcpy ?p ?q remain m"] copied_nothing[of "[seg_after ?q ?sn remain]"] 4
    show ?thesis by simp
  next
    case 5
    then have "remain = ?dn" "remain = ?sn + iov_total ?S" using less.prems(2,3) by (simp_all add: rest_src_def rest_dst_def)
    with write_loop_last[OF ok, of remain trace m] join[of remain 0 "memcpy ?p ?q remain m"] copied_nothing[of "seg_after ?q ?sn remain # ?S"] 5
    show ?thesis by simp
  qed
qed

lemma write_through_iov_total:
  assumes "src \<noteq> []" "dst \<noteq> []" "iov_safe src" "iov_safe dst" "iov_apart dst" "iov_area dst \<inter> iov_area src = {}"
    "iov_total src \<le> iov_total dst"
  shows "\<exists>m'. write_through_iov trace src dst (iov_total src) m = Some (0, m') \<and>
    take (iov_total src) (gather m' dst) = gather m src \<and> (\<forall>a. a \<notin> iov_area dst \<longrightarrow> m' a = m a)"
proof -
  let ?c = "\<lparr>ic_dst_iov_idx = 0, ic_src_iov_idx = 0, ic_dst_ptr = iov_buf (dst ! 0), ic_src_ptr = iov_buf (src ! 0),
       ic_dst_vlen_remain = iov_len (dst ! 0), ic_src_vlen_remain = iov_len (src ! 0)\<rparr>"
  have r: "rest_dst dst ?c = dst" "rest_src src ?c = src"
    using assms(1,2) drop_head[of 0] by (simp_all add: rest_dst_def rest_src_def)
  have "cursor_ok dst src ?c" unfolding cursor_ok_def r using assms by simp
  from write_loop_copies[OF this, of "iov_total src" trace m] assms(7) show ?thesis unfolding r copied_def
    using assms(1,2) by (simp add: write_through_iov_def iov_get_buf_def iov_get_len_def)
qed

text \<open>
  C21. A copy between two lists of buffers moves every byte: when the destination has room for the
  source and the buffers do not overlap, \<open>write_through_iov\<close> never panics, leaves nothing to copy,
  the destination holds the bytes of the source in order, and no byte outside the destination
  changes, however the two lists cut the data into buffers.
\<close>

theorem write_through_iov_copies:
  assumes "src \<noteq> []" "dst \<noteq> []" "iov_safe src" "iov_safe dst" "iov_apart dst" "iov_area dst \<inter> iov_area src = {}"
    "iov_total src \<le> iov_total dst"
  shows "\<exists>m'. write_through_iov trace src dst (iov_total src) m = Some (0, m') \<and>
    take (iov_total src) (gather m' dst) = gather m src \<and> (\<forall>a. a \<notin> iov_area dst \<longrightarrow> m' a = m a)"
  using write_through_iov_total[OF assms] .

definition bytes_example :: Bytes where
  "bytes_example a = (if 0x2000 \<le> a \<and> a < 0x2003 then of_nat (a - 0x1fff) else 0)"

theorem write_through_iov_copies_witness:
  "\<exists>m'. write_through_iov True [\<lparr>iov_buf = 0x2000, iov_len = 2\<rparr>, \<lparr>iov_buf = 0x2002, iov_len = 1\<rparr>]
      [\<lparr>iov_buf = 0x3000, iov_len = 1\<rparr>, \<lparr>iov_buf = 0x4000, iov_len = 8\<rparr>] 3 bytes_example = Some (0, m') \<and>
    m' 0x3000 = 1 \<and> m' 0x4000 = 2 \<and> m' 0x4001 = 3"
proof -
  let ?src = "[\<lparr>iov_buf = 0x2000, iov_len = 2\<rparr>, \<lparr>iov_buf = 0x2002, iov_len = 1\<rparr>] :: VirtioIov"
  let ?dst = "[\<lparr>iov_buf = 0x3000, iov_len = 1\<rparr>, \<lparr>iov_buf = 0x4000, iov_len = 8\<rparr>] :: VirtioIov"
  have "iov_area ?dst \<inter> iov_area ?src = {}" "iov_apart ?dst" by (auto simp: seg_def)
  from write_through_iov_copies[OF _ _ _ _ this(2,1), of True bytes_example] obtain m' where
    m': "write_through_iov True ?src ?dst 3 bytes_example = Some (0, m')" "take 3 (gather m' ?dst) = gather bytes_example ?src" by auto
  then have "m' 0x3000 = 1 \<and> m' 0x4000 = 2 \<and> m' 0x4001 = 3"
    by (simp add: seg_bytes_def upt_rec bytes_example_def)
  with m'(1) show ?thesis by blast
qed

end
