(* ===== verification/VirtioDev.thy ===== *)
theory VirtioDev
  imports Interrupt Virtq FairQueue Iov
begin

text \<open>
  The state of the virtio devices: \<open>src/src/device/virtio/dev.rs\<close>, the descriptions of the three
  kinds of device (\<open>blk.rs\<close>, \<open>net.rs\<close>, \<open>console.rs\<close>), the counters of \<open>src/src/device/device.rs\<close>,
  the register block of \<open>mmio.rs\<close>, and the migration copies of \<open>src/src/kernel/migrate.rs\<close>.

  A \<open>VirtioMmio\<close> is an \<open>Arc\<close>: its object lies in the store \<open>s_mmio\<close> of the system, and the objects
  behind the inner \<open>Arc\<close>s of its device (\<open>VirtDev\<close>, \<open>BlkDesc\<close>, \<open>VirtioBlkReq\<close> and so on) are parts of
  it, as nothing else keeps them.  A \<open>Virtq\<close> is named by its device and its place there.
\<close>

section \<open>Device descriptions\<close>

definition VIRTIO_F_VERSION_1 :: u64 where "VIRTIO_F_VERSION_1 = push_bit 32 1"
definition VIRTQUEUE_BLK_MAX_SIZE :: usize where "VIRTQUEUE_BLK_MAX_SIZE = 256"
definition VIRTQUEUE_NET_MAX_SIZE :: usize where "VIRTQUEUE_NET_MAX_SIZE = 256"
definition VIRTQUEUE_CONSOLE_MAX_SIZE :: usize where "VIRTQUEUE_CONSOLE_MAX_SIZE = 64"
definition VIRTIO_BLK_F_SIZE_MAX :: u64 where "VIRTIO_BLK_F_SIZE_MAX = push_bit 1 1"
definition VIRTIO_BLK_F_SEG_MAX :: u64 where "VIRTIO_BLK_F_SEG_MAX = push_bit 2 1"
definition SECTOR_BSIZE :: usize where "SECTOR_BSIZE = 512"
definition BLOCKIF_SIZE_MAX :: usize where "BLOCKIF_SIZE_MAX = 128 * PAGE_SIZE"
definition BLOCKIF_IOV_MAX :: usize where "BLOCKIF_IOV_MAX = 512"
definition VIRTIO_NET_S_LINK_UP :: u16 where "VIRTIO_NET_S_LINK_UP = 1"
definition VIRTIO_NET_S_ANNOUNCE :: u16 where "VIRTIO_NET_S_ANNOUNCE = 2"

datatype VirtioDeviceType = VirtioNone | VirtioNet | VirtioBlock | VirtioConsole

fun virtio_type_num :: "VirtioDeviceType \<Rightarrow> u32" where
  "virtio_type_num VirtioNone = 0"
| "virtio_type_num VirtioNet = 1"
| "virtio_type_num VirtioBlock = 2"
| "virtio_type_num VirtioConsole = 3"

record BlkGeometry =
  bg_cylinders :: u16
  bg_heads :: u8
  bg_sectors :: u8

record BlkTopology =
  bt_physical_block_exp :: u8
  bt_alignment_offset :: u8
  bt_min_io_size :: u16
  bt_opt_io_size :: u32

record BlkDescInner =
  bd_capacity :: u64
  bd_size_max :: u32
  bd_seg_max :: u32
  bd_geometry :: BlkGeometry
  bd_blk_size :: u64
  bd_topology :: BlkTopology
  bd_writeback :: u8
  bd_unused0 :: "u8 list"
  bd_max_discard_sectors :: u32
  bd_max_discard_seg :: u32
  bd_discard_sector_alignment :: u32
  bd_max_write_zeroes_sectors :: u32
  bd_max_write_zeroes_seg :: u32
  bd_write_zeroes_may_unmap :: u8
  bd_unused1 :: "u8 list"

definition BlkDescInner_default :: BlkDescInner where
  "BlkDescInner_default = \<lparr>bd_capacity = 0, bd_size_max = 0, bd_seg_max = 0,
     bd_geometry = \<lparr>bg_cylinders = 0, bg_heads = 0, bg_sectors = 0\<rparr>, bd_blk_size = 0,
     bd_topology = \<lparr>bt_physical_block_exp = 0, bt_alignment_offset = 0, bt_min_io_size = 0, bt_opt_io_size = 0\<rparr>,
     bd_writeback = 0, bd_unused0 = [0, 0, 0], bd_max_discard_sectors = 0, bd_max_discard_seg = 0,
     bd_discard_sector_alignment = 0, bd_max_write_zeroes_sectors = 0, bd_max_write_zeroes_seg = 0,
     bd_write_zeroes_may_unmap = 0, bd_unused1 = [0, 0, 0]\<rparr>"

definition blk_cfg_init :: "usize \<Rightarrow> BlkDescInner \<Rightarrow> BlkDescInner" where
  "blk_cfg_init bsize d = d\<lparr>bd_capacity := of_nat bsize, bd_size_max := of_nat BLOCKIF_SIZE_MAX, bd_seg_max := of_nat BLOCKIF_IOV_MAX\<rparr>"

record NetDescInner =
  nd_mac :: "u8 list"
  nd_status :: u16

definition NetDescInner_default :: NetDescInner where
  "NetDescInner_default = \<lparr>nd_mac = replicate 6 0, nd_status = VIRTIO_NET_S_LINK_UP\<rparr>"

definition net_cfg_init :: "usize list \<Rightarrow> NetDescInner \<Rightarrow> NetDescInner option" where
  "net_cfg_init mac d = do {
     bytes \<leftarrow> fold_opt (\<lambda>i bs. do { b \<leftarrow> vec_get mac i; vec_set bs i (of_nat b) }) [0..<6] (nd_mac d);
     Some (d\<lparr>nd_mac := bytes\<rparr>) }"

record ConsoleDescInner =
  cd_oppo_end_vmid :: u16
  cd_oppo_end_ipa :: u64
  cd_cols :: u16
  cd_rows :: u16
  cd_max_nr_ports :: u32
  cd_emerg_wr :: u32

definition ConsoleDescInner_default :: ConsoleDescInner where
  "ConsoleDescInner_default = \<lparr>cd_oppo_end_vmid = 0, cd_oppo_end_ipa = 0, cd_cols = 0, cd_rows = 0, cd_max_nr_ports = 0, cd_emerg_wr = 0\<rparr>"

definition console_cfg_init :: "u16 \<Rightarrow> u64 \<Rightarrow> ConsoleDescInner \<Rightarrow> ConsoleDescInner" where
  "console_cfg_init vmid ipa d = d\<lparr>cd_oppo_end_vmid := vmid, cd_oppo_end_ipa := ipa, cd_cols := 80, cd_rows := 25\<rparr>"

definition target_console :: "ConsoleDescInner \<Rightarrow> u16 \<times> u64" where
  "target_console d = (cd_oppo_end_vmid d, cd_oppo_end_ipa d)"

datatype DevDesc = BlkDesc BlkDescInner | NetDesc NetDescInner | ConsoleDesc ConsoleDescInner | DevDescNone

section \<open>Configuration space\<close>

text \<open>
  \<open>offset_data\<close> reads four bytes at an offset from the description, which is \<open>repr(C)\<close>.  A byte of
  padding, and every byte behind the structure, is whatever the hypervisor's heap holds there.
\<close>

definition le_bytes :: "nat \<Rightarrow> 'a::len word \<Rightarrow> u8 option list" where
  "le_bytes n w = map (\<lambda>i. Some (ucast (drop_bit (8 * i) w))) [0..<n]"

definition blk_layout :: "BlkDescInner \<Rightarrow> u8 option list" where
  "blk_layout d = le_bytes 8 (bd_capacity d) @ le_bytes 4 (bd_size_max d) @ le_bytes 4 (bd_seg_max d) @
     le_bytes 2 (bg_cylinders (bd_geometry d)) @ [Some (bg_heads (bd_geometry d)), Some (bg_sectors (bd_geometry d))] @
     replicate 4 None @ le_bytes 8 (bd_blk_size d) @
     [Some (bt_physical_block_exp (bd_topology d)), Some (bt_alignment_offset (bd_topology d))] @
     le_bytes 2 (bt_min_io_size (bd_topology d)) @ le_bytes 4 (bt_opt_io_size (bd_topology d)) @
     Some (bd_writeback d) # map Some (bd_unused0 d) @
     le_bytes 4 (bd_max_discard_sectors d) @ le_bytes 4 (bd_max_discard_seg d) @ le_bytes 4 (bd_discard_sector_alignment d) @
     le_bytes 4 (bd_max_write_zeroes_sectors d) @ le_bytes 4 (bd_max_write_zeroes_seg d) @
     Some (bd_write_zeroes_may_unmap d) # map Some (bd_unused1 d) @ replicate 4 None"

definition net_layout :: "NetDescInner \<Rightarrow> u8 option list" where
  "net_layout d = map Some (nd_mac d) @ le_bytes 2 (nd_status d)"

definition layout_byte :: "(usize \<Rightarrow> u8) \<Rightarrow> u8 option list \<Rightarrow> usize \<Rightarrow> u8" where
  "layout_byte beyond bs i = (if i < length bs then (case bs ! i of Some b \<Rightarrow> b | None \<Rightarrow> beyond i) else beyond i)"

definition offset_data :: "(usize \<Rightarrow> u8) \<Rightarrow> u8 option list \<Rightarrow> usize \<Rightarrow> u32" where
  "offset_data beyond bs offset =
     foldr (\<lambda>i v. ucast (layout_byte beyond bs (offset + i)) OR push_bit 8 v) [0..<4] 0"

section \<open>Requests of a block device\<close>

record BlkIov =
  bi_data_bg :: usize
  bi_len :: u32

record VirtioBlkReqNode =
  rn_req_type :: u32
  rn_reserved :: u32
  rn_sector :: usize
  rn_desc_chain_head_idx :: u32
  rn_iov :: "BlkIov list"
  rn_iov_sum_up :: usize
  rn_iov_total :: usize

definition VirtioBlkReqNode_default :: VirtioBlkReqNode where
  "VirtioBlkReqNode_default = \<lparr>rn_req_type = 0, rn_reserved = 0, rn_sector = 0, rn_desc_chain_head_idx = 0,
     rn_iov = [], rn_iov_sum_up = 0, rn_iov_total = 0\<rparr>"

record VirtioBlkReq =
  br_start :: usize
  br_size :: usize
  br_mediated :: bool
  br_process_list :: "usize list"
  br_req_list :: "VirtioBlkReqNode list"

definition VirtioBlkReq_default :: VirtioBlkReq where
  "VirtioBlkReq_default = \<lparr>br_start = 0, br_size = 0, br_mediated = False, br_process_list = [], br_req_list = []\<rparr>"

definition add_req_node :: "VirtioBlkReqNode \<Rightarrow> VirtioBlkReq \<Rightarrow> VirtioBlkReq" where
  "add_req_node n r = r\<lparr>br_req_list := br_req_list r @ [n]\<rparr>"

datatype DevReq = BlkReq VirtioBlkReq | DevReqNone

record BlkStatInner =
  bs_read_req :: usize
  bs_write_req :: usize
  bs_read_byte :: usize
  bs_write_byte :: usize

definition BlkStatInner_default :: BlkStatInner where
  "BlkStatInner_default = \<lparr>bs_read_req = 0, bs_write_req = 0, bs_read_byte = 0, bs_write_byte = 0\<rparr>"

record NicStatInner =
  ns_send_req :: usize
  ns_receive_req :: usize
  ns_send_byte :: usize
  ns_receive_byte :: usize
  ns_discard :: usize

definition NicStatInner_default :: NicStatInner where
  "NicStatInner_default = \<lparr>ns_send_req = 0, ns_receive_req = 0, ns_send_byte = 0, ns_receive_byte = 0, ns_discard = 0\<rparr>"

datatype DevStat = BlkStat BlkStatInner | NicStat NicStatInner | DevStatNone

section \<open>Devices\<close>

record VirtDevInner =
  dv_activated :: bool
  dv_dev_type :: VirtioDeviceType
  dv_features :: u64
  dv_generation :: usize
  dv_int_id :: usize
  dv_desc :: DevDesc
  dv_req :: DevReq
  dv_cache :: "PageFrame option"
  dv_stat :: DevStat

definition VirtDevInner_default :: VirtDevInner where
  "VirtDevInner_default = \<lparr>dv_activated = False, dv_dev_type = VirtioNone, dv_features = 0, dv_generation = 0, dv_int_id = 0,
     dv_desc = DevDescNone, dv_req = DevReqNone, dv_cache = None, dv_stat = DevStatNone\<rparr>"

definition dev_mediated :: "VirtDevInner \<Rightarrow> bool" where
  "dev_mediated d = (case dv_req d of BlkReq r \<Rightarrow> br_mediated r | DevReqNone \<Rightarrow> False)"

definition dev_is_net :: "VirtDevInner \<Rightarrow> bool" where
  "dev_is_net d = (case dv_desc d of NetDesc _ \<Rightarrow> True | _ \<Rightarrow> False)"

text \<open>The features a network device offers, bit by bit.\<close>

definition net_features :: u64 where
  "net_features = VIRTIO_F_VERSION_1 OR push_bit 1 1 OR push_bit 5 1 OR push_bit 0 1 OR push_bit 7 1 OR push_bit 8 1 OR
     push_bit 10 1 OR push_bit 11 1 OR push_bit 12 1 OR push_bit 14 1 OR push_bit 13 1 OR push_bit 17 1 OR push_bit 21 1 OR push_bit 16 1"

definition console_features :: u64 where
  "console_features = VIRTIO_F_VERSION_1 OR push_bit 0 1"

text \<open>The cache pages; when the heap is exhausted the device keeps none.\<close>

definition alloc_cache :: "usize \<Rightarrow> VirtDevInner \<Rightarrow> phys \<Rightarrow> (VirtDevInner \<times> phys) option" where
  "alloc_cache n d p = do {
     (r, p) \<leftarrow> mem_pages_alloc p n;
     Some (case r of Inr page_frame \<Rightarrow> d\<lparr>dv_cache := Some page_frame\<rparr> | Inl _ \<Rightarrow> d, p) }"

definition VirtDevInner_init :: "VirtioDeviceType \<Rightarrow> VmEmulatedDeviceConfig \<Rightarrow> bool \<Rightarrow> VirtDevInner \<Rightarrow> phys \<Rightarrow> (VirtDevInner \<times> phys) option" where
  "VirtDevInner_init ty cfg mediated d p = do {
     let d = d\<lparr>dv_dev_type := ty, dv_int_id := ed_irq_id cfg\<rparr>;
     case ty of
       VirtioBlock \<Rightarrow> do {
         bsize \<leftarrow> vec_get (ed_cfg_list cfg) 1;
         start \<leftarrow> vec_get (ed_cfg_list cfg) 0;
         let d = d\<lparr>dv_desc := BlkDesc (blk_cfg_init bsize BlkDescInner_default),
           dv_features := dv_features d OR VIRTIO_BLK_F_SIZE_MAX OR VIRTIO_BLK_F_SEG_MAX OR VIRTIO_F_VERSION_1,
           dv_req := BlkReq (VirtioBlkReq_default\<lparr>br_start := start, br_mediated := mediated, br_size := bsize\<rparr>)\<rparr>;
         (d, p) \<leftarrow> alloc_cache BLOCKIF_IOV_MAX d p;
         Some (d\<lparr>dv_stat := BlkStat BlkStatInner_default\<rparr>, p) }
     | VirtioNet \<Rightarrow> do {
         n \<leftarrow> net_cfg_init (ed_cfg_list cfg) NetDescInner_default;
         let d = d\<lparr>dv_desc := NetDesc n, dv_features := dv_features d OR net_features\<rparr>;
         (d, p) \<leftarrow> alloc_cache 1 d p;
         Some (d\<lparr>dv_stat := NicStat NicStatInner_default\<rparr>, p) }
     | VirtioConsole \<Rightarrow> do {
         vmid \<leftarrow> vec_get (ed_cfg_list cfg) 0;
         ipa \<leftarrow> vec_get (ed_cfg_list cfg) 1;
         let d = d\<lparr>dv_desc := ConsoleDesc (console_cfg_init (of_nat vmid) (of_nat ipa) ConsoleDescInner_default),
           dv_features := dv_features d OR console_features\<rparr>;
         alloc_cache 1 d p }
     | VirtioNone \<Rightarrow> None }"

section \<open>The register block\<close>

record VirtMmioRegs =
  rg_magic :: u32
  rg_version :: u32
  rg_device_id :: u32
  rg_vendor_id :: u32
  rg_dev_feature :: u32
  rg_dev_feature_sel :: u32
  rg_drv_feature :: u32
  rg_drv_feature_sel :: u32
  rg_q_sel :: u32
  rg_q_num_max :: u32
  rg_irt_stat :: u32
  rg_irt_ack :: u32
  rg_dev_stat :: u32

definition VirtMmioRegs_default :: VirtMmioRegs where
  "VirtMmioRegs_default = \<lparr>rg_magic = 0, rg_version = 0, rg_device_id = 0, rg_vendor_id = 0, rg_dev_feature = 0,
     rg_dev_feature_sel = 0, rg_drv_feature = 0, rg_drv_feature_sel = 0, rg_q_sel = 0, rg_q_num_max = 0,
     rg_irt_stat = 0, rg_irt_ack = 0, rg_dev_stat = 0\<rparr>"

definition regs_init :: "VirtioDeviceType \<Rightarrow> VirtMmioRegs \<Rightarrow> VirtMmioRegs" where
  "regs_init ty r = r\<lparr>rg_magic := 0x74726976, rg_version := 2, rg_vendor_id := 0x8888, rg_device_id := virtio_type_num ty,
     rg_dev_feature := 0, rg_drv_feature := 0, rg_q_sel := 0\<rparr>"

record VirtioMmioInner =
  mi_id :: usize
  mi_driver_features :: u64
  mi_driver_status :: usize
  mi_regs :: VirtMmioRegs
  mi_dev :: VirtDevInner
  mi_vq :: "Virtq list"

definition VirtioMmioInner_new :: "usize \<Rightarrow> VirtioMmioInner" where
  "VirtioMmioInner_new ident = \<lparr>mi_id = ident, mi_driver_features = 0, mi_driver_status = 0, mi_regs = VirtMmioRegs_default,
     mi_dev = VirtDevInner_default, mi_vq = []\<rparr>"

type_synonym MmioRef = nat

section \<open>Migration data\<close>

record NetDescData =
  ndd_mac :: "u8 list"
  ndd_status :: u16

record ConsoleDescData =
  cdd_oppo_end_vmid :: u16
  cdd_oppo_end_ipa :: u64
  cdd_cols :: u16
  cdd_rows :: u16
  cdd_max_nr_ports :: u32
  cdd_emerg_wr :: u32

datatype DevDescData = BlkDescData | NetDescDataOf NetDescData | ConsoleDescDataOf ConsoleDescData | DevDescDataNone

record VirtDevData =
  vdd_activated :: bool
  vdd_dev_type :: VirtioDeviceType
  vdd_features :: u64
  vdd_generation :: usize
  vdd_int_id :: usize
  vdd_desc :: DevDescData

definition VirtDevData_default :: VirtDevData where
  "VirtDevData_default = \<lparr>vdd_activated = False, vdd_dev_type = VirtioNone, vdd_features = 0, vdd_generation = 0,
     vdd_int_id = 0, vdd_desc = DevDescDataNone\<rparr>"

record VirtioMmioData =
  vmd_id :: usize
  vmd_driver_features :: u64
  vmd_driver_status :: usize
  vmd_regs :: VirtMmioRegs
  vmd_dev :: VirtDevData
  vmd_oppo_dev :: VirtDevData
  vmd_vq :: "VirtqData list"

definition VirtioMmioData_default :: VirtioMmioData where
  "VirtioMmioData_default = \<lparr>vmd_id = 0, vmd_driver_features = 0, vmd_driver_status = 0, vmd_regs = VirtMmioRegs_default,
     vmd_dev = VirtDevData_default, vmd_oppo_dev = VirtDevData_default, vmd_vq = replicate 4 VirtqData_default\<rparr>"

definition restore_net_data :: "NetDescData \<Rightarrow> NetDescInner \<Rightarrow> NetDescInner" where
  "restore_net_data x d = d\<lparr>nd_mac := ndd_mac x, nd_status := ndd_status x\<rparr>"

definition save_net_data :: "NetDescInner \<Rightarrow> NetDescData \<Rightarrow> NetDescData" where
  "save_net_data d x = x\<lparr>ndd_mac := nd_mac d, ndd_status := nd_status d\<rparr>"

definition restore_console_data :: "ConsoleDescData \<Rightarrow> ConsoleDescInner \<Rightarrow> ConsoleDescInner" where
  "restore_console_data x d = d\<lparr>cd_cols := cdd_cols x, cd_rows := cdd_rows x, cd_max_nr_ports := cdd_max_nr_ports x, cd_emerg_wr := cdd_emerg_wr x\<rparr>"

definition save_console_data :: "ConsoleDescInner \<Rightarrow> ConsoleDescData \<Rightarrow> ConsoleDescData" where
  "save_console_data d x = x\<lparr>cdd_oppo_end_vmid := cd_oppo_end_vmid d, cdd_oppo_end_ipa := cd_oppo_end_ipa d, cdd_cols := cd_cols d,
     cdd_rows := cd_rows d, cdd_max_nr_ports := cd_max_nr_ports d, cdd_emerg_wr := cd_emerg_wr d\<rparr>"

text \<open>Block devices are \<open>todo!\<close> in both directions.\<close>

definition restore_virt_dev_data :: "VirtDevData \<Rightarrow> VirtDevInner \<Rightarrow> VirtDevInner option" where
  "restore_virt_dev_data x d = do {
     let d = d\<lparr>dv_activated := vdd_activated x, dv_dev_type := vdd_dev_type x, dv_features := vdd_features x,
       dv_generation := vdd_generation x, dv_int_id := vdd_int_id x\<rparr>;
     case dv_desc d of
       BlkDesc _ \<Rightarrow> None
     | NetDesc n \<Rightarrow> Some (case vdd_desc x of NetDescDataOf y \<Rightarrow> d\<lparr>dv_desc := NetDesc (restore_net_data y n)\<rparr> | _ \<Rightarrow> d)
     | ConsoleDesc c \<Rightarrow> Some (case vdd_desc x of ConsoleDescDataOf y \<Rightarrow> d\<lparr>dv_desc := ConsoleDesc (restore_console_data y c)\<rparr> | _ \<Rightarrow> d)
     | DevDescNone \<Rightarrow> Some d }"

definition save_virt_dev_data :: "VirtDevInner \<Rightarrow> VirtDevData \<Rightarrow> (VirtDevInner \<times> VirtDevData) option" where
  "save_virt_dev_data d x = do {
     let x = x\<lparr>vdd_activated := dv_activated d, vdd_dev_type := dv_dev_type d, vdd_features := dv_features d,
       vdd_generation := dv_generation d, vdd_int_id := dv_int_id d\<rparr>;
     x \<leftarrow> (case dv_desc d of
         BlkDesc _ \<Rightarrow> None
       | NetDesc n \<Rightarrow> Some (x\<lparr>vdd_desc := NetDescDataOf (save_net_data n \<lparr>ndd_mac = replicate 6 0, ndd_status = 0\<rparr>)\<rparr>)
       | ConsoleDesc c \<Rightarrow> Some (x\<lparr>vdd_desc := ConsoleDescDataOf (save_console_data c \<lparr>cdd_oppo_end_vmid = 0, cdd_oppo_end_ipa = 0,
           cdd_cols = 0, cdd_rows = 0, cdd_max_nr_ports = 0, cdd_emerg_wr = 0\<rparr>)\<rparr>)
       | DevDescNone \<Rightarrow> Some x);
     Some (d\<lparr>dv_activated := False\<rparr>, x) }"

definition restore_mmio_data :: "VirtioMmioData \<Rightarrow> VmPa list \<Rightarrow> VirtioMmioInner \<Rightarrow> VirtioMmioInner option" where
  "restore_mmio_data x regions i = do {
     dev \<leftarrow> restore_virt_dev_data (vmd_dev x) (mi_dev i);
     let i = i\<lparr>mi_driver_features := vmd_driver_features x, mi_driver_status := vmd_driver_status x, mi_regs := vmd_regs x, mi_dev := dev\<rparr>;
     vqs \<leftarrow> for_range 0 (length (mi_vq i)) (\<lambda>k vqs. do {
       q \<leftarrow> vec_get vqs k;
       y \<leftarrow> vec_get (vmd_vq x) k;
       q \<leftarrow> restore_vq_data q y regions;
       vec_set vqs k q }) (mi_vq i);
     Some (i\<lparr>mi_vq := vqs\<rparr>) }"

definition save_mmio_data :: "VirtioMmioInner \<Rightarrow> VirtioMmioData \<Rightarrow> (VirtioMmioInner \<times> VirtioMmioData) option" where
  "save_mmio_data i x = do {
     let x = x\<lparr>vmd_id := mi_id i, vmd_driver_features := mi_driver_features i, vmd_driver_status := mi_driver_status i, vmd_regs := mi_regs i\<rparr>;
     (dev, y) \<leftarrow> save_virt_dev_data (mi_dev i) (vmd_dev x);
     vqs \<leftarrow> for_range 0 (length (mi_vq i)) (\<lambda>k vqs. do {
       q \<leftarrow> vec_get (mi_vq i) k;
       y \<leftarrow> vec_get vqs k;
       vec_set vqs k (save_vq_data q y) }) (vmd_vq x);
     Some (i\<lparr>mi_dev := dev\<rparr>, x\<lparr>vmd_dev := y, vmd_vq := vqs\<rparr>) }"

section \<open>Live update\<close>

definition save_regs :: "VirtMmioRegs \<Rightarrow> VirtMmioRegs \<Rightarrow> VirtMmioRegs" where
  "save_regs dst src = dst\<lparr>rg_magic := rg_magic src, rg_version := rg_version src, rg_device_id := rg_device_id src,
     rg_vendor_id := rg_vendor_id src, rg_dev_feature := rg_dev_feature src, rg_dev_feature_sel := rg_dev_feature_sel src,
     rg_drv_feature := rg_drv_feature src, rg_drv_feature_sel := rg_drv_feature_sel src, rg_q_sel := rg_q_sel src,
     rg_q_num_max := rg_q_num_max src, rg_irt_stat := rg_irt_stat src, rg_irt_ack := rg_irt_ack src, rg_dev_stat := rg_dev_stat src\<rparr>"

text \<open>
  \<open>PageFrame::new\<close> makes a second owner of the cache pages.  The counters, the requests and the
  network and console descriptions are copied; the block description is shared with the source,
  which the update drops.
\<close>

definition save_virt_dev :: "VirtDevInner \<Rightarrow> VirtDevInner \<Rightarrow> VirtDevInner option" where
  "save_virt_dev dst src = do {
     cache \<leftarrow> (case dv_cache src of None \<Rightarrow> Some None | Some page \<Rightarrow> do { pf \<leftarrow> PageFrame_new (pf_pa page) (pf_page_num page); Some (Some pf) });
     Some (dst\<lparr>dv_activated := dv_activated src, dv_dev_type := dv_dev_type src, dv_features := dv_features src,
       dv_generation := dv_generation src, dv_int_id := dv_int_id src, dv_desc := dv_desc src, dv_req := dv_req src,
       dv_cache := cache, dv_stat := dv_stat src\<rparr>) }"

definition save_mmio :: "VirtioMmioInner \<Rightarrow> VirtioMmioInner \<Rightarrow> NotifyHandler option \<Rightarrow> VirtioMmioInner option" where
  "save_mmio dst src h = do {
     dev \<leftarrow> save_virt_dev (mi_dev dst) (mi_dev src);
     let qs = map (\<lambda>(idx, q). save_vq Virtq_default q
         (if dev_is_net (mi_dev src) \<and> idx = length (mi_vq src) - 1 \<and> idx mod 2 = 0 then Some virtio_net_handle_ctrl else h))
       (enumerate 0 (mi_vq src));
     Some (dst\<lparr>mi_id := mi_id src, mi_driver_features := mi_driver_features src, mi_driver_status := mi_driver_status src,
       mi_regs := save_regs (mi_regs dst) (mi_regs src), mi_dev := dev, mi_vq := mi_vq dst @ qs\<rparr>) }"

section \<open>A migrated device\<close>

text \<open>
  The references of a queue follow from the addresses the driver programmed; a queue the driver
  never set up has none.
\<close>

definition ref_of_ipa :: "VmPa list \<Rightarrow> u64 \<Rightarrow> usize option \<Rightarrow> bool" where
  "ref_of_ipa rs a r \<longleftrightarrow> (\<exists>x. ipa2pa rs (unat a) = Some x \<and> r = (if x \<noteq> 0 then Some x else None))"

definition vq_portable :: "VmPa list \<Rightarrow> Virtq \<Rightarrow> bool" where
  "vq_portable rs q \<longleftrightarrow> ref_of_ipa rs (vq_desc_table_addr q) (vq_desc_table q) \<and> ref_of_ipa rs (vq_avail_addr q) (vq_avail q) \<and>
     ref_of_ipa rs (vq_used_addr q) (vq_used q)"

definition vq_unset :: "Virtq \<Rightarrow> bool" where
  "vq_unset q \<longleftrightarrow> vq_desc_table q = None \<and> vq_avail q = None \<and> vq_used q = None"

fun same_kind :: "DevDesc \<Rightarrow> DevDesc \<Rightarrow> bool" where
  "same_kind (NetDesc _) (NetDesc _) = True"
| "same_kind (ConsoleDesc _) (ConsoleDesc _) = True"
| "same_kind _ _ = False"

text \<open>What the driver of the guest sees of a device; a console also has a peer, which belongs to the place.\<close>

fun desc_view :: "DevDesc \<Rightarrow> DevDesc" where
  "desc_view (ConsoleDesc c) = ConsoleDesc (c\<lparr>cd_oppo_end_vmid := 0, cd_oppo_end_ipa := 0\<rparr>)"
| "desc_view d = d"

lemma restore_save_vq:
  assumes "vq_portable rs q" "vq_unset q'"
  shows "restore_vq_data q' (save_vq_data q x) rs = Some (q\<lparr>vq_notify_handler := vq_notify_handler q'\<rparr>)"
  using assms by (cases q; cases q') (auto simp: vq_portable_def ref_of_ipa_def vq_unset_def restore_vq_data_def save_vq_data_def)

lemma for_range_pointwise:
  assumes "\<And>k v. k < n \<Longrightarrow> v \<in> A \<Longrightarrow> length v = L \<Longrightarrow> v ! k = xs ! k \<Longrightarrow> f k v = Some (v[k := F k]) \<and> v[k := F k] \<in> A"
    and "n \<le> L" "length xs = L" "xs \<in> A"
  shows "\<exists>ys. for_range 0 n f xs = Some ys \<and> length ys = L \<and> (\<forall>k < n. ys ! k = F k)"
proof -
  let ?I = "\<lambda>k v. v \<in> A \<and> length v = L \<and> (\<forall>j < k. v ! j = F j) \<and> (\<forall>j. k \<le> j \<longrightarrow> j < L \<longrightarrow> v ! j = xs ! j)"
  have "\<exists>ys. for_range 0 n f xs = Some ys \<and> ?I n ys"
  proof (rule for_range_total)
    fix k v assume k: "0 \<le> k" "k < n" and i: "?I k v"
    then have "f k v = Some (v[k := F k]) \<and> v[k := F k] \<in> A" using assms(1)[of k v] assms(2) by auto
    moreover have "v[k := F k] ! j = F j" if "j < Suc k" for j
      using that i k assms(2) by (cases "j = k") auto
    ultimately show "\<exists>s'. f k v = Some s' \<and> ?I (Suc k) s'" using i by auto
  qed (use assms in auto)
  then show ?thesis by auto
qed

lemma save_mmio_queues:
  assumes "save_mmio_data src x = Some (src', x')" "length (vmd_vq x) = 4" "length (mi_vq src) \<le> 4"
  shows "length (vmd_vq x') = 4" "\<And>k. k < length (mi_vq src) \<Longrightarrow> \<exists>y. vmd_vq x' ! k = save_vq_data (mi_vq src ! k) y"
proof -
  let ?f = "\<lambda>k vqs. do { q \<leftarrow> vec_get (mi_vq src) k; y \<leftarrow> vec_get vqs k; vec_set vqs k (save_vq_data q y) }"
  have "\<exists>ys. for_range 0 (length (mi_vq src)) ?f (vmd_vq x) = Some ys \<and> length ys = 4 \<and>
      (\<forall>k < length (mi_vq src). ys ! k = save_vq_data (mi_vq src ! k) (vmd_vq x ! k))"
    by (rule for_range_pointwise[where A = UNIV]) (use assms in auto)
  then obtain ys where ys: "for_range 0 (length (mi_vq src)) ?f (vmd_vq x) = Some ys" "length ys = 4"
    "\<forall>k < length (mi_vq src). ys ! k = save_vq_data (mi_vq src ! k) (vmd_vq x ! k)" by blast
  then have "vmd_vq x' = ys" using assms(1) by (auto simp: save_mmio_data_def Let_def panic_simps)
  with ys show "length (vmd_vq x') = 4" "\<And>k. k < length (mi_vq src) \<Longrightarrow> \<exists>y. vmd_vq x' ! k = save_vq_data (mi_vq src ! k) y" by auto
qed

text \<open>
  Migrating a network or console device loses nothing: the copy restored on a fresh device of
  the same kind has the registers, the negotiated features, the description and every queue of the
  original, which stops being active.  The notify handlers, and the peer of a console, are those of
  the new place.
\<close>

theorem save_restore_mmio_data:
  assumes save: "save_mmio_data src x = Some (src', x')" and len: "length (vmd_vq x) = 4" "length (mi_vq src) \<le> 4"
    and dst: "length (mi_vq dst) = length (mi_vq src)" "same_kind (dv_desc (mi_dev src)) (dv_desc (mi_dev dst))" "\<forall>q \<in> set (mi_vq dst). vq_unset q"
    and port: "\<forall>q \<in> set (mi_vq src). vq_portable rs q"
  shows "\<exists>dst'. restore_mmio_data x' rs dst = Some dst' \<and> mi_regs dst' = mi_regs src \<and> mi_driver_features dst' = mi_driver_features src \<and>
    mi_driver_status dst' = mi_driver_status src \<and> desc_view (dv_desc (mi_dev dst')) = desc_view (dv_desc (mi_dev src)) \<and>
    dv_activated (mi_dev dst') = dv_activated (mi_dev src) \<and> dv_features (mi_dev dst') = dv_features (mi_dev src) \<and>
    dv_int_id (mi_dev dst') = dv_int_id (mi_dev src) \<and> \<not> dv_activated (mi_dev src') \<and> length (mi_vq dst') = length (mi_vq src) \<and>
    (\<forall>k < length (mi_vq src). mi_vq dst' ! k = (mi_vq src ! k)\<lparr>vq_notify_handler := vq_notify_handler (mi_vq dst ! k)\<rparr>)"
proof -
  note qs = save_mmio_queues[OF save len]
  obtain dev where dev: "restore_virt_dev_data (vmd_dev x') (mi_dev dst) = Some dev"
    "desc_view (dv_desc dev) = desc_view (dv_desc (mi_dev src))" "dv_activated dev = dv_activated (mi_dev src)"
    "dv_features dev = dv_features (mi_dev src)" "dv_int_id dev = dv_int_id (mi_dev src)"
    using save dst(2)
    by (cases "dv_desc (mi_dev src)"; cases "dv_desc (mi_dev dst)")
      (auto simp: save_mmio_data_def save_virt_dev_data_def restore_virt_dev_data_def save_net_data_def restore_net_data_def
        save_console_data_def restore_console_data_def Let_def panic_simps)
  let ?f = "\<lambda>k vqs. do { q \<leftarrow> vec_get vqs k; y \<leftarrow> vec_get (vmd_vq x') k; q \<leftarrow> restore_vq_data q y rs; vec_set vqs k q }"
  let ?F = "\<lambda>k. (mi_vq src ! k)\<lparr>vq_notify_handler := vq_notify_handler (mi_vq dst ! k)\<rparr>"
  have "\<exists>ys. for_range 0 (length (mi_vq dst)) ?f (mi_vq dst) = Some ys \<and> length ys = length (mi_vq dst) \<and> (\<forall>k < length (mi_vq dst). ys ! k = ?F k)"
  proof (rule for_range_pointwise[where A = UNIV])
    fix k v assume k: "k < length (mi_vq dst)" "length v = length (mi_vq dst)" "v ! k = mi_vq dst ! k"
    obtain y where "vmd_vq x' ! k = save_vq_data (mi_vq src ! k) y" using qs(2)[of k] k dst(1) by auto
    moreover have "vq_portable rs (mi_vq src ! k)" "vq_unset (mi_vq dst ! k)" using k dst port by auto
    ultimately show "?f k v = Some (v[k := ?F k]) \<and> v[k := ?F k] \<in> UNIV" using k qs(1) len dst(1) by (simp add: restore_save_vq)
  qed auto
  then obtain ys where ys: "for_range 0 (length (mi_vq dst)) ?f (mi_vq dst) = Some ys" "length ys = length (mi_vq dst)"
    "\<forall>k < length (mi_vq dst). ys ! k = ?F k" by blast
  have "vmd_regs x' = mi_regs src" "vmd_driver_features x' = mi_driver_features src" "vmd_driver_status x' = mi_driver_status src"
    "\<not> dv_activated (mi_dev src')"
    using save by (auto simp: save_mmio_data_def save_virt_dev_data_def Let_def panic_simps)
  with ys dev dst(1) show ?thesis by (simp add: restore_mmio_data_def)
qed

definition net_example :: "Virtq list \<Rightarrow> u8 list \<Rightarrow> VirtioMmioInner" where
  "net_example qs mac = (VirtioMmioInner_new 0)\<lparr>mi_vq := qs,
     mi_dev := VirtDevInner_default\<lparr>dv_activated := True, dv_desc := NetDesc \<lparr>nd_mac = mac, nd_status = 1\<rparr>\<rparr>\<rparr>"

definition rx_example :: Virtq where
  "rx_example = Virtq_default\<lparr>vq_ready := 1, vq_num := 4, vq_last_avail_idx := 9, vq_desc_table_addr := 0x40000000,
     vq_avail_addr := 0x40001000, vq_used_addr := 0x40002000, vq_desc_table := Some 0x50000000, vq_avail := Some 0x50001000,
     vq_used := Some 0x50002000\<rparr>"

theorem save_restore_mmio_data_witness:
  "\<exists>src' x' dst'. save_mmio_data (net_example [rx_example, Virtq_default] [2, 0, 0, 0, 0, 1]) VirtioMmioData_default = Some (src', x') \<and>
     restore_mmio_data x' guest_regions (net_example [Virtq_default, Virtq_default] [0, 0, 0, 0, 0, 0]) = Some dst' \<and>
     dv_desc (mi_dev dst') = NetDesc \<lparr>nd_mac = [2, 0, 0, 0, 0, 1], nd_status = 1\<rparr> \<and> mi_vq dst' ! 0 = rx_example"
proof -
  let ?src = "net_example [rx_example, Virtq_default] [2, 0, 0, 0, 0, 1]"
    and ?dst = "net_example [Virtq_default, Virtq_default] [0, 0, 0, 0, 0, 0]"
  have "\<exists>src' x'. save_mmio_data ?src VirtioMmioData_default = Some (src', x')"
    by (simp add: save_mmio_data_def save_virt_dev_data_def net_example_def VirtioMmioInner_new_def VirtioMmioData_default_def for_range_def upt_rec)
  then obtain src' x' where save: "save_mmio_data ?src VirtioMmioData_default = Some (src', x')" by blast
  have "vq_portable guest_regions rx_example" "vq_portable guest_regions Virtq_default"
    by (simp_all add: vq_portable_def ref_of_ipa_def rx_example_def Virtq_default_def guest_regions_def ipa2pa_def isub_def as_isize_def
      as_usize_def in_range_def range_in_range_def)
  moreover have "vq_unset Virtq_default" by (simp add: vq_unset_def Virtq_default_def)
  ultimately obtain dst' where "restore_mmio_data x' guest_regions ?dst = Some dst'"
    "desc_view (dv_desc (mi_dev dst')) = desc_view (dv_desc (mi_dev ?src))"
    "\<forall>k < length (mi_vq ?src). mi_vq dst' ! k = (mi_vq ?src ! k)\<lparr>vq_notify_handler := vq_notify_handler (mi_vq ?dst ! k)\<rparr>"
    using save_restore_mmio_data[OF save, of ?dst guest_regions] by (auto simp: net_example_def VirtioMmioData_default_def)
  with save show ?thesis
    by (cases "dv_desc (mi_dev dst')") (auto simp: net_example_def rx_example_def Virtq_default_def)
qed

end
