(* ===== verification/Mmio.thy ===== *)
theory Mmio
  imports VirtioDev
begin

text \<open>
  The virtio register window: \<open>src/src/device/virtio/mmio.rs\<close>, on the state of the whole system.

  \<open>Sys\<close> holds the machine of theory \<open>Machine\<close>, the page heap, the bytes of physical memory, the
  rings, the devices and the tasks of \<open>src/src/kernel/async_task.rs\<close>.  The rings are objects of their
  own (theory \<open>Virtq\<close>); the data buffers are bytes.  \<open>s_beyond\<close> is what the hypervisor's heap holds
  around a device description, \<open>s_stack\<close> the address of the locals a device handler keeps on its
  stack.
\<close>

section \<open>Tasks\<close>

datatype AsyncTaskState = TaskPending | TaskRunning | TaskFinish

datatype AsyncExeStatus = ExePending | ExeScheduling

record UsedInfo =
  ui_desc_chain_head_idx :: u32
  ui_used_len :: u32

text \<open>A queue is named by its place in the device \<open>io_dev\<close>, \<open>id_dev\<close> or \<open>blk\<close>.\<close>

record IoAsyncMsg =
  io_src_vmid :: usize
  io_vq :: usize
  io_dev :: MmioRef
  io_type :: usize
  io_blk_id :: usize
  io_sector :: usize
  io_count :: usize
  io_cache :: usize
  io_iov_list :: "BlkIov list"

record IoIdAsyncMsg =
  id_vq :: usize
  id_dev :: MmioRef

record IpiMediatedMsg =
  im_src_id :: usize
  im_vq :: usize
  im_blk :: MmioRef

datatype AsyncTaskData = AsyncIpiTask IpiMediatedMsg | AsyncIoTask IoAsyncMsg | AsyncNoneTask IoIdAsyncMsg

datatype AsyncFuture = async_ipi_req_fut | async_blk_id_req_fut | async_blk_io_req_fut

text \<open>The state of a task is shared by its clones: \<open>at_state\<close> is a reference into \<open>s_task_states\<close>.\<close>

record AsyncTask =
  at_task_data :: AsyncTaskData
  at_src_vmid :: usize
  at_priority :: usize
  at_state :: nat
  at_task :: AsyncFuture

record Sys =
  s_m :: Machine
  s_phys :: phys
  s_mem :: Bytes
  s_vring :: VringMem
  s_mmio :: "MmioRef \<Rightarrow> VirtioMmioInner"
  s_next_mmio :: nat
  s_exe_status :: AsyncExeStatus
  s_ipi_tasks :: "AsyncTask list"
  s_io_tasks :: "AsyncTask FairQueue"
  s_used_info :: "(usize \<times> UsedInfo list) list"
  s_task_states :: "nat \<Rightarrow> AsyncTaskState"
  s_next_task :: nat
  s_share_mem :: "(usize \<times> usize) list"
  s_state_flag :: usize
  s_beyond :: "usize \<Rightarrow> u8"
  s_stack :: usize

definition on_m :: "(Machine \<Rightarrow> Machine option) \<Rightarrow> Sys \<Rightarrow> Sys option" where
  "on_m f s = do { m \<leftarrow> f (s_m s); Some (s\<lparr>s_m := m\<rparr>) }"

definition on_m_ret :: "(Machine \<Rightarrow> ('a \<times> Machine) option) \<Rightarrow> Sys \<Rightarrow> ('a \<times> Sys) option" where
  "on_m_ret f s = do { (r, m) \<leftarrow> f (s_m s); Some (r, s\<lparr>s_m := m\<rparr>) }"

definition upd_mmio :: "MmioRef \<Rightarrow> (VirtioMmioInner \<Rightarrow> VirtioMmioInner) \<Rightarrow> Sys \<Rightarrow> Sys" where
  "upd_mmio r f s = s\<lparr>s_mmio := (s_mmio s)(r := f (s_mmio s r))\<rparr>"

definition upd_regs :: "MmioRef \<Rightarrow> (VirtMmioRegs \<Rightarrow> VirtMmioRegs) \<Rightarrow> Sys \<Rightarrow> Sys" where
  "upd_regs r f = upd_mmio r (\<lambda>i. i\<lparr>mi_regs := f (mi_regs i)\<rparr>)"

definition upd_dev :: "MmioRef \<Rightarrow> (VirtDevInner \<Rightarrow> VirtDevInner) \<Rightarrow> Sys \<Rightarrow> Sys" where
  "upd_dev r f = upd_mmio r (\<lambda>i. i\<lparr>mi_dev := f (mi_dev i)\<rparr>)"

text \<open>\<open>VirtioMmio::vq\<close>; the error of an index out of range is a sum value in the source.\<close>

definition mmio_vq :: "Sys \<Rightarrow> MmioRef \<Rightarrow> usize \<Rightarrow> unit + Virtq" where
  "mmio_vq s r idx = (let qs = mi_vq (s_mmio s r) in if idx \<ge> length qs then Inl () else Inr (qs ! idx))"

text \<open>Writing back a queue through its \<open>Arc\<close>, and an operation on it that may panic.\<close>

definition put_vq :: "MmioRef \<Rightarrow> usize \<Rightarrow> Virtq \<Rightarrow> Sys \<Rightarrow> Sys" where
  "put_vq r idx q = upd_mmio r (\<lambda>i. i\<lparr>mi_vq := (mi_vq i)[idx := q]\<rparr>)"

definition on_vq :: "MmioRef \<Rightarrow> usize \<Rightarrow> (Virtq \<Rightarrow> Virtq option) \<Rightarrow> Sys \<Rightarrow> Sys option" where
  "on_vq r idx f s = do {
     q \<leftarrow> vec_get (mi_vq (s_mmio s r)) idx;
     q \<leftarrow> f q;
     Some (put_vq r idx q s) }"

definition sys_ipa2pa :: "Sys \<Rightarrow> VmRef \<Rightarrow> usize \<Rightarrow> usize option" where
  "sys_ipa2pa s r ipa = vm_ipa2pa (vm_mem_region_num (m_vms (s_m s) r)) (vm_pa_region (m_vms (s_m s) r)) ipa"

section \<open>Registers of the window\<close>

definition VIRTIO_MMIO_MAGIC_VALUE :: usize where "VIRTIO_MMIO_MAGIC_VALUE = 0x000"
definition VIRTIO_MMIO_VERSION :: usize where "VIRTIO_MMIO_VERSION = 0x004"
definition VIRTIO_MMIO_DEVICE_ID :: usize where "VIRTIO_MMIO_DEVICE_ID = 0x008"
definition VIRTIO_MMIO_VENDOR_ID :: usize where "VIRTIO_MMIO_VENDOR_ID = 0x00c"
definition VIRTIO_MMIO_HOST_FEATURES :: usize where "VIRTIO_MMIO_HOST_FEATURES = 0x010"
definition VIRTIO_MMIO_HOST_FEATURES_SEL :: usize where "VIRTIO_MMIO_HOST_FEATURES_SEL = 0x014"
definition VIRTIO_MMIO_GUEST_FEATURES :: usize where "VIRTIO_MMIO_GUEST_FEATURES = 0x020"
definition VIRTIO_MMIO_GUEST_FEATURES_SEL :: usize where "VIRTIO_MMIO_GUEST_FEATURES_SEL = 0x024"
definition VIRTIO_MMIO_QUEUE_SEL :: usize where "VIRTIO_MMIO_QUEUE_SEL = 0x030"
definition VIRTIO_MMIO_QUEUE_NUM_MAX :: usize where "VIRTIO_MMIO_QUEUE_NUM_MAX = 0x034"
definition VIRTIO_MMIO_QUEUE_NUM :: usize where "VIRTIO_MMIO_QUEUE_NUM = 0x038"
definition VIRTIO_MMIO_QUEUE_READY :: usize where "VIRTIO_MMIO_QUEUE_READY = 0x044"
definition VIRTIO_MMIO_QUEUE_NOTIFY :: usize where "VIRTIO_MMIO_QUEUE_NOTIFY = 0x050"
definition VIRTIO_MMIO_INTERRUPT_STATUS :: usize where "VIRTIO_MMIO_INTERRUPT_STATUS = 0x060"
definition VIRTIO_MMIO_INTERRUPT_ACK :: usize where "VIRTIO_MMIO_INTERRUPT_ACK = 0x064"
definition VIRTIO_MMIO_STATUS :: usize where "VIRTIO_MMIO_STATUS = 0x070"
definition VIRTIO_MMIO_QUEUE_DESC_LOW :: usize where "VIRTIO_MMIO_QUEUE_DESC_LOW = 0x080"
definition VIRTIO_MMIO_QUEUE_DESC_HIGH :: usize where "VIRTIO_MMIO_QUEUE_DESC_HIGH = 0x084"
definition VIRTIO_MMIO_QUEUE_AVAIL_LOW :: usize where "VIRTIO_MMIO_QUEUE_AVAIL_LOW = 0x090"
definition VIRTIO_MMIO_QUEUE_AVAIL_HIGH :: usize where "VIRTIO_MMIO_QUEUE_AVAIL_HIGH = 0x094"
definition VIRTIO_MMIO_QUEUE_USED_LOW :: usize where "VIRTIO_MMIO_QUEUE_USED_LOW = 0x0a0"
definition VIRTIO_MMIO_QUEUE_USED_HIGH :: usize where "VIRTIO_MMIO_QUEUE_USED_HIGH = 0x0a4"
definition VIRTIO_MMIO_CONFIG_GENERATION :: usize where "VIRTIO_MMIO_CONFIG_GENERATION = 0x0fc"
definition VIRTIO_MMIO_CONFIG :: usize where "VIRTIO_MMIO_CONFIG = 0x100"
definition VIRTIO_MMIO_REGS_END :: usize where "VIRTIO_MMIO_REGS_END = 0x200"
definition VIRTIO_MMIO_INT_VRING :: u32 where "VIRTIO_MMIO_INT_VRING = 1"
definition VIRTIO_MMIO_INT_CONFIG :: u32 where "VIRTIO_MMIO_INT_CONFIG = 2"

lemmas mmio_offsets =
  VIRTIO_MMIO_MAGIC_VALUE_def VIRTIO_MMIO_VERSION_def VIRTIO_MMIO_DEVICE_ID_def VIRTIO_MMIO_VENDOR_ID_def
  VIRTIO_MMIO_HOST_FEATURES_def VIRTIO_MMIO_HOST_FEATURES_SEL_def VIRTIO_MMIO_GUEST_FEATURES_def
  VIRTIO_MMIO_GUEST_FEATURES_SEL_def VIRTIO_MMIO_QUEUE_SEL_def VIRTIO_MMIO_QUEUE_NUM_MAX_def VIRTIO_MMIO_QUEUE_NUM_def
  VIRTIO_MMIO_QUEUE_READY_def VIRTIO_MMIO_QUEUE_NOTIFY_def VIRTIO_MMIO_INTERRUPT_STATUS_def VIRTIO_MMIO_INTERRUPT_ACK_def
  VIRTIO_MMIO_STATUS_def VIRTIO_MMIO_QUEUE_DESC_LOW_def VIRTIO_MMIO_QUEUE_DESC_HIGH_def VIRTIO_MMIO_QUEUE_AVAIL_LOW_def
  VIRTIO_MMIO_QUEUE_AVAIL_HIGH_def VIRTIO_MMIO_QUEUE_USED_LOW_def VIRTIO_MMIO_QUEUE_USED_HIGH_def
  VIRTIO_MMIO_CONFIG_GENERATION_def VIRTIO_MMIO_CONFIG_def VIRTIO_MMIO_REGS_END_def

section \<open>Creation and reset\<close>

definition init_queues :: "NotifyHandler \<Rightarrow> usize \<Rightarrow> Virtq list" where
  "init_queues h n = map (\<lambda>i. set_notify_handler (Virtq_reset Virtq_default i) h) [0..<n]"

definition virtio_queue_init :: "MmioRef \<Rightarrow> VirtioDeviceType \<Rightarrow> Sys \<Rightarrow> Sys option" where
  "virtio_queue_init r ty s = (case ty of
     VirtioBlock \<Rightarrow>
       let s = upd_regs r (\<lambda>g. g\<lparr>rg_q_num_max := of_nat VIRTQUEUE_BLK_MAX_SIZE\<rparr>) s;
           h = (if dev_mediated (mi_dev (s_mmio s r)) then virtio_mediated_blk_notify_handler else virtio_blk_notify_handler)
       in Some (upd_mmio r (\<lambda>i. i\<lparr>mi_vq := mi_vq i @ init_queues h 1\<rparr>) s)
   | VirtioNet \<Rightarrow> do {
       let s = upd_regs r (\<lambda>g. g\<lparr>rg_q_num_max := of_nat VIRTQUEUE_NET_MAX_SIZE\<rparr>) s;
       let qs = mi_vq (s_mmio s r) @ init_queues virtio_net_notify_handler 2 @ [Virtq_default];
       q \<leftarrow> vec_get qs 2;
       Some (upd_mmio r (\<lambda>i. i\<lparr>mi_vq := qs[2 := set_notify_handler (Virtq_reset q 2) virtio_net_handle_ctrl]\<rparr>) s) }
   | VirtioConsole \<Rightarrow>
       let s = upd_regs r (\<lambda>g. g\<lparr>rg_q_num_max := of_nat VIRTQUEUE_CONSOLE_MAX_SIZE\<rparr>) s
       in Some (upd_mmio r (\<lambda>i. i\<lparr>mi_vq := mi_vq i @ init_queues virtio_console_notify_handler 4\<rparr>) s)
   | VirtioNone \<Rightarrow> None)"

definition virtio_queue_reset :: "MmioRef \<Rightarrow> usize \<Rightarrow> Sys \<Rightarrow> Sys option" where
  "virtio_queue_reset r index = on_vq r index (\<lambda>q. Some (Virtq_reset q index))"

definition VirtioMmio_new :: "usize \<Rightarrow> Sys \<Rightarrow> MmioRef \<times> Sys" where
  "VirtioMmio_new ident s = (s_next_mmio s,
     s\<lparr>s_mmio := (s_mmio s)(s_next_mmio s := VirtioMmioInner_new ident), s_next_mmio := s_next_mmio s + 1\<rparr>)"

definition mmio_reg_init :: "MmioRef \<Rightarrow> VirtioDeviceType \<Rightarrow> Sys \<Rightarrow> Sys" where
  "mmio_reg_init r ty = upd_regs r (regs_init ty)"

definition dev_init :: "MmioRef \<Rightarrow> VirtioDeviceType \<Rightarrow> VmEmulatedDeviceConfig \<Rightarrow> bool \<Rightarrow> Sys \<Rightarrow> Sys option" where
  "dev_init r ty cfg mediated s = do {
     (d, p) \<leftarrow> VirtDevInner_init ty cfg mediated (mi_dev (s_mmio s r)) (s_phys s);
     Some (upd_dev r (\<lambda>_. d) (s\<lparr>s_phys := p\<rparr>)) }"

text \<open>\<open>inner.vq[idx]\<close> panics when the driver selected a queue the device does not have.\<close>

definition dev_reset :: "MmioRef \<Rightarrow> Sys \<Rightarrow> Sys option" where
  "dev_reset r s = do {
     let s = upd_regs r (\<lambda>g. g\<lparr>rg_dev_stat := 0, rg_irt_stat := 0\<rparr>) s;
     s \<leftarrow> on_vq r (unat (rg_q_sel (mi_regs (s_mmio s r)))) (\<lambda>q. Some (set_ready q 0)) s;
     let s = upd_mmio r (\<lambda>i. i\<lparr>mi_vq := map (\<lambda>(idx, q). Virtq_reset q idx) (enumerate 0 (mi_vq i))\<rparr>) s;
     Some (upd_dev r (\<lambda>d. d\<lparr>dv_activated := False\<rparr>) s) }"

section \<open>Interrupting the driver\<close>

definition notify_int :: "u32 \<Rightarrow> MmioRef \<Rightarrow> VmRef \<Rightarrow> Sys \<Rightarrow> Sys option" where
  "notify_int b r vmr s = do {
     let s = upd_regs r (\<lambda>g. g\<lparr>rg_irt_stat := rg_irt_stat g OR b\<rparr>) s;
     let int_id = dv_int_id (mi_dev (s_mmio s r));
     vo \<leftarrow> vm_vcpu (s_m s) vmr 0;
     v \<leftarrow> vo;
     let trgt_id = vc_phys_id (m_vcpus (s_m s) v);
     if trgt_id = this_cpu (s_m s) then on_m (interrupt_vm_inject vmr v int_id) s
     else do {
       (_, s) \<leftarrow> on_m_ret (ipi_send_msg trgt_id IpiTIntInject (IntInjectMsg (vm_id (m_vms (s_m s) vmr)) int_id)) s;
       Some s } }"

definition notify_config :: "MmioRef \<Rightarrow> VmRef \<Rightarrow> Sys \<Rightarrow> Sys option" where
  "notify_config = notify_int VIRTIO_MMIO_INT_CONFIG"

definition mmio_notify :: "MmioRef \<Rightarrow> VmRef \<Rightarrow> Sys \<Rightarrow> Sys option" where
  "mmio_notify = notify_int VIRTIO_MMIO_INT_VRING"

section \<open>Accesses of the driver\<close>

text \<open>\<open>set_drv_feature_sel\<close> of the source writes \<open>drv_feature\<close>.\<close>

definition set_drv_feature_sel :: "u32 \<Rightarrow> VirtMmioRegs \<Rightarrow> VirtMmioRegs" where
  "set_drv_feature_sel v g = g\<lparr>rg_drv_feature := v\<rparr>"

definition or_driver_feature :: "MmioRef \<Rightarrow> u64 \<Rightarrow> Sys \<Rightarrow> Sys" where
  "or_driver_feature r v = upd_mmio r (\<lambda>i. i\<lparr>mi_driver_features := mi_driver_features i OR v\<rparr>)"

text \<open>A read of the prologue: the value, if the register exists, and the state (\<open>dev_feature\<close> is updated).\<close>

definition prologue_read :: "MmioRef \<Rightarrow> usize \<Rightarrow> Sys \<Rightarrow> u32 option \<times> Sys" where
  "prologue_read r offset s =
     (let g = mi_regs (s_mmio s r); features = dv_features (mi_dev (s_mmio s r)) in
      if offset = VIRTIO_MMIO_MAGIC_VALUE then (Some (rg_magic g), s)
      else if offset = VIRTIO_MMIO_VERSION then (Some (rg_version g), s)
      else if offset = VIRTIO_MMIO_DEVICE_ID then (Some (rg_device_id g), s)
      else if offset = VIRTIO_MMIO_VENDOR_ID then (Some (rg_vendor_id g), s)
      else if offset = VIRTIO_MMIO_HOST_FEATURES then
        let v = (if rg_dev_feature_sel g \<noteq> 0 then ucast (drop_bit 32 features) else ucast features)
        in (Some v, upd_regs r (\<lambda>g. g\<lparr>rg_dev_feature := v\<rparr>) s)
      else if offset = VIRTIO_MMIO_STATUS then (Some (rg_dev_stat g), s)
      else (None, s))"

definition prologue_write :: "MmioRef \<Rightarrow> usize \<Rightarrow> u32 \<Rightarrow> Sys \<Rightarrow> Sys option" where
  "prologue_write r offset v s =
     (if offset = VIRTIO_MMIO_HOST_FEATURES_SEL then Some (upd_regs r (\<lambda>g. g\<lparr>rg_dev_feature_sel := v\<rparr>) s)
      else if offset = VIRTIO_MMIO_GUEST_FEATURES then
        let s = upd_regs r (\<lambda>g. g\<lparr>rg_drv_feature := v\<rparr>) s in
        Some (if rg_drv_feature_sel (mi_regs (s_mmio s r)) \<noteq> 0 then or_driver_feature r (push_bit 32 (ucast v)) s
              else or_driver_feature r (ucast v) s)
      else if offset = VIRTIO_MMIO_GUEST_FEATURES_SEL then Some (upd_regs r (set_drv_feature_sel v) s)
      else if offset = VIRTIO_MMIO_STATUS then
        let s = upd_regs r (\<lambda>g. g\<lparr>rg_dev_stat := v\<rparr>) s in
        if v = 0 then dev_reset r s
        else if v = 0xf then Some (upd_dev r (\<lambda>d. d\<lparr>dv_activated := True\<rparr>) s)
        else Some s
      else Some s)"

definition virtio_mmio_prologue_access :: "MmioRef \<Rightarrow> EmuContext \<Rightarrow> usize \<Rightarrow> bool \<Rightarrow> Sys \<Rightarrow> Sys option" where
  "virtio_mmio_prologue_access r ctx offset write s =
     (if \<not> write then
        (case prologue_read r offset s of
           (Some v, s) \<Rightarrow> on_m (set_gpr (ec_reg ctx) (ucast v)) s
         | (None, s) \<Rightarrow> Some s)
      else do {
        v \<leftarrow> get_gpr (s_m s) (ec_reg ctx);
        prologue_write r offset (ucast v) s })"

text \<open>Programming one address of the selected queue: the low half, or the high half and the reference.\<close>

definition queue_addr_high ::
  "(Virtq \<Rightarrow> u64 \<Rightarrow> Virtq) \<Rightarrow> (Virtq \<Rightarrow> u64) \<Rightarrow> (bool \<Rightarrow> Virtq \<Rightarrow> usize \<Rightarrow> Virtq option) \<Rightarrow> MmioRef \<Rightarrow> usize \<Rightarrow> u64 \<Rightarrow> Sys \<Rightarrow> Sys option" where
  "queue_addr_high or_addr addr set_ref r q_sel v s = do {
     q \<leftarrow> vec_get (mi_vq (s_mmio s r)) q_sel;
     let q = or_addr q (push_bit 32 v);
     vmr \<leftarrow> active_vm (s_m s);
     pa \<leftarrow> sys_ipa2pa s vmr (unat (addr q));
     if pa = 0 then Some (put_vq r q_sel q s)
     else do { q \<leftarrow> set_ref (m_trace (s_m s)) q pa; Some (put_vq r q_sel q s) } }"

definition queue_write :: "MmioRef \<Rightarrow> usize \<Rightarrow> u64 \<Rightarrow> Sys \<Rightarrow> Sys option" where
  "queue_write r offset v s =
     (let q_sel = unat (rg_q_sel (mi_regs (s_mmio s r))) in
      if offset = VIRTIO_MMIO_QUEUE_SEL then Some (upd_regs r (\<lambda>g. g\<lparr>rg_q_sel := ucast v\<rparr>) s)
      else if offset = VIRTIO_MMIO_QUEUE_NUM then on_vq r q_sel (\<lambda>q. Some (set_num q (unat v))) s
      else if offset = VIRTIO_MMIO_QUEUE_READY then on_vq r q_sel (\<lambda>q. Some (set_ready q (unat v))) s
      else if offset = VIRTIO_MMIO_QUEUE_DESC_LOW then on_vq r q_sel (\<lambda>q. Some (or_desc_table_addr q (v AND 0xffffffff))) s
      else if offset = VIRTIO_MMIO_QUEUE_DESC_HIGH then queue_addr_high or_desc_table_addr vq_desc_table_addr set_desc_table r q_sel v s
      else if offset = VIRTIO_MMIO_QUEUE_AVAIL_LOW then on_vq r q_sel (\<lambda>q. Some (or_avail_addr q (v AND 0xffffffff))) s
      else if offset = VIRTIO_MMIO_QUEUE_AVAIL_HIGH then queue_addr_high or_avail_addr vq_avail_addr set_avail r q_sel v s
      else if offset = VIRTIO_MMIO_QUEUE_USED_LOW then on_vq r q_sel (\<lambda>q. Some (or_used_addr q (v AND 0xffffffff))) s
      else if offset = VIRTIO_MMIO_QUEUE_USED_HIGH then queue_addr_high or_used_addr vq_used_addr set_used r q_sel v s
      else Some s)"

definition queue_read :: "MmioRef \<Rightarrow> usize \<Rightarrow> Sys \<Rightarrow> u32 option option" where
  "queue_read r offset s =
     (let g = mi_regs (s_mmio s r) in
      if offset = VIRTIO_MMIO_QUEUE_NUM_MAX then Some (Some (rg_q_num_max g))
      else if offset = VIRTIO_MMIO_QUEUE_READY then do {
        q \<leftarrow> vec_get (mi_vq (s_mmio s r)) (unat (rg_q_sel g));
        Some (Some (of_nat (vq_ready q))) }
      else Some None)"

definition virtio_mmio_queue_access :: "MmioRef \<Rightarrow> EmuContext \<Rightarrow> usize \<Rightarrow> bool \<Rightarrow> Sys \<Rightarrow> Sys option" where
  "virtio_mmio_queue_access r ctx offset write s =
     (if \<not> write then do {
        v \<leftarrow> queue_read r offset s;
        case v of Some v \<Rightarrow> on_m (set_gpr (ec_reg ctx) (ucast v)) s | None \<Rightarrow> Some s }
      else do {
        v \<leftarrow> get_gpr (s_m s) (ec_reg ctx);
        queue_write r offset v s })"

definition cfg_read :: "Sys \<Rightarrow> MmioRef \<Rightarrow> usize \<Rightarrow> u32 option option" where
  "cfg_read s r offset =
     (if offset = VIRTIO_MMIO_CONFIG_GENERATION then Some (Some (of_nat (dv_generation (mi_dev (s_mmio s r)))))
      else if VIRTIO_MMIO_CONFIG \<le> offset \<and> offset \<le> 0x1ff then
        (case dv_desc (mi_dev (s_mmio s r)) of
           BlkDesc d \<Rightarrow> Some (Some (offset_data (s_beyond s) (blk_layout d) (offset - VIRTIO_MMIO_CONFIG)))
         | NetDesc d \<Rightarrow> Some (Some (offset_data (s_beyond s) (net_layout d) (offset - VIRTIO_MMIO_CONFIG)))
         | _ \<Rightarrow> None)
      else Some None)"

definition virtio_mmio_cfg_access :: "MmioRef \<Rightarrow> EmuContext \<Rightarrow> usize \<Rightarrow> bool \<Rightarrow> Sys \<Rightarrow> Sys option" where
  "virtio_mmio_cfg_access r ctx offset write s =
     (if \<not> write then do {
        v \<leftarrow> cfg_read s r offset;
        case v of Some v \<Rightarrow> on_m (set_gpr (ec_reg ctx) (ucast v)) s | None \<Rightarrow> Some s }
      else Some s)"

section \<open>The device\<close>

definition emu_virtio_mmio_init :: "VmRef \<Rightarrow> usize \<Rightarrow> bool \<Rightarrow> Sys \<Rightarrow> (bool \<times> Sys) option" where
  "emu_virtio_mmio_init vmr dev_id mediated s = do {
     e \<leftarrow> vm_config (m_vms (s_m s) vmr);
     let (r, s) = VirtioMmio_new dev_id s;
     cfg \<leftarrow> vec_get (emulated_device_list (m_config (s_m s)) e) dev_id;
     case (case ed_emu_type cfg of
         EmuDeviceTVirtioBlk \<Rightarrow> Some (VirtioBlock, EmuVirtioBlk r)
       | EmuDeviceTVirtioNet \<Rightarrow> Some (VirtioNet, EmuVirtioNet r)
       | EmuDeviceTVirtioConsole \<Rightarrow> Some (VirtioConsole, EmuVirtioConsole r)
       | _ \<Rightarrow> None) of
       Some (ty, dev) \<Rightarrow> do {
         s \<leftarrow> on_m (set_emu_devs vmr dev_id dev) s;
         s \<leftarrow> dev_init r ty cfg mediated (mmio_reg_init r ty s);
         s \<leftarrow> virtio_queue_init r ty s;
         Some (True, s) }
     | None \<Rightarrow> Some (False, s) }"

text \<open>\<open>run\<close> calls the notify handler of a queue for the running guest.\<close>

definition notify_handler :: "(NotifyHandler \<Rightarrow> usize \<Rightarrow> MmioRef \<Rightarrow> VmRef \<Rightarrow> Sys \<Rightarrow> (bool \<times> Sys) option) \<Rightarrow>
    MmioRef \<Rightarrow> usize \<Rightarrow> Sys \<Rightarrow> (bool \<times> Sys) option" where
  "notify_handler run r idx s = (case mmio_vq s r idx of
     Inl _ \<Rightarrow> Some (False, s)
   | Inr q \<Rightarrow> call_notify_handler (\<lambda>h s. do { vmr \<leftarrow> active_vm (s_m s); run h idx r vmr s }) q s)"

definition mmio_of_dev :: "EmuDevs \<Rightarrow> MmioRef option" where
  "mmio_of_dev d = (case d of EmuVirtioBlk r \<Rightarrow> Some r | EmuVirtioNet r \<Rightarrow> Some r | EmuVirtioConsole r \<Rightarrow> Some r | _ \<Rightarrow> None)"

definition emu_virtio_mmio_handler :: "(NotifyHandler \<Rightarrow> usize \<Rightarrow> MmioRef \<Rightarrow> VmRef \<Rightarrow> Sys \<Rightarrow> (bool \<times> Sys) option) \<Rightarrow>
    usize \<Rightarrow> EmuContext \<Rightarrow> Sys \<Rightarrow> (bool \<times> Sys) option" where
  "emu_virtio_mmio_handler run dev_id ctx s = do {
     vmr \<leftarrow> active_vm (s_m s);
     dev \<leftarrow> emu_dev (s_m s) vmr dev_id;
     r \<leftarrow> mmio_of_dev dev;
     e \<leftarrow> vm_config (m_vms (s_m s) vmr);
     cfg \<leftarrow> vec_get (emulated_device_list (m_config (s_m s)) e) dev_id;
     offset \<leftarrow> usub (ec_address ctx) (ed_base_ipa cfg);
     let write = ec_write ctx;
     if offset = VIRTIO_MMIO_QUEUE_NOTIFY \<and> write then do {
       let s = upd_regs r (\<lambda>g. g\<lparr>rg_irt_stat := VIRTIO_MMIO_INT_VRING\<rparr>) s;
       v \<leftarrow> get_gpr (s_m s) (ec_reg ctx);
       (_, s) \<leftarrow> notify_handler run r (unat v) s;
       Some (True, s) }
     else if offset = VIRTIO_MMIO_INTERRUPT_STATUS \<and> \<not> write then do {
       s \<leftarrow> on_m (set_gpr (ec_reg ctx) (ucast (rg_irt_stat (mi_regs (s_mmio s r))))) s;
       Some (True, s) }
     else if offset = VIRTIO_MMIO_INTERRUPT_ACK \<and> write then do {
       v \<leftarrow> get_gpr (s_m s) (ec_reg ctx);
       Some (True, upd_regs r (\<lambda>g. g\<lparr>rg_irt_stat := rg_irt_stat g AND NOT (ucast v), rg_irt_ack := ucast v\<rparr>) s) }
     else if VIRTIO_MMIO_MAGIC_VALUE \<le> offset \<and> offset \<le> VIRTIO_MMIO_GUEST_FEATURES_SEL \<or> offset = VIRTIO_MMIO_STATUS then do {
       s \<leftarrow> virtio_mmio_prologue_access r ctx offset write s;
       Some (True, s) }
     else if VIRTIO_MMIO_QUEUE_SEL \<le> offset \<and> offset \<le> VIRTIO_MMIO_QUEUE_USED_HIGH then do {
       s \<leftarrow> virtio_mmio_queue_access r ctx offset write s;
       Some (True, s) }
     else if VIRTIO_MMIO_CONFIG_GENERATION \<le> offset \<and> offset \<le> VIRTIO_MMIO_REGS_END then do {
       s \<leftarrow> virtio_mmio_cfg_access r ctx offset write s;
       Some (True, s) }
     else Some (False, s) }"

section \<open>What the driver can reach\<close>

text \<open>
  The accesses of a driver to the registers of one device, with any offset and value.  Of a write
  to \<open>QUEUE_NOTIFY\<close> this is the effect on the registers; \<open>emu_virtio_mmio_handler\<close> runs the handler of the queue after it.
\<close>

inductive driver_step :: "MmioRef \<Rightarrow> Sys \<Rightarrow> Sys \<Rightarrow> bool" for r where
  step_read: "prologue_read r offset s = (v, s') \<Longrightarrow> driver_step r s s'"
| step_prologue: "prologue_write r offset v s = Some s' \<Longrightarrow> driver_step r s s'"
| step_queue: "queue_write r offset w s = Some s' \<Longrightarrow> driver_step r s s'"
| step_ack: "driver_step r s (upd_regs r (\<lambda>g. g\<lparr>rg_irt_stat := rg_irt_stat g AND NOT v, rg_irt_ack := v\<rparr>) s)"
| step_kick: "driver_step r s (upd_regs r (\<lambda>g. g\<lparr>rg_irt_stat := VIRTIO_MMIO_INT_VRING\<rparr>) s)"

lemma upd_mmio_simps [simp]:
  "s_mmio (upd_mmio r f s) r = f (s_mmio s r)" "s_m (upd_mmio r f s) = s_m s" "s_mem (upd_mmio r f s) = s_mem s"
  "s_vring (upd_mmio r f s) = s_vring s" "q \<noteq> r \<Longrightarrow> s_mmio (upd_mmio r f s) q = s_mmio s q"
  by (simp_all add: upd_mmio_def)

lemma upd_mmio_twice [simp]: "upd_mmio r g (upd_mmio r f s) = upd_mmio r (g \<circ> f) s"
  by (simp add: upd_mmio_def)

text \<open>What every access leaves alone: the kind of the device and, of each queue, its number and handler.\<close>

definition vq_frame :: "Virtq \<Rightarrow> Virtq \<Rightarrow> bool" where
  "vq_frame q p \<longleftrightarrow> vq_index p = vq_index q \<and> vq_notify_handler p = vq_notify_handler q"

definition device_kept :: "VirtioMmioInner \<Rightarrow> VirtioMmioInner \<Rightarrow> bool" where
  "device_kept i j \<longleftrightarrow> dv_dev_type (mi_dev j) = dv_dev_type (mi_dev i) \<and> dv_desc (mi_dev j) = dv_desc (mi_dev i) \<and>
     length (mi_vq j) = length (mi_vq i) \<and>
     ((\<forall>k < length (mi_vq i). vq_index (mi_vq i ! k) = k) \<longrightarrow> (\<forall>k < length (mi_vq i). vq_frame (mi_vq i ! k) (mi_vq j ! k)))"

lemma device_kept_trans: "device_kept i j \<Longrightarrow> device_kept j k \<Longrightarrow> device_kept i k"
  by (auto simp: device_kept_def vq_frame_def)

lemma device_kept_refl [simp]: "device_kept i i"
  by (simp add: device_kept_def vq_frame_def)

lemma device_kept_regs [simp]: "device_kept i (i\<lparr>mi_regs := g\<rparr>)" "device_kept i (i\<lparr>mi_driver_features := d\<rparr>)"
  by (simp_all add: device_kept_def vq_frame_def)

lemma device_kept_put:
  "k < length (mi_vq i) \<Longrightarrow> vq_frame (mi_vq i ! k) q \<Longrightarrow> device_kept i (i\<lparr>mi_vq := (mi_vq i)[k := q]\<rparr>)"
  by (auto simp: device_kept_def vq_frame_def nth_list_update)

lemma on_vq_kept:
  assumes "on_vq r idx f s = Some s'" "\<And>q q'. f q = Some q' \<Longrightarrow> vq_frame q q'"
  shows "device_kept (s_mmio s r) (s_mmio s' r)"
  using assms by (auto simp: on_vq_def put_vq_def panic_simps intro!: device_kept_put)

lemma queue_addr_high_kept:
  assumes "queue_addr_high oa ad st r k v s = Some s'" "\<And>q a. vq_frame q (oa q a)" "\<And>t q p q'. st t q p = Some q' \<Longrightarrow> vq_frame q q'"
  shows "device_kept (s_mmio s r) (s_mmio s' r)"
proof -
  from assms(1) obtain q where q: "k < length (mi_vq (s_mmio s r))"
    "s' = put_vq r k q s" "vq_frame (mi_vq (s_mmio s r) ! k) q"
    using assms(2,3) unfolding queue_addr_high_def Let_def
    by (auto simp: panic_simps vq_frame_def split: if_splits)
  then show ?thesis by (simp add: put_vq_def device_kept_put)
qed

lemma dev_reset_kept:
  assumes "dev_reset r s = Some s'"
  shows "device_kept (s_mmio s r) (s_mmio s' r)"
  using assms by (auto simp: dev_reset_def on_vq_def put_vq_def upd_regs_def upd_dev_def device_kept_def vq_frame_def panic_simps
    Virtq_reset_def set_ready_def nth_enumerate_eq nth_list_update)

lemmas vq_setters = set_num_def set_ready_def or_desc_table_addr_def or_avail_addr_def or_used_addr_def set_desc_table_def
  set_avail_def set_used_def

lemma driver_step_kept: "driver_step r s s' \<Longrightarrow> device_kept (s_mmio s r) (s_mmio s' r)"
proof (induction rule: driver_step.induct)
  case (step_read offset s v s')
  then show ?case by (auto simp: prologue_read_def Let_def upd_regs_def split: if_splits)
next
  case (step_prologue offset v s s')
  have "device_kept (s_mmio s r) (s_mmio s'' r)" if "dev_reset r (upd_regs r (\<lambda>g. g\<lparr>rg_dev_stat := v\<rparr>) s) = Some s''" for s''
    using dev_reset_kept[OF that] by (auto simp: upd_regs_def device_kept_def)
  with step_prologue show ?case
    by (auto simp: prologue_write_def Let_def upd_regs_def upd_dev_def or_driver_feature_def device_kept_def vq_frame_def split: if_splits)
next
  case (step_queue offset w s s')
  then show ?case
    by (auto simp: queue_write_def Let_def upd_regs_def split: if_splits
      elim!: on_vq_kept queue_addr_high_kept) (auto simp: vq_setters vq_frame_def panic_simps)
qed (simp_all add: upd_regs_def)

section \<open>The shape of a device\<close>

fun queue_count :: "VirtioDeviceType \<Rightarrow> nat" where
  "queue_count VirtioBlock = 1"
| "queue_count VirtioNet = 3"
| "queue_count VirtioConsole = 4"
| "queue_count VirtioNone = 0"

fun queue_handler :: "VirtioDeviceType \<Rightarrow> nat \<Rightarrow> NotifyHandler \<Rightarrow> bool" where
  "queue_handler VirtioBlock k h \<longleftrightarrow> h = virtio_blk_notify_handler \<or> h = virtio_mediated_blk_notify_handler"
| "queue_handler VirtioNet k h \<longleftrightarrow> h = (if k = 2 then virtio_net_handle_ctrl else virtio_net_notify_handler)"
| "queue_handler VirtioConsole k h \<longleftrightarrow> h = virtio_console_notify_handler"
| "queue_handler VirtioNone k h \<longleftrightarrow> False"

fun desc_of_type :: "VirtioDeviceType \<Rightarrow> DevDesc \<Rightarrow> bool" where
  "desc_of_type VirtioBlock (BlkDesc _) = True"
| "desc_of_type VirtioNet (NetDesc _) = True"
| "desc_of_type VirtioConsole (ConsoleDesc _) = True"
| "desc_of_type _ _ = False"

definition mmio_wf :: "VirtioMmioInner \<Rightarrow> bool" where
  "mmio_wf i \<longleftrightarrow> length (mi_vq i) = queue_count (dv_dev_type (mi_dev i)) \<and> desc_of_type (dv_dev_type (mi_dev i)) (dv_desc (mi_dev i)) \<and>
     (\<forall>k < length (mi_vq i). vq_index (mi_vq i ! k) = k \<and>
        (\<exists>h. vq_notify_handler (mi_vq i ! k) = Some h \<and> queue_handler (dv_dev_type (mi_dev i)) k h))"

lemma mmio_wf_kept: "mmio_wf i \<Longrightarrow> device_kept i j \<Longrightarrow> mmio_wf j"
  by (auto simp: mmio_wf_def device_kept_def vq_frame_def)

lemma alloc_cache_total:
  assumes "heap_wf (heap p)" "0 < n"
  obtains c p' where "alloc_cache n d p = Some (d\<lparr>dv_cache := c\<rparr>, p')"
  using assms
proof (rule mem_heap_alloc_cases)
  fix k p' assume a: "mem_heap_alloc p n = Some (Inr (mr_base (heap_region (heap p)) + k * PAGE_SIZE), p')"
  have "(mr_base (heap_region (heap p)) + k * PAGE_SIZE) mod PAGE_SIZE = 0" using assms(1) by (simp add: heap_wf_def)
  with a have "mem_pages_alloc p n = Some (Inr \<lparr>pf_pa = mr_base (heap_region (heap p)) + k * PAGE_SIZE, pf_page_num = n\<rparr>, p')"
    by (simp add: mem_pages_alloc_def PageFrame_alloc_pages_Inr)
  then show thesis using that by (simp add: alloc_cache_def)
next
  assume "mem_heap_alloc p n = Some (Inl OutOfFrame, p)"
  then have "mem_pages_alloc p n = Some (Inl OutOfFrame, p)" by (simp add: mem_pages_alloc_def PageFrame_alloc_pages_Inl)
  then have "alloc_cache n d p = Some (d\<lparr>dv_cache := dv_cache d\<rparr>, p)" by (simp add: alloc_cache_def)
  then show thesis by (rule that)
qed

lemma alloc_cache_fun:
  assumes "heap_wf (heap p)" "0 < n"
  obtains f where "\<And>x. alloc_cache n x p = Some (x\<lparr>dv_cache := fst (f x)\<rparr>, snd (f x))"
proof -
  have "\<forall>x. \<exists>y. alloc_cache n x p = Some (x\<lparr>dv_cache := fst y\<rparr>, snd y)"
    using alloc_cache_total[OF assms] by (metis fst_conv snd_conv)
  from choice[OF this] that show ?thesis by blast
qed

text \<open>The kind of device a configuration asks for.\<close>

fun emu_virtio_type :: "EmuDeviceType \<Rightarrow> VirtioDeviceType" where
  "emu_virtio_type EmuDeviceTVirtioBlk = VirtioBlock"
| "emu_virtio_type EmuDeviceTVirtioNet = VirtioNet"
| "emu_virtio_type EmuDeviceTVirtioConsole = VirtioConsole"
| "emu_virtio_type _ = VirtioNone"

text \<open>The entries a configuration must have: the MAC address of a network device, a start and a size, or a peer and its address.\<close>

definition cfg_entries :: "VirtioDeviceType \<Rightarrow> nat" where
  "cfg_entries ty = (if ty = VirtioNet then 6 else 2)"

lemma VirtDevInner_init_total:
  assumes "heap_wf (heap p)" "cfg_entries ty \<le> length (ed_cfg_list cfg)" "ty \<noteq> VirtioNone"
  obtains d' p' where "VirtDevInner_init ty cfg mediated d p = Some (d', p')" "dv_dev_type d' = ty" "desc_of_type ty (dv_desc d')"
proof -
  have cfg: "vec_get (ed_cfg_list cfg) 0 = Some (ed_cfg_list cfg ! 0)" "vec_get (ed_cfg_list cfg) 1 = Some (ed_cfg_list cfg ! 1)"
    using assms(2) by (auto simp: vec_get_def cfg_entries_def split: if_splits)
  show ?thesis
  proof (cases ty)
    case VirtioBlock
    obtain f where "\<And>x. alloc_cache BLOCKIF_IOV_MAX x p = Some (x\<lparr>dv_cache := fst (f x)\<rparr>, snd (f x))"
      using alloc_cache_fun[OF assms(1), of BLOCKIF_IOV_MAX] by (auto simp: BLOCKIF_IOV_MAX_def)
    with that VirtioBlock cfg show ?thesis by (simp add: VirtDevInner_init_def Let_def del: One_nat_def)
  next
    case VirtioNet
    obtain f where "\<And>x. alloc_cache 1 x p = Some (x\<lparr>dv_cache := fst (f x)\<rparr>, snd (f x))"
      using alloc_cache_fun[OF assms(1), of 1] by auto
    moreover obtain n where "net_cfg_init (ed_cfg_list cfg) NetDescInner_default = Some n"
      using assms(2) cfg(1) VirtioNet by (auto simp: cfg_entries_def net_cfg_init_def NetDescInner_default_def upt_rec)
    ultimately show ?thesis using that VirtioNet by (simp add: VirtDevInner_init_def Let_def)
  next
    case VirtioConsole
    obtain f where "\<And>x. alloc_cache 1 x p = Some (x\<lparr>dv_cache := fst (f x)\<rparr>, snd (f x))"
      using alloc_cache_fun[OF assms(1), of 1] by auto
    with that VirtioConsole cfg show ?thesis by (simp add: VirtDevInner_init_def Let_def del: One_nat_def)
  qed (use assms(3) in simp)
qed

lemma virtio_queue_init_wf:
  assumes "mi_vq (s_mmio s r) = []" "dv_dev_type (mi_dev (s_mmio s r)) = ty" "desc_of_type ty (dv_desc (mi_dev (s_mmio s r)))" "ty \<noteq> VirtioNone"
  obtains s' where "virtio_queue_init r ty s = Some s'" "mmio_wf (s_mmio s' r)"
  using assms that
  by (cases ty) (auto simp: virtio_queue_init_def upd_regs_def init_queues_def mmio_wf_def set_notify_handler_def Virtq_reset_def
    numeral_2_eq_2 numeral_3_eq_3 less_Suc_eq nth_append Let_def)

text \<open>
  C22. Creating a virtio device gives a well-formed one, and the driver cannot break its shape by
  writing registers. On a well-formed heap, for a guest that has no device at this place yet,
  \<open>emu_virtio_mmio_init\<close> never panics for a block or console device configured with at least two entries or a network
  device with at least six; after it, and after any register accesses of the driver, the device
  has one, three or four queues as its kind asks, each queue knows its place, keeps the handler of
  its kind, and the description fits the kind. Of a notification this covers the write to the register; what the handler of the
  queue does then is not a register access and is the subject of the block and network properties.
\<close>

theorem emu_virtio_mmio_init_wf:
  assumes "vm_config (m_vms (s_m s) vmr) = Some e" "dev_id < length (emulated_device_list (m_config (s_m s)) e)"
    "cfg = emulated_device_list (m_config (s_m s)) e ! dev_id" "emu_virtio_type (ed_emu_type cfg) \<noteq> VirtioNone"
    "cfg_entries (emu_virtio_type (ed_emu_type cfg)) \<le> length (ed_cfg_list cfg)"
    "heap_wf (heap (s_phys s))" "dev_id \<ge> length (vm_emu_devs (m_vms (s_m s) vmr)) \<or> vm_emu_devs (m_vms (s_m s) vmr) ! dev_id = EmuNone"
  shows "\<exists>s1. emu_virtio_mmio_init vmr dev_id mediated s = Some (True, s1) \<and>
    (\<forall>s2. (driver_step (s_next_mmio s))\<^sup>*\<^sup>* s1 s2 \<longrightarrow>
       mmio_wf (s_mmio s2 (s_next_mmio s)) \<and> dv_dev_type (mi_dev (s_mmio s2 (s_next_mmio s))) = emu_virtio_type (ed_emu_type cfg))"
proof -
  let ?r = "s_next_mmio s" and ?ty = "emu_virtio_type (ed_emu_type cfg)"
  let ?s0 = "snd (VirtioMmio_new dev_id s)"
  obtain dev where dev: "(case ed_emu_type cfg of EmuDeviceTVirtioBlk \<Rightarrow> Some (VirtioBlock, EmuVirtioBlk ?r) | EmuDeviceTVirtioNet \<Rightarrow> Some (VirtioNet, EmuVirtioNet ?r)
      | EmuDeviceTVirtioConsole \<Rightarrow> Some (VirtioConsole, EmuVirtioConsole ?r) | _ \<Rightarrow> None) = Some (?ty, dev)"
    using assms(4) by (cases "ed_emu_type cfg") auto
  obtain m where m: "set_emu_devs vmr dev_id dev (s_m s) = Some m" using assms(7) by (fastforce simp: set_emu_devs_def Let_def split: if_splits)
  let ?s1 = "mmio_reg_init ?r ?ty (?s0\<lparr>s_m := m\<rparr>)"
  have f: "s_phys ?s1 = s_phys s" "mi_vq (s_mmio ?s1 ?r) = []"
    by (simp_all add: mmio_reg_init_def upd_regs_def VirtioMmio_new_def upd_mmio_def VirtioMmioInner_new_def)
  obtain d p where d: "VirtDevInner_init ?ty cfg mediated (mi_dev (s_mmio ?s1 ?r)) (s_phys ?s1) = Some (d, p)"
    "dv_dev_type d = ?ty" "desc_of_type ?ty (dv_desc d)"
    by (rule VirtDevInner_init_total[of "s_phys ?s1" ?ty cfg]) (use assms(4-6) f in simp_all)
  let ?s2 = "upd_dev ?r (\<lambda>_. d) (?s1\<lparr>s_phys := p\<rparr>)"
  have "mi_vq (s_mmio ?s2 ?r) = []" using f(2) by (simp add: upd_dev_def upd_mmio_def)
  with d assms(4) obtain s3 where s3: "virtio_queue_init ?r ?ty ?s2 = Some s3" "mmio_wf (s_mmio s3 ?r)"
    using virtio_queue_init_wf[of ?s2 ?r ?ty] by (auto simp: upd_dev_def)
  have "emu_virtio_mmio_init vmr dev_id mediated s = Some (True, s3)"
    unfolding emu_virtio_mmio_init_def using assms(1-3) dev m d(1) s3(1) by (simp add: VirtioMmio_new_def on_m_def dev_init_def)
  moreover have "mmio_wf (s_mmio s4 ?r) \<and> device_kept (s_mmio s3 ?r) (s_mmio s4 ?r)" if "(driver_step ?r)\<^sup>*\<^sup>* s3 s4" for s4
    using that by (induction rule: rtranclp_induct) (use s3(2) in \<open>auto dest: driver_step_kept mmio_wf_kept device_kept_trans\<close>)
  moreover have "dv_dev_type (mi_dev (s_mmio s3 ?r)) = ?ty" using s3(1) d(2) f(2)
    by (cases ?ty) (auto simp: virtio_queue_init_def upd_regs_def upd_dev_def Let_def panic_simps)
  ultimately show ?thesis unfolding device_kept_def by metis
qed

section \<open>Negotiating features\<close>

lemma u32_no_high_bit: "32 \<le> n \<Longrightarrow> \<not> bit v n" for v :: u32
  by (auto dest: bit_imp_le_length)

text \<open>
  A driver can never acknowledge a feature above bit 31.  The write of \<open>GUEST_FEATURES_SEL\<close> lands
  in \<open>drv_feature\<close>, so the selector stays 0 and the second word a driver writes is or-ed into the
  first: whatever the driver does with the registers, no bit of \<open>driver_features\<close> from 32 on is
  ever set, although every device offers \<open>VIRTIO_F_VERSION_1\<close>, bit 32.
\<close>

theorem high_features_never_acked:
  assumes "rg_drv_feature_sel (mi_regs (s_mmio s r)) = 0" "mi_driver_features (s_mmio s r) = 0" "(driver_step r)\<^sup>*\<^sup>* s s'" "32 \<le> n"
  shows "\<not> bit (mi_driver_features (s_mmio s' r)) n \<and> bit VIRTIO_F_VERSION_1 32"
proof -
  have "rg_drv_feature_sel (mi_regs (s_mmio s' r)) = 0 \<and> (\<forall>n \<ge> 32. \<not> bit (mi_driver_features (s_mmio s' r)) n)"
    using assms(3)
  proof (induction rule: rtranclp_induct)
    case (step y z)
    from step.hyps(2) step.IH show ?case
    proof (induction rule: driver_step.induct)
      case (step_read offset s v s')
      then show ?case by (auto simp: prologue_read_def Let_def upd_regs_def split: if_splits)
    next
      case (step_prologue offset v s s')
      then show ?case
        by (auto simp: prologue_write_def Let_def upd_regs_def upd_dev_def or_driver_feature_def set_drv_feature_sel_def dev_reset_def
          on_vq_def put_vq_def panic_simps bit_or_iff bit_ucast_iff u32_no_high_bit split: if_splits)
    next
      case (step_queue offset w s s')
      then show ?case
        by (auto simp: queue_write_def Let_def upd_regs_def on_vq_def queue_addr_high_def put_vq_def panic_simps split: if_splits)
    qed (simp_all add: upd_regs_def)
  qed (use assms(1,2) in simp)
  with assms(4) show ?thesis by (simp add: VIRTIO_F_VERSION_1_def bit_push_bit_iff)
qed

section \<open>Setting up a queue\<close>

text \<open>The writes of a driver that makes a queue ready, each address in two halves.\<close>

definition setup_queue :: "MmioRef \<Rightarrow> u64 \<Rightarrow> u64 \<Rightarrow> u64 \<Rightarrow> u64 \<Rightarrow> u64 \<Rightarrow> Sys \<Rightarrow> Sys option" where
  "setup_queue r sel num desc av us s = do {
     s \<leftarrow> queue_write r VIRTIO_MMIO_QUEUE_SEL sel s;
     s \<leftarrow> queue_write r VIRTIO_MMIO_QUEUE_NUM num s;
     s \<leftarrow> queue_write r VIRTIO_MMIO_QUEUE_DESC_LOW (take_bit 32 desc) s;
     s \<leftarrow> queue_write r VIRTIO_MMIO_QUEUE_DESC_HIGH (drop_bit 32 desc) s;
     s \<leftarrow> queue_write r VIRTIO_MMIO_QUEUE_AVAIL_LOW (take_bit 32 av) s;
     s \<leftarrow> queue_write r VIRTIO_MMIO_QUEUE_AVAIL_HIGH (drop_bit 32 av) s;
     s \<leftarrow> queue_write r VIRTIO_MMIO_QUEUE_USED_LOW (take_bit 32 us) s;
     s \<leftarrow> queue_write r VIRTIO_MMIO_QUEUE_USED_HIGH (drop_bit 32 us) s;
     queue_write r VIRTIO_MMIO_QUEUE_READY 1 s }"

lemma halves_join: "take_bit 32 a AND 0xffffffff OR push_bit 32 (drop_bit 32 a) = a" for a :: u64
proof (rule bit_word_eqI)
  fix n assume "n < LENGTH(64)"
  have m: "(0xffffffff :: u64) = mask 32" by (simp add: mask_eq_exp_minus_1)
  show "bit (take_bit 32 a AND 0xffffffff OR push_bit 32 (drop_bit 32 a)) n = bit a n"
    using \<open>n < LENGTH(64)\<close> unfolding m
    by (cases "n < 32") (auto simp: bit_or_iff bit_and_iff bit_take_bit_iff bit_push_bit_iff bit_drop_bit_eq bit_mask_iff)
qed

text \<open>A write to the selected queue, as a step on that queue alone.\<close>

lemma queue_write_sel:
  assumes "k < length (mi_vq (s_mmio s r))" "unat (rg_q_sel (mi_regs (s_mmio s r))) = k" "active_vm (s_m s) = Some vmr"
  shows "queue_write r VIRTIO_MMIO_QUEUE_NUM v s = Some (put_vq r k (set_num (mi_vq (s_mmio s r) ! k) (unat v)) s)"
    "queue_write r VIRTIO_MMIO_QUEUE_READY v s = Some (put_vq r k (set_ready (mi_vq (s_mmio s r) ! k) (unat v)) s)"
    "queue_write r VIRTIO_MMIO_QUEUE_DESC_LOW v s = Some (put_vq r k (or_desc_table_addr (mi_vq (s_mmio s r) ! k) (v AND 0xffffffff)) s)"
    "queue_write r VIRTIO_MMIO_QUEUE_AVAIL_LOW v s = Some (put_vq r k (or_avail_addr (mi_vq (s_mmio s r) ! k) (v AND 0xffffffff)) s)"
    "queue_write r VIRTIO_MMIO_QUEUE_USED_LOW v s = Some (put_vq r k (or_used_addr (mi_vq (s_mmio s r) ! k) (v AND 0xffffffff)) s)"
    "queue_write r VIRTIO_MMIO_QUEUE_DESC_HIGH v s = queue_addr_high or_desc_table_addr vq_desc_table_addr set_desc_table r k v s"
    "queue_write r VIRTIO_MMIO_QUEUE_AVAIL_HIGH v s = queue_addr_high or_avail_addr vq_avail_addr set_avail r k v s"
    "queue_write r VIRTIO_MMIO_QUEUE_USED_HIGH v s = queue_addr_high or_used_addr vq_used_addr set_used r k v s"
  using assms by (simp_all add: queue_write_def on_vq_def mmio_offsets Let_def)

lemma put_vq_simps [simp]:
  "mi_regs (s_mmio (put_vq r k q s) r) = mi_regs (s_mmio s r)" "s_m (put_vq r k q s) = s_m s"
  "mi_vq (s_mmio (put_vq r k q s) r) = (mi_vq (s_mmio s r))[k := q]"
  "put_vq r k p (put_vq r k q s) = put_vq r k p s"
  "sys_ipa2pa (put_vq r k q s) = sys_ipa2pa s"
  by (simp_all add: put_vq_def sys_ipa2pa_def fun_eq_iff comp_def)

lemma put_vq_same: "mi_vq (s_mmio s r) ! k = q \<Longrightarrow> put_vq r k q s = s"
proof -
  assume "mi_vq (s_mmio s r) ! k = q"
  then have "(s_mmio s r)\<lparr>mi_vq := (mi_vq (s_mmio s r))[k := q]\<rparr> = s_mmio s r" by (cases "s_mmio s r") auto
  then show ?thesis by (cases s) (simp add: put_vq_def upd_mmio_def)
qed

lemma queue_addr_high_set:
  assumes "k < length (mi_vq (s_mmio s r))" "active_vm (s_m s) = Some vmr"
    "sys_ipa2pa s vmr (unat (addr (or_addr (mi_vq (s_mmio s r) ! k) (push_bit 32 v)))) = Some pa" "pa \<noteq> 0"
    "set_ref (m_trace (s_m s)) (or_addr (mi_vq (s_mmio s r) ! k) (push_bit 32 v)) pa = Some q"
  shows "queue_addr_high or_addr addr set_ref r k v s = Some (put_vq r k q s)"
  using assms by (simp add: queue_addr_high_def)

text \<open>
  C23. A driver that programs a reset queue by the nine writes of the virtio initialisation gets the
  queue it asked for: the size, the three 64-bit addresses put together from their halves, the
  references that are the translations of these addresses in its own memory, and the ready flag.
  No write panics and nothing else of the system changes, in particular no other queue.
\<close>

theorem setup_queue_correct:
  assumes "k < length (mi_vq (s_mmio s r))" "unat sel = k" "k < 2 ^ 32" "active_vm (s_m s) = Some vmr"
    and reset: "mi_vq (s_mmio s r) ! k = Virtq_reset q0 k"
    and trans: "sys_ipa2pa s vmr (unat desc) = Some pd" "sys_ipa2pa s vmr (unat av) = Some pa" "sys_ipa2pa s vmr (unat us) = Some pu"
    and low: "0x1000 \<le> pd" "0x1000 \<le> pa" "0x1000 \<le> pu"
  shows "setup_queue r sel num desc av us s =
    Some (put_vq r k ((Virtq_reset q0 k)\<lparr>vq_num := unat num, vq_desc_table_addr := desc, vq_avail_addr := av, vq_used_addr := us,
      vq_desc_table := Some pd, vq_avail := Some pa, vq_used := Some pu, vq_ready := 1\<rparr>)
      (upd_regs r (\<lambda>g. g\<lparr>rg_q_sel := of_nat k\<rparr>) s))"
proof -
  let ?s = "upd_regs r (\<lambda>g. g\<lparr>rg_q_sel := of_nat k\<rparr>) s"
  have sel: "queue_write r VIRTIO_MMIO_QUEUE_SEL sel s = Some ?s"
    using assms(2) by (auto simp: queue_write_def mmio_offsets Let_def)
  have s: "k < length (mi_vq (s_mmio (put_vq r k q ?s) r))" "unat (rg_q_sel (mi_regs (s_mmio (put_vq r k q ?s) r))) = k"
    "active_vm (s_m (put_vq r k q ?s)) = Some vmr" "mi_vq (s_mmio (put_vq r k q ?s) r) ! k = q"
    "sys_ipa2pa (put_vq r k q ?s) = sys_ipa2pa s" for q
    using assms(1,3,4) by (simp_all add: upd_regs_def unat_of_nat sys_ipa2pa_def fun_eq_iff)
  have l: "k < length (mi_vq (s_mmio ?s r))" "active_vm (s_m ?s) = Some vmr" "sys_ipa2pa ?s = sys_ipa2pa s"
    using assms(1,4) by (simp_all add: upd_regs_def sys_ipa2pa_def fun_eq_iff)
  have start: "?s = put_vq r k (Virtq_reset q0 k) ?s" using reset put_vq_same[of ?s r k] by (simp add: upd_regs_def)
  show ?thesis
    unfolding setup_queue_def sel bind.simps(2) by (cases q0, subst start)
      (use low trans l in \<open>simp add: queue_write_sel[OF s(1-3)] s queue_addr_high_def vq_setters halves_join Virtq_reset_def Let_def\<close>)
qed

section \<open>A concrete system\<close>

definition sys_reset :: "Machine \<Rightarrow> Sys" where
  "sys_reset m = \<lparr>s_m = m, s_phys = heap_example, s_mem = (\<lambda>_. 0),
     s_vring = \<lparr>mem_desc = (\<lambda>_. replicate 512 \<lparr>vd_addr = 0, vd_len = 0, vd_flags = 0, vd_next = 0\<rparr>),
       mem_avail = (\<lambda>_. \<lparr>va_flags = 0, va_idx = 0, va_ring = replicate 512 0\<rparr>),
       mem_used = (\<lambda>_. \<lparr>vu_flags = 0, vu_idx = 0, vu_ring = replicate 512 \<lparr>ue_id = 0, ue_len = 0\<rparr>\<rparr>)\<rparr>,
     s_mmio = (\<lambda>r. VirtioMmioInner_new r), s_next_mmio = 0, s_exe_status = ExePending, s_ipi_tasks = [], s_io_tasks = FairQueue_new,
     s_used_info = [], s_task_states = (\<lambda>_. TaskPending), s_next_task = 0, s_share_mem = [], s_state_flag = 0,
     s_beyond = (\<lambda>_. 0xaa), s_stack = 0x8000\<rparr>"

text \<open>A guest with one network device, and the virtual CPU that runs it.\<close>

definition net_cfg_example :: VmEmulatedDeviceConfig where
  "net_cfg_example = \<lparr>ed_name = None, ed_base_ipa = 0xa000000, ed_length = 0x1000, ed_irq_id = 33,
     ed_cfg_list = [0x74, 0x56, 0xaa, 0x0f, 0x47, 0xd1], ed_emu_type = EmuDeviceTVirtioNet, ed_mediated = False\<rparr>"

definition net_machine :: Machine where
  "net_machine = machine_reset\<lparr>
     m_cpu := (m_cpu machine_reset)\<lparr>cpu_active_vcpu := Some 0\<rparr>,
     m_vcpus := (\<lambda>_. VcpuInner_default\<lparr>vc_vm := Some 0\<rparr>),
     m_vms := (\<lambda>_. (VmInner_new Qemu 1)\<lparr>vm_config := Some entry_example, vm_vcpu_list := [0], vm_mem_region_num := 2, vm_pa_region := guest_regions\<rparr>),
     m_config := cfg_empty\<lparr>cfg_bodies := (\<lambda>_. (VmConfigBody_new VmImageConfig_default)\<lparr>cb_emu := [net_cfg_example]\<rparr>)\<rparr>\<rparr>"

lemma net_machine_simps:
  "active_vm net_machine = Some 0" "vm_config (m_vms net_machine v) = Some entry_example" "m_trace net_machine = False"
  "emulated_device_list (m_config net_machine) entry_example = [net_cfg_example]" "vm_emu_devs (m_vms net_machine v) = []"
  "vm_pa_region (m_vms net_machine v) = guest_regions" "vm_mem_region_num (m_vms net_machine v) = 2"
  by (simp_all add: net_machine_def active_vm_def machine_reset_def emulated_device_list_def VmInner_new_def)

theorem emu_virtio_mmio_init_wf_witness:
  "\<exists>s1. emu_virtio_mmio_init 0 0 False (sys_reset net_machine) = Some (True, s1) \<and> length (mi_vq (s_mmio s1 0)) = 3 \<and>
     vq_notify_handler (mi_vq (s_mmio s1 0) ! 2) = Some virtio_net_handle_ctrl"
proof -
  let ?s = "sys_reset net_machine"
  have "\<exists>s1. emu_virtio_mmio_init 0 0 False ?s = Some (True, s1) \<and> (\<forall>s2. (driver_step (s_next_mmio ?s))\<^sup>*\<^sup>* s1 s2 \<longrightarrow>
       mmio_wf (s_mmio s2 (s_next_mmio ?s)) \<and> dv_dev_type (mi_dev (s_mmio s2 (s_next_mmio ?s))) = emu_virtio_type (ed_emu_type net_cfg_example))"
    by (rule emu_virtio_mmio_init_wf[where e = entry_example]) (simp_all add: sys_reset_def net_machine_simps net_cfg_example_def heap_example_wf cfg_entries_def)
  then obtain s1 where "emu_virtio_mmio_init 0 0 False ?s = Some (True, s1)" "mmio_wf (s_mmio s1 0)" "dv_dev_type (mi_dev (s_mmio s1 0)) = VirtioNet"
    by (auto simp: sys_reset_def net_cfg_example_def)
  then show ?thesis by (auto simp: mmio_wf_def)
qed

theorem high_features_never_acked_witness:
  "\<exists>s1 s2. prologue_write 0 VIRTIO_MMIO_GUEST_FEATURES_SEL 1 (sys_reset net_machine) = Some s1 \<and>
     prologue_write 0 VIRTIO_MMIO_GUEST_FEATURES 1 s1 = Some s2 \<and>
     \<not> bit (mi_driver_features (s_mmio s2 0)) 32 \<and> bit (mi_driver_features (s_mmio s2 0)) 0"
proof -
  let ?s = "sys_reset net_machine"
  obtain s1 where s1: "prologue_write 0 VIRTIO_MMIO_GUEST_FEATURES_SEL 1 ?s = Some s1" "rg_drv_feature_sel (mi_regs (s_mmio s1 0)) = 0"
    by (auto simp: prologue_write_def mmio_offsets upd_regs_def set_drv_feature_sel_def sys_reset_def VirtioMmioInner_new_def VirtMmioRegs_default_def)
  obtain s2 where s2: "prologue_write 0 VIRTIO_MMIO_GUEST_FEATURES 1 s1 = Some s2" "bit (mi_driver_features (s_mmio s2 0)) 0"
    using s1(2) by (auto simp: prologue_write_def mmio_offsets upd_regs_def or_driver_feature_def Let_def bit_or_iff)
  have run: "(driver_step 0)\<^sup>*\<^sup>* ?s s2" using step_prologue[OF s1(1)] step_prologue[OF s2(1)] by auto
  have "rg_drv_feature_sel (mi_regs (s_mmio ?s 0)) = 0" "mi_driver_features (s_mmio ?s 0) = 0"
    by (simp_all add: sys_reset_def VirtioMmioInner_new_def VirtMmioRegs_default_def)
  from high_features_never_acked[OF this run, of 32] s1 s2 show ?thesis by auto
qed

theorem setup_queue_correct_witness:
  "\<exists>s'. setup_queue 0 1 256 0x40000000 0x40001000 0x40002000 ((sys_reset net_machine)\<lparr>s_mmio := (\<lambda>_. net_example [rx_example, Virtq_reset rx_example 1] [])\<rparr>) = Some s' \<and>
     vq_desc_table (mi_vq (s_mmio s' 0) ! 1) = Some 0x50000000 \<and> vq_num (mi_vq (s_mmio s' 0) ! 1) = 256 \<and> mi_vq (s_mmio s' 0) ! 0 = rx_example"
proof -
  let ?s = "(sys_reset net_machine)\<lparr>s_mmio := (\<lambda>_. net_example [rx_example, Virtq_reset rx_example 1] [])\<rparr>"
  have t: "sys_ipa2pa ?s 0 (unat (0x40000000 :: u64)) = Some 0x50000000" "sys_ipa2pa ?s 0 (unat (0x40001000 :: u64)) = Some 0x50001000"
    "sys_ipa2pa ?s 0 (unat (0x40002000 :: u64)) = Some 0x50002000"
    by (simp_all add: sys_ipa2pa_def sys_reset_def net_machine_simps vm_ipa2pa_def guest_regions_def upt_rec isub_def as_isize_def as_usize_def
      in_range_def range_in_range_def)
  have "1 < length (mi_vq (s_mmio ?s 0))" "unat (1 :: u64) = 1" "(1 :: nat) < 2 ^ 32" "active_vm (s_m ?s) = Some 0"
    "mi_vq (s_mmio ?s 0) ! 1 = Virtq_reset rx_example 1"
    by (simp_all add: net_example_def sys_reset_def net_machine_simps)
  note q = setup_queue_correct[OF this t, of 256]
  show ?thesis by (rule exI, rule conjI, rule q) (simp_all add: put_vq_def upd_regs_def net_example_def)
qed

text \<open>A read of the configuration space behind the description returns bytes of the hypervisor's heap.\<close>

lemma cfg_read_beyond:
  assumes "dv_desc (mi_dev (s_mmio s r)) = NetDesc d" "length (nd_mac d) = 6" "0x108 \<le> offset" "offset \<le> 0x1fc"
  shows "cfg_read s r offset = Some (Some (foldr (\<lambda>i v. ucast (s_beyond s (offset - 0x100 + i)) OR push_bit 8 v) [0..<4] 0))"
proof -
  obtain k where "offset = 0x108 + k" using assms(3) le_Suc_ex by blast
  with assms show ?thesis by (simp add: cfg_read_def mmio_offsets offset_data_def layout_byte_def net_layout_def le_bytes_def upt_rec[of _ 4])
qed

text \<open>Resetting a device whose driver selected a queue it does not have panics.\<close>

lemma dev_reset_bad_sel: "length (mi_vq (s_mmio s r)) \<le> unat (rg_q_sel (mi_regs (s_mmio s r))) \<Longrightarrow> dev_reset r s = None"
  by (simp add: dev_reset_def on_vq_def upd_regs_def vec_get_def)

text \<open>A console device has no configuration space to read.\<close>

lemma cfg_read_console: "dv_desc (mi_dev (s_mmio s r)) = ConsoleDesc c \<Longrightarrow> 0x100 \<le> offset \<Longrightarrow> offset \<le> 0x1ff \<Longrightarrow> cfg_read s r offset = None"
  by (simp add: cfg_read_def mmio_offsets)

end
