(* ===== verification/HvcMessage.thy ===== *)
theory HvcMessage
  imports Mmio VgicProps
begin

text \<open>
  Messages to a guest: \<open>hvc_send_msg_to_vm\<close> and \<open>hvc_guest_notify\<close> of \<open>src/src/kernel/hvc.rs\<close>, and the
  registration of the message page in \<open>src/src/kernel/ivc.rs\<close>.  The message a caller passes lies in
  the hypervisor's own memory, above the first page.
\<close>

section \<open>Words in memory\<close>

definition write_usize :: "usize \<Rightarrow> usize \<Rightarrow> Bytes \<Rightarrow> Bytes" where
  "write_usize a v mem = (\<lambda>x. if a \<le> x \<and> x < a + 8 then of_nat (v div 256 ^ (x - a)) else mem x)"

primrec write_words :: "usize \<Rightarrow> usize list \<Rightarrow> Bytes \<Rightarrow> Bytes" where
  "write_words a [] mem = mem"
| "write_words a (v # vs) mem = write_words (a + 8) vs (write_usize a v mem)"

lemma read_usize_cong: "(\<And>i. i < 8 \<Longrightarrow> mem (a + i) = mem' (a + i)) \<Longrightarrow> read_usize mem a = read_usize mem' a"
  unfolding read_usize_def by (rule foldr_cong) auto

lemma base256_digits: "foldr (\<lambda>i x. v div 256 ^ i mod 256 + 256 * x) [k..<k + n] 0 = v div 256 ^ k mod 256 ^ n" for v :: nat
proof (induction n arbitrary: k)
  case (Suc n)
  have "[k..<k + Suc n] = k # [Suc k..<Suc k + n]" by (simp add: upt_conv_Cons)
  then have "foldr (\<lambda>i x. v div 256 ^ i mod 256 + 256 * x) [k..<k + Suc n] 0 = v div 256 ^ k mod 256 + 256 * (v div 256 ^ Suc k mod 256 ^ n)"
    using Suc[of "Suc k"] by simp
  also have "v div 256 ^ Suc k = v div 256 ^ k div 256" by (simp add: div_mult2_eq[symmetric] mult.commute)
  finally show ?case by (simp add: mod_mult2_eq)
qed simp

lemma read_write_usize:
  assumes "v < usize_bound"
  shows "read_usize (write_usize a v mem) a = v"
proof -
  have "read_usize (write_usize a v mem) a = foldr (\<lambda>i x. v div 256 ^ i mod 256 + 256 * x) [0..<0 + 8] 0"
    unfolding read_usize_def by (rule foldr_cong) (auto simp: write_usize_def unat_of_nat)
  with assms show ?thesis unfolding base256_digits by simp
qed

lemma write_words_outside: "x < a \<or> a + 8 * length vs \<le> x \<Longrightarrow> write_words a vs mem x = mem x"
  by (induction vs arbitrary: a mem) (auto simp: write_usize_def)

lemma read_write_words:
  assumes "k < length vs" "\<forall>v \<in> set vs. v < usize_bound"
  shows "read_usize (write_words a vs mem) (a + 8 * k) = vs ! k"
  using assms
proof (induction vs arbitrary: a k mem)
  case (Cons v vs)
  show ?case
  proof (cases k)
    case 0
    have "read_usize (write_words (a + 8) vs (write_usize a v mem)) a = read_usize (write_usize a v mem) a"
      by (rule read_usize_cong) (simp add: write_words_outside)
    with 0 Cons.prems show ?thesis by (simp add: read_write_usize)
  next
    case (Suc j)
    with Cons.IH[of j "a + 8"] Cons.prems show ?thesis by (simp add: add.assoc)
  qed
qed simp

section \<open>Messages\<close>

datatype HvcGuestMsg =
    HvcDefaultMsg usize usize
  | HvcManageMsg usize usize usize
  | HvcMigrateMsg usize usize usize usize usize
  | HvcUniLibMsg usize usize usize usize usize usize

text \<open>The words of a message, as its \<open>repr(C)\<close> structure lays them out; the first two are \<open>fid\<close> and \<open>event\<close>.\<close>

fun msg_words :: "HvcGuestMsg \<Rightarrow> usize list" where
  "msg_words (HvcDefaultMsg f e) = [f, e]"
| "msg_words (HvcManageMsg f e v) = [f, e, v]"
| "msg_words (HvcMigrateMsg f e v p n) = [f, e, v, p, n]"
| "msg_words (HvcUniLibMsg f e v a b c) = [f, e, v, a, b, c]"

definition HVC_SYS :: usize where "HVC_SYS = 0"
definition HVC_VMM :: usize where "HVC_VMM = 1"
definition HVC_IVC :: usize where "HVC_IVC = 2"
definition HVC_MEDIATED :: usize where "HVC_MEDIATED = 3"
definition HVC_CONFIG :: usize where "HVC_CONFIG = 0x11"
definition HVC_UNILIB :: usize where "HVC_UNILIB = 0x12"
definition HVC_VMM_MIGRATE_START :: usize where "HVC_VMM_MIGRATE_START = 10"
definition MIGRATE_START :: usize where "MIGRATE_START = 0"
definition MIGRATE_COPY :: usize where "MIGRATE_COPY = 1"

definition HVC_IRQ :: "Board \<Rightarrow> usize" where
  "HVC_IRQ b = (case b of Tx2 \<Rightarrow> 32 + 0x20 | Pi4 \<Rightarrow> 32 + 0x10 | Qemu \<Rightarrow> 32 + 0x20)"

definition hvc_guest_notify :: "usize \<Rightarrow> Machine \<Rightarrow> Machine option" where
  "hvc_guest_notify vmid m = do {
     r \<leftarrow> vm_lookup m vmid;
     vo \<leftarrow> pop_vcpu_through_vmid m vmid;
     case vo of None \<Rightarrow> Some m | Some v \<Rightarrow> interrupt_vm_inject r v (HVC_IRQ (m_board m)) m }"

text \<open>The next slot of the message page: eight slots, used in turn.\<close>

definition hvc_slot :: "usize \<Rightarrow> Machine \<Rightarrow> (usize \<times> Machine) option" where
  "hvc_slot vmid m = do {
     arg_ptr \<leftarrow> vm_if_ivc_arg_ptr m vmid;
     arg \<leftarrow> vm_if_ivc_arg m vmid;
     if arg_ptr \<noteq> 0 then do {
       p \<leftarrow> uadd arg_ptr (PAGE_SIZE div VM_NUM_MAX);
       d \<leftarrow> usub p arg;
       if d \<ge> PAGE_SIZE then do { m \<leftarrow> vm_if_set_ivc_arg_ptr vmid arg m; Some (arg, m) }
       else do { m \<leftarrow> vm_if_set_ivc_arg_ptr vmid p m; Some (p, m) } }
     else Some (0, m) }"

text \<open>Telling the guest: by an interrupt when it runs here, by a message to its core otherwise.\<close>

definition hvc_deliver :: "usize \<Rightarrow> HvcGuestMsg \<Rightarrow> Sys \<Rightarrow> Sys option" where
  "hvc_deliver vmid msg s = do {
     cpu_trgt \<leftarrow> vm_if_get_cpu_id (s_m s) vmid;
     if cpu_trgt \<noteq> this_cpu (s_m s) then do {
       (_, s) \<leftarrow> on_m_ret (ipi_send_msg cpu_trgt IpiTHvc (HvcMsg 0 vmid (msg_words msg ! 0) (msg_words msg ! 1))) s;
       Some s }
     else on_m (hvc_guest_notify vmid) s }"

definition hvc_send_msg_to_vm :: "usize \<Rightarrow> HvcGuestMsg \<Rightarrow> Sys \<Rightarrow> (bool \<times> Sys) option" where
  "hvc_send_msg_to_vm vmid msg s = do {
     (target, s) \<leftarrow> on_m_ret (hvc_slot vmid) s;
     if target = 0 then Some (False, s)
     else do {
       assert_that (\<not> target < 0x1000);
       s \<leftarrow> hvc_deliver vmid msg (s\<lparr>s_mem := write_words target (msg_words msg) (s_mem s)\<rparr>);
       Some (True, s) } }"

definition send_hvc_ipi :: "usize \<Rightarrow> usize \<Rightarrow> usize \<Rightarrow> usize \<Rightarrow> usize \<Rightarrow> Machine \<Rightarrow> Machine option" where
  "send_hvc_ipi src trgt fid ev cpu m = do { (_, m) \<leftarrow> ipi_send_msg cpu IpiTHvc (HvcMsg src trgt fid ev) m; Some m }"

section \<open>Registering the page\<close>

definition ivc_update_mq :: "usize \<Rightarrow> usize \<Rightarrow> Sys \<Rightarrow> (bool \<times> Sys) option" where
  "ivc_update_mq receive_ipa cfg_ipa s = do {
     vmr \<leftarrow> active_vm (s_m s);
     let vmid = vm_id (m_vms (s_m s) vmr);
     receive_pa \<leftarrow> sys_ipa2pa s vmr receive_ipa;
     cfg_pa \<leftarrow> sys_ipa2pa s vmr cfg_ipa;
     if receive_pa = 0 then Some (False, s)
     else do {
       s \<leftarrow> on_m (vm_if_set_ivc_arg vmid cfg_pa) s;
       p \<leftarrow> usub cfg_pa (PAGE_SIZE div VM_NUM_MAX);
       s \<leftarrow> on_m (vm_if_set_ivc_arg_ptr vmid p) s;
       s \<leftarrow> on_m (set_gpr 0 (of_nat vmid)) s;
       Some (True, s) } }"

definition add_share_mem :: "usize \<Rightarrow> usize \<Rightarrow> Sys \<Rightarrow> Sys" where
  "add_share_mem ty base s = s\<lparr>s_share_mem := AList.update ty base (s_share_mem s)\<rparr>"

definition get_share_mem :: "Sys \<Rightarrow> usize \<Rightarrow> usize option" where
  "get_share_mem s ty = map_of (s_share_mem s) ty"

section \<open>The message page is a ring\<close>

lemma interrupt_vm_inject_if:
  assumes "interrupt_vm_inject r v n m = Some m'"
  shows "m_vm_if_list m' = m_vm_if_list m \<and> m_cpu m' = m_cpu m"
proof -
  have i: "m_vm_if_list m' = m_vm_if_list m \<and> m_cpu m' = m_cpu m" if "inject g v n m = Some m'" for g
  proof -
    have "vg_rest m' = vg_rest m" using that by (rule vg_frame)
    from vg_rest_proj(1,10)[OF this] show ?thesis by simp
  qed
  with assms show ?thesis
    by (auto simp: interrupt_vm_inject_def interrupt_arch_vm_inject_def push_int_def upd_vcpu_def panic_simps split: if_splits dest: i)
qed

text \<open>The pointer is one slot behind slot \<open>k\<close> of the page at \<open>A\<close>.\<close>

definition ring_at :: "usize \<Rightarrow> nat \<Rightarrow> usize \<Rightarrow> Machine \<Rightarrow> bool" where
  "ring_at A k vmid m \<longleftrightarrow> vmid < length (m_vm_if_list m) \<and> if_ivc_arg (m_vm_if_list m ! vmid) = A \<and>
     if_ivc_arg_ptr (m_vm_if_list m ! vmid) + 512 = A + 512 * k \<and> k \<le> 8"

lemma hvc_slot_ring:
  assumes "ring_at A k vmid m" "0x1000 \<le> A" "A + 0x1000 < usize_bound"
  obtains m' where "hvc_slot vmid m = Some (A + 512 * (k mod 8), m')" "ring_at A (Suc (k mod 8)) vmid m'" "m_cpu m' = m_cpu m"
    "vm_if_get_cpu_id m' vmid = vm_if_get_cpu_id m vmid"
proof -
  let ?p = "if_ivc_arg_ptr (m_vm_if_list m ! vmid)" and ?i = "m_vm_if_list m ! vmid"
  have r: "vmid < length (m_vm_if_list m)" "if_ivc_arg ?i = A" "?p + 512 = A + 512 * k" "k \<le> 8" using assms(1) by (simp_all add: ring_at_def)
  let ?t = "A + 512 * (k mod 8)" let ?m = "m\<lparr>m_vm_if_list := (m_vm_if_list m)[vmid := ?i\<lparr>if_ivc_arg_ptr := ?t\<rparr>]\<rparr>"
  have full: "PAGE_SIZE \<le> ?p + 512 - A \<longleftrightarrow> k = 8" "k \<noteq> 8 \<Longrightarrow> k mod 8 = k" "?p + 512 < usize_bound" "?p \<noteq> 0"
    using r assms(2,3) by (simp_all add: PAGE_SIZE_def)
  have "hvc_slot vmid m = Some (?t, ?m)"
    using r full assms(2) by (cases "k = 8")
      (simp_all add: hvc_slot_def vm_if_ivc_arg_ptr_def vm_if_ivc_arg_def vm_if_set_ivc_arg_ptr_def upd_vm_if_def VM_NUM_MAX_def PAGE_SIZE_def)
  then show ?thesis
    by (rule that) (use r in \<open>simp_all add: ring_at_def vm_if_get_cpu_id_def\<close>)
qed

lemma ring_at_if: "m_vm_if_list m' = m_vm_if_list m \<Longrightarrow> ring_at A k vmid m' \<longleftrightarrow> ring_at A k vmid m"
  by (simp add: ring_at_def)

lemma ipi_send_msg_if: "ipi_send_msg t ty x m = Some (y, m') \<Longrightarrow> m_vm_if_list m' = m_vm_if_list m"
  by (auto simp: ipi_send_msg_def ipi_send_def interrupt_cpu_ipi_send_def interrupt_arch_ipi_send_def on_gicd_def set_gicd_def
    upd_hw_def panic_simps split: if_splits)

lemma hvc_guest_notify_if: "hvc_guest_notify vmid m = Some m' \<Longrightarrow> m_vm_if_list m' = m_vm_if_list m"
  by (auto simp: hvc_guest_notify_def panic_simps split: option.splits dest: interrupt_vm_inject_if)

lemma hvc_deliver_frame:
  "hvc_deliver vmid msg s = Some s' \<Longrightarrow> s_mem s' = s_mem s \<and> m_vm_if_list (s_m s') = m_vm_if_list (s_m s)"
  by (auto simp: hvc_deliver_def on_m_ret_def on_m_def panic_simps split: if_splits dest: ipi_send_msg_if hvc_guest_notify_if)

lemma hvc_send_ring:
  assumes "hvc_send_msg_to_vm vmid msg s = Some (b, s')" "ring_at A k vmid (s_m s)" "0x1000 \<le> A" "A + 0x1000 < usize_bound"
  shows "b \<and> s_mem s' = write_words (A + 512 * (k mod 8)) (msg_words msg) (s_mem s) \<and> ring_at A (Suc (k mod 8)) vmid (s_m s')"
proof -
  obtain m' where m': "hvc_slot vmid (s_m s) = Some (A + 512 * (k mod 8), m')" "ring_at A (Suc (k mod 8)) vmid m'"
    by (rule hvc_slot_ring[OF assms(2-4)])
  define t where "t = A + 512 * (k mod 8)"
  have t: "t \<noteq> 0" "\<not> t < 0x1000" using assms(3) by (auto simp: t_def)
  have slot: "hvc_slot vmid (s_m s) = Some (t, m')" using m'(1) by (simp add: t_def)
  let ?s = "s\<lparr>s_m := m', s_mem := write_words t (msg_words msg) (s_mem s)\<rparr>"
  have "hvc_send_msg_to_vm vmid msg s = do { s \<leftarrow> hvc_deliver vmid msg ?s; Some (True, s) }"
    by (simp add: hvc_send_msg_to_vm_def on_m_ret_def slot t assert_that_def)
  with assms(1) have deliver: "hvc_deliver vmid msg ?s = Some s'" and b: b by (auto simp: Option.bind_eq_Some_conv)
  show ?thesis using hvc_deliver_frame[OF deliver] b m'(2) ring_at_if[of "s_m s'" m'] by (simp add: t_def)
qed

definition hvc_send_all :: "usize \<Rightarrow> HvcGuestMsg list \<Rightarrow> Sys \<Rightarrow> Sys option" where
  "hvc_send_all vmid = fold_opt (\<lambda>msg s. do { (_, s) \<leftarrow> hvc_send_msg_to_vm vmid msg s; Some s })"

lemma length_msg_words: "length (msg_words msg) \<le> 6" "2 \<le> length (msg_words msg)"
  by (cases msg; simp)+

definition slot_holds :: "usize \<Rightarrow> Bytes \<Rightarrow> nat \<Rightarrow> HvcGuestMsg \<Rightarrow> bool" where
  "slot_holds A mem i msg \<longleftrightarrow> (\<forall>j < length (msg_words msg). read_usize mem (A + 512 * (i mod 8) + 8 * j) = msg_words msg ! j)"

lemma slot_holds_new:
  "\<forall>v \<in> set (msg_words msg). v < usize_bound \<Longrightarrow> slot_holds A (write_words (A + 512 * (i mod 8)) (msg_words msg) mem) i msg"
  by (simp add: slot_holds_def read_write_words)

lemma slot_holds_other:
  assumes "slot_holds A mem i msg" "i mod 8 \<noteq> k"
  shows "slot_holds A (write_words (A + 512 * k) (msg_words new) mem) i msg"
  unfolding slot_holds_def
proof (intro allI impI)
  fix j assume j: "j < length (msg_words msg)"
  have "read_usize (write_words (A + 512 * k) (msg_words new) mem) (A + 512 * (i mod 8) + 8 * j) = read_usize mem (A + 512 * (i mod 8) + 8 * j)"
  proof (rule read_usize_cong)
    fix x :: nat assume "x < 8"
    with j length_msg_words[of msg] length_msg_words[of new] assms(2)
    have "A + 512 * (i mod 8) + 8 * j + x < A + 512 * k \<or> A + 512 * k + 8 * length (msg_words new) \<le> A + 512 * (i mod 8) + 8 * j + x" by linarith
    then show "write_words (A + 512 * k) (msg_words new) mem (A + 512 * (i mod 8) + 8 * j + x) = mem (A + 512 * (i mod 8) + 8 * j + x)"
      by (rule write_words_outside)
  qed
  with assms(1) j show "read_usize (write_words (A + 512 * k) (msg_words new) mem) (A + 512 * (i mod 8) + 8 * j) = msg_words msg ! j"
    by (simp add: slot_holds_def)
qed

lemma close_mod_8: "i < n \<Longrightarrow> n < i + 8 \<Longrightarrow> i mod 8 \<noteq> n mod (8 :: nat)"
proof
  assume "i < n" "n < i + 8" and e: "i mod 8 = n mod 8"
  then have "8 dvd n - i" by (metis less_imp_le mod_eq_dvd_iff_nat)
  with \<open>i < n\<close> \<open>n < i + 8\<close> show False by (auto dest: dvd_imp_le)
qed

lemma hvc_send_all_ring:
  assumes "0x1000 \<le> A" "A + 0x1000 < usize_bound" "ring_at A 0 vmid (s_m s)" "\<forall>msg \<in> set msgs. \<forall>v \<in> set (msg_words msg). v < usize_bound"
  shows "hvc_send_all vmid msgs s = Some s' \<Longrightarrow>
    (\<exists>k. k mod 8 = length msgs mod 8 \<and> ring_at A k vmid (s_m s')) \<and>
    (\<forall>i < length msgs. length msgs \<le> i + 8 \<longrightarrow> slot_holds A (s_mem s') i (msgs ! i))"
  using assms(4)
proof (induction msgs arbitrary: s' rule: rev_induct)
  case (snoc msg msgs)
  from snoc.prems obtain s1 b where s1: "hvc_send_all vmid msgs s = Some s1" "hvc_send_msg_to_vm vmid msg s1 = Some (b, s')"
    by (auto simp: hvc_send_all_def fold_opt_append panic_simps)
  from snoc.IH[OF s1(1)] snoc.prems obtain k where k: "k mod 8 = length msgs mod 8" "ring_at A k vmid (s_m s1)"
    "\<forall>i < length msgs. length msgs \<le> i + 8 \<longrightarrow> slot_holds A (s_mem s1) i (msgs ! i)" by auto
  note send = hvc_send_ring[OF s1(2) k(2) assms(1,2)]
  have "Suc (k mod 8) mod 8 = length (msgs @ [msg]) mod 8" unfolding k(1) by (simp add: mod_Suc_eq)
  moreover have "slot_holds A (s_mem s') i ((msgs @ [msg]) ! i)" if "i < length (msgs @ [msg])" "length (msgs @ [msg]) \<le> i + 8" for i
  proof (cases "i = length msgs")
    case True
    with send k(1) slot_holds_new[of msg A i] snoc.prems(2) show ?thesis by simp
  next
    case False
    with that have i: "i < length msgs" "length msgs < i + 8" by simp_all
    with k(3) have "slot_holds A (s_mem s1) i (msgs ! i)" by simp
    from slot_holds_other[OF this close_mod_8[OF i], of msg] i send k(1) show ?thesis by (simp add: nth_append)
  qed
  ultimately show ?case using send by blast
qed (use assms(3) in \<open>auto simp: hvc_send_all_def intro: exI[of _ 0]\<close>)

text \<open>
  C24. The message page of a guest is a ring of eight slots: after a guest registered the page at
  \<open>A\<close>, the messages sent to it go to the slots in turn, and each of the last eight messages can be
  read from its slot word by word.
\<close>

theorem hvc_messages_kept:
  assumes "0x1000 \<le> A" "A + 0x1000 < usize_bound" "ring_at A 0 vmid (s_m s)" "\<forall>msg \<in> set msgs. \<forall>v \<in> set (msg_words msg). v < usize_bound"
    "hvc_send_all vmid msgs s = Some s'" "i < length msgs" "length msgs \<le> i + 8" "j < length (msg_words (msgs ! i))"
  shows "read_usize (s_mem s') (A + 512 * (i mod 8) + 8 * j) = msg_words (msgs ! i) ! j"
  using hvc_send_all_ring[OF assms(1-4,5)] assms(6-8) by (simp add: slot_holds_def)

definition hvc_machine :: Machine where
  "hvc_machine = net_machine\<lparr>m_vm_list := [0],
     m_vm_if_list := [VmInterface_default, VmInterface_default\<lparr>if_ivc_arg := 0x50000000, if_ivc_arg_ptr := 0x4ffffe00\<rparr>]\<rparr>"

theorem hvc_messages_kept_witness:
  "\<exists>s'. hvc_send_all 1 [HvcDefaultMsg 3 50, HvcMigrateMsg 1 10 2 1 7] (sys_reset hvc_machine) = Some s' \<and>
     read_usize (s_mem s') 0x50000220 = 7 \<and> read_usize (s_mem s') 0x50000008 = 50"
proof -
  let ?s = "sys_reset hvc_machine" and ?ms = "[HvcDefaultMsg 3 50, HvcMigrateMsg 1 10 2 1 7]"
  have "\<exists>s'. hvc_send_all 1 ?ms ?s = Some s'"
    by (simp add: hvc_send_all_def hvc_send_msg_to_vm_def hvc_slot_def on_m_ret_def on_m_def sys_reset_def hvc_machine_def hvc_deliver_def
      vm_if_ivc_arg_ptr_def vm_if_ivc_arg_def vm_if_set_ivc_arg_ptr_def upd_vm_if_def VM_NUM_MAX_def PAGE_SIZE_def vm_if_get_cpu_id_def
      VmInterface_default_def net_machine_def machine_reset_def hvc_guest_notify_def vm_lookup_def pop_vcpu_through_vmid_def VmInner_new_def)
  then obtain s' where s': "hvc_send_all 1 ?ms ?s = Some s'" by blast
  have r: "ring_at 0x50000000 0 1 (s_m ?s)" by (simp add: ring_at_def sys_reset_def hvc_machine_def)
  note k = hvc_messages_kept[OF _ _ r _ s']
  show ?thesis using s' k[of 1 4] k[of 0 1] by simp
qed

end
