(* ===== verification/BlkDev.thy ===== *)
theory BlkDev
  imports HvcMessage
begin

text \<open>
  The block device: \<open>src/src/device/virtio/blk.rs\<close>, the mediation by the service guest in
  \<open>src/src/device/virtio/mediated.rs\<close>, and the tasks of \<open>src/src/kernel/async_task.rs\<close> that connect
  them.  A request of a guest becomes a task; the executor hands its sectors to the service guest,
  which signals completion by a hypercall, and the data is copied to or from the guest's buffers.
\<close>

definition VIRTIO_BLK_T_IN :: usize where "VIRTIO_BLK_T_IN = 0"
definition VIRTIO_BLK_T_OUT :: usize where "VIRTIO_BLK_T_OUT = 1"
definition VIRTIO_BLK_T_FLUSH :: usize where "VIRTIO_BLK_T_FLUSH = 4"
definition VIRTIO_BLK_T_GET_ID :: usize where "VIRTIO_BLK_T_GET_ID = 8"
definition VIRTIO_BLK_S_OK :: u8 where "VIRTIO_BLK_S_OK = 0"
definition VIRTIO_BLK_S_UNSUPP :: u8 where "VIRTIO_BLK_S_UNSUPP = 2"

section \<open>The request block shared with the service guest\<close>

text \<open>
  \<open>MediatedBlkContent\<close> lies in the memory of the service guest: \<open>nreq\<close>, the configuration with its
  two names of 32 bytes, and the request, as \<open>repr(C)\<close> places them.
\<close>

definition MED_NREQ :: usize where "MED_NREQ = 0"
definition MED_CACHE_IPA :: usize where "MED_CACHE_IPA = 112"
definition MED_CACHE_PA :: usize where "MED_CACHE_PA = 120"
definition MED_REQ_TYPE :: usize where "MED_REQ_TYPE = 128"
definition MED_REQ_SECTOR :: usize where "MED_REQ_SECTOR = 136"
definition MED_REQ_COUNT :: usize where "MED_REQ_COUNT = 144"

definition med_get :: "Sys \<Rightarrow> MediatedBlk \<Rightarrow> usize \<Rightarrow> usize option" where
  "med_get s b off = do {
     assert_that (\<not> (m_trace (s_m s) \<and> mb_base_addr b < 0x1000));
     Some (read_usize (s_mem s) (mb_base_addr b + off)) }"

definition med_set :: "MediatedBlk \<Rightarrow> usize \<Rightarrow> usize \<Rightarrow> Sys \<Rightarrow> Sys option" where
  "med_set b off v s = do {
     assert_that (\<not> (m_trace (s_m s) \<and> mb_base_addr b < 0x1000));
     Some (s\<lparr>s_mem := write_usize (mb_base_addr b + off) v (s_mem s)\<rparr>) }"

text \<open>\<open>set_type\<close>: a 32-bit field.\<close>

definition med_set_type :: "MediatedBlk \<Rightarrow> usize \<Rightarrow> Sys \<Rightarrow> Sys option" where
  "med_set_type b v s = do {
     assert_that (\<not> (m_trace (s_m s) \<and> mb_base_addr b < 0x1000));
     let a = mb_base_addr b + MED_REQ_TYPE;
     Some (s\<lparr>s_mem := (\<lambda>x. if a \<le> x \<and> x < a + 4 then of_nat (v div 256 ^ (x - a)) else s_mem s x)\<rparr>) }"

definition mediated_blk_io :: "usize \<Rightarrow> usize \<Rightarrow> usize \<Rightarrow> usize \<Rightarrow> Sys \<Rightarrow> Sys option" where
  "mediated_blk_io ty blk_idx sector count s = do {
     b \<leftarrow> mediated_blk_list_get (m_config (s_m s)) blk_idx;
     nreq \<leftarrow> med_get s b MED_NREQ;
     n \<leftarrow> uadd nreq 1;
     s \<leftarrow> med_set b MED_NREQ n s;
     s \<leftarrow> med_set_type b ty s;
     s \<leftarrow> med_set b MED_REQ_SECTOR sector s;
     s \<leftarrow> med_set b MED_REQ_COUNT count s;
     (_, s) \<leftarrow> hvc_send_msg_to_vm 0 (HvcDefaultMsg 3 50) s;
     Some s }"

definition mediated_blk_read :: "usize \<Rightarrow> usize \<Rightarrow> usize \<Rightarrow> Sys \<Rightarrow> Sys option" where
  "mediated_blk_read = mediated_blk_io VIRTIO_BLK_T_IN"

definition mediated_blk_write :: "usize \<Rightarrow> usize \<Rightarrow> usize \<Rightarrow> Sys \<Rightarrow> Sys option" where
  "mediated_blk_write = mediated_blk_io VIRTIO_BLK_T_OUT"

section \<open>Tasks\<close>

definition AsyncTask_new :: "AsyncTaskData \<Rightarrow> usize \<Rightarrow> usize \<Rightarrow> AsyncFuture \<Rightarrow> Sys \<Rightarrow> AsyncTask \<times> Sys" where
  "AsyncTask_new data vmid prio fut s =
     (\<lparr>at_task_data = data, at_src_vmid = vmid, at_priority = prio, at_state = s_next_task s, at_task = fut\<rparr>,
      s\<lparr>s_task_states := (s_task_states s)(s_next_task s := TaskPending), s_next_task := s_next_task s + 1\<rparr>)"

definition task_set_state :: "AsyncTask \<Rightarrow> AsyncTaskState \<Rightarrow> Sys \<Rightarrow> Sys" where
  "task_set_state t st s = s\<lparr>s_task_states := (s_task_states s)(at_state t := st)\<rparr>"

definition push_used_info :: "u32 \<Rightarrow> u32 \<Rightarrow> usize \<Rightarrow> Sys \<Rightarrow> Sys" where
  "push_used_info hd_idx used_len vmid s = (case map_of (s_used_info s) vmid of
     Some info_list \<Rightarrow> s\<lparr>s_used_info := AList.update vmid (info_list @ [\<lparr>ui_desc_chain_head_idx = hd_idx, ui_used_len = used_len\<rparr>]) (s_used_info s)\<rparr>
   | None \<Rightarrow> s)"

definition update_used_info :: "MmioRef \<Rightarrow> usize \<Rightarrow> usize \<Rightarrow> Sys \<Rightarrow> Sys option" where
  "update_used_info r idx vmid s = (case map_of (s_used_info s) vmid of
     Some info_list \<Rightarrow> do {
       info \<leftarrow> list_front info_list;
       let s = s\<lparr>s_used_info := AList.update vmid (tl info_list) (s_used_info s)\<rparr>;
       q \<leftarrow> vec_get (mi_vq (s_mmio s r)) idx;
       (_, g) \<leftarrow> update_used_ring (s_vring s) q (ui_used_len info) (ui_desc_chain_head_idx info);
       Some (s\<lparr>s_vring := g\<rparr>) }
   | None \<Rightarrow> Some s)"

definition add_async_used_info :: "usize \<Rightarrow> Sys \<Rightarrow> Sys" where
  "add_async_used_info vmid s = s\<lparr>s_used_info := AList.update vmid [] (s_used_info s)\<rparr>"

definition remove_async_used_info :: "usize \<Rightarrow> Sys \<Rightarrow> Sys" where
  "remove_async_used_info vmid s = s\<lparr>s_used_info := AList.delete vmid (s_used_info s)\<rparr>"

text \<open>\<open>drain_filter(p).collect()\<close> keeps the tasks of the removed guest.\<close>

definition remove_vm_async_task :: "usize \<Rightarrow> Sys \<Rightarrow> Sys option" where
  "remove_vm_async_task vmid s = do {
     q \<leftarrow> fq_remove vmid (s_io_tasks s);
     Some (s\<lparr>s_io_tasks := q, s_ipi_tasks := filter (\<lambda>t. at_src_vmid t = vmid) (s_ipi_tasks s)\<rparr>) }"

definition set_front_io_task_state :: "AsyncTaskState \<Rightarrow> Sys \<Rightarrow> Sys option" where
  "set_front_io_task_state st s = do {
     f \<leftarrow> fq_front (s_io_tasks s);
     t \<leftarrow> f;
     Some (task_set_state t st s) }"

text \<open>Copying between the cache and the buffers of a request; \<open>chk\<close> is the condition that panics.\<close>

fun copy_iovs :: "(usize \<Rightarrow> usize \<Rightarrow> bool) \<Rightarrow> (usize \<Rightarrow> usize \<Rightarrow> usize \<Rightarrow> Bytes \<Rightarrow> Bytes option) \<Rightarrow> BlkIov list \<Rightarrow> usize \<Rightarrow> Bytes \<Rightarrow> Bytes option" where
  "copy_iovs chk cp [] cache mem = Some mem"
| "copy_iovs chk cp (v # vs) cache mem = do {
     assert_that (\<not> chk (bi_data_bg v) cache);
     mem \<leftarrow> cp (bi_data_bg v) cache (unat (bi_len v)) mem;
     cache' \<leftarrow> uadd cache (unat (bi_len v));
     copy_iovs chk cp vs cache' mem }"

definition finish_async_task :: "bool \<Rightarrow> Sys \<Rightarrow> Sys option" where
  "finish_async_task ipi s = do {
     (t, s) \<leftarrow> (if ipi then do {
         (r, ts) \<leftarrow> list_pop_front (s_ipi_tasks s); t \<leftarrow> r; Some (t, s\<lparr>s_ipi_tasks := ts\<rparr>) }
       else do {
         (r, q) \<leftarrow> fq_pop_front (s_io_tasks s); t \<leftarrow> r; Some (t, s\<lparr>s_io_tasks := q\<rparr>) });
     case at_task_data t of
       AsyncIoTask a \<Rightarrow> do {
         mem \<leftarrow> (if io_type a = VIRTIO_BLK_T_IN
           then copy_iovs (\<lambda>d c. m_trace (s_m s) \<and> (d < 0x1000 \<or> c < 0x1000)) (\<lambda>d c n. memcpy_safe d c n) (io_iov_list a) (io_cache a) (s_mem s)
           else Some (s_mem s));
         s \<leftarrow> update_used_info (io_dev a) (io_vq a) (at_src_vmid t) (s\<lparr>s_mem := mem\<rparr>);
         vmr \<leftarrow> vm_lookup (s_m s) (at_src_vmid t);
         mmio_notify (io_dev a) vmr s }
     | AsyncIpiTask _ \<Rightarrow> Some s
     | AsyncNoneTask a \<Rightarrow> do {
         s \<leftarrow> update_used_info (id_dev a) (id_vq a) (at_src_vmid t) s;
         vmr \<leftarrow> vm_lookup (s_m s) (at_src_vmid t);
         mmio_notify (id_dev a) vmr s } }"

definition async_blk_io_req :: "Sys \<Rightarrow> Sys option" where
  "async_blk_io_req s = do {
     assert_that (\<not> fq_is_empty (s_io_tasks s));
     f \<leftarrow> fq_front (s_io_tasks s);
     t \<leftarrow> f;
     case at_task_data t of
       AsyncIoTask a \<Rightarrow>
         if io_type a = VIRTIO_BLK_T_IN then mediated_blk_read (io_blk_id a) (io_sector a) (io_count a) s
         else if io_type a = VIRTIO_BLK_T_OUT then do {
           mem \<leftarrow> copy_iovs (\<lambda>d c. c < 0x1000 \<or> d < 0x1000) (\<lambda>d c n. memcpy_safe c d n) (io_iov_list a) (io_cache a) (s_mem s);
           mediated_blk_write (io_blk_id a) (io_sector a) (io_count a) (s\<lparr>s_mem := mem\<rparr>) }
         else None
     | _ \<Rightarrow> Some s }"

definition async_blk_id_req :: "Sys \<Rightarrow> Sys option" where
  "async_blk_id_req s = Some s"

text \<open>
  Adding a task; \<open>exe\<close> is the executor \<open>async_task_exe\<close>, which a task of the I/O list never starts.
  A core that must wait for another core to shorten the list does not return here.
\<close>

definition add_async_task :: "(Sys \<Rightarrow> Sys option) \<Rightarrow> AsyncTask \<Rightarrow> bool \<Rightarrow> Sys \<Rightarrow> Sys option" where
  "add_async_task exe t ipi s = do {
     s \<leftarrow> (if ipi then Some (s\<lparr>s_ipi_tasks := s_ipi_tasks s @ [t]\<rparr>)
       else do { q \<leftarrow> fq_push_back at_src_vmid t (s_io_tasks s); Some (s\<lparr>s_io_tasks := q\<rparr>) });
     need_execute \<leftarrow> (if length (s_ipi_tasks s) = 1 \<and> fq_is_empty (s_io_tasks s)
       then do { a \<leftarrow> active_vm_id (s_m s); Some (a \<noteq> 0 \<and> s_exe_status s = ExePending) } else Some False);
     a \<leftarrow> active_vm_id (s_m s);
     assert_that (a = 0 \<or> length (s_ipi_tasks s) < 1024);
     if need_execute then exe s else Some s }"

section \<open>Requests in the queue\<close>

definition upd_req :: "MmioRef \<Rightarrow> (VirtioBlkReq \<Rightarrow> VirtioBlkReq) \<Rightarrow> Sys \<Rightarrow> Sys" where
  "upd_req r f = upd_dev r (\<lambda>d. case dv_req d of BlkReq q \<Rightarrow> d\<lparr>dv_req := BlkReq (f q)\<rparr> | DevReqNone \<Rightarrow> d)"

definition blk_req_of :: "Sys \<Rightarrow> MmioRef \<Rightarrow> VirtioBlkReq option" where
  "blk_req_of s r = (case dv_req (mi_dev (s_mmio s r)) of BlkReq q \<Rightarrow> Some q | DevReqNone \<Rightarrow> None)"

text \<open>The literal \<open>"virtio-blk"\<close> and the ten bytes the hypervisor's image holds behind it.\<close>

definition blk_name_bytes :: "Sys \<Rightarrow> u8 list" where
  "blk_name_bytes s = [0x76, 0x69, 0x72, 0x74, 0x69, 0x6f, 0x2d, 0x62, 0x6c, 0x6b] @ map (\<lambda>i. s_beyond s i) [10..<20]"

text \<open>The lengths of the buffers, in order, as the cache pointer moves over them.\<close>

definition skip_iovs :: "BlkIov list \<Rightarrow> usize \<Rightarrow> usize option" where
  "skip_iovs vs cache = fold_opt (\<lambda>v c. if unat (bi_len v) < SECTOR_BSIZE then Some c else uadd c (unat (bi_len v))) vs cache"

definition io_task :: "usize \<Rightarrow> usize \<Rightarrow> VirtioBlkReqNode \<Rightarrow> usize \<Rightarrow> MmioRef \<Rightarrow> usize \<Rightarrow> usize \<Rightarrow> VmRef \<Rightarrow> Sys \<Rightarrow> Sys option" where
  "io_task ty sector node idx r cache region_start vmr s = do {
     blk_id \<leftarrow> med_blk_id (s_m s) vmr;
     sec \<leftarrow> uadd sector region_start;
     let (t, s) = AsyncTask_new (AsyncIoTask \<lparr>io_src_vmid = vm_id (m_vms (s_m s) vmr), io_vq = idx, io_dev = r, io_type = ty,
         io_blk_id = blk_id, io_sector = sec, io_count = rn_iov_sum_up node div SECTOR_BSIZE, io_cache = cache, io_iov_list = rn_iov node\<rparr>)
       (vm_id (m_vms (s_m s) vmr)) (vm_priority (m_vms (s_m s) vmr)) async_blk_io_req_fut s;
     add_async_task (\<lambda>_. None) t False s }"

text \<open>One request; a device that is not mediated is \<open>todo!\<close> in every branch.\<close>

definition blk_req_node :: "VirtioBlkReq \<Rightarrow> usize \<Rightarrow> MmioRef \<Rightarrow> usize \<Rightarrow> VmRef \<Rightarrow> VirtioBlkReqNode \<Rightarrow> usize \<times> Sys \<Rightarrow> (usize \<times> Sys) option" where
  "blk_req_node req idx r cache vmr node cs = do {
     let (cache_ptr, s) = cs;
     let sector = rn_sector node;
     sec_end \<leftarrow> uadd sector (rn_iov_sum_up node div SECTOR_BSIZE);
     bound \<leftarrow> uadd (br_start req) (br_size req);
     if sec_end > bound then Some (cache_ptr, s)
     else do {
       let ty = unat (rn_req_type node);
       if ty = VIRTIO_BLK_T_IN \<or> ty = VIRTIO_BLK_T_OUT \<or> ty = VIRTIO_BLK_T_GET_ID then do {
         (cache_ptr, s) \<leftarrow>
           (if ty = VIRTIO_BLK_T_IN then do {
              assert_that (br_mediated req);
              s \<leftarrow> io_task VIRTIO_BLK_T_IN sector node idx r cache (br_start req) vmr s;
              c \<leftarrow> skip_iovs (rn_iov node) cache_ptr;
              Some (c, s) }
            else if ty = VIRTIO_BLK_T_OUT then do {
              assert_that (br_mediated req);
              c \<leftarrow> skip_iovs (rn_iov node) cache_ptr;
              s \<leftarrow> io_task VIRTIO_BLK_T_OUT sector node idx r cache (br_start req) vmr s;
              Some (c, s) }
            else do {
              v \<leftarrow> vec_get (rn_iov node) 0;
              assert_that (\<not> bi_data_bg v < 0x1000);
              let s = s\<lparr>s_mem := (\<lambda>x. if bi_data_bg v \<le> x \<and> x < bi_data_bg v + 20 then blk_name_bytes s ! (x - bi_data_bg v) else s_mem s x)\<rparr>;
              let (t, s) = AsyncTask_new (AsyncNoneTask \<lparr>id_vq = idx, id_dev = r\<rparr>) (vm_id (m_vms (s_m s) vmr))
                (vm_priority (m_vms (s_m s) vmr)) async_blk_id_req_fut s;
              let s = task_set_state t TaskFinish s;
              s \<leftarrow> add_async_task (\<lambda>_. None) t False s;
              Some (cache_ptr, s) });
         assert_that (br_mediated req);
         Some (cache_ptr, push_used_info (rn_desc_chain_head_idx node) (of_nat (rn_iov_total node)) (vm_id (m_vms (s_m s) vmr)) s) }
       else if ty = VIRTIO_BLK_T_FLUSH then None
       else Some (cache_ptr, s) } }"

definition generate_blk_req :: "MmioRef \<Rightarrow> usize \<Rightarrow> usize \<Rightarrow> VmRef \<Rightarrow> Sys \<Rightarrow> Sys option" where
  "generate_blk_req r idx cache vmr s = do {
     req \<leftarrow> blk_req_of s r;
     (_, s) \<leftarrow> fold_opt (blk_req_node req idx r cache vmr) (br_req_list req) (cache, s);
     Some (upd_req r (\<lambda>q. q\<lparr>br_req_list := []\<rparr>) s) }"

section \<open>Reading the queue\<close>

text \<open>The header of a request as it lies in guest memory: the type at 0, the sector at 8.\<close>

definition read_u32 :: "Bytes \<Rightarrow> usize \<Rightarrow> u32" where
  "read_u32 mem a = foldr (\<lambda>i v. ucast (mem (a + i)) OR push_bit 8 v) [0..<4] 0"

datatype ChainStep = ChainFail | ChainNext VirtioBlkReqNode | ChainDone VirtioBlkReqNode

text \<open>One descriptor of a chain: the header, a data buffer, or the status byte, which ends it.\<close>

definition blk_desc :: "MmioRef \<Rightarrow> usize \<Rightarrow> VmRef \<Rightarrow> usize \<Rightarrow> bool \<Rightarrow> VirtioBlkReqNode \<Rightarrow> Sys \<Rightarrow> (ChainStep \<times> Sys) option" where
  "blk_desc r idx vmr next head node s = do {
     q \<leftarrow> vec_get (mi_vq (s_mmio s r)) idx;
     let g = s_vring s;
     more \<leftarrow> desc_has_next g q next;
     if more then
       (if head then do {
          w \<leftarrow> desc_is_writable g q next;
          if w then do { s \<leftarrow> mmio_notify r vmr s; Some (ChainFail, s) }
          else do {
            ipa \<leftarrow> desc_addr g q next;
            pa \<leftarrow> sys_ipa2pa s vmr ipa;
            if pa = 0 then Some (ChainFail, s)
            else Some (ChainNext (node\<lparr>rn_req_type := read_u32 (s_mem s) pa, rn_sector := read_usize (s_mem s) (pa + 8)\<rparr>), s) } }
        else do {
          flags \<leftarrow> desc_flags g q next;
          if drop_bit 1 (ucast (flags AND 2)) = rn_req_type node then do { s \<leftarrow> mmio_notify r vmr s; Some (ChainFail, s) }
          else do {
            ipa \<leftarrow> desc_addr g q next;
            data_bg \<leftarrow> sys_ipa2pa s vmr ipa;
            if data_bg = 0 then Some (ChainFail, s)
            else do {
              len \<leftarrow> desc_len g q next;
              sum \<leftarrow> uadd (rn_iov_sum_up node) (unat len);
              Some (ChainNext (node\<lparr>rn_iov_sum_up := sum, rn_iov := rn_iov node @ [\<lparr>bi_data_bg = data_bg, bi_len = len\<rparr>]\<rparr>), s) } } })
     else do {
       w \<leftarrow> desc_is_writable g q next;
       if \<not> w then do { s \<leftarrow> mmio_notify r vmr s; Some (ChainFail, s) }
       else do {
         ipa \<leftarrow> desc_addr g q next;
         pa \<leftarrow> sys_ipa2pa s vmr ipa;
         if pa = 0 then Some (ChainFail, s)
         else do {
           let st = (if rn_req_type node > 1 \<and> rn_req_type node \<noteq> of_nat VIRTIO_BLK_T_GET_ID then VIRTIO_BLK_S_UNSUPP else VIRTIO_BLK_S_OK);
           Some (ChainDone node, s\<lparr>s_mem := (s_mem s)(pa := st)\<rparr>) } } } }"

text \<open>A chain; a cycle of descriptors is followed forever.\<close>

partial_function (option) blk_chain ::
  "MmioRef \<Rightarrow> usize \<Rightarrow> VmRef \<Rightarrow> usize \<Rightarrow> bool \<Rightarrow> VirtioBlkReqNode \<Rightarrow> Sys \<Rightarrow> (VirtioBlkReqNode option \<times> Sys) option" where
  "blk_chain r idx vmr next head node s = do {
     (step, s) \<leftarrow> blk_desc r idx vmr next head node s;
     case step of
       ChainFail \<Rightarrow> Some (None, s)
     | ChainDone node \<Rightarrow> Some (Some node, s)
     | ChainNext node \<Rightarrow> do {
         q \<leftarrow> vec_get (mi_vq (s_mmio s r)) idx;
         next \<leftarrow> desc_next (s_vring s) q next;
         blk_chain r idx vmr (unat next) False node s } }"

text \<open>Taking the next chain from the available ring.\<close>

definition pop_avail :: "MmioRef \<Rightarrow> usize \<Rightarrow> u16 \<Rightarrow> Sys \<Rightarrow> (u16 option \<times> Sys) option" where
  "pop_avail r idx av s = do {
     q \<leftarrow> vec_get (mi_vq (s_mmio s r)) idx;
     (d, q) \<leftarrow> pop_avail_desc_idx (s_vring s) q av;
     Some (d, put_vq r idx q s) }"

partial_function (option) blk_avail_loop ::
  "MmioRef \<Rightarrow> usize \<Rightarrow> VmRef \<Rightarrow> u16 \<Rightarrow> u16 option \<Rightarrow> nat \<Rightarrow> Sys \<Rightarrow> (nat option \<times> Sys) option" where
  "blk_avail_loop r idx vmr av d count s = (case d of
     None \<Rightarrow> Some (Some count, s)
   | Some next \<Rightarrow> do {
       s \<leftarrow> on_vq r idx (\<lambda>q. Some (let q = disable_notify q in if check_avail_idx q av then enable_notify q else q)) s;
       (node, s) \<leftarrow> blk_chain r idx vmr (unat next) True (VirtioBlkReqNode_default\<lparr>rn_desc_chain_head_idx := ucast next\<rparr>) s;
       case node of
         None \<Rightarrow> Some (None, s)
       | Some node \<Rightarrow> do {
           let s = upd_req r (add_req_node (node\<lparr>rn_iov_total := rn_iov_sum_up node\<rparr>)) s;
           (d, s) \<leftarrow> pop_avail r idx av s;
           blk_avail_loop r idx vmr av d (count + 1) s } })"

definition virtio_blk_notify :: "usize \<Rightarrow> MmioRef \<Rightarrow> VmRef \<Rightarrow> Sys \<Rightarrow> (bool \<times> Sys) option" where
  "virtio_blk_notify idx r vmr s = do {
     (if vm_id (m_vms (s_m s) vmr) = 0 then do { a \<leftarrow> active_vm_id (s_m s); assert_that (a \<noteq> 0) } else Some ());
     q \<leftarrow> vec_get (mi_vq (s_mmio s r)) idx;
     av \<leftarrow> avail_idx (s_vring s) q;
     if vq_ready q = 0 then Some (False, s)
     else do {
       req \<leftarrow> blk_req_of s r;
       (d, s) \<leftarrow> pop_avail r idx av s;
       (count, s) \<leftarrow> blk_avail_loop r idx vmr av d 0 s;
       case count of
         None \<Rightarrow> Some (False, s)
       | Some n \<Rightarrow> do {
           cache \<leftarrow> (if \<not> br_mediated req then do { pf \<leftarrow> dv_cache (mi_dev (s_mmio s r)); Some (pf_pa pf) }
             else do {
               k \<leftarrow> med_blk_id (s_m s) vmr;
               b \<leftarrow> mediated_blk_list_get (m_config (s_m s)) k;
               med_get s b MED_CACHE_PA });
           s \<leftarrow> generate_blk_req r idx cache vmr s;
           q \<leftarrow> vec_get (mi_vq (s_mmio s r)) idx;
           flags \<leftarrow> avail_flags (s_vring s) q;
           s \<leftarrow> (if flags = 0 \<and> n > 0 \<and> \<not> br_mediated req then mmio_notify r vmr s else Some s);
           Some (True, s) } } }"

section \<open>The executor\<close>

definition async_ipi_req :: "Sys \<Rightarrow> Sys option" where
  "async_ipi_req s = do {
     t \<leftarrow> list_front (s_ipi_tasks s);
     case at_task_data t of
       AsyncIpiTask msg \<Rightarrow> do {
         a \<leftarrow> active_vm_id (s_m s);
         if a = 0 then do {
           vmr \<leftarrow> vm_lookup (s_m s) (im_src_id msg);
           (_, s) \<leftarrow> virtio_blk_notify (im_vq msg) (im_blk msg) vmr s;
           Some s }
         else do {
           (_, s) \<leftarrow> on_m_ret (ipi_send_msg 0 IpiTMediatedDev (MediatedMsg (im_src_id msg) (im_vq msg) (im_blk msg))) s;
           Some s } }
     | _ \<Rightarrow> Some s }"

definition poll_task :: "AsyncFuture \<Rightarrow> Sys \<Rightarrow> Sys option" where
  "poll_task f s = (case f of
     async_ipi_req_fut \<Rightarrow> async_ipi_req s
   | async_blk_id_req_fut \<Rightarrow> async_blk_id_req s
   | async_blk_io_req_fut \<Rightarrow> async_blk_io_req s)"

definition task_handle :: "AsyncTask \<Rightarrow> Sys \<Rightarrow> (bool \<times> Sys) option" where
  "task_handle t s = (case s_task_states s (at_state t) of
     TaskPending \<Rightarrow> do { s \<leftarrow> poll_task (at_task t) (task_set_state t TaskRunning s); Some (False, s) }
   | TaskRunning \<Rightarrow> Some (False, s)
   | TaskFinish \<Rightarrow> Some (True, s))"

partial_function (option) exe_loop :: "Sys \<Rightarrow> Sys option" where
  "exe_loop s =
     (if fq_is_empty (s_io_tasks s) \<and> s_ipi_tasks s = [] then Some (s\<lparr>s_exe_status := ExePending\<rparr>)
      else do {
        let ipi = fq_is_empty (s_io_tasks s);
        t \<leftarrow> (if ipi then list_front (s_ipi_tasks s) else do { f \<leftarrow> fq_front (s_io_tasks s); f });
        (fin, s) \<leftarrow> task_handle t s;
        a \<leftarrow> active_vm_id (s_m s);
        if fin \<or> ipi \<and> a = 0 then do {
          s \<leftarrow> finish_async_task ipi s;
          a \<leftarrow> active_vm_id (s_m s);
          if a \<noteq> 0 then Some s else exe_loop s }
        else Some (s\<lparr>s_exe_status := ExePending\<rparr>) })"

definition async_task_exe :: "Sys \<Rightarrow> Sys option" where
  "async_task_exe s = do {
     a \<leftarrow> active_vm_id (s_m s);
     if a = 0 then (case s_exe_status s of
         ExePending \<Rightarrow> exe_loop (s\<lparr>s_exe_status := ExeScheduling\<rparr>)
       | ExeScheduling \<Rightarrow> Some s)
     else exe_loop s }"

section \<open>Entry points\<close>

definition virtio_mediated_blk_notify :: "usize \<Rightarrow> MmioRef \<Rightarrow> VmRef \<Rightarrow> Sys \<Rightarrow> (bool \<times> Sys) option" where
  "virtio_mediated_blk_notify idx r vmr s = do {
     let (t, s) = AsyncTask_new (AsyncIpiTask \<lparr>im_src_id = vm_id (m_vms (s_m s) vmr), im_vq = idx, im_blk = r\<rparr>)
       (vm_id (m_vms (s_m s) vmr)) (vm_priority (m_vms (s_m s) vmr)) async_ipi_req_fut s;
     s \<leftarrow> add_async_task async_task_exe t True s;
     Some (True, s) }"

definition mediated_ipi_handler :: "IpiMessage \<Rightarrow> Sys \<Rightarrow> Sys option" where
  "mediated_ipi_handler msg s = (case ipi_message msg of
     MediatedMsg src vq blk \<Rightarrow> do {
       vmr \<leftarrow> vm_lookup (s_m s) src;
       (_, s) \<leftarrow> virtio_blk_notify vq blk vmr s;
       s \<leftarrow> finish_async_task True s;
       async_task_exe s }
   | _ \<Rightarrow> Some s)"

definition mediated_blk_notify_handler :: "usize \<Rightarrow> Sys \<Rightarrow> ((unit + usize) \<times> Sys) option" where
  "mediated_blk_notify_handler dev_ipa_reg s = do {
     vmr \<leftarrow> active_vm (s_m s);
     pa \<leftarrow> sys_ipa2pa s vmr dev_ipa_reg;
     case mediated_blk_list_get_from_pa (m_config (s_m s)) pa of
       None \<Rightarrow> Some (Inl (), s)
     | Some b \<Rightarrow> do {
         s \<leftarrow> (if \<not> mb_avail b then set_front_io_task_state TaskFinish s else Some s);
         s \<leftarrow> async_task_exe s;
         Some (Inr 0, s) } }"

text \<open>The slots of configured guests are taken when the device arrives; starting the guest is a build option.\<close>

definition mediated_blk_list_push :: "MediatedBlk \<Rightarrow> Machine \<Rightarrow> Machine option" where
  "mediated_blk_list_push b m = do {
     let blks = cfg_blks (m_config m);
     hit \<leftarrow> find_loop (\<lambda>r. do {
         e \<leftarrow> vm_config (m_vms m r);
         Some (if mediated_block_index (m_config m) e = Some (length blks) then Some () else None) }) (m_vm_list m);
     let b = (case hit of Some _ \<Rightarrow> b\<lparr>mb_avail := False\<rparr> | None \<Rightarrow> b);
     Some (m\<lparr>m_config := (m_config m)\<lparr>cfg_blks := blks @ [b]\<rparr>\<rparr>) }"

definition mediated_dev_append :: "usize \<Rightarrow> usize \<Rightarrow> Sys \<Rightarrow> ((unit + usize) \<times> Sys) option" where
  "mediated_dev_append class_id mmio_ipa s = do {
     vmr \<leftarrow> active_vm (s_m s);
     blk_pa \<leftarrow> sys_ipa2pa s vmr mmio_ipa;
     let b = \<lparr>mb_base_addr = blk_pa, mb_avail = True\<rparr>;
     s \<leftarrow> med_set b MED_NREQ 0 s;
     ipa \<leftarrow> med_get s b MED_CACHE_IPA;
     cache_pa \<leftarrow> sys_ipa2pa s vmr ipa;
     s \<leftarrow> med_set b MED_CACHE_PA cache_pa s;
     s \<leftarrow> on_m (mediated_blk_list_push b) s;
     Some (Inr 0, s) }"

end
