(* ===== verification/NetDev.thy ===== *)
theory NetDev
  imports BlkDev
begin

text \<open>
  The network device \<open>src/src/device/virtio/net.rs\<close> and the console \<open>src/src/device/virtio/console.rs\<close>.
  Frames and console data go from the buffers of the sending guest straight to the buffers of the
  receiving one.  The loops over descriptors and over the available ring are partial functions: a
  cyclic chain is followed forever.
\<close>

definition VIRTIO_NET_OK :: u8 where "VIRTIO_NET_OK = 0"
definition VIRTIO_NET_ERR :: u8 where "VIRTIO_NET_ERR = 1"
definition VIRTIO_NET_CTRL_ANNOUNCE :: u8 where "VIRTIO_NET_CTRL_ANNOUNCE = 3"
definition VIRTIO_NET_CTRL_ANNOUNCE_ACK :: u8 where "VIRTIO_NET_CTRL_ANNOUNCE_ACK = 0"

text \<open>\<open>size_of::<VirtioNetHdr>()\<close> and the offset of \<open>num_buffers\<close>.\<close>

definition NET_HDR_SIZE :: usize where "NET_HDR_SIZE = 12"
definition NUM_BUFFERS_OFFSET :: usize where "NUM_BUFFERS_OFFSET = 10"

section \<open>Pages written on behalf of a guest\<close>

definition page_addr :: "usize \<Rightarrow> usize" where
  "page_addr a = unat (round_down (of_nat a) (of_nat PAGE_SIZE))"

text \<open>The pages from the one of \<open>dst\<close> to the one of \<open>dst + len\<close>.\<close>

definition mark_pages :: "VmRef \<Rightarrow> usize \<Rightarrow> usize \<Rightarrow> Sys \<Rightarrow> Sys option" where
  "mark_pages vmr dst len s = do {
     e \<leftarrow> uadd dst len;
     fold_opt (\<lambda>i. on_m (vm_if_set_mem_map_bit vmr (page_addr dst + i * PAGE_SIZE)))
       [0..<(page_addr e - page_addr dst) div PAGE_SIZE + 1] s }"

text \<open>The used ring, which may reach into the next page.\<close>

definition mark_used :: "VmRef \<Rightarrow> Virtq \<Rightarrow> Sys \<Rightarrow> Sys option" where
  "mark_used vmr q s = do {
     used_addr \<leftarrow> sys_ipa2pa s vmr (unat (vq_used_addr q));
     s \<leftarrow> on_m (vm_if_set_mem_map_bit vmr used_addr) s;
     next_page \<leftarrow> uadd used_addr PAGE_SIZE;
     on_m (vm_if_set_mem_map_bit vmr next_page) s }"

section \<open>Reading and filling chains\<close>

text \<open>The buffers of a chain the running guest sends; an address it does not own ends the handler.\<close>

partial_function (option) tx_chain :: "MmioRef \<Rightarrow> usize \<Rightarrow> usize \<Rightarrow> VirtioIov \<Rightarrow> usize \<Rightarrow> Sys \<Rightarrow> (VirtioIov \<times> usize) option option" where
  "tx_chain r k d iov n s = do {
     q \<leftarrow> vec_get (mi_vq (s_mmio s r)) k;
     vmr \<leftarrow> active_vm (s_m s);
     ipa \<leftarrow> desc_addr (s_vring s) q d;
     addr \<leftarrow> sys_ipa2pa s vmr ipa;
     if addr = 0 then Some None
     else do {
       len \<leftarrow> desc_len (s_vring s) q d;
       let iov = iov_push_data addr (unat len) iov;
       n \<leftarrow> uadd n (unat len);
       flags \<leftarrow> desc_flags (s_vring s) q d;
       if flags = 0 then Some (Some (iov, n))
       else do { nx \<leftarrow> desc_next (s_vring s) q d; tx_chain r k (unat nx) iov n s } } }"

text \<open>The buffers the receiver offers, up to the length needed; \<open>mark\<close> records the pages as written.\<close>

partial_function (option) rx_chain ::
  "MmioRef \<Rightarrow> usize \<Rightarrow> VmRef \<Rightarrow> bool \<Rightarrow> usize \<Rightarrow> VirtioIov \<Rightarrow> usize \<Rightarrow> Sys \<Rightarrow> ((VirtioIov \<times> usize) option \<times> Sys) option" where
  "rx_chain r len vmr mark d iov n s = do {
     q \<leftarrow> vec_get (mi_vq (s_mmio s r)) 0;
     ipa \<leftarrow> desc_addr (s_vring s) q d;
     dst \<leftarrow> sys_ipa2pa s vmr ipa;
     if dst = 0 then Some (None, s)
     else do {
       dl \<leftarrow> desc_len (s_vring s) q d;
       s \<leftarrow> (if mark then mark_pages vmr dst (unat dl) s else Some s);
       let iov = iov_push_data dst (unat dl) iov;
       n \<leftarrow> uadd n (unat dl);
       if n \<ge> len then Some (Some (iov, n), s)
       else do {
         flags \<leftarrow> desc_flags (s_vring s) q d;
         if flags AND 1 = 0 then Some (Some (iov, n), s)
         else do { nx \<leftarrow> desc_next (s_vring s) q d; rx_chain r len vmr mark (unat nx) iov n s } } } }"

definition use_ring :: "MmioRef \<Rightarrow> usize \<Rightarrow> u32 \<Rightarrow> u32 \<Rightarrow> Sys \<Rightarrow> (bool \<times> Sys) option" where
  "use_ring r k len head s = do {
     q \<leftarrow> vec_get (mi_vq (s_mmio s r)) k;
     (ok, g) \<leftarrow> update_used_ring (s_vring s) q len head;
     Some (ok, s\<lparr>s_vring := g\<rparr>) }"

text \<open>\<open>vq.pop_avail_desc_idx(vq.avail_idx())\<close>.\<close>

definition pop_next :: "MmioRef \<Rightarrow> usize \<Rightarrow> Sys \<Rightarrow> (u16 option \<times> Sys) option" where
  "pop_next r k s = do {
     q \<leftarrow> vec_get (mi_vq (s_mmio s r)) k;
     av \<leftarrow> avail_idx (s_vring s) q;
     pop_avail r k av s }"

section \<open>Sending frames\<close>

definition net_dev_of :: "Machine \<Rightarrow> VmRef \<Rightarrow> MmioRef option" where
  "net_dev_of m vmr = (case emu_net_dev m vmr 0 of EmuVirtioNet r \<Rightarrow> Some r | _ \<Rightarrow> None)"

text \<open>
  The copy into the receiver's buffers.  \<open>num_buffers\<close> of the frame's header is set in the sender's
  own memory first.
\<close>

definition deliver_frame :: "MmioRef \<Rightarrow> VmRef \<Rightarrow> usize \<Rightarrow> VirtioIov \<Rightarrow> VirtioIov \<Rightarrow> usize \<Rightarrow> u16 \<Rightarrow> Sys \<Rightarrow> (bool \<times> Sys) option" where
  "deliver_frame r vmr vmid tx rx len head s = do {
     hdr \<leftarrow> iov_get_buf tx 0;
     assert_that (\<not> (m_trace (s_m s) \<and> hdr < 0x1000));
     let mem = (s_mem s)(hdr + NUM_BUFFERS_OFFSET := 1, hdr + NUM_BUFFERS_OFFSET + 1 := 0);
     (rest, mem) \<leftarrow> write_through_iov (m_trace (s_m s)) tx rx len mem;
     let s = s\<lparr>s_mem := mem\<rparr>;
     if rest > 0 then Some (False, s)
     else do {
       q \<leftarrow> vec_get (mi_vq (s_mmio s r)) 0;
       s \<leftarrow> (if vmid \<noteq> 0 then mark_used vmr q s else Some s);
       use_ring r 0 (of_nat len) (ucast head) s } }"

definition ethernet_send_to :: "usize \<Rightarrow> VirtioIov \<Rightarrow> usize \<Rightarrow> Sys \<Rightarrow> (bool \<times> Sys) option" where
  "ethernet_send_to vmid tx len s = (case vm_lookup (s_m s) vmid of
     None \<Rightarrow> Some (True, s)
   | Some vmr \<Rightarrow> (case net_dev_of (s_m s) vmr of
       None \<Rightarrow> Some (True, s)
     | Some r \<Rightarrow>
         if \<not> dv_activated (mi_dev (s_mmio s r)) then Some (False, s)
         else (case mmio_vq s r 0 of
           Inl _ \<Rightarrow> Some (False, s)
         | Inr q \<Rightarrow> do {
             (h, s) \<leftarrow> pop_next r 0 s;
             if \<not> avail_is_avail q then Some (False, s)
             else (case h of
               None \<Rightarrow> Some (False, s)
             | Some head \<Rightarrow> do {
                 (rx, s) \<leftarrow> rx_chain r len vmr (vmid \<noteq> 0) (unat head) [] 0 s;
                 case rx of
                   None \<Rightarrow> Some (False, s)
                 | Some (rx, rx_len) \<Rightarrow>
                     if rx_len < len then do { s \<leftarrow> on_vq r 0 put_back_avail_desc_idx s; Some (False, s) }
                     else deliver_frame r vmr vmid tx rx len head s }) })))"

definition ethernet_is_arp :: "u8 list \<Rightarrow> bool option" where
  "ethernet_is_arp frame = do {
     a \<leftarrow> vec_get frame 12;
     if a \<noteq> 0x8 then Some False else do { b \<leftarrow> vec_get frame 13; Some (b = 0x6) } }"

definition ethernet_mac_to_vm_id :: "Machine \<Rightarrow> u8 list \<Rightarrow> (unit + usize) option" where
  "ethernet_mac_to_vm_id m frame = do {
     hit \<leftarrow> find_loop (\<lambda>r. do {
         let vmid = vm_id (m_vms m r);
         b \<leftarrow> vm_if_cmp_mac m vmid frame;
         Some (if b then Some vmid else None) }) (m_vm_list m);
     Some (case hit of Some vmid \<Rightarrow> Inr vmid | None \<Rightarrow> Inl ()) }"

definition vm_bit :: "usize \<Rightarrow> u64 option" where
  "vm_bit vmid = do { assert_that (vmid < 64); Some (push_bit vmid 1) }"

definition broadcast_step :: "usize \<Rightarrow> VirtioIov \<Rightarrow> usize \<Rightarrow> usize \<Rightarrow> u64 \<times> Sys \<Rightarrow> (u64 \<times> Sys) option" where
  "broadcast_step cur tx len vmid ms = do {
     let (targets, s) = ms;
     if vmid = cur then Some (targets, s)
     else if vm_type (m_config (s_m s)) vmid \<noteq> VmTOs then Some (targets, s)
     else do {
       (ok, s) \<leftarrow> ethernet_send_to vmid tx len s;
       if \<not> ok then Some (targets, s) else do { b \<leftarrow> vm_bit vmid; Some (targets OR b, s) } } }"

definition ethernet_broadcast :: "VirtioIov \<Rightarrow> usize \<Rightarrow> Sys \<Rightarrow> ((bool \<times> u64) \<times> Sys) option" where
  "ethernet_broadcast tx len s = do {
     cur \<leftarrow> active_vm_id (s_m s);
     (targets, s) \<leftarrow> fold_opt (broadcast_step cur tx len) [0..<vm_num (m_config (s_m s))] (0, s);
     Some ((targets \<noteq> 0, targets), s) }"

definition is_broadcast :: "u8 list \<Rightarrow> bool" where
  "is_broadcast frame \<longleftrightarrow> take 6 frame = replicate 6 0xff"

definition ethernet_transmit :: "VirtioIov \<Rightarrow> usize \<Rightarrow> Sys \<Rightarrow> ((bool \<times> u64) \<times> Sys) option" where
  "ethernet_transmit tx len s =
     (if len < NET_HDR_SIZE \<or> len - NET_HDR_SIZE < 6 + 6 + 2 then Some ((False, 0), s)
      else do {
        frame \<leftarrow> iov_get_ptr (m_trace (s_m s)) (s_mem s) tx NET_HDR_SIZE;
        if is_broadcast frame then do {
          arp \<leftarrow> ethernet_is_arp frame;
          if \<not> arp then Some ((False, 0), s) else ethernet_broadcast tx len s }
        else if take 2 frame = [0x33, 0x33] then do {
          a \<leftarrow> vec_get frame 12;
          b \<leftarrow> vec_get frame 13;
          if \<not> (a = 0x86 \<and> b = 0xdd) then Some ((False, 0), s) else ethernet_broadcast tx len s }
        else do {
          t \<leftarrow> ethernet_mac_to_vm_id (s_m s) frame;
          case t of
            Inr vmid \<Rightarrow> do { (ok, s) \<leftarrow> ethernet_send_to vmid tx len s; b \<leftarrow> vm_bit vmid; Some ((ok, b), s) }
          | Inl _ \<Rightarrow> Some ((False, 0), s) } })"

section \<open>Telling the receivers\<close>

definition notify_rx :: "MmioRef \<Rightarrow> VmRef \<Rightarrow> Sys \<Rightarrow> (bool \<times> Sys) option" where
  "notify_rx r vmr s = (case mmio_vq s r 0 of
     Inl _ \<Rightarrow> Some (False, s)
   | Inr q \<Rightarrow>
       if vq_ready q \<noteq> 0 then do {
         flags \<leftarrow> avail_flags (s_vring s) q;
         s \<leftarrow> (if flags = 0 then mmio_notify r vmr s else Some s);
         Some (True, s) }
       else Some (True, s))"

text \<open>One target: \<open>None\<close> goes on to the next bit, \<open>Some b\<close> returns \<open>b\<close> from the handler.\<close>

definition notify_target :: "usize \<Rightarrow> Sys \<Rightarrow> (bool option \<times> Sys) option" where
  "notify_target trgt s = (case vm_lookup (s_m s) trgt of
     None \<Rightarrow> Some (Some True, s)
   | Some vmr \<Rightarrow> do {
       vo \<leftarrow> vm_vcpu (s_m s) vmr 0;
       v \<leftarrow> vo;
       if vc_phys_id (m_vcpus (s_m s) v) = this_cpu (s_m s) then
         (case net_dev_of (s_m s) vmr of
            None \<Rightarrow> Some (Some False, s)
          | Some r \<Rightarrow> do { (ok, s) \<leftarrow> notify_rx r vmr s; Some (if ok then None else Some False, s) })
       else do {
         src \<leftarrow> active_vm_id (s_m s);
         cpu \<leftarrow> vm_if_get_cpu_id (s_m s) trgt;
         (_, s) \<leftarrow> on_m_ret (ipi_send_msg cpu IpiTEthernetMsg (EnternetMsg src trgt)) s;
         Some (None, s) } })"

function notify_targets :: "usize \<Rightarrow> u64 \<Rightarrow> Sys \<Rightarrow> (bool \<times> Sys) option" where
  "notify_targets trgt targets s =
     (if targets = 0 then Some (True, s)
      else if targets AND 1 \<noteq> 0 then do {
        (stop, s) \<leftarrow> notify_target trgt s;
        case stop of Some b \<Rightarrow> Some (b, s) | None \<Rightarrow> notify_targets (trgt + 1) (drop_bit 1 targets) s }
      else notify_targets (trgt + 1) (drop_bit 1 targets) s)"
  by pat_completeness auto

lemma drop_bit_less: "(w :: u64) \<noteq> 0 \<Longrightarrow> unat (drop_bit (Suc 0) w) < unat w"
  by (subst unat_drop_bit_eq) (simp add: drop_bit_eq_div unat_gt_0)

termination notify_targets
  by (relation "measure (\<lambda>(trgt, targets, s). unat targets)") (auto simp: drop_bit_less)

declare notify_targets.simps [simp del]

partial_function (option) net_tx_loop :: "MmioRef \<Rightarrow> usize \<Rightarrow> VmRef \<Rightarrow> u16 option \<Rightarrow> u64 \<Rightarrow> Sys \<Rightarrow> (u64 option \<times> Sys) option" where
  "net_tx_loop r k vmr h targets s = (case h of
     None \<Rightarrow> Some (Some targets, s)
   | Some head \<Rightarrow> do {
       chain \<leftarrow> tx_chain r k (unat head) [] 0 s;
       case chain of
         None \<Rightarrow> Some (None, s)
       | Some (tx, len) \<Rightarrow> do {
           ((_, b), s) \<leftarrow> ethernet_transmit tx len s;
           q \<leftarrow> vec_get (mi_vq (s_mmio s r)) k;
           s \<leftarrow> (if vm_id (m_vms (s_m s) vmr) \<noteq> 0 then mark_used vmr q s else Some s);
           n \<leftarrow> usub len NET_HDR_SIZE;
           (ok, s) \<leftarrow> use_ring r k (of_nat n) (ucast head) s;
           if \<not> ok then Some (None, s)
           else do {
             (h, s) \<leftarrow> pop_next r k s;
             net_tx_loop r k vmr h (targets OR b) s } } })"

definition virtio_net_notify :: "usize \<Rightarrow> MmioRef \<Rightarrow> VmRef \<Rightarrow> Sys \<Rightarrow> (bool \<times> Sys) option" where
  "virtio_net_notify k r vmr s = do {
     q \<leftarrow> vec_get (mi_vq (s_mmio s r)) k;
     if vq_ready q = 0 then Some (False, s)
     else if vq_index q \<noteq> 1 then Some (True, s)
     else do {
       (h, s) \<leftarrow> pop_next r k s;
       (out, s) \<leftarrow> net_tx_loop r k vmr h 0 s;
       case out of
         None \<Rightarrow> Some (False, s)
       | Some targets \<Rightarrow>
           if \<not> avail_is_avail q then Some (False, s)
           else do {
             s \<leftarrow> mmio_notify r vmr s;
             notify_targets 0 targets s } } }"

definition ethernet_ipi_rev_handler :: "IpiMessage \<Rightarrow> Sys \<Rightarrow> Sys option" where
  "ethernet_ipi_rev_handler msg s = (case ipi_message msg of
     EnternetMsg src trgt \<Rightarrow> (case vm_lookup (s_m s) trgt of
       None \<Rightarrow> Some s
     | Some vmr \<Rightarrow> (case net_dev_of (s_m s) vmr of
         None \<Rightarrow> Some s
       | Some r \<Rightarrow> do { (_, s) \<leftarrow> notify_rx r vmr s; Some s }))
   | _ \<Rightarrow> None)"

section \<open>The control queue\<close>

definition upd_net_desc :: "MmioRef \<Rightarrow> (NetDescInner \<Rightarrow> NetDescInner) \<Rightarrow> Sys \<Rightarrow> Sys option" where
  "upd_net_desc r f s = (case dv_desc (mi_dev (s_mmio s r)) of
     NetDesc d \<Rightarrow> Some (upd_dev r (\<lambda>v. v\<lparr>dv_desc := NetDesc (f d)\<rparr>) s)
   | _ \<Rightarrow> None)"

partial_function (option) ctrl_chain ::
  "MmioRef \<Rightarrow> usize \<Rightarrow> usize \<Rightarrow> VirtioIov \<Rightarrow> VirtioIov \<Rightarrow> usize \<Rightarrow> Sys \<Rightarrow> (VirtioIov \<times> VirtioIov \<times> usize) option option" where
  "ctrl_chain r k d out_iov in_iov n s = do {
     q \<leftarrow> vec_get (mi_vq (s_mmio s r)) k;
     vmr \<leftarrow> active_vm (s_m s);
     ipa \<leftarrow> desc_addr (s_vring s) q d;
     addr \<leftarrow> sys_ipa2pa s vmr ipa;
     if addr = 0 then Some None
     else do {
       flags \<leftarrow> desc_flags (s_vring s) q d;
       len \<leftarrow> desc_len (s_vring s) q d;
       let (out_iov, in_iov) = (if flags AND VIRTQ_DESC_F_WRITE \<noteq> 0 then (out_iov, iov_push_data addr (unat len) in_iov)
                                else (iov_push_data addr (unat len) out_iov, in_iov));
       n \<leftarrow> uadd n (unat len);
       if flags \<noteq> VIRTQ_DESC_F_NEXT then Some (Some (out_iov, in_iov, n))
       else do { nx \<leftarrow> desc_next (s_vring s) q d; ctrl_chain r k (unat nx) out_iov in_iov n s } } }"

text \<open>
  The command: \<open>ctrl\<close> and \<open>status\<close> are local variables of the handler, at \<open>s_stack\<close> and behind it.
\<close>

definition ctrl_command :: "MmioRef \<Rightarrow> VirtioIov \<Rightarrow> VirtioIov \<Rightarrow> Sys \<Rightarrow> Sys option" where
  "ctrl_command r out_iov in_iov s = do {
     let p = s_stack s;
     mem \<leftarrow> iov_to_buf out_iov p 2 ((s_mem s)(p := 0, p + 1 := 0));
     let s = s\<lparr>s_mem := mem\<rparr>;
     if mem p = VIRTIO_NET_CTRL_ANNOUNCE then do {
       (st, s) \<leftarrow> (if mem (p + 1) = VIRTIO_NET_CTRL_ANNOUNCE_ACK
         then do { s \<leftarrow> upd_net_desc r (\<lambda>d. d\<lparr>nd_status := VIRTIO_NET_S_LINK_UP\<rparr>) s; Some (VIRTIO_NET_OK, s) }
         else Some (VIRTIO_NET_ERR, s));
       mem \<leftarrow> iov_from_buf in_iov (p + 2) 1 ((s_mem s)(p + 2 := st));
       Some (s\<lparr>s_mem := mem\<rparr>) }
     else Some s }"

partial_function (option) ctrl_loop :: "MmioRef \<Rightarrow> usize \<Rightarrow> VmRef \<Rightarrow> u16 option \<Rightarrow> Sys \<Rightarrow> (bool \<times> Sys) option" where
  "ctrl_loop r k vmr h s = (case h of
     None \<Rightarrow> Some (True, s)
   | Some head \<Rightarrow> do {
       chain \<leftarrow> ctrl_chain r k (unat head) [] [] 0 s;
       case chain of
         None \<Rightarrow> Some (False, s)
       | Some (out_iov, in_iov, len) \<Rightarrow> do {
           s \<leftarrow> ctrl_command r out_iov in_iov s;
           q \<leftarrow> vec_get (mi_vq (s_mmio s r)) k;
           s \<leftarrow> (if vm_id (m_vms (s_m s) vmr) \<noteq> 0 then do {
               used_addr \<leftarrow> sys_ipa2pa s vmr (unat (vq_used_addr q));
               s \<leftarrow> on_m (vm_if_set_mem_map_bit vmr used_addr) s;
               fold_opt (\<lambda>d. on_m (vm_if_set_mem_map_bit vmr (iov_buf d))) in_iov s }
             else Some s);
           (ok, s) \<leftarrow> use_ring r k (of_nat len) (ucast head) s;
           if \<not> ok then Some (False, s)
           else do {
             (h, s) \<leftarrow> pop_next r k s;
             ctrl_loop r k vmr h s } } })"

definition net_handle_ctrl :: "usize \<Rightarrow> MmioRef \<Rightarrow> VmRef \<Rightarrow> Sys \<Rightarrow> (bool \<times> Sys) option" where
  "net_handle_ctrl k r vmr s = do {
     q \<leftarrow> vec_get (mi_vq (s_mmio s r)) k;
     if vq_ready q = 0 then Some (False, s)
     else do {
       (h, s) \<leftarrow> pop_next r k s;
       (ok, s) \<leftarrow> ctrl_loop r k vmr h s;
       if \<not> ok then Some (False, s) else do { s \<leftarrow> mmio_notify r vmr s; Some (True, s) } } }"

definition virtio_net_announce :: "VmRef \<Rightarrow> Sys \<Rightarrow> Sys option" where
  "virtio_net_announce vmr s = (case net_dev_of (s_m s) vmr of
     None \<Rightarrow> Some s
   | Some r \<Rightarrow> (case dv_desc (mi_dev (s_mmio s r)) of
       NetDesc d \<Rightarrow> do {
         s \<leftarrow> upd_net_desc r (\<lambda>d. d\<lparr>nd_status := nd_status d OR VIRTIO_NET_S_ANNOUNCE\<rparr>) s;
         notify_config r vmr s }
     | _ \<Rightarrow> Some s))"

section \<open>The console\<close>

definition console_deliver :: "MmioRef \<Rightarrow> VmRef \<Rightarrow> u16 \<Rightarrow> VirtioIov \<Rightarrow> VirtioIov \<Rightarrow> usize \<Rightarrow> u16 \<Rightarrow> Sys \<Rightarrow> (bool \<times> Sys) option" where
  "console_deliver r vmr vmid tx rx len head s = do {
     (rest, mem) \<leftarrow> write_through_iov (m_trace (s_m s)) tx rx len (s_mem s);
     let s = s\<lparr>s_mem := mem\<rparr>;
     if rest > 0 then Some (False, s)
     else do {
       q \<leftarrow> vec_get (mi_vq (s_mmio s r)) 0;
       s \<leftarrow> (if vmid \<noteq> 0 then mark_used vmr q s else Some s);
       (ok, s) \<leftarrow> use_ring r 0 (of_nat len) (ucast head) s;
       if \<not> ok then Some (False, s) else do { s \<leftarrow> mmio_notify r vmr s; Some (True, s) } } }"

definition virtio_console_recv :: "u16 \<Rightarrow> u64 \<Rightarrow> VirtioIov \<Rightarrow> usize \<Rightarrow> Sys \<Rightarrow> (bool \<times> Sys) option" where
  "virtio_console_recv vmid ipa tx len s = (case vm_lookup (s_m s) (unat vmid) of
     None \<Rightarrow> Some (True, s)
   | Some vmr \<Rightarrow> do {
       dev \<leftarrow> emu_console_dev (s_m s) vmr (unat ipa);
       case dev of
         EmuVirtioConsole r \<Rightarrow>
           if \<not> dv_activated (mi_dev (s_mmio s r)) then Some (False, s)
           else (case mmio_vq s r 0 of
             Inl _ \<Rightarrow> Some (False, s)
           | Inr q \<Rightarrow> do {
               (h, s) \<leftarrow> pop_next r 0 s;
               if \<not> avail_is_avail q then Some (False, s)
               else (case h of
                 None \<Rightarrow> Some (True, s)
               | Some head \<Rightarrow> do {
                   (rx, s) \<leftarrow> rx_chain r len vmr (vmid \<noteq> 0) (unat head) [] 0 s;
                   case rx of
                     None \<Rightarrow> Some (False, s)
                   | Some (rx, rx_len) \<Rightarrow>
                       if rx_len < len then do { s \<leftarrow> on_vq r 0 put_back_avail_desc_idx s; Some (False, s) }
                       else console_deliver r vmr vmid tx rx len head s }) })
       | _ \<Rightarrow> Some (True, s) })"

partial_function (option) console_tx_loop :: "MmioRef \<Rightarrow> usize \<Rightarrow> VmRef \<Rightarrow> u16 \<Rightarrow> u64 \<Rightarrow> u16 option \<Rightarrow> Sys \<Rightarrow> (bool \<times> Sys) option" where
  "console_tx_loop r k vmr vmid ipa h s = (case h of
     None \<Rightarrow> Some (True, s)
   | Some head \<Rightarrow> do {
       chain \<leftarrow> tx_chain r k (unat head) [] 0 s;
       case chain of
         None \<Rightarrow> Some (False, s)
       | Some (tx, len) \<Rightarrow> do {
           (_, s) \<leftarrow> virtio_console_recv vmid ipa tx len s;
           q \<leftarrow> vec_get (mi_vq (s_mmio s r)) k;
           s \<leftarrow> (if vm_id (m_vms (s_m s) vmr) \<noteq> 0 then mark_used vmr q s else Some s);
           (ok, s) \<leftarrow> use_ring r k (of_nat len) (ucast head) s;
           if \<not> ok then Some (False, s)
           else do {
             (h, s) \<leftarrow> pop_next r k s;
             console_tx_loop r k vmr vmid ipa h s } } })"

definition virtio_console_notify :: "usize \<Rightarrow> MmioRef \<Rightarrow> VmRef \<Rightarrow> Sys \<Rightarrow> (bool \<times> Sys) option" where
  "virtio_console_notify k r vmr s = do {
     q \<leftarrow> vec_get (mi_vq (s_mmio s r)) k;
     if vq_index q mod 4 \<noteq> 1 then Some (True, s)
     else if vq_ready q = 0 then Some (False, s)
     else (case dv_desc (mi_dev (s_mmio s r)) of
       ConsoleDesc d \<Rightarrow> do {
         let (vmid, ipa) = target_console d;
         (h, s) \<leftarrow> pop_next r k s;
         (ok, s) \<leftarrow> console_tx_loop r k vmr vmid ipa h s;
         if \<not> ok then Some (False, s)
         else if \<not> avail_is_avail q then Some (False, s)
         else do { s \<leftarrow> mmio_notify r vmr s; Some (True, s) } }
     | _ \<Rightarrow> Some (False, s)) }"

section \<open>The handlers behind a queue\<close>

definition run_handler :: "NotifyHandler \<Rightarrow> usize \<Rightarrow> MmioRef \<Rightarrow> VmRef \<Rightarrow> Sys \<Rightarrow> (bool \<times> Sys) option" where
  "run_handler h = (case h of
     virtio_mediated_blk_notify_handler \<Rightarrow> virtio_mediated_blk_notify
   | virtio_blk_notify_handler \<Rightarrow> virtio_blk_notify
   | virtio_net_notify_handler \<Rightarrow> virtio_net_notify
   | virtio_net_handle_ctrl \<Rightarrow> net_handle_ctrl
   | virtio_console_notify_handler \<Rightarrow> virtio_console_notify)"

end
