(* ===== verification/BlkProps.thy ===== *)
theory BlkProps
  imports BlkDev
begin

text \<open>
  What the block device guarantees: requests are read as the driver wrote them, the sectors they
  reach, the delivery of finished reads, and the pairing of tasks with completions.  A chain without
  an end, and the missing offset in the range check, are shown to break these.
\<close>

section \<open>Reading a chain\<close>

text \<open>A descriptor of the chain, and the buffer it names once its address is translated.\<close>

definition chain_links :: "VringMem \<Rightarrow> Virtq \<Rightarrow> usize \<Rightarrow> usize \<Rightarrow> bool" where
  "chain_links g q d n \<longleftrightarrow> desc_has_next g q d = Some True \<and> map_option unat (desc_next g q d) = Some n"

fun chain_path :: "VringMem \<Rightarrow> Virtq \<Rightarrow> usize \<Rightarrow> usize list \<Rightarrow> usize \<Rightarrow> bool" where
  "chain_path g q d [] n \<longleftrightarrow> d = n"
| "chain_path g q d (x # xs) n \<longleftrightarrow> d = x \<and> (\<exists>y. chain_links g q d y \<and> chain_path g q y xs n)"

definition desc_buf :: "Sys \<Rightarrow> VmRef \<Rightarrow> Virtq \<Rightarrow> usize \<Rightarrow> BlkIov \<Rightarrow> bool" where
  "desc_buf s vmr q d v \<longleftrightarrow> (\<exists>ipa. desc_addr (s_vring s) q d = Some ipa \<and> sys_ipa2pa s vmr ipa = Some (bi_data_bg v)) \<and>
     bi_data_bg v \<noteq> 0 \<and> desc_len (s_vring s) q d = Some (bi_len v)"

text \<open>The direction of a data descriptor: writable by the device exactly when the request reads.\<close>

definition dir_ok :: "VringMem \<Rightarrow> Virtq \<Rightarrow> u32 \<Rightarrow> usize \<Rightarrow> bool" where
  "dir_ok g q ty d \<longleftrightarrow> (\<exists>f. desc_flags g q d = Some f \<and> drop_bit 1 (ucast (f AND 2)) \<noteq> ty)"

abbreviation iov_sum :: "BlkIov list \<Rightarrow> usize" where
  "iov_sum vs \<equiv> sum_list (map (\<lambda>v. unat (bi_len v)) vs)"

lemma blk_desc_header:
  assumes "vec_get (mi_vq (s_mmio s r)) idx = Some q" "chain_links (s_vring s) q h n"
    "desc_is_writable (s_vring s) q h = Some False" "desc_buf s vmr q h v"
  shows "blk_desc r idx vmr h True node s =
    Some (ChainNext (node\<lparr>rn_req_type := read_u32 (s_mem s) (bi_data_bg v), rn_sector := read_usize (s_mem s) (bi_data_bg v + 8)\<rparr>), s)"
  using assms by (auto simp: blk_desc_def Let_def chain_links_def desc_buf_def)

lemma blk_desc_data:
  assumes "vec_get (mi_vq (s_mmio s r)) idx = Some q" "chain_links (s_vring s) q d n"
    "dir_ok (s_vring s) q (rn_req_type node) d" "desc_buf s vmr q d v"
    "rn_iov_sum_up node + unat (bi_len v) < usize_bound"
  shows "blk_desc r idx vmr d False node s =
    Some (ChainNext (node\<lparr>rn_iov_sum_up := rn_iov_sum_up node + unat (bi_len v), rn_iov := rn_iov node @ [v]\<rparr>), s)"
  using assms by (cases v) (auto simp: blk_desc_def Let_def chain_links_def desc_buf_def dir_ok_def uadd_def)

lemma blk_desc_data_any:
  assumes "vec_get (mi_vq (s_mmio s r)) idx = Some q" "chain_links (s_vring s) q d n"
    "dir_ok (s_vring s) q (rn_req_type node) d" "desc_buf s vmr q d v"
  shows "blk_desc r idx vmr d False node s = None \<or>
    (\<exists>node'. blk_desc r idx vmr d False node s = Some (ChainNext node', s) \<and> rn_req_type node' = rn_req_type node)"
  using assms by (cases v) (auto simp: blk_desc_def Let_def chain_links_def desc_buf_def dir_ok_def uadd_def)

lemma blk_chain_next:
  assumes "vec_get (mi_vq (s_mmio s r)) idx = Some q" "chain_links (s_vring s) q d n"
    "blk_desc r idx vmr d head node s = Some (ChainNext node', s)"
  shows "blk_chain r idx vmr d head node s = blk_chain r idx vmr n False node' s"
  using assms by (subst blk_chain.simps) (auto simp: chain_links_def)

definition status_byte :: "u32 \<Rightarrow> u8" where
  "status_byte ty = (if ty > 1 \<and> ty \<noteq> 8 then VIRTIO_BLK_S_UNSUPP else VIRTIO_BLK_S_OK)"

lemma blk_chain_status:
  assumes "vec_get (mi_vq (s_mmio s r)) idx = Some q" "desc_has_next (s_vring s) q e = Some False"
    "desc_is_writable (s_vring s) q e = Some True" "desc_buf s vmr q e v"
  shows "blk_chain r idx vmr e head node s =
    Some (Some node, s\<lparr>s_mem := (s_mem s)(bi_data_bg v := status_byte (rn_req_type node))\<rparr>)"
  using assms by (subst blk_chain.simps)
    (auto simp: blk_desc_def Let_def desc_buf_def status_byte_def VIRTIO_BLK_T_GET_ID_def)

lemma blk_chain_data:
  assumes q: "vec_get (mi_vq (s_mmio s r)) idx = Some q" and ends: "desc_has_next (s_vring s) q e = Some False"
    "desc_is_writable (s_vring s) q e = Some True" "desc_buf s vmr q e st"
  shows "chain_path (s_vring s) q d ds e \<Longrightarrow> list_all2 (desc_buf s vmr q) ds vs \<Longrightarrow>
    \<forall>x \<in> set ds. dir_ok (s_vring s) q (rn_req_type node) x \<Longrightarrow> rn_iov_sum_up node + iov_sum vs < usize_bound \<Longrightarrow>
    blk_chain r idx vmr d False node s = Some (Some (node\<lparr>rn_iov_sum_up := rn_iov_sum_up node + iov_sum vs, rn_iov := rn_iov node @ vs\<rparr>),
      s\<lparr>s_mem := (s_mem s)(bi_data_bg st := status_byte (rn_req_type node))\<rparr>)"
proof (induction ds arbitrary: d vs node)
  case Nil
  then show ?case using blk_chain_status[OF q ends, of False node] by (cases node) (simp add: fun_upd_def)
next
  case (Cons x ds)
  then obtain v vs' where vs: "vs = v # vs'" "desc_buf s vmr q x v" "list_all2 (desc_buf s vmr q) ds vs'"
    by (auto simp: list_all2_Cons1)
  from Cons.prems(1) obtain y where y: "d = x" "chain_links (s_vring s) q d y" "chain_path (s_vring s) q y ds e" by auto
  let ?n = "node\<lparr>rn_iov_sum_up := rn_iov_sum_up node + unat (bi_len v), rn_iov := rn_iov node @ [v]\<rparr>"
  have "blk_desc r idx vmr d False node s = Some (ChainNext ?n, s)"
    using Cons.prems(3,4) vs y(1,2) q by (intro blk_desc_data) auto
  then have "blk_chain r idx vmr d False node s = blk_chain r idx vmr y False ?n s" by (rule blk_chain_next[OF q y(2)])
  moreover have "\<forall>z \<in> set ds. dir_ok (s_vring s) q (rn_req_type ?n) z" "rn_iov_sum_up ?n + iov_sum vs' < usize_bound"
    using Cons.prems(3,4) vs(1) by (simp_all add: add.assoc)
  ultimately show ?case using Cons.IH[OF y(3) vs(3), of ?n] vs(1) by (simp add: add.assoc)
qed

text \<open>
  C25. A well-formed request is read as the driver wrote it.  For a chain of a readable header, data
  descriptors in the direction of the request and a writable status byte, all of them translated by
  the guest's memory map, the parser of \<open>virtio_blk_notify_handler\<close> ends, takes type and sector from
  the header, collects the translated buffers in order with the sum of their lengths, and writes the
  status byte; nothing else of the state changes.
\<close>

theorem blk_chain_parses:
  assumes "vec_get (mi_vq (s_mmio s r)) idx = Some q" "chain_links (s_vring s) q h d"
    "desc_is_writable (s_vring s) q h = Some False" "desc_buf s vmr q h hd_buf"
    "chain_path (s_vring s) q d ds e" "list_all2 (desc_buf s vmr q) ds vs"
    "desc_has_next (s_vring s) q e = Some False" "desc_is_writable (s_vring s) q e = Some True" "desc_buf s vmr q e st"
    "\<forall>x \<in> set ds. dir_ok (s_vring s) q (read_u32 (s_mem s) (bi_data_bg hd_buf)) x"
    "rn_iov node = []" "rn_iov_sum_up node = 0" "iov_sum vs < usize_bound"
  shows "blk_chain r idx vmr h True node s =
    Some (Some (node\<lparr>rn_req_type := read_u32 (s_mem s) (bi_data_bg hd_buf), rn_sector := read_usize (s_mem s) (bi_data_bg hd_buf + 8),
        rn_iov_sum_up := iov_sum vs, rn_iov := vs\<rparr>),
      s\<lparr>s_mem := (s_mem s)(bi_data_bg st := status_byte (read_u32 (s_mem s) (bi_data_bg hd_buf)))\<rparr>)"
proof -
  let ?n = "node\<lparr>rn_req_type := read_u32 (s_mem s) (bi_data_bg hd_buf), rn_sector := read_usize (s_mem s) (bi_data_bg hd_buf + 8)\<rparr>"
  have "blk_chain r idx vmr h True node s = blk_chain r idx vmr d False ?n s"
    by (intro blk_chain_next[OF assms(1,2)] blk_desc_header[OF assms(1,2,3,4)])
  also have "\<dots> = Some (Some (?n\<lparr>rn_iov_sum_up := rn_iov_sum_up ?n + iov_sum vs, rn_iov := rn_iov ?n @ vs\<rparr>),
      s\<lparr>s_mem := (s_mem s)(bi_data_bg st := status_byte (rn_req_type ?n))\<rparr>)"
    by (intro blk_chain_data[OF assms(1,7,8,9)]) (use assms in simp_all)
  finally show ?thesis using assms(11,12) by simp
qed

text \<open>
  A chain that never ends is followed forever.  If every descriptor of a set leads to another one
  of the set, and none of them is rejected, the parser started at any of them does not return: a
  guest that links a descriptor to itself stops the core that serves its device.
\<close>

theorem blk_chain_cycle_hangs:
  assumes "vec_get (mi_vq (s_mmio s r)) idx = Some q" "d \<in> D"
    "\<forall>x \<in> D. (\<exists>y \<in> D. chain_links (s_vring s) q x y) \<and> dir_ok (s_vring s) q (rn_req_type node) x \<and> (\<exists>v. desc_buf s vmr q x v)"
  shows "blk_chain r idx vmr d False node s = None"
proof -
  have False if "blk_chain r idx vmr d False node s = Some out" for out
  proof -
    have "r' = r \<longrightarrow> idx' = idx \<longrightarrow> vmr' = vmr \<longrightarrow> d' \<in> D \<longrightarrow> \<not> hd' \<longrightarrow> rn_req_type node' = rn_req_type node \<longrightarrow> s' = s \<longrightarrow> False"
      if "blk_chain r' idx' vmr' d' hd' node' s' = Some out" for r' idx' vmr' d' hd' node' s'
      using that
    proof (rule blk_chain.raw_induct[rotated])
      fix f r' idx' vmr' d' hd' node' s' and out :: "VirtioBlkReqNode option \<times> Sys"
      assume IH: "\<And>r' idx' vmr' d' hd' node' s' out. f r' idx' vmr' d' hd' node' s' = Some out \<Longrightarrow>
        r' = r \<longrightarrow> idx' = idx \<longrightarrow> vmr' = vmr \<longrightarrow> d' \<in> D \<longrightarrow> \<not> hd' \<longrightarrow> rn_req_type node' = rn_req_type node \<longrightarrow> s' = s \<longrightarrow> False"
        and body: "blk_desc r' idx' vmr' d' hd' node' s' \<bind> (\<lambda>(step, s). case step of ChainFail \<Rightarrow> Some (None, s)
          | ChainNext node \<Rightarrow> vec_get (mi_vq (s_mmio s r')) idx' \<bind> (\<lambda>q. desc_next (s_vring s) q d' \<bind> (\<lambda>next. f r' idx' vmr' (unat next) False node s))
          | ChainDone node \<Rightarrow> Some (Some node, s)) = Some out"
      show "r' = r \<longrightarrow> idx' = idx \<longrightarrow> vmr' = vmr \<longrightarrow> d' \<in> D \<longrightarrow> \<not> hd' \<longrightarrow> rn_req_type node' = rn_req_type node \<longrightarrow> s' = s \<longrightarrow> False"
      proof (intro impI)
        assume a: "r' = r" "idx' = idx" "vmr' = vmr" "d' \<in> D" "\<not> hd'" "rn_req_type node' = rn_req_type node" "s' = s"
        then obtain y v where y: "y \<in> D" "chain_links (s_vring s) q d' y" "dir_ok (s_vring s) q (rn_req_type node') d'" "desc_buf s vmr q d' v"
          using assms(3) by metis
        show False using blk_desc_data_any[OF assms(1) y(2,3,4)]
        proof (elim disjE exE conjE)
          fix node'' assume n: "blk_desc r idx vmr d' False node' s = Some (ChainNext node'', s)" "rn_req_type node'' = rn_req_type node'"
          with body a y(2) assms(1) have "f r idx vmr y False node'' s = Some out" by (auto simp: chain_links_def)
          from IH[OF this] y(1) n(2) a(6) show False by simp
        qed (use body a in simp)
      qed
    qed
    then show False using that assms(2) by blast
  qed
  then show ?thesis by (meson not_None_eq)
qed

section \<open>The sectors of a request\<close>

abbreviation io_queue_ok :: "Sys \<Rightarrow> bool" where
  "io_queue_ok s \<equiv> fq_ok at_src_vmid (s_io_tasks s)"

abbreviation io_tasks_of :: "Sys \<Rightarrow> usize \<Rightarrow> AsyncTask list" where
  "io_tasks_of s \<equiv> fq_tasks (s_io_tasks s)"

lemma add_io_task:
  assumes "io_queue_ok s" "add_async_task exe t False s = Some s'"
  shows "io_queue_ok s'" "io_tasks_of s' = (io_tasks_of s)(at_src_vmid t := io_tasks_of s (at_src_vmid t) @ [t])"
    "s_m s' = s_m s" "s_used_info s' = s_used_info s"
proof -
  from assms(2) obtain q' where q': "fq_push_back at_src_vmid t (s_io_tasks s) = Some q'"
    by (auto simp: add_async_task_def panic_simps)
  note push = fq_push_back_spec[OF assms(1) q']
  have "fq_tasks q' (at_src_vmid t) \<noteq> []" using push(2) by simp
  then have "\<not> fq_is_empty q'" by (auto simp: fq_tasks_def fq_is_empty_def)
  with assms(2) q' have "s' = s\<lparr>s_io_tasks := q'\<rparr>" by (auto simp: add_async_task_def panic_simps)
  with push show "io_queue_ok s'" "io_tasks_of s' = (io_tasks_of s)(at_src_vmid t := io_tasks_of s (at_src_vmid t) @ [t])"
    "s_m s' = s_m s" "s_used_info s' = s_used_info s" by simp_all
qed

definition io_range :: "usize \<Rightarrow> usize \<Rightarrow> AsyncTask \<Rightarrow> bool" where
  "io_range lo hi t \<longleftrightarrow> (case at_task_data t of AsyncIoTask a \<Rightarrow> lo \<le> io_sector a \<and> io_sector a + io_count a \<le> hi | _ \<Rightarrow> True)"

text \<open>Every task of \<open>s'\<close> that \<open>s\<close> did not have satisfies \<open>P\<close>.\<close>

definition new_tasks :: "(AsyncTask \<Rightarrow> bool) \<Rightarrow> Sys \<Rightarrow> Sys \<Rightarrow> bool" where
  "new_tasks P s s' \<longleftrightarrow> io_queue_ok s' \<and> (\<forall>own. \<forall>t \<in> set (io_tasks_of s' own). t \<in> set (io_tasks_of s own) \<or> P t)"

lemma new_tasks_refl: "io_queue_ok s \<Longrightarrow> s_io_tasks s' = s_io_tasks s \<Longrightarrow> new_tasks P s s'"
  by (simp add: new_tasks_def)

lemma new_tasks_trans: "new_tasks P s s' \<Longrightarrow> new_tasks P s' s'' \<Longrightarrow> new_tasks P s s''"
  unfolding new_tasks_def by meson

lemma push_used_info_tasks [simp]: "s_io_tasks (push_used_info h n v s) = s_io_tasks s"
  by (simp add: push_used_info_def split: option.splits)

lemma io_task_spec:
  assumes "io_queue_ok s" "io_task ty sector node idx r cache start vmr s = Some s'"
  obtains t a where "io_tasks_of s' = (io_tasks_of s)(vm_id (m_vms (s_m s) vmr) := io_tasks_of s (vm_id (m_vms (s_m s) vmr)) @ [t])"
    "at_task_data t = AsyncIoTask a" "io_sector a = sector + start" "io_count a = rn_iov_sum_up node div SECTOR_BSIZE"
    "io_queue_ok s'" "s_m s' = s_m s" "s_used_info s' = s_used_info s"
proof -
  from assms(2) obtain bid s0 t a where t: "add_async_task (\<lambda>_. None) t False s0 = Some s'" "s_io_tasks s0 = s_io_tasks s"
    "at_task_data t = AsyncIoTask a" "at_src_vmid t = vm_id (m_vms (s_m s) vmr)"
    "io_sector a = sector + start" "io_count a = rn_iov_sum_up node div SECTOR_BSIZE" "s_m s0 = s_m s" "s_used_info s0 = s_used_info s"
    by (auto simp: io_task_def Let_def AsyncTask_new_def panic_simps)
  with assms(1) have ok: "io_queue_ok s0" by simp
  show ?thesis by (rule that[OF _ t(3,5,6)]) (use add_io_task[OF ok t(1)] t(2,4,7,8) in simp_all)
qed

definition from_ipi :: "AsyncTask \<Rightarrow> bool" where
  "from_ipi t \<longleftrightarrow> (\<exists>x. at_task_data t = AsyncIpiTask x)"

text \<open>A request is skipped, or queues one task and one completion of the same guest.\<close>

lemma blk_req_node_cases:
  assumes "io_queue_ok s" "blk_req_node req idx r cache vmr node (c, s) = Some (c', s')"
  obtains (skip) "s' = s"
  | (task) t s1 h n where "io_queue_ok s1" "io_tasks_of s1 = (io_tasks_of s)(vm_id (m_vms (s_m s) vmr) := io_tasks_of s (vm_id (m_vms (s_m s) vmr)) @ [t])"
      "s_used_info s1 = s_used_info s" "s' = push_used_info h n (vm_id (m_vms (s_m s) vmr)) s1" "\<not> from_ipi t"
      "io_range (br_start req) (br_start req + (br_start req + br_size req)) t"
proof -
  note unf = blk_req_node_def Let_def panic_simps VIRTIO_BLK_T_IN_def VIRTIO_BLK_T_OUT_def VIRTIO_BLK_T_GET_ID_def
  let ?ty = "unat (rn_req_type node)"
  show ?thesis
  proof (cases "rn_sector node + rn_iov_sum_up node div SECTOR_BSIZE \<le> br_start req + br_size req \<and> ?ty \<in> {0, 1, 8}")
    case False
    with assms(2) show ?thesis by (intro skip) (auto simp: unf split: if_splits)
  next
    case True
    then have le: "rn_sector node + rn_iov_sum_up node div SECTOR_BSIZE \<le> br_start req + br_size req" by blast
    show ?thesis
    proof (cases "?ty = 8")
      case False
      with True assms(2) obtain ty s1 h n where s1: "io_task ty (rn_sector node) node idx r cache (br_start req) vmr s = Some s1"
        "s' = push_used_info h n (vm_id (m_vms (s_m s1) vmr)) s1" by (auto simp: unf)
      show ?thesis by (rule io_task_spec[OF assms(1) s1(1)], rule task) (use s1(2) le in \<open>auto simp: from_ipi_def io_range_def\<close>)
    next
      case 8: True
      with le assms(2) obtain s0 s1 t h n where t: "add_async_task (\<lambda>_. None) t False s0 = Some s1" "s_io_tasks s0 = s_io_tasks s" "s_m s0 = s_m s"
        "s_used_info s0 = s_used_info s" "\<not> from_ipi t" "\<And>lo hi. io_range lo hi t" "at_src_vmid t = vm_id (m_vms (s_m s) vmr)"
        "s' = push_used_info h n (vm_id (m_vms (s_m s1) vmr)) s1"
        by (auto simp: unf AsyncTask_new_def task_set_state_def io_range_def from_ipi_def)
      with assms(1) have "io_queue_ok s0" by simp
      from add_io_task[OF this t(1)] t show ?thesis by (intro task[of s1 t]) simp_all
    qed
  qed
qed

lemma blk_req_node_new:
  assumes "io_queue_ok s" "blk_req_node req idx r cache vmr node (c, s) = Some (c', s')"
  shows "new_tasks (io_range (br_start req) (br_start req + (br_start req + br_size req))) s s'"
  by (rule blk_req_node_cases[OF assms]) (use assms(1) in \<open>auto simp: new_tasks_def split: if_splits\<close>)

lemma blk_req_nodes_new:
  "io_queue_ok s \<Longrightarrow> fold_opt (blk_req_node req idx r cache vmr) nodes (c, s) = Some (c', s') \<Longrightarrow>
    new_tasks (io_range (br_start req) (br_start req + (br_start req + br_size req))) s s'"
proof (induction nodes arbitrary: c s)
  case Nil
  then show ?case by (simp add: new_tasks_refl)
next
  case (Cons n nodes)
  then obtain c1 s1 where s1: "blk_req_node req idx r cache vmr n (c, s) = Some (c1, s1)"
    "fold_opt (blk_req_node req idx r cache vmr) nodes (c1, s1) = Some (c', s')" by (auto simp: panic_simps)
  note new = blk_req_node_new[OF Cons.prems(1) s1(1)]
  then have "io_queue_ok s1" by (simp add: new_tasks_def)
  from new_tasks_trans[OF new Cons.IH[OF this s1(2)]] show ?case .
qed

text \<open>
  C26. The sectors a guest can reach.  Whatever requests the guest queued, \<open>generate_blk_req\<close> creates
  only tasks whose sectors start at or after the guest's region and end at or before
  \<open>start + (start + size)\<close>; the region itself ends at \<open>start + size\<close>, so a guest whose region starts
  at sector 0 stays within it.
\<close>

theorem blk_tasks_bounded:
  assumes "io_queue_ok s" "blk_req_of s r = Some req" "generate_blk_req r idx cache vmr s = Some s'"
    "t \<in> set (io_tasks_of s' own)" "t \<notin> set (io_tasks_of s own)"
  shows "io_range (br_start req) (br_start req + (br_start req + br_size req)) t"
proof -
  from assms(2,3) obtain c s1 where s1: "fold_opt (blk_req_node req idx r cache vmr) (br_req_list req) (cache, s) = Some (c, s1)"
    "s_io_tasks s' = s_io_tasks s1" by (auto simp: generate_blk_req_def panic_simps upd_req_def upd_dev_def upd_mmio_def)
  from blk_req_nodes_new[OF assms(1) s1(1)] assms(4,5) s1(2) show ?thesis by (auto simp: new_tasks_def)
qed

text \<open>
  C27. The range check leaves out the start of the region.  A read or write that the guest asks for at
  the sector right behind its own region passes the check as long as it is no longer than the
  region's offset, and queues a task for sectors outside the region: those of another guest.
\<close>

theorem blk_request_beyond_region:
  assumes "io_queue_ok s" "blk_req_node req idx r cache vmr node (c, s) = Some (c', s')"
    "unat (rn_req_type node) \<in> {VIRTIO_BLK_T_IN, VIRTIO_BLK_T_OUT}"
    "rn_sector node = br_size req" "rn_iov_sum_up node div SECTOR_BSIZE \<le> br_start req"
  shows "\<exists>t a. io_tasks_of s' (vm_id (m_vms (s_m s) vmr)) = io_tasks_of s (vm_id (m_vms (s_m s) vmr)) @ [t] \<and>
    at_task_data t = AsyncIoTask a \<and> io_sector a = br_start req + br_size req \<and> io_count a = rn_iov_sum_up node div SECTOR_BSIZE"
proof -
  from assms(2-5) obtain ty s1 where s1: "io_task ty (rn_sector node) node idx r cache (br_start req) vmr s = Some s1" "s_io_tasks s' = s_io_tasks s1"
    by (auto simp: blk_req_node_def Let_def panic_simps VIRTIO_BLK_T_IN_def VIRTIO_BLK_T_OUT_def)
  show ?thesis by (rule io_task_spec[OF assms(1) s1(1)]) (use s1(2) assms(4) in \<open>simp add: add.commute\<close>)
qed

section \<open>Completion of a read\<close>

definition iov_of :: "BlkIov list \<Rightarrow> VirtioIov" where
  "iov_of vs = map (\<lambda>v. \<lparr>iov_buf = bi_data_bg v, iov_len = unat (bi_len v)\<rparr>) vs"

lemma iov_of_simps [simp]: "iov_of [] = []" "iov_of (v # vs) = \<lparr>iov_buf = bi_data_bg v, iov_len = unat (bi_len v)\<rparr> # iov_of vs"
  by (simp_all add: iov_of_def)

text \<open>A list of adjacent buffers and one buffer hold the same bytes.\<close>

abbreviation cache_seg :: "usize \<Rightarrow> BlkIov list \<Rightarrow> VirtioIovData" where
  "cache_seg c vs \<equiv> \<lparr>iov_buf = c, iov_len = iov_total (iov_of vs)\<rparr>"

lemma copy_in_total:
  assumes "\<And>d c. 0x1000 \<le> d \<Longrightarrow> 0x1000 \<le> c \<Longrightarrow> \<not> chk d c"
  shows "iov_safe (iov_of vs) \<Longrightarrow> iov_apart (iov_of vs) \<Longrightarrow> iov_area (iov_of vs) \<inter> seg (cache_seg c vs) = {} \<Longrightarrow> 0x1000 \<le> c \<Longrightarrow>
    c + iov_total (iov_of vs) < usize_bound \<Longrightarrow>
    \<exists>m'. copy_iovs chk (\<lambda>d c n. memcpy_safe d c n) vs c m = Some m' \<and> gather m' (iov_of vs) = seg_bytes m (cache_seg c vs) \<and>
      (\<forall>a. a \<notin> iov_area (iov_of vs) \<longrightarrow> m' a = m a)"
proof (induction vs arbitrary: c m)
  case Nil
  then show ?case by (simp add: seg_bytes_def)
next
  case (Cons v vs)
  let ?n = "unat (bi_len v)" and ?d = "bi_data_bg v"
  let ?m = "memcpy ?d c ?n m" and ?s = "\<lparr>iov_buf = ?d, iov_len = ?n\<rparr>"
  have sub: "seg (cache_seg (c + ?n) vs) \<subseteq> seg (cache_seg c (v # vs))" by (auto simp: seg_def)
  with Cons.prems obtain m' where m': "copy_iovs chk (\<lambda>d c n. memcpy_safe d c n) vs (c + ?n) ?m = Some m'"
    "gather m' (iov_of vs) = seg_bytes ?m (cache_seg (c + ?n) vs)" "\<forall>a. a \<notin> iov_area (iov_of vs) \<longrightarrow> m' a = ?m a"
    using Cons.IH[of "c + ?n" ?m] by auto
  have head: "seg_bytes m' ?s = seg_bytes m \<lparr>iov_buf = c, iov_len = ?n\<rparr>"
  proof -
    have "seg_bytes m' ?s = seg_bytes ?m ?s" using m'(3) Cons.prems(2) by (intro seg_bytes_cong) auto
    then show ?thesis by (simp add: seg_bytes_memcpy)
  qed
  have "seg_bytes ?m (cache_seg (c + ?n) vs) = seg_bytes m (cache_seg (c + ?n) vs)"
    using Cons.prems(3) sub by (intro seg_bytes_cong memcpy_outside) auto
  then have "gather m' (iov_of (v # vs)) = seg_bytes m (cache_seg c (v # vs))"
    using head m'(2) seg_split[of ?n "cache_seg c (v # vs)" m] by simp
  moreover have "m' a = m a" if "a \<notin> iov_area (iov_of (v # vs))" for a
    using that m'(3) memcpy_outside[of a ?d ?n c m] by simp
  moreover have "copy_iovs chk (\<lambda>d c n. memcpy_safe d c n) (v # vs) c m = Some m'"
    using m'(1) Cons.prems assms[of ?d c] by (simp add: memcpy_safe_def)
  ultimately show ?case by blast
qed

lemma mmio_notify_frame: "mmio_notify r vmr s = Some s' \<Longrightarrow> s_mem s' = s_mem s \<and> s_used_info s' = s_used_info s \<and> s_io_tasks s' = s_io_tasks s \<and> s_vring s' = s_vring s"
  by (auto simp: mmio_notify_def notify_int_def Let_def panic_simps on_m_def on_m_ret_def upd_regs_def upd_mmio_def split: if_splits)

lemma update_used_info_frame: "update_used_info r idx v s = Some s' \<Longrightarrow> s_mem s' = s_mem s \<and> s_io_tasks s' = s_io_tasks s"
  by (auto simp: update_used_info_def Let_def panic_simps split: option.splits)

lemma fq_front_pop:
  assumes "fq_ok owner q" "fq_front q = Some (Some t)"
  obtains q' where "fq_pop_front q = Some (Some t, q')" "fq_ok owner q'" "fq_tasks q (owner t) = t # fq_tasks q' (owner t)"
    "\<And>own. own \<noteq> owner t \<Longrightarrow> fq_tasks q' own = fq_tasks q own"
proof -
  from assms(2) obtain own rest where own: "fq_queue q = own # rest" by (auto simp: fq_front_def split: list.splits)
  obtain x ts q' where q': "fq_tasks q own = x # ts" "owner x = own" "fq_pop_front q = Some (Some x, q')" "fq_ok owner q'"
    "fq_tasks q' = (fq_tasks q)(own := ts)" by (rule fq_pop_front_spec[OF assms(1) own])
  then have "x = t" using assms(2) own by (auto simp: fq_front_def fq_tasks_def list_front_def split: option.splits)
  with q' show ?thesis by (intro that[of q']) auto
qed

text \<open>
  C28. A finished read puts the sectors where the driver asked for them: when the task at the front of
  the queue is a read, its buffers hold, one after the other, the bytes the service guest left in the
  cache, and no other byte of memory changes.
\<close>

theorem blk_read_delivers:
  assumes "io_queue_ok s" "fq_front (s_io_tasks s) = Some (Some t)" "at_task_data t = AsyncIoTask a" "io_type a = VIRTIO_BLK_T_IN"
    "iov_safe (iov_of (io_iov_list a))" "iov_apart (iov_of (io_iov_list a))" "0x1000 \<le> io_cache a"
    "io_cache a + iov_total (iov_of (io_iov_list a)) < usize_bound"
    "iov_area (iov_of (io_iov_list a)) \<inter> seg (cache_seg (io_cache a) (io_iov_list a)) = {}"
    "finish_async_task False s = Some s'"
  shows "gather (s_mem s') (iov_of (io_iov_list a)) = seg_bytes (s_mem s) (cache_seg (io_cache a) (io_iov_list a)) \<and>
    (\<forall>x. x \<notin> iov_area (iov_of (io_iov_list a)) \<longrightarrow> s_mem s' x = s_mem s x)"
proof -
  let ?chk = "\<lambda>d c. m_trace (s_m s) \<and> (d < 0x1000 \<or> c < (0x1000 :: usize))"
  obtain m' where m': "copy_iovs ?chk (\<lambda>d c n. memcpy_safe d c n) (io_iov_list a) (io_cache a) (s_mem s) = Some m'"
    "gather m' (iov_of (io_iov_list a)) = seg_bytes (s_mem s) (cache_seg (io_cache a) (io_iov_list a))"
    "\<forall>x. x \<notin> iov_area (iov_of (io_iov_list a)) \<longrightarrow> m' x = s_mem s x"
    using copy_in_total[of ?chk "io_iov_list a" "io_cache a" "s_mem s"] assms(5-9) by auto
  obtain q' where "fq_pop_front (s_io_tasks s) = Some (Some t, q')" by (rule fq_front_pop[OF assms(1,2)])
  with assms(3,4,10) m'(1) have "s_mem s' = m'"
    by (auto simp: finish_async_task_def panic_simps dest!: mmio_notify_frame update_used_info_frame)
  with m' show ?thesis by simp
qed

section \<open>Tasks and completions\<close>

text \<open>Each queued task of a guest has a completion waiting in the guest's list of used chains.\<close>

definition used_paired :: "Sys \<Rightarrow> bool" where
  "used_paired s \<longleftrightarrow> io_queue_ok s \<and>
     (\<forall>own infos. map_of (s_used_info s) own = Some infos \<longrightarrow> length infos = length (io_tasks_of s own)) \<and>
     (\<forall>own. \<forall>t \<in> set (io_tasks_of s own). \<not> from_ipi t)"

lemma push_used_info_paired:
  assumes "io_queue_ok s'" "used_paired s" "io_tasks_of s' = (io_tasks_of s)(own := io_tasks_of s own @ [t])" "s_used_info s' = s_used_info s" "\<not> from_ipi t"
  shows "used_paired (push_used_info h n own s')"
  using assms by (simp add: used_paired_def push_used_info_def update_conv' split: option.splits)

lemma blk_req_node_paired:
  assumes "used_paired s" "blk_req_node req idx r cache vmr node (c, s) = Some (c', s')"
  shows "used_paired s'"
proof -
  from assms(1) have "io_queue_ok s" by (simp add: used_paired_def)
  from this assms(2) show ?thesis
    by (cases rule: blk_req_node_cases) (use assms(1) push_used_info_paired in \<open>blast+\<close>)
qed

lemma generate_blk_req_paired:
  assumes "used_paired s" "generate_blk_req r idx cache vmr s = Some s'"
  shows "used_paired s'"
proof -
  from assms(2) obtain req c s1 where s1: "fold_opt (blk_req_node req idx r cache vmr) (br_req_list req) (cache, s) = Some (c, s1)"
    "s_io_tasks s' = s_io_tasks s1" "s_used_info s' = s_used_info s1"
    by (auto simp: generate_blk_req_def panic_simps upd_req_def upd_dev_def upd_mmio_def)
  have "used_paired (snd (c, s1))" by (rule fold_opt_invariant[OF s1(1)]) (use assms(1) blk_req_node_paired in auto)
  with s1 show ?thesis by (simp add: used_paired_def)
qed

lemma finish_paired:
  assumes "used_paired s" "fq_front (s_io_tasks s) = Some (Some t)" "finish_async_task False s = Some s'"
  shows "used_paired s'"
proof -
  from assms(1) have ok: "io_queue_ok s" by (simp add: used_paired_def)
  obtain q' where q': "fq_pop_front (s_io_tasks s) = Some (Some t, q')" "fq_ok at_src_vmid q'"
    "io_tasks_of s (at_src_vmid t) = t # fq_tasks q' (at_src_vmid t)" "\<And>own. own \<noteq> at_src_vmid t \<Longrightarrow> fq_tasks q' own = io_tasks_of s own"
    using fq_front_pop[OF ok assms(2)] by blast
  have "\<not> from_ipi t" using assms(1) q'(3) by (metis list.set_intros(1) used_paired_def)
  with assms(3) q'(1) obtain r idx s1 s2 where s1: "update_used_info r idx (at_src_vmid t) s1 = Some s2" "s_io_tasks s1 = q'" "s_used_info s1 = s_used_info s"
    "s_io_tasks s' = s_io_tasks s2" "s_used_info s' = s_used_info s2"
    by (auto simp: finish_async_task_def panic_simps from_ipi_def split: AsyncTaskData.splits dest!: mmio_notify_frame)
  from s1(1) have "s_io_tasks s2 = q'" using s1(2) update_used_info_frame by blast
  moreover have "map_of (s_used_info s2) own = (if own = at_src_vmid t then map_option tl (map_of (s_used_info s) own) else map_of (s_used_info s) own)" for own
    using s1(1,3) by (auto simp: update_used_info_def Let_def panic_simps update_conv' split: option.splits)
  moreover have "length infos = length (fq_tasks q' own)" if "map_of (s_used_info s) own = Some infos" "own \<noteq> at_src_vmid t" for own infos
    using that assms(1) q'(4) by (simp add: used_paired_def)
  moreover have "length infos - 1 = length (fq_tasks q' (at_src_vmid t))" if "map_of (s_used_info s) (at_src_vmid t) = Some infos" for infos
    using that assms(1) q'(3) by (simp add: used_paired_def)
  moreover have "\<forall>x \<in> set (fq_tasks q' own). \<not> from_ipi x" for own
    using assms(1) q'(3,4) unfolding used_paired_def by (cases "own = at_src_vmid t") (metis list.set_intros(2), metis)
  ultimately show ?thesis using assms(1) q'(2) s1(4,5) by (auto simp: used_paired_def)
qed

lemma update_used_info_front:
  assumes "used_paired s" "fq_front (s_io_tasks s) = Some (Some t)" "map_of (s_used_info s) (at_src_vmid t) = Some infos"
  shows "list_front infos \<noteq> None"
proof -
  from assms(1) have ok: "io_queue_ok s" by (simp add: used_paired_def)
  have "io_tasks_of s (at_src_vmid t) \<noteq> []" by (rule fq_front_pop[OF ok assms(2)]) simp
  moreover have "length infos = length (io_tasks_of s (at_src_vmid t))" using assms(1,3) by (simp add: used_paired_def)
  ultimately have "infos \<noteq> []" by auto
  then show ?thesis by (auto simp: list_front_def split: list.splits)
qed

text \<open>
  C29. Completions match tasks.  The lists of used chains and the queue of I/O tasks hold the same
  number of entries for every guest; requests and completions keep that, so the \<open>unwrap\<close> in
  \<open>update_used_info\<close>, when the task at the front is finished, never fails.
\<close>

theorem used_info_paired:
  assumes "used_paired s"
  shows "(generate_blk_req r idx cache vmr s = Some s' \<longrightarrow> used_paired s') \<and>
    (fq_front (s_io_tasks s) = Some (Some t) \<longrightarrow>
       (finish_async_task False s = Some s' \<longrightarrow> used_paired s') \<and>
       (\<forall>infos. map_of (s_used_info s) (at_src_vmid t) = Some infos \<longrightarrow> list_front infos \<noteq> None))"
  using assms generate_blk_req_paired finish_paired update_used_info_front by blast

section \<open>Examples\<close>

text \<open>
  A guest with a mediated block device whose region are the sectors 100 to 149: its virtual CPU runs
  on core 1, the requests are handled on core 0.  The queue holds a read of sector 5 (descriptors 0,
  1, 2) and a descriptor that leads to itself (3).
\<close>

definition blk_machine :: Machine where
  "blk_machine = net_machine\<lparr>m_vm_list := [0], m_vcpus := (\<lambda>_. VcpuInner_default\<lparr>vc_vm := Some 0, vc_phys_id := 1\<rparr>),
     m_config := cfg_empty\<lparr>cfg_bodies := (\<lambda>_. VmConfigBody_new (VmImageConfig_default\<lparr>im_mediated_block_index := Some 0\<rparr>))\<rparr>\<rparr>"

definition blk_queue :: Virtq where
  "blk_queue = Virtq_default\<lparr>vq_ready := 1, vq_num := 8, vq_desc_table := Some 0x50000000, vq_used := Some 0x50002000\<rparr>"

definition read_node :: "usize \<Rightarrow> VirtioBlkReqNode" where
  "read_node sector = VirtioBlkReqNode_default\<lparr>rn_sector := sector, rn_iov := [\<lparr>bi_data_bg = 0x50020000, bi_len = 512\<rparr>], rn_iov_sum_up := 512, rn_iov_total := 512\<rparr>"

definition blk_req_example :: VirtioBlkReq where
  "blk_req_example = \<lparr>br_start = 100, br_size = 50, br_mediated = True, br_process_list = [], br_req_list = [read_node 5]\<rparr>"

definition blk_sys :: Sys where
  "blk_sys = (sys_reset blk_machine)\<lparr>
     s_vring := \<lparr>mem_desc = (\<lambda>_. [\<lparr>vd_addr = 0x40010000, vd_len = 16, vd_flags = 1, vd_next = 1\<rparr>,
         \<lparr>vd_addr = 0x40020000, vd_len = 512, vd_flags = 3, vd_next = 2\<rparr>, \<lparr>vd_addr = 0x40030000, vd_len = 1, vd_flags = 2, vd_next = 0\<rparr>,
         \<lparr>vd_addr = 0x40020000, vd_len = 512, vd_flags = 3, vd_next = 3\<rparr>]),
       mem_avail = (\<lambda>_. \<lparr>va_flags = 0, va_idx = 1, va_ring = replicate 512 0\<rparr>),
       mem_used = (\<lambda>_. \<lparr>vu_flags = 0, vu_idx = 0, vu_ring = replicate 512 \<lparr>ue_id = 0, ue_len = 0\<rparr>\<rparr>)\<rparr>,
     s_mem := (\<lambda>a. if a = 0x50010008 then 5 else 0),
     s_mmio := (\<lambda>_. (VirtioMmioInner_new 0)\<lparr>mi_vq := [blk_queue], mi_dev := VirtDevInner_default\<lparr>dv_req := BlkReq blk_req_example\<rparr>\<rparr>)\<rparr>"

lemma blk_sys_simps:
  "vec_get (mi_vq (s_mmio blk_sys r)) 0 = Some blk_queue" "s_m blk_sys = blk_machine" "blk_req_of blk_sys r = Some blk_req_example"
  "m_trace blk_machine = False" "vm_id (m_vms blk_machine v) = 1" "med_blk_id blk_machine v = Some 0" "active_vm_id blk_machine = Some 1"
  "s_io_tasks blk_sys = FairQueue_new" "s_ipi_tasks blk_sys = []" "s_exe_status blk_sys = ExePending" "s_used_info blk_sys = []"
  "vm_lookup blk_machine 1 = Some 0"
  by (simp_all add: blk_sys_def sys_reset_def blk_req_of_def blk_machine_def net_machine_def machine_reset_def VmInner_new_def med_blk_id_def
    mediated_block_index_def active_vm_id_def active_vm_def VmConfigBody_new_def vm_lookup_def)

lemma blk_sys_ipa: "sys_ipa2pa blk_sys 0 0x40010000 = Some 0x50010000" "sys_ipa2pa blk_sys 0 0x40020000 = Some 0x50020000"
  "sys_ipa2pa blk_sys 0 0x40030000 = Some 0x50030000"
  by (simp_all add: sys_ipa2pa_def blk_sys_def sys_reset_def blk_machine_def net_machine_simps net_machine_def VmInner_new_def vm_ipa2pa_def guest_regions_def upt_rec isub_def
    as_isize_def as_usize_def in_range_def range_in_range_def)

lemmas desc_defs = desc_buf_def desc_addr_def desc_len_def desc_flags_def desc_next_def desc_has_next_def desc_is_writable_def desc_at_def dir_ok_def
  chain_links_def VIRTQ_DESC_F_NEXT_def VIRTQ_DESC_F_WRITE_def

lemma blk_sys_descs:
  "chain_links (s_vring blk_sys) blk_queue 0 1" "chain_links (s_vring blk_sys) blk_queue 1 2" "chain_links (s_vring blk_sys) blk_queue 3 3"
  "desc_has_next (s_vring blk_sys) blk_queue 2 = Some False"
  "desc_is_writable (s_vring blk_sys) blk_queue 0 = Some False" "desc_is_writable (s_vring blk_sys) blk_queue 2 = Some True"
  "dir_ok (s_vring blk_sys) blk_queue 0 1" "dir_ok (s_vring blk_sys) blk_queue 0 3"
  by (simp_all add: desc_defs blk_sys_def blk_queue_def)

lemma blk_sys_bufs:
  "desc_buf blk_sys 0 blk_queue 0 \<lparr>bi_data_bg = 0x50010000, bi_len = 16\<rparr>"
  "desc_buf blk_sys 0 blk_queue 1 \<lparr>bi_data_bg = 0x50020000, bi_len = 512\<rparr>"
  "desc_buf blk_sys 0 blk_queue 2 \<lparr>bi_data_bg = 0x50030000, bi_len = 1\<rparr>"
  "desc_buf blk_sys 0 blk_queue 3 \<lparr>bi_data_bg = 0x50020000, bi_len = 512\<rparr>"
  using blk_sys_ipa by (auto simp: desc_defs blk_sys_def blk_queue_def)

lemma blk_sys_header: "read_u32 (s_mem blk_sys) 0x50010000 = 0" "read_usize (s_mem blk_sys) 0x50010008 = 5"
  by (simp_all add: read_u32_def read_usize_def blk_sys_def upt_rec)

theorem blk_chain_parses_witness:
  "\<exists>node s'. blk_chain 0 0 0 0 True VirtioBlkReqNode_default blk_sys = Some (Some node, s') \<and> rn_sector node = 5 \<and>
     rn_iov node = [\<lparr>bi_data_bg = 0x50020000, bi_len = 512\<rparr>] \<and> rn_iov_sum_up node = 512"
proof -
  have "chain_path (s_vring blk_sys) blk_queue 1 [1] 2" using blk_sys_descs by auto
  from blk_chain_parses[OF blk_sys_simps(1) blk_sys_descs(1,5) blk_sys_bufs(1) this _ blk_sys_descs(4,6) blk_sys_bufs(3),
    of "[\<lparr>bi_data_bg = 0x50020000, bi_len = 512\<rparr>]" VirtioBlkReqNode_default] blk_sys_descs(7) blk_sys_bufs(2) blk_sys_header
  show ?thesis by (simp add: VirtioBlkReqNode_default_def)
qed

theorem blk_chain_cycle_hangs_witness:
  "blk_chain 0 0 0 3 False VirtioBlkReqNode_default blk_sys = None"
  by (rule blk_chain_cycle_hangs[OF blk_sys_simps(1), of 3 "{3}"])
    (use blk_sys_descs blk_sys_bufs in \<open>auto simp: VirtioBlkReqNode_default_def\<close>)

lemmas blk_run = blk_req_node_def Let_def io_task_def AsyncTask_new_def add_async_task_def fq_push_back_def fq_is_empty_def skip_iovs_def
  SECTOR_BSIZE_def VIRTIO_BLK_T_IN_def read_node_def VirtioBlkReqNode_default_def blk_req_example_def FairQueue_new_def push_used_info_def

theorem blk_tasks_bounded_witness:
  "\<exists>s' t. generate_blk_req 0 0 0x60000000 0 blk_sys = Some s' \<and> io_tasks_of s' 1 = [t] \<and> io_range 100 250 t"
proof -
  have run: "\<exists>s' t. generate_blk_req 0 0 0x60000000 0 blk_sys = Some s' \<and> io_tasks_of s' 1 = [t]"
    by (simp add: generate_blk_req_def blk_run blk_sys_simps fq_tasks_def upd_req_def upd_dev_def upd_mmio_def)
  then obtain s' t where s': "generate_blk_req 0 0 0x60000000 0 blk_sys = Some s'" "io_tasks_of s' 1 = [t]" by blast
  have "io_queue_ok blk_sys" by (simp add: blk_sys_simps)
  moreover have "t \<in> set (io_tasks_of s' 1)" unfolding s'(2) by simp
  moreover have "t \<notin> set (io_tasks_of blk_sys 1)" by (simp add: blk_sys_simps fq_tasks_def FairQueue_new_def)
  ultimately have "io_range (br_start blk_req_example) (br_start blk_req_example + (br_start blk_req_example + br_size blk_req_example)) t"
    by (intro blk_tasks_bounded[OF _ blk_sys_simps(3) s'(1)])
  with s' show ?thesis by (simp add: blk_req_example_def)
qed

theorem blk_request_beyond_region_witness:
  "\<exists>c' s' t a. blk_req_node blk_req_example 0 0 0x60000000 0 (read_node 50) (0x60000000, blk_sys) = Some (c', s') \<and>
     io_tasks_of s' 1 = [t] \<and> at_task_data t = AsyncIoTask a \<and> io_sector a = 150 \<and> io_count a = 1"
proof -
  have "\<exists>c' s'. blk_req_node blk_req_example 0 0 0x60000000 0 (read_node 50) (0x60000000, blk_sys) = Some (c', s')"
    by (simp add: blk_run blk_sys_simps)
  then obtain c' s' where s': "blk_req_node blk_req_example 0 0 0x60000000 0 (read_node 50) (0x60000000, blk_sys) = Some (c', s')" by blast
  have "io_queue_ok blk_sys" by (simp add: blk_sys_simps)
  from blk_request_beyond_region[OF this s'] s' show ?thesis
    by (auto simp: blk_sys_simps fq_tasks_def FairQueue_new_def blk_req_example_def read_node_def VirtioBlkReqNode_default_def VIRTIO_BLK_T_IN_def SECTOR_BSIZE_def)
qed

text \<open>The same guest with its read at the front of the queue, and the sector in the cache.\<close>

definition read_task :: AsyncTask where
  "read_task = \<lparr>at_task_data = AsyncIoTask \<lparr>io_src_vmid = 1, io_vq = 0, io_dev = 0, io_type = VIRTIO_BLK_T_IN, io_blk_id = 0, io_sector = 105,
     io_count = 1, io_cache = 0x60000000, io_iov_list = [\<lparr>bi_data_bg = 0x50020000, bi_len = 512\<rparr>]\<rparr>, at_src_vmid = 1, at_priority = 0,
     at_state = 0, at_task = async_blk_io_req_fut\<rparr>"

definition read_sys :: Sys where
  "read_sys = blk_sys\<lparr>s_io_tasks := \<lparr>fq_len = 1, fq_map = [(1, [read_task])], fq_queue = [1]\<rparr>,
     s_mem := (\<lambda>a. if a = 0x60000003 then 77 else 0), s_used_info := [(1, [\<lparr>ui_desc_chain_head_idx = 0, ui_used_len = 512\<rparr>])]\<rparr>"

lemma read_sys_facts:
  "used_paired read_sys" "io_queue_ok read_sys" "fq_front (s_io_tasks read_sys) = Some (Some read_task)"
  by (simp_all add: used_paired_def read_sys_def fq_ok_def fq_front_def list_front_def fq_tasks_def from_ipi_def read_task_def)

lemma blk_notify_ok: "s_m s = blk_machine \<Longrightarrow> \<exists>s'. mmio_notify 0 0 s = Some s'"
  by (simp add: mmio_notify_def notify_int_def upd_regs_def upd_mmio_def on_m_ret_def vm_vcpu_def ipi_send_msg_def ipi_send_def Let_def
    blk_machine_def net_machine_def machine_reset_def VmInner_new_def VcpuInner_default_def interrupt_cpu_ipi_send_def interrupt_arch_ipi_send_def
    on_gicd_def PLATFORM_CPU_NUM_MAX_def send_sgi_def cpuid_to_cpuif_def plat_cpu_num_def GIC_SGIS_NUM_def INTERRUPT_IRQ_IPI_def)

lemma read_sys_finish: "\<exists>s'. finish_async_task False read_sys = Some s'"
proof -
  have "\<exists>s'. update_used_info 0 0 1 (read_sys\<lparr>s_io_tasks := FairQueue_new, s_mem := m\<rparr>) = Some s' \<and> s_m s' = blk_machine" for m
    by (simp add: update_used_info_def read_sys_def list_front_def Let_def blk_sys_simps update_used_ring_def blk_queue_def)
      (simp add: blk_sys_def sys_reset_def)
  then obtain f where "\<And>m. update_used_info 0 0 1 (read_sys\<lparr>s_io_tasks := FairQueue_new, s_mem := m\<rparr>) = Some (f m) \<and> s_m (f m) = blk_machine"
    by metis
  with blk_notify_ok show ?thesis
    by (simp add: finish_async_task_def fq_pop_front_def list_front_def read_task_def blk_sys_simps blk_sys_simps(12)[simplified] memcpy_safe_def
      read_sys_def FairQueue_new_def)
qed

theorem blk_read_delivers_witness:
  "\<exists>s'. finish_async_task False read_sys = Some s' \<and> s_mem s' 0x50020003 = 77"
proof -
  obtain s' where s': "finish_async_task False read_sys = Some s'" using read_sys_finish by blast
  have "gather (s_mem s') (iov_of [\<lparr>bi_data_bg = 0x50020000, bi_len = 512\<rparr>]) = seg_bytes (s_mem read_sys) (cache_seg 0x60000000 [\<lparr>bi_data_bg = 0x50020000, bi_len = 512\<rparr>])"
    using blk_read_delivers[OF read_sys_facts(2,3) _ _ _ _ _ _ _ s'] by (simp add: read_task_def seg_def del: not_less)
  then have "gather (s_mem s') (iov_of [\<lparr>bi_data_bg = 0x50020000, bi_len = 512\<rparr>]) ! 3 = seg_bytes (s_mem read_sys) (cache_seg 0x60000000 [\<lparr>bi_data_bg = 0x50020000, bi_len = 512\<rparr>]) ! 3"
    by (rule arg_cong)
  then have "s_mem s' 0x50020003 = 77" by (simp add: seg_bytes_def read_sys_def del: upt_rec_numeral)
  with s' show ?thesis by blast
qed

lemma read_sys_req: "blk_req_of read_sys r = Some blk_req_example"
  using blk_sys_simps(3)[of r] by (simp add: blk_req_of_def read_sys_def)

theorem used_info_paired_witness:
  "\<exists>s' s''. finish_async_task False read_sys = Some s' \<and> used_paired s' \<and>
     generate_blk_req 0 0 0x60000000 0 read_sys = Some s'' \<and> used_paired s''"
proof -
  obtain s' where s': "finish_async_task False read_sys = Some s'" using read_sys_finish by blast
  have "\<exists>s''. generate_blk_req 0 0 0x60000000 0 read_sys = Some s''"
    by (simp add: generate_blk_req_def read_sys_req blk_run) (simp add: read_sys_def blk_sys_simps)
  with s' read_sys_facts used_info_paired[OF read_sys_facts(1)] show ?thesis by blast
qed

end
