(* ===== verification/NetProps.thy ===== *)
theory NetProps
  imports NetDev BlkProps
begin

text \<open>
  What the network device guarantees: a frame that is reported as sent lies in the buffers of the
  receiver.  The lengths of those buffers are not compared with the receiver's memory, and a frame
  shorter than its header stops the hypervisor.
\<close>

section \<open>Marking pages\<close>

text \<open>Recording written pages changes nothing but the page maps.\<close>

definition but_maps :: "Sys \<Rightarrow> Sys \<Rightarrow> bool" where
  "but_maps s s' \<longleftrightarrow> (\<exists>l. s' = s\<lparr>s_m := (s_m s)\<lparr>m_vm_if_list := l\<rparr>\<rparr>)"

lemma but_maps_refl: "but_maps s s"
  unfolding but_maps_def by (rule exI[of _ "m_vm_if_list (s_m s)"]) simp

lemma but_maps_trans: "but_maps s s' \<Longrightarrow> but_maps s' s'' \<Longrightarrow> but_maps s s''"
  unfolding but_maps_def by force

lemma but_maps_simps:
  assumes "but_maps s s'"
  shows "s_mem s' = s_mem s" "s_mmio s' = s_mmio s" "s_vring s' = s_vring s" "sys_ipa2pa s' = sys_ipa2pa s" "m_trace (s_m s') = m_trace (s_m s)"
  using assms by (auto simp: but_maps_def sys_ipa2pa_def fun_eq_iff)

lemma mark_bit_maps: "on_m (vm_if_set_mem_map_bit vmr a) s = Some s' \<Longrightarrow> but_maps s s'"
  by (auto simp: on_m_def vm_if_set_mem_map_bit_def panic_simps on_mem_map_def upd_vm_if_def but_maps_def split: option.splits)

lemma mark_pages_maps: "mark_pages vmr dst len s = Some s' \<Longrightarrow> but_maps s s'"
  unfolding mark_pages_def
  by (clarsimp simp: panic_simps simp del: upt_Suc, erule fold_opt_invariant[where I = "but_maps s"])
    (auto intro: but_maps_refl mark_bit_maps but_maps_trans)

lemma mark_used_maps: "mark_used vmr q s = Some s' \<Longrightarrow> but_maps s s'"
  by (auto simp: mark_used_def panic_simps intro: mark_bit_maps but_maps_trans)

lemma desc_buf_maps: "but_maps s s' \<Longrightarrow> desc_buf s' vmr q d v \<longleftrightarrow> desc_buf s vmr q d v"
  by (simp add: desc_buf_def but_maps_simps)

section \<open>The buffers of the receiver\<close>

definition mark_all :: "VmRef \<Rightarrow> bool \<Rightarrow> BlkIov list \<Rightarrow> Sys \<Rightarrow> Sys option" where
  "mark_all vmr mark = fold_opt (\<lambda>v s. if mark then mark_pages vmr (bi_data_bg v) (unat (bi_len v)) s else Some s)"

lemma mark_all_maps: "mark_all vmr mark vs s = Some s' \<Longrightarrow> but_maps s s'"
  unfolding mark_all_def by (erule fold_opt_invariant[where I = "but_maps s"])
    (auto intro: but_maps_refl mark_pages_maps but_maps_trans split: if_splits)

text \<open>A chain of descriptors, given by its indices.\<close>

fun linked :: "VringMem \<Rightarrow> Virtq \<Rightarrow> usize list \<Rightarrow> bool" where
  "linked g q (x # y # xs) \<longleftrightarrow> chain_links g q x y \<and> linked g q (y # xs)"
| "linked g q xs \<longleftrightarrow> True"

lemma rx_chain_buffers:
  assumes "vec_get (mi_vq (s_mmio s r)) 0 = Some q" "linked (s_vring s) q (d # ds)" "list_all2 (desc_buf s vmr q) (d # ds) vs"
    "n + iov_total (iov_of (butlast vs)) < len" "len \<le> n + iov_total (iov_of vs)" "n + iov_total (iov_of vs) < usize_bound"
  shows "rx_chain r len vmr mark d iov n s = do { s \<leftarrow> mark_all vmr mark vs s; Some (Some (iov @ iov_of vs, n + iov_total (iov_of vs)), s) }"
  using assms
proof (induction ds arbitrary: d vs iov n s)
  case Nil
  then obtain v where v: "vs = [v]" "desc_buf s vmr q d v" by (auto simp: list_all2_Cons1)
  with Nil.prems show ?case
    by (subst rx_chain.simps) (auto simp: desc_buf_def mark_all_def iov_push_data_def Let_def split: Option.bind_split)
next
  case (Cons e ds)
  then obtain v vs' where v: "vs = v # vs'" "desc_buf s vmr q d v" "list_all2 (desc_buf s vmr q) (e # ds) vs'" by (auto simp: list_all2_Cons1)
  then have ne: "vs' \<noteq> []" by auto
  let ?n = "n + unat (bi_len v)"
  have link: "desc_has_next (s_vring s) q d = Some True" "map_option unat (desc_next (s_vring s) q d) = Some e"
    using Cons.prems(2) by (auto simp: chain_links_def)
  then obtain f nx where f: "desc_flags (s_vring s) q d = Some f" "f AND 1 \<noteq> 0" "desc_next (s_vring s) q d = Some nx" "unat nx = e"
    by (auto simp: desc_has_next_def desc_flags_def VIRTQ_DESC_F_NEXT_def panic_simps)
  have short: "\<not> len \<le> ?n" "?n < usize_bound" using Cons.prems(4,6) v(1) ne by auto
  have IH: "rx_chain r len vmr mark e iov' ?n s' = do { s \<leftarrow> mark_all vmr mark vs' s'; Some (Some (iov' @ iov_of vs', ?n + iov_total (iov_of vs')), s) }"
    if "but_maps s s'" for iov' s'
  proof (rule Cons.IH)
    have "desc_buf s' vmr q = desc_buf s vmr q" using that by (simp add: fun_eq_iff desc_buf_maps)
    then show "list_all2 (desc_buf s' vmr q) (e # ds) vs'" using v(3) by simp
  qed (use Cons.prems v(1) ne that in \<open>auto simp: but_maps_simps\<close>)
  obtain ipa where ipa: "desc_addr (s_vring s) q d = Some ipa" "sys_ipa2pa s vmr ipa = Some (bi_data_bg v)" "bi_data_bg v \<noteq> 0"
    "desc_len (s_vring s) q d = Some (bi_len v)" using v(2) by (auto simp: desc_buf_def)
  let ?mark = "if mark then mark_pages vmr (bi_data_bg v) (unat (bi_len v)) s else Some s"
  show ?case
  proof (cases ?mark)
    case None
    then show ?thesis using Cons.prems(1) ipa v(1) by (subst rx_chain.simps) (simp add: mark_all_def)
  next
    case (Some s')
    then have all: "mark_all vmr mark [v] s = Some s'" by (simp add: mark_all_def)
    note maps = mark_all_maps[OF all]
    have "rx_chain r len vmr mark d iov n s = rx_chain r len vmr mark e (iov_push_data (bi_data_bg v) (unat (bi_len v)) iov) ?n s'"
      using short by (subst rx_chain.simps) (simp add: Cons.prems(1) ipa Some f Let_def but_maps_simps[OF maps])
    also have "\<dots> = do { s \<leftarrow> mark_all vmr mark vs' s'; Some (Some (iov @ iov_of vs, n + iov_total (iov_of vs)), s) }"
      unfolding IH[OF maps] v(1) by (simp add: iov_push_data_def add.assoc)
    finally show ?thesis using Some by (simp add: v(1) mark_all_def)
  qed
qed

section \<open>Delivery\<close>

lemma update_used_ring_ok:
  assumes "update_used_ring g q len head = Some (ok, g')" "vq_used q = Some a"
  shows "ok \<and> vu_idx (mem_used g' a) = vu_idx (mem_used g a) + 1"
  using assms by (auto simp: update_used_ring_def panic_simps Let_def)

abbreviation header_set :: "usize \<Rightarrow> Bytes \<Rightarrow> Bytes" where
  "header_set hdr mem \<equiv> mem(hdr + NUM_BUFFERS_OFFSET := 1, hdr + NUM_BUFFERS_OFFSET + 1 := 0)"

lemma deliver_frame_copies:
  assumes "deliver_frame r vmr vmid tx rx (iov_total tx) head s = Some (b, s')"
    "tx \<noteq> []" "rx \<noteq> []" "iov_safe tx" "iov_safe rx" "iov_apart rx" "iov_area rx \<inter> iov_area tx = {}" "iov_total tx \<le> iov_total rx"
    "vec_get (mi_vq (s_mmio s r)) 0 = Some q" "vq_used q = Some a"
  shows "b \<and> take (iov_total tx) (gather (s_mem s') rx) = gather (header_set (iov_buf (hd tx)) (s_mem s)) tx \<and>
    (\<forall>x. x \<notin> iov_area rx \<longrightarrow> s_mem s' x = header_set (iov_buf (hd tx)) (s_mem s) x) \<and>
    vu_idx (mem_used (s_vring s') a) = vu_idx (mem_used (s_vring s) a) + 1"
proof -
  let ?m = "header_set (iov_buf (hd tx)) (s_mem s)"
  have hdr: "iov_get_buf tx 0 = Some (iov_buf (hd tx))" using assms(2) by (simp add: iov_get_buf_def hd_conv_nth)
  obtain m' where m': "write_through_iov (m_trace (s_m s)) tx rx (iov_total tx) ?m = Some (0, m')"
    "take (iov_total tx) (gather m' rx) = gather ?m tx" "\<forall>x. x \<notin> iov_area rx \<longrightarrow> m' x = ?m x"
    using write_through_iov_total[OF assms(2-8)] by blast
  with assms(1,9) hdr obtain s1 where s1: "(if vmid \<noteq> 0 then mark_used vmr q (s\<lparr>s_mem := m'\<rparr>) else Some (s\<lparr>s_mem := m'\<rparr>)) = Some s1"
    "use_ring r 0 (of_nat (iov_total tx)) (ucast head) s1 = Some (b, s')" by (auto simp: deliver_frame_def Let_def panic_simps)
  have "but_maps (s\<lparr>s_mem := m'\<rparr>) s1" using s1(1) by (auto intro: but_maps_refl mark_used_maps split: if_splits)
  note maps = but_maps_simps[OF this]
  from s1(2) obtain g where "update_used_ring (s_vring s1) q (of_nat (iov_total tx)) (ucast head) = Some (b, g)" "s' = s1\<lparr>s_vring := g\<rparr>"
    using assms(9) by (auto simp: use_ring_def maps panic_simps)
  with update_used_ring_ok[OF this(1) assms(10)] m' maps show ?thesis by simp
qed

lemma pop_desc_at:
  assumes "pop_avail_desc_idx g q av = Some (h, q')"
  shows "desc_at g' q' = desc_at g' q" "vq_used q' = vq_used q" "vq_avail q' = vq_avail q"
  using assms by (auto simp: pop_avail_desc_idx_def panic_simps desc_at_def fun_eq_iff split: option.splits if_splits)

lemmas desc_reads = desc_buf_def desc_addr_def desc_len_def chain_links_def desc_has_next_def desc_next_def

lemma linked_desc_at: "desc_at g q' = desc_at g q \<Longrightarrow> linked g q' xs = linked g q xs"
  by (induction g q' xs rule: linked.induct) (simp_all add: desc_reads)

text \<open>The step from the receiver's queue to its buffers, which \<open>ethernet_send_to\<close> takes first.\<close>

lemma send_to_unfold:
  assumes "vm_lookup (s_m s) vmid = Some vmr" "net_dev_of (s_m s) vmr = Some r" "dv_activated (mi_dev (s_mmio s r))"
    "vec_get (mi_vq (s_mmio s r)) 0 = Some q" "avail_idx (s_vring s) q = Some av" "pop_avail_desc_idx (s_vring s) q av = Some (Some head, q')"
  shows "ethernet_send_to vmid tx len s = do {
     (rx, s) \<leftarrow> rx_chain r len vmr (vmid \<noteq> 0) (unat head) [] 0 (put_vq r 0 q' s);
     case rx of
       None \<Rightarrow> Some (False, s)
     | Some (rx, rx_len) \<Rightarrow>
         if rx_len < len then do { s \<leftarrow> on_vq r 0 put_back_avail_desc_idx s; Some (False, s) }
         else deliver_frame r vmr vmid tx rx len head s }"
proof -
  have "vq_avail q \<noteq> None" using assms(5) by (auto simp: avail_idx_def)
  with assms show ?thesis
    by (simp add: ethernet_send_to_def mmio_vq_def pop_next_def pop_avail_def avail_is_avail_def panic_simps)
qed

lemma send_to_delivers:
  assumes "vm_lookup (s_m s) vmid = Some vmr" "net_dev_of (s_m s) vmr = Some r" "dv_activated (mi_dev (s_mmio s r))"
    "vec_get (mi_vq (s_mmio s r)) 0 = Some q" "avail_idx (s_vring s) q = Some av" "pop_avail_desc_idx (s_vring s) q av = Some (Some head, q')"
    and chain: "linked (s_vring s) q (unat head # ds)" "list_all2 (desc_buf s vmr q) (unat head # ds) vs"
    and room: "iov_total (iov_of (butlast vs)) < iov_total tx" "iov_total tx \<le> iov_total (iov_of vs)" "iov_total (iov_of vs) < usize_bound"
    and areas: "tx \<noteq> []" "iov_safe tx" "iov_safe (iov_of vs)" "iov_apart (iov_of vs)" "iov_area (iov_of vs) \<inter> iov_area tx = {}"
    and used: "vq_used q = Some a" and run: "ethernet_send_to vmid tx (iov_total tx) s = Some (b, s')"
  shows "b \<and> take (iov_total tx) (gather (s_mem s') (iov_of vs)) = gather (header_set (iov_buf (hd tx)) (s_mem s)) tx \<and>
    (\<forall>x. x \<notin> iov_area (iov_of vs) \<longrightarrow> s_mem s' x = header_set (iov_buf (hd tx)) (s_mem s) x) \<and>
    vu_idx (mem_used (s_vring s') a) = vu_idx (mem_used (s_vring s) a) + 1"
proof -
  let ?s = "put_vq r 0 q' s" and ?rx = "iov_of vs"
  have eq: "desc_at g q' = desc_at g q" for g using pop_desc_at(1)[OF assms(6)] .
  have q': "vec_get (mi_vq (s_mmio ?s r)) 0 = Some q'" using assms(4) by (simp add: panic_simps put_vq_simps)
  have fr: "s_vring ?s = s_vring s" "s_mem ?s = s_mem s" "sys_ipa2pa ?s = sys_ipa2pa s" by (simp_all add: put_vq_simps) (simp_all add: put_vq_def)
  have "linked (s_vring ?s) q' (unat head # ds)" using chain(1) by (simp add: fr linked_desc_at[OF eq])
  moreover have "desc_buf ?s vmr q' = desc_buf s vmr q" by (simp add: fun_eq_iff desc_reads fr eq)
  ultimately have rx: "rx_chain r (iov_total tx) vmr (vmid \<noteq> 0) (unat head) [] 0 ?s =
      do { s \<leftarrow> mark_all vmr (vmid \<noteq> 0) vs ?s; Some (Some (?rx, iov_total ?rx), s) }"
    using rx_chain_buffers[OF q', of "unat head" ds vmr vs 0 "iov_total tx"] chain(2) room by simp
  with run room(2) obtain s1 where s1: "mark_all vmr (vmid \<noteq> 0) vs ?s = Some s1"
    "deliver_frame r vmr vmid tx ?rx (iov_total tx) head s1 = Some (b, s')"
    unfolding send_to_unfold[OF assms(1-6)] by (auto simp: panic_simps)
  note maps = but_maps_simps[OF mark_all_maps[OF s1(1)]]
  have "?rx \<noteq> []" using chain(2) by (auto simp: iov_of_def list_all2_Cons1)
  from deliver_frame_copies[OF s1(2) areas(1) this areas(2-5) room(2)] q' pop_desc_at(2)[OF assms(6)] used
  show ?thesis by (simp add: maps fr)
qed

text \<open>
  C30. A frame that is sent arrives.  When the receiver's network device is active and the chain it
  offers has room for the frame, \<open>ethernet_send_to\<close> reports success, the receiver's buffers hold the
  frame byte by byte (with \<open>num_buffers\<close> of its header set to 1), one entry is added to the used
  ring, and nothing outside the buffers changes but that header field in the sender's memory.
\<close>

theorem net_frame_delivered:
  assumes "vm_lookup (s_m s) vmid = Some vmr" "net_dev_of (s_m s) vmr = Some r" "dv_activated (mi_dev (s_mmio s r))"
    "vec_get (mi_vq (s_mmio s r)) 0 = Some q" "avail_idx (s_vring s) q = Some av" "pop_avail_desc_idx (s_vring s) q av = Some (Some head, q')"
    "linked (s_vring s) q (unat head # ds)" "list_all2 (desc_buf s vmr q) (unat head # ds) vs"
    "iov_total (iov_of (butlast vs)) < iov_total tx" "iov_total tx \<le> iov_total (iov_of vs)" "iov_total (iov_of vs) < usize_bound"
    "tx \<noteq> []" "iov_safe tx" "iov_safe (iov_of vs)" "iov_apart (iov_of vs)" "iov_area (iov_of vs) \<inter> iov_area tx = {}"
    "vq_used q = Some a" "ethernet_send_to vmid tx (iov_total tx) s = Some (b, s')"
  shows "b \<and> take (iov_total tx) (gather (s_mem s') (iov_of vs)) = gather (header_set (iov_buf (hd tx)) (s_mem s)) tx \<and>
    (\<forall>x. x \<notin> iov_area (iov_of vs) \<longrightarrow> s_mem s' x = header_set (iov_buf (hd tx)) (s_mem s) x) \<and>
    vu_idx (mem_used (s_vring s') a) = vu_idx (mem_used (s_vring s) a) + 1"
  using send_to_delivers[OF assms] .

section \<open>Buffers at the end of memory\<close>

lemma page_addr_eq: "a < usize_bound \<Longrightarrow> page_addr a = a div PAGE_SIZE * PAGE_SIZE"
proof -
  assume a: "a < usize_bound"
  have "round_down (of_nat a :: u64) (of_nat PAGE_SIZE) = of_nat a AND NOT (mask 12)"
    by (simp add: round_down_def PAGE_SIZE_def mask_eq_exp_minus_1)
  also have "\<dots> = push_bit 12 (drop_bit 12 (of_nat a))" by (rule bit_word_eqI) (auto simp: bit_simps)
  finally have "page_addr a = unat (push_bit 12 (drop_bit 12 (of_nat a :: u64)))" by (simp add: page_addr_def)
  also have "\<dots> = a div PAGE_SIZE * PAGE_SIZE"
  proof -
    have "a div 4096 * 4096 < usize_bound" using a div_times_less_eq_dividend[of a 4096] by linarith
    then show ?thesis using a
      by (subst unsigned_push_bit_eq, subst unsigned_drop_bit_eq)
        (simp add: drop_bit_eq_div push_bit_eq_mult take_bit_eq_mod PAGE_SIZE_def unat_of_nat)
  qed
  finally show ?thesis .
qed

lemma mark_pages_past:
  assumes "dst + len < usize_bound" "page_bit (vm_pa_region (m_vms (s_m s) vmr)) (page_addr (dst + len)) 0 = None"
  shows "mark_pages vmr dst len s = None"
proof -
  let ?n = "(page_addr (dst + len) - page_addr dst) div PAGE_SIZE" and ?f = "\<lambda>i. on_m (vm_if_set_mem_map_bit vmr (page_addr dst + i * PAGE_SIZE))"
  have "dst div PAGE_SIZE \<le> (dst + len) div PAGE_SIZE" by (simp add: div_le_mono)
  then have n: "page_addr dst + ?n * PAGE_SIZE = page_addr (dst + len)" using assms(1)
    by (simp add: page_addr_eq flip: diff_mult_distrib add_mult_distrib)
  have "fold_opt ?f ([0..<?n] @ [?n]) s = None"
  proof (cases "fold_opt ?f [0..<?n] s")
    case (Some s1)
    have "but_maps s s1" by (rule fold_opt_invariant[OF Some]) (auto intro: but_maps_refl mark_bit_maps but_maps_trans)
    then have "m_vms (s_m s1) = m_vms (s_m s)" by (auto simp: but_maps_def)
    then show ?thesis using Some assms(2) n by (simp add: fold_opt_append on_m_def vm_if_set_mem_map_bit_def)
  qed (simp add: fold_opt_append)
  then show ?thesis using assms(1) by (simp add: mark_pages_def)
qed

text \<open>
  C31. A buffer at the very end of a guest's memory stops the hypervisor.  When a frame is sent to a
  guest other than the service guest, the pages of its buffer are recorded up to and including the
  page of the address one past the buffer; if that page is not the guest's own, as for a buffer that
  ends where the guest's memory ends, the recording panics.
\<close>

theorem net_rx_last_page_panics:
  assumes "vm_lookup (s_m s) vmid = Some vmr" "net_dev_of (s_m s) vmr = Some r" "dv_activated (mi_dev (s_mmio s r))"
    "vec_get (mi_vq (s_mmio s r)) 0 = Some q" "avail_idx (s_vring s) q = Some av" "pop_avail_desc_idx (s_vring s) q av = Some (Some head, q')"
    "desc_buf s vmr q (unat head) v" "vmid \<noteq> 0" "bi_data_bg v + unat (bi_len v) < usize_bound"
    "page_bit (vm_pa_region (m_vms (s_m s) vmr)) (page_addr (bi_data_bg v + unat (bi_len v))) 0 = None"
  shows "ethernet_send_to vmid tx len s = None"
proof -
  let ?s = "put_vq r 0 q' s"
  have eq: "desc_at g q' = desc_at g q" for g using pop_desc_at(1)[OF assms(6)] .
  have q': "vec_get (mi_vq (s_mmio ?s r)) 0 = Some q'" using assms(4) by (simp add: panic_simps put_vq_simps)
  have fr: "s_vring ?s = s_vring s" "sys_ipa2pa ?s = sys_ipa2pa s" "s_m ?s = s_m s" by (simp_all add: put_vq_simps) (simp_all add: put_vq_def)
  have "mark_pages vmr (bi_data_bg v) (unat (bi_len v)) ?s = None" using assms(9,10) by (intro mark_pages_past) (simp_all add: fr)
  then have "rx_chain r len vmr True (unat head) [] 0 ?s = None"
    using assms(7) q' by (subst rx_chain.simps) (auto simp: desc_reads fr eq)
  then show ?thesis using assms(8) by (simp add: send_to_unfold[OF assms(1-6)])
qed

section \<open>Short frames\<close>

text \<open>
  A frame shorter than the virtio header stops the hypervisor: \<open>ethernet_transmit\<close> refuses it, but
  the length reported in the used ring is the length less the header, and that subtraction overflows.
\<close>

theorem net_short_frame_panics:
  assumes "vec_get (mi_vq (s_mmio s r)) k = Some q" "vq_ready q \<noteq> 0" "vq_index q = 1" "avail_idx (s_vring s) q = Some av"
    "pop_avail_desc_idx (s_vring s) q av = Some (Some head, q')"
    "tx_chain r k (unat head) [] 0 (put_vq r k q' s) = Some (Some (tx, len))" "len < NET_HDR_SIZE"
  shows "virtio_net_notify k r vmr s = None"
proof -
  have "net_tx_loop r k vmr (Some head) 0 (put_vq r k q' s) = None"
    using assms(6,7) by (subst net_tx_loop.simps) (simp add: ethernet_transmit_def usub_def split: Option.bind_split)
  moreover have "pop_next r k s = Some (Some head, put_vq r k q' s)"
    using assms(1,4,5) by (simp add: pop_next_def pop_avail_def)
  ultimately show ?thesis using assms(1-3) by (simp add: virtio_net_notify_def)
qed

section \<open>Examples\<close>

text \<open>A guest \<open>vmid\<close> with a network device whose queues have one descriptor and one available chain.\<close>

definition nic_queue :: "usize \<Rightarrow> Virtq" where
  "nic_queue k = Virtq_default\<lparr>vq_ready := 1, vq_index := k, vq_num := 8, vq_desc_table := Some 0x50000000,
     vq_avail := Some 0x50001000, vq_used := Some 0x50002000\<rparr>"

definition nic_sys :: "usize \<Rightarrow> VringDesc \<Rightarrow> Sys" where
  "nic_sys vmid d = (sys_reset (net_machine\<lparr>m_vm_list := [0],
       m_vms := (\<lambda>_. (VmInner_new Qemu vmid)\<lparr>vm_mem_region_num := 2, vm_pa_region := guest_regions, vm_emu_devs := [EmuVirtioNet 0]\<rparr>)\<rparr>))\<lparr>
     s_vring := \<lparr>mem_desc = (\<lambda>_. replicate 512 d), mem_avail = (\<lambda>_. \<lparr>va_flags = 0, va_idx = 1, va_ring = replicate 512 0\<rparr>),
       mem_used = (\<lambda>_. \<lparr>vu_flags = 0, vu_idx = 0, vu_ring = replicate 512 \<lparr>ue_id = 0, ue_len = 0\<rparr>\<rparr>)\<rparr>,
     s_mem := (\<lambda>a. if a = 0x50010005 then 9 else 0),
     s_mmio := (\<lambda>_. (VirtioMmioInner_new 0)\<lparr>mi_vq := [nic_queue 0, nic_queue 1], mi_dev := VirtDevInner_default\<lparr>dv_activated := True\<rparr>\<rparr>)\<rparr>"

definition rx_buf :: VringDesc where
  "rx_buf = \<lparr>vd_addr = 0x40020000, vd_len = 64, vd_flags = 2, vd_next = 0\<rparr>"

definition last_buf :: VringDesc where
  "last_buf = \<lparr>vd_addr = 0x4ffff000, vd_len = 0x1000, vd_flags = 2, vd_next = 0\<rparr>"

definition short_buf :: VringDesc where
  "short_buf = \<lparr>vd_addr = 0x40020000, vd_len = 8, vd_flags = 0, vd_next = 0\<rparr>"

lemma nic_sys_facts:
  "vm_lookup (s_m (nic_sys vmid d)) vmid = Some 0" "net_dev_of (s_m (nic_sys vmid d)) 0 = Some 0" "dv_activated (mi_dev (s_mmio (nic_sys vmid d) 0))"
  "vec_get (mi_vq (s_mmio (nic_sys vmid d) 0)) 0 = Some (nic_queue 0)" "avail_idx (s_vring (nic_sys vmid d)) (nic_queue k) = Some 1"
  "pop_avail_desc_idx (s_vring (nic_sys vmid d)) (nic_queue k) 1 = Some (Some 0, (nic_queue k)\<lparr>vq_last_avail_idx := 1\<rparr>)"
  "desc_at (s_vring (nic_sys vmid d)) (nic_queue k) 0 = Some d" "vq_used (nic_queue k) = Some 0x50002000"
  "vec_get (mi_vq (s_mmio (nic_sys vmid d) 0)) 1 = Some (nic_queue 1)" "vq_ready (nic_queue k) = 1" "vq_index (nic_queue k) = k"
  "vm_pa_region (m_vms (s_m (nic_sys vmid d)) v) = guest_regions" "active_vm (s_m (nic_sys vmid d)) = Some 0"
  by (simp_all add: nic_sys_def sys_reset_def vm_lookup_def net_dev_of_def emu_net_dev_def nic_queue_def Virtq_default_def avail_idx_def
    pop_avail_desc_idx_def desc_at_def VmInner_new_def net_machine_def active_vm_def)

lemma nic_sys_ipa: "sys_ipa2pa (nic_sys vmid d) 0 0x40020000 = Some 0x50020000" "sys_ipa2pa (nic_sys vmid d) 0 0x4ffff000 = Some 0x5ffff000"
  by (simp_all add: sys_ipa2pa_def nic_sys_def sys_reset_def VmInner_new_def vm_ipa2pa_def guest_regions_def upt_rec isub_def
    as_isize_def as_usize_def in_range_def range_in_range_def)

lemma tx_chain_single:
  assumes "vec_get (mi_vq (s_mmio s r)) k = Some q" "active_vm (s_m s) = Some vmr" "desc_at (s_vring s) q i = Some d"
    "sys_ipa2pa s vmr (vd_addr d) = Some a" "a \<noteq> 0" "vd_flags d = 0"
  shows "tx_chain r k i [] 0 s = Some (Some ([\<lparr>iov_buf = a, iov_len = unat (vd_len d)\<rparr>], unat (vd_len d)))"
proof -
  have "unat (vd_len d) < 2 ^ 32" using unsigned_less[of "vd_len d"] by simp
  then show ?thesis using assms
    by (subst tx_chain.simps) (simp add: desc_addr_def desc_len_def desc_flags_def iov_push_data_def uadd_def)
qed

theorem net_short_frame_panics_witness: "virtio_net_notify 1 0 0 (nic_sys 1 short_buf) = None"
proof -
  let ?q' = "(nic_queue 1)\<lparr>vq_last_avail_idx := 1\<rparr>"
  define p where "p = put_vq 0 1 ?q' (nic_sys 1 short_buf)"
  have "vec_get (mi_vq (s_mmio p 0)) 1 = Some ?q'" using nic_sys_facts(9)[of 1 short_buf] by (simp add: p_def panic_simps put_vq_simps)
  moreover have "desc_at (s_vring p) ?q' (unat (0 :: u16)) = Some short_buf"
    using nic_sys_facts(7)[of 1 short_buf 1] by (simp add: desc_at_def p_def put_vq_def)
  moreover have "active_vm (s_m p) = Some 0" "sys_ipa2pa p 0 (vd_addr short_buf) = Some 0x50020000" "vd_flags short_buf = 0"
    using nic_sys_facts(13)[of 1 short_buf] by (simp_all add: p_def put_vq_simps short_buf_def nic_sys_ipa)
  ultimately have "tx_chain 0 1 (unat (0 :: u16)) [] 0 p = Some (Some ([\<lparr>iov_buf = 0x50020000, iov_len = 8\<rparr>], 8))"
    using tx_chain_single[of p 0 1 ?q' 0 "unat (0 :: u16)" short_buf "0x50020000"] by (simp add: short_buf_def)
  from net_short_frame_panics[OF nic_sys_facts(9) _ _ nic_sys_facts(5,6) this[unfolded p_def]] show ?thesis
    by (simp add: nic_sys_facts NET_HDR_SIZE_def)
qed

theorem net_rx_last_page_panics_witness: "ethernet_send_to 1 [\<lparr>iov_buf = 0x50010000, iov_len = 40\<rparr>] 40 (nic_sys 1 last_buf) = None"
proof -
  have "desc_buf (nic_sys 1 last_buf) 0 (nic_queue 0) (unat (0 :: u16)) \<lparr>bi_data_bg = 0x5ffff000, bi_len = 0x1000\<rparr>"
    by (simp add: desc_buf_def desc_addr_def desc_len_def nic_sys_facts last_buf_def nic_sys_ipa)
  from net_rx_last_page_panics[OF nic_sys_facts(1-6) this] show ?thesis
    by (simp add: nic_sys_facts guest_regions_def page_addr_eq PAGE_SIZE_def)
qed

theorem net_frame_delivered_witness:
  "\<exists>s'. ethernet_send_to 0 [\<lparr>iov_buf = 0x50010000, iov_len = 40\<rparr>] 40 (nic_sys 0 rx_buf) = Some (True, s') \<and> s_mem s' 0x50020005 = 9"
proof -
  let ?s = "nic_sys 0 rx_buf" and ?tx = "[\<lparr>iov_buf = 0x50010000, iov_len = 40\<rparr>]" and ?vs = "[\<lparr>bi_data_bg = 0x50020000, bi_len = 64\<rparr>]"
  let ?q' = "(nic_queue 0)\<lparr>vq_last_avail_idx := 1\<rparr>"
  have buf: "desc_buf ?s 0 (nic_queue 0) (unat (0 :: u16)) \<lparr>bi_data_bg = 0x50020000, bi_len = 64\<rparr>"
    by (simp add: desc_buf_def desc_addr_def desc_len_def nic_sys_facts rx_buf_def nic_sys_ipa)
  have ap: "iov_area (iov_of ?vs) \<inter> iov_area ?tx = {}" by (auto simp: seg_def)
  note d = net_frame_delivered[where s = ?s and vmid = 0 and ds = "[]" and vs = ?vs and tx = ?tx and a = "0x50002000", OF nic_sys_facts(1-6)]
  have run: "\<exists>b s'. ethernet_send_to 0 ?tx 40 ?s = Some (b, s')"
  proof -
    let ?p = "put_vq 0 0 ?q' ?s"
    have q: "vec_get (mi_vq (s_mmio ?p 0)) 0 = Some ?q'" using nic_sys_facts(4)[of 0 rx_buf] by (simp add: panic_simps put_vq_simps)
    have vr: "s_vring ?p = s_vring ?s" by (simp add: put_vq_def)
    have b: "desc_buf ?p 0 ?q' 0 \<lparr>bi_data_bg = 0x50020000, bi_len = 64\<rparr>"
      using buf by (simp add: desc_buf_def desc_addr_def desc_len_def desc_at_def vr put_vq_simps)
    have rx: "rx_chain 0 40 0 False 0 [] 0 ?p = Some (Some (iov_of ?vs, 64), ?p)"
      using rx_chain_buffers[OF q, of 0 "[]" 0 ?vs 0 40 False "[]"] b by (simp add: mark_all_def)
    obtain m' where "write_through_iov (m_trace (s_m ?p)) ?tx (iov_of ?vs) 40 (header_set 0x50010000 (s_mem ?p)) = Some (0, m')"
      using write_through_iov_total[OF _ _ _ _ _ ap, of "m_trace (s_m ?p)" "header_set 0x50010000 (s_mem ?p)"] by auto
    moreover have "\<exists>x. use_ring 0 0 40 0 (?p\<lparr>s_mem := m'\<rparr>) = Some x"
    proof -
      have "vring_ok (s_vring ?s)" "vq_usable ?q'" "vq_used ?q' = Some 0x50002000"
        by (simp_all add: vring_ok_def vq_usable_def nic_sys_def nic_queue_def)
      from update_used_ring_Some[OF this, of 40 0] q show ?thesis by (auto simp: use_ring_def vr)
    qed
    ultimately show ?thesis using q
      by (auto simp: send_to_unfold[OF nic_sys_facts(1-6)] rx deliver_frame_def iov_get_buf_def panic_simps)
  qed
  then obtain b s' where s': "ethernet_send_to 0 ?tx 40 ?s = Some (b, s')" by blast
  with d[where b = b and s' = s'] buf ap have *: "b" "take 40 (gather (s_mem s') (iov_of ?vs)) = gather (header_set 0x50010000 (s_mem ?s)) ?tx"
    by (simp_all add: nic_sys_facts)
  from arg_cong[OF *(2), of "\<lambda>l. l ! 5"] have "s_mem s' 0x50020005 = 9"
    by (simp add: seg_bytes_def nic_sys_def NUM_BUFFERS_OFFSET_def del: upt_rec_numeral)
  with s' *(1) show ?thesis by auto
qed

end
