(* ===== verification/Barrier.thy ===== *)
theory Barrier
  imports Util
begin

text \<open>
  The barriers of \<open>src/src/lib/barrier.rs\<close>, run by several cores at once.  A core that calls
  \<open>barrier\<close> or \<open>func_barrier\<close> takes one atomic step in which it draws its number
  (\<open>fetch_add\<close>), and leaves in a later step, when the counter has reached the value it waits for.
  The spinning in between changes nothing.  The two functions are the same code on two tokens.
\<close>

section \<open>The code\<close>

record CpuSyncToken =
  st_n :: usize
  st_count :: usize
  st_ready :: bool

definition CPU_GLB_SYNC :: "usize \<Rightarrow> CpuSyncToken" where
  "CPU_GLB_SYNC num = \<lparr>st_n = num, st_count = 0, st_ready = True\<rparr>"

definition CPU_FUNC_SYNC :: CpuSyncToken where
  "CPU_FUNC_SYNC = \<lparr>st_n = 0, st_count = 0, st_ready = True\<rparr>"

text \<open>Up to the loop: the value the core waits for, and the token after \<open>fetch_add\<close>, which wraps.\<close>

definition barrier_enter :: "CpuSyncToken \<Rightarrow> (usize \<times> CpuSyncToken) option" where
  "barrier_enter t = do {
     let ori = st_count t;
     let t = t\<lparr>st_count := (ori + 1) mod usize_bound\<rparr>;
     x \<leftarrow> uadd ori 1;
     next_count \<leftarrow> round_up x (st_n t);
     Some (next_count, t) }"

definition barrier_waits :: "CpuSyncToken \<Rightarrow> usize \<Rightarrow> bool" where
  "barrier_waits t next_count \<longleftrightarrow> st_count t < next_count"

definition set_barrier_num :: "usize \<Rightarrow> CpuSyncToken \<Rightarrow> CpuSyncToken" where
  "set_barrier_num num t = t\<lparr>st_n := num\<rparr>"

section \<open>Cores that meet at a barrier\<close>

text \<open>
  Where a core is: \<open>Outside k\<close> has left the barrier \<open>k\<close> times, \<open>Waiting k nc\<close> has left it \<open>k\<close> times and
  waits for the counter to reach \<open>nc\<close>.  In \<open>barrier_step N R\<close> each of the cores \<open>0..<N\<close> passes \<open>R\<close> times.
\<close>

datatype place = Outside nat | Waiting nat usize

record cores =
  b_tok :: CpuSyncToken
  b_at :: "nat \<Rightarrow> place"

inductive barrier_step :: "nat \<Rightarrow> nat \<Rightarrow> cores \<Rightarrow> cores \<Rightarrow> bool" for N R where
  enters: "c < N \<Longrightarrow> b_at s c = Outside k \<Longrightarrow> k < R \<Longrightarrow> barrier_enter (b_tok s) = Some (nc, t) \<Longrightarrow>
    barrier_step N R s (s\<lparr>b_tok := t, b_at := (b_at s)(c := Waiting k nc)\<rparr>)"
| leaves: "c < N \<Longrightarrow> b_at s c = Waiting k nc \<Longrightarrow> \<not> barrier_waits (b_tok s) nc \<Longrightarrow>
    barrier_step N R s (s\<lparr>b_at := (b_at s)(c := Outside (k + 1))\<rparr>)"

fun rounds_left :: "place \<Rightarrow> nat" where
  "rounds_left (Outside k) = k"
| "rounds_left (Waiting k _) = k"

fun rounds_entered :: "place \<Rightarrow> nat" where
  "rounds_entered (Outside k) = k"
| "rounds_entered (Waiting k _) = k + 1"

lemma entered_bounds: "rounds_left p \<le> rounds_entered p" "rounds_entered p \<le> rounds_left p + 1"
  by (cases p; simp)+

definition all_outside :: "usize \<Rightarrow> usize \<Rightarrow> cores" where
  "all_outside num cnt = \<lparr>b_tok = \<lparr>st_n = num, st_count = cnt, st_ready = True\<rparr>, b_at = (\<lambda>_. Outside 0)\<rparr>"

subsection \<open>The invariant\<close>

text \<open>
  \<open>base\<close> is the counter at the start.  The counter is the number of entries since, and nobody has left a
  round that somebody has not entered.
\<close>

definition entries :: "nat \<Rightarrow> cores \<Rightarrow> nat" where
  "entries N s = (\<Sum>c<N. rounds_entered (b_at s c))"

definition barrier_inv :: "nat \<Rightarrow> nat \<Rightarrow> nat \<Rightarrow> cores \<Rightarrow> bool" where
  "barrier_inv N R base s \<longleftrightarrow>
     st_n (b_tok s) = N \<and> st_count (b_tok s) = base + entries N s \<and>
     (\<forall>c<N. \<forall>d<N. rounds_left (b_at s d) \<le> rounds_entered (b_at s c)) \<and>
     (\<forall>c<N. rounds_entered (b_at s c) \<le> R) \<and>
     (\<forall>c<N. \<forall>k nc. b_at s c = Waiting k nc \<longrightarrow> nc = base + N * (k + 1))"

lemma barrier_inv_init: "barrier_inv N R base (all_outside N base)"
  by (simp add: barrier_inv_def all_outside_def entries_def)

text \<open>While a core has entered only \<open>k\<close> rounds, the counter is below the end of round \<open>k\<close>.\<close>

lemma entries_upper:
  assumes "barrier_inv N R base s" "c < N" "rounds_entered (b_at s c) \<le> k"
  shows "entries N s < N * (k + 1)"
proof -
  have "rounds_entered (b_at s d) \<le> k + 1" if "d < N" for d
    using assms that entered_bounds(2)[of "b_at s d"] unfolding barrier_inv_def by (meson add_le_mono1 le_trans)
  then have "entries N s < (\<Sum>d<N. k + 1)"
    unfolding entries_def using assms(2,3) by (intro sum_strict_mono_ex1) (auto intro!: bexI[of _ c])
  then show ?thesis by simp
qed

lemma entries_lower:
  assumes "\<And>d. d < N \<Longrightarrow> k \<le> rounds_entered (b_at s d)"
  shows "N * k \<le> entries N s"
  using sum_mono[of "{..<N}" "\<lambda>_. k" "\<lambda>d. rounds_entered (b_at s d)"] assms by (simp add: entries_def)

lemma sum_upd_less:
  fixes N :: nat and g :: "place \<Rightarrow> nat"
  assumes "c < N"
  shows "(\<Sum>d<N. g ((p(c := x)) d)) + g (p c) = (\<Sum>d<N. g (p d)) + g x"
proof -
  have "finite {..<N}" "c \<in> {..<N}" using assms by auto
  from sum.remove[OF this, of "\<lambda>d. g ((p(c := x)) d)"] sum.remove[OF this, of "\<lambda>d. g (p d)"]
  show ?thesis by simp
qed

lemma round_up_next:
  assumes "N dvd base" "N * k \<le> e" "e < N * (k + 1)" "base + e + 1 + N < usize_bound"
  shows "round_up (base + e + 1) N = Some (base + N * (k + 1))"
proof -
  have N: "0 < N" using assms(3) by (cases N) auto
  from assms(1) obtain j where j: "base = N * j" ..
  have "(base + e + 1 + N - 1) div N = j + (e + N) div N"
    using N div_mult_self2[of N "e + N" j] by (simp add: j algebra_simps)
  also have "(e + N) div N = k + 1"
    using assms(2,3) N by (intro div_nat_eqI) (auto simp: algebra_simps)
  finally show ?thesis using round_up_Some[OF N assms(4)] by (simp add: j algebra_simps)
qed

lemma barrier_step_inv:
  assumes "barrier_step N R s s'" "barrier_inv N R base s" "N dvd base" "base + N * (R + 2) < usize_bound"
  shows "barrier_inv N R base s'"
  using assms(1)
proof cases
  case (enters c k nc t)
  let ?e = "entries N s"
  have inv: "st_n (b_tok s) = N" "st_count (b_tok s) = base + ?e"
    "\<And>c d. c < N \<Longrightarrow> d < N \<Longrightarrow> rounds_left (b_at s d) \<le> rounds_entered (b_at s c)"
    using assms(2) by (auto simp: barrier_inv_def)
  have up: "?e < N * (k + 1)" using entries_upper[OF assms(2) enters(2), of k] enters(3) by simp
  have lo: "N * k \<le> ?e" using inv(3)[OF _ enters(2)] enters(3) by (intro entries_lower) fastforce
  have "N * (k + 1) \<le> N * R" using enters(4) by (intro mult_le_mono2) simp
  with up assms(4) have bound: "base + ?e + 1 + N < usize_bound" by (simp add: algebra_simps)
  have nc: "nc = base + N * (k + 1)" "st_n t = N" "st_count t = base + ?e + 1"
    using enters(5) round_up_next[OF assms(3) lo up bound] bound by (auto simp: barrier_enter_def inv panic_simps)
  have "entries N s' = ?e + 1"
    using sum_upd_less[OF enters(2), of rounds_entered "b_at s" "Waiting k nc"] enters(1,3) by (simp add: entries_def)
  moreover have "rounds_left (b_at s d) \<le> k" "k \<le> rounds_entered (b_at s d)" if "d < N" for d
    using inv(3)[OF enters(2) that] inv(3)[OF that enters(2)] enters(3) by simp_all
  ultimately show ?thesis using assms(2) enters(1-4) nc
    by (auto simp: barrier_inv_def intro: le_SucI)
next
  case (leaves c k nc)
  have inv: "st_count (b_tok s) = base + entries N s" "nc = base + N * (k + 1)"
    using assms(2) leaves(2,3) by (auto simp: barrier_inv_def)
  have all: "k + 1 \<le> rounds_entered (b_at s d)" if "d < N" for d
    using entries_upper[OF assms(2) that, of k] leaves(4) inv by (fastforce simp: barrier_waits_def)
  have "entries N s' = entries N s"
    using sum_upd_less[OF leaves(2), of rounds_entered "b_at s" "Outside (k + 1)"] leaves(1,3) by (simp add: entries_def)
  then show ?thesis using assms(2) leaves(1-3) all
    by (auto simp: barrier_inv_def)
qed

lemma barrier_run_inv:
  assumes "(barrier_step N R ^^ n) (all_outside N base) s" "N dvd base" "base + N * (R + 2) < usize_bound"
  shows "barrier_inv N R base s"
  using assms(1)
  by (induction n arbitrary: s) (auto intro: barrier_inv_init barrier_step_inv[OF _ _ assms(2,3)])

text \<open>The number of steps a run has taken.\<close>

definition steps_taken :: "nat \<Rightarrow> cores \<Rightarrow> nat" where
  "steps_taken N s = (\<Sum>c<N. rounds_entered (b_at s c) + rounds_left (b_at s c))"

lemma barrier_step_counts: "barrier_step N R s s' \<Longrightarrow> steps_taken N s' = steps_taken N s + 1"
proof (erule barrier_step.cases)
  fix c t k nc t'
  assume "c < N" "b_at t c = Outside k" "s = t" "s' = t\<lparr>b_tok := t', b_at := (b_at t)(c := Waiting k nc)\<rparr>"
  then show ?thesis
    using sum_upd_less[of c N "\<lambda>p. rounds_entered p + rounds_left p" "b_at t" "Waiting k nc"] by (simp add: steps_taken_def)
next
  fix c t k nc
  assume "c < N" "b_at t c = Waiting k nc" "s = t" "s' = t\<lparr>b_at := (b_at t)(c := Outside (k + 1))\<rparr>"
  then show ?thesis
    using sum_upd_less[of c N "\<lambda>p. rounds_entered p + rounds_left p" "b_at t" "Outside (k + 1)"] by (simp add: steps_taken_def)
qed

lemma barrier_run_counts: "(barrier_step N R ^^ n) (all_outside N base) s \<Longrightarrow> steps_taken N s = n"
proof (induction n arbitrary: s)
  case 0
  then show ?case by (auto simp: all_outside_def steps_taken_def)
qed (auto simp: barrier_step_counts)

lemma barrier_stuck:
  assumes "barrier_inv N R base s" "N dvd base" "base + N * (R + 2) < usize_bound"
    and stuck: "\<not> (\<exists>s'. barrier_step N R s s')" and "c < N"
  shows "b_at s c = Outside R"
proof -
  have out: "R \<le> k" if "d < N" "b_at s d = Outside k" for d k
  proof (rule ccontr)
    assume "\<not> R \<le> k"
    have inv: "st_n (b_tok s) = N" "st_count (b_tok s) = base + entries N s" using assms(1) by (auto simp: barrier_inv_def)
    have up: "entries N s < N * (k + 1)" using entries_upper[OF assms(1) that(1), of k] that(2) by simp
    have left: "rounds_left (b_at s d) \<le> rounds_entered (b_at s e)" if "e < N" for e
      using assms(1) that \<open>d < N\<close> by (simp add: barrier_inv_def)
    have lo: "N * k \<le> entries N s" using left that(2) by (intro entries_lower) simp
    have "N * (k + 1) \<le> N * R" using \<open>\<not> R \<le> k\<close> by (intro mult_le_mono2) simp
    with up assms(3) have bound: "base + entries N s + 1 + N < usize_bound" by (simp add: algebra_simps)
    have "\<exists>nc t. barrier_enter (b_tok s) = Some (nc, t)"
      using round_up_next[OF assms(2) lo up bound] bound by (auto simp: barrier_enter_def inv panic_simps)
    then obtain nc t where "barrier_enter (b_tok s) = Some (nc, t)" by blast
    then show False using stuck enters[OF that, of R nc t] \<open>\<not> R \<le> k\<close> by auto
  qed
  have wait: False if "d < N" "b_at s d = Waiting k nc" and least: "\<And>e. e < N \<Longrightarrow> k \<le> rounds_left (b_at s e)" for d k nc
  proof -
    have "nc = base + N * (k + 1)" and kR: "k < R" and cnt: "st_count (b_tok s) = base + entries N s"
      using assms(1) that(1,2) unfolding barrier_inv_def by (auto dest: spec[of _ d])
    moreover have "k + 1 \<le> rounds_entered (b_at s e)" if "e < N" for e
      using least[OF that] out[OF that] kR by (cases "b_at s e") fastforce+
    then have "N * (k + 1) \<le> entries N s" by (rule entries_lower)
    ultimately have "\<not> barrier_waits (b_tok s) nc" by (simp add: barrier_waits_def)
    then show False using stuck leaves[OF that(1,2)] by blast
  qed
  obtain e where e: "e < N" "\<And>d. d < N \<Longrightarrow> rounds_left (b_at s e) \<le> rounds_left (b_at s d)"
    using \<open>c < N\<close> ex_has_least_nat[of "\<lambda>d. d < N" c "\<lambda>d. rounds_left (b_at s d)"] by blast
  then have "R \<le> rounds_left (b_at s e)" using wait[OF e(1)] out[OF e(1)] by (cases "b_at s e") auto
  then have "R \<le> rounds_left (b_at s c)" "rounds_entered (b_at s c) \<le> R"
    using e(2)[OF \<open>c < N\<close>] assms(1) \<open>c < N\<close> by (auto simp: barrier_inv_def)
  then show ?thesis by (cases "b_at s c") auto
qed

section \<open>Nobody passes early, everybody passes\<close>

text \<open>
  C32. The barrier holds back: in every reachable state of \<open>N\<close> cores that meet \<open>R\<close> times, a core has left no
  round that another has not entered.  The counter starts at a multiple of \<open>N\<close> and has room.
\<close>

theorem barrier_safe:
  assumes "(barrier_step N R)\<^sup>*\<^sup>* (all_outside N base) s" and "N dvd base" and "base + N * (R + 2) < usize_bound"
    and "c < N" and "d < N"
  shows "rounds_left (b_at s d) \<le> rounds_entered (b_at s c)"
proof -
  obtain n where "(barrier_step N R ^^ n) (all_outside N base) s" using assms(1) by (auto simp: rtranclp_power)
  from barrier_run_inv[OF this assms(2,3)] show ?thesis using assms(4,5) by (simp add: barrier_inv_def)
qed

text \<open>
  C33. The barrier lets through: a run of \<open>N\<close> cores through \<open>R\<close> rounds takes at most \<open>2 * N * R\<close> steps in whatever
  order the cores move, and only stops when every core has passed all \<open>R\<close> rounds; no core waits forever.
\<close>

theorem barrier_completes:
  assumes "(barrier_step N R ^^ n) (all_outside N base) s" and "N dvd base" and "base + N * (R + 2) < usize_bound"
  shows "n \<le> 2 * N * R \<and> ((\<exists>s'. barrier_step N R s s') \<or> (\<forall>c<N. b_at s c = Outside R))"
proof
  note inv = barrier_run_inv[OF assms]
  have "rounds_entered (b_at s c) + rounds_left (b_at s c) \<le> 2 * R" if "c < N" for c
    using inv that entered_bounds(1)[of "b_at s c"] by (fastforce simp: barrier_inv_def)
  then have "steps_taken N s \<le> (\<Sum>c<N. 2 * R)" unfolding steps_taken_def by (intro sum_mono) simp
  then show "n \<le> 2 * N * R" using barrier_run_counts[OF assms(1)] by (simp add: ac_simps)
  show "(\<exists>s'. barrier_step N R s s') \<or> (\<forall>c<N. b_at s c = Outside R)"
    using barrier_stuck[OF inv assms(2,3)] by blast
qed

subsection \<open>A barrier that is out of phase\<close>

lemma round_up_phase:
  assumes "base mod N \<noteq> 0" "0 < N" "j < N - base mod N" "base + 2 * N < usize_bound"
  shows "round_up (base + j + 1) N = Some (base + (N - base mod N))"
proof -
  have r: "base mod N < N" using assms(2) by simp
  have "(base + j + 1 + N - 1) div N = base div N + 1"
  proof (rule div_nat_eqI)
    have b: "base = N * (base div N) + base mod N" by simp
    show "N * (base div N + 1) \<le> base + j + 1 + N - 1" using div_times_less_eq_dividend[of base N] trans_le_add1[of "N * (base div N)" base j]
      by (simp add: mult.commute)
    have "N * Suc (base div N + 1) = N * (base div N) + N + N" by simp
    then show "base + j + 1 + N - 1 < N * Suc (base div N + 1)" using b r assms(3) by linarith
  qed
  moreover have "(base div N + 1) * N = base + (N - base mod N)"
    using r mod_less_eq_dividend[of base N] minus_mod_eq_div_mult[of base N] unfolding distrib_right mult_1 by linarith
  moreover have "base + j + 1 + N < usize_bound" using assms(3,4) by linarith
  ultimately show ?thesis using round_up_Some[OF assms(2), of "base + j + 1"] by simp
qed

lemma out_of_phase_entries:
  assumes "base mod N \<noteq> 0" "0 < N" "j \<le> N - base mod N" "base + 2 * N < usize_bound" "st_count t = base"
  shows "(barrier_step N 1)\<^sup>*\<^sup>* \<lparr>b_tok = set_barrier_num N t, b_at = (\<lambda>_. Outside 0)\<rparr>
    \<lparr>b_tok = set_barrier_num N (t\<lparr>st_count := base + j\<rparr>), b_at = (\<lambda>c. if c < j then Waiting 0 (base + (N - base mod N)) else Outside 0)\<rparr>"
  using assms(3)
proof (induction j)
  case 0
  have "t\<lparr>st_count := base\<rparr> = t" using assms(5) by simp
  then show ?case by simp
next
  case (Suc j)
  let ?nc = "base + (N - base mod N)"
  let ?s = "\<lambda>j. \<lparr>b_tok = set_barrier_num N (t\<lparr>st_count := base + j\<rparr>), b_at = (\<lambda>c. if c < j then Waiting 0 ?nc else Outside 0)\<rparr>"
  have less: "base + j + 1 < usize_bound" "j < N" using Suc.prems assms(4) by linarith+
  have enter: "barrier_enter (b_tok (?s j)) = Some (?nc, set_barrier_num N (t\<lparr>st_count := base + Suc j\<rparr>))"
    using round_up_phase[of base N j] assms Suc.prems less by (simp add: barrier_enter_def set_barrier_num_def)
  have at: "(b_at (?s j))(j := Waiting 0 ?nc) = b_at (?s (Suc j))" by (auto simp: less_Suc_eq)
  have "barrier_step N 1 (?s j) (?s j\<lparr>b_tok := set_barrier_num N (t\<lparr>st_count := base + Suc j\<rparr>), b_at := (b_at (?s j))(j := Waiting 0 ?nc)\<rparr>)"
    using less(2) by (intro enters[OF _ _ _ enter]) auto
  then have "barrier_step N 1 (?s j) (?s (Suc j))" unfolding at by simp
  then show ?case using Suc by (meson Suc_leD rtranclp.rtrancl_into_rtrancl)
qed

text \<open>
  C34. The counter of \<open>func_barrier\<close> is never set back.  When \<open>set_barrier_num\<close> announces \<open>N\<close> cores and the
  counter left by earlier migrations is not a multiple of \<open>N\<close>, the barrier opens early: core 0 leaves
  while the last core has not arrived.
\<close>

theorem func_barrier_out_of_phase:
  assumes "0 < N" and "st_count t mod N \<noteq> 0" and "st_count t + 2 * N < usize_bound"
  shows "\<exists>s. (barrier_step N 1)\<^sup>*\<^sup>* \<lparr>b_tok = set_barrier_num N t, b_at = (\<lambda>_. Outside 0)\<rparr> s \<and>
    b_at s 0 = Outside 1 \<and> b_at s (N - 1) = Outside 0"
proof -
  let ?base = "st_count t"
  let ?m = "N - ?base mod N"
  let ?s = "\<lparr>b_tok = set_barrier_num N (t\<lparr>st_count := ?base + ?m\<rparr>), b_at = (\<lambda>c. if c < ?m then Waiting 0 (?base + ?m) else Outside 0)\<rparr>"
  have m: "0 < ?m" "?m \<le> N - 1" using assms(1,2) by auto
  have "barrier_step N 1 ?s (?s\<lparr>b_at := (b_at ?s)(0 := Outside (0 + 1))\<rparr>)"
    using assms(1) m by (intro leaves[where nc = "?base + ?m"]) (auto simp: barrier_waits_def set_barrier_num_def)
  then have "(barrier_step N 1)\<^sup>*\<^sup>* \<lparr>b_tok = set_barrier_num N t, b_at = (\<lambda>_. Outside 0)\<rparr> (?s\<lparr>b_at := (b_at ?s)(0 := Outside (0 + 1))\<rparr>)"
    using out_of_phase_entries[OF assms(2,1) order_refl assms(3) refl] by (rule rtranclp.rtrancl_into_rtrancl[rotated])
  then show ?thesis using m by (intro exI[of _ "?s\<lparr>b_at := (b_at ?s)(0 := Outside (0 + 1))\<rparr>"]) auto
qed

subsection \<open>Examples\<close>

text \<open>Four cores at the boot barrier: core 0 has entered.\<close>

lemma four_cores_enter:
  "barrier_step 4 3 (all_outside 4 0)
     \<lparr>b_tok = \<lparr>st_n = 4, st_count = 1, st_ready = True\<rparr>, b_at = (\<lambda>_. Outside 0)(0 := Waiting 0 4)\<rparr>"
proof -
  have "barrier_enter (b_tok (all_outside 4 0)) = Some (4, \<lparr>st_n = 4, st_count = 1, st_ready = True\<rparr>)"
    using round_up_Some[of 4 1] by (simp add: barrier_enter_def all_outside_def)
  from enters[OF _ _ _ this, of 0 4 0 3] show ?thesis by (simp add: all_outside_def)
qed

theorem barrier_safe_witness:
  "\<exists>s. (barrier_step 4 3)\<^sup>*\<^sup>* (all_outside 4 0) s \<and> b_at s 0 = Waiting 0 4 \<and> rounds_left (b_at s 0) \<le> rounds_entered (b_at s 3)"
proof -
  note run = r_into_rtranclp[of "barrier_step 4 3", OF four_cores_enter]
  show ?thesis using run barrier_safe[OF run, of 3 0] by (intro exI conjI) auto
qed

theorem barrier_completes_witness:
  "(barrier_step 4 3 ^^ 0) (all_outside 4 0) (all_outside 4 0) \<and> (\<exists>s'. barrier_step 4 3 (all_outside 4 0) s')"
proof -
  have "\<not> (\<forall>c<4. b_at (all_outside 4 0) c = Outside 3)" by (auto simp: all_outside_def intro!: exI[of _ 0])
  then show ?thesis using barrier_completes[of 0 4 3 0 "all_outside 4 0"] by auto
qed

theorem func_barrier_out_of_phase_witness:
  "\<exists>s. (barrier_step 2 1)\<^sup>*\<^sup>* \<lparr>b_tok = set_barrier_num 2 (CPU_FUNC_SYNC\<lparr>st_n := 3, st_count := 3\<rparr>), b_at = (\<lambda>_. Outside 0)\<rparr> s \<and>
    b_at s 0 = Outside 1 \<and> b_at s 1 = Outside 0"
  using func_barrier_out_of_phase[of 2 "CPU_FUNC_SYNC\<lparr>st_n := 3, st_count := 3\<rparr>"] by (simp add: CPU_FUNC_SYNC_def)

end
