(* ===== verification/Smmu.thy ===== *)
theory Smmu
  imports Vm
begin

text \<open>
  The system MMU of the Tegra board: \<open>src/src/arch/aarch64/smmu.rs\<close> and \<open>src/src/kernel/iommu.rs\<close>.

  The device is a file of 32-bit registers by address; \<open>TTBR0\<close> of a context bank is two of them.  Reading
  gives what was last written; that some status bits clear when they are written is not modelled.  The
  driver's \<open>SmmuGlbRS0\<close>, \<open>SmmuGlbRS1\<close> and \<open>SmmuContextBank\<close> are the base addresses they wrap.
\<close>

section \<open>The driver's state\<close>

record SmmuV2 =
  sm_glb_rs0 :: "usize option"
  sm_glb_rs1 :: "usize option"
  sm_context_s2_idx :: usize
  sm_context_bank :: "usize list"
  sm_context_alloc_bitmap :: "FlexBitmap option"
  sm_smr_num :: usize
  sm_smr_alloc_bitmap :: "FlexBitmap option"
  sm_group_alloc_bitmap :: "FlexBitmap option"
  sm_regs :: "usize \<Rightarrow> u32"

definition SmmuV2_new :: "(usize \<Rightarrow> u32) \<Rightarrow> SmmuV2" where
  "SmmuV2_new regs = \<lparr>sm_glb_rs0 = None, sm_glb_rs1 = None, sm_context_s2_idx = 0, sm_context_bank = [],
     sm_context_alloc_bitmap = None, sm_smr_num = 0, sm_smr_alloc_bitmap = None, sm_group_alloc_bitmap = None,
     sm_regs = regs\<rparr>"

subsection \<open>Registers\<close>

definition SMMU_OFFSET :: usize where "SMMU_OFFSET = 0x800000000"

definition RS0_CR0 :: usize where "RS0_CR0 = 0"
definition RS0_IDR0 :: usize where "RS0_IDR0 = 0x20"
definition RS0_IDR1 :: usize where "RS0_IDR1 = 0x24"
definition RS0_IDR2 :: usize where "RS0_IDR2 = 0x28"
definition RS0_IDR7 :: usize where "RS0_IDR7 = 0x3c"
definition RS0_GFSR :: usize where "RS0_GFSR = 0x48"
definition RS0_NSGFSR :: usize where "RS0_NSGFSR = 0x448"
definition RS0_SMR :: usize where "RS0_SMR = 0x800"
definition RS0_S2CR :: usize where "RS0_S2CR = 0xc00"
definition RS1_CBAR :: usize where "RS1_CBAR = 0"
definition RS1_CBA2R :: usize where "RS1_CBA2R = 0x800"
definition CB_SCTLR :: usize where "CB_SCTLR = 0"
definition CB_TTBR0 :: usize where "CB_TTBR0 = 0x20"
definition CB_TCR :: usize where "CB_TCR = 0x30"
definition CB_FSR :: usize where "CB_FSR = 0x58"

definition smmu_set :: "usize \<Rightarrow> u32 \<Rightarrow> SmmuV2 \<Rightarrow> SmmuV2" where
  "smmu_set a v s = s\<lparr>sm_regs := (sm_regs s)(a := v)\<rparr>"

definition smmu_set64 :: "usize \<Rightarrow> u64 \<Rightarrow> SmmuV2 \<Rightarrow> SmmuV2" where
  "smmu_set64 a v s = smmu_set (a + 4) (ucast (drop_bit 32 v)) (smmu_set a (ucast v) s)"

definition smmu_get64 :: "SmmuV2 \<Rightarrow> usize \<Rightarrow> u64" where
  "smmu_get64 s a = ucast (sm_regs s a) OR push_bit 32 (ucast (sm_regs s (a + 4)))"

text \<open>The address of element \<open>i\<close> of an array of 128 registers.\<close>

definition reg_elem :: "usize \<Rightarrow> usize \<Rightarrow> usize \<Rightarrow> usize option" where
  "reg_elem base off i = do { assert_that (i < 128); Some (base + off + 4 * i) }"

definition smmu_get_elem :: "SmmuV2 \<Rightarrow> usize option \<Rightarrow> usize \<Rightarrow> usize \<Rightarrow> u32 option" where
  "smmu_get_elem s rs off i = do { base \<leftarrow> rs; a \<leftarrow> reg_elem base off i; Some (sm_regs s a) }"

definition smmu_set_elem :: "usize option \<Rightarrow> usize \<Rightarrow> usize \<Rightarrow> u32 \<Rightarrow> SmmuV2 \<Rightarrow> SmmuV2 option" where
  "smmu_set_elem rs off i v s = do { base \<leftarrow> rs; a \<leftarrow> reg_elem base off i; Some (smmu_set a v s) }"

section \<open>Initialisation\<close>

definition bit_mask :: "usize \<Rightarrow> usize \<Rightarrow> u64" where
  "bit_mask off len = (push_bit (off + len) 1 - 1) AND NOT (push_bit off 1 - 1)"

text \<open>\<open>mmfr0\<close> is the value of \<open>ID_AA64MMFR0_EL1\<close>.\<close>

definition check_features :: "u64 \<Rightarrow> SmmuV2 \<Rightarrow> unit option" where
  "check_features mmfr0 s = do {
     rs0 \<leftarrow> sm_glb_rs0 s;
     let rd = (\<lambda>off. ucast (sm_regs s (rs0 + off)) :: u64);
     version \<leftarrow> bit_extract (rd RS0_IDR7) 4 4;
     assert_that (version = 2);
     assert_that (rd RS0_IDR0 AND push_bit 29 1 \<noteq> 0);
     assert_that (rd RS0_IDR0 AND push_bit 28 1 \<noteq> 0);
     assert_that (rd RS0_IDR0 AND push_bit 27 1 \<noteq> 0);
     assert_that (rd RS0_IDR0 AND push_bit 13 1 \<noteq> 0);
     assert_that (rd RS0_IDR2 AND push_bit 12 1 \<noteq> 0);
     pasize \<leftarrow> bit_extract (rd RS0_IDR2) 4 4;
     ipasize \<leftarrow> bit_extract (rd RS0_IDR2) 0 4;
     x \<leftarrow> bit_extract mmfr0 0 4;
     let parange = mmfr0 AND x;
     assert_that (\<not> sint pasize < sint parange);
     assert_that (\<not> sint ipasize < sint parange) }"

text \<open>\<open>base\<close> is the address of the SMMU in the platform description.\<close>

definition smmu_init :: "usize \<Rightarrow> u64 \<Rightarrow> SmmuV2 \<Rightarrow> SmmuV2 option" where
  "smmu_init base mmfr0 s = do {
     let rs0 = base + SMMU_OFFSET;
     let s = s\<lparr>sm_glb_rs0 := Some rs0\<rparr>;
     let idr1 = (ucast (sm_regs s (rs0 + RS0_IDR1)) :: u64);
     let page_size = (if idr1 AND push_bit 31 1 = 0 then 0x1000 else 0x10000);
     let s = s\<lparr>sm_glb_rs1 := Some (rs0 + page_size)\<rparr>;
     x \<leftarrow> bit_extract idr1 28 3;
     let num_pages = 2 ^ (1 + unat x);
     n \<leftarrow> bit_extract idr1 0 8;
     let context_bank_num = unat n;
     let context_base = rs0 + num_pages * page_size;
     let s = s\<lparr>sm_context_bank := sm_context_bank s @ map (\<lambda>i. context_base + page_size * i) [0..<context_bank_num]\<rparr>;
     idx \<leftarrow> usub context_bank_num VM_NUM_MAX;
     cbm \<leftarrow> FlexBitmap_new context_bank_num;
     let s = s\<lparr>sm_context_s2_idx := idx, sm_context_alloc_bitmap := Some cbm\<rparr>;
     check_features mmfr0 s;
     let smr_num = unat (ucast (sm_regs s (rs0 + RS0_IDR0)) AND 0xff :: u64);
     bm \<leftarrow> FlexBitmap_new smr_num;
     let s = s\<lparr>sm_smr_num := smr_num, sm_smr_alloc_bitmap := Some bm, sm_group_alloc_bitmap := Some bm\<rparr>;
     let s = smmu_set (rs0 + RS0_GFSR) (sm_regs s (rs0 + RS0_GFSR)) s;
     let s = smmu_set (rs0 + RS0_NSGFSR) (sm_regs s (rs0 + RS0_NSGFSR)) s;
     s \<leftarrow> for_range 0 smr_num (\<lambda>i. smmu_set_elem (Some rs0) RS0_SMR i 0) s;
     s \<leftarrow> for_range 0 context_bank_num (\<lambda>i s. do {
         cb \<leftarrow> vec_get (sm_context_bank s) i;
         Some (smmu_set (cb + CB_FSR) (- 1) (smmu_set (cb + CB_SCTLR) 0 s)) }) s;
     let cr0 = (ucast (sm_regs s (rs0 + RS0_CR0)) AND (push_bit 30 3 OR push_bit 11 1) :: u64);
     let cr0 = cr0 OR push_bit 10 1 OR push_bit 21 1;
     let cr0 = cr0 OR push_bit 1 1 OR push_bit 2 1 OR push_bit 4 1 OR push_bit 5 1;
     let cr0 = cr0 AND NOT 1;
     Some (smmu_set (rs0 + RS0_CR0) (ucast cr0) s) }"

section \<open>Stream matching\<close>

definition smr_is_group :: "SmmuV2 \<Rightarrow> usize \<Rightarrow> bool option" where
  "smr_is_group s smr = do { bm \<leftarrow> sm_group_alloc_bitmap s; x \<leftarrow> FlexBitmap_get bm smr; Some (x = 1) }"

definition smr_get_context :: "SmmuV2 \<Rightarrow> usize \<Rightarrow> usize option" where
  "smr_get_context s smr = do {
     v \<leftarrow> smmu_get_elem s (sm_glb_rs0 s) RS0_S2CR smr;
     x \<leftarrow> bit_extract (ucast v) 0 8;
     Some (unat x) }"

definition smr_get_id :: "SmmuV2 \<Rightarrow> usize \<Rightarrow> u16 option" where
  "smr_get_id s smr = do {
     v \<leftarrow> smmu_get_elem s (sm_glb_rs0 s) RS0_SMR smr;
     x \<leftarrow> bit_extract (ucast v) 0 15;
     Some (ucast x) }"

definition smr_get_mask :: "SmmuV2 \<Rightarrow> usize \<Rightarrow> u16 option" where
  "smr_get_mask s smr = do {
     v \<leftarrow> smmu_get_elem s (sm_glb_rs0 s) RS0_SMR smr;
     x \<leftarrow> bit_extract (ucast v) 16 15;
     Some (ucast x) }"

definition alloc_smr :: "SmmuV2 \<Rightarrow> usize option option" where
  "alloc_smr s = do {
     bm \<leftarrow> sm_smr_alloc_bitmap s;
     find_loop (\<lambda>i. do { x \<leftarrow> FlexBitmap_get bm i; Some (if x = 0 then Some i else None) }) [0..<FlexBitmap_vec_len bm] }"

text \<open>One round of the loop of \<open>compatible_smr_exists\<close>: \<open>True\<close> is its early return.\<close>

definition compatible_smr :: "u16 \<Rightarrow> u16 \<Rightarrow> usize \<Rightarrow> bool \<Rightarrow> usize \<Rightarrow> SmmuV2 \<Rightarrow> (bool \<times> SmmuV2) option" where
  "compatible_smr msk ident context_id grp smr s = do {
     bm \<leftarrow> sm_smr_alloc_bitmap s;
     b \<leftarrow> FlexBitmap_get bm smr;
     if b = 0 then Some (False, s)
     else do {
       smr_mask \<leftarrow> smr_get_mask s smr;
       let mask_r = smr_mask AND msk;
       smr_id \<leftarrow> smr_get_id s smr;
       let diff_id = (smr_id XOR ident) AND NOT (msk OR smr_mask);
       if diff_id \<noteq> 0 then do {
         is_grp \<leftarrow> smr_is_group s smr;
         ctx \<leftarrow> smr_get_context s smr;
         if grp \<or> is_grp \<and> (mask_r = msk \<or> mask_r = smr_mask) \<or> context_id = ctx then
           if msk > smr_mask then do {
             bm \<leftarrow> FlexBitmap_set bm smr False;
             Some (False, s\<lparr>sm_smr_alloc_bitmap := Some bm\<rparr>) }
           else Some (True, s)
         else None }
       else Some (False, s) } }"

fun compatible_loop :: "u16 \<Rightarrow> u16 \<Rightarrow> usize \<Rightarrow> bool \<Rightarrow> usize list \<Rightarrow> SmmuV2 \<Rightarrow> (bool \<times> SmmuV2) option" where
  "compatible_loop msk ident context_id grp [] s = Some (False, s)"
| "compatible_loop msk ident context_id grp (smr # smrs) s = do {
     (hit, s) \<leftarrow> compatible_smr msk ident context_id grp smr s;
     if hit then Some (True, s) else compatible_loop msk ident context_id grp smrs s }"

definition compatible_smr_exists :: "u16 \<Rightarrow> u16 \<Rightarrow> usize \<Rightarrow> bool \<Rightarrow> SmmuV2 \<Rightarrow> (bool \<times> SmmuV2) option" where
  "compatible_smr_exists msk ident context_id grp s = compatible_loop msk ident context_id grp [0..<sm_smr_num s] s"

definition write_smr :: "usize \<Rightarrow> u16 \<Rightarrow> u16 \<Rightarrow> bool \<Rightarrow> SmmuV2 \<Rightarrow> SmmuV2 option" where
  "write_smr smr msk ident grp s = do {
     bm \<leftarrow> sm_smr_alloc_bitmap s;
     b \<leftarrow> FlexBitmap_get bm smr;
     assert_that (b = 0);
     let val = (push_bit 16 (ucast msk) OR ucast (ident AND 0x7fff) OR push_bit 31 1 :: u64);
     s \<leftarrow> smmu_set_elem (sm_glb_rs0 s) RS0_SMR smr (ucast val) s;
     if grp then do {
       gm \<leftarrow> sm_group_alloc_bitmap s;
       gm \<leftarrow> FlexBitmap_set gm smr True;
       Some (s\<lparr>sm_group_alloc_bitmap := Some gm\<rparr>) }
     else Some s }"

definition write_s2c :: "usize \<Rightarrow> usize \<Rightarrow> SmmuV2 \<Rightarrow> SmmuV2 option" where
  "write_s2c smr context_id s = do {
     bm \<leftarrow> sm_smr_alloc_bitmap s;
     b \<leftarrow> FlexBitmap_get bm smr;
     assert_that (b = 0);
     v \<leftarrow> smmu_get_elem s (sm_glb_rs0 s) RS0_S2CR smr;
     let s2cr = ucast v AND bit_mask 30 2;
     let s2cr = s2cr OR (of_nat context_id AND bit_mask 0 8);
     smmu_set_elem (sm_glb_rs0 s) RS0_S2CR smr (ucast s2cr) s }"

section \<open>Context banks\<close>

definition alloc_ctxbnk :: "SmmuV2 \<Rightarrow> (usize option \<times> SmmuV2) option" where
  "alloc_ctxbnk s = do {
     bm \<leftarrow> sm_context_alloc_bitmap s;
     hit \<leftarrow> find_loop (\<lambda>i. do { x \<leftarrow> FlexBitmap_get bm i; Some (if x = 0 then Some i else None) })
       [sm_context_s2_idx s..<length (sm_context_bank s)];
     case hit of
       Some i \<Rightarrow> do { bm \<leftarrow> FlexBitmap_set bm i True; Some (Some i, s\<lparr>sm_context_alloc_bitmap := Some bm\<rparr>) }
     | None \<Rightarrow> Some (None, s) }"

definition SMMU_TCR :: u32 where
  "SMMU_TCR = push_bit 16 (1 AND 0x7) OR (28 AND 0x1F) OR 0 OR push_bit 10 1 OR push_bit 8 1 OR push_bit 12 3 OR push_bit 6 1"

definition write_ctxbnk :: "usize \<Rightarrow> usize \<Rightarrow> usize \<Rightarrow> SmmuV2 \<Rightarrow> SmmuV2 option" where
  "write_ctxbnk context_id root_pt vmid s = do {
     bm \<leftarrow> sm_context_alloc_bitmap s;
     b \<leftarrow> FlexBitmap_get bm context_id;
     assert_that (b \<noteq> 0);
     s \<leftarrow> smmu_set_elem (sm_glb_rs1 s) RS1_CBAR context_id (of_nat vmid AND 0xFF) s;
     s \<leftarrow> smmu_set_elem (sm_glb_rs1 s) RS1_CBA2R context_id 1 s;
     cb \<leftarrow> vec_get (sm_context_bank s) context_id;
     let s = smmu_set (cb + CB_TCR) SMMU_TCR s;
     let s = smmu_set64 (cb + CB_TTBR0) (of_nat root_pt AND bit_mask 12 36) s;
     let sctlr = (ucast (sm_regs s (cb + CB_SCTLR)) AND (push_bit 28 0xF OR push_bit 20 1 OR push_bit 9 0xF OR push_bit 11 1) :: u64);
     let sctlr = sctlr OR (push_bit 5 1 OR push_bit 6 1 OR 1);
     Some (smmu_set (cb + CB_SCTLR) (ucast sctlr) s) }"

text \<open>The guest of the store is given its context; the panic when none is left is \<open>None\<close>.\<close>

definition smmu_vm_init :: "VmRef \<Rightarrow> Machine \<times> SmmuV2 \<Rightarrow> (bool \<times> Machine \<times> SmmuV2) option" where
  "smmu_vm_init r = (\<lambda>(m, s). do {
     (c, s) \<leftarrow> alloc_ctxbnk s;
     context_id \<leftarrow> c;
     pt \<leftarrow> vm_pt (m_vms m r);
     s \<leftarrow> write_ctxbnk context_id (base_pa pt) (vm_id (m_vms m r)) s;
     Some (True, upd_vm r (\<lambda>x. x\<lparr>vm_iommu_ctx_id := Some context_id\<rparr>) m, s) })"

definition smmu_add_device :: "usize \<Rightarrow> usize \<Rightarrow> SmmuV2 \<Rightarrow> (bool \<times> SmmuV2) option" where
  "smmu_add_device context_id stream_id s = do {
     let prep_id = (ucast (of_nat stream_id AND bit_mask 0 15) :: u16);
     (hit, s) \<leftarrow> compatible_smr_exists 0 prep_id context_id False s;
     if \<not> hit then do {
       found \<leftarrow> alloc_smr s;
       case found of
         Some smr \<Rightarrow> do {
           s \<leftarrow> write_smr smr 0 prep_id False s;
           s \<leftarrow> write_s2c smr context_id s;
           Some (True, s) }
       | None \<Rightarrow> Some (False, s) }
     else Some (True, s) }"

section \<open>The interface to the boards\<close>

definition iommu_init :: "Board \<Rightarrow> usize \<Rightarrow> u64 \<Rightarrow> SmmuV2 \<Rightarrow> SmmuV2 option" where
  "iommu_init b base mmfr0 s = (if b = Tx2 then smmu_init base mmfr0 s else Some s)"

definition iommmu_vm_init :: "VmRef \<Rightarrow> Machine \<times> SmmuV2 \<Rightarrow> (bool \<times> Machine \<times> SmmuV2) option" where
  "iommmu_vm_init r ms = (if m_board (fst ms) = Tx2 then smmu_vm_init r ms else Some (False, ms))"

definition iommu_add_device :: "VmRef \<Rightarrow> usize \<Rightarrow> Machine \<times> SmmuV2 \<Rightarrow> (bool \<times> Machine \<times> SmmuV2) option" where
  "iommu_add_device r stream_id = (\<lambda>(m, s).
     if m_board m = Tx2 then do {
       c \<leftarrow> iommu_ctx_id m r;
       (ok, s) \<leftarrow> smmu_add_device c stream_id s;
       Some (ok, m, s) }
     else Some (False, m, s))"

section \<open>Accesses of a guest\<close>

definition emu_smmu_revise_cbar :: "EmuContext \<Rightarrow> Machine \<times> SmmuV2 \<Rightarrow> (Machine \<times> SmmuV2) option" where
  "emu_smmu_revise_cbar ec = (\<lambda>(m, s). do {
     rs1 \<leftarrow> sm_glb_rs1 s;
     cbar_addr \<leftarrow> usub (rs1 + RS1_CBAR) SMMU_OFFSET;
     d \<leftarrow> usub (ec_address ec) cbar_addr;
     let context_id = d div 4;
     r \<leftarrow> active_vm m;
     vm_context_id \<leftarrow> iommu_ctx_id m r;
     let cbar = (push_bit 16 3 OR push_bit 8 (of_nat vm_context_id AND 0xFF) OR (of_nat (vm_id (m_vms m r)) AND 0xFF) :: u64);
     s \<leftarrow> smmu_set_elem (sm_glb_rs1 s) RS1_CBAR context_id (ucast cbar) s;
     Some (m, s) })"

text \<open>
  An access to the device must be aligned to its width; one that is not does not return to the
  handler.
\<close>

definition smmu_raw_read :: "SmmuV2 \<Rightarrow> usize \<Rightarrow> bool \<Rightarrow> u64 option" where
  "smmu_raw_read s a wide = do {
     assert_that (a mod (if wide then 8 else 4) = 0);
     Some (if wide then smmu_get64 s a else ucast (sm_regs s a)) }"

definition smmu_raw_write :: "usize \<Rightarrow> bool \<Rightarrow> u64 \<Rightarrow> SmmuV2 \<Rightarrow> SmmuV2 option" where
  "smmu_raw_write a wide v s = do {
     assert_that (a mod (if wide then 8 else 4) = 0);
     Some (if wide then smmu_set64 a v s else smmu_set a (ucast v) s) }"

definition emu_smmu_handler :: "EmuContext \<Rightarrow> Machine \<times> SmmuV2 \<Rightarrow> (bool \<times> Machine \<times> SmmuV2) option" where
  "emu_smmu_handler ec = (\<lambda>(m, s). do {
     addr \<leftarrow> uadd (ec_address ec) SMMU_OFFSET;
     rs1 \<leftarrow> sm_glb_rs1 s;
     let cbar = rs1 + RS1_CBAR;
     if cbar \<le> addr \<and> addr < cbar + 4 * 128 \<and> ec_write ec then do {
       ms \<leftarrow> emu_smmu_revise_cbar ec (m, s);
       Some (True, ms) }
     else do {
       first \<leftarrow> vec_get (sm_context_bank s) (sm_context_s2_idx s);
       let permit_write = \<not> addr \<ge> first;
       if \<not> ec_write ec then do {
         val \<leftarrow> smmu_raw_read s addr (ec_width ec > 4);
         m \<leftarrow> set_gpr (ec_reg ec) val m;
         Some (True, m, s) }
       else do {
         val \<leftarrow> get_gpr m (ec_reg ec);
         if permit_write then do {
           s \<leftarrow> smmu_raw_write addr (ec_width ec > 4) val s;
           Some (True, m, s) }
         else Some (True, m, s) } } })"

section \<open>Context banks belong to one guest each\<close>

text \<open>
  A driver after initialisation: the register spaces do not overlap, and the bitmaps cover the banks.
\<close>

definition smmu_wf :: "SmmuV2 \<Rightarrow> bool" where
  "smmu_wf s \<longleftrightarrow> (\<exists>b0 b1 cbm. sm_glb_rs0 s = Some b0 \<and> sm_glb_rs1 s = Some b1 \<and> SMMU_OFFSET \<le> b0 \<and> b0 + 0x1000 \<le> b1 \<and>
     sm_context_alloc_bitmap s = Some cbm \<and> flex_wf cbm \<and> flex_len cbm = length (sm_context_bank s) \<and>
     length (sm_context_bank s) \<le> 128 \<and> sm_context_s2_idx s < length (sm_context_bank s) \<and>
     (\<forall>i < length (sm_context_bank s). b1 + 0x1000 \<le> sm_context_bank s ! i \<and> sm_context_bank s ! i mod 8 = 0 \<and>
       (\<forall>j < i. sm_context_bank s ! j + 0x1000 \<le> sm_context_bank s ! i)))"

definition ctx_taken :: "SmmuV2 \<Rightarrow> usize set" where
  "ctx_taken s = (case sm_context_alloc_bitmap s of Some bm \<Rightarrow> flex_bits bm | None \<Rightarrow> {})"

definition bank_regs :: "SmmuV2 \<Rightarrow> usize \<Rightarrow> usize \<Rightarrow> u32" where
  "bank_regs s i off = sm_regs s (sm_context_bank s ! i + off)"

lemma find_loop_first:
  assumes "\<And>x. x \<in> set xs \<Longrightarrow> f x = Some (if P x then Some x else None)" and "\<exists>x \<in> set xs. P x"
  shows "\<exists>x \<in> set xs. P x \<and> find_loop f xs = Some (Some x)"
  using assms by (induction xs) auto

lemma alloc_ctxbnk_free:
  assumes "smmu_wf s" "i < length (sm_context_bank s)" "sm_context_s2_idx s \<le> i" "i \<notin> ctx_taken s"
  shows "\<exists>c bm. alloc_ctxbnk s = Some (Some c, s\<lparr>sm_context_alloc_bitmap := Some bm\<rparr>) \<and> sm_context_s2_idx s \<le> c \<and>
    c < length (sm_context_bank s) \<and> c \<notin> ctx_taken s \<and> flex_wf bm \<and> flex_len bm = length (sm_context_bank s) \<and>
    flex_bits bm = insert c (ctx_taken s)"
proof -
  obtain cbm where bm: "sm_context_alloc_bitmap s = Some cbm" "flex_wf cbm" "flex_len cbm = length (sm_context_bank s)"
    using assms(1) by (auto simp: smmu_wf_def)
  let ?f = "\<lambda>i. do { x \<leftarrow> FlexBitmap_get cbm i; Some (if x = 0 then Some i else None) }"
  have "?f k = Some (if k \<notin> flex_bits cbm then Some k else None)" if "k \<in> set [sm_context_s2_idx s..<length (sm_context_bank s)]" for k
    using that bm FlexBitmap_get_view[of cbm k] by simp
  moreover have "\<exists>k \<in> set [sm_context_s2_idx s..<length (sm_context_bank s)]. k \<notin> flex_bits cbm"
    using assms(2-4) bm(1) by (auto simp: ctx_taken_def intro!: bexI[of _ i])
  ultimately obtain c where c: "c \<in> set [sm_context_s2_idx s..<length (sm_context_bank s)]" "c \<notin> flex_bits cbm"
    "find_loop ?f [sm_context_s2_idx s..<length (sm_context_bank s)] = Some (Some c)"
    using find_loop_first[of _ ?f "\<lambda>k. k \<notin> flex_bits cbm"] by blast
  obtain bm' where "FlexBitmap_set cbm c True = Some bm'" "flex_wf bm'" "flex_len bm' = flex_len cbm" "flex_bits bm' = insert c (flex_bits cbm)"
    using FlexBitmap_set_view[OF bm(2), of c True] c(1) bm(3) by auto
  then show ?thesis using c bm by (auto simp: alloc_ctxbnk_def ctx_taken_def)
qed

lemma bank_order:
  "smmu_wf s \<Longrightarrow> i < j \<Longrightarrow> j < length (sm_context_bank s) \<Longrightarrow> sm_context_bank s ! i + 0x1000 \<le> sm_context_bank s ! j"
  by (auto simp: smmu_wf_def)

lemma bank_apart:
  assumes "smmu_wf s" "i < length (sm_context_bank s)" "j < length (sm_context_bank s)" "i \<noteq> j" "x < 0x1000" "y < 0x1000"
  shows "sm_context_bank s ! i + x \<noteq> sm_context_bank s ! j + y"
proof (cases "i < j")
  case True
  then show ?thesis using bank_order[OF assms(1) True assms(3)] assms(5,6) by linarith
next
  case False
  then show ?thesis using bank_order[OF assms(1) _ assms(2), of j] assms(4-6) by linarith
qed

lemma get64_set64: "smmu_get64 (smmu_set64 a v s) a = v"
proof -
  have "(ucast (ucast v :: u32) :: u64) OR push_bit 32 (ucast (ucast (drop_bit 32 v) :: u32)) = v"
    by (rule bit_eqI) (auto simp: bit_simps)
  then show ?thesis by (simp add: smmu_get64_def smmu_set64_def smmu_set_def)
qed

lemma smmu_set_simps [simp]:
  "sm_regs (smmu_set a v s) = (sm_regs s)(a := v)" "sm_context_bank (smmu_set a v s) = sm_context_bank s"
  "sm_glb_rs1 (smmu_set a v s) = sm_glb_rs1 s" "sm_glb_rs0 (smmu_set a v s) = sm_glb_rs0 s"
  "sm_context_alloc_bitmap (smmu_set a v s) = sm_context_alloc_bitmap s" "sm_context_s2_idx (smmu_set a v s) = sm_context_s2_idx s"
  "sm_smr_num (smmu_set a v s) = sm_smr_num s" "sm_smr_alloc_bitmap (smmu_set a v s) = sm_smr_alloc_bitmap s"
  by (simp_all add: smmu_set_def)

lemma smmu_set64_simps [simp]:
  "sm_regs (smmu_set64 a v s) = (sm_regs s)(a := ucast v, a + 4 := ucast (drop_bit 32 v))" "sm_context_bank (smmu_set64 a v s) = sm_context_bank s"
  "sm_glb_rs1 (smmu_set64 a v s) = sm_glb_rs1 s" "sm_glb_rs0 (smmu_set64 a v s) = sm_glb_rs0 s"
  "sm_context_alloc_bitmap (smmu_set64 a v s) = sm_context_alloc_bitmap s" "sm_context_s2_idx (smmu_set64 a v s) = sm_context_s2_idx s"
  by (simp_all add: smmu_set64_def)

lemmas smmu_offs = RS0_SMR_def RS0_S2CR_def RS1_CBAR_def RS1_CBA2R_def CB_SCTLR_def CB_TTBR0_def CB_TCR_def CB_FSR_def

text \<open>
  What \<open>write_ctxbnk\<close> writes: two registers below the banks and one bank.  The bank then translates by
  the second stage only (type 0) with the guest's identifier and 64-bit descriptors; \<open>SMMU_TCR\<close> asks for
  36-bit addresses from level 1 in 4 KB pages; the guest's table is its root; translation and
  both kinds of fault reports are on, and of the other control bits only some keep their value.
\<close>

definition bank_addrs :: "usize \<Rightarrow> usize \<Rightarrow> usize \<Rightarrow> usize set" where
  "bank_addrs b1 cb c = {b1 + RS1_CBAR + 4 * c, b1 + RS1_CBA2R + 4 * c, cb + CB_SCTLR, cb + CB_TCR, cb + CB_TTBR0, cb + CB_TTBR0 + 4}"

definition bank_set_up :: "SmmuV2 \<Rightarrow> usize \<Rightarrow> usize \<Rightarrow> usize \<Rightarrow> SmmuV2 \<Rightarrow> bool" where
  "bank_set_up s c root vmid s' \<longleftrightarrow> (\<exists>b1. sm_glb_rs1 s = Some b1 \<and>
     sm_regs s' (b1 + RS1_CBAR + 4 * c) = of_nat vmid AND 0xFF \<and> sm_regs s' (b1 + RS1_CBA2R + 4 * c) = 1 \<and>
     bank_regs s' c CB_TCR = SMMU_TCR \<and>
     smmu_get64 s' (sm_context_bank s ! c + CB_TTBR0) = of_nat root AND bit_mask 12 36 \<and>
     (\<forall>n < 32. bit (bank_regs s' c CB_SCTLR) n \<longleftrightarrow> n \<in> {0, 5, 6} \<or> bit (bank_regs s c CB_SCTLR) n \<and> n \<in> {9..12} \<union> {20} \<union> {28..31}) \<and>
     (\<forall>a. a \<notin> bank_addrs b1 (sm_context_bank s ! c) c \<longrightarrow> sm_regs s' a = sm_regs s a))"

lemma bit_0xF: "bit (0xF :: u64) n \<longleftrightarrow> n < 4"
proof -
  have m: "(0xF :: u64) = mask 4" by (simp add: mask_eq_exp_minus_1)
  show ?thesis unfolding m by (auto simp: bit_mask_iff)
qed

lemma sctlr_bits:
  fixes x :: u32
  assumes "n < 32"
  shows "bit (ucast ((ucast x AND (push_bit 28 0xF OR push_bit 20 1 OR push_bit 9 0xF OR push_bit 11 1) :: u64) OR (push_bit 5 1 OR push_bit 6 1 OR 1)) :: u32) n
    \<longleftrightarrow> n \<in> {0, 5, 6} \<or> bit x n \<and> n \<in> {9..12} \<union> {20} \<union> {28..31}"
  using assms unfolding bit_ucast_iff bit_or_iff bit_and_iff bit_push_bit_iff bit_0xF bit_1_iff by auto

lemma write_ctxbnk_effect:
  assumes "smmu_wf s" "c < length (sm_context_bank s)" "c \<in> ctx_taken s"
  shows "\<exists>s'. write_ctxbnk c root vmid s = Some s' \<and> (\<exists>rg. s' = s\<lparr>sm_regs := rg\<rparr>) \<and> bank_set_up s c root vmid s'"
proof -
  obtain b1 cbm where wf: "sm_glb_rs1 s = Some b1" "sm_context_alloc_bitmap s = Some cbm" "flex_wf cbm"
    "flex_len cbm = length (sm_context_bank s)" "length (sm_context_bank s) \<le> 128"
    "\<And>i. i < length (sm_context_bank s) \<Longrightarrow> b1 + 0x1000 \<le> sm_context_bank s ! i"
    using assms(1) by (auto simp: smmu_wf_def)
  let ?cb = "sm_context_bank s ! c" and ?v = "of_nat root AND bit_mask 12 36 :: u64"
  define s2 where "s2 = smmu_set64 (?cb + CB_TTBR0) ?v (smmu_set (?cb + CB_TCR) SMMU_TCR
     (smmu_set (b1 + RS1_CBA2R + 4 * c) 1 (smmu_set (b1 + RS1_CBAR + 4 * c) (of_nat vmid AND 0xFF) s)))"
  have bit: "FlexBitmap_get cbm c = Some 1" using FlexBitmap_get_view[OF wf(3), of c] wf(2,4) assms(2,3) by (simp add: ctx_taken_def)
  define v where "v = (ucast (sm_regs s2 (?cb + CB_SCTLR)) AND (push_bit 28 0xF OR push_bit 20 1 OR push_bit 9 0xF OR push_bit 11 1) OR
    (push_bit 5 1 OR push_bit 6 1 OR 1) :: u64)"
  define s3 where "s3 = smmu_set (?cb + CB_SCTLR) (ucast v) s2"
  have c: "c < 128" using assms(2) wf(5) by simp
  have far: "b1 + 0x1000 \<le> ?cb" by (rule wf(6)[OF assms(2)])
  have res: "write_ctxbnk c root vmid s = Some s3"
    using c bit wf(1,2) assms(2) by (simp add: write_ctxbnk_def smmu_set_elem_def reg_elem_def s2_def v_def Let_def s3_def)
  have bank: "sm_context_bank s2 = sm_context_bank s" "sm_context_bank s3 = sm_context_bank s" by (simp_all add: s3_def s2_def)
  have "smmu_get64 s3 (?cb + CB_TTBR0) = smmu_get64 s2 (?cb + CB_TTBR0)" by (simp add: smmu_get64_def smmu_offs s3_def)
  then have ttbr: "smmu_get64 s3 (?cb + CB_TTBR0) = ?v" by (simp only: s2_def get64_set64)
  have old: "sm_regs s2 (?cb + CB_SCTLR) = bank_regs s c CB_SCTLR" using far c by (simp add: s2_def smmu_offs bank_regs_def)
  have "bank_regs s3 c CB_SCTLR = ucast v" by (simp add: bank_regs_def bank s3_def)
  then have ctl: "bit (bank_regs s3 c CB_SCTLR) n \<longleftrightarrow> n \<in> {0, 5, 6} \<or> bit (bank_regs s c CB_SCTLR) n \<and> n \<in> {9..12} \<union> {20} \<union> {28..31}"
    if "n < 32" for n
    unfolding v_def old by (simp only: sctlr_bits[OF that])
  have cbar: "sm_regs s3 (b1 + RS1_CBAR + 4 * c) = of_nat vmid AND 0xFF" "sm_regs s3 (b1 + RS1_CBA2R + 4 * c) = 1"
    "bank_regs s3 c CB_TCR = SMMU_TCR"
    using far c unfolding s3_def s2_def by (simp_all add: smmu_offs bank_regs_def)
  have other: "sm_regs s3 a = sm_regs s a" if "a \<notin> bank_addrs b1 ?cb c" for a
    using that by (simp add: bank_addrs_def s3_def s2_def)
  have "\<exists>rg. s3 = s\<lparr>sm_regs := rg\<rparr>" unfolding s3_def s2_def smmu_set_def smmu_set64_def by (intro exI) simp
  then show ?thesis using res wf(1) cbar ttbr ctl other unfolding bank_set_up_def by blast
qed

lemma bank_set_up_others:
  assumes "smmu_wf s" "c < length (sm_context_bank s)" "bank_set_up s c root vmid s'" "sm_context_bank s' = sm_context_bank s"
    and j: "j < length (sm_context_bank s)" "j \<noteq> c" "off < 0x1000"
  shows "bank_regs s' j off = bank_regs s j off"
proof -
  obtain b1 where b1: "sm_glb_rs1 s = Some b1" "\<And>a. a \<notin> bank_addrs b1 (sm_context_bank s ! c) c \<Longrightarrow> sm_regs s' a = sm_regs s a"
    using assms(3) by (auto simp: bank_set_up_def)
  have far: "b1 + 0x1000 \<le> sm_context_bank s ! j" "c < 128" using assms(1,2) b1(1) j(1) by (auto simp: smmu_wf_def)
  have "sm_context_bank s ! j + off \<noteq> sm_context_bank s ! c + y" if "y < 0x1000" for y
    using bank_apart[OF assms(1) j(1) assms(2) j(2,3) that] .
  from this[of CB_SCTLR] this[of CB_TCR] this[of CB_TTBR0] this[of "CB_TTBR0 + 4"] far
  have "sm_context_bank s ! j + off \<notin> bank_addrs b1 (sm_context_bank s ! c) c" by (simp add: bank_addrs_def smmu_offs)
  then show ?thesis using b1(2) assms(4) by (simp add: bank_regs_def)
qed

text \<open>
  C37. A guest gets a context bank of its own, and the bank describes it. When a bank is left, \<open>smmu_vm_init\<close>
  takes one that no guest holds and marks it taken. Its registers then say second stage only with the low byte of the
  guest's identifier, 64-bit descriptors, the address format \<open>SMMU_TCR\<close>, the guest's page table, and translation on.
  Apart from these six registers nothing changes: the banks of other guests keep every
  register, and so does the entry of every other bank in the two attribute arrays.
\<close>

theorem smmu_vm_init_exclusive:
  assumes "smmu_wf s" and "i < length (sm_context_bank s)" and "sm_context_s2_idx s \<le> i" and "i \<notin> ctx_taken s"
    and "vm_pt (m_vms m r) = Some pt"
  shows "\<exists>c m' s'. smmu_vm_init r (m, s) = Some (True, m', s') \<and> iommu_ctx_id m' r = Some c \<and>
    sm_context_s2_idx s \<le> c \<and> c < length (sm_context_bank s) \<and> c \<notin> ctx_taken s \<and> ctx_taken s' = insert c (ctx_taken s) \<and> smmu_wf s' \<and>
    sm_context_bank s' = sm_context_bank s \<and> bank_set_up s c (base_pa pt) (vm_id (m_vms m r)) s' \<and>
    (\<forall>j < length (sm_context_bank s). j \<noteq> c \<longrightarrow> (\<forall>off < 0x1000. bank_regs s' j off = bank_regs s j off))"
proof -
  obtain c bm where c: "alloc_ctxbnk s = Some (Some c, s\<lparr>sm_context_alloc_bitmap := Some bm\<rparr>)" "sm_context_s2_idx s \<le> c"
    "c < length (sm_context_bank s)" "c \<notin> ctx_taken s" "flex_wf bm" "flex_len bm = length (sm_context_bank s)" "flex_bits bm = insert c (ctx_taken s)"
    using alloc_ctxbnk_free[OF assms(1-4)] by blast
  let ?s1 = "s\<lparr>sm_context_alloc_bitmap := Some bm\<rparr>"
  have wf1: "smmu_wf ?s1" using assms(1) c(5,6) by (auto simp: smmu_wf_def)
  obtain s' rg where w: "write_ctxbnk c (base_pa pt) (vm_id (m_vms m r)) ?s1 = Some s'" "s' = ?s1\<lparr>sm_regs := rg\<rparr>"
    "bank_set_up ?s1 c (base_pa pt) (vm_id (m_vms m r)) s'"
    using write_ctxbnk_effect[OF wf1, of c "base_pa pt" "vm_id (m_vms m r)"] c(3,7) by (auto simp: ctx_taken_def)
  have up: "bank_set_up s c (base_pa pt) (vm_id (m_vms m r)) s'" using w(3) by (simp add: bank_set_up_def bank_regs_def)
  have same: "sm_context_bank s' = sm_context_bank s" using w(2) by simp
  have "smmu_wf s'" using wf1 w(2) by (simp add: smmu_wf_def)
  then show ?thesis using c w(1,2) assms(5) up bank_set_up_others[OF assms(1) c(3) up same]
    by (auto simp: smmu_vm_init_def iommu_ctx_id_def upd_vm_def ctx_taken_def)
qed

section \<open>A guest cannot reach the banks of other guests\<close>

lemma smmu_raw_write_below:
  assumes "smmu_raw_write a wide v s = Some s'" "a < b" "b mod 8 = 0" "b \<le> x"
  shows "sm_regs s' x = sm_regs s x"
proof (cases wide)
  case True
  then have "a mod 8 = 0" "s' = smmu_set64 a v s" using assms(1) by (auto simp: smmu_raw_write_def panic_simps)
  moreover have "a + 4 < b" using \<open>a mod 8 = 0\<close> assms(2,3) by presburger
  ultimately show ?thesis using assms(4) by simp
next
  case False
  then show ?thesis using assms by (auto simp: smmu_raw_write_def panic_simps)
qed

text \<open>The value that names the guest's own second-stage bank and identifier.\<close>

definition own_cbar :: "usize \<Rightarrow> usize \<Rightarrow> u32" where
  "own_cbar c vmid = ucast (push_bit 16 3 OR push_bit 8 (of_nat c AND 0xFF) OR (of_nat vmid AND 0xFF) :: u64)"

lemma revise_cbar_effect:
  assumes "emu_smmu_revise_cbar ec (m, s) = Some (m', s')" "sm_glb_rs1 s = Some b1"
  shows "\<exists>r c. active_vm m = Some r \<and> iommu_ctx_id m r = Some c \<and> (ec_address ec + SMMU_OFFSET - b1) div 4 < 128 \<and>
    s' = smmu_set (b1 + 4 * ((ec_address ec + SMMU_OFFSET - b1) div 4)) (own_cbar c (vm_id (m_vms m r))) s"
  using assms by (auto simp: emu_smmu_revise_cbar_def smmu_set_elem_def reg_elem_def own_cbar_def RS1_CBAR_def Let_def panic_simps)

text \<open>
  C38. No access of a guest reaches the context banks of the second stage.  Whatever address, width and
  value, the handler leaves every register from the first such bank on as it was; and a write to a \<open>CBAR\<close>
  register stores a value that names the guest's own second-stage bank and its own identifier.
\<close>

theorem emu_smmu_banks_kept:
  assumes "smmu_wf s" and "sm_glb_rs1 s = Some b1" and "emu_smmu_handler ec (m, s) = Some (ok, m', s')"
  shows "(\<forall>a \<ge> sm_context_bank s ! sm_context_s2_idx s. sm_regs s' a = sm_regs s a) \<and>
    (ec_write ec \<and> ec_address ec + SMMU_OFFSET \<in> {b1..<b1 + 4 * 128} \<longrightarrow>
      (\<exists>r c. active_vm m = Some r \<and> iommu_ctx_id m r = Some c \<and>
        s' = smmu_set (b1 + 4 * ((ec_address ec + SMMU_OFFSET - b1) div 4)) (own_cbar c (vm_id (m_vms m r))) s))"
proof -
  let ?first = "sm_context_bank s ! sm_context_s2_idx s"
  have wf: "b1 + 0x1000 \<le> ?first" "?first mod 8 = 0" "sm_context_s2_idx s < length (sm_context_bank s)"
    using assms(1,2) by (auto simp: smmu_wf_def)
  let ?addr = "ec_address ec + SMMU_OFFSET"
  show ?thesis
  proof (cases "?addr \<in> {b1..<b1 + 4 * 128} \<and> ec_write ec")
    case True
    then have "emu_smmu_revise_cbar ec (m, s) = Some (m', s')"
      using assms(2,3) by (auto simp: emu_smmu_handler_def RS1_CBAR_def panic_simps)
    from revise_cbar_effect[OF this assms(2)] show ?thesis using wf(1) by auto
  next
    case False
    then have "s' = s \<or> (?addr < ?first \<and> (\<exists>wide v. smmu_raw_write ?addr wide v s = Some s'))"
      using assms(2,3) wf(3) by (auto simp: emu_smmu_handler_def RS1_CBAR_def panic_simps split: if_splits)
    then show ?thesis using smmu_raw_write_below[OF _ _ wf(2)] False by auto
  qed
qed

section \<open>Streams of devices\<close>

text \<open>
  Which contexts the device sends a stream to: every valid stream match register whose identifier agrees
  outside its mask.
\<close>

definition smr_hit :: "SmmuV2 \<Rightarrow> usize \<Rightarrow> usize \<Rightarrow> bool" where
  "smr_hit s stream i \<longleftrightarrow> (\<exists>b0. sm_glb_rs0 s = Some b0 \<and> (let v = sm_regs s (b0 + RS0_SMR + 4 * i) in
     bit v 31 \<and> (v XOR of_nat stream) AND NOT (drop_bit 16 v) AND 0x7fff = 0))"

definition stream_contexts :: "SmmuV2 \<Rightarrow> usize \<Rightarrow> usize option list" where
  "stream_contexts s stream = map (smr_get_context s) (filter (smr_hit s stream) [0..<sm_smr_num s])"

definition smrs_unused :: "SmmuV2 \<Rightarrow> bool" where
  "smrs_unused s \<longleftrightarrow> (\<exists>b0 bm. sm_glb_rs0 s = Some b0 \<and> sm_smr_alloc_bitmap s = Some bm \<and> flex_wf bm \<and> flex_bits bm = {} \<and>
     flex_len bm = sm_smr_num s \<and> 0 < sm_smr_num s \<and> sm_smr_num s \<le> 128 \<and>
     (\<forall>i < sm_smr_num s. 0 < i \<longrightarrow> \<not> bit (sm_regs s (b0 + RS0_SMR + 4 * i)) 31))"

lemma compatible_none:
  assumes "smrs_unused s"
  shows "compatible_smr_exists msk ident c grp s = Some (False, s)"
proof -
  obtain bm where bm: "sm_smr_alloc_bitmap s = Some bm" "flex_wf bm" "flex_bits bm = {}" "flex_len bm = sm_smr_num s"
    using assms by (auto simp: smrs_unused_def)
  have "compatible_loop msk ident c grp xs s = Some (False, s)" if "set xs \<subseteq> {..<sm_smr_num s}" for xs
    using that by (induction xs) (auto simp: compatible_smr_def bm FlexBitmap_get_view)
  from this[of "[0..<sm_smr_num s]"] show ?thesis by (simp add: compatible_smr_exists_def atLeast0LessThan)
qed

lemma add_device_effect:
  assumes "smrs_unused s" "sm_glb_rs0 s = Some b0"
  shows "smmu_add_device c stream s = Some (True,
    smmu_set (b0 + RS0_S2CR) (ucast (ucast (sm_regs s (b0 + RS0_S2CR)) AND bit_mask 30 2 OR (of_nat c AND bit_mask 0 8)))
      (smmu_set (b0 + RS0_SMR) (0x80000000 OR (of_nat stream AND 0x7fff)) s))"
proof -
  obtain bm where bm: "sm_smr_alloc_bitmap s = Some bm" "flex_wf bm" "flex_bits bm = {}" "flex_len bm = sm_smr_num s"
    "0 < sm_smr_num s" "sm_smr_num s \<le> 128"
    using assms by (auto simp: smrs_unused_def)
  have get: "FlexBitmap_get bm 0 = Some 0" using FlexBitmap_get_view[OF bm(2), of 0] bm(3-5) by simp
  have "0 < FlexBitmap_vec_len bm" using flex_wf_word[OF bm(2), of 0] bm(4,5) by (simp add: FlexBitmap_vec_len_def)
  then have smr: "alloc_smr s = Some (Some 0)" using get bm(1) by (simp add: alloc_smr_def upt_rec)
  have v: "ucast (ucast ((ucast (of_nat stream AND bit_mask 0 15 :: u64) :: u16) AND 0x7fff) OR push_bit 31 1 :: u64) =
      (0x80000000 OR (of_nat stream AND 0x7fff) :: u32)"
    by (rule bit_eqI) (auto simp: bit_simps bit_mask_def numeral_eq_Suc Suc_less_eq2 elim!: less_SucE)
  show ?thesis
    using compatible_none[OF assms(1)] smr get bm(1) assms(2) v
    by (simp add: smmu_add_device_def write_smr_def write_s2c_def smmu_set_elem_def smmu_get_elem_def reg_elem_def RS0_SMR_def RS0_S2CR_def)
qed

lemma smr_value_hit:
  fixes v :: u32
  assumes "v = 0x80000000 OR (of_nat a AND 0x7fff)"
  shows "bit v 31 \<and> (v XOR of_nat b) AND NOT (drop_bit 16 v) AND 0x7fff = 0 \<longleftrightarrow> a mod 2 ^ 15 = b mod 2 ^ 15"
proof -
  have m15: "(0x7fff :: u32) = mask 15" by (simp add: mask_numeral)
  define p where "p = (push_bit 31 1 :: u32)"
  have p: "bit p n \<longleftrightarrow> n = 31" for n unfolding p_def bit_push_bit_iff by (auto simp: bit_1_iff)
  have e: "v = p OR take_bit 15 (of_nat a)" unfolding assms m15 take_bit_eq_mask p_def by simp
  have v31: "bit v 31" by (simp add: e p bit_simps)
  have low: "bit v n \<longleftrightarrow> bit a n" if "n < 15" for n using that by (simp add: e p bit_simps)
  have mid: "\<not> bit v (16 + n)" if "n < 15" for n using that by (simp add: e p bit_simps)
  have "(v XOR of_nat b) AND NOT (drop_bit 16 v) AND 0x7fff = 0 \<longleftrightarrow> (\<forall>n < 15. bit a n \<longleftrightarrow> bit b n)"
  proof
    assume z: "(v XOR of_nat b) AND NOT (drop_bit 16 v) AND 0x7fff = 0"
    show "\<forall>n < 15. bit a n \<longleftrightarrow> bit b n"
    proof (intro allI impI)
      fix n :: nat assume n: "n < 15"
      have "\<not> bit ((v XOR of_nat b) AND NOT (drop_bit 16 v) AND mask 15) n" using z[unfolded m15] by simp
      then show "bit a n \<longleftrightarrow> bit b n" using n low[OF n] mid[OF n] by (simp add: bit_simps)
    qed
  next
    assume "\<forall>n < 15. bit a n \<longleftrightarrow> bit b n"
    then have "(v XOR of_nat b) AND NOT (drop_bit 16 v) AND mask 15 = 0"
      using low by (intro bit_eqI) (auto simp: bit_simps)
    then show "(v XOR of_nat b) AND NOT (drop_bit 16 v) AND 0x7fff = 0" unfolding m15 .
  qed
  also have "\<dots> \<longleftrightarrow> take_bit 15 a = take_bit 15 b" by (auto simp: bit_eq_iff bit_simps)
  finally show ?thesis using v31 by (simp add: take_bit_eq_mod)
qed

lemma smr_context_value:
  "unat (drop_bit 0 (ucast (ucast (x AND bit_mask 30 2 OR (of_nat c AND bit_mask 0 8) :: u64) :: u32) :: u64) AND (push_bit 8 1 - 1)) = c mod 256"
proof -
  have "(ucast (ucast (x AND bit_mask 30 2 OR (of_nat c AND bit_mask 0 8) :: u64) :: u32) :: u64) AND (push_bit 8 1 - 1) = take_bit 8 (of_nat c)"
    by (rule bit_eqI) (auto simp: bit_simps bit_mask_def numeral_eq_Suc Suc_less_eq2 elim!: less_SucE)
  moreover have "unat (take_bit 8 (of_nat c :: u64)) = c mod 256"
    unfolding unsigned_take_bit_eq unat_of_nat by (simp add: take_bit_eq_mod mod_mod_cancel)
  ultimately show ?thesis by (simp only: drop_bit_0 id_apply)
qed

text \<open>After a device was added there is one stream in the match table: the new one.\<close>

lemma add_device_streams:
  assumes "smrs_unused s"
  shows "\<exists>s'. smmu_add_device c stream s = Some (True, s') \<and> smrs_unused s' \<and>
    (\<forall>x. stream_contexts s' x = (if x mod 2 ^ 15 = stream mod 2 ^ 15 then [Some (c mod 256)] else []))"
proof -
  obtain b0 bm where u: "sm_glb_rs0 s = Some b0" "0 < sm_smr_num s" "sm_smr_num s \<le> 128"
    "\<forall>i < sm_smr_num s. 0 < i \<longrightarrow> \<not> bit (sm_regs s (b0 + RS0_SMR + 4 * i)) 31"
    using assms by (auto simp: smrs_unused_def)
  define s' where "s' = smmu_set (b0 + RS0_S2CR) (ucast (ucast (sm_regs s (b0 + RS0_S2CR)) AND bit_mask 30 2 OR (of_nat c AND bit_mask 0 8) :: u64))
      (smmu_set (b0 + RS0_SMR) (0x80000000 OR (of_nat stream AND 0x7fff)) s)"
  have res: "smmu_add_device c stream s = Some (True, s')" using add_device_effect[OF assms u(1)] by (simp add: s'_def)
  have r0: "sm_regs s' (b0 + RS0_SMR) = 0x80000000 OR (of_nat stream AND 0x7fff)" by (simp add: s'_def RS0_SMR_def RS0_S2CR_def)
  have ri: "sm_regs s' (b0 + RS0_SMR + 4 * i) = sm_regs s (b0 + RS0_SMR + 4 * i)" if "0 < i" "i < sm_smr_num s" for i
    using that u(3) by (simp add: s'_def RS0_SMR_def RS0_S2CR_def)
  have unused: "smrs_unused s'" using assms u ri by (auto simp: smrs_unused_def s'_def)
  have hit0: "smr_hit s' x 0 \<longleftrightarrow> x mod 2 ^ 15 = stream mod 2 ^ 15" for x
    using smr_value_hit[OF r0, of x] u(1) by (auto simp: smr_hit_def s'_def Let_def)
  have "\<not> smr_hit s' x i" if "0 < i" "i < sm_smr_num s" for x i
    using that u ri by (auto simp: smr_hit_def s'_def Let_def)
  then have "filter (smr_hit s' x) [1..<sm_smr_num s] = []" for x by (simp add: filter_empty_conv)
  then have "filter (smr_hit s' x) [0..<sm_smr_num s] = (if smr_hit s' x 0 then [0] else [])" for x
    using u(2) by (simp add: upt_rec[of 0])
  moreover have "smr_get_context s' 0 = Some (c mod 256)"
    using u(1) smr_context_value[of "ucast (sm_regs s (b0 + RS0_S2CR))" c]
    by (simp add: smr_get_context_def smmu_get_elem_def reg_elem_def bit_extract_def s'_def)
  moreover have "sm_smr_num s' = sm_smr_num s" by (simp add: s'_def)
  ultimately show ?thesis using res unused hit0 by (intro exI[of _ s']) (simp add: stream_contexts_def)
qed

text \<open>
  C39. Two devices cannot be added.  \<open>alloc_smr\<close> finds a free stream match register but does not mark it
  taken, so the second device of a guest, or a device of another guest, is written over the first: after both
  calls have returned success the first stream matches nothing, and its device is cut off from memory.
\<close>

theorem smmu_second_device_replaces_first:
  assumes "smrs_unused s" and "x mod 2 ^ 15 \<noteq> y mod 2 ^ 15"
  shows "\<exists>s1 s2. smmu_add_device c x s = Some (True, s1) \<and> smmu_add_device d y s1 = Some (True, s2) \<and>
    stream_contexts s1 x = [Some (c mod 256)] \<and> stream_contexts s2 x = [] \<and> stream_contexts s2 y = [Some (d mod 256)]"
proof -
  obtain s1 where 1: "smmu_add_device c x s = Some (True, s1)" "smrs_unused s1" "stream_contexts s1 x = [Some (c mod 256)]"
    using add_device_streams[OF assms(1), of c x] by auto
  obtain s2 where "smmu_add_device d y s1 = Some (True, s2)"
    "\<forall>z. stream_contexts s2 z = (if z mod 2 ^ 15 = y mod 2 ^ 15 then [Some (d mod 256)] else [])"
    using add_device_streams[OF 1(2), of d y] by blast
  then show ?thesis using 1 assms(2) by (intro exI[of _ s1] exI[of _ s2]) simp
qed

subsection \<open>An example\<close>

definition smmu_example :: SmmuV2 where
  "smmu_example = \<lparr>sm_glb_rs0 = Some 0x812000000, sm_glb_rs1 = Some 0x812010000, sm_context_s2_idx = 56,
     sm_context_bank = map (\<lambda>i. 0x812800000 + 0x10000 * i) [0..<64],
     sm_context_alloc_bitmap = Some \<lparr>flex_len = 64, flex_map = [0]\<rparr>, sm_smr_num = 64,
     sm_smr_alloc_bitmap = Some \<lparr>flex_len = 64, flex_map = [0]\<rparr>, sm_group_alloc_bitmap = Some \<lparr>flex_len = 64, flex_map = [0]\<rparr>,
     sm_regs = (\<lambda>_. 0)\<rparr>"

lemma flex_example: "flex_wf \<lparr>flex_len = 64, flex_map = [0]\<rparr>" "flex_bits \<lparr>flex_len = 64, flex_map = [0]\<rparr> = {}"
  using FlexBitmap_new_view[of 64 "\<lparr>flex_len = 64, flex_map = [0]\<rparr>"] by (simp_all add: FlexBitmap_new_def)

lemma smmu_example_wf: "smmu_wf smmu_example" "smrs_unused smmu_example" "ctx_taken smmu_example = {}"
  using flex_example by (auto simp: smmu_wf_def smrs_unused_def ctx_taken_def smmu_example_def SMMU_OFFSET_def)

definition smmu_machine :: Machine where
  "smmu_machine = upd_vm 0 (\<lambda>x. x\<lparr>vm_pt := Some (PageTable_new \<lparr>pf_pa = 0x90000000, pf_page_num = 1\<rparr>)\<rparr>) machine_reset"

theorem smmu_vm_init_exclusive_witness:
  "\<exists>c m' s'. smmu_vm_init 0 (smmu_machine, smmu_example) = Some (True, m', s') \<and> iommu_ctx_id m' 0 = Some c \<and>
    c \<notin> ctx_taken smmu_example \<and> bank_set_up smmu_example c 0x90000000 0 s'"
proof -
  have "60 < length (sm_context_bank smmu_example)" "sm_context_s2_idx smmu_example \<le> 60" "60 \<notin> ctx_taken smmu_example"
    "vm_pt (m_vms smmu_machine 0) = Some (PageTable_new \<lparr>pf_pa = 0x90000000, pf_page_num = 1\<rparr>)"
    by (simp_all add: smmu_example_wf(3) smmu_machine_def upd_vm_def) (simp_all add: smmu_example_def)
  moreover have "vm_id (m_vms smmu_machine 0) = 0" by (simp add: smmu_machine_def upd_vm_def machine_reset_def VmInner_new_def)
  ultimately show ?thesis using smmu_vm_init_exclusive[OF smmu_example_wf(1), of 60 smmu_machine 0] by (auto simp: PageTable_new_def base_pa_def)
qed

definition smmu_access :: EmuContext where
  "smmu_access = \<lparr>ec_address = 0x12b80020, ec_width = 8, ec_write = True, ec_sign_ext = False, ec_reg = 0, ec_reg_width = 8\<rparr>"

theorem emu_smmu_banks_kept_witness:
  "\<exists>ok m' s'. emu_smmu_handler smmu_access (machine_reset, smmu_example) = Some (ok, m', s') \<and>
    (\<forall>a \<ge> sm_context_bank smmu_example ! 56. sm_regs s' a = sm_regs smmu_example a)"
proof -
  have "emu_smmu_handler smmu_access (machine_reset, smmu_example) = Some (True, machine_reset, smmu_example)"
    by (simp add: emu_smmu_handler_def smmu_access_def smmu_example_def SMMU_OFFSET_def RS1_CBAR_def get_gpr_def machine_reset_def
        CONTEXT_GPR_NUM_def)
  then show ?thesis using emu_smmu_banks_kept[OF smmu_example_wf(1), of "0x812010000" smmu_access machine_reset]
    by (auto simp: smmu_example_def)
qed

theorem smmu_second_device_replaces_first_witness:
  "\<exists>s1 s2. smmu_add_device 56 0x16 smmu_example = Some (True, s1) \<and> smmu_add_device 57 0x2 s1 = Some (True, s2) \<and>
    stream_contexts s1 0x16 = [Some 56] \<and> stream_contexts s2 0x16 = []"
  using smmu_second_device_replaces_first[OF smmu_example_wf(2), of "0x16" "0x2" 56 57] by auto

end
