(* ===== verification/Psci.thy ===== *)
theory Psci
  imports SchedProps
begin

text \<open>
  Starting and resetting virtual CPUs on request of a guest: \<open>src/src/arch/aarch64/psci.rs\<close>, without the
  dispatch of the calls (theory \<open>Vmm\<close>), and \<open>cpu_idle\<close> of \<open>src/src/kernel/cpu.rs\<close>.
\<close>

section \<open>Operations\<close>

definition PSCI_VERSION :: usize where "PSCI_VERSION = 0x84000000"
definition PSCI_MIG_INFO_TYPE :: usize where "PSCI_MIG_INFO_TYPE = 0x84000006"
definition PSCI_FEATURES :: usize where "PSCI_FEATURES = 0x8400000A"
definition PSCI_CPU_ON_AARCH64 :: usize where "PSCI_CPU_ON_AARCH64 = 0xc4000003"
definition PSCI_AFFINITY_INFO_AARCH64 :: usize where "PSCI_AFFINITY_INFO_AARCH64 = 0xc4000004"
definition PSCI_SYSTEM_OFF :: usize where "PSCI_SYSTEM_OFF = 0x84000008"
definition PSCI_SYSTEM_RESET :: usize where "PSCI_SYSTEM_RESET = 0x84000009"
definition PSCI_E_SUCCESS :: usize where "PSCI_E_SUCCESS = 0"
definition PSCI_E_NOT_SUPPORTED :: usize where "PSCI_E_NOT_SUPPORTED = usize_bound - 1"
definition TEGRA_SIP_GET_ACTMON_CLK_COUNTERS :: usize where "TEGRA_SIP_GET_ACTMON_CLK_COUNTERS = 0xC2FFFE02"
definition PSCI_TOS_NOT_PRESENT_MP :: usize where "PSCI_TOS_NOT_PRESENT_MP = 2"

definition power_arch_init :: "Machine \<Rightarrow> Machine option" where
  "power_arch_init m = (let (ok, hs) = ipi_register IpiTPower psci_ipi_handler_fn (m_ipi_handlers m) in
     if ok then Some (m\<lparr>m_ipi_handlers := hs\<rparr>) else None)"

definition power_arch_vm_shutdown_secondary_cores :: "VmRef \<Rightarrow> Machine \<Rightarrow> Machine option" where
  "power_arch_vm_shutdown_secondary_cores r m = do {
     let msg = \<lparr>pm_src = vm_id (m_vms m r), pm_event = PsciIpiCpuReset, pm_entry = 0, pm_context = 0\<rparr>;
     (_, m) \<leftarrow> ipi_intra_broadcast_msg r IpiTPower (Power msg) m;
     Some m }"

text \<open>\<open>cpu_idle\<close> does not return: this is the state in which the core waits for interrupts.\<close>

definition cpu_idle :: "Machine \<Rightarrow> Machine" where
  "cpu_idle = upd_cpu (\<lambda>c. c\<lparr>cpu_state := CpuIdle\<rparr>)"

definition clear_current_irq :: "Machine \<Rightarrow> Machine" where
  "clear_current_irq m = (let (irq, cc) = gicc_clear_current_irq True (cpu_current_irq (m_cpu m)) (gicc m) in
     upd_cpu (\<lambda>c. c\<lparr>cpu_current_irq := irq\<rparr>) (upd_hw (\<lambda>hw. hw\<lparr>hw_gicc := cc\<rparr>) m))"

definition gic_cpu_init :: "Machine \<Rightarrow> Machine option" where
  "gic_cpu_init m = do {
     m \<leftarrow> on_gicd gicd_cpu_init m;
     (cc, h) \<leftarrow> gicc_init (gicc m) (gich m);
     Some (upd_hw (\<lambda>hw. hw\<lparr>hw_gicc := cc, hw_gich := h\<rparr>) m) }"

definition power_arch_cpu_shutdown :: "Machine \<Rightarrow> Machine option" where
  "power_arch_cpu_shutdown m = do {
     m \<leftarrow> gic_cpu_init m;
     m \<leftarrow> timer_enable False (clear_current_irq m);
     Some (cpu_idle m) }"

definition psci_vcpu_on :: "VcpuRef \<Rightarrow> usize \<Rightarrow> usize \<Rightarrow> Machine \<Rightarrow> Machine option" where
  "psci_vcpu_on v entry ctx m = do {
     assert_that (vc_phys_id (m_vcpus m v) = this_cpu m);
     let m = upd_cpu (\<lambda>c. c\<lparr>cpu_state := CpuRun\<rparr>) m;
     m \<leftarrow> reset_context v m;
     m \<leftarrow> vcpu_set_gpr v 0 (of_nat ctx) m;
     let m = vcpu_set_elr v (of_nat entry) m;
     m \<leftarrow> sched_wakeup v m;
     do_schedule m }"

definition psci_ipi_handler :: "IpiMessage \<Rightarrow> Machine \<Rightarrow> Machine option" where
  "psci_ipi_handler msg m = (case ipi_message msg of
     Power pm \<Rightarrow> do {
       vo \<leftarrow> pop_vcpu_through_vmid m (pm_src pm);
       case vo of
         None \<Rightarrow> Some m
       | Some v \<Rightarrow> (case pm_event pm of
           PsciIpiCpuOn \<Rightarrow>
             if vc_state (m_vcpus m v) \<noteq> VcpuInv then Some m else psci_vcpu_on v (pm_entry pm) (pm_context pm) m
         | PsciIpiCpuOff \<Rightarrow> None
         | PsciIpiCpuReset \<Rightarrow> do {
             r \<leftarrow> active_vm m;
             w \<leftarrow> active_vcpu m;
             vcpu_arch_init r w m }) }
   | _ \<Rightarrow> None)"

definition psci_guest_cpu_on :: "usize \<Rightarrow> usize \<Rightarrow> usize \<Rightarrow> Machine \<Rightarrow> (usize \<times> Machine) option" where
  "psci_guest_cpu_on mpidr entry ctx m = do {
     let vcpu_id = mpidr AND 0xff;
     r \<leftarrow> active_vm m;
     p \<leftarrow> vcpuid_to_pcpuid m r vcpu_id;
     case p of
       Inl _ \<Rightarrow> Some (usize_bound - 2, m)
     | Inr physical_linear_id \<Rightarrow>
         if vcpu_id \<ge> vm_cpu_num (m_vms m r) then Some (usize_bound - 2, m)
         else if m_board m = Tx2 \<and> vm_id (m_vms m r) = 0 \<and> drop_bit 8 mpidr AND 0xff \<noteq> 1 then Some (usize_bound - 2, m)
         else do {
           let msg = \<lparr>pm_src = vm_id (m_vms m r), pm_event = PsciIpiCpuOn, pm_entry = entry, pm_context = ctx\<rparr>;
           (ok, m) \<leftarrow> ipi_send_msg physical_linear_id IpiTPower (Power msg) m;
           Some (if ok then 0 else usize_bound - 2, m) } }"

section \<open>A virtual CPU that is switched on runs\<close>

text \<open>A switch to the virtual CPU the core runs already, or from an idle core, saves nothing first.\<close>

lemma schedule_to_same:
  assumes "schedule_to v m = Some m'" "active_vcpu m = None \<or> active_vcpu m = Some v" "cpu_ctx (m_cpu m) = Some a"
  shows "m_frames m' a = vc_vcpu_ctx (m_vcpus m v)" "vc_vcpu_ctx (m_vcpus m' v) = vc_vcpu_ctx (m_vcpus m v)"
    "\<exists>i dir. vcpu_vm_id m v = Some i \<and> vm_pt_dir m v = Some dir \<and> hw_regs (m_hw m') VTTBR_EL2 = vttbr_of i dir"
proof -
  from assms(1) obtain m0 m1 m2 l i dir where
    m0: "(case active_vcpu m of
        Some p \<Rightarrow> if vcpu_vm_id m p \<noteq> vcpu_vm_id m v then context_vm_store p (set_state p VcpuPend m) else Some m
      | None \<Rightarrow> Some m) = Some m0"
    and m1: "context_regs_restore v (set_active_vcpu (Some v) m0) = Some m1"
    and m2: "vg_rest m2 = vg_rest (upd_vcpu v (\<lambda>x. x\<lparr>vc_int_list := l\<rparr>) m1)"
    and i: "vcpu_vm_id m2 v = Some i" "vm_pt_dir m2 v = Some dir" and m': "m' = set_sysreg VTTBR_EL2 (vttbr_of i dir) m2"
    by (rule schedule_to_parts)
  have "m0 = m" using m0 assms(2) by auto
  then have ac: "m_vcpus (set_active_vcpu (Some v) m0) v = (m_vcpus m v)\<lparr>vc_state := VcpuAct\<rparr>"
    "cpu_ctx (m_cpu (set_active_vcpu (Some v) m0)) = Some a" "m_vms (set_active_vcpu (Some v) m0) = m_vms m"
    using assms(3) by (simp_all add: set_active_vcpu_def upd_cpu_def set_state_def upd_vcpu_def)
  note k1 = context_regs_restore_eq(1-4)[OF m1, unfolded ac] and k2 = vg_rest_proj[OF m2]
  show "m_frames m' a = vc_vcpu_ctx (m_vcpus m v)"
    using k1(4)[OF refl] k2(7) ac by (simp add: m' set_sysreg_def upd_hw_def upd_vcpu_def)
  have v2: "m_vcpus m2 v = (m_vcpus m v)\<lparr>vc_state := VcpuAct, vc_int_list := l\<rparr>" "m_vms m2 = m_vms m"
    using k1(2,3) k2(2,3) ac by (simp_all add: upd_vcpu_def)
  show "vc_vcpu_ctx (m_vcpus m' v) = vc_vcpu_ctx (m_vcpus m v)" using v2(1) by (simp add: m' set_sysreg_def upd_hw_def)
  have "vcpu_vm_id m v = Some i" "vm_pt_dir m v = Some dir" using i v2 by (simp_all add: vcpu_vm_id_def vm_pt_dir_def)
  then show "\<exists>i dir. vcpu_vm_id m v = Some i \<and> vm_pt_dir m v = Some dir \<and> hw_regs (m_hw m') VTTBR_EL2 = vttbr_of i dir"
    by (simp add: m' set_sysreg_def upd_hw_def)
qed

lemma rr_next_single:
  assumes "rr_queue s = [v]" "vc_state (m_vcpus m v) \<noteq> VcpuInv"
  shows "rr_next m s = (Some v, s\<lparr>rr_active_idx := 0\<rparr>)"
  using assms by (simp add: rr_next_def)

text \<open>An idle core is given a virtual CPU: it runs it, and a further call of the scheduler changes nothing it sees.\<close>

lemma wakeup_idle:
  assumes sch: "scheduler m = Some s" "rr_queue s = []" and idle: "active_vcpu m = None" "cpu_ctx (m_cpu m) = Some a"
    and sw: "switchable m {v}"
  shows "\<exists>m1 m2. sched_wakeup v m = Some m1 \<and> do_schedule m1 = Some m2 \<and> active_vcpu m2 = Some v \<and>
    cpu_state (m_cpu m2) = cpu_state (m_cpu m) \<and> m_frames m2 a = vc_vcpu_ctx (m_vcpus m v) \<and> vc_state (m_vcpus m2 v) = VcpuAct \<and>
    (\<exists>i dir. vcpu_vm_id m v = Some i \<and> vm_pt_dir m v = Some dir \<and> hw_regs (m_hw m2) VTTBR_EL2 = vttbr_of i dir)"
proof -
  let ?sq = "s\<lparr>rr_queue := [v]\<rparr>" and ?sz = "s\<lparr>rr_queue := [v], rr_active_idx := 0\<rparr>"
  let ?m0 = "set_scheduler ?sq (set_state v VcpuPend m)"
  have m0: "active_vcpu ?m0 = None" "cpu_ctx (m_cpu ?m0) = Some a" "vc_vcpu_ctx (m_vcpus ?m0 v) = vc_vcpu_ctx (m_vcpus m v)"
    "vc_state (m_vcpus ?m0 v) = VcpuPend" "switchable ?m0 {v}" "vcpu_vm_id ?m0 v = vcpu_vm_id m v" "vm_pt_dir ?m0 v = vm_pt_dir m v"
    "cpu_state (m_cpu ?m0) = cpu_state (m_cpu m)"
    using idle sw by (simp_all add: set_scheduler_def upd_cpu_def set_state_def upd_vcpu_def switchable_def vcpu_ready_def vcpu_vm_id_def vm_pt_dir_def)
  have s0: "active_vcpu (set_scheduler ?sz ?m0) = None" "cpu_ctx (m_cpu (set_scheduler ?sz ?m0)) = Some a" "switchable (set_scheduler ?sz ?m0) {v}"
    using m0 by (simp_all add: set_scheduler_def upd_cpu_def switchable_def vcpu_ready_def)
  obtain m1 where m1: "schedule_to v (set_scheduler ?sz ?m0) = Some m1" "switchable m1 {v}"
    using schedule_to_total[OF s0(3), of v] s0(1) by auto
  have next0: "rr_next ?m0 ?sq = (Some v, ?sz)" using rr_next_single[of ?sq v ?m0] m0(4) by simp
  have "do_schedule ?m0 = Some m1" using next0 m1(1) by (simp add: do_schedule_def)
  then have wake: "sched_wakeup v m = Some m1" using sch by (simp add: sched_wakeup_def Let_def)
  note view1 = schedule_to_view[OF m1(1)] and same1 = schedule_to_same[OF m1(1) _ s0(2)]
  have k1: "scheduler m1 = Some ?sz" "active_vcpu m1 = Some v" "cpu_ctx (m_cpu m1) = Some a" "vc_state (m_vcpus m1 v) = VcpuAct"
    "cpu_state (m_cpu m1) = cpu_state (m_cpu m)"
    using view1 m0 s0 by (simp_all add: scheduler_def set_scheduler_def upd_cpu_def set_state_def upd_vcpu_def)
  have ctx1: "vc_vcpu_ctx (m_vcpus m1 v) = vc_vcpu_ctx (m_vcpus m v)" using same1(2) s0(1) m0(3) by simp
  have id1: "vcpu_vm_id m1 v = vcpu_vm_id m v" "vm_pt_dir m1 v = vm_pt_dir m v"
    using view1(2,3) m0(6,7) by (simp_all add: vcpu_vm_id_def vm_pt_dir_def set_scheduler_def upd_cpu_def)
  have s1: "active_vcpu (set_scheduler ?sz m1) = Some v" "cpu_ctx (m_cpu (set_scheduler ?sz m1)) = Some a" "switchable (set_scheduler ?sz m1) {v}"
    using k1 m1(2) by (simp_all add: set_scheduler_def upd_cpu_def switchable_def vcpu_ready_def)
  obtain m2 where m2: "schedule_to v (set_scheduler ?sz m1) = Some m2" using schedule_to_total[OF s1(3), of v] s1(1) by auto
  have "rr_next m1 ?sz = (Some v, ?sz)" using rr_next_single[of ?sz v m1] k1(4) by simp
  then have "do_schedule m1 = Some m2" using k1(1) m2 by (simp add: do_schedule_def)
  moreover note view2 = schedule_to_view[OF m2] and same2 = schedule_to_same[OF m2 _ s1(2)]
  have "active_vcpu m2 = Some v" "vc_state (m_vcpus m2 v) = VcpuAct" "cpu_state (m_cpu m2) = cpu_state (m_cpu m)"
    using view2(1,4) k1(5) by (simp_all add: set_scheduler_def upd_cpu_def)
  moreover have "m_frames m2 a = vc_vcpu_ctx (m_vcpus m v)" using same2(1) s1(1) ctx1 by simp
  moreover have "\<exists>i dir. vcpu_vm_id m v = Some i \<and> vm_pt_dir m v = Some dir \<and> hw_regs (m_hw m2) VTTBR_EL2 = vttbr_of i dir"
    using same2(3) s1(1) id1 by (simp add: vm_pt_dir_def)
  ultimately show ?thesis using wake by blast
qed

lemma gic_ctx_reset_total:
  assumes "gs_wf (gic_state (vm_ctx m v))"
  shows "\<exists>lrs. length lrs = 64 \<and> gic_ctx_reset v m =
    Some (upd_vm_ctx v (\<lambda>c. c\<lparr>gic_state := (gic_state c)\<lparr>gs_lr := lrs, gs_hcr := gs_hcr (gic_state c) OR push_bit 2 1\<rparr>\<rparr>) m)"
proof -
  have "gh_vtr (gich m) AND 0b11111 \<le> 31" using word_and_le1[of "gh_vtr (gich m)" "0b11111"] by simp
  then have "unat (gh_vtr (gich m) AND 0b11111) \<le> 31" by (simp add: word_le_nat_alt)
  then have n: "gich_lrs_num (gich m) \<le> 32"
    unfolding gich_lrs_num_def by (subst unat_add_lem[THEN iffD1]) simp_all
  have "\<exists>t. for_range 0 (gich_lrs_num (gich m)) (\<lambda>i xs. vec_set xs i 0) (gs_lr (gic_state (vm_ctx m v))) = Some t \<and> length t = 64"
    by (rule for_range_total[where I = "\<lambda>_ t. length t = 64"]) (use assms n in \<open>auto simp: gs_wf_def\<close>)
  then show ?thesis by (auto simp: gic_ctx_reset_def)
qed

lemma upd_vm_ctx_const:
  "upd_vm_ctx v f (upd_vm_ctx v g m) = upd_vm_ctx v (\<lambda>c. f (g c)) m"
  "vm_ctx (upd_vm_ctx v f m) v = f (vm_ctx m v)"
  "upd_vm_ctx v f m = upd_vm_ctx v (\<lambda>_. f (vm_ctx m v)) m"
  "vcpu_vm_id (upd_vm_ctx v f m) w = vcpu_vm_id m w"
  "vm_if_get_type (upd_vm_ctx v f m) n = vm_if_get_type m n"
  by (auto simp: upd_vm_ctx_def upd_vcpu_def vcpu_vm_id_def vm_if_get_type_def)

lemma reset_context_total:
  assumes "vcpu_ready m v" "vc_vm (m_vcpus m v) = Some r" "vm_id (m_vms m r) < length (m_vm_if_list m)"
  shows "\<exists>c. reset_context v m = Some (upd_vm_ctx v (\<lambda>_. c) m) \<and> gs_wf (gic_state c)"
proof -
  let ?f = "\<lambda>c. c\<lparr>cntvoff_el2 := 0, sctlr_el1 := 0x30C50830, cntkctl_el1 := 0, pmcr_el0 := 0, vtcr_el2 := 0x8001355c\<rparr>"
  have id: "vcpu_vm_id m v = Some (vm_id (m_vms m r))" using assms(2) by (simp add: vcpu_vm_id_def)
  have "\<exists>x. vmpidr_value m' v = Some x" if "vcpu_vm_id m' v \<noteq> None" for m'
    using that by (auto simp: vmpidr_value_def)
  from this[of "upd_vm_ctx v ?f m"] obtain x where x: "vmpidr_value (upd_vm_ctx v ?f m) v = Some x"
    unfolding upd_vm_ctx_const(4) id by blast
  let ?g = "\<lambda>c. (?f c)\<lparr>vmpidr_el2 := x\<rparr>"
  have arch: "arch_ctx_reset v m = Some (upd_vm_ctx v ?g m)" using x by (simp add: arch_ctx_reset_def upd_vm_ctx_const(1) Let_def)
  have wf: "gs_wf (gic_state (?g (vm_ctx m v)))" using assms(1) by (simp add: vcpu_ready_def)
  then have "gs_wf (gic_state (vm_ctx (upd_vm_ctx v ?g m) v))" by (simp only: upd_vm_ctx_const(2))
  from gic_ctx_reset_total[OF this] obtain lrs where lrs: "length lrs = 64" "gic_ctx_reset v (upd_vm_ctx v ?g m) =
      Some (upd_vm_ctx v (\<lambda>c. (?g c)\<lparr>gic_state := (gic_state (?g c))\<lparr>gs_lr := lrs, gs_hcr := gs_hcr (gic_state (?g c)) OR push_bit 2 1\<rparr>\<rparr>) m)"
    unfolding upd_vm_ctx_const(1) by blast
  let ?h = "\<lambda>c. (?g c)\<lparr>gic_state := (gic_state (?g c))\<lparr>gs_lr := lrs, gs_hcr := gs_hcr (gic_state (?g c)) OR push_bit 2 1\<rparr>\<rparr>"
  have wh: "gs_wf (gic_state (?h (vm_ctx m v)))" using wf lrs(1) by (simp add: gs_wf_def)
  obtain i where i: "vec_get (m_vm_if_list m) (vm_id (m_vms m r)) = Some i" using assms(3) by simp
  then have ty: "vm_if_get_type m (vm_id (m_vms m r)) = Some (if_vm_type i)" by (simp add: vm_if_get_type_def)
  show ?thesis
  proof (cases "if_vm_type i")
    case VmTOs
    then have "reset_context v m = Some (upd_vm_ctx v ?h m)"
      using arch lrs(2) id ty by (simp add: reset_context_def upd_vm_ctx_const(4,5))
    from this[unfolded upd_vm_ctx_const(3)[of v ?h m]] wh show ?thesis by blast
  next
    case VmTBma
    let ?k = "\<lambda>c. ext_regs_store (hw_regs (m_hw m)) (VmContext_reset (?h c))"
    have hw: "m_hw (upd_vm_ctx v f m) = m_hw m" for f by (simp add: upd_vm_ctx_def upd_vcpu_def)
    have "reset_context v m = Some (upd_vm_ctx v ?k m)"
      using arch lrs(2) id ty VmTBma
      by (simp add: reset_context_def upd_vm_ctx_const(1,4,5) context_ext_regs_store_def hw)
    note k = this[unfolded upd_vm_ctx_const(3)[of v ?k m]]
    have "gs_wf (gic_state (?k (vm_ctx m v)))" using wh by (simp add: ext_regs_store_def VmContext_reset_def)
    with k show ?thesis by blast
  qed
qed


lemma psci_vcpu_on_idle:
  assumes here: "vc_phys_id (m_vcpus m v) = this_cpu m"
    and idle: "scheduler m = Some s" "rr_queue s = []" "active_vcpu m = None" "cpu_ctx (m_cpu m) = Some a"
    and vcpu: "switchable m {v}" "vc_vm (m_vcpus m v) = Some r" "vm_id (m_vms m r) < length (m_vm_if_list m)"
      "length (cf_gpr (vc_vcpu_ctx (m_vcpus m v))) = 31"
  shows "\<exists>m' dir. psci_vcpu_on v entry ctx m = Some m' \<and> active_vcpu m' = Some v \<and> vc_state (m_vcpus m' v) = VcpuAct \<and>
    cpu_state (m_cpu m') = CpuRun \<and> m_frames m' a = (vc_vcpu_ctx (m_vcpus m v))
      \<lparr>cf_gpr := (cf_gpr (vc_vcpu_ctx (m_vcpus m v)))[0 := of_nat ctx], cf_elr := of_nat entry\<rparr> \<and>
    vm_pt_dir m v = Some dir \<and> hw_regs (m_hw m') VTTBR_EL2 = vttbr_of (vm_id (m_vms m r)) dir"
proof -
  let ?run = "upd_cpu (\<lambda>c. c\<lparr>cpu_state := CpuRun\<rparr>) m"
  have "vcpu_ready ?run v" "vc_vm (m_vcpus ?run v) = Some r" "vm_id (m_vms ?run r) < length (m_vm_if_list ?run)"
    using vcpu by (simp_all add: upd_cpu_def switchable_def vcpu_ready_def)
  from reset_context_total[OF this] obtain c where c: "reset_context v ?run = Some (upd_vm_ctx v (\<lambda>_. c) ?run)" "gs_wf (gic_state c)" by blast
  let ?f = "(vc_vcpu_ctx (m_vcpus m v))\<lparr>cf_gpr := (cf_gpr (vc_vcpu_ctx (m_vcpus m v)))[0 := of_nat ctx], cf_elr := of_nat entry\<rparr>"
  let ?w = "upd_vcpu v (\<lambda>x. x\<lparr>vc_vcpu_ctx := ?f\<rparr>) (upd_vm_ctx v (\<lambda>_. c) ?run)"
  have set: "(do { m \<leftarrow> vcpu_set_gpr v 0 (of_nat ctx) (upd_vm_ctx v (\<lambda>_. c) ?run); Some (vcpu_set_elr v (of_nat entry) m) }) = Some ?w"
    using vcpu(4) by (simp add: vcpu_set_gpr_def vcpu_set_elr_def frame_set_gpr_def set_exception_pc_def vec_set_def upd_vm_ctx_def upd_vcpu_def upd_cpu_def)
  have w: "scheduler ?w = Some s" "active_vcpu ?w = None" "cpu_ctx (m_cpu ?w) = Some a" "cpu_state (m_cpu ?w) = CpuRun"
    "vc_vcpu_ctx (m_vcpus ?w v) = ?f" "vcpu_vm_id ?w v = Some (vm_id (m_vms m r))" "vm_pt_dir ?w v = vm_pt_dir m v"
    using idle vcpu(2) by (simp_all add: upd_vm_ctx_def upd_vcpu_def upd_cpu_def scheduler_def vcpu_vm_id_def vm_pt_dir_def)
  have "switchable ?w {v}" using vcpu(1) c(2) by (simp add: switchable_def vcpu_ready_def upd_vm_ctx_def upd_vcpu_def upd_cpu_def)
  from wakeup_idle[OF w(1) idle(2) w(2,3) this] obtain m1 m2 i dir where r: "sched_wakeup v ?w = Some m1" "do_schedule m1 = Some m2"
    "active_vcpu m2 = Some v" "cpu_state (m_cpu m2) = CpuRun" "m_frames m2 a = ?f" "vc_state (m_vcpus m2 v) = VcpuAct"
    "Some (vm_id (m_vms m r)) = Some i" "vm_pt_dir m v = Some dir" "hw_regs (m_hw m2) VTTBR_EL2 = vttbr_of i dir"
    unfolding w(4-7) by blast
  have "psci_vcpu_on v entry ctx m = Some m2"
    using here c(1) set r(1,2) by (auto simp: psci_vcpu_on_def panic_simps Let_def)
  then show ?thesis using r by auto
qed


text \<open>
  C40. CPU_ON. A guest asks for the virtual CPU \<open>mpidr AND 0xff\<close>, which it has and which lives on an existing
  core: the call answers 0 and leaves exactly one message at the end of that core's queue. When that core is
  idle and handles the message, and its virtual CPU of this guest was never started, the virtual CPU runs:
  its frame is in place with the entry point as exception address and the context value in the first
  register, the core counts as running, and the stage-2 table in force is the guest's. A virtual CPU that
  was already started is left as it is.
\<close>

theorem psci_cpu_on_starts:
  fixes mpidr :: usize
  assumes caller: "active_vm g = Some q" "vec_get (vm_vcpu_list (m_vms g q)) (mpidr AND 0xff) = Some w"
      "mpidr AND 0xff < vm_cpu_num (m_vms g q)" "m_board g = Tx2 \<longrightarrow> vm_id (m_vms g q) = 0 \<longrightarrow> drop_bit 8 mpidr AND 0xff = 1"
      "vc_phys_id (m_vcpus g w) < plat_cpu_num" "length (m_cpu_if_list g) = PLATFORM_CPU_NUM_MAX"
    and target: "pop_vcpu_through_vmid m (vm_id (m_vms g q)) = Some (Some v)" "vc_phys_id (m_vcpus m v) = this_cpu m"
    and idle: "scheduler m = Some s" "rr_queue s = []" "active_vcpu m = None" "cpu_ctx (m_cpu m) = Some a"
    and vcpu: "switchable m {v}" "vc_vm (m_vcpus m v) = Some r" "vm_id (m_vms m r) < length (m_vm_if_list m)"
      "length (cf_gpr (vc_vcpu_ctx (m_vcpus m v))) = 31"
  shows "\<exists>g' msg. psci_guest_cpu_on mpidr entry ctx g = Some (0, g') \<and>
    m_cpu_if_list g' = (m_cpu_if_list g)[vc_phys_id (m_vcpus g w) := m_cpu_if_list g ! vc_phys_id (m_vcpus g w) @ [msg]] \<and>
    ipi_type msg = IpiTPower \<and>
    (if vc_state (m_vcpus m v) = VcpuInv then
       \<exists>m' dir. psci_ipi_handler msg m = Some m' \<and> active_vcpu m' = Some v \<and> vc_state (m_vcpus m' v) = VcpuAct \<and>
         cpu_state (m_cpu m') = CpuRun \<and> m_frames m' a = (vc_vcpu_ctx (m_vcpus m v))
           \<lparr>cf_gpr := (cf_gpr (vc_vcpu_ctx (m_vcpus m v)))[0 := of_nat ctx], cf_elr := of_nat entry\<rparr> \<and>
         vm_pt_dir m v = Some dir \<and> hw_regs (m_hw m') VTTBR_EL2 = vttbr_of (vm_id (m_vms m r)) dir
     else psci_ipi_handler msg m = Some m)"
proof -
  let ?pm = "\<lparr>pm_src = vm_id (m_vms g q), pm_event = PsciIpiCpuOn, pm_entry = entry, pm_context = ctx\<rparr>"
  let ?msg = "\<lparr>ipi_type = IpiTPower, ipi_message = Power ?pm\<rparr>"
  from ipi_send_msg_eq[OF caller(5,6), of IpiTPower "Power ?pm"] obtain hw where
    sent: "ipi_send_msg (vc_phys_id (m_vcpus g w)) IpiTPower (Power ?pm) g = Some (True, g\<lparr>m_cpu_if_list :=
      (m_cpu_if_list g)[vc_phys_id (m_vcpus g w) := m_cpu_if_list g ! vc_phys_id (m_vcpus g w) @ [?msg]], m_hw := hw\<rparr>)" by blast
  let ?g = "g\<lparr>m_cpu_if_list :=
      (m_cpu_if_list g)[vc_phys_id (m_vcpus g w) := m_cpu_if_list g ! vc_phys_id (m_vcpus g w) @ [?msg]], m_hw := hw\<rparr>"
  have "psci_guest_cpu_on mpidr entry ctx g = Some (0, ?g)"
    using caller sent by (auto simp: psci_guest_cpu_on_def vcpuid_to_pcpuid_def Let_def)
  moreover have "psci_ipi_handler ?msg m = (if vc_state (m_vcpus m v) = VcpuInv then psci_vcpu_on v entry ctx m else Some m)"
    using target(1) by (simp add: psci_ipi_handler_def Let_def)
  ultimately show ?thesis using psci_vcpu_on_idle[OF target(2) idle vcpu, of entry ctx]
    by (intro exI[of _ ?g] exI[of _ ?msg]) simp
qed

text \<open>A guest of two virtual CPUs that calls, and the idle core that holds the virtual CPU of its guest.\<close>

definition calling_guest :: Machine where
  "calling_guest = (two_guests (\<lambda>v. if v = 0 then VcpuAct else VcpuInv) (idle_core\<lparr>cpu_active_vcpu := Some 0\<rparr>))
     \<lparr>m_vms := (\<lambda>r. (VmInner_new Qemu 1)\<lparr>vm_vcpu_list := [0, 1], vm_cpu_num := 2\<rparr>)\<rparr>"

definition called_core :: Machine where
  "called_core = two_guests (\<lambda>_. VcpuInv)
     (idle_core\<lparr>cpu_vcpu_array := \<lparr>va_array = (replicate VM_NUM_MAX None)[1 := Some 0], va_len = 1\<rparr>, cpu_sched := SchedRR (SchedulerRR_new 1)\<rparr>)"

theorem psci_cpu_on_starts_witness:
  "\<exists>g' msg m'. psci_guest_cpu_on 1 0x40080000 7 calling_guest = Some (0, g') \<and> m_cpu_if_list g' ! 0 = [msg] \<and>
     psci_ipi_handler msg called_core = Some m' \<and> active_vcpu m' = Some 0 \<and> cf_elr (m_frames m' 0x2000) = 0x40080000"
proof -
  let ?c = "idle_core\<lparr>cpu_vcpu_array := \<lparr>va_array = (replicate VM_NUM_MAX None)[1 := Some 0], va_len = 1\<rparr>, cpu_sched := SchedRR (SchedulerRR_new 1)\<rparr>"
  note c = called_core_def two_guests_def idle_core_def machine_reset_def
  have g: "active_vm calling_guest = Some 0" "m_vms calling_guest 0 = (VmInner_new Qemu 1)\<lparr>vm_vcpu_list := [0, 1], vm_cpu_num := 2\<rparr>"
    "vc_phys_id (m_vcpus calling_guest 1) = 0" "m_board calling_guest = Qemu" "m_cpu_if_list calling_guest = replicate PLATFORM_CPU_NUM_MAX []"
    by (simp_all add: calling_guest_def two_guests_def active_vm_def machine_reset_def VcpuInner_default_def)
  have id: "(1 :: nat) AND 255 = 1" by simp
  have i: "vm_id (m_vms calling_guest 0) = 1" using g(2) by (simp add: VmInner_new_def)
  have t: "pop_vcpu_through_vmid called_core 1 = Some (Some 0)" "vc_phys_id (m_vcpus called_core 0) = this_cpu called_core"
    by (simp_all add: c pop_vcpu_through_vmid_def VM_NUM_MAX_def VcpuInner_default_def)
  have s: "scheduler called_core = Some (SchedulerRR_new 1)" "active_vcpu called_core = None" "cpu_ctx (m_cpu called_core) = Some 0x2000"
    by (simp_all add: c scheduler_def)
  have v: "switchable called_core {0}" "vc_vm (m_vcpus called_core 0) = Some 0" "vm_id (m_vms called_core 0) < length (m_vm_if_list called_core)"
    "length (cf_gpr (vc_vcpu_ctx (m_vcpus called_core 0))) = 31" "vc_state (m_vcpus called_core 0) = VcpuInv"
    using two_guests_switchable[of "\<lambda>_. VcpuInv" ?c "{0}"]
    by (simp add: called_core_def, simp_all add: c VcpuInner_default_def VmInner_new_def VM_NUM_MAX_def frame_default_def)
  have n: "0 < PLATFORM_CPU_NUM_MAX" by (simp add: PLATFORM_CPU_NUM_MAX_def)
  from psci_cpu_on_starts[where mpidr = 1 and g = calling_guest and q = 0 and w = 1 and m = called_core and v = 0 and
      s = "SchedulerRR_new 1" and a = 8192 and r = 0 and entry = 1074266112 and ctx = 7] g id i t s v n
  show ?thesis by (auto simp: plat_cpu_num_def SchedulerRR_new_def)
qed

end
