(* ===== verification/VgicMigrate.thy ===== *)
theory VgicMigrate
  imports VirtioDev Emu
begin

text \<open>
  The state of a guest's virtual interrupt controller when the guest moves to another machine:
  \<open>save_vgic_data\<close> and \<open>restore_vgic_data\<close> of \<open>src/src/arch/aarch64/vgic.rs\<close>, with the data of
  \<open>src/src/kernel/migrate.rs\<close>.
\<close>

section \<open>Data\<close>

record VgicIntData =
  id_owner :: "usize option"
  id_id :: u16
  id_hw :: bool
  id_in_lr :: bool
  id_lr :: u16
  id_enabled :: bool
  id_state :: IrqState
  id_prio :: u8
  id_targets :: u8
  id_cfg :: u8
  id_in_pend :: bool
  id_in_act :: bool

definition VgicIntData_default :: VgicIntData where
  "VgicIntData_default = \<lparr>id_owner = None, id_id = 0, id_hw = False, id_in_lr = False, id_lr = 0, id_enabled = False,
     id_state = IrqSInactive, id_prio = 0, id_targets = 0, id_cfg = 0, id_in_pend = False, id_in_act = False\<rparr>"

record VgicCpuPrivData =
  pd_curr_lrs :: "u16 list"
  pd_sgis :: "Sgis list"
  pd_interrupts :: "VgicIntData list"
  pd_pend_num :: usize
  pd_pend_list :: "usize list"
  pd_act_num :: usize
  pd_act_list :: "usize list"

definition VgicCpuPrivData_default :: VgicCpuPrivData where
  "VgicCpuPrivData_default = \<lparr>pd_curr_lrs = replicate GIC_LIST_REGS_NUM 0, pd_sgis = replicate GIC_SGIS_NUM \<lparr>sg_pend = 0, sg_act = 0\<rparr>,
     pd_interrupts = replicate GIC_PRIVINT_NUM VgicIntData_default, pd_pend_num = 0, pd_pend_list = replicate 16 0,
     pd_act_num = 0, pd_act_list = replicate 16 0\<rparr>"

record VgicMigData =
  md_ctlr :: u32
  md_typer :: u32
  md_iidr :: u32
  md_interrupts :: "VgicIntData list"
  md_cpu_priv_num :: usize
  md_cpu_priv :: "VgicCpuPrivData list"


definition VgicMigData_default :: VgicMigData where
  "VgicMigData_default = \<lparr>md_ctlr = 0, md_typer = 0, md_iidr = 0, md_interrupts = replicate GIC_SPI_MAX VgicIntData_default,
     md_cpu_priv_num = 0, md_cpu_priv = replicate 4 VgicCpuPrivData_default\<rparr>"

text \<open>The page through which the manager guest carries the state of a guest to the other machine.\<close>

datatype EmuDevData = DataVirtioBlk VirtioMmioData | DataVirtioNet VirtioMmioData | DataVirtioConsole VirtioMmioData | DataNone

record VMData =
  vmc_vm_ctx :: "VmContext list"
  vmc_vcpu_ctx :: "Aarch64ContextFrame list"
  vmc_gic_ctx :: "GicContext list"
  vmc_vgic_ctx :: VgicMigData
  vmc_emu_devs :: "EmuDevData list"

text \<open>A fresh page holds zeros.\<close>

definition VMData_default :: VMData where
  "VMData_default = \<lparr>vmc_vm_ctx = replicate PLATFORM_VCPU_NUM_MAX VmContext_default,
     vmc_vcpu_ctx = replicate PLATFORM_VCPU_NUM_MAX frame_default, vmc_gic_ctx = replicate PLATFORM_VCPU_NUM_MAX GicContext_default,
     vmc_vgic_ctx = VgicMigData_default, vmc_emu_devs = replicate EMU_DEV_NUM_MAX DataNone\<rparr>"

section \<open>One interrupt\<close>

text \<open>A target that the map does not know is a panic; so is a shift of an \<open>i32\<close> by 32 or more.\<close>

definition map_targets :: "(usize \<rightharpoonup> usize) \<Rightarrow> u8 \<Rightarrow> u8 option" where
  "map_targets f t = for_range 0 PLATFORM_CPU_NUM_MAX (\<lambda>i acc.
     if bit t i then do { j \<leftarrow> f i; assert_that (j < 32); Some (acc OR push_bit j 1) } else Some acc) 0"

definition int_save :: "Machine \<Rightarrow> (usize \<rightharpoonup> usize) \<Rightarrow> IntRef \<Rightarrow> VgicIntData \<Rightarrow> VgicIntData option" where
  "int_save m cpuid_map i d = do {
     let x = m_ints m i;
     t \<leftarrow> map_targets cpuid_map (vi_targets x);
     Some (d\<lparr>id_owner := map_option (\<lambda>v. vc_id (m_vcpus m v)) (vi_owner x), id_id := vi_id x, id_hw := vi_hw x,
       id_in_lr := vi_in_lr x, id_lr := vi_lr x, id_enabled := vi_enabled x, id_state := vi_state x, id_prio := vi_prio x,
       id_targets := t, id_cfg := vi_cfg x, id_in_pend := vi_in_pend x, id_in_act := vi_in_act x\<rparr>) }"

text \<open>The list register is not restored.\<close>

definition int_restore :: "VgicIntData \<Rightarrow> VcpuRef list \<Rightarrow> (usize \<rightharpoonup> usize) \<Rightarrow> IntRef \<Rightarrow> Machine \<Rightarrow> Machine option" where
  "int_restore d vcpus vcpuid_map i m = do {
     owner \<leftarrow> (case id_owner d of None \<Rightarrow> Some None | Some k \<Rightarrow> do { v \<leftarrow> vec_get vcpus k; Some (Some v) });
     t \<leftarrow> map_targets vcpuid_map (id_targets d);
     Some (upd_int i (\<lambda>x. x\<lparr>vi_owner := owner, vi_id := id_id d, vi_hw := id_hw d, vi_in_lr := id_in_lr d,
       vi_enabled := id_enabled d, vi_state := id_state d, vi_prio := id_prio d, vi_targets := t, vi_cfg := id_cfg d,
       vi_in_pend := id_in_pend d, vi_in_act := id_in_act d\<rparr>) m) }"

section \<open>Lists of interrupts\<close>

definition ints_save :: "Machine \<Rightarrow> (usize \<rightharpoonup> usize) \<Rightarrow> IntRef list \<Rightarrow> VgicIntData list \<Rightarrow> VgicIntData list option" where
  "ints_save m cpuid_map is ds = fold_opt (\<lambda>(idx, i) ds. do {
     d \<leftarrow> vec_get ds idx; d \<leftarrow> int_save m cpuid_map i d; vec_set ds idx d }) (enumerate 0 is) ds"

definition ints_restore :: "VgicIntData list \<Rightarrow> VcpuRef list \<Rightarrow> (usize \<rightharpoonup> usize) \<Rightarrow> IntRef list \<Rightarrow> Machine \<Rightarrow> Machine option" where
  "ints_restore ds vcpus vcpuid_map is m = fold_opt (\<lambda>(idx, i) m. do {
     d \<leftarrow> vec_get ds idx; int_restore d vcpus vcpuid_map i m }) (enumerate 0 is) m"

definition ids_save :: "Machine \<Rightarrow> IntRef list \<Rightarrow> usize list \<Rightarrow> usize list option" where
  "ids_save m is xs = fold_opt (\<lambda>(idx, i) xs. vec_set xs idx (unat (vi_id (m_ints m i)))) (enumerate 0 is) xs"

section \<open>One core\<close>

text \<open>The length of the pending list goes into \<open>act_num\<close>; \<open>pend_num\<close> stays what it was.\<close>

definition cpu_priv_save :: "Machine \<Rightarrow> (usize \<rightharpoonup> usize) \<Rightarrow> VgicCpuPriv \<Rightarrow> VgicCpuPrivData \<Rightarrow> VgicCpuPrivData option" where
  "cpu_priv_save m cpuid_map p d = do {
     let d = d\<lparr>pd_sgis := cp_sgis p, pd_curr_lrs := cp_curr_lrs p\<rparr>;
     ints \<leftarrow> ints_save m cpuid_map (cp_interrupts p) (pd_interrupts d);
     let d = d\<lparr>pd_interrupts := ints, pd_act_num := length (cp_act_list p)\<rparr>;
     acts \<leftarrow> ids_save m (cp_act_list p) (pd_act_list d);
     let d = d\<lparr>pd_act_list := acts, pd_act_num := length (cp_pend_list p)\<rparr>;
     pends \<leftarrow> ids_save m (cp_pend_list p) (pd_pend_list d);
     Some (d\<lparr>pd_pend_list := pends\<rparr>) }"

definition cpu_priv_restore :: "VgicCpuPrivData \<Rightarrow> VcpuRef list \<Rightarrow> (usize \<rightharpoonup> usize) \<Rightarrow> VgicRef \<Rightarrow> usize \<Rightarrow> Machine \<Rightarrow> Machine option" where
  "cpu_priv_restore d vcpus vcpuid_map g idx m = do {
     m \<leftarrow> upd_cpu_priv g idx (\<lambda>p. p\<lparr>cp_sgis := pd_sgis d, cp_curr_lrs := pd_curr_lrs d\<rparr>) m;
     p \<leftarrow> cpu_priv m g idx;
     m \<leftarrow> ints_restore (pd_interrupts d) vcpus vcpuid_map (cp_interrupts p) m;
     assert_that (length (cp_interrupts p) = length (pd_interrupts d));
     Some m }"

text \<open>The interrupt an identifier of a list stands for on the target.\<close>

definition listed_int :: "VgicCpuPriv \<Rightarrow> Vgicd \<Rightarrow> usize \<Rightarrow> IntRef option" where
  "listed_int p d n = (if n \<ge> GIC_SPI_MAX then vec_get (cp_interrupts p) (n - GIC_SPI_MAX) else vec_get (vd_interrupts d) n)"

definition list_restore :: "usize \<Rightarrow> usize list \<Rightarrow> (IntRef \<Rightarrow> VgicCpuPriv \<Rightarrow> VgicCpuPriv) \<Rightarrow> VgicRef \<Rightarrow> usize \<Rightarrow> Machine \<Rightarrow> Machine option" where
  "list_restore num ids push g idx = for_range 0 num (\<lambda>k m. do {
     n \<leftarrow> vec_get ids k;
     p \<leftarrow> cpu_priv m g idx;
     i \<leftarrow> listed_int p (vg_vgicd (m_vgics m g)) n;
     upd_cpu_priv g idx (push i) m })"

section \<open>The controller\<close>

definition save_vgic_data :: "Machine \<Rightarrow> VgicRef \<Rightarrow> (usize \<rightharpoonup> usize) \<Rightarrow> VgicMigData \<Rightarrow> VgicMigData option" where
  "save_vgic_data m g cpuid_map d = do {
     let v = m_vgics m g;
     ints \<leftarrow> ints_save m cpuid_map (vd_interrupts (vg_vgicd v)) (md_interrupts d);
     let d = d\<lparr>md_iidr := vd_iidr (vg_vgicd v), md_typer := vd_typer (vg_vgicd v), md_ctlr := vd_ctlr (vg_vgicd v),
       md_interrupts := ints, md_cpu_priv_num := length (vg_cpu_priv v)\<rparr>;
     ps \<leftarrow> fold_opt (\<lambda>(idx, p) ps. do {
             x \<leftarrow> vec_get ps idx; x \<leftarrow> cpu_priv_save m cpuid_map p x; vec_set ps idx x })
       (enumerate 0 (vg_cpu_priv v)) (md_cpu_priv d);
     Some (d\<lparr>md_cpu_priv := ps\<rparr>) }"

definition restore_vgic_data :: "VgicMigData \<Rightarrow> VcpuRef list \<Rightarrow> (usize \<rightharpoonup> usize) \<Rightarrow> VgicRef \<Rightarrow> Machine \<Rightarrow> Machine option" where
  "restore_vgic_data d vcpus vcpuid_map g m = do {
     let m = upd_vgic g (\<lambda>v. v\<lparr>vg_vgicd := (vg_vgicd v)\<lparr>vd_ctlr := md_ctlr d, vd_typer := md_typer d, vd_iidr := md_iidr d\<rparr>\<rparr>) m;
     m \<leftarrow> ints_restore (md_interrupts d) vcpus vcpuid_map (vd_interrupts (vg_vgicd (m_vgics m g))) m;
     for_range 0 (md_cpu_priv_num d) (\<lambda>idx m. do {
       x \<leftarrow> vec_get (md_cpu_priv d) idx;
       m \<leftarrow> cpu_priv_restore x vcpus vcpuid_map g idx m;
       p \<leftarrow> cpu_priv m g idx;
       assert_that (cp_act_list p = []);
       assert_that (cp_pend_list p = []);
       m \<leftarrow> list_restore (pd_act_num x) (pd_act_list x) (\<lambda>i p. p\<lparr>cp_act_list := cp_act_list p @ [i]\<rparr>) g idx m;
       list_restore (pd_pend_num x) (pd_pend_list x) (\<lambda>i p. p\<lparr>cp_pend_list := cp_pend_list p @ [i]\<rparr>) g idx m }) m }"

end
