(* ===== verification/GuestInit.thy ===== *)
theory GuestInit
  imports VmRegion Stage2 BlkDev Smmu VgicMigrate Barrier
begin

text \<open>
  Giving a guest its memory: \<open>vmm_init_memory\<close> of \<open>src/src/vmm/init.rs\<close> with the page table operations of
  \<open>Vm\<close> in \<open>src/src/kernel/vm.rs\<close>.  \<open>Hyp\<close> is the whole hypervisor: the devices and guests (\<open>Sys\<close>), the
  list of guest memory regions (\<open>VM_REGION\<close>), the system MMU, the memory shared between guests
  (\<open>SHARED_MEM\<close>), the file systems of the library guests (\<open>UNILIB_FS_LIST\<close>), the pages in which the
  state of a migrating guest is carried, by their address, and the barrier \<open>CPU_FUNC_SYNC\<close>.
\<close>

section \<open>Operations\<close>

record Hyp =
  h_s :: Sys
  h_region :: VmRegion
  h_smmu :: SmmuV2
  h_shared :: "PageFrame option"
  h_unilib :: "(usize \<times> usize) list"
  h_vmdata :: "usize \<Rightarrow> VMData"
  h_barrier :: CpuSyncToken

definition on_s :: "(Sys \<Rightarrow> Sys option) \<Rightarrow> Hyp \<Rightarrow> Hyp option" where
  "on_s f h = do { s \<leftarrow> f (h_s h); Some (h\<lparr>h_s := s\<rparr>) }"

text \<open>A page table that is overwritten is dropped: its directory, then its frames.\<close>

definition PageTable_drop :: "PageTable \<Rightarrow> phys \<Rightarrow> phys option" where
  "PageTable_drop pt p = do { p \<leftarrow> PageFrame_drop (pt_directory pt) p; fold_opt PageFrame_drop (pt_pages pt) p }"

definition vm_set_pt :: "VmRef \<Rightarrow> PageFrame \<Rightarrow> Sys \<Rightarrow> Sys option" where
  "vm_set_pt r f s = do {
     p \<leftarrow> (case vm_pt (m_vms (s_m s) r) of None \<Rightarrow> Some (s_phys s) | Some old \<Rightarrow> PageTable_drop old (s_phys s));
     Some (s\<lparr>s_m := upd_vm r (\<lambda>x. x\<lparr>vm_pt := Some (PageTable_new f)\<rparr>) (s_m s), s_phys := p\<rparr>) }"

definition vm_pt_map_range :: "VmRef \<Rightarrow> usize \<Rightarrow> usize \<Rightarrow> usize \<Rightarrow> u64 \<Rightarrow> bool \<Rightarrow> Sys \<Rightarrow> Sys option" where
  "vm_pt_map_range r ipa len pa pte map_block s = do {
     pt \<leftarrow> vm_pt (m_vms (s_m s) r);
     (pt, p) \<leftarrow> pt_map_range mem_page_alloc pt (s_phys s) ipa len pa pte map_block;
     Some (s\<lparr>s_m := upd_vm r (\<lambda>x. x\<lparr>vm_pt := Some pt\<rparr>) (s_m s), s_phys := p\<rparr>) }"

definition vm_pt_unmap_range :: "VmRef \<Rightarrow> usize \<Rightarrow> usize \<Rightarrow> bool \<Rightarrow> Sys \<Rightarrow> Sys option" where
  "vm_pt_unmap_range r ipa len map_block s = do {
     pt \<leftarrow> vm_pt (m_vms (s_m s) r);
     (pt, p) \<leftarrow> pt_unmap_range PageFrame_drop pt (s_phys s) ipa len map_block;
     Some (s\<lparr>s_m := upd_vm r (\<lambda>x. x\<lparr>vm_pt := Some pt\<rparr>) (s_m s), s_phys := p\<rparr>) }"

definition add_region :: "VmRef \<Rightarrow> VmPa \<Rightarrow> Machine \<Rightarrow> Machine" where
  "add_region r v = upd_vm r (\<lambda>x. x\<lparr>vm_pa_region := vm_pa_region x @ [v]\<rparr>)"

definition set_mem_region_num :: "VmRef \<Rightarrow> usize \<Rightarrow> Machine \<Rightarrow> Machine" where
  "set_mem_region_num r n = upd_vm r (\<lambda>x. x\<lparr>vm_mem_region_num := n\<rparr>)"

text \<open>The loop over the regions; no size comes back when the allocator has no region left.\<close>

fun init_regions :: "VmRef \<Rightarrow> VmRegionCfg list \<Rightarrow> usize \<Rightarrow> Hyp \<Rightarrow> (usize option \<times> Hyp) option" where
  "init_regions r [] vm_mem_size h = Some (Some vm_mem_size, h)"
| "init_regions r (vm_region # rest) vm_mem_size h = do {
     (pa, regs) \<leftarrow> mem_vm_region_alloc (h_region h) (rg_length vm_region);
     let h = h\<lparr>h_region := regs\<rparr>;
     vm_mem_size \<leftarrow> uadd vm_mem_size (rg_length vm_region);
     if pa = 0 then Some (None, h)
     else do {
       h \<leftarrow> on_s (vm_pt_map_range r (rg_ipa_start vm_region) (rg_length vm_region) pa PTE_S2_NORMAL
                   (vm_id (m_vms (s_m (h_s h)) r) = 0)) h;
       offset \<leftarrow> isub (as_isize (rg_ipa_start vm_region)) (as_isize pa);
       h \<leftarrow> on_s (on_m (\<lambda>m. Some (add_region r \<lparr>pa_start = pa, pa_length = rg_length vm_region, pa_offset = offset\<rparr> m))) h;
       init_regions r rest vm_mem_size h } }"

definition vmm_init_memory :: "VmRef \<Rightarrow> Hyp \<Rightarrow> (bool \<times> Hyp) option" where
  "vmm_init_memory r h = do {
     (result, p) \<leftarrow> mem_page_alloc (s_phys (h_s h));
     let s = (h_s h)\<lparr>s_phys := p\<rparr>;
     let ident = vm_id (m_vms (s_m s) r);
     e \<leftarrow> vm_config (m_vms (s_m s) r);
     let regions = memory_region (m_config (s_m s)) e;
     case result of
       Inl _ \<Rightarrow> Some (False, h\<lparr>h_s := s\<rparr>)
     | Inr pt_dir_frame \<Rightarrow> do {
         s \<leftarrow> vm_set_pt r pt_dir_frame s;
         s \<leftarrow> on_m (\<lambda>m. Some (set_mem_region_num r (length regions) m)) s;
         (total, h) \<leftarrow> init_regions r regions 0 (h\<lparr>h_s := s\<rparr>);
         case total of
           None \<Rightarrow> Some (False, h)
         | Some vm_mem_size \<Rightarrow> do {
             n \<leftarrow> uadd vm_mem_size PAGE_SIZE;
             h \<leftarrow> on_s (on_m (vm_if_init_mem_map ident ((n - 1) div PAGE_SIZE))) h;
             Some (True, h) } } }"

section \<open>A guest's memory\<close>

text \<open>
  A usable configuration: every region is a positive number of pages at a page address other than 0
  below \<open>2 ^ 39\<close>, and between any two there is a gap.  The gap is needed because the hypervisor's own
  translation takes the first address after a region for a part of it.
\<close>

definition region_cfg_ok :: "VmRegionCfg \<Rightarrow> bool" where
  "region_cfg_ok c \<longleftrightarrow> 0 < rg_length c \<and> rg_length c mod PAGE_SIZE = 0 \<and> 0 < rg_ipa_start c \<and>
     rg_ipa_start c mod PAGE_SIZE = 0 \<and> rg_ipa_start c + rg_length c < 2 ^ 39"

definition cfg_apart :: "VmRegionCfg \<Rightarrow> VmRegionCfg \<Rightarrow> bool" where
  "cfg_apart c d \<longleftrightarrow> rg_ipa_start c + rg_length c < rg_ipa_start d \<or> rg_ipa_start d + rg_length d < rg_ipa_start c"

definition memory_cfg_ok :: "VmRegionCfg list \<Rightarrow> bool" where
  "memory_cfg_ok cs \<longleftrightarrow> (\<forall>c \<in> set cs. region_cfg_ok c) \<and> sorted_wrt cfg_apart cs"

definition cfg_pages :: "VmRegionCfg list \<Rightarrow> nat" where
  "cfg_pages cs = sum_list (map (\<lambda>c. rg_length c div PAGE_SIZE) cs)"

text \<open>The page frames that the tables of the regions need: one for every 2 MB and every 1 GB a region touches.\<close>

definition region_tables :: "VmRegionCfg \<Rightarrow> nat" where
  "region_tables c = range_tables (rg_ipa_start c) (rg_length c div PAGE_SIZE)"

definition cfg_tables :: "VmRegionCfg list \<Rightarrow> nat" where
  "cfg_tables cs = sum_list (map region_tables cs)"

text \<open>The regions with the physical addresses they were given.\<close>

definition placed :: "VmRegionCfg \<times> usize \<Rightarrow> VmPa" where
  "placed = (\<lambda>(c, pa). \<lparr>pa_start = pa, pa_length = rg_length c, pa_offset = int (rg_ipa_start c) - int pa\<rparr>)"

definition host_span :: "VmRegionCfg \<times> usize \<Rightarrow> nat set" where
  "host_span = (\<lambda>(c, pa). {pa..<pa + rg_length c})"

definition hits :: "usize \<Rightarrow> VmRegionCfg \<times> usize \<Rightarrow> bool" where
  "hits a = (\<lambda>(c, pa). rg_ipa_start c \<le> a \<and> a < rg_ipa_start c + rg_length c)"

definition host_addr :: "usize \<Rightarrow> VmRegionCfg \<times> usize \<Rightarrow> usize" where
  "host_addr a = (\<lambda>(c, pa). pa + (a - rg_ipa_start c))"

definition page_of :: "usize \<Rightarrow> usize" where
  "page_of a = a div PAGE_SIZE * PAGE_SIZE"

definition normal_pte :: "usize \<Rightarrow> u64" where
  "normal_pte pa = from_pa pa OR PTE_TABLE OR PTE_S2_NORMAL"

definition regions_view :: "(VmRegionCfg \<times> usize) list \<Rightarrow> (usize \<Rightarrow> u64 option) \<Rightarrow> usize \<Rightarrow> u64 option" where
  "regions_view ps old a = (case find (hits a) ps of Some p \<Rightarrow> Some (normal_pte (host_addr (page_of a) p)) | None \<Rightarrow> old a)"


section \<open>Mapping one region\<close>

text \<open>The state of the hypervisor after the table, the memory and the regions of guest \<open>r\<close> have changed.\<close>

definition with_memory :: "VmRef \<Rightarrow> PageTable \<Rightarrow> VmPa list \<Rightarrow> phys \<Rightarrow> VmRegion \<Rightarrow> Hyp \<Rightarrow> Hyp" where
  "with_memory r pt vs p regs h = h\<lparr>h_region := regs,
     h_s := (h_s h)\<lparr>s_phys := p, s_m := upd_vm r (\<lambda>x. x\<lparr>vm_pt := Some pt, vm_pa_region := vs\<rparr>) (s_m (h_s h))\<rparr>\<rparr>"

abbreviation guest :: "Hyp \<Rightarrow> VmRef \<Rightarrow> VmInner" where
  "guest h r \<equiv> m_vms (s_m (h_s h)) r"

lemma with_memory_proj [simp]:
  "guest (with_memory r pt vs p regs h) r = (guest h r)\<lparr>vm_pt := Some pt, vm_pa_region := vs\<rparr>"
  "s_phys (h_s (with_memory r pt vs p regs h)) = p" "h_region (with_memory r pt vs p regs h) = regs"
  "with_memory r pt' vs' p' regs' (with_memory r pt vs p regs h) = with_memory r pt' vs' p' regs' h"
  by (simp_all add: with_memory_def upd_vm_def)

lemma with_memory_same:
  "vm_pt (guest h r) = Some pt \<Longrightarrow> with_memory r pt (vm_pa_region (guest h r)) (s_phys (h_s h)) (h_region h) h = h"
  by (simp add: with_memory_def upd_vm_def fun_upd_idem)

lemma ok_pages:
  assumes "region_cfg_ok c"
  shows "rg_length c = rg_length c div PAGE_SIZE * PAGE_SIZE" "0 < rg_length c div PAGE_SIZE"
    "(rg_length c + PAGE_SIZE - 1) div PAGE_SIZE = rg_length c div PAGE_SIZE" "rg_ipa_start c = rg_ipa_start c div PAGE_SIZE * PAGE_SIZE"
proof -
  have d: "PAGE_SIZE dvd rg_length c" "PAGE_SIZE dvd rg_ipa_start c" using assms by (simp_all add: region_cfg_ok_def mod_eq_0_iff_dvd)
  then show "rg_length c = rg_length c div PAGE_SIZE * PAGE_SIZE" "rg_ipa_start c = rg_ipa_start c div PAGE_SIZE * PAGE_SIZE" by simp_all
  obtain n where n: "rg_length c = PAGE_SIZE * n" using d(1) by auto
  moreover have "0 < n" using assms n by (cases n) (simp_all add: region_cfg_ok_def)
  ultimately show "0 < rg_length c div PAGE_SIZE" "(rg_length c + PAGE_SIZE - 1) div PAGE_SIZE = rg_length c div PAGE_SIZE"
    by (simp_all add: PAGE_SIZE_def)
qed

lemma region_pages_tables:
  assumes "region_cfg_ok c" shows "rg_length c div PAGE_SIZE \<le> 512 * region_tables c"
proof -
  let ?i = "rg_ipa_start c" and ?n = "rg_length c div PAGE_SIZE"
  let ?last = "?i + ?n * PAGE_SIZE - 1"
  have n: "0 < ?n" by (rule ok_pages(2)[OF assms])
  then have l: "?i \<le> ?last" "?last + 1 = ?i + ?n * PAGE_SIZE" by (simp_all add: PAGE_SIZE_def)
  have y: "?i div 2 ^ 21 \<le> ?last div 2 ^ 21" using l(1) by (rule div_le_mono)
  have "?last < (?last div 2 ^ 21) * 2 ^ 21 + 2 ^ 21" using dividend_less_div_times[of "2 ^ 21" ?last] by simp
  moreover have "?i div 2 ^ 21 * 2 ^ 21 \<le> ?i" by (rule div_times_less_eq_dividend)
  ultimately have "?n * PAGE_SIZE \<le> (?last div 2 ^ 21 - ?i div 2 ^ 21 + 1) * 2 ^ 21"
    using l y unfolding add_mult_distrib diff_mult_distrib by linarith
  then have "?n \<le> 512 * (?last div 2 ^ 21 - ?i div 2 ^ 21 + 1)" by (simp add: PAGE_SIZE_def)
  also have "\<dots> \<le> 512 * region_tables c" unfolding region_tables_def range_tables_def Let_def by (rule mult_le_mono2, rule le_add1)
  finally show ?thesis .
qed

lemma cfg_pages_tables: "memory_cfg_ok cs \<Longrightarrow> cfg_pages cs \<le> 512 * cfg_tables cs"
proof (induction cs)
  case (Cons c cs)
  then have "region_cfg_ok c" "memory_cfg_ok cs" by (simp_all add: memory_cfg_ok_def)
  then show ?case using Cons.IH region_pages_tables[of c] by (simp add: cfg_pages_def cfg_tables_def)
qed (simp add: cfg_pages_def)

text \<open>An address is in a page-aligned region exactly when its page is.\<close>

lemma hits_page:
  assumes "region_cfg_ok c"
  shows "hits a (c, pa) \<longleftrightarrow> rg_ipa_start c div PAGE_SIZE \<le> a div PAGE_SIZE \<and> a div PAGE_SIZE < rg_ipa_start c div PAGE_SIZE + rg_length c div PAGE_SIZE"
proof -
  note c = ok_pages[OF assms]
  define i n where "i = rg_ipa_start c div PAGE_SIZE" and "n = rg_length c div PAGE_SIZE"
  have "hits a (c, pa) \<longleftrightarrow> i * PAGE_SIZE \<le> a \<and> a < (i + n) * PAGE_SIZE"
    unfolding hits_def i_def n_def add_mult_distrib using c(1,4) by simp
  also have "\<dots> \<longleftrightarrow> i \<le> a div PAGE_SIZE \<and> a div PAGE_SIZE < i + n"
    by (simp add: less_eq_div_iff_mult_less_eq div_less_iff_less_mult PAGE_SIZE_def)
  finally show ?thesis unfolding i_def n_def .
qed

lemma page_of_host:
  assumes "region_cfg_ok c"
  shows "host_addr (page_of a) (c, pa) = pa + (a div PAGE_SIZE - rg_ipa_start c div PAGE_SIZE) * PAGE_SIZE"
  using ok_pages(4)[OF assms] by (simp add: host_addr_def page_of_def diff_mult_distrib)

lemma vm_pt_map_region:
  assumes pt: "vm_pt (m_vms (s_m s) r) = Some pt" "heap_pt pt (s_phys s)" and c: "region_cfg_ok c"
    and pa: "pa + rg_length c < usize_bound" and room: "region_tables c \<le> heap_room (s_phys s)"
    and free: "\<And>a. hits a (c, pa) \<Longrightarrow> translate (memory (s_phys s)) (base_pa pt) a = None \<and> \<not> in_block (memory (s_phys s)) (base_pa pt) a"
  shows "\<exists>pt' p'. vm_pt_map_range r (rg_ipa_start c) (rg_length c) pa PTE_S2_NORMAL False s =
      Some (s\<lparr>s_m := upd_vm r (\<lambda>x. x\<lparr>vm_pt := Some pt'\<rparr>) (s_m s), s_phys := p'\<rparr>) \<and>
    heap_pt pt' p' \<and> base_pa pt' = base_pa pt \<and> in_block (memory p') (base_pa pt) = in_block (memory (s_phys s)) (base_pa pt) \<and>
    heap_room (s_phys s) \<le> heap_room p' + region_tables c \<and> table_grows pt (s_phys s) pt' p' \<and>
    (\<forall>a < 2 ^ 39. translate (memory p') (base_pa pt) a =
      (if hits a (c, pa) then Some (normal_pte (host_addr (page_of a) (c, pa))) else translate (memory (s_phys s)) (base_pa pt) a))"
proof -
  let ?n = "rg_length c div PAGE_SIZE"
  note n = ok_pages[OF c]
  have b: "rg_ipa_start c + ?n * PAGE_SIZE \<le> 2 ^ 39" "pa + ?n * PAGE_SIZE < usize_bound"
    using c pa n(1) by (simp_all add: region_cfg_ok_def)
  have "\<forall>a < 2 ^ 39. rg_ipa_start c div PAGE_SIZE \<le> a div PAGE_SIZE \<longrightarrow> a div PAGE_SIZE < rg_ipa_start c div PAGE_SIZE + ?n \<longrightarrow>
      translate (memory (s_phys s)) (base_pa pt) a = None \<and> \<not> in_block (memory (s_phys s)) (base_pa pt) a"
    using free hits_page[OF c] by blast
  from map_range_total[OF pt(2) n(3)[symmetric] b room[unfolded region_tables_def] this, folded region_tables_def, of PTE_S2_NORMAL] obtain pt' p' where
    r: "map_range mem_page_alloc pt (s_phys s) (rg_ipa_start c) (rg_length c) pa PTE_S2_NORMAL = Some (pt', p')"
      "range_mapped pt (s_phys s) (rg_ipa_start c) pa PTE_S2_NORMAL ?n pt' p'"
      "in_block (memory p') (base_pa pt) = in_block (memory (s_phys s)) (base_pa pt)" "heap_room (s_phys s) \<le> heap_room p' + region_tables c"
      "table_grows pt (s_phys s) pt' p'" by blast
  then show ?thesis using pt(1)
    by (intro exI[of _ pt'] exI[of _ p'])
      (simp add: vm_pt_map_range_def pt_map_range_def range_mapped_def hits_page[OF c] page_of_host[OF c] normal_pte_def)
qed


section \<open>All regions\<close>

text \<open>
  The regions of a guest: where the allocator of guest memory put them one after the other; free before, used
  afterwards, and no two share an address.
\<close>

fun allocs :: "VmRegion \<Rightarrow> (VmRegionCfg \<times> usize) list \<Rightarrow> VmRegion option" where
  "allocs regs [] = Some regs"
| "allocs regs ((c, pa) # ps) = do {
     (pa', regs) \<leftarrow> mem_vm_region_alloc regs (rg_length c);
     if pa' = pa then allocs regs ps else None }"

definition memory_given :: "VmRegion \<Rightarrow> (VmRegionCfg \<times> usize) list \<Rightarrow> VmRegion \<Rightarrow> bool" where
  "memory_given regs ps regs' \<longleftrightarrow> allocs regs ps = Some regs' \<and> vm_regions_wf regs' \<and> (\<Union>p \<in> set ps. host_span p) \<subseteq> free_area regs \<and>
     used_area regs' = used_area regs \<union> (\<Union>p \<in> set ps. host_span p) \<and>
     free_area regs' = free_area regs - (\<Union>p \<in> set ps. host_span p) \<and>
     sorted_wrt (\<lambda>p q. host_span p \<inter> host_span q = {}) ps"

lemma memory_given_Cons:
  assumes "mem_vm_region_alloc regs (rg_length c) = Some (pa, regs1)" "{pa..<pa + rg_length c} \<subseteq> free_area regs" "used_area regs1 = used_area regs \<union> {pa..<pa + rg_length c}"
    "free_area regs1 = free_area regs - {pa..<pa + rg_length c}" "memory_given regs1 ps regs2"
  shows "memory_given regs ((c, pa) # ps) regs2"
  using assms by (auto simp: memory_given_def host_span_def)

text \<open>Some region is larger than every free one, after those before it were placed.\<close>

definition no_room :: "VmRegion \<Rightarrow> VmRegionCfg list \<Rightarrow> VmRegion \<Rightarrow> bool" where
  "no_room regs cs regs' \<longleftrightarrow> (\<exists>ps c rest. cs = map fst ps @ c # rest \<and> memory_given regs ps regs' \<and>
     (\<forall>q \<in> set regs'. mr_free q < rg_length c div PAGE_SIZE))"

lemma no_room_Cons:
  assumes "mem_vm_region_alloc regs (rg_length c) = Some (pa, regs1)" "{pa..<pa + rg_length c} \<subseteq> free_area regs" "used_area regs1 = used_area regs \<union> {pa..<pa + rg_length c}"
    "free_area regs1 = free_area regs - {pa..<pa + rg_length c}" "no_room regs1 cs regs2"
  shows "no_room regs (c # cs) regs2"
proof -
  from assms(5) obtain ps d rest where "cs = map fst ps @ d # rest" "memory_given regs1 ps regs2"
    "\<forall>q \<in> set regs2. mr_free q < rg_length d div PAGE_SIZE" by (auto simp: no_room_def)
  then show ?thesis using memory_given_Cons[OF assms(1-4)] unfolding no_room_def
    by (intro exI[of _ "(c, pa) # ps"] exI[of _ d] exI[of _ rest]) simp
qed

text \<open>One round of the loop for a guest other than the manager.\<close>

lemma init_region_step:
  assumes id: "vm_id (guest h r) \<noteq> 0" and pt: "vm_pt (guest h r) = Some pt" "heap_pt pt (s_phys (h_s h))"
    and regs: "vm_regions_wf (h_region h)" "free_area (h_region h) \<subseteq> {0<..<2 ^ 48}" and c: "region_cfg_ok c"
    and room: "region_tables c \<le> heap_room (s_phys (h_s h))" and sz: "sz + rg_length c < 2 ^ 48"
    and free: "\<forall>a. hits a (c, 0) \<longrightarrow> translate (memory (s_phys (h_s h))) (base_pa pt) a = None \<and> \<not> in_block (memory (s_phys (h_s h))) (base_pa pt) a"
  shows "(\<forall>q \<in> set (h_region h). mr_free q < rg_length c div PAGE_SIZE) \<and> init_regions r (c # cs) sz h = Some (None, h) \<or>
    (\<exists>pa regs' pt' p'. init_regions r (c # cs) sz h =
        init_regions r cs (sz + rg_length c) (with_memory r pt' (vm_pa_region (guest h r) @ [placed (c, pa)]) p' regs' h) \<and>
      {pa..<pa + rg_length c} \<subseteq> free_area (h_region h) \<and> vm_regions_wf regs' \<and>
      used_area regs' = used_area (h_region h) \<union> {pa..<pa + rg_length c} \<and>
      free_area regs' = free_area (h_region h) - {pa..<pa + rg_length c} \<and>
      heap_pt pt' p' \<and> base_pa pt' = base_pa pt \<and> in_block (memory p') (base_pa pt) = in_block (memory (s_phys (h_s h))) (base_pa pt) \<and>
      heap_room (s_phys (h_s h)) \<le> heap_room p' + region_tables c \<and> table_grows pt (s_phys (h_s h)) pt' p' \<and>
      (\<forall>a < 2 ^ 39. translate (memory p') (base_pa pt) a = (if hits a (c, pa)
         then Some (normal_pte (host_addr (page_of a) (c, pa))) else translate (memory (s_phys (h_s h))) (base_pa pt) a)) \<and>
      mem_vm_region_alloc (h_region h) (rg_length c) = Some (pa, regs'))"
proof -
  let ?n = "rg_length c div PAGE_SIZE"
  note n = ok_pages[OF c]
  have usz: "uadd sz (rg_length c) = Some (sz + rg_length c)" using sz by simp
  from vm_region_alloc_spec[OF regs(1) n(2), folded n(1)] obtain pa regs' where
    al: "mem_vm_region_alloc (h_region h) (rg_length c) = Some (pa, regs')" and
    cases: "if \<exists>q \<in> set (h_region h). ?n \<le> mr_free q
      then {pa..<pa + rg_length c} \<subseteq> free_area (h_region h) \<and> vm_regions_wf regs' \<and>
        used_area regs' = used_area (h_region h) \<union> {pa..<pa + rg_length c} \<and>
        free_area regs' = free_area (h_region h) - {pa..<pa + rg_length c} \<and>
        region_at regs' pa ?n \<and> (coalesced (h_region h) \<longrightarrow> coalesced regs')
      else pa = 0 \<and> regs' = h_region h" by blast
  show ?thesis
  proof (cases "\<exists>q \<in> set (h_region h). ?n \<le> mr_free q")
    case False
    then show ?thesis using al cases usz by (auto simp: not_le)
  next
    case True
    with cases have given: "{pa..<pa + rg_length c} \<subseteq> free_area (h_region h)" "vm_regions_wf regs'"
      "used_area regs' = used_area (h_region h) \<union> {pa..<pa + rg_length c}"
      "free_area regs' = free_area (h_region h) - {pa..<pa + rg_length c}" by simp_all
    have "0 < rg_length c" using c by (simp add: region_cfg_ok_def)
    then have "{pa, pa + rg_length c - 1} \<subseteq> free_area (h_region h)" using given(1) by auto
    then have pa: "0 < pa" "pa + rg_length c \<le> 2 ^ 48" using regs(2) \<open>0 < rg_length c\<close> by fastforce+
    from vm_pt_map_region[OF pt c _ room, of pa] free obtain pt' p' where
      mp: "vm_pt_map_range r (rg_ipa_start c) (rg_length c) pa PTE_S2_NORMAL False (h_s h) =
        Some ((h_s h)\<lparr>s_m := upd_vm r (\<lambda>x. x\<lparr>vm_pt := Some pt'\<rparr>) (s_m (h_s h)), s_phys := p'\<rparr>)"
      and view: "heap_pt pt' p'" "base_pa pt' = base_pa pt" "in_block (memory p') (base_pa pt) = in_block (memory (s_phys (h_s h))) (base_pa pt)"
        "heap_room (s_phys (h_s h)) \<le> heap_room p' + region_tables c" "table_grows pt (s_phys (h_s h)) pt' p'"
        "\<forall>a < 2 ^ 39. translate (memory p') (base_pa pt) a = (if hits a (c, pa)
          then Some (normal_pte (host_addr (page_of a) (c, pa))) else translate (memory (s_phys (h_s h))) (base_pa pt) a)"
      using pa(2) by (auto simp: hits_def)
    have "as_isize (rg_ipa_start c) = int (rg_ipa_start c)" "as_isize pa = int pa"
      using c pa by (simp_all add: region_cfg_ok_def as_isize_def)
    then have off: "isub (as_isize (rg_ipa_start c)) (as_isize pa) = Some (int (rg_ipa_start c) - int pa)"
      using c pa by (simp add: region_cfg_ok_def isub_def)
    have "init_regions r (c # cs) sz h =
        init_regions r cs (sz + rg_length c) (with_memory r pt' (vm_pa_region (guest h r) @ [placed (c, pa)]) p' regs' h)"
      using al usz mp off pa id
      by (simp add: on_s_def on_m_def add_region_def with_memory_def upd_vm_def placed_def)
    moreover have "mem_vm_region_alloc (h_region h) (rg_length c) = Some (pa, regs')" using al by simp
    ultimately show ?thesis using given view by blast
  qed
qed


lemma cfg_apart_hits: "cfg_apart c d \<Longrightarrow> hits a (c, pa) \<Longrightarrow> \<not> hits a (d, pb)"
  by (auto simp: cfg_apart_def hits_def)

lemma regions_view_Cons:
  assumes "\<forall>d \<in> set cs. cfg_apart c d" "map fst ps = cs"
  shows "regions_view ps (\<lambda>a. if hits a (c, pa) then Some (normal_pte (host_addr (page_of a) (c, pa))) else old a) a =
    regions_view ((c, pa) # ps) old a"
proof (cases "hits a (c, pa)")
  case True
  have "\<not> hits a p" if "p \<in> set ps" for p
    using cfg_apart_hits[OF _ True, of "fst p" "snd p"] assms that by force
  then have "find (hits a) ps = None" by (auto simp: find_None_iff)
  then show ?thesis using True by (simp add: regions_view_def)
qed (simp add: regions_view_def)

lemma init_regions_spec:
  assumes "vm_id (guest h r) \<noteq> 0" "vm_pt (guest h r) = Some pt" "heap_pt pt (s_phys (h_s h))"
    "vm_regions_wf (h_region h)" "free_area (h_region h) \<subseteq> {0<..<2 ^ 48}" "memory_cfg_ok cs"
    "cfg_tables cs \<le> heap_room (s_phys (h_s h))" "sz + cfg_pages cs * PAGE_SIZE < 2 ^ 48"
    "\<forall>c \<in> set cs. \<forall>a. hits a (c, 0) \<longrightarrow> translate (memory (s_phys (h_s h))) (base_pa pt) a = None \<and>
      \<not> in_block (memory (s_phys (h_s h))) (base_pa pt) a"
  shows "\<exists>res h'. init_regions r cs sz h = Some (res, h') \<and>
    (case res of None \<Rightarrow> no_room (h_region h) cs (h_region h')
     | Some amount \<Rightarrow> \<exists>ps pt' p' regs'. map fst ps = cs \<and> amount = sz + cfg_pages cs * PAGE_SIZE \<and>
         h' = with_memory r pt' (vm_pa_region (guest h r) @ map placed ps) p' regs' h \<and> memory_given (h_region h) ps regs' \<and>
         heap_pt pt' p' \<and> base_pa pt' = base_pa pt \<and> table_grows pt (s_phys (h_s h)) pt' p' \<and>
         heap_room (s_phys (h_s h)) \<le> heap_room p' + cfg_tables cs \<and>
         (\<forall>a < 2 ^ 39. translate (memory p') (base_pa pt) a =
           regions_view ps (translate (memory (s_phys (h_s h))) (base_pa pt)) a))"
  using assms
proof (induction cs arbitrary: sz h pt)
  case Nil
  have "h = with_memory r pt (vm_pa_region (guest h r) @ map placed []) (s_phys (h_s h)) (h_region h) h"
    using with_memory_same[OF Nil(2)] by simp
  moreover have "memory_given (h_region h) [] (h_region h)" using Nil(4) by (simp add: memory_given_def)
  ultimately show ?case using Nil(3) unfolding init_regions.simps
    by (intro exI[of _ "Some sz"] exI[of _ h] conjI refl)
      (simp only: option.case, intro exI[of _ "[]"] exI[of _ pt] exI[of _ "s_phys (h_s h)"] exI[of _ "h_region h"],
        simp add: cfg_pages_def cfg_tables_def regions_view_def)
next
  case (Cons c cs)
  have c: "region_cfg_ok c" and cs: "memory_cfg_ok cs" and apart: "\<forall>d \<in> set cs. cfg_apart c d"
    using Cons.prems(6) by (simp_all add: memory_cfg_ok_def)
  have pg: "cfg_pages (c # cs) = rg_length c div PAGE_SIZE + cfg_pages cs" "cfg_tables (c # cs) = region_tables c + cfg_tables cs"
    by (simp_all add: cfg_pages_def cfg_tables_def)
  have len: "rg_length c div PAGE_SIZE * PAGE_SIZE = rg_length c" using ok_pages(1)[OF c] by simp
  have room: "region_tables c \<le> heap_room (s_phys (h_s h))" and sz: "sz + rg_length c < 2 ^ 48"
    using Cons.prems(7,8) unfolding pg add_mult_distrib len by simp_all
  have "\<forall>a. hits a (c, 0) \<longrightarrow> translate (memory (s_phys (h_s h))) (base_pa pt) a = None \<and>
    \<not> in_block (memory (s_phys (h_s h))) (base_pa pt) a" using Cons.prems(9) by simp
  from init_region_step[OF Cons.prems(1-5) c room sz this, where cs = cs] show ?case
  proof (elim disjE exE conjE, goal_cases)
    case 1
    have "memory_given (h_region h) [] (h_region h)" using Cons.prems(4) by (simp add: memory_given_def)
    then have "no_room (h_region h) (c # cs) (h_region h)" using 1(1) unfolding no_room_def
      by (intro exI[of _ "[]"] exI[of _ c] exI[of _ cs]) simp
    then show ?case using 1(2) by auto
  next
    case (2 pa regs1 pt1 p1)
    let ?h = "with_memory r pt1 (vm_pa_region (guest h r) @ [placed (c, pa)]) p1 regs1 h"
    have "vm_id (guest ?h r) \<noteq> 0" "vm_pt (guest ?h r) = Some pt1" "heap_pt pt1 (s_phys (h_s ?h))" "vm_regions_wf (h_region ?h)"
      "free_area (h_region ?h) \<subseteq> {0<..<2 ^ 48}" "cfg_tables cs \<le> heap_room (s_phys (h_s ?h))"
      "sz + rg_length c + cfg_pages cs * PAGE_SIZE < 2 ^ 48"
      using 2 Cons.prems(1,5,7,8) unfolding pg add_mult_distrib len by auto
    moreover have "translate (memory (s_phys (h_s ?h))) (base_pa pt1) a = None \<and> \<not> in_block (memory (s_phys (h_s ?h))) (base_pa pt1) a"
      if "d \<in> set cs" "hits a (d, 0)" for d a
    proof -
      have "a < 2 ^ 39" using cs that by (auto simp: memory_cfg_ok_def region_cfg_ok_def hits_def)
      moreover have "\<not> hits a (c, pa)" using cfg_apart_hits apart that by blast
      ultimately show ?thesis using 2 Cons.prems(9) that by simp
    qed
    then have "\<forall>d \<in> set cs. \<forall>a. hits a (d, 0) \<longrightarrow> translate (memory (s_phys (h_s ?h))) (base_pa pt1) a = None \<and>
      \<not> in_block (memory (s_phys (h_s ?h))) (base_pa pt1) a" by blast
    note IH = Cons.IH[OF calculation(1-5) cs calculation(6,7) this]
    from IH obtain res h' where r: "init_regions r (c # cs) sz h = Some (res, h')" and
      post: "case res of None \<Rightarrow> no_room (h_region ?h) cs (h_region h')
       | Some amount \<Rightarrow> \<exists>ps pt' p' regs'. map fst ps = cs \<and> amount = sz + rg_length c + cfg_pages cs * PAGE_SIZE \<and>
           h' = with_memory r pt' (vm_pa_region (guest ?h r) @ map placed ps) p' regs' ?h \<and> memory_given (h_region ?h) ps regs' \<and>
           heap_pt pt' p' \<and> base_pa pt' = base_pa pt1 \<and> table_grows pt1 (s_phys (h_s ?h)) pt' p' \<and>
           heap_room (s_phys (h_s ?h)) \<le> heap_room p' + cfg_tables cs \<and>
           (\<forall>a < 2 ^ 39. translate (memory p') (base_pa pt1) a =
             regions_view ps (translate (memory (s_phys (h_s ?h))) (base_pa pt1)) a)"
      unfolding 2(1) by blast
    show ?case
    proof (cases res)
      case None
      have "no_room (h_region h) (c # cs) (h_region h')" using no_room_Cons[OF 2(12,2,4,5)] post None by simp
      with r None show ?thesis by auto
    next
      case (Some amount)
      with post obtain ps pt' p' regs' where p: "map fst ps = cs" "amount = sz + rg_length c + cfg_pages cs * PAGE_SIZE"
        "h' = with_memory r pt' (vm_pa_region (guest ?h r) @ map placed ps) p' regs' ?h" "memory_given regs1 ps regs'"
        "heap_pt pt' p'" "base_pa pt' = base_pa pt1" and grows: "table_grows pt1 p1 pt' p'"
        and rm: "heap_room p1 \<le> heap_room p' + cfg_tables cs"
        and tr: "\<forall>a < 2 ^ 39. translate (memory p') (base_pa pt1) a = regions_view ps (translate (memory p1) (base_pa pt1)) a" by auto
      have "translate (memory p') (base_pa pt) a = regions_view ((c, pa) # ps) (translate (memory (s_phys (h_s h))) (base_pa pt)) a"
        if "a < 2 ^ 39" for a
      proof -
        have "translate (memory p') (base_pa pt) a = regions_view ps (\<lambda>a. if hits a (c, pa)
            then Some (normal_pte (host_addr (page_of a) (c, pa))) else translate (memory (s_phys (h_s h))) (base_pa pt) a) a"
          using tr 2 that by (auto simp: regions_view_def split: option.split)
        then show ?thesis unfolding regions_view_Cons[OF apart p(1)] .
      qed
      moreover have "memory_given (h_region h) ((c, pa) # ps) regs'" using memory_given_Cons 2 p(4) by blast
      moreover have "h' = with_memory r pt' (vm_pa_region (guest h r) @ map placed ((c, pa) # ps)) p' regs' h" using p(3) by simp
      moreover have "table_grows pt (s_phys (h_s h)) pt' p'" using table_grows_trans[OF _ grows] 2 by blast
      moreover have "heap_room (s_phys (h_s h)) \<le> heap_room p' + (region_tables c + cfg_tables cs)" using rm 2(9) by simp
      ultimately show ?thesis using r Some p(1,2,5,6) 2 unfolding pg add_mult_distrib len
        by (intro exI[of _ res] exI[of _ h'] conjI)
          (simp_all only: option.case, intro exI[of _ "(c, pa) # ps"] exI[of _ pt'] exI[of _ p'] exI[of _ regs'], simp)
    qed
  qed
qed


text \<open>The hypervisor's own translation finds the same host address.\<close>

lemma ipa2pa_placed:
  assumes cs: "memory_cfg_ok (map fst ps)" and span: "(\<Union>p \<in> set ps. host_span p) \<subseteq> {0<..<2 ^ 48}"
    and hit: "find (hits a) ps = Some p"
  shows "ipa2pa (map placed ps) a = Some (host_addr a p)" "host_addr a p \<in> host_span p"
proof -
  obtain i where i: "i < length ps" "p = ps ! i" "hits a p" using hit by (auto simp: find_Some_iff)
  have sane: "region_sane (placed q)" "0 < rg_length (fst q)" if q: "q \<in> set ps" for q
  proof -
    have c: "region_cfg_ok (fst q)" using cs q by (simp add: memory_cfg_ok_def)
    then show len: "0 < rg_length (fst q)" by (simp add: region_cfg_ok_def)
    then have "{snd q, snd q + rg_length (fst q) - 1} \<subseteq> host_span q" by (auto simp: host_span_def split_beta)
    then have "{snd q, snd q + rg_length (fst q) - 1} \<subseteq> {0<..<2 ^ 48}" using span q by blast
    then show "region_sane (placed q)" using c len
      by (auto simp: region_sane_def placed_def split_beta ipa_of_def region_cfg_ok_def)
  qed
  have "region_cfg_ok (fst p)" using cs i(1,2) by (simp add: memory_cfg_ok_def)
  then have a: "a < 2 ^ 39" "0 < a" using i(3) by (auto simp: region_cfg_ok_def hits_def split_beta)
  have cfg: "sorted_wrt cfg_apart (map fst ps)" using cs by (simp add: memory_cfg_ok_def)
  show mem: "host_addr a p \<in> host_span p" using i(3) by (auto simp: host_addr_def host_span_def hits_def)
  have "ipa2pa_loop (map placed ps) a = Some (host_addr a p)"
  proof (rule ipa2pa_hit[where i = i])
    show "\<forall>r \<in> set (map placed ps). region_sane r" using sane by auto
    show "int a = ipa_of (map placed ps ! i) (host_addr a p)" "host_addr a p \<in> pa_span (map placed ps ! i)"
      using i by (auto simp: placed_def ipa_of_def host_addr_def hits_def pa_span_def split_beta)
    show "\<forall>j < i. int a \<notin> ipa_of (map placed ps ! j) ` pa_span (map placed ps ! j)"
    proof (intro allI impI)
      fix j assume j: "j < i"
      have "cfg_apart (fst (ps ! j)) (fst (ps ! i))"
        using sorted_wrt_nth_less[OF cfg, of j i] i j by simp
      then show "int a \<notin> ipa_of (map placed ps ! j) ` pa_span (map placed ps ! j)"
        using i j by (auto simp: cfg_apart_def placed_def ipa_of_def pa_span_def hits_def split_beta)
    qed
  qed (use i a in simp_all)
  then show "ipa2pa (map placed ps) a = Some (host_addr a p)" using a(2) by (simp add: ipa2pa_def)
qed

text \<open>Only pages that were free are written, so no page table that exists changes.\<close>

definition only_new_pages :: "phys \<Rightarrow> phys \<Rightarrow> bool" where
  "only_new_pages s s' \<longleftrightarrow> heap_src_ok s' \<and> heap_owned s \<subseteq> heap_owned s' \<and>
     (\<forall>a. memory s' a \<noteq> memory s a \<longrightarrow> (\<exists>f \<in> heap_owned s' - heap_owned s. a \<in> {f..<f + PAGE_SIZE}))"

lemma frames_apart:
  assumes "frame_addr b" "frame_addr f" "x \<in> {b..<b + PAGE_SIZE}" "x \<in> {f..<f + PAGE_SIZE}"
  shows "b = f"
proof -
  obtain i j where "b = 4096 * i" "f = 4096 * j" using assms(1,2) by (auto simp: frame_addr_def PAGE_SIZE_def mod_eq_0_iff_dvd elim!: dvdE)
  then show ?thesis using assms(3,4) by (auto simp: PAGE_SIZE_def)
qed

lemma only_new_pages_alloc:
  assumes "heap_src_ok s" "mem_page_alloc s = Some (Inr f, s1)" "table_grows (PageTable_new f) s1 pt s2" "heap_pt pt s2"
  shows "only_new_pages s s2"
  unfolding only_new_pages_def
proof (intro conjI allI impI)
  note one = heap_alloc_one[OF assms(1,2)]
  show "heap_src_ok s2" using assms(4) by (simp add: pt_inv_def)
  show "heap_owned s \<subseteq> heap_owned s2" using one assms(3) by (auto simp: table_grows_def)
  fix a assume ch: "memory s2 a \<noteq> memory s a"
  have fr: "pt_frames pt \<subseteq> insert (pf_pa f) (heap_owned s2 - heap_owned s1)"
    using assms(3) by (auto simp: table_grows_def pt_frames_def PageTable_new_def base_pa_def)
  have "a \<in> {pf_pa f..<pf_pa f + PAGE_SIZE} \<or> a \<in> footprint pt"
  proof (rule ccontr)
    assume out: "\<not> ?thesis"
    then have "memory s2 a = memory s1 a" using assms(3) by (simp add: table_grows_def)
    also have "\<dots> = memory s a" using out one by (auto intro: memset_zero_out)
    finally show False using ch by simp
  qed
  then obtain g where g: "g \<in> insert (pf_pa f) (heap_owned s2 - heap_owned s1)" "a \<in> {g..<g + PAGE_SIZE}"
    using fr unfolding footprint_frames by blast
  have "pf_pa f \<in> heap_owned s2" "pf_pa f \<notin> heap_owned s" using one assms(3) by (auto simp: table_grows_def)
  then show "\<exists>g \<in> heap_owned s2 - heap_owned s. a \<in> {g..<g + PAGE_SIZE}" using g one by blast
qed

lemma only_new_pages_keeps:
  assumes inv: "heap_pt pt s" and new: "only_new_pages s s'"
  shows "heap_pt pt s'" "translate (memory s') (base_pa pt) a = translate (memory s) (base_pa pt) a"
proof -
  have own: "heap_owned s \<subseteq> heap_owned s'" "heap_src_ok s'" using new by (simp_all add: only_new_pages_def)
  have "memory s' (b + k * 8) = memory s (b + k * 8)" if t: "table_at (memory s) (base_pa pt) n = Some b" and k: "k < 512" for n b k
  proof (rule ccontr)
    assume "memory s' (b + k * 8) \<noteq> memory s (b + k * 8)"
    then obtain f where f: "f \<in> heap_owned s'" "f \<notin> heap_owned s" "b + k * 8 \<in> {f..<f + PAGE_SIZE}"
      using new unfolding only_new_pages_def by blast
    have b: "b \<in> heap_owned s" using pages.pt_inv_table_owned[OF inv t] .
    have "frame_addr b" "frame_addr f" using heap_owned_frames own b f(1) by blast+
    moreover have "b + k * 8 \<in> {b..<b + PAGE_SIZE}" using k by (rule slot_in_page)
    ultimately have "b = f" using f(3) frames_apart by blast
    then show False using b f(2) by simp
  qed
  then have ag: "tables_agree (memory s) (memory s') (base_pa pt)" by (simp add: tables_agree_def)
  show "heap_pt pt s'"
  proof -
    have eq: "table_at (memory s') (base_pa pt) = table_at (memory s) (base_pa pt)" by (rule ext) (rule table_at_agree[OF ag])
    then have tr: "tree_ok (memory s') (base_pa pt) = tree_ok (memory s) (base_pa pt)" by (simp only: tree_ok_def)
    show ?thesis using inv own unfolding pt_inv_def eq tr by (meson subset_trans)
  qed
  show "translate (memory s') (base_pa pt) a = translate (memory s) (base_pa pt) a"
    unfolding translate_def by (rule pt_lookup_agree[OF ag pt_idx_bound])
qed

text \<open>What a guest with the memory \<open>ps\<close> sees: exactly its regions, and where the hypervisor says they are.\<close>

definition guest_view :: "Hyp \<Rightarrow> VmRef \<Rightarrow> (VmRegionCfg \<times> usize) list \<Rightarrow> bool" where
  "guest_view h r ps \<longleftrightarrow> vm_pa_region (guest h r) = map placed ps \<and> vm_mem_region_num (guest h r) = length ps \<and>
     (\<exists>pt. vm_pt (guest h r) = Some pt \<and> heap_pt pt (s_phys (h_s h)) \<and>
       (\<forall>a < 2 ^ 39. case find (hits a) ps of
          None \<Rightarrow> translate (memory (s_phys (h_s h))) (base_pa pt) a = None
        | Some p \<Rightarrow> translate (memory (s_phys (h_s h))) (base_pa pt) a = Some (normal_pte (host_addr (page_of a) p)) \<and>
            ipa2pa (vm_pa_region (guest h r)) a = Some (host_addr a p) \<and> host_addr a p \<in> host_span p))"

text \<open>A guest that has been added with the memory configuration \<open>cs\<close> and has no memory yet.\<close>

definition fresh_guest :: "Hyp \<Rightarrow> VmRef \<Rightarrow> VmRegionCfg list \<Rightarrow> bool" where
  "fresh_guest h r cs \<longleftrightarrow> vm_id (guest h r) \<noteq> 0 \<and> vm_id (guest h r) < length (m_vm_if_list (s_m (h_s h))) \<and>
     vm_pt (guest h r) = None \<and> vm_pa_region (guest h r) = [] \<and>
     (\<exists>e. vm_config (guest h r) = Some e \<and> cs = memory_region (m_config (s_m (h_s h))) e) \<and> memory_cfg_ok cs"

lemma vmm_init_memory_spec:
  assumes heap: "heap_src_ok (s_phys (h_s h))" "cfg_tables cs < heap_room (s_phys (h_s h))"
    and fresh: "fresh_guest h r cs" and regs: "vm_regions_wf (h_region h)" "free_area (h_region h) \<subseteq> {0<..<2 ^ 48}"
  shows "\<exists>ok h'. vmm_init_memory r h = Some (ok, h') \<and>
    (if ok then \<exists>ps. map fst ps = cs \<and> guest_view h' r ps \<and> memory_given (h_region h) ps (h_region h') \<and>
         only_new_pages (s_phys (h_s h)) (s_phys (h_s h')) \<and> heap_room (s_phys (h_s h)) \<le> heap_room (s_phys (h_s h')) + 1 + cfg_tables cs \<and>
         (\<forall>q. q \<noteq> r \<longrightarrow> guest h' q = guest h q) \<and> m_config (s_m (h_s h')) = m_config (s_m (h_s h)) \<and>
         length (m_vm_if_list (s_m (h_s h'))) = length (m_vm_if_list (s_m (h_s h)))
     else no_room (h_region h) cs (h_region h'))"
proof -
  obtain e where vm: "vm_id (guest h r) \<noteq> 0" "vm_id (guest h r) < length (m_vm_if_list (s_m (h_s h)))" "vm_pt (guest h r) = None"
      "vm_pa_region (guest h r) = []" "vm_config (guest h r) = Some e" and cs: "cs = memory_region (m_config (s_m (h_s h))) e" "memory_cfg_ok cs"
    using fresh by (auto simp: fresh_guest_def)
  let ?p = "s_phys (h_s h)"
  obtain res p where al: "mem_page_alloc ?p = Some (res, p)" using heap_alloc_total[OF heap(1)] by auto
  obtain f where f: "res = Inr f" using heap_alloc_full[OF heap(1)] al heap(2) by (cases res) auto
  note new = pages.pt_new_inv[OF heap(1) al[unfolded f]]
  let ?pt = "PageTable_new f"
  have base: "base_pa ?pt = pf_pa f" by (simp add: PageTable_new_def base_pa_def)
  have none: "translate (memory p) (base_pa ?pt) a = None" "\<not> in_block (memory p) (base_pa ?pt) a" for a
    using new(2)[of "pt_lvl1_idx a"] new(3) pt_idx_bound(1)[of a] by (auto simp: translate_def in_block_def base)
  let ?s = "(h_s h)\<lparr>s_phys := p, s_m := upd_vm r (\<lambda>x. x\<lparr>vm_pt := Some ?pt, vm_mem_region_num := length cs\<rparr>) (s_m (h_s h))\<rparr>"
  let ?h = "h\<lparr>h_s := ?s\<rparr>"
  have h: "vm_id (guest ?h r) \<noteq> 0" "vm_pt (guest ?h r) = Some ?pt" "heap_pt ?pt (s_phys (h_s ?h))" "vm_regions_wf (h_region ?h)"
    "free_area (h_region ?h) \<subseteq> {0<..<2 ^ 48}" "cfg_tables cs \<le> heap_room (s_phys (h_s ?h))"
    using vm regs new heap(2) by (simp_all add: upd_vm_def)
  have "cfg_tables cs \<le> mr_size (heap_region (heap p))" using h(6) by (simp add: heap_room_def)
  also have "\<dots> \<le> 65536" using new(1) by (simp add: pt_inv_def heap_src_ok_def heap_wf_def)
  finally have small: "0 + cfg_pages cs * PAGE_SIZE < 2 ^ 48" using cfg_pages_tables[OF cs(2)] by (simp add: PAGE_SIZE_def)
  have "\<forall>c \<in> set cs. \<forall>a. hits a (c, 0) \<longrightarrow> translate (memory (s_phys (h_s ?h))) (base_pa ?pt) a = None \<and>
      \<not> in_block (memory (s_phys (h_s ?h))) (base_pa ?pt) a" using none by simp
  from init_regions_spec[OF h(1-5) cs(2) h(6) small this] obtain amount h1 where r: "init_regions r cs 0 ?h = Some (amount, h1)" and
    post: "case amount of None \<Rightarrow> no_room (h_region ?h) cs (h_region h1)
     | Some n \<Rightarrow> \<exists>ps pt' p' regs'. map fst ps = cs \<and> n = 0 + cfg_pages cs * PAGE_SIZE \<and>
         h1 = with_memory r pt' (vm_pa_region (guest ?h r) @ map placed ps) p' regs' ?h \<and> memory_given (h_region ?h) ps regs' \<and>
         heap_pt pt' p' \<and> base_pa pt' = base_pa ?pt \<and> table_grows ?pt (s_phys (h_s ?h)) pt' p' \<and>
         heap_room (s_phys (h_s ?h)) \<le> heap_room p' + cfg_tables cs \<and>
         (\<forall>a < 2 ^ 39. translate (memory p') (base_pa ?pt) a = regions_view ps (translate (memory (s_phys (h_s ?h))) (base_pa ?pt)) a)" by blast
  have start: "vmm_init_memory r h = (case amount of None \<Rightarrow> Some (False, h1) | Some n \<Rightarrow> do {
      n \<leftarrow> uadd n PAGE_SIZE;
      h \<leftarrow> on_s (on_m (vm_if_init_mem_map (vm_id (guest h r)) ((n - 1) div PAGE_SIZE))) h1;
      Some (True, h) })"
    using al f vm cs(1) r
    by (cases amount) (simp_all add: vmm_init_memory_def vm_set_pt_def on_m_def set_mem_region_num_def upd_vm_def)
  show ?thesis
  proof (cases amount)
    case None
    then show ?thesis using start post by auto
  next
    case (Some n)
    with post obtain ps pt' p' regs' where ps: "map fst ps = cs" "n = cfg_pages cs * PAGE_SIZE"
      and h1: "h1 = with_memory r pt' (map placed ps) p' regs' ?h" and given: "memory_given (h_region h) ps regs'"
      and pt': "heap_pt pt' p'" "base_pa pt' = base_pa ?pt" and grows: "table_grows ?pt p pt' p'"
      and rm: "heap_room p \<le> heap_room p' + cfg_tables cs"
      and tr: "\<forall>a < 2 ^ 39. translate (memory p') (base_pa ?pt) a = regions_view ps (translate (memory p) (base_pa ?pt)) a"
      using vm(4) by (auto simp: upd_vm_def)
    have "length (m_vm_if_list (s_m (h_s h1))) = length (m_vm_if_list (s_m (h_s h)))" by (simp add: h1 with_memory_def upd_vm_def)
    moreover have "(n + PAGE_SIZE - 1) div PAGE_SIZE < usize_bound - 64" using small ps(2) by (simp add: PAGE_SIZE_def)
    ultimately obtain m' where m': "vm_if_init_mem_map (vm_id (guest h r)) ((n + PAGE_SIZE - 1) div PAGE_SIZE) (s_m (h_s h1)) = Some m'" "m_vms m' = m_vms (s_m (h_s h1))"
      "m_config m' = m_config (s_m (h_s h1))" "length (m_vm_if_list m') = length (m_vm_if_list (s_m (h_s h1)))"
      using vm(2) by (auto simp: vm_if_init_mem_map_def FlexBitmap_new_def upd_vm_if_def udiv_def)
    have "n + PAGE_SIZE < usize_bound" using small ps(2) by (simp add: PAGE_SIZE_def)
    then have "vmm_init_memory r h = Some (True, h1\<lparr>h_s := (h_s h1)\<lparr>s_m := m'\<rparr>\<rparr>)"
      using start Some m'(1) by (simp add: on_s_def on_m_def)
    moreover have "guest_view (h1\<lparr>h_s := (h_s h1)\<lparr>s_m := m'\<rparr>\<rparr>) r ps"
      unfolding guest_view_def
    proof (intro conjI exI[of _ pt'] allI impI)
      fix a :: nat assume a: "a < 2 ^ 39"
      have "(\<Union>p \<in> set ps. host_span p) \<subseteq> {0<..<2 ^ 48}" using given regs(2) by (auto simp: memory_given_def)
      note own = ipa2pa_placed[OF cs(2)[folded ps(1)] this]
      show "case find (hits a) ps of
          None \<Rightarrow> translate (memory (s_phys (h_s (h1\<lparr>h_s := (h_s h1)\<lparr>s_m := m'\<rparr>\<rparr>)))) (base_pa pt') a = None
        | Some p \<Rightarrow> translate (memory (s_phys (h_s (h1\<lparr>h_s := (h_s h1)\<lparr>s_m := m'\<rparr>\<rparr>)))) (base_pa pt') a = Some (normal_pte (host_addr (page_of a) p)) \<and>
            ipa2pa (vm_pa_region (guest (h1\<lparr>h_s := (h_s h1)\<lparr>s_m := m'\<rparr>\<rparr>) r)) a = Some (host_addr a p) \<and> host_addr a p \<in> host_span p"
        using tr a none own[of a] by (auto simp: h1 m'(2) pt'(2) regions_view_def split: option.split)
    qed (use pt' ps(1) in \<open>auto simp: h1 m'(2) upd_vm_def\<close>)
    moreover have "only_new_pages (s_phys (h_s h)) p'" using only_new_pages_alloc[OF heap(1) al[unfolded f] grows pt'(1)] .
    moreover have "heap_room (s_phys (h_s h)) \<le> heap_room p' + 1 + cfg_tables cs" using rm new(4) by simp
    ultimately show ?thesis using ps(1) given m'(2-4) by (auto simp: h1 with_memory_def upd_vm_def)
  qed
qed


lemma guest_view_kept:
  assumes view: "guest_view h r ps" and new: "only_new_pages (s_phys (h_s h)) (s_phys (h_s h'))" and g: "guest h' r = guest h r"
  shows "guest_view h' r ps"
proof -
  from view obtain pt where pt: "vm_pt (guest h r) = Some pt" "heap_pt pt (s_phys (h_s h))" and
    tr: "\<forall>a < 2 ^ 39. case find (hits a) ps of
          None \<Rightarrow> translate (memory (s_phys (h_s h))) (base_pa pt) a = None
        | Some p \<Rightarrow> translate (memory (s_phys (h_s h))) (base_pa pt) a = Some (normal_pte (host_addr (page_of a) p)) \<and>
            ipa2pa (vm_pa_region (guest h r)) a = Some (host_addr a p) \<and> host_addr a p \<in> host_span p"
    unfolding guest_view_def by blast
  note keep = only_new_pages_keeps[OF pt(2) new]
  show ?thesis
    unfolding guest_view_def g
  proof (intro conjI exI[of _ pt])
    show "\<forall>a < 2 ^ 39. case find (hits a) ps of
          None \<Rightarrow> translate (memory (s_phys (h_s h'))) (base_pa pt) a = None
        | Some p \<Rightarrow> translate (memory (s_phys (h_s h'))) (base_pa pt) a = Some (normal_pte (host_addr (page_of a) p)) \<and>
            ipa2pa (vm_pa_region (guest h r)) a = Some (host_addr a p) \<and> host_addr a p \<in> host_span p"
      using tr unfolding keep(2) .
  qed (use view pt(1) keep(1) in \<open>simp_all add: guest_view_def\<close>)
qed

text \<open>
  C35. Giving a guest its memory. The guest is not the manager (the guest with identifier 0, which is mapped
  by 2 MB blocks); its configured regions lie below \<open>2 ^ 39\<close>, have whole pages and a gap between any two. The
  heap has more free page frames than the guest's tables below the directory take: one for every 2 MB and one
  for every 1 GB a region touches, so 513 for a guest of 1 GB; the one more is the directory. Then
  \<open>vmm_init_memory\<close> always returns. When it answers yes, every configured
  region was placed on host memory that was free; exactly this memory is now used, and no two regions
  share an address. Below \<open>2 ^ 39\<close> the guest's stage-2 table translates an address exactly when it lies
  in a configured region, page by page to the host address the hypervisor itself computes for it, which
  lies in the region's own host memory. When it answers no, some region is larger than
  every free one, and the regions before it were placed.
\<close>

theorem vmm_init_memory_correct:
  assumes "heap_src_ok (s_phys (h_s h))" "cfg_tables cs < heap_room (s_phys (h_s h))" "fresh_guest h r cs"
    "vm_regions_wf (h_region h)" "free_area (h_region h) \<subseteq> {0<..<2 ^ 48}"
  shows "\<exists>ok h'. vmm_init_memory r h = Some (ok, h') \<and>
    (if ok then \<exists>ps. map fst ps = cs \<and> guest_view h' r ps \<and> memory_given (h_region h) ps (h_region h')
     else no_room (h_region h) cs (h_region h'))"
proof -
  from vmm_init_memory_spec[OF assms] obtain ok h' where r: "vmm_init_memory r h = Some (ok, h')"
    and post: "if ok then \<exists>ps. map fst ps = cs \<and> guest_view h' r ps \<and> memory_given (h_region h) ps (h_region h') \<and>
         only_new_pages (s_phys (h_s h)) (s_phys (h_s h')) \<and> heap_room (s_phys (h_s h)) \<le> heap_room (s_phys (h_s h')) + 1 + cfg_tables cs \<and>
         (\<forall>q. q \<noteq> r \<longrightarrow> guest h' q = guest h q) \<and> m_config (s_m (h_s h')) = m_config (s_m (h_s h)) \<and>
         length (m_vm_if_list (s_m (h_s h'))) = length (m_vm_if_list (s_m (h_s h)))
     else no_room (h_region h) cs (h_region h')" by blast
  then show ?thesis by (cases ok) auto
qed

text \<open>
  C36. Guests do not share memory. Two guests other than the manager are given their memory one after the other,
  with page frames for the tables of both in the heap: for each guest one for every 2 MB and every 1 GB its regions
  touch, and one for its directory. Afterwards each
  sees exactly its own regions, the first as well as when it was alone, no host address belongs to two
  regions of the same guest or of different guests, and all of it was free before.
\<close>

theorem guests_isolated:
  assumes heap: "heap_src_ok (s_phys (h_s h))" "cfg_tables cr + cfg_tables cq + 1 < heap_room (s_phys (h_s h))"
    and fresh: "fresh_guest h r cr" "fresh_guest h q cq" "q \<noteq> r"
    and regs: "vm_regions_wf (h_region h)" "free_area (h_region h) \<subseteq> {0<..<2 ^ 48}"
    and run: "vmm_init_memory r h = Some (True, h1)" "vmm_init_memory q h1 = Some (True, h2)"
  shows "\<exists>ps qs. map fst ps = cr \<and> map fst qs = cq \<and> guest_view h2 r ps \<and> guest_view h2 q qs \<and>
    sorted_wrt (\<lambda>x y. host_span x \<inter> host_span y = {}) (ps @ qs) \<and> (\<Union>x \<in> set (ps @ qs). host_span x) \<subseteq> free_area (h_region h)"
proof -
  have "cfg_tables cr < heap_room (s_phys (h_s h))" using heap(2) by simp
  from vmm_init_memory_spec[OF heap(1) this fresh(1) regs] run(1) obtain ps where p: "map fst ps = cr" "guest_view h1 r ps"
    "memory_given (h_region h) ps (h_region h1)" "only_new_pages (s_phys (h_s h)) (s_phys (h_s h1))"
    "heap_room (s_phys (h_s h)) \<le> heap_room (s_phys (h_s h1)) + 1 + cfg_tables cr" "\<forall>q. q \<noteq> r \<longrightarrow> guest h1 q = guest h q"
    "m_config (s_m (h_s h1)) = m_config (s_m (h_s h))" "length (m_vm_if_list (s_m (h_s h1))) = length (m_vm_if_list (s_m (h_s h)))" by auto
  have "heap_src_ok (s_phys (h_s h1))" "cfg_tables cq < heap_room (s_phys (h_s h1))" "fresh_guest h1 q cq" "vm_regions_wf (h_region h1)"
    "free_area (h_region h1) \<subseteq> {0<..<2 ^ 48}"
    using p heap(2) fresh regs(2) by (auto simp: only_new_pages_def memory_given_def fresh_guest_def)
  from vmm_init_memory_spec[OF this] run(2) obtain qs where q: "map fst qs = cq" "guest_view h2 q qs"
    "memory_given (h_region h1) qs (h_region h2)" "only_new_pages (s_phys (h_s h1)) (s_phys (h_s h2))" "\<forall>q'. q' \<noteq> q \<longrightarrow> guest h2 q' = guest h1 q'" by auto
  have "guest_view h2 r ps" using guest_view_kept[OF p(2) q(4)] q(5) fresh(3) by simp
  moreover have "sorted_wrt (\<lambda>x y. host_span x \<inter> host_span y = {}) (ps @ qs) \<and> (\<Union>x \<in> set (ps @ qs). host_span x) \<subseteq> free_area (h_region h)"
    using p(3) q(3) unfolding memory_given_def sorted_wrt_append by auto
  ultimately show ?thesis using p(1) q(1,2) by blast
qed


definition heap_8m :: HeapRegion where
  "heap_8m = region_init HeapRegion_new 0x80000000 2048 2048 0"

lemma heap_8m_ok:
  "heap_wf heap_8m" "heap_bits heap_8m = {}" "heap_region heap_8m = \<lparr>mr_base = 0x80000000, mr_size = 2048, mr_free = 2048, mr_last = 0\<rparr>"
proof -
  show "heap_wf heap_8m" "heap_bits heap_8m = {}" unfolding heap_8m_def by (rule heap_wf_boot; simp add: PAGE_SIZE_def)+
  show "heap_region heap_8m = \<lparr>mr_base = 0x80000000, mr_size = 2048, mr_free = 2048, mr_last = 0\<rparr>"
    by (simp add: heap_8m_def region_init_def MemRegion_init_def)
qed

text \<open>A heap of 8 MB, 4 GB for guests at \<open>0x100000000\<close>, and guests that want 1 GB each, at the guest address
  of the guests in \<open>src/src/config/vm_def.rs\<close>.  The tables of such a guest take 513 page frames and one more for
  the directory.\<close>

definition guest_memory :: VmRegion where
  "guest_memory = [\<lparr>mr_base = 0x100000000, mr_size = 0x100000, mr_free = 0x100000, mr_last = 0\<rparr>]"

definition guest_hyp :: Hyp where
  "guest_hyp = \<lparr>h_s = (sys_reset (machine_reset\<lparr>
       m_vms := (\<lambda>r. (VmInner_new Qemu (r + 1))\<lparr>vm_config := Some entry_example\<rparr>),
       m_config := cfg_empty\<lparr>cfg_bodies := (\<lambda>_. (VmConfigBody_new VmImageConfig_default)
         \<lparr>cb_memory := [\<lparr>rg_ipa_start = 0x80000000, rg_length = 0x40000000\<rparr>]\<rparr>)\<rparr>\<rparr>))
       \<lparr>s_phys := \<lparr>heap = heap_8m, memory = (\<lambda>_. 0)\<rparr>\<rparr>,
     h_region = guest_memory, h_smmu = smmu_example, h_shared = None, h_unilib = [], h_vmdata = (\<lambda>_. VMData_default),
     h_barrier = CPU_FUNC_SYNC\<rparr>"

definition one_gib :: "VmRegionCfg list" where
  "one_gib = [\<lparr>rg_ipa_start = 0x80000000, rg_length = 0x40000000\<rparr>]"

lemma guest_hyp_heap: "heap_src_ok (s_phys (h_s guest_hyp))" "heap_room (s_phys (h_s guest_hyp)) = 2048"
proof -
  have p: "heap (s_phys (h_s guest_hyp)) = heap_8m" by (simp add: guest_hyp_def)
  show "heap_src_ok (s_phys (h_s guest_hyp))" "heap_room (s_phys (h_s guest_hyp)) = 2048"
    unfolding heap_src_ok_def heap_room_def p heap_8m_ok(2,3) using heap_8m_ok(1) by (simp_all add: PAGE_SIZE_def)
qed

lemma guest_hyp_fresh: "cfg_tables one_gib = 513" "r < 7 \<Longrightarrow> fresh_guest guest_hyp r one_gib"
proof -
  show "cfg_tables one_gib = 513"
    by (simp add: cfg_tables_def region_tables_def range_tables_def PAGE_SIZE_def one_gib_def)
  have c: "memory_cfg_ok one_gib" by (simp add: memory_cfg_ok_def region_cfg_ok_def PAGE_SIZE_def one_gib_def)
  show "fresh_guest guest_hyp r one_gib" if "r < 7"
    unfolding fresh_guest_def using that c
    by (simp add: guest_hyp_def sys_reset_def machine_reset_def VM_NUM_MAX_def VmInner_new_def memory_region_def one_gib_def)
qed

lemma guest_hyp_area: "vm_regions_wf (h_region guest_hyp)" "free_area (h_region guest_hyp) = {0x100000000..<0x200000000}"
proof -
  have r: "h_region guest_hyp = guest_memory" by (simp add: guest_hyp_def)
  show "vm_regions_wf (h_region guest_hyp)" unfolding r
    by (simp add: guest_memory_def vm_regions_wf_def region_ok_def span_def PAGE_SIZE_def)
  have "{x \<in> set guest_memory. mr_free x \<noteq> 0} = {\<lparr>mr_base = 0x100000000, mr_size = 0x100000, mr_free = 0x100000, mr_last = 0\<rparr>}"
    by (auto simp: guest_memory_def)
  then show "free_area (h_region guest_hyp) = {0x100000000..<0x200000000}"
    unfolding r free_area_def by (simp only: UN_insert UN_empty Un_empty_right) (simp add: span_def PAGE_SIZE_def)
qed

lemma guest_hyp_ok:
  "free_area (h_region guest_hyp) \<subseteq> {0<..<2 ^ 48}" "\<exists>q \<in> set (h_region guest_hyp). 0x40000 \<le> mr_free q"
  unfolding guest_hyp_area by (auto simp: guest_hyp_def guest_memory_def)

lemma one_gib_fits:
  assumes "\<exists>q \<in> set regs. 0x40000 \<le> mr_free q" shows "\<not> no_room regs one_gib regs'"
proof
  assume "no_room regs one_gib regs'"
  then obtain ps c rest where n: "one_gib = map fst ps @ c # rest" "memory_given regs ps regs'"
    "\<forall>q \<in> set regs'. mr_free q < rg_length c div PAGE_SIZE" unfolding no_room_def by blast
  have "ps = []" "rg_length c = 0x40000000" using n(1) unfolding one_gib_def by (cases ps, auto)+
  then have "regs' = regs" "\<forall>q \<in> set regs'. mr_free q < 0x40000" using n(2,3) by (simp_all add: memory_given_def PAGE_SIZE_def)
  then show False using assms by fastforce
qed

lemma one_gib_region:
  "mem_vm_region_alloc guest_memory 0x40000000 = Some (0x100000000,
     [\<lparr>mr_base = 0x100000000, mr_size = 0x40000, mr_free = 0, mr_last = 0\<rparr>,
      \<lparr>mr_base = 0x140000000, mr_size = 0xc0000, mr_free = 0xc0000, mr_last = 0\<rparr>])"
  by (simp add: guest_memory_def mem_vm_region_alloc_def mem_vm_region_alloc_loop.simps VmRegion_push_def vec_set_def PAGE_SIZE_def)

lemma one_gib_placed:
  assumes "map fst ps = one_gib" obtains pa where "ps = [(\<lparr>rg_ipa_start = 0x80000000, rg_length = 0x40000000\<rparr>, pa)]"
  using assms unfolding one_gib_def by (cases ps) auto

theorem vmm_init_memory_correct_witness:
  "\<exists>h' pa. vmm_init_memory 0 guest_hyp = Some (True, h') \<and>
     guest_view h' 0 [(\<lparr>rg_ipa_start = 0x80000000, rg_length = 0x40000000\<rparr>, pa)] \<and> {pa..<pa + 0x40000000} \<subseteq> {0x100000000..<0x200000000}"
proof -
  have "cfg_tables one_gib < heap_room (s_phys (h_s guest_hyp))" "fresh_guest guest_hyp 0 one_gib"
    unfolding guest_hyp_heap guest_hyp_fresh(1) by (simp, rule guest_hyp_fresh(2)) simp
  from vmm_init_memory_correct[OF guest_hyp_heap(1) this guest_hyp_area(1) guest_hyp_ok(1)] obtain ok h' where r: "vmm_init_memory 0 guest_hyp = Some (ok, h')"
    and post: "if ok then \<exists>ps. map fst ps = one_gib \<and> guest_view h' 0 ps \<and> memory_given (h_region guest_hyp) ps (h_region h')
     else no_room (h_region guest_hyp) one_gib (h_region h')" by blast
  have ok: ok using post one_gib_fits[OF guest_hyp_ok(2)] by (cases ok) simp_all
  from post[unfolded if_P[OF ok]] obtain ps where mp: "map fst ps = one_gib" and given: "guest_view h' 0 ps" "memory_given (h_region guest_hyp) ps (h_region h')" by blast
  obtain pa where "ps = [(\<lparr>rg_ipa_start = 0x80000000, rg_length = 0x40000000\<rparr>, pa)]" using mp by (rule one_gib_placed)
  moreover have "(\<Union>p \<in> set ps. host_span p) \<subseteq> {0x100000000..<0x200000000}" using given(2) unfolding memory_given_def guest_hyp_area(2) by blast
  ultimately show ?thesis using r ok given(1) by (auto simp: host_span_def)
qed

lemma one_gib_added:
  assumes "heap_src_ok (s_phys (h_s h))" "513 < heap_room (s_phys (h_s h))" "fresh_guest h r one_gib"
    "vm_regions_wf (h_region h)" "free_area (h_region h) \<subseteq> {0<..<2 ^ 48}" "\<exists>q \<in> set (h_region h). 0x40000 \<le> mr_free q"
  shows "\<exists>h' pa. vmm_init_memory r h = Some (True, h') \<and> heap_src_ok (s_phys (h_s h')) \<and> heap_room (s_phys (h_s h)) \<le> heap_room (s_phys (h_s h')) + 514 \<and>
    (\<forall>q. q \<noteq> r \<longrightarrow> fresh_guest h q one_gib \<longrightarrow> fresh_guest h' q one_gib) \<and> vm_regions_wf (h_region h') \<and>
    free_area (h_region h') = free_area (h_region h) - {pa..<pa + 0x40000000} \<and>
    mem_vm_region_alloc (h_region h) 0x40000000 = Some (pa, h_region h')"
proof -
  have pg: "cfg_tables one_gib = 513" unfolding guest_hyp_fresh(1) by simp
  have "cfg_tables one_gib < heap_room (s_phys (h_s h))" unfolding pg using assms(2) .
  note spec = vmm_init_memory_spec[OF assms(1) this assms(3-5)]
  obtain ok h' where r: "vmm_init_memory r h = Some (ok, h')" and post: "if ok then \<exists>ps. map fst ps = one_gib \<and>
         guest_view h' r ps \<and> memory_given (h_region h) ps (h_region h') \<and> only_new_pages (s_phys (h_s h)) (s_phys (h_s h')) \<and>
         heap_room (s_phys (h_s h)) \<le> heap_room (s_phys (h_s h')) + 1 + cfg_tables one_gib \<and>
         (\<forall>q. q \<noteq> r \<longrightarrow> guest h' q = guest h q) \<and> m_config (s_m (h_s h')) = m_config (s_m (h_s h)) \<and>
         length (m_vm_if_list (s_m (h_s h'))) = length (m_vm_if_list (s_m (h_s h)))
     else no_room (h_region h) one_gib (h_region h')" using spec by blast
  have ok: ok using post one_gib_fits[OF assms(6)] by (cases ok) simp_all
  from post[unfolded if_P[OF ok]] obtain ps where ps: "map fst ps = one_gib" "memory_given (h_region h) ps (h_region h')"
    "only_new_pages (s_phys (h_s h)) (s_phys (h_s h'))" "heap_room (s_phys (h_s h)) \<le> heap_room (s_phys (h_s h')) + 1 + cfg_tables one_gib"
    "\<forall>q. q \<noteq> r \<longrightarrow> guest h' q = guest h q" "m_config (s_m (h_s h')) = m_config (s_m (h_s h))"
    "length (m_vm_if_list (s_m (h_s h'))) = length (m_vm_if_list (s_m (h_s h)))" by blast
  obtain pa where pa: "ps = [(\<lparr>rg_ipa_start = 0x80000000, rg_length = 0x40000000\<rparr>, pa)]" using ps(1) by (rule one_gib_placed)
  have "free_area (h_region h') = free_area (h_region h) - {pa..<pa + 0x40000000}" "vm_regions_wf (h_region h')"
    "mem_vm_region_alloc (h_region h) 0x40000000 = Some (pa, h_region h')"
    using ps(2) unfolding pa by (auto simp: memory_given_def host_span_def panic_simps split: if_splits)
  moreover have "\<forall>q. q \<noteq> r \<longrightarrow> fresh_guest h q one_gib \<longrightarrow> fresh_guest h' q one_gib"
    using ps(5) unfolding fresh_guest_def ps(6,7) by simp
  ultimately show ?thesis using r ok ps(3,4) unfolding pg only_new_pages_def by auto
qed

theorem guests_isolated_witness:
  "\<exists>h1 h2 pa qa. vmm_init_memory 0 guest_hyp = Some (True, h1) \<and> vmm_init_memory 1 h1 = Some (True, h2) \<and>
     guest_view h2 0 [(\<lparr>rg_ipa_start = 0x80000000, rg_length = 0x40000000\<rparr>, pa)] \<and>
     guest_view h2 1 [(\<lparr>rg_ipa_start = 0x80000000, rg_length = 0x40000000\<rparr>, qa)] \<and> {pa..<pa + 0x40000000} \<inter> {qa..<qa + 0x40000000} = {}"
proof -
  have fresh: "fresh_guest guest_hyp 0 one_gib" "fresh_guest guest_hyp 1 one_gib" by (rule guest_hyp_fresh(2); simp)+
  have room: "513 < heap_room (s_phys (h_s guest_hyp))"
    "cfg_tables one_gib + cfg_tables one_gib + 1 < heap_room (s_phys (h_s guest_hyp))"
    unfolding guest_hyp_heap guest_hyp_fresh(1) by simp_all
  have ne: "(1::nat) \<noteq> 0" by simp
  from one_gib_added[OF guest_hyp_heap(1) room(1) fresh(1) guest_hyp_area(1) guest_hyp_ok] obtain h1 pa where
    1: "vmm_init_memory 0 guest_hyp = Some (True, h1)" "heap_src_ok (s_phys (h_s h1))"
    "heap_room (s_phys (h_s guest_hyp)) \<le> heap_room (s_phys (h_s h1)) + 514" "\<forall>q. q \<noteq> 0 \<longrightarrow> fresh_guest guest_hyp q one_gib \<longrightarrow> fresh_guest h1 q one_gib"
    "vm_regions_wf (h_region h1)" "free_area (h_region h1) = free_area (h_region guest_hyp) - {pa..<pa + 0x40000000}"
    "mem_vm_region_alloc (h_region guest_hyp) 0x40000000 = Some (pa, h_region h1)" by blast
  have f1: "fresh_guest h1 1 one_gib" using 1(4) fresh(2) ne by blast
  have r1: "513 < heap_room (s_phys (h_s h1))" using 1(3) unfolding guest_hyp_heap(2) by simp
  have a1: "free_area (h_region h1) \<subseteq> {0<..<2 ^ 48}" using guest_hyp_ok(1) unfolding 1(6) by blast
  have n1: "\<exists>q \<in> set (h_region h1). 0x40000 \<le> mr_free q"
  proof -
    have "mem_vm_region_alloc guest_memory 0x40000000 = Some (pa, h_region h1)" using 1(7) by (simp add: guest_hyp_def)
    then have "h_region h1 = [\<lparr>mr_base = 0x100000000, mr_size = 0x40000, mr_free = 0, mr_last = 0\<rparr>,
        \<lparr>mr_base = 0x140000000, mr_size = 0xc0000, mr_free = 0xc0000, mr_last = 0\<rparr>]" unfolding one_gib_region by simp
    then show ?thesis by simp
  qed
  obtain h2 where 2: "vmm_init_memory 1 h1 = Some (True, h2)" using one_gib_added[OF 1(2) r1 f1 1(5) a1 n1] by blast
  from guests_isolated[OF guest_hyp_heap(1) room(2) fresh ne guest_hyp_area(1) guest_hyp_ok(1) 1(1) 2] obtain ps qs where
    g: "map fst ps = one_gib" "map fst qs = one_gib" "guest_view h2 0 ps" "guest_view h2 1 qs"
    "sorted_wrt (\<lambda>x y. host_span x \<inter> host_span y = {}) (ps @ qs)" by blast
  obtain a where a: "ps = [(\<lparr>rg_ipa_start = 0x80000000, rg_length = 0x40000000\<rparr>, a)]" using g(1) by (rule one_gib_placed)
  obtain b where b: "qs = [(\<lparr>rg_ipa_start = 0x80000000, rg_length = 0x40000000\<rparr>, b)]" using g(2) by (rule one_gib_placed)
  have "{a..<a + 0x40000000} \<inter> {b..<b + 0x40000000} = {}" using g(5) unfolding a b by (simp add: host_span_def)
  with 1(1) 2 g(3,4) show ?thesis unfolding a b by blast
qed

end
