(* ===== verification/Fdt.thy ===== *)
theory Fdt
  imports Machine
begin

text \<open>
  \<open>src/src/device/device_tree.rs\<close>: the device tree of a guest, as the sequence of calls that
  \<open>create_fdt\<close> makes of the writer of the \<open>vm_fdt\<close> crate, and \<open>vmm_setup_fdt\<close> of \<open>src/src/vmm/init.rs\<close>,
  which patches the tree of the manager guest, as the sequence of calls of the C library.  What the two
  libraries do with the calls is not part of this repository.
\<close>

section \<open>Writer calls\<close>

datatype FdtEvent =
    BeginNode string
  | PropString string string
  | PropU32 string u32
  | PropArrayU32 string "u32 list"
  | PropArrayU64 string "u64 list"
  | PropNull string
  | EndNode

text \<open>The bytes of a Rust string as characters, and \<open>{:x}\<close>.\<close>

definition chars :: "rust_string \<Rightarrow> string" where
  "chars s = map (\<lambda>b. char_of (unat b)) s"

definition hex_digit :: "nat \<Rightarrow> char" where
  "hex_digit d = ''0123456789abcdef'' ! d"

function hex :: "nat \<Rightarrow> string" where
  "hex n = (if n < 16 then [hex_digit n] else hex (n div 16) @ [hex_digit (n mod 16)])"
  by auto
termination by (relation "measure id") auto

declare hex.simps [simp del]

text \<open>\<open>u32::count_ones\<close>.\<close>

definition count_ones32 :: "u32 \<Rightarrow> nat" where
  "count_ones32 w = count_ones (ucast w)"

definition as_u32 :: "usize \<Rightarrow> u32" where
  "as_u32 n = of_nat n"

text \<open>\<open>irq as u32 - 32\<close>: interrupts below 32 panic.\<close>

definition spi_cell :: "usize \<Rightarrow> u32 option" where
  "spi_cell irq = (if as_u32 irq < 32 then None else Some (as_u32 irq - 32))"

definition create_memory_node :: "Config \<Rightarrow> VmConfigEntry \<Rightarrow> FdtEvent list option" where
  "create_memory_node c e = do {
     region \<leftarrow> vec_get (memory_region c e) 0;
     Some [BeginNode (''memory@'' @ hex (rg_ipa_start region)), PropString ''device_type'' ''memory'',
       PropArrayU64 ''reg'' (concat (map (\<lambda>g. [of_nat (rg_ipa_start g), of_nat (rg_length g)]) (memory_region c e))), EndNode] }"

definition create_timer_node :: "u32 \<Rightarrow> FdtEvent list" where
  "create_timer_node trigger_lvl =
     [BeginNode ''timer'', PropString ''compatible'' ''arm,armv8-timer'',
      PropArrayU32 ''interrupts'' [0x1, 0xd, trigger_lvl, 0x1, 0xe, trigger_lvl, 0x1, 0xb, trigger_lvl, 0x1, 0xa, trigger_lvl],
      EndNode]"

definition create_cpu_node :: "Config \<Rightarrow> VmConfigEntry \<Rightarrow> FdtEvent list" where
  "create_cpu_node c e =
     [BeginNode ''cpus'', PropU32 ''#size-cells'' 0, PropU32 ''#address-cells'' 0x2] @
     concat (map (\<lambda>cpu_id. [BeginNode (''cpu@'' @ hex cpu_id), PropString ''compatible'' ''arm,cortex-a57'',
        PropString ''device_type'' ''cpu'', PropString ''enable-method'' ''psci'',
        PropArrayU32 ''reg'' [0, as_u32 cpu_id], EndNode]) [0..<count_ones32 (cpu_allocated_bitmap c e)]) @
     [EndNode]"

fun create_serial_node :: "VmDtbDevConfig list \<Rightarrow> FdtEvent list option" where
  "create_serial_node [] = Some []"
| "create_serial_node (dev # rest) =
     (if dd_dev_type dev = DevSerial then do {
        irq \<leftarrow> vec_get (dd_irqs dev) 0;
        n \<leftarrow> usub irq 32;
        es \<leftarrow> create_serial_node rest;
        Some ([BeginNode (''serial@'' @ hex (dd_ipa dev)), PropString ''compatible'' ''ns16550'',
          PropArrayU64 ''reg'' [of_nat (dd_ipa dev), 0x1000], PropU32 ''reg-shift'' 0x2,
          PropArrayU32 ''interrupts'' [0x0, as_u32 n, 0x4], PropU32 ''clock-frequency'' 408000000, EndNode] @ es) }
      else create_serial_node rest)"

definition create_chosen_node :: "rust_string \<Rightarrow> usize \<Rightarrow> usize \<Rightarrow> FdtEvent list option" where
  "create_chosen_node cmdline ipa sz = do {
     fin \<leftarrow> uadd ipa sz;
     Some [BeginNode ''chosen'', PropString ''bootargs'' (chars cmdline), PropU32 ''linux,initrd-start'' (as_u32 ipa),
       PropU32 ''linux,initrd-end'' (as_u32 fin), EndNode] }"

definition create_gic_node :: "usize \<Rightarrow> usize \<Rightarrow> FdtEvent list" where
  "create_gic_node c_addr d_addr =
     [BeginNode (''interrupt-controller@'' @ hex d_addr), PropU32 ''phandle'' 0x8001,
      PropArrayU64 ''reg'' [of_nat d_addr, 0x1000, of_nat c_addr, 0x2000], PropString ''compatible'' ''arm,gic-400'',
      PropU32 ''#interrupt-cells'' 0x03, PropNull ''interrupt-controller'', EndNode]"

definition create_virtio_node :: "rust_string \<Rightarrow> usize \<Rightarrow> usize \<Rightarrow> FdtEvent list option" where
  "create_virtio_node name irq address = do {
     n \<leftarrow> spi_cell irq;
     Some [BeginNode (chars name), PropNull ''dma-coherent'', PropString ''compatible'' ''virtio,mmio'',
       PropArrayU32 ''interrupts'' [0, n, 0x1], PropArrayU64 ''reg'' [of_nat address, 0x400], EndNode] }"

definition create_shyper_node :: "rust_string \<Rightarrow> usize \<Rightarrow> usize \<Rightarrow> usize \<Rightarrow> FdtEvent list option" where
  "create_shyper_node name irq address len = do {
     n \<leftarrow> spi_cell irq;
     Some ([BeginNode (chars name), PropString ''compatible'' ''shyper'', PropArrayU32 ''interrupts'' [0, n, 0x1]] @
       (if address \<noteq> 0 \<and> len \<noteq> 0 then [PropArrayU64 ''reg'' [of_nat address, of_nat len]] else []) @ [EndNode]) }"

fun create_device_nodes :: "VmEmulatedDeviceConfig list \<Rightarrow> FdtEvent list option" where
  "create_device_nodes [] = Some []"
| "create_device_nodes (d # ds) = do {
     es \<leftarrow> (case ed_emu_type d of
         EmuDeviceTVirtioBlk \<Rightarrow> do { name \<leftarrow> ed_name d; create_virtio_node name (ed_irq_id d) (ed_base_ipa d) }
       | EmuDeviceTVirtioNet \<Rightarrow> do { name \<leftarrow> ed_name d; create_virtio_node name (ed_irq_id d) (ed_base_ipa d) }
       | EmuDeviceTVirtioConsole \<Rightarrow> do { name \<leftarrow> ed_name d; create_virtio_node name (ed_irq_id d) (ed_base_ipa d) }
       | EmuDeviceTShyper \<Rightarrow> do { name \<leftarrow> ed_name d; create_shyper_node name (ed_irq_id d) (ed_base_ipa d) (ed_length d) }
       | _ \<Rightarrow> Some []);
     fs \<leftarrow> create_device_nodes ds;
     Some (es @ fs) }"

text \<open>
  \<open>write\<close> is the writer: the bytes of the tree, or the error of the first call it refuses.  The last
  argument is the length of the ramdisk bound into the image.
\<close>

definition fdt_events :: "Config \<Rightarrow> VmConfigEntry \<Rightarrow> usize \<Rightarrow> FdtEvent list option" where
  "fdt_events c e ramdisk_len = do {
     mem \<leftarrow> create_memory_node c e;
     chosen \<leftarrow> create_chosen_node (ce_cmdline e) (ramdisk_load_ipa c e) ramdisk_len;
     serial \<leftarrow> (if length (dtb_device_list c e) > 0 then create_serial_node (dtb_device_list c e) else Some []);
     devs \<leftarrow> create_device_nodes (emulated_device_list c e);
     Some ([BeginNode ''root'', PropString ''compatible'' ''linux,dummy-virt'', PropU32 ''#address-cells'' 0x2,
         PropU32 ''#size-cells'' 0x2, PropU32 ''interrupt-parent'' 0x8001,
         BeginNode ''psci'', PropString ''compatible'' ''arm,psci-1.0'', PropString ''method'' ''smc'',
         PropArrayU32 ''interrupts'' [0x1, 0x7, 0x4], EndNode] @
       mem @ create_timer_node 0x8 @ chosen @ create_cpu_node c e @ serial @
       create_gic_node (gicc_addr c e) (gicd_addr c e) @ devs @ [EndNode]) }"

definition create_fdt :: "(FdtEvent list \<Rightarrow> unit + u8 list) \<Rightarrow> Config \<Rightarrow> VmConfigEntry \<Rightarrow> usize \<Rightarrow> (unit + u8 list) option" where
  "create_fdt write c e ramdisk_len = do { es \<leftarrow> fdt_events c e ramdisk_len; Some (write es) }"

section \<open>The tree of the manager guest\<close>

datatype FdtCall =
    FdtSetMemory "(u64 \<times> u64) list" string
  | FdtAddTimer u32
  | FdtSetBootcmd rust_string
  | FdtSetStdoutPath string
  | FdtSetupGic u64 u64 rust_string
  | FdtAddVirtio rust_string u32 u64
  | FdtAddVmService u32 u64 u64

definition GICC_BASE :: "Board \<Rightarrow> usize" where
  "GICC_BASE b = (case b of Pi4 \<Rightarrow> 0xFF842000 | Qemu \<Rightarrow> 0x08010000 | Tx2 \<Rightarrow> 0x3882000)"

definition fdt_memory_node :: "Board \<Rightarrow> string" where
  "fdt_memory_node b = (case b of Tx2 \<Rightarrow> ''memory@90000000'' | Pi4 \<Rightarrow> ''memory@200000'' | Qemu \<Rightarrow> ''memory@50000000'')"

definition fdt_device_call :: "Board \<Rightarrow> VmEmulatedDeviceConfig \<Rightarrow> FdtCall list option" where
  "fdt_device_call b d = (case ed_emu_type d of
       EmuDeviceTGicd \<Rightarrow> do {
         name \<leftarrow> ed_name d;
         Some [if b = Pi4 then FdtSetupGic (of_nat (GICD_BASE b) OR 0xF00000000) (of_nat (GICC_BASE b) OR 0xF00000000) name
               else FdtSetupGic (of_nat (GICD_BASE b)) (of_nat (GICC_BASE b)) name] }
     | EmuDeviceTVirtioNet \<Rightarrow>
         if b = Pi4 then Some []
         else do { name \<leftarrow> ed_name d; n \<leftarrow> spi_cell (ed_irq_id d); Some [FdtAddVirtio name n (of_nat (ed_base_ipa d))] }
     | EmuDeviceTVirtioConsole \<Rightarrow>
         if b = Pi4 then Some []
         else do { name \<leftarrow> ed_name d; n \<leftarrow> spi_cell (ed_irq_id d); Some [FdtAddVirtio name n (of_nat (ed_base_ipa d))] }
     | EmuDeviceTShyper \<Rightarrow>
         if b = Pi4 then Some []
         else do { n \<leftarrow> spi_cell (ed_irq_id d); Some [FdtAddVmService n (of_nat (ed_base_ipa d)) (of_nat (ed_length d))] }
     | EmuDeviceTIOMMU \<Rightarrow> Some []
     | _ \<Rightarrow> None)"

definition vmm_setup_fdt :: "Board \<Rightarrow> Config \<Rightarrow> VmConfigEntry \<Rightarrow> FdtCall list option" where
  "vmm_setup_fdt b c e = do {
     devs \<leftarrow> fold_opt (\<lambda>d cs. do { x \<leftarrow> fdt_device_call b d; Some (cs @ x) }) (emulated_device_list c e) [];
     Some ([FdtSetMemory (map (\<lambda>g. (of_nat (rg_ipa_start g), of_nat (rg_length g))) (memory_region c e)) (fdt_memory_node b),
       FdtAddTimer 0x8, FdtSetBootcmd (ce_cmdline e)] @
       (if b = Tx2 then [FdtSetStdoutPath ''/serial@3100000''] else []) @ devs) }"

end
