(* ===== verification/VmmInit.thy ===== *)
theory VmmInit
  imports GuestInit Emu NetProps Psci Fdt
begin

text \<open>
  Setting up a guest: \<open>src/src/vmm/init.rs\<close>, with the shared memory of \<open>src/src/kernel/ivc.rs\<close>, and how
  a core enters a guest (\<open>vcpu_run\<close>, \<open>vmm_boot\<close>).  The memory of the guest is theory \<open>GuestInit\<close>.
\<close>

section \<open>What is bound into the image\<close>

text \<open>
  The files included at build time, the device tree the boot loader left, and the two device tree
  libraries: the writer crate, and the C library that patches a tree in memory.
\<close>

record Bound =
  bd_l4t :: "u8 list"
  bd_vanilla :: "u8 list"
  bd_pi4 :: "u8 list"
  bd_ramdisk :: "u8 list"
  bd_static_config :: bool
  bd_system_fdt :: "u8 list option"
  bd_fdt_write :: "FdtEvent list \<Rightarrow> unit + u8 list"
  bd_fdt_call :: "usize \<Rightarrow> FdtCall \<Rightarrow> Bytes \<Rightarrow> Bytes"

definition copy_in :: "usize \<Rightarrow> u8 list \<Rightarrow> Bytes \<Rightarrow> Bytes" where
  "copy_in dst bs mem = (\<lambda>a. if dst \<le> a \<and> a < dst + length bs then bs ! (a - dst) else mem a)"

text \<open>\<open>vm.pa_start(idx)\<close> and \<open>vm.pa_length(idx)\<close>.\<close>

definition vm_pa_start :: "Machine \<Rightarrow> VmRef \<Rightarrow> usize \<Rightarrow> usize option" where
  "vm_pa_start m r idx = do { v \<leftarrow> vec_get (vm_pa_region (m_vms m r)) idx; Some (pa_start v) }"

definition vm_pa_length :: "Machine \<Rightarrow> VmRef \<Rightarrow> usize \<Rightarrow> usize option" where
  "vm_pa_length m r idx = do { v \<leftarrow> vec_get (vm_pa_region (m_vms m r)) idx; Some (pa_length v) }"

section \<open>Images\<close>

fun load_region :: "usize \<Rightarrow> usize \<Rightarrow> (nat \<times> VmRegionCfg) list \<Rightarrow> (nat \<times> usize) option" where
  "load_region load_ipa sz [] = None"
| "load_region load_ipa sz ((idx, region) # rest) =
     (if load_ipa < rg_ipa_start region then load_region load_ipa sz rest
      else do {
        a \<leftarrow> uadd load_ipa sz;
        b \<leftarrow> uadd (rg_ipa_start region) (rg_length region);
        if a > b then load_region load_ipa sz rest else Some (idx, load_ipa - rg_ipa_start region) })"

text \<open>An image that fits no region is a panic, as is an address in the first page with tracing on.\<close>

definition vmm_load_image :: "VmRef \<Rightarrow> u8 list \<Rightarrow> Sys \<Rightarrow> Sys option" where
  "vmm_load_image r bin s = do {
     e \<leftarrow> vm_config (m_vms (s_m s) r);
     let c = m_config (s_m s);
     (idx, offset) \<leftarrow> load_region (kernel_load_ipa c e) (length bin) (enumerate 0 (memory_region c e));
     pa \<leftarrow> vm_pa_start (s_m s) r idx;
     dst \<leftarrow> uadd pa offset;
     assert_that (\<not> (m_trace (s_m s) \<and> dst < 0x1000));
     Some (s\<lparr>s_mem := copy_in dst bin (s_mem s)\<rparr>) }"

text \<open>Where a part of the guest outside the kernel goes: it counts from the start of the first region.\<close>

definition first_region_pa :: "VmRef \<Rightarrow> VmConfigEntry \<Rightarrow> usize \<Rightarrow> Sys \<Rightarrow> usize option" where
  "first_region_pa r e ipa s = do {
     region \<leftarrow> vec_get (memory_region (m_config (s_m s)) e) 0;
     offset \<leftarrow> usub ipa (rg_ipa_start region);
     pa \<leftarrow> vm_pa_start (s_m s) r 0;
     uadd pa offset }"

text \<open>The names \<open>L4T\<close> and \<open>Image_vanilla\<close>.\<close>

definition L4T :: rust_string where "L4T = [0x4c, 0x34, 0x54]"

definition Image_vanilla :: rust_string where
  "Image_vanilla = [0x49, 0x6d, 0x61, 0x67, 0x65, 0x5f, 0x76, 0x61, 0x6e, 0x69, 0x6c, 0x6c, 0x61]"

definition load_named_image :: "Bound \<Rightarrow> VmRef \<Rightarrow> rust_string \<Rightarrow> Sys \<Rightarrow> Sys option" where
  "load_named_image bd r name s = (case m_board (s_m s) of
       Tx2 \<Rightarrow>
         if name = L4T then vmm_load_image r (bd_l4t bd) s
         else if name = Image_vanilla then (if bd_static_config bd then vmm_load_image r (bd_vanilla bd) s else Some s)
         else Some s
     | Pi4 \<Rightarrow> if name = [] then None else vmm_load_image r (bd_pi4 bd) s
     | Qemu \<Rightarrow> if name = [] then None else vmm_load_image r (bd_vanilla bd) s)"

definition vmm_init_dtb :: "Bound \<Rightarrow> VmRef \<Rightarrow> VmConfigEntry \<Rightarrow> Sys \<Rightarrow> Sys option" where
  "vmm_init_dtb bd r e s = do {
     let c = m_config (s_m s);
     if vm_id (m_vms (s_m s) r) = 0 then do {
       dst \<leftarrow> first_region_pa r e (device_tree_load_ipa c e) s;
       s \<leftarrow> on_m (\<lambda>m. Some (upd_vm r (\<lambda>x. x\<lparr>vm_dtb := Some dst\<rparr>) m)) s;
       src \<leftarrow> bd_system_fdt bd;
       calls \<leftarrow> vmm_setup_fdt (m_board (s_m s)) c e;
       Some (s\<lparr>s_mem := fold (bd_fdt_call bd dst) calls (copy_in dst src (s_mem s))\<rparr>) }
     else do {
       res \<leftarrow> create_fdt (bd_fdt_write bd) c e (length (bd_ramdisk bd));
       case res of
         Inl _ \<Rightarrow> None
       | Inr dtb \<Rightarrow> do {
           dst \<leftarrow> first_region_pa r e (device_tree_load_ipa c e) s;
           assert_that (\<not> dst < 0x1000);
           Some (s\<lparr>s_mem := copy_in dst dtb (s_mem s)\<rparr>) } } }"

definition vmm_init_image :: "Bound \<Rightarrow> VmRef \<Rightarrow> Sys \<Rightarrow> (bool \<times> Sys) option" where
  "vmm_init_image bd r s = do {
     e \<leftarrow> vm_config (m_vms (s_m s) r);
     let c = m_config (s_m s);
     if kernel_load_ipa c e = 0 then Some (False, s)
     else do {
       s \<leftarrow> on_m (\<lambda>m. Some (upd_vm r (\<lambda>x. x\<lparr>vm_entry_point := kernel_entry_point c e\<rparr>) m)) s;
       s \<leftarrow> (if ce_os_type e = VmTOs then
               (case im_kernel_img_name (cb_image (cfg_bodies c (ce_body e))) of
                  Some name \<Rightarrow> load_named_image bd r name s
                | None \<Rightarrow> Some s)
             else Some s);
       s \<leftarrow> (if device_tree_load_ipa c e \<noteq> 0 then vmm_init_dtb bd r e s else Some s);
       s \<leftarrow> (if ramdisk_load_ipa c e \<noteq> 0 then do {
               dst \<leftarrow> first_region_pa r e (ramdisk_load_ipa c e) s;
               Some (s\<lparr>s_mem := copy_in dst (bd_ramdisk bd) (s_mem s)\<rparr>) }
             else Some s);
       Some (True, s) } }"

section \<open>Devices\<close>

definition SHARED_MEM_SIZE_MAX :: usize where "SHARED_MEM_SIZE_MAX = 0x200000"

definition mem_shared_mem_init :: "Hyp \<Rightarrow> Hyp option" where
  "mem_shared_mem_init h =
     (if h_shared h = None then do {
        (res, p) \<leftarrow> mem_pages_alloc (s_phys (h_s h)) (SHARED_MEM_SIZE_MAX div PAGE_SIZE);
        let h = h\<lparr>h_s := (h_s h)\<lparr>s_phys := p\<rparr>\<rparr>;
        Some (case res of Inr frame \<Rightarrow> h\<lparr>h_shared := Some frame\<rparr> | Inl _ \<Rightarrow> h) }
      else Some h)"

definition shyper_init :: "VmRef \<Rightarrow> usize \<Rightarrow> usize \<Rightarrow> Hyp \<Rightarrow> (bool \<times> Hyp) option" where
  "shyper_init r base_ipa len h =
     (if base_ipa = 0 \<or> len = 0 then Some (True, h)
      else case h_shared h of
        Some page_frame \<Rightarrow> do {
          h \<leftarrow> on_s (vm_pt_map_range r base_ipa len (pf_pa page_frame) PTE_S2_NORMAL True) h;
          Some (True, h) }
      | None \<Rightarrow> Some (False, h))"

definition set_intc_dev_id :: "VmRef \<Rightarrow> usize \<Rightarrow> Machine \<Rightarrow> Machine" where
  "set_intc_dev_id r idx = upd_vm r (\<lambda>x. x\<lparr>vm_intc_dev_id := idx\<rparr>)"

definition set_if_mac :: "usize \<Rightarrow> usize list \<Rightarrow> Machine \<Rightarrow> Machine option" where
  "set_if_mac vmid cfg m = do {
     x \<leftarrow> vec_get (m_vm_if_list m) vmid;
     mac \<leftarrow> for_range 0 6 (\<lambda>i mac. do { v \<leftarrow> vec_get cfg i; vec_set mac i (of_nat v) }) (if_mac x);
     upd_vm_if vmid (\<lambda>x. x\<lparr>if_mac := mac\<rparr>) m }"

definition register_cfg_dev :: "VmRef \<Rightarrow> usize \<Rightarrow> VmEmulatedDeviceConfig \<Rightarrow> EmuDevHandler \<Rightarrow> Hyp \<Rightarrow> Hyp option" where
  "register_cfg_dev r idx d f = on_s (on_m (\<lambda>m.
     emu_register_dev (ed_emu_type d) (vm_id (m_vms m r)) idx (ed_base_ipa d) (ed_length d) f m))"

definition on_s_ret :: "(Sys \<Rightarrow> ('a \<times> Sys) option) \<Rightarrow> Hyp \<Rightarrow> ('a \<times> Hyp) option" where
  "on_s_ret f h = do { (x, s) \<leftarrow> f (h_s h); Some (x, h\<lparr>h_s := s\<rparr>) }"

definition on_iommu :: "(Machine \<times> SmmuV2 \<Rightarrow> ('a \<times> Machine \<times> SmmuV2) option) \<Rightarrow> Hyp \<Rightarrow> ('a \<times> Hyp) option" where
  "on_iommu f h = do {
     (x, m, smmu) \<leftarrow> f (s_m (h_s h), h_smmu h);
     Some (x, h\<lparr>h_s := (h_s h)\<lparr>s_m := m\<rparr>, h_smmu := smmu\<rparr>) }"

text \<open>One device of the configuration; the result says whether the loop goes on.\<close>

definition init_emulated_dev :: "VmRef \<Rightarrow> usize \<Rightarrow> VmEmulatedDeviceConfig \<Rightarrow> Hyp \<Rightarrow> (bool \<times> Hyp) option" where
  "init_emulated_dev r idx d h = (case ed_emu_type d of
       EmuDeviceTGicd \<Rightarrow> do {
         h \<leftarrow> on_s (on_m (\<lambda>m. Some (set_intc_dev_id r idx m))) h;
         h \<leftarrow> register_cfg_dev r idx d emu_intc_handler_fn h;
         h \<leftarrow> on_s (on_m (emu_intc_init r idx)) h;
         Some (True, h) }
     | EmuDeviceTGPPT \<Rightarrow> do {
         h \<leftarrow> on_s (on_m (\<lambda>m. Some (set_intc_dev_id r idx m))) h;
         h \<leftarrow> register_cfg_dev r idx d partial_passthrough_intc_handler_fn h;
         h \<leftarrow> on_s (on_m (\<lambda>m. Some (partial_passthrough_intc_init r m))) h;
         Some (True, h) }
     | EmuDeviceTVirtioBlk \<Rightarrow> do {
         h \<leftarrow> register_cfg_dev r idx d emu_virtio_mmio_handler_fn h;
         on_s_ret (emu_virtio_mmio_init r idx (ed_mediated d)) h }
     | EmuDeviceTVirtioNet \<Rightarrow> do {
         h \<leftarrow> register_cfg_dev r idx d emu_virtio_mmio_handler_fn h;
         (ok, h) \<leftarrow> on_s_ret (emu_virtio_mmio_init r idx (ed_mediated d)) h;
         if \<not> ok then Some (False, h)
         else do {
           h \<leftarrow> on_s (on_m (\<lambda>m. set_if_mac (vm_id (m_vms m r)) (ed_cfg_list d) m)) h;
           Some (True, h) } }
     | EmuDeviceTVirtioConsole \<Rightarrow> do {
         h \<leftarrow> register_cfg_dev r idx d emu_virtio_mmio_handler_fn h;
         on_s_ret (emu_virtio_mmio_init r idx (ed_mediated d)) h }
     | EmuDeviceTIOMMU \<Rightarrow> do {
         h \<leftarrow> register_cfg_dev r idx d emu_smmu_handler_fn h;
         on_iommu (iommmu_vm_init r) h }
     | EmuDeviceTShyper \<Rightarrow> shyper_init r (ed_base_ipa d) (ed_length d) h
     | _ \<Rightarrow> Some (False, h))"

text \<open>A loop that ends at the first element whose step fails.\<close>

fun while_ok :: "('a \<Rightarrow> 's \<Rightarrow> (bool \<times> 's) option) \<Rightarrow> 'a list \<Rightarrow> 's \<Rightarrow> (bool \<times> 's) option" where
  "while_ok f [] s = Some (True, s)"
| "while_ok f (x # xs) s = do { (ok, s) \<leftarrow> f x s; if ok then while_ok f xs s else Some (False, s) }"

definition vmm_init_emulated_device :: "VmRef \<Rightarrow> Hyp \<Rightarrow> (bool \<times> Hyp) option" where
  "vmm_init_emulated_device r h = do {
     e \<leftarrow> vm_config (m_vms (s_m (h_s h)) r);
     while_ok (\<lambda>(idx, d). init_emulated_dev r idx d) (enumerate 0 (emulated_device_list (m_config (s_m (h_s h))) e)) h }"

definition vmm_init_passthrough_device :: "VmRef \<Rightarrow> Hyp \<Rightarrow> (bool \<times> Hyp) option" where
  "vmm_init_passthrough_device r h = do {
     e \<leftarrow> vm_config (m_vms (s_m (h_s h)) r);
     let c = m_config (s_m (h_s h));
     h \<leftarrow> fold_opt (\<lambda>g. on_s (vm_pt_map_range r (pr_ipa g) (pr_length g) (pr_pa g)
            (if pr_dev_property g then PTE_S2_DEVICE else PTE_S2_NORMAL) True)) (passthrough_device_regions c e) h;
     while_ok (\<lambda>irq. on_s_ret (on_m_ret (interrupt_vm_register r irq))) (passthrough_device_irqs c e) h }"

text \<open>The list of stream identifiers ends at the first 0.\<close>

definition vmm_init_iommu_device :: "VmRef \<Rightarrow> Hyp \<Rightarrow> (bool \<times> Hyp) option" where
  "vmm_init_iommu_device r h = do {
     e \<leftarrow> vm_config (m_vms (s_m (h_s h)) r);
     while_ok (\<lambda>stream_id. on_iommu (iommu_add_device r stream_id))
       (takeWhile (\<lambda>i. i \<noteq> 0) (passthrough_device_stread_ids (m_config (s_m (h_s h))) e)) h }"

section \<open>Set-up\<close>

text \<open>A step of the set-up that reports failure is a panic.\<close>

definition or_panic :: "(Hyp \<Rightarrow> (bool \<times> Hyp) option) \<Rightarrow> Hyp \<Rightarrow> Hyp option" where
  "or_panic f h = do { (ok, h) \<leftarrow> f h; assert_that ok; Some h }"

definition vmm_setup_config :: "Bound \<Rightarrow> usize \<Rightarrow> Hyp \<Rightarrow> Hyp option" where
  "vmm_setup_config bd vmid h = do {
     r \<leftarrow> vm_lookup (s_m (h_s h)) vmid;
     config \<leftarrow> vm_cfg_entry (m_config (s_m (h_s h))) vmid;
     assert_that (ce_name config \<noteq> None);
     assert_that (\<not> vmid \<ge> VM_NUM_MAX);
     h \<leftarrow> or_panic (vmm_init_memory r) h;
     h \<leftarrow> or_panic (on_s_ret (vmm_init_image bd r)) h;
     h \<leftarrow> or_panic (vmm_init_emulated_device r) h;
     h \<leftarrow> or_panic (vmm_init_passthrough_device r) h;
     h \<leftarrow> or_panic (vmm_init_iommu_device r) h;
     h \<leftarrow> on_s (\<lambda>s. Some (add_async_used_info vmid s)) h;
     e \<leftarrow> vm_config (m_vms (s_m (h_s h)) r);
     assert_that (ce_name e \<noteq> None);
     Some h }"

definition set_ready :: "VmRef \<Rightarrow> bool \<Rightarrow> Machine \<Rightarrow> Machine" where
  "set_ready r b = upd_vm r (\<lambda>x. x\<lparr>vm_ready := b\<rparr>)"

text \<open>Run by each core the guest may use; the last one marks the guest ready.\<close>

definition vmm_cpu_assign_vcpu :: "usize \<Rightarrow> Machine \<Rightarrow> Machine option" where
  "vmm_cpu_assign_vcpu vmid m = do {
     let cid = this_cpu m;
     r \<leftarrow> vm_lookup m vmid;
     e \<leftarrow> vm_config (m_vms m r);
     let num = cfg_cpu_num (m_config m) e;
     let bitmap = cpu_allocated_bitmap (m_config m) e;
     assert_that (num = count_ones32 bitmap);
     assert_that (cid < 32);
     m \<leftarrow> (if bit bitmap cid then do {
             (vo, m) \<leftarrow> select_vcpu2assign r cid m;
             v \<leftarrow> vo;
             append_vcpu v m }
           else Some m);
     Some (if num = vm_cpu_num (m_vms m r) then set_ready r True m else m) }"

section \<open>Entering a guest\<close>

text \<open>
  \<open>vcpu_run\<close> and \<open>cpu_idle\<close> do not return: the state is the one in which the core enters its guest
  at the context it holds, waits for interrupts, or has asked the firmware for a reset.
\<close>


definition vcpu_run :: "bool \<Rightarrow> Sys \<Rightarrow> (Control \<times> Sys) option" where
  "vcpu_run announce s = do {
     v \<leftarrow> active_vcpu (s_m s);
     r \<leftarrow> vc_vm (m_vcpus (s_m s) v);
     s \<leftarrow> on_m (\<lambda>m. Some (upd_cpu (\<lambda>c. c\<lparr>cpu_state := CpuRun\<rparr>) m)) s;
     s \<leftarrow> on_m (\<lambda>m. do { i \<leftarrow> active_vm_id m; vm_if_set_state i VmActive m }) s;
     s \<leftarrow> on_m (context_vm_restore v) s;
     s \<leftarrow> (if announce then virtio_net_announce r s else Some s);
     assert_that (cpu_ctx (m_cpu (s_m s)) \<noteq> None);
     Some (Enters, s) }"

definition vmm_boot :: "Sys \<Rightarrow> (Control \<times> Sys) option" where
  "vmm_boot s = do {
     first \<leftarrow> (if cpu_assigned (s_m s) then do { i \<leftarrow> active_vcpu_id (s_m s); Some (i = 0) } else Some False);
     if first then vcpu_run False s
     else do { s \<leftarrow> on_m (\<lambda>m. Some (cpu_idle m)) s; Some (Idles, s) } }"

text \<open>\<open>curpct\<close> is the value of the physical counter.\<close>

definition vmm_migrate_boot :: "u64 \<Rightarrow> Sys \<Rightarrow> (Control \<times> Sys) option" where
  "vmm_migrate_boot curpct s = do {
     v \<leftarrow> active_vcpu (s_m s);
     s \<leftarrow> on_m (\<lambda>m. reset_vmpidr v m) s;
     s \<leftarrow> on_m (reset_vtimer_offset curpct v) s;
     vcpu_run True s }"

end
