(* ===== verification/VmmManager.thy ===== *)
theory VmmManager
  imports VmmInit
begin

text \<open>
  \<open>src/src/vmm/manager.rs\<close> and \<open>src/src/vmm/remove.rs\<close>: creating, starting, resetting, listing and removing
  guests.
\<close>

section \<open>Clearing memory\<close>

definition memset_safe :: "usize \<Rightarrow> u8 \<Rightarrow> usize \<Rightarrow> Bytes \<Rightarrow> Bytes option" where
  "memset_safe a c n mem = do {
     assert_that (\<not> a < 0x1000);
     Some (\<lambda>x. if a \<le> x \<and> x < a + n then c else mem x) }"

section \<open>A new guest\<close>

definition vmm_push_vm :: "usize \<Rightarrow> Machine \<Rightarrow> Machine option" where
  "vmm_push_vm vmid m = (case push_vm vmid m of
     (Inl _, m) \<Rightarrow> Some m
   | (Inr _, m) \<Rightarrow> do {
       r \<leftarrow> vm_lookup m vmid;
       case vm_cfg_entry (m_config m) vmid of
         None \<Rightarrow> Some m
       | Some e \<Rightarrow>
           let ty = vm_type (m_config m) vmid in
           vm_if_set_type vmid ty (upd_vm r (\<lambda>x. x\<lparr>vm_config := Some e,
             vm_priority := (case ty of VmTOs \<Rightarrow> 1 | VmTBma \<Rightarrow> 10)\<rparr>) m) })"

fun alloc_vcpus :: "VmRef \<Rightarrow> nat list \<Rightarrow> Machine \<Rightarrow> Machine option" where
  "alloc_vcpus r [] m = Some m"
| "alloc_vcpus r (i # is) m = (case vcpu_alloc m of
     (Some v, m) \<Rightarrow> do { m \<leftarrow> vcpu_init r v i m; alloc_vcpus r is (push_vcpu r v m) }
   | (None, m) \<Rightarrow> Some m)"

definition vmm_alloc_vcpu :: "usize \<Rightarrow> Machine \<Rightarrow> Machine option" where
  "vmm_alloc_vcpu vmid m = do {
     r \<leftarrow> vm_lookup m vmid;
     e \<leftarrow> vm_config (m_vms m r);
     alloc_vcpus r [0..<cfg_cpu_num (m_config m) e] m }"

text \<open>The loop over the allocation bitmap ends with the last set bit, or at the last core.\<close>

fun assign_cores :: "nat \<Rightarrow> usize \<Rightarrow> u32 \<Rightarrow> usize \<Rightarrow> Machine \<Rightarrow> Machine option" where
  "assign_cores 0 vmid bitmap target m = Some m"
| "assign_cores (Suc n) vmid bitmap target m =
     (if bitmap = 0 then Some m
      else do {
        m \<leftarrow> (if bitmap AND 1 \<noteq> 0 then
                (if target \<noteq> this_cpu m then do {
                   (_, m) \<leftarrow> ipi_send_msg target IpiTVMM (VmmMsg vmid VmmAssignCpu) m; Some m }
                 else vmm_cpu_assign_vcpu vmid m)
              else Some m);
        assign_cores n vmid (drop_bit 1 bitmap) (target + 1) m })"

text \<open>\<open>others\<close> is what the other cores do to the hypervisor in one period of waiting.\<close>

partial_function (option) wait_ready :: "(Hyp \<Rightarrow> Hyp) \<Rightarrow> VmRef \<Rightarrow> Hyp \<Rightarrow> Hyp option" where
  "wait_ready others r h = (if vm_ready (m_vms (s_m (h_s h)) r) then Some h else wait_ready others r (others h))"

definition vmm_set_up_cpu :: "(Hyp \<Rightarrow> Hyp) \<Rightarrow> usize \<Rightarrow> Hyp \<Rightarrow> Hyp option" where
  "vmm_set_up_cpu others vmid h = do {
     r \<leftarrow> vm_lookup (s_m (h_s h)) vmid;
     h \<leftarrow> on_s (on_m (vmm_alloc_vcpu vmid)) h;
     e \<leftarrow> vm_config (m_vms (s_m (h_s h)) r);
     h \<leftarrow> on_s (on_m (\<lambda>m. assign_cores PLATFORM_CPU_NUM_MAX vmid (cpu_allocated_bitmap (m_config m) e) 0 m)) h;
     wait_ready others r h }"

definition vmm_init_gvm :: "Bound \<Rightarrow> (Hyp \<Rightarrow> Hyp) \<Rightarrow> usize \<Rightarrow> Hyp \<Rightarrow> Hyp option" where
  "vmm_init_gvm bd others vmid h = do {
     let m = s_m (h_s h);
     ok \<leftarrow> (if this_cpu m = 0 then Some True
            else do { i \<leftarrow> active_vm_id m; Some (i = 0 \<and> i \<noteq> vmid) });
     if ok then do {
       h \<leftarrow> on_s (on_m (vmm_push_vm vmid)) h;
       h \<leftarrow> vmm_set_up_cpu others vmid h;
       vmm_setup_config bd vmid h }
     else Some h }"

section \<open>Starting and resetting\<close>

definition vmm_boot_vm :: "usize \<Rightarrow> Sys \<Rightarrow> (Control \<times> Sys) option" where
  "vmm_boot_vm vmid s = do {
     phys_id \<leftarrow> vm_if_get_cpu_id (s_m s) vmid;
     if phys_id \<noteq> this_cpu (s_m s) then do {
       (_, s) \<leftarrow> on_m_ret (ipi_send_msg phys_id IpiTVMM (VmmMsg vmid VmmBoot)) s;
       Some (Returns, s) }
     else do {
       vo \<leftarrow> pop_vcpu_through_vmid (s_m s) vmid;
       v \<leftarrow> vo;
       s \<leftarrow> on_m (\<lambda>m. sched_yield_to v (clear_current_irq m)) s;
       vmm_boot s } }"

text \<open>The memory of the guest is cleared region by region.\<close>

definition clear_regions :: "VmRef \<Rightarrow> nat \<Rightarrow> Sys \<Rightarrow> Sys option" where
  "clear_regions r n = for_range 0 n (\<lambda>idx s. do {
     a \<leftarrow> vm_pa_start (s_m s) r idx;
     len \<leftarrow> vm_pa_length (s_m s) r idx;
     mem \<leftarrow> memset_safe a 0 len (s_mem s);
     Some (s\<lparr>s_mem := mem\<rparr>) })"

definition HVC_CONFIG :: usize where "HVC_CONFIG = 0x11"
definition HVC_CONFIG_UPLOAD_KERNEL_IMAGE :: usize where "HVC_CONFIG_UPLOAD_KERNEL_IMAGE = 9"
definition HVC_VMM_REBOOT_VM :: usize where "HVC_VMM_REBOOT_VM = 4"

definition vmm_load_image_from_mvm :: "VmRef \<Rightarrow> Sys \<Rightarrow> Sys option" where
  "vmm_load_image_from_mvm r s = do {
     (_, s) \<leftarrow> hvc_send_msg_to_vm 0 (HvcManageMsg HVC_CONFIG HVC_CONFIG_UPLOAD_KERNEL_IMAGE (vm_id (m_vms (s_m s) r))) s;
     Some s }"

text \<open>Resetting the manager guest resets the board.\<close>

definition vmm_reboot :: "Bound \<Rightarrow> Sys \<Rightarrow> (Control \<times> Sys) option" where
  "vmm_reboot bd s = do {
     r \<leftarrow> active_vm (s_m s);
     let ident = vm_id (m_vms (s_m s) r);
     if ident = 0 then Some (Resets, s)
     else do {
       v \<leftarrow> active_vcpu (s_m s);
       s \<leftarrow> on_m (power_arch_vm_shutdown_secondary_cores r) s;
       s \<leftarrow> clear_regions r (vm_mem_region_num (m_vms (s_m s) r)) s;
       (ok, s) \<leftarrow> vmm_init_image bd r s;
       assert_that ok;
       s \<leftarrow> on_m (vm_if_set_ivc_arg ident 0) s;
       s \<leftarrow> on_m (vm_if_set_ivc_arg_ptr ident 0) s;
       s \<leftarrow> on_m interrupt_arch_clear s;
       wo \<leftarrow> vm_vcpu (s_m s) r 0;
       w \<leftarrow> wo;
       s \<leftarrow> on_m (vcpu_arch_init r w) s;
       s \<leftarrow> on_m (reset_context v) s;
       returning (vmm_load_image_from_mvm r) s } }"

text \<open>The argument packs the guest and whether the reset is forced.\<close>

definition vmm_reboot_vm :: "Bound \<Rightarrow> usize \<Rightarrow> Sys \<Rightarrow> (Control \<times> Sys) option" where
  "vmm_reboot_vm bd arg s = do {
     let vmid = take_bit 16 arg;
     let force = (take_bit 16 (drop_bit 16 arg) \<noteq> 0);
     cur \<leftarrow> active_vm (s_m s);
     if force then
       (if vm_id (m_vms (s_m s) cur) = vmid then vmm_reboot bd s
        else do {
          cpu_trgt \<leftarrow> vm_if_get_cpu_id (s_m s) vmid;
          (_, s) \<leftarrow> on_m_ret (ipi_send_msg cpu_trgt IpiTVMM (VmmMsg vmid VmmReboot)) s;
          Some (Returns, s) })
     else do {
       (_, s) \<leftarrow> hvc_send_msg_to_vm vmid (HvcManageMsg 1 HVC_VMM_REBOOT_VM vmid) s;
       Some (Returns, s) } }"

section \<open>Information for a guest\<close>

definition get_vm_id :: "usize \<Rightarrow> Sys \<Rightarrow> (bool \<times> Sys) option" where
  "get_vm_id id_ipa s = do {
     r \<leftarrow> active_vm (s_m s);
     id_pa \<leftarrow> sys_ipa2pa s r id_ipa;
     if id_pa = 0 then Some (False, s)
     else Some (True, s\<lparr>s_mem := write_usize id_pa (vm_id (m_vms (s_m s) r)) (s_mem s)\<rparr>) }"

definition write_u32 :: "usize \<Rightarrow> usize \<Rightarrow> Bytes \<Rightarrow> Bytes" where
  "write_u32 a v mem = (\<lambda>x. if a \<le> x \<and> x < a + 4 then of_nat (v div 256 ^ (x - a)) else mem x)"

definition vm_type_num :: "VmType \<Rightarrow> usize" where
  "vm_type_num t = (case t of VmTOs \<Rightarrow> 0 | VmTBma \<Rightarrow> 1)"

definition vm_state_num :: "VmState \<Rightarrow> usize" where
  "vm_state_num t = (case t of VmInv \<Rightarrow> 0 | VmPending \<Rightarrow> 1 | VmActive \<Rightarrow> 2)"

text \<open>
  \<open>VMInfoList\<close> as \<open>repr(C)\<close> places it: the count, then entries of 44 bytes.  The name is copied with the
  length of the field from a buffer that has only the bytes of the name; \<open>past\<close> is what follows it on the
  heap.  An empty name has no buffer, which \<open>memcpy_safe\<close> refuses.
\<close>

definition VM_INFO_SIZE :: usize where "VM_INFO_SIZE = 44"

definition list_vm_entry :: "(usize \<Rightarrow> u8) \<Rightarrow> usize \<Rightarrow> nat \<times> usize \<Rightarrow> Sys \<Rightarrow> Sys option" where
  "list_vm_entry past base = (\<lambda>(idx, vmid) s. (case vm_cfg_entry (m_config (s_m s)) vmid of
     None \<Rightarrow> Some s
   | Some e \<Rightarrow> do {
       st \<leftarrow> vm_if_get_state (s_m s) vmid;
       assert_that (idx < VM_NUM_MAX);
       let a = base + 8 + VM_INFO_SIZE * idx;
       let mem = write_u32 a vmid (s_mem s);
       let mem = write_u32 (a + 36) (vm_type_num (vm_type (m_config (s_m s)) vmid)) mem;
       let mem = write_u32 (a + 40) (vm_state_num st) mem;
       let name = vm_name e;
       assert_that (name \<noteq> []);
       let mem = copy_in (a + 4) (take NAME_MAX_LEN (name @ map past [0..<NAME_MAX_LEN])) mem;
       assert_that (length name < NAME_MAX_LEN);
       Some (s\<lparr>s_mem := mem(a + 4 + length name := 0)\<rparr>) }))"

definition vmm_list_vm :: "(usize \<Rightarrow> u8) \<Rightarrow> usize \<Rightarrow> Sys \<Rightarrow> ((unit + usize) \<times> Sys) option" where
  "vmm_list_vm past vm_info_ipa s = do {
     r \<leftarrow> active_vm (s_m s);
     pa \<leftarrow> sys_ipa2pa s r vm_info_ipa;
     if pa = 0 then Some (Inl (), s)
     else do {
       let s = s\<lparr>s_mem := write_usize pa (vm_num (m_config (s_m s))) (s_mem s)\<rparr>;
       s \<leftarrow> fold_opt (list_vm_entry past pa) (enumerate 0 (vm_id_list (m_config (s_m s)))) s;
       Some (Inr 0, s) } }"

section \<open>Removing a guest\<close>

definition vmm_cpu_remove_vcpu :: "usize \<Rightarrow> Machine \<Rightarrow> (Control \<times> Machine) option" where
  "vmm_cpu_remove_vcpu vmid m = do {
     (v, m) \<leftarrow> remove_vcpu vmid m;
     m \<leftarrow> sched_sleep v m;
     if va_len (cpu_vcpu_array (m_cpu m)) = 0 then Some (Idles, cpu_idle (clear_current_irq m))
     else Some (Returns, m) }"

definition vmm_remove_vcpu :: "VmRef \<Rightarrow> Machine \<Rightarrow> (Control \<times> Machine) option" where
  "vmm_remove_vcpu r m0 = for_each (\<lambda>idx m. do {
     vo \<leftarrow> vm_vcpu m r idx;
     v \<leftarrow> vo;
     m \<leftarrow> vcpu_remove v m;
     if vc_phys_id (m_vcpus m v) = this_cpu m then vmm_cpu_remove_vcpu (vm_id (m_vms m r)) m
     else do {
       (_, m) \<leftarrow> ipi_send_msg (vc_phys_id (m_vcpus m v)) IpiTVMM (VmmMsg (vm_id (m_vms m r)) VmmRemoveCpu) m;
       Some (Returns, m) } }) [0..<vm_cpu_num (m_vms m0 r)] m0"

text \<open>The devices go in the order of the configuration, until one that cannot be removed.\<close>

fun remove_emu_devs :: "usize \<Rightarrow> (nat \<times> VmEmulatedDeviceConfig) list \<Rightarrow> Machine \<Rightarrow> Machine option" where
  "remove_emu_devs vmid [] m = Some m"
| "remove_emu_devs vmid ((idx, d) # ds) m =
     (if \<not> removable (ed_emu_type d) then Some m
      else do { m \<leftarrow> emu_remove_dev vmid idx (ed_base_ipa d) (ed_length d) m; remove_emu_devs vmid ds m })"

definition vmm_remove_emulated_device :: "VmRef \<Rightarrow> Machine \<Rightarrow> Machine option" where
  "vmm_remove_emulated_device r m = do {
     e \<leftarrow> vm_config (m_vms m r);
     remove_emu_devs (vm_id (m_vms m r)) (enumerate 0 (emulated_device_list (m_config m) e)) m }"

definition vmm_remove_passthrough_device :: "VmRef \<Rightarrow> Machine \<Rightarrow> Machine option" where
  "vmm_remove_passthrough_device r m = do {
     e \<leftarrow> vm_config (m_vms m r);
     fold_opt (\<lambda>irq m. if irq > GIC_SGIS_NUM then interrupt_vm_remove irq m else Some m)
       (passthrough_device_irqs (m_config m) e) m }"

definition vmm_remove_vm_list :: "usize \<Rightarrow> Machine \<Rightarrow> Machine option" where
  "vmm_remove_vm_list vmid m = do { (r, m) \<leftarrow> remove_vm vmid m; Some (clear_list r m) }"

text \<open>Each region is cleared and given back.\<close>

definition free_region :: "VmRef \<Rightarrow> nat \<Rightarrow> Hyp \<Rightarrow> Hyp option" where
  "free_region r idx h = do {
     a \<leftarrow> vm_pa_start (s_m (h_s h)) r idx;
     len \<leftarrow> vm_pa_length (s_m (h_s h)) r idx;
     mem \<leftarrow> memset_safe a 0 len (s_mem (h_s h));
     regs \<leftarrow> mem_vm_region_free (h_region h) a len;
     Some (h\<lparr>h_s := (h_s h)\<lparr>s_mem := mem\<rparr>, h_region := regs\<rparr>) }"

definition free_regions :: "VmRef \<Rightarrow> Hyp \<Rightarrow> Hyp option" where
  "free_regions r h = for_range 0 (length (vm_pa_region (m_vms (s_m (h_s h)) r))) (free_region r) h"

definition vmm_remove_vm :: "usize \<Rightarrow> Hyp \<Rightarrow> (Control \<times> Hyp) option" where
  "vmm_remove_vm vmid h =
     (if vmid = 0 then Some (Returns, h)
      else case vm_lookup (s_m (h_s h)) vmid of
        None \<Rightarrow> Some (Returns, h)
      | Some r \<Rightarrow> and_then (on_s_ret (on_m_ret (vmm_remove_vcpu r)) h) (returning (\<lambda>h. do {
          h \<leftarrow> on_s (on_m (vm_if_reset vmid)) h;
          h \<leftarrow> free_regions r h;
          h \<leftarrow> on_s (on_m (vmm_remove_emulated_device r)) h;
          h \<leftarrow> on_s (on_m (vmm_remove_passthrough_device r)) h;
          h \<leftarrow> on_s (remove_vm_async_task vmid) h;
          h \<leftarrow> on_s (\<lambda>s. Some (remove_async_used_info vmid s)) h;
          h \<leftarrow> on_s (on_m (vmm_remove_vm_list vmid)) h;
          h \<leftarrow> on_s (on_m (\<lambda>m. do { c \<leftarrow> vm_cfg_remove_vm_entry vmid (m_config m); Some (m\<lparr>m_config := c\<rparr>) })) h;
          Some (h\<lparr>h_unilib := AList.delete vmid (h_unilib h)\<rparr>) })))"

section \<open>Messages\<close>

definition vmm_ipi_handler :: "Bound \<Rightarrow> IpiMessage \<Rightarrow> Sys \<Rightarrow> (Control \<times> Sys) option" where
  "vmm_ipi_handler bd msg s = (case ipi_message msg of
     VmmMsg vmid ev \<Rightarrow> (case ev of
         VmmBoot \<Rightarrow> vmm_boot_vm vmid s
       | VmmReboot \<Rightarrow> vmm_reboot bd s
       | VmmAssignCpu \<Rightarrow> returning (on_m (vmm_cpu_assign_vcpu vmid)) s
       | VmmRemoveCpu \<Rightarrow> on_m_ret (vmm_cpu_remove_vcpu vmid) s
       | VmmShutdown \<Rightarrow> None)
   | _ \<Rightarrow> Some (Returns, s))"

end
