(* ===== verification/Migrate.thy ===== *)
theory Migrate
  imports VmmManager
begin

text \<open>
  Moving a guest to another machine: \<open>src/src/kernel/migrate.rs\<close>, with the parts of \<open>Vm\<close> in
  \<open>src/src/kernel/vm.rs\<close> that serve it.  The guest keeps running while its memory is copied in rounds: its
  pages are made read-only, and a write to one is recorded in the dirty map before the page is opened again.
\<close>

section \<open>Shared memory\<close>

definition MIGRATE_BITMAP :: usize where "MIGRATE_BITMAP = 0"
definition VM_CONTEXT_SEND :: usize where "VM_CONTEXT_SEND = 1"
definition VM_CONTEXT_RECEIVE :: usize where "VM_CONTEXT_RECEIVE = 2"
definition MIGRATE_SEND :: usize where "MIGRATE_SEND = 3"
definition MIGRATE_RECEIVE :: usize where "MIGRATE_RECEIVE = 4"

section \<open>Access permissions\<close>

definition PTE_S2_FIELD_AP_RO :: u64 where "PTE_S2_FIELD_AP_RO = push_bit 6 0b01"
definition PTE_S2_FIELD_AP_RW :: u64 where "PTE_S2_FIELD_AP_RW = push_bit 6 0b11"

definition vm_pt_set_access_permission :: "VmRef \<Rightarrow> usize \<Rightarrow> u64 \<Rightarrow> Sys \<Rightarrow> ((usize \<times> usize) \<times> Sys) option" where
  "vm_pt_set_access_permission r ipa ap s = do {
     pt \<leftarrow> vm_pt (m_vms (s_m s) r);
     (pa, len, p) \<leftarrow> access_permission pt (s_phys s) ipa PAGE_SIZE ap;
     Some ((pa, len), s\<lparr>s_phys := p\<rparr>) }"

definition read_only_region :: "VmRef \<Rightarrow> PageTable \<Rightarrow> nat \<Rightarrow> Sys \<Rightarrow> Sys option" where
  "read_only_region r pt i s = do {
     v \<leftarrow> vec_get (vm_pa_region (m_vms (s_m s) r)) i;
     ipa_start \<leftarrow> uadd (pa_start v) (as_usize (pa_offset v));
     (_, _, p) \<leftarrow> access_permission pt (s_phys s) ipa_start (pa_length v) PTE_S2_FIELD_AP_RO;
     Some (s\<lparr>s_phys := p\<rparr>) }"

definition vm_pt_read_only :: "VmRef \<Rightarrow> Sys \<Rightarrow> Sys option" where
  "vm_pt_read_only r s = do {
     pt \<leftarrow> vm_pt (m_vms (s_m s) r);
     for_range 0 (vm_mem_region_num (m_vms (s_m s) r)) (read_only_region r pt) s }"

section \<open>The dirty map\<close>

definition store_words :: "usize \<Rightarrow> u64 list \<Rightarrow> (usize \<Rightarrow> u64) \<Rightarrow> (usize \<Rightarrow> u64)" where
  "store_words pa ws mem = (\<lambda>a. if pa \<le> a \<and> a < pa + 8 * length ws \<and> (a - pa) mod 8 = 0 then ws ! ((a - pa) div 8) else mem a)"

definition vm_if_copy_mem_map :: "usize \<Rightarrow> Sys \<Rightarrow> Sys option" where
  "vm_if_copy_mem_map vmid s = do {
     x \<leftarrow> vec_get (m_vm_if_list (s_m s)) vmid;
     b \<leftarrow> if_mem_map x;
     pf \<leftarrow> if_mem_map_cache x;
     assert_that (\<not> pf_pa pf < 0x1000);
     let p = (s_phys s)\<lparr>memory := store_words (pf_pa pf) (flex_map b) (memory (s_phys s))\<rparr>;
     on_m (vm_if_clear_mem_map vmid) (s\<lparr>s_phys := p\<rparr>) }"

text \<open>
  A write to a read-only page: the page becomes writable, and its bit is set in the dirty map.  The
  page is found again in the list of regions by its host address.
\<close>

definition migrate_data_abort_handler :: "EmuContext \<Rightarrow> Sys \<Rightarrow> Sys option" where
  "migrate_data_abort_handler ctx s =
     (if ec_write ctx then do {
        r \<leftarrow> active_vm (s_m s);
        ((pa, len), s) \<leftarrow> vm_pt_set_access_permission r (ec_address ctx) PTE_S2_FIELD_AP_RW s;
        let regions = vm_pa_region (m_vms (s_m s) r);
        if regions = [] then Some s
        else do {
          b \<leftarrow> page_bit regions pa 0;
          on_m (vm_if_set_mem_map (vm_id (m_vms (s_m s) r)) b (len div PAGE_SIZE)) s } }
      else None)"

section \<open>Messages to the manager guest\<close>

definition send_migrate_memcpy_msg :: "usize \<Rightarrow> Sys \<Rightarrow> Sys option" where
  "send_migrate_memcpy_msg vmid s = do {
     n \<leftarrow> vm_if_mem_map_page_num (s_m s) vmid;
     (_, s) \<leftarrow> hvc_send_msg_to_vm 0 (HvcMigrateMsg HVC_VMM HVC_VMM_MIGRATE_START vmid MIGRATE_COPY n) s;
     Some s }"

definition MIGRATE_FINISH :: usize where "MIGRATE_FINISH = 2"

definition migrate_finish_ipi_handler :: "usize \<Rightarrow> Sys \<Rightarrow> Sys option" where
  "migrate_finish_ipi_handler vmid s = do {
     s \<leftarrow> vm_if_copy_mem_map vmid s;
     n \<leftarrow> vm_if_mem_map_page_num (s_m s) vmid;
     (_, s) \<leftarrow> hvc_send_msg_to_vm 0 (HvcMigrateMsg HVC_VMM HVC_VMM_MIGRATE_START vmid MIGRATE_FINISH n) s;
     Some s }"

section \<open>The guest's memory in the address space of the manager guest\<close>

definition map_migrate_vm_mem :: "VmRef \<Rightarrow> usize \<Rightarrow> Sys \<Rightarrow> Sys option" where
  "map_migrate_vm_mem r ipa_start s = do {
     (_, s) \<leftarrow> for_range 0 (length (vm_pa_region (m_vms (s_m s) r))) (\<lambda>i (len, s). do {
       a \<leftarrow> active_vm (s_m s);
       n \<leftarrow> vm_pa_length (s_m s) r i;
       pa \<leftarrow> vm_pa_start (s_m s) r i;
       ipa \<leftarrow> uadd ipa_start len;
       s \<leftarrow> vm_pt_map_range a ipa n pa PTE_S2_NORMAL True s;
       len \<leftarrow> uadd len n;
       Some (len, s) }) (0, s);
     Some s }"

definition unmap_migrate_vm_mem :: "VmRef \<Rightarrow> usize \<Rightarrow> Sys \<Rightarrow> Sys option" where
  "unmap_migrate_vm_mem r ipa_start s = do {
     (_, s) \<leftarrow> for_range 0 (length (vm_pa_region (m_vms (s_m s) r))) (\<lambda>i (len, s). do {
       a \<leftarrow> active_vm (s_m s);
       n \<leftarrow> vm_pa_length (s_m s) r i;
       ipa \<leftarrow> uadd ipa_start len;
       s \<leftarrow> vm_pt_unmap_range a ipa n True s;
       len \<leftarrow> uadd len n;
       Some (len, s) }) (0, s);
     Some s }"

definition migrate_ready :: "usize \<Rightarrow> Sys \<Rightarrow> Sys option" where
  "migrate_ready vmid s = do {
     c \<leftarrow> vm_if_mem_map_cache (s_m s) vmid;
     if c \<noteq> None then Some s
     else do {
       r \<leftarrow> vm_lookup (s_m s) vmid;
       ipa \<leftarrow> get_share_mem s MIGRATE_SEND;
       s \<leftarrow> map_migrate_vm_mem r ipa s;
       n \<leftarrow> vm_if_mem_map_page_num (s_m s) vmid;
       (res, p) \<leftarrow> mem_pages_alloc (s_phys s) n;
       let s = s\<lparr>s_phys := p\<rparr>;
       case res of
         Inl _ \<Rightarrow> None
       | Inr pf \<Rightarrow> do {
           a \<leftarrow> active_vm (s_m s);
           ipa \<leftarrow> get_share_mem s MIGRATE_BITMAP;
           len \<leftarrow> umul PAGE_SIZE n;
           s \<leftarrow> vm_pt_map_range a ipa len (pf_pa pf) PTE_S2_RO True s;
           on_m (vm_if_set_mem_map_cache vmid pf) s } } }"

section \<open>The state of the guest\<close>

text \<open>\<open>sz\<close> is \<open>size_of::<VMData>()\<close>.\<close>

definition context_pages :: "usize \<Rightarrow> phys \<Rightarrow> ((AllocError + PageFrame) \<times> usize \<times> phys) option" where
  "context_pages sz p = do {
     n \<leftarrow> round_up sz PAGE_SIZE;
     (res, p) \<leftarrow> mem_pages_alloc p (n div PAGE_SIZE);
     Some (res, n, p) }"

definition context_vm_migrate_init :: "usize \<Rightarrow> VmRef \<Rightarrow> Hyp \<Rightarrow> Hyp option" where
  "context_vm_migrate_init sz r h = do {
     mvm \<leftarrow> vm_lookup (s_m (h_s h)) 0;
     (res, n, p) \<leftarrow> context_pages sz (s_phys (h_s h));
     let h = h\<lparr>h_s := (h_s h)\<lparr>s_phys := p\<rparr>\<rparr>;
     case res of
       Inl _ \<Rightarrow> None
     | Inr pf \<Rightarrow> do {
         ipa \<leftarrow> get_share_mem (h_s h) VM_CONTEXT_RECEIVE;
         h \<leftarrow> on_s (vm_pt_map_range mvm ipa n (pf_pa pf) PTE_S2_NORMAL True) h;
         let h = h\<lparr>h_vmdata := (h_vmdata h)(pf_pa pf := VMData_default)\<rparr>;
         on_s (on_m (\<lambda>m. Some (upd_vm r (\<lambda>x. x\<lparr>vm_migrate_restore_pf := vm_migrate_restore_pf x @ [pf]\<rparr>) m))) h } }"

definition vm_cpuid_map :: "Machine \<Rightarrow> VmRef \<Rightarrow> (usize \<rightharpoonup> usize) option" where
  "vm_cpuid_map m r = for_range 0 (vm_cpu_num (m_vms m r)) (\<lambda>vcpu_id mp. do {
     p \<leftarrow> vcpuid_to_pcpuid m r vcpu_id;
     case p of Inr pcpu \<Rightarrow> Some (mp(pcpu \<mapsto> vcpu_id)) | Inl _ \<Rightarrow> None }) Map.empty"

definition vm_vcpuid_map :: "Machine \<Rightarrow> VmRef \<Rightarrow> (usize \<rightharpoonup> usize) option" where
  "vm_vcpuid_map m r = for_range 0 (vm_cpu_num (m_vms m r)) (\<lambda>vcpu_id mp. do {
     p \<leftarrow> vcpuid_to_pcpuid m r vcpu_id;
     case p of Inr pcpu \<Rightarrow> Some (mp(vcpu_id \<mapsto> pcpu)) | Inl _ \<Rightarrow> None }) Map.empty"

text \<open>
  The contexts of the virtual CPUs.  The source writes the fields of a fresh page one by one; what it
  does not write is read here as the default value, where the source reads what the page held.
\<close>

definition save_vcpu :: "Machine \<Rightarrow> VmRef \<Rightarrow> nat \<Rightarrow> VMData \<Rightarrow> VMData option" where
  "save_vcpu m r i d = do {
     vo \<leftarrow> vm_vcpu m r i;
     v \<leftarrow> vo;
     let x = m_vcpus m v;
     a \<leftarrow> vec_set (vmc_vm_ctx d) i (vc_vm_ctx x);
     b \<leftarrow> vec_set (vmc_vcpu_ctx d) i (vc_vcpu_ctx x);
     c \<leftarrow> vec_set (vmc_gic_ctx d) i (vc_gic_ctx x);
     Some (d\<lparr>vmc_vm_ctx := a, vmc_vcpu_ctx := b, vmc_gic_ctx := c\<rparr>) }"

definition restore_vcpu :: "VMData \<Rightarrow> VmRef \<Rightarrow> nat \<Rightarrow> Machine \<Rightarrow> Machine option" where
  "restore_vcpu d r i m = do {
     vo \<leftarrow> vm_vcpu m r i;
     v \<leftarrow> vo;
     a \<leftarrow> vec_get (vmc_vm_ctx d) i;
     b \<leftarrow> vec_get (vmc_vcpu_ctx d) i;
     c \<leftarrow> vec_get (vmc_gic_ctx d) i;
     Some (upd_vcpu v (\<lambda>x. x\<lparr>vc_vm_ctx := a, vc_vcpu_ctx := b, vc_gic_ctx := c\<rparr>) m) }"

text \<open>The devices.\<close>

definition save_mmio_dev :: "(VirtioMmioData \<Rightarrow> EmuDevData) \<Rightarrow> nat \<Rightarrow> MmioRef \<Rightarrow> VMData \<times> Sys \<Rightarrow> (VMData \<times> Sys) option" where
  "save_mmio_dev con idx q = (\<lambda>(d, s). do {
     (i, x) \<leftarrow> save_mmio_data (s_mmio s q) VirtioMmioData_default;
     ds \<leftarrow> vec_set (vmc_emu_devs d) idx (con x);
     Some (d\<lparr>vmc_emu_devs := ds\<rparr>, upd_mmio q (\<lambda>_. i) s) })"

definition save_dev :: "(usize \<rightharpoonup> usize) \<Rightarrow> nat \<times> EmuDevs \<Rightarrow> VMData \<times> Sys \<Rightarrow> (VMData \<times> Sys) option" where
  "save_dev cpuid_map = (\<lambda>(idx, emu) (d, s). (case emu of
       EmuVgic g \<Rightarrow> do {
         x \<leftarrow> save_vgic_data (s_m s) g cpuid_map (vmc_vgic_ctx d);
         Some (d\<lparr>vmc_vgic_ctx := x\<rparr>, s) }
     | EmuVirtioBlk q \<Rightarrow> save_mmio_dev DataVirtioBlk idx q (d, s)
     | EmuVirtioNet q \<Rightarrow> save_mmio_dev DataVirtioNet idx q (d, s)
     | EmuVirtioConsole q \<Rightarrow> save_mmio_dev DataVirtioConsole idx q (d, s)
     | EmuNone \<Rightarrow> Some (d, s)))"

definition restore_mmio_dev :: "VirtioMmioData \<Rightarrow> VmRef \<Rightarrow> MmioRef \<Rightarrow> Sys \<Rightarrow> Sys option" where
  "restore_mmio_dev x r q s = do {
     i \<leftarrow> restore_mmio_data x (vm_pa_region (m_vms (s_m s) r)) (s_mmio s q);
     Some (upd_mmio q (\<lambda>_. i) s) }"

definition restore_dev :: "VMData \<Rightarrow> VmRef \<Rightarrow> (usize \<rightharpoonup> usize) \<Rightarrow> nat \<times> EmuDevs \<Rightarrow> Sys \<Rightarrow> Sys option" where
  "restore_dev d r vcpuid_map = (\<lambda>(idx, emu) s. (case emu of
       EmuVgic g \<Rightarrow> on_m (restore_vgic_data (vmc_vgic_ctx d) (vm_vcpu_list (m_vms (s_m s) r)) vcpuid_map g) s
     | EmuVirtioBlk q \<Rightarrow> do { e \<leftarrow> vec_get (vmc_emu_devs d) idx; case e of DataVirtioBlk x \<Rightarrow> restore_mmio_dev x r q s | _ \<Rightarrow> Some s }
     | EmuVirtioNet q \<Rightarrow> do { e \<leftarrow> vec_get (vmc_emu_devs d) idx; case e of DataVirtioNet x \<Rightarrow> restore_mmio_dev x r q s | _ \<Rightarrow> Some s }
     | EmuVirtioConsole q \<Rightarrow> do { e \<leftarrow> vec_get (vmc_emu_devs d) idx; case e of DataVirtioConsole x \<Rightarrow> restore_mmio_dev x r q s | _ \<Rightarrow> Some s }
     | EmuNone \<Rightarrow> Some s))"

definition context_vm_migrate_save :: "usize \<Rightarrow> VmRef \<Rightarrow> Hyp \<Rightarrow> Hyp option" where
  "context_vm_migrate_save sz r h = do {
     mvm \<leftarrow> vm_lookup (s_m (h_s h)) 0;
     (res, n, p) \<leftarrow> context_pages sz (s_phys (h_s h));
     let h = h\<lparr>h_s := (h_s h)\<lparr>s_phys := p\<rparr>\<rparr>;
     case res of
       Inl _ \<Rightarrow> Some h
     | Inr pf \<Rightarrow> do {
         ipa \<leftarrow> get_share_mem (h_s h) VM_CONTEXT_SEND;
         h \<leftarrow> on_s (vm_pt_map_range mvm ipa n (pf_pa pf) PTE_S2_RO True) h;
         let m = s_m (h_s h);
         d \<leftarrow> for_range 0 (vm_cpu_num (m_vms m r)) (save_vcpu m r) VMData_default;
         cpuid_map \<leftarrow> vm_cpuid_map m r;
         (d, s) \<leftarrow> fold_opt (save_dev cpuid_map) (enumerate 0 (vm_emu_devs (m_vms m r))) (d, h_s h);
         let h = h\<lparr>h_s := s, h_vmdata := (h_vmdata h)(pf_pa pf := d)\<rparr>;
         on_s (on_m (\<lambda>m. Some (upd_vm r (\<lambda>x. x\<lparr>vm_migrate_save_pf := vm_migrate_save_pf x @ [pf]\<rparr>) m))) h } }"

definition context_vm_migrate_restore :: "VmRef \<Rightarrow> Hyp \<Rightarrow> Hyp option" where
  "context_vm_migrate_restore r h = do {
     let m = s_m (h_s h);
     vcpuid_map \<leftarrow> vm_vcpuid_map m r;
     pf \<leftarrow> vec_get (vm_migrate_restore_pf (m_vms m r)) 0;
     let d = h_vmdata h (pf_pa pf);
     h \<leftarrow> on_s (fold_opt (restore_dev d r vcpuid_map) (enumerate 0 (vm_emu_devs (m_vms m r)))) h;
     on_s (on_m (for_range 0 (vm_cpu_num (m_vms m r)) (restore_vcpu d r))) h }"

end
