(* ===== verification/Unilib.thy ===== *)
theory Unilib
  imports Migrate
begin

text \<open>
  \<open>src/src/lib/unilib.rs\<close>: the file system calls of a library guest.  A call is copied into a buffer of the
  manager guest, announced by a message, and waited for.  The structure both sides share
  (\<open>UnilibFSContent\<close>) lies in the memory of the manager guest.
\<close>

section \<open>The shared structure\<close>

definition FS_VMID :: usize where "FS_VMID = 32"
definition FS_BUF_IPA :: usize where "FS_BUF_IPA = 56"
definition FS_BUF_PA :: usize where "FS_BUF_PA = 64"
definition FS_FLAG :: usize where "FS_FLAG = 72"
definition FS_VALUE :: usize where "FS_VALUE = 80"

definition fs_get :: "Sys \<Rightarrow> usize \<Rightarrow> usize \<Rightarrow> usize" where
  "fs_get s base off = read_usize (s_mem s) (base + off)"

definition fs_set :: "usize \<Rightarrow> usize \<Rightarrow> usize \<Rightarrow> Sys \<Rightarrow> Sys" where
  "fs_set base off v s = s\<lparr>s_mem := write_usize (base + off) v (s_mem s)\<rparr>"

definition prepare_for_request :: "usize \<Rightarrow> Sys \<Rightarrow> Sys" where
  "prepare_for_request base s = fs_set base FS_VALUE 0 (fs_set base FS_FLAG 0 s)"

text \<open>\<open>others\<close> is what the other cores do in one period of waiting; it may never be enough.\<close>

partial_function (option) loop_for_response :: "(Hyp \<Rightarrow> Hyp) \<Rightarrow> usize \<Rightarrow> Hyp \<Rightarrow> (usize \<times> Hyp) option" where
  "loop_for_response others base h =
     (if fs_get (h_s h) base FS_FLAG \<noteq> 0 then Some (fs_get (h_s h) base FS_VALUE, h)
      else loop_for_response others base (others h))"

section \<open>Calls\<close>

definition unilib_fs_remove :: "usize \<Rightarrow> Hyp \<Rightarrow> Hyp" where
  "unilib_fs_remove vmid h = h\<lparr>h_unilib := AList.delete vmid (h_unilib h)\<rparr>"

partial_function (option) wait_append :: "(Hyp \<Rightarrow> Hyp) \<Rightarrow> usize \<Rightarrow> Hyp \<Rightarrow> Hyp option" where
  "wait_append others vmid h =
     (case map_of (h_unilib h) vmid of Some _ \<Rightarrow> Some h | None \<Rightarrow> wait_append others vmid (others h))"

definition HVC_UNILIB :: usize where "HVC_UNILIB = 0x12"
definition HVC_UNILIB_FS_INIT :: usize where "HVC_UNILIB_FS_INIT = 0"
definition HVC_UNILIB_FS_OPEN :: usize where "HVC_UNILIB_FS_OPEN = 1"
definition HVC_UNILIB_FS_CLOSE :: usize where "HVC_UNILIB_FS_CLOSE = 2"
definition HVC_UNILIB_FS_READ :: usize where "HVC_UNILIB_FS_READ = 3"
definition HVC_UNILIB_FS_WRITE :: usize where "HVC_UNILIB_FS_WRITE = 4"
definition HVC_UNILIB_FS_LSEEK :: usize where "HVC_UNILIB_FS_LSEEK = 5"

text \<open>The message to the manager guest about the running guest.\<close>

definition unilib_send :: "usize \<Rightarrow> usize \<Rightarrow> usize \<Rightarrow> usize \<Rightarrow> Hyp \<Rightarrow> (bool \<times> Hyp) option" where
  "unilib_send event a b c h = do {
     i \<leftarrow> active_vm_id (s_m (h_s h));
     on_s_ret (hvc_send_msg_to_vm 0 (HvcUniLibMsg HVC_UNILIB event i a b c)) h }"

definition unilib_fs_init :: "(Hyp \<Rightarrow> Hyp) \<Rightarrow> Hyp \<Rightarrow> ((unit + usize) \<times> Hyp) option" where
  "unilib_fs_init others h = do {
     i \<leftarrow> active_vm_id (s_m (h_s h));
     (ok, h) \<leftarrow> unilib_send HVC_UNILIB_FS_INIT 0 0 0 h;
     if \<not> ok then Some (Inl (), h)
     else do { h \<leftarrow> wait_append others i h; Some (Inr 0, h) } }"

text \<open>Nothing checks the two translated addresses.\<close>

definition unilib_fs_append :: "usize \<Rightarrow> Hyp \<Rightarrow> ((unit + usize) \<times> Hyp) option" where
  "unilib_fs_append mmio_ipa h = do {
     r \<leftarrow> active_vm (s_m (h_s h));
     base \<leftarrow> sys_ipa2pa (h_s h) r mmio_ipa;
     buf_pa \<leftarrow> sys_ipa2pa (h_s h) r (fs_get (h_s h) base FS_BUF_IPA);
     let s = fs_set base FS_BUF_PA buf_pa (h_s h);
     Some (Inr 0, h\<lparr>h_s := s, h_unilib := AList.update (fs_get s base FS_VMID) base (h_unilib h)\<rparr>) }"

definition unilib_fs_finished :: "usize \<Rightarrow> Hyp \<Rightarrow> ((unit + usize) \<times> Hyp) option" where
  "unilib_fs_finished vmid h = Some (Inr 0, h)"

text \<open>What the calls share: the file system of the running guest, and the request that is waited for.\<close>

definition with_fs :: "(usize \<Rightarrow> Hyp \<Rightarrow> ((unit + usize) \<times> Hyp) option) \<Rightarrow> Hyp \<Rightarrow> ((unit + usize) \<times> Hyp) option" where
  "with_fs f h = do {
     i \<leftarrow> active_vm_id (s_m (h_s h));
     case map_of (h_unilib h) i of None \<Rightarrow> Some (Inl (), h) | Some base \<Rightarrow> f base h }"

definition fs_request :: "(Hyp \<Rightarrow> Hyp) \<Rightarrow> usize \<Rightarrow> usize \<Rightarrow> usize \<Rightarrow> usize \<Rightarrow> usize \<Rightarrow> Hyp \<Rightarrow> ((unit + usize) \<times> Hyp) option" where
  "fs_request others event a b c base h = do {
     h \<leftarrow> on_s (\<lambda>s. Some (prepare_for_request base s)) h;
     (ok, h) \<leftarrow> unilib_send event a b c h;
     if \<not> ok then Some (Inl (), h)
     else do { (v, h) \<leftarrow> loop_for_response others base h; Some (Inr v, h) } }"

definition unilib_fs_open :: "(Hyp \<Rightarrow> Hyp) \<Rightarrow> usize \<Rightarrow> usize \<Rightarrow> usize \<Rightarrow> Hyp \<Rightarrow> ((unit + usize) \<times> Hyp) option" where
  "unilib_fs_open others path_start_ipa path_length flags = with_fs (\<lambda>base h. do {
     r \<leftarrow> active_vm (s_m (h_s h));
     path_pa \<leftarrow> sys_ipa2pa (h_s h) r path_start_ipa;
     let buf = fs_get (h_s h) base FS_BUF_PA;
     mem \<leftarrow> memcpy_safe buf path_pa path_length (s_mem (h_s h));
     fin \<leftarrow> uadd buf path_length;
     fs_request others HVC_UNILIB_FS_OPEN path_length flags 0 base (h\<lparr>h_s := (h_s h)\<lparr>s_mem := mem(fin := 0)\<rparr>\<rparr>) })"

definition unilib_fs_close :: "(Hyp \<Rightarrow> Hyp) \<Rightarrow> usize \<Rightarrow> Hyp \<Rightarrow> ((unit + usize) \<times> Hyp) option" where
  "unilib_fs_close others fd = with_fs (fs_request others HVC_UNILIB_FS_CLOSE fd 0 0)"

text \<open>The answer is read again for the copy; a negative one is passed on.\<close>

definition unilib_fs_read :: "(Hyp \<Rightarrow> Hyp) \<Rightarrow> usize \<Rightarrow> usize \<Rightarrow> usize \<Rightarrow> Hyp \<Rightarrow> ((unit + usize) \<times> Hyp) option" where
  "unilib_fs_read others fd buf_ipa len = with_fs (\<lambda>base h. do {
     (res, h) \<leftarrow> fs_request others HVC_UNILIB_FS_READ fd len 0 base h;
     case res of
       Inl _ \<Rightarrow> Some (res, h)
     | Inr v \<Rightarrow>
         if v \<ge> 2 ^ 63 then Some (res, h)
         else do {
           r \<leftarrow> active_vm (s_m (h_s h));
           buf_pa \<leftarrow> sys_ipa2pa (h_s h) r buf_ipa;
           let n = fs_get (h_s h) base FS_VALUE;
           mem \<leftarrow> memcpy_safe buf_pa (fs_get (h_s h) base FS_BUF_PA) n (s_mem (h_s h));
           let h = h\<lparr>h_s := (h_s h)\<lparr>s_mem := mem\<rparr>\<rparr>;
           Some (Inr (fs_get (h_s h) base FS_VALUE), h) } })"

definition unilib_fs_write :: "(Hyp \<Rightarrow> Hyp) \<Rightarrow> usize \<Rightarrow> usize \<Rightarrow> usize \<Rightarrow> Hyp \<Rightarrow> ((unit + usize) \<times> Hyp) option" where
  "unilib_fs_write others fd buf_ipa len = with_fs (\<lambda>base h. do {
     r \<leftarrow> active_vm (s_m (h_s h));
     buf_pa \<leftarrow> sys_ipa2pa (h_s h) r buf_ipa;
     mem \<leftarrow> memcpy_safe (fs_get (h_s h) base FS_BUF_PA) buf_pa len (s_mem (h_s h));
     fs_request others HVC_UNILIB_FS_WRITE fd len 0 base (h\<lparr>h_s := (h_s h)\<lparr>s_mem := mem\<rparr>\<rparr>) })"

definition unilib_fs_lseek :: "(Hyp \<Rightarrow> Hyp) \<Rightarrow> usize \<Rightarrow> usize \<Rightarrow> usize \<Rightarrow> Hyp \<Rightarrow> ((unit + usize) \<times> Hyp) option" where
  "unilib_fs_lseek others fd offset whence = with_fs (fs_request others HVC_UNILIB_FS_LSEEK fd offset whence)"

end
