(* ===== verification/Hypercall.thy ===== *)
theory Hypercall
  imports Unilib
begin

text \<open>
  The hypercalls of guests: the dispatch of \<open>src/src/kernel/hvc.rs\<close>, the last step of the configuration of
  a guest in \<open>src/src/config/config.rs\<close>, and the messages about hypercalls between cores.
\<close>

section \<open>What the hypervisor runs on\<close>

text \<open>
  \<open>en_bound\<close> is bound into the image; \<open>en_vmdata_size\<close> is \<open>size_of::<VMData>()\<close>; \<open>en_past\<close> is what lies behind a
  heap buffer; \<open>en_others\<close> is what the other cores do in one period of waiting; \<open>en_counter\<close> is the physical
  counter; \<open>en_smc\<close> is a call of the firmware; \<open>en_gicd_read\<close> and \<open>en_gicd_write\<close> are accesses to a register of
  the interrupt distributor, by offset and width.  The upgrade of the hypervisor itself (\<open>live_update.rs\<close>) is not modelled:
  \<open>en_update\<close> is \<open>update_request\<close>, and \<open>en_fresh\<close> the handler of its messages.
\<close>

record Env =
  en_bound :: Bound
  en_vmdata_size :: usize
  en_past :: "usize \<Rightarrow> u8"
  en_others :: "Hyp \<Rightarrow> Hyp"
  en_counter :: u64
  en_smc :: "usize \<Rightarrow> usize \<Rightarrow> usize \<Rightarrow> usize \<Rightarrow> usize \<times> usize \<times> usize \<times> usize"
  en_gicd_read :: "usize \<Rightarrow> usize \<Rightarrow> Machine \<Rightarrow> u64"
  en_gicd_write :: "usize \<Rightarrow> usize \<Rightarrow> u64 \<Rightarrow> Machine \<Rightarrow> Machine"
  en_update :: "Hyp \<Rightarrow> Hyp option"
  en_fresh :: "IpiMessage \<Rightarrow> Hyp \<Rightarrow> (Control \<times> Hyp) option"

text \<open>The result of a hypercall, or how the core went on when the call does not return to the guest.\<close>

datatype HvcResult = HvcReturn "unit + usize" | HvcGone Control

type_synonym hypercall = "Hyp \<Rightarrow> (HvcResult \<times> Hyp) option"

definition hvc_ret :: "((unit + usize) \<times> Hyp) option \<Rightarrow> (HvcResult \<times> Hyp) option" where
  "hvc_ret x = do { (res, h) \<leftarrow> x; Some (HvcReturn res, h) }"

definition hvc_ret_s :: "(Sys \<Rightarrow> ((unit + usize) \<times> Sys) option) \<Rightarrow> hypercall" where
  "hvc_ret_s f h = hvc_ret (on_s_ret f h)"

definition hvc_ok :: "usize \<Rightarrow> Hyp option \<Rightarrow> (HvcResult \<times> Hyp) option" where
  "hvc_ok v x = do { h \<leftarrow> x; Some (HvcReturn (Inr v), h) }"

definition hvc_ctl :: "usize \<Rightarrow> (Control \<times> Hyp) option \<Rightarrow> (HvcResult \<times> Hyp) option" where
  "hvc_ctl v x = do { (ctl, h) \<leftarrow> x; Some (if ctl = Returns then HvcReturn (Inr v) else HvcGone ctl, h) }"

definition hvc_err :: hypercall where "hvc_err h = Some (HvcReturn (Inl ()), h)"

definition HVC_FINISH :: usize where "HVC_FINISH = 0"
definition LIVE_UPDATE_IMG :: usize where "LIVE_UPDATE_IMG = 5"
definition DIRTY_MEM_THRESHOLD :: usize where "DIRTY_MEM_THRESHOLD = 0x2000"

section \<open>The last step of a configuration\<close>

definition set_load_pa :: "usize \<Rightarrow> VmRef \<Rightarrow> VmConfigEntry \<Rightarrow> usize \<Rightarrow> nat \<times> VmRegionCfg \<Rightarrow> Machine \<Rightarrow> Machine option" where
  "set_load_pa load_ipa r e img_size = (\<lambda>(idx, region) m.
     if load_ipa < rg_ipa_start region then Some m
     else do {
       a \<leftarrow> uadd load_ipa img_size;
       b \<leftarrow> uadd (rg_ipa_start region) (rg_length region);
       if a > b then Some m
       else do {
         pa \<leftarrow> vm_pa_start m r idx;
         pa \<leftarrow> uadd pa (load_ipa - rg_ipa_start region);
         Some (m\<lparr>m_config := set_kernel_load_pa e pa (m_config m)\<rparr>) } })"

definition vm_cfg_finish_configuration :: "Env \<Rightarrow> usize \<Rightarrow> usize \<Rightarrow> Hyp \<Rightarrow> (VmRef \<times> Hyp) option" where
  "vm_cfg_finish_configuration env vmid img_size h = do {
     h \<leftarrow> vmm_init_gvm (en_bound env) (en_others env) vmid h;
     r \<leftarrow> vm_lookup (s_m (h_s h)) vmid;
     e \<leftarrow> vm_config (m_vms (s_m (h_s h)) r);
     let c = m_config (s_m (h_s h));
     h \<leftarrow> on_s (on_m (fold_opt (set_load_pa (kernel_load_ipa c e) r e img_size) (enumerate 0 (memory_region c e)))) h;
     Some (r, h) }"

definition vm_cfg_upload_kernel_image :: "Env \<Rightarrow> usize \<Rightarrow> usize \<Rightarrow> usize \<Rightarrow> usize \<Rightarrow> usize \<Rightarrow> Hyp \<Rightarrow> ((unit + usize) \<times> Hyp) option" where
  "vm_cfg_upload_kernel_image env vmid img_size cache_ipa load_offset load_size h = do {
     (r, h) \<leftarrow> (case vm_lookup (s_m (h_s h)) vmid of
         None \<Rightarrow> vm_cfg_finish_configuration env vmid img_size h
       | Some r \<Rightarrow> Some (r, h));
     e \<leftarrow> vm_config (m_vms (s_m (h_s h)) r);
     a \<leftarrow> active_vm (s_m (h_s h));
     cache_pa \<leftarrow> sys_ipa2pa (h_s h) a cache_ipa;
     if cache_pa = 0 then Some (Inl (), h)
     else do {
       let load_pa = kernel_load_pa (m_config (s_m (h_s h))) e;
       if load_pa = 0 then Some (Inl (), h)
       else do {
         dst \<leftarrow> uadd load_pa load_offset;
         Some (Inr 0, h\<lparr>h_s := (h_s h)\<lparr>s_mem := memcpy dst cache_pa load_size (s_mem (h_s h))\<rparr>\<rparr>) } } }"

section \<open>Configuration\<close>

text \<open>The calls read the memory of the running guest.\<close>

definition on_config :: "((usize \<Rightarrow> u8) \<Rightarrow> usize \<Rightarrow> VmPa list \<Rightarrow> Config \<Rightarrow> ((unit + usize) \<times> Config) option) \<Rightarrow> hypercall" where
  "on_config f = hvc_ret_s (\<lambda>s. do {
     r \<leftarrow> active_vm (s_m s);
     let x = m_vms (s_m s) r;
     (res, c) \<leftarrow> f (s_mem s) (vm_mem_region_num x) (vm_pa_region x) (m_config (s_m s));
     Some (res, s\<lparr>s_m := (s_m s)\<lparr>m_config := c\<rparr>\<rparr>) })"

definition on_config_only :: "(Config \<Rightarrow> ((unit + usize) \<times> Config) option) \<Rightarrow> hypercall" where
  "on_config_only f = hvc_ret_s (on_m_ret (\<lambda>m. do { (res, c) \<leftarrow> f (m_config m); Some (res, m\<lparr>m_config := c\<rparr>) }))"

definition hvc_config_handler :: "Env \<Rightarrow> usize \<Rightarrow> usize \<Rightarrow> usize \<Rightarrow> usize \<Rightarrow> usize \<Rightarrow> usize \<Rightarrow> usize \<Rightarrow> usize \<Rightarrow> hypercall" where
  "hvc_config_handler env event x0 x1 x2 x3 x4 x5 x6 =
     (if event = 0 then on_config (\<lambda>mem num regions. vm_cfg_add_vm mem num regions x0)
      else if event = 1 then on_config_only (vm_cfg_del_vm x0)
      else if event = 2 then on_config_only (\<lambda>c. Some (vm_cfg_set_cpu x0 x1 (of_nat x2) x3 c))
      else if event = 3 then on_config_only (\<lambda>c. Some (vm_cfg_add_mem_region x0 x1 x2 c))
      else if event = 4 then on_config (\<lambda>mem num regions. vm_cfg_add_emu_dev mem num regions x0 x1 x2 x3 x4 x5 x6)
      else if event = 5 then on_config_only (\<lambda>c. Some (vm_cfg_add_passthrough_device_region x0 x1 x2 x3 c))
      else if event = 6 then on_config (\<lambda>mem num regions. vm_cfg_add_passthrough_device_irqs mem num regions x0 x1 x2)
      else if event = 7 then on_config (\<lambda>mem num regions. vm_cfg_add_passthrough_device_streams_ids mem num regions x0 x1 x2)
      else if event = 8 then on_config (\<lambda>mem num regions. vm_cfg_add_dtb_dev mem num regions x0 x1 x2 x3 x4 x5 x6)
      else if event = 9 then (\<lambda>h. hvc_ret (vm_cfg_upload_kernel_image env x0 x1 x2 x3 x4 h))
      else hvc_err)"

section \<open>The system\<close>

text \<open>The image is the one built without the feature \<open>update\<close>.\<close>

definition UPDATE_IMG_BASE_ADDR :: usize where "UPDATE_IMG_BASE_ADDR = 0x8a000000"

definition hvc_sys_handler :: "Env \<Rightarrow> usize \<Rightarrow> usize \<Rightarrow> hypercall" where
  "hvc_sys_handler env event x0 h =
     (if event = 3 then hvc_ok 0 (do {
        h \<leftarrow> on_s (\<lambda>s. do {
          p \<leftarrow> mem_heap_region_reserve (s_phys s) UPDATE_IMG_BASE_ADDR x0;
          Some (s\<lparr>s_phys := p\<rparr>) }) h;
        en_update env h })
      else if event = 4 then hvc_ok 0 (on_s (\<lambda>s. do { r \<leftarrow> active_vm (s_m s); virtio_net_announce r s }) h)
      else hvc_err h)"

section \<open>Guests\<close>

definition mvm_migrate_memory :: "usize \<Rightarrow> Sys \<Rightarrow> Sys option" where
  "mvm_migrate_memory vmid s = do {
     r \<leftarrow> vm_lookup (s_m s) vmid;
     s \<leftarrow> vm_pt_read_only r s;
     s \<leftarrow> vm_if_copy_mem_map vmid s;
     send_migrate_memcpy_msg vmid s }"

text \<open>Every virtual CPU of the guest is told, on the core it is on.\<close>

definition tell_vcpus :: "usize \<Rightarrow> VmRef \<Rightarrow> usize \<Rightarrow> Machine \<Rightarrow> Machine option" where
  "tell_vcpus vmid r event m = for_range 0 (vm_cpu_num (m_vms m r)) (\<lambda>i m. do {
     p \<leftarrow> vcpuid_to_pcpuid m r i;
     case p of Inr pcpu \<Rightarrow> send_hvc_ipi 0 vmid HVC_VMM event pcpu m | Inl _ \<Rightarrow> None }) m"

definition set_state_flag :: "usize \<Rightarrow> Hyp \<Rightarrow> Hyp" where
  "set_state_flag v h = h\<lparr>h_s := (h_s h)\<lparr>s_state_flag := v\<rparr>\<rparr>"

definition remove_and_clear :: "usize \<Rightarrow> hypercall" where
  "remove_and_clear x0 h = hvc_ctl HVC_FINISH (and_then (vmm_remove_vm x0 h) (returning (\<lambda>h. Some (set_state_flag 0 h))))"

definition unmap_shared :: "usize \<Rightarrow> usize \<Rightarrow> Sys \<Rightarrow> Sys option" where
  "unmap_shared ty len s = do {
     mvm \<leftarrow> vm_lookup (s_m s) 0;
     ipa \<leftarrow> get_share_mem s ty;
     vm_pt_unmap_range mvm ipa len True s }"

definition hvc_vmm_migrate_memcpy :: "usize \<Rightarrow> Hyp \<Rightarrow> Hyp option" where
  "hvc_vmm_migrate_memcpy x0 h = do {
     dirty_mem_num \<leftarrow> vm_if_mem_map_dirty_sum (s_m (h_s h)) x0;
     if dirty_mem_num < DIRTY_MEM_THRESHOLD then do {
       r \<leftarrow> vm_lookup (s_m (h_s h)) x0;
       let h = h\<lparr>h_barrier := set_barrier_num (vm_cpu_num (m_vms (s_m (h_s h)) r)) (h_barrier h)\<rparr>;
       on_s (on_m (tell_vcpus x0 r 13)) h }
     else on_s (mvm_migrate_memory x0) h }"

definition hvc_vmm_migrate_vm_boot :: "Env \<Rightarrow> usize \<Rightarrow> Hyp \<Rightarrow> Hyp option" where
  "hvc_vmm_migrate_vm_boot env x0 h = do {
     r \<leftarrow> vm_lookup (s_m (h_s h)) x0;
     n \<leftarrow> round_up (en_vmdata_size env) PAGE_SIZE;
     h \<leftarrow> on_s (unmap_shared VM_CONTEXT_RECEIVE n) h;
     ipa \<leftarrow> get_share_mem (h_s h) MIGRATE_RECEIVE;
     h \<leftarrow> on_s (unmap_migrate_vm_mem r ipa) h;
     h \<leftarrow> context_vm_migrate_restore r h;
     on_s (on_m (tell_vcpus x0 r 15)) h }"

definition hvc_vmm_migrate_finish :: "Env \<Rightarrow> usize \<Rightarrow> Hyp \<Rightarrow> Hyp option" where
  "hvc_vmm_migrate_finish env x0 h = do {
     r \<leftarrow> vm_lookup (s_m (h_s h)) x0;
     n \<leftarrow> round_up (en_vmdata_size env) PAGE_SIZE;
     h \<leftarrow> on_s (unmap_shared VM_CONTEXT_SEND n) h;
     pages \<leftarrow> vm_if_mem_map_page_num (s_m (h_s h)) x0;
     len \<leftarrow> umul PAGE_SIZE pages;
     h \<leftarrow> on_s (unmap_shared MIGRATE_BITMAP len) h;
     ipa \<leftarrow> get_share_mem (h_s h) MIGRATE_SEND;
     on_s (unmap_migrate_vm_mem r ipa) h }"

text \<open>Two events are not written yet in the source; they panic.\<close>

definition hvc_vmm_handler :: "Env \<Rightarrow> usize \<Rightarrow> usize \<Rightarrow> hypercall" where
  "hvc_vmm_handler env event x0 h =
     (if event = 0 then hvc_ret_s (vmm_list_vm (en_past env) x0) h
      else if event = 1 then None
      else if event = 2 then hvc_ctl HVC_FINISH (on_s_ret (vmm_boot_vm x0) h)
      else if event = 3 then None
      else if event = 4 then hvc_ctl HVC_FINISH (on_s_ret (vmm_reboot_vm (en_bound env) x0) h)
      else if event = 8 then hvc_ok HVC_FINISH (on_s (\<lambda>s. do { (_, s) \<leftarrow> get_vm_id x0 s; Some s }) h)
      else if event = 10 then
        (if x0 = 0 then hvc_err h
         else hvc_ok HVC_FINISH (on_s (\<lambda>s. do {
           (_, s) \<leftarrow> hvc_send_msg_to_vm 0 (HvcMigrateMsg HVC_VMM HVC_VMM_MIGRATE_START x0 MIGRATE_START 0) s; Some s }) h))
      else if event = 11 then hvc_ok HVC_FINISH (on_s (\<lambda>s. do {
        s \<leftarrow> migrate_ready x0 s;
        s \<leftarrow> mvm_migrate_memory x0 s;
        on_m (vm_if_dirty_mem_map x0) s }) h)
      else if event = 12 then hvc_ok HVC_FINISH (hvc_vmm_migrate_memcpy x0 h)
      else if event = 13 then do { h \<leftarrow> hvc_vmm_migrate_finish env x0 h; remove_and_clear x0 h }
      else if event = 14 then hvc_ok HVC_FINISH (do {
        r \<leftarrow> vm_lookup (s_m (h_s h)) x0;
        ipa \<leftarrow> get_share_mem (h_s h) MIGRATE_RECEIVE;
        h \<leftarrow> on_s (map_migrate_vm_mem r ipa) h;
        context_vm_migrate_init (en_vmdata_size env) r h })
      else if event = 15 then hvc_ok HVC_FINISH (hvc_vmm_migrate_vm_boot env x0 h)
      else if event = 16 then remove_and_clear x0 h
      else hvc_err h)"

section \<open>Communication between guests\<close>

definition hvc_ivc_handler :: "usize \<Rightarrow> usize \<Rightarrow> usize \<Rightarrow> hypercall" where
  "hvc_ivc_handler event x0 x1 h =
     (if event = 0 then do {
        (ok, h) \<leftarrow> on_s_ret (ivc_update_mq x0 x1) h;
        Some (HvcReturn (if ok then Inr HVC_FINISH else Inl ()), h) }
      else if event = 7 then hvc_ret_s (\<lambda>s. do {
        r \<leftarrow> active_vm (s_m s);
        let base = vm_share_mem_base (m_vms (s_m s) r);
        s \<leftarrow> (if x0 = LIVE_UPDATE_IMG then vm_pt_map_range r base x1 0x8a000000 PTE_S2_NORMAL True s else Some s);
        b \<leftarrow> uadd (vm_share_mem_base (m_vms (s_m s) r)) x1;
        s \<leftarrow> on_m (\<lambda>m. Some (upd_vm r (\<lambda>x. x\<lparr>vm_share_mem_base := b\<rparr>) m)) s;
        Some (Inr base, add_share_mem x0 base s) }) h
      else hvc_err h)"

definition hvc_mediated_handler :: "usize \<Rightarrow> usize \<Rightarrow> usize \<Rightarrow> hypercall" where
  "hvc_mediated_handler event x0 x1 =
     (if event = 0x30 then hvc_ret_s (mediated_dev_append x0 x1)
      else if event = 0x31 then hvc_ret_s (mediated_blk_notify_handler x0)
      else hvc_err)"

definition hvc_unilib_handler :: "Env \<Rightarrow> usize \<Rightarrow> usize \<Rightarrow> usize \<Rightarrow> usize \<Rightarrow> hypercall" where
  "hvc_unilib_handler env event x0 x1 x2 h =
     (let o' = en_others env in
      if event = 0 then hvc_ret (unilib_fs_init o' h)
      else if event = 1 then hvc_ret (unilib_fs_open o' x0 x1 x2 h)
      else if event = 2 then hvc_ret (unilib_fs_close o' x0 h)
      else if event = 3 then hvc_ret (unilib_fs_read o' x0 x1 x2 h)
      else if event = 4 then hvc_ret (unilib_fs_write o' x0 x1 x2 h)
      else if event = 5 then hvc_ret (unilib_fs_lseek o' x0 x1 x2 h)
      else if event = 6 then None
      else if event = 7 then hvc_ret (unilib_fs_append x0 h)
      else if event = 8 then hvc_ret (unilib_fs_finished x0 h)
      else hvc_err h)"

section \<open>Dispatch\<close>

definition hvc_guest_handler :: "Env \<Rightarrow> usize \<Rightarrow> usize \<Rightarrow> usize \<Rightarrow> usize \<Rightarrow> usize \<Rightarrow> usize \<Rightarrow> usize \<Rightarrow> usize \<Rightarrow> usize \<Rightarrow> hypercall" where
  "hvc_guest_handler env hvc_type event x0 x1 x2 x3 x4 x5 x6 =
     (if hvc_type = 0 then hvc_sys_handler env event x0
      else if hvc_type = 1 then hvc_vmm_handler env event x0
      else if hvc_type = 2 then hvc_ivc_handler event x0 x1
      else if hvc_type = 3 then hvc_mediated_handler event x0 x1
      else if hvc_type = 0x11 then hvc_config_handler env event x0 x1 x2 x3 x4 x5 x6
      else if hvc_type = 0x12 then hvc_unilib_handler env event x0 x1 x2
      else hvc_err)"

section \<open>Messages between cores\<close>

partial_function (option) wait_barrier :: "(Hyp \<Rightarrow> Hyp) \<Rightarrow> usize \<Rightarrow> Hyp \<Rightarrow> Hyp option" where
  "wait_barrier others next_count h =
     (if barrier_waits (h_barrier h) next_count then wait_barrier others next_count (others h) else Some h)"

definition func_barrier :: "(Hyp \<Rightarrow> Hyp) \<Rightarrow> Hyp \<Rightarrow> Hyp option" where
  "func_barrier others h = do {
     (next_count, t) \<leftarrow> barrier_enter (h_barrier h);
     wait_barrier others next_count (h\<lparr>h_barrier := t\<rparr>) }"

text \<open>The guest that is moved away stops; the core waits for interrupts from then on.\<close>

definition migrate_finish_here :: "Env \<Rightarrow> VcpuRef \<Rightarrow> usize \<Rightarrow> Hyp \<Rightarrow> (Control \<times> Hyp) option" where
  "migrate_finish_here env v trgt h = do {
     r \<leftarrow> vc_vm (m_vcpus (s_m (h_s h)) v);
     h \<leftarrow> on_s (on_m (\<lambda>m. Some (clear_current_irq m))) h;
     h \<leftarrow> (if vm_id (m_vms (s_m (h_s h)) r) = trgt then on_s (on_m (context_vm_store v)) h else Some h);
     h \<leftarrow> on_s (on_m (context_gic_irqs_store v)) h;
     h \<leftarrow> func_barrier (en_others env) h;
     let h = set_state_flag 1 h;
     h \<leftarrow> (if vc_id (m_vcpus (s_m (h_s h)) v) = 0 then do {
             h \<leftarrow> context_vm_migrate_save (en_vmdata_size env) r h;
             on_s (on_m (send_hvc_ipi trgt 0 HVC_VMM 13 0)) h }
           else Some h);
     Some (Idles, h) }"

definition migrate_boot_here :: "Env \<Rightarrow> VcpuRef \<Rightarrow> Hyp \<Rightarrow> (Control \<times> Hyp) option" where
  "migrate_boot_here env v h = do {
     h \<leftarrow> on_s (on_m (sched_yield_to v)) h;
     h \<leftarrow> on_s (on_m (context_gic_irqs_restore v)) h;
     on_s_ret (vmm_migrate_boot (en_counter env)) h }"

definition hvc_ipi_handler :: "Env \<Rightarrow> IpiMessage \<Rightarrow> Hyp \<Rightarrow> (Control \<times> Hyp) option" where
  "hvc_ipi_handler env msg h = (case ipi_message msg of
     HvcMsg src trgt fid event \<Rightarrow> do {
       vo \<leftarrow> pop_vcpu_through_vmid (s_m (h_s h)) trgt;
       case vo of
         None \<Rightarrow> Some (Returns, h)
       | Some v \<Rightarrow>
           let notify = returning (on_s (on_m (hvc_guest_notify trgt))) in
           if fid = 3 then notify h
           else if fid = 1 then
             (if event = 10 then notify h
              else if event = 13 then
                (if this_cpu (s_m (h_s h)) = 0 then returning (on_s (migrate_finish_ipi_handler src)) h
                 else migrate_finish_here env v trgt h)
              else if event = 15 then
                migrate_boot_here env v (h\<lparr>h_s := (h_s h)\<lparr>s_m := clear_current_irq (s_m (h_s h))\<rparr>\<rparr>)
              else Some (Returns, h))
           else if fid = 0x11 then (if event = 9 then notify h else None)
           else if fid = 0x12 then notify h
           else None }
   | _ \<Rightarrow> Some (Returns, h))"

end
