(* ===== verification/Trap.thy ===== *)
theory Trap
  imports Hypercall
begin

text \<open>
  How a core enters the hypervisor: \<open>src/src/arch/aarch64/exception.rs\<close> and \<open>src/src/arch/aarch64/sync.rs\<close>,
  the firmware calls of a guest in \<open>src/src/arch/aarch64/psci.rs\<close>, and the dispatch of interrupts in
  \<open>src/src/kernel/interrupt.rs\<close>.  No upgrade of the hypervisor is in progress (\<open>FreshStatus::None\<close>).
\<close>

section \<open>The syndrome of an exception\<close>

text \<open>
  The registers the processor sets: \<open>ESR_EL2\<close>, \<open>FAR_EL2\<close>, \<open>HPFAR_EL2\<close>, and what \<open>PAR_EL1\<close> holds after
  \<open>AT S1E1R\<close> for an address.
\<close>

record Syndrome =
  sy_esr :: u64
  sy_far :: u64
  sy_hpfar :: u64
  sy_par :: "u64 \<Rightarrow> u64"

definition exception_class :: "Syndrome \<Rightarrow> u64" where
  "exception_class y = drop_bit 26 (sy_esr y) AND 0b111111"

definition exception_iss :: "Syndrome \<Rightarrow> u64" where
  "exception_iss y = sy_esr y AND (push_bit 25 1 - 1)"

definition ESR_ELx_S1PTW :: u64 where "ESR_ELx_S1PTW = push_bit 7 1"

definition par_to_far :: "u64 \<Rightarrow> u64" where
  "par_to_far par = drop_bit 8 (par AND push_bit 12 (push_bit (52 - 12) 1 - 1))"

definition translate_far_to_hpfar :: "Syndrome \<Rightarrow> u64 \<Rightarrow> unit + u64" where
  "translate_far_to_hpfar y far = (let tmp = sy_par y far in if tmp AND 1 \<noteq> 0 then Inl () else Inr (par_to_far tmp))"

definition exception_data_abort_handleable :: "Syndrome \<Rightarrow> bool" where
  "exception_data_abort_handleable y \<longleftrightarrow> NOT (exception_iss y AND push_bit 10 1) OR (exception_iss y AND push_bit 24 1) \<noteq> 0"

definition exception_data_abort_is_translate_fault :: "Syndrome \<Rightarrow> bool" where
  "exception_data_abort_is_translate_fault y \<longleftrightarrow> exception_iss y AND 0b111111 AND push_bit 2 0xf = 4"

definition exception_data_abort_is_permission_fault :: "Syndrome \<Rightarrow> bool" where
  "exception_data_abort_is_permission_fault y \<longleftrightarrow> exception_iss y AND 0b111111 AND push_bit 2 0xf = 12"

definition exception_data_abort_access_width :: "Syndrome \<Rightarrow> usize" where
  "exception_data_abort_access_width y = 2 ^ unat (drop_bit 22 (exception_iss y) AND 0b11)"

definition exception_data_abort_access_is_write :: "Syndrome \<Rightarrow> bool" where
  "exception_data_abort_access_is_write y \<longleftrightarrow> exception_iss y AND push_bit 6 1 \<noteq> 0"

definition exception_data_abort_access_reg :: "Syndrome \<Rightarrow> usize" where
  "exception_data_abort_access_reg y = unat (drop_bit 16 (exception_iss y) AND 0b11111)"

definition exception_data_abort_access_reg_width :: "Syndrome \<Rightarrow> usize" where
  "exception_data_abort_access_reg_width y = 4 + 4 * unat (drop_bit 15 (exception_iss y) AND 1)"

definition exception_data_abort_access_is_sign_ext :: "Syndrome \<Rightarrow> bool" where
  "exception_data_abort_access_is_sign_ext y \<longleftrightarrow> drop_bit 21 (exception_iss y) AND 1 \<noteq> 0"

definition exception_fault_addr :: "Syndrome \<Rightarrow> u64" where
  "exception_fault_addr y =
     (let far = sy_far y;
          hpfar = (if sy_esr y AND ESR_ELx_S1PTW = 0 \<and> exception_data_abort_is_permission_fault y
                   then (case translate_far_to_hpfar y far of Inr a \<Rightarrow> a | Inl _ \<Rightarrow> 0)
                   else sy_hpfar y)
      in (far AND 0xfff) OR push_bit 8 hpfar)"

definition exception_next_instruction_step :: "Syndrome \<Rightarrow> usize" where
  "exception_next_instruction_step y = 2 + 2 * unat (drop_bit 25 (sy_esr y) AND 1)"

text \<open>\<open>current_cpu().set_elr(elr + exception_next_instruction_step())\<close>.\<close>

definition step_over :: "Syndrome \<Rightarrow> u64 \<Rightarrow> Machine \<Rightarrow> Machine option" where
  "step_over y elr m = do { val \<leftarrow> uadd (unat elr) (exception_next_instruction_step y); set_elr (of_nat val) m }"

section \<open>Emulated accesses\<close>

text \<open>A register of the physical distributor is read or written with the width of the access.\<close>

definition partial_passthrough_intc_handler :: "Env \<Rightarrow> EmuContext \<Rightarrow> Machine \<Rightarrow> (bool \<times> Machine) option" where
  "partial_passthrough_intc_handler env ec m =
     (if \<not> vgicd_emu_access_is_vaild ec then Some (False, m)
      else do {
        let offset = ec_address ec AND 0xfff;
        assert_that (ec_width ec \<in> {1, 2, 4, 8});
        if ec_write ec then do {
          v \<leftarrow> get_gpr m (ec_reg ec);
          Some (True, en_gicd_write env offset (ec_width ec) v m) }
        else do {
          m \<leftarrow> set_gpr (ec_reg ec) (en_gicd_read env offset (ec_width ec) m) m;
          Some (True, m) } })"

definition run_emu :: "Env \<Rightarrow> EmuDevHandler \<Rightarrow> usize \<Rightarrow> EmuContext \<Rightarrow> Hyp \<Rightarrow> (bool \<times> Hyp) option" where
  "run_emu env fn dev_id ec h = (case fn of
     emu_intc_handler_fn \<Rightarrow> on_s_ret (on_m_ret (emu_intc_handler ec)) h
   | partial_passthrough_intc_handler_fn \<Rightarrow> on_s_ret (on_m_ret (partial_passthrough_intc_handler env ec)) h
   | emu_virtio_mmio_handler_fn \<Rightarrow> on_s_ret (emu_virtio_mmio_handler run_handler dev_id ec) h
   | emu_smmu_handler_fn \<Rightarrow> on_iommu (emu_smmu_handler ec) h)"

abbreviation hyp_m :: "Hyp \<Rightarrow> Machine" where
  "hyp_m h \<equiv> s_m (h_s h)"

definition hyp_put_m :: "Machine \<Rightarrow> Hyp \<Rightarrow> Hyp" where
  "hyp_put_m m h = h\<lparr>h_s := (h_s h)\<lparr>s_m := m\<rparr>\<rparr>"

definition abort_context :: "Syndrome \<Rightarrow> EmuContext" where
  "abort_context y = \<lparr>ec_address = unat (exception_fault_addr y), ec_width = exception_data_abort_access_width y,
     ec_write = exception_data_abort_access_is_write y, ec_sign_ext = exception_data_abort_access_is_sign_ext y,
     ec_reg = exception_data_abort_access_reg y, ec_reg_width = exception_data_abort_access_reg_width y\<rparr>"

definition data_abort_handler :: "Env \<Rightarrow> Syndrome \<Rightarrow> Hyp \<Rightarrow> Hyp option" where
  "data_abort_handler env y h = do {
     let emu_ctx = abort_context y;
     elr \<leftarrow> get_elr (hyp_m h);
     assert_that (exception_data_abort_handleable y);
     if \<not> exception_data_abort_is_translate_fault y then
       (if exception_data_abort_is_permission_fault y then on_s (migrate_data_abort_handler emu_ctx) h else None)
     else do {
       (ok, h) \<leftarrow> emu_handler hyp_m (run_emu env) emu_ctx h;
       assert_that ok;
       on_s (on_m (step_over y elr)) h } }"

section \<open>Firmware calls\<close>

definition smc_guest_handler :: "Env \<Rightarrow> usize \<Rightarrow> usize \<Rightarrow> usize \<Rightarrow> usize \<Rightarrow> Hyp \<Rightarrow> ((Control \<times> bool) \<times> Hyp) option" where
  "smc_guest_handler env fid x1 x2 x3 h =
     (let answer = (\<lambda>r h. do { h \<leftarrow> on_s (on_m (set_gpr 0 (of_nat r))) h; Some ((Returns, True), h) }) in
      if fid = PSCI_VERSION then answer (fst (en_smc env PSCI_VERSION 0 0 0)) h
      else if fid = PSCI_MIG_INFO_TYPE then answer PSCI_TOS_NOT_PRESENT_MP h
      else if fid = PSCI_CPU_ON_AARCH64 then do {
        (r, h) \<leftarrow> on_s_ret (on_m_ret (psci_guest_cpu_on x1 x2 x3)) h;
        answer r h }
      else if fid = PSCI_AFFINITY_INFO_AARCH64 then answer 0 h
      else if fid = PSCI_SYSTEM_RESET then do {
        (ctl, h) \<leftarrow> on_s_ret (vmm_reboot (en_bound env)) h;
        if ctl = Returns then answer 0 h else Some ((ctl, True), h) }
      else if m_board (hyp_m h) = Tx2 \<and> fid = TEGRA_SIP_GET_ACTMON_CLK_COUNTERS then do {
        let (r0, r1, r2, r3) = en_smc env fid x1 x2 x3;
        h \<leftarrow> on_s (on_m (set_gpr 1 (of_nat r1))) h;
        h \<leftarrow> on_s (on_m (set_gpr 2 (of_nat r2))) h;
        answer r0 h }
      else if fid = PSCI_FEATURES then
        answer (if x1 \<in> {PSCI_VERSION, PSCI_CPU_ON_AARCH64, PSCI_FEATURES} then PSCI_E_SUCCESS else PSCI_E_NOT_SUPPORTED) h
      else Some ((Returns, False), h))"

definition gpr :: "Hyp \<Rightarrow> usize \<Rightarrow> usize option" where
  "gpr h i = do { v \<leftarrow> get_gpr (hyp_m h) i; Some (unat v) }"

definition smc_handler :: "Env \<Rightarrow> Syndrome \<Rightarrow> Hyp \<Rightarrow> (Control \<times> Hyp) option" where
  "smc_handler env y h = do {
     fid \<leftarrow> gpr h 0;
     x1 \<leftarrow> gpr h 1;
     x2 \<leftarrow> gpr h 2;
     x3 \<leftarrow> gpr h 3;
     ((ctl, ok), h) \<leftarrow> smc_guest_handler env fid x1 x2 x3 h;
     if ctl \<noteq> Returns then Some (ctl, h)
     else do {
       h \<leftarrow> (if ok then Some h else on_s (on_m (set_gpr 0 0)) h);
       elr \<leftarrow> get_elr (hyp_m h);
       h \<leftarrow> on_s (on_m (step_over y elr)) h;
       Some (Returns, h) } }"

section \<open>Hypercalls\<close>

definition HVC_RETURN_REG :: usize where "HVC_RETURN_REG = 0"

definition hvc_handler :: "Env \<Rightarrow> Hyp \<Rightarrow> (Control \<times> Hyp) option" where
  "hvc_handler env h = do {
     x0 \<leftarrow> gpr h 0;
     x1 \<leftarrow> gpr h 1;
     x2 \<leftarrow> gpr h 2;
     x3 \<leftarrow> gpr h 3;
     x4 \<leftarrow> gpr h 4;
     x5 \<leftarrow> gpr h 5;
     x6 \<leftarrow> gpr h 6;
     mode \<leftarrow> gpr h 7;
     (res, h) \<leftarrow> hvc_guest_handler env (drop_bit 8 mode AND 0xff) (mode AND 0xff) x0 x1 x2 x3 x4 x5 x6 h;
     case res of
       HvcReturn (Inr v) \<Rightarrow> returning (on_s (on_m (set_gpr HVC_RETURN_REG (of_nat v)))) h
     | HvcReturn (Inl _) \<Rightarrow> returning (on_s (on_m (set_gpr HVC_RETURN_REG (- 1)))) h
     | HvcGone ctl \<Rightarrow> Some (ctl, h) }"

section \<open>Entry from a guest\<close>

definition set_ctx :: "usize option \<Rightarrow> Hyp \<Rightarrow> Hyp" where
  "set_ctx c h = hyp_put_m (upd_cpu (\<lambda>x. x\<lparr>cpu_ctx := c\<rparr>) (hyp_m h)) h"

definition lower_aarch64_synchronous :: "Env \<Rightarrow> Syndrome \<Rightarrow> usize \<Rightarrow> Hyp \<Rightarrow> (Control \<times> Hyp) option" where
  "lower_aarch64_synchronous env y ctx h = do {
     let h = set_ctx (Some ctx) h;
     let ec = exception_class y;
     and_then
       (if ec = 0x24 then returning (data_abort_handler env y) h
        else if ec = 0x17 then smc_handler env y h
        else if ec = 0x16 then hvc_handler env h
        else None)
       (\<lambda>h. Some (Returns, set_ctx None h)) }"

section \<open>Interrupts\<close>

definition run_ipi :: "Env \<Rightarrow> IpiHandlerFunc \<Rightarrow> IpiMessage \<Rightarrow> Hyp \<Rightarrow> (Control \<times> Hyp) option" where
  "run_ipi env fn msg h = (case fn of
     vgic_ipi_handler_fn \<Rightarrow> returning (on_s (on_m (vgic_ipi_handler msg))) h
   | psci_ipi_handler_fn \<Rightarrow> returning (on_s (on_m (psci_ipi_handler msg))) h
   | ethernet_ipi_rev_handler_fn \<Rightarrow> returning (on_s (ethernet_ipi_rev_handler msg)) h
   | hyper_fresh_ipi_handler_fn \<Rightarrow> en_fresh env msg h
   | hvc_ipi_handler_fn \<Rightarrow> hvc_ipi_handler env msg h
   | vmm_ipi_handler_fn \<Rightarrow> on_s_ret (vmm_ipi_handler (en_bound env) msg) h
   | mediated_ipi_handler_fn \<Rightarrow> returning (on_s (mediated_ipi_handler msg)) h
   | interrupt_inject_ipi_handler_fn \<Rightarrow> returning (on_s (on_m (interrupt_inject_ipi_handler msg))) h)"

text \<open>The first virtual CPU of the core whose guest owns the interrupt.\<close>

definition irq_owner :: "usize \<Rightarrow> Machine \<Rightarrow> (VcpuRef \<times> VmRef) option option" where
  "irq_owner n m = find_loop (\<lambda>e. case e of
       None \<Rightarrow> Some None
     | Some v \<Rightarrow> (case vc_vm (m_vcpus m v) of
         None \<Rightarrow> Some None
       | Some r \<Rightarrow> do { own \<leftarrow> has_interrupt m r n; Some (if own then Some (v, r) else None) }))
     (va_array (cpu_vcpu_array (m_cpu m)))"

text \<open>The interrupt of a guest; the answer is whether the hypervisor has handled it for good.\<close>

definition guest_irq :: "usize \<Rightarrow> Machine \<Rightarrow> (bool \<times> Machine) option" where
  "guest_irq n m =
     (let current = (if n \<ge> 16 \<and> n < 32 then
                       (case active_vcpu m of
                          None \<Rightarrow> None
                        | Some v \<Rightarrow> (case vc_vm (m_vcpus m v) of None \<Rightarrow> None | Some r \<Rightarrow> Some (v, r)))
                     else None)
      in case current of
        Some (v, r) \<Rightarrow> do {
          own \<leftarrow> has_interrupt m r n;
          if own then do { m \<leftarrow> interrupt_vm_inject r v n m; Some (False, m) } else Some (True, m) }
      | None \<Rightarrow> do {
          found \<leftarrow> irq_owner n m;
          case found of
            None \<Rightarrow> Some (True, m)
          | Some (v, r) \<Rightarrow>
              if vc_state (m_vcpus m v) = VcpuInv then Some (True, m)
              else do { m \<leftarrow> interrupt_vm_inject r v n m; Some (False, m) } })"

definition interrupt_handler :: "Env \<Rightarrow> usize \<Rightarrow> Hyp \<Rightarrow> ((Control \<times> bool) \<times> Hyp) option" where
  "interrupt_handler env n h = do {
     reserved \<leftarrow> interrupt_is_reserved (hyp_m h) n;
     if reserved then do {
       ih \<leftarrow> m_int_handlers (hyp_m h) n;
       (ctl, h) \<leftarrow> (case ih of
           IpiIrqHandler \<Rightarrow> ipi_irq_handler hyp_m hyp_put_m (run_ipi env) h
         | GicMaintenanceHandler \<Rightarrow> returning (on_s (on_m gic_maintenance_handler)) h
         | TimeIrqHandler \<Rightarrow> returning (on_s (on_m timer_irq_handler)) h
         | NoHandler \<Rightarrow> None);
       Some ((ctl, True), h) }
     else do {
       (finished, h) \<leftarrow> on_s_ret (on_m_ret (guest_irq n)) h;
       Some ((Returns, finished), h) } }"

definition end_irq :: "bool \<Rightarrow> Machine \<Rightarrow> Machine" where
  "end_irq for_hypervisor m =
     (let (irq, cc) = gicc_clear_current_irq for_hypervisor (cpu_current_irq (m_cpu m)) (gicc m) in
      upd_cpu (\<lambda>c. c\<lparr>cpu_current_irq := irq\<rparr>) (upd_hw (\<lambda>hw. hw\<lparr>hw_gicc := cc\<rparr>) m))"

definition lower_aarch64_irq :: "Env \<Rightarrow> usize \<Rightarrow> Hyp \<Rightarrow> (Control \<times> Hyp) option" where
  "lower_aarch64_irq env ctx h = do {
     let h = set_ctx (Some ctx) h;
     ((n, src), iar) \<leftarrow> gicc_get_current_irq (gicc (hyp_m h));
     let h = hyp_put_m (upd_cpu (\<lambda>c. c\<lparr>cpu_current_irq := iar\<rparr>) (hyp_m h)) h;
     if n \<ge> 1022 then Some (Returns, h)
     else do {
       ((ctl, for_hypervisor), h) \<leftarrow> interrupt_handler env n h;
       if ctl \<noteq> Returns then Some (ctl, h)
       else Some (Returns, set_ctx None (hyp_put_m (end_irq for_hypervisor (hyp_m h)) h)) } }"

end
