(* ===== verification/Spec2Isabelle.thy ===== *)
theory Spec2Isabelle
  imports VmRegion Stage2 SchedProps Emu NetProps Barrier Smmu Psci GuestInit Trap
begin

text \<open>
  Rust-Shyper, an embedded type-1 hypervisor for AArch64: a verification library.

  The program. The hypervisor runs at exception level 2 and shares the cores, the memory and the devices
  of a board among guests. A core enters it by an exception or an interrupt; the handlers dispatch to the
  hypercalls, to the emulated devices (among them the virtual interrupt controller and the virtio devices),
  to the firmware calls, or to the scheduler. Cores talk to each other by messages in queues, announced by a
  software-generated interrupt. Guest 0, the manager, configures, starts, migrates and removes the others by
  hypercalls and serves their block requests.

  How the code is modelled. A function that may panic (by \<open>panic!\<close>, \<open>unwrap\<close>, an index out of range, an overflow, a
  division by zero or \<open>todo!\<close>) is a function into \<open>option\<close> and \<open>None\<close> is the panic; overflow is checked, as in
  a build with debug assertions. A Rust \<open>Result\<close> is a sum with the error on the left. \<open>usize\<close> is \<open>nat\<close> with checked operations
  (theory Prelude), other integers and all bit patterns are words of their width, \<open>isize\<close> is \<open>int\<close> with checked operations.
  An \<open>Arc\<close> is an index into a store in the state, so that the holders of a clone see each other's writes; stores only
  grow. Locks are left out: an operation runs alone, and what another core does meanwhile is a message in a
  queue, a step of a relation (Barrier) or a parameter. A call that does not come back (the idle loop, entering a guest,
  a reset) returns a value of \<open>Control\<close>, and what follows it is not executed. Printing is left out.

  Loops. Loops over a range, a list or a fixed number of words are structural recursion or \<open>function\<close> with a
  termination proof. Loops that end only when a guest or another core lets them (descriptor chains, the queues of the
  devices, waiting loops, the message drain) are \<open>partial_function (option)\<close>, where \<open>None\<close> also stands for not
  ending; the properties about them say under which condition they return a value. No loop has fuel.

  The states. \<open>phys\<close> (Heap): the page heap and the physical memory. \<open>Machine\<close> (Machine): a core, its hardware registers and the
  objects the cores share. \<open>Sys\<close> (Mmio): a machine, the physical memory, the memory of the guests
  and the devices. \<open>Hyp\<close> (GuestInit): all of it with the memory handed to guests, the system MMU, the memory shared
  between guests and the barrier.

  Theories, from the bottom, with their files below \<open>src/src\<close>.

  Prelude, Util, Bitmap: the vocabulary, \<open>lib/util.rs\<close> and \<open>lib/bitmap.rs\<close>. The locale \<open>bit_alloc\<close> states what a bitmap of some size
  promises and is interpreted on the four sizes.
  Heap, VmRegion: \<open>mm/page_frame.rs\<close>, \<open>kernel/mem_region.rs\<close>, \<open>kernel/mem.rs\<close>: pages for the hypervisor (C1 to C3: allocation is exact, two live
  allocations never share a page, a free gives back what was taken) and memory for guests (C4, C5).
  PageTable, PageTree, Stage2: \<open>arch/aarch64/page_table.rs\<close>. PageTree has the locale \<open>page_source\<close>, what a page table relies on, and proves the
  operations against the lookup of the MMU; Stage2 interprets it on the heap. C6: mapping changes one page;
  C7: unmapping restores the translations, the tables and the heap.
  GuestMem, Config: the address tables of \<open>kernel/vm.rs\<close> (C8) and the configurations of \<open>config/config.rs\<close> with the mediated
  devices (C11).
  Gic, Context: \<open>arch/aarch64/gic.rs\<close> and \<open>context_frame.rs\<close>; the locale \<open>field_bank\<close> covers the register banks.
  Machine, Ipi, Vm, Vcpu: \<open>kernel/cpu.rs\<close>, \<open>ipi.rs\<close>, \<open>vm.rs\<close>, \<open>vcpu.rs\<close> and \<open>vcpu_array.rs\<close>: delivery of messages (C14), assignment of virtual CPUs (C15).
  Vgic, VgicEmu, VgicProps, Interrupt: \<open>arch/aarch64/vgic.rs\<close> and \<open>kernel/interrupt.rs\<close>: list registers (C12) and the pending and active lists (C13); the locale
  \<open>vgic_register\<close> covers the emulated register banks.
  Sched, SchedProps: \<open>kernel/sched/sched_rr.rs\<close>, \<open>kernel/timer.rs\<close> and the context switch: what a switch saves and restores (C16), the invariant of the run queue
  over all steps (C17) and its rotation (C18).
  Emu, FairQueue, Iov: \<open>device/emu.rs\<close> (C19), the task queue of \<open>kernel/async_task.rs\<close> (C20; locales \<open>task_queue\<close> and \<open>fair_queue\<close>) and \<open>device/virtio/iov.rs\<close> (C21).
  Virtq, VirtioDev, Mmio, HvcMessage: \<open>device/virtio/queue.rs\<close>, \<open>dev.rs\<close>, \<open>mmio.rs\<close> and the messages of \<open>kernel/hvc.rs\<close>: rings as queues (C9, C10), the shape of a device (C22, C23), the
  message ring (C24).
  BlkDev, BlkProps, NetDev, NetProps: \<open>device/virtio/blk.rs\<close>, \<open>mediated.rs\<close>, \<open>net.rs\<close>, \<open>console.rs\<close> and the tasks of \<open>async_task.rs\<close>: requests and completions (C25 to C29),
  frames (C30, C31).
  Barrier: \<open>lib/barrier.rs\<close> as steps of cores that run at once: safety and completion over all interleavings (C32, C33) and the
  barrier that opens early (C34).
  Smmu: \<open>arch/aarch64/smmu.rs\<close> and \<open>kernel/iommu.rs\<close> (C37 to C39).
  Psci: \<open>arch/aarch64/psci.rs\<close>: starting a virtual CPU (C40).
  GuestInit, VmmInit, Fdt: \<open>vmm/init.rs\<close>, \<open>kernel/ivc.rs\<close>, \<open>device/device_tree.rs\<close>: the memory of a guest (C35) and that guests share none (C36).
  VmmManager, VgicMigrate, Migrate, Unilib, Hypercall, Trap: \<open>vmm/manager.rs\<close>, \<open>vmm/remove.rs\<close>, \<open>kernel/migrate.rs\<close>, \<open>lib/unilib.rs\<close>, \<open>kernel/hvc.rs\<close>, \<open>arch/aarch64/exception.rs\<close>
  and \<open>sync.rs\<close>: definitions that put the components together up to the entry of the hypervisor.

  Bounds. The heap has at most 65536 pages, the size of its bitmap. A stage-2 table translates addresses below
  \<open>2 ^ 39\<close>. Mapping \<open>n\<close> pages takes one page frame for every 2 MB and one for every 1 GB of the range that have no table yet
  (\<open>range_tables\<close>); a guest of 1 GB, the size in \<open>config/vm_def.rs\<close>, takes 513 and one for the directory. A ring has at
  most 512 entries, and \<open>num\<close> must divide \<open>2 ^ 16\<close> for the sixteen-bit indices to wrap evenly.

  Parameters. Code that is not in the repository, or that is hardware, is an argument: the two device tree libraries and the
  files bound into the image (\<open>Bound\<close>), the firmware, the physical counter, the distributor registers that guests
  reach directly, what other cores do while this one waits, and the upgrade of the hypervisor itself
  (\<open>Env\<close>); the syndrome registers of an exception (\<open>Syndrome\<close>). The page table operations take the page allocator as
  an argument, and the emulated devices their handlers, because both are used with several.

  Not modelled. The boot path, the hypervisor's own mapping, caches and TLBs (assembly and system registers
  only); the drivers of the board (serial line, GPIO, the host's virtio block driver and its FAT file system), which only
  move bytes; the descriptions of the boards and the static configurations of guests, which are data; the
  allocator behind Rust's own heap; the upgrade of a running hypervisor (\<open>kernel/live_update.rs\<close>), which copies every object above
  field by field; printing, logging and panics. Assumed of the hardware: reads of memory give the last write, and
  interrupt controller and MMU do what their registers say.

  What the proofs showed. Several properties state defects rather than guarantees: C27 (a block request beyond the region
  of the guest is passed on), C31, C34 and C39; others carry the condition without which they fail, such as the gap
  between memory regions in C8 and C35 or the ring size in C10.
\<close>

end
